(* ===== verification/Prelude.thy ===== *)
theory Prelude
  imports Main
begin

text \<open>
  Shared vocabulary of the development: names for the Go types the sources use, the proof
  collections the component theories fill, the pieces of the Go standard library that several
  components call (\<^verbatim>\<open>strconv.FormatInt\<close>, \<^verbatim>\<open>fmt\<close>'s \<^verbatim>\<open>%q\<close>, \<^verbatim>\<open>hex.EncodeToString\<close>), and generic
  lemmas about lists and sums.

  A Go \<^verbatim>\<open>string\<close> or \<^verbatim>\<open>[]byte\<close> is a \<open>char list\<close>: a \<open>char\<close> is one byte, so \<open>length\<close> counts
  bytes as \<^verbatim>\<open>len\<close> does.  A fallible call \<^verbatim>\<open>(T, error)\<close> is a value of \<open>error + T\<close>, \<open>Inl\<close> for
  the error; a call that returns only an \<^verbatim>\<open>error\<close> is an \<open>error option\<close>, \<open>None\<close> for \<^verbatim>\<open>nil\<close>.
  A pointer that may be \<^verbatim>\<open>nil\<close> is an \<open>option\<close>.  Sequence numbers and fences are \<^verbatim>\<open>int64\<close> in
  the source; they start at 0 and only ever grow by one per committed record or minted fence,
  so they are \<open>int\<close> here.
\<close>

type_synonym bytes = string
type_synonym int64 = int
type_synonym int32 = int

named_theorems store_laws "what an event-log store promises"
named_theorems sink_simps "one equation per sink operation and branch"
named_theorems proto_simps "wire conversions, one direction after the other"

section \<open>Formatting\<close>

definition digit :: "nat \<Rightarrow> char" where
  "digit n = char_of (48 + n)"

fun format_nat :: "nat \<Rightarrow> string" where
  "format_nat n = (if n < 10 then [digit n] else format_nat (n div 10) @ [digit (n mod 10)])"

declare format_nat.simps [simp del]

text \<open>\<^verbatim>\<open>strconv.FormatInt(i, 10)\<close>, which is also what \<^verbatim>\<open>%d\<close> prints.\<close>

definition format_int :: "int \<Rightarrow> string" where
  "format_int i = (if i < 0 then CHR ''-'' # format_nat (nat (- i)) else format_nat (nat i))"

definition hex_digit :: "nat \<Rightarrow> char" where
  "hex_digit n = (if n < 10 then char_of (48 + n) else char_of (87 + n))"

definition hex_byte :: "char \<Rightarrow> string" where
  "hex_byte c = [hex_digit (of_char c div 16), hex_digit (of_char c mod 16)]"

text \<open>\<^verbatim>\<open>hex.EncodeToString\<close>: two lower-case digits per byte.\<close>

definition hex_encode :: "bytes \<Rightarrow> string" where
  "hex_encode bs = concat (map hex_byte bs)"

text \<open>
  \<^verbatim>\<open>%q\<close>: a double-quoted Go literal.  Bytes from 128 on are copied, which is what Go does for
  the bytes of a printable UTF-8 rune.
\<close>

definition quote_char :: "char \<Rightarrow> string" where
  "quote_char c =
     (let n = (of_char c :: nat); bs = CHR 0x5C in
      if n = 34 then [bs, c] else if n = 92 then [bs, c]
      else if n = 7 then [bs, CHR ''a''] else if n = 8 then [bs, CHR ''b'']
      else if n = 12 then [bs, CHR ''f''] else if n = 10 then [bs, CHR ''n'']
      else if n = 13 then [bs, CHR ''r''] else if n = 9 then [bs, CHR ''t'']
      else if n = 11 then [bs, CHR ''v'']
      else if n < 32 \<or> n = 127 then [bs, CHR ''x''] @ hex_byte c
      else [c])"

definition format_q :: "string \<Rightarrow> string" where
  "format_q s = CHR 0x22 # concat (map quote_char s) @ [CHR 0x22]"

text \<open>The em dash of the source's messages, as its three UTF-8 bytes.\<close>

definition em_dash :: string where
  "em_dash = [CHR 0xE2, CHR 0x80, CHR 0x94]"

section \<open>Decimal notation is injective\<close>

fun parse_digits :: "nat \<Rightarrow> string \<Rightarrow> nat" where
  "parse_digits acc [] = acc"
| "parse_digits acc (c # cs) = parse_digits (10 * acc + (of_char c - 48)) cs"

lemma of_char_digit: "n < 10 \<Longrightarrow> of_char (digit n) = 48 + n"
  by (simp add: digit_def of_char_of)

lemma parse_digits_append:
  "parse_digits acc (xs @ ys) = parse_digits (parse_digits acc xs) ys"
  by (induction xs arbitrary: acc) auto

lemma parse_format_nat: "parse_digits 0 (format_nat n) = n"
proof (induction n rule: format_nat.induct)
  case (1 n)
  show ?case
  proof (cases "n < 10")
    case True
    then show ?thesis by (simp add: format_nat.simps [of n] of_char_digit)
  next
    case False
    with 1 have "parse_digits 0 (format_nat (n div 10)) = n div 10" by simp
    with False show ?thesis
      by (simp add: format_nat.simps [of n] parse_digits_append of_char_digit)
  qed
qed

lemma format_nat_inj: "format_nat m = format_nat n \<Longrightarrow> m = n"
  by (metis parse_format_nat)

lemma format_nat_digits: "c \<in> set (format_nat n) \<Longrightarrow> 48 \<le> (of_char c :: nat) \<and> (of_char c :: nat) < 58"
proof (induction n rule: format_nat.induct)
  case (1 n)
  show ?case
  proof (cases "n < 10")
    case True
    with 1(2) show ?thesis by (simp add: format_nat.simps [of n] of_char_digit)
  next
    case False
    from 1(2) False have "c \<in> set (format_nat (n div 10)) \<or> c = digit (n mod 10)"
      by (auto simp: format_nat.simps [of n])
    then show ?thesis
    proof
      assume "c \<in> set (format_nat (n div 10))"
      with 1(1) False show ?thesis by simp
    qed (simp add: of_char_digit)
  qed
qed

lemma format_nat_nonempty [simp]: "format_nat n \<noteq> []"
  by (simp add: format_nat.simps [of n])

lemma format_int_inj: "format_int i = format_int j \<Longrightarrow> i = j"
proof -
  assume eq: "format_int i = format_int j"
  have no_minus: "hd (format_nat n) \<noteq> CHR ''-''" for n
    using format_nat_digits [of "hd (format_nat n)" n] by (auto simp: hd_in_set)
  have cons: "CHR ''-'' # xs \<noteq> format_nat n" for xs n
    using no_minus [of n] by (metis list.sel(1))
  show ?thesis
  proof (cases "i < 0"; cases "j < 0")
    assume "i < 0" "j < 0"
    with eq have "nat (- i) = nat (- j)" by (auto simp: format_int_def dest: format_nat_inj)
    with \<open>i < 0\<close> \<open>j < 0\<close> show ?thesis by linarith
  next
    assume "\<not> i < 0" "\<not> j < 0"
    with eq have "nat i = nat j" by (auto simp: format_int_def dest: format_nat_inj)
    with \<open>\<not> i < 0\<close> \<open>\<not> j < 0\<close> show ?thesis by linarith
  next
    assume "i < 0" "\<not> j < 0"
    with eq cons show ?thesis by (auto simp: format_int_def)
  next
    assume "\<not> i < 0" "j < 0"
    with eq cons show ?thesis by (auto simp: format_int_def dest: sym)
  qed
qed

lemma format_int_nonempty [simp]: "format_int i \<noteq> []"
  by (simp add: format_int_def)

lemma hex_encode_eq_Nil [simp]: "hex_encode bs = [] \<longleftrightarrow> bs = []"
  by (cases bs) (simp_all add: hex_encode_def hex_byte_def)

lemma hex_digit_code: "k < 16 \<Longrightarrow> of_char (hex_digit k) = (if k < 10 then 48 + k else 87 + k :: nat)"
  by (simp add: hex_digit_def)

lemma hex_digit_inj: "m < 16 \<Longrightarrow> n < 16 \<Longrightarrow> hex_digit m = hex_digit n \<Longrightarrow> m = n"
proof -
  assume m: "m < 16" and n: "n < 16" and eq: "hex_digit m = hex_digit n"
  then have "(if m < 10 then 48 + m else 87 + m) = (if n < 10 then 48 + n else 87 + n)"
    by (metis hex_digit_code)
  with m n show ?thesis by (simp split: if_splits)
qed

lemma hex_byte_inj: "hex_byte c = hex_byte d \<Longrightarrow> c = d"
proof -
  assume eq: "hex_byte c = hex_byte d"
  have lt: "of_char x div 16 < (16::nat)" for x :: char
    using nat_of_char_less_256 [of x] by linarith
  from eq have "of_char c div 16 = (of_char d div 16 :: nat)" "of_char c mod 16 = (of_char d mod 16 :: nat)"
    using lt by (auto simp: hex_byte_def intro: hex_digit_inj)
  then have "(of_char c :: nat) = of_char d" by (metis div_mult_mod_eq)
  then show ?thesis by simp
qed

lemma hex_encode_inj: "hex_encode xs = hex_encode ys \<Longrightarrow> xs = ys"
proof (induction xs arbitrary: ys)
  case Nil
  then show ?case by (simp add: hex_encode_def hex_byte_def)
next
  case (Cons x xs)
  then obtain y ys' where ys: "ys = y # ys'"
    by (cases ys) (auto simp: hex_encode_def hex_byte_def)
  with Cons.prems have "hex_byte x = hex_byte y" "hex_encode xs = hex_encode ys'"
    by (auto simp: hex_encode_def hex_byte_def)
  with Cons.IH ys show ?case by (auto dest: hex_byte_inj)
qed

section \<open>Lists and sums\<close>

lemma filter_conv_takeWhile_le:
  fixes f :: "'a \<Rightarrow> int"
  assumes "sorted (map f xs)"
  shows "takeWhile (\<lambda>x. f x \<le> b) xs = filter (\<lambda>x. f x \<le> b) xs"
  using assms
proof (induction xs)
  case Nil
  show ?case by simp
next
  case (Cons x xs)
  then have tail: "\<forall>y\<in>set xs. f x \<le> f y" and IH: "takeWhile (\<lambda>x. f x \<le> b) xs = filter (\<lambda>x. f x \<le> b) xs"
    by auto
  show ?case
  proof (cases "f x \<le> b")
    case True
    with IH show ?thesis by simp
  next
    case False
    then have "\<forall>y\<in>set xs. \<not> f y \<le> b" using tail by force
    with False show ?thesis by (simp add: filter_empty_conv)
  qed
qed

lemma sum_isl_cases: "(case r of Inl e \<Rightarrow> Inl e | Inr x \<Rightarrow> Inr x) = r"
  by (cases r) auto

end
