(* ===== verification/Go_Errors.thy ===== *)
theory Go_Errors
  imports Prelude
begin

text \<open>
  Go error values and the approval park of \<^verbatim>\<open>api/approval.go\<close>.  An error is a tree:
  \<^verbatim>\<open>errors.New\<close> makes a leaf, \<^verbatim>\<open>fmt.Errorf\<close> with one \<^verbatim>\<open>%w\<close> a node with one child, and
  \<^verbatim>\<open>errors.Join\<close> or \<^verbatim>\<open>fmt.Errorf\<close> with several \<^verbatim>\<open>%w\<close> a node with several.  A node carries its
  rendered message, because the controller journals \<^verbatim>\<open>err.Error()\<close>.  The sentinels the
  sources compare with \<^verbatim>\<open>errors.Is\<close> have pairwise different messages, so equality of the model
  values is the identity of the Go pointers.  A gRPC status error is a leaf with a code and a
  description; \<^verbatim>\<open>statusCause\<close> of the session service chooses a code for the error it unwraps to.
\<close>

datatype grpc_code =
    CodeCanceled | CodeUnknown | CodeInvalidArgument | CodeDeadlineExceeded | CodeNotFound
  | CodeAlreadyExists | CodeFailedPrecondition | CodeAborted | CodeInternal | CodeUnavailable
  | CodeOther string

text \<open>\<^verbatim>\<open>codes.Code.String\<close>; \<open>CodeOther\<close> is any of the codes the sources never name.\<close>

fun code_text :: "grpc_code \<Rightarrow> string" where
  "code_text CodeCanceled = ''Canceled''"
| "code_text CodeUnknown = ''Unknown''"
| "code_text CodeInvalidArgument = ''InvalidArgument''"
| "code_text CodeDeadlineExceeded = ''DeadlineExceeded''"
| "code_text CodeNotFound = ''NotFound''"
| "code_text CodeAlreadyExists = ''AlreadyExists''"
| "code_text CodeFailedPrecondition = ''FailedPrecondition''"
| "code_text CodeAborted = ''Aborted''"
| "code_text CodeInternal = ''Internal''"
| "code_text CodeUnavailable = ''Unavailable''"
| "code_text (CodeOther s) = s"

record approval_ref =
  ref_executionID :: string
  ref_toolCallID :: string
  ref_requestSeq :: int64

datatype goerr =
    ErrNew string
  | ApprovalParkedError approval_ref
  | ErrWrap string goerr
  | ErrMulti string "goerr list"
  | ErrStatus grpc_code string
  | ErrStatusCause grpc_code goerr

definition ErrApprovalParked :: goerr where
  "ErrApprovalParked = ErrNew ''approval parked''"

text \<open>\<^verbatim>\<open>err.Error()\<close>.\<close>

definition status_text :: "grpc_code \<Rightarrow> string \<Rightarrow> string" where
  "status_text c desc = ''rpc error: code = '' @ code_text c @ '' desc = '' @ desc"

fun error_text :: "goerr \<Rightarrow> string" where
  "error_text (ErrNew s) = s"
| "error_text (ApprovalParkedError r) =
     ''approval parked: execution='' @ format_q (ref_executionID r)
       @ '' tool_call='' @ format_q (ref_toolCallID r)
       @ '' request_seq='' @ format_int (ref_requestSeq r)"
| "error_text (ErrWrap s _) = s"
| "error_text (ErrMulti s _) = s"
| "error_text (ErrStatus c desc) = status_text c desc"
| "error_text (ErrStatusCause c e) = status_text c (error_text e)"

text \<open>\<^verbatim>\<open>fmt.Errorf("pre%wsuf", e)\<close> and \<^verbatim>\<open>fmt.Errorf("%wmid%w", e1, e2)\<close>.\<close>

definition errorf :: "string \<Rightarrow> goerr \<Rightarrow> string \<Rightarrow> goerr" where
  "errorf pre e suf = ErrWrap (pre @ error_text e @ suf) e"

definition errorf2 :: "goerr \<Rightarrow> string \<Rightarrow> goerr \<Rightarrow> goerr" where
  "errorf2 e1 mid e2 = ErrMulti (error_text e1 @ mid @ error_text e2) [e1, e2]"

text \<open>
  \<^verbatim>\<open>errors.Is(err, target)\<close>: the error itself, or anything reached through \<^verbatim>\<open>Unwrap\<close>; a park
  unwraps to \<^verbatim>\<open>ErrApprovalParked\<close>.
\<close>

fun errors_is :: "goerr \<Rightarrow> goerr \<Rightarrow> bool" where
  "errors_is (ErrNew s) t = (ErrNew s = t)"
| "errors_is (ApprovalParkedError r) t = (ApprovalParkedError r = t \<or> ErrApprovalParked = t)"
| "errors_is (ErrWrap s e) t = (ErrWrap s e = t \<or> errors_is e t)"
| "errors_is (ErrMulti s es) t = (ErrMulti s es = t \<or> (\<exists>e \<in> set es. errors_is e t))"
| "errors_is (ErrStatus c s) t = (ErrStatus c s = t)"
| "errors_is (ErrStatusCause c e) t = (ErrStatusCause c e = t \<or> errors_is e t)"

text \<open>
  \<^verbatim>\<open>errors.As(err, &parked)\<close>: the first park in depth-first order.
\<close>

fun first_some :: "'a option list \<Rightarrow> 'a option" where
  "first_some [] = None"
| "first_some (Some x # _) = Some x"
| "first_some (None # xs) = first_some xs"

fun errors_as_parked :: "goerr \<Rightarrow> approval_ref option" where
  "errors_as_parked (ErrNew _) = None"
| "errors_as_parked (ApprovalParkedError r) = Some r"
| "errors_as_parked (ErrWrap _ e) = errors_as_parked e"
| "errors_as_parked (ErrMulti _ es) = first_some (map errors_as_parked es)"
| "errors_as_parked (ErrStatus _ _) = None"
| "errors_as_parked (ErrStatusCause _ e) = errors_as_parked e"

text \<open>\<^verbatim>\<open>status.Code(err)\<close>: the first status in depth-first order, or \<^verbatim>\<open>Unknown\<close>.\<close>

fun errors_as_status :: "goerr \<Rightarrow> grpc_code option" where
  "errors_as_status (ErrNew _) = None"
| "errors_as_status (ApprovalParkedError _) = None"
| "errors_as_status (ErrWrap _ e) = errors_as_status e"
| "errors_as_status (ErrMulti _ es) = first_some (map errors_as_status es)"
| "errors_as_status (ErrStatus c _) = Some c"
| "errors_as_status (ErrStatusCause c _) = Some c"

definition status_code :: "goerr \<Rightarrow> grpc_code" where
  "status_code e = (case errors_as_status e of None \<Rightarrow> CodeUnknown | Some c \<Rightarrow> c)"

text \<open>
  \<^verbatim>\<open>IsParkUnwind\<close>.  Its loop follows single-child \<^verbatim>\<open>Unwrap\<close>s and, at the first node with
  several children, requires the whole predicate of every child.
\<close>

fun park_walk :: "goerr \<Rightarrow> approval_ref \<Rightarrow> bool" where
  "park_walk (ErrNew _) ref = True"
| "park_walk (ApprovalParkedError _) ref = True"
| "park_walk (ErrWrap _ e) ref = park_walk e ref"
| "park_walk (ErrMulti _ es) ref =
     (\<forall>c \<in> set es. errors_as_parked c = Some ref \<and> park_walk c ref)"
| "park_walk (ErrStatus _ _) ref = True"
| "park_walk (ErrStatusCause _ e) ref = park_walk e ref"

definition IsParkUnwind :: "goerr \<Rightarrow> approval_ref \<Rightarrow> bool" where
  "IsParkUnwind err ref \<longleftrightarrow> errors_as_parked err = Some ref \<and> park_walk err ref"

section \<open>What IsParkUnwind decides\<close>

text \<open>The leaves of an error tree: the errors with nothing below them.\<close>

fun error_leaves :: "goerr \<Rightarrow> goerr list" where
  "error_leaves (ErrNew s) = [ErrNew s]"
| "error_leaves (ApprovalParkedError r) = [ApprovalParkedError r]"
| "error_leaves (ErrWrap _ e) = error_leaves e"
| "error_leaves (ErrMulti s es) =
     (if es = [] then [ErrMulti s []] else concat (map error_leaves es))"
| "error_leaves (ErrStatus c s) = [ErrStatus c s]"
| "error_leaves (ErrStatusCause _ e) = error_leaves e"

lemma error_leaves_nonempty [simp]: "error_leaves e \<noteq> []"
  by (induction e rule: error_leaves.induct) auto

lemma first_some_all: "xs \<noteq> [] \<Longrightarrow> \<forall>x\<in>set xs. x = Some r \<Longrightarrow> first_some xs = Some r"
  by (cases xs) auto

lemma park_leaves_iff:
  "errors_as_parked e = Some ref \<and> park_walk e ref \<longleftrightarrow>
     (\<forall>l \<in> set (error_leaves e). l = ApprovalParkedError ref)"
proof (induction e)
  case (ErrMulti s es)
  show ?case
  proof (cases "es = []")
    case True
    then show ?thesis by simp
  next
    case False
    have "(\<forall>c\<in>set es. errors_as_parked c = Some ref \<and> park_walk c ref) \<longleftrightarrow>
        (\<forall>c\<in>set es. \<forall>l \<in> set (error_leaves c). l = ApprovalParkedError ref)"
      using ErrMulti.IH by auto
    moreover have "(\<forall>c\<in>set es. errors_as_parked c = Some ref) \<Longrightarrow>
        first_some (map errors_as_parked es) = Some ref"
      using False by (intro first_some_all) auto
    ultimately show ?thesis using False by auto
  qed
qed auto

lemma errors_is_wrap [simp]: "errors_is e t \<Longrightarrow> errors_is (errorf pre e suf) t"
  by (simp add: errorf_def)

lemma errors_is_self [simp]: "errors_is e e"
  by (cases e) auto

lemma errors_is_errorf2 [simp]:
  "errors_is e1 t \<Longrightarrow> errors_is (errorf2 e1 mid e2) t"
  "errors_is e2 t \<Longrightarrow> errors_is (errorf2 e1 mid e2) t"
  by (auto simp: errorf2_def)

lemma IsParkUnwind_is_parked:
  "IsParkUnwind e ref \<Longrightarrow> errors_is e ErrApprovalParked"
proof -
  have all: "(\<forall>l \<in> set (error_leaves e). l = ApprovalParkedError ref) \<Longrightarrow> errors_is e ErrApprovalParked"
  proof (induction e)
    case (ErrMulti s es)
    then have "es \<noteq> []" by auto
    then obtain c where c: "c \<in> set es" by (cases es) auto
    from c ErrMulti.prems have "\<forall>l \<in> set (error_leaves c). l = ApprovalParkedError ref"
      by (auto split: if_splits)
    with ErrMulti.IH [OF c] have "errors_is c ErrApprovalParked" by simp
    with c show ?case by auto
  qed (auto simp: ErrApprovalParked_def)
  assume "IsParkUnwind e ref"
  with all show ?thesis by (simp add: IsParkUnwind_def park_leaves_iff)
qed

end
