(* ===== verification/Api_Types.thy ===== *)
theory Api_Types
  imports Go_Errors
begin

text \<open>
  The domain types of package \<^verbatim>\<open>api\<close>: \<^verbatim>\<open>types.go\<close>, \<^verbatim>\<open>harness.go\<close>, \<^verbatim>\<open>runtime.go\<close> and
  \<^verbatim>\<open>state.go\<close>.  A Go string enumeration is a datatype with one constructor per declared
  constant and one for every other string, because a value decoded from the wire may be none of
  the constants.  A struct is a \<^theory_text>\<open>record\<close>, except for the three structs that contain each
  other (\<open>Part\<close>, \<open>ReasoningPart\<close>, \<open>ToolResult\<close>), which are mutually recursive datatypes with
  the fields as selectors.
\<close>

section \<open>Enumerations\<close>

datatype event_kind =
    EventInput | EventModelCall | EventOutput | EventToolCall | EventToolResult
  | EventApprovalRequest | EventApprovalResult | EventUsage | EventLifecycle | EventEnd
  | EventError | EventExecutionStart | EventParked
  | EventKindOther string

fun kind_text :: "event_kind \<Rightarrow> string" where
  "kind_text EventInput = ''INPUT''"
| "kind_text EventModelCall = ''MODEL_CALL''"
| "kind_text EventOutput = ''OUTPUT''"
| "kind_text EventToolCall = ''TOOL_CALL''"
| "kind_text EventToolResult = ''TOOL_RESULT''"
| "kind_text EventApprovalRequest = ''APPROVAL_REQUEST''"
| "kind_text EventApprovalResult = ''APPROVAL_RESULT''"
| "kind_text EventUsage = ''USAGE''"
| "kind_text EventLifecycle = ''LIFECYCLE''"
| "kind_text EventEnd = ''END''"
| "kind_text EventError = ''ERROR''"
| "kind_text EventExecutionStart = ''EXECUTION_START''"
| "kind_text EventParked = ''PARKED''"
| "kind_text (EventKindOther s) = s"

datatype lifecycle_kind =
    LifecycleSuspend | LifecycleResume | LifecycleFork | LifecycleBaseline
  | LifecycleCancel | LifecycleDelete
  | LifecycleKindOther string

datatype mediation =
    MediationInHarnessReported | MediationControllerMediated | MediationRequiresApproval
  | MediationOther string

fun mediation_text :: "mediation \<Rightarrow> string" where
  "mediation_text MediationInHarnessReported = ''IN_HARNESS_REPORTED''"
| "mediation_text MediationControllerMediated = ''CONTROLLER_MEDIATED''"
| "mediation_text MediationRequiresApproval = ''REQUIRES_APPROVAL''"
| "mediation_text (MediationOther s) = s"

datatype compute_state =
    ComputeNone | ComputeLive | ComputeWarm | ComputeCold | ComputeTerminated
  | ComputeStateOther string

datatype deletion_state = DeletionActive | DeletionPending | DeletionStateOther string

datatype exec_state =
    ExecPending | ExecRunning | ExecAwaiting | ExecCompleted | ExecFailed | ExecCanceled
  | ExecStateOther string

datatype resumability =
    ResumabilityStatelessReplay | ResumabilityRequiresMemorySnapshot | ResumabilityOther string

section \<open>Message content\<close>

text \<open>
  The dynamic values of a content map (\<^verbatim>\<open>map[string]any\<close>).  A map is its association list
  sorted by key, so that equality is \<^verbatim>\<open>reflect.DeepEqual\<close>.  A \<^verbatim>\<open>float64\<close> is kept as its 64 bits
  (an \<open>int\<close>); Go's other integer types are \<open>GoInt\<close>; a value that has no JSON form (a channel, a
  function) is \<open>GoOpaque\<close>.
\<close>

datatype goval =
    GoNil | GoBool bool | GoFloat int | GoInt int | GoString string
  | GoList "goval list" | GoMap "(string \<times> goval) list" | GoOpaque nat

type_synonym content = "(string \<times> goval) list"

record identity_ref =
  id_principal :: string
  id_issuer :: string
  id_subject :: string

definition empty_identity :: identity_ref where
  "empty_identity = \<lparr>id_principal = [], id_issuer = [], id_subject = []\<rparr>"

record file_part =
  fp_mime :: string
  fp_bytes :: "bytes option"
  fp_uri :: string
  fp_digest :: string
  fp_name :: string

record tool_call =
  tc_id :: string
  tc_tool :: string
  tc_args :: "content option"
  tc_mediation :: mediation
  tc_idempotencyKey :: string

text \<open>
  \<^verbatim>\<open>ToolResultCode\<close> is an \<^verbatim>\<open>int32\<close> with three declared values.
\<close>

abbreviation (input) ToolResultCodeUnspecified :: int32 where "ToolResultCodeUnspecified \<equiv> 0"
abbreviation (input) ToolResultCodeApprovalDenied :: int32 where "ToolResultCodeApprovalDenied \<equiv> 1"
abbreviation (input) ToolResultCodeExecutorError :: int32 where "ToolResultCodeExecutorError \<equiv> 2"

record approval_result =
  ar_toolCallID :: string
  ar_approved :: bool
  ar_reason :: string
  ar_requestSeq :: int64

datatype part =
  Part (p_text: "string option") (p_file: "file_part option") (p_data: "content option")
    (p_reasoning: "reasoning_part option") (p_toolCall: "tool_call option")
    (p_toolResult: "tool_result option")
and reasoning_part =
  ReasoningPart (rp_provider: string) (rp_modelID: string) (rp_opaque: "bytes option")
    (rp_opaqueURI: string) (rp_opaqueDigest: string) (rp_summary: "part list")
    (rp_itemID: string) (rp_ordinal: int32) (rp_validityScope: string)
and tool_result =
  ToolResult (tr_id: string) (tr_output: "content option") (tr_outputURI: string)
    (tr_outputDigest: string) (tr_isError: bool) (tr_error: string) (tr_content: "part list")
    (tr_code: int32) (tr_approvalRequestSeq: int64) (tr_approvalDecisionSeq: int64)
    (tr_approval: "approval_result option")

definition empty_tool_result :: tool_result where
  "empty_tool_result = ToolResult [] None [] [] False [] [] 0 0 0 None"

text \<open>\<^verbatim>\<open>result.ID = id\<close> on a copy of a tool result, and the other field assignments the host makes.\<close>

definition set_tr_id :: "string \<Rightarrow> tool_result \<Rightarrow> tool_result" where
  "set_tr_id i r = ToolResult i (tr_output r) (tr_outputURI r) (tr_outputDigest r) (tr_isError r)
     (tr_error r) (tr_content r) (tr_code r) (tr_approvalRequestSeq r) (tr_approvalDecisionSeq r)
     (tr_approval r)"

definition set_tr_error :: "string \<Rightarrow> tool_result \<Rightarrow> tool_result" where
  "set_tr_error e r = ToolResult (tr_id r) (tr_output r) (tr_outputURI r) (tr_outputDigest r) True
     e (tr_content r) (tr_code r) (tr_approvalRequestSeq r) (tr_approvalDecisionSeq r)
     (tr_approval r)"

definition set_tr_code :: "int32 \<Rightarrow> tool_result \<Rightarrow> tool_result" where
  "set_tr_code c r = ToolResult (tr_id r) (tr_output r) (tr_outputURI r) (tr_outputDigest r)
     (tr_isError r) (tr_error r) (tr_content r) c (tr_approvalRequestSeq r)
     (tr_approvalDecisionSeq r) (tr_approval r)"

definition set_tr_binding :: "int64 \<Rightarrow> int64 \<Rightarrow> approval_result option \<Rightarrow> tool_result \<Rightarrow> tool_result" where
  "set_tr_binding rq dc a r = ToolResult (tr_id r) (tr_output r) (tr_outputURI r)
     (tr_outputDigest r) (tr_isError r) (tr_error r) (tr_content r) (tr_code r) rq dc a"

lemmas tool_result_setters = set_tr_id_def set_tr_error_def set_tr_code_def set_tr_binding_def

record message =
  msg_role :: string
  msg_parts :: "part list"

definition text_part :: "string \<Rightarrow> part" where
  "text_part t = Part (Some t) None None None None None"

definition TextMessage :: "string \<Rightarrow> string \<Rightarrow> message" where
  "TextMessage role t = \<lparr>msg_role = role, msg_parts = [text_part t]\<rparr>"

text \<open>\<^verbatim>\<open>(*Message).Text\<close>: the text parts, concatenated in order.\<close>

fun parts_text :: "string \<Rightarrow> part list \<Rightarrow> string" where
  "parts_text s [] = s"
| "parts_text s (p # ps) = (case p_text p of None \<Rightarrow> parts_text s ps | Some t \<Rightarrow> parts_text (s @ t) ps)"

definition Message_Text :: "message \<Rightarrow> string" where
  "Message_Text m = parts_text [] (msg_parts m)"

definition empty_message :: message where
  "empty_message = \<lparr>msg_role = [], msg_parts = []\<rparr>"

lemma Message_Text_TextMessage [simp]: "Message_Text (TextMessage role t) = t"
  by (simp add: Message_Text_def TextMessage_def text_part_def)

section \<open>Events\<close>

record model_call =
  mc_model :: string
  mc_params :: "(string \<times> string) list"
  mc_inputHash :: string
  mc_id :: string

record usage =
  u_model :: string
  u_inputTokens :: int64
  u_outputTokens :: int64
  u_reasoningTokens :: int64

definition empty_usage :: usage where
  "empty_usage = \<lparr>u_model = [], u_inputTokens = 0, u_outputTokens = 0, u_reasoningTokens = 0\<rparr>"

record approval_request =
  aq_toolCallID :: string
  aq_reason :: string

record api_error =
  err_code :: int32
  err_description :: string

record harness_end =
  he_state :: string
  he_error :: "api_error option"

record snapshot_ref =
  sr_local :: string
  sr_externalURI :: string
  sr_memory :: bool
  sr_sealed :: bool

record lifecycle =
  lc_kind :: lifecycle_kind
  lc_detail :: string
  lc_snapshot :: "snapshot_ref option"

record execution_start =
  es_config :: bytes
  es_resumeFromSeq :: int64
  es_inputCount :: "int64 option"
  es_harness :: string
  es_harnessVersion :: string

text \<open>
  \<^verbatim>\<open>Event\<close>: the envelope, and one optional field per body.  \<open>ev_timestamp\<close> is \<open>None\<close> for
  the zero \<^verbatim>\<open>time.Time\<close> and otherwise the nanoseconds since the epoch.
\<close>

record event =
  ev_executionID :: string
  ev_timestamp :: "int64 option"
  ev_schemaVersion :: int32
  ev_kind :: event_kind
  ev_message :: "message option"
  ev_modelCall :: "model_call option"
  ev_toolCall :: "tool_call option"
  ev_result :: "tool_result option"
  ev_approval :: "approval_request option"
  ev_approvalResult :: "approval_result option"
  ev_usage :: "usage option"
  ev_lifecycle :: "lifecycle option"
  ev_end :: "harness_end option"
  ev_err :: "api_error option"
  ev_executionStart :: "execution_start option"
  ev_parked :: "approval_ref option"
  ev_actor :: identity_ref

text \<open>\<^verbatim>\<open>api.Event{}\<close>: every field at its zero value.\<close>

definition zero_event :: event where
  "zero_event = \<lparr>ev_executionID = [], ev_timestamp = None, ev_schemaVersion = 0,
     ev_kind = EventKindOther [], ev_message = None, ev_modelCall = None, ev_toolCall = None,
     ev_result = None, ev_approval = None, ev_approvalResult = None, ev_usage = None,
     ev_lifecycle = None, ev_end = None, ev_err = None, ev_executionStart = None,
     ev_parked = None, ev_actor = empty_identity\<rparr>"

record delta =
  dl_executionID :: string
  dl_partIndex :: int32
  dl_chunk :: string
  dl_done :: bool

record approval_decision =
  ad_executionID :: string
  ad_toolCallID :: string
  ad_requestSeq :: int64
  ad_approved :: bool
  ad_reason :: string
  ad_identity :: identity_ref

section \<open>The harness SPI\<close>

record tool_spec =
  ts_name :: string
  ts_description :: string
  ts_mediation :: mediation

record capabilities =
  cap_resumability :: resumability
  cap_forkSafe :: bool
  cap_requiresGPU :: bool
  cap_streaming :: bool
  cap_reasoningReplay :: bool

record descriptor =
  desc_id :: string
  desc_version :: string
  desc_models :: "string list"
  desc_tools :: "tool_spec list"
  desc_capabilities :: capabilities

record start =
  st_executionID :: string
  st_sessionUID :: string
  st_config :: bytes
  st_history :: "event list"
  st_inputs :: "message list"
  st_resumeFromSeq :: int64

record tool_definition =
  td_name :: string
  td_description :: string
  td_inputSchema :: "content option"

datatype tool_choice_mode =
    ToolChoiceAuto | ToolChoiceNone | ToolChoiceRequired | ToolChoiceModeOther string

record tool_choice =
  tch_mode :: tool_choice_mode
  tch_name :: string

record model_request =
  mr_model :: string
  mr_messages :: "message list"
  mr_params :: "(string \<times> string) list"
  mr_tools :: "tool_definition list"
  mr_toolChoice :: "tool_choice option"

record model_response =
  mresp_message :: message
  mresp_usage :: usage

record runtime_capabilities =
  rc_memorySnapshot :: bool
  rc_coWFork :: bool
  rc_attest :: bool
  rc_gpuState :: bool

text \<open>
  One run of a harness, as the host sees it.  \<^verbatim>\<open>Harness.Run\<close> is code the host does not own: it
  calls the methods of the \<^verbatim>\<open>EventSink\<close> it is given, one after the other, each time with what
  the earlier calls returned, and finally returns an error or \<^verbatim>\<open>nil\<close>.  That is a tree whose inner
  nodes are sink calls with a branch for every possible answer and whose leaves are the results.
  The tree is well-founded: the model speaks of runs that return.  A deterministic harness is a
  function from its \<^verbatim>\<open>Start\<close> to such a tree.
\<close>

datatype run =
    Return "goerr option"
  | CallModel model_request "goerr + model_response \<Rightarrow> run"
  | CallOutput string "goerr option \<Rightarrow> run"
  | CallToolCall tool_call "goerr + tool_result \<Rightarrow> run"
  | CallReport tool_result "goerr option \<Rightarrow> run"
  | CallUsage usage "goerr option \<Rightarrow> run"

text \<open>\<^verbatim>\<open>EventSink\<close>: the five methods, over a sink state \<open>'st\<close>.\<close>

record 'st event_sink =
  sink_Model :: "model_request \<Rightarrow> 'st \<Rightarrow> (goerr + model_response) \<times> 'st"
  sink_Output :: "string \<Rightarrow> 'st \<Rightarrow> goerr option \<times> 'st"
  sink_ToolCall :: "tool_call \<Rightarrow> 'st \<Rightarrow> (goerr + tool_result) \<times> 'st"
  sink_Report :: "tool_result \<Rightarrow> 'st \<Rightarrow> goerr option \<times> 'st"
  sink_Usage :: "usage \<Rightarrow> 'st \<Rightarrow> goerr option \<times> 'st"

primrec drive :: "'st event_sink \<Rightarrow> run \<Rightarrow> 'st \<Rightarrow> goerr option \<times> 'st" where
  "drive k (Return e) = (\<lambda>s. (e, s))"
| "drive k (CallModel req f) = (\<lambda>s. let (r, s') = sink_Model k req s in drive k (f r) s')"
| "drive k (CallOutput d f) = (\<lambda>s. let (r, s') = sink_Output k d s in drive k (f r) s')"
| "drive k (CallToolCall tc f) = (\<lambda>s. let (r, s') = sink_ToolCall k tc s in drive k (f r) s')"
| "drive k (CallReport tr f) = (\<lambda>s. let (r, s') = sink_Report k tr s in drive k (f r) s')"
| "drive k (CallUsage u f) = (\<lambda>s. let (r, s') = sink_Usage k u s in drive k (f r) s')"

text \<open>
  A harness: \<^verbatim>\<open>Describe\<close> (an RPC, so its answer may differ from one moment to the next; the
  argument is the number of environment interactions so far) and \<^verbatim>\<open>Run\<close>.
\<close>

record harness =
  har_describe :: "nat \<Rightarrow> goerr + descriptor"
  har_run :: "start \<Rightarrow> run"

section \<open>Runs against a sink\<close>

text \<open>
  A preorder on sink states that each of the five methods respects relates the states before and
  after every run.  An invariant is the special case of the preorder ``holds before implies holds
  after''.
\<close>

locale sink_relation =
  fixes sink :: "'st event_sink"
    and rel :: "'st \<Rightarrow> 'st \<Rightarrow> bool"
  assumes rel_refl: "rel s s"
    and rel_trans: "rel s t \<Longrightarrow> rel t u \<Longrightarrow> rel s u"
    and rel_Model: "rel s (snd (sink_Model sink req s))"
    and rel_Output: "rel s (snd (sink_Output sink d s))"
    and rel_ToolCall: "rel s (snd (sink_ToolCall sink tc s))"
    and rel_Report: "rel s (snd (sink_Report sink tr s))"
    and rel_Usage: "rel s (snd (sink_Usage sink us s))"
begin

lemma rel_drive: "rel s (snd (drive sink p s))"
proof (induction p arbitrary: s)
  case (Return e)
  show ?case by (simp add: rel_refl)
next
  case (CallModel req f)
  show ?case
    by (simp add: case_prod_unfold Let_def) (rule rel_trans [OF rel_Model CallModel.IH [OF rangeI]])
next
  case (CallOutput d f)
  show ?case
    by (simp add: case_prod_unfold Let_def) (rule rel_trans [OF rel_Output CallOutput.IH [OF rangeI]])
next
  case (CallToolCall tc f)
  show ?case
    by (simp add: case_prod_unfold Let_def) (rule rel_trans [OF rel_ToolCall CallToolCall.IH [OF rangeI]])
next
  case (CallReport tr f)
  show ?case
    by (simp add: case_prod_unfold Let_def) (rule rel_trans [OF rel_Report CallReport.IH [OF rangeI]])
next
  case (CallUsage u f)
  show ?case
    by (simp add: case_prod_unfold Let_def) (rule rel_trans [OF rel_Usage CallUsage.IH [OF rangeI]])
qed

end

locale sink_invariant =
  fixes sink :: "'st event_sink"
    and inv :: "'st \<Rightarrow> bool"
  assumes inv_Model: "inv s \<Longrightarrow> inv (snd (sink_Model sink req s))"
    and inv_Output: "inv s \<Longrightarrow> inv (snd (sink_Output sink d s))"
    and inv_ToolCall: "inv s \<Longrightarrow> inv (snd (sink_ToolCall sink tc s))"
    and inv_Report: "inv s \<Longrightarrow> inv (snd (sink_Report sink tr s))"
    and inv_Usage: "inv s \<Longrightarrow> inv (snd (sink_Usage sink u s))"

sublocale sink_invariant \<subseteq> sink_relation sink "\<lambda>s t. inv s \<longrightarrow> inv t"
  by unfold_locales (auto intro: inv_Model inv_Output inv_ToolCall inv_Report inv_Usage)

context sink_invariant
begin

lemma inv_drive: "inv s \<Longrightarrow> inv (snd (drive sink p s))"
  using rel_drive by blast

end

end
