(* ===== verification/Wire.thy ===== *)
theory Wire
  imports Api_Types
begin

text \<open>
  Package \<^verbatim>\<open>wire\<close>: the conversions between the domain types and the protobuf messages of
  \<^verbatim>\<open>api/*.proto\<close>.  The messages are modelled as the generated Go code presents them: a oneof is a
  datatype under an \<open>option\<close>, an open proto3 enum has a constructor for the numbers this build does
  not know.  \<^verbatim>\<open>structpb\<close> and \<^verbatim>\<open>encoding/json\<close> are parameters, collected in \<open>struct_codec\<close>; what
  the conversions rely on is \<open>codec_ok\<close>.

  The theorems: a value in wire-normal form survives the round trip unchanged, and the round trip
  of any value is in wire-normal form, so journaling an event a second time changes nothing.
\<close>

section \<open>Protobuf messages\<close>

datatype pb_event_kind =
    EVENT_KIND_UNSPECIFIED | EVENT_INPUT | EVENT_MODEL_CALL | EVENT_OUTPUT | EVENT_TOOL_CALL
  | EVENT_TOOL_RESULT | EVENT_APPROVAL_REQUEST | EVENT_APPROVAL_RESULT | EVENT_USAGE
  | EVENT_LIFECYCLE | EVENT_END | EVENT_ERROR | EVENT_EXECUTION_START | EVENT_PARKED
  | EVENT_KIND_UNKNOWN int

datatype pb_mediation =
    MEDIATION_UNSPECIFIED | MEDIATION_IN_HARNESS_REPORTED | MEDIATION_CONTROLLER_MEDIATED
  | MEDIATION_REQUIRES_APPROVAL | MEDIATION_UNKNOWN int

datatype pb_lifecycle_kind =
    LIFECYCLE_UNSPECIFIED | LIFECYCLE_SUSPEND | LIFECYCLE_RESUME | LIFECYCLE_FORK
  | LIFECYCLE_BASELINE | LIFECYCLE_CANCEL | LIFECYCLE_DELETE | LIFECYCLE_UNKNOWN int

datatype pb_tool_choice_mode =
    MODE_UNSPECIFIED | MODE_AUTO | MODE_NONE | MODE_REQUIRED | MODE_UNKNOWN int

text \<open>A \<^verbatim>\<open>structpb.Struct\<close>: fields by key, as an association list sorted by key.\<close>

datatype pb_struct = PbStruct content

datatype pb_file_source = PbBytes bytes | PbUri string

record pb_file =
  pf_mime :: string
  pf_name :: string
  pf_digest :: string
  pf_source :: "pb_file_source option"

record pb_tool_call =
  pt_id :: string
  pt_tool :: string
  pt_args :: "pb_struct option"
  pt_mediation :: pb_mediation
  pt_idempotencyKey :: string

datatype pb_opaque = PbOpaqueBytes bytes | PbOpaqueUri string

datatype pb_part = PbPart (pp_part: "pb_part_body option")
and pb_part_body =
    Part_Text string
  | Part_File pb_file
  | Part_Data "pb_struct option"
  | Part_Reasoning pb_reasoning
  | Part_ToolCall pb_tool_call
  | Part_ToolResult pb_tool_result
and pb_reasoning =
  PbReasoning (pr_provider: string) (pr_modelID: string) (pr_itemID: string) (pr_ordinal: int32)
    (pr_validityScope: string) (pr_opaqueDigest: string) (pr_opaque: "pb_opaque option")
    (pr_summary: "pb_part list")
and pb_tool_result =
  PbToolResult (ptr_id: string) (ptr_output: "pb_struct option") (ptr_outputURI: string)
    (ptr_outputDigest: string) (ptr_isError: bool) (ptr_error: string) (ptr_content: "pb_part list")
    (ptr_code: int32) (ptr_approvalRequestSeq: int64) (ptr_approvalDecisionSeq: int64)

record pb_message =
  pm_role :: string
  pm_parts :: "pb_part list"

record pb_lifecycle =
  pl_kind :: pb_lifecycle_kind
  pl_detail :: string
  pl_snapshotLocal :: string
  pl_snapshotExternalUri :: string
  pl_snapshotMemory :: bool
  pl_snapshotSealed :: bool

record pb_identity =
  pi_principal :: string
  pi_issuer :: string
  pi_subject :: string

text \<open>
  The remaining bodies.  The \<^verbatim>\<open>ModelCall\<close> of a recorded event uses these four fields of its
  message; the fields the harness stream adds to it are in \<open>Harness_Wire\<close>.
\<close>

record pb_recorded_call =
  prc_model :: string
  prc_params :: "(string \<times> string) list"
  prc_inputHash :: string
  prc_id :: string

record pb_approval_request =
  par_toolCallId :: string
  par_reason :: string

record pb_approval_result =
  pas_toolCallId :: string
  pas_approved :: bool
  pas_reason :: string
  pas_requestSeq :: int64

record pb_approval_ref =
  paf_executionId :: string
  paf_toolCallId :: string
  paf_requestSeq :: int64

record pb_usage =
  pu_model :: string
  pu_inputTokens :: int64
  pu_outputTokens :: int64
  pu_reasoningTokens :: int64

record pb_error =
  per_code :: int32
  per_description :: string

record pb_harness_end =
  phe_state :: string
  phe_error :: "pb_error option"

record pb_execution_start =
  pes_config :: bytes
  pes_resumeFromSeq :: int64
  pes_inputCount :: "int64 option"
  pes_harness :: string
  pes_harnessVersion :: string

datatype pb_body =
    Event_Message pb_message
  | Event_Model pb_recorded_call
  | Event_Tool pb_tool_call
  | Event_Result pb_tool_result
  | Event_Approval pb_approval_request
  | Event_ApprovalResult pb_approval_result
  | Event_Usage pb_usage
  | Event_Lifecycle pb_lifecycle
  | Event_End pb_harness_end
  | Event_Error pb_error
  | Event_ExecutionStart pb_execution_start
  | Event_Parked pb_approval_ref

record pb_event =
  pe_executionId :: string
  pe_schemaVersion :: int32
  pe_kind :: pb_event_kind
  pe_actor :: "pb_identity option"
  pe_ts :: "int64 option"
  pe_body :: "pb_body option"

section \<open>Enumerations\<close>

fun kindToProto :: "event_kind \<Rightarrow> pb_event_kind" where
  "kindToProto EventInput = EVENT_INPUT"
| "kindToProto EventModelCall = EVENT_MODEL_CALL"
| "kindToProto EventOutput = EVENT_OUTPUT"
| "kindToProto EventToolCall = EVENT_TOOL_CALL"
| "kindToProto EventToolResult = EVENT_TOOL_RESULT"
| "kindToProto EventApprovalRequest = EVENT_APPROVAL_REQUEST"
| "kindToProto EventApprovalResult = EVENT_APPROVAL_RESULT"
| "kindToProto EventUsage = EVENT_USAGE"
| "kindToProto EventLifecycle = EVENT_LIFECYCLE"
| "kindToProto EventEnd = EVENT_END"
| "kindToProto EventError = EVENT_ERROR"
| "kindToProto EventExecutionStart = EVENT_EXECUTION_START"
| "kindToProto EventParked = EVENT_PARKED"
| "kindToProto (EventKindOther _) = EVENT_KIND_UNSPECIFIED"

fun kindFromProto :: "pb_event_kind \<Rightarrow> event_kind" where
  "kindFromProto EVENT_INPUT = EventInput"
| "kindFromProto EVENT_MODEL_CALL = EventModelCall"
| "kindFromProto EVENT_OUTPUT = EventOutput"
| "kindFromProto EVENT_TOOL_CALL = EventToolCall"
| "kindFromProto EVENT_TOOL_RESULT = EventToolResult"
| "kindFromProto EVENT_APPROVAL_REQUEST = EventApprovalRequest"
| "kindFromProto EVENT_APPROVAL_RESULT = EventApprovalResult"
| "kindFromProto EVENT_USAGE = EventUsage"
| "kindFromProto EVENT_LIFECYCLE = EventLifecycle"
| "kindFromProto EVENT_END = EventEnd"
| "kindFromProto EVENT_ERROR = EventError"
| "kindFromProto EVENT_EXECUTION_START = EventExecutionStart"
| "kindFromProto EVENT_PARKED = EventParked"
| "kindFromProto EVENT_KIND_UNSPECIFIED = EventKindOther []"
| "kindFromProto (EVENT_KIND_UNKNOWN _) = EventKindOther []"

fun mediationToProto :: "mediation \<Rightarrow> pb_mediation" where
  "mediationToProto MediationInHarnessReported = MEDIATION_IN_HARNESS_REPORTED"
| "mediationToProto MediationControllerMediated = MEDIATION_CONTROLLER_MEDIATED"
| "mediationToProto MediationRequiresApproval = MEDIATION_REQUIRES_APPROVAL"
| "mediationToProto (MediationOther _) = MEDIATION_UNSPECIFIED"

fun mediationFromProto :: "pb_mediation \<Rightarrow> mediation" where
  "mediationFromProto MEDIATION_IN_HARNESS_REPORTED = MediationInHarnessReported"
| "mediationFromProto MEDIATION_CONTROLLER_MEDIATED = MediationControllerMediated"
| "mediationFromProto MEDIATION_REQUIRES_APPROVAL = MediationRequiresApproval"
| "mediationFromProto MEDIATION_UNSPECIFIED = MediationOther []"
| "mediationFromProto (MEDIATION_UNKNOWN _) = MediationOther []"

fun lifecycleKindToProto :: "lifecycle_kind \<Rightarrow> pb_lifecycle_kind" where
  "lifecycleKindToProto LifecycleSuspend = LIFECYCLE_SUSPEND"
| "lifecycleKindToProto LifecycleResume = LIFECYCLE_RESUME"
| "lifecycleKindToProto LifecycleFork = LIFECYCLE_FORK"
| "lifecycleKindToProto LifecycleBaseline = LIFECYCLE_BASELINE"
| "lifecycleKindToProto LifecycleCancel = LIFECYCLE_CANCEL"
| "lifecycleKindToProto LifecycleDelete = LIFECYCLE_DELETE"
| "lifecycleKindToProto (LifecycleKindOther _) = LIFECYCLE_UNSPECIFIED"

fun lifecycleKindFromProto :: "pb_lifecycle_kind \<Rightarrow> lifecycle_kind" where
  "lifecycleKindFromProto LIFECYCLE_SUSPEND = LifecycleSuspend"
| "lifecycleKindFromProto LIFECYCLE_RESUME = LifecycleResume"
| "lifecycleKindFromProto LIFECYCLE_FORK = LifecycleFork"
| "lifecycleKindFromProto LIFECYCLE_BASELINE = LifecycleBaseline"
| "lifecycleKindFromProto LIFECYCLE_CANCEL = LifecycleCancel"
| "lifecycleKindFromProto LIFECYCLE_DELETE = LifecycleDelete"
| "lifecycleKindFromProto LIFECYCLE_UNSPECIFIED = LifecycleKindOther []"
| "lifecycleKindFromProto (LIFECYCLE_UNKNOWN _) = LifecycleKindOther []"

section \<open>Structured content\<close>

text \<open>
  What the conversions use of \<^verbatim>\<open>structpb\<close> and \<^verbatim>\<open>encoding/json\<close>: \<^verbatim>\<open>NewStruct\<close> (\<open>None\<close> for an
  error), \<^verbatim>\<open>AsMap\<close>, and \<^verbatim>\<open>json.Marshal\<close> followed by \<^verbatim>\<open>json.Unmarshal\<close> into a map.
\<close>

record struct_codec =
  NewStruct :: "content \<Rightarrow> pb_struct option"
  AsMap :: "pb_struct \<Rightarrow> content"
  json_roundtrip :: "content \<Rightarrow> content option"

definition toStruct :: "struct_codec \<Rightarrow> content option \<Rightarrow> pb_struct option" where
  "toStruct c m =
     (case m of
        None \<Rightarrow> None
      | Some m' \<Rightarrow>
          (case NewStruct c m' of
             Some s \<Rightarrow> Some s
           | None \<Rightarrow>
               (case json_roundtrip c m' of
                  None \<Rightarrow> None
                | Some nm \<Rightarrow> NewStruct c nm)))"

definition fromStruct :: "struct_codec \<Rightarrow> pb_struct option \<Rightarrow> content option" where
  "fromStruct c s = map_option (AsMap c) s"

section \<open>Content sub-messages\<close>

definition fileToProto :: "file_part \<Rightarrow> pb_file" where
  "fileToProto f = \<lparr>pf_mime = fp_mime f, pf_name = fp_name f, pf_digest = fp_digest f,
     pf_source =
       (case fp_bytes f of
          Some (b # bs) \<Rightarrow> Some (PbBytes (b # bs))
        | _ \<Rightarrow> if fp_uri f \<noteq> [] then Some (PbUri (fp_uri f)) else None)\<rparr>"

definition nonEmpty :: "bytes \<Rightarrow> bytes option" where
  "nonEmpty b = (if b = [] then None else Some b)"

definition fileFromProto :: "pb_file \<Rightarrow> file_part" where
  "fileFromProto f = \<lparr>fp_mime = pf_mime f,
     fp_bytes = (case pf_source f of Some (PbBytes b) \<Rightarrow> nonEmpty b | _ \<Rightarrow> None),
     fp_uri = (case pf_source f of Some (PbUri u) \<Rightarrow> u | _ \<Rightarrow> []),
     fp_digest = pf_digest f, fp_name = pf_name f\<rparr>"

definition toolCallToProto :: "struct_codec \<Rightarrow> tool_call \<Rightarrow> pb_tool_call" where
  "toolCallToProto c t = \<lparr>pt_id = tc_id t, pt_tool = tc_tool t, pt_args = toStruct c (tc_args t),
     pt_mediation = mediationToProto (tc_mediation t), pt_idempotencyKey = tc_idempotencyKey t\<rparr>"

definition toolCallFromProto :: "struct_codec \<Rightarrow> pb_tool_call \<Rightarrow> tool_call" where
  "toolCallFromProto c t = \<lparr>tc_id = pt_id t, tc_tool = pt_tool t, tc_args = fromStruct c (pt_args t),
     tc_mediation = mediationFromProto (pt_mediation t), tc_idempotencyKey = pt_idempotencyKey t\<rparr>"

fun partToProto :: "struct_codec \<Rightarrow> part \<Rightarrow> pb_part"
  and reasoningToProto :: "struct_codec \<Rightarrow> reasoning_part \<Rightarrow> pb_reasoning"
  and toolResultToProto :: "struct_codec \<Rightarrow> tool_result \<Rightarrow> pb_tool_result"
where
  "partToProto c (Part t f d r tc tr) =
     (case t of Some x \<Rightarrow> PbPart (Some (Part_Text x)) | None \<Rightarrow>
     (case f of Some x \<Rightarrow> PbPart (Some (Part_File (fileToProto x))) | None \<Rightarrow>
     (case d of Some x \<Rightarrow> PbPart (Some (Part_Data (toStruct c (Some x)))) | None \<Rightarrow>
     (case r of Some x \<Rightarrow> PbPart (Some (Part_Reasoning (reasoningToProto c x))) | None \<Rightarrow>
     (case tc of Some x \<Rightarrow> PbPart (Some (Part_ToolCall (toolCallToProto c x))) | None \<Rightarrow>
     (case tr of Some x \<Rightarrow> PbPart (Some (Part_ToolResult (toolResultToProto c x))) | None \<Rightarrow>
      PbPart None))))))"
| "reasoningToProto c (ReasoningPart pv mid opq uri dg sm it od vs) =
     PbReasoning pv mid it od vs dg
       (case opq of
          Some (b # bs) \<Rightarrow> Some (PbOpaqueBytes (b # bs))
        | _ \<Rightarrow> if uri \<noteq> [] then Some (PbOpaqueUri uri) else None)
       (map (partToProto c) sm)"
| "toolResultToProto c (ToolResult i out uri dg ie er ct cd rq dc ap) =
     PbToolResult i (toStruct c out) uri dg ie er (map (partToProto c) ct) cd rq dc"

fun partFromProto :: "struct_codec \<Rightarrow> pb_part \<Rightarrow> part"
  and partBodyFromProto :: "struct_codec \<Rightarrow> pb_part_body \<Rightarrow> part"
  and reasoningFromProto :: "struct_codec \<Rightarrow> pb_reasoning \<Rightarrow> reasoning_part"
  and toolResultFromProto :: "struct_codec \<Rightarrow> pb_tool_result \<Rightarrow> tool_result"
where
  "partFromProto c (PbPart b) =
     (case b of None \<Rightarrow> Part None None None None None None | Some x \<Rightarrow> partBodyFromProto c x)"
| "partBodyFromProto c (Part_Text t) = Part (Some t) None None None None None"
| "partBodyFromProto c (Part_File f) = Part None (Some (fileFromProto f)) None None None None"
| "partBodyFromProto c (Part_Data s) = Part None None (fromStruct c s) None None None"
| "partBodyFromProto c (Part_Reasoning r) =
     Part None None None (Some (reasoningFromProto c r)) None None"
| "partBodyFromProto c (Part_ToolCall t) =
     Part None None None None (Some (toolCallFromProto c t)) None"
| "partBodyFromProto c (Part_ToolResult r) =
     Part None None None None None (Some (toolResultFromProto c r))"
| "reasoningFromProto c (PbReasoning pv mid it od vs dg opq sm) =
     ReasoningPart pv mid
       (case opq of Some (PbOpaqueBytes b) \<Rightarrow> nonEmpty b | _ \<Rightarrow> None)
       (case opq of Some (PbOpaqueUri u) \<Rightarrow> u | _ \<Rightarrow> [])
       dg (map (partFromProto c) sm) it od vs"
| "toolResultFromProto c (PbToolResult i out uri dg ie er ct cd rq dc) =
     ToolResult i (fromStruct c out) uri dg ie er (map (partFromProto c) ct) cd rq dc None"

definition msgToProto :: "struct_codec \<Rightarrow> message \<Rightarrow> pb_message" where
  "msgToProto c m = \<lparr>pm_role = msg_role m, pm_parts = map (partToProto c) (msg_parts m)\<rparr>"

definition msgFromProto :: "struct_codec \<Rightarrow> pb_message \<Rightarrow> message" where
  "msgFromProto c p = \<lparr>msg_role = pm_role p, msg_parts = map (partFromProto c) (pm_parts p)\<rparr>"

definition lifecycleToProto :: "lifecycle \<Rightarrow> pb_lifecycle" where
  "lifecycleToProto l =
     (let p = \<lparr>pl_kind = lifecycleKindToProto (lc_kind l), pl_detail = lc_detail l,
               pl_snapshotLocal = [], pl_snapshotExternalUri = [], pl_snapshotMemory = False,
               pl_snapshotSealed = False\<rparr>
      in case lc_snapshot l of
           None \<Rightarrow> p
         | Some s \<Rightarrow> p\<lparr>pl_snapshotLocal := sr_local s, pl_snapshotExternalUri := sr_externalURI s,
                       pl_snapshotMemory := sr_memory s, pl_snapshotSealed := sr_sealed s\<rparr>)"

definition lifecycleFromProto :: "pb_lifecycle \<Rightarrow> lifecycle" where
  "lifecycleFromProto l = \<lparr>lc_kind = lifecycleKindFromProto (pl_kind l), lc_detail = pl_detail l,
     lc_snapshot =
       (if pl_snapshotLocal l \<noteq> [] \<or> pl_snapshotExternalUri l \<noteq> [] \<or> pl_snapshotMemory l
           \<or> pl_snapshotSealed l
        then Some \<lparr>sr_local = pl_snapshotLocal l, sr_externalURI = pl_snapshotExternalUri l,
                   sr_memory = pl_snapshotMemory l, sr_sealed = pl_snapshotSealed l\<rparr>
        else None)\<rparr>"

definition identityToProto :: "identity_ref \<Rightarrow> pb_identity option" where
  "identityToProto i =
     (if i = empty_identity then None
      else Some \<lparr>pi_principal = id_principal i, pi_issuer = id_issuer i, pi_subject = id_subject i\<rparr>)"

definition identityFromProto :: "pb_identity option \<Rightarrow> identity_ref" where
  "identityFromProto p =
     (case p of
        None \<Rightarrow> empty_identity
      | Some i \<Rightarrow> \<lparr>id_principal = pi_principal i, id_issuer = pi_issuer i, id_subject = pi_subject i\<rparr>)"

section \<open>Events\<close>

definition modelCallToProto :: "model_call \<Rightarrow> pb_recorded_call" where
  "modelCallToProto m = \<lparr>prc_model = mc_model m, prc_params = mc_params m,
     prc_inputHash = mc_inputHash m, prc_id = mc_id m\<rparr>"

definition modelCallFromProto :: "pb_recorded_call \<Rightarrow> model_call" where
  "modelCallFromProto m = \<lparr>mc_model = prc_model m, mc_params = prc_params m,
     mc_inputHash = prc_inputHash m, mc_id = prc_id m\<rparr>"

definition approvalReqToProto :: "approval_request \<Rightarrow> pb_approval_request" where
  "approvalReqToProto a = \<lparr>par_toolCallId = aq_toolCallID a, par_reason = aq_reason a\<rparr>"

definition approvalReqFromProto :: "pb_approval_request \<Rightarrow> approval_request" where
  "approvalReqFromProto a = \<lparr>aq_toolCallID = par_toolCallId a, aq_reason = par_reason a\<rparr>"

definition approvalRefToProto :: "approval_ref \<Rightarrow> pb_approval_ref" where
  "approvalRefToProto a = \<lparr>paf_executionId = ref_executionID a, paf_toolCallId = ref_toolCallID a,
     paf_requestSeq = ref_requestSeq a\<rparr>"

definition approvalRefFromProto :: "pb_approval_ref \<Rightarrow> approval_ref" where
  "approvalRefFromProto a = \<lparr>ref_executionID = paf_executionId a, ref_toolCallID = paf_toolCallId a,
     ref_requestSeq = paf_requestSeq a\<rparr>"

definition approvalResToProto :: "approval_result \<Rightarrow> pb_approval_result" where
  "approvalResToProto a = \<lparr>pas_toolCallId = ar_toolCallID a, pas_approved = ar_approved a,
     pas_reason = ar_reason a, pas_requestSeq = ar_requestSeq a\<rparr>"

definition approvalResFromProto :: "pb_approval_result \<Rightarrow> approval_result" where
  "approvalResFromProto a = \<lparr>ar_toolCallID = pas_toolCallId a, ar_approved = pas_approved a,
     ar_reason = pas_reason a, ar_requestSeq = pas_requestSeq a\<rparr>"

definition usageToProto :: "usage \<Rightarrow> pb_usage" where
  "usageToProto u = \<lparr>pu_model = u_model u, pu_inputTokens = u_inputTokens u,
     pu_outputTokens = u_outputTokens u, pu_reasoningTokens = u_reasoningTokens u\<rparr>"

definition usageFromProto :: "pb_usage \<Rightarrow> usage" where
  "usageFromProto u = \<lparr>u_model = pu_model u, u_inputTokens = pu_inputTokens u,
     u_outputTokens = pu_outputTokens u, u_reasoningTokens = pu_reasoningTokens u\<rparr>"

definition errorToProto :: "api_error \<Rightarrow> pb_error" where
  "errorToProto e = \<lparr>per_code = err_code e, per_description = err_description e\<rparr>"

definition errorFromProto :: "pb_error \<Rightarrow> api_error" where
  "errorFromProto e = \<lparr>err_code = per_code e, err_description = per_description e\<rparr>"

definition endToProto :: "harness_end \<Rightarrow> pb_harness_end" where
  "endToProto h = \<lparr>phe_state = he_state h, phe_error = map_option errorToProto (he_error h)\<rparr>"

definition endFromProto :: "pb_harness_end \<Rightarrow> harness_end" where
  "endFromProto h = \<lparr>he_state = phe_state h, he_error = map_option errorFromProto (phe_error h)\<rparr>"

text \<open>The two composite literals of \<^verbatim>\<open>EventToProto\<close> and \<^verbatim>\<open>EventFromProto\<close> for EXECUTION_START.\<close>

definition executionStartToProto :: "execution_start \<Rightarrow> pb_execution_start" where
  "executionStartToProto s = \<lparr>pes_config = es_config s, pes_resumeFromSeq = es_resumeFromSeq s,
     pes_inputCount = es_inputCount s, pes_harness = es_harness s,
     pes_harnessVersion = es_harnessVersion s\<rparr>"

definition executionStartFromProto :: "pb_execution_start \<Rightarrow> execution_start" where
  "executionStartFromProto s = \<lparr>es_config = pes_config s, es_resumeFromSeq = pes_resumeFromSeq s,
     es_inputCount = pes_inputCount s, es_harness = pes_harness s,
     es_harnessVersion = pes_harnessVersion s\<rparr>"

definition bodyToProto :: "struct_codec \<Rightarrow> event \<Rightarrow> pb_body option" where
  "bodyToProto c e =
     (case ev_message e of Some m \<Rightarrow> Some (Event_Message (msgToProto c m)) | None \<Rightarrow>
     (case ev_modelCall e of Some m \<Rightarrow> Some (Event_Model (modelCallToProto m)) | None \<Rightarrow>
     (case ev_toolCall e of Some t \<Rightarrow> Some (Event_Tool (toolCallToProto c t)) | None \<Rightarrow>
     (case ev_result e of Some r \<Rightarrow> Some (Event_Result (toolResultToProto c r)) | None \<Rightarrow>
     (case ev_approval e of Some a \<Rightarrow> Some (Event_Approval (approvalReqToProto a)) | None \<Rightarrow>
     (case ev_approvalResult e of Some a \<Rightarrow> Some (Event_ApprovalResult (approvalResToProto a)) | None \<Rightarrow>
     (case ev_usage e of Some u \<Rightarrow> Some (Event_Usage (usageToProto u)) | None \<Rightarrow>
     (case ev_lifecycle e of Some l \<Rightarrow> Some (Event_Lifecycle (lifecycleToProto l)) | None \<Rightarrow>
     (case ev_end e of Some h \<Rightarrow> Some (Event_End (endToProto h)) | None \<Rightarrow>
     (case ev_err e of Some x \<Rightarrow> Some (Event_Error (errorToProto x)) | None \<Rightarrow>
     (case ev_executionStart e of Some s \<Rightarrow> Some (Event_ExecutionStart (executionStartToProto s)) | None \<Rightarrow>
     (case ev_parked e of Some p \<Rightarrow> Some (Event_Parked (approvalRefToProto p)) | None \<Rightarrow> None))))))))))))"

definition EventToProto :: "struct_codec \<Rightarrow> event \<Rightarrow> pb_event" where
  "EventToProto c e = \<lparr>pe_executionId = ev_executionID e, pe_schemaVersion = ev_schemaVersion e,
     pe_kind = kindToProto (ev_kind e), pe_actor = identityToProto (ev_actor e),
     pe_ts = ev_timestamp e, pe_body = bodyToProto c e\<rparr>"

fun set_body :: "struct_codec \<Rightarrow> pb_body \<Rightarrow> event \<Rightarrow> event" where
  "set_body c (Event_Message m) e = e\<lparr>ev_message := Some (msgFromProto c m)\<rparr>"
| "set_body c (Event_Model m) e = e\<lparr>ev_modelCall := Some (modelCallFromProto m)\<rparr>"
| "set_body c (Event_Tool t) e = e\<lparr>ev_toolCall := Some (toolCallFromProto c t)\<rparr>"
| "set_body c (Event_Result r) e = e\<lparr>ev_result := Some (toolResultFromProto c r)\<rparr>"
| "set_body c (Event_Approval a) e = e\<lparr>ev_approval := Some (approvalReqFromProto a)\<rparr>"
| "set_body c (Event_ApprovalResult a) e = e\<lparr>ev_approvalResult := Some (approvalResFromProto a)\<rparr>"
| "set_body c (Event_Usage u) e = e\<lparr>ev_usage := Some (usageFromProto u)\<rparr>"
| "set_body c (Event_Lifecycle l) e = e\<lparr>ev_lifecycle := Some (lifecycleFromProto l)\<rparr>"
| "set_body c (Event_End h) e = e\<lparr>ev_end := Some (endFromProto h)\<rparr>"
| "set_body c (Event_Error x) e = e\<lparr>ev_err := Some (errorFromProto x)\<rparr>"
| "set_body c (Event_ExecutionStart s) e = e\<lparr>ev_executionStart := Some (executionStartFromProto s)\<rparr>"
| "set_body c (Event_Parked p) e = e\<lparr>ev_parked := Some (approvalRefFromProto p)\<rparr>"

definition EventFromProto :: "struct_codec \<Rightarrow> pb_event \<Rightarrow> event" where
  "EventFromProto c p =
     (let out = zero_event\<lparr>ev_executionID := pe_executionId p,
                  ev_schemaVersion := pe_schemaVersion p, ev_kind := kindFromProto (pe_kind p),
                  ev_actor := identityFromProto (pe_actor p), ev_timestamp := pe_ts p\<rparr>
      in case pe_body p of None \<Rightarrow> out | Some b \<Rightarrow> set_body c b out)"
section \<open>Tools offered to a model, and session states\<close>

record pb_tool_spec =
  pts_name :: string
  pts_description :: string
  pts_mediation :: pb_mediation

definition ToolSpecToProto :: "tool_spec \<Rightarrow> pb_tool_spec" where
  "ToolSpecToProto t = \<lparr>pts_name = ts_name t, pts_description = ts_description t,
     pts_mediation = mediationToProto (ts_mediation t)\<rparr>"

definition ToolSpecFromProto :: "pb_tool_spec option \<Rightarrow> tool_spec" where
  "ToolSpecFromProto p =
     (case p of
        None \<Rightarrow> \<lparr>ts_name = [], ts_description = [],
                 ts_mediation = mediationFromProto MEDIATION_UNSPECIFIED\<rparr>
      | Some t \<Rightarrow> \<lparr>ts_name = pts_name t, ts_description = pts_description t,
                   ts_mediation = mediationFromProto (pts_mediation t)\<rparr>)"

record pb_tool_definition =
  ptd_name :: string
  ptd_description :: string
  ptd_inputSchema :: "pb_struct option"

definition ToolDefinitionsToProto :: "struct_codec \<Rightarrow> tool_definition list \<Rightarrow> pb_tool_definition list" where
  "ToolDefinitionsToProto c ts = map (\<lambda>t. \<lparr>ptd_name = td_name t, ptd_description = td_description t,
     ptd_inputSchema = toStruct c (td_inputSchema t)\<rparr>) ts"

definition ToolDefinitionsFromProto :: "struct_codec \<Rightarrow> pb_tool_definition list \<Rightarrow> tool_definition list" where
  "ToolDefinitionsFromProto c ps = map (\<lambda>p. \<lparr>td_name = ptd_name p, td_description = ptd_description p,
     td_inputSchema = fromStruct c (ptd_inputSchema p)\<rparr>) ps"

record pb_tool_choice =
  ptc_mode :: pb_tool_choice_mode
  ptc_name :: string

definition ToolChoiceToProto :: "tool_choice option \<Rightarrow> goerr + pb_tool_choice option" where
  "ToolChoiceToProto ch =
     (case ch of
        None \<Rightarrow> Inr None
      | Some t \<Rightarrow>
          (case tch_mode t of
             ToolChoiceModeOther m \<Rightarrow>
               (if m = [] then Inr (Some \<lparr>ptc_mode = MODE_UNSPECIFIED, ptc_name = tch_name t\<rparr>)
                else Inl (ErrNew (''wire: unknown tool choice mode '' @ format_q m)))
           | ToolChoiceAuto \<Rightarrow> Inr (Some \<lparr>ptc_mode = MODE_AUTO, ptc_name = tch_name t\<rparr>)
           | ToolChoiceNone \<Rightarrow> Inr (Some \<lparr>ptc_mode = MODE_NONE, ptc_name = tch_name t\<rparr>)
           | ToolChoiceRequired \<Rightarrow> Inr (Some \<lparr>ptc_mode = MODE_REQUIRED, ptc_name = tch_name t\<rparr>)))"

definition ToolChoiceFromProto :: "pb_tool_choice option \<Rightarrow> goerr + tool_choice option" where
  "ToolChoiceFromProto p =
     (case p of
        None \<Rightarrow> Inr None
      | Some t \<Rightarrow>
          (case ptc_mode t of
             MODE_UNSPECIFIED \<Rightarrow> Inr (Some \<lparr>tch_mode = ToolChoiceModeOther [], tch_name = ptc_name t\<rparr>)
           | MODE_AUTO \<Rightarrow> Inr (Some \<lparr>tch_mode = ToolChoiceAuto, tch_name = ptc_name t\<rparr>)
           | MODE_NONE \<Rightarrow> Inr (Some \<lparr>tch_mode = ToolChoiceNone, tch_name = ptc_name t\<rparr>)
           | MODE_REQUIRED \<Rightarrow> Inr (Some \<lparr>tch_mode = ToolChoiceRequired, tch_name = ptc_name t\<rparr>)
           | MODE_UNKNOWN n \<Rightarrow> Inl (ErrNew (''wire: unknown tool choice mode '' @ format_int n))))"

datatype pb_deletion_state =
  DELETION_STATE_UNSPECIFIED | DELETION_ACTIVE | DELETION_PENDING | DELETION_UNKNOWN int

fun DeletionStateToProto :: "deletion_state \<Rightarrow> pb_deletion_state" where
  "DeletionStateToProto DeletionActive = DELETION_ACTIVE"
| "DeletionStateToProto DeletionPending = DELETION_PENDING"
| "DeletionStateToProto (DeletionStateOther _) = DELETION_STATE_UNSPECIFIED"

fun DeletionStateFromProto :: "pb_deletion_state \<Rightarrow> deletion_state" where
  "DeletionStateFromProto DELETION_ACTIVE = DeletionActive"
| "DeletionStateFromProto DELETION_PENDING = DeletionPending"
| "DeletionStateFromProto DELETION_STATE_UNSPECIFIED = DeletionStateOther []"
| "DeletionStateFromProto (DELETION_UNKNOWN _) = DeletionStateOther []"

datatype pb_compute_state =
    COMPUTE_STATE_UNSPECIFIED | COMPUTE_NONE | COMPUTE_LIVE | COMPUTE_WARM | COMPUTE_COLD
  | COMPUTE_TERMINATED | COMPUTE_UNKNOWN int

fun ComputeStateToProto :: "compute_state \<Rightarrow> pb_compute_state" where
  "ComputeStateToProto ComputeNone = COMPUTE_NONE"
| "ComputeStateToProto ComputeLive = COMPUTE_LIVE"
| "ComputeStateToProto ComputeWarm = COMPUTE_WARM"
| "ComputeStateToProto ComputeCold = COMPUTE_COLD"
| "ComputeStateToProto ComputeTerminated = COMPUTE_TERMINATED"
| "ComputeStateToProto (ComputeStateOther _) = COMPUTE_STATE_UNSPECIFIED"

fun ComputeStateFromProto :: "pb_compute_state \<Rightarrow> compute_state" where
  "ComputeStateFromProto COMPUTE_NONE = ComputeNone"
| "ComputeStateFromProto COMPUTE_LIVE = ComputeLive"
| "ComputeStateFromProto COMPUTE_WARM = ComputeWarm"
| "ComputeStateFromProto COMPUTE_COLD = ComputeCold"
| "ComputeStateFromProto COMPUTE_TERMINATED = ComputeTerminated"
| "ComputeStateFromProto COMPUTE_STATE_UNSPECIFIED = ComputeStateOther []"
| "ComputeStateFromProto (COMPUTE_UNKNOWN _) = ComputeStateOther []"

datatype pb_exec_state =
    EXEC_STATE_UNSPECIFIED | EXEC_PENDING | EXEC_RUNNING | EXEC_AWAITING | EXEC_COMPLETED
  | EXEC_FAILED | EXEC_CANCELED | EXEC_UNKNOWN int

fun ExecStateToProto :: "exec_state \<Rightarrow> pb_exec_state" where
  "ExecStateToProto ExecPending = EXEC_PENDING"
| "ExecStateToProto ExecRunning = EXEC_RUNNING"
| "ExecStateToProto ExecAwaiting = EXEC_AWAITING"
| "ExecStateToProto ExecCompleted = EXEC_COMPLETED"
| "ExecStateToProto ExecFailed = EXEC_FAILED"
| "ExecStateToProto ExecCanceled = EXEC_CANCELED"
| "ExecStateToProto (ExecStateOther _) = EXEC_STATE_UNSPECIFIED"

fun ExecStateFromProto :: "pb_exec_state \<Rightarrow> exec_state" where
  "ExecStateFromProto EXEC_PENDING = ExecPending"
| "ExecStateFromProto EXEC_RUNNING = ExecRunning"
| "ExecStateFromProto EXEC_AWAITING = ExecAwaiting"
| "ExecStateFromProto EXEC_COMPLETED = ExecCompleted"
| "ExecStateFromProto EXEC_FAILED = ExecFailed"
| "ExecStateFromProto EXEC_CANCELED = ExecCanceled"
| "ExecStateFromProto EXEC_STATE_UNSPECIFIED = ExecStateOther []"
| "ExecStateFromProto (EXEC_UNKNOWN _) = ExecStateOther []"

section \<open>JSON-shaped content\<close>

text \<open>Valid UTF-8, byte by byte.\<close>

definition cont_byte :: "char \<Rightarrow> bool" where
  "cont_byte c \<longleftrightarrow> 128 \<le> (of_char c :: nat) \<and> (of_char c :: nat) < 192"

fun utf8_ok :: "string \<Rightarrow> bool" where
  "utf8_ok [] = True"
| "utf8_ok (a # cs) =
     (let n = (of_char a :: nat) in
      if n < 128 then utf8_ok cs
      else if 194 \<le> n \<and> n < 224 then
        (case cs of b # r \<Rightarrow> cont_byte b \<and> utf8_ok r | _ \<Rightarrow> False)
      else if 224 \<le> n \<and> n < 240 then
        (case cs of b # b' # r \<Rightarrow> cont_byte b \<and> cont_byte b'
             \<and> (n = 224 \<longrightarrow> 160 \<le> (of_char b :: nat)) \<and> (n = 237 \<longrightarrow> (of_char b :: nat) < 160)
             \<and> utf8_ok r
         | _ \<Rightarrow> False)
      else if 240 \<le> n \<and> n < 245 then
        (case cs of b # b' # b'' # r \<Rightarrow> cont_byte b \<and> cont_byte b' \<and> cont_byte b''
             \<and> (n = 240 \<longrightarrow> 144 \<le> (of_char b :: nat)) \<and> (n = 244 \<longrightarrow> (of_char b :: nat) < 144)
             \<and> utf8_ok r
         | _ \<Rightarrow> False)
      else False)"

text \<open>
  The values a \<^verbatim>\<open>structpb.Struct\<close> holds natively: no Go integer, no opaque value, no NaN or
  infinity (\<^verbatim>\<open>AsMap\<close> turns those into strings), valid UTF-8 throughout.
\<close>

fun json_native :: "goval \<Rightarrow> bool" where
  "json_native GoNil = True"
| "json_native (GoBool _) = True"
| "json_native (GoFloat b) = (0 \<le> b \<and> b < 2 ^ 64 \<and> (b div 2 ^ 52) mod 2 ^ 11 \<noteq> 2 ^ 11 - 1)"
| "json_native (GoInt _) = False"
| "json_native (GoString s) = utf8_ok s"
| "json_native (GoList vs) = (\<forall>v \<in> set vs. json_native v)"
| "json_native (GoMap kvs) = (\<forall>(k, v) \<in> set kvs. utf8_ok k \<and> json_native v)"
| "json_native (GoOpaque _) = False"

definition content_native :: "content \<Rightarrow> bool" where
  "content_native m \<longleftrightarrow> json_native (GoMap m)"

text \<open>
  What the documentation of \<^verbatim>\<open>structpb\<close> promises and the package comment relies on: \<^verbatim>\<open>NewStruct\<close>
  accepts native content and \<^verbatim>\<open>AsMap\<close> gives it back; every struct it builds holds native content.
\<close>

definition codec_ok :: "struct_codec \<Rightarrow> bool" where
  "codec_ok c \<longleftrightarrow>
     (\<forall>m. content_native m \<longrightarrow> (\<exists>s. NewStruct c m = Some s \<and> AsMap c s = m))
     \<and> (\<forall>m s. NewStruct c m = Some s \<longrightarrow> content_native (AsMap c s))"

section \<open>Wire-normal form\<close>

fun at_most_one :: "bool list \<Rightarrow> bool" where
  "at_most_one [] = True"
| "at_most_one (b # bs) = (if b then (\<forall>x \<in> set bs. \<not> x) else at_most_one bs)"

definition opt_native :: "content option \<Rightarrow> bool" where
  "opt_native m = (case m of None \<Rightarrow> True | Some m' \<Rightarrow> content_native m')"

definition bytes_or_uri :: "bytes option \<Rightarrow> string \<Rightarrow> bool" where
  "bytes_or_uri b u \<longleftrightarrow> b \<noteq> Some [] \<and> (b = None \<or> u = [])"

definition normal_mediation :: "mediation \<Rightarrow> bool" where
  "normal_mediation m \<longleftrightarrow> (\<forall>s. m = MediationOther s \<longrightarrow> s = [])"

definition normal_tool_call :: "tool_call \<Rightarrow> bool" where
  "normal_tool_call t \<longleftrightarrow> opt_native (tc_args t) \<and> normal_mediation (tc_mediation t)"

fun normal_part :: "part \<Rightarrow> bool"
  and normal_reasoning :: "reasoning_part \<Rightarrow> bool"
  and normal_tool_result :: "tool_result \<Rightarrow> bool"
where
  "normal_part (Part t f d r tc tr) \<longleftrightarrow>
     at_most_one [t \<noteq> None, f \<noteq> None, d \<noteq> None, r \<noteq> None, tc \<noteq> None, tr \<noteq> None]
     \<and> (case f of None \<Rightarrow> True | Some x \<Rightarrow> bytes_or_uri (fp_bytes x) (fp_uri x))
     \<and> opt_native d
     \<and> (case r of None \<Rightarrow> True | Some x \<Rightarrow> normal_reasoning x)
     \<and> (case tc of None \<Rightarrow> True | Some x \<Rightarrow> normal_tool_call x)
     \<and> (case tr of None \<Rightarrow> True | Some x \<Rightarrow> normal_tool_result x)"
| "normal_reasoning (ReasoningPart pv mid opq uri dg sm it od vs) \<longleftrightarrow>
     bytes_or_uri opq uri \<and> (\<forall>p \<in> set sm. normal_part p)"
| "normal_tool_result (ToolResult i out uri dg ie er ct cd rq dc ap) \<longleftrightarrow>
     opt_native out \<and> (\<forall>p \<in> set ct. normal_part p) \<and> ap = None"

definition normal_message :: "message \<Rightarrow> bool" where
  "normal_message m \<longleftrightarrow> (\<forall>p \<in> set (msg_parts m). normal_part p)"

definition normal_lifecycle :: "lifecycle \<Rightarrow> bool" where
  "normal_lifecycle l \<longleftrightarrow> (\<forall>s. lc_kind l = LifecycleKindOther s \<longrightarrow> s = []) \<and>
     (case lc_snapshot l of
        None \<Rightarrow> True
      | Some s \<Rightarrow> sr_local s \<noteq> [] \<or> sr_externalURI s \<noteq> [] \<or> sr_memory s \<or> sr_sealed s)"

text \<open>
  An event in wire-normal form: at most one body, declared enumeration values, and content that is
  JSON-shaped, which is what package \<^verbatim>\<open>wire\<close> asks of producers.
\<close>

definition wire_normal :: "event \<Rightarrow> bool" where
  "wire_normal e \<longleftrightarrow>
     at_most_one [ev_message e \<noteq> None, ev_modelCall e \<noteq> None, ev_toolCall e \<noteq> None,
       ev_result e \<noteq> None, ev_approval e \<noteq> None, ev_approvalResult e \<noteq> None, ev_usage e \<noteq> None,
       ev_lifecycle e \<noteq> None, ev_end e \<noteq> None, ev_err e \<noteq> None, ev_executionStart e \<noteq> None,
       ev_parked e \<noteq> None]
     \<and> (\<forall>s. ev_kind e = EventKindOther s \<longrightarrow> s = [])
     \<and> (case ev_message e of None \<Rightarrow> True | Some m \<Rightarrow> normal_message m)
     \<and> (case ev_toolCall e of None \<Rightarrow> True | Some t \<Rightarrow> normal_tool_call t)
     \<and> (case ev_result e of None \<Rightarrow> True | Some r \<Rightarrow> normal_tool_result r)
     \<and> (case ev_lifecycle e of None \<Rightarrow> True | Some l \<Rightarrow> normal_lifecycle l)"

text \<open>What a journaled event reads back as.\<close>

definition wire_norm :: "struct_codec \<Rightarrow> event \<Rightarrow> event" where
  "wire_norm c e = EventFromProto c (EventToProto c e)"

section \<open>The round trip\<close>

lemma kind_roundtrip [proto_simps]:
  "(\<And>s. k = EventKindOther s \<Longrightarrow> s = []) \<Longrightarrow> kindFromProto (kindToProto k) = k"
  by (cases k) auto

lemma kind_norm: "kindFromProto p = EventKindOther s \<Longrightarrow> s = []"
  by (cases p) auto

lemma mediation_roundtrip [proto_simps]:
  "normal_mediation m \<Longrightarrow> mediationFromProto (mediationToProto m) = m"
  by (cases m) (auto simp: normal_mediation_def)

lemma mediation_norm [simp]: "normal_mediation (mediationFromProto p)"
  by (cases p) (auto simp: normal_mediation_def)

lemma lifecycle_kind_roundtrip [proto_simps]:
  "(\<And>s. k = LifecycleKindOther s \<Longrightarrow> s = []) \<Longrightarrow> lifecycleKindFromProto (lifecycleKindToProto k) = k"
  by (cases k) auto

lemma lifecycle_kind_norm: "lifecycleKindFromProto p = LifecycleKindOther s \<Longrightarrow> s = []"
  by (cases p) auto

lemma struct_roundtrip [proto_simps]:
  "codec_ok c \<Longrightarrow> opt_native m \<Longrightarrow> fromStruct c (toStruct c m) = m"
  by (auto simp: codec_ok_def opt_native_def toStruct_def fromStruct_def split: option.splits)

lemma struct_norm: "codec_ok c \<Longrightarrow> opt_native (fromStruct c (toStruct c m))"
  by (auto simp: codec_ok_def opt_native_def toStruct_def fromStruct_def split: option.splits)

lemma file_roundtrip [proto_simps]:
  "bytes_or_uri (fp_bytes f) (fp_uri f) \<Longrightarrow> fileFromProto (fileToProto f) = f"
  by (cases f) (auto simp: bytes_or_uri_def fileFromProto_def fileToProto_def nonEmpty_def
      split: option.splits list.splits)

lemma file_norm: "bytes_or_uri (fp_bytes (fileFromProto p)) (fp_uri (fileFromProto p))"
  by (auto simp: bytes_or_uri_def fileFromProto_def nonEmpty_def
      split: option.splits pb_file_source.splits)

lemma tool_call_roundtrip [proto_simps]:
  "codec_ok c \<Longrightarrow> normal_tool_call t \<Longrightarrow> toolCallFromProto c (toolCallToProto c t) = t"
  by (cases t) (simp add: normal_tool_call_def toolCallFromProto_def toolCallToProto_def proto_simps)

lemma tool_call_norm:
  "codec_ok c \<Longrightarrow> normal_tool_call (toolCallFromProto c (toolCallToProto c t))"
  by (simp add: normal_tool_call_def toolCallFromProto_def toolCallToProto_def struct_norm)

lemma part_roundtrip [proto_simps]:
  "codec_ok c \<Longrightarrow> normal_part p \<Longrightarrow> partFromProto c (partToProto c p) = p"
  "codec_ok c \<Longrightarrow> normal_reasoning r \<Longrightarrow> reasoningFromProto c (reasoningToProto c r) = r"
  "codec_ok c \<Longrightarrow> normal_tool_result t \<Longrightarrow> toolResultFromProto c (toolResultToProto c t) = t"
proof (induction c p and c r and c t rule: partToProto_reasoningToProto_toolResultToProto.induct)
  case (1 c t f d r tc tr)
  then show ?case
    by (cases t; cases f; cases d; cases r; cases tc; cases tr) (auto simp: proto_simps)
next
  case (2 c pv mid opq uri dg sm it od vs)
  then show ?case
    by (auto simp: bytes_or_uri_def nonEmpty_def map_idI split: option.splits list.splits)
next
  case (3 c i out uri dg ie er ct cd rq dc ap)
  then show ?case by (auto simp: proto_simps map_idI)
qed

lemma part_norm:
  "codec_ok c \<Longrightarrow> normal_part (partFromProto c (partToProto c p))"
  "codec_ok c \<Longrightarrow> normal_reasoning (reasoningFromProto c (reasoningToProto c r))"
  "codec_ok c \<Longrightarrow> normal_tool_result (toolResultFromProto c (toolResultToProto c t))"
proof (induction c p and c r and c t rule: partToProto_reasoningToProto_toolResultToProto.induct)
  case (1 c t f d r tc tr)
  have dat: "opt_native (fromStruct c (toStruct c (Some x)))" for x
    using 1 by (simp add: struct_norm)
  have tcn: "normal_tool_call (toolCallFromProto c (toolCallToProto c x))" for x
    using 1 by (simp add: tool_call_norm)
  have none: "opt_native None" by (simp add: opt_native_def)
  show ?case
    using 1 dat tcn none file_norm
    by (cases t; cases f; cases d; cases r; cases tc; cases tr) auto
next
  case (2 c pv mid opq uri dg sm it od vs)
  then show ?case
    by (auto simp: bytes_or_uri_def nonEmpty_def split: option.splits pb_opaque.splits list.splits)
next
  case (3 c i out uri dg ie er ct cd rq dc ap)
  then show ?case by (auto simp: struct_norm)
qed

lemma message_roundtrip [proto_simps]:
  "codec_ok c \<Longrightarrow> normal_message m \<Longrightarrow> msgFromProto c (msgToProto c m) = m"
  by (cases m) (simp add: normal_message_def msgFromProto_def msgToProto_def proto_simps map_idI)

lemma message_norm: "codec_ok c \<Longrightarrow> normal_message (msgFromProto c (msgToProto c m))"
  by (auto simp: normal_message_def msgFromProto_def msgToProto_def part_norm)

lemma lifecycle_roundtrip [proto_simps]:
  "normal_lifecycle l \<Longrightarrow> lifecycleFromProto (lifecycleToProto l) = l"
  by (cases l) (auto simp: normal_lifecycle_def lifecycleFromProto_def lifecycleToProto_def proto_simps
      split: option.splits)

lemma lifecycle_norm: "normal_lifecycle (lifecycleFromProto p)"
  by (auto simp: normal_lifecycle_def lifecycleFromProto_def dest: lifecycle_kind_norm)

lemma identity_roundtrip [proto_simps]: "identityFromProto (identityToProto i) = i"
  by (cases i) (simp add: identityFromProto_def identityToProto_def empty_identity_def)

lemma model_call_roundtrip [proto_simps]: "modelCallFromProto (modelCallToProto m) = m"
  by (cases m) (simp add: modelCallFromProto_def modelCallToProto_def)

lemma approval_request_roundtrip [proto_simps]: "approvalReqFromProto (approvalReqToProto a) = a"
  by (cases a) (simp add: approvalReqFromProto_def approvalReqToProto_def)

lemma approval_ref_roundtrip [proto_simps]: "approvalRefFromProto (approvalRefToProto a) = a"
  by (cases a) (simp add: approvalRefFromProto_def approvalRefToProto_def)

lemma approval_result_roundtrip [proto_simps]: "approvalResFromProto (approvalResToProto a) = a"
  by (cases a) (simp add: approvalResFromProto_def approvalResToProto_def)

lemma usage_roundtrip [proto_simps]: "usageFromProto (usageToProto u) = u"
  by (cases u) (simp add: usageFromProto_def usageToProto_def)

lemma error_roundtrip [proto_simps]: "errorFromProto (errorToProto e) = e"
  by (cases e) (simp add: errorFromProto_def errorToProto_def)

lemma end_roundtrip [proto_simps]: "endFromProto (endToProto h) = h"
  by (cases h) (simp add: endFromProto_def endToProto_def option.map_comp comp_def proto_simps
      option.map_ident)

lemma execution_start_roundtrip [proto_simps]:
  "executionStartFromProto (executionStartToProto s) = s"
  by (cases s) (simp add: executionStartFromProto_def executionStartToProto_def)

lemmas wire_event_defs = wire_norm_def EventFromProto_def EventToProto_def bodyToProto_def
  zero_event_def Let_def

lemma wire_norm_id:
  assumes "codec_ok c" and "wire_normal e"
  shows "wire_norm c e = e"
proof -
  have kind: "kindFromProto (kindToProto (ev_kind e)) = ev_kind e"
    using assms(2) by (intro kind_roundtrip) (simp add: wire_normal_def)
  note n = assms(2) [unfolded wire_normal_def]
  show ?thesis
    using assms(1) n kind
    by (cases e, cases "ev_message e", cases "ev_modelCall e", cases "ev_toolCall e",
        cases "ev_result e", cases "ev_approval e", cases "ev_approvalResult e",
        cases "ev_usage e", cases "ev_lifecycle e", cases "ev_end e", cases "ev_err e",
        cases "ev_executionStart e", cases "ev_parked e")
      (simp_all add: wire_event_defs proto_simps)
qed

lemma wire_normal_norm:
  assumes "codec_ok c"
  shows "wire_normal (wire_norm c e)"
proof -
  have k: "\<And>s. kindFromProto (kindToProto (ev_kind e)) = EventKindOther s \<Longrightarrow> s = []"
    by (rule kind_norm)
  show ?thesis
    using assms k
    by (cases "ev_message e", cases "ev_modelCall e", cases "ev_toolCall e",
        cases "ev_result e", cases "ev_approval e", cases "ev_approvalResult e",
        cases "ev_usage e", cases "ev_lifecycle e", cases "ev_end e", cases "ev_err e",
        cases "ev_executionStart e", cases "ev_parked e")
      (simp_all add: wire_event_defs wire_normal_def message_norm tool_call_norm part_norm
        lifecycle_norm)
qed

section \<open>Properties\<close>

text \<open>
  The codec used by the witnesses: it accepts exactly the native maps and wraps them.
\<close>

definition plain_codec :: struct_codec where
  "plain_codec = \<lparr>NewStruct = (\<lambda>m. if content_native m then Some (PbStruct m) else None),
     AsMap = (\<lambda>s. case s of PbStruct m \<Rightarrow> if content_native m then m else []),
     json_roundtrip = (\<lambda>_. None)\<rparr>"

lemma codec_ok_plain [simp]: "codec_ok plain_codec"
  by (auto simp: codec_ok_def plain_codec_def content_native_def split: pb_struct.splits if_splits)

text \<open>
  (C36) Converting an event to its wire message and back returns the same event, for every event in
  wire-normal form: at most one typed body, declared enumeration values, JSON-shaped content.  Of structpb it is assumed
  that it keeps JSON-shaped content (\<open>codec_ok\<close>).
\<close>

theorem event_wire_roundtrip:
  assumes "codec_ok c" and "wire_normal e"
  shows "EventFromProto c (EventToProto c e) = e"
  using wire_norm_id [OF assms] by (simp add: wire_norm_def)

definition sample_output :: event where
  "sample_output = zero_event\<lparr>ev_executionID := ''a1'', ev_kind := EventOutput,
     ev_message := Some (TextMessage ''assistant'' ''hi'')\<rparr>"

lemma wire_normal_sample_output: "wire_normal sample_output"
  by (simp add: sample_output_def wire_normal_def zero_event_def normal_message_def TextMessage_def
      text_part_def opt_native_def)

theorem event_wire_roundtrip_witness:
  "codec_ok plain_codec \<and> wire_normal sample_output \<and>
     EventFromProto plain_codec (EventToProto plain_codec sample_output) = sample_output"
  using event_wire_roundtrip [OF codec_ok_plain wire_normal_sample_output]
    wire_normal_sample_output by simp

text \<open>
  The wire form is stable: whatever a producer put in an event, what is read back after one
  encoding is in wire-normal form, so encoding and decoding it again changes nothing.  This is what
  lets a journal be copied record by record (fork) without drifting.
\<close>

theorem wire_norm_idempotent:
  assumes "codec_ok c"
  shows "wire_normal (wire_norm c e) \<and> wire_norm c (wire_norm c e) = wire_norm c e"
  using wire_normal_norm [OF assms] wire_norm_id [OF assms] by simp

theorem wire_norm_idempotent_witness:
  "codec_ok plain_codec \<and>
   (let e = zero_event\<lparr>ev_kind := EventKindOther ''FUTURE'',
        ev_message := Some (TextMessage ''user'' ''x''), ev_usage := Some empty_usage\<rparr>
    in wire_norm plain_codec (wire_norm plain_codec e) = wire_norm plain_codec e)"
  using wire_norm_idempotent [OF codec_ok_plain] by (simp add: Let_def)

end
