(* ===== verification/Canon.thy ===== *)
theory Canon
  imports Wire
begin

text \<open>
  Package \<^verbatim>\<open>canon\<close>: the bytes a record's hash is computed over, and the hash.  The proto3-JSON
  marshaller, \<^verbatim>\<open>encoding/json\<close>'s encoding of the envelope, the RFC 8785 transform and SHA-256 are
  parameters (\<open>canon_env\<close>); how they are composed is the code's.
\<close>

record canon_env =
  cn_codec :: struct_codec
  cn_protojson :: "pb_event \<Rightarrow> goerr + bytes"
  cn_envelope :: "bytes \<Rightarrow> string \<Rightarrow> string \<Rightarrow> goerr + bytes"
    \<comment> \<open>\<^verbatim>\<open>json.Marshal\<close> of the map with keys \<^verbatim>\<open>event\<close>, \<^verbatim>\<open>prev_hash\<close>, \<^verbatim>\<open>seq\<close>\<close>
  cn_jcs :: "bytes \<Rightarrow> goerr + bytes"
  cn_sha256 :: "bytes \<Rightarrow> bytes"

definition canon_Event :: "canon_env \<Rightarrow> event \<Rightarrow> goerr + bytes" where
  "canon_Event cn ev =
     (case cn_protojson cn (EventToProto (cn_codec cn) ev) of
        Inl e \<Rightarrow> Inl e
      | Inr ej \<Rightarrow> cn_jcs cn ej)"

definition canon_Record :: "canon_env \<Rightarrow> string \<Rightarrow> int64 \<Rightarrow> event \<Rightarrow> goerr + bytes" where
  "canon_Record cn prevHash seq ev =
     (case cn_protojson cn (EventToProto (cn_codec cn) ev) of
        Inl e \<Rightarrow> Inl e
      | Inr ej \<Rightarrow>
          (case cn_envelope cn ej prevHash (format_int seq) of
             Inl e \<Rightarrow> Inl e
           | Inr raw \<Rightarrow> cn_jcs cn raw))"

definition HashRecord :: "canon_env \<Rightarrow> string \<Rightarrow> int64 \<Rightarrow> event \<Rightarrow> goerr + string" where
  "HashRecord cn prevHash seq ev =
     (case canon_Record cn prevHash seq ev of
        Inl e \<Rightarrow> Inl e
      | Inr b \<Rightarrow> Inr (hex_encode (cn_sha256 cn b)))"

section \<open>What the integrity argument assumes of the parameters\<close>

text \<open>A digest is never empty (SHA-256 has 32 bytes).\<close>

definition digest_nonempty :: "canon_env \<Rightarrow> bool" where
  "digest_nonempty cn \<longleftrightarrow> (\<forall>b. cn_sha256 cn b \<noteq> [])"

section \<open>The hash\<close>

lemma HashRecord_nonempty:
  "digest_nonempty cn \<Longrightarrow> HashRecord cn p s e = Inr h \<Longrightarrow> h \<noteq> []"
  by (auto simp: HashRecord_def digest_nonempty_def split: sum.splits)

text \<open>
  Equal hashes of two records mean equal records (up to what the wire form distinguishes), unless
  SHA-256 maps the two canonical forms to the same digest.
\<close>

lemma HashRecord_binding:
  assumes inj: "\<And>b. canon_Record cn p s e = Inr b \<Longrightarrow> canon_Record cn p' s' e' = Inr b \<Longrightarrow>
        p = p' \<and> s = s' \<and> EventToProto (cn_codec cn) e = EventToProto (cn_codec cn) e'"
    and "HashRecord cn p s e = Inr h" and "HashRecord cn p' s' e' = Inr h"
    and nocoll: "\<And>b b'. canon_Record cn p s e = Inr b \<Longrightarrow> canon_Record cn p' s' e' = Inr b' \<Longrightarrow>
        cn_sha256 cn b = cn_sha256 cn b' \<Longrightarrow> b = b'"
  shows "p = p' \<and> s = s' \<and> EventToProto (cn_codec cn) e = EventToProto (cn_codec cn) e'"
proof -
  from assms(2) obtain b where b: "canon_Record cn p s e = Inr b" "h = hex_encode (cn_sha256 cn b)"
    by (auto simp: HashRecord_def split: sum.splits)
  from assms(3) obtain b' where b': "canon_Record cn p' s' e' = Inr b'" "h = hex_encode (cn_sha256 cn b')"
    by (auto simp: HashRecord_def split: sum.splits)
  from b b' have "cn_sha256 cn b = cn_sha256 cn b'" by (auto dest: hex_encode_inj)
  with nocoll b b' have "b = b'" by blast
  with b b' inj show ?thesis by blast
qed

end
