(* ===== verification/Eventlog.thy ===== *)
theory Eventlog
  imports Canon
begin

text \<open>
  Package \<^verbatim>\<open>eventlog\<close>: the in-memory hash-chained log (\<^verbatim>\<open>eventlog.go\<close>), its wire envelope
  (\<^verbatim>\<open>proto.go\<close>) and the \<^verbatim>\<open>Store\<close> interface the controller programs against (\<^verbatim>\<open>store.go\<close>).
  The mutex of \<^verbatim>\<open>Log\<close> makes each method atomic; a method here is one state transition.

  \<open>Store\<close> is a record of operations over a store state, as a Go interface value is a table of
  methods.  Its contract is the locale \<open>event_store\<close>; what a client may conclude about any
  interleaving of writers is proved there once, and the in-memory log is shown to satisfy it.
\<close>

section \<open>Errors and records\<close>

definition ErrConflict :: goerr where
  "ErrConflict = ErrNew ''eventlog: seq conflict (single-writer compare-and-swap failed)''"

definition ErrFenced :: goerr where
  "ErrFenced = ErrNew ''eventlog: stale fencing token (incarnation superseded)''"

definition ErrDeleted :: goerr where
  "ErrDeleted = ErrNew ''eventlog: session is permanently deleted''"

lemmas store_errors = ErrConflict_def ErrFenced_def ErrDeleted_def

record log_record =
  r_seq :: int64
  r_prevHash :: string
  r_hash :: string
  r_fence :: int64
  r_event :: event

section \<open>The in-memory log\<close>

record log =
  log_records :: "log_record list"
  log_fence :: int64

definition New :: log where
  "New = \<lparr>log_records = [], log_fence = 0\<rparr>"

definition NewFrom :: "log_record list \<Rightarrow> log" where
  "NewFrom prefix = \<lparr>log_records = prefix, log_fence = 0\<rparr>"

definition head_of :: "log_record list \<Rightarrow> int64" where
  "head_of rs = (if rs = [] then 0 else r_seq (last rs))"

definition Head :: "log \<Rightarrow> int64" where
  "Head l = head_of (log_records l)"

definition NewFence :: "log \<Rightarrow> int64 \<times> log" where
  "NewFence l = (log_fence l + 1, l\<lparr>log_fence := log_fence l + 1\<rparr>)"

definition last_hash :: "log_record list \<Rightarrow> string" where
  "last_hash rs = (if rs = [] then [] else r_hash (last rs))"

definition Append :: "canon_env \<Rightarrow> int64 \<Rightarrow> int64 \<Rightarrow> event \<Rightarrow> log \<Rightarrow> (goerr + log_record) \<times> log" where
  "Append cn expectedLastSeq fence ev l =
     (if expectedLastSeq \<noteq> Head l then (Inl ErrConflict, l)
      else if fence < log_fence l then (Inl ErrFenced, l)
      else
        let prev = last_hash (log_records l); seq = Head l + 1 in
        case HashRecord cn prev seq ev of
          Inl e \<Rightarrow> (Inl e, l)
        | Inr hash \<Rightarrow>
            let r = \<lparr>r_seq = seq, r_prevHash = prev, r_hash = hash, r_fence = fence,
                     r_event = ev\<rparr>
            in (Inr r, l\<lparr>log_records := log_records l @ [r]\<rparr>))"

definition Read :: "int64 \<Rightarrow> log \<Rightarrow> log_record list" where
  "Read fromSeq l = filter (\<lambda>r. fromSeq \<le> r_seq r) (log_records l)"

definition Snapshot :: "log \<Rightarrow> log_record list" where
  "Snapshot l = Read 1 l"

fun verify_from :: "canon_env \<Rightarrow> nat \<Rightarrow> string \<Rightarrow> log_record list \<Rightarrow> goerr option" where
  "verify_from cn i prev [] = None"
| "verify_from cn i prev (r # rs) =
     (if r_prevHash r \<noteq> prev
      then Some (ErrNew (''eventlog: broken chain at index '' @ format_nat i @ '' (prev_hash mismatch)''))
      else case HashRecord cn prev (r_seq r) (r_event r) of
             Inl e \<Rightarrow> Some e
           | Inr want \<Rightarrow>
               if r_hash r \<noteq> want
               then Some (ErrNew (''eventlog: content hash mismatch at index '' @ format_nat i))
               else verify_from cn (Suc i) (r_hash r) rs)"

definition Verify :: "canon_env \<Rightarrow> log \<Rightarrow> goerr option" where
  "Verify cn l = verify_from cn 0 [] (log_records l)"

text \<open>\<^verbatim>\<open>RecordToProto\<close> and \<^verbatim>\<open>RecordFromProto\<close>: the host-assigned envelope is carried verbatim.\<close>

record pb_log_record =
  plr_seq :: int64
  plr_prevHash :: string
  plr_contentHash :: string
  plr_fence :: int64
  plr_event :: pb_event

definition RecordToProto :: "struct_codec \<Rightarrow> log_record \<Rightarrow> pb_log_record" where
  "RecordToProto c r = \<lparr>plr_seq = r_seq r, plr_prevHash = r_prevHash r,
     plr_contentHash = r_hash r, plr_fence = r_fence r,
     plr_event = EventToProto c (r_event r)\<rparr>"

definition RecordFromProto :: "struct_codec \<Rightarrow> pb_log_record option \<Rightarrow> log_record" where
  "RecordFromProto c p =
     (case p of
        None \<Rightarrow> \<lparr>r_seq = 0, r_prevHash = [], r_hash = [], r_fence = 0, r_event = zero_event\<rparr>
      | Some q \<Rightarrow> \<lparr>r_seq = plr_seq q, r_prevHash = plr_prevHash q, r_hash = plr_contentHash q,
                   r_fence = plr_fence q, r_event = EventFromProto c (plr_event q)\<rparr>)"

section \<open>The Store interface\<close>

record 's store_ops =
  Store_Append :: "int64 \<Rightarrow> int64 \<Rightarrow> event \<Rightarrow> 's \<Rightarrow> (goerr + log_record) \<times> 's"
  Store_Head :: "'s \<Rightarrow> goerr + int64"
  Store_NewFence :: "'s \<Rightarrow> (goerr + int64) \<times> 's"
  Store_Read :: "int64 \<Rightarrow> 's \<Rightarrow> goerr + log_record list"
  Store_Verify :: "'s \<Rightarrow> goerr option"
  Store_CheckWritable :: "('s \<Rightarrow> goerr option) option"
    \<comment> \<open>the optional method the type assertion of \<^verbatim>\<open>CheckWritable\<close> looks for\<close>

definition CheckWritable :: "'s store_ops \<Rightarrow> 's \<Rightarrow> goerr option" where
  "CheckWritable ops s = (case Store_CheckWritable ops of None \<Rightarrow> None | Some f \<Rightarrow> f s)"

definition AsStore :: "canon_env \<Rightarrow> log store_ops" where
  "AsStore cn = \<lparr>
     Store_Append = Append cn,
     Store_Head = (\<lambda>l. Inr (Head l)),
     Store_NewFence = (\<lambda>l. case NewFence l of (f, l') \<Rightarrow> (Inr f, l')),
     Store_Read = (\<lambda>n l. Inr (Read n l)),
     Store_Verify = Verify cn,
     Store_CheckWritable = None\<rparr>"

section \<open>Sequence numbers\<close>

text \<open>Record number \<open>i\<close> (from 0) has sequence number \<open>i + 1\<close>: no gaps, no duplicates.\<close>

definition seqs_ok :: "log_record list \<Rightarrow> bool" where
  "seqs_ok rs \<longleftrightarrow> map r_seq rs = map int [1..<Suc (length rs)]"

lemma seqs_ok_Nil [simp]: "seqs_ok []"
  by (simp add: seqs_ok_def)

lemma seqs_ok_head: "seqs_ok rs \<Longrightarrow> head_of rs = int (length rs)"
proof (cases rs rule: rev_cases)
  case (snoc ys y)
  assume "seqs_ok rs"
  with snoc show ?thesis by (simp add: seqs_ok_def head_of_def)
qed (simp add: head_of_def)

lemma seqs_ok_snoc: "seqs_ok (rs @ [r]) \<longleftrightarrow> seqs_ok rs \<and> r_seq r = head_of rs + 1"
  using seqs_ok_head [of rs] by (auto simp: seqs_ok_def)

lemma seqs_ok_nth: "seqs_ok rs \<Longrightarrow> i < length rs \<Longrightarrow> r_seq (rs ! i) = int i + 1"
proof -
  assume ok: "seqs_ok rs" and i: "i < length rs"
  then have "map r_seq rs ! i = map int [1..<Suc (length rs)] ! i" by (simp add: seqs_ok_def)
  with i show ?thesis by (simp del: upt_Suc)
qed

lemma seqs_ok_take: "seqs_ok rs \<Longrightarrow> seqs_ok (take n rs)"
proof (induction rs rule: rev_induct)
  case (snoc r rs)
  then show ?case by (cases "n \<le> length rs") (auto simp: seqs_ok_snoc)
qed simp

lemma seqs_ok_prefix: "seqs_ok (xs @ ys) \<Longrightarrow> seqs_ok xs"
  using seqs_ok_take [of "xs @ ys" "length xs"] by simp

lemma seqs_ok_pos: "seqs_ok rs \<Longrightarrow> r \<in> set rs \<Longrightarrow> 1 \<le> r_seq r"
  by (metis in_set_conv_nth seqs_ok_nth le_add_same_cancel2 of_nat_0_le_iff)

lemma seqs_ok_read_all: "seqs_ok rs \<Longrightarrow> filter (\<lambda>r. 1 \<le> r_seq r) rs = rs"
  by (simp add: filter_id_conv seqs_ok_pos)

lemma seqs_ok_sorted: "seqs_ok rs \<Longrightarrow> sorted (map r_seq rs)"
  by (simp add: seqs_ok_def sorted_map del: upt_Suc)

lemma seqs_ok_le_take:
  assumes "seqs_ok rs" and "n \<le> length rs"
  shows "takeWhile (\<lambda>r. r_seq r \<le> int n) rs = take n rs"
proof -
  have "takeWhile (\<lambda>r. r_seq r \<le> int n) rs = take n rs"
    if "\<And>i. i < n \<Longrightarrow> r_seq (rs ! i) \<le> int n" and "n < length rs \<Longrightarrow> \<not> r_seq (rs ! n) \<le> int n"
    using that assms(2) by (intro takeWhile_eq_take_P_nth) auto
  then show ?thesis using assms by (simp add: seqs_ok_nth)
qed

section \<open>The hash chain\<close>

text \<open>The chain from a given previous hash, without the indices of the error messages.\<close>

fun chain_from :: "canon_env \<Rightarrow> string \<Rightarrow> log_record list \<Rightarrow> bool" where
  "chain_from cn prev [] = True"
| "chain_from cn prev (r # rs) =
     (r_prevHash r = prev \<and> HashRecord cn prev (r_seq r) (r_event r) = Inr (r_hash r)
      \<and> chain_from cn (r_hash r) rs)"

lemma verify_from_None: "verify_from cn i prev rs = None \<longleftrightarrow> chain_from cn prev rs"
  by (induction cn i prev rs rule: verify_from.induct) (auto split: sum.splits)

lemma Verify_None: "Verify cn l = None \<longleftrightarrow> chain_from cn [] (log_records l)"
  by (simp add: Verify_def verify_from_None)

lemma chain_from_append:
  "chain_from cn prev (xs @ ys) \<longleftrightarrow>
     chain_from cn prev xs \<and> chain_from cn (if xs = [] then prev else r_hash (last xs)) ys"
  by (induction xs arbitrary: prev) auto

lemma chain_from_snoc:
  "chain_from cn [] (rs @ [r]) \<longleftrightarrow> chain_from cn [] rs \<and> r_prevHash r = last_hash rs \<and>
     HashRecord cn (last_hash rs) (r_seq r) (r_event r) = Inr (r_hash r)"
  by (auto simp: chain_from_append last_hash_def)

text \<open>The bytes SHA-256 is applied to when a chain is verified.\<close>

definition canonical_inputs :: "canon_env \<Rightarrow> log_record list \<Rightarrow> bytes set" where
  "canonical_inputs cn rs =
     {b. \<exists>r \<in> set rs. canon_Record cn (r_prevHash r) (r_seq r) (r_event r) = Inr b}"

lemma canonical_inputs_snoc:
  "canonical_inputs cn rs \<subseteq> canonical_inputs cn (rs @ [r])"
  by (auto simp: canonical_inputs_def)

text \<open>
  The canonical form determines the record it was computed from, among the given records: the
  envelope is a JSON object with the three fields, and proto3-JSON determines the message.
\<close>

definition canonical_injective :: "canon_env \<Rightarrow> log_record set \<Rightarrow> bool" where
  "canonical_injective cn R \<longleftrightarrow>
     (\<forall>r \<in> R. \<forall>r' \<in> R. \<forall>b. canon_Record cn (r_prevHash r) (r_seq r) (r_event r) = Inr b \<longrightarrow>
        canon_Record cn (r_prevHash r') (r_seq r') (r_event r') = Inr b \<longrightarrow>
        r_prevHash r = r_prevHash r' \<and> r_seq r = r_seq r' \<and>
        EventToProto (cn_codec cn) (r_event r) = EventToProto (cn_codec cn) (r_event r'))"

lemma canonical_injective_mono:
  "canonical_injective cn R \<Longrightarrow> S \<subseteq> R \<Longrightarrow> canonical_injective cn S"
  unfolding canonical_injective_def by (meson subsetD)

text \<open>What two logs agree on when they agree on everything that is hashed.\<close>

definition same_record :: "canon_env \<Rightarrow> log_record \<Rightarrow> log_record \<Rightarrow> bool" where
  "same_record cn r r' \<longleftrightarrow> r_seq r = r_seq r' \<and> r_prevHash r = r_prevHash r' \<and> r_hash r = r_hash r' \<and>
     EventToProto (cn_codec cn) (r_event r) = EventToProto (cn_codec cn) (r_event r')"

lemma chains_agree:
  assumes ne: "digest_nonempty cn"
    and "canonical_injective cn (set rs \<union> set rs')"
    and "chain_from cn [] rs" and "chain_from cn [] rs'"
    and "last_hash rs = last_hash rs'"
    and "inj_on (cn_sha256 cn) (canonical_inputs cn rs \<union> canonical_inputs cn rs')"
  shows "list_all2 (same_record cn) rs rs'"
  using assms(2-6)
proof (induction rs arbitrary: rs' rule: rev_induct)
  case Nil
  then have "last_hash rs' = []" by (simp add: last_hash_def)
  moreover have "rs' \<noteq> [] \<Longrightarrow> last_hash rs' \<noteq> []"
    using Nil.prems(3) ne
    by (cases rs' rule: rev_cases) (auto simp: chain_from_snoc last_hash_def dest: HashRecord_nonempty)
  ultimately show ?case by auto
next
  case (snoc r rs)
  have h: "last_hash (rs @ [r]) = r_hash r" by (simp add: last_hash_def)
  from snoc.prems(2) ne have "r_hash r \<noteq> []" by (auto simp: chain_from_snoc dest: HashRecord_nonempty)
  with snoc.prems(4) h have "rs' \<noteq> []" by (auto simp: last_hash_def)
  then obtain ts t where rs': "rs' = ts @ [t]" by (cases rs' rule: rev_cases) auto
  have eqh: "r_hash r = r_hash t" using snoc.prems(4) rs' by (simp add: last_hash_def)
  from snoc.prems(2) have c1: "chain_from cn [] rs" "r_prevHash r = last_hash rs"
    "HashRecord cn (last_hash rs) (r_seq r) (r_event r) = Inr (r_hash r)"
    by (auto simp: chain_from_snoc)
  from snoc.prems(3) rs' have c2: "chain_from cn [] ts" "r_prevHash t = last_hash ts"
    "HashRecord cn (last_hash ts) (r_seq t) (r_event t) = Inr (r_hash r)"
    by (auto simp: chain_from_snoc eqh)
  have bind: "last_hash rs = last_hash ts \<and> r_seq r = r_seq t \<and>
      EventToProto (cn_codec cn) (r_event r) = EventToProto (cn_codec cn) (r_event t)"
  proof (rule HashRecord_binding [OF _ c1(3) c2(3)])
    fix b
    assume "canon_Record cn (last_hash rs) (r_seq r) (r_event r) = Inr b"
      and "canon_Record cn (last_hash ts) (r_seq t) (r_event t) = Inr b"
    with snoc.prems(1) c1(2) c2(2) rs' show "last_hash rs = last_hash ts \<and> r_seq r = r_seq t \<and>
      EventToProto (cn_codec cn) (r_event r) = EventToProto (cn_codec cn) (r_event t)"
      unfolding canonical_injective_def by (metis UnCI in_set_conv_decomp)
  next
    fix b b'
    assume b: "canon_Record cn (last_hash rs) (r_seq r) (r_event r) = Inr b"
      and b': "canon_Record cn (last_hash ts) (r_seq t) (r_event t) = Inr b'"
      and eq: "cn_sha256 cn b = cn_sha256 cn b'"
    from b c1(2) have "b \<in> canonical_inputs cn (rs @ [r])" by (auto simp: canonical_inputs_def)
    moreover from b' c2(2) rs' have "b' \<in> canonical_inputs cn rs'" by (auto simp: canonical_inputs_def)
    ultimately show "b = b'" using eq snoc.prems(5) by (auto dest: inj_onD)
  qed
  have "inj_on (cn_sha256 cn) (canonical_inputs cn rs \<union> canonical_inputs cn ts)"
    using snoc.prems(5) rs' by (auto intro: inj_on_subset simp: canonical_inputs_def)
  moreover have "canonical_injective cn (set rs \<union> set ts)"
    using snoc.prems(1) by (rule canonical_injective_mono) (use rs' in auto)
  ultimately have "list_all2 (same_record cn) rs ts"
    using snoc.IH [OF _ c1(1) c2(1)] bind by simp
  moreover have "same_record cn r t"
    using bind eqh c1(2) c2(2) by (simp add: same_record_def)
  ultimately show ?case by (simp add: rs' list_all2_appendI)
qed

section \<open>The log's own invariant\<close>

definition log_ok :: "canon_env \<Rightarrow> log \<Rightarrow> bool" where
  "log_ok cn l \<longleftrightarrow> seqs_ok (log_records l) \<and> chain_from cn [] (log_records l)"

lemma log_ok_New [simp]: "log_ok cn New"
  by (simp add: log_ok_def New_def)

lemma Append_cases:
  assumes "Append cn ex f ev l = (res, l')"
  obtains (conflict) "ex \<noteq> Head l" "res = Inl ErrConflict" "l' = l"
  | (fenced) "ex = Head l" "f < log_fence l" "res = Inl ErrFenced" "l' = l"
  | (hash) e where "ex = Head l" "log_fence l \<le> f" "HashRecord cn (last_hash (log_records l)) (Head l + 1) ev = Inl e"
      "res = Inl e" "l' = l"
  | (ok) h where "ex = Head l" "log_fence l \<le> f" "HashRecord cn (last_hash (log_records l)) (Head l + 1) ev = Inr h"
      "res = Inr \<lparr>r_seq = Head l + 1, r_prevHash = last_hash (log_records l), r_hash = h,
                  r_fence = f, r_event = ev\<rparr>"
      "l' = l\<lparr>log_records := log_records l @ [\<lparr>r_seq = Head l + 1,
                  r_prevHash = last_hash (log_records l), r_hash = h, r_fence = f, r_event = ev\<rparr>]\<rparr>"
  using assms by (auto simp: Append_def Let_def split: if_splits sum.splits)

lemma Append_log_ok:
  assumes "log_ok cn l" and "Append cn ex f ev l = (res, l')"
  shows "log_ok cn l'"
  using assms(2)
proof (cases rule: Append_cases)
  case (ok h)
  with assms(1) show ?thesis
    by (simp add: log_ok_def seqs_ok_snoc chain_from_snoc Head_def)
qed (use assms(1) in auto)

section \<open>The contract of a store\<close>

text \<open>
  \<open>recs\<close> is what a successful \<^verbatim>\<open>Read(1)\<close> returns, \<open>fence\<close> the current fencing token, and \<open>norm\<close>
  what becomes of an event between \<^verbatim>\<open>Append\<close> and \<^verbatim>\<open>Read\<close> (nothing in memory; the wire round trip
  in a database).  Every operation may fail; a failed one changes neither records nor fence.
\<close>

locale event_store =
  fixes ops :: "'s store_ops"
    and recs :: "'s \<Rightarrow> log_record list"
    and fence :: "'s \<Rightarrow> int64"
    and invar :: "'s \<Rightarrow> bool"
    and norm :: "event \<Rightarrow> event"
  assumes append_invar: "invar s \<Longrightarrow> Store_Append ops ex f e s = (res, s') \<Longrightarrow> invar s'"
    and append_ok: "invar s \<Longrightarrow> Store_Append ops ex f e s = (Inr r, s') \<Longrightarrow>
          ex = head_of (recs s) \<and> fence s \<le> f \<and> r_seq r = ex + 1 \<and> r_fence r = f \<and> r_event r = e
          \<and> r_prevHash r = last_hash (recs s)
          \<and> recs s' = recs s @ [r\<lparr>r_event := norm e\<rparr>] \<and> fence s' = fence s"
    and append_err: "invar s \<Longrightarrow> Store_Append ops ex f e s = (Inl x, s') \<Longrightarrow>
          recs s' = recs s \<and> fence s' = fence s"
    and head_ok: "invar s \<Longrightarrow> Store_Head ops s = Inr h \<Longrightarrow> h = head_of (recs s)"
    and read_ok: "invar s \<Longrightarrow> Store_Read ops n s = Inr rs \<Longrightarrow>
          rs = filter (\<lambda>r. n \<le> r_seq r) (recs s)"
    and fence_invar: "invar s \<Longrightarrow> Store_NewFence ops s = (res', s') \<Longrightarrow> invar s'"
    and fence_ok: "invar s \<Longrightarrow> Store_NewFence ops s = (Inr f, s') \<Longrightarrow>
          f = fence s + 1 \<and> fence s' = f \<and> recs s' = recs s"
    and fence_err: "invar s \<Longrightarrow> Store_NewFence ops s = (Inl x, s') \<Longrightarrow>
          recs s' = recs s \<and> fence s' = fence s"
    and recs_seqs: "invar s \<Longrightarrow> seqs_ok (recs s)"

text \<open>
  Writers interleave: a schedule is a list of appends and fence mints by anyone, each with whatever
  arguments that writer holds.
\<close>

datatype store_call = CallAppend int64 int64 event | CallNewFence

fun store_run :: "'s store_ops \<Rightarrow> store_call list \<Rightarrow> 's \<Rightarrow> 's" where
  "store_run ops [] s = s"
| "store_run ops (CallAppend ex f e # cs) s = store_run ops cs (snd (Store_Append ops ex f e s))"
| "store_run ops (CallNewFence # cs) s = store_run ops cs (snd (Store_NewFence ops s))"

context event_store
begin

lemma read_all: "invar s \<Longrightarrow> Store_Read ops 1 s = Inr rs \<Longrightarrow> rs = recs s"
  using read_ok [of s 1 rs] recs_seqs [of s] by (simp add: seqs_ok_read_all)

lemma append_stale_fence:
  "invar s \<Longrightarrow> f < fence s \<Longrightarrow> \<exists>x. fst (Store_Append ops ex f e s) = Inl x"
  using append_ok [of s ex f e] by (cases "Store_Append ops ex f e s"; cases "fst (Store_Append ops ex f e s)") force+

lemma append_stale_head:
  "invar s \<Longrightarrow> ex \<noteq> head_of (recs s) \<Longrightarrow> \<exists>x. fst (Store_Append ops ex f e s) = Inl x"
  using append_ok [of s ex f e] by (cases "Store_Append ops ex f e s"; cases "fst (Store_Append ops ex f e s)") force+

lemma append_extends:
  assumes "invar s"
  shows "\<exists>new. recs (snd (Store_Append ops ex f e s)) = recs s @ new \<and> (\<forall>r\<in>set new. r_fence r = f \<and> fence s \<le> f)
    \<and> fence (snd (Store_Append ops ex f e s)) = fence s \<and> invar (snd (Store_Append ops ex f e s))"
proof -
  obtain res s' where a: "Store_Append ops ex f e s = (res, s')" by fastforce
  show ?thesis
  proof (cases res)
    case (Inl x)
    with a append_err [OF assms] append_invar [OF assms a] show ?thesis by simp
  next
    case (Inr r)
    with a append_ok [OF assms] append_invar [OF assms a] show ?thesis by simp
  qed
qed

lemma fence_mono:
  assumes "invar s"
  shows "recs (snd (Store_NewFence ops s)) = recs s \<and> fence s \<le> fence (snd (Store_NewFence ops s))
    \<and> invar (snd (Store_NewFence ops s))"
proof -
  obtain res s' where a: "Store_NewFence ops s = (res, s')" by fastforce
  show ?thesis
  proof (cases res)
    case (Inl x)
    with a fence_err [OF assms] fence_invar [OF assms a] show ?thesis by simp
  next
    case (Inr r)
    with a fence_ok [OF assms] fence_invar [OF assms a] show ?thesis by simp
  qed
qed

text \<open>
  Whatever the writers do, the log only grows, and what is added from a moment on carries a fence at
  least as large as the token current at that moment: a superseded incarnation adds nothing.
\<close>

lemma run_extends:
  assumes "invar s"
  shows "\<exists>new. recs (store_run ops cs s) = recs s @ new \<and> (\<forall>r \<in> set new. fence s \<le> r_fence r)
    \<and> fence s \<le> fence (store_run ops cs s) \<and> invar (store_run ops cs s)"
  using assms
proof (induction cs arbitrary: s)
  case Nil
  then show ?case by simp
next
  case (Cons c cs)
  show ?case
  proof (cases c)
    case (CallAppend ex f e)
    obtain new where new: "recs (snd (Store_Append ops ex f e s)) = recs s @ new"
      "\<forall>r\<in>set new. r_fence r = f \<and> fence s \<le> f" "fence (snd (Store_Append ops ex f e s)) = fence s"
      "invar (snd (Store_Append ops ex f e s))"
      using append_extends [OF Cons.prems] by blast
    with Cons.IH [OF new(4)] CallAppend show ?thesis by auto
  next
    case CallNewFence
    with Cons.IH [of "snd (Store_NewFence ops s)"] fence_mono [OF Cons.prems] show ?thesis by force
  qed
qed

lemma run_invar: "invar s \<Longrightarrow> invar (store_run ops cs s)"
  using run_extends by blast

end

section \<open>The in-memory log is a store\<close>

lemmas AsStore_simps = AsStore_def NewFence_def Head_def Read_def

interpretation mem: event_store "AsStore cn" log_records log_fence "log_ok cn" "\<lambda>e. e" for cn
proof (unfold_locales, goal_cases)
  case (1 s ex f e res s')
  then show ?case by (auto simp: AsStore_def intro: Append_log_ok)
next
  case (2 s ex f e r s')
  then have "Append cn ex f e s = (Inr r, s')" by (simp add: AsStore_def)
  then show ?case by (cases rule: Append_cases) (auto simp: Head_def)
next
  case (3 s ex f e x s')
  then have "Append cn ex f e s = (Inl x, s')" by (simp add: AsStore_def)
  then show ?case by (cases rule: Append_cases) auto
next
  case (4 s h)
  then show ?case by (simp add: AsStore_simps)
next
  case (5 s n rs)
  then show ?case by (auto simp: AsStore_simps)
next
  case (6 s res' s')
  then show ?case by (auto simp: AsStore_simps log_ok_def)
next
  case (7 s f s')
  then show ?case by (auto simp: AsStore_simps)
next
  case (8 s x s')
  then show ?case by (auto simp: AsStore_simps)
next
  case (9 s)
  then show ?case by (simp add: log_ok_def)
qed

lemma mem_read: "log_ok cn l \<Longrightarrow> Store_Read (AsStore cn) 1 l = Inr (log_records l)"
  by (simp add: AsStore_def Read_def log_ok_def seqs_ok_read_all)

section \<open>Properties\<close>

text \<open>
  A canonicalisation for the witnesses: the canonical form of a record is its previous hash, its
  number and a tag of its event kind, and the digest keeps all of it.
\<close>

definition plain_canon :: canon_env where
  "plain_canon = \<lparr>cn_codec = plain_codec,
     cn_protojson = (\<lambda>p. Inr (pe_executionId p)),
     cn_envelope = (\<lambda>ej p s. Inr (CHR ''h'' # p @ CHR ''/'' # s @ CHR ''/'' # ej)),
     cn_jcs = Inr, cn_sha256 = (\<lambda>b. CHR ''#'' # b)\<rparr>"

lemma plain_canon_total: "\<exists>h. HashRecord plain_canon p s e = Inr h"
  by (simp add: HashRecord_def canon_Record_def plain_canon_def)

text \<open>
  Whatever sequence of appends and fence mints any number of writers perform on an empty log,
  with whatever stale or current arguments, the log verifies: its records are numbered 1, 2, 3, ...
  without gap, every link carries the hash of its predecessor, and \<^verbatim>\<open>Verify\<close> returns nil.
\<close>

theorem log_always_verifies:
  "Verify cn (store_run (AsStore cn) cs New) = None \<and>
     map r_seq (log_records (store_run (AsStore cn) cs New))
       = map int [1..<Suc (length (log_records (store_run (AsStore cn) cs New)))]"
  using mem.run_invar [OF log_ok_New, of cn cs]
  by (simp add: log_ok_def Verify_None seqs_ok_def del: upt_Suc)

text \<open>
  Single writer: when two writers append at the same expected head, at most one succeeds; after
  the first one's success the second gets \<^verbatim>\<open>ErrConflict\<close> and changes nothing.
\<close>

theorem append_cas_excludes:
  assumes "log_ok cn l" and "Append cn ex f1 e1 l = (Inr r1, l1)"
  shows "Append cn ex f2 e2 l1 = (Inl ErrConflict, l1)"
  using assms(2)
proof (cases rule: Append_cases)
  case (ok h)
  then have "Head l1 = ex + 1" by (simp add: Head_def head_of_def)
  then show ?thesis by (simp add: Append_def)
qed simp_all

theorem append_cas_excludes_witness:
  "\<exists>r1 l1. log_ok plain_canon New \<and> Append plain_canon 0 1 zero_event New = (Inr r1, l1) \<and>
     Append plain_canon 0 1 sample_output l1 = (Inl ErrConflict, l1)"
proof -
  obtain r1 l1 where a: "Append plain_canon 0 1 zero_event New = (Inr r1, l1)"
    using plain_canon_total [of "[]" 1 zero_event]
    by (auto simp: Append_def New_def Head_def head_of_def last_hash_def Let_def)
  with append_cas_excludes [OF log_ok_New a] show ?thesis by simp
qed

text \<open>
  (C22) Fencing: once a new incarnation has minted a fence, no record with an older token is ever
  added again, in any later schedule; an append with an older token at the current head fails with
  \<^verbatim>\<open>ErrFenced\<close>.
\<close>

theorem zombie_writer_fenced:
  assumes "log_ok cn l" and "NewFence l = (f, l')" and "old < f"
  shows "(\<exists>new. log_records (store_run (AsStore cn) cs l') = log_records l @ new \<and>
           (\<forall>r \<in> set new. f \<le> r_fence r)) \<and>
         Append cn (Head l') old e l' = (Inl ErrFenced, l')"
proof -
  have ok: "log_ok cn l'" and f: "log_fence l' = f" and rs: "log_records l' = log_records l"
    using assms by (auto simp: NewFence_def log_ok_def)
  have "\<exists>new. log_records (store_run (AsStore cn) cs l') = log_records l @ new \<and>
           (\<forall>r \<in> set new. f \<le> r_fence r)"
    using mem.run_extends [OF ok, of cs] f rs by auto
  moreover have "Append cn (Head l') old e l' = (Inl ErrFenced, l')"
    using f assms(3) by (simp add: Append_def)
  ultimately show ?thesis by blast
qed

theorem zombie_writer_fenced_witness:
  "\<exists>l'. log_ok plain_canon New \<and> NewFence New = (1, l') \<and>
     (\<exists>new. log_records (store_run (AsStore plain_canon) [CallAppend 0 0 zero_event, CallAppend 0 1 zero_event] l')
         = log_records New @ new \<and> (\<forall>r \<in> set new. 1 \<le> r_fence r)) \<and>
     Append plain_canon (Head l') 0 zero_event l' = (Inl ErrFenced, l')"
proof -
  obtain l' where nf: "NewFence New = (1, l')" by (simp add: NewFence_def New_def)
  from zombie_writer_fenced [OF log_ok_New nf, of 0 plain_canon
      "[CallAppend 0 0 zero_event, CallAppend 0 1 zero_event]" zero_event] nf
  show ?thesis by auto
qed


definition sample_log :: log where
  "sample_log = store_run (AsStore plain_canon) [CallAppend 0 1 zero_event, CallAppend 1 1 sample_output] New"

lemma sample_log_records:
  "\<exists>h1 h2. hd h1 = CHR ''2'' \<and> h1 \<noteq> [] \<and> log_records sample_log =
     [\<lparr>r_seq = 1, r_prevHash = [], r_hash = h1, r_fence = 1, r_event = zero_event\<rparr>,
      \<lparr>r_seq = 2, r_prevHash = h1, r_hash = h2, r_fence = 1, r_event = sample_output\<rparr>]"
  by (simp add: sample_log_def AsStore_def Append_def New_def Head_def head_of_def last_hash_def
      HashRecord_def canon_Record_def plain_canon_def Let_def hex_encode_def hex_byte_def hex_digit_def
      char_of_def bit_0)


end
