(* ===== verification/Executions.thy ===== *)
theory Executions
  imports Eventlog
begin

text \<open>
  Projections of a journal into executions: \<^verbatim>\<open>controller/executions.go\<close> and
  \<^verbatim>\<open>controller/legacy.go\<close>.  A modern turn is the set of records that carry its execution ID; a
  v0.1.2 journal has no IDs and is one whole-log invocation.  Replay and Resume both start from
  \<open>recordedExecutions\<close>.
\<close>

section \<open>Errors of package controller\<close>

definition ErrReplayInvokedModel :: goerr where
  "ErrReplayInvokedModel = ErrNew ''controller: replay invoked the model (I1 violated)''"

definition ErrReplayDiverged :: goerr where
  "ErrReplayDiverged = ErrNew ''controller: replay diverged from the journal''"

definition ErrInvalidExecutionLog :: goerr where
  "ErrInvalidExecutionLog = ErrNew ''controller: invalid execution log''"

definition ErrHarnessDescribeFailed :: goerr where
  "ErrHarnessDescribeFailed = ErrNew ''controller: describe harness failed''"

definition ErrHarnessMismatch :: goerr where
  "ErrHarnessMismatch = ErrNew ''controller: harness does not match recorded invocation''"

definition ErrHarnessVersionMismatch :: goerr where
  "ErrHarnessVersionMismatch = ErrNew ''controller: harness version does not match recorded invocation''"

definition ErrInheritedToolIntent :: goerr where
  "ErrInheritedToolIntent = errorf [] ErrInvalidExecutionLog '': inherited tool intent cannot be resumed''"

definition ErrMissingSessionUID :: goerr where
  "ErrMissingSessionUID = ErrNew ''controller: a session UID is required''"

definition ErrIncompleteInvocation :: goerr where
  "ErrIncompleteInvocation = errorf [] ErrInvalidExecutionLog '': incomplete invocation''"

definition ErrMissingIdempotencyKey :: goerr where
  "ErrMissingIdempotencyKey = ErrNew ''controller: CONTROLLER_MEDIATED tool call requires an idempotency key''"

definition ErrUnmediatedToolCall :: goerr where
  "ErrUnmediatedToolCall = ErrNew ''controller: ToolCall requires a host-mediated tier''"

section \<open>Legacy journals\<close>

fun boundary_complete_rev :: "event list \<Rightarrow> bool" where
  "boundary_complete_rev [] = True"
| "boundary_complete_rev (e # es) =
     (if ev_kind e \<noteq> EventLifecycle then ev_kind e = EventEnd \<or> ev_kind e = EventError
      else boundary_complete_rev es)"

definition legacyBoundaryComplete :: "event list \<Rightarrow> bool" where
  "legacyBoundaryComplete events = boundary_complete_rev (rev events)"

definition legacy_kind :: "event_kind \<Rightarrow> bool" where
  "legacy_kind k \<longleftrightarrow> k \<in> {EventInput, EventModelCall, EventOutput, EventToolCall, EventToolResult,
     EventUsage, EventEnd, EventError}"

fun legacy_scan :: "event list \<Rightarrow> nat \<Rightarrow> bool \<Rightarrow> event list \<Rightarrow> goerr + nat" where
  "legacy_scan events i hasLegacy [] = Inr (if hasLegacy then length events else 0)"
| "legacy_scan events i hasLegacy (e # rest) =
     (if ev_kind e = EventExecutionStart \<or> ev_kind e \<noteq> EventLifecycle \<and> ev_executionID e \<noteq> [] then
        (if hasLegacy \<and> ev_kind e \<noteq> EventExecutionStart \<and> \<not> legacyBoundaryComplete (take i events)
         then Inl (errorf [] ErrInvalidExecutionLog
                ('': unfinished legacy prefix before event '' @ format_nat (Suc i) @ '' (''
                 @ kind_text (ev_kind e) @ '')''))
         else if \<not> hasLegacy then Inr 0
         else Inr i)
      else if legacy_kind (ev_kind e) then legacy_scan events (Suc i) True rest
      else if ev_kind e = EventLifecycle then legacy_scan events (Suc i) hasLegacy rest
      else Inl (errorf [] ErrInvalidExecutionLog
             ('': event '' @ format_nat (Suc i) @ '' ('' @ kind_text (ev_kind e)
              @ '') is not a legacy event'')))"

definition legacyPrefix :: "event list \<Rightarrow> goerr + nat" where
  "legacyPrefix events = legacy_scan events 0 False events"

section \<open>Recorded executions\<close>

record recorded_execution =
  rx_id :: string
  rx_start :: int
  rx_inputs :: "message list"
  rx_stream :: "event list"
  rx_completed :: bool
  rx_config :: bytes
  rx_resumeFromSeq :: int64
  rx_hasStart :: bool
  rx_inputCount :: "int64 option"
  rx_inputRecords :: nat
  rx_harness :: string
  rx_harnessVersion :: string
  rx_legacyEnd :: nat

definition empty_execution :: recorded_execution where
  "empty_execution = \<lparr>rx_id = [], rx_start = 0, rx_inputs = [], rx_stream = [], rx_completed = False,
     rx_config = [], rx_resumeFromSeq = 0, rx_hasStart = False, rx_inputCount = None,
     rx_inputRecords = 0, rx_harness = [], rx_harnessVersion = [], rx_legacyEnd = 0\<rparr>"

definition legacyEffect :: "event_kind \<Rightarrow> bool" where
  "legacyEffect k \<longleftrightarrow> k \<in> {EventModelCall, EventOutput, EventToolCall, EventToolResult}"

definition input_messages :: "event list \<Rightarrow> message list" where
  "input_messages events =
     concat (map (\<lambda>e. case ev_message e of Some m \<Rightarrow> [m] | None \<Rightarrow> [])
       (filter (\<lambda>e. ev_kind e = EventInput) events))"

definition legacyReplayExecution :: "event list \<Rightarrow> recorded_execution" where
  "legacyReplayExecution events = empty_execution\<lparr>rx_legacyEnd := length events,
     rx_inputs := input_messages events,
     rx_stream := filter (\<lambda>e. legacyEffect (ev_kind e)) events\<rparr>"

text \<open>
  The loop of \<^verbatim>\<open>legacyResumeExecution\<close>: the index of the last INPUT and of the last END or ERROR,
  \<open>-1\<close> when there is none.
\<close>

fun last_input_finished :: "int \<Rightarrow> event list \<Rightarrow> int \<times> int \<Rightarrow> int \<times> int" where
  "last_input_finished i [] (st, fin) = (st, fin)"
| "last_input_finished i (e # es) (st, fin) =
     last_input_finished (i + 1) es
       (if ev_kind e = EventInput then (i, fin)
        else if ev_kind e = EventEnd \<or> ev_kind e = EventError then (st, i)
        else (st, fin))"

definition legacyResumeExecution :: "event list \<Rightarrow> recorded_execution" where
  "legacyResumeExecution events =
     (let (st, lastFinished) = last_input_finished 0 events (-1, -1);
          x = empty_execution\<lparr>rx_start := st, rx_legacyEnd := length events,
                rx_completed := (st < 0 \<or> st < lastFinished)\<rparr>
      in if rx_completed x then x
         else x\<lparr>rx_inputs := (case ev_message (events ! nat st) of Some m \<Rightarrow> [m] | None \<Rightarrow> []),
                rx_stream := filter (\<lambda>e. legacyEffect (ev_kind e)) (drop (nat st + 1) events)\<rparr>)"

definition validateInputs :: "recorded_execution \<Rightarrow> goerr option" where
  "validateInputs e =
     (if \<not> rx_hasStart e then None
      else case rx_inputCount e of
        None \<Rightarrow> Some (errorf [] ErrInvalidExecutionLog
                  ('': execution '' @ format_q (rx_id e) @ '' start has no input_count''))
      | Some n \<Rightarrow>
          if n < 0 then Some (errorf [] ErrInvalidExecutionLog
               ('': execution '' @ format_q (rx_id e) @ '' has negative input_count '' @ format_int n))
          else if rx_inputRecords e \<noteq> length (rx_inputs e) then Some (errorf [] ErrInvalidExecutionLog
               ('': execution '' @ format_q (rx_id e) @ '' has an INPUT without a message''))
          else if int (rx_inputRecords e) \<noteq> n then
            Some (errorf []
              (if \<not> rx_completed e \<and> int (rx_inputRecords e) < n then ErrIncompleteInvocation
               else ErrInvalidExecutionLog)
              ('': execution '' @ format_q (rx_id e) @ '' expected '' @ format_int n
               @ '' INPUT events, committed '' @ format_nat (rx_inputRecords e)))
          else None)"

text \<open>The body of the loop of \<^verbatim>\<open>recordedExecutions\<close> once the execution of the event is known.\<close>

definition stream_kind :: "event_kind \<Rightarrow> bool" where
  "stream_kind k \<longleftrightarrow> k \<in> {EventModelCall, EventOutput, EventToolCall, EventToolResult, EventUsage,
     EventApprovalRequest, EventApprovalResult}"

definition record_event :: "nat \<Rightarrow> event \<Rightarrow> recorded_execution \<Rightarrow> goerr + recorded_execution" where
  "record_event i event x =
     (if ev_kind event = EventExecutionStart then
        (case ev_executionStart event of
           None \<Rightarrow> Inl (errorf [] ErrInvalidExecutionLog
                     ('': execution '' @ format_q (rx_id x) @ '' has an invalid start event''))
         | Some s \<Rightarrow>
             if rx_start x \<noteq> int i then Inl (errorf [] ErrInvalidExecutionLog
                     ('': execution '' @ format_q (rx_id x) @ '' has an invalid start event''))
             else Inr (x\<lparr>rx_config := es_config s, rx_resumeFromSeq := es_resumeFromSeq s,
                     rx_hasStart := True, rx_inputCount := es_inputCount s,
                     rx_harness := es_harness s, rx_harnessVersion := es_harnessVersion s\<rparr>))
      else if ev_kind event = EventInput then
        Inr (x\<lparr>rx_inputRecords := Suc (rx_inputRecords x),
               rx_inputs := (case ev_message event of None \<Rightarrow> rx_inputs x
                             | Some m \<Rightarrow> rx_inputs x @ [m])\<rparr>)
      else if stream_kind (ev_kind event) then Inr (x\<lparr>rx_stream := rx_stream x @ [event]\<rparr>)
      else if ev_kind event = EventEnd then Inr (x\<lparr>rx_completed := True\<rparr>)
      else Inr x)"

text \<open>
  The loop itself: \<open>xs\<close> is the slice \<^verbatim>\<open>executions\<close>, \<open>byID\<close> the index of each execution in it.
\<close>

fun group_events ::
  "nat \<Rightarrow> event list \<Rightarrow> recorded_execution list \<Rightarrow> (string \<rightharpoonup> nat) \<Rightarrow>
    goerr + recorded_execution list \<times> (string \<rightharpoonup> nat)"
where
  "group_events i [] xs byID = Inr (xs, byID)"
| "group_events i (event # es) xs byID =
     (if ev_kind event = EventLifecycle then group_events (Suc i) es xs byID
      else if ev_executionID event = [] then
        Inl (errorf [] ErrInvalidExecutionLog
          ('': event '' @ format_nat (Suc i) @ '' ('' @ kind_text (ev_kind event) @ '') has no execution_id''))
      else
        (case byID (ev_executionID event) of
           Some k \<Rightarrow>
             (case record_event i event (xs ! k) of
                Inl e \<Rightarrow> Inl e
              | Inr x \<Rightarrow> group_events (Suc i) es (xs[k := x]) byID)
         | None \<Rightarrow>
             (case record_event i event
                (empty_execution\<lparr>rx_id := ev_executionID event, rx_start := int i\<rparr>) of
                Inl e \<Rightarrow> Inl e
              | Inr x \<Rightarrow> group_events (Suc i) es (xs @ [x])
                  (byID(ev_executionID event \<mapsto> length xs)))))"

fun first_invalid :: "recorded_execution list \<Rightarrow> goerr option" where
  "first_invalid [] = None"
| "first_invalid (x # xs) =
     (if rx_completed x then (case validateInputs x of Some e \<Rightarrow> Some e | None \<Rightarrow> first_invalid xs)
      else first_invalid xs)"

text \<open>The end of the last successful legacy turn: one past the last END.\<close>

fun last_end :: "nat \<Rightarrow> nat \<Rightarrow> event list \<Rightarrow> nat" where
  "last_end i acc [] = acc"
| "last_end i acc (e # es) = last_end (Suc i) (if ev_kind e = EventEnd then Suc i else acc) es"

definition legacy_executions :: "event list \<Rightarrow> nat \<Rightarrow> recorded_execution list" where
  "legacy_executions events prefixEnd =
     (if prefixEnd = 0 then []
      else let replayEnd = (if prefixEnd < length events then last_end 0 0 (take prefixEnd events)
                            else prefixEnd)
           in if replayEnd > 0 then [legacyReplayExecution (take replayEnd events)] else [])"

definition recordedExecutions :: "event list \<Rightarrow> goerr + recorded_execution list" where
  "recordedExecutions events =
     (case legacyPrefix events of
        Inl e \<Rightarrow> Inl e
      | Inr prefixEnd \<Rightarrow>
          (case group_events prefixEnd (drop prefixEnd events)
                  (legacy_executions events prefixEnd) Map.empty of
             Inl e \<Rightarrow> Inl e
           | Inr (xs, byID) \<Rightarrow> (case first_invalid xs of Some e \<Rightarrow> Inl e | None \<Rightarrow> Inr xs)))"

definition pendingExecution :: "recorded_execution list \<Rightarrow> goerr + recorded_execution option" where
  "pendingExecution xs =
     (if xs = [] \<or> rx_completed (last xs) then Inr None
      else case validateInputs (last xs) of Some e \<Rightarrow> Inl e | None \<Rightarrow> Inr (Some (last xs)))"

definition pendingResumeExecution ::
  "event list \<Rightarrow> recorded_execution list \<Rightarrow> goerr + recorded_execution option" where
  "pendingResumeExecution events xs =
     (case pendingExecution xs of
        Inl e \<Rightarrow> Inl e
      | Inr None \<Rightarrow> Inr None
      | Inr (Some x) \<Rightarrow>
          if rx_legacyEnd x > 0 then
            (let legacy = legacyResumeExecution (take (rx_legacyEnd x) events)
             in if rx_completed legacy then Inr None else Inr (Some legacy))
          else Inr (Some x))"

definition gated_call :: "event \<Rightarrow> bool" where
  "gated_call e \<longleftrightarrow> ev_kind e = EventToolCall \<and>
     (case ev_toolCall e of None \<Rightarrow> False | Some t \<Rightarrow> tc_mediation t = MediationRequiresApproval)"

definition hasApproval :: "recorded_execution \<Rightarrow> bool" where
  "hasApproval x \<longleftrightarrow> (\<exists>e \<in> set (rx_stream x). gated_call e)"

definition invocation :: "recorded_execution \<Rightarrow> execution_start option" where
  "invocation x =
     (if \<not> rx_hasStart x then None
      else Some \<lparr>es_config = rx_config x, es_resumeFromSeq = rx_resumeFromSeq x,
                 es_inputCount = rx_inputCount x, es_harness = rx_harness x,
                 es_harnessVersion = rx_harnessVersion x\<rparr>)"

end
