(* ===== verification/Approval.thy ===== *)
theory Approval
  imports Executions
begin

text \<open>
  Approval evidence in a journal: \<^verbatim>\<open>controller/approval.go\<close>.  A gated tool call is recorded as
  TOOL_CALL, APPROVAL_REQUEST, APPROVAL_RESULT (the decision) and TOOL_RESULT (the receipt), in this
  order, with nothing of the same execution between an open call and its receipt except ERROR
  records.  \<open>scanApprovalRecords\<close> validates this and returns the state of every gated call;
  \<open>Approve\<close> commits a decision.

  The Go code keeps pointers into the slice of states: \<^verbatim>\<open>last\<close> is the last element, and
  \<^verbatim>\<open>scan.selected\<close> is compared by identity, so it is an index here.
\<close>

definition ErrInvalidApprovalDecision :: goerr where
  "ErrInvalidApprovalDecision = ErrNew ''controller: invalid approval decision''"

record approval_state =
  as_executionID :: string
  as_invocation :: "execution_start option"
  as_call :: tool_call
  as_request :: "log_record option"
  as_decision :: "log_record option"
  as_receipt :: "log_record option"
  as_head :: int64
  as_inherited :: bool
  as_completed :: bool

record approval_scan =
  sc_head :: int64
  sc_states :: "approval_state list"
  sc_selected :: "nat option"

record approval_execution =
  ax_id :: string
  ax_records :: "log_record list"
  ax_gated :: bool

definition approvalContinuationError :: "string \<Rightarrow> goerr" where
  "approvalContinuationError executionID =
     errorf [] ErrInvalidExecutionLog ('': execution '' @ format_q executionID
       @ '' continued past an unresolved approval call'')"

definition receipt_valid :: "bool \<Rightarrow> tool_result \<Rightarrow> bool" where
  "receipt_valid approved result \<longleftrightarrow>
     (if approved
      then \<not> tr_isError result \<and> tr_code result = ToolResultCodeUnspecified
           \<or> tr_isError result \<and> tr_code result = ToolResultCodeExecutorError
      else tr_isError result \<and> tr_code result = ToolResultCodeApprovalDenied)"

definition validateApprovalReceipt :: "approval_result \<Rightarrow> tool_result \<Rightarrow> goerr option" where
  "validateApprovalReceipt decision result =
     (if receipt_valid (ar_approved decision) result then None
      else Some (errorf [] ErrReplayDiverged '': receipt status contradicts approval decision''))"

section \<open>One execution\<close>

text \<open>
  The variables of \<^verbatim>\<open>inspectApprovalExecution\<close>.
\<close>

record inspection =
  in_invocation :: recorded_execution
  in_states :: "approval_state list"
  in_calls :: "string \<rightharpoonup> bool"

definition in_last :: "inspection \<Rightarrow> approval_state option" where
  "in_last s = (if in_states s = [] then None else Some (last (in_states s)))"

definition in_open :: "inspection \<Rightarrow> bool" where
  "in_open s \<longleftrightarrow> (case in_last s of None \<Rightarrow> False | Some st \<Rightarrow> as_receipt st = None)"

definition update_last :: "(approval_state \<Rightarrow> approval_state) \<Rightarrow> inspection \<Rightarrow> inspection" where
  "update_last f s = s\<lparr>in_states := butlast (in_states s) @ [f (last (in_states s))]\<rparr>"

definition invalid_log :: "string \<Rightarrow> goerr" where
  "invalid_log msg = errorf [] ErrInvalidExecutionLog ('': '' @ msg)"

definition diverged_log :: "string \<Rightarrow> goerr" where
  "diverged_log msg = errorf [] ErrReplayDiverged ('': '' @ msg)"

text \<open>\<^verbatim>\<open>calls[id]\<close> of a Go map: false when the key is missing.\<close>

definition call_gated :: "(string \<rightharpoonup> bool) \<Rightarrow> string \<Rightarrow> bool" where
  "call_gated calls k = (calls k = Some True)"

definition inspect_tool_call ::
  "string \<Rightarrow> int64 \<Rightarrow> int64 \<Rightarrow> log_record \<Rightarrow> inspection \<Rightarrow> goerr + inspection" where
  "inspect_tool_call exid head forkSeq record s =
     (if in_open s then Inl (approvalContinuationError exid)
      else case ev_toolCall (r_event record) of
        None \<Rightarrow> Inl (invalid_log ''missing tool call payload in approval execution'')
      | Some call \<Rightarrow>
          let gated = (tc_mediation call = MediationRequiresApproval) in
          if (case in_calls s (tc_id call) of None \<Rightarrow> False | Some priorGated \<Rightarrow> priorGated \<or> gated)
          then Inl (invalid_log ''duplicate approval call identity'')
          else
            let s = s\<lparr>in_calls := (in_calls s)(tc_id call \<mapsto> gated)\<rparr> in
            if \<not> gated then Inr s
            else if rx_completed (in_invocation s) then Inl (approvalContinuationError exid)
            else if tc_id call = [] then Inl (invalid_log ''approval call has no ID'')
            else if tc_idempotencyKey call = [] then
              Inl (errorf2 ErrInvalidExecutionLog '': approval call: '' ErrMissingIdempotencyKey)
            else Inr (s\<lparr>in_states := in_states s @ [\<lparr>as_executionID = exid, as_invocation = None,
                     as_call = call, as_request = None, as_decision = None, as_receipt = None,
                     as_head = head, as_inherited = (r_seq record < forkSeq),
                     as_completed = False\<rparr>]\<rparr>))"

definition inspect_request :: "log_record \<Rightarrow> inspection \<Rightarrow> goerr + inspection" where
  "inspect_request record s =
     (case (ev_approval (r_event record), in_last s) of
        (Some a, Some st) \<Rightarrow>
          if \<not> in_open s \<or> as_request st \<noteq> None
          then Inl (invalid_log ''missing or duplicate approval request intent'')
          else if aq_toolCallID a \<noteq> tc_id (as_call st)
          then Inl (diverged_log ''approval request call mismatch'')
          else Inr (update_last (\<lambda>st. st\<lparr>as_request := Some record\<rparr>) s)
      | _ \<Rightarrow> Inl (invalid_log ''missing or duplicate approval request intent''))"

definition inspect_decision :: "log_record \<Rightarrow> inspection \<Rightarrow> goerr + inspection" where
  "inspect_decision record s =
     (case (ev_approvalResult (r_event record), in_last s) of
        (Some d, Some st) \<Rightarrow>
          (case as_request st of
             None \<Rightarrow> Inl (invalid_log ''missing or duplicate approval decision request'')
           | Some rq \<Rightarrow>
               if \<not> in_open s \<or> as_decision st \<noteq> None
               then Inl (invalid_log ''missing or duplicate approval decision request'')
               else if ar_toolCallID d \<noteq> tc_id (as_call st) \<or> ar_requestSeq d \<noteq> r_seq rq
               then Inl (diverged_log ''approval decision tuple mismatch'')
               else Inr (update_last (\<lambda>st. st\<lparr>as_decision := Some record\<rparr>) s))
      | _ \<Rightarrow> Inl (invalid_log ''missing or duplicate approval decision request''))"

text \<open>
  The receipt.  \<^verbatim>\<open>last.Decision.Event.ApprovalResult\<close> is the body of a record this scan accepted
  as a decision, so it is present; \<open>decision_of\<close> reads it.
\<close>

definition decision_of :: "log_record \<Rightarrow> approval_result" where
  "decision_of r = (case ev_approvalResult (r_event r) of
     Some d \<Rightarrow> d
   | None \<Rightarrow> \<lparr>ar_toolCallID = [], ar_approved = False, ar_reason = [], ar_requestSeq = 0\<rparr>)"

definition inspect_result :: "log_record \<Rightarrow> inspection \<Rightarrow> goerr + inspection" where
  "inspect_result record s =
     (if in_open s then
        (case (ev_result (r_event record), in_last s) of
           (Some result, Some st) \<Rightarrow>
             (case (as_request st, as_decision st) of
                (Some rq, Some dc) \<Rightarrow>
                  if tr_id result \<noteq> tc_id (as_call st) \<or> tr_approvalRequestSeq result \<noteq> r_seq rq
                     \<or> tr_approvalDecisionSeq result \<noteq> r_seq dc
                  then Inl (diverged_log ''approval receipt tuple mismatch'')
                  else (case validateApprovalReceipt (decision_of dc) result of
                          Some e \<Rightarrow> Inl e
                        | None \<Rightarrow> Inr (update_last (\<lambda>st. st\<lparr>as_receipt := Some record\<rparr>) s))
              | _ \<Rightarrow> Inl (invalid_log ''approval receipt lacks request or decision''))
         | _ \<Rightarrow> Inl (invalid_log ''approval receipt lacks request or decision''))
      else case ev_result (r_event record) of
             None \<Rightarrow> Inr s
           | Some result \<Rightarrow>
               if call_gated (in_calls s) (tr_id result) \<or> tr_approvalRequestSeq result \<noteq> 0
                  \<or> tr_approvalDecisionSeq result \<noteq> 0
               then Inl (invalid_log ''duplicate or unbound approval receipt'')
               else Inr s)"

definition inspect_start :: "nat \<Rightarrow> log_record \<Rightarrow> inspection \<Rightarrow> goerr + inspection" where
  "inspect_start i record s =
     (case ev_executionStart (r_event record) of
        None \<Rightarrow> Inl (invalid_log ''invalid approval execution start'')
      | Some st \<Rightarrow>
          if i \<noteq> 0 then Inl (invalid_log ''invalid approval execution start'')
          else Inr (s\<lparr>in_invocation := (in_invocation s)\<lparr>rx_hasStart := True,
                 rx_config := es_config st, rx_resumeFromSeq := es_resumeFromSeq st,
                 rx_inputCount := es_inputCount st, rx_harness := es_harness st,
                 rx_harnessVersion := es_harnessVersion st\<rparr>\<rparr>))"

definition inspect_record ::
  "string \<Rightarrow> int64 \<Rightarrow> int64 \<Rightarrow> nat \<Rightarrow> log_record \<Rightarrow> inspection \<Rightarrow> goerr + inspection" where
  "inspect_record exid head forkSeq i record s =
     (case ev_kind (r_event record) of
        EventExecutionStart \<Rightarrow> inspect_start i record s
      | EventInput \<Rightarrow>
          if in_open s then Inl (approvalContinuationError exid)
          else Inr (s\<lparr>in_invocation := (in_invocation s)\<lparr>
                 rx_inputRecords := Suc (rx_inputRecords (in_invocation s)),
                 rx_inputs := (case ev_message (r_event record) of
                     None \<Rightarrow> rx_inputs (in_invocation s)
                   | Some m \<Rightarrow> rx_inputs (in_invocation s) @ [m])\<rparr>\<rparr>)
      | EventToolCall \<Rightarrow> inspect_tool_call exid head forkSeq record s
      | EventApprovalRequest \<Rightarrow> inspect_request record s
      | EventApprovalResult \<Rightarrow> inspect_decision record s
      | EventToolResult \<Rightarrow> inspect_result record s
      | EventEnd \<Rightarrow>
          if in_open s then Inl (approvalContinuationError exid)
          else Inr (s\<lparr>in_invocation := (in_invocation s)\<lparr>rx_completed := True\<rparr>\<rparr>)
      | EventError \<Rightarrow> Inr s
      | _ \<Rightarrow> if in_open s then Inl (approvalContinuationError exid) else Inr s)"

fun inspect_records ::
  "string \<Rightarrow> int64 \<Rightarrow> int64 \<Rightarrow> nat \<Rightarrow> log_record list \<Rightarrow> inspection \<Rightarrow> goerr + inspection" where
  "inspect_records exid head forkSeq i [] s = Inr s"
| "inspect_records exid head forkSeq i (r # rs) s =
     (case inspect_record exid head forkSeq i r s of
        Inl e \<Rightarrow> Inl e
      | Inr s' \<Rightarrow> inspect_records exid head forkSeq (Suc i) rs s')"

definition inspect_init :: "string \<Rightarrow> inspection" where
  "inspect_init exid = \<lparr>in_invocation = empty_execution\<lparr>rx_id := exid\<rparr>, in_states = [],
     in_calls = Map.empty\<rparr>"

definition finish_states :: "inspection \<Rightarrow> approval_state list" where
  "finish_states s =
     map (\<lambda>st. st\<lparr>as_invocation := invocation (in_invocation s),
                  as_completed := rx_completed (in_invocation s)\<rparr>) (in_states s)"

definition inspectApprovalExecution ::
  "approval_execution \<Rightarrow> int64 \<Rightarrow> int64 \<Rightarrow> goerr + approval_state list" where
  "inspectApprovalExecution x head forkSeq =
     (if ax_id x = [] then Inl (invalid_log ''approval evidence has no execution_id'')
      else case inspect_records (ax_id x) head forkSeq 0 (ax_records x) (inspect_init (ax_id x)) of
             Inl e \<Rightarrow> Inl e
           | Inr s \<Rightarrow>
               (case validateInputs (in_invocation s) of
                  Some e \<Rightarrow> Inl e
                | None \<Rightarrow> Inr (finish_states s)))"

section \<open>The whole journal\<close>

definition approval_evidence_event :: "event \<Rightarrow> bool" where
  "approval_evidence_event e \<longleftrightarrow>
     ev_kind e = EventApprovalRequest \<or> ev_kind e = EventApprovalResult \<or> gated_call e
     \<or> ev_kind e = EventToolResult \<and>
        (case ev_result e of None \<Rightarrow> False
         | Some r \<Rightarrow> tr_approvalRequestSeq r \<noteq> 0 \<or> tr_approvalDecisionSeq r \<noteq> 0)"

record scan_state =
  ss_head :: int64
  ss_forkSeq :: int64
  ss_executions :: "approval_execution list"
  ss_byID :: "string \<rightharpoonup> nat"

definition scan_record :: "log_record \<Rightarrow> scan_state \<Rightarrow> scan_state" where
  "scan_record record s =
     (let s = s\<lparr>ss_head := r_seq record\<rparr>; event = r_event record in
      if ev_kind event = EventLifecycle then
        (case ev_lifecycle event of
           None \<Rightarrow> s
         | Some l \<Rightarrow> if lc_kind l = LifecycleFork then s\<lparr>ss_forkSeq := r_seq record\<rparr> else s)
      else
        let (xs, byID, k) =
              (case ss_byID s (ev_executionID event) of
                 Some k \<Rightarrow> (ss_executions s, ss_byID s, k)
               | None \<Rightarrow> (ss_executions s @ [\<lparr>ax_id = ev_executionID event, ax_records = [], ax_gated = False\<rparr>],
                          (ss_byID s)(ev_executionID event \<mapsto> length (ss_executions s)),
                          length (ss_executions s)));
            x = xs ! k
        in s\<lparr>ss_executions := xs[k := x\<lparr>ax_records := ax_records x @ [record],
                   ax_gated := (ax_gated x \<or> approval_evidence_event event)\<rparr>],
             ss_byID := byID\<rparr>)"

definition scan_init :: scan_state where
  "scan_init = \<lparr>ss_head = 0, ss_forkSeq = 0, ss_executions = [], ss_byID = Map.empty\<rparr>"

text \<open>The second loop; \<open>states\<close> accumulates \<^verbatim>\<open>scan.states\<close>.\<close>

fun scan_executions ::
  "int64 \<Rightarrow> int64 \<Rightarrow> approval_execution list \<Rightarrow> approval_state list \<Rightarrow> nat option \<Rightarrow>
     goerr + approval_state list \<times> nat option" where
  "scan_executions head forkSeq [] states selected = Inr (states, selected)"
| "scan_executions head forkSeq (x # xs) states selected =
     (if \<not> ax_gated x then scan_executions head forkSeq xs states selected
      else case inspectApprovalExecution x head forkSeq of
             Inl e \<Rightarrow> Inl e
           | Inr sts \<Rightarrow>
               scan_executions head forkSeq xs (states @ sts)
                 (if xs = [] \<and> sts \<noteq> [] then Some (length (states @ sts) - 1) else selected))"

definition scanApprovalRecords :: "log_record list \<Rightarrow> int64 \<Rightarrow> goerr + approval_scan" where
  "scanApprovalRecords records throughSeq =
     (let s = fold scan_record
            (takeWhile (\<lambda>r. \<not> (throughSeq > 0 \<and> r_seq r > throughSeq)) records) scan_init
      in case scan_executions (ss_head s) (ss_forkSeq s) (ss_executions s) [] None of
           Inl e \<Rightarrow> Inl e
         | Inr (states, selected) \<Rightarrow>
             Inr \<lparr>sc_head = ss_head s, sc_states = states, sc_selected = selected\<rparr>)"

definition scanApprovals :: "'s store_ops \<Rightarrow> int64 \<Rightarrow> 's \<Rightarrow> goerr + approval_scan" where
  "scanApprovals ops throughSeq log =
     (if throughSeq < 0 then Inl (invalid_log ''negative approval cursor'')
      else case Store_Read ops 1 log of
             Inl e \<Rightarrow> Inl e
           | Inr records \<Rightarrow> scanApprovalRecords records throughSeq)"

definition selected_state :: "approval_scan \<Rightarrow> approval_state option" where
  "selected_state scan = map_option (\<lambda>k. sc_states scan ! k) (sc_selected scan)"

definition InspectApproval :: "'s store_ops \<Rightarrow> int64 \<Rightarrow> 's \<Rightarrow> goerr + approval_state option" where
  "InspectApproval ops throughSeq log =
     (case scanApprovals ops throughSeq log of
        Inl e \<Rightarrow> Inl e
      | Inr scan \<Rightarrow> Inr (selected_state scan))"

section \<open>Deciding\<close>

definition matches_decision :: "approval_decision \<Rightarrow> approval_state \<Rightarrow> bool" where
  "matches_decision d st \<longleftrightarrow> as_executionID st = ad_executionID d \<and> tc_id (as_call st) = ad_toolCallID d
     \<and> (case as_request st of None \<Rightarrow> False | Some r \<Rightarrow> r_seq r = ad_requestSeq d)"

fun find_index :: "('a \<Rightarrow> bool) \<Rightarrow> 'a list \<Rightarrow> nat option" where
  "find_index P [] = None"
| "find_index P (x # xs) = (if P x then Some 0 else map_option Suc (find_index P xs))"

definition decision_event :: "int64 \<Rightarrow> approval_decision \<Rightarrow> event" where
  "decision_event now d = zero_event\<lparr>ev_executionID := ad_executionID d, ev_timestamp := Some now,
     ev_kind := EventApprovalResult, ev_actor := ad_identity d,
     ev_approvalResult := Some \<lparr>ar_toolCallID = ad_toolCallID d, ar_approved = ad_approved d,
        ar_reason = ad_reason d, ar_requestSeq = ad_requestSeq d\<rparr>\<rparr>"

definition invalid_decision :: "string \<Rightarrow> goerr" where
  "invalid_decision msg = errorf [] ErrInvalidApprovalDecision ('': '' @ msg)"

text \<open>\<open>now\<close> is \<^verbatim>\<open>time.Now().UTC()\<close>.\<close>

definition Approve ::
  "'s store_ops \<Rightarrow> int64 \<Rightarrow> approval_decision \<Rightarrow> 's \<Rightarrow> (goerr + log_record) \<times> 's" where
  "Approve ops now d log =
     (case CheckWritable ops log of
        Some e \<Rightarrow> (Inl e, log)
      | None \<Rightarrow>
     if ad_executionID d = [] \<or> ad_toolCallID d = [] \<or> ad_requestSeq d \<le> 0 then
       (Inl (invalid_decision ''execution, call and positive request sequence are required''), log)
     else case scanApprovals ops 0 log of
        Inl e \<Rightarrow> (Inl e, log)
      | Inr scan \<Rightarrow>
     (case find_index (matches_decision d) (sc_states scan) of
        None \<Rightarrow> (Inl (invalid_decision ''request is not owned by this session''), log)
      | Some k \<Rightarrow>
          let target = sc_states scan ! k in
          if as_inherited target then
            (Inl (invalid_decision ''request is not owned by this session''), log)
          else case as_decision target of
            Some old \<Rightarrow>
              if ar_approved (decision_of old) \<noteq> ad_approved d
                 \<or> ar_reason (decision_of old) \<noteq> ad_reason d
                 \<or> ev_actor (r_event old) \<noteq> ad_identity d
              then (Inl (invalid_decision ''request already has a different decision''), log)
              else (Inr old, log)
          | None \<Rightarrow>
              if sc_selected scan \<noteq> Some k \<or> as_completed target \<or> as_receipt target \<noteq> None then
                (Inl (invalid_decision ''request is superseded or completed''), log)
              else case Store_NewFence ops log of
                (Inl e, log') \<Rightarrow> (Inl e, log')
              | (Inr fence, log') \<Rightarrow>
                  Store_Append ops (sc_head scan) fence (decision_event now d) log'))"

end
