(* ===== verification/Sinks.thy ===== *)
theory Sinks
  imports Approval
begin

text \<open>
  The three event sinks the controller hands to a harness: \<open>live\<close> (invoke and record),
  \<open>replay\<close> (serve from the journal) and \<open>resume\<close> (serve the recorded prefix, then live).
  Sources: \<^verbatim>\<open>controller/effects.go\<close>, \<^verbatim>\<open>resume.go\<close> (the sink), \<^verbatim>\<open>approval_effects.go\<close>,
  \<^verbatim>\<open>sink_guard.go\<close>, \<^verbatim>\<open>tool_identity.go\<close>, \<^verbatim>\<open>harness_identity.go\<close>, \<^verbatim>\<open>legacy.go\<close> (append), and the
  methods of \<^verbatim>\<open>controller.go\<close> they call.

  A sink method runs under the invocation's \<^verbatim>\<open>ctxlock.Mutex\<close>, so the calls of one invocation form
  a sequence, and a method is one transition of the sink's state.  What the environment decides --
  the model's answer, the tool's answer, a fresh ID, whether the context is cancelled, what
  \<^verbatim>\<open>Describe\<close> says -- is a function of a tick that advances with every such question, so it may
  change from one question to the next in any way.
\<close>

section \<open>The controller\<close>

record 's controller =
  c_ops :: "'s store_ops"
  c_model :: "nat \<Rightarrow> model_request \<Rightarrow> goerr + model_response"
  c_stream :: "(nat \<Rightarrow> model_request \<Rightarrow> string list \<times> (goerr + model_response)) option"
    \<comment> \<open>the chunks passed to \<^verbatim>\<open>onChunk\<close>, then the result\<close>
  c_onRecord :: bool
  c_onDelta :: bool
  c_startConfig :: bytes
  c_startResumeFromSeq :: int64
  c_tool :: "(nat \<Rightarrow> string \<Rightarrow> tool_call \<Rightarrow> tool_result \<times> goerr option) option"
  c_fence :: int64
  c_sessionUID :: string
  c_harnessName :: string
  c_hashModelInput :: "model_request \<Rightarrow> string"
    \<comment> \<open>\<^verbatim>\<open>hex(sha256(json.Marshal(req)))\<close>\<close>
  c_newID :: "nat \<Rightarrow> string"
  c_ctxErr :: "nat \<Rightarrow> goerr option"
  c_canon :: canon_env
  c_legacyPayload :: "string \<Rightarrow> string \<Rightarrow> bytes \<Rightarrow> goerr + bytes"
    \<comment> \<open>\<^verbatim>\<open>json.Marshal\<close> of the session UID, sequence and canonical event of \<^verbatim>\<open>legacyExecutionID\<close>\<close>

datatype observation = OnRecord log_record | OnDelta delta

datatype external_call = ExtModel model_request | ExtTool string tool_call

text \<open>
  The mutable part: the log, the two counters, the tick, what the observer was told, and the calls
  the provider and the tool executor received.
\<close>

record 's world =
  w_log :: 's
  w_liveModelCalls :: nat
  w_liveToolCalls :: nat
  w_tick :: nat
  w_observed :: "observation list"
  w_external :: "external_call list"

definition tick :: "'s world \<Rightarrow> 's world" where
  "tick w = w\<lparr>w_tick := Suc (w_tick w)\<rparr>"

definition observe :: "'s controller \<Rightarrow> log_record \<Rightarrow> 's world \<Rightarrow> 's world" where
  "observe c r w = (if c_onRecord c then w\<lparr>w_observed := w_observed w @ [OnRecord r]\<rparr> else w)"

definition emitDelta :: "'s controller \<Rightarrow> string \<Rightarrow> int32 \<Rightarrow> string \<Rightarrow> bool \<Rightarrow> 's world \<Rightarrow> 's world" where
  "emitDelta c executionID partIndex chunk done w =
     (if \<not> c_onDelta c \<or> chunk = [] \<and> \<not> done then w
      else w\<lparr>w_observed := w_observed w @ [OnDelta \<lparr>dl_executionID = executionID,
              dl_partIndex = partIndex, dl_chunk = chunk, dl_done = done\<rparr>]\<rparr>)"

definition commit :: "'s controller \<Rightarrow> int64 \<Rightarrow> event \<Rightarrow> 's world \<Rightarrow> (goerr + log_record) \<times> 's world" where
  "commit c expected ev w =
     (case Store_Append (c_ops c) expected (c_fence c) ev (w_log w) of
        (Inl e, l) \<Rightarrow> (Inl e, w\<lparr>w_log := l\<rparr>)
      | (Inr r, l) \<Rightarrow> (Inr r, observe c r (w\<lparr>w_log := l\<rparr>)))"

definition appendSeq :: "'s controller \<Rightarrow> string \<Rightarrow> event \<Rightarrow> 's world \<Rightarrow> (goerr + log_record) \<times> 's world" where
  "appendSeq c executionID ev w =
     (if executionID = [] then (Inl (invalid_log ''event has no execution_id''), w)
      else case Store_Head (c_ops c) (w_log w) of
             Inl e \<Rightarrow> (Inl e, w)
           | Inr head \<Rightarrow> commit c head (ev\<lparr>ev_executionID := executionID\<rparr>) w)"

definition newID :: "'s controller \<Rightarrow> 's world \<Rightarrow> string \<times> 's world" where
  "newID c w = (c_newID c (w_tick w), tick w)"

definition invokeModel ::
  "'s controller \<Rightarrow> string \<Rightarrow> model_request \<Rightarrow> 's world \<Rightarrow> (goerr + model_response) \<times> 's world" where
  "invokeModel c executionID req w =
     (let w' = tick (w\<lparr>w_external := w_external w @ [ExtModel req]\<rparr>) in
      case c_stream c of
        None \<Rightarrow> (c_model c (w_tick w) req, w')
      | Some stream \<Rightarrow>
          (case stream (w_tick w) req of
             (chunks, res) \<Rightarrow>
               let w'' = fold (\<lambda>chunk. emitDelta c executionID 0 chunk False) chunks w' in
               (case res of
                  Inl e \<Rightarrow> (Inl e, w'')
                | Inr resp \<Rightarrow> (Inr resp, emitDelta c executionID 0 [] True w''))))"

definition describeHarness :: "harness \<Rightarrow> 's world \<Rightarrow> (goerr + descriptor) \<times> 's world" where
  "describeHarness har w =
     (case har_describe har (w_tick w) of
        Inl e \<Rightarrow> (Inl (errorf2 ErrHarnessDescribeFailed '': '' e), tick w)
      | Inr d \<Rightarrow> (Inr d, tick w))"

definition resolvedHarnessName :: "'s controller \<Rightarrow> descriptor \<Rightarrow> string" where
  "resolvedHarnessName c desc = (if c_harnessName c \<noteq> [] then c_harnessName c else desc_id desc)"

section \<open>Approval and identity helpers\<close>

definition ErrApprovalBlocked :: goerr where
  "ErrApprovalBlocked = ErrNew ''controller: unresolved approval blocks a new execution''"

definition ErrApprovalUnavailable :: goerr where
  "ErrApprovalUnavailable = ErrNew ''controller: approval requires STATELESS_REPLAY''"

definition ErrInvalidApprovalCall :: goerr where
  "ErrInvalidApprovalCall = ErrNew ''controller: invalid approval call identity''"

definition ErrApprovalReceiptReport :: goerr where
  "ErrApprovalReceiptReport = ErrNew ''controller: approval receipts are host owned''"

definition ErrMissingToolExecutor :: goerr where
  "ErrMissingToolExecutor = ErrNew ''controller: no tool executor configured''"

definition ErrSinkClosed :: goerr where
  "ErrSinkClosed = ErrNew ''controller: invocation sink is closed''"

definition approvalReportError :: "tool_result \<Rightarrow> goerr option" where
  "approvalReportError r =
     (if tr_approval r \<noteq> None \<or> tr_approvalRequestSeq r \<noteq> 0 \<or> tr_approvalDecisionSeq r \<noteq> 0
         \<or> tr_code r \<noteq> ToolResultCodeUnspecified \<and> tr_code r \<noteq> ToolResultCodeExecutorError
      then Some ErrApprovalReceiptReport else None)"

fun toolMediationError :: "mediation \<Rightarrow> goerr option" where
  "toolMediationError MediationControllerMediated = None"
| "toolMediationError MediationRequiresApproval = Some ErrApprovalUnavailable"
| "toolMediationError m = Some (errorf [] ErrUnmediatedToolCall ('' (got '' @ format_q (mediation_text m) @ '')''))"

definition wire_args :: "struct_codec \<Rightarrow> tool_call \<Rightarrow> content option" where
  "wire_args c t = tc_args (toolCallFromProto c (toolCallToProto c t))"

definition matchToolCall :: "struct_codec \<Rightarrow> tool_call \<Rightarrow> tool_call option \<Rightarrow> goerr option" where
  "matchToolCall c emitted recorded =
     (case recorded of
        None \<Rightarrow> Some (diverged_log ''recorded tool call missing its payload'')
      | Some rec \<Rightarrow>
          if tc_mediation rec = MediationRequiresApproval \<and> tc_id rec = [] then
            Some (diverged_log ''recorded approval call has no ID'')
          else if tc_mediation rec \<noteq> MediationControllerMediated
                  \<and> tc_mediation rec \<noteq> MediationRequiresApproval then
            Some (errorf2 ErrReplayDiverged '': invalid recorded tool mediation: '' ErrUnmediatedToolCall)
          else if tc_idempotencyKey rec = [] then
            Some (errorf2 ErrReplayDiverged '': invalid recorded tool key: '' ErrMissingIdempotencyKey)
          else if tc_id emitted \<noteq> tc_id rec then Some (diverged_log ''tool call ID mismatch'')
          else if tc_tool emitted \<noteq> tc_tool rec then Some (diverged_log ''tool name mismatch'')
          else if tc_mediation emitted \<noteq> tc_mediation rec then
            Some (diverged_log ''tool mediation mismatch'')
          else if tc_idempotencyKey emitted \<noteq> tc_idempotencyKey rec then
            Some (diverged_log ''tool idempotency key mismatch'')
          else
            let want = wire_args c rec; got = wire_args c emitted in
            if tc_args rec \<noteq> None \<and> want = None \<or> tc_args emitted \<noteq> None \<and> got = None then
              Some (diverged_log ''tool arguments could not be represented in the journal'')
            else if got \<noteq> want then Some (diverged_log ''tool arguments mismatch'')
            else None)"

definition recordedToolResult :: "tool_call \<Rightarrow> tool_result option \<Rightarrow> goerr + tool_result" where
  "recordedToolResult call result =
     (case result of
        None \<Rightarrow> Inl (diverged_log ''recorded tool result missing its payload'')
      | Some r \<Rightarrow>
          if tr_id r \<noteq> tc_id call then Inl (diverged_log ''recorded tool result correlation mismatch'')
          else Inr r)"

definition approvalEvidence :: "approval_scan \<Rightarrow> string \<Rightarrow> (string \<rightharpoonup> approval_state)" where
  "approvalEvidence scan executionID =
     fold (\<lambda>st m. if as_executionID st = executionID then m(tc_id (as_call st) \<mapsto> st) else m)
       (sc_states scan) Map.empty"

definition consumeApprovalPrefix ::
  "event list \<Rightarrow> nat \<Rightarrow> approval_state option \<Rightarrow> goerr option \<times> nat" where
  "consumeApprovalPrefix stream i state =
     (if (case state of None \<Rightarrow> True | Some st \<Rightarrow> as_request st = None \<or> as_decision st = None)
      then (Some (diverged_log ''missing approval decision evidence''), i)
      else if length stream \<le> i \<or> ev_kind (stream ! i) \<noteq> EventApprovalRequest
      then (Some (diverged_log ''missing recorded APPROVAL_REQUEST''), i)
      else if length stream \<le> Suc i \<or> ev_kind (stream ! Suc i) \<noteq> EventApprovalResult
      then (Some (diverged_log ''missing recorded APPROVAL_RESULT''), Suc i)
      else (None, Suc (Suc i)))"

definition serveApproval :: "approval_state option \<Rightarrow> tool_result option \<Rightarrow> goerr + tool_result" where
  "serveApproval state receipt =
     (case state of
        None \<Rightarrow> Inl (diverged_log ''incomplete approval receipt evidence'')
      | Some st \<Rightarrow>
          (case (as_request st, as_decision st, as_receipt st) of
             (Some rq, Some dc, Some _) \<Rightarrow>
               (case recordedToolResult (as_call st) receipt of
                  Inl e \<Rightarrow> Inl e
                | Inr result \<Rightarrow>
                    if tr_approvalRequestSeq result \<noteq> r_seq rq \<or> tr_approvalDecisionSeq result \<noteq> r_seq dc
                    then Inl (diverged_log ''approval receipt sequence mismatch'')
                    else (case validateApprovalReceipt (decision_of dc) result of
                            Some e \<Rightarrow> Inl e
                          | None \<Rightarrow> Inr (set_tr_binding (tr_approvalRequestSeq result)
                              (tr_approvalDecisionSeq result) (Some (decision_of dc)) result)))
           | _ \<Rightarrow> Inl (diverged_log ''incomplete approval receipt evidence'')))"

section \<open>The live sink\<close>

record 's live_env =
  le_c :: "'s controller"
  le_executionID :: string
  le_legacyRecovery :: bool
  le_har :: harness

record 's live =
  lv_w :: "'s world"
  lv_stop :: "goerr option"
  lv_closed :: bool
  lv_desc :: "descriptor option"
  lv_calls :: "string \<rightharpoonup> bool"

definition guard_err :: "goerr option \<Rightarrow> bool \<Rightarrow> goerr option" where
  "guard_err stop closed = (if stop \<noteq> None then stop else if closed then Some ErrSinkClosed else None)"

definition set_w :: "'s world \<Rightarrow> 's live \<Rightarrow> 's live" where
  "set_w w s = s\<lparr>lv_w := w\<rparr>"

text \<open>
  What every public method does first: the guard's sticky error, then the context's.
\<close>

definition live_enter ::
  "'s live_env \<Rightarrow> (goerr \<Rightarrow> 'r) \<Rightarrow> ('s live \<Rightarrow> 'r \<times> 's live) \<Rightarrow> 's live \<Rightarrow> 'r \<times> 's live" where
  "live_enter L fail body s =
     (case guard_err (lv_stop s) (lv_closed s) of
        Some e \<Rightarrow> (fail e, s)
      | None \<Rightarrow>
          let s' = set_w (tick (lv_w s)) s in
          (case c_ctxErr (le_c L) (w_tick (lv_w s)) of
             Some e \<Rightarrow> (fail e, s')
           | None \<Rightarrow> body s'))"

definition live_append :: "'s live_env \<Rightarrow> event \<Rightarrow> 's live \<Rightarrow> (goerr + log_record) \<times> 's live" where
  "live_append L ev s =
     (let c = le_c L; w = lv_w s in
      case (if \<not> le_legacyRecovery L then appendSeq c (le_executionID L) ev w
            else case Store_Head (c_ops c) (w_log w) of
                   Inl e \<Rightarrow> (Inl e, w)
                 | Inr head \<Rightarrow> commit c head (ev\<lparr>ev_executionID := []\<rparr>) w) of
        (r, w') \<Rightarrow> (r, set_w w' s))"

definition model_call_event :: "'s controller \<Rightarrow> model_request \<Rightarrow> string \<Rightarrow> event" where
  "model_call_event c req i = zero_event\<lparr>ev_kind := EventModelCall,
     ev_modelCall := Some \<lparr>mc_model = mr_model req, mc_params = [],
       mc_inputHash = c_hashModelInput c req, mc_id = i\<rparr>\<rparr>"

definition output_event :: "message \<Rightarrow> event" where
  "output_event m = zero_event\<lparr>ev_kind := EventOutput, ev_message := Some m\<rparr>"

definition tool_call_event :: "tool_call \<Rightarrow> event" where
  "tool_call_event t = zero_event\<lparr>ev_kind := EventToolCall, ev_toolCall := Some t\<rparr>"

definition tool_result_event :: "tool_result \<Rightarrow> event" where
  "tool_result_event r = zero_event\<lparr>ev_kind := EventToolResult, ev_result := Some r\<rparr>"

definition usage_event :: "usage \<Rightarrow> event" where
  "usage_event u = zero_event\<lparr>ev_kind := EventUsage, ev_usage := Some u\<rparr>"

definition approval_request_event :: "string \<Rightarrow> event" where
  "approval_request_event callID = zero_event\<lparr>ev_kind := EventApprovalRequest,
     ev_approval := Some \<lparr>aq_toolCallID = callID, aq_reason = []\<rparr>\<rparr>"

definition live_completeModel ::
  "'s live_env \<Rightarrow> model_request \<Rightarrow> 's live \<Rightarrow> (goerr + model_response) \<times> 's live" where
  "live_completeModel L req s =
     (case invokeModel (le_c L) (le_executionID L) req (lv_w s) of
        (Inl e, w) \<Rightarrow> (Inl e, set_w w s)
      | (Inr resp, w) \<Rightarrow>
          (case live_append L (output_event (mresp_message resp))
                  (set_w (w\<lparr>w_liveModelCalls := Suc (w_liveModelCalls w)\<rparr>) s) of
             (Inl e, s') \<Rightarrow> (Inl e, s')
           | (Inr _, s') \<Rightarrow> (Inr resp, s')))"

definition live_model ::
  "'s live_env \<Rightarrow> model_request \<Rightarrow> 's live \<Rightarrow> (goerr + model_response) \<times> 's live" where
  "live_model L req s =
     (case newID (le_c L) (lv_w s) of
        (i, w) \<Rightarrow>
          (case live_append L (model_call_event (le_c L) req i) (set_w w s) of
             (Inl e, s') \<Rightarrow> (Inl e, s')
           | (Inr _, s') \<Rightarrow> live_completeModel L req s'))"

definition live_Model where
  "live_Model L req = live_enter L Inl (live_model L req)"

definition live_output :: "'s live_env \<Rightarrow> string \<Rightarrow> 's live \<Rightarrow> goerr option \<times> 's live" where
  "live_output L delta s =
     (case live_append L (output_event (TextMessage ''assistant'' delta)) s of
        (Inl e, s') \<Rightarrow> (Some e, s')
      | (Inr _, s') \<Rightarrow> (None, s'))"

definition live_Output where
  "live_Output L delta = live_enter L Some (live_output L delta)"

definition live_execTool ::
  "'s live_env \<Rightarrow> tool_call \<Rightarrow> 's live \<Rightarrow> (goerr + tool_result) \<times> 's live" where
  "live_execTool L call s =
     (case c_tool (le_c L) of
        None \<Rightarrow> (Inl (ErrNew ''controller: no tool executor configured''), s)
      | Some tool \<Rightarrow>
          let uid = c_sessionUID (le_c L); w = lv_w s;
              w' = tick (w\<lparr>w_external := w_external w @ [ExtTool uid call]\<rparr>) in
          (case tool (w_tick w) uid call of
             (_, Some e) \<Rightarrow> (Inl e, set_w w' s)
           | (res, None) \<Rightarrow>
               let s' = set_w (w'\<lparr>w_liveToolCalls := Suc (w_liveToolCalls w')\<rparr>) s in
               (case approvalReportError res of
                  Some e \<Rightarrow> (Inl e, s')
                | None \<Rightarrow>
                    let result = set_tr_id (tc_id call) res in
                    (case live_append L (tool_result_event result) s' of
                       (Inl e, s'') \<Rightarrow> (Inl e, s'')
                     | (Inr _, s'') \<Rightarrow> (Inr result, s'')))))"

definition live_approvalDescriptor :: "'s live_env \<Rightarrow> 's live \<Rightarrow> goerr option \<times> 's live" where
  "live_approvalDescriptor L s =
     (let (r, s') = (case lv_desc s of
            Some d \<Rightarrow> (Inr d, s)
          | None \<Rightarrow> (case describeHarness (le_har L) (lv_w s) of
                (Inl e, w) \<Rightarrow> (Inl e, set_w w s)
              | (Inr d, w) \<Rightarrow> (Inr d, (set_w w s)\<lparr>lv_desc := Some d\<rparr>)))
      in case r of
           Inl e \<Rightarrow> (Some e, s')
         | Inr d \<Rightarrow>
             (if cap_resumability (desc_capabilities d) \<noteq> ResumabilityStatelessReplay
              then Some ErrApprovalUnavailable else None, s'))"

definition live_parkTool ::
  "'s live_env \<Rightarrow> tool_call \<Rightarrow> 's live \<Rightarrow> (goerr + tool_result) \<times> 's live" where
  "live_parkTool L call s =
     (case live_approvalDescriptor L s of
        (Some e, s') \<Rightarrow> (Inl e, s')
      | (None, s') \<Rightarrow>
          if c_sessionUID (le_c L) = [] then (Inl ErrMissingSessionUID, s')
          else if le_legacyRecovery L \<or> tc_id call = [] then (Inl ErrInvalidApprovalCall, s')
          else if tc_idempotencyKey call = [] then (Inl ErrMissingIdempotencyKey, s')
          else if lv_calls s' (tc_id call) \<noteq> None then (Inl ErrInvalidApprovalCall, s')
          else case live_append L (tool_call_event call) s' of
             (Inl e, s'') \<Rightarrow> (Inl e, s'')
           | (Inr _, s'') \<Rightarrow>
               let s3 = s''\<lparr>lv_calls := (lv_calls s'')(tc_id call \<mapsto> True)\<rparr> in
               (case live_append L (approval_request_event (tc_id call)) s3 of
                  (Inl e, s4) \<Rightarrow> (Inl e, s4\<lparr>lv_stop := Some e\<rparr>)
                | (Inr req, s4) \<Rightarrow>
                    let park = ApprovalParkedError \<lparr>ref_executionID = le_executionID L,
                          ref_toolCallID = tc_id call, ref_requestSeq = r_seq req\<rparr>
                    in (Inl park, s4\<lparr>lv_stop := Some park\<rparr>)))"

definition live_toolCall ::
  "'s live_env \<Rightarrow> tool_call \<Rightarrow> 's live \<Rightarrow> (goerr + tool_result) \<times> 's live" where
  "live_toolCall L call s =
     (if tc_mediation call = MediationRequiresApproval then live_parkTool L call s
      else if call_gated (lv_calls s) (tc_id call) then (Inl ErrInvalidApprovalCall, s)
      else case toolMediationError (tc_mediation call) of
        Some e \<Rightarrow> (Inl e, s)
      | None \<Rightarrow>
          if tc_idempotencyKey call = [] then (Inl ErrMissingIdempotencyKey, s)
          else case live_append L (tool_call_event call) s of
             (Inl e, s') \<Rightarrow> (Inl e, s')
           | (Inr _, s') \<Rightarrow>
               live_execTool L call (s'\<lparr>lv_calls := (lv_calls s')(tc_id call \<mapsto> False)\<rparr>))"

definition live_ToolCall where
  "live_ToolCall L tc = live_enter L Inl (live_toolCall L tc)"

definition live_report :: "'s live_env \<Rightarrow> tool_result \<Rightarrow> 's live \<Rightarrow> goerr option \<times> 's live" where
  "live_report L tr s =
     (if call_gated (lv_calls s) (tr_id tr) then
        (Some ErrApprovalReceiptReport, s\<lparr>lv_stop := Some ErrApprovalReceiptReport\<rparr>)
      else case approvalReportError tr of
        Some e \<Rightarrow> (Some e, s)
      | None \<Rightarrow>
          (case live_append L (tool_result_event tr) s of
             (Inl e, s') \<Rightarrow> (Some e, s')
           | (Inr _, s') \<Rightarrow> (None, s')))"

definition live_Report where
  "live_Report L tr = live_enter L Some (live_report L tr)"

definition live_usage :: "'s live_env \<Rightarrow> usage \<Rightarrow> 's live \<Rightarrow> goerr option \<times> 's live" where
  "live_usage L u s =
     (case live_append L (usage_event u) s of
        (Inl e, s') \<Rightarrow> (Some e, s')
      | (Inr _, s') \<Rightarrow> (None, s'))"

definition live_Usage where
  "live_Usage L u = live_enter L Some (live_usage L u)"

definition liveSink :: "'s live_env \<Rightarrow> 's live event_sink" where
  "liveSink L = \<lparr>sink_Model = live_Model L, sink_Output = live_Output L,
     sink_ToolCall = live_ToolCall L, sink_Report = live_Report L, sink_Usage = live_Usage L\<rparr>"

text \<open>
  \<^verbatim>\<open>completeApproval\<close>: only a scanned, committed decision is executed.  The state it is given has a
  request and a decision (\<open>consumeApprovalPrefix\<close> checked both), which \<open>rq\<close> and \<open>dc\<close> are.
\<close>

definition denial :: string where
  "denial = ''Tool execution denied by approval decision.''"

definition denial_result :: tool_result where
  "denial_result = ToolResult [] None [] [] True denial (msg_parts (TextMessage ''tool'' denial))
     ToolResultCodeApprovalDenied 0 0 None"

definition bind_receipt :: "approval_state \<Rightarrow> log_record \<Rightarrow> log_record \<Rightarrow> tool_result \<Rightarrow> tool_result" where
  "bind_receipt st rq dc r = set_tr_binding (r_seq rq) (r_seq dc) None (set_tr_id (tc_id (as_call st)) r)"

definition executed_result :: "tool_result \<Rightarrow> goerr option \<Rightarrow> tool_result" where
  "executed_result res err =
     (let r = (case err of None \<Rightarrow> res | Some e \<Rightarrow> set_tr_error (error_text e) res)
      in set_tr_code (if tr_isError r then ToolResultCodeExecutorError else ToolResultCodeUnspecified) r)"

definition live_stop :: "goerr \<Rightarrow> 's live \<Rightarrow> (goerr + tool_result) \<times> 's live" where
  "live_stop e s = (Inl e, s\<lparr>lv_stop := Some e\<rparr>)"

definition live_completeApproval ::
  "'s live_env \<Rightarrow> approval_state \<Rightarrow> log_record \<Rightarrow> log_record \<Rightarrow> 's live \<Rightarrow> (goerr + tool_result) \<times> 's live" where
  "live_completeApproval L st rq dc s =
     (case live_approvalDescriptor L s of
        (Some e, s') \<Rightarrow> live_stop e s'
      | (None, s') \<Rightarrow>
          if c_sessionUID (le_c L) = [] then live_stop ErrMissingSessionUID s'
          else
            let decision = decision_of dc;
                receipt = (\<lambda>result s'.
                  let r = bind_receipt st rq dc result in
                  (case live_append L (tool_result_event r) s' of
                     (Inl e, s'') \<Rightarrow> live_stop e s''
                   | (Inr _, s'') \<Rightarrow>
                       (Inr (set_tr_binding (r_seq rq) (r_seq dc) (Some decision) r), s'')))
            in if \<not> ar_approved decision then receipt denial_result s'
               else case c_tool (le_c L) of
                 None \<Rightarrow> live_stop ErrMissingToolExecutor s'
               | Some tool \<Rightarrow>
                   let uid = c_sessionUID (le_c L); w = lv_w s';
                       w' = tick (w\<lparr>w_external := w_external w @ [ExtTool uid (as_call st)]\<rparr>)
                   in (case tool (w_tick w) uid (as_call st) of
                         (res, err) \<Rightarrow> receipt (executed_result res err)
                           (set_w (w'\<lparr>w_liveToolCalls := Suc (w_liveToolCalls w')\<rparr>) s')))"

section \<open>Serving from the journal\<close>

text \<open>What replay and resume share: the usage beside a completion, and how errors print values.\<close>

definition usageAt :: "event list \<Rightarrow> nat \<Rightarrow> usage" where
  "usageAt stream i =
     (if i < length stream \<and> ev_kind (stream ! i) = EventUsage
      then (case ev_usage (stream ! i) of Some u \<Rightarrow> u | None \<Rightarrow> empty_usage)
      else empty_usage)"

definition format_usage :: "usage \<Rightarrow> string" where
  "format_usage u = ''{Model:'' @ u_model u @ '' InputTokens:'' @ format_int (u_inputTokens u)
     @ '' OutputTokens:'' @ format_int (u_outputTokens u)
     @ '' ReasoningTokens:'' @ format_int (u_reasoningTokens u) @ ''}''"

definition event_text :: "event \<Rightarrow> string" where
  "event_text e = (case ev_message e of None \<Rightarrow> [] | Some m \<Rightarrow> Message_Text m)"

definition diverged_of :: "goerr \<Rightarrow> goerr" where
  "diverged_of e = errorf2 ErrReplayDiverged '': '' e"

text \<open>
  \<^verbatim>\<open>nextOf\<close> and \<^verbatim>\<open>recordedNext\<close>: the event at the cursor if it has the expected kind.
\<close>

definition next_of :: "event_kind \<Rightarrow> event list \<Rightarrow> nat \<Rightarrow> event option" where
  "next_of k stream i =
     (if length stream \<le> i \<or> ev_kind (stream ! i) \<noteq> k then None else Some (stream ! i))"

text \<open>
  The guard on a keyless ordinary call: it is a historical pre-intent rejection unless a gated
  intent with the same ID is next.
\<close>

definition keyless_rejected :: "event list \<Rightarrow> nat \<Rightarrow> tool_call \<Rightarrow> bool" where
  "keyless_rejected stream i tc \<longleftrightarrow>
     tc_mediation tc = MediationControllerMediated \<and> tc_idempotencyKey tc = [] \<and>
     (length stream \<le> i \<or> ev_kind (stream ! i) \<noteq> EventToolCall \<or>
      (case ev_toolCall (stream ! i) of
         None \<Rightarrow> True
       | Some t \<Rightarrow> tc_id t \<noteq> tc_id tc \<or> tc_mediation t \<noteq> MediationRequiresApproval))"

text \<open>
  A rejected pre-intent call must not consume a distinct fallback's recorded intent: the error to
  reproduce when another ungated call is next.
\<close>

definition fallback_error :: "event list \<Rightarrow> nat \<Rightarrow> tool_call \<Rightarrow> goerr option" where
  "fallback_error stream i tc =
     (if i < length stream \<and> ev_kind (stream ! i) = EventToolCall \<and>
         (case ev_toolCall (stream ! i) of
            None \<Rightarrow> False
          | Some t \<Rightarrow> tc_id t \<noteq> tc_id tc \<and> tc_mediation t \<noteq> MediationRequiresApproval)
      then toolMediationError (tc_mediation tc) else None)"

definition receipt_at :: "event list \<Rightarrow> nat \<Rightarrow> bool" where
  "receipt_at stream i \<longleftrightarrow> i < length stream \<and>
     (case ev_result (stream ! i) of None \<Rightarrow> False | Some r \<Rightarrow> approvalReportError r \<noteq> None)"

section \<open>The replay sink\<close>

record replay_env =
  re_stream :: "event list"
  re_legacy :: bool
  re_approvals :: "string \<rightharpoonup> approval_state"
  re_codec :: struct_codec
  re_hash :: "model_request \<Rightarrow> string"
  re_ctxErr :: "nat \<Rightarrow> goerr option"

record replay =
  rp_i :: nat
  rp_outputs :: "string list"
  rp_failure :: "goerr option"
  rp_stop :: "goerr option"
  rp_closed :: bool
  rp_calls :: "string \<rightharpoonup> bool"
  rp_tick :: nat

definition replay_enter ::
  "replay_env \<Rightarrow> (goerr \<Rightarrow> 'r) \<Rightarrow> (replay \<Rightarrow> 'r \<times> replay) \<Rightarrow> replay \<Rightarrow> 'r \<times> replay" where
  "replay_enter R fail body s =
     (case guard_err (rp_stop s) (rp_closed s) of
        Some e \<Rightarrow> (fail e, s)
      | None \<Rightarrow>
          (case rp_failure s of
             Some e \<Rightarrow> (fail e, s)
           | None \<Rightarrow>
               let s' = s\<lparr>rp_tick := Suc (rp_tick s)\<rparr> in
               (case re_ctxErr R (rp_tick s) of
                  Some e \<Rightarrow> (fail e, s')
                | None \<Rightarrow> body s')))"

definition replay_fail :: "goerr \<Rightarrow> replay \<Rightarrow> (goerr + 'a) \<times> replay" where
  "replay_fail e s = (Inl e, s\<lparr>rp_failure := Some e\<rparr>)"

definition replay_fail_err :: "goerr \<Rightarrow> replay \<Rightarrow> goerr option \<times> replay" where
  "replay_fail_err e s = (Some e, s\<lparr>rp_failure := Some e\<rparr>)"

definition replay_model :: "replay_env \<Rightarrow> model_request \<Rightarrow> replay \<Rightarrow> (goerr + model_response) \<times> replay" where
  "replay_model R req s =
     (case next_of EventModelCall (re_stream R) (rp_i s) of
        None \<Rightarrow> replay_fail (diverged_of (ErrNew ''replay: expected a recorded model call, found none'')) s
      | Some mc \<Rightarrow>
          let s1 = s\<lparr>rp_i := Suc (rp_i s)\<rparr> in
          if (case ev_modelCall mc of None \<Rightarrow> True | Some m \<Rightarrow> mc_inputHash m \<noteq> re_hash R req) then
            replay_fail (diverged_of (ErrNew (''replay: model input hash mismatch '' @ em_dash
              @ '' harness violated STATELESS_REPLAY (I0)''))) s1
          else case next_of EventOutput (re_stream R) (rp_i s1) of
            None \<Rightarrow> (Inl (ErrNew ''replay: expected a recorded completion, found none''), s1)
          | Some out \<Rightarrow>
              let s2 = s1\<lparr>rp_i := Suc (rp_i s1),
                     rp_outputs := (case ev_message out of None \<Rightarrow> rp_outputs s1
                                    | Some m \<Rightarrow> rp_outputs s1 @ [Message_Text m])\<rparr>
              in (Inr \<lparr>mresp_message = (case ev_message out of None \<Rightarrow> empty_message | Some m \<Rightarrow> m),
                       mresp_usage = (if re_legacy R then empty_usage
                                      else usageAt (re_stream R) (rp_i s2))\<rparr>, s2))"

definition replay_Model where
  "replay_Model R req = replay_enter R Inl (replay_model R req)"

definition replay_output :: "replay_env \<Rightarrow> string \<Rightarrow> replay \<Rightarrow> goerr option \<times> replay" where
  "replay_output R delta s =
     (case next_of EventOutput (re_stream R) (rp_i s) of
        None \<Rightarrow> replay_fail_err (diverged_of (ErrNew ''replay: unexpected output (no matching recorded event)'')) s
      | Some ev \<Rightarrow>
          let s1 = s\<lparr>rp_i := Suc (rp_i s)\<rparr>; recorded = event_text ev in
          if delta \<noteq> recorded then
            replay_fail_err (diverged_of (ErrNew (''replay: output mismatch '' @ em_dash
              @ '' harness emitted '' @ format_q delta @ '', journal recorded '' @ format_q recorded
              @ '' (I0)''))) s1
          else (None, s1\<lparr>rp_outputs := rp_outputs s1 @ [delta]\<rparr>))"

definition replay_Output where
  "replay_Output R delta = replay_enter R Some (replay_output R delta)"

definition replay_result ::
  "replay_env \<Rightarrow> tool_call \<Rightarrow> approval_state option \<Rightarrow> replay \<Rightarrow> (goerr + tool_result) \<times> replay" where
  "replay_result R call state s =
     (case next_of EventToolResult (re_stream R) (rp_i s) of
        None \<Rightarrow> (Inl (ErrNew ''controller: recorded tool call has no result''), s)
      | Some tr \<Rightarrow>
          let s1 = s\<lparr>rp_i := Suc (rp_i s)\<rparr> in
          (case (if state \<noteq> None then serveApproval state (ev_result tr)
                 else recordedToolResult call (ev_result tr)) of
             Inl e \<Rightarrow> replay_fail e s1
           | Inr result \<Rightarrow> (Inr result, s1)))"

definition replay_toolCall ::
  "replay_env \<Rightarrow> tool_call \<Rightarrow> replay \<Rightarrow> (goerr + tool_result) \<times> replay" where
  "replay_toolCall R tc s =
     (if keyless_rejected (re_stream R) (rp_i s) tc then (Inl ErrMissingIdempotencyKey, s)
      else case fallback_error (re_stream R) (rp_i s) tc of
        Some e \<Rightarrow> (Inl e, s)
      | None \<Rightarrow>
          (case next_of EventToolCall (re_stream R) (rp_i s) of
             None \<Rightarrow>
               (case toolMediationError (tc_mediation tc) of
                  Some e \<Rightarrow> (Inl e, s)
                | None \<Rightarrow> replay_fail (diverged_log ''replay expected a recorded tool call, found none'') s)
           | Some ev \<Rightarrow>
               let s1 = s\<lparr>rp_i := Suc (rp_i s)\<rparr> in
               (case (matchToolCall (re_codec R) tc (ev_toolCall ev), ev_toolCall ev) of
                  (None, Some call) \<Rightarrow>
                    if tc_mediation call = MediationRequiresApproval then
                      let s2 = s1\<lparr>rp_calls := (rp_calls s1)(tc_id call \<mapsto> True)\<rparr>;
                          state = re_approvals R (tc_id call) in
                      (case consumeApprovalPrefix (re_stream R) (rp_i s2) state of
                         (Some e, i) \<Rightarrow> replay_fail e (s2\<lparr>rp_i := i\<rparr>)
                       | (None, i) \<Rightarrow> replay_result R call state (s2\<lparr>rp_i := i\<rparr>))
                    else replay_result R call None s1
                | (Some e, _) \<Rightarrow> replay_fail e s1
                | (None, None) \<Rightarrow> replay_fail (diverged_log ''recorded tool call missing its payload'') s1)))"

definition replay_ToolCall where
  "replay_ToolCall R tc = replay_enter R Inl (replay_toolCall R tc)"

definition replay_report :: "replay_env \<Rightarrow> tool_result \<Rightarrow> replay \<Rightarrow> goerr option \<times> replay" where
  "replay_report R tr s =
     (if call_gated (rp_calls s) (tr_id tr) then replay_fail_err (diverged_of ErrApprovalReceiptReport) s
      else case approvalReportError tr of
        Some e \<Rightarrow> (Some e, s)
      | None \<Rightarrow>
          if receipt_at (re_stream R) (rp_i s) then
            replay_fail_err (diverged_log ''Report cannot consume approval receipt'') s
          else case next_of EventToolResult (re_stream R) (rp_i s) of
            None \<Rightarrow> replay_fail_err (diverged_of
                      (ErrNew ''replay: unexpected report (no matching recorded event)'')) s
          | Some _ \<Rightarrow> (None, s\<lparr>rp_i := Suc (rp_i s)\<rparr>))"

definition replay_Report where
  "replay_Report R tr = replay_enter R Some (replay_report R tr)"

definition replay_usage :: "replay_env \<Rightarrow> usage \<Rightarrow> replay \<Rightarrow> goerr option \<times> replay" where
  "replay_usage R u s =
     (if re_legacy R then (None, s)
      else case next_of EventUsage (re_stream R) (rp_i s) of
        None \<Rightarrow> replay_fail_err (diverged_of
                  (ErrNew ''replay: unexpected usage (no matching recorded event)'')) s
      | Some ev \<Rightarrow>
          let s1 = s\<lparr>rp_i := Suc (rp_i s)\<rparr> in
          (case ev_usage ev of
             None \<Rightarrow> replay_fail_err (diverged_of
                       (ErrNew ''replay: recorded usage is missing its payload'')) s1
           | Some ru \<Rightarrow>
               if ru \<noteq> u then
                 replay_fail_err (diverged_of (ErrNew (''replay: usage mismatch '' @ em_dash
                   @ '' harness emitted '' @ format_usage u @ '', journal recorded ''
                   @ format_usage ru @ '' (I0)''))) s1
               else (None, s1)))"

definition replay_Usage where
  "replay_Usage R u = replay_enter R Some (replay_usage R u)"

definition replaySink :: "replay_env \<Rightarrow> replay event_sink" where
  "replaySink R = \<lparr>sink_Model = replay_Model R, sink_Output = replay_Output R,
     sink_ToolCall = replay_ToolCall R, sink_Report = replay_Report R, sink_Usage = replay_Usage R\<rparr>"

section \<open>The resume sink\<close>

text \<open>
  \<^verbatim>\<open>resumeSink\<close> serves the recorded effects from \<open>rv_stream\<close> and, once they are exhausted, hands
  every call to its embedded live sink.
\<close>

record 's resume_env =
  rv_live :: "'s live_env"
  rv_stream :: "event list"
  rv_approvals :: "string \<rightharpoonup> approval_state"

record 's resume =
  rs_live :: "'s live"
  rs_i :: nat
  rs_failure :: "goerr option"

definition resume_enter ::
  "'s resume_env \<Rightarrow> (goerr \<Rightarrow> 'r) \<Rightarrow> ('s resume \<Rightarrow> 'r \<times> 's resume) \<Rightarrow> 's resume \<Rightarrow> 'r \<times> 's resume" where
  "resume_enter V fail body s =
     (case guard_err (lv_stop (rs_live s)) (lv_closed (rs_live s)) of
        Some e \<Rightarrow> (fail e, s)
      | None \<Rightarrow>
          (case rs_failure s of
             Some e \<Rightarrow> (fail e, s)
           | None \<Rightarrow>
               let w = lv_w (rs_live s); s' = s\<lparr>rs_live := set_w (tick w) (rs_live s)\<rparr> in
               (case c_ctxErr (le_c (rv_live V)) (w_tick w) of
                  Some e \<Rightarrow> (fail e, s')
                | None \<Rightarrow> body s')))"

definition resume_fail :: "goerr \<Rightarrow> 's resume \<Rightarrow> (goerr + 'a) \<times> 's resume" where
  "resume_fail e s = (Inl e, s\<lparr>rs_failure := Some e\<rparr>)"

definition resume_fail_err :: "goerr \<Rightarrow> 's resume \<Rightarrow> goerr option \<times> 's resume" where
  "resume_fail_err e s = (Some e, s\<lparr>rs_failure := Some e\<rparr>)"

text \<open>Handing a call to the embedded live sink.\<close>

definition go_live :: "('s live \<Rightarrow> 'r \<times> 's live) \<Rightarrow> 's resume \<Rightarrow> 'r \<times> 's resume" where
  "go_live f s = (case f (rs_live s) of (r, l) \<Rightarrow> (r, s\<lparr>rs_live := l\<rparr>))"

definition resume_model ::
  "'s resume_env \<Rightarrow> model_request \<Rightarrow> 's resume \<Rightarrow> (goerr + model_response) \<times> 's resume" where
  "resume_model V req s =
     (if rs_i s < length (rv_stream V) then
        (case next_of EventModelCall (rv_stream V) (rs_i s) of
           None \<Rightarrow> resume_fail (diverged_of (ErrNew ''resume: recorded stream diverged (expected model call)'')) s
         | Some mc \<Rightarrow>
             let s1 = s\<lparr>rs_i := Suc (rs_i s)\<rparr> in
             if (case ev_modelCall mc of None \<Rightarrow> True
                 | Some m \<Rightarrow> mc_inputHash m \<noteq> c_hashModelInput (le_c (rv_live V)) req) then
               resume_fail (diverged_of (ErrNew ''resume: model input hash mismatch (I0)'')) s1
             else case next_of EventOutput (rv_stream V) (rs_i s1) of
               None \<Rightarrow>
                 if rs_i s1 \<noteq> length (rv_stream V) then
                   (Inl (ErrNew ''resume: recorded completion missing''), s1)
                 else if le_legacyRecovery (rv_live V) then
                   (Inl (ErrNew ''resume: recorded completion missing''), s1)
                 else go_live (live_completeModel (rv_live V) req) s1
             | Some out \<Rightarrow>
                 let s2 = s1\<lparr>rs_i := Suc (rs_i s1)\<rparr> in
                 (Inr \<lparr>mresp_message = (case ev_message out of None \<Rightarrow> empty_message | Some m \<Rightarrow> m),
                       mresp_usage = (if le_legacyRecovery (rv_live V) then empty_usage
                                      else usageAt (rv_stream V) (rs_i s2))\<rparr>, s2))
      else go_live (live_model (rv_live V) req) s)"

definition resume_Model where
  "resume_Model V req = resume_enter V Inl (resume_model V req)"

definition resume_output :: "'s resume_env \<Rightarrow> string \<Rightarrow> 's resume \<Rightarrow> goerr option \<times> 's resume" where
  "resume_output V delta s =
     (if rs_i s < length (rv_stream V) then
        (case next_of EventOutput (rv_stream V) (rs_i s) of
           None \<Rightarrow> resume_fail_err (diverged_of (ErrNew ''resume: recorded stream diverged (expected output)'')) s
         | Some out \<Rightarrow>
             let s1 = s\<lparr>rs_i := Suc (rs_i s)\<rparr>; recorded = event_text out in
             if delta \<noteq> recorded then
               resume_fail_err (diverged_of (ErrNew (''resume: output mismatch '' @ em_dash @ '' ''
                 @ format_q delta @ '' != recorded '' @ format_q recorded))) s1
             else (None, s1))
      else go_live (live_output (rv_live V) delta) s)"

definition resume_Output where
  "resume_Output V delta = resume_enter V Some (resume_output V delta)"

text \<open>
  A recorded gated call: the decision must be there (an undecided one is intercepted before the
  run); a missing receipt is the crash point, and the decision is carried out now.
\<close>

definition resume_approval ::
  "'s resume_env \<Rightarrow> tool_call \<Rightarrow> 's resume \<Rightarrow> (goerr + tool_result) \<times> 's resume" where
  "resume_approval V call s =
     (let state = rv_approvals V (tc_id call) in
      case consumeApprovalPrefix (rv_stream V) (rs_i s) state of
        (Some e, i) \<Rightarrow> resume_fail e (s\<lparr>rs_i := i\<rparr>)
      | (None, i) \<Rightarrow>
          let s1 = s\<lparr>rs_i := i\<rparr> in
          (case state of
             Some st \<Rightarrow>
               (case (as_receipt st, as_request st, as_decision st) of
                  (None, Some rq, Some dc) \<Rightarrow> go_live (live_completeApproval (rv_live V) st rq dc) s1
                | _ \<Rightarrow>
                    (case next_of EventToolResult (rv_stream V) (rs_i s1) of
                       None \<Rightarrow> resume_fail (diverged_log ''missing approval receipt'') s1
                     | Some tr \<Rightarrow>
                         let s2 = s1\<lparr>rs_i := Suc (rs_i s1)\<rparr> in
                         (case serveApproval state (ev_result tr) of
                            Inl e \<Rightarrow> resume_fail e s2
                          | Inr result \<Rightarrow> (Inr result, s2))))
           | None \<Rightarrow> resume_fail (diverged_log ''missing approval decision evidence'') s1))"

definition resume_ordinary ::
  "'s resume_env \<Rightarrow> tool_call \<Rightarrow> 's resume \<Rightarrow> (goerr + tool_result) \<times> 's resume" where
  "resume_ordinary V call s =
     (case next_of EventToolResult (rv_stream V) (rs_i s) of
        Some tr \<Rightarrow>
          let s1 = s\<lparr>rs_i := Suc (rs_i s)\<rparr> in
          (case recordedToolResult call (ev_result tr) of
             Inl e \<Rightarrow> resume_fail e s1
           | Inr result \<Rightarrow> (Inr result, s1))
      | None \<Rightarrow>
          if rs_i s \<noteq> length (rv_stream V) then
            (Inl (ErrNew ''controller: recorded tool call has no result''), s)
          else go_live (live_execTool (rv_live V) call) s)"

definition resume_toolCall ::
  "'s resume_env \<Rightarrow> tool_call \<Rightarrow> 's resume \<Rightarrow> (goerr + tool_result) \<times> 's resume" where
  "resume_toolCall V tc s =
     (if keyless_rejected (rv_stream V) (rs_i s) tc then (Inl ErrMissingIdempotencyKey, s)
      else if rs_i s < length (rv_stream V) then
        (case fallback_error (rv_stream V) (rs_i s) tc of
           Some e \<Rightarrow> (Inl e, s)
         | None \<Rightarrow>
             (case next_of EventToolCall (rv_stream V) (rs_i s) of
                None \<Rightarrow>
                  (case toolMediationError (tc_mediation tc) of
                     Some e \<Rightarrow> (Inl e, s)
                   | None \<Rightarrow> resume_fail (diverged_log ''resume expected a recorded tool call, found none'') s)
              | Some ev \<Rightarrow>
                  let s1 = s\<lparr>rs_i := Suc (rs_i s)\<rparr> in
                  (case (matchToolCall (cn_codec (c_canon (le_c (rv_live V)))) tc (ev_toolCall ev), ev_toolCall ev) of
                     (None, Some call) \<Rightarrow>
                       let gated = (tc_mediation call = MediationRequiresApproval);
                           s2 = s1\<lparr>rs_live := (rs_live s1)\<lparr>lv_calls :=
                                  (lv_calls (rs_live s1))(tc_id call \<mapsto> gated)\<rparr>\<rparr> in
                       if gated then resume_approval V call s2 else resume_ordinary V call s2
                   | (Some e, _) \<Rightarrow> resume_fail e s1
                   | (None, None) \<Rightarrow> resume_fail (diverged_log ''recorded tool call missing its payload'') s1)))
      else go_live (live_toolCall (rv_live V) tc) s)"

definition resume_ToolCall where
  "resume_ToolCall V tc = resume_enter V Inl (resume_toolCall V tc)"

definition resume_report :: "'s resume_env \<Rightarrow> tool_result \<Rightarrow> 's resume \<Rightarrow> goerr option \<times> 's resume" where
  "resume_report V tr s =
     (if call_gated (lv_calls (rs_live s)) (tr_id tr) then
        (if rs_i s < length (rv_stream V) then resume_fail_err (diverged_of ErrApprovalReceiptReport) s
         else (Some ErrApprovalReceiptReport,
               s\<lparr>rs_live := (rs_live s)\<lparr>lv_stop := Some ErrApprovalReceiptReport\<rparr>\<rparr>))
      else case approvalReportError tr of
        Some e \<Rightarrow> (Some e, s)
      | None \<Rightarrow>
          if rs_i s < length (rv_stream V) then
            (if receipt_at (rv_stream V) (rs_i s) then
               resume_fail_err (diverged_log ''Report cannot consume approval receipt'') s
             else case next_of EventToolResult (rv_stream V) (rs_i s) of
               None \<Rightarrow> resume_fail_err (diverged_of
                         (ErrNew ''resume: recorded stream diverged (expected tool result)'')) s
             | Some _ \<Rightarrow> (None, s\<lparr>rs_i := Suc (rs_i s)\<rparr>))
          else go_live (live_report (rv_live V) tr) s)"

definition resume_Report where
  "resume_Report V tr = resume_enter V Some (resume_report V tr)"

definition resume_usage :: "'s resume_env \<Rightarrow> usage \<Rightarrow> 's resume \<Rightarrow> goerr option \<times> 's resume" where
  "resume_usage V u s =
     (if le_legacyRecovery (rv_live V) then
        (if rs_i s < length (rv_stream V) then (None, s) else go_live (live_usage (rv_live V) u) s)
      else if rs_i s < length (rv_stream V) then
        (case next_of EventUsage (rv_stream V) (rs_i s) of
           None \<Rightarrow> resume_fail_err (diverged_of
                     (ErrNew ''resume: recorded stream diverged (expected usage)'')) s
         | Some ev \<Rightarrow>
             let s1 = s\<lparr>rs_i := Suc (rs_i s)\<rparr> in
             (case ev_usage ev of
                None \<Rightarrow> resume_fail_err (diverged_of
                          (ErrNew ''resume: recorded usage is missing its payload'')) s1
              | Some ru \<Rightarrow>
                  if ru \<noteq> u then
                    resume_fail_err (diverged_of (ErrNew (''resume: usage mismatch '' @ em_dash @ '' ''
                      @ format_usage u @ '' != recorded '' @ format_usage ru))) s1
                  else (None, s1)))
      else go_live (live_usage (rv_live V) u) s)"

definition resume_Usage where
  "resume_Usage V u = resume_enter V Some (resume_usage V u)"

definition resumeSink :: "'s resume_env \<Rightarrow> 's resume event_sink" where
  "resumeSink V = \<lparr>sink_Model = resume_Model V, sink_Output = resume_Output V,
     sink_ToolCall = resume_ToolCall V, sink_Report = resume_Report V, sink_Usage = resume_Usage V\<rparr>"

end
