(* ===== verification/Controller.thy ===== *)
theory Controller
  imports Sinks
begin

text \<open>
  The controller's operations over one journal: \<^verbatim>\<open>New\<close>, \<^verbatim>\<open>Exec\<close>, \<^verbatim>\<open>Replay\<close>, \<^verbatim>\<open>Resume\<close>,
  \<^verbatim>\<open>ResumeInvocation\<close>, \<^verbatim>\<open>Outputs\<close>, \<^verbatim>\<open>Fork\<close> and \<^verbatim>\<open>CanPlace\<close> (\<^verbatim>\<open>controller/controller.go\<close>,
  \<^verbatim>\<open>resume.go\<close>, \<^verbatim>\<open>harness_identity.go\<close>).  The calls to \<^verbatim>\<open>observability\<close> write debug logs only.
\<close>

section \<open>Identity\<close>

definition needs_description :: "recorded_execution \<Rightarrow> bool" where
  "needs_description x \<longleftrightarrow> rx_harness x \<noteq> [] \<or> rx_harnessVersion x \<noteq> [] \<or> hasApproval x"

fun check_executions :: "string \<Rightarrow> descriptor \<Rightarrow> recorded_execution list \<Rightarrow> goerr option" where
  "check_executions name desc [] = None"
| "check_executions name desc (x # xs) =
     (if rx_harness x \<noteq> [] \<and> rx_harness x \<noteq> name then
        Some (errorf [] ErrHarnessMismatch ('': execution '' @ format_q (rx_id x) @ '' recorded ''
          @ format_q (rx_harness x) @ '', supplied '' @ format_q name))
      else if rx_harnessVersion x \<noteq> [] \<and> rx_harnessVersion x \<noteq> desc_version desc then
        Some (errorf [] ErrHarnessVersionMismatch ('': execution '' @ format_q (rx_id x) @ '' recorded ''
          @ format_q (rx_harnessVersion x) @ '', supplied '' @ format_q (desc_version desc)))
      else if hasApproval x \<and> cap_resumability (desc_capabilities desc) \<noteq> ResumabilityStatelessReplay then
        Some ErrApprovalUnavailable
      else check_executions name desc xs)"

definition checkHarness ::
  "'s controller \<Rightarrow> harness \<Rightarrow> recorded_execution list \<Rightarrow> 's world \<Rightarrow> (goerr + descriptor option) \<times> 's world" where
  "checkHarness c har xs w =
     (if \<not> list_ex needs_description xs then (Inr None, w)
      else case describeHarness har w of
        (Inl e, w') \<Rightarrow> (Inl e, w')
      | (Inr desc, w') \<Rightarrow>
          (case check_executions (resolvedHarnessName c desc) desc xs of
             Some e \<Rightarrow> (Inl e, w')
           | None \<Rightarrow> (Inr (Some desc), w')))"

definition legacyExecutionID :: "'s controller \<Rightarrow> log_record \<Rightarrow> goerr + string" where
  "legacyExecutionID c record =
     (if c_sessionUID c = [] then Inl (errorf [] ErrMissingSessionUID '': legacy harness invocation'')
      else case canon_Event (c_canon c) (r_event record) of
        Inl e \<Rightarrow> Inl e
      | Inr content \<Rightarrow>
          (case c_legacyPayload c (c_sessionUID c) (format_int (r_seq record)) content of
             Inl e \<Rightarrow> Inl e
           | Inr payload \<Rightarrow> Inr (''legacy-'' @ hex_encode (cn_sha256 (c_canon c) payload))))"

section \<open>New\<close>

text \<open>\<open>c\<close> is the controller with the options applied; a zero fence means no \<^verbatim>\<open>WithFence\<close>.\<close>

definition NewController :: "'s controller \<Rightarrow> 's \<Rightarrow> (goerr + 's controller) \<times> 's" where
  "NewController c log =
     (if c_tool c \<noteq> None \<and> c_sessionUID c = [] then (Inl ErrMissingSessionUID, log)
      else if c_fence c = 0 then
        (case Store_NewFence (c_ops c) log of
           (Inl e, log') \<Rightarrow> (Inl e, log')
         | (Inr fence, log') \<Rightarrow> (Inr (c\<lparr>c_fence := fence\<rparr>), log'))
      else (Inr c, log))"

section \<open>Exec\<close>

definition start_event :: "'s controller \<Rightarrow> string \<Rightarrow> nat \<Rightarrow> descriptor \<Rightarrow> event" where
  "start_event c executionID inputCount desc =
     zero_event\<lparr>ev_executionID := executionID, ev_kind := EventExecutionStart,
       ev_executionStart := Some \<lparr>es_config = c_startConfig c, es_resumeFromSeq = c_startResumeFromSeq c,
         es_inputCount = Some (int inputCount), es_harness = resolvedHarnessName c desc,
         es_harnessVersion = desc_version desc\<rparr>\<rparr>"

definition input_event :: "string \<Rightarrow> message \<Rightarrow> event" where
  "input_event executionID m =
     zero_event\<lparr>ev_executionID := executionID, ev_kind := EventInput, ev_message := Some m\<rparr>"

definition error_event :: "goerr \<Rightarrow> event" where
  "error_event e = zero_event\<lparr>ev_kind := EventError,
     ev_err := Some \<lparr>err_code = 0, err_description = error_text e\<rparr>\<rparr>"

definition end_event :: event where
  "end_event = zero_event\<lparr>ev_kind := EventEnd, ev_end := Some \<lparr>he_state = ''COMPLETED'', he_error = None\<rparr>\<rparr>"

fun append_inputs ::
  "'s controller \<Rightarrow> string \<Rightarrow> int64 \<Rightarrow> message list \<Rightarrow> 's world \<Rightarrow> goerr option \<times> 's world" where
  "append_inputs c executionID lastSeq [] w = (None, w)"
| "append_inputs c executionID lastSeq (m # ms) w =
     (case commit c lastSeq (input_event executionID m) w of
        (Inl e, w') \<Rightarrow> (Some e, w')
      | (Inr r, w') \<Rightarrow> append_inputs c executionID (r_seq r) ms w')"

text \<open>After \<^verbatim>\<open>Run\<close>: a park keeps the harness's own error, every other stop replaces it.\<close>

definition stop_error :: "goerr \<Rightarrow> goerr option \<Rightarrow> goerr option" where
  "stop_error stop runErr =
     (if runErr = None \<or> \<not> errors_is stop ErrApprovalParked then Some stop else runErr)"

definition finish_exec ::
  "'s controller \<Rightarrow> string \<Rightarrow> goerr option \<Rightarrow> 's live \<Rightarrow> goerr option \<times> 's world" where
  "finish_exec c executionID runErr s =
     (case lv_stop s of
        Some stop \<Rightarrow> (stop_error stop runErr, lv_w s)
      | None \<Rightarrow>
          (case runErr of
             Some e \<Rightarrow> (Some e, snd (appendSeq c executionID (error_event e) (lv_w s)))
           | None \<Rightarrow>
               (case appendSeq c executionID end_event (lv_w s) of
                  (Inl e, w) \<Rightarrow> (Some e, w)
                | (Inr _, w) \<Rightarrow> (None, w))))"

definition live_env_of :: "'s controller \<Rightarrow> string \<Rightarrow> harness \<Rightarrow> 's live_env" where
  "live_env_of c executionID har =
     \<lparr>le_c = c, le_executionID = executionID, le_legacyRecovery = False, le_har = har\<rparr>"

definition live_init :: "descriptor option \<Rightarrow> 's world \<Rightarrow> 's live" where
  "live_init desc w =
     \<lparr>lv_w = w, lv_stop = None, lv_closed = False, lv_desc = desc, lv_calls = Map.empty\<rparr>"

definition exec_start ::
  "'s controller \<Rightarrow> string \<Rightarrow> event list \<Rightarrow> message list \<Rightarrow> start" where
  "exec_start c executionID history inputs =
     \<lparr>st_executionID = executionID, st_sessionUID = c_sessionUID c, st_config = c_startConfig c,
      st_history = history, st_inputs = inputs, st_resumeFromSeq = c_startResumeFromSeq c\<rparr>"

text \<open>The part of \<^verbatim>\<open>Exec\<close> after admission.\<close>

definition exec_turn ::
  "'s controller \<Rightarrow> harness \<Rightarrow> string \<Rightarrow> event list \<Rightarrow> message list \<Rightarrow> int64 \<Rightarrow> 's world
     \<Rightarrow> goerr option \<times> 's world" where
  "exec_turn c har executionID history inputs expectedLastSeq w =
     (case describeHarness har w of
        (Inl e, w1) \<Rightarrow> (Some e, w1)
      | (Inr desc, w1) \<Rightarrow>
          (case commit c expectedLastSeq (start_event c executionID (length inputs) desc) w1 of
             (Inl e, w2) \<Rightarrow> (Some e, w2)
           | (Inr r, w2) \<Rightarrow>
               (case append_inputs c executionID (r_seq r) inputs w2 of
                  (Some e, w3) \<Rightarrow> (Some e, w3)
                | (None, w3) \<Rightarrow>
                    (case drive (liveSink (live_env_of c executionID har))
                            (har_run har (exec_start c executionID history inputs))
                            (live_init (Some desc) w3) of
                       (runErr, s) \<Rightarrow> finish_exec c executionID runErr s))))"

definition Exec ::
  "'s controller \<Rightarrow> harness \<Rightarrow> message list \<Rightarrow> int64 \<Rightarrow> 's world \<Rightarrow> goerr option \<times> 's world" where
  "Exec c har inputs expectedLastSeq w0 =
     (case newID c w0 of
        (executionID, w) \<Rightarrow>
          (case CheckWritable (c_ops c) (w_log w) of
             Some e \<Rightarrow> (Some e, w)
           | None \<Rightarrow>
          (case Store_Read (c_ops c) 1 (w_log w) of
             Inl e \<Rightarrow> (Some e, w)
           | Inr prior \<Rightarrow>
          (case scanApprovalRecords prior 0 of
             Inl e \<Rightarrow> (Some e, w)
           | Inr scan \<Rightarrow>
               if (case selected_state scan of None \<Rightarrow> False
                   | Some st \<Rightarrow> \<not> as_inherited st \<and> as_receipt st = None)
               then (Some ErrApprovalBlocked, w)
               else
                 let history = map r_event prior in
                 (case legacyPrefix history of
                    Inl e \<Rightarrow> (Some e, w)
                  | Inr _ \<Rightarrow> exec_turn c har executionID history inputs expectedLastSeq w)))))"

section \<open>Replay\<close>

fun replay_anchor :: "log_record \<Rightarrow> log_record list \<Rightarrow> log_record" where
  "replay_anchor anchor [] = anchor"
| "replay_anchor anchor (r # rs) =
     (if ev_kind (r_event r) = EventInput then r
      else replay_anchor (if ev_kind (r_event anchor) = EventLifecycle then r else anchor) rs)"

definition replay_env_of ::
  "'s controller \<Rightarrow> approval_scan \<Rightarrow> recorded_execution \<Rightarrow> replay_env" where
  "replay_env_of c scan x =
     \<lparr>re_stream = rx_stream x, re_legacy = (rx_legacyEnd x > 0),
      re_approvals = approvalEvidence scan (rx_id x), re_codec = cn_codec (c_canon c),
      re_hash = c_hashModelInput c, re_ctxErr = c_ctxErr c\<rparr>"

definition replay_init :: "nat \<Rightarrow> replay" where
  "replay_init t = \<lparr>rp_i = 0, rp_outputs = [], rp_failure = None, rp_stop = None, rp_closed = False,
     rp_calls = Map.empty, rp_tick = t\<rparr>"

definition replay_start ::
  "'s controller \<Rightarrow> log_record list \<Rightarrow> recorded_execution \<Rightarrow> goerr + start" where
  "replay_start c recs x =
     (let legacy = rx_legacyEnd x > 0; events = map r_event recs in
      case (if legacy then legacyExecutionID c (replay_anchor (recs ! 0) (take (rx_legacyEnd x) recs))
            else Inr (rx_id x)) of
        Inl e \<Rightarrow> Inl e
      | Inr invocationID \<Rightarrow>
          Inr \<lparr>st_executionID = invocationID, st_sessionUID = c_sessionUID c, st_config = rx_config x,
               st_history = (if legacy then take (rx_legacyEnd x) events
                             else take (nat (rx_start x)) events),
               st_inputs = rx_inputs x, st_resumeFromSeq = rx_resumeFromSeq x\<rparr>)"

definition consumed_error :: "string \<Rightarrow> nat \<Rightarrow> nat \<Rightarrow> goerr" where
  "consumed_error what i n = errorf [] ErrReplayDiverged ('': '' @ what @ '' consumed '' @ format_nat i
     @ '' of '' @ format_nat n @ '' recorded effects'')"

text \<open>One execution: the outputs it served, and the tick after it.\<close>

definition replay_execution ::
  "'s controller \<Rightarrow> harness \<Rightarrow> log_record list \<Rightarrow> approval_scan \<Rightarrow> nat \<Rightarrow> recorded_execution \<Rightarrow> 's world
     \<Rightarrow> (goerr + string list) \<times> 's world" where
  "replay_execution c har recs scan before x w =
     (case replay_start c recs x of
        Inl e \<Rightarrow> (Inl e, w)
      | Inr st \<Rightarrow>
          (case drive (replaySink (replay_env_of c scan x)) (har_run har st) (replay_init (w_tick w)) of
             (runErr, s) \<Rightarrow>
               let w' = w\<lparr>w_tick := rp_tick s\<rparr> in
               (case rp_failure s of
                  Some e \<Rightarrow> (Inl e, w')
                | None \<Rightarrow>
                    (case runErr of
                       Some e \<Rightarrow> (Inl e, w')
                     | None \<Rightarrow>
                         if w_liveModelCalls w' \<noteq> before then (Inl ErrReplayInvokedModel, w')
                         else if rp_i s \<noteq> length (rx_stream x) then
                           (Inl (consumed_error (''execution '' @ format_q (rx_id x)) (rp_i s)
                              (length (rx_stream x))), w')
                         else (Inr (rp_outputs s), w')))))"

fun replay_loop ::
  "'s controller \<Rightarrow> harness \<Rightarrow> log_record list \<Rightarrow> approval_scan \<Rightarrow> nat \<Rightarrow> recorded_execution list
     \<Rightarrow> string list \<Rightarrow> 's world \<Rightarrow> (goerr + string list) \<times> 's world" where
  "replay_loop c har recs scan before [] outputs w = (Inr outputs, w)"
| "replay_loop c har recs scan before (x # xs) outputs w =
     (case replay_execution c har recs scan before x w of
        (Inl e, w') \<Rightarrow> (Inl e, w')
      | (Inr out, w') \<Rightarrow> replay_loop c har recs scan before xs (outputs @ out) w')"

definition replay_selected :: "recorded_execution list \<Rightarrow> recorded_execution list" where
  "replay_selected xs = filter (\<lambda>x. rx_completed x \<or> rx_legacyEnd x > 0) xs"

definition Replay :: "'s controller \<Rightarrow> harness \<Rightarrow> 's world \<Rightarrow> (goerr + string list) \<times> 's world" where
  "Replay c har w =
     (case Store_Read (c_ops c) 1 (w_log w) of
        Inl e \<Rightarrow> (Inl e, w)
      | Inr recs \<Rightarrow>
     (case recordedExecutions (map r_event recs) of
        Inl e \<Rightarrow> (Inl e, w)
      | Inr xs \<Rightarrow>
     (case scanApprovalRecords recs 0 of
        Inl e \<Rightarrow> (Inl e, w)
      | Inr scan \<Rightarrow>
     (case checkHarness c har (replay_selected xs) w of
        (Inl e, w') \<Rightarrow> (Inl e, w')
      | (Inr _, w') \<Rightarrow>
          replay_loop c har recs scan (w_liveModelCalls w') (replay_selected xs) [] w'))))"

section \<open>Resume\<close>

definition ResumeInvocation :: "'s store_ops \<Rightarrow> 's \<Rightarrow> goerr + execution_start option" where
  "ResumeInvocation ops log =
     (case Store_Read ops 1 log of
        Inl e \<Rightarrow> Inl e
      | Inr recs \<Rightarrow>
          let events = map r_event recs in
          (case recordedExecutions events of
             Inl e \<Rightarrow> Inl e
           | Inr xs \<Rightarrow>
               (case pendingResumeExecution events xs of
                  Inl e \<Rightarrow> Inl e
                | Inr None \<Rightarrow> Inr None
                | Inr (Some x) \<Rightarrow> Inr (invocation x))))"

definition approvalPark :: "approval_state \<Rightarrow> log_record \<Rightarrow> goerr" where
  "approvalPark st request = ApprovalParkedError \<lparr>ref_executionID = as_executionID st,
     ref_toolCallID = tc_id (as_call st), ref_requestSeq = r_seq request\<rparr>"

text \<open>
  \<^verbatim>\<open>pendingApproval\<close> may set \<^verbatim>\<open>state.Request\<close>, which the scan shares; the updated scan is returned.
\<close>

definition pendingApproval ::
  "'s controller \<Rightarrow> approval_scan \<Rightarrow> string \<Rightarrow> 's world \<Rightarrow> (bool \<times> goerr option) \<times> approval_scan \<times> 's world" where
  "pendingApproval c scan executionID w =
     (case selected_state scan of
        None \<Rightarrow> ((False, None), scan, w)
      | Some st \<Rightarrow>
          if as_executionID st \<noteq> executionID \<or> as_receipt st \<noteq> None then ((False, None), scan, w)
          else if as_inherited st then ((False, Some ErrInheritedToolIntent), scan, w)
          else
            (case as_request st of
               Some rq \<Rightarrow>
                 ((if as_decision st = None then (True, Some (approvalPark st rq)) else (False, None)), scan, w)
             | None \<Rightarrow>
                 (case commit c (sc_head scan)
                    ((approval_request_event (tc_id (as_call st)))\<lparr>ev_executionID := as_executionID st\<rparr>) w of
                    (Inl e, w') \<Rightarrow> ((True, Some e), scan, w')
                  | (Inr r, w') \<Rightarrow>
                      let scan' = scan\<lparr>sc_states := (sc_states scan)[the (sc_selected scan) :=
                                    st\<lparr>as_request := Some r\<rparr>]\<rparr> in
                      ((if as_decision st = None then (True, Some (approvalPark st r)) else (False, None)),
                       scan', w'))))"

record inherited_scan =
  ih_unresolved :: int
  ih_inherited :: int
  ih_preceding :: "tool_call option"
  ih_precedingInherited :: bool

definition fork_event :: "event \<Rightarrow> bool" where
  "fork_event e \<longleftrightarrow> ev_kind e = EventLifecycle \<and>
     (case ev_lifecycle e of None \<Rightarrow> False | Some l \<Rightarrow> lc_kind l = LifecycleFork)"

definition inherited_step :: "string \<Rightarrow> event \<Rightarrow> inherited_scan \<Rightarrow> inherited_scan" where
  "inherited_step executionID e s0 =
     (let s = (if fork_event e
               then s0\<lparr>ih_inherited := ih_unresolved s0, ih_precedingInherited := (ih_preceding s0 \<noteq> None)\<rparr>
               else s0)
      in if ev_executionID e \<noteq> executionID then s
         else if ev_kind e = EventToolCall then
           s\<lparr>ih_unresolved := ih_unresolved s + 1, ih_preceding := ev_toolCall e, ih_precedingInherited := False\<rparr>
         else if ev_kind e = EventToolResult then
           (if (case (ih_preceding s, ev_result e) of (Some t, Some r) \<Rightarrow> tr_id r = tc_id t | _ \<Rightarrow> False)
            then s\<lparr>ih_unresolved := ih_unresolved s - 1,
                   ih_inherited := (if ih_precedingInherited s then ih_inherited s - 1 else ih_inherited s),
                   ih_preceding := None\<rparr>
            else s\<lparr>ih_preceding := None\<rparr>)
         else if ev_kind e = EventModelCall \<or> ev_kind e = EventOutput \<or> ev_kind e = EventUsage then
           s\<lparr>ih_preceding := None\<rparr>
         else s)"

definition inheritedTools :: "string \<Rightarrow> event list \<Rightarrow> int" where
  "inheritedTools executionID events =
     ih_inherited (fold (inherited_step executionID) events
       \<lparr>ih_unresolved = 0, ih_inherited = 0, ih_preceding = None, ih_precedingInherited = False\<rparr>)"

definition resume_env_of ::
  "'s controller \<Rightarrow> harness \<Rightarrow> approval_scan \<Rightarrow> recorded_execution \<Rightarrow> 's resume_env" where
  "resume_env_of c har scan x =
     \<lparr>rv_live = \<lparr>le_c = c, le_executionID = rx_id x, le_legacyRecovery = (rx_legacyEnd x > 0), le_har = har\<rparr>,
      rv_stream = rx_stream x, rv_approvals = approvalEvidence scan (rx_id x)\<rparr>"

definition finish_resume ::
  "'s resume_env \<Rightarrow> goerr option \<Rightarrow> 's resume \<Rightarrow> (bool \<times> goerr option) \<times> 's world" where
  "finish_resume V runErr s =
     (case lv_stop (rs_live s) of
        Some stop \<Rightarrow> ((True, stop_error stop runErr), lv_w (rs_live s))
      | None \<Rightarrow>
          let err = (case rs_failure s of Some e \<Rightarrow> Some e | None \<Rightarrow>
                      if runErr = None \<and> rs_i s \<noteq> length (rv_stream V)
                      then Some (consumed_error ''recovery'' (rs_i s) (length (rv_stream V)))
                      else runErr) in
          (case err of
             Some e \<Rightarrow> ((True, Some e), lv_w (snd (live_append (rv_live V) (error_event e) (rs_live s))))
           | None \<Rightarrow>
               (case live_append (rv_live V) end_event (rs_live s) of
                  (Inl e, l) \<Rightarrow> ((True, Some e), lv_w l)
                | (Inr _, l) \<Rightarrow> ((True, None), lv_w l))))"

definition resume_execution ::
  "'s controller \<Rightarrow> harness \<Rightarrow> log_record list \<Rightarrow> approval_scan \<Rightarrow> recorded_execution \<Rightarrow> 's world
     \<Rightarrow> (bool \<times> goerr option) \<times> 's world" where
  "resume_execution c har recs scan x w =
     (case checkHarness c har [x] w of
        (Inl e, w') \<Rightarrow> ((False, Some e), w')
      | (Inr desc, w') \<Rightarrow>
          (case (if rx_legacyEnd x > 0 then legacyExecutionID c (recs ! nat (rx_start x)) else Inr (rx_id x)) of
             Inl e \<Rightarrow> ((False, Some e), w')
           | Inr invocationID \<Rightarrow>
               let V = resume_env_of c har scan x;
                   st = \<lparr>st_executionID = invocationID, st_sessionUID = c_sessionUID c, st_config = rx_config x,
                         st_history = take (nat (rx_start x)) (map r_event recs), st_inputs = rx_inputs x,
                         st_resumeFromSeq = rx_resumeFromSeq x\<rparr>
               in (case drive (resumeSink V) (har_run har st)
                          \<lparr>rs_live = live_init desc w', rs_i = 0, rs_failure = None\<rparr> of
                     (runErr, s) \<Rightarrow> finish_resume V runErr s)))"

definition Resume :: "'s controller \<Rightarrow> harness \<Rightarrow> 's world \<Rightarrow> (bool \<times> goerr option) \<times> 's world" where
  "Resume c har w =
     (case CheckWritable (c_ops c) (w_log w) of
        Some e \<Rightarrow> ((False, Some e), w)
      | None \<Rightarrow>
     (case Store_Read (c_ops c) 1 (w_log w) of
        Inl e \<Rightarrow> ((False, Some e), w)
      | Inr recs \<Rightarrow>
     if recs = [] then ((False, None), w)
     else
       let events = map r_event recs in
     (case recordedExecutions events of
        Inl e \<Rightarrow> ((False, Some e), w)
      | Inr xs \<Rightarrow>
     (case scanApprovalRecords recs 0 of
        Inl e \<Rightarrow> ((False, Some e), w)
      | Inr scan \<Rightarrow>
     (case pendingResumeExecution events xs of
        Inl e \<Rightarrow> ((False, Some e), w)
      | Inr None \<Rightarrow> ((False, None), w)
      | Inr (Some x) \<Rightarrow>
     (case pendingApproval c scan (rx_id x) w of
        ((parked, err), scan', w') \<Rightarrow>
          if parked \<or> err \<noteq> None then ((parked, err), w')
          else if inheritedTools (rx_id x) (drop (nat (rx_start x)) events) > 0 then
            ((False, Some (errorf [] ErrInheritedToolIntent ('': execution '' @ format_q (rx_id x)))), w')
          else resume_execution c har recs scan' x w'))))))"

section \<open>Outputs, Fork, CanPlace\<close>

definition output_texts :: "event list \<Rightarrow> string list" where
  "output_texts es = concat (map (\<lambda>e. if ev_kind e = EventOutput
     then (case ev_message e of None \<Rightarrow> [] | Some m \<Rightarrow> [Message_Text m]) else []) es)"

definition Outputs :: "'s store_ops \<Rightarrow> 's \<Rightarrow> goerr + string list" where
  "Outputs ops log =
     (case Store_Read ops 1 log of Inl e \<Rightarrow> Inl e | Inr recs \<Rightarrow> Inr (output_texts (map r_event recs)))"

definition fork_marker :: "int64 \<Rightarrow> event" where
  "fork_marker atSeq = zero_event\<lparr>ev_kind := EventLifecycle,
     ev_lifecycle := Some \<lparr>lc_kind = LifecycleFork, lc_detail = ''parent@'' @ format_int atSeq,
       lc_snapshot = None\<rparr>\<rparr>"

fun fork_copy ::
  "'c store_ops \<Rightarrow> int64 \<Rightarrow> int64 \<Rightarrow> log_record list \<Rightarrow> int64 \<Rightarrow> 'c \<Rightarrow> (goerr + int64) \<times> 'c" where
  "fork_copy ops fence atSeq [] lastSeq child = (Inr lastSeq, child)"
| "fork_copy ops fence atSeq (r # rs) lastSeq child =
     (if r_seq r > atSeq then (Inr lastSeq, child)
      else case Store_Append ops lastSeq fence (r_event r) child of
        (Inl e, child') \<Rightarrow> (Inl e, child')
      | (Inr _, child') \<Rightarrow> fork_copy ops fence atSeq rs (r_seq r) child')"

definition Fork ::
  "'p store_ops \<Rightarrow> 'c store_ops \<Rightarrow> int64 \<Rightarrow> 'p \<Rightarrow> 'c \<Rightarrow> goerr option \<times> 'c" where
  "Fork pops cops atSeq parent child =
     (case CheckWritable pops parent of
        Some e \<Rightarrow> (Some e, child)
      | None \<Rightarrow>
     (case CheckWritable cops child of
        Some e \<Rightarrow> (Some e, child)
      | None \<Rightarrow>
     (case Store_Read pops 1 parent of
        Inl e \<Rightarrow> (Some e, child)
      | Inr recs \<Rightarrow>
     (case Store_NewFence cops child of
        (Inl e, child1) \<Rightarrow> (Some e, child1)
      | (Inr fence, child1) \<Rightarrow>
     (case fork_copy cops fence atSeq recs 0 child1 of
        (Inl e, child2) \<Rightarrow> (Some e, child2)
      | (Inr lastSeq, child2) \<Rightarrow>
     (case Store_Append cops lastSeq fence (fork_marker atSeq) child2 of
        (Inl e, child3) \<Rightarrow> (Some e, child3)
      | (Inr _, child3) \<Rightarrow> (None, child3)))))))"

definition CanPlace :: "capabilities \<Rightarrow> runtime_capabilities \<Rightarrow> bool" where
  "CanPlace har rt = (\<not> (cap_resumability har = ResumabilityRequiresMemorySnapshot \<and> \<not> rc_memorySnapshot rt))"

definition ContextCanceled :: goerr where
  "ContextCanceled = ErrNew ''context canceled''"

definition ContextDeadlineExceeded :: goerr where
  "ContextDeadlineExceeded = ErrNew ''context deadline exceeded''"

definition controllerErrorKind :: "goerr option \<Rightarrow> string" where
  "controllerErrorKind err =
     (case err of
        None \<Rightarrow> ''''
      | Some e \<Rightarrow>
          if errors_is e ErrConflict then ''conflict''
          else if errors_is e ErrFenced then ''fenced''
          else if errors_is e ErrReplayInvokedModel then ''replay_invoked_model''
          else if errors_is e ErrReplayDiverged then ''replay_diverged''
          else if errors_is e ErrInvalidExecutionLog then ''invalid_execution_log''
          else if errors_is e ErrHarnessMismatch then ''harness_mismatch''
          else if errors_is e ErrHarnessVersionMismatch then ''harness_version_mismatch''
          else if errors_is e ErrApprovalUnavailable then ''approval_unavailable''
          else if errors_is e ErrApprovalBlocked then ''approval_blocked''
          else if errors_is e ErrMissingIdempotencyKey then ''missing_idempotency_key''
          else if errors_is e ErrUnmediatedToolCall then ''unmediated_tool_call''
          else if errors_is e ContextCanceled then ''canceled''
          else if errors_is e ContextDeadlineExceeded then ''deadline_exceeded''
          else ''operation_failed'')"

end
