(* ===== verification/Recording.thy ===== *)
theory Recording
  imports Controller
begin

text \<open>
  What a live turn leaves in the journal.  The locale \<open>controller_store\<close> is a controller over any
  store that keeps the \<open>event_store\<close> contract; its lemmas follow every append of the live sink and
  of \<^verbatim>\<open>Exec\<close>, including the ones that fail halfway, and end in the grammar of a turn
  (\<open>turn_shape\<close>).  The invariant of the live sink (\<open>live_inv\<close>) is an instance of
  \<open>sink_invariant\<close>, so it holds of every harness.
\<close>

section \<open>The controller over a store\<close>

definition observed_records :: "'s world \<Rightarrow> log_record list" where
  "observed_records w = concat (map (\<lambda>ob. case ob of OnRecord r \<Rightarrow> [r] | OnDelta _ \<Rightarrow> []) (w_observed w))"

lemma observed_records_tick [simp]: "observed_records (tick w) = observed_records w"
  by (simp add: observed_records_def tick_def)

lemma observed_records_upd [simp]:
  "observed_records (w\<lparr>w_log := l\<rparr>) = observed_records w"
  "observed_records (w\<lparr>w_external := xs\<rparr>) = observed_records w"
  "observed_records (w\<lparr>w_tick := t\<rparr>) = observed_records w"
  "observed_records (w\<lparr>w_liveModelCalls := n\<rparr>) = observed_records w"
  "observed_records (w\<lparr>w_liveToolCalls := n\<rparr>) = observed_records w"
  by (simp_all add: observed_records_def)

lemma w_log_tick [simp]: "w_log (tick w) = w_log w" "w_external (tick w) = w_external w"
  "w_liveModelCalls (tick w) = w_liveModelCalls w" "w_liveToolCalls (tick w) = w_liveToolCalls w"
  "w_observed (tick w) = w_observed w" "w_tick (tick w) = Suc (w_tick w)"
  by (simp_all add: tick_def)

lemma observed_records_emitDelta [simp]: "observed_records (emitDelta c x i ch d w) = observed_records w"
  by (simp add: observed_records_def emitDelta_def)

lemma emitDelta_fields [simp]: "w_log (emitDelta c x i ch d w) = w_log w"
  "w_external (emitDelta c x i ch d w) = w_external w"
  by (simp_all add: emitDelta_def)

lemma fold_emitDelta_fields [simp]:
  "w_log (fold (\<lambda>ch. emitDelta c x i ch d) chs w) = w_log w"
  "w_external (fold (\<lambda>ch. emitDelta c x i ch d) chs w) = w_external w"
  "observed_records (fold (\<lambda>ch. emitDelta c x i ch d) chs w) = observed_records w"
  by (induction chs arbitrary: w) auto

lemma invokeModel_fields:
  assumes "invokeModel c x req w = (res, w')"
  shows "w_log w' = w_log w \<and> observed_records w' = observed_records w
    \<and> w_external w' = w_external w @ [ExtModel req]"
  using assms
  by (auto simp: invokeModel_def Let_def split: option.splits prod.splits sum.splits)

text \<open>
  \<open>journaled w w' new\<close>: from \<open>w\<close> to \<open>w'\<close> exactly the records \<open>new\<close> were appended
  (and stored in normal form), under the controller's fence, and the observer saw exactly those.
\<close>

locale controller_store = event_store "c_ops c" recs fence invar norm
  for c :: "'s controller" and recs :: "'s \<Rightarrow> log_record list" and fence :: "'s \<Rightarrow> int64"
    and invar :: "'s \<Rightarrow> bool" and norm :: "event \<Rightarrow> event"
begin

definition stored :: "log_record \<Rightarrow> log_record" where
  "stored r = r\<lparr>r_event := norm (r_event r)\<rparr>"

definition journaled :: "'s world \<Rightarrow> 's world \<Rightarrow> log_record list \<Rightarrow> bool" where
  "journaled w w' new \<longleftrightarrow> invar (w_log w') \<and> recs (w_log w') = recs (w_log w) @ map stored new
     \<and> fence (w_log w') = fence (w_log w)
     \<and> (\<forall>r \<in> set new. r_fence r = c_fence c \<and> fence (w_log w) \<le> c_fence c)
     \<and> observed_records w' = observed_records w @ (if c_onRecord c then new else [])"

lemma journaled_refl: "invar (w_log w) \<Longrightarrow> w_log w' = w_log w \<Longrightarrow> observed_records w' = observed_records w
  \<Longrightarrow> journaled w w' []"
  by (simp add: journaled_def)

lemma journaled_trans: "journaled w w1 xs \<Longrightarrow> journaled w1 w2 ys \<Longrightarrow> journaled w w2 (xs @ ys)"
  by (auto simp: journaled_def)

lemma journaled_invar: "journaled w w' new \<Longrightarrow> invar (w_log w')"
  by (simp add: journaled_def)

lemma commit_journaled:
  assumes "invar (w_log w)" and "commit c ex ev w = (res, w')"
  shows "(\<exists>e. res = Inl e \<and> journaled w w' []) \<or>
    (\<exists>r. res = Inr r \<and> r_event r = ev \<and> ex = head_of (recs (w_log w)) \<and> r_seq r = ex + 1 \<and> journaled w w' [r])"
proof -
  obtain res' l where a: "Store_Append (c_ops c) ex (c_fence c) ev (w_log w) = (res', l)" by fastforce
  note inv = append_invar [OF assms(1) a]
  show ?thesis
  proof (cases res')
    case (Inl e)
    with assms a inv append_err [OF assms(1), of ex "c_fence c" ev e l] show ?thesis
      by (auto simp: commit_def journaled_def observed_records_def)
  next
    case (Inr r)
    with assms a inv append_ok [OF assms(1), of ex "c_fence c" ev r l] show ?thesis
      by (auto simp: commit_def journaled_def observed_records_def observe_def stored_def)
  qed
qed

lemma appendSeq_journaled:
  assumes inv: "invar (w_log w)" and a: "appendSeq c x ev w = (res, w')"
  shows "(\<exists>e. res = Inl e \<and> journaled w w' []) \<or>
    (\<exists>r. res = Inr r \<and> r_event r = ev\<lparr>ev_executionID := x\<rparr> \<and> x \<noteq> [] \<and>
       r_seq r = head_of (recs (w_log w)) + 1 \<and> journaled w w' [r])"
proof (cases "x = [] \<or> (\<exists>e. Store_Head (c_ops c) (w_log w) = Inl e)")
  case True
  with a inv show ?thesis by (auto simp: appendSeq_def journaled_refl split: if_splits)
next
  case False
  then obtain h where "Store_Head (c_ops c) (w_log w) = Inr h"
    by (cases "Store_Head (c_ops c) (w_log w)") auto
  with a False head_ok [OF inv this]
  have "commit c (head_of (recs (w_log w))) (ev\<lparr>ev_executionID := x\<rparr>) w = (res, w')"
    by (simp add: appendSeq_def)
  from commit_journaled [OF inv this] False show ?thesis by auto
qed

text \<open>The live sink's appends, under the execution ID the sink writes.\<close>

definition grows :: "'s live \<Rightarrow> 's live \<Rightarrow> event list \<Rightarrow> bool" where
  "grows s s' es \<longleftrightarrow> (\<exists>new. journaled (lv_w s) (lv_w s') new \<and> map r_event new = es)"

lemma grows_refl: "invar (w_log (lv_w s)) \<Longrightarrow> w_log (lv_w s') = w_log (lv_w s) \<Longrightarrow>
    observed_records (lv_w s') = observed_records (lv_w s) \<Longrightarrow> grows s s' []"
  using journaled_refl by (fastforce simp: grows_def)

lemma grows_trans: "grows s s1 xs \<Longrightarrow> grows s1 s2 ys \<Longrightarrow> grows s s2 (xs @ ys)"
  unfolding grows_def using journaled_trans map_append by metis

lemma grows_invar: "grows s s' es \<Longrightarrow> invar (w_log (lv_w s'))"
  by (auto simp: grows_def journaled_invar)

lemma grows_one: "journaled (lv_w s) (lv_w s') [r] \<Longrightarrow> grows s s' [r_event r]"
  unfolding grows_def by (rule exI [of _ "[r]"]) simp

lemma grows_nil: "journaled (lv_w s) (lv_w s') [] \<Longrightarrow> grows s s' []"
  unfolding grows_def by (rule exI [of _ "[]"]) simp

lemma grows_cong: "grows s s' es \<Longrightarrow> lv_w s1 = lv_w s \<Longrightarrow> lv_w s1' = lv_w s' \<Longrightarrow> grows s1 s1' es"
  by (simp add: grows_def)

end

definition live_id :: "'s live_env \<Rightarrow> string" where
  "live_id L = (if le_legacyRecovery L then [] else le_executionID L)"

definition own :: "'s live_env \<Rightarrow> event \<Rightarrow> event" where
  "own L ev = ev\<lparr>ev_executionID := live_id L\<rparr>"

definition same_guard :: "'s live \<Rightarrow> 's live \<Rightarrow> bool" where
  "same_guard s s' \<longleftrightarrow> lv_stop s' = lv_stop s \<and> lv_closed s' = lv_closed s \<and> lv_calls s' = lv_calls s"

lemma same_guard_refl [simp]: "same_guard s s" "same_guard s (set_w w s)"
  by (simp_all add: same_guard_def set_w_def)

lemma same_guard_trans: "same_guard s t \<Longrightarrow> same_guard t u \<Longrightarrow> same_guard s u"
  by (simp add: same_guard_def)

lemma set_w_fields [simp]: "lv_w (set_w w s) = w" "lv_stop (set_w w s) = lv_stop s"
  "lv_closed (set_w w s) = lv_closed s" "lv_calls (set_w w s) = lv_calls s" "lv_desc (set_w w s) = lv_desc s"
  by (simp_all add: set_w_def)

lemma live_append_external:
  "live_append L ev s = (res, s') \<Longrightarrow> w_external (lv_w s') = w_external (lv_w s)"
  by (auto simp: live_append_def appendSeq_def commit_def observe_def Let_def
      split: if_splits sum.splits prod.splits)

context controller_store
begin

lemma live_append_grows:
  assumes inv: "invar (w_log (lv_w s))" and c: "le_c L = c" and a: "live_append L ev s = (res, s')"
  shows "same_guard s s' \<and> lv_desc s' = lv_desc s \<and>
    ((\<exists>e. res = Inl e \<and> grows s s' []) \<or> (\<exists>r. res = Inr r \<and> r_event r = own L ev \<and> grows s s' [own L ev]
       \<and> r_seq r = head_of (recs (w_log (lv_w s))) + 1))"
proof -
  obtain res1 w1 where r: "res = res1" "s' = set_w w1 s" and
    w1: "(if \<not> le_legacyRecovery L then appendSeq c (le_executionID L) ev (lv_w s)
          else case Store_Head (c_ops c) (w_log (lv_w s)) of Inl e \<Rightarrow> (Inl e, lv_w s)
             | Inr head \<Rightarrow> commit c head (ev\<lparr>ev_executionID := []\<rparr>) (lv_w s)) = (res1, w1)"
    using a c by (auto simp: live_append_def Let_def split: prod.splits)
  have "(\<exists>e. res1 = Inl e \<and> journaled (lv_w s) w1 []) \<or>
     (\<exists>r. res1 = Inr r \<and> r_event r = own L ev \<and> journaled (lv_w s) w1 [r] \<and> r_seq r = head_of (recs (w_log (lv_w s))) + 1)"
  proof (cases "le_legacyRecovery L")
    case False
    with w1 appendSeq_journaled [OF inv] show ?thesis
      by (fastforce simp: own_def live_id_def)
  next
    case True
    show ?thesis
    proof (cases "Store_Head (c_ops c) (w_log (lv_w s))")
      case (Inl e)
      with True w1 inv show ?thesis by (auto intro: journaled_refl)
    next
      case (Inr h)
      with True w1 commit_journaled [OF inv, of h] head_ok [OF inv Inr] show ?thesis
        by (fastforce simp: own_def live_id_def)
    qed
  qed
  then show ?thesis
  proof (elim disjE exE conjE)
    fix e assume "res1 = Inl e" "journaled (lv_w s) w1 []"
    then show ?thesis using grows_nil [of s "set_w w1 s"] by (simp add: r)
  next
    fix rr assume "res1 = Inr rr" "r_event rr = own L ev" "journaled (lv_w s) w1 [rr]"
      "r_seq rr = head_of (recs (w_log (lv_w s))) + 1"
    then show ?thesis using grows_one [of s "set_w w1 s" rr] by (simp add: r)
  qed
qed


text \<open>What each private method of the live sink adds to the journal.\<close>

lemma live_completeModel_grows:
  assumes inv: "invar (w_log (lv_w s))" and c: "le_c L = c" and m: "live_completeModel L req s = (res, s')"
  shows "same_guard s s' \<and> ((\<exists>e. res = Inl e \<and> grows s s' []) \<or>
     (\<exists>resp. res = Inr resp \<and> grows s s' [own L (output_event (mresp_message resp))]))"
proof -
  obtain r w where iv: "invokeModel c (le_executionID L) req (lv_w s) = (r, w)" by fastforce
  note f = invokeModel_fields [OF iv]
  show ?thesis
  proof (cases r)
    case (Inl e)
    have "grows s (set_w w s) []" using inv f by (intro grows_refl) auto
    with m iv c Inl show ?thesis by (auto simp: live_completeModel_def)
  next
    case (Inr resp)
    let ?s1 = "set_w (w\<lparr>w_liveModelCalls := Suc (w_liveModelCalls w)\<rparr>) s"
    have g1: "grows s ?s1 []" using inv f by (intro grows_refl) auto
    obtain r2 s2 where a: "live_append L (output_event (mresp_message resp)) ?s1 = (r2, s2)" by fastforce
    from live_append_grows [OF grows_invar [OF g1] c a] g1 m iv c Inr a grows_trans [OF g1, of s2]
    show ?thesis by (auto simp: live_completeModel_def same_guard_def split: sum.splits)
  qed
qed

lemma live_model_grows:
  assumes inv: "invar (w_log (lv_w s))" and c: "le_c L = c" and m: "live_model L req s = (res, s')"
  shows "same_guard s s' \<and> (\<exists>i. (\<exists>e. res = Inl e \<and> (grows s s' [] \<or> grows s s' [own L (model_call_event c req i)])) \<or>
     (\<exists>resp. res = Inr resp \<and> grows s s' [own L (model_call_event c req i), own L (output_event (mresp_message resp))]))"
proof -
  let ?s1 = "set_w (tick (lv_w s)) s" and ?i = "c_newID c (w_tick (lv_w s))"
  have g1: "grows s ?s1 []" using inv by (intro grows_refl) auto
  obtain r2 s2 where a: "live_append L (model_call_event c req ?i) ?s1 = (r2, s2)" by fastforce
  note A = live_append_grows [OF grows_invar [OF g1] c a]
  show ?thesis
  proof (cases r2)
    case (Inl e)
    with A m c a grows_trans [OF g1, of s2] show ?thesis
      by (auto simp: live_model_def newID_def same_guard_def split: sum.splits)
  next
    case (Inr rr)
    then have g2: "grows s s2 [own L (model_call_event c req ?i)]" and sg: "same_guard s s2"
      using A grows_trans [OF g1, of s2] by (auto simp: same_guard_def)
    from m c a Inr have cm: "live_completeModel L req s2 = (res, s')"
      by (simp add: live_model_def newID_def)
    from live_completeModel_grows [OF grows_invar [OF g2] c cm] sg grows_trans [OF g2, of s']
    show ?thesis by (auto intro: same_guard_trans)
  qed
qed

lemma live_single_grows:
  assumes "invar (w_log (lv_w s))" and "le_c L = c"
    and "(case live_append L ev s of (Inl e, s'') \<Rightarrow> (Some e, s'') | (Inr _, s'') \<Rightarrow> (None, s'')) = (res, s')"
  shows "same_guard s s' \<and> ((\<exists>e. res = Some e \<and> grows s s' []) \<or> res = None \<and> grows s s' [own L ev])"
proof -
  obtain r2 s2 where a: "live_append L ev s = (r2, s2)" by fastforce
  from live_append_grows [OF assms(1,2) a] assms(3) a show ?thesis by (auto split: sum.splits)
qed

lemma live_execTool_grows:
  assumes inv: "invar (w_log (lv_w s))" and c: "le_c L = c" and m: "live_execTool L call s = (res, s')"
  shows "same_guard s s' \<and> ((\<exists>e. res = Inl e \<and> grows s s' []) \<or>
     (\<exists>r. res = Inr r \<and> tr_id r = tc_id call \<and> approvalReportError r = None \<and> grows s s' [own L (tool_result_event r)]))"
proof (cases "c_tool c")
  case None
  have "grows s s []" using inv by (intro grows_refl) auto
  with m c None show ?thesis by (auto simp: live_execTool_def)
next
  case (Some tool)
  let ?w = "tick ((lv_w s)\<lparr>w_external := w_external (lv_w s) @ [ExtTool (c_sessionUID c) call]\<rparr>)"
  obtain r err where t: "tool (w_tick (lv_w s)) (c_sessionUID c) call = (r, err)" by fastforce
  show ?thesis
  proof (cases err)
    case (Some e)
    have "grows s (set_w ?w s) []" using inv by (intro grows_refl) auto
    with m c t Some \<open>c_tool c = Some tool\<close> show ?thesis
      by (auto simp: live_execTool_def Let_def)
  next
    case None
    let ?s1 = "set_w (?w\<lparr>w_liveToolCalls := Suc (w_liveToolCalls ?w)\<rparr>) s"
    have g1: "grows s ?s1 []" using inv by (intro grows_refl) auto
    show ?thesis
    proof (cases "approvalReportError r")
      case (Some e)
      with m c t None g1 \<open>c_tool c = Some tool\<close> show ?thesis
        by (auto simp: live_execTool_def Let_def)
    next
      case ok: None
      obtain r2 s2 where a: "live_append L (tool_result_event (set_tr_id (tc_id call) r)) ?s1 = (r2, s2)" by fastforce
      have "tr_id (set_tr_id (tc_id call) r) = tc_id call" "approvalReportError (set_tr_id (tc_id call) r) = None"
        using ok by (simp_all add: set_tr_id_def approvalReportError_def split: if_splits)
      with live_append_grows [OF grows_invar [OF g1] c a] m c t None ok a \<open>c_tool c = Some tool\<close>
        grows_trans [OF g1, of s2]
      show ?thesis by (auto simp: live_execTool_def Let_def same_guard_def split: sum.splits)
    qed
  qed
qed


lemma live_approvalDescriptor_grows:
  assumes inv: "invar (w_log (lv_w s))" and m: "live_approvalDescriptor L s = (res, s')"
  shows "same_guard s s' \<and> grows s s' []"
proof -
  have "same_guard s s' \<and> w_log (lv_w s') = w_log (lv_w s) \<and> observed_records (lv_w s') = observed_records (lv_w s)"
    using m by (auto simp: live_approvalDescriptor_def describeHarness_def Let_def same_guard_def
        split: option.splits sum.splits if_splits)
  with inv show ?thesis by (auto intro: grows_refl)
qed

definition gate_intent :: "'s live_env \<Rightarrow> (string \<rightharpoonup> bool) \<Rightarrow> tool_call \<Rightarrow> bool" where
  "gate_intent L calls call \<longleftrightarrow> tc_mediation call = MediationRequiresApproval \<and> tc_id call \<noteq> []
     \<and> tc_idempotencyKey call \<noteq> [] \<and> calls (tc_id call) = None \<and> \<not> le_legacyRecovery L"

lemma live_request_grows:
  assumes inv: "invar (w_log (lv_w s))" and c: "le_c L = c"
    and m: "(case live_append L (approval_request_event i) s of
       (Inl e, s4) \<Rightarrow> (Inl e, s4\<lparr>lv_stop := Some e\<rparr>)
     | (Inr req, s4) \<Rightarrow>
         let park = ApprovalParkedError \<lparr>ref_executionID = le_executionID L, ref_toolCallID = i,
               ref_requestSeq = r_seq req\<rparr>
         in (Inl park, s4\<lparr>lv_stop := Some park\<rparr>)) = (res, s')"
  shows "\<exists>e. res = Inl e \<and> lv_stop s' = Some e \<and> lv_closed s' = lv_closed s \<and> lv_calls s' = lv_calls s \<and>
     (grows s s' [] \<or> grows s s' [own L (approval_request_event i)] \<and>
        e = ApprovalParkedError \<lparr>ref_executionID = le_executionID L, ref_toolCallID = i,
              ref_requestSeq = head_of (recs (w_log (lv_w s))) + 1\<rparr>)"
proof -
  obtain r4 s4 where b: "live_append L (approval_request_event i) s = (r4, s4)" by fastforce
  note B = live_append_grows [OF inv c b]
  from m b obtain e where s': "s' = s4\<lparr>lv_stop := Some e\<rparr>" "res = Inl e" by (auto simp: Let_def split: sum.splits)
  then have w: "lv_w s' = lv_w s4" "lv_closed s' = lv_closed s4" "lv_calls s' = lv_calls s4" by simp_all
  show ?thesis
  proof (cases r4)
    case (Inl x)
    with B grows_cong [of s s4 "[]" s s'] w s' show ?thesis by (auto simp: same_guard_def)
  next
    case (Inr req)
    with B have g: "grows s s' [own L (approval_request_event i)]"
      and "r_seq req = head_of (recs (w_log (lv_w s))) + 1"
      using grows_cong [of s s4 "[own L (approval_request_event i)]" s s'] w by auto
    moreover from m b Inr s' have "e = ApprovalParkedError \<lparr>ref_executionID = le_executionID L, ref_toolCallID = i,
               ref_requestSeq = r_seq req\<rparr>" by (auto simp: Let_def)
    ultimately show ?thesis using B s' w by (simp add: same_guard_def)
  qed
qed

lemma grows_head:
  assumes "invar (w_log (lv_w s))" and "grows s s' es"
  shows "head_of (recs (w_log (lv_w s'))) = head_of (recs (w_log (lv_w s))) + int (length es)"
  using assms(2) recs_seqs [OF assms(1)] recs_seqs [OF grows_invar [OF assms(2)]]
  by (auto simp: grows_def journaled_def seqs_ok_head)

lemma live_parkTool_grows:
  assumes inv: "invar (w_log (lv_w s))" and c: "le_c L = c" and g: "tc_mediation call = MediationRequiresApproval"
    and m: "live_parkTool L call s = (res, s')"
  shows "\<exists>e. res = Inl e \<and> lv_closed s' = lv_closed s \<and> (same_guard s s' \<and> grows s s' [] \<or>
     gate_intent L (lv_calls s) call \<and> lv_stop s' = Some e \<and> lv_calls s' = (lv_calls s)(tc_id call \<mapsto> True) \<and>
       (grows s s' [own L (tool_call_event call)] \<or>
        grows s s' [own L (tool_call_event call), own L (approval_request_event (tc_id call))] \<and>
        e = ApprovalParkedError \<lparr>ref_executionID = le_executionID L, ref_toolCallID = tc_id call,
              ref_requestSeq = head_of (recs (w_log (lv_w s))) + 2\<rparr>))"
proof -
  obtain d s1 where d: "live_approvalDescriptor L s = (d, s1)" by fastforce
  note D = live_approvalDescriptor_grows [OF inv d]
  obtain r2 s2 where a: "live_append L (tool_call_event call) s1 = (r2, s2)" by fastforce
  note A = live_append_grows [OF grows_invar [OF conjunct2 [OF D]] c a]
  consider (pre) e where "res = Inl e" "s' = s1" | (append) e where "res = Inl e" "s' = s2" "r2 = Inl e"
    | (intent) "gate_intent L (lv_calls s) call" "\<exists>r. r2 = Inr r"
    using m d a c g D by (auto simp: live_parkTool_def gate_intent_def same_guard_def
        split: if_splits option.splits sum.splits)
  then show ?thesis
  proof cases
    case intent
    let ?s3 = "s2\<lparr>lv_calls := (lv_calls s2)(tc_id call \<mapsto> True)\<rparr>"
    have g3: "grows s ?s3 [own L (tool_call_event call)]" and sg: "same_guard s s2"
      using A intent D grows_trans [OF conjunct2 [OF D], of s2] grows_cong [of s s2 _ s ?s3]
      by (auto simp: same_guard_def)
    show ?thesis
    proof (cases "s' = s1 \<and> (\<exists>e. res = Inl e)")
      case True
      with D show ?thesis by (auto simp: same_guard_def)
    next
      case False
      then have m': "(case live_append L (approval_request_event (tc_id call)) ?s3 of
           (Inl e, s4) \<Rightarrow> (Inl e, s4\<lparr>lv_stop := Some e\<rparr>)
         | (Inr req, s4) \<Rightarrow>
             let park = ApprovalParkedError \<lparr>ref_executionID = le_executionID L,
                   ref_toolCallID = tc_id call, ref_requestSeq = r_seq req\<rparr>
             in (Inl park, s4\<lparr>lv_stop := Some park\<rparr>)) = (res, s')"
        using m d a intent c by (auto simp: live_parkTool_def split: if_splits option.splits)
      from live_request_grows [OF grows_invar [OF g3] c m'] intent sg grows_trans [OF g3, of s']
        grows_head [OF inv g3]
      show ?thesis by (auto simp: same_guard_def)
    qed
  qed (use D A grows_trans [OF conjunct2 [OF D], of s2] in \<open>auto simp: same_guard_def\<close>)
qed


lemma live_toolCall_grows:
  assumes inv: "invar (w_log (lv_w s))" and c: "le_c L = c" and g: "tc_mediation call \<noteq> MediationRequiresApproval"
    and m: "live_toolCall L call s = (res, s')"
  shows "lv_stop s' = lv_stop s \<and> lv_closed s' = lv_closed s \<and>
    ((\<exists>e. res = Inl e \<and> lv_calls s' = lv_calls s \<and> grows s s' []) \<or>
     \<not> call_gated (lv_calls s) (tc_id call) \<and> tc_mediation call = MediationControllerMediated \<and>
     tc_idempotencyKey call \<noteq> [] \<and> lv_calls s' = (lv_calls s)(tc_id call \<mapsto> False) \<and>
     ((\<exists>e. res = Inl e \<and> grows s s' [own L (tool_call_event call)]) \<or>
      (\<exists>r. res = Inr r \<and> tr_id r = tc_id call \<and> approvalReportError r = None \<and>
         grows s s' [own L (tool_call_event call), own L (tool_result_event r)])))"
proof -
  have refl: "grows s s []" using inv by (intro grows_refl) auto
  obtain r2 s2 where a: "live_append L (tool_call_event call) s = (r2, s2)" by fastforce
  note A = live_append_grows [OF inv c a]
  have med: "toolMediationError (tc_mediation call) = None \<longleftrightarrow> tc_mediation call = MediationControllerMediated"
    by (cases "tc_mediation call") auto
  consider (pre) e where "res = Inl e" "s' = s" | (append) e where "res = Inl e" "s' = s2" "r2 = Inl e"
    | (intent) r where "\<not> call_gated (lv_calls s) (tc_id call)" "tc_mediation call = MediationControllerMediated"
        "tc_idempotencyKey call \<noteq> []" "r2 = Inr r"
        "live_execTool L call (s2\<lparr>lv_calls := (lv_calls s2)(tc_id call \<mapsto> False)\<rparr>) = (res, s')"
    using m a g med by (auto simp: live_toolCall_def split: if_splits option.splits sum.splits)
  then show ?thesis
  proof cases
    case intent
    let ?s3 = "s2\<lparr>lv_calls := (lv_calls s2)(tc_id call \<mapsto> False)\<rparr>"
    have g3: "grows s ?s3 [own L (tool_call_event call)]" and sg: "same_guard s s2"
      using A intent grows_cong [of s s2 _ s ?s3] by auto
    from live_execTool_grows [OF grows_invar [OF g3] c intent(5)] intent sg grows_trans [OF g3, of s']
    show ?thesis by (auto simp: same_guard_def)
  qed (use refl A in \<open>auto simp: same_guard_def\<close>)
qed

lemma live_report_grows:
  assumes inv: "invar (w_log (lv_w s))" and c: "le_c L = c" and m: "live_report L tr s = (res, s')"
  shows "lv_closed s' = lv_closed s \<and> lv_calls s' = lv_calls s \<and>
     (call_gated (lv_calls s) (tr_id tr) \<and> lv_stop s' = Some ErrApprovalReceiptReport \<and> grows s s' [] \<or>
      lv_stop s' = lv_stop s \<and> ((\<exists>e. res = Some e \<and> grows s s' []) \<or>
      res = None \<and> \<not> call_gated (lv_calls s) (tr_id tr) \<and> approvalReportError tr = None \<and> grows s s' [own L (tool_result_event tr)]))"
proof -
  have refl: "grows s s1 []" if "lv_w s1 = lv_w s" for s1 using inv that by (intro grows_refl) auto
  show ?thesis
  proof (cases "call_gated (lv_calls s) (tr_id tr) \<or> approvalReportError tr \<noteq> None")
    case True
    with m refl show ?thesis by (auto simp: live_report_def split: if_splits)
  next
    case False
    with m have "(case live_append L (tool_result_event tr) s of (Inl e, s'') \<Rightarrow> (Some e, s'')
        | (Inr _, s'') \<Rightarrow> (None, s'')) = (res, s')" by (simp add: live_report_def)
    from live_single_grows [OF inv c this] False show ?thesis by (auto simp: same_guard_def)
  qed
qed

end

section \<open>The shape of a live turn\<close>

text \<open>
  A plain effect: a MODEL\_CALL, OUTPUT, USAGE, ungated TOOL\_CALL or unbound TOOL\_RESULT.
\<close>

definition plain_effect :: "string \<Rightarrow> event \<Rightarrow> bool" where
  "plain_effect x e \<longleftrightarrow> ev_executionID e = x \<and>
     ev_kind e \<in> {EventModelCall, EventOutput, EventToolCall, EventToolResult, EventUsage} \<and>
     (ev_kind e = EventToolCall \<longrightarrow> (\<exists>t. ev_toolCall e = Some t \<and> tc_mediation t = MediationControllerMediated
        \<and> tc_idempotencyKey t \<noteq> [])) \<and>
     (ev_kind e = EventToolResult \<longrightarrow> (\<exists>r. ev_result e = Some r \<and> approvalReportError r = None))"

definition add_call :: "event \<Rightarrow> (string \<rightharpoonup> bool) \<Rightarrow> (string \<rightharpoonup> bool)" where
  "add_call e m = (if ev_kind e = EventToolCall then
     (case ev_toolCall e of None \<Rightarrow> m | Some t \<Rightarrow> m(tc_id t \<mapsto> (tc_mediation t = MediationRequiresApproval))) else m)"

definition calls_of :: "event list \<Rightarrow> (string \<rightharpoonup> bool)" where
  "calls_of es = fold add_call es Map.empty"

lemma calls_of_append: "calls_of (xs @ ys) = fold add_call ys (calls_of xs)"
  by (simp add: calls_of_def)

lemma calls_of_plain: "list_all (plain_effect x) es \<Longrightarrow> \<not> call_gated (calls_of es) k"
proof (induction es rule: rev_induct)
  case Nil
  show ?case by (simp add: calls_of_def call_gated_def)
next
  case (snoc e es)
  then show ?case
    by (auto simp: calls_of_append call_gated_def add_call_def plain_effect_def split: option.splits)
qed

text \<open>
  The end of a turn that parked: a gated intent with a fresh, nonempty ID and a key, and then its
  request (or nothing, when the request could not be appended).
\<close>

definition sealing :: "string \<Rightarrow> event list \<Rightarrow> event list \<Rightarrow> bool" where
  "sealing x pre tail \<longleftrightarrow> (\<exists>call. tc_mediation call = MediationRequiresApproval \<and> tc_id call \<noteq> [] \<and>
     tc_idempotencyKey call \<noteq> [] \<and> calls_of pre (tc_id call) = None \<and>
     (tail = [(tool_call_event call)\<lparr>ev_executionID := x\<rparr>] \<or>
      tail = [(tool_call_event call)\<lparr>ev_executionID := x\<rparr>,
              (approval_request_event (tc_id call))\<lparr>ev_executionID := x\<rparr>]))"

definition turn_effects :: "string \<Rightarrow> bool \<Rightarrow> event list \<Rightarrow> bool" where
  "turn_effects x stopped es \<longleftrightarrow>
     (if stopped then \<exists>pre tail. es = pre @ tail \<and> list_all (plain_effect x) pre \<and> sealing x pre tail
      else list_all (plain_effect x) es)"

lemma turn_effects_append:
  "turn_effects x False es \<Longrightarrow> list_all (plain_effect x) es' \<Longrightarrow> turn_effects x False (es @ es')"
  by (simp add: turn_effects_def)

lemmas effect_events = model_call_event_def output_event_def tool_call_event_def tool_result_event_def
  usage_event_def approval_request_event_def zero_event_def

context controller_store
begin

definition live_inv :: "'s live_env \<Rightarrow> 's live \<Rightarrow> 's live \<Rightarrow> bool" where
  "live_inv L s0 t \<longleftrightarrow> (\<exists>es. grows s0 t es \<and> turn_effects (live_id L) (lv_stop t \<noteq> None) es
     \<and> lv_calls t = calls_of es) \<and> \<not> lv_closed t"

lemma live_inv_step:
  assumes "live_inv L s0 s" and "lv_stop s = None" and "grows s s' es" and "list_all (plain_effect (live_id L)) es"
    and "lv_stop s' = None" and "lv_closed s' = lv_closed s" and "lv_calls s' = fold add_call es (lv_calls s)"
  shows "live_inv L s0 s'"
proof -
  from assms(1,2) obtain es0 where es0: "grows s0 s es0" "turn_effects (live_id L) False es0"
    "lv_calls s = calls_of es0" "\<not> lv_closed s" by (auto simp: live_inv_def)
  with grows_trans [OF es0(1) assms(3)] turn_effects_append [OF es0(2) assms(4)] assms(5-7)
  show ?thesis unfolding live_inv_def by (auto simp: calls_of_append intro!: exI [of _ "es0 @ es"])
qed

lemma live_inv_enter:
  assumes i: "live_inv L s0 s"
    and body: "\<And>s1. live_inv L s0 s1 \<Longrightarrow> lv_stop s1 = None \<Longrightarrow> live_inv L s0 (snd (body s1))"
  shows "live_inv L s0 (snd (live_enter L fail body s))"
proof (cases "lv_stop s")
  case None
  then have "live_inv L s0 (set_w (tick (lv_w s)) s)"
    using i by (auto simp: live_inv_def grows_def journaled_def)
  with None i body show ?thesis
    by (auto simp: live_enter_def guard_err_def live_inv_def Let_def split: option.splits)
next
  case (Some e)
  with i show ?thesis by (simp add: live_enter_def guard_err_def)
qed


lemma live_inv_invar: "live_inv L s0 s \<Longrightarrow> invar (w_log (lv_w s))"
  by (auto simp: live_inv_def grows_invar)

lemma plain_own [simp]:
  "plain_effect (live_id L) (own L (model_call_event c' req i))"
  "plain_effect (live_id L) (own L (output_event m))"
  "plain_effect (live_id L) (own L (usage_event u))"
  "plain_effect (live_id L) (own L (tool_result_event r)) \<longleftrightarrow> approvalReportError r = None"
  "plain_effect (live_id L) (own L (tool_call_event t)) \<longleftrightarrow>
     tc_mediation t = MediationControllerMediated \<and> tc_idempotencyKey t \<noteq> []"
  by (auto simp: plain_effect_def own_def effect_events)

lemma add_call_own [simp]:
  "add_call (own L (model_call_event c' req i)) m = m"
  "add_call (own L (output_event msg)) m = m"
  "add_call (own L (usage_event u)) m = m"
  "add_call (own L (tool_result_event r)) m = m"
  "add_call (own L (approval_request_event k)) m = m"
  "add_call (own L (tool_call_event t)) m = m(tc_id t \<mapsto> (tc_mediation t = MediationRequiresApproval))"
  by (auto simp: add_call_def own_def effect_events)

lemma live_inv_model:
  assumes "le_c L = c" and i: "live_inv L s0 s" and st: "lv_stop s = None"
  shows "live_inv L s0 (snd (live_model L req s))"
proof -
  obtain res s' where m: "live_model L req s = (res, s')" by fastforce
  note M = live_model_grows [OF live_inv_invar [OF i] assms(1) m]
  then obtain es where "grows s s' es" "list_all (plain_effect (live_id L)) es" "fold add_call es (lv_calls s) = lv_calls s"
    by fastforce
  with live_inv_step [OF i st this(1,2)] M st m show ?thesis by (simp add: same_guard_def)
qed

lemma live_inv_single:
  assumes "le_c L = c" and i: "live_inv L s0 s" and st: "lv_stop s = None" and "plain_effect (live_id L) (own L ev)"
    and "\<And>k. add_call (own L ev) k = k"
    and m: "m = (case live_append L ev s of (Inl e, s'') \<Rightarrow> (Some e, s'') | (Inr _, s'') \<Rightarrow> (None, s''))"
  shows "live_inv L s0 (snd m)"
proof -
  obtain res s' where r: "m = (res, s')" by fastforce
  note M = live_single_grows [OF live_inv_invar [OF i] assms(1) trans [OF m [symmetric] r]]
  then obtain es where "grows s s' es" "list_all (plain_effect (live_id L)) es" "fold add_call es (lv_calls s) = lv_calls s"
    using assms(4,5) by (cases "grows s s' []") auto
  with live_inv_step [OF i st this(1,2)] M st r show ?thesis by (simp add: same_guard_def)
qed

lemma live_inv_toolCall:
  assumes c: "le_c L = c" and i: "live_inv L s0 s" and st: "lv_stop s = None"
  shows "live_inv L s0 (snd (live_toolCall L tc s))"
proof -
  obtain res s' where m: "live_toolCall L tc s = (res, s')" by fastforce
  from i st obtain es0 where es0: "grows s0 s es0" "turn_effects (live_id L) False es0"
    "lv_calls s = calls_of es0" "\<not> lv_closed s" by (auto simp: live_inv_def)
  show ?thesis
  proof (cases "tc_mediation tc = MediationRequiresApproval")
    case True
    with m have p: "live_parkTool L tc s = (res, s')" by (simp add: live_toolCall_def)
    note P = live_parkTool_grows [OF live_inv_invar [OF i] c True p]
    show ?thesis
    proof (cases "same_guard s s' \<and> grows s s' []")
      case True
      with live_inv_step [OF i st, of s' "[]"] st m show ?thesis by (simp add: same_guard_def)
    next
      case False
      with P obtain tail where t: "grows s s' tail" "tail = [own L (tool_call_event tc)] \<or>
          tail = [own L (tool_call_event tc), own L (approval_request_event (tc_id tc))]"
        and gi: "gate_intent L (lv_calls s) tc" and s': "lv_stop s' \<noteq> None" "\<not> lv_closed s'"
          "lv_calls s' = (lv_calls s)(tc_id tc \<mapsto> True)"
        using es0(4) by auto
      have "sealing (live_id L) es0 tail"
        using t(2) gi es0(3) by (auto simp: sealing_def gate_intent_def own_def)
      moreover have "lv_calls s' = calls_of (es0 @ tail)"
        using t(2) s'(3) es0(3) True by (auto simp: calls_of_append)
      moreover have "turn_effects (live_id L) True (es0 @ tail)"
        using calculation(1) es0(2) by (auto simp: turn_effects_def)
      ultimately show ?thesis
        using grows_trans [OF es0(1) t(1)] s' m by (auto simp: live_inv_def)
    qed
  next
    case False
    note P = live_toolCall_grows [OF live_inv_invar [OF i] c False m]
    then obtain es where "grows s s' es" "list_all (plain_effect (live_id L)) es" "lv_calls s' = fold add_call es (lv_calls s)"
      by fastforce
    with live_inv_step [OF i st this(1,2)] P st m show ?thesis by simp
  qed
qed

lemma live_inv_report:
  assumes c: "le_c L = c" and i: "live_inv L s0 s" and st: "lv_stop s = None"
  shows "live_inv L s0 (snd (live_report L tr s))"
proof -
  obtain res s' where m: "live_report L tr s = (res, s')" by fastforce
  from i st obtain es0 where "turn_effects (live_id L) False es0" "lv_calls s = calls_of es0" by (auto simp: live_inv_def)
  then have ng: "\<not> call_gated (lv_calls s) (tr_id tr)" by (simp add: turn_effects_def calls_of_plain)
  note P = live_report_grows [OF live_inv_invar [OF i] c m]
  with ng obtain es where "grows s s' es" "list_all (plain_effect (live_id L)) es" "fold add_call es (lv_calls s) = lv_calls s"
    by (cases "grows s s' []") auto
  with live_inv_step [OF i st this(1,2)] P ng st m show ?thesis by simp
qed

end

sublocale controller_store \<subseteq> live: sink_invariant "liveSink (live_env_of c x har)" "live_inv (live_env_of c x har) s0"
  for x har s0
proof (unfold_locales, goal_cases)
  case (1 s req)
  then show ?case
    by (simp add: liveSink_def live_Model_def live_inv_enter live_inv_model live_env_of_def)
next
  case (2 s d)
  then show ?case
    by (simp add: liveSink_def live_Output_def)
       (rule live_inv_enter, assumption, rule live_inv_single, simp_all add: live_env_of_def live_output_def)
next
  case (3 s tc)
  then show ?case
    by (simp add: liveSink_def live_ToolCall_def live_inv_enter live_inv_toolCall live_env_of_def)
next
  case (4 s tr)
  then show ?case
    by (simp add: liveSink_def live_Report_def live_inv_enter live_inv_report live_env_of_def)
next
  case (5 s u)
  then show ?case
    by (simp add: liveSink_def live_Usage_def)
       (rule live_inv_enter, assumption, rule live_inv_single, simp_all add: live_env_of_def live_usage_def)
qed

section \<open>The shape of a whole turn\<close>

definition marks_start :: "string \<Rightarrow> nat \<Rightarrow> event \<Rightarrow> bool" where
  "marks_start x n e \<longleftrightarrow> ev_executionID e = x \<and> ev_kind e = EventExecutionStart \<and>
     (\<exists>s. ev_executionStart e = Some s \<and> es_inputCount s = Some (int n))"

definition terminal :: "string \<Rightarrow> event list \<Rightarrow> bool" where
  "terminal x es \<longleftrightarrow> es = [] \<or> es = [end_event\<lparr>ev_executionID := x\<rparr>] \<or>
     (\<exists>e. es = [(error_event e)\<lparr>ev_executionID := x\<rparr>])"

text \<open>
  What one \<^verbatim>\<open>Exec\<close> may leave in the journal: nothing; a start marker and some of the inputs; or the
  marker, all inputs, and effects, which either end in an approval intent (and then nothing follows)
  or are plain and may be followed by one END or ERROR.
\<close>

definition turn_shape :: "string \<Rightarrow> message list \<Rightarrow> event list \<Rightarrow> bool" where
  "turn_shape x inputs es \<longleftrightarrow> es = [] \<or>
     (\<exists>st rest. marks_start x (length inputs) st \<and> es = st # rest \<and>
        ((\<exists>k. rest = map (input_event x) (take k inputs)) \<or>
         (\<exists>eff. rest = map (input_event x) inputs @ eff \<and> turn_effects x True eff) \<or>
         (\<exists>eff fin. rest = map (input_event x) inputs @ eff @ fin \<and> turn_effects x False eff \<and> terminal x fin)))"

context controller_store
begin

lemma append_inputs_journaled:
  assumes "invar (w_log w)" and "append_inputs c x ls ms w = (res, w')"
  shows "\<exists>new k. journaled w w' new \<and> map r_event new = map (input_event x) (take k ms)
     \<and> (res = None \<longrightarrow> k = length ms)"
  using assms
proof (induction ms arbitrary: ls w)
  case Nil
  then show ?case by (auto intro!: exI [of _ "[]"] journaled_refl)
next
  case (Cons m ms)
  obtain r w1 where a: "commit c ls (input_event x m) w = (r, w1)" by fastforce
  note A = commit_journaled [OF Cons.prems(1) a]
  show ?case
  proof (cases r)
    case (Inl e)
    with A Cons.prems(2) a show ?thesis by (auto intro!: exI [of _ "[]"] exI [of _ 0])
  next
    case (Inr rr)
    with A have j: "journaled w w1 [rr]" and e: "r_event rr = input_event x m" by auto
    from Cons.prems(2) a Inr have "append_inputs c x (r_seq rr) ms w1 = (res, w')" by simp
    from Cons.IH [OF journaled_invar [OF j] this] obtain new k where
      "journaled w1 w' new" "map r_event new = map (input_event x) (take k ms)" "res = None \<longrightarrow> k = length ms" by blast
    with journaled_trans [OF j this(1)] e show ?thesis
      by (intro exI [of _ "rr # new"] exI [of _ "Suc k"]) auto
  qed
qed

lemma finish_exec_journaled:
  assumes inv: "invar (w_log (lv_w s))" and f: "finish_exec c x runErr s = (res, w')"
  shows "\<exists>fin. journaled (lv_w s) w' fin \<and> terminal x (map r_event fin) \<and> (lv_stop s \<noteq> None \<longrightarrow> fin = [])
    \<and> (res = None \<longrightarrow> lv_stop s = None \<and> map r_event fin = [end_event\<lparr>ev_executionID := x\<rparr>])"
proof (cases "lv_stop s")
  case (Some e)
  have "stop_error e runErr \<noteq> None" by (simp add: stop_error_def)
  moreover have "w' = lv_w s" "res = stop_error e runErr" using Some f by (simp_all add: finish_exec_def)
  ultimately show ?thesis
    using Some inv by (intro exI [of _ "[]"]) (auto simp: terminal_def intro: journaled_refl)
next
  case None
  let ?ev = "case runErr of Some e \<Rightarrow> error_event e | None \<Rightarrow> end_event"
  obtain r w1 where a: "appendSeq c x ?ev (lv_w s) = (r, w1)" by fastforce
  have w': "w' = w1" and res: "res = None \<longleftrightarrow> runErr = None \<and> (\<exists>rr. r = Inr rr)"
    using None f a by (auto simp: finish_exec_def split: option.splits sum.splits)
  from appendSeq_journaled [OF inv a] show ?thesis
  proof (elim disjE exE conjE)
    fix e assume "r = Inl e" "journaled (lv_w s) w1 []"
    with w' res None show ?thesis by (intro exI [of _ "[]"]) (auto simp: terminal_def)
  next
    fix rr assume "r = Inr rr" "journaled (lv_w s) w1 [rr]" "r_event rr = ?ev\<lparr>ev_executionID := x\<rparr>"
    with w' res None show ?thesis by (intro exI [of _ "[rr]"]) (auto simp: terminal_def split: option.splits)
  qed
qed

lemma live_inv_init: "invar (w_log w) \<Longrightarrow> live_inv L (live_init d w) (live_init d w)"
  by (auto simp: live_inv_def live_init_def turn_effects_def calls_of_def intro!: exI [of _ "[]"] grows_refl)

lemma exec_run_journaled:
  assumes inv: "invar (w_log w)"
    and d: "drive (liveSink (live_env_of c x har)) p (live_init d w) = (runErr, s)"
    and f: "finish_exec c x runErr s = (res, w')"
  shows "\<exists>new eff fin. journaled w w' new \<and> map r_event new = eff @ fin \<and>
     (turn_effects x True eff \<and> fin = [] \<or> turn_effects x False eff \<and> terminal x fin) \<and>
     (res = None \<longrightarrow> turn_effects x False eff \<and> fin = [end_event\<lparr>ev_executionID := x\<rparr>])"
proof -
  have "live_inv (live_env_of c x har) (live_init d w) s"
    using live.inv_drive [OF live_inv_init [OF inv], of x har d p] d by simp
  then obtain eff where g: "grows (live_init d w) s eff" and t: "turn_effects x (lv_stop s \<noteq> None) eff"
    by (auto simp: live_inv_def live_env_of_def live_id_def)
  then obtain new1 where n1: "journaled w (lv_w s) new1" "map r_event new1 = eff"
    by (auto simp: grows_def live_init_def)
  from finish_exec_journaled [OF journaled_invar [OF n1(1)] f] obtain fin where
    n2: "journaled (lv_w s) w' fin" "terminal x (map r_event fin)" "lv_stop s \<noteq> None \<longrightarrow> fin = []"
    "res = None \<longrightarrow> lv_stop s = None \<and> map r_event fin = [end_event\<lparr>ev_executionID := x\<rparr>]" by metis
  show ?thesis
    using journaled_trans [OF n1(1) n2(1)] n1(2) n2(2-4) t
    by (intro exI [of _ "new1 @ fin"] exI [of _ eff] exI [of _ "map r_event fin"]) (cases "lv_stop s", auto)
qed

lemma exec_admit_journaled:
  assumes inv: "invar (w_log w)" and a: "commit c ex st w = (Inr r, w1)"
    and b: "append_inputs c x (r_seq r) inputs w1 = (res, w')"
  shows "\<exists>new k. journaled w w' new \<and> map r_event new = st # map (input_event x) (take k inputs)
     \<and> (res = None \<longrightarrow> k = length inputs)"
proof -
  from commit_journaled [OF inv a] have j: "journaled w w1 [r]" "r_event r = st" by auto
  from append_inputs_journaled [OF journaled_invar [OF j(1)] b] obtain ins k where
    "journaled w1 w' ins" "map r_event ins = map (input_event x) (take k inputs)" "res = None \<longrightarrow> k = length inputs" by blast
  with journaled_trans [OF j(1) this(1)] j(2) show ?thesis
    by (intro exI [of _ "r # ins"] exI [of _ k]) auto
qed

lemma exec_turn_journaled:
  assumes inv: "invar (w_log w)" and e: "exec_turn c har x history inputs ex w = (res, w')"
  shows "\<exists>new. journaled w w' new \<and> turn_shape x inputs (map r_event new) \<and>
     (res = None \<longrightarrow> (\<exists>st eff. marks_start x (length inputs) st \<and> turn_effects x False eff \<and>
        map r_event new = st # map (input_event x) inputs @ eff @ [end_event\<lparr>ev_executionID := x\<rparr>]))"
proof -
  obtain d w1 where d: "describeHarness har w = (d, w1)" by fastforce
  then have j1: "journaled w w1 []"
    using inv by (auto simp: describeHarness_def split: sum.splits intro!: journaled_refl)
  have nil: ?thesis if "res \<noteq> None" "journaled w w' []"
    using that by (intro exI [of _ "[]"]) (auto simp: turn_shape_def)
  show ?thesis
  proof (cases "\<exists>desc r w2. d = Inr desc \<and> commit c ex (start_event c x (length inputs) desc) w1 = (Inr r, w2)")
    case False
    with e d j1 commit_journaled [OF journaled_invar [OF j1]] journaled_trans [OF j1] show ?thesis
      by (intro nil) (fastforce simp: exec_turn_def split: sum.splits prod.splits)+
  next
    case True
    then obtain desc r w2 where desc: "d = Inr desc"
      and a: "commit c ex (start_event c x (length inputs) desc) w1 = (Inr r, w2)" by blast
    let ?st = "start_event c x (length inputs) desc"
    have st: "marks_start x (length inputs) ?st" by (simp add: marks_start_def start_event_def)
    obtain r3 w3 where b: "append_inputs c x (r_seq r) inputs w2 = (r3, w3)" by fastforce
    from exec_admit_journaled [OF journaled_invar [OF j1] a b] obtain pre k where
      pre: "journaled w1 w3 pre" "map r_event pre = ?st # map (input_event x) (take k inputs)" "r3 = None \<longrightarrow> k = length inputs" by metis
    note j3 = journaled_trans [OF j1 pre(1), simplified]
    show ?thesis
    proof (cases r3)
      case (Some err)
      with e d desc a b have "w' = w3" "res = Some err" by (auto simp: exec_turn_def)
      with j3 pre st show ?thesis by (intro exI [of _ pre]) (auto simp: turn_shape_def)
    next
      case None
      obtain runErr s where dr: "drive (liveSink (live_env_of c x har)) (har_run har (exec_start c x history inputs))
          (live_init (Some desc) w3) = (runErr, s)" by fastforce
      with e d desc a b None have f: "finish_exec c x runErr s = (res, w')" by (auto simp: exec_turn_def)
      from exec_run_journaled [OF journaled_invar [OF j3] dr f] obtain new eff fin where
        n: "journaled w3 w' new" "map r_event new = eff @ fin"
        "turn_effects x True eff \<and> fin = [] \<or> turn_effects x False eff \<and> terminal x fin"
        "res = None \<longrightarrow> turn_effects x False eff \<and> fin = [end_event\<lparr>ev_executionID := x\<rparr>]" by blast
      have all: "map r_event (pre @ new) = ?st # map (input_event x) inputs @ eff @ fin"
        using pre n(2) None by simp
      with journaled_trans [OF j3 n(1)] n(3,4) st show ?thesis
        by (intro exI [of _ "pre @ new"]) (auto simp: turn_shape_def)
    qed
  qed
qed

lemma Exec_journaled:
  assumes inv: "invar (w_log w)" and e: "Exec c har inputs ex w = (res, w')"
  shows "\<exists>new. journaled w w' new \<and> turn_shape (c_newID c (w_tick w)) inputs (map r_event new) \<and>
     (res = None \<longrightarrow> (\<exists>st eff. marks_start (c_newID c (w_tick w)) (length inputs) st \<and>
        turn_effects (c_newID c (w_tick w)) False eff \<and> map r_event new =
          st # map (input_event (c_newID c (w_tick w))) inputs @ eff @ [end_event\<lparr>ev_executionID := c_newID c (w_tick w)\<rparr>]))"
proof -
  have j: "journaled w (tick w) []" using inv by (intro journaled_refl) auto
  have nil: ?thesis if "res \<noteq> None" "w' = tick w"
    using that j by (intro exI [of _ "[]"]) (auto simp: turn_shape_def)
  consider (err) "res \<noteq> None" "w' = tick w"
    | (turn) history where "exec_turn c har (c_newID c (w_tick w)) history inputs ex (tick w) = (res, w')"
  proof (cases "CheckWritable (c_ops c) (w_log w)")
    case None
    with e that show ?thesis by (auto simp: Exec_def newID_def Let_def split: sum.splits if_splits)
  next
    case (Some er)
    with e have "res = Some er" "w' = tick w" by (simp_all add: Exec_def newID_def)
    with that(1) show ?thesis by simp
  qed
  then show ?thesis
  proof cases
    case turn
    from exec_turn_journaled [OF journaled_invar [OF j] turn] show ?thesis
      using journaled_trans [OF j, of w'] by fastforce
  qed (rule nil)
qed

end

section \<open>A sample controller\<close>

text \<open>Concrete parameters for the witnesses, cheap to evaluate.\<close>

definition short_canon :: canon_env where
  "short_canon = plain_canon\<lparr>cn_sha256 := (\<lambda>b. ''A'')\<rparr>"

definition sample_descriptor :: descriptor where
  "sample_descriptor = \<lparr>desc_id = ''echo'', desc_version = ''1'', desc_models = [], desc_tools = [],
     desc_capabilities = \<lparr>cap_resumability = ResumabilityStatelessReplay, cap_forkSafe = True,
       cap_requiresGPU = False, cap_streaming = False, cap_reasoningReplay = False\<rparr>\<rparr>"

definition sample_usage :: usage where
  "sample_usage = empty_usage\<lparr>u_inputTokens := 7\<rparr>"

definition sample_call :: tool_call where
  "sample_call = \<lparr>tc_id = ''t1'', tc_tool = ''sh'', tc_args = None, tc_mediation = MediationControllerMediated,
     tc_idempotencyKey = ''k1''\<rparr>"

definition sample_controller :: "log controller" where
  "sample_controller = \<lparr>c_ops = AsStore short_canon,
     c_model = (\<lambda>t req. Inr \<lparr>mresp_message = TextMessage ''assistant'' ''hi'', mresp_usage = sample_usage\<rparr>),
     c_stream = None, c_onRecord = True, c_onDelta = False, c_startConfig = [], c_startResumeFromSeq = 0,
     c_tool = Some (\<lambda>t uid call. (ToolResult [] None [] [] False [] [] ToolResultCodeUnspecified 0 0 None, None)),
     c_fence = 1, c_sessionUID = ''s1'', c_harnessName = [], c_hashModelInput = mr_model,
     c_newID = (\<lambda>t. ''id'' @ format_nat t), c_ctxErr = (\<lambda>t. None), c_canon = short_canon,
     c_legacyPayload = (\<lambda>u s b. Inr b)\<rparr>"

definition sample_world :: "log world" where
  "sample_world = \<lparr>w_log = New, w_liveModelCalls = 0, w_liveToolCalls = 0, w_tick = 0, w_observed = [], w_external = []\<rparr>"

definition sample_request :: model_request where
  "sample_request = \<lparr>mr_model = ''m'', mr_messages = [], mr_params = [], mr_tools = [], mr_toolChoice = None\<rparr>"

text \<open>A harness that asks the model, reports its usage, calls a tool and speaks.\<close>

definition sample_harness :: harness where
  "sample_harness = \<lparr>har_describe = (\<lambda>t. Inr sample_descriptor),
     har_run = (\<lambda>st. CallModel sample_request (\<lambda>r. case r of
        Inl e \<Rightarrow> Return (Some e)
      | Inr resp \<Rightarrow> CallUsage (mresp_usage resp) (\<lambda>_. CallToolCall sample_call (\<lambda>t. case t of
           Inl e \<Rightarrow> Return (Some e)
         | Inr res \<Rightarrow> CallOutput ''done'' Return))))\<rparr>"

section \<open>The controller over the in-memory log\<close>

interpretation memctl: controller_store "c\<lparr>c_ops := AsStore cn\<rparr>" log_records log_fence "log_ok cn" "\<lambda>e. e"
  for c :: "log controller" and cn
proof -
  have "event_store (AsStore cn) log_records log_fence (log_ok cn) (\<lambda>e. e)" by (rule mem.event_store_axioms)
  then show "controller_store (c\<lparr>c_ops := AsStore cn\<rparr>) log_records log_fence (log_ok cn) (\<lambda>e. e)"
    by (simp add: controller_store_def)
qed

lemma mem_controller: "c_ops c = AsStore cn \<Longrightarrow> c\<lparr>c_ops := AsStore cn\<rparr> = c"
  by simp

lemma stored_mem [simp]: "memctl.stored = (\<lambda>r. r)"
  by (rule ext) (simp add: memctl.stored_def)




end
