(* ===== verification/Turns.thy ===== *)
theory Turns
  imports Recording
begin

text \<open>
  How a journal that ends in a new turn is read back: the legacy boundary, the grouping by execution
  and the approval scan of the earlier records do not change, and the turn adds one recorded
  execution (and, when it parked, one open gate).
\<close>

section \<open>The legacy boundary\<close>

lemma legacy_scan_start:
  assumes "legacy_scan L i h rest = Inr n" and "drop i L = rest" and "i \<le> length L" and "ev_kind st = EventExecutionStart"
  shows "legacy_scan (L @ st # T) i h (rest @ st # T) = Inr n"
  using assms(1-3)
proof (induction rest arbitrary: i h)
  case Nil
  then show ?case using assms(4) by auto
next
  case (Cons e rest)
  have lt: "i < length L" using Cons.prems(2) by (metis drop_all list.distinct(1) not_le)
  then have "drop (Suc i) L = rest" using Cons.prems(2) by (metis Cons_nth_drop_Suc list.inject)
  with Cons lt show ?case by (auto split: if_splits)
qed

lemma legacyPrefix_start:
  "legacyPrefix L = Inr n \<Longrightarrow> ev_kind st = EventExecutionStart \<Longrightarrow> legacyPrefix (L @ st # T) = Inr n"
  unfolding legacyPrefix_def by (rule legacy_scan_start) auto

lemma legacy_scan_le: "legacy_scan L i h rest = Inr n \<Longrightarrow> i + length rest \<le> length L \<Longrightarrow> n \<le> length L"
  by (induction rest arbitrary: i h) (auto split: if_splits)

lemma legacyPrefix_le: "legacyPrefix L = Inr n \<Longrightarrow> n \<le> length L"
  unfolding legacyPrefix_def by (rule legacy_scan_le) auto

section \<open>Grouping by execution\<close>

lemma group_events_append:
  "group_events i (A @ B) xs byID =
     (case group_events i A xs byID of
        Inl e \<Rightarrow> Inl e
      | Inr (xs', byID') \<Rightarrow> group_events (i + length A) B xs' byID')"
proof (induction A arbitrary: i xs byID)
  case Nil
  show ?case by simp
next
  case (Cons e A)
  show ?case
    by (cases "byID (ev_executionID e)"; cases "record_event i e (empty_execution\<lparr>rx_id := ev_executionID e, rx_start := int i\<rparr>)")
       (simp_all add: Cons.IH fun_upd_def split: sum.split)
qed

definition fresh_id :: "string \<Rightarrow> event list \<Rightarrow> bool" where
  "fresh_id x es \<longleftrightarrow> (\<forall>e \<in> set es. ev_kind e \<noteq> EventLifecycle \<longrightarrow> ev_executionID e \<noteq> x)"

lemma fresh_id_append [simp]: "fresh_id x (A @ B) \<longleftrightarrow> fresh_id x A \<and> fresh_id x B"
  by (auto simp: fresh_id_def)

lemma group_events_fresh:
  "group_events i es xs byID = Inr (xs', byID') \<Longrightarrow> fresh_id x es \<Longrightarrow> byID' x = byID x"
  by (induction i es xs byID rule: group_events.induct)
     (auto simp: fresh_id_def split: if_splits option.splits sum.splits)

definition absorb :: "event \<Rightarrow> recorded_execution \<Rightarrow> recorded_execution" where
  "absorb e x = (case record_event 0 e x of Inr y \<Rightarrow> y | Inl _ \<Rightarrow> x)"

lemma record_event_absorb: "ev_kind e \<noteq> EventExecutionStart \<Longrightarrow> record_event i e x = Inr (absorb e x)"
  by (simp add: record_event_def absorb_def)

lemma group_events_known:
  assumes "\<forall>e \<in> set es. ev_executionID e = x \<and> ev_kind e \<noteq> EventLifecycle \<and> ev_kind e \<noteq> EventExecutionStart"
    and "byID x = Some k" and "k < length xs" and "x \<noteq> []"
  shows "group_events i es xs byID = Inr (xs[k := fold absorb es (xs ! k)], byID)"
  using assms
proof (induction es arbitrary: i xs)
  case Nil
  then show ?case by simp
next
  case (Cons e es)
  then show ?case by (simp add: record_event_absorb)
qed

definition started :: "string \<Rightarrow> nat \<Rightarrow> execution_start \<Rightarrow> recorded_execution" where
  "started x i s = empty_execution\<lparr>rx_id := x, rx_start := int i, rx_config := es_config s,
     rx_resumeFromSeq := es_resumeFromSeq s, rx_hasStart := True, rx_inputCount := es_inputCount s,
     rx_harness := es_harness s, rx_harnessVersion := es_harnessVersion s\<rparr>"

lemma group_events_turn:
  assumes "ev_kind st = EventExecutionStart" and "ev_executionStart st = Some s" and "ev_executionID st = x"
    and "\<forall>e \<in> set es. ev_executionID e = x \<and> ev_kind e \<noteq> EventLifecycle \<and> ev_kind e \<noteq> EventExecutionStart"
    and "byID x = None" and "x \<noteq> []"
  shows "group_events i (st # es) xs byID = Inr (xs @ [fold absorb es (started x i s)], byID(x \<mapsto> length xs))"
proof -
  have "group_events i (st # es) xs byID
      = group_events (Suc i) es (xs @ [started x i s]) (byID(x \<mapsto> length xs))"
    using assms by (simp add: record_event_def started_def)
  also have "\<dots> = Inr ((xs @ [started x i s])[length xs := fold absorb es ((xs @ [started x i s]) ! length xs)],
      byID(x \<mapsto> length xs))"
    using assms by (intro group_events_known) auto
  finally show ?thesis by simp
qed

lemma absorb_inputs:
  "fold absorb (map (input_event x) ms) r =
     r\<lparr>rx_inputs := rx_inputs r @ ms, rx_inputRecords := rx_inputRecords r + length ms\<rparr>"
  by (induction ms arbitrary: r) (auto simp: absorb_def record_event_def input_event_def)

lemma absorb_stream:
  "\<forall>e \<in> set es. stream_kind (ev_kind e) \<Longrightarrow> fold absorb es r = r\<lparr>rx_stream := rx_stream r @ es\<rparr>"
  by (induction es arbitrary: r) (auto simp: absorb_def record_event_def stream_kind_def)

lemma plain_stream_kind: "plain_effect x e \<Longrightarrow> stream_kind (ev_kind e)"
  by (auto simp: plain_effect_def stream_kind_def)

lemma turn_effects_stream_kind:
  "turn_effects x b eff \<Longrightarrow> e \<in> set eff \<Longrightarrow> stream_kind (ev_kind e) \<and> ev_executionID e = x"
  by (auto simp: turn_effects_def list_all_iff sealing_def stream_kind_def effect_events plain_effect_def
      split: if_splits)

lemma stream_kind_proper: "stream_kind k \<Longrightarrow> k \<noteq> EventLifecycle \<and> k \<noteq> EventExecutionStart"
  by (auto simp: stream_kind_def)

lemma first_invalid_append: "first_invalid (xs @ ys) = (case first_invalid xs of None \<Rightarrow> first_invalid ys | Some e \<Rightarrow> Some e)"
  by (induction xs) (auto split: option.splits)

lemma last_end_le: "last_end i acc es \<le> max acc (i + length es)"
proof (induction es arbitrary: i acc)
  case Nil
  show ?case by simp
next
  case (Cons e es)
  from Cons.IH [of "Suc i" "if ev_kind e = EventEnd then Suc i else acc"] show ?case by auto
qed

lemma legacy_executions_append:
  "n = 0 \<or> n < length L \<Longrightarrow> legacy_executions (L @ T) n = legacy_executions L n"
  using last_end_le [of 0 0 "take n L"] by (auto simp: legacy_executions_def Let_def)

text \<open>
  A well-shaped new turn adds one recorded execution to those the journal already had.
\<close>

definition turn_execution ::
  "string \<Rightarrow> nat \<Rightarrow> execution_start \<Rightarrow> message list \<Rightarrow> event list \<Rightarrow> bool \<Rightarrow> recorded_execution" where
  "turn_execution x i s ins eff completed = (started x i s)\<lparr>rx_inputs := ins, rx_inputRecords := length ins,
     rx_stream := eff, rx_completed := completed\<rparr>"

lemma absorb_terminal:
  "terminal x fin \<Longrightarrow> fold absorb fin r = (if fin = [end_event\<lparr>ev_executionID := x\<rparr>] then r\<lparr>rx_completed := True\<rparr> else r)"
  by (auto simp: terminal_def absorb_def record_event_def end_event_def error_event_def zero_event_def stream_kind_def)

lemma absorb_turn:
  assumes "\<forall>e \<in> set eff. stream_kind (ev_kind e)" and "terminal x fin"
  shows "fold absorb (map (input_event x) ins @ eff @ fin) (started x i s)
    = turn_execution x i s ins eff (fin = [end_event\<lparr>ev_executionID := x\<rparr>])"
  using assms
  by (simp add: absorb_inputs absorb_stream absorb_terminal turn_execution_def started_def empty_execution_def)

lemma recordedExecutions_turn:
  assumes rx: "recordedExecutions L = Inr xs" and lp: "legacyPrefix L = Inr n" and n: "n = 0 \<or> n < length L"
    and x: "x \<noteq> []" "fresh_id x L"
    and st: "ev_kind st = EventExecutionStart" "ev_executionStart st = Some s" "ev_executionID st = x"
      "es_inputCount s = Some (int (length ins))"
    and eff: "\<forall>e \<in> set eff. stream_kind (ev_kind e) \<and> ev_executionID e = x" and fin: "terminal x fin"
  shows "recordedExecutions (L @ st # map (input_event x) ins @ eff @ fin)
     = Inr (xs @ [turn_execution x (length L) s ins eff (fin = [end_event\<lparr>ev_executionID := x\<rparr>])])"
proof -
  let ?es = "map (input_event x) ins @ eff @ fin"
  let ?t = "turn_execution x (length L) s ins eff (fin = [end_event\<lparr>ev_executionID := x\<rparr>])"
  from rx lp obtain byID where g: "group_events n (drop n L) (legacy_executions L n) Map.empty = Inr (xs, byID)"
    and ok: "first_invalid xs = None"
    by (auto simp: recordedExecutions_def split: sum.splits option.splits)
  have le: "n \<le> length L" by (rule legacyPrefix_le [OF lp])
  have "fresh_id x (drop n L)" using x(2) by (auto simp: fresh_id_def dest: in_set_dropD)
  with group_events_fresh [OF g] have b: "byID x = None" by simp
  have proper: "\<forall>e \<in> set ?es. ev_executionID e = x \<and> ev_kind e \<noteq> EventLifecycle \<and> ev_kind e \<noteq> EventExecutionStart"
    using eff fin stream_kind_proper
    by (auto simp: input_event_def terminal_def end_event_def error_event_def zero_event_def)
  have "group_events n (drop n L @ st # ?es) (legacy_executions L n) Map.empty
      = Inr (xs @ [?t], byID(x \<mapsto> length xs))"
    using group_events_turn [where byID = byID and x = x, OF st(1-3) proper b x(1), of "length L" xs] absorb_turn [of eff x fin ins "length L" s] eff fin le
    by (simp add: group_events_append g)
  moreover have "first_invalid [?t] = None"
    using st(4) by (simp add: turn_execution_def started_def validateInputs_def empty_execution_def)
  ultimately show ?thesis
    using legacyPrefix_start [OF lp st(1), of ?es] le n
    by (simp add: recordedExecutions_def legacy_executions_append first_invalid_append ok)
qed

section \<open>Scanning a journal for approvals\<close>

lemma scan_known:
  assumes "\<forall>r \<in> set rs. ev_executionID (r_event r) = x \<and> ev_kind (r_event r) \<noteq> EventLifecycle"
    and "ss_byID s x = Some k" and "k < length (ss_executions s)" and "rs \<noteq> []"
  shows "fold scan_record rs s = s\<lparr>ss_head := r_seq (last rs), ss_executions := (ss_executions s)[k :=
     (ss_executions s ! k)\<lparr>ax_records := ax_records (ss_executions s ! k) @ rs,
        ax_gated := (ax_gated (ss_executions s ! k) \<or> (\<exists>r \<in> set rs. approval_evidence_event (r_event r)))\<rparr>]\<rparr>"
  using assms
proof (induction rs arbitrary: s)
  case (Cons r rs)
  let ?x = "ss_executions s ! k"
  let ?s1 = "s\<lparr>ss_head := r_seq r, ss_executions := (ss_executions s)[k := ?x\<lparr>ax_records := ax_records ?x @ [r],
        ax_gated := (ax_gated ?x \<or> approval_evidence_event (r_event r))\<rparr>]\<rparr>"
  have one: "scan_record r s = ?s1" using Cons.prems by (simp add: scan_record_def Let_def)
  show ?case
  proof (cases "rs = []")
    case False
    have "fold scan_record rs ?s1 = ?s1\<lparr>ss_head := r_seq (last rs), ss_executions := (ss_executions ?s1)[k :=
       (ss_executions ?s1 ! k)\<lparr>ax_records := ax_records (ss_executions ?s1 ! k) @ rs,
        ax_gated := (ax_gated (ss_executions ?s1 ! k) \<or> (\<exists>r \<in> set rs. approval_evidence_event (r_event r)))\<rparr>]\<rparr>"
      using Cons.prems False by (intro Cons.IH) auto
    then show ?thesis using one False Cons.prems(3) by (simp add: disj_assoc)
  qed (simp add: one)
qed simp

lemma scan_turn:
  assumes "\<forall>r \<in> set rs. ev_executionID (r_event r) = x \<and> ev_kind (r_event r) \<noteq> EventLifecycle"
    and "ss_byID s x = None" and "rs \<noteq> []"
  shows "fold scan_record rs s = s\<lparr>ss_head := r_seq (last rs),
     ss_executions := ss_executions s @ [\<lparr>ax_id = x, ax_records = rs,
        ax_gated = (\<exists>r \<in> set rs. approval_evidence_event (r_event r))\<rparr>],
     ss_byID := (ss_byID s)(x \<mapsto> length (ss_executions s))\<rparr>"
proof -
  from assms(3) obtain r rs' where rs: "rs = r # rs'" by (cases rs) auto
  let ?s1 = "s\<lparr>ss_head := r_seq r, ss_executions := ss_executions s @ [\<lparr>ax_id = x, ax_records = [r],
        ax_gated = approval_evidence_event (r_event r)\<rparr>],
     ss_byID := (ss_byID s)(x \<mapsto> length (ss_executions s))\<rparr>"
  have one: "scan_record r s = ?s1" using assms(1,2) rs by (simp add: scan_record_def Let_def)
  show ?thesis
  proof (cases "rs' = []")
    case False
    with assms(1) rs have "fold scan_record rs' ?s1 = ?s1\<lparr>ss_head := r_seq (last rs'), ss_executions := (ss_executions ?s1)[length (ss_executions s) :=
       (ss_executions ?s1 ! length (ss_executions s))\<lparr>ax_records := ax_records (ss_executions ?s1 ! length (ss_executions s)) @ rs',
        ax_gated := (ax_gated (ss_executions ?s1 ! length (ss_executions s)) \<or> (\<exists>r \<in> set rs'. approval_evidence_event (r_event r)))\<rparr>]\<rparr>"
      by (intro scan_known [where x = x]) auto
    then show ?thesis using one False rs by simp
  qed (simp add: one rs)
qed

lemma scan_record_byID:
  "fresh_id x (map r_event rs) \<Longrightarrow> ss_byID (fold scan_record rs s) x = ss_byID s x"
proof (induction rs arbitrary: s)
  case (Cons r rs)
  then have "ss_byID (scan_record r s) x = ss_byID s x"
    by (auto simp: fresh_id_def scan_record_def Let_def split: option.splits)
  with Cons show ?case by (simp add: fresh_id_def)
qed simp

lemma scan_record_fork:
  "ss_forkSeq (fold scan_record rs s) = ss_forkSeq s \<or> ss_forkSeq (fold scan_record rs s) \<in> r_seq ` set rs"
proof (induction rs arbitrary: s)
  case (Cons r rs)
  have "ss_forkSeq (scan_record r s) = ss_forkSeq s \<or> ss_forkSeq (scan_record r s) = r_seq r"
    by (auto simp: scan_record_def Let_def split: option.splits)
  with Cons.IH [of "scan_record r s"] show ?case by auto
qed simp

lemma scan_executions_snoc:
  "scan_executions h f (xs @ [y]) states sel =
     (case scan_executions h f xs states sel0 of
        Inl e \<Rightarrow> Inl e
      | Inr (sts, _) \<Rightarrow>
          if \<not> ax_gated y then Inr (sts, sel)
          else case inspectApprovalExecution y h f of
            Inl e \<Rightarrow> Inl e
          | Inr new \<Rightarrow> Inr (sts @ new, if new \<noteq> [] then Some (length (sts @ new) - 1) else sel))"
proof (induction xs arbitrary: states sel sel0)
  case Nil
  show ?case by (simp split: sum.split)
next
  case (Cons x xs)
  show ?case
  proof (cases "ax_gated x")
    case False
    then show ?thesis using Cons.IH [of states sel sel0] by simp
  next
    case True
    show ?thesis
    proof (cases "inspectApprovalExecution x h f")
      case (Inl e)
      with True show ?thesis by simp
    next
      case (Inr b)
      from Cons.IH [of "states @ b" sel "if xs = [] \<and> b \<noteq> [] then Some (length (states @ b) - 1) else sel0"]
      show ?thesis by (simp only: append_Cons scan_executions.simps True Inr sum.case not_True_eq_False if_False)
        simp
    qed
  qed
qed

text \<open>The captured head is only copied into the states; nothing else depends on it.\<close>

definition rehead :: "int64 \<Rightarrow> approval_state \<Rightarrow> approval_state" where
  "rehead h st = st\<lparr>as_head := h\<rparr>"

definition rehead_insp :: "int64 \<Rightarrow> inspection \<Rightarrow> inspection" where
  "rehead_insp h s = s\<lparr>in_states := map (rehead h) (in_states s)\<rparr>"

lemma rehead_fields [simp]: "as_request (rehead h st) = as_request st" "as_decision (rehead h st) = as_decision st"
  "as_receipt (rehead h st) = as_receipt st" "as_call (rehead h st) = as_call st"
  "as_executionID (rehead h st) = as_executionID st" "as_inherited (rehead h st) = as_inherited st"
  by (simp_all add: rehead_def)

lemma rehead_insp_fields [simp]: "in_invocation (rehead_insp h s) = in_invocation s" "in_calls (rehead_insp h s) = in_calls s"
  "in_last (rehead_insp h s) = map_option (rehead h) (in_last s)" "in_open (rehead_insp h s) = in_open s"
  by (auto simp: rehead_insp_def in_last_def in_open_def last_map)

lemma update_last_rehead:
  "in_last s = Some st0 \<Longrightarrow> (\<And>st. f (rehead h st) = rehead h (f st)) \<Longrightarrow>
     update_last f (rehead_insp h s) = rehead_insp h (update_last f s)"
  by (auto simp: update_last_def rehead_insp_def in_last_def last_map map_butlast split: if_splits)

lemma inspect_record_rehead:
  "inspect_record x h' f i r (rehead_insp h' s) = map_sum (\<lambda>e. e) (rehead_insp h') (inspect_record x h f i r s)"
proof (cases "ev_kind (r_event r)")
  case EventToolCall
  then show ?thesis
    by (simp add: inspect_record_def inspect_tool_call_def Let_def split: option.split)
       (simp add: rehead_insp_def rehead_def)
next
  case EventApprovalRequest
  then show ?thesis
    by (auto simp: inspect_record_def inspect_request_def split: option.split
        intro!: update_last_rehead) (simp_all add: rehead_def)
next
  case EventApprovalResult
  then show ?thesis
    by (auto simp: inspect_record_def inspect_decision_def split: option.split
        intro!: update_last_rehead) (simp_all add: rehead_def)
next
  case EventToolResult
  then show ?thesis
    by (auto simp: inspect_record_def inspect_result_def split: option.split
        intro!: update_last_rehead) (simp_all add: rehead_def)
next
  case EventExecutionStart
  then show ?thesis
    by (auto simp: inspect_record_def inspect_start_def rehead_insp_def split: option.split)
next
  case EventInput
  then show ?thesis
    by (cases "ev_message (r_event r)") (simp_all add: inspect_record_def, simp_all add: rehead_insp_def)
next
  case EventEnd
  then show ?thesis by (simp add: inspect_record_def) (simp add: rehead_insp_def)
qed (simp_all add: inspect_record_def)

lemma inspect_records_rehead:
  "inspect_records x h' f i rs (rehead_insp h' s) = map_sum (\<lambda>e. e) (rehead_insp h') (inspect_records x h f i rs s)"
proof (induction rs arbitrary: i s)
  case (Cons r rs)
  show ?case
    by (cases "inspect_record x h f i r s")
       (simp_all add: inspect_record_rehead [where h = h] Cons.IH)
qed simp

lemma inspectApprovalExecution_rehead:
  "inspectApprovalExecution y h' f = map_sum (\<lambda>e. e) (map (rehead h')) (inspectApprovalExecution y h f)"
proof -
  have init: "inspect_init x = rehead_insp h' (inspect_init x)" for x
    by (simp add: inspect_init_def rehead_insp_def)
  have fin: "finish_states (rehead_insp h' s) = map (rehead h') (finish_states s)" for s
    by (simp add: finish_states_def rehead_insp_def rehead_def)
  show ?thesis
    by (simp add: inspectApprovalExecution_def)
       (subst init, simp add: inspect_records_rehead [where h = h] fin split: sum.split option.split)
qed

lemma scan_executions_rehead:
  "scan_executions h' f xs (map (rehead h') states) sel
     = map_sum (\<lambda>e. e) (\<lambda>(sts, k). (map (rehead h') sts, k)) (scan_executions h f xs states sel)"
proof (induction xs arbitrary: states sel)
  case (Cons x xs)
  show ?case
  proof (cases "inspectApprovalExecution x h f")
    case (Inl e)
    then show ?thesis using Cons.IH by (simp add: inspectApprovalExecution_rehead [where h = h and h' = h'])
  next
    case (Inr b)
    from Cons.IH [of "states @ b" "if xs = [] \<and> b \<noteq> [] then Some (length (states @ b) - 1) else sel"]
      Cons.IH [of states sel] Inr
    show ?thesis
      by (cases "xs = []"; cases "b = []") (simp_all add: inspectApprovalExecution_rehead [where h = h and h' = h'])
  qed
qed simp

lemma scanApprovalRecords_all:
  "scanApprovalRecords rs 0 =
     (let s = fold scan_record rs scan_init
      in case scan_executions (ss_head s) (ss_forkSeq s) (ss_executions s) [] None of
           Inl e \<Rightarrow> Inl e
         | Inr (states, selected) \<Rightarrow> Inr \<lparr>sc_head = ss_head s, sc_states = states, sc_selected = selected\<rparr>)"
proof -
  have tw: "takeWhile (\<lambda>r. True) rs = rs" by simp
  show ?thesis by (simp add: scanApprovalRecords_def tw)
qed

text \<open>
  A new turn leaves the states of earlier executions as they were; only the captured head moves, and
  the selection goes to the new turn.
\<close>

lemma scan_turn_records:
  assumes sc: "scanApprovalRecords rs 0 = Inr scan" and x: "fresh_id x (map r_event rs)" and T: "T \<noteq> []"
    and own: "\<forall>r \<in> set T. ev_executionID (r_event r) = x \<and> ev_kind (r_event r) \<noteq> EventLifecycle"
  obtains f where "f = 0 \<or> f \<in> r_seq ` set rs" and
    "scanApprovalRecords (rs @ T) 0 =
       (let h = r_seq (last T); old = map (rehead h) (sc_states scan) in
        if \<not> (\<exists>r \<in> set T. approval_evidence_event (r_event r))
        then Inr \<lparr>sc_head = h, sc_states = old, sc_selected = None\<rparr>
        else case inspectApprovalExecution \<lparr>ax_id = x, ax_records = T, ax_gated = True\<rparr> h f of
          Inl e \<Rightarrow> Inl e
        | Inr new \<Rightarrow> Inr \<lparr>sc_head = h, sc_states = old @ new,
            sc_selected = (if new \<noteq> [] then Some (length (old @ new) - 1) else None)\<rparr>)"
proof -
  let ?s = "fold scan_record rs scan_init" and ?h = "r_seq (last T)"
  have b: "ss_byID ?s x = None" using scan_record_byID [OF x, of scan_init] by (simp add: scan_init_def)
  note t = scan_turn [OF own b T]
  from sc obtain sts k where old: "scan_executions (ss_head ?s) (ss_forkSeq ?s) (ss_executions ?s) [] None = Inr (sts, k)"
    and scan: "sc_states scan = sts"
    by (auto simp: scanApprovalRecords_all Let_def split: sum.splits)
  have re: "scan_executions ?h (ss_forkSeq ?s) (ss_executions ?s) [] None = Inr (map (rehead ?h) sts, k)"
    using scan_executions_rehead [of ?h "ss_forkSeq ?s" "ss_executions ?s" "[]" None "ss_head ?s"] old by simp
  show ?thesis
  proof (rule that [of "ss_forkSeq ?s"])
    show "ss_forkSeq ?s = 0 \<or> ss_forkSeq ?s \<in> r_seq ` set rs"
      using scan_record_fork [of rs scan_init] by (simp add: scan_init_def)
    show "scanApprovalRecords (rs @ T) 0 =
       (let h = r_seq (last T); old = map (rehead h) (sc_states scan) in
        if \<not> (\<exists>r \<in> set T. approval_evidence_event (r_event r))
        then Inr \<lparr>sc_head = h, sc_states = old, sc_selected = None\<rparr>
        else case inspectApprovalExecution \<lparr>ax_id = x, ax_records = T, ax_gated = True\<rparr> h (ss_forkSeq ?s) of
          Inl e \<Rightarrow> Inl e
        | Inr new \<Rightarrow> Inr \<lparr>sc_head = h, sc_states = old @ new,
            sc_selected = (if new \<noteq> [] then Some (length (old @ new) - 1) else None)\<rparr>)"
    proof (cases "\<exists>r \<in> set T. approval_evidence_event (r_event r)")
      case True
      have "scan_executions ?h (ss_forkSeq ?s) (ss_executions ?s @ [\<lparr>ax_id = x, ax_records = T, ax_gated = True\<rparr>]) [] None =
         (case inspectApprovalExecution \<lparr>ax_id = x, ax_records = T, ax_gated = True\<rparr> ?h (ss_forkSeq ?s) of
            Inl e \<Rightarrow> Inl e
          | Inr new \<Rightarrow> Inr (map (rehead ?h) sts @ new, if new \<noteq> [] then Some (length (map (rehead ?h) sts @ new) - 1) else None))"
        using scan_executions_snoc [of ?h "ss_forkSeq ?s" "ss_executions ?s" _ "[]" None None] re by simp
      with True show ?thesis
        by (simp add: scanApprovalRecords_all t scan Let_def split: sum.split)
    next
      case False
      have "scan_executions ?h (ss_forkSeq ?s) (ss_executions ?s @ [\<lparr>ax_id = x, ax_records = T, ax_gated = False\<rparr>]) [] None =
         Inr (map (rehead ?h) sts, None)"
        using scan_executions_snoc [of ?h "ss_forkSeq ?s" "ss_executions ?s" _ "[]" None None] re by simp
      with False show ?thesis
        by (simp add: scanApprovalRecords_all t scan Let_def)
    qed
  qed
qed

section \<open>Inspecting a turn that parked\<close>

lemma inspect_records_append:
  "inspect_records x h f i (A @ B) s =
     (case inspect_records x h f i A s of Inl e \<Rightarrow> Inl e | Inr s' \<Rightarrow> inspect_records x h f (i + length A) B s')"
  by (induction A arbitrary: i s) (simp_all split: sum.split)

lemma inspect_inputs:
  assumes "in_states s = []" and "map r_event rs = map (input_event x) ms"
  shows "inspect_records x h f i rs s = Inr (s\<lparr>in_invocation := fold absorb (map (input_event x) ms) (in_invocation s)\<rparr>)"
  using assms
proof (induction rs arbitrary: i ms s)
  case (Cons r rs)
  then obtain m ms' where ms: "ms = m # ms'" "r_event r = input_event x m" "map r_event rs = map (input_event x) ms'"
    by (cases ms) auto
  let ?s = "s\<lparr>in_invocation := absorb (input_event x m) (in_invocation s)\<rparr>"
  have "inspect_record x h f i r s = Inr ?s"
    using Cons.prems(1) ms(2)
    by (simp add: inspect_record_def input_event_def in_open_def in_last_def absorb_def record_event_def)
  moreover have "inspect_records x h f (Suc i) rs ?s
      = Inr (?s\<lparr>in_invocation := fold absorb (map (input_event x) ms') (in_invocation ?s)\<rparr>)"
    using Cons.prems(1) ms(3) by (intro Cons.IH) auto
  ultimately show ?case by (simp add: ms(1))
qed simp

lemma inspect_record_plain:
  assumes n: "in_states s = []" and p: "plain_effect x (r_event r)" and ng: "\<And>k. \<not> call_gated (in_calls s) k"
  shows "inspect_record x h f i r s = Inr (s\<lparr>in_calls := add_call (r_event r) (in_calls s)\<rparr>)"
proof -
  have shut: "\<not> in_open s" using n by (simp add: in_open_def in_last_def)
  consider (quiet) "ev_kind (r_event r) \<in> {EventModelCall, EventOutput, EventUsage}"
    | (call) t where "ev_kind (r_event r) = EventToolCall" "ev_toolCall (r_event r) = Some t"
        "tc_mediation t = MediationControllerMediated"
    | (result) q where "ev_kind (r_event r) = EventToolResult" "ev_result (r_event r) = Some q" "approvalReportError q = None"
    using p by (auto simp: plain_effect_def)
  then show ?thesis
  proof cases
    case quiet
    with shut show ?thesis by (auto simp: inspect_record_def add_call_def)
  next
    case (call t)
    have "in_calls s (tc_id t) \<noteq> Some True" using ng [of "tc_id t"] by (simp add: call_gated_def)
    with call shut show ?thesis
      by (cases "in_calls s (tc_id t)") (auto simp: inspect_record_def inspect_tool_call_def add_call_def Let_def)
  next
    case (result q)
    then have "tr_approvalRequestSeq q = 0" "tr_approvalDecisionSeq q = 0"
      by (simp_all add: approvalReportError_def split: if_splits)
    with result shut ng [of "tr_id q"] show ?thesis
      by (simp add: inspect_record_def inspect_result_def add_call_def)
  qed
qed

lemma inspect_plain:
  assumes "in_states s = []" and "list_all (plain_effect x) (map r_event rs)" and "\<And>k. \<not> call_gated (in_calls s) k"
  shows "inspect_records x h f i rs s = Inr (s\<lparr>in_calls := fold add_call (map r_event rs) (in_calls s)\<rparr>)"
  using assms
proof (induction rs arbitrary: i s)
  case (Cons r rs)
  let ?s = "s\<lparr>in_calls := add_call (r_event r) (in_calls s)\<rparr>"
  have p: "plain_effect x (r_event r)" using Cons.prems(2) by simp
  have "inspect_record x h f i r s = Inr ?s"
    by (rule inspect_record_plain [OF Cons.prems(1) p Cons.prems(3)])
  moreover have "\<not> call_gated (in_calls ?s) k" for k
    using p Cons.prems(3) [of k] by (auto simp: plain_effect_def add_call_def call_gated_def split: option.splits)
  then have "inspect_records x h f (Suc i) rs ?s = Inr (?s\<lparr>in_calls := fold add_call (map r_event rs) (in_calls ?s)\<rparr>)"
    using Cons.prems(1,2) by (intro Cons.IH) auto
  ultimately show ?case by simp
qed simp

lemma inspect_gate:
  assumes "in_states s = []" and "tc_mediation call = MediationRequiresApproval" and "tc_id call \<noteq> []"
    and "tc_idempotencyKey call \<noteq> []" and "in_calls s (tc_id call) = None" and "\<not> rx_completed (in_invocation s)"
    and "r_event r = (tool_call_event call)\<lparr>ev_executionID := x\<rparr>"
  shows "inspect_record x h f i r s = Inr (s\<lparr>in_calls := (in_calls s)(tc_id call \<mapsto> True),
     in_states := [\<lparr>as_executionID = x, as_invocation = None, as_call = call, as_request = None, as_decision = None,
        as_receipt = None, as_head = h, as_inherited = (r_seq r < f), as_completed = False\<rparr>]\<rparr>)"
  using assms by (simp add: inspect_record_def inspect_tool_call_def in_open_def in_last_def tool_call_event_def Let_def)

lemma inspect_gate_request:
  assumes "in_states s = [st]" and "as_request st = None" and "as_receipt st = None"
    and "r_event r = (approval_request_event (tc_id (as_call st)))\<lparr>ev_executionID := x\<rparr>"
  shows "inspect_record x h f i r s = Inr (s\<lparr>in_states := [st\<lparr>as_request := Some r\<rparr>]\<rparr>)"
  using assms
  by (simp add: inspect_record_def inspect_request_def in_open_def in_last_def approval_request_event_def update_last_def)

lemma inspect_sealed:
  assumes s: "in_states s = []" "\<not> rx_completed (in_invocation s)"
    and tail: "sealing x pre (map r_event rs)" and calls: "in_calls s = calls_of pre"
  shows "\<exists>call st s'. inspect_records x h f i rs s = Inr s' \<and> in_states s' = [st] \<and> in_invocation s' = in_invocation s
     \<and> r_event (hd rs) = (tool_call_event call)\<lparr>ev_executionID := x\<rparr> \<and> as_call st = call \<and> as_executionID st = x
     \<and> as_request st = (if length rs = 1 then None else Some (rs ! 1)) \<and> as_decision st = None \<and> as_receipt st = None
     \<and> as_inherited st = (r_seq (hd rs) < f)"
proof -
  from tail obtain call where call: "tc_mediation call = MediationRequiresApproval" "tc_id call \<noteq> []"
      "tc_idempotencyKey call \<noteq> []" "calls_of pre (tc_id call) = None"
    and rs: "map r_event rs = [(tool_call_event call)\<lparr>ev_executionID := x\<rparr>] \<or>
      map r_event rs = [(tool_call_event call)\<lparr>ev_executionID := x\<rparr>, (approval_request_event (tc_id call))\<lparr>ev_executionID := x\<rparr>]"
    unfolding sealing_def by - (erule exE, elim conjE, rule that)
  from rs obtain r rest where r: "rs = r # rest" "r_event r = (tool_call_event call)\<lparr>ev_executionID := x\<rparr>" by (cases rs) auto
  note g = inspect_gate [OF s(1) call(1-3) _ s(2) r(2), of h f i]
  from rs r consider "rest = []" | q where "rest = [q]" "r_event q = (approval_request_event (tc_id call))\<lparr>ev_executionID := x\<rparr>" by auto
  then show ?thesis
  proof cases
    case 1
    with g r call(4) calls show ?thesis by simp
  next
    case (2 q)
    with g r call(4) calls show ?thesis
      by (simp add: inspect_gate_request [where x = x])
  qed
qed

text \<open>The whole turn: start, inputs, plain effects, the gate.\<close>

lemma inspect_parked_turn:
  assumes T: "T = tst # tins @ tpre @ rs" and st: "marks_start x (length ins) (r_event tst)"
    and ins: "map r_event tins = map (input_event x) ins" and pre: "list_all (plain_effect x) (map r_event tpre)"
    and tail: "sealing x (map r_event tpre) (map r_event rs)" and x: "x \<noteq> []"
  shows "\<exists>call st. inspectApprovalExecution \<lparr>ax_id = x, ax_records = T, ax_gated = True\<rparr> h f = Inr [st]
     \<and> r_event (hd rs) = (tool_call_event call)\<lparr>ev_executionID := x\<rparr> \<and> as_call st = call \<and> as_executionID st = x
     \<and> as_request st = (if length rs = 1 then None else Some (rs ! 1)) \<and> as_decision st = None \<and> as_receipt st = None
     \<and> as_inherited st = (r_seq (hd rs) < f) \<and> \<not> as_completed st"
proof -
  from st obtain s where s: "ev_kind (r_event tst) = EventExecutionStart" "ev_executionStart (r_event tst) = Some s"
    "es_inputCount s = Some (int (length ins))" by (auto simp: marks_start_def)
  let ?s0 = "(inspect_init x)\<lparr>in_invocation := (started x 0 s)\<rparr>"
  have a: "inspect_record x h f 0 tst (inspect_init x) = Inr ?s0"
    using s by (simp add: inspect_record_def inspect_start_def inspect_init_def started_def empty_execution_def)
  let ?inv = "fold absorb (map (input_event x) ins) (started x 0 s)"
  let ?s1 = "?s0\<lparr>in_invocation := ?inv\<rparr>"
  have b: "inspect_records x h f 1 tins ?s0 = Inr ?s1"
    using inspect_inputs [OF _ ins, of ?s0] by (simp add: inspect_init_def)
  let ?s2 = "?s1\<lparr>in_calls := calls_of (map r_event tpre)\<rparr>"
  have c: "inspect_records x h f (Suc (length tins)) tpre ?s1 = Inr ?s2"
    using inspect_plain [OF _ pre, of ?s1] by (simp add: inspect_init_def call_gated_def calls_of_def)
  have inv: "validateInputs ?inv = None" "\<not> rx_completed ?inv"
    using s(3) by (simp_all add: absorb_inputs started_def empty_execution_def validateInputs_def)
  from inspect_sealed [OF _ _ tail, of ?s2 h f "Suc (length tins) + length tpre"] inv(2) obtain call st s' where
    d: "inspect_records x h f (Suc (length tins) + length tpre) rs ?s2 = Inr s'" "in_states s' = [st]"
      "in_invocation s' = ?inv"
      "r_event (hd rs) = (tool_call_event call)\<lparr>ev_executionID := x\<rparr>" "as_call st = call" "as_executionID st = x"
      "as_request st = (if length rs = 1 then None else Some (rs ! 1))" "as_decision st = None" "as_receipt st = None"
      "as_inherited st = (r_seq (hd rs) < f)"
    by (auto simp: inspect_init_def)
  have "inspect_records x h f 0 T (inspect_init x) = Inr s'"
    using a b c d(1) by (simp add: T inspect_records_append)
  with d x inv show ?thesis by (simp add: inspectApprovalExecution_def finish_states_def)
qed

end
