(* ===== verification/Replaying.thy ===== *)
theory Replaying
  imports Turns
begin

text \<open>
  Replay of what was recorded.  \<open>recorded\<close> is the step relation between a harness run and an effect
  stream: the stream holds exactly the effects the run performs, in order, with the answers it got.
  A live run over a reliable environment records such a stream (\<open>live_recorded\<close>), and the replay
  sink serves any such stream without touching the model, the tools or the journal
  (\<open>replay_recorded\<close>).
\<close>

section \<open>Runs and their effect streams\<close>

definition first_usage :: "event list \<Rightarrow> usage" where
  "first_usage es = usageAt es 0"

inductive recorded :: "(model_request \<Rightarrow> string) \<Rightarrow> struct_codec \<Rightarrow> run \<Rightarrow> event list \<Rightarrow> run \<Rightarrow> bool"
  for hash k where
  rec_done: "recorded hash k p [] p"
| rec_model: "ev_kind mc = EventModelCall \<Longrightarrow> ev_modelCall mc = Some m \<Longrightarrow> mc_inputHash m = hash req \<Longrightarrow>
    ev_kind out = EventOutput \<Longrightarrow> ev_message out = Some msg \<Longrightarrow>
    recorded hash k (f (Inr \<lparr>mresp_message = msg, mresp_usage = first_usage es\<rparr>)) es q \<Longrightarrow>
    recorded hash k (CallModel req f) (mc # out # es) q"
| rec_output: "ev_kind out = EventOutput \<Longrightarrow> ev_message out = Some msg \<Longrightarrow> Message_Text msg = d \<Longrightarrow>
    recorded hash k (f None) es q \<Longrightarrow> recorded hash k (CallOutput d f) (out # es) q"
| rec_tool: "ev_kind tc = EventToolCall \<Longrightarrow> ev_toolCall tc = Some call' \<Longrightarrow> matchToolCall k call (Some call') = None \<Longrightarrow>
    tc_mediation call' = MediationControllerMediated \<Longrightarrow>
    ev_kind tr = EventToolResult \<Longrightarrow> ev_result tr = Some r \<Longrightarrow> tr_id r = tc_id call' \<Longrightarrow>
    approvalReportError r = None \<Longrightarrow>
    recorded hash k (f (Inr r)) es q \<Longrightarrow> recorded hash k (CallToolCall call f) (tc # tr # es) q"
| rec_report: "approvalReportError r = None \<Longrightarrow> ev_kind e = EventToolResult \<Longrightarrow> ev_result e = Some r \<Longrightarrow>
    recorded hash k (f None) es q \<Longrightarrow> recorded hash k (CallReport r f) (e # es) q"
| rec_report_rejected: "approvalReportError r = Some err \<Longrightarrow>
    recorded hash k (f (Some err)) es q \<Longrightarrow> recorded hash k (CallReport r f) es q"
| rec_usage: "ev_kind e = EventUsage \<Longrightarrow> ev_usage e = Some u \<Longrightarrow>
    recorded hash k (f None) es q \<Longrightarrow> recorded hash k (CallUsage u f) (e # es) q"

inductive_cases recorded_usageE: "recorded hash k (CallUsage u f) es (Return err)"

definition of_execution :: "string \<Rightarrow> event \<Rightarrow> bool" where
  "of_execution x e \<longleftrightarrow> ev_executionID e = x"

lemma recorded_plain:
  assumes "recorded hash k p es q" and "list_all (of_execution x) es"
  shows "list_all (plain_effect x) es"
  using assms
proof (induction rule: recorded.induct)
  case (rec_tool tc call' call tr r f es q)
  have "tc_idempotencyKey call' \<noteq> []"
    using rec_tool.hyps(3) by (auto simp: matchToolCall_def Let_def split: if_splits)
  then have "plain_effect x tc" "plain_effect x tr"
    using rec_tool.hyps(1,2,4-6,8) rec_tool.prems by (simp_all add: plain_effect_def of_execution_def)
  with rec_tool show ?case by simp
qed (simp_all add: plain_effect_def of_execution_def)

text \<open>
  What a harness must do for its turns to be replayable: host-mediated calls carry a key and
  arguments the journal can represent, and what it does after a completion depends on the
  completion's token usage only by reporting it first.
\<close>

definition usage_tame :: "(usage \<Rightarrow> run) \<Rightarrow> bool" where
  "usage_tame g \<longleftrightarrow> (\<forall>u u'. g u = g u') \<or> (\<forall>u. \<exists>h. g u = CallUsage u h)"

definition tool_tame :: "struct_codec \<Rightarrow> tool_call \<Rightarrow> bool" where
  "tool_tame k t \<longleftrightarrow> tc_mediation t = MediationControllerMediated \<and> tc_idempotencyKey t \<noteq> [] \<and>
     (tc_args t \<noteq> None \<longrightarrow> wire_args k t \<noteq> None)"

primrec tame :: "struct_codec \<Rightarrow> run \<Rightarrow> bool" where
  "tame k (Return e) = True"
| "tame k (CallModel req f) = ((\<forall>m. usage_tame (\<lambda>u. f (Inr \<lparr>mresp_message = m, mresp_usage = u\<rparr>))) \<and>
     (\<forall>resp. tame k (f (Inr resp))))"
| "tame k (CallOutput d f) = tame k (f None)"
| "tame k (CallToolCall t f) = (tool_tame k t \<and> (\<forall>r. tame k (f (Inr r))))"
| "tame k (CallReport r f) = (tame k (f None) \<and> tame k (f (Some ErrApprovalReceiptReport)))"
| "tame k (CallUsage u f) = tame k (f None)"

lemma matchToolCall_self: "tool_tame k t \<Longrightarrow> matchToolCall k t (Some t) = None"
  by (auto simp: matchToolCall_def tool_tame_def Let_def)

lemma approvalReportError_cases: "approvalReportError r = None \<or> approvalReportError r = Some ErrApprovalReceiptReport"
  by (simp add: approvalReportError_def)

section \<open>Replay serves what was recorded\<close>

definition serving :: "replay_env \<Rightarrow> replay \<Rightarrow> event list \<Rightarrow> bool" where
  "serving R s es \<longleftrightarrow> rp_stop s = None \<and> \<not> rp_closed s \<and> rp_failure s = None \<and> (\<forall>i. \<not> call_gated (rp_calls s) i) \<and>
     rp_i s \<le> length (re_stream R) \<and> drop (rp_i s) (re_stream R) = es"

lemma next_of_drop: "drop i st = e # es \<Longrightarrow> next_of k st i = (if ev_kind e = k then Some e else None)"
proof -
  assume d: "drop i st = e # es"
  then have "i < length st" by (metis drop_all list.distinct(1) not_le)
  moreover from d this have "st ! i = e" by (metis Cons_nth_drop_Suc list.inject)
  ultimately show ?thesis by (simp add: next_of_def)
qed

lemma drop_Suc_Cons: "drop i st = e # es \<Longrightarrow> drop (Suc i) st = es"
  by (metis drop_Suc list.sel(3) tl_drop)

lemma usageAt_drop: "usageAt st i = first_usage (drop i st)"
  by (auto simp: usageAt_def first_usage_def)

lemma serving_step: "serving R s (e # es) \<Longrightarrow> serving R (s\<lparr>rp_i := Suc (rp_i s), rp_outputs := o', rp_tick := t\<rparr>) es"
  by (auto simp: serving_def dest: drop_Suc_Cons) (metis drop_all list.distinct(1) not_less_eq_eq)


definition replay_ready :: "replay_env \<Rightarrow> (model_request \<Rightarrow> string) \<Rightarrow> struct_codec \<Rightarrow> bool" where
  "replay_ready R hash k \<longleftrightarrow> \<not> re_legacy R \<and> re_hash R = hash \<and> re_codec R = k \<and> (\<forall>t. re_ctxErr R t = None)"

lemma serving_enter:
  assumes "serving R s es" and "replay_ready R hash k"
  shows "replay_enter R fail body s = body (s\<lparr>rp_tick := Suc (rp_tick s)\<rparr>)" and "serving R (s\<lparr>rp_tick := t\<rparr>) es"
  using assms by (simp_all add: replay_enter_def guard_err_def serving_def replay_ready_def Let_def)

lemma serving_next:
  "serving R s (e # es) \<Longrightarrow> next_of kd (re_stream R) (rp_i s) = (if ev_kind e = kd then Some e else None)"
  by (auto simp: serving_def next_of_drop)

lemma serving_nth: "serving R s (e # es) \<Longrightarrow> rp_i s < length (re_stream R) \<and> re_stream R ! rp_i s = e"
  by (auto simp: serving_def) (metis drop_all list.distinct(1) not_le,
      metis Cons_nth_drop_Suc drop_all list.distinct(1) list.inject not_le)

lemma serving_advance:
  "serving R s (e # es) \<Longrightarrow> serving R (s\<lparr>rp_i := Suc (rp_i s)\<rparr>) es"
  "serving R s (e # es) \<Longrightarrow> serving R (s\<lparr>rp_i := Suc (rp_i s), rp_outputs := o'\<rparr>) es"
  using serving_step [of R s e es "rp_tick s" "rp_outputs s"] serving_step [of R s e es "rp_tick s" o'] by simp_all

lemma serving_usage: "serving R s es \<Longrightarrow> usageAt (re_stream R) (rp_i s) = first_usage es"
  by (simp add: serving_def usageAt_drop)

lemma replay_model_serves:
  assumes s: "serving R s (mc # out # es)" and R: "replay_ready R hash k"
    and mc: "ev_kind mc = EventModelCall" "ev_modelCall mc = Some m" "mc_inputHash m = hash req"
    and out: "ev_kind out = EventOutput" "ev_message out = Some msg"
  shows "\<exists>s'. replay_Model R req s = (Inr \<lparr>mresp_message = msg, mresp_usage = first_usage es\<rparr>, s') \<and> serving R s' es
     \<and> rp_outputs s' = rp_outputs s @ [Message_Text msg]"
proof -
  let ?s = "s\<lparr>rp_tick := Suc (rp_tick s)\<rparr>"
  let ?s1 = "?s\<lparr>rp_i := Suc (rp_i ?s)\<rparr>" and ?o = "rp_outputs s @ [Message_Text msg]"
  have a: "serving R ?s (mc # out # es)" by (rule serving_enter [OF s R])
  have b: "serving R ?s1 (out # es)" by (rule serving_advance [OF a])
  have c: "serving R (?s1\<lparr>rp_i := Suc (rp_i ?s1), rp_outputs := ?o\<rparr>) es" by (rule serving_advance [OF b])
  show ?thesis
    using serving_next [OF a, of EventModelCall] serving_next [OF b, of EventOutput] mc out R c serving_usage [OF c]
    by (simp add: replay_Model_def serving_enter [OF s R] replay_model_def Let_def replay_ready_def)
qed

lemma replay_output_serves:
  assumes s: "serving R s (out # es)" and R: "replay_ready R hash k"
    and out: "ev_kind out = EventOutput" "ev_message out = Some msg" "Message_Text msg = d"
  shows "\<exists>s'. replay_Output R d s = (None, s') \<and> serving R s' es \<and> rp_outputs s' = rp_outputs s @ [d]"
proof -
  let ?s = "s\<lparr>rp_tick := Suc (rp_tick s)\<rparr>"
  have a: "serving R ?s (out # es)" by (rule serving_enter [OF s R])
  show ?thesis
    using serving_next [OF a, of EventOutput] serving_advance(2) [OF a, of "rp_outputs s @ [d]"] out
    by (simp add: replay_Output_def serving_enter [OF s R] replay_output_def Let_def event_text_def)
qed

lemma replay_tool_serves:
  assumes s: "serving R s (tc # tr # es)" and R: "replay_ready R hash k"
    and tc: "ev_kind tc = EventToolCall" "ev_toolCall tc = Some call'" "matchToolCall k call (Some call') = None"
      "tc_mediation call' = MediationControllerMediated"
    and tr: "ev_kind tr = EventToolResult" "ev_result tr = Some r" "tr_id r = tc_id call'"
  shows "\<exists>s'. replay_ToolCall R call s = (Inr r, s') \<and> serving R s' es \<and> rp_outputs s' = rp_outputs s"
proof -
  let ?s = "s\<lparr>rp_tick := Suc (rp_tick s)\<rparr>"
  let ?s1 = "?s\<lparr>rp_i := Suc (rp_i ?s)\<rparr>"
  have a: "serving R ?s (tc # tr # es)" by (rule serving_enter [OF s R])
  have b: "serving R ?s1 (tr # es)" by (rule serving_advance [OF a])
  have c: "serving R (?s1\<lparr>rp_i := Suc (rp_i ?s1)\<rparr>) es" by (rule serving_advance [OF b])
  have m: "tc_id call = tc_id call'" "tc_mediation call = MediationControllerMediated" "tc_idempotencyKey call \<noteq> []"
    using tc(3,4) by (auto simp: matchToolCall_def Let_def split: if_splits)
  have k: "\<not> keyless_rejected (re_stream R) (rp_i ?s) call" "fallback_error (re_stream R) (rp_i ?s) call = None"
    using serving_nth [OF a] tc m by (simp_all add: keyless_rejected_def fallback_error_def)
  show ?thesis
    using serving_next [OF a, of EventToolCall] serving_next [OF b, of EventToolResult] tc tr R c k
    by (simp add: replay_ToolCall_def serving_enter [OF s R] replay_toolCall_def replay_result_def
        recordedToolResult_def Let_def replay_ready_def)
qed

lemma replay_report_serves:
  assumes s: "serving R s (e # es)" and R: "replay_ready R hash k"
    and e: "approvalReportError r = None" "ev_kind e = EventToolResult" "ev_result e = Some r"
  shows "\<exists>s'. replay_Report R r s = (None, s') \<and> serving R s' es \<and> rp_outputs s' = rp_outputs s"
proof -
  let ?s = "s\<lparr>rp_tick := Suc (rp_tick s)\<rparr>"
  have a: "serving R ?s (e # es)" by (rule serving_enter [OF s R])
  have "\<not> call_gated (rp_calls s) (tr_id r)" using s by (simp add: serving_def)
  moreover have "\<not> receipt_at (re_stream R) (rp_i ?s)" using serving_nth [OF a] e by (simp add: receipt_at_def)
  ultimately show ?thesis
    using serving_next [OF a, of EventToolResult] serving_advance(1) [OF a] e
    by (simp add: replay_Report_def serving_enter [OF s R] replay_report_def)
qed

lemma replay_report_rejects:
  assumes s: "serving R s es" and R: "replay_ready R hash k" and e: "approvalReportError r = Some err"
  shows "\<exists>s'. replay_Report R r s = (Some err, s') \<and> serving R s' es \<and> rp_outputs s' = rp_outputs s"
proof -
  have "\<not> call_gated (rp_calls s) (tr_id r)" using s by (simp add: serving_def)
  with e serving_enter(2) [OF s R] show ?thesis
    by (simp add: replay_Report_def serving_enter [OF s R] replay_report_def)
qed

lemma replay_usage_serves:
  assumes s: "serving R s (e # es)" and R: "replay_ready R hash k" and e: "ev_kind e = EventUsage" "ev_usage e = Some u"
  shows "\<exists>s'. replay_Usage R u s = (None, s') \<and> serving R s' es \<and> rp_outputs s' = rp_outputs s"
proof -
  let ?s = "s\<lparr>rp_tick := Suc (rp_tick s)\<rparr>"
  have a: "serving R ?s (e # es)" by (rule serving_enter [OF s R])
  show ?thesis
    using serving_next [OF a, of EventUsage] serving_advance(1) [OF a] e R
    by (simp add: replay_Usage_def serving_enter [OF s R] replay_usage_def replay_ready_def Let_def)
qed

lemma replay_recorded:
  assumes "recorded hash k p es q" and "serving R s es" and R: "replay_ready R hash k"
  shows "\<exists>s'. drive (replaySink R) p s = drive (replaySink R) q s' \<and> serving R s' [] \<and>
     rp_outputs s' = rp_outputs s @ output_texts es"
  using assms(1,2)
proof (induction arbitrary: s rule: recorded.induct)
  case (rec_done p)
  then show ?case by (auto simp: output_texts_def)
next
  case (rec_model mc m req out msg f es q)
  from replay_model_serves [OF rec_model.prems R rec_model.hyps(1-5)] obtain s1 where
    "replay_Model R req s = (Inr \<lparr>mresp_message = msg, mresp_usage = first_usage es\<rparr>, s1)" "serving R s1 es"
    "rp_outputs s1 = rp_outputs s @ [Message_Text msg]" by blast
  with rec_model.IH [of s1] rec_model.hyps show ?case by (auto simp: replaySink_def output_texts_def)
next
  case (rec_output out msg d f es q)
  from replay_output_serves [OF rec_output.prems R rec_output.hyps(1-3)] obtain s1 where
    "replay_Output R d s = (None, s1)" "serving R s1 es" "rp_outputs s1 = rp_outputs s @ [d]" by blast
  with rec_output.IH [of s1] rec_output.hyps show ?case by (auto simp: replaySink_def output_texts_def)
next
  case (rec_tool tc call' call tr r f es q)
  from replay_tool_serves [OF rec_tool.prems R rec_tool.hyps(1-7)] obtain s1 where
    "replay_ToolCall R call s = (Inr r, s1)" "serving R s1 es" "rp_outputs s1 = rp_outputs s" by blast
  with rec_tool.IH [of s1] rec_tool.hyps show ?case by (auto simp: replaySink_def output_texts_def)
next
  case (rec_report r e f es q)
  from replay_report_serves [OF rec_report.prems R rec_report.hyps(1-3)] obtain s1 where
    "replay_Report R r s = (None, s1)" "serving R s1 es" "rp_outputs s1 = rp_outputs s" by blast
  with rec_report.IH [of s1] rec_report.hyps show ?case by (auto simp: replaySink_def output_texts_def)
next
  case (rec_report_rejected r err f es q)
  from replay_report_rejects [OF rec_report_rejected.prems R rec_report_rejected.hyps(1)] obtain s1 where
    "replay_Report R r s = (Some err, s1)" "serving R s1 es" "rp_outputs s1 = rp_outputs s" by blast
  with rec_report_rejected.IH [of s1] show ?case by (auto simp: replaySink_def)
next
  case (rec_usage e u f es q)
  from replay_usage_serves [OF rec_usage.prems R rec_usage.hyps(1,2)] obtain s1 where
    "replay_Usage R u s = (None, s1)" "serving R s1 es" "rp_outputs s1 = rp_outputs s" by blast
  with rec_usage.IH [of s1] rec_usage.hyps show ?case by (auto simp: replaySink_def output_texts_def)
qed


section \<open>A live run over a reliable environment\<close>

definition canon_total :: "canon_env \<Rightarrow> bool" where
  "canon_total cn \<longleftrightarrow> (\<forall>p s e. \<exists>h. HashRecord cn p s e = Inr h)"

definition model_answers :: "'s controller \<Rightarrow> bool" where
  "model_answers c \<longleftrightarrow> (case c_stream c of
     None \<Rightarrow> \<forall>t req. \<exists>resp. c_model c t req = Inr resp
   | Some st \<Rightarrow> \<forall>t req. \<exists>resp. snd (st t req) = Inr resp)"

definition tools_answer :: "'s controller \<Rightarrow> bool" where
  "tools_answer c \<longleftrightarrow> (case c_tool c of
     None \<Rightarrow> False
   | Some tool \<Rightarrow> \<forall>t uid call. snd (tool t uid call) = None \<and> approvalReportError (fst (tool t uid call)) = None)"

text \<open>
  Nothing in the environment fails: canonicalisation, the context, the provider and the tools.
\<close>

definition reliable :: "canon_env \<Rightarrow> log controller \<Rightarrow> bool" where
  "reliable cn c \<longleftrightarrow> c_ops c = AsStore cn \<and> canon_total cn \<and> (\<forall>t. c_ctxErr c t = None)
     \<and> model_answers c \<and> tools_answer c"

definition ready :: "canon_env \<Rightarrow> log live_env \<Rightarrow> log live \<Rightarrow> bool" where
  "ready cn L s \<longleftrightarrow> lv_stop s = None \<and> \<not> lv_closed s \<and> log_ok cn (w_log (lv_w s)) \<and>
     log_fence (w_log (lv_w s)) \<le> c_fence (le_c L) \<and> (\<forall>k. \<not> call_gated (lv_calls s) k)"

lemma mem_commit_ok:
  assumes "reliable cn c" and "log_fence (w_log w) \<le> c_fence c"
  shows "\<exists>r w'. commit c (Head (w_log w)) ev w = (Inr r, w')"
proof -
  obtain h where "HashRecord cn (last_hash (log_records (w_log w))) (Head (w_log w) + 1) ev = Inr h"
    using assms(1) unfolding reliable_def canon_total_def by blast
  with assms show ?thesis
    by (simp add: commit_def reliable_def AsStore_def Append_def Let_def)
qed

lemma live_append_ok:
  assumes "reliable cn (le_c L)" and "ready cn L s" and "le_executionID L \<noteq> []" and "\<not> le_legacyRecovery L"
  shows "\<exists>r s'. live_append L ev s = (Inr r, s')"
proof -
  have "log_fence (w_log (lv_w s)) \<le> c_fence (le_c L)" using assms(2) by (simp add: ready_def)
  from mem_commit_ok [OF assms(1) this, of "ev\<lparr>ev_executionID := le_executionID L\<rparr>"] obtain r w' where
    "commit (le_c L) (Head (w_log (lv_w s))) (ev\<lparr>ev_executionID := le_executionID L\<rparr>) (lv_w s) = (Inr r, w')" by blast
  with assms show ?thesis
    by (simp add: live_append_def appendSeq_def reliable_def AsStore_def Let_def)
qed

lemma invokeModel_ok: "model_answers c \<Longrightarrow> \<exists>resp w'. invokeModel c x req w = (Inr resp, w')"
proof (cases "c_stream c")
  case None
  assume "model_answers c"
  with None obtain resp where "c_model c (w_tick w) req = Inr resp" by (auto simp: model_answers_def)
  with None show ?thesis by (simp add: invokeModel_def Let_def)
next
  case (Some st)
  assume "model_answers c"
  with Some obtain resp where "snd (st (w_tick w) req) = Inr resp" by (auto simp: model_answers_def)
  then obtain chunks where "st (w_tick w) req = (chunks, Inr resp)" by (metis prod.collapse)
  with Some show ?thesis by (simp add: invokeModel_def Let_def)
qed

abbreviation live_grows where
  "live_grows cn c \<equiv> controller_store.grows c log_records log_fence (log_ok cn) (\<lambda>e. e)"

lemma mem_store: "c_ops c = AsStore cn \<Longrightarrow> controller_store c log_records log_fence (log_ok cn) (\<lambda>e. e)"
  using memctl.controller_store_axioms [of cn c] by (simp add: mem_controller)

lemma ready_grows:
  assumes c: "c_ops (le_c L) = AsStore cn" and "ready cn L s" and g: "live_grows cn (le_c L) s s' es"
    and "lv_stop s' = None" and "\<not> lv_closed s'" and "\<And>k. \<not> call_gated (lv_calls s') k"
  shows "ready cn L s'"
proof -
  have "log_ok cn (w_log (lv_w s')) \<and> log_fence (w_log (lv_w s')) = log_fence (w_log (lv_w s))"
    using g controller_store.grows_def [OF mem_store [OF c]] controller_store.journaled_def [OF mem_store [OF c]] by blast
  with assms show ?thesis by (simp add: ready_def)
qed


lemma ready_enter:
  assumes r: "reliable cn (le_c L)" and s: "ready cn L s"
  shows "live_enter L fail body s = body (set_w (tick (lv_w s)) s)" and "ready cn L (set_w (tick (lv_w s)) s)"
    and "live_grows cn (le_c L) s (set_w (tick (lv_w s)) s) []"
proof -
  show "live_enter L fail body s = body (set_w (tick (lv_w s)) s)"
    using r s by (simp add: live_enter_def guard_err_def ready_def reliable_def Let_def)
  show "ready cn L (set_w (tick (lv_w s)) s)" using s by (simp add: ready_def)
  have "c_ops (le_c L) = AsStore cn" using r by (simp add: reliable_def)
  from controller_store.grows_refl [OF mem_store [OF this], of s "set_w (tick (lv_w s)) s"] s
  show "live_grows cn (le_c L) s (set_w (tick (lv_w s)) s) []" by (simp add: ready_def)
qed

lemma live_model_ok:
  assumes r: "reliable cn (le_c L)" and s: "ready cn L s" and x: "le_executionID L \<noteq> []" "\<not> le_legacyRecovery L"
  shows "\<exists>resp s'. live_model L req s = (Inr resp, s')"
proof -
  note st = mem_store [of "le_c L" cn]
  have c: "c_ops (le_c L) = AsStore cn" using r by (simp add: reliable_def)
  let ?s = "set_w (tick (lv_w s)) s"
  have rs: "ready cn L ?s" by (rule ready_enter(2) [OF r s])
  from live_append_ok [OF r rs x] obtain rr s1 where
    a: "live_append L (model_call_event (le_c L) req (c_newID (le_c L) (w_tick (lv_w s)))) ?s = (Inr rr, s1)" by blast
  from controller_store.live_append_grows [OF st [OF c] _ refl a] rs have
    g: "same_guard ?s s1" "live_grows cn (le_c L) ?s s1 [own L (model_call_event (le_c L) req (c_newID (le_c L) (w_tick (lv_w s))))]"
    by (auto simp: ready_def)
  from ready_grows [OF c rs g(2)] g(1) rs have r1: "ready cn L s1" by (simp add: same_guard_def ready_def)
  obtain resp w where iv: "invokeModel (le_c L) (le_executionID L) req (lv_w s1) = (Inr resp, w)"
    using invokeModel_ok r unfolding reliable_def by blast
  let ?s2 = "set_w (w\<lparr>w_liveModelCalls := Suc (w_liveModelCalls w)\<rparr>) s1"
  have "ready cn L ?s2" using r1 invokeModel_fields [OF iv] by (simp add: ready_def)
  from live_append_ok [OF r this x] obtain r2 s3 where "live_append L (output_event (mresp_message resp)) ?s2 = (Inr r2, s3)" by blast
  with a iv show ?thesis by (simp add: live_model_def newID_def live_completeModel_def)
qed

lemma live_Model_ok:
  assumes r: "reliable cn (le_c L)" and s: "ready cn L s" and x: "le_executionID L \<noteq> []" "\<not> le_legacyRecovery L"
  shows "\<exists>resp i s'. live_Model L req s = (Inr resp, s') \<and> ready cn L s' \<and>
     live_grows cn (le_c L) s s' [own L (model_call_event (le_c L) req i), own L (output_event (mresp_message resp))]"
proof -
  have c: "c_ops (le_c L) = AsStore cn" using r by (simp add: reliable_def)
  note st = mem_store [OF c]
  let ?s = "set_w (tick (lv_w s)) s"
  note e = ready_enter [OF r s]
  from live_model_ok [OF r e(2) x] obtain resp s' where m: "live_model L req ?s = (Inr resp, s')" by blast
  from controller_store.live_model_grows [OF st _ refl m] e(2) obtain i where
    g: "same_guard ?s s'" "live_grows cn (le_c L) ?s s' [own L (model_call_event (le_c L) req i), own L (output_event (mresp_message resp))]"
    by (auto simp: ready_def)
  from ready_grows [OF c e(2) g(2)] g(1) e(2) have "ready cn L s'" by (simp add: same_guard_def ready_def)
  with m controller_store.grows_trans [OF st e(3) g(2)] show ?thesis
    by (auto simp: live_Model_def e(1))
qed

lemma live_single_ok:
  assumes r: "reliable cn (le_c L)" and s: "ready cn L s" and x: "le_executionID L \<noteq> []" "\<not> le_legacyRecovery L"
    and f: "\<And>s1. f s1 = (case live_append L ev s1 of (Inl e, s'') \<Rightarrow> (Some e, s'') | (Inr _, s'') \<Rightarrow> (None, s''))"
  shows "\<exists>s'. live_enter L Some f s = (None, s') \<and> ready cn L s' \<and> live_grows cn (le_c L) s s' [own L ev]"
proof -
  have c: "c_ops (le_c L) = AsStore cn" using r by (simp add: reliable_def)
  note st = mem_store [OF c]
  let ?s = "set_w (tick (lv_w s)) s"
  note e = ready_enter [OF r s]
  from live_append_ok [OF r e(2) x] obtain rr s' where a: "live_append L ev ?s = (Inr rr, s')" by blast
  from controller_store.live_append_grows [OF st _ refl a] e(2) have
    g: "same_guard ?s s'" "live_grows cn (le_c L) ?s s' [own L ev]" by (auto simp: ready_def)
  from ready_grows [OF c e(2) g(2)] g(1) e(2) have "ready cn L s'" by (simp add: same_guard_def ready_def)
  with a controller_store.grows_trans [OF st e(3) g(2)] show ?thesis by (simp add: e(1) f)
qed

lemma live_Report_ok:
  assumes r: "reliable cn (le_c L)" and s: "ready cn L s" and x: "le_executionID L \<noteq> []" "\<not> le_legacyRecovery L"
  shows "\<exists>s'. live_Report L tr s = (approvalReportError tr, s') \<and> ready cn L s' \<and>
     live_grows cn (le_c L) s s' (if approvalReportError tr = None then [own L (tool_result_event tr)] else [])"
proof (cases "approvalReportError tr")
  case None
  have ng: "\<not> call_gated (lv_calls s) (tr_id tr)" using s by (simp add: ready_def)
  note e = ready_enter [OF r s]
  have "live_Report L tr s = live_enter L Some (\<lambda>s1. case live_append L (tool_result_event tr) s1 of
      (Inl e, s'') \<Rightarrow> (Some e, s'') | (Inr _, s'') \<Rightarrow> (None, s'')) s"
    using None ng by (simp add: live_Report_def e(1) live_report_def)
  with live_single_ok [OF r s x, of "\<lambda>s1. case live_append L (tool_result_event tr) s1 of
      (Inl e, s'') \<Rightarrow> (Some e, s'') | (Inr _, s'') \<Rightarrow> (None, s'')" "tool_result_event tr"] None
  show ?thesis by simp
next
  case (Some err)
  have "\<not> call_gated (lv_calls s) (tr_id tr)" using s by (simp add: ready_def)
  with Some have "live_Report L tr s = (Some err, set_w (tick (lv_w s)) s)"
    by (simp add: live_Report_def ready_enter(1) [OF r s] live_report_def)
  with Some ready_enter(2,3) [OF r s] show ?thesis by simp
qed


lemma live_execTool_ok:
  assumes r: "reliable cn (le_c L)" and s: "ready cn L s" and x: "le_executionID L \<noteq> []" "\<not> le_legacyRecovery L"
  shows "\<exists>res s'. live_execTool L call s = (Inr res, s')"
proof -
  obtain tool where t: "c_tool (le_c L) = Some tool"
    and ok: "\<And>t uid call. snd (tool t uid call) = None" "\<And>t uid call. approvalReportError (fst (tool t uid call)) = None"
    using r by (auto simp: reliable_def tools_answer_def split: option.splits)
  let ?w = "tick ((lv_w s)\<lparr>w_external := w_external (lv_w s) @ [ExtTool (c_sessionUID (le_c L)) call]\<rparr>)"
  let ?s = "set_w (?w\<lparr>w_liveToolCalls := Suc (w_liveToolCalls ?w)\<rparr>) s"
  obtain res where res: "tool (w_tick (lv_w s)) (c_sessionUID (le_c L)) call = (res, None)" "approvalReportError res = None"
    using ok [of "w_tick (lv_w s)" "c_sessionUID (le_c L)" call] by (metis prod.collapse)
  have "ready cn L ?s" using s by (simp add: ready_def)
  from live_append_ok [OF r this x] obtain rr s' where
    "live_append L (tool_result_event (set_tr_id (tc_id call) res)) ?s = (Inr rr, s')" by blast
  with t res show ?thesis by (simp add: live_execTool_def Let_def)
qed

lemma live_ToolCall_ok:
  assumes r: "reliable cn (le_c L)" and s: "ready cn L s" and x: "le_executionID L \<noteq> []" "\<not> le_legacyRecovery L"
    and t: "tool_tame k call"
  shows "\<exists>res s'. live_ToolCall L call s = (Inr res, s') \<and> ready cn L s' \<and> tr_id res = tc_id call \<and> approvalReportError res = None \<and>
     live_grows cn (le_c L) s s' [own L (tool_call_event call), own L (tool_result_event res)]"
proof -
  have c: "c_ops (le_c L) = AsStore cn" using r by (simp add: reliable_def)
  note st = mem_store [OF c]
  let ?s = "set_w (tick (lv_w s)) s"
  note e = ready_enter [OF r s]
  have m: "tc_mediation call = MediationControllerMediated" "tc_idempotencyKey call \<noteq> []" using t by (simp_all add: tool_tame_def)
  have ng: "\<not> call_gated (lv_calls ?s) i" for i using e(2) by (simp add: ready_def)
  from live_append_ok [OF r e(2) x] obtain rr s1 where a: "live_append L (tool_call_event call) ?s = (Inr rr, s1)" by blast
  from controller_store.live_append_grows [OF st _ refl a] e(2) have
    g: "same_guard ?s s1" "live_grows cn (le_c L) ?s s1 [own L (tool_call_event call)]" by (auto simp: ready_def)
  let ?s2 = "s1\<lparr>lv_calls := (lv_calls s1)(tc_id call \<mapsto> False)\<rparr>"
  have "ready cn L s1" using ready_grows [OF c e(2) g(2)] g(1) e(2) by (simp add: same_guard_def ready_def)
  then have "ready cn L ?s2" by (simp add: ready_def call_gated_def)
  from live_execTool_ok [OF r this x] obtain res s' where x2: "live_execTool L call ?s2 = (Inr res, s')" by blast
  with a m ng have tc: "live_toolCall L call ?s = (Inr res, s')" by (simp add: live_toolCall_def)
  from controller_store.live_toolCall_grows [OF st _ refl _ tc] e(2) m(1) have
    g2: "lv_stop s' = None" "\<not> lv_closed s'" "lv_calls s' = (lv_calls ?s)(tc_id call \<mapsto> False)" "tr_id res = tc_id call" "approvalReportError res = None"
      "live_grows cn (le_c L) ?s s' [own L (tool_call_event call), own L (tool_result_event res)]"
    by (auto simp: ready_def)
  have "ready cn L s'" using ready_grows [OF c e(2) g2(6)] g2(1-3) ng by (simp add: call_gated_def)
  with tc g2 controller_store.grows_trans [OF st e(3) g2(6)] show ?thesis
    by (simp add: live_ToolCall_def e(1))
qed

lemma usage_tame_recorded:
  assumes "usage_tame g" and "recorded hash k (g u) es (Return err)"
  shows "recorded hash k (g (first_usage es)) es (Return err)"
  using assms(1) unfolding usage_tame_def
proof
  assume "\<forall>u u'. g u = g u'"
  then have "g (first_usage es) = g u" by blast
  with assms(2) show ?thesis by simp
next
  assume "\<forall>u. \<exists>h. g u = CallUsage u h"
  then obtain h where "g u = CallUsage u h" by blast
  with assms(2) have "first_usage es = u"
    by (auto elim!: recorded_usageE simp: first_usage_def usageAt_def)
  with assms(2) show ?thesis by simp
qed

lemma own_event_fields [simp]:
  "ev_kind (own L e) = ev_kind e" "ev_message (own L e) = ev_message e" "ev_modelCall (own L e) = ev_modelCall e"
  "ev_toolCall (own L e) = ev_toolCall e" "ev_result (own L e) = ev_result e" "ev_usage (own L e) = ev_usage e"
  "of_execution (live_id L) (own L e)"
  by (simp_all add: own_def of_execution_def)

lemma live_recorded:
  assumes r: "reliable cn (le_c L)" and x: "le_executionID L \<noteq> []" "\<not> le_legacyRecovery L"
    and "tame (cn_codec (c_canon (le_c L))) p" and "ready cn L s" and "drive (liveSink L) p s = (err, s')"
  shows "\<exists>es. live_grows cn (le_c L) s s' es \<and> ready cn L s' \<and> list_all (of_execution (live_id L)) es \<and>
     recorded (c_hashModelInput (le_c L)) (cn_codec (c_canon (le_c L))) p es (Return err)"
  using assms(4-6)
proof (induction p arbitrary: s)
  case (Return e)
  have "c_ops (le_c L) = AsStore cn" using r by (simp add: reliable_def)
  from controller_store.grows_refl [OF mem_store [OF this]] Return show ?case
    by (auto simp: ready_def intro!: exI [of _ "[]"] rec_done)
next
  case (CallModel req f)
  have c: "c_ops (le_c L) = AsStore cn" using r by (simp add: reliable_def)
  from live_Model_ok [OF r CallModel.prems(2) x, of req] obtain resp i s1 where
    m: "live_Model L req s = (Inr resp, s1)" "ready cn L s1"
    "live_grows cn (le_c L) s s1 [own L (model_call_event (le_c L) req i), own L (output_event (mresp_message resp))]" by blast
  from CallModel.prems m have "drive (liveSink L) (f (Inr resp)) s1 = (err, s')" "tame (cn_codec (c_canon (le_c L))) (f (Inr resp))"
    by (auto simp: liveSink_def)
  from CallModel.IH [OF rangeI this(2) m(2) this(1)] obtain es where
    g: "live_grows cn (le_c L) s1 s' es" "ready cn L s'" "list_all (of_execution (live_id L)) es"
    "recorded (c_hashModelInput (le_c L)) (cn_codec (c_canon (le_c L))) (f (Inr resp)) es (Return err)" by blast
  have "resp = \<lparr>mresp_message = mresp_message resp, mresp_usage = mresp_usage resp\<rparr>" by simp
  with usage_tame_recorded [of "\<lambda>u. f (Inr \<lparr>mresp_message = mresp_message resp, mresp_usage = u\<rparr>)" _ _ "mresp_usage resp"]
    g(4) CallModel.prems(1) have
    "recorded (c_hashModelInput (le_c L)) (cn_codec (c_canon (le_c L)))
       (f (Inr \<lparr>mresp_message = mresp_message resp, mresp_usage = first_usage es\<rparr>)) es (Return err)" by simp
  with controller_store.grows_trans [OF mem_store [OF c] m(3) g(1)] g(2,3) show ?case
    by (intro exI conjI) (assumption, assumption, simp, auto intro!: rec_model simp: model_call_event_def output_event_def)
next
  case (CallOutput d f)
  have c: "c_ops (le_c L) = AsStore cn" using r by (simp add: reliable_def)
  from live_single_ok [OF r CallOutput.prems(2) x live_output_def, of d] obtain s1 where
    m: "live_Output L d s = (None, s1)" "ready cn L s1" "live_grows cn (le_c L) s s1 [own L (output_event (TextMessage ''assistant'' d))]"
    by (auto simp: live_Output_def)
  from CallOutput.prems m have "drive (liveSink L) (f None) s1 = (err, s')" "tame (cn_codec (c_canon (le_c L))) (f None)"
    by (auto simp: liveSink_def)
  from CallOutput.IH [OF rangeI this(2) m(2) this(1)] obtain es where
    g: "live_grows cn (le_c L) s1 s' es" "ready cn L s'" "list_all (of_execution (live_id L)) es"
    "recorded (c_hashModelInput (le_c L)) (cn_codec (c_canon (le_c L))) (f None) es (Return err)" by blast
  with controller_store.grows_trans [OF mem_store [OF c] m(3) g(1)] show ?case
    by (intro exI conjI) (assumption, assumption, simp, auto intro!: rec_output simp: output_event_def)
next
  case (CallToolCall tc f)
  have c: "c_ops (le_c L) = AsStore cn" using r by (simp add: reliable_def)
  have t: "tool_tame (cn_codec (c_canon (le_c L))) tc" using CallToolCall.prems(1) by simp
  from live_ToolCall_ok [OF r CallToolCall.prems(2) x t] obtain res s1 where
    m: "live_ToolCall L tc s = (Inr res, s1)" "ready cn L s1" "tr_id res = tc_id tc" "approvalReportError res = None"
    "live_grows cn (le_c L) s s1 [own L (tool_call_event tc), own L (tool_result_event res)]" by blast
  from CallToolCall.prems m have "drive (liveSink L) (f (Inr res)) s1 = (err, s')" "tame (cn_codec (c_canon (le_c L))) (f (Inr res))"
    by (auto simp: liveSink_def)
  from CallToolCall.IH [OF rangeI this(2) m(2) this(1)] obtain es where
    g: "live_grows cn (le_c L) s1 s' es" "ready cn L s'" "list_all (of_execution (live_id L)) es"
    "recorded (c_hashModelInput (le_c L)) (cn_codec (c_canon (le_c L))) (f (Inr res)) es (Return err)" by blast
  with controller_store.grows_trans [OF mem_store [OF c] m(5) g(1)] m(3,4) t show ?case
    by (intro exI conjI) (assumption, assumption, simp,
      auto intro!: rec_tool matchToolCall_self simp: tool_call_event_def tool_result_event_def tool_tame_def)
next
  case (CallReport tr f)
  have c: "c_ops (le_c L) = AsStore cn" using r by (simp add: reliable_def)
  from live_Report_ok [OF r CallReport.prems(2) x, of tr] obtain s1 where
    m: "live_Report L tr s = (approvalReportError tr, s1)" "ready cn L s1"
    "live_grows cn (le_c L) s s1 (if approvalReportError tr = None then [own L (tool_result_event tr)] else [])" by blast
  from CallReport.prems m approvalReportError_cases [of tr] have
    "drive (liveSink L) (f (approvalReportError tr)) s1 = (err, s')" "tame (cn_codec (c_canon (le_c L))) (f (approvalReportError tr))"
    by (auto simp: liveSink_def)
  from CallReport.IH [OF rangeI this(2) m(2) this(1)] obtain es where
    g: "live_grows cn (le_c L) s1 s' es" "ready cn L s'" "list_all (of_execution (live_id L)) es"
    "recorded (c_hashModelInput (le_c L)) (cn_codec (c_canon (le_c L))) (f (approvalReportError tr)) es (Return err)" by blast
  with controller_store.grows_trans [OF mem_store [OF c] m(3) g(1)] show ?case
    by (intro exI conjI) (assumption, assumption, simp, cases "approvalReportError tr",
      auto intro: rec_report rec_report_rejected simp: tool_result_event_def)
next
  case (CallUsage u f)
  have c: "c_ops (le_c L) = AsStore cn" using r by (simp add: reliable_def)
  from live_single_ok [OF r CallUsage.prems(2) x live_usage_def, of u] obtain s1 where
    m: "live_Usage L u s = (None, s1)" "ready cn L s1" "live_grows cn (le_c L) s s1 [own L (usage_event u)]"
    by (auto simp: live_Usage_def)
  from CallUsage.prems m have "drive (liveSink L) (f None) s1 = (err, s')" "tame (cn_codec (c_canon (le_c L))) (f None)"
    by (auto simp: liveSink_def)
  from CallUsage.IH [OF rangeI this(2) m(2) this(1)] obtain es where
    g: "live_grows cn (le_c L) s1 s' es" "ready cn L s'" "list_all (of_execution (live_id L)) es"
    "recorded (c_hashModelInput (le_c L)) (cn_codec (c_canon (le_c L))) (f None) es (Return err)" by blast
  with controller_store.grows_trans [OF mem_store [OF c] m(3) g(1)] show ?case
    by (intro exI conjI) (assumption, assumption, simp, auto intro!: rec_usage simp: usage_event_def)
qed

end
