(* ===== verification/Replay_Props.thy ===== *)
theory Replay_Props
  imports Replaying
begin

text \<open>
  Exec and Replay as a round trip: what a completed turn recorded, that reading the longer journal
  back leaves the earlier executions as they were, and that replaying it yields the recorded
  outputs again.
\<close>

section \<open>What a completed turn recorded\<close>

lemma exec_turn_recorded:
  assumes r: "reliable cn c" and ok: "log_ok cn (w_log w)" and f: "log_fence (w_log w) \<le> c_fence c"
    and x: "x \<noteq> []" and tm: "\<And>st. tame (cn_codec (c_canon c)) (har_run har st)"
    and e: "exec_turn c har x history inputs ex w = (None, w')"
  shows "\<exists>desc es new. har_describe har (w_tick w) = Inr desc \<and> log_records (w_log w') = log_records (w_log w) @ new \<and>
     map r_event new = start_event c x (length inputs) desc # map (input_event x) inputs @ es @ [end_event\<lparr>ev_executionID := x\<rparr>] \<and>
     turn_effects x False es \<and>
     recorded (c_hashModelInput c) (cn_codec (c_canon c)) (har_run har (exec_start c x history inputs)) es (Return None)"
proof -
  have c: "c_ops c = AsStore cn" using r by (simp add: reliable_def)
  note st = mem_store [OF c]
  note jd = controller_store.journaled_def [OF st]
  obtain desc rr w1 w2 w3 runErr s where d: "har_describe har (w_tick w) = Inr desc"
    and w1: "w1 = tick w"
    and a: "commit c ex (start_event c x (length inputs) desc) w1 = (Inr rr, w2)"
    and b: "append_inputs c x (r_seq rr) inputs w2 = (None, w3)"
    and dr: "drive (liveSink (live_env_of c x har)) (har_run har (exec_start c x history inputs)) (live_init (Some desc) w3) = (runErr, s)"
    and fin: "finish_exec c x runErr s = (None, w')"
    using e by (auto simp: exec_turn_def describeHarness_def split: sum.splits prod.splits option.splits)
  have ok1: "log_ok cn (w_log w1)" using ok w1 by simp
  from controller_store.exec_admit_journaled [OF st ok1 a b] obtain pre where
    j: "controller_store.journaled c log_records log_fence (log_ok cn) (\<lambda>e. e) w1 w3 pre"
    and pre: "map r_event pre = start_event c x (length inputs) desc # map (input_event x) inputs" by auto
  let ?L = "live_env_of c x har"
  have L: "le_c ?L = c" "le_executionID ?L = x" "\<not> le_legacyRecovery ?L" "live_id ?L = x"
    by (simp_all add: live_env_of_def live_id_def)
  have rd: "ready cn ?L (live_init (Some desc) w3)"
    using j f w1 L(1) by (auto simp: ready_def live_init_def jd call_gated_def)
  from live_recorded [of cn ?L, OF _ _ _ _ rd dr] r L x tm obtain es where
    g: "live_grows cn c (live_init (Some desc) w3) s es" and rs: "ready cn ?L s"
    and rc: "recorded (c_hashModelInput c) (cn_codec (c_canon c)) (har_run har (exec_start c x history inputs)) es (Return runErr)"
    and own: "list_all (of_execution (live_id ?L)) es"
    by auto
  from g obtain mid where mid: "controller_store.journaled c log_records log_fence (log_ok cn) (\<lambda>e. e) w3 (lv_w s) mid" "map r_event mid = es"
    by (auto simp: controller_store.grows_def [OF st] live_init_def)
  have oks: "log_ok cn (w_log (lv_w s))" using rs by (simp add: ready_def)
  from controller_store.finish_exec_journaled [OF st oks fin] obtain fi where
    fi: "controller_store.journaled c log_records log_fence (log_ok cn) (\<lambda>e. e) (lv_w s) w' fi"
    "map r_event fi = [end_event\<lparr>ev_executionID := x\<rparr>]" by auto
  have none: "runErr = None" using fin rs by (auto simp: finish_exec_def ready_def split: option.splits)
  have te: "turn_effects x False es" using recorded_plain [OF rc, of x] own L(4) by (simp add: turn_effects_def)
  show ?thesis
    using controller_store.journaled_trans [OF st controller_store.journaled_trans [OF st j mid(1)] fi(1)]
      d pre mid(2) fi(2) te rc none w1
    by (intro exI [of _ desc] exI [of _ es] exI [of _ "(pre @ mid) @ fi"])
       (auto simp: jd controller_store.stored_def [OF st])
qed


section \<open>Replay does not depend on the tick or the captured head\<close>

definition at_tick :: "nat \<Rightarrow> replay \<Rightarrow> replay" where
  "at_tick t s = s\<lparr>rp_tick := t\<rparr>"

lemma at_tick_fields [simp]:
  "rp_i (at_tick t s) = rp_i s" "rp_outputs (at_tick t s) = rp_outputs s" "rp_failure (at_tick t s) = rp_failure s"
  "rp_stop (at_tick t s) = rp_stop s" "rp_closed (at_tick t s) = rp_closed s" "rp_calls (at_tick t s) = rp_calls s"
  "rp_tick (at_tick t s) = t" "at_tick t (at_tick t' s) = at_tick t s"
  by (simp_all add: at_tick_def)

lemma at_tick_upd [simp]:
  "(at_tick t s)\<lparr>rp_i := i\<rparr> = at_tick t (s\<lparr>rp_i := i\<rparr>)"
  "(at_tick t s)\<lparr>rp_outputs := os\<rparr> = at_tick t (s\<lparr>rp_outputs := os\<rparr>)"
  "(at_tick t s)\<lparr>rp_failure := fl\<rparr> = at_tick t (s\<lparr>rp_failure := fl\<rparr>)"
  "(at_tick t s)\<lparr>rp_calls := cs\<rparr> = at_tick t (s\<lparr>rp_calls := cs\<rparr>)"
  by (simp_all add: at_tick_def)

definition rehead_env :: "int64 \<Rightarrow> replay_env \<Rightarrow> replay_env" where
  "rehead_env h R = R\<lparr>re_approvals := (\<lambda>i. map_option (rehead h) (re_approvals R i))\<rparr>"

lemma rehead_env_fields [simp]:
  "re_stream (rehead_env h R) = re_stream R" "re_legacy (rehead_env h R) = re_legacy R"
  "re_codec (rehead_env h R) = re_codec R" "re_hash (rehead_env h R) = re_hash R" "re_ctxErr (rehead_env h R) = re_ctxErr R"
  "re_approvals (rehead_env h R) i = map_option (rehead h) (re_approvals R i)"
  by (simp_all add: rehead_env_def)

lemma consumeApprovalPrefix_rehead [simp]:
  "consumeApprovalPrefix st i (map_option (rehead h) a) = consumeApprovalPrefix st i a"
  by (cases a) (simp_all add: consumeApprovalPrefix_def)

lemma serveApproval_rehead [simp]: "serveApproval (map_option (rehead h) a) r = serveApproval a r"
  by (cases a) (simp_all add: serveApproval_def split: option.split)

lemma replay_result_at [simp]:
  "replay_result (rehead_env h R) call (map_option (rehead h) a) (at_tick t s) = apsnd (at_tick t) (replay_result R call a s)"
  "replay_result (rehead_env h R) call None (at_tick t s) = apsnd (at_tick t) (replay_result R call None s)"
  by (simp_all add: replay_result_def replay_fail_def Let_def split: option.split sum.split)

lemma replay_bodies_at:
  "replay_model (rehead_env h R) req (at_tick t s) = apsnd (at_tick t) (replay_model R req s)"
  "replay_output (rehead_env h R) d (at_tick t s) = apsnd (at_tick t) (replay_output R d s)"
  "replay_report (rehead_env h R) tr (at_tick t s) = apsnd (at_tick t) (replay_report R tr s)"
  "replay_usage (rehead_env h R) u (at_tick t s) = apsnd (at_tick t) (replay_usage R u s)"
  by (simp_all add: replay_model_def replay_output_def replay_report_def replay_usage_def replay_fail_def
      replay_fail_err_def Let_def split: option.split)

lemma replay_toolCall_at:
  "replay_toolCall (rehead_env h R) tc (at_tick t s) = apsnd (at_tick t) (replay_toolCall R tc s)"
  by (simp add: replay_toolCall_def replay_fail_def Let_def split: option.split prod.split)

lemma replay_enter_at:
  assumes "\<forall>t. re_ctxErr R t = None" and "\<And>t s. body' (at_tick t s) = apsnd (at_tick t) (body s)"
  shows "\<exists>t'. replay_enter (rehead_env h R) fail body' (at_tick t s) = apsnd (at_tick t') (replay_enter R fail body s)"
proof -
  have up: "(at_tick t s)\<lparr>rp_tick := n\<rparr> = at_tick n s" for t n s by (simp add: at_tick_def)
  have body: "body' (at_tick (Suc t) s) = apsnd (at_tick (Suc t)) (body (s\<lparr>rp_tick := Suc (rp_tick s)\<rparr>))"
    using assms(2) [of "Suc t" "s\<lparr>rp_tick := Suc (rp_tick s)\<rparr>"] by (simp add: at_tick_def)
  show ?thesis
    using assms(1) body
    by (auto simp: replay_enter_def Let_def up split: option.split intro: exI [of _ t] exI [of _ "Suc t"])
qed

lemma replay_methods_at:
  assumes "\<forall>t. re_ctxErr R t = None"
  shows "\<exists>t'. replay_Model (rehead_env h R) req (at_tick t s) = apsnd (at_tick t') (replay_Model R req s)"
    and "\<exists>t'. replay_Output (rehead_env h R) d (at_tick t s) = apsnd (at_tick t') (replay_Output R d s)"
    and "\<exists>t'. replay_ToolCall (rehead_env h R) tc (at_tick t s) = apsnd (at_tick t') (replay_ToolCall R tc s)"
    and "\<exists>t'. replay_Report (rehead_env h R) tr (at_tick t s) = apsnd (at_tick t') (replay_Report R tr s)"
    and "\<exists>t'. replay_Usage (rehead_env h R) u (at_tick t s) = apsnd (at_tick t') (replay_Usage R u s)"
  unfolding replay_Model_def replay_Output_def replay_ToolCall_def replay_Report_def replay_Usage_def
  by (rule replay_enter_at [OF assms], simp only: replay_bodies_at replay_toolCall_at)+

lemma drive_replay_at:
  assumes "\<forall>t. re_ctxErr R t = None"
  shows "\<exists>t'. drive (replaySink (rehead_env h R)) p (at_tick t s) = apsnd (at_tick t') (drive (replaySink R) p s)"
proof (induction p arbitrary: s t)
  case (Return e)
  show ?case by auto
next
  case (CallModel req f)
  obtain t1 where "replay_Model (rehead_env h R) req (at_tick t s) = apsnd (at_tick t1) (replay_Model R req s)"
    using replay_methods_at(1) [OF assms] by blast
  with CallModel.IH [OF rangeI] show ?case by (simp add: replaySink_def case_prod_unfold Let_def)
next
  case (CallOutput d f)
  obtain t1 where "replay_Output (rehead_env h R) d (at_tick t s) = apsnd (at_tick t1) (replay_Output R d s)"
    using replay_methods_at(2) [OF assms] by blast
  with CallOutput.IH [OF rangeI] show ?case by (simp add: replaySink_def case_prod_unfold Let_def)
next
  case (CallToolCall tc f)
  obtain t1 where "replay_ToolCall (rehead_env h R) tc (at_tick t s) = apsnd (at_tick t1) (replay_ToolCall R tc s)"
    using replay_methods_at(3) [OF assms] by blast
  with CallToolCall.IH [OF rangeI] show ?case by (simp add: replaySink_def case_prod_unfold Let_def)
next
  case (CallReport tr f)
  obtain t1 where "replay_Report (rehead_env h R) tr (at_tick t s) = apsnd (at_tick t1) (replay_Report R tr s)"
    using replay_methods_at(4) [OF assms] by blast
  with CallReport.IH [OF rangeI] show ?case by (simp add: replaySink_def case_prod_unfold Let_def)
next
  case (CallUsage u f)
  obtain t1 where "replay_Usage (rehead_env h R) u (at_tick t s) = apsnd (at_tick t1) (replay_Usage R u s)"
    using replay_methods_at(5) [OF assms] by blast
  with CallUsage.IH [OF rangeI] show ?case by (simp add: replaySink_def case_prod_unfold Let_def)
qed


lemma approvalEvidence_rehead:
  "sc_states scan' = map (rehead h) (sc_states scan) \<Longrightarrow>
     approvalEvidence scan' x = (\<lambda>i. map_option (rehead h) (approvalEvidence scan x i))"
proof -
  assume sc: "sc_states scan' = map (rehead h) (sc_states scan)"
  let ?g = "\<lambda>st m. if as_executionID st = x then m(tc_id (as_call st) \<mapsto> st) else m"
  have "fold ?g (map (rehead h) sts) (\<lambda>i. map_option (rehead h) (m i)) = (\<lambda>i. map_option (rehead h) (fold ?g sts m i))" for sts m
  proof (induction sts arbitrary: m)
    case (Cons st sts)
    have "?g (rehead h st) (\<lambda>i. map_option (rehead h) (m i)) = (\<lambda>i. map_option (rehead h) (?g st m i))" by auto
    with Cons.IH [of "?g st m"] show ?case by simp
  qed simp
  from this [of "sc_states scan" Map.empty] sc show ?thesis by (simp add: approvalEvidence_def)
qed

lemma replay_execution_world:
  "snd (replay_execution c har recs scan b x w) = w\<lparr>w_tick := w_tick (snd (replay_execution c har recs scan b x w))\<rparr>"
  by (simp add: replay_execution_def Let_def split: sum.split prod.split option.split)

lemma replay_execution_indep:
  assumes ctx: "\<forall>t. c_ctxErr c t = None" and st: "replay_start c recs' x = replay_start c recs x"
    and sc: "sc_states scan' = map (rehead h) (sc_states scan)"
    and b: "w_liveModelCalls w = b" "w_liveModelCalls w' = b'"
  shows "fst (replay_execution c har recs' scan' b' x w') = fst (replay_execution c har recs scan b x w)"
proof (cases "replay_start c recs x")
  case (Inl e)
  with st show ?thesis by (simp add: replay_execution_def)
next
  case (Inr s0)
  let ?R = "replay_env_of c scan x"
  have R: "replay_env_of c scan' x = rehead_env h ?R"
    by (simp add: replay_env_of_def rehead_env_def approvalEvidence_rehead [OF sc])
  have i: "replay_init (w_tick w') = at_tick (w_tick w') (replay_init (w_tick w))"
    by (simp add: replay_init_def at_tick_def)
  have "\<forall>t. re_ctxErr ?R t = None" using ctx by (simp add: replay_env_of_def)
  from drive_replay_at [OF this] obtain t' where
    "drive (replaySink (replay_env_of c scan' x)) (har_run har s0) (replay_init (w_tick w'))
       = apsnd (at_tick t') (drive (replaySink ?R) (har_run har s0) (replay_init (w_tick w)))"
    unfolding R i by blast
  with Inr st b show ?thesis
    by (cases "drive (replaySink ?R) (har_run har s0) (replay_init (w_tick w))")
       (simp add: replay_execution_def Let_def split: option.split)
qed

lemma replay_loop_append:
  "replay_loop c har recs scan b (xs @ ys) os w =
     (case replay_loop c har recs scan b xs os w of
        (Inl e, w') \<Rightarrow> (Inl e, w')
      | (Inr os', w') \<Rightarrow> replay_loop c har recs scan b ys os' w')"
  by (induction xs arbitrary: os w) (simp_all split: prod.split sum.split)

lemma replay_loop_world:
  "snd (replay_loop c har recs scan b xs os w) = w\<lparr>w_tick := w_tick (snd (replay_loop c har recs scan b xs os w))\<rparr>"
proof (induction xs arbitrary: os w)
  case (Cons x xs)
  obtain r w1 where r: "replay_execution c har recs scan b x w = (r, w1)" by fastforce
  with replay_execution_world [of c har recs scan b x w] have w1: "w1 = w\<lparr>w_tick := w_tick w1\<rparr>" by simp
  show ?case
  proof (cases r)
    case (Inl e)
    with r w1 show ?thesis by simp
  next
    case (Inr out)
    have "snd (replay_loop c har recs scan b xs (os @ out) w1) = (w\<lparr>w_tick := w_tick w1\<rparr>)\<lparr>w_tick := w_tick (snd (replay_loop c har recs scan b xs (os @ out) w1))\<rparr>"
      using Cons.IH [of "os @ out" w1] w1 by metis
    with r Inr show ?thesis by simp
  qed
qed simp

lemma replay_loop_indep:
  assumes ctx: "\<forall>t. c_ctxErr c t = None" and sc: "sc_states scan' = map (rehead h) (sc_states scan)"
    and "\<forall>x \<in> set xs. replay_start c recs' x = replay_start c recs x"
    and "w_liveModelCalls w = b" and "w_liveModelCalls w' = b'"
  shows "fst (replay_loop c har recs' scan' b' xs os w') = fst (replay_loop c har recs scan b xs os w)"
  using assms(3-5)
proof (induction xs arbitrary: os w w')
  case (Cons x xs)
  obtain r w1 where r: "replay_execution c har recs scan b x w = (r, w1)" by fastforce
  obtain r' w1' where r': "replay_execution c har recs' scan' b' x w' = (r', w1')" by fastforce
  have "r' = r" using replay_execution_indep [OF ctx _ sc Cons.prems(2,3), of recs' x recs har] Cons.prems(1) r r' by simp
  moreover have "w_liveModelCalls w1 = b" "w_liveModelCalls w1' = b'"
    using replay_execution_world [of c har recs scan b x w] replay_execution_world [of c har recs' scan' b' x w'] r r' Cons.prems(2,3)
    by (metis snd_conv world.select_convs(2) world.surjective world.update_convs(4))+
  ultimately show ?case using Cons.IH [of w1 w1'] Cons.prems(1) r r' by (cases r) simp_all
qed simp

section \<open>The executions of the earlier journal\<close>

lemma record_event_keeps:
  "record_event i e x = Inr y \<Longrightarrow> rx_start y = rx_start x \<and> rx_legacyEnd y = rx_legacyEnd x"
  by (auto simp: record_event_def split: if_splits option.splits)

lemma group_events_bounds:
  "group_events i es xs byID = Inr (xs', byID') \<Longrightarrow> i + length es \<le> n \<Longrightarrow>
     \<forall>x \<in> set xs. nat (rx_start x) \<le> n \<and> rx_legacyEnd x \<le> n \<Longrightarrow> \<forall>k v. byID k = Some v \<longrightarrow> v < length xs \<Longrightarrow>
     \<forall>x \<in> set xs'. nat (rx_start x) \<le> n \<and> rx_legacyEnd x \<le> n"
proof (induction i es xs byID rule: group_events.induct)
  case (2 i event es xs byID)
  show ?case
  proof (cases "ev_kind event = EventLifecycle \<or> ev_executionID event = []")
    case True
    with 2 show ?thesis by (auto split: if_splits)
  next
    case False
    show ?thesis
    proof (cases "byID (ev_executionID event)")
      case None
      let ?x0 = "empty_execution\<lparr>rx_id := ev_executionID event, rx_start := int i\<rparr>"
      from None False "2.prems"(1) obtain y where y: "record_event i event ?x0 = Inr y" by (auto split: sum.splits)
      have "rx_start y = int i" "rx_legacyEnd y = 0"
        using record_event_keeps [OF y] by (simp_all add: empty_execution_def)
      moreover have "\<forall>k v. (byID(ev_executionID event \<mapsto> length xs)) k = Some v \<longrightarrow> v < length (xs @ [y])"
        using "2.prems"(4) by (auto simp: less_Suc_eq)
      ultimately show ?thesis
        using "2.IH"(2) [of y] None False y "2.prems" by (auto simp: fun_upd_def)
    next
      case (Some k)
      from Some False "2.prems"(1) obtain y where y: "record_event i event (xs ! k) = Inr y" by (auto split: sum.splits)
      have "nat (rx_start y) \<le> n \<and> rx_legacyEnd y \<le> n"
        using record_event_keeps [OF y] "2.prems"(3,4) Some by auto
      then have "\<forall>x \<in> set (xs[k := y]). nat (rx_start x) \<le> n \<and> rx_legacyEnd x \<le> n"
        using "2.prems"(3) set_update_subset_insert [of xs k y] by auto
      then show ?thesis using "2.IH"(3) [of k y] Some False y "2.prems" by auto
    qed
  qed
qed auto

lemma recordedExecutions_bounds:
  assumes "recordedExecutions L = Inr xs" and "x \<in> set xs"
  shows "nat (rx_start x) \<le> length L \<and> rx_legacyEnd x \<le> length L"
proof -
  from assms(1) obtain n byID where lp: "legacyPrefix L = Inr n"
    and g: "group_events n (drop n L) (legacy_executions L n) Map.empty = Inr (xs, byID)"
    by (auto simp: recordedExecutions_def split: sum.splits option.splits)
  have le: "n \<le> length L" by (rule legacyPrefix_le [OF lp])
  have "\<forall>x \<in> set (legacy_executions L n). nat (rx_start x) \<le> length L \<and> rx_legacyEnd x \<le> length L"
    by (auto simp: legacy_executions_def legacyReplayExecution_def empty_execution_def Let_def)
  from group_events_bounds [OF g _ this] le assms(2) show ?thesis by auto
qed


lemma replay_start_append:
  assumes "nat (rx_start x) \<le> length recs" and "rx_legacyEnd x \<le> length recs"
  shows "replay_start c (recs @ T) x = replay_start c recs x"
proof -
  have "recs \<noteq> [] \<Longrightarrow> (recs @ T) ! 0 = recs ! 0" by (cases recs) auto
  moreover have "recs = [] \<Longrightarrow> rx_legacyEnd x = 0" using assms(2) by simp
  ultimately show ?thesis using assms by (cases "recs = []") (auto simp: replay_start_def Let_def split: sum.split)
qed

lemma checkHarness_const:
  assumes "\<And>t. har_describe har t = Inr desc"
  shows "checkHarness c har xs w = (if \<not> list_ex needs_description xs then (Inr None, w) else
     case check_executions (resolvedHarnessName c desc) desc xs of None \<Rightarrow> (Inr (Some desc), tick w) | Some e \<Rightarrow> (Inl e, tick w))"
  using assms by (simp add: checkHarness_def describeHarness_def split: option.split)

lemma check_executions_unneeded: "\<not> list_ex needs_description xs \<Longrightarrow> check_executions name desc xs = None"
  by (induction xs) (auto simp: needs_description_def)

lemma check_executions_append:
  "check_executions name desc (xs @ ys) = (case check_executions name desc xs of None \<Rightarrow> check_executions name desc ys | Some e \<Rightarrow> Some e)"
  by (induction xs) auto

lemma checkHarness_ok:
  assumes "\<And>t. har_describe har t = Inr desc"
  shows "(\<exists>d w'. checkHarness c har xs w = (Inr d, w')) \<longleftrightarrow> check_executions (resolvedHarnessName c desc) desc xs = None"
  using check_executions_unneeded [of xs "resolvedHarnessName c desc" desc]
  by (auto simp: checkHarness_const [OF assms] split: option.splits)

lemma checkHarness_world:
  "checkHarness c har xs w = (r, w') \<Longrightarrow> w' = w\<lparr>w_tick := w_tick w'\<rparr>"
  by (auto simp: checkHarness_def describeHarness_def tick_def split: if_splits sum.splits option.splits)

lemma plain_not_evidence: "plain_effect x e \<Longrightarrow> \<not> approval_evidence_event e"
  by (auto simp: plain_effect_def approval_evidence_event_def gated_call_def approvalReportError_def split: if_splits)

lemma plain_no_approval: "list_all (plain_effect x) es \<Longrightarrow> \<not> hasApproval (turn_execution x i s ins es b)"
  by (auto simp: hasApproval_def turn_execution_def gated_call_def list_all_iff plain_effect_def)

text \<open>One replayed turn: the recorded stream is served to the end and yields its outputs.\<close>

lemma replay_turn:
  assumes ctx: "\<forall>t. c_ctxErr c t = None" and s: "s = the (ev_executionStart (start_event c0 x n desc))"
    and uid: "c_sessionUID c = c_sessionUID c0"
    and rec: "recorded (c_hashModelInput c) (cn_codec (c_canon c)) (har_run har (exec_start c0 x (map r_event rs) ins)) es (Return None)"
    and b: "w_liveModelCalls w = b"
  shows "fst (replay_execution c har (rs @ T) scan b (turn_execution x (length rs) s ins es True) w) = Inr (output_texts es)"
proof -
  let ?x = "turn_execution x (length rs) s ins es True"
  have st: "replay_start c (rs @ T) ?x = Inr (exec_start c0 x (map r_event rs) ins)"
    by (simp add: s uid replay_start_def turn_execution_def started_def empty_execution_def exec_start_def start_event_def)
  let ?R = "replay_env_of c scan ?x"
  have R: "replay_ready ?R (c_hashModelInput c) (cn_codec (c_canon c))"
    using ctx by (simp add: replay_ready_def replay_env_of_def turn_execution_def started_def empty_execution_def)
  have stream: "rx_stream ?x = es" "re_stream ?R = es"
    by (simp_all add: turn_execution_def replay_env_of_def)
  have sv: "serving ?R (replay_init (w_tick w)) es"
    using stream by (simp add: serving_def replay_init_def call_gated_def)
  from replay_recorded [OF rec sv R] obtain s' where
    d: "drive (replaySink ?R) (har_run har (exec_start c0 x (map r_event rs) ins)) (replay_init (w_tick w)) = (None, s')"
    and s': "serving ?R s' []" "rp_outputs s' = output_texts es"
    by (auto simp: replay_init_def)
  have "rp_i s' = length es" using s'(1) stream by (simp add: serving_def)
  with d s' st b stream show ?thesis by (simp add: replay_execution_def Let_def serving_def)
qed


section \<open>Properties\<close>

text \<open>What admission checked before the turn ran.\<close>

lemma Exec_log_ok:
  assumes "c_ops c = AsStore cn" and "log_ok cn (w_log w)" and "Exec c har inputs ex w = (res, w')"
  shows "log_ok cn (w_log w')"
  using controller_store.Exec_journaled [OF mem_store [OF assms(1)] assms(2,3)]
    controller_store.journaled_invar [OF mem_store [OF assms(1)]] by blast

lemma Exec_admitted:
  assumes "Exec c har inputs ex w = (None, w')" and "c_ops c = AsStore cn" and "log_ok cn (w_log w)"
  shows "exec_turn c har (c_newID c (w_tick w)) (map r_event (log_records (w_log w))) inputs ex (tick w) = (None, w') \<and>
     (\<exists>scan. scanApprovalRecords (log_records (w_log w)) 0 = Inr scan) \<and>
     (\<exists>n. legacyPrefix (map r_event (log_records (w_log w))) = Inr n)"
proof -
  have "Store_Read (c_ops c) 1 (w_log w) = Inr (log_records (w_log w))" using assms(2,3) by (simp add: mem_read)
  with assms(1) show ?thesis
    by (auto simp: Exec_def newID_def Let_def split: option.splits sum.splits if_splits)
qed

lemma Replay_mem:
  assumes "c_ops c = AsStore cn" and "log_ok cn (w_log w)"
  shows "Replay c har w = (let recs = log_records (w_log w) in
     case recordedExecutions (map r_event recs) of
        Inl e \<Rightarrow> (Inl e, w)
      | Inr xs \<Rightarrow>
     (case scanApprovalRecords recs 0 of
        Inl e \<Rightarrow> (Inl e, w)
      | Inr scan \<Rightarrow>
     (case checkHarness c har (replay_selected xs) w of
        (Inl e, w') \<Rightarrow> (Inl e, w')
      | (Inr _, w') \<Rightarrow>
          replay_loop c har recs scan (w_liveModelCalls w') (replay_selected xs) [] w')))"
proof -
  have "Store_Read (c_ops c) 1 (w_log w) = Inr (log_records (w_log w))" using assms by (simp add: mem_read)
  then show ?thesis by (simp add: Replay_def Let_def)
qed

lemma Replay_readonly: "snd (Replay c har w) = w\<lparr>w_tick := w_tick (snd (Replay c har w))\<rparr>"
proof (cases "\<exists>recs xs scan d w1. Store_Read (c_ops c) 1 (w_log w) = Inr recs \<and> recordedExecutions (map r_event recs) = Inr xs \<and>
    scanApprovalRecords recs 0 = Inr scan \<and> checkHarness c har (replay_selected xs) w = (Inr d, w1)")
  case True
  then obtain recs xs scan d w1 where h: "Store_Read (c_ops c) 1 (w_log w) = Inr recs" "recordedExecutions (map r_event recs) = Inr xs"
    "scanApprovalRecords recs 0 = Inr scan" "checkHarness c har (replay_selected xs) w = (Inr d, w1)" by blast
  let ?l = "replay_loop c har recs scan (w_liveModelCalls w1) (replay_selected xs) [] w1"
  have "snd ?l = (w\<lparr>w_tick := w_tick w1\<rparr>)\<lparr>w_tick := w_tick (snd ?l)\<rparr>"
    using replay_loop_world [of c har recs scan "w_liveModelCalls w1" "replay_selected xs" "[]" w1] checkHarness_world [OF h(4)] by metis
  with h show ?thesis by (simp add: Replay_def)
next
  case False
  then show ?thesis
    by (auto simp: Replay_def split: sum.split prod.split dest: checkHarness_world)
qed

lemma Replay_completed:
  assumes c: "c_ops c = AsStore cn" and ok: "log_ok cn (w_log w)" and rp: "Replay c har w = (Inr old, w0)"
    and d: "\<And>t. har_describe har t = Inr desc"
  shows "\<exists>xs scan w1. recordedExecutions (map r_event (log_records (w_log w))) = Inr xs \<and>
     scanApprovalRecords (log_records (w_log w)) 0 = Inr scan \<and>
     check_executions (resolvedHarnessName c desc) desc (replay_selected xs) = None \<and>
     fst (replay_loop c har (log_records (w_log w)) scan (w_liveModelCalls w1) (replay_selected xs) [] w1) = Inr old"
proof -
  from rp Replay_mem [OF c ok, of har] obtain xs scan dd w1 where
    h: "recordedExecutions (map r_event (log_records (w_log w))) = Inr xs" "scanApprovalRecords (log_records (w_log w)) 0 = Inr scan"
    "checkHarness c har (replay_selected xs) w = (Inr dd, w1)"
    "replay_loop c har (log_records (w_log w)) scan (w_liveModelCalls w1) (replay_selected xs) [] w1 = (Inr old, w0)"
    by (auto simp: Let_def split: sum.splits prod.splits)
  with checkHarness_ok [of har desc c "replay_selected xs" w, OF d] show ?thesis
    by (intro exI [of _ xs] exI [of _ scan] exI [of _ w1]) auto
qed

lemma scan_completed_turn:
  assumes sc: "scanApprovalRecords rs 0 = Inr scan" and x: "fresh_id x (map r_event rs)"
    and st: "marks_start x n st"
    and new: "map r_event new = st # map (input_event x) ins @ es @ [end_event\<lparr>ev_executionID := x\<rparr>]"
    and te: "turn_effects x False es"
  shows "\<exists>scan' h. scanApprovalRecords (rs @ new) 0 = Inr scan' \<and> sc_states scan' = map (rehead h) (sc_states scan)"
proof -
  have evs: "e \<in> r_event ` set new \<longleftrightarrow> e = st \<or> e \<in> input_event x ` set ins \<or> e \<in> set es \<or> e = end_event\<lparr>ev_executionID := x\<rparr>" for e
    using arg_cong [OF new, of set] by auto
  have p: "\<forall>e \<in> set es. plain_effect x e" using te by (simp add: turn_effects_def list_all_iff)
  have own: "\<forall>r \<in> set new. ev_executionID (r_event r) = x \<and> ev_kind (r_event r) \<noteq> EventLifecycle"
  proof
    fix r assume "r \<in> set new"
    with evs [of "r_event r"] p st show "ev_executionID (r_event r) = x \<and> ev_kind (r_event r) \<noteq> EventLifecycle"
      by (auto simp: marks_start_def input_event_def end_event_def zero_event_def plain_effect_def)
  qed
  have none: "\<not> (\<exists>r \<in> set new. approval_evidence_event (r_event r))"
  proof
    assume "\<exists>r \<in> set new. approval_evidence_event (r_event r)"
    then obtain r where "r \<in> set new" "approval_evidence_event (r_event r)" by blast
    with evs [of "r_event r"] p plain_not_evidence st show False
      by (auto simp: marks_start_def input_event_def end_event_def zero_event_def approval_evidence_event_def gated_call_def)
  qed
  have "new \<noteq> []" using new by auto
  from scan_turn_records [OF sc x this own] none show ?thesis
    by (simp add: Let_def) (metis approval_scan.select_convs(2))
qed

text \<open>
  Two controllers of one session: what identifies the session and how requests and events are hashed
  is the same; fences, providers, tools and fresh IDs may differ.
\<close>

definition same_session :: "'s controller \<Rightarrow> 's controller \<Rightarrow> bool" where
  "same_session c0 c \<longleftrightarrow> c_sessionUID c = c_sessionUID c0 \<and> c_harnessName c = c_harnessName c0 \<and>
     c_hashModelInput c = c_hashModelInput c0 \<and> c_canon c = c_canon c0"

lemma same_session_refl [simp]: "same_session c c"
  by (simp add: same_session_def)

text \<open>
  A journal that replayed, extended by one completed turn whose effects are a recording of the
  harness's run, replays to the old outputs followed by those of the turn.
\<close>

lemma replay_extended:
  assumes c: "c_ops c = AsStore cn" and ctx: "\<forall>t. c_ctxErr c t = None" and ss: "same_session c0 c"
    and ok: "log_ok cn (w_log w)" and before: "Replay c har w = (Inr old, w0)"
    and d: "\<And>t. har_describe har t = Inr desc" and x: "x \<noteq> []" "fresh_id x (map r_event (log_records (w_log w)))"
    and lp: "legacyPrefix (map r_event (log_records (w_log w))) = Inr n" "n = 0 \<or> n < length (log_records (w_log w))"
    and ok': "log_ok cn (w_log w')" and recs: "log_records (w_log w') = log_records (w_log w) @ new"
    and new: "map r_event new = start_event c0 x (length inputs) desc # map (input_event x) inputs @ es @ [end_event\<lparr>ev_executionID := x\<rparr>]"
    and te: "turn_effects x False es"
    and rc: "recorded (c_hashModelInput c) (cn_codec (c_canon c))
       (har_run har (exec_start c0 x (map r_event (log_records (w_log w))) inputs)) es (Return None)"
  shows "\<exists>t. Replay c har w' = (Inr (old @ output_texts (map r_event new)), w'\<lparr>w_tick := t\<rparr>)"
proof -
  let ?rs = "log_records (w_log w)"
  let ?T = "turn_execution x (length ?rs) (the (ev_executionStart (start_event c0 x (length inputs) desc))) inputs es True"
  from Replay_completed [OF c ok before d] obtain xs scan w1 where xs: "recordedExecutions (map r_event ?rs) = Inr xs"
    and scan: "scanApprovalRecords ?rs 0 = Inr scan"
    and ch: "check_executions (resolvedHarnessName c desc) desc (replay_selected xs) = None"
    and lo: "fst (replay_loop c har ?rs scan (w_liveModelCalls w1) (replay_selected xs) [] w1) = Inr old" by blast
  have xs': "recordedExecutions (map r_event (?rs @ new)) = Inr (xs @ [?T])"
    using recordedExecutions_turn [OF xs lp(1) _ x, of "start_event c0 x (length inputs) desc" _ inputs es "[end_event\<lparr>ev_executionID := x\<rparr>]"]
      lp(2) new turn_effects_stream_kind [OF te]
    by (simp add: start_event_def terminal_def)
  have "marks_start x (length inputs) (start_event c0 x (length inputs) desc)"
    by (simp add: marks_start_def start_event_def)
  from scan_completed_turn [OF scan x(2) this new te] obtain scan' h where
    scan': "scanApprovalRecords (?rs @ new) 0 = Inr scan'" "sc_states scan' = map (rehead h) (sc_states scan)" by blast
  have sel: "replay_selected (xs @ [?T]) = replay_selected xs @ [?T]"
    by (simp add: replay_selected_def turn_execution_def)
  have "resolvedHarnessName c desc = resolvedHarnessName c0 desc"
    using ss by (simp add: same_session_def resolvedHarnessName_def)
  then have "check_executions (resolvedHarnessName c desc) desc (replay_selected (xs @ [?T])) = None"
    using ch plain_no_approval [of x es] te unfolding sel
    by (simp add: check_executions_append turn_effects_def) (simp add: turn_execution_def started_def start_event_def)
  with checkHarness_ok [of har desc c "replay_selected (xs @ [?T])" w', OF d] obtain dd w2 where
    w2: "checkHarness c har (replay_selected (xs @ [?T])) w' = (Inr dd, w2)" by blast
  obtain r w3 where lo': "replay_loop c har (?rs @ new) scan' (w_liveModelCalls w2) (replay_selected xs) [] w2 = (r, w3)" by fastforce
  have "\<forall>y \<in> set (replay_selected xs). replay_start c (?rs @ new) y = replay_start c ?rs y"
    using recordedExecutions_bounds [OF xs] by (auto simp: replay_selected_def intro: replay_start_append)
  from replay_loop_indep [OF ctx scan'(2) this refl refl, of har w2 "[]" w1] lo lo' have "r = Inr old" by simp
  have w3: "w3 = w2\<lparr>w_tick := w_tick w3\<rparr>"
    using replay_loop_world [of c har "?rs @ new" scan' "w_liveModelCalls w2" "replay_selected xs" "[]" w2] lo' by simp
  then have "w_liveModelCalls w3 = w_liveModelCalls w2" by (metis world.select_convs(2) world.surjective world.update_convs(4))
  moreover have "c_sessionUID c = c_sessionUID c0" using ss by (simp add: same_session_def)
  ultimately have "fst (replay_execution c har (?rs @ new) scan' (w_liveModelCalls w2) ?T w3) = Inr (output_texts es)"
    by (intro replay_turn [OF ctx refl _ rc])
  then obtain w4 where "replay_execution c har (?rs @ new) scan' (w_liveModelCalls w2) ?T w3 = (Inr (output_texts es), w4)"
    by (metis prod.collapse)
  with \<open>r = Inr old\<close> have rp: "Replay c har w' = (Inr (old @ output_texts es), w4)"
    using Replay_mem [OF c ok'] xs' scan'(1) w2 lo' by (simp add: recs sel replay_loop_append)
  have "output_texts (map r_event new) = output_texts es"
    unfolding new by (simp add: output_texts_def start_event_def input_event_def end_event_def zero_event_def comp_def)
  with rp Replay_readonly [of c har w'] show ?thesis by (metis snd_conv)
qed

text \<open>
  (C1) Replay reproduces a completed turn.  Suppose the environment does not fail, the harness keeps
  one descriptor and plays by the replay rules (\<open>tame\<close>), the new execution ID is fresh, and the
  journal is not purely a v0.1.2 one.  If the journal replayed to \<open>old\<close> before an \<^verbatim>\<open>Exec\<close> that
  completed, then after it the journal replays to \<open>old\<close> followed by the outputs the new turn
  recorded, and the replay leaves the journal, the invocation counters and everything outside
  untouched.
\<close>

theorem exec_then_replay:
  assumes r: "reliable cn c" and ok: "log_ok cn (w_log w)" and f: "log_fence (w_log w) \<le> c_fence c"
    and d: "\<And>t. har_describe har t = Inr desc" and tm: "\<And>st. tame (cn_codec (c_canon c)) (har_run har st)"
    and x: "c_newID c (w_tick w) \<noteq> []" "fresh_id (c_newID c (w_tick w)) (map r_event (log_records (w_log w)))"
    and lp: "legacyPrefix (map r_event (log_records (w_log w))) = Inr n" "n = 0 \<or> n < length (log_records (w_log w))"
    and before: "Replay c har w = (Inr old, w0)"
    and e: "Exec c har inputs ex w = (None, w')"
  shows "\<exists>new t. log_records (w_log w') = log_records (w_log w) @ new \<and>
     Replay c har w' = (Inr (old @ output_texts (map r_event new)), w'\<lparr>w_tick := t\<rparr>)"
proof -
  let ?x = "c_newID c (w_tick w)" and ?rs = "log_records (w_log w)"
  have c: "c_ops c = AsStore cn" and ctx: "\<forall>t. c_ctxErr c t = None" using r by (simp_all add: reliable_def)
  from Exec_admitted [OF e c ok] have
    et: "exec_turn c har ?x (map r_event ?rs) inputs ex (tick w) = (None, w')" by blast
  from exec_turn_recorded [OF r _ _ x(1) tm et] ok f d obtain es new where
    recs: "log_records (w_log w') = ?rs @ new" and
    new: "map r_event new = start_event c ?x (length inputs) desc # map (input_event ?x) inputs @ es @ [end_event\<lparr>ev_executionID := ?x\<rparr>]" and
    te: "turn_effects ?x False es" and
    rc: "recorded (c_hashModelInput c) (cn_codec (c_canon c)) (har_run har (exec_start c ?x (map r_event ?rs) inputs)) es (Return None)"
    by auto
  have ok': "log_ok cn (w_log w')" by (rule Exec_log_ok [OF c ok e])
  from replay_extended [OF c ctx same_session_refl ok before d x lp ok' recs new te rc] recs show ?thesis by blast
qed


lemma sample_reliable: "reliable short_canon sample_controller"
  by (simp add: reliable_def sample_controller_def canon_total_def model_answers_def tools_answer_def
      short_canon_def plain_canon_def HashRecord_def canon_Record_def approvalReportError_def)

lemma sample_tame: "tame k (har_run sample_harness st)"
  by (auto simp: sample_harness_def sample_call_def tool_tame_def usage_tame_def)

theorem exec_then_replay_witness:
  "\<exists>w' new t. Exec sample_controller sample_harness [TextMessage ''user'' ''hello''] 0 sample_world = (None, w') \<and>
     log_records (w_log w') = new \<and> length new = 9 \<and>
     Replay sample_controller sample_harness w' = (Inr (output_texts (map r_event new)), w'\<lparr>w_tick := t\<rparr>)"
proof -
  have e1: "case Exec sample_controller sample_harness [TextMessage ''user'' ''hello''] 0 sample_world of
      (r, w') \<Rightarrow> r = None \<and> length (log_records (w_log w')) = 9"
    by code_simp
  then obtain w' where e: "Exec sample_controller sample_harness [TextMessage ''user'' ''hello''] 0 sample_world = (None, w')"
    and n: "length (log_records (w_log w')) = 9" by auto
  have "fst (Replay sample_controller sample_harness sample_world) = Inr []" by code_simp
  then obtain w0 where b: "Replay sample_controller sample_harness sample_world = (Inr [], w0)" by (metis prod.collapse)
  have h: "log_ok short_canon (w_log sample_world)" "log_fence (w_log sample_world) \<le> c_fence sample_controller"
    "c_newID sample_controller (w_tick sample_world) \<noteq> []" "log_records (w_log sample_world) = []"
    "legacyPrefix (map r_event (log_records (w_log sample_world))) = Inr 0"
    by (simp_all add: sample_world_def sample_controller_def New_def log_ok_def legacyPrefix_def)
  from exec_then_replay [OF sample_reliable h(1,2) _ sample_tame h(3) _ h(5) _ b e, of sample_descriptor] h(4) n e
  show ?thesis by (auto simp: sample_harness_def fresh_id_def)
qed

text \<open>
  Replay is read-only, for every controller, store, harness and journal and on every path,
  failures included: it appends nothing, invokes neither the model nor a tool (I1), moves no counter
  and tells the observer nothing.
\<close>

theorem replay_touches_nothing:
  "w_log (snd (Replay c har w)) = w_log w \<and> w_external (snd (Replay c har w)) = w_external w \<and>
   w_liveModelCalls (snd (Replay c har w)) = w_liveModelCalls w \<and>
   w_liveToolCalls (snd (Replay c har w)) = w_liveToolCalls w \<and> w_observed (snd (Replay c har w)) = w_observed w"
  by (subst (1 2 3 4 5) Replay_readonly) simp

end
