(* ===== verification/Gates.thy ===== *)
theory Gates
  imports Replay_Props
begin

text \<open>
  The life of an approval gate across operations: a turn that parks leaves a journal whose scan
  selects exactly the open gate, which blocks every later turn until it is decided; \<^verbatim>\<open>Approve\<close>
  writes one decision for an open gate of this session and nothing else, and repeats are answered
  from the journal.
\<close>

section \<open>A parked turn is the open gate\<close>

lemma seqs_ok_lt: "seqs_ok (A @ B) \<Longrightarrow> a \<in> set A \<Longrightarrow> b \<in> set B \<Longrightarrow> r_seq a < r_seq b"
proof -
  assume ok: "seqs_ok (A @ B)" and a: "a \<in> set A" and b: "b \<in> set B"
  from a obtain i where i: "i < length A" "A ! i = a" by (metis in_set_conv_nth)
  from b obtain j where j: "j < length B" "B ! j = b" by (metis in_set_conv_nth)
  from seqs_ok_nth [OF ok, of i] seqs_ok_nth [OF ok, of "length A + j"] i j
  show ?thesis by (simp add: nth_append)
qed

lemma map_split_tail:
  assumes "map f xs = a # A @ B @ [c, d]"
  shows "\<exists>y ys zs u v. xs = y # ys @ zs @ [u, v] \<and> f y = a \<and> map f ys = A \<and> map f zs = B \<and> f u = c \<and> f v = d"
proof -
  from assms obtain y xs1 where 1: "xs = y # xs1" "f y = a" "map f xs1 = A @ B @ [c, d]" by auto
  then obtain ys xs2 where 2: "xs1 = ys @ xs2" "map f ys = A" "map f xs2 = B @ [c, d]"
    by (metis map_eq_append_conv)
  then obtain zs xs3 where 3: "xs2 = zs @ xs3" "map f zs = B" "map f xs3 = [c, d]"
    by (metis map_eq_append_conv)
  then obtain u v where "xs3 = [u, v]" "f u = c" "f v = d" by auto
  with 1 2 3 show ?thesis by auto
qed

lemma turn_shape_parked:
  assumes "turn_shape x inputs es" and "es \<noteq> []" and "ev_kind (last es) = EventApprovalRequest"
  obtains st pre call where "marks_start x (length inputs) st"
    "es = st # map (input_event x) inputs @ pre @ [(tool_call_event call)\<lparr>ev_executionID := x\<rparr>,
        (approval_request_event (tc_id call))\<lparr>ev_executionID := x\<rparr>]"
    "list_all (plain_effect x) pre"
    "sealing x pre [(tool_call_event call)\<lparr>ev_executionID := x\<rparr>, (approval_request_event (tc_id call))\<lparr>ev_executionID := x\<rparr>]"
proof -
  from assms(1,2) obtain st rest where st: "marks_start x (length inputs) st" and es: "es = st # rest"
    and rest: "(\<exists>k. rest = map (input_event x) (take k inputs)) \<or>
       (\<exists>eff. rest = map (input_event x) inputs @ eff \<and> turn_effects x True eff) \<or>
       (\<exists>eff fin. rest = map (input_event x) inputs @ eff @ fin \<and> turn_effects x False eff \<and> terminal x fin)"
    unfolding turn_shape_def by blast
  have stk: "ev_kind st = EventExecutionStart" using st by (simp add: marks_start_def)
  have noreq: False if "\<forall>e \<in> set rest. ev_kind e \<noteq> EventApprovalRequest"
    using that assms(3) es stk by (cases "rest = []") auto
  from rest show ?thesis
  proof (elim disjE exE conjE)
    fix k assume "rest = map (input_event x) (take k inputs)"
    then have "\<forall>e \<in> set rest. ev_kind e \<noteq> EventApprovalRequest" by (auto simp: input_event_def)
    with noreq show ?thesis by blast
  next
    fix eff fin assume "rest = map (input_event x) inputs @ eff @ fin" "turn_effects x False eff" "terminal x fin"
    then have "\<forall>e \<in> set rest. ev_kind e \<noteq> EventApprovalRequest"
      by (auto simp: input_event_def turn_effects_def list_all_iff plain_effect_def terminal_def
          end_event_def error_event_def zero_event_def)
    with noreq show ?thesis by blast
  next
    fix eff assume r: "rest = map (input_event x) inputs @ eff" and "turn_effects x True eff"
    then obtain pre tail where eff: "eff = pre @ tail" "list_all (plain_effect x) pre" "sealing x pre tail"
      by (auto simp: turn_effects_def)
    from eff(3) obtain call where "tail = [(tool_call_event call)\<lparr>ev_executionID := x\<rparr>] \<or>
      tail = [(tool_call_event call)\<lparr>ev_executionID := x\<rparr>, (approval_request_event (tc_id call))\<lparr>ev_executionID := x\<rparr>]"
      unfolding sealing_def by (elim exE conjE) (rule that)
    moreover have "tail \<noteq> [(tool_call_event call)\<lparr>ev_executionID := x\<rparr>]"
      using assms(3) es r eff(1) by (auto simp: tool_call_event_def)
    ultimately have "tail = [(tool_call_event call)\<lparr>ev_executionID := x\<rparr>, (approval_request_event (tc_id call))\<lparr>ev_executionID := x\<rparr>]"
      by blast
    with that [OF st, of pre call] es r eff show ?thesis by simp
  qed
qed

text \<open>The scan of a journal that ends in such a turn.\<close>

lemma scan_parked_turn:
  assumes sc: "scanApprovalRecords rs 0 = Inr scan" and ok: "seqs_ok (rs @ new)"
    and x: "x \<noteq> []" "fresh_id x (map r_event rs)"
    and shape: "turn_shape x inputs (map r_event new)" and req: "new \<noteq> []" "ev_kind (r_event (last new)) = EventApprovalRequest"
  shows "\<exists>scan' st. scanApprovalRecords (rs @ new) 0 = Inr scan' \<and> selected_state scan' = Some st \<and>
     as_executionID st = x \<and> as_request st = Some (last new) \<and> as_decision st = None \<and> as_receipt st = None \<and>
     \<not> as_inherited st \<and> \<not> as_completed st \<and> sc_head scan' = r_seq (last new)"
proof -
  have "ev_kind (last (map r_event new)) = EventApprovalRequest" using req by (simp add: last_map)
  with turn_shape_parked [OF shape] req(1) obtain st pre call where
    st: "marks_start x (length inputs) st" and
    new: "map r_event new = st # map (input_event x) inputs @ pre @ [(tool_call_event call)\<lparr>ev_executionID := x\<rparr>,
        (approval_request_event (tc_id call))\<lparr>ev_executionID := x\<rparr>]" and
    pre: "list_all (plain_effect x) pre" and
    seal: "sealing x pre [(tool_call_event call)\<lparr>ev_executionID := x\<rparr>, (approval_request_event (tc_id call))\<lparr>ev_executionID := x\<rparr>]"
    by (metis list.map_disc_iff)
  from new obtain tst tins tpre r1 r2 where T: "new = tst # tins @ tpre @ [r1, r2]" and
    evs: "r_event tst = st" "map r_event tins = map (input_event x) inputs" "map r_event tpre = pre"
      "map r_event [r1, r2] = [(tool_call_event call)\<lparr>ev_executionID := x\<rparr>, (approval_request_event (tc_id call))\<lparr>ev_executionID := x\<rparr>]"
    using map_split_tail [OF new] by auto
  have own: "\<forall>r \<in> set new. ev_executionID (r_event r) = x \<and> ev_kind (r_event r) \<noteq> EventLifecycle"
  proof
    fix r assume "r \<in> set new"
    then have "r_event r \<in> set (map r_event new)" by simp
    with new st pre show "ev_executionID (r_event r) = x \<and> ev_kind (r_event r) \<noteq> EventLifecycle"
      by (auto simp: marks_start_def input_event_def list_all_iff plain_effect_def tool_call_event_def approval_request_event_def)
  qed
  have ev: "\<exists>r \<in> set new. approval_evidence_event (r_event r)"
    using req by (intro bexI [of _ "last new"]) (auto simp: approval_evidence_event_def)
  from scan_turn_records [OF sc x(2) req(1) own] obtain f where f: "f = 0 \<or> f \<in> r_seq ` set rs" and
    res: "scanApprovalRecords (rs @ new) 0 = (case inspectApprovalExecution \<lparr>ax_id = x, ax_records = new, ax_gated = True\<rparr> (r_seq (last new)) f of
          Inl e \<Rightarrow> Inl e
        | Inr nw \<Rightarrow> Inr \<lparr>sc_head = r_seq (last new), sc_states = map (rehead (r_seq (last new))) (sc_states scan) @ nw,
            sc_selected = (if nw \<noteq> [] then Some (length (map (rehead (r_seq (last new))) (sc_states scan) @ nw) - 1) else None)\<rparr>)"
    using ev by (auto simp: Let_def)
  have parts: "marks_start x (length inputs) (r_event tst)" "list_all (plain_effect x) (map r_event tpre)"
    "sealing x (map r_event tpre) (map r_event [r1, r2])"
    using st pre seal unfolding evs by simp_all
  from inspect_parked_turn [OF T parts(1) evs(2) parts(2,3) x(1), of "r_seq (last new)" f] obtain gate where
    g: "inspectApprovalExecution \<lparr>ax_id = x, ax_records = new, ax_gated = True\<rparr> (r_seq (last new)) f = Inr [gate]"
      "as_executionID gate = x" "as_request gate = Some r2" "as_decision gate = None" "as_receipt gate = None"
      "as_inherited gate = (r_seq r1 < f)" "\<not> as_completed gate" by auto
  have "\<not> r_seq r1 < f"
  proof (cases "f = 0")
    case True
    then show ?thesis using seqs_ok_pos [OF ok, of r1] T by simp
  next
    case False
    with f obtain q where "q \<in> set rs" "f = r_seq q" by auto
    with seqs_ok_lt [OF ok this(1), of r1] T show ?thesis by simp
  qed
  moreover have "last new = r2" using T by simp
  moreover have "scanApprovalRecords (rs @ new) 0 = Inr \<lparr>sc_head = r_seq (last new),
      sc_states = map (rehead (r_seq (last new))) (sc_states scan) @ [gate], sc_selected = Some (length (sc_states scan))\<rparr>"
    using res g(1) by simp
  ultimately show ?thesis using g by (simp add: selected_state_def nth_append)
qed


lemma Exec_appended:
  assumes "Exec c har inputs ex w = (res, w')" and "c_ops c = AsStore cn" and "log_ok cn (w_log w)"
    and "log_records (w_log w') \<noteq> log_records (w_log w)"
  shows "\<exists>scan. scanApprovalRecords (log_records (w_log w)) 0 = Inr scan"
  using assms(1,2,4) mem_read [OF assms(3)]
  by (auto simp: Exec_def newID_def Let_def split: option.splits sum.splits)

lemma parked_journal:
  assumes c: "c_ops c = AsStore cn" and ok: "log_ok cn (w_log w)"
    and x: "c_newID c (w_tick w) \<noteq> []" "fresh_id (c_newID c (w_tick w)) (map r_event (log_records (w_log w)))"
    and e: "Exec c har inputs ex w = (res, w')"
    and grew: "log_records (w_log w') \<noteq> log_records (w_log w)"
    and park: "ev_kind (r_event (last (log_records (w_log w')))) = EventApprovalRequest"
  shows "log_ok cn (w_log w') \<and> (\<exists>scan st. scanApprovalRecords (log_records (w_log w')) 0 = Inr scan \<and> selected_state scan = Some st \<and>
     as_executionID st = c_newID c (w_tick w) \<and> as_request st = Some (last (log_records (w_log w'))) \<and>
     as_decision st = None \<and> as_receipt st = None \<and> \<not> as_inherited st \<and> \<not> as_completed st \<and>
     sc_head scan = r_seq (last (log_records (w_log w'))))"
proof -
  note st = mem_store [OF c]
  from controller_store.Exec_journaled [OF st ok e] obtain new where
    j: "controller_store.journaled c log_records log_fence (log_ok cn) (\<lambda>e. e) w w' new"
    and shape: "turn_shape (c_newID c (w_tick w)) inputs (map r_event new)" by blast
  then have recs: "log_records (w_log w') = log_records (w_log w) @ new" and ok': "log_ok cn (w_log w')"
    by (simp_all add: controller_store.journaled_def [OF st] controller_store.stored_def [OF st])
  with grew have ne: "new \<noteq> []" by simp
  from Exec_appended [OF e c ok grew] obtain scan where sc: "scanApprovalRecords (log_records (w_log w)) 0 = Inr scan" by blast
  have sq: "seqs_ok (log_records (w_log w) @ new)" using ok' recs by (simp add: log_ok_def)
  from scan_parked_turn [OF sc sq x shape ne] park recs ne ok' show ?thesis by simp
qed

lemma Exec_blocked:
  assumes "c_ops c = AsStore cn" and "log_ok cn (w_log w)" and "scanApprovalRecords (log_records (w_log w)) 0 = Inr scan"
    and "selected_state scan = Some st" and "\<not> as_inherited st" and "as_receipt st = None"
  shows "Exec c har inputs ex w = (Some ErrApprovalBlocked, tick w)"
  using assms mem_read [OF assms(2)]
  by (simp add: Exec_def newID_def CheckWritable_def) (simp add: AsStore_def)

section \<open>A decision closes the selected gate\<close>

lemma scan_index:
  "\<forall>j < length (ss_executions s). ss_byID s (ax_id (ss_executions s ! j)) = Some j \<Longrightarrow>
   \<forall>k j. ss_byID s k = Some j \<longrightarrow> j < length (ss_executions s) \<and> ax_id (ss_executions s ! j) = k \<Longrightarrow>
   \<forall>j < length (ss_executions (fold scan_record rs s)). ss_byID (fold scan_record rs s) (ax_id (ss_executions (fold scan_record rs s) ! j)) = Some j"
proof (induction rs arbitrary: s)
  case (Cons r rs)
  let ?e = "r_event r" and ?s = "scan_record r s"
  have "(\<forall>j < length (ss_executions ?s). ss_byID ?s (ax_id (ss_executions ?s ! j)) = Some j) \<and>
    (\<forall>k j. ss_byID ?s k = Some j \<longrightarrow> j < length (ss_executions ?s) \<and> ax_id (ss_executions ?s ! j) = k)"
  proof (cases "ev_kind ?e = EventLifecycle")
    case True
    with Cons.prems show ?thesis by (auto simp: scan_record_def Let_def split: option.split)
  next
    case False
    show ?thesis
    proof (cases "ss_byID s (ev_executionID ?e)")
      case None
      have "ax_id (ss_executions s ! j) \<noteq> ev_executionID ?e" if "j < length (ss_executions s)" for j
        using Cons.prems(1) None that by force
      with False None Cons.prems show ?thesis
        by (auto simp: scan_record_def Let_def nth_append less_Suc_eq split: if_splits)
    next
      case (Some k)
      with False Cons.prems show ?thesis
        by (auto simp: scan_record_def Let_def nth_list_update)
    qed
  qed
  with Cons.IH [of ?s] show ?case by simp
qed simp

definition all_exid :: "string \<Rightarrow> inspection \<Rightarrow> bool" where
  "all_exid x s \<longleftrightarrow> (\<forall>st \<in> set (in_states s). as_executionID st = x)"

lemma all_exid_update:
  "all_exid x s \<Longrightarrow> in_last s = Some st0 \<Longrightarrow> (\<And>st. as_executionID (f st) = as_executionID st) \<Longrightarrow> all_exid x (update_last f s)"
  by (auto simp: all_exid_def update_last_def in_last_def split: if_splits dest: in_set_butlastD)

lemma inspect_record_exid:
  assumes "inspect_record x h f i r s = Inr s'" and a: "all_exid x s"
  shows "all_exid x s'"
proof -
  note upd = all_exid_update [OF a]
  show ?thesis
    using assms
    by (cases "ev_kind (r_event r)")
       (auto simp: inspect_record_def inspect_start_def inspect_request_def inspect_decision_def inspect_result_def
          inspect_tool_call_def Let_def split: if_splits option.splits intro!: upd, auto simp: all_exid_def)
qed

lemma inspect_records_exid:
  "inspect_records x h f i rs s = Inr s' \<Longrightarrow> all_exid x s \<Longrightarrow> all_exid x s'"
proof (induction rs arbitrary: i s)
  case (Cons r rs)
  then obtain s1 where "inspect_record x h f i r s = Inr s1" "inspect_records x h f (Suc i) rs s1 = Inr s'"
    by (auto split: sum.splits)
  with Cons.IH inspect_record_exid Cons.prems(2) show ?case by blast
qed auto

text \<open>The record that answers the open gate of an execution.\<close>

definition answers :: "approval_state \<Rightarrow> log_record \<Rightarrow> bool" where
  "answers st r \<longleftrightarrow> ev_kind (r_event r) = EventApprovalResult \<and> ev_executionID (r_event r) = as_executionID st \<and>
     (\<exists>d rq. ev_approvalResult (r_event r) = Some d \<and> as_request st = Some rq \<and>
        ar_toolCallID d = tc_id (as_call st) \<and> ar_requestSeq d = r_seq rq)"

lemma inspect_answer:
  assumes i: "inspectApprovalExecution y h f = Inr (sts @ [st])" and a: "answers st r"
    and o: "as_decision st = None" "as_receipt st = None"
  shows "as_executionID st = ax_id y \<and>
    inspectApprovalExecution (y\<lparr>ax_records := ax_records y @ [r], ax_gated := True\<rparr>) h f = Inr (sts @ [st\<lparr>as_decision := Some r\<rparr>])"
proof -
  from i obtain s where ne: "ax_id y \<noteq> []" and s: "inspect_records (ax_id y) h f 0 (ax_records y) (inspect_init (ax_id y)) = Inr s"
    and v: "validateInputs (in_invocation s) = None" and fs: "finish_states s = sts @ [st]"
    by (auto simp: inspectApprovalExecution_def split: if_splits sum.splits option.splits)
  let ?fin = "\<lambda>t. t\<lparr>as_invocation := invocation (in_invocation s), as_completed := rx_completed (in_invocation s)\<rparr>"
  from fs obtain us u where u: "in_states s = us @ [u]" "map ?fin us = sts" "st = ?fin u"
    by (auto simp: finish_states_def map_eq_append_conv)
  have xid: "as_executionID st = ax_id y"
    using inspect_records_exid [OF s] u by (auto simp: inspect_init_def all_exid_def)
  have "inspect_record (ax_id y) h f (length (ax_records y)) r s = Inr (update_last (\<lambda>st. st\<lparr>as_decision := Some r\<rparr>) s)"
    using a o u(1,3) by (auto simp: answers_def inspect_record_def inspect_decision_def in_last_def in_open_def)
  then have "inspect_records (ax_id y) h f 0 (ax_records y @ [r]) (inspect_init (ax_id y))
      = Inr (s\<lparr>in_states := us @ [u\<lparr>as_decision := Some r\<rparr>]\<rparr>)"
    using s u(1) by (simp add: inspect_records_append update_last_def)
  with ne v u xid show ?thesis by (auto simp: inspectApprovalExecution_def finish_states_def)
qed

lemma scan_selected:
  assumes sc: "scanApprovalRecords rs 0 = Inr scan" and sel: "sc_selected scan = Some k"
  obtains E y sts0 us st q where "ss_executions (fold scan_record rs scan_init) = E @ [y]" "ax_gated y"
    "scan_executions (sc_head scan) (ss_forkSeq (fold scan_record rs scan_init)) E [] None = Inr (sts0, q)"
    "inspectApprovalExecution y (sc_head scan) (ss_forkSeq (fold scan_record rs scan_init)) = Inr (us @ [st])"
    "sc_states scan = sts0 @ us @ [st]" "k = length (sts0 @ us)" "sc_head scan = ss_head (fold scan_record rs scan_init)"
proof -
  let ?s = "fold scan_record rs scan_init"
  from sc obtain sts where ex: "scan_executions (ss_head ?s) (ss_forkSeq ?s) (ss_executions ?s) [] None = Inr (sts, Some k)"
    and scan: "sc_head scan = ss_head ?s" "sc_states scan = sts"
    using sel by (auto simp: scanApprovalRecords_all Let_def split: sum.splits)
  have "ss_executions ?s \<noteq> []" using ex by auto
  then obtain E y where E: "ss_executions ?s = E @ [y]" by (cases "ss_executions ?s" rule: rev_cases) auto
  from ex obtain sts0 q new where old: "scan_executions (ss_head ?s) (ss_forkSeq ?s) E [] None = Inr (sts0, q)"
    and new: "ax_gated y" "inspectApprovalExecution y (ss_head ?s) (ss_forkSeq ?s) = Inr new" "new \<noteq> []"
      "sts = sts0 @ new" "k = length (sts0 @ new) - 1"
    using scan_executions_snoc [of "ss_head ?s" "ss_forkSeq ?s" E y "[]" None None]
    by (auto simp: E split: sum.splits if_splits)
  obtain us st where "new = us @ [st]" using new(3) by (cases new rule: rev_cases) auto
  with that [OF E new(1), of sts0 q us st] old new scan show ?thesis by auto
qed

lemma scan_answer:
  assumes sc: "scanApprovalRecords rs 0 = Inr scan" and sel: "sc_selected scan = Some k"
    and a: "answers (sc_states scan ! k) r" and o: "as_decision (sc_states scan ! k) = None" "as_receipt (sc_states scan ! k) = None"
  shows "scanApprovalRecords (rs @ [r]) 0 = Inr \<lparr>sc_head = r_seq r,
     sc_states = (map (rehead (r_seq r)) (sc_states scan))[k := (rehead (r_seq r) (sc_states scan ! k))\<lparr>as_decision := Some r\<rparr>],
     sc_selected = Some k\<rparr>"
proof -
  let ?s = "fold scan_record rs scan_init" and ?h = "r_seq r"
  from scan_selected [OF sc sel] obtain E y sts0 us st q where E: "ss_executions ?s = E @ [y]"
    and old: "scan_executions (sc_head scan) (ss_forkSeq ?s) E [] None = Inr (sts0, q)"
    and ins: "inspectApprovalExecution y (sc_head scan) (ss_forkSeq ?s) = Inr (us @ [st])"
    and states: "sc_states scan = sts0 @ us @ [st]" and k: "k = length (sts0 @ us)" by metis
  have st: "sc_states scan ! k = st" using states k by (simp add: nth_append)
  note an = inspect_answer [OF ins a [unfolded st] o [unfolded st]]
  have byID: "ss_byID ?s (ax_id y) = Some (length E)"
    using scan_index [of scan_init rs] E by (auto simp: scan_init_def dest: spec [of _ "length E"])
  let ?y = "y\<lparr>ax_records := ax_records y @ [r], ax_gated := True\<rparr>"
  have ev: "approval_evidence_event (r_event r)" "ev_kind (r_event r) \<noteq> EventLifecycle" "ev_executionID (r_event r) = ax_id y"
    using a st an by (auto simp: answers_def approval_evidence_event_def)
  have s': "fold scan_record (rs @ [r]) scan_init = ?s\<lparr>ss_head := ?h, ss_executions := E @ [?y]\<rparr>"
    using scan_known [of "[r]" "ax_id y" ?s "length E"] byID E ev by simp
  have "inspectApprovalExecution ?y ?h (ss_forkSeq ?s) = Inr (map (rehead ?h) us @ [(rehead ?h st)\<lparr>as_decision := Some r\<rparr>])"
    using an inspectApprovalExecution_rehead [of ?y ?h "ss_forkSeq ?s" "sc_head scan"] by (simp add: rehead_def)
  moreover have "scan_executions ?h (ss_forkSeq ?s) E [] None = Inr (map (rehead ?h) sts0, q)"
    using scan_executions_rehead [of ?h "ss_forkSeq ?s" E "[]" None "sc_head scan"] old by simp
  ultimately have "scan_executions ?h (ss_forkSeq ?s) (E @ [?y]) [] None
     = Inr (map (rehead ?h) sts0 @ map (rehead ?h) us @ [(rehead ?h st)\<lparr>as_decision := Some r\<rparr>], Some k)"
    using scan_executions_snoc [of ?h "ss_forkSeq ?s" E ?y "[]" None None] by (simp add: k)
  then show ?thesis
    unfolding scanApprovalRecords_all s' st
    by (simp add: states k list_update_append)
qed

section \<open>Approve\<close>

lemma find_index_Some:
  "find_index P xs = Some k \<longleftrightarrow> k < length xs \<and> P (xs ! k) \<and> (\<forall>j < k. \<not> P (xs ! j))"
proof (induction xs arbitrary: k)
  case (Cons a xs)
  show ?case
  proof (cases "P a")
    case True
    then show ?thesis by (cases k) auto
  next
    case False
    with Cons.IH show ?thesis by (cases k) (auto simp: less_Suc_eq_0_disj)
  qed
qed simp

lemma matches_rehead [simp]: "matches_decision d (rehead h st) = matches_decision d st"
  by (simp add: matches_decision_def)

lemma matches_decided [simp]: "matches_decision d (st\<lparr>as_decision := v\<rparr>) = matches_decision d st"
  by (simp add: matches_decision_def)

text \<open>What a successful write was preceded by.\<close>

definition decidable :: "approval_scan \<Rightarrow> approval_decision \<Rightarrow> nat \<Rightarrow> bool" where
  "decidable scan d k \<longleftrightarrow> find_index (matches_decision d) (sc_states scan) = Some k \<and> sc_selected scan = Some k \<and>
     \<not> as_inherited (sc_states scan ! k) \<and> as_decision (sc_states scan ! k) = None \<and>
     as_receipt (sc_states scan ! k) = None \<and> \<not> as_completed (sc_states scan ! k)"

lemma decidable_answers:
  "decidable scan d k \<Longrightarrow> r_event r = decision_event now d \<Longrightarrow> answers (sc_states scan ! k) r"
  by (auto simp: decidable_def find_index_Some matches_decision_def answers_def decision_event_def split: option.splits)

context event_store
begin

lemma Approve_cases:
  assumes inv: "invar s" and a: "Approve ops now d s = (res, s')"
  obtains (refused) e where "res = Inl e" "recs s' = recs s"
  | (retry) scan k old where "res = Inr old" "s' = s" "scanApprovalRecords (recs s) 0 = Inr scan"
      "find_index (matches_decision d) (sc_states scan) = Some k" "\<not> as_inherited (sc_states scan ! k)"
      "as_decision (sc_states scan ! k) = Some old" "ar_approved (decision_of old) = ad_approved d"
      "ar_reason (decision_of old) = ad_reason d" "ev_actor (r_event old) = ad_identity d"
      "\<not> (ad_executionID d = [] \<or> ad_toolCallID d = [] \<or> ad_requestSeq d \<le> 0)"
  | (decided) scan k r where "res = Inr r" "scanApprovalRecords (recs s) 0 = Inr scan" "decidable scan d k"
      "r_event r = decision_event now d" "recs s' = recs s @ [r\<lparr>r_event := norm (decision_event now d)\<rparr>]"
      "fence s' = fence s + 1" "r_fence r = fence s + 1"
      "\<not> (ad_executionID d = [] \<or> ad_toolCallID d = [] \<or> ad_requestSeq d \<le> 0)"
proof -
  consider (err) e where "res = Inl e" "s' = s" | (found) scan k where "CheckWritable ops s = None"
      "\<not> (ad_executionID d = [] \<or> ad_toolCallID d = [] \<or> ad_requestSeq d \<le> 0)"
      "scanApprovals ops 0 s = Inr scan" "find_index (matches_decision d) (sc_states scan) = Some k"
      "\<not> as_inherited (sc_states scan ! k)"
    using a by (auto simp: Approve_def Let_def split: option.splits sum.splits if_splits)
  then show thesis
  proof cases
    case err
    then show thesis by (intro refused) auto
  next
    case (found scan k)
    have sc: "scanApprovalRecords (recs s) 0 = Inr scan"
      using found(3) read_all [OF inv] by (auto simp: scanApprovals_def split: sum.splits)
    show thesis
    proof (cases "as_decision (sc_states scan ! k)")
      case (Some old)
      show thesis
      proof (cases "ar_approved (decision_of old) = ad_approved d \<and> ar_reason (decision_of old) = ad_reason d
          \<and> ev_actor (r_event old) = ad_identity d")
        case True
        with a found Some have "res = Inr old" "s' = s" by (auto simp: Approve_def Let_def)
        with found sc Some True show thesis by (intro retry [of old scan k]) auto
      next
        case False
        with a found Some show thesis by (intro refused) (auto simp: Approve_def Let_def split: if_splits)
      qed
    next
      case None
      show thesis
      proof (cases "decidable scan d k")
        case False
        with a found None show thesis
          by (intro refused) (auto simp: Approve_def decidable_def Let_def split: if_splits)
      next
        case True
        obtain fr s1 where fr: "Store_NewFence ops s = (fr, s1)" by fastforce
        show thesis
        proof (cases fr)
          case (Inl e)
          with a found None True fr fence_err [OF inv, of e s1] show thesis
            by (intro refused) (auto simp: Approve_def decidable_def Let_def)
        next
          case (Inr f)
          note F = fence_ok [OF inv fr [unfolded Inr]] and inv1 = fence_invar [OF inv fr]
          have ap: "Store_Append ops (sc_head scan) f (decision_event now d) s1 = (res, s')"
            using a found None True fr Inr by (simp add: Approve_def decidable_def Let_def)
          show thesis
          proof (cases res)
            case (Inl e)
            with append_err [OF inv1 ap [unfolded Inl]] F show thesis by (intro refused) auto
          next
            case (Inr r)
            with append_ok [OF inv1 ap [unfolded Inr]] F sc True found(2) show thesis by (intro decided [of r scan k]) auto
          qed
        qed
      qed
    qed
  qed
qed

lemma Approve_invar: "invar s \<Longrightarrow> Approve ops now d s = (res, s') \<Longrightarrow> invar s'"
  by (auto simp: Approve_def Let_def split: option.splits sum.splits if_splits prod.splits
      dest: fence_invar append_invar)

end

lemma find_index_cong:
  "length xs = length ys \<Longrightarrow> (\<And>j. j < length xs \<Longrightarrow> P (xs ! j) = P (ys ! j)) \<Longrightarrow> find_index P xs = find_index P ys"
proof (induction xs ys rule: list_induct2')
  case (4 x xs y ys)
  from 4(3) [of 0] have "P x = P y" by simp
  moreover have "find_index P xs = find_index P ys" using 4(1) 4(2) 4(3) [of "Suc _"] by simp
  ultimately show ?case by simp
qed auto

lemma Approve_decided:
  assumes ok: "log_ok cn l" and g: "\<not> (ad_executionID d = [] \<or> ad_toolCallID d = [] \<or> ad_requestSeq d \<le> 0)"
    and sc: "scanApprovalRecords (log_records l) 0 = Inr scan" and k: "find_index (matches_decision d) (sc_states scan) = Some k"
    and st: "\<not> as_inherited (sc_states scan ! k)" "as_decision (sc_states scan ! k) = Some old"
  shows "Approve (AsStore cn) now d l =
     (if ar_approved (decision_of old) = ad_approved d \<and> ar_reason (decision_of old) = ad_reason d \<and> ev_actor (r_event old) = ad_identity d
      then Inr old else Inl (invalid_decision ''request already has a different decision''), l)"
proof -
  have "scanApprovals (AsStore cn) 0 l = Inr scan" using sc mem_read [OF ok] by (simp add: scanApprovals_def)
  moreover have "CheckWritable (AsStore cn) l = None" by (simp add: CheckWritable_def AsStore_def)
  ultimately show ?thesis using g k st by (simp add: Approve_def)
qed

text \<open>After a decision was written or served, the journal holds it for the gate it names.\<close>

definition same_gate :: "approval_decision \<Rightarrow> approval_decision \<Rightarrow> bool" where
  "same_gate d d2 \<longleftrightarrow> ad_executionID d2 = ad_executionID d \<and> ad_toolCallID d2 = ad_toolCallID d \<and> ad_requestSeq d2 = ad_requestSeq d"

lemma matches_same_gate: "same_gate d d2 \<Longrightarrow> matches_decision d2 = matches_decision d"
  by (rule ext) (simp add: matches_decision_def same_gate_def split: option.split)

lemma Approve_settles:
  assumes ok: "log_ok cn l" and a: "Approve (AsStore cn) now d l = (Inr r, l1)"
  shows "log_ok cn l1 \<and> \<not> (ad_executionID d = [] \<or> ad_toolCallID d = [] \<or> ad_requestSeq d \<le> 0) \<and>
     (\<exists>scan k. scanApprovalRecords (log_records l1) 0 = Inr scan \<and> find_index (matches_decision d) (sc_states scan) = Some k \<and>
        \<not> as_inherited (sc_states scan ! k) \<and> as_decision (sc_states scan ! k) = Some r) \<and>
     ar_approved (decision_of r) = ad_approved d \<and> ar_reason (decision_of r) = ad_reason d \<and> ev_actor (r_event r) = ad_identity d"
proof -
  note inv = mem.Approve_invar [OF ok a]
  from ok a show ?thesis
  proof (cases rule: mem.Approve_cases)
    case (retry scan k old)
    with inv show ?thesis by auto
  next
    case (decided scan k q)
    then have q: "r = q" "r\<lparr>r_event := decision_event now d\<rparr> = r" by auto
    have "answers (sc_states scan ! k) r" using decided q by (intro decidable_answers) auto
    note s = scan_answer [OF decided(2) _ this]
    let ?states = "(map (rehead (r_seq r)) (sc_states scan))[k := (rehead (r_seq r) (sc_states scan ! k))\<lparr>as_decision := Some r\<rparr>]"
    have k: "k < length (sc_states scan)" using decided(3) by (simp add: decidable_def find_index_Some)
    have "find_index (matches_decision d) ?states = find_index (matches_decision d) (sc_states scan)"
      using k by (intro find_index_cong) (simp_all add: nth_list_update)
    moreover have "log_records l1 = log_records l @ [r]" using decided q by simp
    moreover have "ar_approved (decision_of r) = ad_approved d" "ar_reason (decision_of r) = ad_reason d" "ev_actor (r_event r) = ad_identity d"
      using decided(4) q(1) by (simp_all add: decision_of_def decision_event_def)
    ultimately show ?thesis using s decided(3,8) k inv by (auto simp: decidable_def)
  qed simp
qed

section \<open>A decision stays\<close>

text \<open>
  The first state that a decision names is this session's own and carries \<open>r\<close>: what \<^verbatim>\<open>Approve\<close> looks at
  when the decision is repeated.
\<close>

definition settled :: "approval_decision \<Rightarrow> log_record \<Rightarrow> approval_state list \<Rightarrow> bool" where
  "settled d r sts \<longleftrightarrow>
     (case filter (matches_decision d) sts of
        [] \<Rightarrow> False
      | st # _ \<Rightarrow> \<not> as_inherited st \<and> as_decision st = Some r)"

lemma settled_snoc: "settled d r sts \<Longrightarrow> settled d r (sts @ later)"
  by (auto simp: settled_def split: list.splits)

lemma settled_map:
  assumes "\<And>st. matches_decision d (g st) = matches_decision d st" "\<And>st. as_inherited (g st) = as_inherited st"
    "\<And>st. as_decision (g st) = as_decision st"
  shows "settled d r (map g sts) = settled d r sts"
proof -
  have "filter (matches_decision d) (map g sts) = map g (filter (matches_decision d) sts)"
    by (induction sts) (simp_all add: assms)
  then show ?thesis by (simp add: settled_def assms split: list.split)
qed

lemma settled_find:
  "settled d r sts \<longleftrightarrow> (\<exists>k. find_index (matches_decision d) sts = Some k \<and> \<not> as_inherited (sts ! k) \<and> as_decision (sts ! k) = Some r)"
proof (induction sts)
  case (Cons st sts)
  then show ?case by (cases "matches_decision d st") (auto simp: settled_def)
qed (simp add: settled_def)

text \<open>No record of the execution takes a decision back: a state is changed only at the end, and only where it was open.\<close>

lemma settled_last:
  assumes "settled d r (sts @ [st])"
    and "matches_decision d st \<Longrightarrow> \<not> as_inherited st \<Longrightarrow> as_decision st = Some r \<Longrightarrow>
      matches_decision d st' \<and> \<not> as_inherited st' \<and> as_decision st' = Some r"
  shows "settled d r (sts @ [st'])"
  using assms by (auto simp: settled_def split: list.splits if_splits)

lemma settled_update:
  assumes "settled d r (in_states s)" "in_last s = Some st"
    and "matches_decision d st \<Longrightarrow> \<not> as_inherited st \<Longrightarrow> as_decision st = Some r \<Longrightarrow>
      matches_decision d (g st) \<and> \<not> as_inherited (g st) \<and> as_decision (g st) = Some r"
  shows "settled d r (in_states (update_last g s))"
proof -
  have ne: "in_states s \<noteq> []" and st: "st = last (in_states s)" using assms(2) by (auto simp: in_last_def split: if_splits)
  then have eq: "in_states s = butlast (in_states s) @ [st]" by simp
  have "settled d r (butlast (in_states s) @ [g st])"
    by (rule settled_last [of d r "butlast (in_states s)" st]) (use assms(1,3) eq in simp_all)
  then show ?thesis by (simp add: update_last_def st)
qed

lemma inspect_record_settled:
  assumes i: "inspect_record x h f i rec s = Inr s'" and s: "settled d r (in_states s)"
  shows "settled d r (in_states s')"
proof -
  note upd = settled_update [OF s]
  consider (call) "ev_kind (r_event rec) = EventToolCall" | (request) "ev_kind (r_event rec) = EventApprovalRequest"
    | (decision) "ev_kind (r_event rec) = EventApprovalResult" | (result) "ev_kind (r_event rec) = EventToolResult"
    | (other) "in_states s' = in_states s"
    using i by (cases "ev_kind (r_event rec)") (auto simp: inspect_record_def inspect_start_def split: if_splits option.splits)
  then show ?thesis
  proof cases
    case call
    then show ?thesis using i s settled_snoc [OF s]
      by (auto simp: inspect_record_def inspect_tool_call_def Let_def split: if_splits option.splits)
  next
    case request
    then obtain st where st: "in_last s = Some st" "as_request st = None" "s' = update_last (\<lambda>st. st\<lparr>as_request := Some rec\<rparr>) s"
      using i by (auto simp: inspect_record_def inspect_request_def split: if_splits option.splits)
    show ?thesis unfolding st(3) by (rule upd [OF st(1)]) (use st(2) in \<open>simp add: matches_decision_def\<close>)
  next
    case decision
    then obtain st where st: "in_last s = Some st" "as_decision st = None" "s' = update_last (\<lambda>st. st\<lparr>as_decision := Some rec\<rparr>) s"
      using i by (auto simp: inspect_record_def inspect_decision_def split: if_splits option.splits)
    show ?thesis unfolding st(3) by (rule upd [OF st(1)]) (use st(2) in simp)
  next
    case result
    then have "s' = s \<or> (\<exists>st. in_last s = Some st \<and> s' = update_last (\<lambda>st. st\<lparr>as_receipt := Some rec\<rparr>) s)"
      using i by (auto simp: inspect_record_def inspect_result_def split: if_splits option.splits)
    then show ?thesis using s upd by (auto simp: matches_decision_def)
  next
    case other
    then show ?thesis using s by simp
  qed
qed

lemma inspect_records_settled:
  "inspect_records x h f i rs s = Inr s' \<Longrightarrow> settled d r (in_states s) \<Longrightarrow> settled d r (in_states s')"
proof (induction rs arbitrary: i s)
  case (Cons a rs)
  then obtain s1 where "inspect_record x h f i a s = Inr s1" "inspect_records x h f (Suc i) rs s1 = Inr s'"
    by (auto split: sum.splits)
  with Cons.IH inspect_record_settled Cons.prems(2) show ?case by blast
qed simp

lemma settled_finish: "settled d r (finish_states s) = settled d r (in_states s)"
  unfolding finish_states_def by (rule settled_map) (simp_all add: matches_decision_def)

text \<open>An execution that has more records, seen from another head.\<close>

lemma inspect_execution_settled:
  assumes i1: "inspectApprovalExecution y1 h1 f = Inr sts1" and i2: "inspectApprovalExecution y2 h2 f = Inr sts2"
    and id: "ax_id y2 = ax_id y1" and later: "ax_records y2 = ax_records y1 @ later" and s: "settled d r sts1"
  shows "settled d r sts2"
proof -
  from i1 obtain s1 where s1: "inspect_records (ax_id y1) h1 f 0 (ax_records y1) (inspect_init (ax_id y1)) = Inr s1"
      "sts1 = finish_states s1"
    by (auto simp: inspectApprovalExecution_def split: if_splits sum.splits option.splits)
  have "inspectApprovalExecution y2 h1 f = map_sum (\<lambda>e. e) (map (rehead h1)) (Inr sts2)"
    using inspectApprovalExecution_rehead [of y2 h1 f h2] i2 by simp
  then obtain s2 where s2: "inspect_records (ax_id y1) h1 f 0 (ax_records y1 @ later) (inspect_init (ax_id y1)) = Inr s2"
      "map (rehead h1) sts2 = finish_states s2"
    using id later by (auto simp: inspectApprovalExecution_def split: if_splits sum.splits option.splits)
  have "inspect_records (ax_id y1) h1 f (0 + length (ax_records y1)) later s1 = Inr s2"
    using s1 s2 by (simp add: inspect_records_append)
  from inspect_records_settled [OF this, of d r] s s1(2) s2(2) have "settled d r (map (rehead h1) sts2)"
    by (simp add: settled_finish)
  then show ?thesis by (subst (asm) settled_map) simp_all
qed

text \<open>More records of the journal: the executions of the scan keep their places and identities.\<close>

definition exec_grows :: "approval_execution list \<Rightarrow> approval_execution list \<Rightarrow> bool" where
  "exec_grows xs ys \<longleftrightarrow> length xs \<le> length ys \<and> (\<forall>j < length xs. ax_id (ys ! j) = ax_id (xs ! j)
     \<and> (\<exists>later. ax_records (ys ! j) = ax_records (xs ! j) @ later) \<and> (ax_gated (xs ! j) \<longrightarrow> ax_gated (ys ! j)))"

lemma exec_grows_refl [simp]: "exec_grows xs xs"
  by (simp add: exec_grows_def)

lemma exec_grows_trans: "exec_grows xs ys \<Longrightarrow> exec_grows ys zs \<Longrightarrow> exec_grows xs zs"
  unfolding exec_grows_def by (metis append_assoc order_less_le_trans le_trans)

lemma exec_grows_update:
  "(\<And>x. ax_id (g x) = ax_id x) \<Longrightarrow> (\<And>x. \<exists>later. ax_records (g x) = ax_records x @ later)
    \<Longrightarrow> (\<And>x. ax_gated x \<Longrightarrow> ax_gated (g x)) \<Longrightarrow> exec_grows xs (xs[k := g (xs ! k)])"
  unfolding exec_grows_def by (cases "k < length xs") (auto simp: nth_list_update)

lemma scan_record_grows: "exec_grows (ss_executions s) (ss_executions (scan_record r s))"
proof (cases "ev_kind (r_event r) = EventLifecycle")
  case True
  then show ?thesis by (auto simp: scan_record_def Let_def split: option.split)
next
  case False
  let ?g = "\<lambda>x. x\<lparr>ax_records := ax_records x @ [r], ax_gated := (ax_gated x \<or> approval_evidence_event (r_event r))\<rparr>"
  have g: "exec_grows xs (xs[k := ?g (xs ! k)])" for xs k by (rule exec_grows_update) auto
  have app: "exec_grows xs (xs @ [y])" for xs y by (simp add: exec_grows_def nth_append)
  show ?thesis
  proof (cases "ss_byID s (ev_executionID (r_event r))")
    case None
    then show ?thesis
      using False app by (simp add: scan_record_def Let_def)
  next
    case (Some k)
    then show ?thesis using False g by (simp add: scan_record_def Let_def)
  qed
qed

lemma scan_grows: "exec_grows (ss_executions s) (ss_executions (fold scan_record rs s))"
  by (induction rs arbitrary: s) (auto intro: exec_grows_trans scan_record_grows)

text \<open>Only the making of a fork writes its marker, as the last record of what it copies into the child.\<close>

definition fork_record :: "log_record \<Rightarrow> bool" where
  "fork_record r \<longleftrightarrow> ev_kind (r_event r) = EventLifecycle
     \<and> (case ev_lifecycle (r_event r) of None \<Rightarrow> False | Some l \<Rightarrow> lc_kind l = LifecycleFork)"

lemma scan_forkSeq: "\<not> list_ex fork_record rs \<Longrightarrow> ss_forkSeq (fold scan_record rs s) = ss_forkSeq s"
  by (induction rs arbitrary: s) (auto simp: scan_record_def fork_record_def Let_def split: option.splits)

text \<open>The states of a scan, execution by execution.\<close>

definition states_of :: "int64 \<Rightarrow> int64 \<Rightarrow> approval_execution \<Rightarrow> approval_state list" where
  "states_of h f x =
     (if ax_gated x then case inspectApprovalExecution x h f of Inl _ \<Rightarrow> [] | Inr sts \<Rightarrow> sts else [])"

lemma scan_executions_states:
  "scan_executions h f xs states sel = Inr (sts, q) \<Longrightarrow> sts = states @ concat (map (states_of h f) xs)
     \<and> (\<forall>x \<in> set xs. ax_gated x \<longrightarrow> inspectApprovalExecution x h f = Inr (states_of h f x))"
proof (induction xs arbitrary: states sel)
  case (Cons x xs)
  show ?case
  proof (cases "ax_gated x")
    case False
    then show ?thesis using Cons by (simp add: states_of_def)
  next
    case True
    then obtain ys where "inspectApprovalExecution x h f = Inr ys" using Cons.prems by (auto split: sum.splits)
    then show ?thesis
      using True Cons.prems Cons.IH [of "states @ ys" "if xs = [] \<and> ys \<noteq> [] then Some (length (states @ ys) - 1) else sel"]
      by (simp add: states_of_def)
  qed
qed simp

lemma states_of_exid:
  assumes st: "st \<in> set (states_of h f x)"
  shows "as_executionID st = ax_id x"
proof -
  obtain sts where sts: "inspectApprovalExecution x h f = Inr sts" "st \<in> set sts"
    using st by (cases "ax_gated x"; cases "inspectApprovalExecution x h f") (simp_all add: states_of_def)
  obtain s where s: "inspect_records (ax_id x) h f 0 (ax_records x) (inspect_init (ax_id x)) = Inr s" "sts = finish_states s"
    using sts(1) by (auto simp: inspectApprovalExecution_def split: if_splits sum.splits option.splits)
  have "all_exid (ax_id x) s" by (rule inspect_records_exid [OF s(1)]) (simp add: all_exid_def inspect_init_def)
  then show ?thesis using s(2) sts(2) by (auto simp: all_exid_def finish_states_def)
qed

lemma others_match_nothing: "ax_id x \<noteq> ad_executionID d \<Longrightarrow> filter (matches_decision d) (states_of h f x) = []"
  by (auto simp: filter_empty_conv matches_decision_def dest: states_of_exid)

lemma settled_execution:
  assumes "j < length xs" "ax_id (xs ! j) = ad_executionID d" "\<And>i. i < length xs \<Longrightarrow> ax_id (xs ! i) = ax_id (xs ! j) \<Longrightarrow> i = j"
  shows "settled d r (concat (map (states_of h f) xs)) = settled d r (states_of h f (xs ! j))"
proof -
  have none: "filter (matches_decision d) (concat (map (states_of h f) ys)) = []" if "\<forall>y \<in> set ys. ax_id y \<noteq> ad_executionID d" for ys
    using that by (induction ys) (auto simp: others_match_nothing)
  have other: "ax_id (xs ! i) \<noteq> ad_executionID d" if "i < length xs" "i \<noteq> j" for i
    using assms(2) assms(3) [of i] that by metis
  have "\<forall>y \<in> set (take j xs). ax_id y \<noteq> ad_executionID d" "\<forall>y \<in> set (drop (Suc j) xs). ax_id y \<noteq> ad_executionID d"
    using other assms(1) by (auto simp: in_set_conv_nth)
  note n = none [OF this(1)] none [OF this(2)]
  have "xs = take j xs @ xs ! j # drop (Suc j) xs" using assms(1) by (rule id_take_nth_drop)
  then have "concat (map (states_of h f) xs) = concat (map (states_of h f) (take j xs)) @ states_of h f (xs ! j)
      @ concat (map (states_of h f) (drop (Suc j) xs))"
    by (metis concat_append concat.simps(2) list.simps(9) map_append)
  then show ?thesis unfolding settled_def using n by simp
qed

lemma scan_place:
  assumes "j < length (ss_executions (fold scan_record zs scan_init))"
  shows "ss_byID (fold scan_record zs scan_init) (ax_id (ss_executions (fold scan_record zs scan_init) ! j)) = Some j"
proof -
  have "ss_executions scan_init = []" "ss_byID scan_init = Map.empty" by (simp_all add: scan_init_def)
  then show ?thesis using scan_index [of scan_init zs] assms by simp
qed

text \<open>A scan of a longer journal of the same session still holds what the shorter one settled.\<close>

lemma scan_settled:
  assumes s1: "scanApprovalRecords rs 0 = Inr scan1" and s2: "scanApprovalRecords (rs @ later) 0 = Inr scan2"
    and nofork: "\<not> list_ex fork_record later" and s: "settled d r (sc_states scan1)"
  shows "settled d r (sc_states scan2)"
proof -
  define S1 where "S1 = fold scan_record rs scan_init"
  define S2 where "S2 = fold scan_record later S1"
  obtain q1 where e1: "scan_executions (ss_head S1) (ss_forkSeq S1) (ss_executions S1) [] None = Inr (sc_states scan1, q1)"
    using s1 by (auto simp: scanApprovalRecords_all Let_def S1_def split: sum.splits)
  obtain q2 where e2: "scan_executions (ss_head S2) (ss_forkSeq S2) (ss_executions S2) [] None = Inr (sc_states scan2, q2)"
    using s2 by (auto simp: scanApprovalRecords_all Let_def S1_def S2_def split: sum.splits)
  note st1 = scan_executions_states [OF e1] and st2 = scan_executions_states [OF e2]
  have f: "ss_forkSeq S2 = ss_forkSeq S1" unfolding S2_def by (rule scan_forkSeq [OF nofork])
  have g: "exec_grows (ss_executions S1) (ss_executions S2)" unfolding S2_def by (rule scan_grows)
  have uniq: "i = j" if "i < length (ss_executions (fold scan_record zs scan_init))" "j < length (ss_executions (fold scan_record zs scan_init))"
      "ax_id (ss_executions (fold scan_record zs scan_init) ! i) = ax_id (ss_executions (fold scan_record zs scan_init) ! j)" for i j zs
    by (metis option.inject scan_place that)
  have S2': "S2 = fold scan_record (rs @ later) scan_init" by (simp add: S1_def S2_def)
  have "filter (matches_decision d) (sc_states scan1) \<noteq> []" using s by (auto simp: settled_def)
  then obtain st where "st \<in> set (sc_states scan1)" "matches_decision d st" by (auto simp: filter_empty_conv)
  then obtain x where "x \<in> set (ss_executions S1)" "st \<in> set (states_of (ss_head S1) (ss_forkSeq S1) x)" using st1 by auto
  then obtain j where j: "j < length (ss_executions S1)" "st \<in> set (states_of (ss_head S1) (ss_forkSeq S1) (ss_executions S1 ! j))"
    by (auto simp: in_set_conv_nth)
  have id: "ax_id (ss_executions S1 ! j) = ad_executionID d"
    using states_of_exid [OF j(2)] \<open>matches_decision d st\<close> by (simp add: matches_decision_def)
  have j2: "j < length (ss_executions S2)" and id2: "ax_id (ss_executions S2 ! j) = ax_id (ss_executions S1 ! j)"
    using g j(1) by (auto simp: exec_grows_def)
  obtain tl' where rec: "ax_records (ss_executions S2 ! j) = ax_records (ss_executions S1 ! j) @ tl'"
    using g j(1) by (auto simp: exec_grows_def)
  have u1: "i = j" if "i < length (ss_executions S1)" "ax_id (ss_executions S1 ! i) = ax_id (ss_executions S1 ! j)" for i
    using that j(1) unfolding S1_def by (intro uniq)
  have u2: "i = j" if "i < length (ss_executions S2)" "ax_id (ss_executions S2 ! i) = ax_id (ss_executions S2 ! j)" for i
    using that j2 unfolding S2' by (intro uniq)
  have gt: "ax_gated (ss_executions S1 ! j)" "ax_gated (ss_executions S2 ! j)"
  proof -
    show "ax_gated (ss_executions S1 ! j)"
      using j(2) by (cases "ax_gated (ss_executions S1 ! j)") (simp_all add: states_of_def)
    then show "ax_gated (ss_executions S2 ! j)" using g j(1) by (simp add: exec_grows_def)
  qed
  have i1: "inspectApprovalExecution (ss_executions S1 ! j) (ss_head S1) (ss_forkSeq S1) = Inr (states_of (ss_head S1) (ss_forkSeq S1) (ss_executions S1 ! j))"
    using st1 j(1) gt(1) by simp
  have i2: "inspectApprovalExecution (ss_executions S2 ! j) (ss_head S2) (ss_forkSeq S1) = Inr (states_of (ss_head S2) (ss_forkSeq S1) (ss_executions S2 ! j))"
    using st2 j2 gt(2) f by simp
  have "settled d r (states_of (ss_head S1) (ss_forkSeq S1) (ss_executions S1 ! j))"
    using settled_execution [OF j(1) id u1] s st1 by simp
  from inspect_execution_settled [OF i1 i2 id2 rec this]
  have "settled d r (states_of (ss_head S2) (ss_forkSeq S2) (ss_executions S2 ! j))" by (simp add: f)
  then show ?thesis
    using settled_execution [OF j2 id2 [unfolded id] u2] st2 by simp
qed

section \<open>Properties\<close>

text \<open>
  An \<^verbatim>\<open>Exec\<close> whose last committed record is an approval request has left a journal in which
  \<^verbatim>\<open>InspectApproval\<close> reports exactly that request as this session's own open gate: undecided,
  without receipt, not inherited, its execution not completed.  This holds whatever the harness did
  after the park.
\<close>

theorem parked_turn_awaits_decision:
  assumes "c_ops c = AsStore cn" and "log_ok cn (w_log w)"
    and "c_newID c (w_tick w) \<noteq> []" and "fresh_id (c_newID c (w_tick w)) (map r_event (log_records (w_log w)))"
    and "Exec c har inputs ex w = (res, w')" and "log_records (w_log w') \<noteq> log_records (w_log w)"
    and "ev_kind (r_event (last (log_records (w_log w')))) = EventApprovalRequest"
  shows "\<exists>st. InspectApproval (AsStore cn) 0 (w_log w') = Inr (Some st) \<and>
     as_executionID st = c_newID c (w_tick w) \<and> as_request st = Some (last (log_records (w_log w'))) \<and>
     as_decision st = None \<and> as_receipt st = None \<and> \<not> as_inherited st \<and> \<not> as_completed st"
  using parked_journal [OF assms] mem_read [of cn "w_log w'"]
  by (auto simp: InspectApproval_def scanApprovals_def)

text \<open>
  (C25) After such a turn every further \<^verbatim>\<open>Exec\<close> on that journal -- by any controller, with any
  fence, harness, inputs and expected head -- is refused with \<^verbatim>\<open>ErrApprovalBlocked\<close> before the harness
  is asked anything; the journal is left as it was and nothing outside is called.
\<close>

theorem open_gate_blocks_new_turns:
  assumes "c_ops c = AsStore cn" and "log_ok cn (w_log w)"
    and "c_newID c (w_tick w) \<noteq> []" and "fresh_id (c_newID c (w_tick w)) (map r_event (log_records (w_log w)))"
    and "Exec c har inputs ex w = (res, w')" and "log_records (w_log w') \<noteq> log_records (w_log w)"
    and "ev_kind (r_event (last (log_records (w_log w')))) = EventApprovalRequest"
    and "c_ops c2 = AsStore cn"
  shows "Exec c2 har2 inputs2 ex2 w' = (Some ErrApprovalBlocked, tick w')"
  using parked_journal [OF assms(1-7)] Exec_blocked [OF assms(8)] by blast

text \<open>
  (C23) \<^verbatim>\<open>Approve\<close> writes at most one record, and only the decision it was given, for a gate that the
  scan of the very journal it appends to shows as this session's own latest gate: requested under
  the sequence number the decision names, undecided, without receipt, its execution not completed.
  In every other case the records are left as they were.
\<close>

theorem approve_writes_only_open_gate:
  assumes "log_ok cn l" and "Approve (AsStore cn) now d l = (res, l')"
  shows "log_records l' = log_records l \<or>
     (\<exists>scan k r. scanApprovalRecords (log_records l) 0 = Inr scan \<and> decidable scan d k \<and> res = Inr r \<and>
        log_records l' = log_records l @ [r] \<and> r_event r = decision_event now d)"
  using assms
proof (cases rule: mem.Approve_cases)
  case (decided scan k r)
  then have "log_records l' = log_records l @ [r]" by (metis log_record.surjective log_record.update_convs(5) old.unit.exhaust)
  with decided show ?thesis by blast
qed auto

text \<open>
  (C24) A decision, once accepted, is permanent.  Take any later journal of the session, whatever was appended to it
  since -- the receipt, the rest of the resumed turn, its END, other turns with gates of their own, a suspension --
  except the marker that the making of a fork writes into the child.  A decision for the same request is then
  answered from the journal alone: the one that was accepted, with the same verdict, reason and identity, gets the
  record of the first time; any other is refused as a different decision; and nothing is written, neither a second
  record nor a new fence that would evict a running writer.  The only other answer is the error of the scan, when
  what was appended is no valid journal; right after the decision the scan succeeds.
\<close>

theorem approve_idempotent_and_final:
  assumes "log_ok cn l" and "Approve (AsStore cn) now d l = (Inr r, l1)" and "same_gate d d2"
    and "log_ok cn l2" and "log_records l2 = log_records l1 @ later" and "\<not> list_ex fork_record later"
  shows "\<not> isl (scanApprovalRecords (log_records l1) 0) \<and> Approve (AsStore cn) now2 d2 l2 =
     (case scanApprovalRecords (log_records l2) 0 of
        Inl e \<Rightarrow> Inl e
      | Inr _ \<Rightarrow>
          if ad_approved d2 = ad_approved d \<and> ad_reason d2 = ad_reason d \<and> ad_identity d2 = ad_identity d then Inr r
          else Inl (invalid_decision ''request already has a different decision''), l2)"
proof -
  from Approve_settles [OF assms(1,2)] obtain scan k where h:
    "\<not> (ad_executionID d = [] \<or> ad_toolCallID d = [] \<or> ad_requestSeq d \<le> 0)"
    "scanApprovalRecords (log_records l1) 0 = Inr scan" "find_index (matches_decision d) (sc_states scan) = Some k"
    "\<not> as_inherited (sc_states scan ! k)" "as_decision (sc_states scan ! k) = Some r"
    "ar_approved (decision_of r) = ad_approved d" "ar_reason (decision_of r) = ad_reason d" "ev_actor (r_event r) = ad_identity d"
    by blast
  have d2: "\<not> (ad_executionID d2 = [] \<or> ad_toolCallID d2 = [] \<or> ad_requestSeq d2 \<le> 0)"
    using h(1) assms(3) by (simp add: same_gate_def)
  show ?thesis
  proof (cases "scanApprovalRecords (log_records l2) 0")
    case (Inl e)
    then show ?thesis using h(2) d2 mem_read [OF assms(4)]
      by (simp add: Approve_def scanApprovals_def CheckWritable_def AsStore_def)
  next
    case (Inr scan2)
    have "settled d r (sc_states scan)" using h(3-5) by (auto simp: settled_find)
    from scan_settled [OF h(2) Inr [unfolded assms(5)] assms(6) this] obtain k2 where
      k2: "find_index (matches_decision d) (sc_states scan2) = Some k2" "\<not> as_inherited (sc_states scan2 ! k2)"
        "as_decision (sc_states scan2 ! k2) = Some r"
      by (auto simp: settled_find)
    from Approve_decided [OF assms(4) d2 Inr _ k2(2,3), of now2] k2(1) h(2,6-8) Inr matches_same_gate [OF assms(3)]
    show ?thesis by auto
  qed
qed

definition gated_call_sample :: tool_call where
  "gated_call_sample = sample_call\<lparr>tc_mediation := MediationRequiresApproval\<rparr>"

text \<open>A harness that asks for approval, and then tries to go on regardless.\<close>

definition gated_harness :: harness where
  "gated_harness = sample_harness\<lparr>har_run := (\<lambda>st. CallToolCall gated_call_sample (\<lambda>r. case r of
        Inl e \<Rightarrow> CallOutput ''never recorded'' (\<lambda>_. Return None)
      | Inr res \<Rightarrow> CallOutput ''done'' Return))\<rparr>"

lemma gated_exec:
  "\<exists>res w'. Exec sample_controller gated_harness [] 0 sample_world = (res, w') \<and>
     map (\<lambda>r. ev_kind (r_event r)) (log_records (w_log w')) = [EventExecutionStart, EventToolCall, EventApprovalRequest]"
proof -
  have "case Exec sample_controller gated_harness [] 0 sample_world of (res, w') \<Rightarrow>
     map (\<lambda>r. ev_kind (r_event r)) (log_records (w_log w')) = [EventExecutionStart, EventToolCall, EventApprovalRequest]"
    by code_simp
  then show ?thesis by (cases "Exec sample_controller gated_harness [] 0 sample_world") auto
qed

lemma gated_exec_parked:
  "\<exists>res w'. Exec sample_controller gated_harness [] 0 sample_world = (res, w') \<and>
     log_records (w_log w') \<noteq> log_records (w_log sample_world) \<and> log_records (w_log w') \<noteq> [] \<and>
     ev_kind (r_event (last (log_records (w_log w')))) = EventApprovalRequest"
proof -
  obtain res w' where e: "Exec sample_controller gated_harness [] 0 sample_world = (res, w')" and
    k: "map (\<lambda>r. ev_kind (r_event r)) (log_records (w_log w')) = [EventExecutionStart, EventToolCall, EventApprovalRequest]"
    using gated_exec by metis
  from k have "log_records (w_log w') \<noteq> []" by auto
  moreover from this k have "ev_kind (r_event (last (log_records (w_log w')))) = EventApprovalRequest"
    by (metis last_ConsL last_ConsR last_map list.distinct(1))
  ultimately show ?thesis using e by (auto simp: sample_world_def New_def)
qed

lemma sample_start: "c_ops sample_controller = AsStore short_canon" "log_ok short_canon (w_log sample_world)"
  "c_newID sample_controller (w_tick sample_world) \<noteq> []"
  "fresh_id (c_newID sample_controller (w_tick sample_world)) (map r_event (log_records (w_log sample_world)))"
  by (simp_all add: sample_controller_def sample_world_def New_def fresh_id_def log_ok_def)

theorem parked_turn_awaits_decision_witness:
  "\<exists>res w' st. Exec sample_controller gated_harness [] 0 sample_world = (res, w') \<and>
     InspectApproval (AsStore short_canon) 0 (w_log w') = Inr (Some st) \<and> as_decision st = None \<and> \<not> as_inherited st"
  using gated_exec_parked parked_turn_awaits_decision [OF sample_start] by metis

theorem open_gate_blocks_new_turns_witness:
  "\<exists>res w'. Exec sample_controller gated_harness [] 0 sample_world = (res, w') \<and>
     Exec sample_controller sample_harness [] 3 w' = (Some ErrApprovalBlocked, tick w')"
  using gated_exec_parked open_gate_blocks_new_turns [OF sample_start _ _ _ sample_start(1)] by metis


definition parked_world :: "log world" where
  "parked_world = snd (Exec sample_controller gated_harness [] 0 sample_world)"

definition sample_decision :: approval_decision where
  "sample_decision = \<lparr>ad_executionID = ''id0'', ad_toolCallID = ''t1'', ad_requestSeq = 3, ad_approved = True,
     ad_reason = ''ok'', ad_identity = empty_identity\<rparr>"

lemma parked_world_ok: "log_ok short_canon (w_log parked_world)"
  using controller_store.Exec_journaled [OF mem_store [OF sample_start(1)] sample_start(2)]
    controller_store.journaled_invar [OF mem_store [OF sample_start(1)]]
  unfolding parked_world_def by (metis prod.collapse)

lemma sample_approve:
  "\<exists>r l1. Approve (AsStore short_canon) 5 sample_decision (w_log parked_world) = (Inr r, l1) \<and> r_seq r = 4 \<and> length (log_records l1) = 4"
proof -
  have "case Approve (AsStore short_canon) 5 sample_decision (w_log parked_world) of
     (Inr r, l1) \<Rightarrow> r_seq r = 4 \<and> length (log_records l1) = 4 | _ \<Rightarrow> False"
    by code_simp
  then show ?thesis by (auto split: prod.splits sum.splits)
qed

theorem approve_writes_only_open_gate_witness:
  "\<exists>scan k r l1. Approve (AsStore short_canon) 5 sample_decision (w_log parked_world) = (Inr r, l1) \<and>
     scanApprovalRecords (log_records (w_log parked_world)) 0 = Inr scan \<and> decidable scan sample_decision k \<and>
     log_records l1 = log_records (w_log parked_world) @ [r] \<and> length (log_records l1) = 4"
proof -
  obtain r l1 where a: "Approve (AsStore short_canon) 5 sample_decision (w_log parked_world) = (Inr r, l1)" and n: "length (log_records l1) = 4"
    using sample_approve by blast
  have "length (log_records (w_log parked_world)) = 3" by code_simp
  with approve_writes_only_open_gate [OF parked_world_ok a] a n show ?thesis by auto
qed

text \<open>The decided turn resumes, executes the call and ends.\<close>

definition decided_log :: log where
  "decided_log = snd (Approve (AsStore short_canon) 5 sample_decision (w_log parked_world))"

definition resumed_log :: log where
  "resumed_log = w_log (snd (Resume sample_controller gated_harness (parked_world\<lparr>w_log := decided_log\<rparr>)))"

lemma resumed_log_records:
  "log_records resumed_log = log_records decided_log @ drop 4 (log_records resumed_log)
   \<and> map (\<lambda>r. ev_kind (r_event r)) (drop 4 (log_records resumed_log)) = [EventToolResult, EventOutput, EventEnd]"
  by code_simp

lemma resumed_log_ok: "log_ok short_canon resumed_log"
  by code_simp

lemma resumed_log_scans: "\<not> isl (scanApprovalRecords (log_records resumed_log) 0)"
  by code_simp

theorem approve_idempotent_and_final_witness:
  "\<exists>r. Approve (AsStore short_canon) 5 sample_decision (w_log parked_world) = (Inr r, decided_log) \<and>
     Approve (AsStore short_canon) 9 sample_decision resumed_log = (Inr r, resumed_log) \<and>
     Approve (AsStore short_canon) 9 (sample_decision\<lparr>ad_approved := False\<rparr>) resumed_log
       = (Inl (invalid_decision ''request already has a different decision''), resumed_log)"
proof -
  obtain r where a: "Approve (AsStore short_canon) 5 sample_decision (w_log parked_world) = (Inr r, decided_log)"
    using sample_approve unfolding decided_log_def by fastforce
  obtain scan where scan: "scanApprovalRecords (log_records resumed_log) 0 = Inr scan"
    using resumed_log_scans by (cases "scanApprovalRecords (log_records resumed_log) 0") simp_all
  have "fork_record r \<Longrightarrow> ev_kind (r_event r) = EventLifecycle" for r by (simp add: fork_record_def)
  moreover have "EventLifecycle \<notin> set (map (\<lambda>r. ev_kind (r_event r)) (drop 4 (log_records resumed_log)))"
    unfolding conjunct2 [OF resumed_log_records] by simp
  ultimately have nf: "\<not> list_ex fork_record (drop 4 (log_records resumed_log))" unfolding list_ex_iff set_map image_iff by metis
  note f = approve_idempotent_and_final [OF parked_world_ok a _ resumed_log_ok conjunct1 [OF resumed_log_records] nf]
  have same: "same_gate sample_decision sample_decision" "same_gate sample_decision (sample_decision\<lparr>ad_approved := False\<rparr>)"
    by (simp_all add: same_gate_def)
  show ?thesis
    using a conjunct2 [OF f [OF same(1), of 9]] conjunct2 [OF f [OF same(2), of 9]]
    unfolding scan sum.case by (simp add: sample_decision_def)
qed

end
