(* ===== verification/Recovery.thy ===== *)
theory Recovery
  imports Gates
begin

text \<open>
  Crash recovery and branching: \<^verbatim>\<open>Resume\<close> serves what is recorded before it acts, does nothing on a
  finished journal and completes an interrupted turn; \<^verbatim>\<open>Fork\<close> copies a prefix with its hashes.
\<close>

section \<open>The resume sink serves before it acts\<close>

definition untouched :: "'s world \<Rightarrow> 's world \<Rightarrow> bool" where
  "untouched w w' \<longleftrightarrow> w_log w' = w_log w \<and> w_external w' = w_external w \<and> w_observed w' = w_observed w \<and>
     w_liveModelCalls w' = w_liveModelCalls w \<and> w_liveToolCalls w' = w_liveToolCalls w"

lemma untouched_refl [simp]: "untouched w w" "untouched w (tick w)"
  by (simp_all add: untouched_def)

lemma untouched_trans: "untouched w w1 \<Longrightarrow> untouched w1 w2 \<Longrightarrow> untouched w w2"
  by (simp add: untouched_def)

definition resume_rel :: "'s resume_env \<Rightarrow> 's resume \<Rightarrow> 's resume \<Rightarrow> bool" where
  "resume_rel V s t \<longleftrightarrow> rs_i s \<le> rs_i t \<and> (rs_i s \<le> length (rv_stream V) \<longrightarrow> rs_i t \<le> length (rv_stream V)) \<and>
     (rs_i t < length (rv_stream V) \<longrightarrow> untouched (lv_w (rs_live s)) (lv_w (rs_live t)))"

lemma resume_rel_refl: "resume_rel V s s"
  by (simp add: resume_rel_def)

lemma resume_rel_trans: "resume_rel V s t \<Longrightarrow> resume_rel V t u \<Longrightarrow> resume_rel V s u"
  by (auto simp: resume_rel_def intro: untouched_trans)

lemma resume_rel_served:
  "lv_w (rs_live t) = lv_w (rs_live s) \<Longrightarrow> rs_i s \<le> rs_i t \<Longrightarrow> rs_i t \<le> length (rv_stream V) \<or> rs_i t = rs_i s \<Longrightarrow> resume_rel V s t"
  by (auto simp: resume_rel_def)

lemma resume_rel_live:
  "length (rv_stream V) \<le> rs_i t \<Longrightarrow> rs_i t = rs_i s \<or> rs_i t = length (rv_stream V) \<and> rs_i s \<le> rs_i t \<Longrightarrow> resume_rel V s t"
  by (auto simp: resume_rel_def)

lemma go_live_i [simp]: "rs_i (snd (go_live f s)) = rs_i s"
  by (simp add: go_live_def split: prod.split)

lemma resume_rel_enter:
  assumes "\<And>s1. resume_rel V s1 (snd (body s1))"
  shows "resume_rel V s (snd (resume_enter V fail body s))"
proof -
  let ?s = "s\<lparr>rs_live := set_w (tick (lv_w (rs_live s))) (rs_live s)\<rparr>"
  have "resume_rel V s ?s" by (simp add: resume_rel_def)
  with assms [of ?s] show ?thesis
    by (auto simp: resume_enter_def Let_def resume_rel_refl split: option.split intro: resume_rel_trans)
qed

lemma next_of_bound: "next_of k st i = Some e \<Longrightarrow> i < length st"
  by (auto simp: next_of_def split: if_splits)

lemma consume_bound:
  "consumeApprovalPrefix st i a = (r, j) \<Longrightarrow> i \<le> j \<and> (i \<le> length st \<longrightarrow> j \<le> length st)"
  by (auto simp: consumeApprovalPrefix_def split: if_splits)

lemma resume_rel_model: "resume_rel V s (snd (resume_model V req s))"
proof (cases "rs_i s < length (rv_stream V)")
  case False
  then show ?thesis by (simp add: resume_model_def) (rule resume_rel_live, auto)
next
  case True
  show ?thesis
  proof (cases "next_of EventOutput (rv_stream V) (Suc (rs_i s)) = None \<and> Suc (rs_i s) = length (rv_stream V)")
    case live: True
    show ?thesis
      using True live
      by (auto simp: resume_model_def resume_fail_def Let_def split: option.split
          intro: resume_rel_served resume_rel_live)
  next
    case False
    with True show ?thesis
      by (auto simp: resume_model_def resume_fail_def Let_def split: option.split
          intro!: resume_rel_served dest: next_of_bound)
  qed
qed

lemma resume_rel_output: "resume_rel V s (snd (resume_output V d s))"
  by (cases "rs_i s < length (rv_stream V)")
     (auto simp: resume_output_def resume_fail_err_def Let_def split: option.split
        intro: resume_rel_served resume_rel_live)

lemma resume_rel_report: "resume_rel V s (snd (resume_report V tr s))"
  by (cases "rs_i s < length (rv_stream V)")
     (auto simp: resume_report_def resume_fail_err_def split: option.split
        intro: resume_rel_served resume_rel_live)

lemma resume_rel_usage: "resume_rel V s (snd (resume_usage V u s))"
  by (cases "rs_i s < length (rv_stream V)")
     (auto simp: resume_usage_def resume_fail_err_def Let_def split: option.split
        intro: resume_rel_served resume_rel_live)

lemma resume_rel_ordinary:
  assumes "rs_i s \<le> length (rv_stream V)"
  shows "resume_rel V s (snd (resume_ordinary V call s))"
proof (cases "next_of EventToolResult (rv_stream V) (rs_i s)")
  case None
  with assms show ?thesis
    by (auto simp: resume_ordinary_def intro: resume_rel_served resume_rel_live)
next
  case (Some tr)
  with next_of_bound [OF Some] show ?thesis
    by (auto simp: resume_ordinary_def resume_fail_def Let_def split: sum.split intro: resume_rel_served)
qed

lemma resume_rel_approval:
  assumes s: "rs_i s \<le> length (rv_stream V)"
    and live: "\<And>st i. consumeApprovalPrefix (rv_stream V) (rs_i s) (rv_approvals V (tc_id call)) = (None, i) \<Longrightarrow>
      rv_approvals V (tc_id call) = Some st \<Longrightarrow> as_receipt st = None \<Longrightarrow> i = length (rv_stream V)"
  shows "resume_rel V s (snd (resume_approval V call s))"
proof -
  obtain e i where c: "consumeApprovalPrefix (rv_stream V) (rs_i s) (rv_approvals V (tc_id call)) = (e, i)" by fastforce
  note b = consume_bound [OF c]
  show ?thesis
  proof (cases e)
    case (Some x)
    with b c s show ?thesis by (auto simp: resume_approval_def resume_fail_def Let_def intro: resume_rel_served)
  next
    case None
    then obtain st rq dc where st: "rv_approvals V (tc_id call) = Some st" "as_request st = Some rq" "as_decision st = Some dc"
      using c by (auto simp: consumeApprovalPrefix_def split: if_splits option.splits)
    show ?thesis
    proof (cases "as_receipt st")
      case None
      with live [OF c [unfolded \<open>e = None\<close>] st(1)] c st \<open>e = None\<close> b show ?thesis
        by (simp add: resume_approval_def) (rule resume_rel_live, auto)
    next
      case (Some q)
      show ?thesis
      proof (cases "next_of EventToolResult (rv_stream V) i")
        case None
        with Some c st \<open>e = None\<close> b s show ?thesis
          by (auto simp: resume_approval_def resume_fail_def intro: resume_rel_served)
      next
        case (Some tr)
        with next_of_bound [OF Some] \<open>as_receipt st = Some q\<close> c st \<open>e = None\<close> b show ?thesis
          by (auto simp: resume_approval_def resume_fail_def Let_def split: sum.split intro: resume_rel_served)
      qed
    qed
  qed
qed


text \<open>
  A gate without receipt ends the effect stream: after its call only the request and the decision
  follow.  (The approval scan rejects a journal that continues past an open gate.)
\<close>

definition open_gate_last :: "'s resume_env \<Rightarrow> bool" where
  "open_gate_last V \<longleftrightarrow> (\<forall>i t st. i < length (rv_stream V) \<longrightarrow> ev_toolCall (rv_stream V ! i) = Some t \<longrightarrow>
     rv_approvals V (tc_id t) = Some st \<longrightarrow> as_receipt st = None \<longrightarrow> length (rv_stream V) \<le> i + 3)"

lemma consume_two: "consumeApprovalPrefix st i a = (None, j) \<Longrightarrow> j = i + 2 \<and> j \<le> length st"
  by (auto simp: consumeApprovalPrefix_def split: if_splits)

lemma resume_rel_toolCall:
  assumes g: "open_gate_last V"
  shows "resume_rel V s (snd (resume_toolCall V tc s))"
proof (cases "rs_i s < length (rv_stream V) \<and> \<not> keyless_rejected (rv_stream V) (rs_i s) tc \<and>
    fallback_error (rv_stream V) (rs_i s) tc = None")
  case False
  then show ?thesis
    by (auto simp: resume_toolCall_def resume_rel_refl split: option.split intro: resume_rel_live)
next
  case True
  show ?thesis
  proof (cases "next_of EventToolCall (rv_stream V) (rs_i s)")
    case None
    with True show ?thesis
      by (auto simp: resume_toolCall_def resume_fail_def split: option.split intro: resume_rel_refl resume_rel_served)
  next
    case (Some ev)
    then have ev: "rv_stream V ! rs_i s = ev" by (auto simp: next_of_def split: if_splits)
    let ?s1 = "s\<lparr>rs_i := Suc (rs_i s)\<rparr>"
    have s1: "resume_rel V s ?s1" using True by (intro resume_rel_served) auto
    show ?thesis
    proof (cases "\<exists>call. matchToolCall (cn_codec (c_canon (le_c (rv_live V)))) tc (ev_toolCall ev) = None \<and> ev_toolCall ev = Some call")
      case False
      with True Some show ?thesis
        by (auto simp: resume_toolCall_def resume_fail_def Let_def split: option.split intro!: resume_rel_served)
    next
      case match: True
      then obtain call where m: "matchToolCall (cn_codec (c_canon (le_c (rv_live V)))) tc (Some call) = None" "ev_toolCall ev = Some call" by auto
      let ?s2 = "?s1\<lparr>rs_live := (rs_live ?s1)\<lparr>lv_calls := (lv_calls (rs_live ?s1))(tc_id call \<mapsto> (tc_mediation call = MediationRequiresApproval))\<rparr>\<rparr>"
      have s2: "resume_rel V s ?s2" using True by (intro resume_rel_served) auto
      have "resume_rel V ?s2 (snd (if tc_mediation call = MediationRequiresApproval then resume_approval V call ?s2 else resume_ordinary V call ?s2))"
      proof (cases "tc_mediation call = MediationRequiresApproval")
        case True
        have "resume_rel V ?s2 (snd (resume_approval V call ?s2))"
        proof (rule resume_rel_approval)
          show "rs_i ?s2 \<le> length (rv_stream V)" using next_of_bound [OF Some] by simp
        next
          fix st i
          assume c: "consumeApprovalPrefix (rv_stream V) (rs_i ?s2) (rv_approvals V (tc_id call)) = (None, i)"
            and "rv_approvals V (tc_id call) = Some st" "as_receipt st = None"
          with g next_of_bound [OF Some] ev m(2) have "length (rv_stream V) \<le> rs_i s + 3"
            unfolding open_gate_last_def by blast
          with consume_two [OF c] show "i = length (rv_stream V)" by simp
        qed
        with True show ?thesis by simp
      next
        case False
        with resume_rel_ordinary [of ?s2 V call] next_of_bound [OF Some] show ?thesis by simp
      qed
      with s2 have "resume_rel V s (snd (if tc_mediation call = MediationRequiresApproval then resume_approval V call ?s2 else resume_ordinary V call ?s2))"
        by (rule resume_rel_trans)
      with True Some m show ?thesis by (simp add: resume_toolCall_def Let_def)
    qed
  qed
qed

lemma resume_relation: "open_gate_last V \<Longrightarrow> sink_relation (resumeSink V) (resume_rel V)"
  by unfold_locales
     (auto simp: resumeSink_def resume_Model_def resume_Output_def resume_ToolCall_def resume_Report_def resume_Usage_def
        intro: resume_rel_refl resume_rel_trans resume_rel_enter resume_rel_model resume_rel_output
          resume_rel_toolCall resume_rel_report resume_rel_usage)

section \<open>Properties of Resume\<close>

text \<open>
  (C3) At most once: while a single recorded effect is still unserved, a resumed run -- of any
  harness -- has invoked neither the model nor a tool and has appended nothing.  (The stream is one
  in which an approval gate without receipt can only be the end, as the approval scan guarantees.)
\<close>

theorem resume_serves_before_acting:
  assumes "open_gate_last V" and "rs_i s \<le> length (rv_stream V)" and "drive (resumeSink V) p s = (e, t)"
  shows "rs_i t \<le> length (rv_stream V) \<and>
     (rs_i t < length (rv_stream V) \<longrightarrow>
        w_external (lv_w (rs_live t)) = w_external (lv_w (rs_live s)) \<and> w_log (lv_w (rs_live t)) = w_log (lv_w (rs_live s)))"
  using sink_relation.rel_drive [OF resume_relation [OF assms(1)], of s p] assms(2,3)
  by (auto simp: resume_rel_def untouched_def)


definition sample_resume_env :: "log resume_env" where
  "sample_resume_env = \<lparr>rv_live = live_env_of sample_controller ''id0'' sample_harness,
     rv_stream = [model_call_event sample_controller sample_request ''i1'', output_event (TextMessage ''assistant'' ''hi'')],
     rv_approvals = Map.empty\<rparr>"

theorem resume_serves_before_acting_witness:
  "\<exists>e t. drive (resumeSink sample_resume_env) (CallOutput ''x'' Return)
       \<lparr>rs_live = live_init None sample_world, rs_i = 0, rs_failure = None\<rparr> = (e, t) \<and>
     e \<noteq> None \<and> rs_i t < length (rv_stream sample_resume_env) \<and> w_log (lv_w (rs_live t)) = w_log sample_world"
proof -
  have "open_gate_last sample_resume_env" by (simp add: open_gate_last_def sample_resume_env_def)
  moreover obtain e t where d: "drive (resumeSink sample_resume_env) (CallOutput ''x'' Return)
       \<lparr>rs_live = live_init None sample_world, rs_i = 0, rs_failure = None\<rparr> = (e, t)" by fastforce
  ultimately have "w_log (lv_w (rs_live t)) = w_log sample_world" if "rs_i t < length (rv_stream sample_resume_env)"
    using resume_serves_before_acting [OF _ _ d] that by (auto simp: live_init_def)
  moreover have "case drive (resumeSink sample_resume_env) (CallOutput ''x'' Return)
       \<lparr>rs_live = live_init None sample_world, rs_i = 0, rs_failure = None\<rparr> of
       (e, t) \<Rightarrow> e \<noteq> None \<and> rs_i t < length (rv_stream sample_resume_env)" by code_simp
  ultimately show ?thesis using d by auto
qed

text \<open>
  A finished journal is not touched by recovery: after an \<^verbatim>\<open>Exec\<close> that completed, \<^verbatim>\<open>Resume\<close> by any
  controller with any harness reports that there was nothing to resume and changes nothing, and
  \<^verbatim>\<open>ResumeInvocation\<close> names no pending invocation.
\<close>

theorem resume_after_completion_is_noop:
  assumes c: "c_ops c = AsStore cn" and ok: "log_ok cn (w_log w)"
    and x: "c_newID c (w_tick w) \<noteq> []" "fresh_id (c_newID c (w_tick w)) (map r_event (log_records (w_log w)))"
    and rx: "recordedExecutions (map r_event (log_records (w_log w))) = Inr xs"
    and lp: "legacyPrefix (map r_event (log_records (w_log w))) = Inr n" "n = 0 \<or> n < length (log_records (w_log w))"
    and e: "Exec c har inputs ex w = (None, w')" and c2: "c_ops c2 = AsStore cn"
  shows "Resume c2 har2 w' = ((False, None), w') \<and> ResumeInvocation (AsStore cn) (w_log w') = Inr None"
proof -
  let ?x = "c_newID c (w_tick w)" and ?rs = "log_records (w_log w)"
  note st = mem_store [OF c]
  from controller_store.Exec_journaled [OF st ok e] obtain new sv eff where
    j: "controller_store.journaled c log_records log_fence (log_ok cn) (\<lambda>e. e) w w' new"
    and sv: "marks_start ?x (length inputs) sv" and te: "turn_effects ?x False eff"
    and new: "map r_event new = sv # map (input_event ?x) inputs @ eff @ [end_event\<lparr>ev_executionID := ?x\<rparr>]" by auto
  have recs: "log_records (w_log w') = ?rs @ new" and ok': "log_ok cn (w_log w')"
    using j by (simp_all add: controller_store.journaled_def [OF st] controller_store.stored_def [OF st])
  from sv obtain s where s: "ev_kind sv = EventExecutionStart" "ev_executionStart sv = Some s" "ev_executionID sv = ?x"
    "es_inputCount s = Some (int (length inputs))" by (auto simp: marks_start_def)
  have xs': "recordedExecutions (map r_event (?rs @ new)) = Inr (xs @ [turn_execution ?x (length ?rs) s inputs eff True])"
    using recordedExecutions_turn [OF rx lp(1) _ x s, of eff "[end_event\<lparr>ev_executionID := ?x\<rparr>]"] lp(2) new
      turn_effects_stream_kind [OF te] by (simp add: terminal_def)
  have "\<exists>scan. scanApprovalRecords ?rs 0 = Inr scan" using Exec_admitted [OF e c ok] by blast
  then obtain scan' where sc: "scanApprovalRecords (?rs @ new) 0 = Inr scan'"
    using scan_completed_turn [OF _ x(2) sv new te] by blast
  have pend: "pendingResumeExecution (map r_event (?rs @ new)) (xs @ [turn_execution ?x (length ?rs) s inputs eff True]) = Inr None"
    by (simp add: pendingResumeExecution_def pendingExecution_def turn_execution_def)
  have "CheckWritable (c_ops c2) (w_log w') = None" by (simp add: c2 CheckWritable_def AsStore_def)
  moreover have "new \<noteq> []" using new by auto
  ultimately show ?thesis
    using mem_read [OF ok'] c2 recs xs' sc pend by (simp add: Resume_def ResumeInvocation_def Let_def)
qed

theorem resume_after_completion_is_noop_witness:
  "\<exists>w'. Exec sample_controller sample_harness [TextMessage ''user'' ''hello''] 0 sample_world = (None, w') \<and>
     Resume sample_controller gated_harness w' = ((False, None), w')"
proof -
  have "fst (Exec sample_controller sample_harness [TextMessage ''user'' ''hello''] 0 sample_world) = None" by code_simp
  then obtain w' where e: "Exec sample_controller sample_harness [TextMessage ''user'' ''hello''] 0 sample_world = (None, w')"
    by (metis prod.collapse)
  have "recordedExecutions (map r_event (log_records (w_log sample_world))) = Inr []"
    "legacyPrefix (map r_event (log_records (w_log sample_world))) = Inr 0" by code_simp+
  from resume_after_completion_is_noop [OF sample_start this _ e sample_start(1)] e show ?thesis by blast
qed

section \<open>Fork\<close>

definition refence :: "int64 \<Rightarrow> log_record \<Rightarrow> log_record" where
  "refence f r = r\<lparr>r_fence := f\<rparr>"

lemma refence_fields [simp]: "r_seq (refence f r) = r_seq r" "r_hash (refence f r) = r_hash r"
  "r_prevHash (refence f r) = r_prevHash r" "r_event (refence f r) = r_event r" "r_fence (refence f r) = f"
  by (simp_all add: refence_def)

lemma head_refence [simp]: "head_of (map (refence f) rs) = head_of rs" "last_hash (map (refence f) rs) = last_hash rs"
  by (simp_all add: head_of_def last_hash_def last_map)

lemma fork_copy_mem:
  assumes "seqs_ok (pre @ rs)" and "chain_from cn [] (pre @ rs)"
    and "log_records child = map (refence f) pre" and "log_fence child = f"
  shows "\<exists>child'. fork_copy (AsStore cn) f atSeq rs (head_of pre) child
       = (Inr (head_of (pre @ takeWhile (\<lambda>r. r_seq r \<le> atSeq) rs)), child') \<and>
     log_records child' = map (refence f) (pre @ takeWhile (\<lambda>r. r_seq r \<le> atSeq) rs) \<and> log_fence child' = f"
  using assms
proof (induction rs arbitrary: pre child)
  case Nil
  then show ?case by simp
next
  case (Cons r rs)
  show ?case
  proof (cases "r_seq r > atSeq")
    case True
    with Cons.prems show ?thesis by simp
  next
    case False
    have "seqs_ok (pre @ [r])" "chain_from cn [] (pre @ [r])"
      using Cons.prems(1,2) seqs_ok_prefix [of "pre @ [r]" rs] chain_from_append [of cn "[]" "pre @ [r]" rs] by simp_all
    then have r: "r_seq r = head_of pre + 1" "r_prevHash r = last_hash pre"
      "HashRecord cn (last_hash pre) (head_of pre + 1) (r_event r) = Inr (r_hash r)"
      by (simp_all add: seqs_ok_snoc chain_from_snoc)
    let ?c = "child\<lparr>log_records := log_records child @ [refence f r]\<rparr>"
    have "refence f r = \<lparr>r_seq = head_of pre + 1, r_prevHash = last_hash pre, r_hash = r_hash r, r_fence = f, r_event = r_event r\<rparr>"
      using r(1,2) by (cases r) (simp add: refence_def)
    then have "Append cn (head_of pre) f (r_event r) child = (Inr (refence f r), ?c)"
      using Cons.prems(3,4) r by (simp add: Append_def Head_def Let_def)
    moreover have "\<exists>child'. fork_copy (AsStore cn) f atSeq rs (head_of (pre @ [r])) ?c
       = (Inr (head_of ((pre @ [r]) @ takeWhile (\<lambda>r. r_seq r \<le> atSeq) rs)), child') \<and>
     log_records child' = map (refence f) ((pre @ [r]) @ takeWhile (\<lambda>r. r_seq r \<le> atSeq) rs) \<and> log_fence child' = f"
      using Cons.prems by (intro Cons.IH) simp_all
    ultimately show ?thesis using False r(1) by (simp add: AsStore_def head_of_def)
  qed
qed

lemma refence_prefix_ok:
  assumes "log_ok cn l"
  shows "seqs_ok (map (refence f) (takeWhile P (log_records l))) \<and> chain_from cn [] (map (refence f) (takeWhile P (log_records l)))"
proof -
  have "seqs_ok (map (refence f) rs) = seqs_ok rs" for rs by (simp add: seqs_ok_def comp_def)
  moreover have "chain_from cn p (map (refence f) rs) = chain_from cn p rs" for p rs by (induction rs arbitrary: p) simp_all
  moreover have "seqs_ok (takeWhile P (log_records l))" "chain_from cn [] (takeWhile P (log_records l))"
    using assms seqs_ok_prefix [of "takeWhile P (log_records l)" "dropWhile P (log_records l)"]
      chain_from_append [of cn "[]" "takeWhile P (log_records l)" "dropWhile P (log_records l)"]
    by (simp_all add: log_ok_def)
  ultimately show ?thesis by simp
qed

text \<open>
  (C35) \<^verbatim>\<open>Fork\<close> of a valid journal into an empty one shares the prefix: the child holds the parent's
  records up to the branch point with the same numbers, links, hashes and events (only the fence is
  the child's own), then the LIFECYCLE\_FORK marker, whose \<^verbatim>\<open>prev_hash\<close> is the hash of the parent's record
  at the branch point; the child verifies, and the parent is not written.
\<close>

theorem fork_shares_prefix:
  assumes "log_ok cn parent" and "Fork (AsStore cn) (AsStore cn) atSeq parent New = (None, child)"
  shows "\<exists>m. log_records child = map (refence 1) (takeWhile (\<lambda>r. r_seq r \<le> atSeq) (log_records parent)) @ [m] \<and>
     r_event m = fork_marker atSeq \<and>
     r_prevHash m = last_hash (takeWhile (\<lambda>r. r_seq r \<le> atSeq) (log_records parent)) \<and> log_ok cn child"
proof -
  let ?p = "takeWhile (\<lambda>r. r_seq r \<le> atSeq) (log_records parent)" and ?c1 = "New\<lparr>log_fence := 1\<rparr>"
  have "seqs_ok ([] @ log_records parent)" "chain_from cn [] ([] @ log_records parent)"
    "log_records ?c1 = map (refence 1) []" "log_fence ?c1 = 1"
    using assms(1) by (simp_all add: log_ok_def New_def)
  from fork_copy_mem [OF this, of atSeq] obtain c2 where
    c2: "fork_copy (AsStore cn) 1 atSeq (log_records parent) 0 ?c1 = (Inr (head_of ?p), c2)"
    "log_records c2 = map (refence 1) ?p" by (auto simp: head_of_def)
  have "log_ok cn c2" using refence_prefix_ok [OF assms(1), of 1 "\<lambda>r. r_seq r \<le> atSeq"] c2(2) by (simp add: log_ok_def)
  moreover from assms(2) c2(1) mem_read [OF assms(1)] obtain m where
    a: "Append cn (head_of ?p) 1 (fork_marker atSeq) c2 = (Inr m, child)"
    by (auto simp: Fork_def CheckWritable_def AsStore_def NewFence_def New_def split: sum.splits prod.splits)
  ultimately have "log_ok cn child" by (blast intro: Append_log_ok)
  with a c2(2) show ?thesis by (cases rule: Append_cases) auto
qed


definition forked_parent :: log where
  "forked_parent = w_log (snd (Exec sample_controller sample_harness [TextMessage ''user'' ''hello''] 0 sample_world))"

theorem fork_shares_prefix_witness:
  "\<exists>child m. Fork (AsStore short_canon) (AsStore short_canon) 4 forked_parent New = (None, child) \<and>
     log_records child = map (refence 1) (takeWhile (\<lambda>r. r_seq r \<le> 4) (log_records forked_parent)) @ [m] \<and>
     r_event m = fork_marker 4 \<and> log_ok short_canon child \<and> length (log_records child) = 5"
proof -
  have ok: "log_ok short_canon forked_parent"
    unfolding forked_parent_def by (rule Exec_log_ok [OF sample_start(1,2)]) (rule prod.collapse [symmetric])
  have "case Fork (AsStore short_canon) (AsStore short_canon) 4 forked_parent New of
     (r, child) \<Rightarrow> r = None \<and> length (log_records child) = 5" by code_simp
  then obtain child where f: "Fork (AsStore short_canon) (AsStore short_canon) 4 forked_parent New = (None, child)"
    and "length (log_records child) = 5" by auto
  with fork_shares_prefix [OF ok f] show ?thesis by blast
qed

section \<open>A handled provider failure\<close>

text \<open>
  OUTPUT carries no call ID, so on replay any OUTPUT directly after a MODEL\_CALL is taken for its
  completion.  A harness that handles a provider failure by speaking for itself completes its turn
  live; on replay the same harness is told that the model answered.
\<close>

definition failing_controller :: "log controller" where
  "failing_controller = sample_controller\<lparr>c_model := (\<lambda>t req. Inl (ErrNew ''provider down''))\<rparr>"

definition apologising_harness :: harness where
  "apologising_harness = sample_harness\<lparr>har_run := (\<lambda>st. CallModel sample_request (\<lambda>r. case r of
        Inl e \<Rightarrow> CallOutput ''sorry'' Return
      | Inr resp \<Rightarrow> CallOutput ''answered'' Return))\<rparr>"

text \<open>
  An example of what the theorems above leave out with their condition on failed model calls: a deterministic harness
  and a journal of one turn that completed live (END committed, \<^verbatim>\<open>Exec\<close> returned nil) which the same harness
  cannot replay.  \<^verbatim>\<open>Replay\<close> fails with
  \<^verbatim>\<open>ErrReplayDiverged\<close>, because the fallback OUTPUT after the failed MODEL\_CALL is served as the
  completion the provider never produced.
\<close>

theorem handled_model_failure_breaks_replay:
  "case Exec failing_controller apologising_harness [] 0 sample_world of (res, w') \<Rightarrow>
     res = None \<and> map (\<lambda>r. ev_kind (r_event r)) (log_records (w_log w'))
        = [EventExecutionStart, EventModelCall, EventOutput, EventEnd] \<and>
     (case fst (Replay failing_controller apologising_harness w') of
        Inl e \<Rightarrow> errors_is e ErrReplayDiverged | Inr _ \<Rightarrow> False)"
  by code_simp

end
