(* ===== verification/Crash.thy ===== *)
theory Crash
  imports Recovery
begin

text \<open>
  Crash recovery.  A crash cuts the journal of a running turn at an arbitrary record.  \<open>interrupted\<close>
  describes the effect streams such a cut can leave: a recording of the run that stops between two
  effects, or after the MODEL\_CALL or TOOL\_CALL of an effect that has no answer yet.  The resume
  sink serves such a stream, re-drives the unanswered effect and continues live
  (\<open>resume_interrupted\<close>); what is in the journal afterwards is again a recording of the whole run.
\<close>

section \<open>Interrupted recordings\<close>

inductive interrupted :: "(model_request \<Rightarrow> string) \<Rightarrow> struct_codec \<Rightarrow> run \<Rightarrow> event list \<Rightarrow> bool"
  for hash k where
  cut_clean: "interrupted hash k p []"
| cut_model: "ev_kind mc = EventModelCall \<Longrightarrow> ev_modelCall mc = Some m \<Longrightarrow> mc_inputHash m = hash req \<Longrightarrow>
    interrupted hash k (CallModel req f) [mc]"
| cut_tool: "ev_kind tc = EventToolCall \<Longrightarrow> ev_toolCall tc = Some call' \<Longrightarrow> matchToolCall k call (Some call') = None \<Longrightarrow>
    tc_mediation call' = MediationControllerMediated \<Longrightarrow> interrupted hash k (CallToolCall call f) [tc]"
| past_model: "ev_kind mc = EventModelCall \<Longrightarrow> ev_modelCall mc = Some m \<Longrightarrow> mc_inputHash m = hash req \<Longrightarrow>
    ev_kind out = EventOutput \<Longrightarrow> ev_message out = Some msg \<Longrightarrow>
    interrupted hash k (f (Inr \<lparr>mresp_message = msg, mresp_usage = first_usage es\<rparr>)) es \<Longrightarrow>
    interrupted hash k (CallModel req f) (mc # out # es)"
| past_output: "ev_kind out = EventOutput \<Longrightarrow> ev_message out = Some msg \<Longrightarrow> Message_Text msg = d \<Longrightarrow>
    interrupted hash k (f None) es \<Longrightarrow> interrupted hash k (CallOutput d f) (out # es)"
| past_tool: "ev_kind tc = EventToolCall \<Longrightarrow> ev_toolCall tc = Some call' \<Longrightarrow> matchToolCall k call (Some call') = None \<Longrightarrow>
    tc_mediation call' = MediationControllerMediated \<Longrightarrow>
    ev_kind tr = EventToolResult \<Longrightarrow> ev_result tr = Some r \<Longrightarrow> tr_id r = tc_id call' \<Longrightarrow>
    approvalReportError r = None \<Longrightarrow>
    interrupted hash k (f (Inr r)) es \<Longrightarrow> interrupted hash k (CallToolCall call f) (tc # tr # es)"
| past_report: "approvalReportError r = None \<Longrightarrow> ev_kind e = EventToolResult \<Longrightarrow> ev_result e = Some r \<Longrightarrow>
    interrupted hash k (f None) es \<Longrightarrow> interrupted hash k (CallReport r f) (e # es)"
| past_report_rejected: "approvalReportError r = Some err \<Longrightarrow>
    interrupted hash k (f (Some err)) es \<Longrightarrow> interrupted hash k (CallReport r f) es"
| past_usage: "ev_kind e = EventUsage \<Longrightarrow> ev_usage e = Some u \<Longrightarrow>
    interrupted hash k (f None) es \<Longrightarrow> interrupted hash k (CallUsage u f) (e # es)"

text \<open>Every cut of a recording is interrupted.\<close>

lemma first_usage_take: "n \<noteq> 0 \<Longrightarrow> first_usage (take n es) = first_usage es"
  by (cases n; cases es) (simp_all add: first_usage_def usageAt_def)

lemma recorded_cut: "recorded hash k p es q \<Longrightarrow> interrupted hash k p (take n es)"
proof (induction arbitrary: n rule: recorded.induct)
  case (rec_done p)
  show ?case by (simp add: cut_clean)
next
  case (rec_model mc m req out msg f es q)
  consider "n = 0" | "n = 1" | j where "n = Suc (Suc j)" by (metis One_nat_def not0_implies_Suc)
  then show ?case
  proof cases
    case 3
    show ?thesis
    proof (cases "j = 0")
      case True
      with 3 rec_model.hyps show ?thesis by (auto intro!: past_model cut_clean)
    next
      case False
      with 3 rec_model.hyps rec_model.IH [of j] show ?thesis
        by (auto intro!: past_model simp: first_usage_take)
    qed
  qed (use rec_model.hyps in \<open>auto intro: cut_clean cut_model\<close>)
next
  case (rec_tool tc call' call tr r f es q)
  consider "n = 0" | "n = 1" | j where "n = Suc (Suc j)" by (metis One_nat_def not0_implies_Suc)
  then show ?case
  proof cases
    case 2
    then show ?thesis using cut_tool [OF rec_tool.hyps(1-4)] by simp
  next
    case 3
    then show ?thesis using past_tool [where f = f, OF rec_tool.hyps(1-8) rec_tool.IH [of j]] by simp
  qed (simp add: cut_clean)
next
  case (rec_output out msg d f es q)
  then show ?case by (cases n) (simp_all add: cut_clean past_output)
next
  case (rec_report r e f es q)
  then show ?case by (cases n) (simp_all add: cut_clean past_report)
next
  case (rec_report_rejected r err f es q)
  show ?case by (rule past_report_rejected [where f = f, OF rec_report_rejected.hyps(1) rec_report_rejected.IH])
next
  case (rec_usage e u f es q)
  then show ?case by (cases n) (simp_all add: cut_clean past_usage)
qed

section \<open>Serving an interrupted recording\<close>

definition resuming :: "canon_env \<Rightarrow> log resume_env \<Rightarrow> log resume \<Rightarrow> event list \<Rightarrow> bool" where
  "resuming cn V s es \<longleftrightarrow> ready cn (rv_live V) (rs_live s) \<and> rs_failure s = None \<and>
     rs_i s \<le> length (rv_stream V) \<and> drop (rs_i s) (rv_stream V) = es"

definition resume_tick :: "'s resume \<Rightarrow> 's resume" where
  "resume_tick s = s\<lparr>rs_live := set_w (tick (lv_w (rs_live s))) (rs_live s)\<rparr>"

definition advanced :: "'s resume \<Rightarrow> 's resume" where
  "advanced s = s\<lparr>rs_i := Suc (rs_i s)\<rparr>"

lemma resume_tick_fields [simp]:
  "rs_i (resume_tick s) = rs_i s" "rs_failure (resume_tick s) = rs_failure s"
  "rs_live (resume_tick s) = set_w (tick (lv_w (rs_live s))) (rs_live s)"
  "rs_i (advanced s) = Suc (rs_i s)" "rs_failure (advanced s) = rs_failure s" "rs_live (advanced s) = rs_live s"
  by (simp_all add: resume_tick_def advanced_def)

lemma resuming_here:
  assumes "resuming cn V s (e # es)"
  shows "rs_i s < length (rv_stream V)" and "rv_stream V ! rs_i s = e"
    and "next_of kd (rv_stream V) (rs_i s) = (if ev_kind e = kd then Some e else None)"
    and "resuming cn V (advanced s) es"
proof -
  have d: "drop (rs_i s) (rv_stream V) = e # es" using assms by (simp add: resuming_def)
  then show lt: "rs_i s < length (rv_stream V)" by (metis drop_all list.distinct(1) not_le)
  with d show "rv_stream V ! rs_i s = e" by (metis Cons_nth_drop_Suc list.inject)
  show "next_of kd (rv_stream V) (rs_i s) = (if ev_kind e = kd then Some e else None)" by (rule next_of_drop [OF d])
  show "resuming cn V (advanced s) es"
    using assms lt drop_Suc_Cons [OF d] by (simp add: resuming_def)
qed

lemma resuming_end:
  assumes "resuming cn V s []"
  shows "rs_i s = length (rv_stream V)" and "next_of kd (rv_stream V) (rs_i s) = None"
  using assms by (simp_all add: resuming_def next_of_def)

lemma resuming_enter:
  assumes r: "reliable cn (le_c (rv_live V))" and s: "resuming cn V s es"
  shows "resume_enter V fail body s = body (resume_tick s)" and "resuming cn V (resume_tick s) es"
    and "live_grows cn (le_c (rv_live V)) (rs_live s) (rs_live (resume_tick s)) []"
proof -
  have l: "ready cn (rv_live V) (rs_live s)" using s by (simp add: resuming_def)
  show "resume_enter V fail body s = body (resume_tick s)"
    using r s l by (simp add: resume_enter_def guard_err_def resuming_def ready_def reliable_def Let_def resume_tick_def)
  show "resuming cn V (resume_tick s) es"
    using s ready_enter(2) [OF r l] by (simp add: resuming_def)
  show "live_grows cn (le_c (rv_live V)) (rs_live s) (rs_live (resume_tick s)) []"
    using ready_enter(3) [OF r l] by simp
qed

text \<open>Once the stream is exhausted, the resume sink is the live sink.\<close>

definition with_live :: "'s resume \<Rightarrow> 's live \<Rightarrow> 's resume" where
  "with_live s l = s\<lparr>rs_live := l\<rparr>"

lemma with_live_fields [simp]:
  "rs_live (with_live s l) = l" "rs_i (with_live s l) = rs_i s" "rs_failure (with_live s l) = rs_failure s"
  "with_live (with_live s l) l' = with_live s l'" "with_live s (rs_live s) = s"
  by (simp_all add: with_live_def)

lemma go_live_with: "go_live f s = (case f (rs_live s) of (r, l) \<Rightarrow> (r, with_live s l))"
  by (simp add: go_live_def with_live_def)

lemma exhausted_methods:
  assumes r: "reliable cn (le_c (rv_live V))" and s: "resuming cn V s []" and n: "\<not> le_legacyRecovery (rv_live V)"
  shows "resume_Model V req s = (case live_Model (rv_live V) req (rs_live s) of (x, l) \<Rightarrow> (x, with_live s l))"
    and "resume_Output V d s = (case live_Output (rv_live V) d (rs_live s) of (y, l) \<Rightarrow> (y, with_live s l))"
    and "tc_idempotencyKey tc \<noteq> [] \<Longrightarrow>
      resume_ToolCall V tc s = (case live_ToolCall (rv_live V) tc (rs_live s) of (z, l) \<Rightarrow> (z, with_live s l))"
    and "resume_Report V tr s = (case live_Report (rv_live V) tr (rs_live s) of (y, l) \<Rightarrow> (y, with_live s l))"
    and "resume_Usage V u s = (case live_Usage (rv_live V) u (rs_live s) of (y, l) \<Rightarrow> (y, with_live s l))"
proof -
  have l: "ready cn (rv_live V) (rs_live s)" using s by (simp add: resuming_def)
  have i: "rs_i (resume_tick s) = length (rv_stream V)" using resuming_end(1) [OF s] by simp
  have ng: "\<not> call_gated (lv_calls (rs_live s)) k" for k using l by (simp add: ready_def)
  have w: "with_live (resume_tick s) x = with_live s x" for x by (simp add: with_live_def resume_tick_def)
  note e = resuming_enter(1) [OF r s] and e' = ready_enter(1) [OF r l]
  show "resume_Model V req s = (case live_Model (rv_live V) req (rs_live s) of (x, l) \<Rightarrow> (x, with_live s l))"
    using i by (simp add: resume_Model_def live_Model_def e e' resume_model_def go_live_with w split: prod.split)
  show "resume_Output V d s = (case live_Output (rv_live V) d (rs_live s) of (y, l) \<Rightarrow> (y, with_live s l))"
    using i by (simp add: resume_Output_def live_Output_def e e' resume_output_def go_live_with w split: prod.split)
  show "resume_ToolCall V tc s = (case live_ToolCall (rv_live V) tc (rs_live s) of (z, l) \<Rightarrow> (z, with_live s l))"
    if "tc_idempotencyKey tc \<noteq> []"
    using i that by (simp add: resume_ToolCall_def live_ToolCall_def e e' resume_toolCall_def keyless_rejected_def
        go_live_with w split: prod.split)
  show "resume_Report V tr s = (case live_Report (rv_live V) tr (rs_live s) of (y, l) \<Rightarrow> (y, with_live s l))"
    using i ng by (simp add: resume_Report_def live_Report_def e e' resume_report_def live_report_def go_live_with w
        split: prod.split option.split)
  show "resume_Usage V u s = (case live_Usage (rv_live V) u (rs_live s) of (y, l) \<Rightarrow> (y, with_live s l))"
    using i n by (simp add: resume_Usage_def live_Usage_def e e' resume_usage_def go_live_with w split: prod.split)
qed

lemma resume_live:
  assumes r: "reliable cn (le_c (rv_live V))" and x: "le_executionID (rv_live V) \<noteq> []" "\<not> le_legacyRecovery (rv_live V)"
    and "tame k p" and "resuming cn V s []"
  shows "drive (resumeSink V) p s = (case drive (liveSink (rv_live V)) p (rs_live s) of (e, l) \<Rightarrow> (e, with_live s l))"
  using assms(4,5)
proof (induction p arbitrary: s)
  case (Return e)
  show ?case by simp
next
  case (CallModel req f)
  have l: "ready cn (rv_live V) (rs_live s)" using CallModel.prems(2) by (simp add: resuming_def)
  from live_Model_ok [OF r l x, of req] obtain resp s1 where
    m: "live_Model (rv_live V) req (rs_live s) = (Inr resp, s1)" "ready cn (rv_live V) s1" by blast
  have "resuming cn V (with_live s s1) []" using CallModel.prems(2) m(2) by (simp add: resuming_def)
  with CallModel.IH [OF rangeI, of "Inr resp" "with_live s s1"] CallModel.prems m(1) show ?case
    by (simp add: resumeSink_def liveSink_def exhausted_methods [OF r CallModel.prems(2) x(2)])
next
  case (CallOutput d f)
  have l: "ready cn (rv_live V) (rs_live s)" using CallOutput.prems(2) by (simp add: resuming_def)
  from live_single_ok [OF r l x live_output_def, of d] obtain s1 where
    m: "live_Output (rv_live V) d (rs_live s) = (None, s1)" "ready cn (rv_live V) s1" by (auto simp: live_Output_def)
  have "resuming cn V (with_live s s1) []" using CallOutput.prems(2) m(2) by (simp add: resuming_def)
  with CallOutput.IH [OF rangeI, of None "with_live s s1"] CallOutput.prems m(1) show ?case
    by (simp add: resumeSink_def liveSink_def exhausted_methods [OF r CallOutput.prems(2) x(2)])
next
  case (CallToolCall tc f)
  have l: "ready cn (rv_live V) (rs_live s)" using CallToolCall.prems(2) by (simp add: resuming_def)
  have t: "tool_tame k tc" using CallToolCall.prems(1) by simp
  from live_ToolCall_ok [OF r l x t] obtain res s1 where
    m: "live_ToolCall (rv_live V) tc (rs_live s) = (Inr res, s1)" "ready cn (rv_live V) s1" by blast
  have "resuming cn V (with_live s s1) []" using CallToolCall.prems(2) m(2) by (simp add: resuming_def)
  with CallToolCall.IH [OF rangeI, of "Inr res" "with_live s s1"] CallToolCall.prems m(1) t show ?case
    by (simp add: resumeSink_def liveSink_def tool_tame_def exhausted_methods [OF r CallToolCall.prems(2) x(2)])
next
  case (CallReport tr f)
  have l: "ready cn (rv_live V) (rs_live s)" using CallReport.prems(2) by (simp add: resuming_def)
  from live_Report_ok [OF r l x, of tr] obtain s1 where
    m: "live_Report (rv_live V) tr (rs_live s) = (approvalReportError tr, s1)" "ready cn (rv_live V) s1" by blast
  have "resuming cn V (with_live s s1) []" using CallReport.prems(2) m(2) by (simp add: resuming_def)
  with CallReport.IH [OF rangeI, of "approvalReportError tr" "with_live s s1"] CallReport.prems m(1)
    approvalReportError_cases [of tr] show ?case
    by (auto simp: resumeSink_def liveSink_def exhausted_methods [OF r CallReport.prems(2) x(2)])
next
  case (CallUsage u f)
  have l: "ready cn (rv_live V) (rs_live s)" using CallUsage.prems(2) by (simp add: resuming_def)
  from live_single_ok [OF r l x live_usage_def, of u] obtain s1 where
    m: "live_Usage (rv_live V) u (rs_live s) = (None, s1)" "ready cn (rv_live V) s1" by (auto simp: live_Usage_def)
  have "resuming cn V (with_live s s1) []" using CallUsage.prems(2) m(2) by (simp add: resuming_def)
  with CallUsage.IH [OF rangeI, of None "with_live s s1"] CallUsage.prems m(1) show ?case
    by (simp add: resumeSink_def liveSink_def exhausted_methods [OF r CallUsage.prems(2) x(2)])
qed

text \<open>The outcome of a resumed run: what was still to be done has been done and recorded.\<close>

definition completes :: "canon_env \<Rightarrow> log resume_env \<Rightarrow> run \<Rightarrow> event list \<Rightarrow> log resume \<Rightarrow> bool" where
  "completes cn V p es s \<longleftrightarrow> (let L = rv_live V in \<exists>err s' es2. drive (resumeSink V) p s = (err, s') \<and>
     resuming cn V s' [] \<and> live_grows cn (le_c L) (rs_live s) (rs_live s') es2 \<and> list_all (of_execution (live_id L)) es2 \<and>
     recorded (c_hashModelInput (le_c L)) (cn_codec (c_canon (le_c L))) p (es @ es2) (Return err))"

lemma completes_clean:
  assumes r: "reliable cn (le_c (rv_live V))" and x: "le_executionID (rv_live V) \<noteq> []" "\<not> le_legacyRecovery (rv_live V)"
    and t: "tame (cn_codec (c_canon (le_c (rv_live V)))) p" and s: "resuming cn V s []"
  shows "completes cn V p [] s"
proof -
  have l: "ready cn (rv_live V) (rs_live s)" using s by (simp add: resuming_def)
  obtain err l' where d: "drive (liveSink (rv_live V)) p (rs_live s) = (err, l')" by fastforce
  from live_recorded [OF r x t l d] obtain es2 where
    "live_grows cn (le_c (rv_live V)) (rs_live s) l' es2" "ready cn (rv_live V) l'" "list_all (of_execution (live_id (rv_live V))) es2"
    "recorded (c_hashModelInput (le_c (rv_live V))) (cn_codec (c_canon (le_c (rv_live V)))) p es2 (Return err)" by blast
  moreover have "drive (resumeSink V) p s = (err, with_live s l')" using resume_live [OF r x t s] d by simp
  moreover have "resuming cn V (with_live s l') []" using s \<open>ready cn (rv_live V) l'\<close> by (simp add: resuming_def)
  ultimately show ?thesis unfolding completes_def Let_def by (intro exI conjI) (assumption | simp)+
qed

text \<open>One more served or re-driven effect in front of what completes.\<close>

lemma completes_step:
  assumes "completes cn V q es s1" and "drive (resumeSink V) p s = drive (resumeSink V) q s1"
    and c: "c_ops (le_c (rv_live V)) = AsStore cn"
    and g: "live_grows cn (le_c (rv_live V)) (rs_live s) (rs_live s1) add" and "list_all (of_execution (live_id (rv_live V))) add"
    and rc: "\<And>es2 err. recorded (c_hashModelInput (le_c (rv_live V))) (cn_codec (c_canon (le_c (rv_live V)))) q (es @ es2) (Return err) \<Longrightarrow>
       recorded (c_hashModelInput (le_c (rv_live V))) (cn_codec (c_canon (le_c (rv_live V)))) p (pre @ add @ es2) (Return err)"
  shows "completes cn V p pre s"
proof -
  from assms(1) obtain err s' es2 where d: "drive (resumeSink V) q s1 = (err, s')" "resuming cn V s' []"
    "live_grows cn (le_c (rv_live V)) (rs_live s1) (rs_live s') es2" "list_all (of_execution (live_id (rv_live V))) es2"
    "recorded (c_hashModelInput (le_c (rv_live V))) (cn_codec (c_canon (le_c (rv_live V)))) q (es @ es2) (Return err)"
    by (auto simp: completes_def Let_def)
  have "live_grows cn (le_c (rv_live V)) (rs_live s) (rs_live s') (add @ es2)"
    by (rule controller_store.grows_trans [OF mem_store [OF c] g d(3)])
  with d assms(2,5) rc [OF d(5)] show ?thesis unfolding completes_def Let_def
    by (intro exI [of _ err] exI [of _ s'] exI [of _ "add @ es2"]) simp
qed

lemma resume_model_serves:
  assumes r: "reliable cn (le_c (rv_live V))" and n: "\<not> le_legacyRecovery (rv_live V)" and s: "resuming cn V s (mc # out # es)"
    and mc: "ev_kind mc = EventModelCall" "ev_modelCall mc = Some m" "mc_inputHash m = c_hashModelInput (le_c (rv_live V)) req"
    and out: "ev_kind out = EventOutput" "ev_message out = Some msg"
  shows "resume_Model V req s = (Inr \<lparr>mresp_message = msg, mresp_usage = first_usage es\<rparr>, advanced (advanced (resume_tick s)))"
    and "resuming cn V (advanced (advanced (resume_tick s))) es"
proof -
  note e = resuming_enter [OF r s]
  note a = resuming_here [OF e(2)]
  note b = resuming_here [OF a(4)]
  show "resuming cn V (advanced (advanced (resume_tick s))) es" by (rule b(4))
  then have u: "usageAt (rv_stream V) (Suc (Suc (rs_i s))) = first_usage es" by (simp add: resuming_def usageAt_drop)
  show "resume_Model V req s = (Inr \<lparr>mresp_message = msg, mresp_usage = first_usage es\<rparr>, advanced (advanced (resume_tick s)))"
    using a(1) a(3) [of EventModelCall] b(3) [of EventOutput] mc out n u
    by (simp add: resume_Model_def e(1) resume_model_def Let_def advanced_def)
qed

lemma resume_model_redrives:
  assumes r: "reliable cn (le_c (rv_live V))" and x: "le_executionID (rv_live V) \<noteq> []" "\<not> le_legacyRecovery (rv_live V)"
    and s: "resuming cn V s [mc]"
    and mc: "ev_kind mc = EventModelCall" "ev_modelCall mc = Some m" "mc_inputHash m = c_hashModelInput (le_c (rv_live V)) req"
  shows "\<exists>resp s'. resume_Model V req s = (Inr resp, s') \<and> resuming cn V s' [] \<and>
     live_grows cn (le_c (rv_live V)) (rs_live s) (rs_live s') [own (rv_live V) (output_event (mresp_message resp))]"
proof -
  let ?L = "rv_live V" and ?s = "advanced (resume_tick s)"
  have c: "c_ops (le_c ?L) = AsStore cn" using r by (simp add: reliable_def)
  note st = mem_store [OF c]
  note e = resuming_enter [OF r s]
  note a = resuming_here [OF e(2)]
  note b = resuming_end [OF a(4)]
  have rl: "ready cn ?L (rs_live ?s)" using a(4) by (simp add: resuming_def)
  have "\<exists>resp l. live_completeModel ?L req (rs_live ?s) = (Inr resp, l)"
  proof -
    obtain resp w where iv: "invokeModel (le_c ?L) (le_executionID ?L) req (lv_w (rs_live ?s)) = (Inr resp, w)"
      using invokeModel_ok r unfolding reliable_def by blast
    let ?s2 = "set_w (w\<lparr>w_liveModelCalls := Suc (w_liveModelCalls w)\<rparr>) (rs_live ?s)"
    have "ready cn ?L ?s2" using rl invokeModel_fields [OF iv] by (simp add: ready_def)
    from live_append_ok [OF r this x] obtain rr l where "live_append ?L (output_event (mresp_message resp)) ?s2 = (Inr rr, l)" by blast
    with iv show ?thesis by (simp add: live_completeModel_def)
  qed
  then obtain resp l where cm: "live_completeModel ?L req (rs_live ?s) = (Inr resp, l)" by blast
  from controller_store.live_completeModel_grows [OF st _ refl cm] rl have
    g: "same_guard (rs_live ?s) l" "live_grows cn (le_c ?L) (rs_live ?s) l [own ?L (output_event (mresp_message resp))]"
    by (auto simp: ready_def)
  have "ready cn ?L l" using ready_grows [OF c rl g(2)] g(1) rl by (simp add: same_guard_def ready_def)
  then have res: "resuming cn V (with_live ?s l) []" using a(4) by (simp add: resuming_def)
  have "resume_Model V req s = (Inr resp, with_live ?s l)"
    using a(1) a(3) [of EventModelCall] b(2) [of EventOutput] b(1) mc x(2) cm
    by (simp add: resume_Model_def e(1) resume_model_def Let_def go_live_with advanced_def)
  moreover have "live_grows cn (le_c ?L) (rs_live s) l [own ?L (output_event (mresp_message resp))]"
    using controller_store.grows_trans [OF st e(3) [unfolded resume_tick_fields] g(2) [unfolded resume_tick_fields]] by simp
  ultimately show ?thesis using res by auto
qed

lemma matched_call:
  assumes "matchToolCall k call (Some call') = None"
  shows "tc_id call = tc_id call'" and "tc_mediation call = tc_mediation call'" and "tc_idempotencyKey call \<noteq> []"
  using assms by (auto simp: matchToolCall_def Let_def split: if_splits)

definition noted :: "tool_call \<Rightarrow> 's resume \<Rightarrow> 's resume" where
  "noted call s = s\<lparr>rs_live := (rs_live s)\<lparr>lv_calls := (lv_calls (rs_live s))(tc_id call \<mapsto> False)\<rparr>\<rparr>"

lemma noted_fields [simp]: "rs_i (noted call s) = rs_i s" "rs_failure (noted call s) = rs_failure s"
  "lv_w (rs_live (noted call s)) = lv_w (rs_live s)"
  by (simp_all add: noted_def)

lemma resuming_noted: "resuming cn V s es \<Longrightarrow> resuming cn V (noted call s) es"
  by (simp add: resuming_def noted_def ready_def call_gated_def)

lemma resume_tool_known:
  assumes r: "reliable cn (le_c (rv_live V))" and s: "resuming cn V s (tc # es)"
    and tc: "ev_kind tc = EventToolCall" "ev_toolCall tc = Some call'"
      "matchToolCall (cn_codec (c_canon (le_c (rv_live V)))) call (Some call') = None"
      "tc_mediation call' = MediationControllerMediated"
  shows "resume_ToolCall V call s = resume_ordinary V call' (noted call' (advanced (resume_tick s)))"
    and "resuming cn V (noted call' (advanced (resume_tick s))) es"
    and "live_grows cn (le_c (rv_live V)) (rs_live s) (rs_live (noted call' (advanced (resume_tick s)))) []"
proof -
  note e = resuming_enter [OF r s]
  note a = resuming_here [OF e(2)]
  note m = matched_call [OF tc(3)]
  have k: "\<not> keyless_rejected (rv_stream V) (rs_i (resume_tick s)) call"
    "fallback_error (rv_stream V) (rs_i (resume_tick s)) call = None"
    using a(1,2) tc m by (simp_all add: keyless_rejected_def fallback_error_def)
  show "resume_ToolCall V call s = resume_ordinary V call' (noted call' (advanced (resume_tick s)))"
    using a(1) a(3) [of EventToolCall] tc k
    by (simp add: resume_ToolCall_def e(1) resume_toolCall_def Let_def) (simp add: advanced_def noted_def)
  show "resuming cn V (noted call' (advanced (resume_tick s))) es" by (rule resuming_noted [OF a(4)])
  have c: "c_ops (le_c (rv_live V)) = AsStore cn" using r by (simp add: reliable_def)
  from controller_store.grows_cong [OF mem_store [OF c] e(3)]
  show "live_grows cn (le_c (rv_live V)) (rs_live s) (rs_live (noted call' (advanced (resume_tick s)))) []" by simp
qed

lemma resume_tool_serves:
  assumes s: "resuming cn V s (tr # es)" and tr: "ev_kind tr = EventToolResult" "ev_result tr = Some res" "tr_id res = tc_id call'"
  shows "resume_ordinary V call' s = (Inr res, advanced s)"
  using resuming_here(3) [OF s, of EventToolResult] tr
  by (simp add: resume_ordinary_def recordedToolResult_def Let_def advanced_def)

lemma resume_tool_redrives:
  assumes r: "reliable cn (le_c (rv_live V))" and x: "le_executionID (rv_live V) \<noteq> []" "\<not> le_legacyRecovery (rv_live V)"
    and s: "resuming cn V s []"
  shows "\<exists>res s'. resume_ordinary V call' s = (Inr res, s') \<and> resuming cn V s' [] \<and> tr_id res = tc_id call' \<and>
     approvalReportError res = None \<and>
     live_grows cn (le_c (rv_live V)) (rs_live s) (rs_live s') [own (rv_live V) (tool_result_event res)]"
proof -
  let ?L = "rv_live V"
  have c: "c_ops (le_c ?L) = AsStore cn" using r by (simp add: reliable_def)
  have rl: "ready cn ?L (rs_live s)" using s by (simp add: resuming_def)
  from live_execTool_ok [OF r rl x] obtain res l where t: "live_execTool ?L call' (rs_live s) = (Inr res, l)" by blast
  from controller_store.live_execTool_grows [OF mem_store [OF c] _ refl t] rl have
    g: "same_guard (rs_live s) l" "tr_id res = tc_id call'" "approvalReportError res = None"
      "live_grows cn (le_c ?L) (rs_live s) l [own ?L (tool_result_event res)]" by (auto simp: ready_def)
  have "ready cn ?L l" using ready_grows [OF c rl g(4)] g(1) rl by (simp add: same_guard_def ready_def)
  then have "resuming cn V (with_live s l) []" using s by (simp add: resuming_def)
  moreover have "resume_ordinary V call' s = (Inr res, with_live s l)"
    using resuming_end [OF s] t by (simp add: resume_ordinary_def go_live_with)
  ultimately show ?thesis using g by auto
qed

lemma resume_quiet_serves:
  assumes r: "reliable cn (le_c (rv_live V))" and n: "\<not> le_legacyRecovery (rv_live V)" and s: "resuming cn V s (e # es)"
  shows "ev_kind e = EventOutput \<Longrightarrow> ev_message e = Some msg \<Longrightarrow> resume_Output V (Message_Text msg) s = (None, advanced (resume_tick s))"
    and "ev_kind e = EventUsage \<Longrightarrow> ev_usage e = Some u \<Longrightarrow> resume_Usage V u s = (None, advanced (resume_tick s))"
    and "ev_kind e = EventToolResult \<Longrightarrow> ev_result e = Some tr \<Longrightarrow> approvalReportError tr = None \<Longrightarrow>
      resume_Report V tr s = (None, advanced (resume_tick s))"
    and "resuming cn V (advanced (resume_tick s)) es"
proof -
  note en = resuming_enter [OF r s]
  note a = resuming_here [OF en(2)]
  have ng: "\<not> call_gated (lv_calls (rs_live s)) k" for k using s by (simp add: resuming_def ready_def)
  show "resume_Output V (Message_Text msg) s = (None, advanced (resume_tick s))"
    if "ev_kind e = EventOutput" "ev_message e = Some msg"
    using that a(1) a(3) [of EventOutput]
    by (simp add: resume_Output_def en(1) resume_output_def Let_def event_text_def advanced_def)
  show "resume_Usage V u s = (None, advanced (resume_tick s))" if "ev_kind e = EventUsage" "ev_usage e = Some u"
    using that a(1) a(3) [of EventUsage] n by (simp add: resume_Usage_def en(1) resume_usage_def Let_def advanced_def)
  show "resume_Report V tr s = (None, advanced (resume_tick s))"
    if "ev_kind e = EventToolResult" "ev_result e = Some tr" "approvalReportError tr = None"
  proof -
    have "\<not> receipt_at (rv_stream V) (rs_i (resume_tick s))" using a(2) that by (simp add: receipt_at_def)
    with that a(1) a(3) [of EventToolResult] ng show ?thesis
      by (simp add: resume_Report_def en(1) resume_report_def advanced_def)
  qed
  show "resuming cn V (advanced (resume_tick s)) es" by (rule a(4))
qed

lemma resume_report_rejects:
  assumes r: "reliable cn (le_c (rv_live V))" and s: "resuming cn V s es" and e: "approvalReportError tr = Some err"
  shows "resume_Report V tr s = (Some err, resume_tick s)"
proof -
  have "\<not> call_gated (lv_calls (rs_live s)) (tr_id tr)" using s by (simp add: resuming_def ready_def)
  with e show ?thesis by (simp add: resume_Report_def resuming_enter(1) [OF r s] resume_report_def)
qed

lemma usage_step:
  assumes "usage_tame (\<lambda>u. f (Inr \<lparr>mresp_message = msg, mresp_usage = u\<rparr>))"
    and "recorded hash k (f (Inr \<lparr>mresp_message = msg, mresp_usage = u\<rparr>)) es (Return err)"
    and "ev_kind mc = EventModelCall" "ev_modelCall mc = Some m" "mc_inputHash m = hash req"
    and "ev_kind out = EventOutput" "ev_message out = Some msg"
  shows "recorded hash k (CallModel req f) (mc # out # es) (Return err)"
  by (rule rec_model [where hash = hash, OF assms(3-7)]) (rule usage_tame_recorded [OF assms(1,2)])

lemma resume_interrupted:
  assumes r: "reliable cn (le_c (rv_live V))" and x: "le_executionID (rv_live V) \<noteq> []" "\<not> le_legacyRecovery (rv_live V)"
    and "interrupted (c_hashModelInput (le_c (rv_live V))) (cn_codec (c_canon (le_c (rv_live V)))) p es"
    and "tame (cn_codec (c_canon (le_c (rv_live V)))) p" and "resuming cn V s es"
  shows "completes cn V p es s"
  using assms(4-6)
proof (induction arbitrary: s rule: interrupted.induct)
  case (cut_clean p)
  then show ?case by (rule completes_clean [OF r x])
next
  case (cut_model mc m req f)
  from resume_model_redrives [OF r x cut_model.prems(2) cut_model.hyps] obtain resp s1 where
    m: "resume_Model V req s = (Inr resp, s1)" "resuming cn V s1 []"
    "live_grows cn (le_c (rv_live V)) (rs_live s) (rs_live s1) [own (rv_live V) (output_event (mresp_message resp))]" by blast
  have "completes cn V (f (Inr resp)) [] s1"
    using cut_model.prems(1) m(2) by (intro completes_clean [OF r x]) auto
  then show ?case
  proof (rule completes_step [OF _ _ _ m(3)])
    show "drive (resumeSink V) (CallModel req f) s = drive (resumeSink V) (f (Inr resp)) s1"
      using m(1) by (simp add: resumeSink_def)
    show "c_ops (le_c (rv_live V)) = AsStore cn" using r by (simp add: reliable_def)
    show "list_all (of_execution (live_id (rv_live V))) [own (rv_live V) (output_event (mresp_message resp))]" by simp
    fix es2 err
    assume "recorded (c_hashModelInput (le_c (rv_live V))) (cn_codec (c_canon (le_c (rv_live V)))) (f (Inr resp)) ([] @ es2) (Return err)"
    then have "recorded (c_hashModelInput (le_c (rv_live V))) (cn_codec (c_canon (le_c (rv_live V))))
        (f (Inr \<lparr>mresp_message = mresp_message resp, mresp_usage = mresp_usage resp\<rparr>)) es2 (Return err)" by (cases resp) simp
    with cut_model.prems(1) cut_model.hyps show "recorded (c_hashModelInput (le_c (rv_live V))) (cn_codec (c_canon (le_c (rv_live V))))
        (CallModel req f) ([mc] @ [own (rv_live V) (output_event (mresp_message resp))] @ es2) (Return err)"
      by (simp add: usage_step output_event_def)
  qed
next
  case (cut_tool tc call' call f)
  note kn = resume_tool_known [OF r cut_tool.prems(2) cut_tool.hyps]
  from resume_tool_redrives [OF r x kn(2), of call'] obtain res s1 where
    m: "resume_ordinary V call' (noted call' (advanced (resume_tick s))) = (Inr res, s1)" "resuming cn V s1 []"
    "tr_id res = tc_id call'" "approvalReportError res = None"
    "live_grows cn (le_c (rv_live V)) (rs_live (noted call' (advanced (resume_tick s)))) (rs_live s1) [own (rv_live V) (tool_result_event res)]"
    by blast
  have c: "c_ops (le_c (rv_live V)) = AsStore cn" using r by (simp add: reliable_def)
  have g: "live_grows cn (le_c (rv_live V)) (rs_live s) (rs_live s1) [own (rv_live V) (tool_result_event res)]"
    using controller_store.grows_trans [OF mem_store [OF c] kn(3) m(5)] by simp
  have "completes cn V (f (Inr res)) [] s1"
    using cut_tool.prems(1) m(2) by (intro completes_clean [OF r x]) auto
  then show ?case
  proof (rule completes_step [OF _ _ c g])
    show "drive (resumeSink V) (CallToolCall call f) s = drive (resumeSink V) (f (Inr res)) s1"
      using m(1) kn(1) by (simp add: resumeSink_def)
    show "list_all (of_execution (live_id (rv_live V))) [own (rv_live V) (tool_result_event res)]" by simp
    show "recorded (c_hashModelInput (le_c (rv_live V))) (cn_codec (c_canon (le_c (rv_live V))))
        (CallToolCall call f) ([tc] @ [own (rv_live V) (tool_result_event res)] @ es2) (Return err)"
      if "recorded (c_hashModelInput (le_c (rv_live V))) (cn_codec (c_canon (le_c (rv_live V)))) (f (Inr res)) ([] @ es2) (Return err)"
      for es2 err
      using that rec_tool [where f = f, OF cut_tool.hyps _ _ m(3,4), of "own (rv_live V) (tool_result_event res)" _ es2]
      by (simp add: tool_result_event_def)
  qed
next
  case (past_model mc m req out msg f es)
  note sv = resume_model_serves [OF r x(2) past_model.prems(2) past_model.hyps(1-5)]
  have c: "c_ops (le_c (rv_live V)) = AsStore cn" using r by (simp add: reliable_def)
  have g: "live_grows cn (le_c (rv_live V)) (rs_live s) (rs_live (advanced (advanced (resume_tick s)))) []"
    using resuming_enter(3) [OF r past_model.prems(2)] by simp
  show ?case
  proof (rule completes_step [OF past_model.IH [OF _ sv(2)] _ c g])
    show "tame (cn_codec (c_canon (le_c (rv_live V)))) (f (Inr \<lparr>mresp_message = msg, mresp_usage = first_usage es\<rparr>))"
      using past_model.prems(1) by simp
    show "drive (resumeSink V) (CallModel req f) s = drive (resumeSink V) (f (Inr \<lparr>mresp_message = msg, mresp_usage = first_usage es\<rparr>))
        (advanced (advanced (resume_tick s)))" using sv(1) by (simp add: resumeSink_def)
    show "recorded (c_hashModelInput (le_c (rv_live V))) (cn_codec (c_canon (le_c (rv_live V)))) (CallModel req f) ((mc # out # es) @ [] @ es2) (Return err)"
      if "recorded (c_hashModelInput (le_c (rv_live V))) (cn_codec (c_canon (le_c (rv_live V))))
        (f (Inr \<lparr>mresp_message = msg, mresp_usage = first_usage es\<rparr>)) (es @ es2) (Return err)" for es2 err
      using that past_model.prems(1) past_model.hyps by (simp add: usage_step)
  qed simp
next
  case (past_output out msg d f es)
  note sv = resume_quiet_serves [OF r x(2) past_output.prems(2)]
  have c: "c_ops (le_c (rv_live V)) = AsStore cn" using r by (simp add: reliable_def)
  have g: "live_grows cn (le_c (rv_live V)) (rs_live s) (rs_live (advanced (resume_tick s))) []"
    using resuming_enter(3) [OF r past_output.prems(2)] by simp
  show ?case
    by (rule completes_step [OF past_output.IH [OF _ sv(4)] _ c g])
       (use past_output sv(1) in \<open>auto simp: resumeSink_def intro: rec_output\<close>)
next
  case (past_tool tc call' call tr res f es)
  note kn = resume_tool_known [OF r past_tool.prems(2) past_tool.hyps(1-4)]
  note sv = resume_tool_serves [OF kn(2) past_tool.hyps(5-7)]
  have c: "c_ops (le_c (rv_live V)) = AsStore cn" using r by (simp add: reliable_def)
  show ?case
  proof (rule completes_step [OF past_tool.IH [OF _ resuming_here(4) [OF kn(2)]] _ c])
    show "tame (cn_codec (c_canon (le_c (rv_live V)))) (f (Inr res))" using past_tool.prems(1) by simp
    show "drive (resumeSink V) (CallToolCall call f) s = drive (resumeSink V) (f (Inr res)) (advanced (noted call' (advanced (resume_tick s))))"
      using kn(1) sv by (simp add: resumeSink_def)
    show "live_grows cn (le_c (rv_live V)) (rs_live s) (rs_live (advanced (noted call' (advanced (resume_tick s))))) []"
      using kn(3) by simp
    show "recorded (c_hashModelInput (le_c (rv_live V))) (cn_codec (c_canon (le_c (rv_live V)))) (CallToolCall call f) ((tc # tr # es) @ [] @ es2) (Return err)"
      if "recorded (c_hashModelInput (le_c (rv_live V))) (cn_codec (c_canon (le_c (rv_live V)))) (f (Inr res)) (es @ es2) (Return err)" for es2 err
      using rec_tool [where f = f, OF past_tool.hyps(1-8) that] by simp
  qed simp
next
  case (past_report tr e f es)
  note sv = resume_quiet_serves [OF r x(2) past_report.prems(2)]
  have c: "c_ops (le_c (rv_live V)) = AsStore cn" using r by (simp add: reliable_def)
  have g: "live_grows cn (le_c (rv_live V)) (rs_live s) (rs_live (advanced (resume_tick s))) []"
    using resuming_enter(3) [OF r past_report.prems(2)] by simp
  show ?case
    by (rule completes_step [OF past_report.IH [OF _ sv(4)] _ c g])
       (use past_report sv(3) in \<open>auto simp: resumeSink_def intro: rec_report\<close>)
next
  case (past_report_rejected tr err f es)
  have c: "c_ops (le_c (rv_live V)) = AsStore cn" using r by (simp add: reliable_def)
  note en = resuming_enter [OF r past_report_rejected.prems(2)]
  have "err = ErrApprovalReceiptReport" using past_report_rejected.hyps(1) approvalReportError_cases [of tr] by auto
  then show ?case
    by (intro completes_step [OF past_report_rejected.IH [OF _ en(2)] _ c en(3)])
       (use past_report_rejected resume_report_rejects [OF r past_report_rejected.prems(2)] in
         \<open>auto simp: resumeSink_def intro: rec_report_rejected\<close>)
next
  case (past_usage e u f es)
  note sv = resume_quiet_serves [OF r x(2) past_usage.prems(2)]
  have c: "c_ops (le_c (rv_live V)) = AsStore cn" using r by (simp add: reliable_def)
  have g: "live_grows cn (le_c (rv_live V)) (rs_live s) (rs_live (advanced (resume_tick s))) []"
    using resuming_enter(3) [OF r past_usage.prems(2)] by simp
  show ?case
    by (rule completes_step [OF past_usage.IH [OF _ sv(4)] _ c g])
       (use past_usage sv(2) in \<open>auto simp: resumeSink_def intro: rec_usage\<close>)
qed

section \<open>Resuming an interrupted turn\<close>

lemma inheritedTools_unforked: "\<forall>e \<in> set es. \<not> fork_event e \<Longrightarrow> inheritedTools x es = 0"
proof -
  assume nf: "\<forall>e \<in> set es. \<not> fork_event e"
  have "ih_inherited (fold (inherited_step x) es s) = 0 \<and> \<not> ih_precedingInherited (fold (inherited_step x) es s)"
    if "ih_inherited s = 0" "\<not> ih_precedingInherited s" for s
    using nf that
  proof (induction es arbitrary: s)
    case (Cons e es)
    have "ih_inherited (inherited_step x e s) = 0 \<and> \<not> ih_precedingInherited (inherited_step x e s)"
      using Cons.prems by (simp add: inherited_step_def Let_def)
    with Cons.IH Cons.prems(1) show ?case by simp
  qed simp
  then show ?thesis by (simp add: inheritedTools_def)
qed

lemma scan_plain_turn:
  assumes sc: "scanApprovalRecords rs 0 = Inr scan" and x: "fresh_id x (map r_event rs)" and st: "marks_start x n st"
    and new: "map r_event new = st # map (input_event x) ins @ es" and p: "list_all (plain_effect x) es"
  shows "\<exists>scan'. scanApprovalRecords (rs @ new) 0 = Inr scan' \<and> sc_selected scan' = None"
proof -
  have evs: "e \<in> r_event ` set new \<longleftrightarrow> e = st \<or> e \<in> input_event x ` set ins \<or> e \<in> set es" for e
    using arg_cong [OF new, of set] by auto
  have plain: "\<forall>e \<in> set es. plain_effect x e" using p by (simp add: list_all_iff)
  have own: "\<forall>r \<in> set new. ev_executionID (r_event r) = x \<and> ev_kind (r_event r) \<noteq> EventLifecycle"
  proof
    fix r assume "r \<in> set new"
    with evs [of "r_event r"] plain st show "ev_executionID (r_event r) = x \<and> ev_kind (r_event r) \<noteq> EventLifecycle"
      by (auto simp: marks_start_def input_event_def plain_effect_def)
  qed
  have none: "\<not> (\<exists>r \<in> set new. approval_evidence_event (r_event r))"
  proof
    assume "\<exists>r \<in> set new. approval_evidence_event (r_event r)"
    then obtain r where "r \<in> set new" "approval_evidence_event (r_event r)" by blast
    with evs [of "r_event r"] plain plain_not_evidence st show False
      by (auto simp: marks_start_def input_event_def approval_evidence_event_def gated_call_def)
  qed
  have "new \<noteq> []" using new by auto
  then show ?thesis by (rule scan_turn_records [OF sc x _ own]) (use none in \<open>simp add: Let_def\<close>)
qed

lemma Resume_interrupted_turn:
  assumes r: "reliable cn c2" and ss: "same_session c c2" and f2: "log_fence (w_log w1) \<le> c_fence c2"
    and ok1: "log_ok cn (w_log w1)" and recs: "log_records (w_log w1) = rs @ T"
    and T: "map r_event T = start_event c x (length inputs) desc # map (input_event x) inputs @ es0"
    and p: "list_all (plain_effect x) es0"
    and xs: "recordedExecutions (map r_event rs) = Inr xs" and sc: "scanApprovalRecords rs 0 = Inr scan"
    and lp: "legacyPrefix (map r_event rs) = Inr n" "n = 0 \<or> n < length rs"
    and x: "x \<noteq> []" "fresh_id x (map r_event rs)" and d: "\<And>t. har_describe har t = Inr desc"
    and tm: "tame (cn_codec (c_canon c2)) (har_run har (exec_start c x (map r_event rs) inputs))"
    and cut: "interrupted (c_hashModelInput c2) (cn_codec (c_canon c2)) (har_run har (exec_start c x (map r_event rs) inputs)) es0"
  shows "\<exists>err w2 es2 new. Resume c2 har w1 = ((True, err), w2) \<and> log_ok cn (w_log w2) \<and>
     log_records (w_log w2) = log_records (w_log w1) @ new \<and>
     map r_event new = es2 @ [(case err of None \<Rightarrow> end_event | Some e \<Rightarrow> error_event e)\<lparr>ev_executionID := x\<rparr>] \<and>
     list_all (of_execution x) es2 \<and>
     recorded (c_hashModelInput c2) (cn_codec (c_canon c2)) (har_run har (exec_start c x (map r_event rs) inputs)) (es0 @ es2) (Return err)"
proof -
  let ?p = "har_run har (exec_start c x (map r_event rs) inputs)"
  let ?s = "the (ev_executionStart (start_event c x (length inputs) desc))"
  let ?T = "turn_execution x (length rs) ?s inputs es0 False"
  have c: "c_ops c2 = AsStore cn" using r by (simp add: reliable_def)
  note st = mem_store [OF c]
  have sk: "\<forall>e \<in> set es0. stream_kind (ev_kind e) \<and> ev_executionID e = x"
    using turn_effects_stream_kind [of x False es0] p by (auto simp: turn_effects_def)
  have xs': "recordedExecutions (map r_event (rs @ T)) = Inr (xs @ [?T])"
    using recordedExecutions_turn [OF xs lp(1) _ x, of "start_event c x (length inputs) desc" _ inputs es0 "[]"] lp(2) T sk
    by (simp add: start_event_def terminal_def)
  have "marks_start x (length inputs) (start_event c x (length inputs) desc)" by (simp add: marks_start_def start_event_def)
  from scan_plain_turn [OF sc x(2) this T p] obtain scan' where
    sc': "scanApprovalRecords (rs @ T) 0 = Inr scan'" "sc_selected scan' = None" by blast
  have T1: "rx_id ?T = x" "rx_start ?T = int (length rs)" "rx_legacyEnd ?T = 0" "rx_stream ?T = es0" "rx_inputs ?T = inputs"
    "rx_config ?T = c_startConfig c" "rx_resumeFromSeq ?T = c_startResumeFromSeq c" "\<not> rx_completed ?T"
    by (simp_all add: turn_execution_def started_def empty_execution_def start_event_def)
  have pend: "pendingResumeExecution (map r_event (rs @ T)) (xs @ [?T]) = Inr (Some ?T)"
    by (simp add: pendingResumeExecution_def pendingExecution_def T1(3,8))
       (simp add: turn_execution_def started_def empty_execution_def start_event_def validateInputs_def)
  have park: "pendingApproval c2 scan' x w1 = ((False, None), scan', w1)"
    by (simp add: pendingApproval_def selected_state_def sc'(2))
  have nf: "\<not> inheritedTools x (map r_event T) > 0"
  proof -
    have "\<forall>e \<in> set (map r_event T). \<not> fork_event e"
      using p by (auto simp: T start_event_def input_event_def fork_event_def plain_effect_def list_all_iff)
    from inheritedTools_unforked [OF this] show ?thesis by simp
  qed
  have "resolvedHarnessName c2 desc = resolvedHarnessName c desc"
    using ss by (simp add: same_session_def resolvedHarnessName_def)
  then have "check_executions (resolvedHarnessName c2 desc) desc [?T] = None"
    using plain_no_approval [OF p] by simp (simp add: turn_execution_def started_def start_event_def)
  with checkHarness_ok [of har desc c2 "[?T]" w1, OF d] obtain dd w1' where
    ch: "checkHarness c2 har [?T] w1 = (Inr dd, w1')" by blast
  have w1': "w_log w1' = w_log w1" by (subst checkHarness_world [OF ch]) simp
  let ?V = "resume_env_of c2 har scan' ?T"
  let ?s0 = "\<lparr>rs_live = live_init dd w1', rs_i = 0, rs_failure = None\<rparr>"
  have V: "rv_stream ?V = es0" "le_c (rv_live ?V) = c2" "le_executionID (rv_live ?V) = x" "\<not> le_legacyRecovery (rv_live ?V)"
    "live_id (rv_live ?V) = x" by (simp_all add: resume_env_of_def T1 live_id_def)
  have rs0: "resuming cn ?V ?s0 es0"
    using ok1 f2 w1' V(1,2) by (simp add: resuming_def ready_def live_init_def call_gated_def)
  have "completes cn ?V ?p es0 ?s0" using r x(1) V cut tm by (intro resume_interrupted [OF _ _ _ _ _ rs0]) simp_all
  then obtain err s' es2 where
    dr: "drive (resumeSink ?V) ?p ?s0 = (err, s')" "resuming cn ?V s' []" "live_grows cn c2 (live_init dd w1') (rs_live s') es2"
      "list_all (of_execution x) es2" "recorded (c_hashModelInput c2) (cn_codec (c_canon c2)) ?p (es0 @ es2) (Return err)"
    by (auto simp: completes_def Let_def V)
  have rl: "ready cn (rv_live ?V) (rs_live s')" and fl: "rs_failure s' = None" and i: "rs_i s' = length es0"
    using dr(2) V(1) by (simp_all add: resuming_def)
  let ?ev = "case err of None \<Rightarrow> end_event | Some e \<Rightarrow> error_event e"
  have r': "reliable cn (le_c (rv_live ?V))" "le_executionID (rv_live ?V) \<noteq> []" using r V(2,3) x(1) by simp_all
  from live_append_ok [OF r'(1) rl r'(2) V(4), of ?ev] obtain rr l where la: "live_append (rv_live ?V) ?ev (rs_live s') = (Inr rr, l)" by blast
  from controller_store.live_append_grows [OF st _ V(2) la] rl have
    g: "live_grows cn c2 (rs_live s') l [?ev\<lparr>ev_executionID := x\<rparr>]" by (auto simp: ready_def own_def V(5))
  from controller_store.grows_trans [OF st dr(3) g] obtain new where
    j: "controller_store.journaled c2 log_records log_fence (log_ok cn) (\<lambda>e. e) w1' (lv_w l) new"
      "map r_event new = es2 @ [?ev\<lparr>ev_executionID := x\<rparr>]"
    by (auto simp: controller_store.grows_def [OF st] live_init_def)
  have fin: "finish_resume ?V err s' = ((True, err), lv_w l)"
    using rl fl i V(1) la by (cases err) (simp_all add: finish_resume_def ready_def)
  have "c_sessionUID c2 = c_sessionUID c" using ss by (simp add: same_session_def)
  then have start: "\<lparr>st_executionID = x, st_sessionUID = c_sessionUID c2, st_config = rx_config ?T,
      st_history = take (nat (rx_start ?T)) (map r_event (rs @ T)), st_inputs = rx_inputs ?T,
      st_resumeFromSeq = rx_resumeFromSeq ?T\<rparr> = exec_start c x (map r_event rs) inputs"
    by (simp add: T1 exec_start_def)
  have re: "resume_execution c2 har (rs @ T) scan' ?T w1 = ((True, err), lv_w l)"
    using ch dr(1) fin start by (simp add: resume_execution_def T1(1,3) Let_def)
  have "CheckWritable (c_ops c2) (w_log w1) = None" by (simp add: c CheckWritable_def AsStore_def)
  moreover have "rs @ T \<noteq> []" using T by auto
  moreover have "drop (nat (rx_start ?T)) (map r_event (rs @ T)) = map r_event T" by (simp add: T1(2))
  ultimately have "Resume c2 har w1 = ((True, err), lv_w l)"
    using mem_read [OF ok1] recs xs' sc'(1) pend park nf re c by (simp add: Resume_def Let_def T1(1))
  moreover have "log_ok cn (w_log (lv_w l))" "log_records (w_log (lv_w l)) = log_records (w_log w1) @ new"
    using j(1) w1' by (simp_all add: controller_store.journaled_def [OF st] controller_store.stored_def [OF st])
  ultimately show ?thesis using j(2) dr(4,5) by blast
qed

lemma log_ok_take:
  assumes "log_ok cn l" and "log_records l' = take m (log_records l)"
  shows "log_ok cn l'"
  using assms seqs_ok_prefix [of "take m (log_records l)" "drop m (log_records l)"]
    chain_from_append [of cn "[]" "take m (log_records l)" "drop m (log_records l)"]
  by (simp add: log_ok_def)

section \<open>Crash and recovery\<close>


text \<open>A second incarnation, with its own fence and other answers, after a crash between MODEL\_CALL and OUTPUT.\<close>

definition second_controller :: "log controller" where
  "second_controller = sample_controller\<lparr>c_fence := 2,
     c_model := (\<lambda>t req. Inr \<lparr>mresp_message = TextMessage ''assistant'' ''again'', mresp_usage = empty_usage\<rparr>)\<rparr>"

definition crashed_world :: "log world" where
  "crashed_world = sample_world\<lparr>w_log := \<lparr>log_records = take 3 (log_records forked_parent), log_fence = 2\<rparr>\<rparr>"


end
