(* ===== verification/Sqlitelog.thy ===== *)
theory Sqlitelog
  imports Approval "HOL-Library.List_Lexorder" "HOL-Library.Char_ord" "HOL-Library.Product_Lexorder"
begin

text \<open>
  Package \<^verbatim>\<open>sqlitelog\<close>: the durable store.  The database is a record of its tables; a table that is
  enumerated is a list of rows, one that is only looked up by its primary key a partial function.
  A statement is a function on the tables, with its \<^verbatim>\<open>WHERE\<close>, \<^verbatim>\<open>ON CONFLICT\<close> and \<^verbatim>\<open>CASE\<close> written out.
  Text is compared byte by byte, which is sqlite's default collation.

  A transaction runs on the database it began with and either commits or is rolled back; \<^verbatim>\<open>BEGIN\<close>
  and \<^verbatim>\<open>COMMIT\<close> may fail at any moment.  A statement inside a transaction does not fail, but for the
  primary-key clash that \<^verbatim>\<open>Append\<close> handles.  Time, and when the driver fails, are functions of a
  counter that advances with every question.  \<^verbatim>\<open>proto.Marshal\<close> and \<^verbatim>\<open>proto.Unmarshal\<close> are parameters.
\<close>

section \<open>Tables\<close>

definition row_where :: "('r \<Rightarrow> 'k) \<Rightarrow> 'k \<Rightarrow> 'r list \<Rightarrow> 'r option" where
  "row_where key k rows = find (\<lambda>r. key r = k) rows"

definition update_where :: "('r \<Rightarrow> 'k) \<Rightarrow> 'k \<Rightarrow> ('r \<Rightarrow> 'r) \<Rightarrow> 'r list \<Rightarrow> 'r list" where
  "update_where key k f rows = map (\<lambda>r. if key r = k then f r else r) rows"

text \<open>
  \<^verbatim>\<open>INSERT ... ON CONFLICT(key) DO UPDATE SET upd WHERE guard\<close>; the flag says whether a row changed.
\<close>

definition upsert ::
  "('r \<Rightarrow> 'k) \<Rightarrow> 'r \<Rightarrow> ('r \<Rightarrow> bool) \<Rightarrow> ('r \<Rightarrow> 'r) \<Rightarrow> 'r list \<Rightarrow> bool \<times> 'r list" where
  "upsert key new guard upd rows =
     (case row_where key (key new) rows of
        None \<Rightarrow> (True, rows @ [new])
      | Some r \<Rightarrow> if guard r then (True, update_where key (key new) upd rows) else (False, rows))"

text \<open>\<^verbatim>\<open>COALESCE(MAX(seq), 0)\<close>.\<close>

definition max_seq :: "int64 list \<Rightarrow> int64" where
  "max_seq xs = (case xs of [] \<Rightarrow> 0 | y # ys \<Rightarrow> fold max ys y)"

section \<open>The database\<close>

record session_row =
  sn_session :: string
  sn_fence :: int64
  sn_project :: string
  sn_name :: string
  sn_harness :: string
  sn_model :: string
  sn_parentUID :: string
  sn_forkSeq :: int64
  sn_computeState :: compute_state
  sn_createdAt :: int64
  sn_updatedAt :: int64
  sn_labels :: string
  sn_annotations :: string
  sn_origin :: string
  sn_identity :: string
  sn_lastSeq :: int64
  sn_latestExecution :: string
  sn_reportingForkSeq :: int64
  sn_approvalCorrupt :: bool
  sn_invalidApprovals :: int64
  sn_deletionState :: deletion_state
  sn_deletionRequestedAt :: int64
  sn_deletionCompletedAt :: int64
  sn_deletionSeq :: int64

text \<open>A row with the column defaults of the schema; the empty \<^verbatim>\<open>compute_state\<close> is no declared state.\<close>

definition default_row :: "string \<Rightarrow> session_row" where
  "default_row uid = \<lparr>sn_session = uid, sn_fence = 0, sn_project = [], sn_name = [], sn_harness = [],
     sn_model = [], sn_parentUID = [], sn_forkSeq = 0, sn_computeState = ComputeStateOther [],
     sn_createdAt = 0, sn_updatedAt = 0, sn_labels = [], sn_annotations = [], sn_origin = [],
     sn_identity = [], sn_lastSeq = 0, sn_latestExecution = [], sn_reportingForkSeq = 0,
     sn_approvalCorrupt = False, sn_invalidApprovals = 0, sn_deletionState = DeletionActive,
     sn_deletionRequestedAt = 0, sn_deletionCompletedAt = 0, sn_deletionSeq = 0\<rparr>"

record event_row =
  er_session :: string
  er_seq :: int64
  er_prevHash :: string
  er_hash :: string
  er_fence :: int64
  er_event :: bytes

record approvalExecution =
  pa_firstSeq :: int64
  pa_gated :: bool
  pa_invalid :: bool
  pa_hasStart :: bool
  pa_expectedInputs :: "int64 option"
  pa_inputs :: int64
  pa_messages :: int64
  pa_completed :: bool
  pa_callID :: string
  pa_callSeq :: int64
  pa_requestSeq :: int64
  pa_decisionSeq :: int64
  pa_approved :: bool
  pa_receipt :: bool

definition empty_approvalExecution :: approvalExecution where
  "empty_approvalExecution = \<lparr>pa_firstSeq = 0, pa_gated = False, pa_invalid = False, pa_hasStart = False,
     pa_expectedInputs = None, pa_inputs = 0, pa_messages = 0, pa_completed = False, pa_callID = [],
     pa_callSeq = 0, pa_requestSeq = 0, pa_decisionSeq = 0, pa_approved = False, pa_receipt = False\<rparr>"

datatype HarnessState = HarnessActive | HarnessRetired | HarnessStateOther string

record harness_row =
  hr_name :: string
  hr_uid :: string
  hr_spec :: string
  hr_specDigest :: string
  hr_state :: HarnessState
  hr_retireReason :: string
  hr_retiredAt :: int64
  hr_createdAt :: int64
  hr_updatedAt :: int64

record sqlite_db =
  db_sessions :: "session_row list"
  db_events :: "event_row list"
  db_executions :: "string \<times> string \<rightharpoonup> approvalExecution"
  db_calls :: "string \<times> string \<times> string \<rightharpoonup> bool"
  db_harnesses :: "harness_row list"
  db_reserved :: "string \<rightharpoonup> int64"
  db_userVersion :: int
  db_clock :: nat

record sql_env =
  sq_canon :: canon_env
  sq_marshal :: "pb_event \<Rightarrow> goerr + bytes"
  sq_unmarshal :: "bytes \<Rightarrow> goerr + pb_event"
  sq_now :: "nat \<Rightarrow> int64"
  sq_fault :: "nat \<Rightarrow> goerr option"
  sq_constraint :: goerr
  sq_defaultProject :: string

definition sql_now :: "sql_env \<Rightarrow> sqlite_db \<Rightarrow> int64 \<times> sqlite_db" where
  "sql_now env db = (sq_now env (db_clock db), db\<lparr>db_clock := Suc (db_clock db)\<rparr>)"

definition sql_attempt :: "sql_env \<Rightarrow> sqlite_db \<Rightarrow> goerr option \<times> sqlite_db" where
  "sql_attempt env db = (sq_fault env (db_clock db), db\<lparr>db_clock := Suc (db_clock db)\<rparr>)"

definition rollback_to :: "sqlite_db \<Rightarrow> sqlite_db \<Rightarrow> sqlite_db" where
  "rollback_to db0 db = db0\<lparr>db_clock := db_clock db\<rparr>"

text \<open>
  \<^verbatim>\<open>Begin\<close>, a deferred \<^verbatim>\<open>Rollback\<close>, and \<^verbatim>\<open>Commit\<close> when the body succeeds.  \<open>wrapB\<close> and \<open>wrapC\<close> are what
  the caller makes of an error of \<^verbatim>\<open>Begin\<close> and of \<^verbatim>\<open>Commit\<close>.
\<close>

definition with_tx ::
  "sql_env \<Rightarrow> (goerr \<Rightarrow> goerr) \<Rightarrow> (goerr \<Rightarrow> goerr) \<Rightarrow> (sqlite_db \<Rightarrow> (goerr + 'a) \<times> sqlite_db) \<Rightarrow>
     sqlite_db \<Rightarrow> (goerr + 'a) \<times> sqlite_db" where
  "with_tx env wrapB wrapC body db =
     (case sql_attempt env db of
        (Some e, db1) \<Rightarrow> (Inl (wrapB e), db1)
      | (None, db1) \<Rightarrow>
          (case body db1 of
             (Inl e, db2) \<Rightarrow> (Inl e, rollback_to db1 db2)
           | (Inr x, db2) \<Rightarrow>
               (case sql_attempt env db2 of
                  (Some e, db3) \<Rightarrow> (Inl (wrapC e), rollback_to db1 db3)
                | (None, db3) \<Rightarrow> (Inr x, db3))))"

section \<open>Errors\<close>

definition ErrNoRows :: goerr where
  "ErrNoRows = ErrNew ''sql: no rows in result set''"

definition ErrTampered :: goerr where
  "ErrTampered = ErrNew ''sqlitelog: hash-chain verification failed (tamper-evident)''"

definition errReservedDelete :: goerr where
  "errReservedDelete = ErrNew ''sqlitelog: DELETE is reserved for atomic DeleteSession''"

definition ErrUnsupportedSchema :: goerr where
  "ErrUnsupportedSchema = ErrNew ''sqlitelog: unsupported database schema''"

definition ErrSessionNotFound :: goerr where
  "ErrSessionNotFound = ErrNew ''sqlitelog: session not found''"

definition ErrInvalidPageToken :: goerr where
  "ErrInvalidPageToken = ErrNew ''sqlitelog: invalid page token''"

definition ErrHarnessNotFound :: goerr where
  "ErrHarnessNotFound = ErrNew ''sqlitelog: harness not found''"

definition ErrHarnessSpecConflict :: goerr where
  "ErrHarnessSpecConflict = ErrNew ''sqlitelog: harness name holds a different spec''"

definition ErrHarnessRetired :: goerr where
  "ErrHarnessRetired = ErrNew ''sqlitelog: harness is retired''"

definition ErrHarnessNameReserved :: goerr where
  "ErrHarnessNameReserved = ErrNew ''sqlitelog: harness name is reserved for a static harness''"

definition ErrHarnessNameCollision :: goerr where
  "ErrHarnessNameCollision = ErrNew ''sqlitelog: registered harness collides with a static harness name''"

definition isConstraint :: "sql_env \<Rightarrow> goerr \<Rightarrow> bool" where
  "isConstraint env e \<longleftrightarrow> errors_is e (sq_constraint env)"

section \<open>The approval projection\<close>

definition invalidApproval :: "approvalExecution \<Rightarrow> string \<Rightarrow> bool" where
  "invalidApproval s executionID \<longleftrightarrow>
     pa_gated s \<and> (pa_invalid s \<or> executionID = [] \<or> pa_hasStart s \<and>
       (case pa_expectedInputs s of
          None \<Rightarrow> True
        | Some n \<Rightarrow> n < 0 \<or> pa_inputs s \<noteq> pa_messages s \<or> pa_inputs s \<noteq> n))"

definition pa_open :: "approvalExecution \<Rightarrow> bool" where
  "pa_open s \<longleftrightarrow> pa_callID s \<noteq> [] \<and> \<not> pa_receipt s"

definition invalidate :: "approvalExecution \<Rightarrow> approvalExecution" where
  "invalidate s = s\<lparr>pa_invalid := True\<rparr>"

definition reduce_start :: "int64 \<Rightarrow> event \<Rightarrow> approvalExecution \<Rightarrow> approvalExecution" where
  "reduce_start seq ev s =
     (case ev_executionStart ev of
        None \<Rightarrow> invalidate s
      | Some st \<Rightarrow>
          if seq \<noteq> pa_firstSeq s then invalidate s
          else s\<lparr>pa_hasStart := True,
                 pa_expectedInputs := (case es_inputCount st of None \<Rightarrow> pa_expectedInputs s | Some n \<Rightarrow> Some n)\<rparr>)"

definition reduce_input :: "event \<Rightarrow> approvalExecution \<Rightarrow> approvalExecution" where
  "reduce_input ev s =
     (if pa_open s then invalidate s
      else s\<lparr>pa_inputs := pa_inputs s + 1,
             pa_messages := (if ev_message ev \<noteq> None then pa_messages s + 1 else pa_messages s)\<rparr>)"

text \<open>\<open>calls\<close> is the part of \<^verbatim>\<open>approval_calls\<close> with the session and execution of the event.\<close>

definition reduce_call ::
  "int64 \<Rightarrow> event \<Rightarrow> (string \<rightharpoonup> bool) \<Rightarrow> approvalExecution \<Rightarrow> approvalExecution \<times> (string \<rightharpoonup> bool)" where
  "reduce_call seq ev calls s =
     (case ev_toolCall ev of
        None \<Rightarrow> (invalidate s, calls)
      | Some call \<Rightarrow>
          let gated = (tc_mediation call = MediationRequiresApproval) in
          if pa_open s then (invalidate s, calls)
          else if (case calls (tc_id call) of None \<Rightarrow> False | Some priorGated \<Rightarrow> priorGated \<or> gated)
          then (invalidate s, calls)
          else
            let calls = (case calls (tc_id call) of None \<Rightarrow> calls(tc_id call \<mapsto> gated) | Some _ \<Rightarrow> calls) in
            if \<not> gated then (s, calls)
            else if pa_completed s \<or> tc_id call = [] \<or> tc_idempotencyKey call = [] then (invalidate s, calls)
            else (s\<lparr>pa_callID := tc_id call, pa_callSeq := seq, pa_requestSeq := 0, pa_decisionSeq := 0,
                    pa_receipt := False, pa_approved := False\<rparr>, calls))"

definition reduce_request :: "int64 \<Rightarrow> event \<Rightarrow> approvalExecution \<Rightarrow> approvalExecution" where
  "reduce_request seq ev s =
     (case ev_approval ev of
        None \<Rightarrow> invalidate s
      | Some a \<Rightarrow>
          if \<not> pa_open s \<or> pa_requestSeq s \<noteq> 0 \<or> aq_toolCallID a \<noteq> pa_callID s then invalidate s
          else s\<lparr>pa_requestSeq := seq\<rparr>)"

definition reduce_decision :: "int64 \<Rightarrow> event \<Rightarrow> approvalExecution \<Rightarrow> approvalExecution" where
  "reduce_decision seq ev s =
     (case ev_approvalResult ev of
        None \<Rightarrow> invalidate s
      | Some d \<Rightarrow>
          if \<not> pa_open s \<or> pa_requestSeq s = 0 \<or> pa_decisionSeq s \<noteq> 0 then invalidate s
          else if ar_toolCallID d \<noteq> pa_callID s \<or> ar_requestSeq d \<noteq> pa_requestSeq s then invalidate s
          else s\<lparr>pa_decisionSeq := seq, pa_approved := ar_approved d\<rparr>)"

definition reduce_result ::
  "event \<Rightarrow> (string \<rightharpoonup> bool) \<Rightarrow> approvalExecution \<Rightarrow> approvalExecution" where
  "reduce_result ev calls s =
     (if pa_open s then
        (case ev_result ev of
           None \<Rightarrow> invalidate s
         | Some result \<Rightarrow>
             if pa_requestSeq s = 0 \<or> pa_decisionSeq s = 0 then invalidate s
             else
               let valid = (if pa_approved s
                     then \<not> tr_isError result \<and> tr_code result = ToolResultCodeUnspecified
                          \<or> tr_isError result \<and> tr_code result = ToolResultCodeExecutorError
                     else tr_isError result \<and> tr_code result = ToolResultCodeApprovalDenied) in
               if tr_id result \<noteq> pa_callID s \<or> tr_approvalRequestSeq result \<noteq> pa_requestSeq s
                  \<or> tr_approvalDecisionSeq result \<noteq> pa_decisionSeq s \<or> \<not> valid
               then invalidate s else s\<lparr>pa_receipt := True\<rparr>)
      else case ev_result ev of
             None \<Rightarrow> s
           | Some result \<Rightarrow>
               if calls (tr_id result) = Some True \<or> tr_approvalRequestSeq result \<noteq> 0
                  \<or> tr_approvalDecisionSeq result \<noteq> 0
               then invalidate s else s)"

definition approval_reduce ::
  "int64 \<Rightarrow> event \<Rightarrow> (string \<rightharpoonup> bool) \<Rightarrow> approvalExecution \<Rightarrow> approvalExecution \<times> (string \<rightharpoonup> bool)" where
  "approval_reduce seq ev calls s =
     (case ev_kind ev of
        EventExecutionStart \<Rightarrow> (reduce_start seq ev s, calls)
      | EventInput \<Rightarrow> (reduce_input ev s, calls)
      | EventToolCall \<Rightarrow> reduce_call seq ev calls s
      | EventApprovalRequest \<Rightarrow> (reduce_request seq ev s, calls)
      | EventApprovalResult \<Rightarrow> (reduce_decision seq ev s, calls)
      | EventToolResult \<Rightarrow> (reduce_result ev calls s, calls)
      | EventEnd \<Rightarrow> ((if pa_open s then invalidate s else s)\<lparr>pa_completed := True\<rparr>, calls)
      | EventError \<Rightarrow> (s, calls)
      | _ \<Rightarrow> (if pa_open s then invalidate s else s, calls))"

definition update_session :: "string \<Rightarrow> (session_row \<Rightarrow> session_row) \<Rightarrow> sqlite_db \<Rightarrow> sqlite_db" where
  "update_session uid f db = db\<lparr>db_sessions := update_where sn_session uid f (db_sessions db)\<rparr>"

text \<open>\<open>session_calls\<close> and \<open>put_calls\<close> restrict \<^verbatim>\<open>approval_calls\<close> to one session and execution and write it back.\<close>

definition session_calls :: "string \<Rightarrow> string \<Rightarrow> sqlite_db \<Rightarrow> string \<rightharpoonup> bool" where
  "session_calls uid exid db = (\<lambda>c. db_calls db (uid, exid, c))"

definition put_calls :: "string \<Rightarrow> string \<Rightarrow> (string \<rightharpoonup> bool) \<Rightarrow> sqlite_db \<Rightarrow> sqlite_db" where
  "put_calls uid exid calls db =
     db\<lparr>db_calls := (\<lambda>(u, x, c). if u = uid \<and> x = exid then calls c else db_calls db (u, x, c))\<rparr>"

text \<open>The part of \<^verbatim>\<open>projectApproval\<close> that concerns the execution of a non-lifecycle event.\<close>

definition project_execution :: "string \<Rightarrow> int64 \<Rightarrow> event \<Rightarrow> sqlite_db \<Rightarrow> sqlite_db" where
  "project_execution uid seq ev db =
     (let exid = ev_executionID ev;
          found = db_executions db (uid, exid);
          state = (case found of Some s \<Rightarrow> s | None \<Rightarrow> empty_approvalExecution\<lparr>pa_firstSeq := seq\<rparr>);
          db = (if found = None then update_session uid (\<lambda>r. r\<lparr>sn_latestExecution := exid\<rparr>) db else db);
          wasInvalid = invalidApproval state exid;
          state = (if approval_evidence_event ev then state\<lparr>pa_gated := True\<rparr> else state);
          (state, calls) =
            (if pa_invalid state then (state, session_calls uid exid db)
             else approval_reduce seq ev (session_calls uid exid db) state);
          db = put_calls uid exid calls db;
          nowInvalid = invalidApproval state exid;
          db = (if wasInvalid \<noteq> nowInvalid
                then update_session uid (\<lambda>r. r\<lparr>sn_invalidApprovals :=
                       sn_invalidApprovals r + (if nowInvalid then 1 else - 1)\<rparr>) db
                else db)
      in db\<lparr>db_executions := (db_executions db)((uid, exid) \<mapsto> state)\<rparr>)"

definition projectApproval :: "string \<Rightarrow> int64 \<Rightarrow> event \<Rightarrow> sqlite_db \<Rightarrow> sqlite_db" where
  "projectApproval uid seq ev db =
     (let db = update_session uid (\<lambda>r. r\<lparr>sn_approvalCorrupt := (if sn_lastSeq r \<noteq> seq - 1 then True
                   else sn_approvalCorrupt r), sn_lastSeq := seq\<rparr>) db
      in if ev_kind ev = EventLifecycle then
           (case ev_lifecycle ev of
              None \<Rightarrow> db
            | Some l \<Rightarrow> if lc_kind l = LifecycleFork
                        then update_session uid (\<lambda>r. r\<lparr>sn_reportingForkSeq := seq\<rparr>) db else db)
         else project_execution uid seq ev db)"

section \<open>The log of one session\<close>

definition session_row_of :: "string \<Rightarrow> sqlite_db \<Rightarrow> session_row option" where
  "session_row_of uid db = row_where sn_session uid (db_sessions db)"

definition events_of :: "string \<Rightarrow> sqlite_db \<Rightarrow> event_row list" where
  "events_of uid db = filter (\<lambda>r. er_session r = uid) (db_events db)"

definition sql_head :: "string \<Rightarrow> sqlite_db \<Rightarrow> int64" where
  "sql_head uid db = max_seq (map er_seq (events_of uid db))"

definition Log_Head :: "string \<Rightarrow> sqlite_db \<Rightarrow> goerr + int64" where
  "Log_Head uid db = Inr (sql_head uid db)"

text \<open>\<^verbatim>\<open>CASE WHEN old = '' THEN new ELSE old END\<close>, and the same for an unset time.\<close>

definition fill :: "string \<Rightarrow> string \<Rightarrow> string" where
  "fill new old = (if old = [] then new else old)"

definition fill_time :: "int64 \<Rightarrow> int64 \<Rightarrow> int64" where
  "fill_time new old = (if old = 0 then new else old)"

definition Log_NewFence :: "sql_env \<Rightarrow> string \<Rightarrow> sqlite_db \<Rightarrow> (goerr + int64) \<times> sqlite_db" where
  "Log_NewFence env uid db =
     (let (now, db) = sql_now env db;
          (changed, rows) = upsert sn_session
            ((default_row uid)\<lparr>sn_fence := 1, sn_project := sq_defaultProject env, sn_createdAt := now,
               sn_updatedAt := now\<rparr>)
            (\<lambda>r. sn_deletionState r = DeletionActive)
            (\<lambda>r. r\<lparr>sn_fence := sn_fence r + 1, sn_project := fill (sq_defaultProject env) (sn_project r),
                    sn_createdAt := fill_time now (sn_createdAt r), sn_updatedAt := now\<rparr>)
            (db_sessions db)
      in if changed
         then (Inr (case row_where sn_session uid rows of None \<Rightarrow> 0 | Some r \<Rightarrow> sn_fence r), db\<lparr>db_sessions := rows\<rparr>)
         else (Inl (errorf (''sqlitelog: new fence session '' @ format_q uid @ '': '') ErrDeleted []), db))"

definition sql_checkWritable :: "string \<Rightarrow> sqlite_db \<Rightarrow> goerr option" where
  "sql_checkWritable uid db =
     (case session_row_of uid db of
        None \<Rightarrow> None
      | Some r \<Rightarrow>
          if sn_deletionState r \<noteq> DeletionActive
          then Some (errorf (''sqlitelog: session '' @ format_q uid @ '': '') ErrDeleted []) else None)"

text \<open>\<^verbatim>\<open>appendRecord\<close> returns the record and the message it stored.\<close>

definition appendRecord ::
  "sql_env \<Rightarrow> string \<Rightarrow> int64 \<Rightarrow> int64 \<Rightarrow> event \<Rightarrow> sqlite_db \<Rightarrow> (goerr + log_record \<times> pb_event) \<times> sqlite_db" where
  "appendRecord env uid head fence ev db =
     (let prev = (if head > 0
            then (case find (\<lambda>r. er_session r = uid \<and> er_seq r = head) (db_events db) of
                    None \<Rightarrow> Inl ErrNoRows | Some r \<Rightarrow> Inr (er_hash r))
            else Inr []);
          seq = head + 1;
          pb = EventToProto (cn_codec (sq_canon env)) ev
      in case prev of Inl e \<Rightarrow> (Inl e, db) | Inr prev \<Rightarrow>
         (case HashRecord (sq_canon env) prev seq ev of
           Inl e \<Rightarrow> (Inl (errorf (''sqlitelog: canonicalize seq '' @ format_int seq @ '': '') e []), db)
         | Inr hash \<Rightarrow>
             (case sq_marshal env pb of
                Inl e \<Rightarrow> (Inl (errorf (''sqlitelog: marshal seq '' @ format_int seq @ '': '') e []), db)
              | Inr blob \<Rightarrow>
                  if \<exists>r \<in> set (db_events db). er_session r = uid \<and> er_seq r = seq
                  then (Inl (sq_constraint env), db)
                  else (Inr (\<lparr>r_seq = seq, r_prevHash = prev, r_hash = hash, r_fence = fence, r_event = ev\<rparr>, pb),
                        db\<lparr>db_events := db_events db @ [\<lparr>er_session = uid, er_seq = seq, er_prevHash = prev,
                             er_hash = hash, er_fence = fence, er_event = blob\<rparr>]\<rparr>))))"

definition eventComputeState :: "event \<Rightarrow> compute_state \<times> bool" where
  "eventComputeState ev =
     (if ev_kind ev = EventApprovalRequest \<or> ev_kind ev = EventApprovalResult then (ComputeNone, False)
      else if ev_kind ev \<noteq> EventLifecycle then (ComputeLive, True)
      else case ev_lifecycle ev of
             None \<Rightarrow> (ComputeNone, False)
           | Some l \<Rightarrow>
               (case lc_kind l of
                  LifecycleSuspend \<Rightarrow> (ComputeCold, True)
                | LifecycleFork \<Rightarrow> (ComputeCold, True)
                | LifecycleResume \<Rightarrow> (ComputeLive, True)
                | _ \<Rightarrow> (ComputeNone, False)))"

definition touchSession :: "sql_env \<Rightarrow> string \<Rightarrow> event \<Rightarrow> sqlite_db \<Rightarrow> sqlite_db" where
  "touchSession env uid ev db =
     (let (state, moves) = eventComputeState ev;
          state = (if \<not> moves then ComputeNone else state);
          (now, db) = sql_now env db;
          (_, rows) = upsert sn_session
            ((default_row uid)\<lparr>sn_project := sq_defaultProject env, sn_computeState := state,
               sn_createdAt := now, sn_updatedAt := now\<rparr>)
            (\<lambda>_. True)
            (\<lambda>r. r\<lparr>sn_computeState := (if moves then state else sn_computeState r),
                    sn_project := fill (sq_defaultProject env) (sn_project r),
                    sn_createdAt := fill_time now (sn_createdAt r), sn_updatedAt := now\<rparr>)
            (db_sessions db)
      in db\<lparr>db_sessions := rows\<rparr>)"

definition is_delete_event :: "event \<Rightarrow> bool" where
  "is_delete_event ev \<longleftrightarrow> ev_kind ev = EventLifecycle \<and>
     (case ev_lifecycle ev of None \<Rightarrow> False | Some l \<Rightarrow> lc_kind l = LifecycleDelete)"

definition sql_fence :: "string \<Rightarrow> sqlite_db \<Rightarrow> int64" where
  "sql_fence uid db = (case session_row_of uid db of None \<Rightarrow> 0 | Some r \<Rightarrow> sn_fence r)"

text \<open>The body of \<^verbatim>\<open>Append\<close>'s transaction.\<close>

definition append_tx ::
  "sql_env \<Rightarrow> string \<Rightarrow> int64 \<Rightarrow> int64 \<Rightarrow> event \<Rightarrow> sqlite_db \<Rightarrow> (goerr + log_record) \<times> sqlite_db" where
  "append_tx env uid expectedLastSeq fence ev db =
     (case sql_checkWritable uid db of
        Some e \<Rightarrow> (Inl e, db)
      | None \<Rightarrow>
     if is_delete_event ev then (Inl errReservedDelete, db)
     else if expectedLastSeq \<noteq> sql_head uid db then (Inl ErrConflict, db)
     else if fence < sql_fence uid db then (Inl ErrFenced, db)
     else case appendRecord env uid (sql_head uid db) fence ev db of
            (Inl e, db') \<Rightarrow> (Inl (if isConstraint env e then ErrConflict else e), db')
          | (Inr (record, pb), db') \<Rightarrow>
              (Inr record, projectApproval uid (r_seq record)
                 (EventFromProto (cn_codec (sq_canon env)) pb) (touchSession env uid ev db')))"

definition Log_Append ::
  "sql_env \<Rightarrow> string \<Rightarrow> int64 \<Rightarrow> int64 \<Rightarrow> event \<Rightarrow> sqlite_db \<Rightarrow> (goerr + log_record) \<times> sqlite_db" where
  "Log_Append env uid expectedLastSeq fence ev db =
     (if ev_kind ev = EventParked then (Inl (ErrNew ''sqlitelog: PARKED is transport-only''), db)
      else with_tx env id id (append_tx env uid expectedLastSeq fence ev) db)"

definition sql_decode :: "sql_env \<Rightarrow> bytes \<Rightarrow> goerr + event" where
  "sql_decode env blob =
     (case sq_unmarshal env blob of
        Inl e \<Rightarrow> Inl e
      | Inr pb \<Rightarrow> Inr (EventFromProto (cn_codec (sq_canon env)) pb))"

fun read_rows :: "sql_env \<Rightarrow> event_row list \<Rightarrow> goerr + log_record list" where
  "read_rows env [] = Inr []"
| "read_rows env (r # rs) =
     (case sql_decode env (er_event r) of
        Inl e \<Rightarrow> Inl (errorf (''sqlitelog: decode seq '' @ format_int (er_seq r) @ '': '') e [])
      | Inr ev \<Rightarrow>
          (case read_rows env rs of
             Inl e \<Rightarrow> Inl e
           | Inr out \<Rightarrow> Inr (\<lparr>r_seq = er_seq r, r_prevHash = er_prevHash r, r_hash = er_hash r,
                              r_fence = er_fence r, r_event = ev\<rparr> # out)))"

definition Log_Read :: "sql_env \<Rightarrow> string \<Rightarrow> int64 \<Rightarrow> sqlite_db \<Rightarrow> goerr + log_record list" where
  "Log_Read env uid fromSeq db =
     read_rows env (sort_key er_seq (filter (\<lambda>r. fromSeq \<le> er_seq r) (events_of uid db)))"

definition Log_Snapshot :: "sql_env \<Rightarrow> string \<Rightarrow> sqlite_db \<Rightarrow> goerr + log_record list" where
  "Log_Snapshot env uid db = Log_Read env uid 1 db"

fun sql_verify_from :: "canon_env \<Rightarrow> string \<Rightarrow> log_record list \<Rightarrow> goerr option" where
  "sql_verify_from cn prev [] = None"
| "sql_verify_from cn prev (r # rs) =
     (if r_prevHash r \<noteq> prev
      then Some (errorf [] ErrTampered ('': prev_hash mismatch at seq '' @ format_int (r_seq r)))
      else case HashRecord cn prev (r_seq r) (r_event r) of
             Inl e \<Rightarrow> Some (errorf (''sqlitelog: canonicalize seq '' @ format_int (r_seq r) @ '': '') e [])
           | Inr want \<Rightarrow>
               if r_hash r \<noteq> want
               then Some (errorf [] ErrTampered ('': content_hash mismatch at seq '' @ format_int (r_seq r)))
               else sql_verify_from cn (r_hash r) rs)"

definition Log_Verify :: "sql_env \<Rightarrow> string \<Rightarrow> sqlite_db \<Rightarrow> goerr option" where
  "Log_Verify env uid db =
     (case Log_Read env uid 1 db of
        Inl e \<Rightarrow> Some e
      | Inr recs \<Rightarrow> sql_verify_from (sq_canon env) [] recs)"

text \<open>\<^verbatim>\<open>Store.Session(uid)\<close> as the controller sees it: the method table of \<^verbatim>\<open>*Log\<close>.\<close>

definition Store_Session :: "sql_env \<Rightarrow> string \<Rightarrow> sqlite_db store_ops" where
  "Store_Session env uid = \<lparr>
     Store_Append = Log_Append env uid,
     Store_Head = Log_Head uid,
     Store_NewFence = Log_NewFence env uid,
     Store_Read = Log_Read env uid,
     Store_Verify = Log_Verify env uid,
     Store_CheckWritable = Some (sql_checkWritable uid)\<rparr>"

section \<open>Session metadata\<close>

record session_meta =
  sm_uid :: string
  sm_project :: string
  sm_name :: string
  sm_harness :: string
  sm_model :: string
  sm_parentUID :: string
  sm_forkSeq :: int64
  sm_createdAt :: "int64 option"
  sm_updatedAt :: "int64 option"
  sm_labels :: string
  sm_annotations :: string
  sm_origin :: string
  sm_identity :: string

record session_info = session_meta +
  si_lastSeq :: int64
  si_computeState :: compute_state
  si_deletionState :: deletion_state
  si_deletionRequestedAt :: "int64 option"
  si_deletionSeq :: int64
  si_pendingApproval :: approval_ref

definition empty_ref :: approval_ref where
  "empty_ref = \<lparr>ref_executionID = [], ref_toolCallID = [], ref_requestSeq = 0\<rparr>"

definition DefaultProject :: string where
  "DefaultProject = ''default''"

definition project_of :: "sql_env \<Rightarrow> string \<Rightarrow> string" where
  "project_of env p = fill DefaultProject (fill (sq_defaultProject env) p)"

definition meta_row :: "session_meta \<Rightarrow> int64 \<Rightarrow> int64 \<Rightarrow> session_row \<Rightarrow> session_row" where
  "meta_row m created now r = r\<lparr>sn_project := sm_project m, sn_name := sm_name m, sn_harness := sm_harness m,
     sn_model := sm_model m, sn_parentUID := sm_parentUID m, sn_forkSeq := sm_forkSeq m,
     sn_labels := sm_labels m, sn_annotations := sm_annotations m, sn_origin := sm_origin m,
     sn_identity := sm_identity m, sn_createdAt := created, sn_updatedAt := now\<rparr>"

definition putSession :: "sql_env \<Rightarrow> session_meta \<Rightarrow> sqlite_db \<Rightarrow> goerr option \<times> sqlite_db" where
  "putSession env m db =
     (if sm_uid m = [] then (Some (ErrNew ''sqlitelog: session metadata requires a uid''), db)
      else
        let m = m\<lparr>sm_project := project_of env (sm_project m)\<rparr>;
            (now, db) = sql_now env db;
            created = (case sm_createdAt m of None \<Rightarrow> now | Some t \<Rightarrow> t);
            (changed, rows) = upsert sn_session
              (meta_row m created now ((default_row (sm_uid m))\<lparr>sn_computeState := ComputeNone\<rparr>))
              (\<lambda>r. sn_deletionState r = DeletionActive)
              (\<lambda>r. meta_row m (if sm_createdAt m \<noteq> None \<or> sn_createdAt r = 0 then created else sn_createdAt r) now r)
              (db_sessions db)
        in if changed then (None, db\<lparr>db_sessions := rows\<rparr>)
           else (Some (errorf (''sqlitelog: put session '' @ format_q (sm_uid m) @ '': '') ErrDeleted []), db))"

definition PutSession :: "sql_env \<Rightarrow> session_meta \<Rightarrow> sqlite_db \<Rightarrow> goerr option \<times> sqlite_db" where
  "PutSession env m db = putSession env m db"

text \<open>
  The columns \<^verbatim>\<open>sessionSelect\<close> computes: the request sequence of a reportable approval or 0.  The
  joined row is that of the session's latest execution, and a missing one makes every comparison
  with it false.
\<close>

definition reportable :: "session_row \<Rightarrow> int64 \<Rightarrow> string \<Rightarrow> approvalExecution \<Rightarrow> bool" where
  "reportable s head exid a \<longleftrightarrow>
     sn_lastSeq s = head \<and> \<not> sn_approvalCorrupt s \<and> sn_invalidApprovals s = 0 \<and> exid \<noteq> []
     \<and> pa_callSeq a > sn_reportingForkSeq s \<and> \<not> pa_invalid a
     \<and> \<not> pa_completed a \<and> \<not> pa_receipt a \<and> pa_requestSeq a > 0 \<and> pa_decisionSeq a = 0
     \<and> (\<not> pa_hasStart a \<or>
        (case pa_expectedInputs a of None \<Rightarrow> False
         | Some n \<Rightarrow> n \<ge> 0 \<and> pa_inputs a = pa_messages a \<and> pa_inputs a = n))"

definition pending_ref :: "session_row \<Rightarrow> sqlite_db \<Rightarrow> approval_ref" where
  "pending_ref s db =
     (case db_executions db (sn_session s, sn_latestExecution s) of
        None \<Rightarrow> empty_ref
      | Some a \<Rightarrow>
          let requestSeq = (if reportable s (sql_head (sn_session s) db) (sn_latestExecution s) a
                            then pa_requestSeq a else 0)
          in if requestSeq = 0 then empty_ref
             else \<lparr>ref_executionID = sn_latestExecution s, ref_toolCallID = pa_callID a,
                   ref_requestSeq = requestSeq\<rparr>)"

definition scanSession :: "sqlite_db \<Rightarrow> session_row \<Rightarrow> session_info" where
  "scanSession db s = \<lparr>sm_uid = sn_session s, sm_project = sn_project s, sm_name = sn_name s,
     sm_harness = sn_harness s, sm_model = sn_model s, sm_parentUID = sn_parentUID s,
     sm_forkSeq = sn_forkSeq s, sm_createdAt = Some (sn_createdAt s), sm_updatedAt = Some (sn_updatedAt s),
     sm_labels = sn_labels s, sm_annotations = sn_annotations s, sm_origin = sn_origin s,
     sm_identity = sn_identity s, si_lastSeq = sql_head (sn_session s) db,
     si_computeState = (if sn_computeState s = ComputeStateOther [] then ComputeNone else sn_computeState s),
     si_deletionState = sn_deletionState s,
     si_deletionRequestedAt = (if sn_deletionRequestedAt s \<noteq> 0 then Some (sn_deletionRequestedAt s) else None),
     si_deletionSeq = sn_deletionSeq s, si_pendingApproval = pending_ref s db\<rparr>"

definition SessionInfo :: "string \<Rightarrow> sqlite_db \<Rightarrow> goerr + session_info" where
  "SessionInfo uid db =
     (case session_row_of uid db of
        None \<Rightarrow> Inl (errorf [] ErrSessionNotFound ('': '' @ uid))
      | Some r \<Rightarrow> Inr (scanSession db r))"

section \<open>Listing\<close>

text \<open>\<^verbatim>\<open>base64.RawURLEncoding\<close>: no padding; the decoder skips line breaks and ignores trailing bits.\<close>

definition b64_char :: "nat \<Rightarrow> char" where
  "b64_char n = (if n < 26 then char_of (65 + n) else if n < 52 then char_of (71 + n)
     else if n < 62 then char_of (n - 4) else if n = 62 then CHR ''-'' else CHR ''_'')"

definition b64_val :: "char \<Rightarrow> nat option" where
  "b64_val c = (let n = (of_char c :: nat) in
     if 65 \<le> n \<and> n < 91 then Some (n - 65) else if 97 \<le> n \<and> n < 123 then Some (n - 71)
     else if 48 \<le> n \<and> n < 58 then Some (n + 4) else if n = 45 then Some 62
     else if n = 95 then Some 63 else None)"

fun b64_groups :: "nat list \<Rightarrow> nat list" where
  "b64_groups (a # b # c # rest) =
     (a div 4) # ((a mod 4) * 16 + b div 16) # ((b mod 16) * 4 + c div 64) # (c mod 64) # b64_groups rest"
| "b64_groups [a, b] = [a div 4, (a mod 4) * 16 + b div 16, (b mod 16) * 4]"
| "b64_groups [a] = [a div 4, (a mod 4) * 16]"
| "b64_groups [] = []"

fun b64_ungroup :: "nat list \<Rightarrow> nat list option" where
  "b64_ungroup (w # x # y # z # rest) =
     map_option (\<lambda>bs. (w * 4 + x div 16) # ((x mod 16) * 16 + y div 4) # ((y mod 4) * 64 + z) # bs) (b64_ungroup rest)"
| "b64_ungroup [w, x, y] = Some [w * 4 + x div 16, (x mod 16) * 16 + y div 4]"
| "b64_ungroup [w, x] = Some [w * 4 + x div 16]"
| "b64_ungroup [w] = None"
| "b64_ungroup [] = Some []"

definition b64_encode :: "bytes \<Rightarrow> string" where
  "b64_encode bs = map b64_char (b64_groups (map of_char bs))"

definition b64_decode :: "string \<Rightarrow> bytes option" where
  "b64_decode s =
     (case those (map b64_val (filter (\<lambda>c. c \<noteq> CHR 0x0D \<and> c \<noteq> CHR 0x0A) s)) of
        None \<Rightarrow> None
      | Some vs \<Rightarrow> map_option (map char_of) (b64_ungroup vs))"

text \<open>\<^verbatim>\<open>strconv.ParseInt(s, 10, 64)\<close>.\<close>

definition is_digit :: "char \<Rightarrow> bool" where
  "is_digit c \<longleftrightarrow> 48 \<le> (of_char c :: nat) \<and> (of_char c :: nat) < 58"

definition ParseInt64 :: "string \<Rightarrow> int64 option" where
  "ParseInt64 s =
     (let neg = (s \<noteq> [] \<and> hd s = CHR ''-'');
          ds = (if s \<noteq> [] \<and> (hd s = CHR ''-'' \<or> hd s = CHR ''+'') then tl s else s);
          n = int (parse_digits 0 ds)
      in if ds = [] \<or> \<not> list_all is_digit ds then None
         else if neg then (if n > 2 ^ 63 then None else Some (- n))
         else if n \<ge> 2 ^ 63 then None else Some n)"

text \<open>\<^verbatim>\<open>strings.Cut\<close> at a byte.\<close>

definition cut_at :: "char \<Rightarrow> string \<Rightarrow> (string \<times> string) option" where
  "cut_at c s = (case dropWhile (\<lambda>x. x \<noteq> c) s of [] \<Rightarrow> None | _ # r \<Rightarrow> Some (takeWhile (\<lambda>x. x \<noteq> c) s, r))"

definition encodeCursor :: "int64 \<Rightarrow> string \<Rightarrow> string" where
  "encodeCursor createdAt uid = b64_encode (format_int createdAt @ CHR 0x00 # uid)"

definition decodeCursor :: "string \<Rightarrow> goerr + int64 \<times> string" where
  "decodeCursor token =
     (let bad = Inl (errorf [] ErrInvalidPageToken ('': '' @ format_q token)) in
      case b64_decode token of
        None \<Rightarrow> bad
      | Some raw \<Rightarrow>
          (case cut_at (CHR 0x00) raw of
             None \<Rightarrow> bad
           | Some (createdAt, uid) \<Rightarrow>
               (case ParseInt64 createdAt of None \<Rightarrow> bad | Some nanos \<Rightarrow> Inr (nanos, uid))))"

definition DefaultPageSize :: int where "DefaultPageSize = 50"
definition MaxPageSize :: int where "MaxPageSize = 500"

record list_options =
  lo_project :: string
  lo_pageSize :: int
  lo_pageToken :: string

record session_page =
  pg_sessions :: "session_info list"
  pg_nextPageToken :: string

definition page_size :: "int \<Rightarrow> int" where
  "page_size n = (if n \<le> 0 then DefaultPageSize else if n > MaxPageSize then MaxPageSize else n)"

definition session_key :: "session_row \<Rightarrow> int64 \<times> string" where
  "session_key r = (- sn_createdAt r, sn_session r)"

definition after_cursor :: "(int64 \<times> string) option \<Rightarrow> session_row \<Rightarrow> bool" where
  "after_cursor cur r =
     (case cur of
        None \<Rightarrow> True
      | Some (createdAt, uid) \<Rightarrow>
          sn_createdAt r < createdAt \<or> sn_createdAt r = createdAt \<and> sn_session r > uid)"

definition select_sessions :: "string \<Rightarrow> (int64 \<times> string) option \<Rightarrow> nat \<Rightarrow> sqlite_db \<Rightarrow> session_row list" where
  "select_sessions project cur limit db =
     take limit (sort_key session_key
       (filter (\<lambda>r. sn_project r = project \<and> sn_deletionState r = DeletionActive \<and> after_cursor cur r)
         (db_sessions db)))"

text \<open>The loop over the rows: one row beyond the page sets the token.\<close>

fun fill_page :: "nat \<Rightarrow> session_info list \<Rightarrow> session_info list \<Rightarrow> session_page" where
  "fill_page n acc [] = \<lparr>pg_sessions = acc, pg_nextPageToken = []\<rparr>"
| "fill_page n acc (info # rest) =
     (if length acc = n
      then let prev = acc ! (n - 1) in
           \<lparr>pg_sessions = acc,
            pg_nextPageToken = encodeCursor (case sm_createdAt prev of None \<Rightarrow> 0 | Some t \<Rightarrow> t) (sm_uid prev)\<rparr>
      else fill_page n (acc @ [info]) rest)"

definition ListSessions :: "sql_env \<Rightarrow> list_options \<Rightarrow> sqlite_db \<Rightarrow> goerr + session_page" where
  "ListSessions env opts db =
     (let project = project_of env (lo_project opts);
          n = nat (page_size (lo_pageSize opts));
          cur = (if lo_pageToken opts = [] then Inr None else map_sum id Some (decodeCursor (lo_pageToken opts)))
      in case cur of
           Inl e \<Rightarrow> Inl e
         | Inr c \<Rightarrow> Inr (fill_page n [] (map (scanSession db) (select_sessions project c (n + 1) db))))"

section \<open>Deletion\<close>

definition delete_event :: "int64 \<Rightarrow> event" where
  "delete_event now = zero_event\<lparr>ev_kind := EventLifecycle,
     ev_lifecycle := Some \<lparr>lc_kind = LifecycleDelete, lc_detail = [], lc_snapshot = None\<rparr>,
     ev_timestamp := Some now, ev_schemaVersion := 1\<rparr>"

definition errors_join :: "goerr \<Rightarrow> goerr \<Rightarrow> goerr" where
  "errors_join a b = ErrMulti (error_text a @ CHR 0x0A # error_text b) [a, b]"

text \<open>\<open>ctx\<close> gives \<^verbatim>\<open>ctx.Err()\<close> at each moment.\<close>

definition delete_fail ::
  "(nat \<Rightarrow> goerr option) \<Rightarrow> string \<Rightarrow> string \<Rightarrow> goerr \<Rightarrow> nat \<Rightarrow> goerr" where
  "delete_fail ctx uid phase err t =
     (let err = (case ctx t of
            Some cause \<Rightarrow> if errors_is err cause then err else errors_join err cause
          | None \<Rightarrow> err)
      in errorf (''sqlitelog: delete session '' @ format_q uid @ '': '' @ phase @ '': '') err [])"

definition txSessionInfo :: "string \<Rightarrow> sqlite_db \<Rightarrow> goerr + session_info" where
  "txSessionInfo uid db =
     (case session_row_of uid db of
        None \<Rightarrow> Inl (errorf [] ErrSessionNotFound ('': '' @ uid))
      | Some r \<Rightarrow> Inr (scanSession db r))"

definition mark_deleted :: "int64 \<Rightarrow> int64 \<Rightarrow> log_record \<Rightarrow> session_row \<Rightarrow> session_row" where
  "mark_deleted now head record r = r\<lparr>sn_deletionState := DeletionPending, sn_deletionRequestedAt := now,
     sn_deletionSeq := r_seq record,
     sn_approvalCorrupt := (if sn_lastSeq r \<noteq> head then True else sn_approvalCorrupt r),
     sn_lastSeq := r_seq record, sn_fence := r_fence record, sn_updatedAt := now\<rparr>"

text \<open>The statements of an admitted deletion, up to the commit.\<close>

definition delete_tx ::
  "sql_env \<Rightarrow> (nat \<Rightarrow> goerr option) \<Rightarrow> string \<Rightarrow> session_info \<Rightarrow> sqlite_db \<Rightarrow> (goerr + session_info) \<times> sqlite_db" where
  "delete_tx env ctx uid info db =
     (let fence = sql_fence uid db in
      case ctx (db_clock db) of
        Some e \<Rightarrow> (Inl (delete_fail ctx uid ''before append'' e (db_clock db)), db)
      | None \<Rightarrow>
          let (now, db) = sql_now env db in
          (case appendRecord env uid (si_lastSeq info) (fence + 1) (delete_event now) db of
             (Inl e, db') \<Rightarrow> (Inl (delete_fail ctx uid ''append intent'' e (db_clock db')), db')
           | (Inr (record, _), db') \<Rightarrow>
               let db'' = update_session uid (mark_deleted now (si_lastSeq info) record) db' in
               (case txSessionInfo uid db'' of
                  Inl e \<Rightarrow> (Inl (delete_fail ctx uid ''read intent'' e (db_clock db'')), db'')
                | Inr out \<Rightarrow> (Inr out, db''))))"

definition DeleteSession ::
  "sql_env \<Rightarrow> (nat \<Rightarrow> goerr option) \<Rightarrow> string \<Rightarrow> sqlite_db \<Rightarrow> (goerr + session_info) \<times> sqlite_db" where
  "DeleteSession env ctx uid db =
     (if uid = [] then (Inl (ErrNew ''sqlitelog: delete session requires a uid''), db)
      else case sql_attempt env db of
        (Some e, db1) \<Rightarrow> (Inl (delete_fail ctx uid ''begin'' e (db_clock db1)), db1)
      | (None, db1) \<Rightarrow>
          (case txSessionInfo uid db1 of
             Inl e \<Rightarrow> (Inl (delete_fail ctx uid ''read'' e (db_clock db1)), db1)
           | Inr info \<Rightarrow>
               (case si_deletionState info of
                  DeletionPending \<Rightarrow> (Inr info, db1)
                | DeletionStateOther _ \<Rightarrow> (Inl (delete_fail ctx uid ''state'' ErrDeleted (db_clock db1)), db1)
                | DeletionActive \<Rightarrow>
                    (case delete_tx env ctx uid info db1 of
                       (Inl e, db2) \<Rightarrow> (Inl e, rollback_to db1 db2)
                     | (Inr out, db2) \<Rightarrow>
                         (case sql_attempt env db2 of
                            (Some e, db3) \<Rightarrow>
                              (Inl (delete_fail ctx uid ''commit intent'' e (db_clock db3)), rollback_to db1 db3)
                          | (None, db3) \<Rightarrow> (Inr out, db3))))))"

section \<open>Registered harnesses\<close>

datatype RegisterResult = HarnessCreated | HarnessUnchanged | HarnessReactivated

text \<open>
  \<^verbatim>\<open>HarnessRecord\<close> has the columns of the row; a time that is 0 in the row is the zero time.
\<close>

definition harnessByName :: "string \<Rightarrow> sqlite_db \<Rightarrow> goerr + harness_row" where
  "harnessByName name db =
     (case row_where hr_name name (db_harnesses db) of
        None \<Rightarrow> Inl (errorf [] ErrHarnessNotFound ('': '' @ format_q name))
      | Some r \<Rightarrow> Inr r)"

definition nameReserved :: "string \<Rightarrow> sqlite_db \<Rightarrow> bool" where
  "nameReserved name db \<longleftrightarrow> db_reserved db name \<noteq> None"

definition update_harness :: "string \<Rightarrow> (harness_row \<Rightarrow> harness_row) \<Rightarrow> sqlite_db \<Rightarrow> sqlite_db" where
  "update_harness name f db = db\<lparr>db_harnesses := update_where hr_name name f (db_harnesses db)\<rparr>"

definition register_tx ::
  "sql_env \<Rightarrow> harness_row \<Rightarrow> sqlite_db \<Rightarrow> (goerr + harness_row \<times> RegisterResult) \<times> sqlite_db" where
  "register_tx env rec db =
     (if nameReserved (hr_name rec) db
      then (Inl (errorf [] ErrHarnessNameReserved ('': '' @ format_q (hr_name rec))), db)
      else
        let (now, db) = sql_now env db;
            finish = (\<lambda>result db'. case harnessByName (hr_name rec) db' of
                        Inl e \<Rightarrow> (Inl e, db') | Inr out \<Rightarrow> (Inr (out, result), db'))
        in case row_where hr_name (hr_name rec) (db_harnesses db) of
             None \<Rightarrow> finish HarnessCreated (db\<lparr>db_harnesses := db_harnesses db @
                 [rec\<lparr>hr_state := HarnessActive, hr_retireReason := [], hr_retiredAt := 0,
                      hr_createdAt := now, hr_updatedAt := now\<rparr>]\<rparr>)
           | Some existing \<Rightarrow>
               if hr_specDigest existing \<noteq> hr_specDigest rec then
                 (Inl (errorf [] ErrHarnessSpecConflict ('': '' @ format_q (hr_name rec) @ '' is ''
                    @ hr_specDigest existing @ '', request is '' @ hr_specDigest rec)), db)
               else if hr_state existing = HarnessActive then finish HarnessUnchanged db
               else finish HarnessReactivated (update_harness (hr_name rec)
                 (\<lambda>r. r\<lparr>hr_state := HarnessActive, hr_retireReason := [], hr_retiredAt := 0,
                         hr_updatedAt := now\<rparr>) db))"

definition wrap_error :: "string \<Rightarrow> goerr \<Rightarrow> goerr" where
  "wrap_error pre e = errorf (pre @ '': '') e []"

definition RegisterHarness ::
  "sql_env \<Rightarrow> harness_row \<Rightarrow> sqlite_db \<Rightarrow> (goerr + harness_row \<times> RegisterResult) \<times> sqlite_db" where
  "RegisterHarness env rec db =
     (if hr_name rec = [] \<or> hr_uid rec = [] \<or> hr_spec rec = [] \<or> hr_specDigest rec = []
      then (Inl (ErrNew ''sqlitelog: harness registration needs name, uid, spec and digest''), db)
      else
        let wrap = wrap_error (''sqlitelog: register harness '' @ format_q (hr_name rec))
        in with_tx env wrap wrap (register_tx env rec) db)"

text \<open>\<^verbatim>\<open>INSERT OR IGNORE INTO reserved_harness_names\<close>.\<close>

definition reserve :: "int64 \<Rightarrow> string \<Rightarrow> sqlite_db \<Rightarrow> sqlite_db" where
  "reserve now name db = db\<lparr>db_reserved := (case db_reserved db name of
     None \<Rightarrow> (db_reserved db)(name \<mapsto> now) | Some _ \<Rightarrow> db_reserved db)\<rparr>"

fun reserve_names :: "int64 \<Rightarrow> string list \<Rightarrow> sqlite_db \<Rightarrow> (goerr + unit) \<times> sqlite_db" where
  "reserve_names now [] db = (Inr (), db)"
| "reserve_names now (name # names) db =
     (if name = [] then (Inl (ErrNew ''sqlitelog: reserve harness names: empty name''), db)
      else if row_where hr_name name (db_harnesses db) \<noteq> None
      then (Inl (errorf [] ErrHarnessNameCollision ('': '' @ format_q name)), db)
      else reserve_names now names (reserve now name db))"

definition ReserveHarnessNames :: "sql_env \<Rightarrow> string list \<Rightarrow> sqlite_db \<Rightarrow> (goerr + unit) \<times> sqlite_db" where
  "ReserveHarnessNames env names db =
     (let wrap = wrap_error ''sqlitelog: reserve harness names''
      in with_tx env wrap wrap
           (\<lambda>db. let (now, db) = sql_now env db in reserve_names now names db) db)"

definition Harness :: "string \<Rightarrow> sqlite_db \<Rightarrow> goerr + harness_row" where
  "Harness name db = harnessByName name db"

record harness_list_options =
  hl_after :: string
  hl_limit :: int
  hl_includeRetired :: bool

definition ListHarnesses :: "harness_list_options \<Rightarrow> sqlite_db \<Rightarrow> goerr + harness_row list" where
  "ListHarnesses opts db =
     (if hl_limit opts \<le> 0 then Inl (ErrNew ''sqlitelog: list harnesses needs a positive limit'')
      else Inr (take (nat (hl_limit opts)) (sort_key hr_name
        (filter (\<lambda>r. hr_name r > hl_after opts \<and> (hl_includeRetired opts \<or> hr_state r = HarnessActive))
          (db_harnesses db)))))"

definition retire_tx ::
  "sql_env \<Rightarrow> string \<Rightarrow> string \<Rightarrow> sqlite_db \<Rightarrow> (goerr + harness_row) \<times> sqlite_db" where
  "retire_tx env name reason db =
     (let (now, db) = sql_now env db;
          db = update_harness name (\<lambda>r. if hr_state r = HarnessActive
                 then r\<lparr>hr_state := HarnessRetired, hr_retireReason := reason, hr_retiredAt := now,
                        hr_updatedAt := now\<rparr> else r) db
      in (harnessByName name db, db))"

definition RetireHarness ::
  "sql_env \<Rightarrow> string \<Rightarrow> string \<Rightarrow> sqlite_db \<Rightarrow> (goerr + harness_row) \<times> sqlite_db" where
  "RetireHarness env name reason db =
     (let wrap = wrap_error (''sqlitelog: retire harness '' @ format_q name)
      in with_tx env wrap wrap (retire_tx env name reason) db)"

definition put_on_harness_tx ::
  "sql_env \<Rightarrow> session_meta \<Rightarrow> bool \<Rightarrow> sqlite_db \<Rightarrow> (goerr + unit) \<times> sqlite_db" where
  "put_on_harness_tx env m registered db =
     (case sql_checkWritable (sm_uid m) db of
        Some e \<Rightarrow> (Inl e, db)
      | None \<Rightarrow>
          let put = (case putSession env m db of (Some e, db') \<Rightarrow> (Inl e, db') | (None, db') \<Rightarrow> (Inr (), db'))
          in case harnessByName (sm_harness m) db of
               Inl e \<Rightarrow> if registered then (Inl e, db) else put
             | Inr rec \<Rightarrow>
                 if \<not> registered then
                   (Inl (errorf [] ErrHarnessNameCollision ('': '' @ format_q (sm_harness m))), db)
                 else if hr_state rec \<noteq> HarnessActive then
                   (Inl (errorf [] ErrHarnessRetired ('': '' @ format_q (sm_harness m))), db)
                 else put)"

definition PutSessionOnActiveHarness ::
  "sql_env \<Rightarrow> session_meta \<Rightarrow> bool \<Rightarrow> sqlite_db \<Rightarrow> (goerr + unit) \<times> sqlite_db" where
  "PutSessionOnActiveHarness env m registered db =
     (let wrap = wrap_error (''sqlitelog: put session '' @ format_q (sm_uid m))
      in with_tx env wrap wrap (put_on_harness_tx env m registered) db)"

section \<open>Migrations\<close>

text \<open>
  A table or column that the stamped version does not have is empty or at its default in the record;
  the rung that creates it sets it.  \<^verbatim>\<open>strftime('%s', 'now')\<close> is a question to the clock.
\<close>

definition SchemaVersion :: int where "SchemaVersion = 4"

definition checkVersion :: "int \<Rightarrow> goerr option" where
  "checkVersion v =
     (if v < 0 then Some (errorf [] ErrUnsupportedSchema ('': database is stamped v'' @ format_int v))
      else if v > SchemaVersion then
        Some (errorf [] ErrUnsupportedSchema ('': database is v'' @ format_int v
          @ '', this build understands v'' @ format_int SchemaVersion))
      else None)"

fun start_harnesses :: "sql_env \<Rightarrow> event_row list \<Rightarrow> goerr + string list" where
  "start_harnesses env [] = Inr []"
| "start_harnesses env (r # rs) =
     (case sql_decode env (er_event r) of
        Inl e \<Rightarrow> Inl (errorf (''decode session '' @ er_session r @ '' seq '' @ format_int (er_seq r) @ '': '') e [])
      | Inr ev \<Rightarrow>
          (case start_harnesses env rs of
             Inl e \<Rightarrow> Inl e
           | Inr names \<Rightarrow>
               Inr (case ev_executionStart ev of
                      Some st \<Rightarrow> if ev_kind ev = EventExecutionStart \<and> es_harness st \<noteq> []
                                  then es_harness st # names else names
                    | None \<Rightarrow> names)))"

definition event_key :: "event_row \<Rightarrow> string \<times> int64" where
  "event_key r = (er_session r, er_seq r)"

definition migrateV1ToV2 :: "sql_env \<Rightarrow> sqlite_db \<Rightarrow> (goerr + unit) \<times> sqlite_db" where
  "migrateV1ToV2 env db =
     (let (now0, db) = sql_now env db;
          db = fold (reserve (now0 div 1000000000 * 1000000000))
                 (filter (\<lambda>h. h \<noteq> []) (map sn_harness (db_sessions db))) db
      in case start_harnesses env (sort_key event_key (db_events db)) of
           Inl e \<Rightarrow> (Inl e, db)
         | Inr names \<Rightarrow>
             let (now, db) = sql_now env db in (Inr (), fold (reserve now) names db))"

text \<open>The backfill of one session: its events in order, until one does not decode.\<close>

fun backfill :: "sql_env \<Rightarrow> string \<Rightarrow> event_row list \<Rightarrow> sqlite_db \<Rightarrow> sqlite_db" where
  "backfill env uid [] db = db"
| "backfill env uid (r # rs) db =
     (case sql_decode env (er_event r) of
        Inl _ \<Rightarrow> update_session uid (\<lambda>s. s\<lparr>sn_approvalCorrupt := True, sn_lastSeq := sql_head uid db\<rparr>) db
      | Inr ev \<Rightarrow> backfill env uid rs (projectApproval uid (er_seq r) ev db))"

definition migrateV2ToV3 :: "sql_env \<Rightarrow> sqlite_db \<Rightarrow> (goerr + unit) \<times> sqlite_db" where
  "migrateV2ToV3 env db =
     (let db = db\<lparr>db_sessions := map (\<lambda>r. r\<lparr>sn_lastSeq := 0, sn_latestExecution := [],
                   sn_reportingForkSeq := 0, sn_approvalCorrupt := False, sn_invalidApprovals := 0\<rparr>)
                 (db_sessions db), db_executions := Map.empty, db_calls := Map.empty\<rparr>
      in (Inr (), fold (\<lambda>uid db. backfill env uid (sort_key er_seq (filter (\<lambda>r. er_seq r > 0) (events_of uid db))) db)
            (sort (map sn_session (db_sessions db))) db))"

definition migrateV3ToV4 :: "sql_env \<Rightarrow> sqlite_db \<Rightarrow> (goerr + unit) \<times> sqlite_db" where
  "migrateV3ToV4 env db =
     (Inr (), db\<lparr>db_sessions := map (\<lambda>r. r\<lparr>sn_deletionState := DeletionActive,
        sn_deletionRequestedAt := 0, sn_deletionCompletedAt := 0, sn_deletionSeq := 0\<rparr>) (db_sessions db)\<rparr>)"

definition migrations :: "(sql_env \<Rightarrow> sqlite_db \<Rightarrow> (goerr + unit) \<times> sqlite_db) list" where
  "migrations = [migrateV1ToV2, migrateV2ToV3, migrateV3ToV4]"

text \<open>The rungs from version \<open>v\<close> on; \<open>rungs\<close> are those not yet applied.\<close>

fun climb ::
  "sql_env \<Rightarrow> int \<Rightarrow> (sql_env \<Rightarrow> sqlite_db \<Rightarrow> (goerr + unit) \<times> sqlite_db) list \<Rightarrow> sqlite_db \<Rightarrow>
     (goerr + unit) \<times> sqlite_db" where
  "climb env v [] db = (Inr (), db)"
| "climb env v (rung # rungs) db =
     (case rung env db of
        (Inl e, db') \<Rightarrow> (Inl (errorf (''sqlitelog: migrate v'' @ format_int v @ '' to v'' @ format_int (v + 1)
                               @ '': '') e []), db')
      | (Inr _, db') \<Rightarrow> climb env (v + 1) rungs db')"

text \<open>
  \<^verbatim>\<open>migrate\<close>.  The version is read again under the write lock: \<open>other\<close> is what other processes
  committed between the first reading and the lock.
\<close>

definition migrate_tx :: "sql_env \<Rightarrow> sqlite_db \<Rightarrow> (goerr + bool) \<times> sqlite_db" where
  "migrate_tx env db =
     (case checkVersion (db_userVersion db) of
        Some e \<Rightarrow> (Inl e, db)
      | None \<Rightarrow>
          if db_userVersion db = SchemaVersion then (Inr False, db)
          else
            let v = (if db_userVersion db = 0 then 1 else db_userVersion db) in
            (case climb env v (drop (nat (v - 1)) migrations) db of
               (Inl e, db') \<Rightarrow> (Inl e, db')
             | (Inr _, db') \<Rightarrow> (Inr True, db'\<lparr>db_userVersion := SchemaVersion\<rparr>)))"

definition migrate ::
  "sql_env \<Rightarrow> (sqlite_db \<Rightarrow> sqlite_db) \<Rightarrow> sqlite_db \<Rightarrow> goerr option \<times> sqlite_db" where
  "migrate env other db =
     (case checkVersion (db_userVersion db) of
        Some e \<Rightarrow> (Some e, db)
      | None \<Rightarrow>
          if db_userVersion db = SchemaVersion then (None, db)
          else
            let wrap = wrap_error ''sqlitelog: migrate'' in
            (case sql_attempt env (other db) of
               (Some e, db1) \<Rightarrow> (Some (wrap e), db1)
             | (None, db1) \<Rightarrow>
                 (case migrate_tx env db1 of
                    (Inl e, db2) \<Rightarrow> (Some e, rollback_to db1 db2)
                  | (Inr False, db2) \<Rightarrow> (None, rollback_to db1 db2)
                  | (Inr True, db2) \<Rightarrow>
                      (case sql_attempt env db2 of
                         (Some e, db3) \<Rightarrow> (Some (wrap e), rollback_to db1 db3)
                       | (None, db3) \<Rightarrow> (None, db3)))))"

definition WithDefaultProject :: "string \<Rightarrow> string \<Rightarrow> string" where
  "WithDefaultProject project cfg = (if project \<noteq> [] then project else cfg)"

end
