(* ===== verification/Sqlite_Store.thy ===== *)
theory Sqlite_Store
  imports Sqlitelog
begin

text \<open>
  The methods of one session's log, on the tables: what a transaction and each statement leave
  alone, the invariant \<open>db_ok\<close> of the database, what \<^verbatim>\<open>Append\<close>, \<^verbatim>\<open>NewFence\<close> and \<^verbatim>\<open>Read\<close> do on every
  branch, and that the durable log is a store in the sense of the locale \<open>event_store\<close>.
\<close>

section \<open>Tables\<close>

lemma row_where_Nil [simp]: "row_where key k [] = None"
  by (simp add: row_where_def)

lemma row_where_Cons: "row_where key k (r # rows) = (if key r = k then Some r else row_where key k rows)"
  by (simp add: row_where_def)

lemma row_where_None: "row_where key k rows = None \<longleftrightarrow> k \<notin> key ` set rows"
  by (auto simp: row_where_def find_None_iff)

lemma row_where_Some: "row_where key k rows = Some r \<Longrightarrow> r \<in> set rows \<and> key r = k"
  by (auto simp: row_where_def find_Some_iff)

lemma row_where_append:
  "row_where key k (xs @ ys) = (case row_where key k xs of None \<Rightarrow> row_where key k ys | Some r \<Rightarrow> Some r)"
  by (induction xs) (auto simp: row_where_Cons)

lemma row_where_update_where:
  assumes "\<And>r. key (f r) = key r"
  shows "row_where key k' (update_where key k f rows) =
    (if k' = k then map_option f (row_where key k rows) else row_where key k' rows)"
  by (induction rows) (auto simp: row_where_Cons update_where_def assms)

lemma keys_update_where:
  assumes "\<And>r. key (f r) = key r"
  shows "map key (update_where key k f rows) = map key rows"
  by (simp add: update_where_def assms)

lemma row_where_upsert:
  assumes "\<And>r. key (upd r) = key r" and "upsert key new guard upd rows = (changed, rows')"
  shows "row_where key k rows' =
    (if k = key new \<and> changed
     then Some (case row_where key k rows of None \<Rightarrow> new | Some r \<Rightarrow> upd r)
     else row_where key k rows)"
  using assms(2)
  by (auto simp: upsert_def row_where_append row_where_Cons row_where_update_where [of key upd, OF assms(1)]
      split: option.splits if_splits)

lemma upsert_changed:
  "upsert key new guard upd rows = (changed, rows') \<Longrightarrow>
     changed = (case row_where key (key new) rows of None \<Rightarrow> True | Some r \<Rightarrow> guard r)"
  by (auto simp: upsert_def split: option.splits if_splits)

lemma distinct_upsert:
  assumes "\<And>r. key (upd r) = key r" and "upsert key new guard upd rows = (changed, rows')"
    and "distinct (map key rows)"
  shows "distinct (map key rows')"
  using assms(2,3)
  by (auto simp: upsert_def row_where_None keys_update_where [of key upd, OF assms(1)]
      split: option.splits if_splits)

lemma max_seq_upto: "max_seq (map int [1..<Suc n]) = int n"
proof (induction n)
  case 0
  show ?case by (simp add: max_seq_def)
next
  case (Suc n)
  have snoc: "max_seq (xs @ [x]) = (if xs = [] then x else max x (max_seq xs))" for xs x
    by (cases xs) (simp_all add: max_seq_def)
  show ?case
    using snoc [of "map int [1..<Suc n]" "int (Suc n)"] Suc.IH
    by (cases n) (simp_all add: max_seq_def del: upt_Suc, simp_all add: max_seq_def)
qed

lemmas max_seq_upto' = max_seq_upto [unfolded One_nat_def]

lemma default_row_fields [simp]:
  "sn_session (default_row uid) = uid" "sn_fence (default_row uid) = 0"
  "sn_deletionState (default_row uid) = DeletionActive"
  by (simp_all add: default_row_def)

section \<open>Transactions\<close>

lemma with_tx_cases:
  assumes "with_tx env wB wC body db = (res, db')"
  obtains (aborted) e t where "res = Inl e" "db' = db\<lparr>db_clock := t\<rparr>"
  | (committed) x db2 where "res = Inr x" "body (db\<lparr>db_clock := Suc (db_clock db)\<rparr>) = (Inr x, db2)"
      "db' = db2\<lparr>db_clock := Suc (db_clock db2)\<rparr>"
proof (cases "sq_fault env (db_clock db)")
  case (Some e)
  with assms have "res = Inl (wB e)" "db' = db\<lparr>db_clock := Suc (db_clock db)\<rparr>"
    by (simp_all add: with_tx_def sql_attempt_def)
  then show thesis by (rule aborted)
next
  case None
  obtain r db2 where b: "body (db\<lparr>db_clock := Suc (db_clock db)\<rparr>) = (r, db2)" by fastforce
  show thesis
  proof (cases r)
    case (Inl e)
    with assms None b have "res = Inl e" "db' = db\<lparr>db_clock := db_clock db2\<rparr>"
      by (simp_all add: with_tx_def sql_attempt_def rollback_to_def)
    then show thesis by (rule aborted)
  next
    case (Inr x)
    show thesis
    proof (cases "sq_fault env (db_clock db2)")
      case (Some e)
      with assms None b Inr have "res = Inl (wC e)" "db' = db\<lparr>db_clock := Suc (db_clock db2)\<rparr>"
        by (simp_all add: with_tx_def sql_attempt_def rollback_to_def)
      then show thesis by (rule aborted)
    next
      assume nf: "sq_fault env (db_clock db2) = None"
      with assms None b Inr have "res = Inr x" "db' = db2\<lparr>db_clock := Suc (db_clock db2)\<rparr>"
        by (simp_all add: with_tx_def sql_attempt_def)
      with b Inr show thesis by (intro committed) auto
    qed
  qed
qed

section \<open>What the reporting columns leave alone\<close>

text \<open>A row without its reporting columns: what the approval projection never changes.\<close>

definition core_row :: "session_row \<Rightarrow> session_row" where
  "core_row r = r\<lparr>sn_lastSeq := 0, sn_latestExecution := [], sn_reportingForkSeq := 0,
     sn_approvalCorrupt := False, sn_invalidApprovals := 0\<rparr>"

lemma core_row_fields [simp]:
  "sn_session (core_row r) = sn_session r" "sn_fence (core_row r) = sn_fence r"
  "sn_deletionState (core_row r) = sn_deletionState r" "sn_project (core_row r) = sn_project r"
  "sn_createdAt (core_row r) = sn_createdAt r" "sn_harness (core_row r) = sn_harness r"
  by (simp_all add: core_row_def)

text \<open>Two databases that agree on everything but the reporting of session \<open>uid\<close> and the clock.\<close>

definition reports_only :: "string \<Rightarrow> sqlite_db \<Rightarrow> sqlite_db \<Rightarrow> bool" where
  "reports_only uid db db' \<longleftrightarrow>
     db_events db' = db_events db \<and> db_harnesses db' = db_harnesses db \<and> db_reserved db' = db_reserved db
     \<and> db_userVersion db' = db_userVersion db \<and> db_clock db' = db_clock db
     \<and> list_all2 (\<lambda>r r'. core_row r' = core_row r \<and> (sn_session r \<noteq> uid \<longrightarrow> r' = r)) (db_sessions db) (db_sessions db')
     \<and> (\<forall>u x. u \<noteq> uid \<longrightarrow> db_executions db' (u, x) = db_executions db (u, x))
     \<and> (\<forall>u x c. u \<noteq> uid \<longrightarrow> db_calls db' (u, x, c) = db_calls db (u, x, c))"

lemma reports_only_refl [simp]: "reports_only uid db db"
  by (simp add: reports_only_def list_all2_refl)

lemma reports_only_trans:
  assumes "reports_only uid a b" and "reports_only uid b c"
  shows "reports_only uid a c"
proof -
  have "list_all2 (\<lambda>r r'. core_row r' = core_row r \<and> (sn_session r \<noteq> uid \<longrightarrow> r' = r)) (db_sessions a) (db_sessions c)"
    by (rule list_all2_trans [of "\<lambda>r r'. core_row r' = core_row r \<and> (sn_session r \<noteq> uid \<longrightarrow> r' = r)"
          "\<lambda>r r'. core_row r' = core_row r \<and> (sn_session r \<noteq> uid \<longrightarrow> r' = r)" _ "db_sessions a" "db_sessions b"])
      (use assms in \<open>auto simp: reports_only_def\<close>)
  with assms show ?thesis by (auto simp: reports_only_def)
qed

lemma update_reports:
  assumes "\<And>r. core_row (f r) = core_row r"
  shows "reports_only uid db (update_session uid f db)"
  by (auto simp: reports_only_def update_session_def update_where_def list_all2_map2 assms
      intro!: list.rel_refl_strong)

text \<open>One rule per statement of the projection.\<close>

lemma reports_only_update:
  "reports_only uid a b \<Longrightarrow> (\<And>r. core_row (f r) = core_row r) \<Longrightarrow> reports_only uid a (update_session uid f b)"
  using reports_only_trans update_reports by blast

lemma reports_only_calls: "reports_only uid a b \<Longrightarrow> reports_only uid a (put_calls uid exid calls b)"
  by (simp add: reports_only_def put_calls_def)

lemma reports_only_executions:
  "reports_only uid a b \<Longrightarrow> reports_only uid a (b\<lparr>db_executions := m((uid, exid) \<mapsto> s)\<rparr>)"
  if "m = db_executions b"
  using that by (simp add: reports_only_def)

lemma reports_only_if: "(c \<Longrightarrow> reports_only uid a x) \<Longrightarrow> (\<not> c \<Longrightarrow> reports_only uid a y) \<Longrightarrow> reports_only uid a (if c then x else y)"
  by simp

lemmas reports_only_intros = reports_only_executions [OF refl] reports_only_calls reports_only_update reports_only_if
  reports_only_refl

lemma project_execution_reports: "reports_only uid a b \<Longrightarrow> reports_only uid a (project_execution uid seq ev b)"
  unfolding project_execution_def Let_def case_prod_beta
  by (intro reports_only_intros) (simp_all add: core_row_def)

lemma reports_only_option:
  "reports_only uid a x \<Longrightarrow> (\<And>l'. reports_only uid a (y l')) \<Longrightarrow>
     reports_only uid a (case l of None \<Rightarrow> x | Some l' \<Rightarrow> y l')"
  by (simp split: option.split)

lemma projectApproval_reports: "reports_only uid db (projectApproval uid seq ev db)"
  unfolding projectApproval_def Let_def
  by (intro reports_only_option project_execution_reports reports_only_intros) (simp_all add: core_row_def)

lemma rel_row_where:
  assumes "list_all2 (\<lambda>r r'. sn_session r' = sn_session r \<and> P r r') xs ys"
  shows "rel_option (\<lambda>r r'. sn_session r = k \<and> sn_session r' = k \<and> P r r') (row_where sn_session k xs) (row_where sn_session k ys)"
  using assms by (induction rule: list_all2_induct) (auto simp: row_where_Cons)

lemma reports_only_rel:
  assumes "reports_only uid db db'"
  shows "rel_option (\<lambda>r r'. sn_session r = k \<and> sn_session r' = k \<and> core_row r' = core_row r \<and> (k \<noteq> uid \<longrightarrow> r' = r))
    (session_row_of k db) (session_row_of k db')"
proof -
  have "list_all2 (\<lambda>r r'. sn_session r' = sn_session r \<and> core_row r' = core_row r \<and> (sn_session r \<noteq> uid \<longrightarrow> r' = r))
      (db_sessions db) (db_sessions db')"
    by (rule list_all2_mono [of "\<lambda>r r'. core_row r' = core_row r \<and> (sn_session r \<noteq> uid \<longrightarrow> r' = r)"])
      (use assms in \<open>auto simp: reports_only_def dest: arg_cong [of _ _ sn_session]\<close>)
  from rel_row_where [OF this] show ?thesis
    unfolding session_row_of_def by (rule option.rel_mono_strong) auto
qed

lemma rel_map_eq: "list_all2 (\<lambda>x y. f y = f x) xs ys \<Longrightarrow> map f ys = map f xs"
  by (induction rule: list_all2_induct) auto

lemma reports_only_sessions:
  assumes "reports_only uid db db'"
  shows "map sn_session (db_sessions db') = map sn_session (db_sessions db)"
  by (rule rel_map_eq, rule list_all2_mono [of "\<lambda>r r'. core_row r' = core_row r \<and> (sn_session r \<noteq> uid \<longrightarrow> r' = r)"])
    (use assms in \<open>auto simp: reports_only_def dest: arg_cong [of _ _ sn_session]\<close>)

lemma reports_only_events: "reports_only uid db db' \<Longrightarrow> events_of k db' = events_of k db"
  by (simp add: reports_only_def events_of_def)

lemma reports_only_fence: "reports_only uid db db' \<Longrightarrow> sql_fence k db' = sql_fence k db"
  using reports_only_rel [of uid db db' k]
  by (auto simp: sql_fence_def option_rel_Some1 rel_option_iff split: option.splits dest: arg_cong [of _ _ sn_fence])

lemma reports_only_writable: "reports_only uid db db' \<Longrightarrow> sql_checkWritable k db' = sql_checkWritable k db"
  using reports_only_rel [of uid db db' k]
  by (auto simp: sql_checkWritable_def rel_option_iff split: option.splits dest: arg_cong [of _ _ sn_deletionState])


section \<open>The invariant of the tables\<close>

text \<open>
  Primary keys are unique, every session's events are numbered 1, 2, 3, ... in the order they were
  inserted, and no harness name is both reserved and registered.
\<close>

definition event_numbers_ok :: "event_row list \<Rightarrow> bool" where
  "event_numbers_ok rows \<longleftrightarrow> map er_seq rows = map int [1..<Suc (length rows)]"

definition db_ok :: "sqlite_db \<Rightarrow> bool" where
  "db_ok db \<longleftrightarrow> distinct (map sn_session (db_sessions db)) \<and> distinct (map hr_name (db_harnesses db))
     \<and> (\<forall>uid. event_numbers_ok (events_of uid db))
     \<and> (\<forall>r \<in> set (db_harnesses db). db_reserved db (hr_name r) = None)"

definition row_record :: "sql_env \<Rightarrow> event_row \<Rightarrow> log_record" where
  "row_record env r = \<lparr>r_seq = er_seq r, r_prevHash = er_prevHash r, r_hash = er_hash r, r_fence = er_fence r,
     r_event = (case sql_decode env (er_event r) of Inl _ \<Rightarrow> zero_event | Inr ev \<Rightarrow> ev)\<rparr>"

definition sql_recs :: "sql_env \<Rightarrow> string \<Rightarrow> sqlite_db \<Rightarrow> log_record list" where
  "sql_recs env uid db = map (row_record env) (events_of uid db)"

text \<open>What an event reads back as after it was stored.\<close>

definition sql_norm :: "sql_env \<Rightarrow> event \<Rightarrow> event" where
  "sql_norm env ev =
     (case sq_marshal env (EventToProto (cn_codec (sq_canon env)) ev) of
        Inl _ \<Rightarrow> zero_event
      | Inr blob \<Rightarrow> (case sql_decode env blob of Inl _ \<Rightarrow> zero_event | Inr e \<Rightarrow> e))"

lemma db_ok_clock [simp]: "db_ok (db\<lparr>db_clock := t\<rparr>) = db_ok db"
  by (simp add: db_ok_def events_of_def)

lemma clock_views [simp]:
  "events_of uid (db\<lparr>db_clock := t\<rparr>) = events_of uid db"
  "session_row_of uid (db\<lparr>db_clock := t\<rparr>) = session_row_of uid db"
  "sql_head uid (db\<lparr>db_clock := t\<rparr>) = sql_head uid db"
  "sql_fence uid (db\<lparr>db_clock := t\<rparr>) = sql_fence uid db"
  "sql_recs env uid (db\<lparr>db_clock := t\<rparr>) = sql_recs env uid db"
  "sql_checkWritable uid (db\<lparr>db_clock := t\<rparr>) = sql_checkWritable uid db"
  by (simp_all add: events_of_def session_row_of_def sql_head_def sql_fence_def sql_recs_def sql_checkWritable_def)

lemma recs_seqs_ok: "db_ok db \<Longrightarrow> seqs_ok (sql_recs env uid db)"
  by (simp add: db_ok_def event_numbers_ok_def seqs_ok_def sql_recs_def row_record_def comp_def del: upt_Suc)

lemma sql_head_recs: "db_ok db \<Longrightarrow> sql_head uid db = head_of (sql_recs env uid db)"
  using seqs_ok_head [OF recs_seqs_ok [of db env uid]]
  by (simp add: db_ok_def event_numbers_ok_def sql_head_def max_seq_upto' sql_recs_def del: upt_Suc)

lemma sql_head_length: "db_ok db \<Longrightarrow> sql_head uid db = int (length (events_of uid db))"
  by (simp add: db_ok_def event_numbers_ok_def sql_head_def max_seq_upto' del: upt_Suc)

lemma events_of_nth: "db_ok db \<Longrightarrow> i < length (events_of uid db) \<Longrightarrow> er_seq (events_of uid db ! i) = int i + 1"
proof -
  assume ok: "db_ok db" and i: "i < length (events_of uid db)"
  then have "map er_seq (events_of uid db) ! i = map int [1..<Suc (length (events_of uid db))] ! i"
    by (simp add: db_ok_def event_numbers_ok_def)
  with i show ?thesis by (simp del: upt_Suc)
qed

lemma no_next_row: "db_ok db \<Longrightarrow> r \<in> set (db_events db) \<Longrightarrow> er_session r = uid \<Longrightarrow> er_seq r \<le> sql_head uid db"
proof -
  assume ok: "db_ok db" and r: "r \<in> set (db_events db)" "er_session r = uid"
  then have "r \<in> set (events_of uid db)" by (simp add: events_of_def)
  then obtain i where "i < length (events_of uid db)" "events_of uid db ! i = r"
    by (auto simp: in_set_conv_nth)
  with events_of_nth [OF ok, of i uid] sql_head_length [OF ok, of uid] show ?thesis by simp
qed

lemma find_filter: "find (\<lambda>r. P r \<and> Q r) xs = find Q (filter P xs)"
  by (induction xs) auto

text \<open>The hash that \<^verbatim>\<open>appendRecord\<close> looks up is that of the last record.\<close>

lemma prev_hash_found:
  assumes "db_ok db" and "sql_head uid db > 0"
  shows "\<exists>r. find (\<lambda>r. er_session r = uid \<and> er_seq r = sql_head uid db) (db_events db) = Some r
    \<and> er_hash r = last_hash (sql_recs env uid db)"
proof -
  let ?es = "events_of uid db"
  have len: "sql_head uid db = int (length ?es)" by (rule sql_head_length [OF assms(1)])
  with assms(2) have ne: "?es \<noteq> []" by auto
  then have last_seq: "er_seq (last ?es) = sql_head uid db"
    using events_of_nth [OF assms(1), of "length ?es - 1" uid] len
    by (cases "length ?es") (simp_all add: last_conv_nth)
  have "find (\<lambda>r. er_seq r = sql_head uid db) ?es = Some (last ?es)"
  proof -
    obtain ys y where es: "?es = ys @ [y]" using ne by (cases ?es rule: rev_cases) auto
    have "\<forall>r \<in> set ys. er_seq r \<noteq> sql_head uid db"
    proof
      fix r assume "r \<in> set ys"
      then obtain i where i: "i < length ys" "ys ! i = r" by (auto simp: in_set_conv_nth)
      with es have "er_seq r = int i + 1"
        using events_of_nth [OF assms(1), of i uid] by (simp add: nth_append)
      with i es len show "er_seq r \<noteq> sql_head uid db" by simp
    qed
    then have "find (\<lambda>r. er_seq r = sql_head uid db) ys = None" by (simp add: find_None_iff)
    moreover have "find P (ys @ [y]) = (case find P ys of None \<Rightarrow> if P y then Some y else None | Some z \<Rightarrow> Some z)" for P
      by (induction ys) auto
    ultimately show ?thesis using last_seq by (simp add: es)
  qed
  then show ?thesis
    using ne by (simp add: find_filter events_of_def last_hash_def sql_recs_def row_record_def last_map)
qed


section \<open>Append\<close>

definition new_row :: "string \<Rightarrow> log_record \<Rightarrow> bytes \<Rightarrow> event_row" where
  "new_row uid r blob = \<lparr>er_session = uid, er_seq = r_seq r, er_prevHash = r_prevHash r, er_hash = r_hash r,
     er_fence = r_fence r, er_event = blob\<rparr>"

definition add_event :: "string \<Rightarrow> log_record \<Rightarrow> bytes \<Rightarrow> sqlite_db \<Rightarrow> sqlite_db" where
  "add_event uid r blob db = db\<lparr>db_events := db_events db @ [new_row uid r blob]\<rparr>"

text \<open>The record a store with this session's records makes of an event.\<close>

definition sealed :: "sql_env \<Rightarrow> string \<Rightarrow> int64 \<Rightarrow> event \<Rightarrow> sqlite_db \<Rightarrow> log_record \<Rightarrow> bool" where
  "sealed env uid f ev db r \<longleftrightarrow> r_seq r = sql_head uid db + 1 \<and> r_prevHash r = last_hash (sql_recs env uid db)
     \<and> HashRecord (sq_canon env) (last_hash (sql_recs env uid db)) (sql_head uid db + 1) ev = Inr (r_hash r)
     \<and> r_fence r = f \<and> r_event r = ev"

definition sealed_record :: "sql_env \<Rightarrow> string \<Rightarrow> int64 \<Rightarrow> event \<Rightarrow> string \<Rightarrow> sqlite_db \<Rightarrow> log_record" where
  "sealed_record env uid f ev h db = \<lparr>r_seq = sql_head uid db + 1, r_prevHash = last_hash (sql_recs env uid db),
     r_hash = h, r_fence = f, r_event = ev\<rparr>"

lemma appendRecord_eq:
  assumes "db_ok db"
  shows "appendRecord env uid (sql_head uid db) f ev db =
    (case HashRecord (sq_canon env) (last_hash (sql_recs env uid db)) (sql_head uid db + 1) ev of
       Inl e \<Rightarrow> (Inl (errorf (''sqlitelog: canonicalize seq '' @ format_int (sql_head uid db + 1) @ '': '') e []), db)
     | Inr h \<Rightarrow>
         (case sq_marshal env (EventToProto (cn_codec (sq_canon env)) ev) of
            Inl e \<Rightarrow> (Inl (errorf (''sqlitelog: marshal seq '' @ format_int (sql_head uid db + 1) @ '': '') e []), db)
          | Inr blob \<Rightarrow> (Inr (sealed_record env uid f ev h db, EventToProto (cn_codec (sq_canon env)) ev),
                         add_event uid (sealed_record env uid f ev h db) blob db)))"
proof -
  let ?prev = "last_hash (sql_recs env uid db)"
  have fresh: "\<not> (\<exists>r \<in> set (db_events db). er_session r = uid \<and> er_seq r = sql_head uid db + 1)"
    using no_next_row [OF assms] by force
  have prev: "(if sql_head uid db > 0
      then (case find (\<lambda>r. er_session r = uid \<and> er_seq r = sql_head uid db) (db_events db) of
              None \<Rightarrow> Inl ErrNoRows | Some r \<Rightarrow> Inr (er_hash r)) else Inr []) = Inr ?prev"
  proof (cases "sql_head uid db > 0")
    case True
    with prev_hash_found [OF assms True, of env] show ?thesis by auto
  next
    case False
    with sql_head_length [OF assms, of uid] have "events_of uid db = []" by simp
    with False show ?thesis by (simp add: sql_recs_def last_hash_def)
  qed
  show ?thesis
    unfolding appendRecord_def Let_def prev
    using fresh by (auto simp: sealed_record_def add_event_def new_row_def split: sum.split)
qed

lemma appendRecord_cases:
  assumes "db_ok db" and "appendRecord env uid (sql_head uid db) f ev db = (res, db')"
  obtains (failed) e where "res = Inl e" "db' = db"
  | (written) r blob where "res = Inr (r, EventToProto (cn_codec (sq_canon env)) ev)"
      "sealed env uid f ev db r" "sq_marshal env (EventToProto (cn_codec (sq_canon env)) ev) = Inr blob"
      "db' = add_event uid r blob db"
proof -
  have seal: "sealed env uid f ev db (sealed_record env uid f ev h db)"
    if "HashRecord (sq_canon env) (last_hash (sql_recs env uid db)) (sql_head uid db + 1) ev = Inr h" for h
    using that by (simp add: sealed_def sealed_record_def)
  show thesis
    using assms(2) unfolding appendRecord_eq [OF assms(1)]
    by (auto split: sum.splits intro: failed written [OF _ seal])
qed

text \<open>The views of a database that the log's methods read.\<close>

lemma add_event_views:
  "events_of k (add_event uid r blob db) = events_of k db @ (if k = uid then [new_row uid r blob] else [])"
  "db_sessions (add_event uid r blob db) = db_sessions db"
  "session_row_of k (add_event uid r blob db) = session_row_of k db"
  "db_executions (add_event uid r blob db) = db_executions db" "db_calls (add_event uid r blob db) = db_calls db"
  "db_harnesses (add_event uid r blob db) = db_harnesses db" "db_reserved (add_event uid r blob db) = db_reserved db"
  "db_userVersion (add_event uid r blob db) = db_userVersion db"
  by (auto simp: add_event_def events_of_def new_row_def session_row_of_def)

definition touch_row :: "sql_env \<Rightarrow> event \<Rightarrow> int64 \<Rightarrow> session_row \<Rightarrow> session_row" where
  "touch_row env ev now r = r\<lparr>sn_computeState := (if snd (eventComputeState ev) then fst (eventComputeState ev) else sn_computeState r),
     sn_project := fill (sq_defaultProject env) (sn_project r),
     sn_createdAt := fill_time now (sn_createdAt r), sn_updatedAt := now\<rparr>"

definition fresh_row :: "sql_env \<Rightarrow> string \<Rightarrow> event \<Rightarrow> int64 \<Rightarrow> session_row" where
  "fresh_row env uid ev now = (default_row uid)\<lparr>sn_project := sq_defaultProject env,
     sn_computeState := (if snd (eventComputeState ev) then fst (eventComputeState ev) else ComputeNone),
     sn_createdAt := now, sn_updatedAt := now\<rparr>"

lemma touchSession_views:
  fixes ev env uid db
  defines "db' \<equiv> touchSession env uid ev db" and "now \<equiv> sq_now env (db_clock db)"
  shows "db_events db' = db_events db" and "db_executions db' = db_executions db" and "db_calls db' = db_calls db"
    and "db_harnesses db' = db_harnesses db" and "db_reserved db' = db_reserved db"
    and "db_userVersion db' = db_userVersion db"
    and "session_row_of k db' = (if k = uid then Some (case session_row_of uid db of None \<Rightarrow> fresh_row env uid ev now
          | Some r \<Rightarrow> touch_row env ev now r) else session_row_of k db)"
    and "distinct (map sn_session (db_sessions db)) \<Longrightarrow> distinct (map sn_session (db_sessions db'))"
proof -
  let ?state = "if \<not> snd (eventComputeState ev) then ComputeNone else fst (eventComputeState ev)"
  obtain c rows where u: "upsert sn_session
      ((default_row uid)\<lparr>sn_project := sq_defaultProject env, sn_computeState := ?state,
         sn_createdAt := now, sn_updatedAt := now\<rparr>) (\<lambda>_. True)
      (\<lambda>r. r\<lparr>sn_computeState := (if snd (eventComputeState ev) then ?state else sn_computeState r),
              sn_project := fill (sq_defaultProject env) (sn_project r),
              sn_createdAt := fill_time now (sn_createdAt r), sn_updatedAt := now\<rparr>)
      (db_sessions db) = (c, rows)" by fastforce
  then have db': "db' = db\<lparr>db_clock := Suc (db_clock db), db_sessions := rows\<rparr>"
    by (simp add: db'_def touchSession_def Let_def case_prod_beta sql_now_def now_def)
  show "db_events db' = db_events db" "db_executions db' = db_executions db" "db_calls db' = db_calls db"
    "db_harnesses db' = db_harnesses db" "db_reserved db' = db_reserved db" "db_userVersion db' = db_userVersion db"
    by (simp_all add: db')
  have "c" using upsert_changed [OF u] by (simp split: option.splits)
  then show "session_row_of k db' = (if k = uid then Some (case session_row_of uid db of None \<Rightarrow> fresh_row env uid ev now
          | Some r \<Rightarrow> touch_row env ev now r) else session_row_of k db)"
    using row_where_upsert [OF _ u, of k]
    by (auto simp: session_row_of_def db' default_row_def fresh_row_def touch_row_def split: option.splits)
  show "distinct (map sn_session (db_sessions db)) \<Longrightarrow> distinct (map sn_session (db_sessions db'))"
    using distinct_upsert [OF _ u] by (simp add: db')
qed


text \<open>What a committed append leaves: one more event in this session, everything else where it was.\<close>

definition after_append :: "sql_env \<Rightarrow> string \<Rightarrow> event \<Rightarrow> log_record \<Rightarrow> bytes \<Rightarrow> nat \<Rightarrow> sqlite_db \<Rightarrow> sqlite_db" where
  "after_append env uid ev r blob t db =
     projectApproval uid (r_seq r) (wire_norm (cn_codec (sq_canon env)) ev)
       (touchSession env uid ev (add_event uid r blob (db\<lparr>db_clock := t\<rparr>)))"

lemma sealed_clock [simp]: "sealed env uid f ev (db\<lparr>db_clock := t\<rparr>) r = sealed env uid f ev db r"
  by (simp add: sealed_def)

lemma Log_Append_cases:
  assumes ok: "db_ok db" and app: "Log_Append env uid ex f ev db = (res, db')"
  obtains (refused) e t where "res = Inl e" "db' = db\<lparr>db_clock := t\<rparr>"
  | (appended) r blob t t' where "res = Inr r" "sealed env uid f ev db r"
      "sq_marshal env (EventToProto (cn_codec (sq_canon env)) ev) = Inr blob"
      "ev_kind ev \<noteq> EventParked" "\<not> is_delete_event ev" "sql_checkWritable uid db = None"
      "ex = sql_head uid db" "sql_fence uid db \<le> f"
      "db' = (after_append env uid ev r blob t db)\<lparr>db_clock := t'\<rparr>"
proof (cases "ev_kind ev = EventParked")
  case True
  with app have "res = Inl (ErrNew ''sqlitelog: PARKED is transport-only'')" "db' = db\<lparr>db_clock := db_clock db\<rparr>"
    by (simp_all add: Log_Append_def)
  then show thesis by (rule refused)
next
  case False
  with app have "with_tx env id id (append_tx env uid ex f ev) db = (res, db')" by (simp add: Log_Append_def)
  then show thesis
  proof (cases rule: with_tx_cases)
    case (aborted e t)
    then show thesis by (rule refused)
  next
    case (committed r db2)
    let ?db1 = "db\<lparr>db_clock := Suc (db_clock db)\<rparr>"
    obtain ares adb where a: "appendRecord env uid (sql_head uid ?db1) f ev ?db1 = (ares, adb)" by fastforce
    from committed(2) have guards: "sql_checkWritable uid db = None" "\<not> is_delete_event ev" "ex = sql_head uid db"
      "sql_fence uid db \<le> f"
      by (auto simp: append_tx_def split: option.splits if_splits)
    have "db_ok ?db1" using ok by simp
    from this a show thesis
    proof (cases rule: appendRecord_cases)
      case (failed e)
      with committed(2) a guards show thesis by (simp add: append_tx_def)
    next
      case (written r' blob)
      with committed(2) a guards have r: "r' = r"
        and db2: "db2 = after_append env uid ev r blob (Suc (db_clock db)) db"
        by (auto simp: append_tx_def after_append_def wire_norm_def)
      show thesis
        by (rule appended [of r blob _ "Suc (db_clock db)"]) (use committed written guards False r db2 in auto)
    qed
  qed
qed

lemma after_append_views:
  fixes env uid ev r blob t db
  defines "db' \<equiv> after_append env uid ev r blob t db"
  shows "events_of k db' = events_of k db @ (if k = uid then [new_row uid r blob] else [])"
    and "sql_fence k db' = sql_fence k db"
    and "sql_checkWritable uid db = None \<Longrightarrow> sql_checkWritable k db' = sql_checkWritable k db"
    and "k \<noteq> uid \<Longrightarrow> session_row_of k db' = session_row_of k db"
    and "db_harnesses db' = db_harnesses db" "db_reserved db' = db_reserved db" "db_userVersion db' = db_userVersion db"
    and "distinct (map sn_session (db_sessions db)) \<Longrightarrow> distinct (map sn_session (db_sessions db'))"
proof -
  let ?a = "add_event uid r blob (db\<lparr>db_clock := t\<rparr>)"
  let ?b = "touchSession env uid ev ?a"
  have rep: "reports_only uid ?b db'" by (simp add: db'_def after_append_def projectApproval_reports)
  note tv = touchSession_views [where env = env and uid = uid and ev = ev and db = ?a]
  show "events_of k db' = events_of k db @ (if k = uid then [new_row uid r blob] else [])"
    using reports_only_events [OF rep, of k] tv(1) add_event_views(1) [of k uid r blob "db\<lparr>db_clock := t\<rparr>"]
    by (simp add: events_of_def)
  have row: "session_row_of k ?b = (if k = uid then Some (case session_row_of uid db of
        None \<Rightarrow> fresh_row env uid ev (sq_now env (db_clock ?a))
      | Some r \<Rightarrow> touch_row env ev (sq_now env (db_clock ?a)) r) else session_row_of k db)"
    using tv(7) [of k] by (simp add: add_event_views)
  show "sql_fence k db' = sql_fence k db"
    using reports_only_fence [OF rep, of k]
    by (simp add: sql_fence_def row fresh_row_def default_row_def touch_row_def split: option.splits)
  show "sql_checkWritable uid db = None \<Longrightarrow> sql_checkWritable k db' = sql_checkWritable k db"
    using reports_only_writable [OF rep, of k]
    by (auto simp: sql_checkWritable_def row fresh_row_def default_row_def touch_row_def split: option.splits)
  show "k \<noteq> uid \<Longrightarrow> session_row_of k db' = session_row_of k db"
    using reports_only_rel [OF rep, of k] row by (auto simp: rel_option_iff split: option.splits)
  show "db_harnesses db' = db_harnesses db" "db_reserved db' = db_reserved db" "db_userVersion db' = db_userVersion db"
    using rep tv add_event_views by (auto simp: reports_only_def)
  show "distinct (map sn_session (db_sessions db)) \<Longrightarrow> distinct (map sn_session (db_sessions db'))"
    using tv(8) unfolding reports_only_sessions [OF rep] by (simp add: add_event_views)
qed

lemma event_numbers_snoc:
  "event_numbers_ok (rows @ [r]) \<longleftrightarrow> event_numbers_ok rows \<and> er_seq r = int (length rows) + 1"
  by (auto simp: event_numbers_ok_def)

lemma add_row_ok:
  assumes "db_ok db" and "\<And>k. events_of k db' = events_of k db @ (if k = uid then [new_row uid r blob] else [])"
    and "r_seq r = sql_head uid db + 1"
    and "db_harnesses db' = db_harnesses db" and "db_reserved db' = db_reserved db"
    and "distinct (map sn_session (db_sessions db'))"
  shows "db_ok db'"
  using assms sql_head_length [OF assms(1), of uid] by (auto simp: db_ok_def event_numbers_snoc new_row_def)

lemma Log_Append_ok:
  assumes "db_ok db" and "Log_Append env uid ex f ev db = (res, db')"
  shows "db_ok db'"
  using assms
proof (cases rule: Log_Append_cases)
  case (appended r blob t t')
  have "db_ok (after_append env uid ev r blob t db)"
    by (rule add_row_ok [OF assms(1) after_append_views(1)])
      (use assms(1) appended(2) in \<open>simp_all add: after_append_views sealed_def db_ok_def\<close>)
  with appended show ?thesis by simp
qed (use assms(1) in simp)


section \<open>Fences\<close>

text \<open>The row of a session, with the column defaults when there is none yet, and its reporting columns.\<close>

definition report_row :: "string \<Rightarrow> sqlite_db \<Rightarrow> session_row" where
  "report_row uid db = (case session_row_of uid db of None \<Rightarrow> default_row uid | Some r \<Rightarrow> r)"

definition same_reports :: "session_row \<Rightarrow> session_row \<Rightarrow> bool" where
  "same_reports r r' \<longleftrightarrow> sn_lastSeq r' = sn_lastSeq r \<and> sn_latestExecution r' = sn_latestExecution r
     \<and> sn_reportingForkSeq r' = sn_reportingForkSeq r \<and> sn_approvalCorrupt r' = sn_approvalCorrupt r
     \<and> sn_invalidApprovals r' = sn_invalidApprovals r"

lemma upsert_views:
  assumes "\<And>r. sn_session (upd r) = sn_session r"
    and u: "upsert sn_session new guard upd (db_sessions db) = (changed, rows)"
    and db': "db_sessions db' = rows"
  shows "session_row_of k db' =
      (if k = sn_session new \<and> changed
       then Some (case session_row_of k db of None \<Rightarrow> new | Some r \<Rightarrow> upd r) else session_row_of k db)"
    and "changed = (case session_row_of (sn_session new) db of None \<Rightarrow> True | Some r \<Rightarrow> guard r)"
    and "distinct (map sn_session (db_sessions db)) \<Longrightarrow> distinct (map sn_session (db_sessions db'))"
  using row_where_upsert [OF assms(1) u, of k] upsert_changed [OF u] distinct_upsert [OF assms(1) u]
  by (simp_all add: session_row_of_def db')

text \<open>Only the row of session \<open>uid\<close>, and the clock, may differ.\<close>

definition sessions_only :: "string \<Rightarrow> sqlite_db \<Rightarrow> sqlite_db \<Rightarrow> bool" where
  "sessions_only uid db db' \<longleftrightarrow> db_events db' = db_events db \<and> db_executions db' = db_executions db
     \<and> db_calls db' = db_calls db \<and> db_harnesses db' = db_harnesses db \<and> db_reserved db' = db_reserved db
     \<and> (\<forall>k. k \<noteq> uid \<longrightarrow> session_row_of k db' = session_row_of k db)
     \<and> (distinct (map sn_session (db_sessions db)) \<longrightarrow> distinct (map sn_session (db_sessions db')))"

lemma sessions_only_db_ok: "sessions_only uid db db' \<Longrightarrow> db_ok db \<Longrightarrow> db_ok db'"
  by (simp add: sessions_only_def db_ok_def events_of_def)

lemma sessions_only_clock [simp]:
  "sessions_only uid db (db'\<lparr>db_clock := t\<rparr>) = sessions_only uid db db'"
  "sessions_only uid (db\<lparr>db_clock := t\<rparr>) db' = sessions_only uid db db'"
  by (simp_all add: sessions_only_def)

lemma sessions_only_refl [simp]: "sessions_only uid db db"
  by (simp add: sessions_only_def)

lemma upsert_sessions_only:
  assumes "\<And>r. sn_session (upd r) = sn_session r"
    and "upsert sn_session new guard upd (db_sessions db) = (changed, rows)"
    and "db' = db\<lparr>db_clock := t, db_sessions := rows\<rparr>"
  shows "sessions_only (sn_session new) db db'"
  using upsert_views(1,3) [OF assms(1,2), of db'] assms(3) by (simp add: sessions_only_def)

lemma Log_NewFence_cases:
  assumes "Log_NewFence env uid db = (res, db')"
  obtains (deleted) e where "res = Inl e" "errors_is e ErrDeleted" "sql_checkWritable uid db \<noteq> None"
      "db' = db\<lparr>db_clock := Suc (db_clock db)\<rparr>"
  | (minted) row where "res = Inr (sql_fence uid db + 1)" "sql_checkWritable uid db = None"
      "sn_session row = uid" "sn_fence row = sql_fence uid db + 1" "sn_deletionState row = DeletionActive"
      "\<And>k. session_row_of k db' = (if k = uid then Some row else session_row_of k db)"
      "sessions_only uid db db'" "same_reports (report_row uid db) row"
proof -
  let ?now = "sq_now env (db_clock db)"
  let ?new = "(default_row uid)\<lparr>sn_fence := 1, sn_project := sq_defaultProject env, sn_createdAt := ?now,
      sn_updatedAt := ?now\<rparr>"
  let ?upd = "\<lambda>r. r\<lparr>sn_fence := sn_fence r + 1, sn_project := fill (sq_defaultProject env) (sn_project r),
      sn_createdAt := fill_time ?now (sn_createdAt r), sn_updatedAt := ?now\<rparr>"
  obtain changed rows where u: "upsert sn_session ?new (\<lambda>r. sn_deletionState r = DeletionActive) ?upd (db_sessions db) = (changed, rows)"
    by fastforce
  have new: "sn_session ?new = uid" by (simp add: default_row_def)
  note eq = assms [unfolded Log_NewFence_def Let_def sql_now_def, simplified, unfolded u, simplified]
  note changed = upsert_views(2) [where db = db and db' = "db\<lparr>db_sessions := rows\<rparr>", OF _ u, simplified, unfolded new]
  show thesis
  proof (cases changed)
    case False
    with eq changed show thesis
      by (intro deleted) (auto simp: sql_checkWritable_def split: option.splits)
  next
    case True
    let ?row = "case session_row_of uid db of None \<Rightarrow> ?new | Some r \<Rightarrow> ?upd r"
    have row: "session_row_of k db' = (if k = uid then Some ?row else session_row_of k db)" for k
      using upsert_views(1) [where db = db and db' = db' and k = k, OF _ u] eq True new by auto
    have "row_where sn_session uid rows = session_row_of uid db'"
      using eq True by (auto simp: session_row_of_def)
    with row have f: "res = Inr (sn_fence ?row)" using eq True by auto
    show thesis
    proof (rule minted [of ?row])
      show "res = Inr (sql_fence uid db + 1)"
        using f by (simp add: sql_fence_def default_row_def split: option.splits)
      show "sql_checkWritable uid db = None" "sn_session ?row = uid" "sn_deletionState ?row = DeletionActive"
        using True changed row_where_Some [of sn_session uid "db_sessions db"]
        by (auto simp: sql_checkWritable_def default_row_def session_row_of_def split: option.splits)
      show "sn_fence ?row = sql_fence uid db + 1"
        by (simp add: sql_fence_def default_row_def split: option.splits)
      show "sessions_only uid db db'"
        using upsert_sessions_only [OF _ u, of db' "Suc (db_clock db)"] eq True new by simp
      show "same_reports (report_row uid db) ?row"
        by (simp add: same_reports_def report_row_def split: option.split)
    qed (use row eq True in auto)
  qed
qed

section \<open>Reading\<close>

lemma read_rows_Inr: "read_rows env rs = Inr out \<Longrightarrow> out = map (row_record env) rs"
  by (induction rs arbitrary: out) (auto simp: row_record_def split: sum.splits)

lemma read_rows_total: "(\<And>r. r \<in> set rs \<Longrightarrow> \<exists>e. sql_decode env (er_event r) = Inr e) \<Longrightarrow> \<exists>out. read_rows env rs = Inr out"
proof (induction rs)
  case (Cons r rs)
  obtain e where "sql_decode env (er_event r) = Inr e" using Cons.prems [of r] by auto
  moreover obtain out where "read_rows env rs = Inr out" using Cons by auto
  ultimately show ?case by simp
qed simp

lemma events_sorted:
  assumes "db_ok db"
  shows "sort_key er_seq (filter P (events_of uid db)) = filter P (events_of uid db)"
proof -
  have "map er_seq (events_of uid db) = map int [1..<Suc (length (events_of uid db))]"
    using assms by (simp add: db_ok_def event_numbers_ok_def)
  then have "sorted (map er_seq (events_of uid db))" by (simp add: sorted_map del: upt_Suc)
  then have "sorted (map er_seq (filter P (events_of uid db)))" by (rule sorted_filter)
  then show ?thesis by (rule sort_key_id_if_sorted)
qed

lemma Log_Read_recs:
  assumes "db_ok db" and "Log_Read env uid n db = Inr rs"
  shows "rs = filter (\<lambda>r. n \<le> r_seq r) (sql_recs env uid db)"
proof -
  have "rs = map (row_record env) (filter (\<lambda>r. n \<le> er_seq r) (events_of uid db))"
    using read_rows_Inr assms(2) by (simp add: Log_Read_def events_sorted [OF assms(1)])
  then show ?thesis by (simp add: sql_recs_def filter_map comp_def row_record_def)
qed

section \<open>The durable log is a store\<close>

interpretation sql: event_store "Store_Session env uid" "sql_recs env uid" "sql_fence uid" db_ok "sql_norm env"
  for env uid
proof (unfold_locales, goal_cases)
  case (1 s ex f e res s')
  then show ?case using Log_Append_ok by (auto simp: Store_Session_def)
next
  case (2 s ex f e r s')
  then have "Log_Append env uid ex f e s = (Inr r, s')" by (simp add: Store_Session_def)
  with 2(1) show ?case
  proof (cases rule: Log_Append_cases)
    case (appended r' blob t t')
    then show ?thesis
      using sql_head_recs [OF 2(1), of uid env]
      by (cases r) (auto simp: sealed_def sql_recs_def after_append_views row_record_def new_row_def sql_norm_def)
  qed simp
next
  case (3 s ex f e x s')
  then have "Log_Append env uid ex f e s = (Inl x, s')" by (simp add: Store_Session_def)
  with 3(1) show ?case by (cases rule: Log_Append_cases) auto
next
  case (4 s h)
  then show ?case using sql_head_recs by (simp add: Store_Session_def Log_Head_def)
next
  case (5 s n rs)
  then show ?case using Log_Read_recs by (simp add: Store_Session_def)
next
  case (6 s res' s')
  then have "Log_NewFence env uid s = (res', s')" by (simp add: Store_Session_def)
  then show ?case
    by (cases rule: Log_NewFence_cases) (use 6(1) sessions_only_db_ok in auto)
next
  case (7 s f s')
  then have "Log_NewFence env uid s = (Inr f, s')" by (simp add: Store_Session_def)
  then show ?case
    by (cases rule: Log_NewFence_cases) (auto simp: sql_fence_def sql_recs_def events_of_def sessions_only_def)
next
  case (8 s x s')
  then have "Log_NewFence env uid s = (Inl x, s')" by (simp add: Store_Session_def)
  then show ?case by (cases rule: Log_NewFence_cases) auto
next
  case (9 s)
  then show ?case by (rule recs_seqs_ok)
qed

end
