(* ===== verification/Sqlite_Ops.thy ===== *)
theory Sqlite_Ops
  imports Sqlite_Store
begin

text \<open>
  The other operations of the durable store, branch by branch: metadata writes, deletion, the harness
  registry.  Then any sequence of calls by any processes that share the database: the invariant is
  kept, sessions do not touch each other, the registry only grows, a deleted session is frozen.
\<close>

section \<open>The other operations\<close>

text \<open>\<open>frame uid db db'\<close>: everything outside session \<open>uid\<close> and the registry is as it was.\<close>

definition elsewhere :: "string \<Rightarrow> sqlite_db \<Rightarrow> sqlite_db \<Rightarrow> bool" where
  "elsewhere uid db db' \<longleftrightarrow>
     (\<forall>k. k \<noteq> uid \<longrightarrow> events_of k db' = events_of k db \<and> session_row_of k db' = session_row_of k db
        \<and> (\<forall>x. db_executions db' (k, x) = db_executions db (k, x))
        \<and> (\<forall>x c. db_calls db' (k, x, c) = db_calls db (k, x, c)))
     \<and> db_harnesses db' = db_harnesses db \<and> db_reserved db' = db_reserved db"

lemma elsewhere_clock [simp]:
  "elsewhere uid db (db'\<lparr>db_clock := t\<rparr>) = elsewhere uid db db'"
  by (simp add: elsewhere_def)

lemma elsewhere_refl [simp]: "elsewhere uid db db"
  by (simp add: elsewhere_def)

lemma after_append_elsewhere: "elsewhere uid db (after_append env uid ev r blob t db)"
proof -
  let ?a = "add_event uid r blob (db\<lparr>db_clock := t\<rparr>)"
  have rep: "reports_only uid (touchSession env uid ev ?a) (after_append env uid ev r blob t db)"
    by (simp add: after_append_def projectApproval_reports)
  have "db_executions (after_append env uid ev r blob t db) (k, x) = db_executions db (k, x)"
    "db_calls (after_append env uid ev r blob t db) (k, x, c) = db_calls db (k, x, c)" if "k \<noteq> uid" for k x c
    using rep that touchSession_views [where env = env and uid = uid and ev = ev and db = ?a]
    by (simp_all add: reports_only_def add_event_views)
  then show ?thesis by (simp add: elsewhere_def after_append_views)
qed

lemma Log_Append_elsewhere:
  "db_ok db \<Longrightarrow> Log_Append env uid ex f ev db = (res, db') \<Longrightarrow> elsewhere uid db db'"
  by (erule (1) Log_Append_cases) (simp_all add: after_append_elsewhere)

lemma Log_NewFence_ok:
  "db_ok db \<Longrightarrow> Log_NewFence env uid db = (res, db') \<Longrightarrow> db_ok db'"
  using sql.fence_invar [of db env uid res db'] by (simp add: Store_Session_def)

lemma sessions_only_elsewhere: "sessions_only uid db db' \<Longrightarrow> elsewhere uid db db'"
  by (simp add: sessions_only_def elsewhere_def events_of_def)

lemma Log_NewFence_sessions: "Log_NewFence env uid db = (res, db') \<Longrightarrow> sessions_only uid db db'"
  by (erule Log_NewFence_cases) auto

lemma putSession_cases:
  assumes "putSession env m db = (res, db')"
  obtains (refused) e t where "res = Some e" "sm_uid m \<noteq> [] \<Longrightarrow> errors_is e ErrDeleted" "db' = db\<lparr>db_clock := t\<rparr>"
      "sm_uid m = [] \<or> sql_checkWritable (sm_uid m) db \<noteq> None"
  | (put) now where "res = None" "sm_uid m \<noteq> []" "sql_checkWritable (sm_uid m) db = None"
      "\<And>k. session_row_of k db' = (if k = sm_uid m
         then Some (let m' = m\<lparr>sm_project := project_of env (sm_project m)\<rparr>;
                        created = (case sm_createdAt m of None \<Rightarrow> now | Some t \<Rightarrow> t)
                    in case session_row_of k db of
                         None \<Rightarrow> meta_row m' created now ((default_row (sm_uid m))\<lparr>sn_computeState := ComputeNone\<rparr>)
                       | Some r \<Rightarrow> meta_row m' (if sm_createdAt m \<noteq> None \<or> sn_createdAt r = 0 then created else sn_createdAt r) now r)
         else session_row_of k db)"
      "sessions_only (sm_uid m) db db'"
proof (cases "sm_uid m = []")
  case True
  with assms have "res = Some (ErrNew ''sqlitelog: session metadata requires a uid'')" "db' = db\<lparr>db_clock := db_clock db\<rparr>"
    by (simp_all add: putSession_def)
  with True show thesis by (intro refused [of _ "db_clock db"]) auto
next
  case False
  let ?m = "m\<lparr>sm_project := project_of env (sm_project m)\<rparr>"
  let ?now = "sq_now env (db_clock db)"
  let ?created = "case sm_createdAt m of None \<Rightarrow> ?now | Some t \<Rightarrow> t"
  let ?new = "meta_row ?m ?created ?now ((default_row (sm_uid m))\<lparr>sn_computeState := ComputeNone\<rparr>)"
  let ?upd = "\<lambda>r. meta_row ?m (if sm_createdAt m \<noteq> None \<or> sn_createdAt r = 0 then ?created else sn_createdAt r) ?now r"
  obtain changed rows where u: "upsert sn_session ?new (\<lambda>r. sn_deletionState r = DeletionActive) ?upd (db_sessions db) = (changed, rows)"
    by fastforce
  have new: "sn_session ?new = sm_uid m" and upd: "\<And>r. sn_session (?upd r) = sn_session r"
    by (simp_all add: meta_row_def)
  have eq: "(if changed then (None, db\<lparr>db_clock := Suc (db_clock db), db_sessions := rows\<rparr>)
      else (Some (errorf (''sqlitelog: put session '' @ format_q (sm_uid m) @ '': '') ErrDeleted []),
            db\<lparr>db_clock := Suc (db_clock db)\<rparr>)) = (res, db')"
    using assms False u by (simp add: putSession_def Let_def sql_now_def cong: if_cong)
  have changed: "changed = (sql_checkWritable (sm_uid m) db = None)"
    using upsert_views(2) [where db' = "db\<lparr>db_sessions := rows\<rparr>", OF upd u] new
    by (auto simp: sql_checkWritable_def split: option.splits)
  show thesis
  proof (cases changed)
    case False
    with eq changed \<open>sm_uid m \<noteq> []\<close> show thesis by (intro refused) auto
  next
    case True
    then have db': "db' = db\<lparr>db_clock := Suc (db_clock db), db_sessions := rows\<rparr>" and res: "res = None" using eq by auto
    show thesis
    proof (rule put [of ?now])
      show "sessions_only (sm_uid m) db db'" using upsert_sessions_only [OF upd u db'] new by simp
      fix k
      have "session_row_of k db' = (if k = sn_session ?new \<and> changed
          then Some (case session_row_of k db of None \<Rightarrow> ?new | Some r \<Rightarrow> ?upd r) else session_row_of k db)"
        by (rule upsert_views(1) [OF upd u]) (simp add: db')
      with True new show "session_row_of k db' = (if k = sm_uid m
         then Some (let m' = ?m; created = ?created
                    in case session_row_of k db of
                         None \<Rightarrow> meta_row m' created ?now ((default_row (sm_uid m))\<lparr>sn_computeState := ComputeNone\<rparr>)
                       | Some r \<Rightarrow> meta_row m' (if sm_createdAt m \<noteq> None \<or> sn_createdAt r = 0 then created else sn_createdAt r) ?now r)
         else session_row_of k db)" by (simp only: Let_def simp_thms)
    qed (use res True changed False in auto)
  qed
qed

lemma scanSession_clock [simp]: "scanSession (db\<lparr>db_clock := t\<rparr>) r = scanSession db r"
  by (simp add: scanSession_def pending_ref_def split: option.split)

lemma clock_commutes [simp]:
  "add_event uid r blob (db\<lparr>db_clock := t\<rparr>) = (add_event uid r blob db)\<lparr>db_clock := t\<rparr>"
  "update_session uid f (db\<lparr>db_clock := t\<rparr>) = (update_session uid f db)\<lparr>db_clock := t\<rparr>"
  by (simp_all add: add_event_def update_session_def)

lemma scanSession_fields [simp]:
  "si_deletionState (scanSession db r) = sn_deletionState r"
  "si_lastSeq (scanSession db r) = sql_head (sn_session r) db"
  by (simp_all add: scanSession_def)

lemma session_row_of_uid: "session_row_of uid db = Some r \<Longrightarrow> sn_session r = uid"
  using row_where_Some by (fastforce simp: session_row_of_def)

lemma update_session_row:
  assumes "\<And>r. sn_session (f r) = sn_session r"
  shows "session_row_of k (update_session uid f db) = (if k = uid then map_option f (session_row_of k db) else session_row_of k db)"
    and "map sn_session (db_sessions (update_session uid f db)) = map sn_session (db_sessions db)"
  by (simp_all add: session_row_of_def update_session_def row_where_update_where assms keys_update_where)

lemma delete_tx_cases:
  assumes ok: "db_ok db" and row: "session_row_of uid db = Some row" and info: "si_lastSeq info = sql_head uid db"
    and tx: "delete_tx env ctx uid info db = (res, db')"
  obtains (failed) e where "res = Inl e"
  | (marked) now r blob t where "sealed env uid (sn_fence row + 1) (delete_event now) db r"
      "sq_marshal env (EventToProto (cn_codec (sq_canon env)) (delete_event now)) = Inr blob"
      "db' = (update_session uid (mark_deleted now (sql_head uid db) r) (add_event uid r blob db))\<lparr>db_clock := t\<rparr>"
      "res = Inr (scanSession db' (mark_deleted now (sql_head uid db) r row))"
proof (cases "ctx (db_clock db)")
  case (Some e)
  with tx show thesis by (auto simp: delete_tx_def intro: failed)
next
  case None
  let ?now = "sq_now env (db_clock db)" and ?db1 = "db\<lparr>db_clock := Suc (db_clock db)\<rparr>"
  have fence: "sql_fence uid db = sn_fence row" using row by (simp add: sql_fence_def)
  obtain ares adb where a: "appendRecord env uid (sql_head uid ?db1) (sn_fence row + 1) (delete_event ?now) ?db1 = (ares, adb)"
    by fastforce
  from ok have "db_ok ?db1" by simp
  from this a show thesis
  proof (cases rule: appendRecord_cases)
    case (failed e)
    with tx None a fence info show thesis by (auto simp: delete_tx_def sql_now_def intro: that(1))
  next
    case (written r blob)
    let ?db2 = "update_session uid (mark_deleted ?now (sql_head uid db) r) adb"
    have row2: "session_row_of uid ?db2 = Some (mark_deleted ?now (sql_head uid db) r row)"
      using row written(4) by (simp add: update_session_row mark_deleted_def add_event_views)
    have "db' = ?db2" "res = Inr (scanSession ?db2 (mark_deleted ?now (sql_head uid db) r row))"
      using tx None a fence info written row2 by (auto simp: delete_tx_def sql_now_def txSessionInfo_def Let_def)
    moreover have "?db2 = (update_session uid (mark_deleted ?now (sql_head uid db) r) (add_event uid r blob db))\<lparr>db_clock := Suc (db_clock db)\<rparr>"
      using written(4) by (simp add: update_session_def add_event_def)
    ultimately show thesis using written by (intro marked [of ?now r blob "Suc (db_clock db)"]) auto
  qed
qed

lemma DeleteSession_cases:
  assumes ok: "db_ok db" and del: "DeleteSession env ctx uid db = (res, db')"
  obtains (refused) e t where "res = Inl e" "db' = db\<lparr>db_clock := t\<rparr>"
  | (again) row t where "res = Inr (scanSession db row)" "session_row_of uid db = Some row"
      "sn_deletionState row = DeletionPending" "db' = db\<lparr>db_clock := t\<rparr>"
  | (deleted) row now r blob t where "session_row_of uid db = Some row" "sn_deletionState row = DeletionActive"
      "sealed env uid (sn_fence row + 1) (delete_event now) db r"
      "sq_marshal env (EventToProto (cn_codec (sq_canon env)) (delete_event now)) = Inr blob"
      "db' = (update_session uid (mark_deleted now (sql_head uid db) r) (add_event uid r blob db))\<lparr>db_clock := t\<rparr>"
      "res = Inr (scanSession db' (mark_deleted now (sql_head uid db) r row))"
proof (cases "uid = []")
  case True
  with del have "res = Inl (ErrNew ''sqlitelog: delete session requires a uid'')" "db' = db\<lparr>db_clock := db_clock db\<rparr>"
    by (simp_all add: DeleteSession_def)
  then show thesis by (rule refused)
next
  case False
  let ?db1 = "db\<lparr>db_clock := Suc (db_clock db)\<rparr>"
  note eq = del [unfolded DeleteSession_def sql_attempt_def, simplified False if_False, simplified]
  show thesis
  proof (cases "sq_fault env (db_clock db)")
    case (Some e)
    with eq show thesis by (auto intro: refused)
  next
    case None
    show thesis
    proof (cases "session_row_of uid db")
      case None
      with eq \<open>sq_fault env (db_clock db) = None\<close> show thesis by (auto simp: txSessionInfo_def intro: refused)
    next
      case row: (Some row)
      show thesis
      proof (cases "sn_deletionState row")
        case DeletionPending
        with eq None row show thesis by (auto simp: txSessionInfo_def intro: again)
      next
        case (DeletionStateOther s)
        with eq None row show thesis by (auto simp: txSessionInfo_def intro: refused)
      next
        case DeletionActive
        obtain r2 db2 where tx: "delete_tx env ctx uid (scanSession db row) ?db1 = (r2, db2)" by fastforce
        from ok have ok1: "db_ok ?db1" by simp
        have eq': "(case r2 of Inl e \<Rightarrow> (Inl e, rollback_to ?db1 db2)
            | Inr out \<Rightarrow> (case sq_fault env (db_clock db2) of
                Some e \<Rightarrow> (Inl (delete_fail ctx uid ''commit intent'' e (Suc (db_clock db2))), rollback_to ?db1 (db2\<lparr>db_clock := Suc (db_clock db2)\<rparr>))
              | None \<Rightarrow> (Inr out, db2\<lparr>db_clock := Suc (db_clock db2)\<rparr>))) = (res, db')"
          using eq None row DeletionActive tx
          by (auto simp: txSessionInfo_def split: sum.splits option.splits)
        show thesis
        proof (rule delete_tx_cases [OF ok1 _ _ tx])
          fix e assume "r2 = Inl e"
          with eq' show thesis by (auto simp: rollback_to_def intro: refused)
        next
          fix now r blob t
          assume a: "sealed env uid (sn_fence row + 1) (delete_event now) ?db1 r"
            "sq_marshal env (EventToProto (cn_codec (sq_canon env)) (delete_event now)) = Inr blob"
            "db2 = (update_session uid (mark_deleted now (sql_head uid ?db1) r) (add_event uid r blob ?db1))\<lparr>db_clock := t\<rparr>"
            "r2 = Inr (scanSession db2 (mark_deleted now (sql_head uid ?db1) r row))"
          show thesis
          proof (cases "sq_fault env (db_clock db2)")
            case (Some e)
            with eq' a(4) show thesis by (auto simp: rollback_to_def intro: refused)
          next
            assume nf: "sq_fault env (db_clock db2) = None"
            have "db2 = (update_session uid (mark_deleted now (sql_head uid db) r) (add_event uid r blob db))\<lparr>db_clock := t\<rparr>"
              using a(3) by (simp add: update_session_def add_event_def)
            with eq' a nf row DeletionActive show thesis by (intro deleted [of row now r blob "Suc t"]) auto
          qed
        qed (use row session_row_of_uid [OF row] in simp_all)
      qed
    qed
  qed
qed

section \<open>The harness registry\<close>

definition active_row :: "harness_row \<Rightarrow> int64 \<Rightarrow> harness_row" where
  "active_row rec now = rec\<lparr>hr_state := HarnessActive, hr_retireReason := [], hr_retiredAt := 0,
     hr_createdAt := now, hr_updatedAt := now\<rparr>"

definition reactivated_row :: "int64 \<Rightarrow> harness_row \<Rightarrow> harness_row" where
  "reactivated_row now r = r\<lparr>hr_state := HarnessActive, hr_retireReason := [], hr_retiredAt := 0, hr_updatedAt := now\<rparr>"

definition harness_of :: "string \<Rightarrow> sqlite_db \<Rightarrow> harness_row option" where
  "harness_of name db = row_where hr_name name (db_harnesses db)"

lemma harness_of_name: "harness_of name db = Some r \<Longrightarrow> hr_name r = name"
  using row_where_Some by (fastforce simp: harness_of_def)

text \<open>Sessions and journals are not the registry's business.\<close>

definition registry_only :: "sqlite_db \<Rightarrow> sqlite_db \<Rightarrow> bool" where
  "registry_only db db' \<longleftrightarrow> db_sessions db' = db_sessions db \<and> db_events db' = db_events db
     \<and> db_executions db' = db_executions db \<and> db_calls db' = db_calls db"

text \<open>
  What no operation undoes: a reservation stays, and a registration keeps its name, its UID, its
  specification and its time of creation.
\<close>

definition registration :: "harness_row \<Rightarrow> string \<times> string \<times> string \<times> int64" where
  "registration r = (hr_uid r, hr_spec r, hr_specDigest r, hr_createdAt r)"

definition registry_grows :: "sqlite_db \<Rightarrow> sqlite_db \<Rightarrow> bool" where
  "registry_grows db db' \<longleftrightarrow>
     (\<forall>n. db_reserved db n \<noteq> None \<longrightarrow> db_reserved db' n \<noteq> None)
     \<and> (\<forall>n r. harness_of n db = Some r \<longrightarrow> (\<exists>r'. harness_of n db' = Some r' \<and> registration r' = registration r))"

lemma registry_grows_refl: "db_harnesses db' = db_harnesses db \<Longrightarrow> db_reserved db' = db_reserved db \<Longrightarrow> registry_grows db db'"
  by (simp add: registry_grows_def harness_of_def)

lemma registry_grows_trans: "registry_grows a b \<Longrightarrow> registry_grows b c \<Longrightarrow> registry_grows a c"
  unfolding registry_grows_def by metis

lemma RegisterHarness_cases:
  assumes "RegisterHarness env rec db = (res, db')"
  obtains (refused) e t where "res = Inl e" "db' = db\<lparr>db_clock := t\<rparr>"
  | (created) now t where "harness_of (hr_name rec) db = None" "db_reserved db (hr_name rec) = None"
      "res = Inr (active_row rec now, HarnessCreated)"
      "db' = db\<lparr>db_harnesses := db_harnesses db @ [active_row rec now], db_clock := t\<rparr>"
  | (unchanged) r t where "harness_of (hr_name rec) db = Some r" "hr_specDigest r = hr_specDigest rec"
      "hr_state r = HarnessActive" "res = Inr (r, HarnessUnchanged)" "db' = db\<lparr>db_clock := t\<rparr>"
      "db_reserved db (hr_name rec) = None"
  | (reactivated) r now t where "harness_of (hr_name rec) db = Some r" "hr_specDigest r = hr_specDigest rec"
      "hr_state r \<noteq> HarnessActive" "res = Inr (reactivated_row now r, HarnessReactivated)"
      "db' = (update_harness (hr_name rec) (reactivated_row now) db)\<lparr>db_clock := t\<rparr>"
      "db_reserved db (hr_name rec) = None"
proof (cases "hr_name rec = [] \<or> hr_uid rec = [] \<or> hr_spec rec = [] \<or> hr_specDigest rec = []")
  case True
  with assms have "res = Inl (ErrNew ''sqlitelog: harness registration needs name, uid, spec and digest'')"
    "db' = db\<lparr>db_clock := db_clock db\<rparr>" by (auto simp: RegisterHarness_def)
  then show thesis by (rule refused)
next
  case False
  let ?w = "wrap_error (''sqlitelog: register harness '' @ format_q (hr_name rec))"
  from assms False have "with_tx env ?w ?w (register_tx env rec) db = (res, db')"
    by (auto simp: RegisterHarness_def Let_def)
  then show thesis
  proof (cases rule: with_tx_cases)
    case (aborted e t)
    then show thesis by (rule refused)
  next
    case (committed x db2)
    let ?now = "sq_now env (Suc (db_clock db))"
    have nr: "db_reserved db (hr_name rec) = None"
      using committed(2) by (auto simp: register_tx_def nameReserved_def split: if_splits)
    show thesis
    proof (cases "harness_of (hr_name rec) db")
      case None
      then have "row_where hr_name (hr_name rec) (db_harnesses db @ [active_row rec ?now]) = Some (active_row rec ?now)"
        by (simp add: row_where_append row_where_Cons active_row_def harness_of_def)
      with committed None nr show thesis
        by (intro created [of ?now]) (auto simp: register_tx_def nameReserved_def sql_now_def Let_def harness_of_def
            harnessByName_def active_row_def)
    next
      case (Some r)
      note row = this [unfolded harness_of_def]
      have dg: "hr_specDigest r = hr_specDigest rec"
        using committed(2) nr row by (auto simp: register_tx_def nameReserved_def sql_now_def Let_def split: if_splits)
      show thesis
      proof (cases "hr_state r = HarnessActive")
        case True
        with committed Some nr dg row show thesis
          by (intro unchanged [of r]) (auto simp: register_tx_def nameReserved_def sql_now_def Let_def harnessByName_def)
      next
        assume retired: "hr_state r \<noteq> HarnessActive"
        have "row_where hr_name (hr_name rec) (update_where hr_name (hr_name rec) (reactivated_row ?now) (db_harnesses db))
            = Some (reactivated_row ?now r)"
          by (subst row_where_update_where) (simp_all add: reactivated_row_def row)
        moreover have "(\<lambda>r. r\<lparr>hr_state := HarnessActive, hr_retireReason := [], hr_retiredAt := 0, hr_updatedAt := ?now\<rparr>)
            = reactivated_row ?now" by (simp add: fun_eq_iff reactivated_row_def)
        ultimately show thesis using committed Some nr dg row retired
          by (intro reactivated [of r ?now]) (auto simp: register_tx_def nameReserved_def sql_now_def Let_def
              harnessByName_def update_harness_def)
      qed
    qed
  qed
qed

lemma harness_keys_ok:
  assumes ok: "db_ok db" and keys: "map hr_name (db_harnesses db') = map hr_name (db_harnesses db)"
    and "db_reserved db' = db_reserved db" "db_sessions db' = db_sessions db" "db_events db' = db_events db"
  shows "db_ok db'"
proof -
  have "hr_name ` set (db_harnesses db') = hr_name ` set (db_harnesses db)" using keys by (metis list.set_map)
  then have "\<forall>r \<in> set (db_harnesses db'). db_reserved db (hr_name r) = None"
    using ok unfolding db_ok_def by (metis (no_types, lifting) imageE imageI)
  with assms show ?thesis by (simp add: db_ok_def events_of_def)
qed

lemma RegisterHarness_effect:
  assumes ok: "db_ok db" and "RegisterHarness env rec db = (res, db')"
  shows "db_ok db' \<and> registry_only db db' \<and> registry_grows db db' \<and> db_reserved db' = db_reserved db"
  using assms(2)
proof (cases rule: RegisterHarness_cases)
  case (created now t)
  have n: "hr_name (active_row rec now) = hr_name rec" by (simp add: active_row_def)
  from created ok n have "db_ok db'"
    by (auto simp: db_ok_def events_of_def harness_of_def row_where_None)
  moreover have "registry_grows db db'"
    using created by (auto simp: registry_grows_def harness_of_def row_where_append)
  ultimately show ?thesis using created by (simp add: registry_only_def)
next
  case (reactivated r now t)
  have n: "\<And>r. hr_name (reactivated_row now r) = hr_name r" by (simp add: reactivated_row_def)
  have "map hr_name (db_harnesses db') = map hr_name (db_harnesses db)"
    using reactivated(5) by (simp add: update_harness_def keys_update_where n)
  then have "db_ok db'"
    by (rule harness_keys_ok [OF ok]) (use reactivated(5) in \<open>simp_all add: update_harness_def\<close>)
  moreover have "registry_grows db db'"
    using reactivated(5) by (auto simp: registry_grows_def harness_of_def update_harness_def row_where_update_where n
        registration_def reactivated_row_def)
  ultimately show ?thesis using reactivated by (simp add: registry_only_def update_harness_def)
qed (use ok in \<open>auto simp: registry_only_def registry_grows_def harness_of_def\<close>)


lemma reserve_names_effect:
  assumes "db_ok db" and "reserve_names now names db = (Inr u, db')"
  shows "db_ok db' \<and> registry_only db db' \<and> registry_grows db db' \<and> db_harnesses db' = db_harnesses db
    \<and> (\<forall>n \<in> set names. n \<noteq> [] \<and> db_reserved db' n \<noteq> None)"
  using assms
proof (induction names arbitrary: db)
  case Nil
  then show ?case by (simp add: registry_only_def registry_grows_refl)
next
  case (Cons n names)
  let ?db1 = "reserve now n db"
  from Cons.prems have n: "n \<noteq> []" "row_where hr_name n (db_harnesses db) = None"
    and rest: "reserve_names now names ?db1 = (Inr u, db')"
    by (auto split: if_splits)
  have ok1: "db_ok ?db1"
    using Cons.prems(1) n(2) by (auto simp: db_ok_def reserve_def events_of_def row_where_None split: option.splits)
  have grow: "registry_grows db ?db1" and only: "registry_only db ?db1" and same: "db_harnesses ?db1 = db_harnesses db"
    and res: "db_reserved ?db1 n \<noteq> None"
    by (auto simp: registry_grows_def registry_only_def reserve_def harness_of_def split: option.splits)
  from Cons.IH [OF ok1 rest] have IH: "db_ok db'" "registry_only ?db1 db'" "registry_grows ?db1 db'"
    "db_harnesses db' = db_harnesses ?db1" "\<forall>n \<in> set names. n \<noteq> [] \<and> db_reserved db' n \<noteq> None" by auto
  from IH(3) res have "db_reserved db' n \<noteq> None" by (simp add: registry_grows_def)
  with IH grow only same n(1) show ?case
    by (auto simp: registry_only_def intro: registry_grows_trans)
qed

lemma ReserveHarnessNames_effect:
  assumes ok: "db_ok db" and "ReserveHarnessNames env names db = (res, db')"
  shows "db_ok db' \<and> registry_only db db' \<and> registry_grows db db' \<and> db_harnesses db' = db_harnesses db"
proof -
  let ?w = "wrap_error ''sqlitelog: reserve harness names''"
  from assms(2) have "with_tx env ?w ?w (\<lambda>db. let (now, db) = sql_now env db in reserve_names now names db) db = (res, db')"
    by (simp add: ReserveHarnessNames_def Let_def)
  then show ?thesis
  proof (cases rule: with_tx_cases)
    case (committed x db2)
    let ?db1 = "db\<lparr>db_clock := Suc (Suc (db_clock db))\<rparr>"
    from committed(2) have "reserve_names (sq_now env (Suc (db_clock db))) names ?db1 = (Inr x, db2)"
      by (simp add: sql_now_def)
    from reserve_names_effect [OF _ this] ok committed(3) show ?thesis
      by (auto simp: registry_only_def registry_grows_def harness_of_def)
  qed (use ok in \<open>auto simp: registry_only_def registry_grows_def harness_of_def\<close>)
qed

definition retired_row :: "int64 \<Rightarrow> string \<Rightarrow> harness_row \<Rightarrow> harness_row" where
  "retired_row now reason r = (if hr_state r = HarnessActive
     then r\<lparr>hr_state := HarnessRetired, hr_retireReason := reason, hr_retiredAt := now, hr_updatedAt := now\<rparr> else r)"

lemma retired_row_fields [simp]: "hr_name (retired_row now reason r) = hr_name r"
  "registration (retired_row now reason r) = registration r"
  by (simp_all add: retired_row_def registration_def)

lemma RetireHarness_cases:
  assumes "RetireHarness env name reason db = (res, db')"
  obtains (refused) e t where "res = Inl e" "db' = db\<lparr>db_clock := t\<rparr>"
  | (retired) r now t where "harness_of name db = Some r" "res = Inr (retired_row now reason r)"
      "db' = (update_harness name (retired_row now reason) db)\<lparr>db_clock := t\<rparr>"
proof -
  let ?w = "wrap_error (''sqlitelog: retire harness '' @ format_q name)"
  from assms have "with_tx env ?w ?w (retire_tx env name reason) db = (res, db')"
    by (simp add: RetireHarness_def Let_def)
  then show thesis
  proof (cases rule: with_tx_cases)
    case (aborted e t)
    then show thesis by (rule refused)
  next
    case (committed x db2)
    let ?now = "sq_now env (Suc (db_clock db))"
    have f: "(\<lambda>r. if hr_state r = HarnessActive then r\<lparr>hr_state := HarnessRetired, hr_retireReason := reason,
        hr_retiredAt := ?now, hr_updatedAt := ?now\<rparr> else r) = retired_row ?now reason"
      by (simp add: fun_eq_iff retired_row_def)
    from committed(2) have db2: "db2 = update_harness name (retired_row ?now reason) (db\<lparr>db_clock := Suc (Suc (db_clock db))\<rparr>)"
      and x: "harnessByName name db2 = Inr x"
      by (auto simp: retire_tx_def sql_now_def f Let_def)
    have row: "row_where hr_name name (db_harnesses db2) = map_option (retired_row ?now reason) (harness_of name db)"
      using db2 by (simp add: update_harness_def row_where_update_where harness_of_def)
    with x obtain r where "harness_of name db = Some r" "x = retired_row ?now reason r"
      by (auto simp: harnessByName_def split: option.splits)
    with committed db2 show thesis
      by (intro retired [of r ?now]) (auto simp: update_harness_def)
  qed
qed

lemma RetireHarness_effect:
  assumes ok: "db_ok db" and "RetireHarness env name reason db = (res, db')"
  shows "db_ok db' \<and> registry_only db db' \<and> registry_grows db db' \<and> db_reserved db' = db_reserved db"
  using assms(2)
proof (cases rule: RetireHarness_cases)
  case (retired r now t)
  have keys: "map hr_name (db_harnesses db') = map hr_name (db_harnesses db)"
    using retired(3) by (simp add: update_harness_def keys_update_where)
  have "registry_grows db db'"
    using retired(3) by (auto simp: registry_grows_def harness_of_def update_harness_def row_where_update_where)
  with harness_keys_ok [OF ok keys] retired(3) show ?thesis
    by (simp add: registry_only_def update_harness_def events_of_def)
qed (use ok in \<open>auto simp: registry_only_def registry_grows_def harness_of_def\<close>)

section \<open>Any sequence of calls\<close>

lemma PutSessionOnActiveHarness_cases:
  assumes "PutSessionOnActiveHarness env m registered db = (res, db')"
  obtains (refused) e t where "res = Inl e" "db' = db\<lparr>db_clock := t\<rparr>"
  | (put) db2 t where "res = Inr ()" "putSession env m (db\<lparr>db_clock := Suc (db_clock db)\<rparr>) = (None, db2)"
      "db' = db2\<lparr>db_clock := t\<rparr>" "sql_checkWritable (sm_uid m) db = None"
      "registered \<longleftrightarrow> harness_of (sm_harness m) db \<noteq> None"
      "\<And>r. harness_of (sm_harness m) db = Some r \<Longrightarrow> hr_state r = HarnessActive"
proof -
  let ?w = "wrap_error (''sqlitelog: put session '' @ format_q (sm_uid m))"
  from assms have "with_tx env ?w ?w (put_on_harness_tx env m registered) db = (res, db')"
    by (simp add: PutSessionOnActiveHarness_def Let_def)
  then show thesis
  proof (cases rule: with_tx_cases)
    case (aborted e t)
    then show thesis by (rule refused)
  next
    case (committed x db2)
    from committed(2) have "putSession env m (db\<lparr>db_clock := Suc (db_clock db)\<rparr>) = (None, db2)"
      "sql_checkWritable (sm_uid m) db = None"
      "registered \<longleftrightarrow> harness_of (sm_harness m) db \<noteq> None"
      "\<And>r. harness_of (sm_harness m) db = Some r \<Longrightarrow> hr_state r = HarnessActive"
      by (auto simp: put_on_harness_tx_def harnessByName_def harness_of_def Let_def
          split: option.splits if_splits prod.splits)
    with committed show thesis by (intro put) auto
  qed
qed

text \<open>
  Callers of the store interleave: a call is any operation with any arguments, by any process that
  shares the database.
\<close>

datatype db_call =
    DbAppend string int64 int64 event
  | DbNewFence string
  | DbPutSession session_meta
  | DbDeleteSession "nat \<Rightarrow> goerr option" string
  | DbRegisterHarness harness_row
  | DbReserveHarnessNames "string list"
  | DbRetireHarness string string
  | DbPutSessionOnActiveHarness session_meta bool

fun db_step :: "sql_env \<Rightarrow> db_call \<Rightarrow> sqlite_db \<Rightarrow> sqlite_db" where
  "db_step env (DbAppend uid ex f ev) db = snd (Log_Append env uid ex f ev db)"
| "db_step env (DbNewFence uid) db = snd (Log_NewFence env uid db)"
| "db_step env (DbPutSession m) db = snd (PutSession env m db)"
| "db_step env (DbDeleteSession ctx uid) db = snd (DeleteSession env ctx uid db)"
| "db_step env (DbRegisterHarness rec) db = snd (RegisterHarness env rec db)"
| "db_step env (DbReserveHarnessNames names) db = snd (ReserveHarnessNames env names db)"
| "db_step env (DbRetireHarness name reason) db = snd (RetireHarness env name reason db)"
| "db_step env (DbPutSessionOnActiveHarness m registered) db = snd (PutSessionOnActiveHarness env m registered db)"

definition db_run :: "sql_env \<Rightarrow> db_call list \<Rightarrow> sqlite_db \<Rightarrow> sqlite_db" where
  "db_run env cs db = fold (db_step env) cs db"

text \<open>The session a call may write to, if any.\<close>

fun call_session :: "db_call \<Rightarrow> string option" where
  "call_session (DbAppend uid _ _ _) = Some uid"
| "call_session (DbNewFence uid) = Some uid"
| "call_session (DbPutSession m) = Some (sm_uid m)"
| "call_session (DbDeleteSession _ uid) = Some uid"
| "call_session (DbPutSessionOnActiveHarness m _) = Some (sm_uid m)"
| "call_session _ = None"

lemma putSession_sessions: "putSession env m db = (res, db') \<Longrightarrow> sessions_only (sm_uid m) db db'"
  by (erule putSession_cases) auto

lemma put_on_harness_sessions:
  "PutSessionOnActiveHarness env m registered db = (res, db') \<Longrightarrow> sessions_only (sm_uid m) db db'"
  by (erule PutSessionOnActiveHarness_cases) (auto dest: putSession_sessions)

text \<open>The tables after an admitted deletion.\<close>

lemma mark_deleted_session [simp]: "sn_session (mark_deleted now h r row) = sn_session row"
  by (simp add: mark_deleted_def)

lemma deleted_views:
  fixes uid now h r blob db
  defines "db' \<equiv> update_session uid (mark_deleted now h r) (add_event uid r blob db)"
  shows "events_of k db' = events_of k db @ (if k = uid then [new_row uid r blob] else [])"
    and "session_row_of k db' = (if k = uid then map_option (mark_deleted now h r) (session_row_of k db) else session_row_of k db)"
    and "db_executions db' = db_executions db" and "db_calls db' = db_calls db"
    and "db_harnesses db' = db_harnesses db" and "db_reserved db' = db_reserved db"
    and "map sn_session (db_sessions db') = map sn_session (db_sessions db)"
proof -
  show "events_of k db' = events_of k db @ (if k = uid then [new_row uid r blob] else [])"
    using add_event_views(1) [of k uid r blob db] by (simp add: db'_def update_session_def events_of_def)
  show "session_row_of k db' = (if k = uid then map_option (mark_deleted now h r) (session_row_of k db) else session_row_of k db)"
    "map sn_session (db_sessions db') = map sn_session (db_sessions db)"
    by (simp_all add: db'_def update_session_row add_event_views)
qed (simp_all add: db'_def update_session_def add_event_views)

lemma DeleteSession_effect:
  assumes ok: "db_ok db" and "DeleteSession env ctx uid db = (res, db')"
  shows "db_ok db' \<and> elsewhere uid db db'"
  using assms
proof (cases rule: DeleteSession_cases)
  case (deleted row now r blob t)
  let ?db = "update_session uid (mark_deleted now (sql_head uid db) r) (add_event uid r blob db)"
  have "db_ok ?db"
    by (rule add_row_ok [OF ok deleted_views(1)])
      (use ok deleted(3) in \<open>simp_all add: sealed_def deleted_views db_ok_def\<close>)
  then show ?thesis using deleted(5) by (simp add: elsewhere_def deleted_views)
qed (use ok in auto)

lemma to_snd: "p = (fst p, snd p)"
  by simp

lemma db_step_effect:
  assumes "db_ok db"
  shows "db_ok (db_step env c db)" and "call_session c = Some uid \<Longrightarrow> elsewhere uid db (db_step env c db)"
    and "call_session c = None \<Longrightarrow> registry_only db (db_step env c db)"
    and "registry_grows db (db_step env c db)"
proof -
  have "db_ok (db_step env c db) \<and>
      (case call_session c of Some uid \<Rightarrow> elsewhere uid db (db_step env c db) | None \<Rightarrow>
         registry_only db (db_step env c db) \<and> registry_grows db (db_step env c db))"
  proof (cases c)
    case (DbAppend uid ex f ev)
    then show ?thesis using Log_Append_ok [OF assms to_snd] Log_Append_elsewhere [OF assms to_snd] by simp
  next
    case (DbNewFence uid)
    have "sessions_only uid db (db_step env c db)" using DbNewFence Log_NewFence_sessions [OF to_snd] by simp
    with DbNewFence assms show ?thesis using sessions_only_db_ok sessions_only_elsewhere by auto
  next
    case (DbPutSession m)
    have "sessions_only (sm_uid m) db (db_step env c db)"
      using DbPutSession putSession_sessions [OF to_snd] by (simp add: PutSession_def)
    with DbPutSession assms show ?thesis using sessions_only_db_ok sessions_only_elsewhere by auto
  next
    case (DbDeleteSession ctx uid)
    then show ?thesis using DeleteSession_effect [OF assms to_snd] by simp
  next
    case (DbRegisterHarness rec)
    then show ?thesis using RegisterHarness_effect [OF assms to_snd] by simp
  next
    case (DbReserveHarnessNames names)
    then show ?thesis using ReserveHarnessNames_effect [OF assms to_snd] by simp
  next
    case (DbRetireHarness name reason)
    then show ?thesis using RetireHarness_effect [OF assms to_snd] by simp
  next
    case (DbPutSessionOnActiveHarness m registered)
    have "sessions_only (sm_uid m) db (db_step env c db)"
      using DbPutSessionOnActiveHarness put_on_harness_sessions [OF to_snd] by simp
    with DbPutSessionOnActiveHarness assms show ?thesis using sessions_only_db_ok sessions_only_elsewhere by auto
  qed
  then show "db_ok (db_step env c db)" "call_session c = Some uid \<Longrightarrow> elsewhere uid db (db_step env c db)"
    "call_session c = None \<Longrightarrow> registry_only db (db_step env c db)" "registry_grows db (db_step env c db)"
    by (auto simp: elsewhere_def intro: registry_grows_refl split: option.splits)
qed

lemma db_run_effect:
  assumes "db_ok db"
  shows "db_ok (db_run env cs db) \<and> registry_grows db (db_run env cs db)"
  using assms
proof (induction cs arbitrary: db)
  case Nil
  then show ?case by (simp add: db_run_def registry_grows_refl)
next
  case (Cons c cs)
  from Cons.IH [OF db_step_effect(1) [OF Cons.prems], of env c] db_step_effect(4) [OF Cons.prems, of env c]
  show ?case by (auto simp: db_run_def elim: registry_grows_trans)
qed

section \<open>Deletion is final\<close>

text \<open>Everything the database holds about one session.\<close>

definition same_session_data :: "string \<Rightarrow> sqlite_db \<Rightarrow> sqlite_db \<Rightarrow> bool" where
  "same_session_data uid db db' \<longleftrightarrow> events_of uid db' = events_of uid db \<and> session_row_of uid db' = session_row_of uid db
     \<and> (\<forall>x. db_executions db' (uid, x) = db_executions db (uid, x))
     \<and> (\<forall>x c. db_calls db' (uid, x, c) = db_calls db (uid, x, c))"

lemma same_session_data_refl [simp]: "same_session_data uid db db"
  by (simp add: same_session_data_def)

lemma same_session_data_trans: "same_session_data uid a b \<Longrightarrow> same_session_data uid b c \<Longrightarrow> same_session_data uid a c"
  by (simp add: same_session_data_def)

lemma same_session_data_clock [simp]: "same_session_data uid db (db'\<lparr>db_clock := t\<rparr>) = same_session_data uid db db'"
  by (simp add: same_session_data_def)

lemma same_session_writable: "same_session_data uid db db' \<Longrightarrow> sql_checkWritable uid db' = sql_checkWritable uid db"
  by (simp add: same_session_data_def sql_checkWritable_def)

lemma not_writable: "sql_checkWritable uid db \<noteq> None \<longleftrightarrow>
    (\<exists>row. session_row_of uid db = Some row \<and> sn_deletionState row \<noteq> DeletionActive)"
  by (auto simp: sql_checkWritable_def split: option.splits)

lemma deleted_step:
  assumes ok: "db_ok db" and gone: "sql_checkWritable uid db \<noteq> None"
  shows "same_session_data uid db (db_step env c db)"
proof (cases "call_session c = Some uid")
  case False
  then show ?thesis
    using db_step_effect(2) [OF ok] db_step_effect(3) [OF ok]
    by (cases "call_session c") (auto simp: elsewhere_def registry_only_def same_session_data_def events_of_def session_row_of_def)
next
  case True
  show ?thesis
  proof (cases c)
    case (DbAppend u ex f ev)
    obtain res db' where a: "Log_Append env uid ex f ev db = (res, db')" by fastforce
    from ok this show ?thesis by (cases rule: Log_Append_cases) (use True DbAppend a gone in auto)
  next
    case (DbNewFence u)
    obtain res db' where a: "Log_NewFence env uid db = (res, db')" by fastforce
    then show ?thesis by (cases rule: Log_NewFence_cases) (use True DbNewFence a gone in auto)
  next
    case (DbPutSession m)
    obtain res db' where a: "putSession env m db = (res, db')" by fastforce
    then show ?thesis by (cases rule: putSession_cases) (use True DbPutSession a gone in \<open>auto simp: PutSession_def\<close>)
  next
    case (DbDeleteSession ctx u)
    obtain res db' where a: "DeleteSession env ctx uid db = (res, db')" by fastforce
    from ok this show ?thesis
      by (cases rule: DeleteSession_cases) (use True DbDeleteSession a gone in \<open>auto simp: sql_checkWritable_def\<close>)
  next
    case (DbPutSessionOnActiveHarness m registered)
    obtain res db' where a: "PutSessionOnActiveHarness env m registered db = (res, db')" by fastforce
    then show ?thesis
      by (cases rule: PutSessionOnActiveHarness_cases) (use True DbPutSessionOnActiveHarness a gone in auto)
  qed (use True in auto)
qed

lemma deleted_run:
  assumes "db_ok db" and "sql_checkWritable uid db \<noteq> None"
  shows "same_session_data uid db (db_run env cs db)"
  using assms
proof (induction cs arbitrary: db)
  case (Cons c cs)
  let ?db = "db_step env c db"
  have s: "same_session_data uid db ?db" by (rule deleted_step [OF Cons.prems])
  then have "sql_checkWritable uid ?db \<noteq> None" using Cons.prems(2) by (simp add: same_session_writable)
  from Cons.IH [OF db_step_effect(1) [OF Cons.prems(1)] this] s show ?case
    by (auto simp: db_run_def intro: same_session_data_trans)
qed (simp add: db_run_def)

lemma same_session_info:
  assumes "same_session_data uid db db'" and "session_row_of uid db = Some row"
  shows "scanSession db' row = scanSession db row"
  using assms session_row_of_uid [OF assms(2)]
  by (simp add: same_session_data_def scanSession_def pending_ref_def sql_head_def split: option.split)

end
