(* ===== verification/Sqlite_Props.thy ===== *)
theory Sqlite_Props
  imports Sqlite_Ops "HOL-Library.Sublist"
begin

text \<open>
  What the durable store promises: it refines the in-memory log, its journals always verify, deletion
  is final, and the registry of harness names is settled once and for all.
\<close>

lemma DeleteSession_gone:
  assumes ok: "db_ok db" and "DeleteSession env ctx uid db = (Inr info, db')"
  obtains row where "session_row_of uid db' = Some row" "sn_deletionState row = DeletionPending"
    "info = scanSession db' row" "uid \<noteq> []"
proof -
  have ne: "uid \<noteq> []" using assms(2) by (auto simp: DeleteSession_def)
  from assms show thesis
  proof (cases rule: DeleteSession_cases)
    case (again row t)
    with ne show thesis by (intro that [of row]) auto
  next
    case (deleted row now r blob t)
    then show thesis
      using ne by (intro that [of "mark_deleted now (sql_head uid db) r row"])
        (auto simp: deleted_views, simp add: mark_deleted_def)
  qed simp
qed

lemma DeleteSession_again:
  assumes "session_row_of uid db = Some row" and "sn_deletionState row = DeletionPending" and "uid \<noteq> []"
    and "sq_fault env (db_clock db) = None"
  shows "fst (DeleteSession env ctx uid db) = Inr (scanSession db row)"
  using assms by (simp add: DeleteSession_def sql_attempt_def txSessionInfo_def)

text \<open>
  Deletion is final.  Once \<^verbatim>\<open>DeleteSession\<close> has returned a session, no sequence of calls by any
  process changes anything the database holds about it; appends, fence mints and metadata writes to it
  fail, the last two with \<^verbatim>\<open>ErrDeleted\<close>; and a retried \<^verbatim>\<open>DeleteSession\<close> returns the first answer.
\<close>

theorem deletion_is_final:
  fixes cs :: "db_call list"
  assumes "db_ok db" and "DeleteSession env ctx uid db = (Inr info, db1)"
  defines "db2 \<equiv> db_run env cs db1"
  shows "si_deletionState info = DeletionPending
    \<and> same_session_data uid db1 db2
    \<and> (\<exists>e. fst (Log_Append env uid ex f ev db2) = Inl e)
    \<and> (\<exists>e. fst (Log_NewFence env uid db2) = Inl e \<and> errors_is e ErrDeleted)
    \<and> (\<exists>e. fst (PutSession env (m\<lparr>sm_uid := uid\<rparr>) db2) = Some e \<and> errors_is e ErrDeleted)
    \<and> (sq_fault env (db_clock db2) = None \<longrightarrow> fst (DeleteSession env ctx' uid db2) = Inr info)"
proof -
  obtain row where row: "session_row_of uid db1 = Some row" "sn_deletionState row = DeletionPending"
    "info = scanSession db1 row" "uid \<noteq> []"
    using DeleteSession_gone [OF assms(1,2)] by blast
  have ok1: "db_ok db1" using DeleteSession_effect [OF assms(1,2)] by simp
  have gone: "sql_checkWritable uid db1 \<noteq> None" using row by (simp add: sql_checkWritable_def)
  have same: "same_session_data uid db1 db2" unfolding db2_def by (rule deleted_run [OF ok1 gone])
  have ok2: "db_ok db2" using db_run_effect [OF ok1] by (simp add: db2_def)
  have gone2: "sql_checkWritable uid db2 \<noteq> None" using gone same_session_writable [OF same] by simp
  have row2: "session_row_of uid db2 = Some row" using same row(1) by (simp add: same_session_data_def)
  have "\<exists>e. fst (Log_Append env uid ex f ev db2) = Inl e"
    using Log_Append_cases [OF ok2 to_snd, of env uid ex f ev] gone2 by metis
  moreover have "\<exists>e. fst (Log_NewFence env uid db2) = Inl e \<and> errors_is e ErrDeleted"
    using Log_NewFence_cases [OF to_snd, of env uid db2] gone2 by metis
  moreover have "\<exists>e. fst (PutSession env (m\<lparr>sm_uid := uid\<rparr>) db2) = Some e \<and> errors_is e ErrDeleted"
    using putSession_cases [OF to_snd, of env "m\<lparr>sm_uid := uid\<rparr>" db2] gone2 row(4)
    by (auto simp: PutSession_def)
  moreover have "sq_fault env (db_clock db2) = None \<longrightarrow> fst (DeleteSession env ctx' uid db2) = Inr info"
    using DeleteSession_again [OF row2 row(2,4)] same_session_info [OF same row(1)] row(3) by simp
  ultimately show ?thesis using same row by simp
qed

section \<open>Integrity\<close>

text \<open>
  What is asked of \<^verbatim>\<open>proto.Marshal\<close> and \<^verbatim>\<open>proto.Unmarshal\<close>: the bytes of a message decode to the message.
\<close>

definition marshal_ok :: "sql_env \<Rightarrow> bool" where
  "marshal_ok env \<longleftrightarrow> (\<forall>e b. wire_normal e \<longrightarrow> sq_marshal env (EventToProto (cn_codec (sq_canon env)) e) = Inr b \<longrightarrow>
     sq_unmarshal env b = Inr (EventToProto (cn_codec (sq_canon env)) e))"

definition env_ok :: "sql_env \<Rightarrow> bool" where
  "env_ok env \<longleftrightarrow> codec_ok (cn_codec (sq_canon env)) \<and> marshal_ok env"

lemma stored_decodes:
  assumes "env_ok env" and "wire_normal e" and "sq_marshal env (EventToProto (cn_codec (sq_canon env)) e) = Inr b"
  shows "sql_decode env b = Inr e" and "sql_norm env e = e"
proof -
  show "sql_decode env b = Inr e"
    using assms wire_norm_id [of "cn_codec (sq_canon env)" e]
    by (simp add: sql_decode_def env_ok_def marshal_ok_def wire_norm_def)
  then show "sql_norm env e = e" using assms(3) by (simp add: sql_norm_def)
qed

lemma wire_normal_delete: "wire_normal (delete_event now)"
  by (simp add: wire_normal_def delete_event_def zero_event_def normal_lifecycle_def)

lemma sql_verify_None: "sql_verify_from cn prev rs = None \<longleftrightarrow> chain_from cn prev rs"
  by (induction cn prev rs rule: sql_verify_from.induct) (auto split: sum.splits)

text \<open>A session's journal decodes and is a chain.\<close>

definition intact :: "sql_env \<Rightarrow> string \<Rightarrow> sqlite_db \<Rightarrow> bool" where
  "intact env uid db \<longleftrightarrow> chain_from (sq_canon env) [] (sql_recs env uid db)
     \<and> (\<forall>r \<in> set (events_of uid db). \<exists>e. sql_decode env (er_event r) = Inr e)"

lemma intact_read:
  assumes "db_ok db" and "intact env uid db"
  shows "Log_Read env uid n db = Inr (filter (\<lambda>r. n \<le> r_seq r) (sql_recs env uid db))"
proof -
  obtain out where "read_rows env (filter (\<lambda>r. n \<le> er_seq r) (events_of uid db)) = Inr out"
    using read_rows_total [of "filter (\<lambda>r. n \<le> er_seq r) (events_of uid db)" env] assms(2) by (auto simp: intact_def)
  then have "Log_Read env uid n db = Inr out" by (simp add: Log_Read_def events_sorted [OF assms(1)])
  with Log_Read_recs [OF assms(1) this] show ?thesis by simp
qed

lemma intact_verify: "db_ok db \<Longrightarrow> intact env uid db \<Longrightarrow> Log_Verify env uid db = None"
  by (simp add: Log_Verify_def intact_read sql_verify_None seqs_ok_read_all [OF recs_seqs_ok] intact_def)

lemma intact_same_events: "events_of uid db' = events_of uid db \<Longrightarrow> intact env uid db \<Longrightarrow> intact env uid db'"
  by (simp add: intact_def sql_recs_def)

lemma intact_add:
  assumes "env_ok env" and "wire_normal ev" and "sealed env uid f ev db r"
    and "sq_marshal env (EventToProto (cn_codec (sq_canon env)) ev) = Inr blob"
    and "events_of k db' = events_of k db @ (if k = uid then [new_row uid r blob] else [])"
    and "intact env k db"
  shows "intact env k db'"
proof (cases "k = uid")
  case True
  have d: "sql_decode env blob = Inr ev" by (rule stored_decodes(1) [OF assms(1,2,4)])
  have rec: "row_record env (new_row uid r blob) = r"
    using assms(3) d by (cases r) (simp add: row_record_def new_row_def sealed_def)
  have "sql_recs env k db' = sql_recs env k db @ [r]" using assms(5) True rec by (simp add: sql_recs_def)
  moreover have "chain_from (sq_canon env) [] (sql_recs env k db @ [r])"
    using assms(3,6) True by (simp add: chain_from_snoc intact_def sealed_def)
  ultimately show ?thesis using assms(5,6) True d by (auto simp: intact_def new_row_def)
qed (use assms(5,6) intact_same_events in simp)

fun call_normal :: "db_call \<Rightarrow> bool" where
  "call_normal (DbAppend _ _ _ ev) = wire_normal ev"
| "call_normal _ = True"

lemma intact_step:
  assumes env: "env_ok env" and ok: "db_ok db" and c: "call_normal c" and i: "intact env uid db"
  shows "intact env uid (db_step env c db)"
proof (cases c)
  case (DbAppend u ex f ev)
  obtain res db' where a: "Log_Append env u ex f ev db = (res, db')" by fastforce
  from ok this show ?thesis
  proof (cases rule: Log_Append_cases)
    case (appended r blob t t')
    have "intact env uid (after_append env u ev r blob t db)"
      using intact_add [OF env _ appended(2,3) after_append_views(1) i] c DbAppend by simp
    then show ?thesis using DbAppend a appended intact_same_events by simp
  qed (use DbAppend a i intact_same_events in auto)
next
  case (DbDeleteSession ctx u)
  obtain res db' where a: "DeleteSession env ctx u db = (res, db')" by fastforce
  from ok this show ?thesis
  proof (cases rule: DeleteSession_cases)
    case (deleted row now r blob t)
    have "intact env uid (update_session u (mark_deleted now (sql_head u db) r) (add_event u r blob db))"
      by (rule intact_add [OF env wire_normal_delete deleted(3,4) deleted_views(1) i])
    then show ?thesis using DbDeleteSession a deleted(5) intact_same_events by simp
  qed (use DbDeleteSession a i intact_same_events in auto)
next
  case (DbNewFence u)
  then show ?thesis using Log_NewFence_sessions [OF to_snd [of "Log_NewFence env u db"]] i
    by (intro intact_same_events [OF _ i]) (simp add: sessions_only_def events_of_def)
next
  case (DbPutSession m)
  then show ?thesis using putSession_sessions [OF to_snd [of "putSession env m db"]] i
    by (intro intact_same_events [OF _ i]) (simp add: sessions_only_def events_of_def PutSession_def)
next
  case (DbPutSessionOnActiveHarness m b)
  then show ?thesis using put_on_harness_sessions [OF to_snd [of "PutSessionOnActiveHarness env m b db"]] i
    by (intro intact_same_events [OF _ i]) (simp add: sessions_only_def events_of_def)
qed (use db_step_effect(3) [OF ok, of c env] i in \<open>auto intro!: intact_same_events [OF _ i] simp: registry_only_def events_of_def\<close>)

lemma intact_run:
  "env_ok env \<Longrightarrow> db_ok db \<Longrightarrow> list_all call_normal cs \<Longrightarrow> intact env uid db \<Longrightarrow> intact env uid (db_run env cs db)"
proof (induction cs arbitrary: db)
  case (Cons c cs)
  then show ?case
    using intact_step [of env db c uid] db_step_effect(1) [of db env c] by (simp add: db_run_def)
qed (simp add: db_run_def)

section \<open>Refinement of the in-memory log\<close>

definition sql_abs :: "sql_env \<Rightarrow> string \<Rightarrow> sqlite_db \<Rightarrow> log" where
  "sql_abs env uid db = \<lparr>log_records = sql_recs env uid db, log_fence = sql_fence uid db\<rparr>"

lemma sql_abs_clock [simp]: "sql_abs env uid (db\<lparr>db_clock := t\<rparr>) = sql_abs env uid db"
  by (simp add: sql_abs_def)

lemma Head_sql_abs: "db_ok db \<Longrightarrow> Head (sql_abs env uid db) = sql_head uid db"
  using sql_head_recs [of db uid env] by (simp add: Head_def sql_abs_def)

lemma append_refines:
  assumes "env_ok env" and "db_ok db" and "wire_normal ev" and "Log_Append env uid ex f ev db = (res, db')"
  shows "(case res of Inr r \<Rightarrow> Append (sq_canon env) ex f ev (sql_abs env uid db) = (Inr r, sql_abs env uid db')
     | Inl _ \<Rightarrow> sql_abs env uid db' = sql_abs env uid db)"
  using assms(2,4)
proof (cases rule: Log_Append_cases)
  case (appended r blob t t')
  have d: "sql_decode env blob = Inr ev" by (rule stored_decodes(1) [OF assms(1,3) appended(3)])
  have "sql_recs env uid db' = sql_recs env uid db @ [r]"
    using appended d by (cases r) (simp add: sql_recs_def after_append_views row_record_def new_row_def sealed_def)
  with appended Head_sql_abs [OF assms(2), of env uid] show ?thesis
    by (cases r) (auto simp: Append_def Let_def sql_abs_def sealed_def after_append_views)
qed auto

lemma fence_refines:
  assumes "Log_NewFence env uid db = (res, db')"
  shows "(case res of Inr f \<Rightarrow> NewFence (sql_abs env uid db) = (f, sql_abs env uid db')
     | Inl _ \<Rightarrow> sql_abs env uid db' = sql_abs env uid db)"
  using assms
  by (cases rule: Log_NewFence_cases)
    (auto simp: NewFence_def sql_abs_def sql_fence_def sql_recs_def sessions_only_def events_of_def)

text \<open>A driver that never fails, and events this store admits.\<close>

definition faultless :: "sql_env \<Rightarrow> bool" where
  "faultless env \<longleftrightarrow> (\<forall>n. sq_fault env n = None)"

definition admissible :: "sql_env \<Rightarrow> event \<Rightarrow> bool" where
  "admissible env ev \<longleftrightarrow> ev_kind ev \<noteq> EventParked \<and> \<not> is_delete_event ev
     \<and> \<not> isl (sq_marshal env (EventToProto (cn_codec (sq_canon env)) ev))"

lemma with_tx_faultless:
  "faultless env \<Longrightarrow> fst (with_tx env wB wC body db) = fst (body (db\<lparr>db_clock := Suc (db_clock db)\<rparr>))"
  by (auto simp: with_tx_def sql_attempt_def faultless_def split: prod.splits sum.splits)

lemma append_accepted:
  assumes "faultless env" and "db_ok db" and "admissible env ev" and "sql_checkWritable uid db = None"
    and "Append (sq_canon env) ex f ev (sql_abs env uid db) = (Inr r, l')"
  shows "fst (Log_Append env uid ex f ev db) = Inr r"
proof -
  let ?db1 = "db\<lparr>db_clock := Suc (db_clock db)\<rparr>"
  obtain b where b: "sq_marshal env (EventToProto (cn_codec (sq_canon env)) ev) = Inr b"
    using assms(3) by (cases "sq_marshal env (EventToProto (cn_codec (sq_canon env)) ev)") (auto simp: admissible_def)
  from assms(5) show ?thesis
  proof (cases rule: Append_cases)
    case (ok h)
    note ok = ok [unfolded Head_sql_abs [OF assms(2)]]
    have "appendRecord env uid (sql_head uid db) f ev ?db1 =
        (Inr (r, EventToProto (cn_codec (sq_canon env)) ev), add_event uid r b ?db1)"
      using appendRecord_eq [of ?db1 env uid f ev] assms(2) ok b by (simp add: sealed_record_def sql_abs_def)
    then have "fst (append_tx env uid ex f ev ?db1) = Inr r"
      using ok assms(3,4) by (simp add: append_tx_def admissible_def sql_abs_def)
    then show ?thesis
      using assms(1,3) by (simp add: Log_Append_def with_tx_faultless admissible_def)
  qed simp_all
qed

lemma append_exact:
  assumes "faultless env" and "env_ok env" and "db_ok db" and "wire_normal ev" and "admissible env ev"
    and "sql_checkWritable uid db = None"
  shows "sql_abs env uid (snd (Log_Append env uid ex f ev db)) = snd (Append (sq_canon env) ex f ev (sql_abs env uid db))
     \<and> sql_checkWritable uid (snd (Log_Append env uid ex f ev db)) = None"
proof -
  obtain res db' where a: "Log_Append env uid ex f ev db = (res, db')" by fastforce
  obtain mres l' where m: "Append (sq_canon env) ex f ev (sql_abs env uid db) = (mres, l')" by fastforce
  have w: "sql_checkWritable uid db' = None"
    using assms(3) a by (cases rule: Log_Append_cases) (use assms(6) in \<open>auto simp: after_append_views\<close>)
  show ?thesis
  proof (cases mres)
    case (Inr r)
    then have "res = Inr r" using append_accepted [OF assms(1,3,5,6), of ex f r l'] m a by simp
    with append_refines [OF assms(2,3,4) a] a w show ?thesis by simp
  next
    case (Inl e)
    then have l': "l' = sql_abs env uid db" using m by (auto elim: Append_cases)
    have "\<exists>x. res = Inl x"
      using append_refines [OF assms(2,3,4) a] m Inl by (cases res) auto
    with append_refines [OF assms(2,3,4) a] a w m l' show ?thesis by auto
  qed
qed

lemma fence_exact:
  assumes "sql_checkWritable uid db = None"
  shows "sql_abs env uid (snd (Log_NewFence env uid db)) = snd (NewFence (sql_abs env uid db))
     \<and> sql_checkWritable uid (snd (Log_NewFence env uid db)) = None"
proof -
  obtain res db' where a: "Log_NewFence env uid db = (res, db')" by fastforce
  then show ?thesis
  proof (cases rule: Log_NewFence_cases)
    case (minted row)
    with fence_refines [OF a] a show ?thesis by (simp add: sql_checkWritable_def)
  qed (use assms in simp)
qed

text \<open>Properties of the events a schedule of calls appends.\<close>

fun call_event :: "(event \<Rightarrow> bool) \<Rightarrow> store_call \<Rightarrow> bool" where
  "call_event P (CallAppend _ _ e) = P e"
| "call_event P CallNewFence = True"

lemma call_event_conj: "call_event (\<lambda>e. P e \<and> Q e) c \<longleftrightarrow> call_event P c \<and> call_event Q c"
  by (cases c) auto

lemma Store_Session_ops [simp]:
  "Store_Append (Store_Session env uid) = Log_Append env uid" "Store_NewFence (Store_Session env uid) = Log_NewFence env uid"
  by (simp_all add: Store_Session_def)

lemma AsStore_ops [simp]:
  "Store_Append (AsStore cn) = Append cn" "snd (Store_NewFence (AsStore cn) l) = snd (NewFence l)"
  by (simp_all add: AsStore_def NewFence_def)

lemma run_refines:
  assumes "env_ok env" and "db_ok db" and "list_all (call_event wire_normal) cs"
  shows "\<exists>cs'. subseq cs' cs \<and>
    sql_abs env uid (store_run (Store_Session env uid) cs db) = store_run (AsStore (sq_canon env)) cs' (sql_abs env uid db)"
  using assms(2,3)
proof (induction cs arbitrary: db)
  case (Cons c cs)
  define db' where "db' = store_run (Store_Session env uid) [c] db"
  have ok': "db_ok db'" unfolding db'_def by (rule sql.run_invar [OF Cons.prems(1)])
  have step: "sql_abs env uid db' = sql_abs env uid db \<or> sql_abs env uid db' = store_run (AsStore (sq_canon env)) [c] (sql_abs env uid db)"
  proof (cases c)
    case (CallAppend ex f e)
    obtain res d where a: "Log_Append env uid ex f e db = (res, d)" by fastforce
    from append_refines [OF assms(1) Cons.prems(1) _ a] Cons.prems(2) CallAppend a show ?thesis
      by (cases res) (auto simp: db'_def)
  next
    case CallNewFence
    obtain res d where a: "Log_NewFence env uid db = (res, d)" by fastforce
    from fence_refines [OF a] CallNewFence a show ?thesis by (cases res) (auto simp: db'_def)
  qed
  obtain cs' where cs': "subseq cs' cs"
    "sql_abs env uid (store_run (Store_Session env uid) cs db') = store_run (AsStore (sq_canon env)) cs' (sql_abs env uid db')"
    using Cons.IH [OF ok'] Cons.prems(2) by auto
  have split: "store_run ops (c # cs) s = store_run ops cs (store_run ops [c] s)" for ops :: "'z store_ops" and cs s
    by (cases c) auto
  from step show ?case
  proof
    assume "sql_abs env uid db' = sql_abs env uid db"
    with cs' split [of "Store_Session env uid" cs db] show ?thesis by (intro exI [of _ cs']) (auto simp: db'_def)
  next
    assume "sql_abs env uid db' = store_run (AsStore (sq_canon env)) [c] (sql_abs env uid db)"
    with cs' split [of "Store_Session env uid" cs db] split [of "AsStore (sq_canon env)" cs' "sql_abs env uid db"]
    show ?thesis by (intro exI [of _ "c # cs'"]) (auto simp: db'_def)
  qed
qed auto

lemma run_exact:
  assumes "faultless env" and "env_ok env" and "db_ok db" and "sql_checkWritable uid db = None"
    and "list_all (call_event (\<lambda>e. wire_normal e \<and> admissible env e)) cs"
  shows "sql_abs env uid (store_run (Store_Session env uid) cs db) = store_run (AsStore (sq_canon env)) cs (sql_abs env uid db)"
  using assms(3-5)
proof (induction cs arbitrary: db)
  case (Cons c cs)
  show ?case
  proof (cases c)
    case (CallAppend ex f e)
    with append_exact [OF assms(1,2) Cons.prems(1) _ _ Cons.prems(2), of e ex f] Cons.prems
      Cons.IH [OF Log_Append_ok [OF Cons.prems(1) to_snd [of "Log_Append env uid ex f e db"]]]
    show ?thesis by simp
  next
    case CallNewFence
    with fence_exact [OF Cons.prems(2), of env] Cons.prems
      Cons.IH [OF Log_NewFence_ok [OF Cons.prems(1) to_snd [of "Log_NewFence env uid db"]]]
    show ?thesis by simp
  qed
qed simp

text \<open>
  (C4) The durable log refines the in-memory log.  Take any schedule of appends and fence mints by any writers, all
  of whose events are in wire-normal form -- at most one body, declared enumeration values, JSON-shaped content, which
  package \<^verbatim>\<open>wire\<close> asks of producers; another event is not read back as it was appended.  The journal the database
  holds for the session is then the journal the in-memory log holds after the calls the database let through.
  Moreover, when the driver does not fail, the session is not deleted, and every event can be marshalled and is
  neither PARKED nor DELETE, every call is let through: the two logs are then equal, call by call.  Assumed of the
  protobuf library: \<^verbatim>\<open>structpb\<close> keeps JSON-shaped content, and what was marshalled from a wire-normal event
  unmarshals to it (\<open>env_ok\<close>).
\<close>

theorem sqlite_refines_log:
  assumes "env_ok env" and "db_ok db" and "list_all (call_event wire_normal) cs"
  shows "(\<exists>cs'. subseq cs' cs \<and>
      sql_abs env uid (store_run (Store_Session env uid) cs db) = store_run (AsStore (sq_canon env)) cs' (sql_abs env uid db))
    \<and> (faultless env \<and> sql_checkWritable uid db = None \<and> list_all (call_event (admissible env)) cs \<longrightarrow>
        sql_abs env uid (store_run (Store_Session env uid) cs db) = store_run (AsStore (sq_canon env)) cs (sql_abs env uid db))"
proof -
  have both: "list_all (call_event (\<lambda>e. wire_normal e \<and> admissible env e)) cs"
    if "list_all (call_event (admissible env)) cs"
    using assms(3) that by (simp add: list_all_iff call_event_conj)
  show ?thesis using run_refines [OF assms] run_exact [OF _ assms(1,2)] both by blast
qed

text \<open>
  (C28) A journal that verifies keeps verifying.  Let the callers of a shared database make any calls -- appends of
  events in wire-normal form, fences, deletions, registrations -- in any order and with any driver failures: a
  session's journal that was intact before is intact after, and \<^verbatim>\<open>Verify\<close> returns nil, so the numbers, links
  and hashes a reader sees are those of an untampered chain.  An appended event is in wire-normal form when it has at
  most one body, declared enumeration values and JSON-shaped content, as package \<^verbatim>\<open>wire\<close> asks of producers; the
  hash of another event is not that of what is read back.  Assumed of the protobuf library as in the property before
  (\<open>env_ok\<close>).
\<close>

theorem sqlite_always_verifies:
  assumes "env_ok env" and "db_ok db" and "intact env uid db" and "list_all call_normal cs"
  shows "Log_Verify env uid (db_run env cs db) = None"
  using intact_verify db_run_effect [OF assms(2)] intact_run [OF assms(1,2,4,3)] by blast

section \<open>The registry over time\<close>

definition retired_harness :: "string \<Rightarrow> sqlite_db \<Rightarrow> bool" where
  "retired_harness name db \<longleftrightarrow> (case harness_of name db of None \<Rightarrow> False | Some r \<Rightarrow> hr_state r \<noteq> HarnessActive)"

fun registers :: "string \<Rightarrow> db_call \<Rightarrow> bool" where
  "registers name (DbRegisterHarness rec) = (hr_name rec = name)"
| "registers name _ = False"

lemma retired_step:
  assumes ok: "db_ok db" and gone: "retired_harness name db" and c: "\<not> registers name c"
  shows "retired_harness name (db_step env c db)"
proof (cases "call_session c")
  case (Some uid)
  then show ?thesis
    using db_step_effect(2) [OF ok Some, of env] gone by (simp add: elsewhere_def retired_harness_def harness_of_def)
next
  case None
  show ?thesis
  proof (cases c)
    case (DbRegisterHarness rec)
    obtain res db' where a: "RegisterHarness env rec db = (res, db')" by fastforce
    then show ?thesis
      by (cases rule: RegisterHarness_cases)
        (use DbRegisterHarness a gone c in \<open>auto simp: retired_harness_def harness_of_def row_where_append
           update_harness_def row_where_update_where reactivated_row_def split: option.splits\<close>)
  next
    case (DbReserveHarnessNames names)
    then show ?thesis
      using ReserveHarnessNames_effect [OF ok to_snd, of env names] gone
      by (simp add: retired_harness_def harness_of_def)
  next
    case (DbRetireHarness n reason)
    obtain res db' where a: "RetireHarness env n reason db = (res, db')" by fastforce
    then show ?thesis
    proof (cases rule: RetireHarness_cases)
      case (retired r now t)
      then show ?thesis using DbRetireHarness a gone
        by (auto simp: retired_harness_def harness_of_def update_harness_def row_where_update_where retired_row_def
            split: option.splits)
    qed (use DbRetireHarness a gone in \<open>simp add: retired_harness_def harness_of_def\<close>)
  qed (use None in auto)
qed

lemma retired_run:
  assumes "db_ok db" and "retired_harness name db" and "list_all (\<lambda>c. \<not> registers name c) cs"
  shows "retired_harness name (db_run env cs db)"
  using assms
proof (induction cs arbitrary: db)
  case (Cons c cs)
  then show ?case using Cons.IH [OF db_step_effect(1) [OF Cons.prems(1), of env c]] retired_step [of db name c env]
    by (simp add: db_run_def)
qed (simp add: db_run_def)

text \<open>
  A harness name is reserved or registered, never both, however the hosts that share the database
  interleave their calls.  A reservation is permanent and bars every later registration of the name; a
  registration is permanent and keeps its UID, its specification, its digest and its creation time.
\<close>

theorem harness_names_settled:
  fixes cs :: "db_call list" and env :: sql_env
  assumes "db_ok db"
  defines "db2 \<equiv> db_run env cs db"
  shows "\<not> (nameReserved n db2 \<and> harness_of n db2 \<noteq> None)
    \<and> (nameReserved n db \<longrightarrow> nameReserved n db2 \<and> (\<exists>e. fst (RegisterHarness env (rec\<lparr>hr_name := n\<rparr>) db2) = Inl e))
    \<and> (\<forall>r. harness_of n db = Some r \<longrightarrow> (\<exists>r'. harness_of n db2 = Some r' \<and> registration r' = registration r))"
proof -
  have ok2: "db_ok db2" and grow: "registry_grows db db2" using db_run_effect [OF assms(1)] by (simp_all add: db2_def)
  have never: "\<not> (nameReserved n db2 \<and> harness_of n db2 \<noteq> None)"
    using ok2 row_where_Some [of hr_name n "db_harnesses db2"] by (auto simp: db_ok_def nameReserved_def harness_of_def)
  have "\<exists>e. fst (RegisterHarness env (rec\<lparr>hr_name := n\<rparr>) db2) = Inl e" if "nameReserved n db2"
    by (rule RegisterHarness_cases [OF to_snd, of env "rec\<lparr>hr_name := n\<rparr>" db2])
      (use that in \<open>auto simp: nameReserved_def\<close>)
  with never grow show ?thesis by (auto simp: registry_grows_def nameReserved_def)
qed

text \<open>
  (C32) Once \<^verbatim>\<open>RetireHarness\<close> has returned, \<^verbatim>\<open>PutSessionOnActiveHarness\<close>, the store call by which \<^verbatim>\<open>CreateSession\<close>
  puts a new session on a registered harness, fails for that harness, whatever other calls come in between, unless
  someone registers the name again.  This is about that call only: \<^verbatim>\<open>Fork\<close> puts its children with \<^verbatim>\<open>PutSession\<close>,
  and they inherit the parent's harness, retired or not.
\<close>

theorem retired_harness_takes_no_session:
  fixes cs :: "db_call list"
  assumes "db_ok db" and "RetireHarness env name reason db = (Inr r, db1)"
    and "list_all (\<lambda>c. \<not> registers name c) cs" and "sm_harness m = name"
  shows "hr_state r \<noteq> HarnessActive \<and>
    (\<exists>e. fst (PutSessionOnActiveHarness env m registered (db_run env cs db1)) = Inl e)"
proof -
  from assms(2) have r: "hr_state r \<noteq> HarnessActive \<and> retired_harness name db1"
    by (cases rule: RetireHarness_cases)
      (auto simp: retired_harness_def harness_of_def update_harness_def row_where_update_where retired_row_def)
  have ok1: "db_ok db1" using RetireHarness_effect [OF assms(1,2)] by simp
  have "retired_harness name (db_run env cs db1)" using retired_run [OF ok1 _ assms(3)] r by simp
  moreover obtain res db' where put: "PutSessionOnActiveHarness env m registered (db_run env cs db1) = (res, db')"
    by fastforce
  ultimately have "\<exists>e. res = Inl e"
    by (cases rule: PutSessionOnActiveHarness_cases [OF put])
      (use assms(4) in \<open>auto simp: retired_harness_def split: option.splits\<close>)
  with r put show ?thesis by simp
qed

section \<open>A sample database\<close>

text \<open>
  A marshaller for the witnesses: it knows the messages of a table and gives each a name.
\<close>

definition table_marshal :: "(pb_event \<times> bytes) list \<Rightarrow> pb_event \<Rightarrow> goerr + bytes" where
  "table_marshal tbl p = (case find (\<lambda>q. fst q = p) tbl of None \<Rightarrow> Inl (ErrNew ''marshal'') | Some q \<Rightarrow> Inr (snd q))"

definition table_unmarshal :: "(pb_event \<times> bytes) list \<Rightarrow> bytes \<Rightarrow> goerr + pb_event" where
  "table_unmarshal tbl b = (case find (\<lambda>q. snd q = b) tbl of None \<Rightarrow> Inl (ErrNew ''unmarshal'') | Some q \<Rightarrow> Inr (fst q))"

lemma table_roundtrip:
  assumes "distinct (map snd tbl)" and "table_marshal tbl p = Inr b"
  shows "table_unmarshal tbl b = Inr p"
  using assms
proof (induction tbl)
  case (Cons q tbl)
  have "\<exists>q' \<in> set tbl. snd q' = b" if "table_marshal tbl p = Inr b"
    using that by (auto simp: table_marshal_def find_Some_iff split: option.splits)
  with Cons show ?case by (cases q) (auto simp: table_marshal_def table_unmarshal_def split: if_splits)
qed (simp add: table_marshal_def)

definition sample_table :: "(pb_event \<times> bytes) list" where
  "sample_table = [(EventToProto plain_codec sample_output, ''o''), (EventToProto plain_codec (delete_event 7), ''d'')]"

definition sql_with :: "(pb_event \<times> bytes) list \<Rightarrow> sql_env" where
  "sql_with tbl = \<lparr>sq_canon = plain_canon, sq_marshal = table_marshal tbl, sq_unmarshal = table_unmarshal tbl,
     sq_now = (\<lambda>_. 7), sq_fault = (\<lambda>_. None), sq_constraint = ErrNew ''constraint failed'', sq_defaultProject = DefaultProject\<rparr>"

definition sample_sql :: sql_env where
  "sample_sql = sql_with sample_table"

definition empty_db :: sqlite_db where
  "empty_db = \<lparr>db_sessions = [], db_events = [], db_executions = Map.empty, db_calls = Map.empty,
     db_harnesses = [], db_reserved = Map.empty, db_userVersion = SchemaVersion, db_clock = 0\<rparr>"

lemma sql_with_ok: "distinct (map snd tbl) \<Longrightarrow> env_ok (sql_with tbl)"
  using table_roundtrip [of tbl] by (simp add: env_ok_def marshal_ok_def sql_with_def plain_canon_def)

lemma sample_sql_ok: "env_ok sample_sql"
  unfolding sample_sql_def by (rule sql_with_ok) (simp add: sample_table_def)

lemma empty_db_ok [simp]: "db_ok empty_db" "intact env uid empty_db"
  by (simp_all add: db_ok_def empty_db_def events_of_def event_numbers_ok_def intact_def sql_recs_def)

definition sample_calls :: "store_call list" where
  "sample_calls = [CallNewFence, CallAppend 0 1 sample_output, CallAppend 0 1 sample_output, CallAppend 1 1 sample_output]"

theorem sqlite_refines_log_witness:
  "env_ok sample_sql \<and> db_ok empty_db \<and> list_all (call_event wire_normal) sample_calls \<and>
   sql_abs sample_sql ''s'' (store_run (Store_Session sample_sql ''s'') sample_calls empty_db)
     = store_run (AsStore plain_canon) sample_calls (sql_abs sample_sql ''s'' empty_db) \<and>
   length (log_records (sql_abs sample_sql ''s'' (store_run (Store_Session sample_sql ''s'') sample_calls empty_db))) = 2"
proof -
  have n: "list_all (call_event wire_normal) sample_calls"
    by (simp add: sample_calls_def wire_normal_sample_output)
  have a: "admissible sample_sql sample_output" by code_simp
  have adm: "faultless sample_sql \<and> sql_checkWritable ''s'' empty_db = None \<and> list_all (call_event (admissible sample_sql)) sample_calls"
    by (simp add: faultless_def sample_sql_def sql_with_def sample_calls_def a [unfolded sample_sql_def sql_with_def]
        sql_checkWritable_def session_row_of_def empty_db_def)
  have "length (log_records (sql_abs sample_sql ''s'' (store_run (Store_Session sample_sql ''s'') sample_calls empty_db))) = 2"
    by code_simp
  moreover have "sq_canon sample_sql = plain_canon" by (simp add: sample_sql_def sql_with_def)
  ultimately show ?thesis
    using sqlite_refines_log [OF sample_sql_ok empty_db_ok(1) n, of "''s''"] adm n sample_sql_ok by simp
qed

definition sample_meta :: session_meta where
  "sample_meta = \<lparr>sm_uid = ''s'', sm_project = [], sm_name = ''demo'', sm_harness = ''h'', sm_model = [],
     sm_parentUID = [], sm_forkSeq = 0, sm_createdAt = None, sm_updatedAt = None, sm_labels = [],
     sm_annotations = [], sm_origin = [], sm_identity = []\<rparr>"

definition sample_registration :: harness_row where
  "sample_registration = \<lparr>hr_name = ''h'', hr_uid = ''u1'', hr_spec = ''spec'', hr_specDigest = ''digest'',
     hr_state = HarnessActive, hr_retireReason = [], hr_retiredAt = 0, hr_createdAt = 0, hr_updatedAt = 0\<rparr>"

text \<open>A database with one session, a registered and a reserved harness name.\<close>

definition sample_db :: sqlite_db where
  "sample_db = db_run sample_sql [DbReserveHarnessNames [''fixed''], DbRegisterHarness sample_registration,
     DbPutSessionOnActiveHarness sample_meta True, DbAppend ''s'' 0 0 sample_output] empty_db"

lemma sample_db_ok: "db_ok sample_db"
  unfolding sample_db_def using db_run_effect [OF empty_db_ok(1)] by simp

definition sample_ctx :: "nat \<Rightarrow> goerr option" where
  "sample_ctx = (\<lambda>_. None)"

definition later_calls :: "db_call list" where
  "later_calls = [DbAppend ''s'' 2 9 sample_output, DbNewFence ''s'', DbRetireHarness ''h'' ''old'']"

lemma sample_delete: "\<exists>info db1. DeleteSession sample_sql sample_ctx ''s'' sample_db = (Inr info, db1)"
proof -
  have "\<not> isl (fst (DeleteSession sample_sql sample_ctx ''s'' sample_db))" by code_simp
  then show ?thesis by (cases "DeleteSession sample_sql sample_ctx ''s'' sample_db"; cases "fst (DeleteSession sample_sql sample_ctx ''s'' sample_db)") auto
qed

theorem deletion_is_final_witness:
  "\<exists>info db1. db_ok sample_db \<and> DeleteSession sample_sql sample_ctx ''s'' sample_db = (Inr info, db1) \<and>
     same_session_data ''s'' db1 (db_run sample_sql later_calls db1) \<and>
     fst (DeleteSession sample_sql sample_ctx ''s'' (db_run sample_sql later_calls db1)) = Inr info"
proof -
  obtain info db1 where d: "DeleteSession sample_sql sample_ctx ''s'' sample_db = (Inr info, db1)"
    using sample_delete by blast
  have "sq_fault sample_sql n = None" for n by (simp add: sample_sql_def sql_with_def)
  with deletion_is_final [OF sample_db_ok d, of later_calls 0 0 zero_event sample_meta sample_ctx] d sample_db_ok
  show ?thesis by (intro exI [of _ info] exI [of _ db1]) simp
qed

definition db_calls_sample :: "db_call list" where
  "db_calls_sample = [DbNewFence ''s'', DbAppend ''s'' 0 1 sample_output, DbAppend ''s'' 0 1 sample_output,
     DbDeleteSession sample_ctx ''s'', DbAppend ''s'' 2 2 sample_output]"

theorem sqlite_always_verifies_witness:
  "env_ok sample_sql \<and> Log_Verify sample_sql ''s'' (db_run sample_sql db_calls_sample empty_db) = None \<and>
   length (events_of ''s'' (db_run sample_sql db_calls_sample empty_db)) = 2"
proof -
  have n: "list_all call_normal db_calls_sample"
    by (simp add: db_calls_sample_def wire_normal_sample_output)
  have "length (events_of ''s'' (db_run sample_sql db_calls_sample empty_db)) = 2" by code_simp
  with sqlite_always_verifies [OF sample_sql_ok empty_db_ok n, of "''s''"] sample_sql_ok show ?thesis by simp
qed

theorem harness_names_settled_witness:
  "db_ok sample_db \<and> nameReserved ''fixed'' sample_db \<and> harness_of ''h'' sample_db \<noteq> None \<and>
   (\<exists>e. fst (RegisterHarness sample_sql (sample_registration\<lparr>hr_name := ''fixed''\<rparr>) (db_run sample_sql later_calls sample_db)) = Inl e) \<and>
   (\<exists>r'. harness_of ''h'' (db_run sample_sql later_calls sample_db) = Some r' \<and> hr_uid r' = ''u1'')"
proof -
  have r: "nameReserved ''fixed'' sample_db" by code_simp
  have u: "map_option hr_uid (harness_of ''h'' sample_db) = Some ''u1''" by code_simp
  then obtain r where h: "harness_of ''h'' sample_db = Some r" "hr_uid r = ''u1''" by auto
  from harness_names_settled [OF sample_db_ok, of "''fixed''" sample_sql later_calls sample_registration]
    harness_names_settled [OF sample_db_ok, of "''h''" sample_sql later_calls sample_registration] r h sample_db_ok
  show ?thesis by (auto simp: registration_def)
qed

theorem retired_harness_takes_no_session_witness:
  "\<exists>r db1. db_ok sample_db \<and> RetireHarness sample_sql ''h'' ''old'' sample_db = (Inr r, db1) \<and>
     (\<exists>e. fst (PutSessionOnActiveHarness sample_sql sample_meta True (db_run sample_sql later_calls db1)) = Inl e)"
proof -
  have "\<not> isl (fst (RetireHarness sample_sql ''h'' ''old'' sample_db))" by code_simp
  then obtain r db1 where d: "RetireHarness sample_sql ''h'' ''old'' sample_db = (Inr r, db1)"
    by (cases "RetireHarness sample_sql ''h'' ''old'' sample_db"; cases "fst (RetireHarness sample_sql ''h'' ''old'' sample_db)") auto
  have "list_all (\<lambda>c. \<not> registers ''h'' c) later_calls" by (simp add: later_calls_def)
  from retired_harness_takes_no_session [OF sample_db_ok d this, of sample_meta True] d sample_db_ok
  show ?thesis by (auto simp: sample_meta_def)
qed

end
