(* ===== verification/Sqlite_Approval.thy ===== *)
theory Sqlite_Approval
  imports Gates Sqlite_Props
begin

text \<open>
  The reporting of approvals: the columns that \<^verbatim>\<open>projectApproval\<close> maintains event by event describe what
  the strict scan of \<^verbatim>\<open>controller/approval.go\<close> finds in the whole journal.  First for one execution
  (\<open>inspect_rel\<close>), then for the grouping of a journal into executions (\<open>grouped\<close>), then as an invariant of
  the database (\<open>projected\<close>), and last for the column \<^verbatim>\<open>sessionSelect\<close> computes.
\<close>

section \<open>One execution\<close>

text \<open>The projection of one execution's records: its state and the calls it has seen.\<close>

definition exec_step ::
  "log_record \<Rightarrow> approvalExecution \<times> (string \<rightharpoonup> bool) \<Rightarrow> approvalExecution \<times> (string \<rightharpoonup> bool)" where
  "exec_step r p =
     (let a = (if approval_evidence_event (r_event r) then (fst p)\<lparr>pa_gated := True\<rparr> else fst p)
      in if pa_invalid a then (a, snd p) else approval_reduce (r_seq r) (r_event r) (snd p) a)"

definition exec_init :: "int64 \<Rightarrow> approvalExecution \<times> (string \<rightharpoonup> bool)" where
  "exec_init n = (empty_approvalExecution\<lparr>pa_firstSeq := n\<rparr>, Map.empty)"

definition exec_fold :: "log_record list \<Rightarrow> approvalExecution \<times> (string \<rightharpoonup> bool)" where
  "exec_fold rs = fold exec_step rs (exec_init (r_seq (hd rs)))"

text \<open>How the projection's columns describe the last gated call of the strict inspection.\<close>

definition seq_of :: "log_record option \<Rightarrow> int64" where
  "seq_of r = (case r of None \<Rightarrow> 0 | Some x \<Rightarrow> r_seq x)"

definition call_rel :: "int64 \<Rightarrow> approval_state option \<Rightarrow> approvalExecution \<Rightarrow> bool" where
  "call_rel f st a =
     (case st of
        None \<Rightarrow> pa_callID a = [] \<and> pa_requestSeq a = 0
      | Some st \<Rightarrow> pa_callID a \<noteq> [] \<and> pa_callID a = tc_id (as_call st) \<and> (as_inherited st \<longleftrightarrow> pa_callSeq a < f)
          \<and> pa_requestSeq a = seq_of (as_request st) \<and> (\<forall>r. as_request st = Some r \<longrightarrow> r_seq r > 0)
          \<and> pa_decisionSeq a = seq_of (as_decision st) \<and> (\<forall>r. as_decision st = Some r \<longrightarrow> r_seq r > 0)
          \<and> (\<forall>d. as_decision st = Some d \<longrightarrow> pa_approved a = ar_approved (decision_of d))
          \<and> (pa_receipt a \<longleftrightarrow> as_receipt st \<noteq> None))"

definition inspect_rel :: "int64 \<Rightarrow> inspection \<Rightarrow> approvalExecution \<times> (string \<rightharpoonup> bool) \<Rightarrow> bool" where
  "inspect_rel f s p \<longleftrightarrow> \<not> pa_invalid (fst p) \<and> in_calls s = snd p
     \<and> rx_hasStart (in_invocation s) = pa_hasStart (fst p)
     \<and> rx_inputCount (in_invocation s) = pa_expectedInputs (fst p)
     \<and> int (rx_inputRecords (in_invocation s)) = pa_inputs (fst p)
     \<and> int (length (rx_inputs (in_invocation s))) = pa_messages (fst p)
     \<and> rx_completed (in_invocation s) = pa_completed (fst p)
     \<and> call_rel f (in_last s) (fst p)"

lemma rel_open: "inspect_rel f s p \<Longrightarrow> pa_open (fst p) = in_open s"
  by (auto simp: inspect_rel_def call_rel_def pa_open_def in_open_def split: option.splits)

lemma in_last_update [simp]: "in_states s \<noteq> [] \<Longrightarrow> in_last (update_last g s) = map_option g (in_last s)"
  by (simp add: in_last_def update_last_def)

lemma update_last_fields [simp]:
  "in_calls (update_last g s) = in_calls s" "in_invocation (update_last g s) = in_invocation s"
  by (simp_all add: update_last_def)

lemma in_last_Some: "in_last s = Some st \<Longrightarrow> in_states s \<noteq> []"
  by (auto simp: in_last_def)

text \<open>One record: the inspection rejects it exactly when the projection becomes invalid.\<close>

definition agree :: "int64 \<Rightarrow> goerr + inspection \<Rightarrow> approvalExecution \<times> (string \<rightharpoonup> bool) \<Rightarrow> bool" where
  "agree f res p = (case res of Inl _ \<Rightarrow> pa_invalid (fst p) | Inr s \<Rightarrow> inspect_rel f s p)"

lemma agree_start:
  assumes "inspect_rel f s (a, calls)" and "(i = 0) = (r_seq r = pa_firstSeq a)" and "i = 0 \<Longrightarrow> pa_expectedInputs a = None"
  shows "agree f (inspect_start i r s) (reduce_start (r_seq r) (r_event r) a, calls)"
  using assms
  by (auto simp: agree_def inspect_start_def reduce_start_def invalidate_def inspect_rel_def in_last_def call_rel_def
      split: option.splits if_splits)

lemma agree_call:
  assumes "inspect_rel f s (a, calls)"
  shows "agree f (inspect_tool_call exid h f r s) (reduce_call (r_seq r) (r_event r) calls a)"
proof -
  have op: "pa_open a = in_open s" using rel_open [OF assms] by simp
  have same: "calls k = Some v \<Longrightarrow> calls(k \<mapsto> v) = calls" for k v by auto
  show ?thesis
    using assms op
    by (auto simp: agree_def inspect_tool_call_def reduce_call_def invalidate_def inspect_rel_def Let_def
        call_rel_def seq_of_def in_last_def same split: option.splits if_splits)
qed

lemma agree_request:
  assumes "inspect_rel f s (a, calls)" and "r_seq r > 0"
  shows "agree f (inspect_request r s) (reduce_request (r_seq r) (r_event r) a, calls)"
proof -
  have op: "pa_open a = in_open s" using rel_open [OF assms(1)] by simp
  show ?thesis
  proof (cases "in_last s")
    case None
    with assms op show ?thesis
      by (auto simp: agree_def inspect_request_def reduce_request_def invalidate_def inspect_rel_def in_open_def split: option.splits)
  next
    case (Some st)
    with assms op in_last_Some [OF Some] show ?thesis
      by (auto simp: agree_def inspect_request_def reduce_request_def invalidate_def inspect_rel_def call_rel_def seq_of_def
          split: option.splits)
  qed
qed

lemma agree_decision:
  assumes "inspect_rel f s (a, calls)" and "r_seq r > 0"
  shows "agree f (inspect_decision r s) (reduce_decision (r_seq r) (r_event r) a, calls)"
proof -
  have op: "pa_open a = in_open s" using rel_open [OF assms(1)] by simp
  show ?thesis
  proof (cases "in_last s")
    case None
    with assms op show ?thesis
      by (auto simp: agree_def inspect_decision_def reduce_decision_def invalidate_def inspect_rel_def in_open_def split: option.splits)
  next
    case (Some st)
    with assms op in_last_Some [OF Some] show ?thesis
      by (auto simp: agree_def inspect_decision_def reduce_decision_def invalidate_def inspect_rel_def call_rel_def seq_of_def
          decision_of_def split: option.splits if_splits)
  qed
qed

lemma agree_result:
  assumes "inspect_rel f s (a, calls)"
  shows "agree f (inspect_result r s) (reduce_result (r_event r) calls a, calls)"
proof -
  have op: "pa_open a = in_open s" using rel_open [OF assms(1)] by simp
  show ?thesis
  proof (cases "in_open s")
    case False
    with assms op show ?thesis
      by (auto simp: agree_def inspect_result_def reduce_result_def invalidate_def inspect_rel_def call_gated_def split: option.splits)
  next
    case True
    then obtain st where st: "in_last s = Some st" by (auto simp: in_open_def split: option.splits)
    with assms op True in_last_Some [OF st] show ?thesis
      by (auto simp: agree_def inspect_result_def reduce_result_def invalidate_def inspect_rel_def call_rel_def seq_of_def
          validateApprovalReceipt_def receipt_valid_def Let_def split: option.splits if_splits)
  qed
qed


lemma agree_input:
  assumes "inspect_rel f s (a, calls)"
  shows "agree f (if in_open s then Inl e
      else Inr (s\<lparr>in_invocation := (in_invocation s)\<lparr>rx_inputRecords := Suc (rx_inputRecords (in_invocation s)),
         rx_inputs := (case ev_message ev of None \<Rightarrow> rx_inputs (in_invocation s)
                       | Some m \<Rightarrow> rx_inputs (in_invocation s) @ [m])\<rparr>\<rparr>)) (reduce_input ev a, calls)"
  using rel_open [OF assms] assms
  by (auto simp: agree_def reduce_input_def invalidate_def inspect_rel_def in_last_def call_rel_def split: option.splits)

lemma agree_end:
  assumes "inspect_rel f s (a, calls)"
  shows "agree f (if in_open s then Inl e
      else Inr (s\<lparr>in_invocation := (in_invocation s)\<lparr>rx_completed := True\<rparr>\<rparr>))
    ((if pa_open a then invalidate a else a)\<lparr>pa_completed := True\<rparr>, calls)"
  using rel_open [OF assms] assms
  by (auto simp: agree_def invalidate_def inspect_rel_def in_last_def call_rel_def split: option.splits)

lemma agree_other:
  assumes "inspect_rel f s (a, calls)"
  shows "agree f (if in_open s then Inl e else Inr s) (if pa_open a then invalidate a else a, calls)"
    and "agree f (Inr s) (a, calls)"
  using rel_open [OF assms] assms by (simp_all add: agree_def invalidate_def)

lemma agree_reduce:
  assumes rel: "inspect_rel f s (a, calls)" and "(i = 0) = (r_seq r = pa_firstSeq a)"
    and "i = 0 \<Longrightarrow> pa_expectedInputs a = None" and "r_seq r > 0"
  shows "agree f (inspect_record exid h f i r s) (approval_reduce (r_seq r) (r_event r) calls a)"
  using agree_start [OF assms(1-3)] agree_call [OF rel] agree_request [OF rel assms(4)]
    agree_decision [OF rel assms(4)] agree_result [OF rel] agree_input [OF rel] agree_end [OF rel] agree_other [OF rel]
  by (cases "ev_kind (r_event r)") (simp_all only: inspect_record_def approval_reduce_def event_kind.simps)

lemma agree_gated [simp]: "agree f res (a\<lparr>pa_gated := g\<rparr>, calls) = agree f res (a, calls)"
  by (simp add: agree_def inspect_rel_def call_rel_def split: sum.splits option.splits)

lemma reduce_keeps:
  "pa_firstSeq (fst (approval_reduce n e calls a)) = pa_firstSeq a"
  "pa_gated (fst (approval_reduce n e calls a)) = pa_gated a"
  by (auto simp: approval_reduce_def reduce_start_def reduce_input_def reduce_call_def reduce_request_def
      reduce_decision_def reduce_result_def invalidate_def Let_def split: event_kind.splits option.splits)

lemma exec_step_keeps:
  "pa_firstSeq (fst (exec_step r p)) = pa_firstSeq (fst p)"
  "pa_gated (fst (exec_step r p)) = (pa_gated (fst p) \<or> approval_evidence_event (r_event r))"
  "pa_invalid (fst p) \<Longrightarrow> pa_invalid (fst (exec_step r p))"
  by (auto simp: exec_step_def Let_def reduce_keeps)

lemma exec_fold_keeps:
  "pa_firstSeq (fst (fold exec_step rs p)) = pa_firstSeq (fst p)"
  "pa_gated (fst (fold exec_step rs p)) = (pa_gated (fst p) \<or> (\<exists>r \<in> set rs. approval_evidence_event (r_event r)))"
  by (induction rs arbitrary: p) (auto simp: exec_step_keeps)

lemma exec_fold_gated: "pa_gated (fst (exec_fold rs)) = (\<exists>r \<in> set rs. approval_evidence_event (r_event r))"
  by (simp add: exec_fold_def exec_fold_keeps exec_init_def empty_approvalExecution_def)

lemma agree_step:
  assumes "agree f (Inr s) p" and "(i = 0) = (r_seq r = pa_firstSeq (fst p))" and "i = 0 \<Longrightarrow> pa_expectedInputs (fst p) = None"
    and "r_seq r > 0"
  shows "agree f (inspect_record exid h f i r s) (exec_step r p)"
proof -
  obtain a calls where p: "p = (a, calls)" by fastforce
  let ?a = "if approval_evidence_event (r_event r) then a\<lparr>pa_gated := True\<rparr> else a"
  have "agree f (Inr s) (?a, calls)" using assms(1) p by simp
  then have rel: "inspect_rel f s (?a, calls)" by (simp add: agree_def)
  then have "\<not> pa_invalid ?a" by (simp add: inspect_rel_def)
  then show ?thesis
    using agree_reduce [OF rel, of i r exid h] assms(2-4) p
    by (cases "approval_evidence_event (r_event r)") (simp_all add: exec_step_def)
qed

lemma exec_fold_snoc: "rs \<noteq> [] \<Longrightarrow> exec_fold (rs @ [r]) = exec_step r (exec_fold rs)"
  by (simp add: exec_fold_def)

lemma agree_init: "agree f (Inr (inspect_init exid)) (exec_init n)"
  by (simp add: agree_def inspect_rel_def exec_init_def inspect_init_def empty_approvalExecution_def empty_execution_def
      call_rel_def in_last_def)

lemma agree_execution:
  assumes "rs \<noteq> []" and "distinct (map r_seq rs)" and "\<forall>r \<in> set rs. r_seq r > 0"
  shows "agree f (inspect_records exid h f 0 rs (inspect_init exid)) (exec_fold rs)"
  using assms
proof (induction rs rule: rev_induct)
  case (snoc r rs)
  show ?case
  proof (cases "rs = []")
    case True
    have "agree f (inspect_record exid h f 0 r (inspect_init exid)) (exec_step r (exec_init (r_seq r)))"
      by (rule agree_step [OF agree_init]) (use snoc.prems True in \<open>simp_all add: exec_init_def empty_approvalExecution_def\<close>)
    with True show ?thesis
      by (cases "inspect_record exid h f 0 r (inspect_init exid)") (simp_all add: exec_fold_def)
  next
    case False
    with snoc have IH: "agree f (inspect_records exid h f 0 rs (inspect_init exid)) (exec_fold rs)" by simp
    show ?thesis
    proof (cases "inspect_records exid h f 0 rs (inspect_init exid)")
      case (Inl e)
      with IH False show ?thesis
        by (simp add: agree_def inspect_records_append exec_fold_snoc exec_step_keeps)
    next
      case (Inr s)
      have first: "pa_firstSeq (fst (exec_fold rs)) = r_seq (hd rs)"
        by (simp add: exec_fold_def exec_fold_keeps exec_init_def)
      have "r_seq r \<noteq> r_seq (hd rs)" using snoc.prems(2) False by (cases rs) auto
      with agree_step [of f s "exec_fold rs" "length rs" r exid h] IH Inr first snoc.prems(3) False show ?thesis
        by (cases "inspect_record exid h f (length rs) r s") (simp_all add: inspect_records_append exec_fold_snoc)
    qed
  qed
qed simp

text \<open>What the two make of the whole execution.\<close>

lemma invalid_inputs:
  assumes "inspect_rel f s p"
  shows "validateInputs (in_invocation s) \<noteq> None \<longleftrightarrow> pa_hasStart (fst p) \<and>
    (case pa_expectedInputs (fst p) of None \<Rightarrow> True
     | Some n \<Rightarrow> n < 0 \<or> pa_inputs (fst p) \<noteq> pa_messages (fst p) \<or> pa_inputs (fst p) \<noteq> n)"
  using assms by (auto simp: inspect_rel_def validateInputs_def split: option.splits if_splits)

lemma invalid_execution:
  assumes "ax_records x \<noteq> []" and "distinct (map r_seq (ax_records x))" and "\<forall>r \<in> set (ax_records x). r_seq r > 0"
    and "ax_gated x = (\<exists>r \<in> set (ax_records x). approval_evidence_event (r_event r))"
  shows "invalidApproval (fst (exec_fold (ax_records x))) (ax_id x) \<longleftrightarrow>
    ax_gated x \<and> isl (inspectApprovalExecution x h f)"
proof -
  let ?p = "exec_fold (ax_records x)"
  have g: "pa_gated (fst ?p) = ax_gated x" by (simp add: exec_fold_gated assms(4))
  have ag: "agree f (inspect_records (ax_id x) h f 0 (ax_records x) (inspect_init (ax_id x))) ?p"
    by (rule agree_execution [OF assms(1-3)])
  show ?thesis
  proof (cases "inspect_records (ax_id x) h f 0 (ax_records x) (inspect_init (ax_id x))")
    case (Inl e)
    with ag g show ?thesis by (simp add: agree_def invalidApproval_def inspectApprovalExecution_def)
  next
    case (Inr s)
    with ag have rel: "inspect_rel f s ?p" by (simp add: agree_def)
    then have "\<not> pa_invalid (fst ?p)" by (simp add: inspect_rel_def)
    with invalid_inputs [OF rel] Inr g show ?thesis
      by (auto simp: invalidApproval_def inspectApprovalExecution_def split: option.splits)
  qed
qed

section \<open>Grouping\<close>

text \<open>What the first loop of the strict scan leaves of a journal.\<close>

definition own_records :: "string \<Rightarrow> log_record list \<Rightarrow> log_record list" where
  "own_records x rs = filter (\<lambda>r. ev_kind (r_event r) \<noteq> EventLifecycle \<and> ev_executionID (r_event r) = x) rs"

definition group_ok :: "log_record list \<Rightarrow> approval_execution \<Rightarrow> bool" where
  "group_ok rs x \<longleftrightarrow> ax_records x = own_records (ax_id x) rs \<and> ax_records x \<noteq> []
     \<and> ax_gated x = (\<exists>r \<in> set (ax_records x). approval_evidence_event (r_event r))"

definition grouped :: "log_record list \<Rightarrow> scan_state \<Rightarrow> bool" where
  "grouped rs S \<longleftrightarrow>
     (\<forall>j < length (ss_executions S). ss_byID S (ax_id (ss_executions S ! j)) = Some j)
     \<and> (\<forall>k j. ss_byID S k = Some j \<longrightarrow> j < length (ss_executions S) \<and> ax_id (ss_executions S ! j) = k)
     \<and> (\<forall>k. ss_byID S k = None \<longrightarrow> own_records k rs = [])
     \<and> (\<forall>x \<in> set (ss_executions S). group_ok rs x)
     \<and> ss_head S = head_of rs
     \<and> (ss_forkSeq S = 0 \<or> (\<exists>r \<in> set rs. ev_kind (r_event r) = EventLifecycle \<and> r_seq r = ss_forkSeq S))"

lemma grouped_init: "grouped [] scan_init"
  by (simp add: grouped_def scan_init_def own_records_def head_of_def)

lemma own_records_snoc:
  "own_records x (rs @ [r]) = own_records x rs @
     (if ev_kind (r_event r) \<noteq> EventLifecycle \<and> ev_executionID (r_event r) = x then [r] else [])"
  by (simp add: own_records_def)

lemma scan_record_lifecycle:
  "ev_kind (r_event r) = EventLifecycle \<Longrightarrow> scan_record r S = S\<lparr>ss_head := r_seq r, ss_forkSeq :=
     (case ev_lifecycle (r_event r) of None \<Rightarrow> ss_forkSeq S
      | Some l \<Rightarrow> if lc_kind l = LifecycleFork then r_seq r else ss_forkSeq S)\<rparr>"
  by (simp add: scan_record_def Let_def split: option.split)

definition grown :: "log_record \<Rightarrow> approval_execution \<Rightarrow> approval_execution" where
  "grown r x = x\<lparr>ax_records := ax_records x @ [r], ax_gated := (ax_gated x \<or> approval_evidence_event (r_event r))\<rparr>"

lemma scan_record_known:
  "ev_kind (r_event r) \<noteq> EventLifecycle \<Longrightarrow> ss_byID S (ev_executionID (r_event r)) = Some k \<Longrightarrow>
   scan_record r S = S\<lparr>ss_head := r_seq r, ss_executions := (ss_executions S)[k := grown r (ss_executions S ! k)]\<rparr>"
  by (simp add: scan_record_def Let_def grown_def)

lemma scan_record_new:
  "ev_kind (r_event r) \<noteq> EventLifecycle \<Longrightarrow> ss_byID S (ev_executionID (r_event r)) = None \<Longrightarrow>
   scan_record r S = S\<lparr>ss_head := r_seq r,
     ss_executions := ss_executions S @ [\<lparr>ax_id = ev_executionID (r_event r), ax_records = [r],
        ax_gated = approval_evidence_event (r_event r)\<rparr>],
     ss_byID := (ss_byID S)(ev_executionID (r_event r) \<mapsto> length (ss_executions S))\<rparr>"
  by (simp add: scan_record_def Let_def)

lemma grouped_snoc:
  assumes "grouped rs S"
  shows "grouped (rs @ [r]) (scan_record r S)"
proof (cases "ev_kind (r_event r) = EventLifecycle")
  case True
  with assms show ?thesis
    by (auto simp: grouped_def group_ok_def scan_record_lifecycle own_records_snoc head_of_def split: option.splits)
next
  case False
  let ?x = "ev_executionID (r_event r)" and ?E = "ss_executions S"
  from assms have index: "\<And>j. j < length ?E \<Longrightarrow> ss_byID S (ax_id (?E ! j)) = Some j"
    and backward: "\<And>k j. ss_byID S k = Some j \<Longrightarrow> j < length ?E \<and> ax_id (?E ! j) = k"
    and unseen: "\<And>k. ss_byID S k = None \<Longrightarrow> own_records k rs = []"
    and known: "\<And>x. x \<in> set ?E \<Longrightarrow> group_ok rs x"
    and fork: "ss_forkSeq S = 0 \<or> (\<exists>r \<in> set rs. ev_kind (r_event r) = EventLifecycle \<and> r_seq r = ss_forkSeq S)"
    unfolding grouped_def by blast+
  show ?thesis
  proof (cases "ss_byID S ?x")
    case (Some k)
    have k: "k < length ?E" "ax_id (?E ! k) = ?x" using backward [OF Some] by auto
    let ?E' = "?E[k := grown r (?E ! k)]"
    have ids: "ax_id (?E' ! j) = ax_id (?E ! j)" for j
      by (cases "j = k") (use k(1) in \<open>auto simp: grown_def\<close>)
    have grow: "group_ok (rs @ [r]) x" if mem: "x \<in> set ?E'" for x
    proof -
      obtain j where j: "j < length ?E" "x = ?E' ! j" using mem by (auto simp: in_set_conv_nth)
      show ?thesis
      proof (cases "j = k")
        case True
        then have "x = grown r (?E ! k)" using j k by simp
        with known [of "?E ! k"] k False show ?thesis by (auto simp: group_ok_def grown_def own_records_snoc)
      next
        case jk: False
        then have x: "x = ?E ! j" using j by simp
        have "ax_id x \<noteq> ?x" using index [OF j(1)] Some jk x by auto
        with known [of x] x j(1) show ?thesis by (auto simp: group_ok_def own_records_snoc)
      qed
    qed
    have "\<forall>x \<in> set ?E'. group_ok (rs @ [r]) x" using grow by blast
    moreover have "\<forall>q. ss_byID S q = None \<longrightarrow> own_records q (rs @ [r]) = []"
      using unseen Some by (auto simp: own_records_snoc)
    moreover have "head_of (rs @ [r]) = r_seq r" by (simp add: head_of_def)
    moreover have "\<forall>q j. ss_byID S q = Some j \<longrightarrow> j < length ?E' \<and> ax_id (?E' ! j) = q"
      using backward ids by simp
    moreover have "\<forall>j < length ?E'. ss_byID S (ax_id (?E' ! j)) = Some j"
      using index ids by simp
    ultimately show ?thesis using fork unfolding scan_record_known [OF False Some] grouped_def by auto
  next
    case None
    let ?new = "\<lparr>ax_id = ?x, ax_records = [r], ax_gated = approval_evidence_event (r_event r)\<rparr>"
    have fresh: "ax_id (?E ! j) \<noteq> ?x" if "j < length ?E" for j using index [OF that] None by auto
    have old: "\<forall>x \<in> set ?E. group_ok (rs @ [r]) x"
      using known fresh by (fastforce simp: group_ok_def own_records_snoc in_set_conv_nth)
    have "own_records ?x (rs @ [r]) = [r]" using unseen [OF None] False by (simp add: own_records_snoc)
    then have "\<forall>x \<in> set (?E @ [?new]). group_ok (rs @ [r]) x" using old by (simp add: group_ok_def [of _ ?new])
    moreover have "\<forall>q. ((ss_byID S)(?x \<mapsto> length ?E)) q = None \<longrightarrow> own_records q (rs @ [r]) = []"
      using unseen by (auto simp: own_records_snoc)
    moreover have "head_of (rs @ [r]) = r_seq r" by (simp add: head_of_def)
    moreover have "\<forall>q j. ((ss_byID S)(?x \<mapsto> length ?E)) q = Some j \<longrightarrow> j < length (?E @ [?new]) \<and> ax_id ((?E @ [?new]) ! j) = q"
      using backward by (auto simp: nth_append less_Suc_eq)
    moreover have "\<forall>j < length (?E @ [?new]). ((ss_byID S)(?x \<mapsto> length ?E)) (ax_id ((?E @ [?new]) ! j)) = Some j"
      using index fresh by (auto simp: nth_append less_Suc_eq)
    ultimately show ?thesis using fork unfolding scan_record_new [OF False None] grouped_def by auto
  qed
qed

lemma grouped_scan: "grouped rs (fold scan_record rs scan_init)"
  by (induction rs rule: rev_induct) (simp_all add: grouped_init grouped_snoc)

text \<open>The executions of a numbered journal have distinct, positive numbers.\<close>

lemma own_records_numbers:
  assumes "seqs_ok rs"
  shows "distinct (map r_seq (own_records x rs))" and "\<forall>r \<in> set (own_records x rs). r_seq r > 0"
proof -
  have "distinct (map r_seq rs)" using assms by (simp add: seqs_ok_def distinct_map del: upt_Suc)
  then show "distinct (map r_seq (own_records x rs))" unfolding own_records_def by (rule distinct_map_filter)
  show "\<forall>r \<in> set (own_records x rs). r_seq r > 0"
    using seqs_ok_pos [OF assms] by (force simp: own_records_def)
qed

section \<open>The projection of a session\<close>

definition bad_execution :: "approval_execution \<Rightarrow> bool" where
  "bad_execution x = invalidApproval (fst (exec_fold (ax_records x))) (ax_id x)"

definition exec_of :: "scan_state \<Rightarrow> string \<Rightarrow> approval_execution option" where
  "exec_of S x = map_option (\<lambda>k. ss_executions S ! k) (ss_byID S x)"

definition latest_of :: "scan_state \<Rightarrow> string" where
  "latest_of S = (if ss_executions S = [] then [] else ax_id (last (ss_executions S)))"

definition row_projected :: "scan_state \<Rightarrow> session_row \<Rightarrow> bool" where
  "row_projected S row \<longleftrightarrow> sn_lastSeq row = ss_head S \<and> \<not> sn_approvalCorrupt row
     \<and> sn_reportingForkSeq row = ss_forkSeq S \<and> sn_latestExecution row = latest_of S
     \<and> sn_invalidApprovals row = int (length (filter bad_execution (ss_executions S)))"

definition tables_projected :: "scan_state \<Rightarrow> string \<Rightarrow> sqlite_db \<Rightarrow> bool" where
  "tables_projected S uid db \<longleftrightarrow>
     (\<forall>x. db_executions db (uid, x) = map_option (\<lambda>y. fst (exec_fold (ax_records y))) (exec_of S x))
     \<and> (\<forall>x. session_calls uid x db = (case exec_of S x of None \<Rightarrow> Map.empty | Some y \<Rightarrow> snd (exec_fold (ax_records y))))"

definition projected :: "sql_env \<Rightarrow> string \<Rightarrow> sqlite_db \<Rightarrow> bool" where
  "projected env uid db \<longleftrightarrow>
     (let S = fold scan_record (sql_recs env uid db) scan_init in
      tables_projected S uid db \<and> row_projected S (report_row uid db)
      \<and> (session_row_of uid db = None \<longrightarrow> events_of uid db = []))"

lemma filter_count_update:
  "k < length xs \<Longrightarrow> int (length (filter P (xs[k := y]))) =
     int (length (filter P xs)) - (if P (xs ! k) then 1 else 0) + (if P y then 1 else 0)"
proof (induction xs arbitrary: k)
  case (Cons x xs)
  show ?case
  proof (cases k)
    case (Suc n)
    with Cons.IH [of n] Cons.prems show ?thesis by (simp split: if_splits)
  qed simp
qed simp

section \<open>What projectApproval does to a session\<close>

definition advance_row :: "int64 \<Rightarrow> session_row \<Rightarrow> session_row" where
  "advance_row seq r = r\<lparr>sn_approvalCorrupt := (if sn_lastSeq r \<noteq> seq - 1 then True else sn_approvalCorrupt r), sn_lastSeq := seq\<rparr>"

lemma projectApproval_lifecycle:
  assumes "ev_kind ev = EventLifecycle"
  shows "db_executions (projectApproval uid seq ev db) = db_executions db"
    and "db_calls (projectApproval uid seq ev db) = db_calls db"
    and "session_row_of uid (projectApproval uid seq ev db) =
      map_option (\<lambda>r. (advance_row seq r)\<lparr>sn_reportingForkSeq :=
        (case ev_lifecycle ev of None \<Rightarrow> sn_reportingForkSeq r
         | Some l \<Rightarrow> if lc_kind l = LifecycleFork then seq else sn_reportingForkSeq r)\<rparr>) (session_row_of uid db)"
proof -
  have upd: "(\<lambda>r. r\<lparr>sn_approvalCorrupt := (if sn_lastSeq r \<noteq> seq - 1 then True else sn_approvalCorrupt r), sn_lastSeq := seq\<rparr>)
      = advance_row seq" by (simp add: fun_eq_iff advance_row_def)
  have key: "\<And>r. sn_session (advance_row seq r) = sn_session r" by (simp add: advance_row_def)
  show "db_executions (projectApproval uid seq ev db) = db_executions db"
    "db_calls (projectApproval uid seq ev db) = db_calls db"
    using assms by (simp_all add: projectApproval_def Let_def update_session_def split: option.split)
  show "session_row_of uid (projectApproval uid seq ev db) =
      map_option (\<lambda>r. (advance_row seq r)\<lparr>sn_reportingForkSeq :=
        (case ev_lifecycle ev of None \<Rightarrow> sn_reportingForkSeq r
         | Some l \<Rightarrow> if lc_kind l = LifecycleFork then seq else sn_reportingForkSeq r)\<rparr>) (session_row_of uid db)"
    unfolding projectApproval_def Let_def upd using assms
    by (auto simp: update_session_row key option.map_comp comp_def advance_row_def split: option.split intro!: option.map_cong)
qed

text \<open>The state of an execution before and after a record.\<close>

definition exec_before :: "string \<Rightarrow> log_record \<Rightarrow> sqlite_db \<Rightarrow> approvalExecution \<times> (string \<rightharpoonup> bool)" where
  "exec_before uid r db =
     (let x = ev_executionID (r_event r) in
      (case db_executions db (uid, x) of Some s \<Rightarrow> s | None \<Rightarrow> empty_approvalExecution\<lparr>pa_firstSeq := r_seq r\<rparr>,
       session_calls uid x db))"

lemma session_calls_update [simp]:
  "session_calls uid x (update_session u f db) = session_calls uid x db"
  "db_executions (update_session u f db) = db_executions db"
  by (simp_all add: session_calls_def update_session_def)

lemma put_calls_views [simp]:
  "session_calls uid y (put_calls uid x c db) = (if y = x then c else session_calls uid y db)"
  "db_executions (put_calls uid x c db) = db_executions db"
  "session_row_of u (put_calls uid x c db) = session_row_of u db"
  by (auto simp: session_calls_def put_calls_def session_row_of_def)

lemma project_execution_eq:
  fixes uid r db
  defines "x \<equiv> ev_executionID (r_event r)" and "p \<equiv> exec_before uid r db"
  defines "p' \<equiv> exec_step r p"
  shows "project_execution uid (r_seq r) (r_event r) db =
    (let d1 = (if db_executions db (uid, x) = None then update_session uid (\<lambda>row. row\<lparr>sn_latestExecution := x\<rparr>) db else db);
         d2 = put_calls uid x (snd p') d1;
         d3 = (if invalidApproval (fst p) x \<noteq> invalidApproval (fst p') x
               then update_session uid (\<lambda>row. row\<lparr>sn_invalidApprovals := sn_invalidApprovals row
                      + (if invalidApproval (fst p') x then 1 else - 1)\<rparr>) d2 else d2)
     in d3\<lparr>db_executions := (db_executions d3)((uid, x) \<mapsto> fst p')\<rparr>)"
  unfolding project_execution_def Let_def case_prod_beta x_def [symmetric] p'_def exec_step_def
  by (cases "db_executions db (uid, x)") (simp_all add: p_def exec_before_def x_def [symmetric] Let_def)

lemma projectApproval_execution:
  fixes uid r db
  assumes kind: "ev_kind (r_event r) \<noteq> EventLifecycle"
  defines "x \<equiv> ev_executionID (r_event r)" and "p \<equiv> exec_before uid r db"
  defines "p' \<equiv> exec_step r p" and "db' \<equiv> projectApproval uid (r_seq r) (r_event r) db"
  shows "db_executions db' = (db_executions db)((uid, x) \<mapsto> fst p')"
    and "session_calls uid y db' = (if y = x then snd p' else session_calls uid y db)"
    and "session_row_of uid db' =
      map_option (\<lambda>row. (advance_row (r_seq r) row)\<lparr>
        sn_latestExecution := (if db_executions db (uid, x) = None then x else sn_latestExecution row),
        sn_invalidApprovals := sn_invalidApprovals row - (if invalidApproval (fst p) x then 1 else 0)
           + (if invalidApproval (fst p') x then 1 else 0)\<rparr>) (session_row_of uid db)"
proof -
  let ?d0 = "update_session uid (advance_row (r_seq r)) db"
  have "(\<lambda>row. row\<lparr>sn_approvalCorrupt := (if sn_lastSeq row \<noteq> r_seq r - 1 then True else sn_approvalCorrupt row), sn_lastSeq := r_seq r\<rparr>)
      = advance_row (r_seq r)" by (simp add: fun_eq_iff advance_row_def)
  then have db': "db' = project_execution uid (r_seq r) (r_event r) ?d0"
    using kind by (simp add: db'_def projectApproval_def Let_def)
  have before: "exec_before uid r ?d0 = p" by (simp add: p_def exec_before_def Let_def)
  note eq = db' [unfolded project_execution_eq before p'_def [symmetric] x_def [symmetric] Let_def]
  show "db_executions db' = (db_executions db)((uid, x) \<mapsto> fst p')"
    unfolding eq by simp
  have keep: "session_calls uid y (d\<lparr>db_executions := m\<rparr>) = session_calls uid y d" for d m
    by (simp add: session_calls_def)
  show "session_calls uid y db' = (if y = x then snd p' else session_calls uid y db)"
    unfolding eq by (simp add: keep)
  have rowkeep: "session_row_of uid (d\<lparr>db_executions := m\<rparr>) = session_row_of uid d" for d m
    by (simp add: session_row_of_def)
  show "session_row_of uid db' =
      map_option (\<lambda>row. (advance_row (r_seq r) row)\<lparr>
        sn_latestExecution := (if db_executions db (uid, x) = None then x else sn_latestExecution row),
        sn_invalidApprovals := sn_invalidApprovals row - (if invalidApproval (fst p) x then 1 else 0)
           + (if invalidApproval (fst p') x then 1 else 0)\<rparr>) (session_row_of uid db)"
    unfolding eq rowkeep
    by (cases "session_row_of uid db") (auto simp: update_session_row advance_row_def)
qed

section \<open>Every operation keeps the projection in step\<close>

lemma row_projected_same: "same_reports r r' \<Longrightarrow> row_projected S r \<Longrightarrow> row_projected S r'"
  by (simp add: same_reports_def row_projected_def)

lemma project_record:
  assumes g: "grouped rs S" and num: "seqs_ok (rs @ [r])" and tab: "tables_projected S uid db"
    and row: "session_row_of uid db = Some row" and proj: "row_projected S row"
  defines "db' \<equiv> projectApproval uid (r_seq r) (r_event r) db" and "S' \<equiv> scan_record r S"
  shows "tables_projected S' uid db' \<and> (\<exists>row'. session_row_of uid db' = Some row' \<and> row_projected S' row')"
proof -
  have head: "ss_head S = r_seq r - 1" using g num by (simp add: grouped_def seqs_ok_snoc)
  have corrupt: "sn_lastSeq row = r_seq r - 1" "\<not> sn_approvalCorrupt row" using proj head by (simp_all add: row_projected_def)
  show ?thesis
  proof (cases "ev_kind (r_event r) = EventLifecycle")
    case True
    have "exec_of S' = exec_of S" by (simp add: fun_eq_iff S'_def exec_of_def scan_record_lifecycle [OF True])
    then have "tables_projected S' uid db'"
      using tab by (simp add: tables_projected_def db'_def projectApproval_lifecycle [OF True] session_calls_def)
    moreover have "\<exists>row'. session_row_of uid db' = Some row' \<and> row_projected S' row'"
      using row proj corrupt unfolding db'_def projectApproval_lifecycle(3) [OF True]
      by (auto simp: S'_def scan_record_lifecycle [OF True] row_projected_def advance_row_def latest_of_def split: option.splits)
    ultimately show ?thesis ..
  next
    case False
    let ?x = "ev_executionID (r_event r)" and ?E = "ss_executions S"
    note after = projectApproval_execution [where uid = uid and db = db, OF False, folded db'_def]
    have count: "sn_invalidApprovals row = int (length (filter bad_execution ?E))"
      and latest: "sn_latestExecution row = latest_of S" and fork: "sn_reportingForkSeq row = ss_forkSeq S"
      using proj by (simp_all add: row_projected_def)
    show ?thesis
    proof (cases "ss_byID S ?x")
      case (Some k)
      let ?y = "?E ! k"
      have k: "k < length ?E" "ax_id ?y = ?x" using g Some by (auto simp: grouped_def)
      have "group_ok rs ?y" using g k(1) by (simp add: grouped_def)
      then have ne: "ax_records ?y \<noteq> []" unfolding group_ok_def by blast
      have "exec_of S ?x = Some ?y" by (simp add: exec_of_def Some)
      then have before: "exec_before uid r db = exec_fold (ax_records ?y)" and found: "db_executions db (uid, ?x) \<noteq> None"
        using tab by (simp_all add: tables_projected_def exec_before_def)
      have now: "exec_step r (exec_fold (ax_records ?y)) = exec_fold (ax_records (grown r ?y))"
        using exec_fold_snoc [OF ne] by (simp add: grown_def)
      have S': "S' = S\<lparr>ss_head := r_seq r, ss_executions := ?E[k := grown r ?y]\<rparr>"
        unfolding S'_def by (rule scan_record_known [OF False Some])
      have exec: "exec_of S' z = (if z = ?x then Some (grown r ?y) else exec_of S z)" for z
      proof (cases "ss_byID S z")
        case (Some j)
        then have "ax_id (?E ! j) = z" using g by (auto simp: grouped_def)
        with Some \<open>ss_byID S ?x = Some k\<close> k show ?thesis by (auto simp: exec_of_def S' nth_list_update)
      qed (use \<open>ss_byID S ?x = Some k\<close> in \<open>auto simp: exec_of_def S'\<close>)
      have "tables_projected S' uid db'"
        using tab unfolding tables_projected_def exec after before now by auto
      moreover have "\<exists>row'. session_row_of uid db' = Some row' \<and> row_projected S' row'"
      proof -
        have "latest_of S' = latest_of S"
          using k by (auto simp: latest_of_def S' grown_def last_conv_nth nth_list_update)
        moreover have "bad_execution ?y = invalidApproval (fst (exec_fold (ax_records ?y))) ?x"
          "bad_execution (grown r ?y) = invalidApproval (fst (exec_fold (ax_records (grown r ?y)))) ?x"
          using k(2) by (simp_all add: bad_execution_def grown_def)
        ultimately show ?thesis
          using row corrupt count latest fork found
          unfolding after before now
          by (auto simp: row_projected_def advance_row_def S' filter_count_update [OF k(1)])
      qed
      ultimately show ?thesis ..
    next
      case None
      let ?new = "\<lparr>ax_id = ?x, ax_records = [r], ax_gated = approval_evidence_event (r_event r)\<rparr>"
      have "exec_of S ?x = None" by (simp add: exec_of_def None)
      then have before: "exec_before uid r db = exec_init (r_seq r)" and found: "db_executions db (uid, ?x) = None"
        using tab by (simp_all add: tables_projected_def exec_before_def exec_init_def)
      have now: "exec_step r (exec_init (r_seq r)) = exec_fold [r]" by (simp add: exec_fold_def)
      have S': "S' = S\<lparr>ss_head := r_seq r, ss_executions := ?E @ [?new], ss_byID := (ss_byID S)(?x \<mapsto> length ?E)\<rparr>"
        unfolding S'_def by (rule scan_record_new [OF False None])
      have exec: "exec_of S' z = (if z = ?x then Some ?new else exec_of S z)" for z
      proof (cases "ss_byID S z")
        case (Some j)
        then have "j < length ?E" "z \<noteq> ?x" using g None by (auto simp: grouped_def)
        with Some show ?thesis by (simp add: exec_of_def S' nth_append)
      qed (use None in \<open>auto simp: exec_of_def S'\<close>)
      have "tables_projected S' uid db'"
        using tab unfolding tables_projected_def exec after before now by auto
      moreover have "\<exists>row'. session_row_of uid db' = Some row' \<and> row_projected S' row'"
      proof -
        have "\<not> invalidApproval (fst (exec_init (r_seq r))) ?x"
          by (simp add: exec_init_def empty_approvalExecution_def invalidApproval_def)
        moreover have "bad_execution ?new = invalidApproval (fst (exec_fold [r])) ?x" by (simp add: bad_execution_def)
        ultimately show ?thesis
          using row corrupt count fork found unfolding after before now
          by (simp add: row_projected_def advance_row_def S' latest_of_def)
      qed
      ultimately show ?thesis ..
    qed
  qed
qed


text \<open>Operations that leave the journal and the reporting of a session alone keep its projection.\<close>

lemma projected_same:
  assumes "projected env uid db" and "events_of uid db' = events_of uid db"
    and "\<And>x. db_executions db' (uid, x) = db_executions db (uid, x)"
    and "\<And>x c. db_calls db' (uid, x, c) = db_calls db (uid, x, c)"
    and "same_reports (report_row uid db) (report_row uid db')"
    and "session_row_of uid db' = None \<Longrightarrow> session_row_of uid db = None"
  shows "projected env uid db'"
  using assms row_projected_same [OF assms(5)]
  by (auto simp: projected_def Let_def tables_projected_def session_calls_def sql_recs_def)

lemma same_reports_refl [simp]: "same_reports r r"
  by (simp add: same_reports_def)

lemma projected_elsewhere:
  "projected env k db \<Longrightarrow> elsewhere uid db db' \<Longrightarrow> k \<noteq> uid \<Longrightarrow> projected env k db'"
  by (erule projected_same) (auto simp: elsewhere_def report_row_def)

lemma projected_registry: "projected env k db \<Longrightarrow> registry_only db db' \<Longrightarrow> projected env k db'"
  by (erule projected_same) (auto simp: registry_only_def report_row_def events_of_def session_row_of_def)

lemma projected_clock [simp]: "projected env k (db\<lparr>db_clock := t\<rparr>) = projected env k db"
  by (simp add: projected_def Let_def tables_projected_def session_calls_def report_row_def)

lemma projected_sessions:
  assumes "projected env uid db" and "sessions_only uid db db'" and "session_row_of uid db' = Some row"
    and "same_reports (report_row uid db) row"
  shows "projected env uid db'"
  using assms(1)
  by (rule projected_same) (use assms(2-4) in \<open>auto simp: sessions_only_def report_row_def events_of_def\<close>)

lemma tables_projected_same:
  "db_executions db' = db_executions db \<Longrightarrow> db_calls db' = db_calls db \<Longrightarrow>
     tables_projected (S\<lparr>ss_head := h\<rparr>) uid db' = tables_projected S uid db"
  by (simp add: tables_projected_def session_calls_def exec_of_def)

lemma projected_append:
  assumes env: "env_ok env" and ok: "db_ok db" and ev: "wire_normal ev" and "sealed env uid f ev db r"
    and "sq_marshal env (EventToProto (cn_codec (sq_canon env)) ev) = Inr blob" and proj: "projected env uid db"
  shows "projected env uid (after_append env uid ev r blob t db)"
proof -
  let ?a = "add_event uid r blob (db\<lparr>db_clock := t\<rparr>)"
  let ?b = "touchSession env uid ev ?a"
  let ?S = "fold scan_record (sql_recs env uid db) scan_init"
  have d: "sql_decode env blob = Inr ev" by (rule stored_decodes(1) [OF env ev assms(5)])
  have n: "wire_norm (cn_codec (sq_canon env)) ev = r_event r"
    using env ev assms(4) wire_norm_id by (simp add: env_ok_def sealed_def)
  have db': "after_append env uid ev r blob t db = projectApproval uid (r_seq r) (r_event r) ?b"
    by (simp add: after_append_def n)
  have recs: "sql_recs env uid (after_append env uid ev r blob t db) = sql_recs env uid db @ [r]"
    using assms(4) d by (cases r) (simp add: sql_recs_def after_append_views row_record_def new_row_def sealed_def)
  have num: "seqs_ok (sql_recs env uid db @ [r])"
    using recs_seqs_ok [OF ok, of env uid] sql_head_recs [OF ok, of uid env] assms(4) by (simp add: seqs_ok_snoc sealed_def)
  note tv = touchSession_views [where env = env and uid = uid and ev = ev and db = ?a]
  have tab: "tables_projected ?S uid ?b"
  proof -
    have "db_executions ?b = db_executions db" "db_calls ?b = db_calls db"
      unfolding tv(2,3) add_event_views(4,5) by simp_all
    from tables_projected_same [OF this, of "ss_head ?S" ?S uid] proj show ?thesis by (simp add: projected_def Let_def)
  qed
  obtain row where row: "session_row_of uid ?b = Some row" and same: "same_reports (report_row uid db) row"
    using tv(7) [of uid] by (auto simp: add_event_views same_reports_def report_row_def fresh_row_def touch_row_def
        split: option.splits)
  have "row_projected ?S row" using row_projected_same [OF same] proj by (simp add: projected_def Let_def)
  from project_record [OF grouped_scan num tab row this] db' recs show ?thesis
    by (auto simp: projected_def Let_def report_row_def)
qed

lemma projected_delete:
  assumes env: "env_ok env" and ok: "db_ok db" and row: "session_row_of uid db = Some row"
    and "sealed env uid f (delete_event now) db r"
    and "sq_marshal env (EventToProto (cn_codec (sq_canon env)) (delete_event now)) = Inr blob"
    and proj: "projected env uid db"
  shows "projected env uid (update_session uid (mark_deleted now (sql_head uid db) r) (add_event uid r blob db))"
proof -
  let ?db' = "update_session uid (mark_deleted now (sql_head uid db) r) (add_event uid r blob db)"
  let ?S = "fold scan_record (sql_recs env uid db) scan_init"
  have d: "sql_decode env blob = Inr (delete_event now)" by (rule stored_decodes(1) [OF env wire_normal_delete assms(5)])
  have ev: "r_event r = delete_event now" "r_seq r = sql_head uid db + 1" using assms(4) by (simp_all add: sealed_def)
  have recs: "sql_recs env uid ?db' = sql_recs env uid db @ [r]"
    using assms(4) d by (cases r) (simp add: sql_recs_def deleted_views row_record_def new_row_def sealed_def)
  have life: "ev_kind (r_event r) = EventLifecycle" by (simp add: ev delete_event_def)
  have S: "scan_record r ?S = ?S\<lparr>ss_head := r_seq r\<rparr>"
    by (simp add: scan_record_lifecycle [OF life] ev delete_event_def)
  have head: "ss_head ?S = sql_head uid db"
    using grouped_scan [of "sql_recs env uid db"] sql_head_recs [OF ok, of uid env] by (simp add: grouped_def)
  have rowp: "row_projected ?S row" using proj row by (simp add: projected_def Let_def report_row_def)
  have "tables_projected (scan_record r ?S) uid ?db'"
    using tables_projected_same [OF deleted_views(3,4)] proj by (simp add: projected_def Let_def S)
  moreover have "row_projected (scan_record r ?S) (mark_deleted now (sql_head uid db) r row)"
    using rowp head by (simp add: row_projected_def mark_deleted_def S latest_of_def)
  ultimately show ?thesis using row by (simp add: projected_def Let_def recs deleted_views report_row_def)
qed

lemma projected_put:
  assumes "projected env uid db" and "sm_uid m = uid"
  shows "projected env uid (snd (putSession env' m db))"
proof -
  obtain res db' where a: "putSession env' m db = (res, db')" by fastforce
  then show ?thesis
  proof (cases rule: putSession_cases)
    case (put now)
    obtain row where "session_row_of uid db' = Some row" "same_reports (report_row uid db) row"
      using put(4) [of uid] assms(2)
      by (auto simp: Let_def same_reports_def report_row_def meta_row_def split: option.splits)
    with projected_sessions [OF assms(1)] put(5) assms(2) a show ?thesis by simp
  qed (use a assms(1) in simp)
qed

lemma projected_step:
  assumes env: "env_ok env" and ok: "db_ok db" and c: "call_normal c" and proj: "projected env uid db"
  shows "projected env uid (db_step env c db)"
proof (cases "call_session c = Some uid")
  case False
  show ?thesis
  proof (cases "call_session c")
    case None
    from projected_registry [OF proj db_step_effect(3) [OF ok None]] show ?thesis .
  next
    case (Some u)
    with False projected_elsewhere [OF proj db_step_effect(2) [OF ok Some]] show ?thesis by simp
  qed
next
  case True
  show ?thesis
  proof (cases c)
    case (DbAppend u ex f ev)
    obtain res db' where a: "Log_Append env uid ex f ev db = (res, db')" by fastforce
    from ok this show ?thesis
    proof (cases rule: Log_Append_cases)
      case (appended r blob t t')
      with projected_append [OF env ok _ appended(2,3) proj, of t] c DbAppend True a show ?thesis by simp
    qed (use DbAppend a proj True in auto)
  next
    case (DbNewFence u)
    obtain res db' where a: "Log_NewFence env uid db = (res, db')" by fastforce
    then show ?thesis
    proof (cases rule: Log_NewFence_cases)
      case (minted row)
      then have "session_row_of uid db' = Some row" by simp
      with projected_sessions [OF proj minted(7) _ minted(8)] DbNewFence a True show ?thesis by simp
    qed (use DbNewFence a proj True in auto)
  next
    case (DbPutSession m)
    then show ?thesis using projected_put [OF proj, of m env] True by (simp add: PutSession_def)
  next
    case (DbDeleteSession ctx u)
    obtain res db' where a: "DeleteSession env ctx uid db = (res, db')" by fastforce
    from ok this show ?thesis
    proof (cases rule: DeleteSession_cases)
      case (deleted row now r blob t)
      with projected_delete [OF env ok deleted(1,3,4) proj] DbDeleteSession True a show ?thesis by simp
    qed (use DbDeleteSession a proj True in auto)
  next
    case (DbPutSessionOnActiveHarness m b)
    obtain res db' where a: "PutSessionOnActiveHarness env m b db = (res, db')" by fastforce
    then show ?thesis
    proof (cases rule: PutSessionOnActiveHarness_cases)
      case (put db2 t)
      then have "projected env uid db2"
        using projected_put [of env uid "db\<lparr>db_clock := Suc (db_clock db)\<rparr>" m env] proj True DbPutSessionOnActiveHarness by simp
      with put DbPutSessionOnActiveHarness a show ?thesis by simp
    qed (use DbPutSessionOnActiveHarness a proj in auto)
  qed (use True in auto)
qed

lemma projected_run:
  "env_ok env \<Longrightarrow> db_ok db \<Longrightarrow> list_all call_normal cs \<Longrightarrow> projected env uid db \<Longrightarrow> projected env uid (db_run env cs db)"
proof (induction cs arbitrary: db)
  case (Cons c cs)
  then show ?case
    using projected_step [of env db c uid] db_step_effect(1) [of db env c] by (simp add: db_run_def)
qed (simp add: db_run_def)

lemma projected_empty: "projected env uid empty_db"
  by (simp add: projected_def empty_db_def sql_recs_def events_of_def tables_projected_def session_calls_def exec_of_def
      scan_init_def row_projected_def report_row_def session_row_of_def default_row_def latest_of_def fun_eq_iff)

section \<open>What is reported\<close>

text \<open>The approval that a strict inspection of a journal finds open, or the empty reference.\<close>

definition open_approval :: "log_record list \<Rightarrow> approval_ref" where
  "open_approval rs =
     (case scanApprovalRecords rs 0 of
        Inl _ \<Rightarrow> empty_ref
      | Inr scan \<Rightarrow>
          (case selected_state scan of
             None \<Rightarrow> empty_ref
           | Some st \<Rightarrow>
               (case as_request st of
                  None \<Rightarrow> empty_ref
                | Some rq \<Rightarrow>
                    if as_decision st = None \<and> as_receipt st = None \<and> \<not> as_inherited st \<and> \<not> as_completed st
                    then \<lparr>ref_executionID = as_executionID st, ref_toolCallID = tc_id (as_call st),
                          ref_requestSeq = r_seq rq\<rparr>
                    else empty_ref)))"

lemma scan_executions_succeeds:
  "\<not> isl (scan_executions h f xs states sel) \<longleftrightarrow> (\<forall>x \<in> set xs. ax_gated x \<longrightarrow> \<not> isl (inspectApprovalExecution x h f))"
  by (induction xs arbitrary: states sel) (auto split: sum.splits)

text \<open>The call of a projected execution is one of its records, and a request makes it gated.\<close>

lemma reduce_call_fields:
  "pa_callSeq (fst (approval_reduce n e calls a)) = n \<or>
   pa_callID (fst (approval_reduce n e calls a)) = pa_callID a \<and> pa_callSeq (fst (approval_reduce n e calls a)) = pa_callSeq a"
proof (cases "ev_kind e = EventToolCall")
  case True
  then show ?thesis by (simp add: approval_reduce_def reduce_call_def invalidate_def Let_def split: option.split)
next
  case False
  then show ?thesis
    by (simp add: approval_reduce_def reduce_start_def reduce_input_def reduce_request_def reduce_decision_def
        reduce_result_def invalidate_def Let_def split: event_kind.split option.split)
qed

lemma exec_step_call:
  "pa_callSeq (fst (exec_step r p)) = r_seq r \<or>
    pa_callID (fst (exec_step r p)) = pa_callID (fst p) \<and> pa_callSeq (fst (exec_step r p)) = pa_callSeq (fst p)"
proof -
  define a where "a = (if approval_evidence_event (r_event r) then (fst p)\<lparr>pa_gated := True\<rparr> else fst p)"
  have "pa_callID a = pa_callID (fst p)" "pa_callSeq a = pa_callSeq (fst p)" by (simp_all add: a_def)
  moreover have "exec_step r p = (if pa_invalid a then (a, snd p) else approval_reduce (r_seq r) (r_event r) (snd p) a)"
    by (simp add: exec_step_def a_def)
  ultimately show ?thesis using reduce_call_fields [of "r_seq r" "r_event r" "snd p" a] by simp
qed

lemma reduce_request_fields:
  "ev_kind e \<noteq> EventApprovalRequest \<Longrightarrow>
   pa_requestSeq (fst (approval_reduce n e calls a)) = pa_requestSeq a \<or> pa_requestSeq (fst (approval_reduce n e calls a)) = 0"
  by (simp add: approval_reduce_def reduce_start_def reduce_input_def reduce_call_def reduce_decision_def
      reduce_result_def invalidate_def Let_def split: event_kind.split option.split)

lemma exec_step_request:
  assumes "pa_requestSeq (fst (exec_step r p)) \<noteq> 0"
  shows "pa_requestSeq (fst p) \<noteq> 0 \<or> approval_evidence_event (r_event r)"
proof -
  define a where "a = (if approval_evidence_event (r_event r) then (fst p)\<lparr>pa_gated := True\<rparr> else fst p)"
  have a: "pa_requestSeq a = pa_requestSeq (fst p)" by (simp add: a_def)
  have "exec_step r p = (if pa_invalid a then (a, snd p) else approval_reduce (r_seq r) (r_event r) (snd p) a)"
    by (simp add: exec_step_def a_def)
  then have "pa_requestSeq (fst p) \<noteq> 0 \<or> ev_kind (r_event r) = EventApprovalRequest"
    using reduce_request_fields [of "r_event r" "r_seq r" "snd p" a] assms a
    by (cases "ev_kind (r_event r) = EventApprovalRequest") (auto split: if_splits)
  then show ?thesis by (auto simp: approval_evidence_event_def)
qed

lemma exec_fold_call: "pa_callID (fst (exec_fold rs)) \<noteq> [] \<Longrightarrow> pa_callSeq (fst (exec_fold rs)) \<in> r_seq ` set rs"
proof (induction rs rule: rev_induct)
  case Nil
  then show ?case by (simp add: exec_fold_def exec_init_def empty_approvalExecution_def)
next
  case (snoc r rs)
  show ?case
  proof (cases "rs = []")
    case True
    then show ?thesis
      using snoc.prems exec_step_call [of r "exec_init (r_seq r)"]
      by (auto simp: exec_fold_def exec_init_def empty_approvalExecution_def)
  next
    case False
    then show ?thesis using snoc exec_step_call [of r "exec_fold rs"] by (auto simp: exec_fold_snoc)
  qed
qed

lemma exec_fold_request:
  "pa_requestSeq (fst (exec_fold rs)) \<noteq> 0 \<Longrightarrow> \<exists>r \<in> set rs. approval_evidence_event (r_event r)"
proof (induction rs rule: rev_induct)
  case Nil
  then show ?case by (simp add: exec_fold_def exec_init_def empty_approvalExecution_def)
next
  case (snoc r rs)
  show ?case
  proof (cases "rs = []")
    case True
    then show ?thesis
      using snoc.prems exec_step_request [of r "exec_init (r_seq r)"]
      by (auto simp: exec_fold_def exec_init_def empty_approvalExecution_def)
  next
    case False
    then show ?thesis using snoc exec_step_request [of r "exec_fold rs"] by (auto simp: exec_fold_snoc)
  qed
qed

lemma seqs_ok_unique: "seqs_ok rs \<Longrightarrow> a \<in> set rs \<Longrightarrow> b \<in> set rs \<Longrightarrow> r_seq a = r_seq b \<Longrightarrow> a = b"
proof -
  assume "seqs_ok rs" and "a \<in> set rs" "b \<in> set rs" "r_seq a = r_seq b"
  moreover from \<open>seqs_ok rs\<close> have "distinct (map r_seq rs)" by (simp add: seqs_ok_def distinct_map del: upt_Suc)
  ultimately show ?thesis by (auto simp: distinct_map dest: inj_onD)
qed

text \<open>A call of this execution is never the record of the fork.\<close>

lemma call_not_fork:
  assumes "seqs_ok rs" and "grouped rs S" and "pa_callID (fst (exec_fold (own_records x rs))) \<noteq> []"
  shows "pa_callSeq (fst (exec_fold (own_records x rs))) \<noteq> ss_forkSeq S"
proof
  let ?n = "pa_callSeq (fst (exec_fold (own_records x rs)))"
  assume eq: "?n = ss_forkSeq S"
  obtain r where r: "r \<in> set (own_records x rs)" "r_seq r = ?n" using exec_fold_call [OF assms(3)] by auto
  then have "r_seq r > 0" using own_records_numbers(2) [OF assms(1)] by blast
  then obtain q where "q \<in> set rs" "ev_kind (r_event q) = EventLifecycle" "r_seq q = ss_forkSeq S"
    using assms(2) eq r by (auto simp: grouped_def)
  with r eq seqs_ok_unique [OF assms(1), of r q] show False by (auto simp: own_records_def)
qed


text \<open>
  The last execution: the projection reports its gate exactly when the inspection selects an open one.
\<close>

lemma reported_gate:
  assumes num: "seqs_ok rs" and g: "grouped rs S" and y: "group_ok rs y"
    and ins: "inspectApprovalExecution y h (ss_forkSeq S) = Inr new"
    and row: "row_projected S row" and clean: "sn_invalidApprovals row = 0"
  defines "a \<equiv> fst (exec_fold (ax_records y))"
  shows "reportable row (ss_head S) (ax_id y) a \<longleftrightarrow>
      new \<noteq> [] \<and> as_request (last new) \<noteq> None \<and> as_decision (last new) = None \<and> as_receipt (last new) = None
      \<and> \<not> as_inherited (last new) \<and> \<not> as_completed (last new)"
    and "new \<noteq> [] \<Longrightarrow> pa_callID a = tc_id (as_call (last new)) \<and> pa_requestSeq a = seq_of (as_request (last new))"
proof -
  let ?f = "ss_forkSeq S" and ?p = "exec_fold (ax_records y)"
  have recs: "ax_records y = own_records (ax_id y) rs" "ax_records y \<noteq> []" using y unfolding group_ok_def by blast+
  from ins obtain s where s: "inspect_records (ax_id y) h ?f 0 (ax_records y) (inspect_init (ax_id y)) = Inr s"
    and id: "ax_id y \<noteq> []" and valid: "validateInputs (in_invocation s) = None" and new: "new = finish_states s"
    by (auto simp: inspectApprovalExecution_def split: if_splits sum.splits option.splits)
  have "agree ?f (inspect_records (ax_id y) h ?f 0 (ax_records y) (inspect_init (ax_id y))) ?p"
    using own_records_numbers [OF num] recs by (intro agree_execution) auto
  with s have rel: "inspect_rel ?f s ?p" by (simp add: agree_def)
  have inputs: "\<not> pa_hasStart a \<or> (case pa_expectedInputs a of None \<Rightarrow> False
      | Some n \<Rightarrow> n \<ge> 0 \<and> pa_inputs a = pa_messages a \<and> pa_inputs a = n)"
    using invalid_inputs [OF rel] valid by (auto simp: a_def split: option.splits)
  have fields: "\<not> pa_invalid a" "pa_completed a = rx_completed (in_invocation s)" "call_rel ?f (in_last s) a"
    using rel by (simp_all add: inspect_rel_def a_def)
  have rep: "reportable row (ss_head S) (ax_id y) a \<longleftrightarrow> pa_callSeq a > ?f \<and> \<not> rx_completed (in_invocation s)
      \<and> \<not> pa_receipt a \<and> pa_requestSeq a > 0 \<and> pa_decisionSeq a = 0"
    using row clean id inputs fields by (auto simp: reportable_def row_projected_def)
  have ends: "new \<noteq> [] \<longleftrightarrow> in_states s \<noteq> []"
    "new \<noteq> [] \<Longrightarrow> last new = (last (in_states s))\<lparr>as_invocation := invocation (in_invocation s),
        as_completed := rx_completed (in_invocation s)\<rparr>"
    by (auto simp: new finish_states_def last_map)
  show "reportable row (ss_head S) (ax_id y) a \<longleftrightarrow>
      new \<noteq> [] \<and> as_request (last new) \<noteq> None \<and> as_decision (last new) = None \<and> as_receipt (last new) = None
      \<and> \<not> as_inherited (last new) \<and> \<not> as_completed (last new)"
  proof (cases "in_states s = []")
    case True
    then show ?thesis using rep fields(3) ends by (simp add: in_last_def call_rel_def)
  next
    case False
    let ?st = "last (in_states s)"
    have c: "call_rel ?f (Some ?st) a" using fields(3) False by (simp add: in_last_def)
    then have "pa_callID a \<noteq> []" unfolding call_rel_def option.simps by blast
    then have "pa_callSeq a \<noteq> ?f"
      using call_not_fork [OF num g, of "ax_id y"] unfolding a_def recs(1) by blast
    moreover have "seq_of (as_request ?st) > 0 \<longleftrightarrow> as_request ?st \<noteq> None" "seq_of (as_decision ?st) = 0 \<longleftrightarrow> as_decision ?st = None"
      using c by (auto simp: call_rel_def seq_of_def split: option.splits)
    ultimately show ?thesis using rep c ends False by (auto simp: call_rel_def)
  qed
  show "new \<noteq> [] \<Longrightarrow> pa_callID a = tc_id (as_call (last new)) \<and> pa_requestSeq a = seq_of (as_request (last new))"
    using ends fields(3) by (simp add: in_last_def call_rel_def)
qed

lemma no_gate_reported:
  assumes "group_ok rs y" and "\<not> ax_gated y"
  shows "\<not> reportable row h x (fst (exec_fold (ax_records y)))"
  using assms exec_fold_request [of "ax_records y"] unfolding group_ok_def reportable_def by force

lemma scan_outcome:
  assumes "grouped rs S" and "S = fold scan_record rs scan_init" and "seqs_ok rs"
  shows "isl (scanApprovalRecords rs 0) \<longleftrightarrow> filter bad_execution (ss_executions S) \<noteq> []"
proof -
  have bad: "bad_execution x \<longleftrightarrow> ax_gated x \<and> isl (inspectApprovalExecution x (ss_head S) (ss_forkSeq S))"
    if "x \<in> set (ss_executions S)" for x
  proof -
    have "group_ok rs x" using assms(1) that by (simp add: grouped_def)
    then have "ax_records x = own_records (ax_id x) rs" "ax_records x \<noteq> []"
      "ax_gated x = (\<exists>r \<in> set (ax_records x). approval_evidence_event (r_event r))"
      unfolding group_ok_def by blast+
    with own_records_numbers [OF assms(3), of "ax_id x"] show ?thesis
      unfolding bad_execution_def by (intro invalid_execution) auto
  qed
  have "isl (scanApprovalRecords rs 0) = isl (scan_executions (ss_head S) (ss_forkSeq S) (ss_executions S) [] None)"
    by (auto simp: scanApprovalRecords_all Let_def assms(2) split: sum.split)
  also have "\<dots> \<longleftrightarrow> (\<exists>x \<in> set (ss_executions S). bad_execution x)"
    using scan_executions_succeeds [of "ss_head S" "ss_forkSeq S" "ss_executions S" "[]" None] bad by blast
  finally show ?thesis by (auto simp: filter_empty_conv)
qed


lemma inspected_exid:
  assumes "inspectApprovalExecution y h f = Inr new" and "st \<in> set new"
  shows "as_executionID st = ax_id y"
proof -
  from assms(1) obtain s where s: "inspect_records (ax_id y) h f 0 (ax_records y) (inspect_init (ax_id y)) = Inr s"
    and new: "new = finish_states s"
    by (auto simp: inspectApprovalExecution_def split: if_splits sum.splits option.splits)
  from s have "all_exid (ax_id y) s" by (rule inspect_records_exid) (simp add: all_exid_def inspect_init_def)
  with new assms(2) show ?thesis by (auto simp: all_exid_def finish_states_def)
qed

lemma pending_is_open:
  assumes ok: "db_ok db" and proj: "projected env uid db" and row: "session_row_of uid db = Some row"
  shows "pending_ref row db = open_approval (sql_recs env uid db)"
proof -
  define rs where "rs = sql_recs env uid db"
  define S where "S = fold scan_record rs scan_init"
  have num: "seqs_ok rs" unfolding rs_def by (rule recs_seqs_ok [OF ok])
  have g: "grouped rs S" unfolding S_def by (rule grouped_scan)
  have rowp: "row_projected S row" and tab: "tables_projected S uid db"
    using proj row by (simp_all add: projected_def Let_def report_row_def rs_def S_def)
  have uid: "sn_session row = uid" by (rule session_row_of_uid [OF row])
  have head: "sql_head uid db = ss_head S" using g sql_head_recs [OF ok, of uid env] by (simp add: grouped_def rs_def)
  have latest: "sn_latestExecution row = latest_of S" using rowp by (simp add: row_projected_def)
  have invalid: "sn_invalidApprovals row = 0 \<longleftrightarrow> \<not> isl (scanApprovalRecords rs 0)"
    using rowp scan_outcome [OF g S_def num] by (simp add: row_projected_def)
  show ?thesis
  proof (cases "ss_executions S" rule: rev_cases)
    case Nil
    then have "db_executions db (uid, latest_of S) = None"
      using tab g by (cases "ss_byID S (latest_of S)") (auto simp: tables_projected_def exec_of_def grouped_def)
    moreover have "scanApprovalRecords rs 0 = Inr \<lparr>sc_head = ss_head S, sc_states = [], sc_selected = None\<rparr>"
      using Nil by (simp add: scanApprovalRecords_all S_def Let_def)
    ultimately show ?thesis
      using uid latest by (simp add: pending_ref_def open_approval_def rs_def [symmetric] selected_state_def)
  next
    case (snoc E y)
    have y: "group_ok rs y" using g snoc by (simp add: grouped_def)
    have "ss_byID S (ax_id y) = Some (length E)" using g snoc by (fastforce simp: grouped_def)
    then have "db_executions db (uid, ax_id y) = Some (fst (exec_fold (ax_records y)))"
      using tab snoc by (simp add: tables_projected_def exec_of_def)
    then have pend: "pending_ref row db =
        (let q = (if reportable row (ss_head S) (ax_id y) (fst (exec_fold (ax_records y)))
                  then pa_requestSeq (fst (exec_fold (ax_records y))) else 0)
         in if q = 0 then empty_ref
            else \<lparr>ref_executionID = ax_id y, ref_toolCallID = pa_callID (fst (exec_fold (ax_records y))), ref_requestSeq = q\<rparr>)"
      using uid latest snoc head by (simp add: pending_ref_def latest_of_def Let_def)
    show ?thesis
    proof (cases "sn_invalidApprovals row = 0")
      case False
      then have "isl (scanApprovalRecords rs 0)" using invalid by simp
      then have "open_approval rs = empty_ref" by (auto simp: open_approval_def split: sum.splits)
      with pend False show ?thesis by (simp add: reportable_def rs_def)
    next
      case True
      then have "\<not> isl (scan_executions (ss_head S) (ss_forkSeq S) (E @ [y]) [] None)"
        using invalid snoc by (auto simp: scanApprovalRecords_all Let_def S_def split: sum.splits)
      note ok = this [unfolded scan_executions_succeeds]
      then have "\<not> isl (scan_executions (ss_head S) (ss_forkSeq S) E [] None)"
        by (subst scan_executions_succeeds) simp
      then obtain sts0 q0 where E: "scan_executions (ss_head S) (ss_forkSeq S) E [] None = Inr (sts0, q0)"
        by (cases "scan_executions (ss_head S) (ss_forkSeq S) E [] None") auto
      from ok have gated: "ax_gated y \<Longrightarrow> \<not> isl (inspectApprovalExecution y (ss_head S) (ss_forkSeq S))" by simp
      note snocs = scan_executions_snoc [of "ss_head S" "ss_forkSeq S" E y "[]" None None]
      show ?thesis
      proof (cases "ax_gated y")
        case False
        with E snoc have "selected_state (projr (scanApprovalRecords rs 0)) = None \<and> \<not> isl (scanApprovalRecords rs 0)"
          by (simp add: scanApprovalRecords_all Let_def S_def [symmetric] snocs selected_state_def)
        then have "open_approval rs = empty_ref" by (cases "scanApprovalRecords rs 0") (auto simp: open_approval_def)
        with pend no_gate_reported [OF y False] show ?thesis by (simp add: rs_def)
      next
        case gy: True
        obtain new where new: "inspectApprovalExecution y (ss_head S) (ss_forkSeq S) = Inr new"
          using gated [OF gy] by (cases "inspectApprovalExecution y (ss_head S) (ss_forkSeq S)") auto
        let ?scan = "\<lparr>sc_head = ss_head S, sc_states = sts0 @ new, sc_selected = if new \<noteq> [] then Some (length (sts0 @ new) - 1) else None\<rparr>"
        have scan: "scanApprovalRecords rs 0 = Inr ?scan"
          using E snoc gy new by (simp add: scanApprovalRecords_all Let_def S_def [symmetric] snocs)
        have sel: "selected_state ?scan = (if new \<noteq> [] then Some (last new) else None)"
          by (cases new rule: rev_cases) (auto simp: selected_state_def)
        note rep = reported_gate [OF num g y new rowp True]
        have exid: "new \<noteq> [] \<Longrightarrow> as_executionID (last new) = ax_id y"
          using inspected_exid [OF new] by simp
        have pos: "new \<noteq> [] \<Longrightarrow> as_request (last new) = Some r \<Longrightarrow> reportable row (ss_head S) (ax_id y) (fst (exec_fold (ax_records y))) \<Longrightarrow> r_seq r \<noteq> 0" for r
          using rep(2) by (auto simp: reportable_def seq_of_def)
        show ?thesis
          using rep exid pos unfolding pend Let_def rs_def [symmetric] open_approval_def scan sum.case sel
          by (auto simp: seq_of_def split: option.splits)
      qed
    qed
  qed
qed


section \<open>Properties\<close>

text \<open>
  (C14) The approval a session reports is the one a strict inspection of its journal finds open.  The
  store maintains \<^verbatim>\<open>PendingApproval\<close> incrementally, one event at a time, in the transaction that appends
  the event.  Take any calls made on the database since it was created, in which every appended event is in
  wire-normal form (at most one body, declared enumeration values, JSON-shaped content: what package \<^verbatim>\<open>wire\<close> asks
  of producers, and what it takes for an event to be read back as the one projected).  The value that
  \<^verbatim>\<open>SessionInfo\<close> then returns equals what \<^verbatim>\<open>scanApprovalRecords\<close> selects from the whole journal, and nothing is
  reported when the journal's approval evidence is invalid.  Assumed of the protobuf library: \<^verbatim>\<open>structpb\<close> keeps
  JSON-shaped content, and what was marshalled from a wire-normal event unmarshals to it (\<open>env_ok\<close>).
\<close>

theorem reported_approval_is_open:
  assumes "env_ok env" and "list_all call_normal cs" and "SessionInfo uid (db_run env cs empty_db) = Inr info"
  shows "\<exists>rs. Log_Read env uid 1 (db_run env cs empty_db) = Inr rs \<and> si_pendingApproval info = open_approval rs"
proof -
  let ?db = "db_run env cs empty_db"
  have ok: "db_ok ?db" using db_run_effect [OF empty_db_ok(1)] by simp
  have "intact env uid ?db" by (rule intact_run [OF assms(1) empty_db_ok(1) assms(2) empty_db_ok(2)])
  then have "Log_Read env uid 1 ?db = Inr (sql_recs env uid ?db)"
    using intact_read [OF ok] seqs_ok_read_all [OF recs_seqs_ok [OF ok]] by simp
  moreover obtain row where row: "session_row_of uid ?db = Some row" "info = scanSession ?db row"
    using assms(3) by (auto simp: SessionInfo_def split: option.splits)
  moreover have "projected env uid ?db"
    by (rule projected_run [OF assms(1) empty_db_ok(1) assms(2) projected_empty])
  ultimately show ?thesis using pending_is_open [OF ok] by (simp add: scanSession_def)
qed

definition gate_call :: event where
  "gate_call = zero_event\<lparr>ev_executionID := ''x'', ev_kind := EventToolCall, ev_toolCall := Some \<lparr>tc_id = ''c'',
     tc_tool = ''rm'', tc_args = None, tc_mediation = MediationRequiresApproval, tc_idempotencyKey = ''k''\<rparr>\<rparr>"

definition gate_request :: event where
  "gate_request = zero_event\<lparr>ev_executionID := ''x'', ev_kind := EventApprovalRequest,
     ev_approval := Some \<lparr>aq_toolCallID = ''c'', aq_reason = []\<rparr>\<rparr>"

definition gate_sql :: sql_env where
  "gate_sql = sql_with [(EventToProto plain_codec gate_call, ''c''), (EventToProto plain_codec gate_request, ''r'')]"

definition gate_calls :: "db_call list" where
  "gate_calls = [DbPutSession sample_meta, DbAppend ''s'' 0 0 gate_call, DbAppend ''s'' 1 0 gate_request]"

theorem reported_approval_is_open_witness:
  "\<exists>info rs. env_ok gate_sql \<and> SessionInfo ''s'' (db_run gate_sql gate_calls empty_db) = Inr info \<and>
     Log_Read gate_sql ''s'' 1 (db_run gate_sql gate_calls empty_db) = Inr rs \<and>
     si_pendingApproval info = open_approval rs \<and>
     open_approval rs = \<lparr>ref_executionID = ''x'', ref_toolCallID = ''c'', ref_requestSeq = 2\<rparr>"
proof -
  have e: "env_ok gate_sql" unfolding gate_sql_def by (rule sql_with_ok) simp
  have n: "list_all call_normal gate_calls"
    by (simp add: gate_calls_def gate_call_def gate_request_def wire_normal_def zero_event_def normal_tool_call_def
        opt_native_def normal_mediation_def)
  have v: "map_sum id si_pendingApproval (SessionInfo ''s'' (db_run gate_sql gate_calls empty_db))
      = Inr \<lparr>ref_executionID = ''x'', ref_toolCallID = ''c'', ref_requestSeq = 2\<rparr>" by code_simp
  then obtain info where i: "SessionInfo ''s'' (db_run gate_sql gate_calls empty_db) = Inr info"
    "si_pendingApproval info = \<lparr>ref_executionID = ''x'', ref_toolCallID = ''c'', ref_requestSeq = 2\<rparr>"
    by (cases "SessionInfo ''s'' (db_run gate_sql gate_calls empty_db)") auto
  from reported_approval_is_open [OF e n i(1)] i e show ?thesis by auto
qed

end
