(* ===== verification/Sqlite_Migrate.thy ===== *)
theory Sqlite_Migrate
  imports Sqlite_Approval
begin

text \<open>
  Opening a database of an older version: the migration ladder is all or nothing, and the backfill
  brings the reported approvals and the reserved harness names of old journals up to date.
\<close>

section \<open>The backfill of the approval columns\<close>

text \<open>What the backfill reads: numbered journals of which every event decodes.\<close>

definition journals_ok :: "sql_env \<Rightarrow> sqlite_db \<Rightarrow> bool" where
  "journals_ok env db \<longleftrightarrow> (\<forall>uid. event_numbers_ok (events_of uid db))
     \<and> list_all (\<lambda>r. \<not> isl (sql_decode env (er_event r))) (db_events db)"

definition unreported :: "string \<Rightarrow> sqlite_db \<Rightarrow> bool" where
  "unreported uid db \<longleftrightarrow> tables_projected scan_init uid db
     \<and> (case session_row_of uid db of None \<Rightarrow> False | Some row \<Rightarrow> row_projected scan_init row)"

lemma decoded_record: "sql_decode env (er_event r) = Inr ev \<Longrightarrow> r_event (row_record env r) = ev"
  by (simp add: row_record_def)

lemma backfill_projects:
  assumes "seqs_ok (rs @ map (row_record env) rows)" and "list_all (\<lambda>r. \<not> isl (sql_decode env (er_event r))) rows"
    and "tables_projected (fold scan_record rs scan_init) uid db"
    and "session_row_of uid db = Some row" and "row_projected (fold scan_record rs scan_init) row"
  shows "tables_projected (fold scan_record (rs @ map (row_record env) rows) scan_init) uid (backfill env uid rows db)
    \<and> (\<exists>row'. session_row_of uid (backfill env uid rows db) = Some row'
         \<and> row_projected (fold scan_record (rs @ map (row_record env) rows) scan_init) row')"
  using assms
proof (induction rows arbitrary: rs db row)
  case (Cons r rows)
  obtain ev where ev: "sql_decode env (er_event r) = Inr ev" using Cons.prems(2) by (cases "sql_decode env (er_event r)") auto
  let ?r = "row_record env r"
  have r: "r_event ?r = ev" "r_seq ?r = er_seq r" using ev by (simp_all add: row_record_def)
  have num: "seqs_ok ((rs @ [?r]) @ map (row_record env) rows)" using Cons.prems(1) by simp
  then have "seqs_ok (rs @ [?r])" by (rule seqs_ok_prefix)
  from project_record [OF grouped_scan this Cons.prems(3-5)] r
  obtain row' where a: "tables_projected (fold scan_record (rs @ [?r]) scan_init) uid (projectApproval uid (er_seq r) ev db)"
    and b: "session_row_of uid (projectApproval uid (er_seq r) ev db) = Some row'"
    and c: "row_projected (fold scan_record (rs @ [?r]) scan_init) row'" by auto
  have "list_all (\<lambda>r. \<not> isl (sql_decode env (er_event r))) rows" using Cons.prems(2) by simp
  from Cons.IH [OF num this a b c] ev show ?case by simp
qed auto

lemma backfill_reports: "reports_only uid db (backfill env uid rows db)"
proof (induction rows arbitrary: db)
  case (Cons r rows)
  show ?case
  proof (cases "sql_decode env (er_event r)")
    case (Inr ev)
    with reports_only_trans [OF projectApproval_reports Cons.IH] show ?thesis by simp
  qed (simp add: update_reports core_row_def)
qed simp

text \<open>What the backfill and the new columns leave alone.\<close>

definition same_journals :: "sqlite_db \<Rightarrow> sqlite_db \<Rightarrow> bool" where
  "same_journals db db' \<longleftrightarrow> db_events db' = db_events db \<and> db_reserved db' = db_reserved db
     \<and> map sn_session (db_sessions db') = map sn_session (db_sessions db)"

lemma same_journals_trans: "same_journals a b \<Longrightarrow> same_journals b c \<Longrightarrow> same_journals a c"
  by (simp add: same_journals_def)

lemma reports_same_journals: "reports_only uid db db' \<Longrightarrow> same_journals db db'"
  using reports_only_sessions by (simp add: same_journals_def reports_only_def)

definition backfill_session :: "sql_env \<Rightarrow> string \<Rightarrow> sqlite_db \<Rightarrow> sqlite_db" where
  "backfill_session env uid db = backfill env uid (sort_key er_seq (filter (\<lambda>r. er_seq r > 0) (events_of uid db))) db"

lemma journal_in_order:
  assumes "event_numbers_ok (events_of uid db)"
  shows "sort_key er_seq (filter (\<lambda>r. er_seq r > 0) (events_of uid db)) = events_of uid db"
proof -
  have m: "map er_seq (events_of uid db) = map int [1..<Suc (length (events_of uid db))]"
    using assms by (simp add: event_numbers_ok_def)
  have "\<forall>n \<in> set (map er_seq (events_of uid db)). n > 0" unfolding m by auto
  then have "filter (\<lambda>r. er_seq r > 0) (events_of uid db) = events_of uid db" by (simp add: filter_id_conv)
  moreover have "sorted (map er_seq (events_of uid db))" unfolding m by (simp add: sorted_map del: upt_Suc)
  ultimately show ?thesis by (simp add: sort_key_id_if_sorted)
qed

lemma backfill_session_projects:
  assumes ok: "journals_ok env db" and "unreported uid db"
  shows "projected env uid (backfill_session env uid db)"
proof -
  obtain row where t: "tables_projected scan_init uid db" and row: "session_row_of uid db = Some row" and p: "row_projected scan_init row"
    using assms(2) by (auto simp: unreported_def split: option.splits)
  have num: "event_numbers_ok (events_of uid db)" using ok by (simp add: journals_ok_def)
  then have "seqs_ok ([] @ map (row_record env) (events_of uid db))"
    by (simp add: event_numbers_ok_def seqs_ok_def row_record_def comp_def del: upt_Suc)
  moreover have "list_all (\<lambda>r. \<not> isl (sql_decode env (er_event r))) (events_of uid db)"
    using ok by (auto simp: journals_ok_def list_all_iff events_of_def)
  moreover have "tables_projected (fold scan_record [] scan_init) uid db" "row_projected (fold scan_record [] scan_init) row"
    using t p by simp_all
  ultimately have "tables_projected (fold scan_record (sql_recs env uid db) scan_init) uid (backfill_session env uid db)
    \<and> (\<exists>row'. session_row_of uid (backfill_session env uid db) = Some row' \<and> row_projected (fold scan_record (sql_recs env uid db) scan_init) row')"
    using backfill_projects [where rs = "[]"] row by (simp add: backfill_session_def journal_in_order [OF num] sql_recs_def)
  moreover have "sql_recs env uid (backfill_session env uid db) = sql_recs env uid db"
    using reports_only_events [OF backfill_reports] by (simp add: sql_recs_def backfill_session_def)
  ultimately show ?thesis by (auto simp: projected_def Let_def report_row_def)
qed

lemma reports_elsewhere:
  assumes "reports_only uid db db'"
  shows "elsewhere uid db db'"
proof -
  have "session_row_of k db' = session_row_of k db" if "k \<noteq> uid" for k
    using reports_only_rel [OF assms, of k] that by (auto simp: rel_option_iff split: option.splits)
  then show ?thesis using assms by (simp add: elsewhere_def reports_only_def events_of_def)
qed

lemma unreported_elsewhere: "unreported k db \<Longrightarrow> elsewhere uid db db' \<Longrightarrow> k \<noteq> uid \<Longrightarrow> unreported k db'"
  by (auto simp: unreported_def tables_projected_def session_calls_def elsewhere_def)

lemma backfill_sessions:
  assumes "distinct us" and "\<forall>u \<in> set us. unreported u db" and "journals_ok env db"
  shows "(\<forall>u \<in> set us. projected env u (fold (backfill_session env) us db))
    \<and> (\<forall>u. u \<notin> set us \<longrightarrow> projected env u db \<longrightarrow> projected env u (fold (backfill_session env) us db))
    \<and> same_journals db (fold (backfill_session env) us db)"
  using assms
proof (induction us arbitrary: db)
  case (Cons u us)
  let ?db = "backfill_session env u db"
  have rep: "reports_only u db ?db" unfolding backfill_session_def by (rule backfill_reports)
  note els = reports_elsewhere [OF rep]
  have ev: "db_events ?db = db_events db" using rep by (simp add: reports_only_def)
  then have "journals_ok env ?db" using Cons.prems(3) by (simp add: journals_ok_def events_of_def)
  moreover have "\<forall>v \<in> set us. unreported v ?db" using Cons.prems(1,2) unreported_elsewhere [OF _ els] by auto
  moreover have "projected env u ?db" using backfill_session_projects [OF Cons.prems(3)] Cons.prems(2) by simp
  moreover have "projected env v db \<Longrightarrow> v \<noteq> u \<Longrightarrow> projected env v ?db" for v by (rule projected_elsewhere [OF _ els])
  moreover have "distinct us" using Cons.prems(1) by simp
  ultimately show ?case
    using Cons.IH [of ?db] Cons.prems(1) same_journals_trans [OF reports_same_journals [OF rep]] by auto
qed (simp add: same_journals_def)

section \<open>The rungs of the ladder\<close>

lemma row_where_map:
  "(\<And>r. key (f r) = key r) \<Longrightarrow> row_where key k (map f rows) = map_option f (row_where key k rows)"
  by (induction rows) (simp_all add: row_where_Cons)

lemma migrateV2ToV3_eq:
  "migrateV2ToV3 env db = (Inr (), fold (backfill_session env) (sort (map sn_session (db_sessions db)))
     (db\<lparr>db_sessions := map (\<lambda>r. r\<lparr>sn_lastSeq := 0, sn_latestExecution := [], sn_reportingForkSeq := 0,
        sn_approvalCorrupt := False, sn_invalidApprovals := 0\<rparr>) (db_sessions db),
        db_executions := Map.empty, db_calls := Map.empty\<rparr>))"
  by (simp add: migrateV2ToV3_def Let_def backfill_session_def [abs_def] comp_def)

text \<open>Every event belongs to a session, as the foreign key demands.\<close>

definition events_owned :: "sqlite_db \<Rightarrow> bool" where
  "events_owned db \<longleftrightarrow> list_all (\<lambda>r. session_row_of (er_session r) db \<noteq> None) (db_events db)"

lemma migrateV2ToV3_projects:
  assumes "journals_ok env db" and "events_owned db" and "distinct (map sn_session (db_sessions db))"
  shows "\<exists>db'. migrateV2ToV3 env db = (Inr (), db') \<and> (\<forall>uid. projected env uid db') \<and> same_journals db db'"
proof -
  let ?clear = "\<lambda>r. r\<lparr>sn_lastSeq := 0, sn_latestExecution := [], sn_reportingForkSeq := 0,
        sn_approvalCorrupt := False, sn_invalidApprovals := 0\<rparr>"
  let ?d = "db\<lparr>db_sessions := map ?clear (db_sessions db), db_executions := Map.empty, db_calls := Map.empty\<rparr>"
  let ?us = "sort (map sn_session (db_sessions db))"
  have row: "session_row_of k ?d = map_option ?clear (session_row_of k db)" for k
    unfolding session_row_of_def by (simp add: row_where_map)
  have tab: "tables_projected scan_init k ?d" for k
    by (simp add: tables_projected_def session_calls_def exec_of_def scan_init_def)
  have rp: "row_projected scan_init (?clear r)" for r
    by (simp add: row_projected_def scan_init_def latest_of_def)
  have mem: "u \<in> set ?us \<longleftrightarrow> session_row_of u db \<noteq> None" for u
    unfolding session_row_of_def by (auto simp: row_where_None)
  have "unreported u ?d" if "u \<in> set ?us" for u
    using tab rp that [unfolded mem] by (auto simp: unreported_def row)
  then have "\<forall>u \<in> set ?us. unreported u ?d" by blast
  moreover have "journals_ok env ?d" using assms(1) by (simp add: journals_ok_def events_of_def)
  ultimately have step: "(\<forall>u \<in> set ?us. projected env u (fold (backfill_session env) ?us ?d))
    \<and> (\<forall>u. u \<notin> set ?us \<longrightarrow> projected env u ?d \<longrightarrow> projected env u (fold (backfill_session env) ?us ?d))
    \<and> same_journals ?d (fold (backfill_session env) ?us ?d)"
    using assms(3) by (intro backfill_sessions) simp_all
  have "projected env u ?d" if "u \<notin> set ?us" for u
  proof -
    have none: "session_row_of u db = None" using that unfolding mem by blast
    then have "events_of u ?d = []" using assms(2) by (auto simp: events_owned_def list_all_iff events_of_def filter_empty_conv)
    then show ?thesis using tab none
      by (simp add: projected_def Let_def sql_recs_def row report_row_def row_projected_def scan_init_def latest_of_def default_row_def)
  qed
  with step have "projected env u (fold (backfill_session env) ?us ?d)" for u by blast
  moreover have "same_journals db (fold (backfill_session env) ?us ?d)" using step by (simp add: same_journals_def comp_def)
  ultimately show ?thesis unfolding migrateV2ToV3_eq by (intro exI [of _ "fold (backfill_session env) ?us ?d"]) blast
qed

lemma migrateV3ToV4_keeps:
  assumes "\<forall>uid. projected env uid db"
  shows "\<exists>db'. migrateV3ToV4 env db = (Inr (), db') \<and> (\<forall>uid. projected env uid db') \<and> same_journals db db'"
proof -
  let ?f = "\<lambda>r. r\<lparr>sn_deletionState := DeletionActive, sn_deletionRequestedAt := 0, sn_deletionCompletedAt := 0, sn_deletionSeq := 0\<rparr>"
  let ?d = "db\<lparr>db_sessions := map ?f (db_sessions db)\<rparr>"
  have row: "session_row_of k ?d = map_option ?f (session_row_of k db)" for k
    unfolding session_row_of_def by (simp add: row_where_map)
  have "projected env uid ?d" for uid
    by (rule projected_same [of env uid db])
      (use assms row [of uid] in \<open>auto simp: events_of_def report_row_def same_reports_def split: option.splits\<close>)
  then show ?thesis by (simp add: migrateV3ToV4_def same_journals_def comp_def)
qed

section \<open>The whole migration\<close>

definition keeps_events :: "(sql_env \<Rightarrow> sqlite_db \<Rightarrow> (goerr + unit) \<times> sqlite_db) \<Rightarrow> bool" where
  "keeps_events rung \<longleftrightarrow> (\<forall>env db. db_events (snd (rung env db)) = db_events db)"

lemma reserve_fields [simp]:
  "db_events (fold (reserve now) names db) = db_events db" "db_sessions (fold (reserve now) names db) = db_sessions db"
  "db_executions (fold (reserve now) names db) = db_executions db" "db_calls (fold (reserve now) names db) = db_calls db"
  by (induction names arbitrary: db) (simp_all add: reserve_def)

lemma rungs_keep_events: "list_all keeps_events migrations"
proof -
  have "db_events (fold (backfill_session env) us db) = db_events db" for env us db
  proof (induction us arbitrary: db)
    case (Cons u us)
    have "db_events (backfill_session env u db) = db_events db"
      using backfill_reports by (simp add: backfill_session_def reports_only_def)
    with Cons show ?case by simp
  qed simp
  then have "keeps_events migrateV2ToV3" by (simp add: keeps_events_def migrateV2ToV3_eq)
  moreover have "keeps_events migrateV1ToV2"
    by (auto simp: keeps_events_def migrateV1ToV2_def sql_now_def Let_def split: sum.split)
  moreover have "keeps_events migrateV3ToV4" by (simp add: keeps_events_def migrateV3ToV4_def)
  ultimately show ?thesis by (simp add: migrations_def)
qed

lemma climb_events: "list_all keeps_events rungs \<Longrightarrow> db_events (snd (climb env v rungs db)) = db_events db"
proof (induction rungs arbitrary: v db)
  case (Cons rung rungs)
  then have "db_events (snd (rung env db)) = db_events db" by (simp add: keeps_events_def)
  with Cons show ?case by (cases "rung env db"; cases "fst (rung env db)") auto
qed simp

lemma migrate_tx_outcome:
  assumes "migrate_tx env db = (res, db')"
  shows "db_events db' = db_events db \<and> (\<forall>b. res = Inr b \<longrightarrow> db_userVersion db' = SchemaVersion)
     \<and> (res = Inr False \<longrightarrow> db' = db)"
proof (cases "checkVersion (db_userVersion db) = None \<and> db_userVersion db \<noteq> SchemaVersion")
  case True
  define v where "v = (if db_userVersion db = 0 then 1 else db_userVersion db)"
  define rungs where "rungs = drop (nat (v - 1)) migrations"
  obtain res' db1 where c: "climb env v rungs db = (res', db1)" by fastforce
  have "list_all keeps_events rungs" using rungs_keep_events by (auto simp: rungs_def list_all_iff dest: in_set_dropD)
  from climb_events [OF this, of env v db] c have "db_events db1 = db_events db" by simp
  moreover have "(res, db') = (case climb env v rungs db of (Inl e, d) \<Rightarrow> (Inl e, d)
      | (Inr _, d) \<Rightarrow> (Inr True, d\<lparr>db_userVersion := SchemaVersion\<rparr>))"
    using assms True by (simp add: migrate_tx_def Let_def v_def rungs_def)
  ultimately show ?thesis using c by (cases res') auto
qed (use assms in \<open>auto simp: migrate_tx_def split: option.splits if_splits\<close>)

text \<open>
  \<^verbatim>\<open>migrate\<close> is all or nothing, whatever fails and whatever another process commits between the first
  look at the version and the write lock.  It returns no error only when the database is at the version
  of this build; when it returns an error the tables are what they were; it never changes an event;
  and a database stamped by a newer build is refused untouched.
\<close>

theorem migration_all_or_nothing:
  "(case migrate env other db of
      (None, db') \<Rightarrow> db_userVersion db' = SchemaVersion \<and> (db_events db' = db_events db \<or> db_events db' = db_events (other db))
    | (Some e, db') \<Rightarrow> \<exists>t. db' = db\<lparr>db_clock := t\<rparr> \<or> db' = (other db)\<lparr>db_clock := t\<rparr>)
   \<and> (db_userVersion db > SchemaVersion \<longrightarrow>
        (\<exists>e. migrate env other db = (Some e, db) \<and> errors_is e ErrUnsupportedSchema))"
proof -
  have self: "db = db\<lparr>db_clock := db_clock db\<rparr>" by simp
  have "case migrate env other db of
      (None, db') \<Rightarrow> db_userVersion db' = SchemaVersion \<and> (db_events db' = db_events db \<or> db_events db' = db_events (other db))
    | (Some e, db') \<Rightarrow> \<exists>t. db' = db\<lparr>db_clock := t\<rparr> \<or> db' = (other db)\<lparr>db_clock := t\<rparr>"
  proof (cases "checkVersion (db_userVersion db)")
    case None
    show ?thesis
    proof (cases "db_userVersion db = SchemaVersion")
      case False
      let ?d = "(other db)\<lparr>db_clock := Suc (db_clock (other db))\<rparr>"
      obtain res db2 where tx: "migrate_tx env ?d = (res, db2)" by fastforce
      with None False migrate_tx_outcome [OF tx] show ?thesis
        by (auto simp: migrate_def Let_def sql_attempt_def rollback_to_def split: option.split sum.split bool.split)
    qed (use None in \<open>simp add: migrate_def\<close>)
  next
    case (Some e)
    then show ?thesis using self by (auto simp: migrate_def intro!: exI [of _ "db_clock db"])
  qed
  moreover have "db_userVersion db > SchemaVersion \<Longrightarrow>
      \<exists>e. migrate env other db = (Some e, db) \<and> errors_is e ErrUnsupportedSchema"
    by (auto simp: migrate_def checkVersion_def SchemaVersion_def ErrUnsupportedSchema_def errorf_def)
  ultimately show ?thesis by blast
qed

theorem migration_all_or_nothing_witness:
  "\<exists>e. migrate gate_sql id (empty_db\<lparr>db_userVersion := 5\<rparr>) = (Some e, empty_db\<lparr>db_userVersion := 5\<rparr>) \<and> errors_is e ErrUnsupportedSchema"
  using migration_all_or_nothing [where env = gate_sql and other = id and db = "empty_db\<lparr>db_userVersion := 5\<rparr>"] by (simp add: SchemaVersion_def)

lemma reserve_reserves: "nameReserved n (fold (reserve now) names db) \<longleftrightarrow> n \<in> set names \<or> nameReserved n db"
  by (induction names arbitrary: db) (auto simp: nameReserved_def reserve_def split: option.splits)

lemma start_harnesses_all:
  assumes "list_all (\<lambda>r. \<not> isl (sql_decode env (er_event r))) rows"
  shows "\<exists>names. start_harnesses env rows = Inr names \<and>
    (\<forall>r ev st. r \<in> set rows \<longrightarrow> sql_decode env (er_event r) = Inr ev \<longrightarrow> ev_kind ev = EventExecutionStart \<longrightarrow>
       ev_executionStart ev = Some st \<longrightarrow> es_harness st \<noteq> [] \<longrightarrow> es_harness st \<in> set names)"
  using assms
proof (induction rows)
  case (Cons r rows)
  obtain ev where "sql_decode env (er_event r) = Inr ev" using Cons.prems by (cases "sql_decode env (er_event r)") auto
  with Cons show ?case by (auto split: option.split)
qed simp

lemma start_harnesses_sorted:
  "list_all (\<lambda>r. \<not> isl (sql_decode env (er_event r))) (db_events db) \<Longrightarrow>
     list_all (\<lambda>r. \<not> isl (sql_decode env (er_event r))) (sort_key event_key (db_events db))"
  by (simp add: list_all_iff)

lemma migrateV1ToV2_reserves:
  assumes "journals_ok env db"
  shows "\<exists>db'. migrateV1ToV2 env db = (Inr (), db') \<and> registry_only db db' \<and>
    (\<forall>r \<in> set (db_sessions db). sn_harness r \<noteq> [] \<longrightarrow> nameReserved (sn_harness r) db') \<and>
    (\<forall>r ev st. r \<in> set (db_events db) \<longrightarrow> sql_decode env (er_event r) = Inr ev \<longrightarrow> ev_kind ev = EventExecutionStart \<longrightarrow>
       ev_executionStart ev = Some st \<longrightarrow> es_harness st \<noteq> [] \<longrightarrow> nameReserved (es_harness st) db')"
proof -
  have dec: "list_all (\<lambda>r. \<not> isl (sql_decode env (er_event r))) (db_events db)" using assms by (simp add: journals_ok_def)
  from start_harnesses_all [OF start_harnesses_sorted [OF this]]
  obtain names where n: "start_harnesses env (sort_key event_key (db_events db)) = Inr names"
    and all: "\<And>r ev st. r \<in> set (db_events db) \<Longrightarrow> sql_decode env (er_event r) = Inr ev \<Longrightarrow> ev_kind ev = EventExecutionStart \<Longrightarrow>
       ev_executionStart ev = Some st \<Longrightarrow> es_harness st \<noteq> [] \<Longrightarrow> es_harness st \<in> set names" by auto
  have clock: "nameReserved k (d\<lparr>db_clock := t\<rparr>) = nameReserved k d" for k d t by (simp add: nameReserved_def)
  show ?thesis using n
    by (auto simp: migrateV1ToV2_def sql_now_def Let_def registry_only_def reserve_reserves clock dest!: all)
qed

lemma pending_is_open_after:
  assumes "journals_ok env db" and "distinct (map sn_session (db_sessions db))" and "same_journals db db'" and "projected env uid db'"
    and "session_row_of uid db' = Some row"
  shows "pending_ref row db' = open_approval (sql_recs env uid db)"
proof -
  let ?d = "db'\<lparr>db_harnesses := []\<rparr>"
  have "db_ok ?d" using assms(1-3) by (simp add: db_ok_def journals_ok_def same_journals_def events_of_def)
  moreover have "projected env uid ?d"
    using assms(4) by (rule projected_same) (simp_all add: events_of_def report_row_def session_row_of_def)
  moreover have "session_row_of uid ?d = Some row" using assms(5) by (simp add: session_row_of_def)
  ultimately have "pending_ref row ?d = open_approval (sql_recs env uid ?d)" by (rule pending_is_open)
  moreover have "sql_recs env uid ?d = sql_recs env uid db" using assms(3) by (simp add: sql_recs_def events_of_def same_journals_def)
  moreover have "sql_head k ?d = sql_head k db'" for k by (simp add: sql_head_def events_of_def)
  then have "pending_ref row ?d = pending_ref row db'" by (simp add: pending_ref_def cong: option.case_cong)
  ultimately show ?thesis by simp
qed

lemma upper_rungs:
  assumes "journals_ok env db" and "events_owned db" and "distinct (map sn_session (db_sessions db))"
  shows "\<exists>db'. climb env 2 [migrateV2ToV3, migrateV3ToV4] db = (Inr (), db') \<and> (\<forall>uid. projected env uid db') \<and> same_journals db db'"
proof -
  obtain a where a: "migrateV2ToV3 env db = (Inr (), a)" "\<forall>uid. projected env uid a" "same_journals db a"
    using migrateV2ToV3_projects [OF assms] by blast
  obtain b where b: "migrateV3ToV4 env a = (Inr (), b)" "\<forall>uid. projected env uid b" "same_journals a b"
    using migrateV3ToV4_keeps [OF a(2)] by blast
  from a b show ?thesis using same_journals_trans [OF a(3) b(3)] by simp
qed

text \<open>The harness names a journal or a session mentions.\<close>

definition mentioned :: "sql_env \<Rightarrow> sqlite_db \<Rightarrow> string \<Rightarrow> bool" where
  "mentioned env db name \<longleftrightarrow> name \<noteq> [] \<and> ((\<exists>r \<in> set (db_sessions db). sn_harness r = name)
     \<or> (\<exists>r \<in> set (db_events db). \<exists>ev st. sql_decode env (er_event r) = Inr ev \<and> ev_kind ev = EventExecutionStart
          \<and> ev_executionStart ev = Some st \<and> es_harness st = name))"

lemma climb_completes:
  assumes "journals_ok env db" and "events_owned db" and "distinct (map sn_session (db_sessions db))"
    and "v = 1 \<or> v = 2"
  shows "\<exists>db'. climb env v (drop (nat (v - 1)) migrations) db = (Inr (), db') \<and> (\<forall>uid. projected env uid db')
    \<and> db_events db' = db_events db \<and> map sn_session (db_sessions db') = map sn_session (db_sessions db)
    \<and> (v = 1 \<longrightarrow> (\<forall>name. mentioned env db name \<longrightarrow> nameReserved name db'))"
proof (cases "v = 1")
  case True
  obtain db1 where one: "migrateV1ToV2 env db = (Inr (), db1)" "registry_only db db1"
    "\<forall>name. mentioned env db name \<longrightarrow> nameReserved name db1"
    using migrateV1ToV2_reserves [OF assms(1)] unfolding mentioned_def by metis
  have "journals_ok env db1" "events_owned db1" "distinct (map sn_session (db_sessions db1))"
    using assms one(2) by (simp_all add: journals_ok_def events_owned_def registry_only_def events_of_def session_row_of_def)
  from upper_rungs [OF this] obtain db' where two: "climb env 2 [migrateV2ToV3, migrateV3ToV4] db1 = (Inr (), db')"
    "\<forall>uid. projected env uid db'" "same_journals db1 db'" by blast
  have "climb env v (drop (nat (v - 1)) migrations) db = (Inr (), db')" using one two True by (simp add: migrations_def)
  moreover have "nameReserved name db' = nameReserved name db1" for name using two(3) by (simp add: nameReserved_def same_journals_def)
  ultimately show ?thesis using one two by (simp add: same_journals_def registry_only_def)
next
  case False
  from upper_rungs [OF assms(1-3)] assms(4) False show ?thesis by (auto simp: migrations_def same_journals_def)
qed

text \<open>
  (C33) Opening a database of an older version that has whole journals succeeds when the driver does,
  and brings it up to date: the journals are the same; the approval every session reports is the one a
  strict inspection of its journal finds open, although these columns did not exist when the events were
  written; and, coming from version 1, every harness name that a session or an execution mentions is
  reserved, so that no registration can take it over.
\<close>

theorem migration_brings_up_to_date:
  assumes "journals_ok env db" and "events_owned db" and "distinct (map sn_session (db_sessions db))"
    and "0 \<le> db_userVersion db" and "db_userVersion db \<le> 2" and "faultless env"
  shows "\<exists>db'. migrate env id db = (None, db') \<and> db_userVersion db' = SchemaVersion \<and> db_events db' = db_events db
    \<and> (\<forall>uid info. SessionInfo uid db' = Inr info \<longrightarrow> si_pendingApproval info = open_approval (sql_recs env uid db))
    \<and> (db_userVersion db \<le> 1 \<longrightarrow> (\<forall>name. mentioned env db name \<longrightarrow> nameReserved name db'))"
proof -
  define d where "d = db\<lparr>db_clock := Suc (db_clock db)\<rparr>"
  define v where "v = (if db_userVersion db = 0 then 1 else db_userVersion db)"
  have hyps: "journals_ok env d" "events_owned d" "distinct (map sn_session (db_sessions d))" "v = 1 \<or> v = 2"
    using assms by (auto simp: d_def v_def journals_ok_def events_owned_def)
  from climb_completes [OF this] obtain db1 where
    c: "climb env v (drop (nat (v - 1)) migrations) d = (Inr (), db1)" and proj: "\<forall>uid. projected env uid db1"
    and ev: "db_events db1 = db_events d" and ss: "map sn_session (db_sessions db1) = map sn_session (db_sessions d)"
    and names: "v = 1 \<longrightarrow> (\<forall>name. mentioned env d name \<longrightarrow> nameReserved name db1)" by blast
  define db2 where "db2 = db1\<lparr>db_userVersion := SchemaVersion, db_clock := Suc (db_clock db1)\<rparr>"
  have version: "checkVersion (db_userVersion db) = None" "db_userVersion db \<noteq> SchemaVersion"
    using assms(4,5) by (simp_all add: checkVersion_def SchemaVersion_def)
  have "migrate_tx env d = (Inr True, db1\<lparr>db_userVersion := SchemaVersion\<rparr>)"
    using version c by (simp add: migrate_tx_def d_def v_def Let_def split: if_splits)
  then have "migrate env id db = (None, db2)"
    using version assms(6) by (simp add: migrate_def sql_attempt_def faultless_def d_def db2_def)
  moreover have "si_pendingApproval info = open_approval (sql_recs env uid db)" if si: "SessionInfo uid db2 = Inr info" for uid info
  proof -
    obtain row where row: "session_row_of uid db2 = Some row" "info = scanSession db2 row"
      using si by (auto simp: SessionInfo_def split: option.splits)
    have "projected env uid db2" using proj by (rule allE)
        (erule projected_same, simp_all add: db2_def events_of_def report_row_def session_row_of_def)
    moreover have "same_journals (d\<lparr>db_reserved := db_reserved db2\<rparr>) db2" using ev ss by (simp add: same_journals_def db2_def)
    moreover have "journals_ok env (d\<lparr>db_reserved := db_reserved db2\<rparr>)" using hyps(1) by (simp add: journals_ok_def events_of_def)
    ultimately have "pending_ref row db2 = open_approval (sql_recs env uid (d\<lparr>db_reserved := db_reserved db2\<rparr>))"
      using pending_is_open_after row(1) hyps(3) by simp
    then show ?thesis by (simp add: row(2) scanSession_def sql_recs_def events_of_def d_def)
  qed
  moreover have "nameReserved name db2" if "mentioned env db name" "db_userVersion db \<le> 1" for name
  proof -
    have "v = 1" using that(2) assms(4) by (simp add: v_def)
    then show ?thesis using names that(1) by (simp add: mentioned_def d_def nameReserved_def db2_def)
  qed
  moreover have "db_userVersion db2 = SchemaVersion" "db_events db2 = db_events db" using ev by (simp_all add: db2_def d_def)
  ultimately show ?thesis by blast
qed

definition old_db :: sqlite_db where
  "old_db = (db_run gate_sql gate_calls empty_db)\<lparr>db_userVersion := 1\<rparr>"

theorem migration_brings_up_to_date_witness:
  "\<exists>db'. journals_ok gate_sql old_db \<and> migrate gate_sql id old_db = (None, db') \<and> db_userVersion db' = SchemaVersion
     \<and> nameReserved ''h'' db'
     \<and> (\<forall>info. SessionInfo ''s'' db' = Inr info \<longrightarrow> si_pendingApproval info = open_approval (sql_recs gate_sql ''s'' old_db))"
proof -
  have "db_ok (db_run gate_sql gate_calls empty_db)" using db_run_effect [OF empty_db_ok(1)] by simp
  moreover have "list_all (\<lambda>r. \<not> isl (sql_decode gate_sql (er_event r))) (db_events old_db)" by code_simp
  ultimately have "journals_ok gate_sql old_db" "distinct (map sn_session (db_sessions old_db))"
    by (simp_all add: journals_ok_def db_ok_def old_db_def events_of_def)
  moreover have "events_owned old_db" by code_simp
  moreover have "db_userVersion old_db = 1" by (simp add: old_db_def)
  moreover have "faultless gate_sql" by (simp add: faultless_def gate_sql_def sql_with_def)
  moreover have "mentioned gate_sql old_db ''h''"
  proof -
    have "list_ex (\<lambda>r. sn_harness r = ''h'') (db_sessions old_db)" by code_simp
    then show ?thesis by (auto simp: mentioned_def list_ex_iff)
  qed
  ultimately show ?thesis using migration_brings_up_to_date [of gate_sql old_db] by auto
qed

end
