(* ===== verification/Sqlite_Paging.thy ===== *)
theory Sqlite_Paging
  imports Sqlite_Props
begin

text \<open>
  The listing of sessions: page tokens are base64 of a creation time and an identifier, and following
  them from the first page visits every session of a project once.
\<close>

section \<open>Cursors\<close>

lemma b64_val_char: "v < 64 \<Longrightarrow> b64_val (b64_char v) = Some v"
  by (auto simp: b64_val_def b64_char_def Let_def)

lemma b64_char_text: "v < 64 \<Longrightarrow> b64_char v \<noteq> CHR 0x0D \<and> b64_char v \<noteq> CHR 0x0A"
proof -
  have "b64_val (CHR 0x0D) = None" "b64_val (CHR 0x0A) = None" by (simp_all add: b64_val_def)
  then show "v < 64 \<Longrightarrow> ?thesis" using b64_val_char [of v] by auto
qed

lemma b64_vals: "list_all (\<lambda>v. v < 64) vs \<Longrightarrow> those (map b64_val (map b64_char vs)) = Some vs"
  by (induction vs) (auto simp: b64_val_char)

lemma b64_groups_small: "list_all (\<lambda>b. b < 256) bs \<Longrightarrow> list_all (\<lambda>v. v < 64) (b64_groups bs)"
  by (induction bs rule: b64_groups.induct) (auto simp: less_mult_imp_div_less)

lemma b64_ungroup_groups: "list_all (\<lambda>b. b < 256) bs \<Longrightarrow> b64_ungroup (b64_groups bs) = Some bs"
proof (induction bs rule: b64_groups.induct)
  case (1 a b c rest)
  have "(a mod 4 * 16 + b div 16) div 16 = a mod 4" "(a mod 4 * 16 + b div 16) mod 16 = b div 16"
    using 1 by (simp_all add: less_mult_imp_div_less)
  moreover have "(b mod 16 * 4 + c div 64) div 4 = b mod 16" "(b mod 16 * 4 + c div 64) mod 4 = c div 64"
    using 1 by (simp_all add: less_mult_imp_div_less)
  ultimately show ?case using 1 by (simp add: mult.commute)
next
  case (2 a b)
  have "(a mod 4 * 16 + b div 16) div 16 = a mod 4" "(a mod 4 * 16 + b div 16) mod 16 = b div 16"
    using 2 by (simp_all add: less_mult_imp_div_less)
  then show ?case by (simp add: mult.commute)
qed (simp_all add: mult.commute)

lemma b64_roundtrip: "b64_decode (b64_encode bs) = Some bs"
proof -
  let ?vs = "b64_groups (map of_char bs)"
  have small: "list_all (\<lambda>v. v < 64) ?vs"
    by (rule b64_groups_small) (simp add: list_all_iff)
  then have "filter (\<lambda>c. c \<noteq> CHR 0x0D \<and> c \<noteq> CHR 0x0A) (map b64_char ?vs) = map b64_char ?vs"
    using b64_char_text by (auto simp: filter_id_conv list_all_iff)
  moreover have "those (map b64_val (map b64_char ?vs)) = Some ?vs"
    using small by (rule b64_vals)
  moreover have "b64_ungroup ?vs = Some (map of_char bs)"
    by (rule b64_ungroup_groups) (simp add: list_all_iff)
  ultimately show ?thesis by (simp add: b64_decode_def b64_encode_def comp_def)
qed

lemma format_nat_is_digit: "list_all is_digit (format_nat n)"
  using format_nat_digits by (auto simp: list_all_iff is_digit_def)

lemma format_int_text: "c \<in> set (format_int i) \<Longrightarrow> c = CHR ''-'' \<or> is_digit c"
  using format_nat_is_digit by (auto simp: format_int_def list_all_iff split: if_splits)

lemma digit_not_sign: "is_digit c \<Longrightarrow> c \<noteq> CHR ''-'' \<and> c \<noteq> CHR ''+'' \<and> c \<noteq> CHR 0x00"
  by (auto simp: is_digit_def)

lemma ParseInt64_format:
  assumes "- (2 ^ 63) \<le> i" and "i < 2 ^ 63"
  shows "ParseInt64 (format_int i) = Some i"
proof (cases "i < 0")
  case True
  with assms show ?thesis
    by (simp add: ParseInt64_def format_int_def format_nat_is_digit parse_format_nat)
next
  case False
  have "hd (format_nat (nat i)) \<noteq> CHR ''-'' \<and> hd (format_nat (nat i)) \<noteq> CHR ''+''"
    using format_nat_is_digit [of "nat i"] digit_not_sign [of "hd (format_nat (nat i))"]
    by (simp add: list_all_iff hd_in_set)
  with False assms show ?thesis
    by (simp add: ParseInt64_def format_int_def format_nat_is_digit parse_format_nat)
qed

lemma cut_at_first: "c \<notin> set a \<Longrightarrow> cut_at c (a @ c # b) = Some (a, b)"
  by (induction a) (auto simp: cut_at_def split: list.splits)

lemma encodeCursor_nonempty: "encodeCursor t uid \<noteq> []"
proof
  assume "encodeCursor t uid = []"
  then have "b64_decode (encodeCursor t uid) = Some []" by (simp add: b64_decode_def)
  then show False by (simp add: encodeCursor_def b64_roundtrip)
qed

lemma cursor_roundtrip:
  assumes "- (2 ^ 63) \<le> t" and "t < 2 ^ 63"
  shows "decodeCursor (encodeCursor t uid) = Inr (t, uid)"
proof -
  have "CHR 0x00 \<notin> set (format_int t)" using format_int_text digit_not_sign by force
  then show ?thesis
    using ParseInt64_format [OF assms]
    by (simp add: decodeCursor_def encodeCursor_def b64_roundtrip cut_at_first Let_def)
qed

section \<open>Pages\<close>

lemma page_size_bounds: "1 \<le> page_size n \<and> page_size n \<le> MaxPageSize \<and> (1 \<le> n \<longrightarrow> page_size n \<le> n)"
  by (simp add: page_size_def MaxPageSize_def DefaultPageSize_def)

lemma fill_page_spec:
  assumes "length acc \<le> n" and "n > 0"
  shows "fill_page n acc infos =
    (if length (acc @ infos) \<le> n then \<lparr>pg_sessions = acc @ infos, pg_nextPageToken = []\<rparr>
     else \<lparr>pg_sessions = take n (acc @ infos),
           pg_nextPageToken = (let prev = (acc @ infos) ! (n - 1) in
             encodeCursor (case sm_createdAt prev of None \<Rightarrow> 0 | Some t \<Rightarrow> t) (sm_uid prev))\<rparr>)"
  using assms
proof (induction n acc infos rule: fill_page.induct)
  case (2 n acc info rest)
  show ?case
  proof (cases "length acc = n")
    case True
    with 2(3) show ?thesis by (simp add: Let_def nth_append)
  next
    case False
    with 2 show ?thesis by simp
  qed
qed simp

text \<open>The sessions of a project that a listing shows, newest first.\<close>

definition visible :: "string \<Rightarrow> sqlite_db \<Rightarrow> session_row list" where
  "visible project db = sort_key session_key
     (filter (\<lambda>r. sn_project r = project \<and> sn_deletionState r = DeletionActive) (db_sessions db))"

lemma after_cursor_key: "after_cursor (Some (t, u)) r \<longleftrightarrow> (- t, u) < session_key r"
  by (auto simp: after_cursor_def session_key_def less_prod_def)

lemma after_cursor_row: "after_cursor (Some (sn_createdAt r, sn_session r)) = (\<lambda>r'. session_key r < session_key r')"
  by (simp add: fun_eq_iff after_cursor_key session_key_def [of r])

lemma select_visible:
  "select_sessions project cur limit db = take limit (filter (after_cursor cur) (visible project db))"
  by (simp add: select_sessions_def visible_def filter_sort conj_commute conj_left_commute)

lemma visible_sorted: "sorted (map session_key (visible project db))"
  by (simp add: visible_def)

lemma visible_distinct: "db_ok db \<Longrightarrow> distinct (map session_key (visible project db))"
proof -
  assume "db_ok db"
  then have "distinct (map sn_session (db_sessions db))" by (simp add: db_ok_def)
  then have "inj_on sn_session (set (db_sessions db))" and "distinct (db_sessions db)"
    by (simp_all add: distinct_map)
  then show ?thesis by (auto simp: visible_def distinct_map inj_on_def session_key_def)
qed

text \<open>After the last row of a page come exactly the rows that follow it.\<close>

lemma filter_after:
  assumes "sorted (map k xs)" and "distinct (map k xs)" and "i < length xs"
  shows "filter (\<lambda>r. (k (xs ! i) :: 'a :: linorder) < k r) xs = drop (Suc i) xs"
proof -
  have xs: "xs = take (Suc i) xs @ drop (Suc i) xs" by simp
  have lt: "k (xs ! a) < k (xs ! b)" if "a < b" "b < length xs" for a b
  proof -
    have "k (xs ! a) \<le> k (xs ! b)" using assms(1) that sorted_nth_mono [of "map k xs" a b] by simp
    moreover have "k (xs ! a) \<noteq> k (xs ! b)" using assms(2) that nth_eq_iff_index_eq [of "map k xs" a b] by simp
    ultimately show ?thesis by simp
  qed
  have "\<forall>r \<in> set (take (Suc i) xs). \<not> k (xs ! i) < k r"
  proof
    fix r assume "r \<in> set (take (Suc i) xs)"
    then obtain a where a: "a < Suc i" "r = xs ! a" by (auto simp: in_set_conv_nth)
    show "\<not> k (xs ! i) < k r"
    proof (cases "a = i")
      case False
      with a have "a < i" by simp
      from lt [OF this assms(3)] a show ?thesis by (simp add: less_asym)
    qed (use a in simp)
  qed
  moreover have "\<forall>r \<in> set (drop (Suc i) xs). k (xs ! i) < k r"
    using lt by (auto simp: in_set_conv_nth)
  ultimately have "filter (\<lambda>r. k (xs ! i) < k r) (take (Suc i) xs @ drop (Suc i) xs) = drop (Suc i) xs"
    unfolding filter_append by (simp add: filter_empty_conv filter_id_conv)
  then show ?thesis using xs by simp
qed

text \<open>A page from offset \<open>i\<close>; offset 0 is the empty token.\<close>

definition token_at :: "session_row list \<Rightarrow> nat \<Rightarrow> string" where
  "token_at L i = (if i = 0 then [] else encodeCursor (sn_createdAt (L ! (i - 1))) (sn_session (L ! (i - 1))))"

definition times_ok :: "sqlite_db \<Rightarrow> bool" where
  "times_ok db \<longleftrightarrow> list_all (\<lambda>r. - (2 ^ 63) \<le> sn_createdAt r \<and> sn_createdAt r < 2 ^ 63) (db_sessions db)"

lemma page_at:
  assumes ok: "db_ok db" and times: "times_ok db" and "i \<le> length L"
    and "L = visible (project_of env project) db" and "n = nat (page_size sz)"
  shows "ListSessions env \<lparr>lo_project = project, lo_pageSize = sz, lo_pageToken = token_at L i\<rparr> db =
    Inr \<lparr>pg_sessions = map (scanSession db) (take n (drop i L)),
         pg_nextPageToken = (if length (drop i L) \<le> n then [] else token_at L (i + n))\<rparr>"
proof -
  have n: "n > 0" using page_size_bounds [of sz] assms(5) by simp
  have rows: "\<exists>cur. (if token_at L i = [] then Inr None else map_sum id Some (decodeCursor (token_at L i))) = Inr cur
      \<and> filter (after_cursor cur) L = drop i L"
  proof (cases "i = 0")
    case True
    then show ?thesis by (simp add: token_at_def after_cursor_def)
  next
    case False
    let ?r = "L ! (i - 1)"
    have i: "i - 1 < length L" using False assms(3) by simp
    then have "?r \<in> set L" by simp
    then have "?r \<in> set (db_sessions db)" by (simp add: assms(4) visible_def)
    then have "decodeCursor (token_at L i) = Inr (sn_createdAt ?r, sn_session ?r)"
      using times False by (simp add: token_at_def cursor_roundtrip times_ok_def list_all_iff)
    moreover have "filter (after_cursor (Some (sn_createdAt ?r, sn_session ?r))) L = drop i L"
      using filter_after [of session_key L "i - 1"] visible_sorted visible_distinct [OF ok] i False
      by (simp add: assms(4) after_cursor_row)
    ultimately show ?thesis using False encodeCursor_nonempty by (simp add: token_at_def)
  qed
  then obtain cur where cur: "(if token_at L i = [] then Inr None else map_sum id Some (decodeCursor (token_at L i))) = Inr cur"
    and sel: "filter (after_cursor cur) L = drop i L" by blast
  have "ListSessions env \<lparr>lo_project = project, lo_pageSize = sz, lo_pageToken = token_at L i\<rparr> db =
      Inr (fill_page n [] (map (scanSession db) (take (n + 1) (drop i L))))"
  proof -
    have "ListSessions env \<lparr>lo_project = project, lo_pageSize = sz, lo_pageToken = token_at L i\<rparr> db =
        (case (if token_at L i = [] then Inr None else map_sum id Some (decodeCursor (token_at L i))) of
           Inl e \<Rightarrow> Inl e
         | Inr c \<Rightarrow> Inr (fill_page n [] (map (scanSession db) (select_sessions (project_of env project) c (n + 1) db))))"
      by (simp only: ListSessions_def Let_def list_options.simps assms(5))
    then show ?thesis unfolding cur using sel by (simp add: select_visible assms(4))
  qed
  also have "fill_page n [] (map (scanSession db) (take (n + 1) (drop i L))) =
      \<lparr>pg_sessions = map (scanSession db) (take n (drop i L)),
       pg_nextPageToken = (if length (drop i L) \<le> n then [] else token_at L (i + n))\<rparr>"
  proof (cases "length (drop i L) \<le> n")
    case True
    then show ?thesis using fill_page_spec [of "[]" n "map (scanSession db) (take (n + 1) (drop i L))"] n by simp
  next
    case False
    then have "i + (n - 1) < length L" by simp
    then have "map (scanSession db) (take (n + 1) (drop i L)) ! (n - 1) = scanSession db (L ! (i + n - 1))"
      using n False by simp
    with False show ?thesis
      using fill_page_spec [of "[]" n "map (scanSession db) (take (n + 1) (drop i L))"] n
      by (simp add: Let_def token_at_def scanSession_def take_map)
  qed
  finally show ?thesis .
qed

text \<open>A client that follows the tokens; \<open>None\<close> when it has made \<open>k\<close> requests without reaching the end.\<close>

fun collect_pages ::
  "sql_env \<Rightarrow> string \<Rightarrow> int \<Rightarrow> sqlite_db \<Rightarrow> nat \<Rightarrow> string \<Rightarrow> (goerr + session_info list) option" where
  "collect_pages env project sz db 0 token = None"
| "collect_pages env project sz db (Suc k) token =
     (case ListSessions env \<lparr>lo_project = project, lo_pageSize = sz, lo_pageToken = token\<rparr> db of
        Inl e \<Rightarrow> Some (Inl e)
      | Inr page \<Rightarrow>
          if pg_nextPageToken page = [] then Some (Inr (pg_sessions page))
          else (case collect_pages env project sz db k (pg_nextPageToken page) of
                  Some (Inr rest) \<Rightarrow> Some (Inr (pg_sessions page @ rest))
                | r \<Rightarrow> r))"

lemma collect_from:
  assumes ok: "db_ok db" and times: "times_ok db" and L: "L = visible (project_of env project) db"
  shows "i \<le> length L \<Longrightarrow> length L - i < k \<Longrightarrow>
    collect_pages env project sz db k (token_at L i) = Some (Inr (map (scanSession db) (drop i L)))"
proof (induction k arbitrary: i)
  case (Suc k)
  define n where "n = nat (page_size sz)"
  have n: "n > 0" using page_size_bounds [of sz] by (simp add: n_def)
  note page = page_at [OF ok times Suc.prems(1) L n_def]
  show ?case
  proof (cases "length (drop i L) \<le> n")
    case True
    with page show ?thesis by simp
  next
    case False
    then have "i + n \<le> length L" "length L - (i + n) < k" using n Suc.prems by auto
    from Suc.IH [OF this] page False n have "collect_pages env project sz db (Suc k) (token_at L i) =
        Some (Inr (map (scanSession db) (take n (drop i L)) @ map (scanSession db) (drop (i + n) L)))"
      using encodeCursor_nonempty by (simp add: token_at_def)
    moreover have "take n (drop i L) @ drop (i + n) L = drop i L"
      by (metis append_take_drop_id drop_drop add.commute)
    ultimately show ?thesis by (metis map_append)
  qed
qed simp

text \<open>
  (C34) Following the page tokens of \<^verbatim>\<open>ListSessions\<close> from the beginning terminates after at most one
  request per session and one more, and returns every active session of the project exactly once, newest first; no deleted session
  and no session of another project is among them.  Every page has between 1 and 500 slots.
\<close>

theorem paging_covers_everything:
  assumes "db_ok db" and "times_ok db"
  shows "\<exists>rows. collect_pages env project sz db (Suc (length (db_sessions db))) [] = Some (Inr (map (scanSession db) rows))
    \<and> sorted (map session_key rows) \<and> distinct (map sn_session rows)
    \<and> set rows = {r \<in> set (db_sessions db). sn_project r = project_of env project \<and> sn_deletionState r = DeletionActive}
    \<and> 1 \<le> page_size sz \<and> page_size sz \<le> 500"
proof -
  let ?L = "visible (project_of env project) db"
  have "length ?L \<le> length (db_sessions db)" by (simp add: visible_def)
  then have "collect_pages env project sz db (Suc (length (db_sessions db))) (token_at ?L 0) = Some (Inr (map (scanSession db) ?L))"
    using collect_from [OF assms refl, of 0 env project "Suc (length (db_sessions db))" sz] by simp
  moreover have "distinct (map sn_session ?L)"
    using assms(1) by (auto simp: visible_def distinct_map db_ok_def inj_on_def)
  ultimately show ?thesis
    using visible_sorted page_size_bounds [of sz]
    by (intro exI [of _ ?L]) (auto simp: token_at_def visible_def MaxPageSize_def)
qed

text \<open>
  A page token carries its cursor: decoding the token of a row gives back the row's creation
  time, any 64-bit one, and its session identifier, whatever bytes it has, the separator included.
\<close>

theorem page_token_roundtrip:
  assumes "- (2 ^ 63) \<le> t" and "t < 2 ^ 63"
  shows "decodeCursor (encodeCursor t uid) = Inr (t, uid)"
  by (rule cursor_roundtrip [OF assms])

theorem page_token_roundtrip_witness:
  "decodeCursor (encodeCursor (- 9223372036854775808) ''a|b'') = Inr (- 9223372036854775808, ''a|b'')"
  by (rule page_token_roundtrip) simp_all

definition three_sessions :: "sqlite_db" where
  "three_sessions = db_run sample_sql [DbPutSession (sample_meta\<lparr>sm_uid := ''a''\<rparr>),
     DbPutSession (sample_meta\<lparr>sm_uid := ''b''\<rparr>), DbPutSession (sample_meta\<lparr>sm_uid := ''c''\<rparr>)] empty_db"

lemma three_sessions_ok: "db_ok three_sessions \<and> times_ok three_sessions"
proof
  show "db_ok three_sessions" unfolding three_sessions_def using db_run_effect [OF empty_db_ok(1)] by simp
  show "times_ok three_sessions" by code_simp
qed

theorem paging_covers_everything_witness:
  "\<exists>rows. collect_pages sample_sql [] 2 three_sessions (Suc (length (db_sessions three_sessions))) []
      = Some (Inr (map (scanSession three_sessions) rows)) \<and> length rows = 3"
proof -
  obtain rows where rows: "collect_pages sample_sql [] 2 three_sessions (Suc (length (db_sessions three_sessions))) []
      = Some (Inr (map (scanSession three_sessions) rows))" and d: "distinct (map sn_session rows)"
    and s: "set rows = {r \<in> set (db_sessions three_sessions). sn_project r = project_of sample_sql [] \<and> sn_deletionState r = DeletionActive}"
    using paging_covers_everything [of three_sessions sample_sql "[]" 2] three_sessions_ok by auto
  have "card (set (map sn_session (filter (\<lambda>r. sn_project r = project_of sample_sql [] \<and> sn_deletionState r = DeletionActive)
      (db_sessions three_sessions)))) = 3" by code_simp
  then have "length rows = 3" using d distinct_card [OF d] s by simp
  with rows show ?thesis by blast
qed

end
