(* ===== verification/Session_Guard.thy ===== *)
theory Session_Guard
  imports Controller "HOL-Library.AList"
begin

text \<open>
  What the operations of one host share about its sessions: the admission guard of
  \<^verbatim>\<open>placement/session_guard.go\<close> and the set of open harness connections and checkpoint marks of
  \<^verbatim>\<open>placement/placement.go\<close> (\<^verbatim>\<open>sessionSet\<close>, \<^verbatim>\<open>liveHarness\<close>).  Each operation here runs under the mutex of its
  structure in the code, so it is one atomic step; the steps of different operations interleave in
  \<open>Placement_Race\<close>.  Go maps are association lists, a pointer to a connection is a number.
\<close>

section \<open>The session guard\<close>

definition ErrSessionBusy :: goerr where
  "ErrSessionBusy = ErrNew ''placement: another operation is in progress for this session''"

record sessionGuardEntry =
  ge_operation :: bool
  ge_readers :: int
  ge_deleting :: bool

type_synonym sessionGuard = "(string \<times> sessionGuardEntry) list"

datatype guardKind = guardOperation | guardRead | guardDelete

definition zero_entry :: sessionGuardEntry where
  "zero_entry = \<lparr>ge_operation = False, ge_readers = 0, ge_deleting = False\<rparr>"

definition guard_entry :: "string \<Rightarrow> sessionGuard \<Rightarrow> sessionGuardEntry" where
  "guard_entry uid g = (case map_of g uid of None \<Rightarrow> zero_entry | Some e \<Rightarrow> e)"

definition guard_refuses :: "guardKind \<Rightarrow> sessionGuardEntry \<Rightarrow> bool" where
  "guard_refuses kind e \<longleftrightarrow> ge_deleting e \<or> kind = guardOperation \<and> ge_operation e
     \<or> kind = guardDelete \<and> (ge_operation e \<or> ge_readers e > 0)"

definition guard_take :: "guardKind \<Rightarrow> sessionGuardEntry \<Rightarrow> sessionGuardEntry" where
  "guard_take kind e =
     (case kind of
        guardOperation \<Rightarrow> e\<lparr>ge_operation := True\<rparr>
      | guardRead \<Rightarrow> e\<lparr>ge_readers := ge_readers e + 1\<rparr>
      | guardDelete \<Rightarrow> e\<lparr>ge_deleting := True\<rparr>)"

definition guard_drop :: "guardKind \<Rightarrow> sessionGuardEntry \<Rightarrow> sessionGuardEntry" where
  "guard_drop kind e =
     (case kind of
        guardOperation \<Rightarrow> e\<lparr>ge_operation := False\<rparr>
      | guardRead \<Rightarrow> e\<lparr>ge_readers := ge_readers e - 1\<rparr>
      | guardDelete \<Rightarrow> e\<lparr>ge_deleting := False\<rparr>)"

definition guard_idle :: "sessionGuardEntry \<Rightarrow> bool" where
  "guard_idle e \<longleftrightarrow> \<not> ge_operation e \<and> ge_readers e = 0 \<and> \<not> ge_deleting e"

definition acquire :: "string \<Rightarrow> guardKind \<Rightarrow> sessionGuard \<Rightarrow> goerr option \<times> sessionGuard" where
  "acquire uid kind g =
     (let e = guard_entry uid g in
      if guard_refuses kind e then (Some ErrSessionBusy, AList.update uid e g)
      else (None, AList.update uid (guard_take kind e) g))"

text \<open>The closure \<^verbatim>\<open>acquire\<close> returns.  Its entry is the one the map holds: an entry leaves the map only with
  its last hold.\<close>

definition release_guard :: "string \<Rightarrow> guardKind \<Rightarrow> sessionGuard \<Rightarrow> sessionGuard" where
  "release_guard uid kind g =
     (let e = guard_drop kind (guard_entry uid g) in
      if guard_idle e then AList.delete uid g else AList.update uid e g)"

definition guard_busy :: "sessionGuard \<Rightarrow> bool" where
  "guard_busy g \<longleftrightarrow> g \<noteq> []"

section \<open>Connections and checkpoint marks\<close>

definition ErrCheckpointing :: goerr where
  "ErrCheckpointing = ErrNew ''placement: session is being checkpointed''"

definition errSuperseded :: goerr where
  "errSuperseded = errorf2 ErrCheckpointing '': in-flight turn superseded and its harness connection closed: '' ErrFenced"

text \<open>\<open>lh_ended\<close> is what \<^verbatim>\<open>once\<close> and \<^verbatim>\<open>err\<close> hold: nothing yet, or the cause and the result of closing.\<close>

record liveHarness =
  lh_ended :: "(goerr \<times> goerr option) option"
  lh_superseded :: bool
  lh_minted :: bool

record session_set =
  sess_live :: "(string \<times> nat list) list"
  sess_checkpoints :: "string list"
  sess_shared :: bool
  sess_conns :: "nat \<Rightarrow> liveHarness"
  sess_next :: nat

definition new_conn :: liveHarness where
  "new_conn = \<lparr>lh_ended = None, lh_superseded = False, lh_minted = False\<rparr>"

definition empty_set :: "bool \<Rightarrow> session_set" where
  "empty_set shared = \<lparr>sess_live = [], sess_checkpoints = [], sess_shared = shared, sess_conns = (\<lambda>_. new_conn), sess_next = 0\<rparr>"

definition sessionSet_busy :: "session_set \<Rightarrow> bool" where
  "sessionSet_busy s \<longleftrightarrow> sess_live s \<noteq> [] \<or> sess_checkpoints s \<noteq> []"

definition live_of :: "string \<Rightarrow> session_set \<Rightarrow> nat list" where
  "live_of uid s = (case map_of (sess_live s) uid of None \<Rightarrow> [] | Some ids \<Rightarrow> ids)"

definition set_conn :: "nat \<Rightarrow> (liveHarness \<Rightarrow> liveHarness) \<Rightarrow> session_set \<Rightarrow> session_set" where
  "set_conn k f s = s\<lparr>sess_conns := (sess_conns s)(k := f (sess_conns s k))\<rparr>"

definition fenceMinted :: "nat \<Rightarrow> session_set \<Rightarrow> session_set" where
  "fenceMinted k = set_conn k (\<lambda>l. l\<lparr>lh_minted := True\<rparr>)"

text \<open>\<^verbatim>\<open>end\<close>: the first call cancels with \<open>cause\<close> and closes, with result \<open>closed\<close>; later calls return that result.\<close>

definition end_conn :: "nat \<Rightarrow> goerr \<Rightarrow> goerr option \<Rightarrow> session_set \<Rightarrow> goerr option \<times> session_set" where
  "end_conn k cause closed s =
     (case lh_ended (sess_conns s k) of
        Some (_, err) \<Rightarrow> (err, s)
      | None \<Rightarrow> (closed, set_conn k (\<lambda>l. l\<lparr>lh_ended := Some (cause, closed)\<rparr>) s))"

definition checkpointing :: "string \<Rightarrow> goerr" where
  "checkpointing uid = errorf [] ErrCheckpointing ('': session '' @ format_q uid)"

definition refuseDuringCheckpoint :: "string \<Rightarrow> session_set \<Rightarrow> goerr option" where
  "refuseDuringCheckpoint uid s = (if uid \<in> set (sess_checkpoints s) then Some (checkpointing uid) else None)"

text \<open>\<^verbatim>\<open>openHarness\<close> once the dial has succeeded: a fresh connection, registered unless the session is being
  checkpointed.  \<open>closed\<close> is the result of closing it when it is refused.\<close>

definition register_conn :: "string \<Rightarrow> goerr option \<Rightarrow> session_set \<Rightarrow> (goerr + nat) \<times> session_set" where
  "register_conn uid closed s =
     (let k = sess_next s; s = s\<lparr>sess_next := Suc k, sess_conns := (sess_conns s)(k := new_conn)\<rparr> in
      if uid \<in> set (sess_checkpoints s)
      then (Inl (checkpointing uid), snd (end_conn k ContextCanceled closed s))
      else (Inr k, s\<lparr>sess_live := AList.update uid (k # live_of uid s) (sess_live s)\<rparr>))"

definition release_conn :: "string \<Rightarrow> nat \<Rightarrow> goerr option \<Rightarrow> session_set \<Rightarrow> goerr option \<times> session_set" where
  "release_conn uid k closed s =
     (let ids = filter (\<lambda>i. i \<noteq> k) (live_of uid s);
          s = s\<lparr>sess_live := (if ids = [] then AList.delete uid (sess_live s) else AList.update uid ids (sess_live s))\<rparr>
      in end_conn k ContextCanceled closed (fenceMinted k s))"

definition setCheckpointLocked :: "string \<Rightarrow> session_set \<Rightarrow> goerr option \<times> session_set" where
  "setCheckpointLocked uid s =
     (if uid \<in> set (sess_checkpoints s)
      then (Some (errorf [] ErrCheckpointing ('': session '' @ format_q uid
              @ '' checkpoint mark is held by another operation'')), s)
      else (None, s\<lparr>sess_checkpoints := uid # sess_checkpoints s\<rparr>))"

definition markCheckpoint :: "string \<Rightarrow> session_set \<Rightarrow> goerr option \<times> session_set" where
  "markCheckpoint = setCheckpointLocked"

definition endCheckpoint :: "string \<Rightarrow> session_set \<Rightarrow> session_set" where
  "endCheckpoint uid s = s\<lparr>sess_checkpoints := removeAll uid (sess_checkpoints s)\<rparr>"

definition beginCheckpoint :: "string \<Rightarrow> session_set \<Rightarrow> (goerr + nat list) \<times> session_set" where
  "beginCheckpoint uid s =
     (case setCheckpointLocked uid s of
        (Some e, s') \<Rightarrow> (Inl e, s')
      | (None, s') \<Rightarrow> (Inr (live_of uid s'), fold (\<lambda>k. set_conn k (\<lambda>l. l\<lparr>lh_superseded := True\<rparr>)) (live_of uid s') s'))"

section \<open>What the guard does to an entry\<close>

lemma guard_entry_update [simp]:
  "guard_entry k (AList.update uid e g) = (if k = uid then e else guard_entry k g)"
  by (simp add: guard_entry_def update_conv')

lemma guard_entry_delete [simp]:
  "guard_entry k (AList.delete uid g) = (if k = uid then zero_entry else guard_entry k g)"
  by (simp add: guard_entry_def delete_conv')

lemma guard_entry_release [simp]:
  "guard_entry k (release_guard uid kind g) = (if k = uid then guard_drop kind (guard_entry uid g) else guard_entry k g)"
  by (cases "guard_drop kind (guard_entry uid g)")
    (auto simp: release_guard_def Let_def guard_idle_def zero_entry_def)

lemma guard_take_drop [simp]: "\<not> guard_refuses kind e \<Longrightarrow> guard_drop kind (guard_take kind e) = e"
  by (cases e) (auto simp: guard_refuses_def guard_drop_def guard_take_def split: guardKind.splits)

lemma acquire_entry:
  "acquire uid kind g = (None, g') \<Longrightarrow> \<not> guard_refuses kind (guard_entry uid g)
     \<and> (\<forall>k. guard_entry k g' = (if k = uid then guard_take kind (guard_entry uid g) else guard_entry k g))"
  by (auto simp: acquire_def Let_def split: if_splits)

end
