(* ===== verification/Placement.thy ===== *)
theory Placement
  imports Session_Guard
begin

text \<open>
  The Placer of \<^verbatim>\<open>placement/placement.go\<close>: the life of an incarnation around a turn.  One operation runs
  here from its call to its return on an explicit host state: the journal and counters of the
  controller, the guard and the session set it shares with other operations, and the list of calls made
  to the runtime.  The runtime (\<^verbatim>\<open>api.Runtime\<close>), the dialer and gRPC's status codes are parameters.
  What a concurrent checkpoint does to a running turn (claiming its connection, cancelling its context)
  is an answer of the environment here; the interleavings themselves are in \<open>Placement_Race\<close>.
\<close>

section \<open>The runtime\<close>

record incarnation =
  inc_id :: string
  inc_worker :: string
  inc_address :: string
  inc_runtime :: string
  inc_fenceToken :: int64
  inc_callMetadata :: "(string \<times> string) list"

definition zero_incarnation :: incarnation where
  "zero_incarnation = \<lparr>inc_id = [], inc_worker = [], inc_address = [], inc_runtime = [], inc_fenceToken = 0,
     inc_callMetadata = []\<rparr>"

text \<open>The calls a runtime and a dialer receive.\<close>

datatype runtime_call =
    RtDescribe | RtCreate string | RtSnapshot string | RtRestore snapshot_ref
  | RtFork snapshot_ref string | RtStop string | RtDial string | RtClose nat | RtConnDescribe

text \<open>
  A Placer: its backend, its dialer, the controller template that \<^verbatim>\<open>controllerOpts\<close> completes, and what
  the environment answers.  \<open>pl_ctxErr\<close> is the operation's context, \<open>c_ctxErr\<close> of the template the context
  of the turn, \<open>pl_cause\<close> its cancellation cause, \<open>pl_claimed\<close> whether a checkpoint has claimed the turn's
  connection by now, \<open>pl_waits\<close> the outcome of waiting for superseded turns.
\<close>

record 's placer =
  pl_describe :: "nat \<Rightarrow> goerr + descriptor"
  pl_capabilities :: runtime_capabilities
  pl_create :: "nat \<Rightarrow> string \<Rightarrow> incarnation \<times> goerr option"
  pl_snapshot :: "nat \<Rightarrow> string \<Rightarrow> goerr + snapshot_ref"
  pl_restore :: "nat \<Rightarrow> snapshot_ref \<Rightarrow> goerr + incarnation"
  pl_fork :: "nat \<Rightarrow> snapshot_ref \<Rightarrow> string \<Rightarrow> goerr option"
  pl_describesLive :: bool
  pl_dial :: "nat \<Rightarrow> incarnation \<Rightarrow> goerr + harness"
  pl_close :: "nat \<Rightarrow> goerr option"
  pl_controller :: "'s controller"
  pl_descriptorID :: string
  pl_ctxErr :: "nat \<Rightarrow> goerr option"
  pl_dctxErr :: "nat \<Rightarrow> bool"
  pl_cause :: "nat \<Rightarrow> goerr option"
  pl_claimed :: "nat \<Rightarrow> bool"
  pl_waits :: "nat \<Rightarrow> goerr option"

record 's host =
  h_world :: "'s world"
  h_guard :: sessionGuard
  h_set :: session_set
  h_runtime :: "runtime_call list"

definition h_log :: "'s host \<Rightarrow> 's" where
  "h_log h = w_log (h_world h)"

definition set_log :: "'s \<Rightarrow> 's host \<Rightarrow> 's host" where
  "set_log l h = h\<lparr>h_world := (h_world h)\<lparr>w_log := l\<rparr>\<rparr>"

definition pl_ops :: "'s placer \<Rightarrow> 's store_ops" where
  "pl_ops p = c_ops (pl_controller p)"

text \<open>A question to the environment, and a call to the runtime: both advance the tick.\<close>

definition ask :: "'s host \<Rightarrow> nat \<times> 's host" where
  "ask h = (w_tick (h_world h), h\<lparr>h_world := tick (h_world h)\<rparr>)"

definition rt_call :: "runtime_call \<Rightarrow> 's host \<Rightarrow> nat \<times> 's host" where
  "rt_call c h = ask (h\<lparr>h_runtime := h_runtime h @ [c]\<rparr>)"

section \<open>Errors\<close>

definition ErrUnplaceable :: goerr where
  "ErrUnplaceable = ErrNew ''placement: harness cannot be placed on this runtime''"

definition ErrDescriptorMismatch :: goerr where
  "ErrDescriptorMismatch = ErrNew ''placement: harness is not the expected one''"

definition ErrHarnessUnavailable :: goerr where
  "ErrHarnessUnavailable = ErrNew ''placement: harness unavailable''"

definition ErrAdmissionInterrupted :: goerr where
  "ErrAdmissionInterrupted = ErrNew ''placement: admission interrupted''"

definition describeError :: "goerr option \<Rightarrow> goerr \<Rightarrow> bool \<Rightarrow> goerr" where
  "describeError ctxErr err timedOut =
     (case ctxErr of
        Some c \<Rightarrow> ErrMulti (error_text ErrAdmissionInterrupted @ '': describe harness: '' @ error_text c @ '': ''
                          @ error_text err) [ErrAdmissionInterrupted, c]
      | None \<Rightarrow>
          if timedOut \<or> status_code err = CodeUnavailable \<or> status_code err = CodeDeadlineExceeded
          then errorf2 ErrHarnessUnavailable '': '' err
          else err)"

definition controllerError :: "goerr option \<Rightarrow> goerr \<Rightarrow> goerr" where
  "controllerError ctxErr err =
     (if \<not> errors_is err ErrHarnessDescribeFailed then err
      else describeError ctxErr err (errors_is err ContextDeadlineExceeded))"

definition turnError :: "'s placer \<Rightarrow> nat \<Rightarrow> goerr \<Rightarrow> goerr" where
  "turnError p t err =
     (case pl_cause p t of
        Some cause \<Rightarrow>
          if errors_is cause errSuperseded then
            (if errors_is err errSuperseded then err
             else ErrMulti (error_text cause @ '' (turn ended with: '' @ error_text err @ '')'') [cause, err])
          else controllerError (c_ctxErr (pl_controller p) t) err
      | None \<Rightarrow> controllerError (c_ctxErr (pl_controller p) t) err)"

fun resumability_text :: "resumability \<Rightarrow> string" where
  "resumability_text ResumabilityStatelessReplay = ''STATELESS_REPLAY''"
| "resumability_text ResumabilityRequiresMemorySnapshot = ''REQUIRES_MEMORY_SNAPSHOT''"
| "resumability_text (ResumabilityOther s) = s"

definition format_bool :: "bool \<Rightarrow> string" where
  "format_bool b = (if b then ''true'' else ''false'')"

section \<open>Admission\<close>

definition gate ::
  "'s placer \<Rightarrow> (nat \<Rightarrow> goerr + descriptor) \<Rightarrow> runtime_call \<Rightarrow> 's host \<Rightarrow> (goerr + descriptor) \<times> 's host" where
  "gate p describe c h =
     (case rt_call c h of
        (t, h1) \<Rightarrow>
          (case describe t of
             Inl err \<Rightarrow>
               (case ask h1 of
                  (t', h2) \<Rightarrow> (Inl (describeError (pl_ctxErr p t') err (pl_dctxErr p t')), h2))
           | Inr desc \<Rightarrow>
               if pl_descriptorID p \<noteq> [] \<and> desc_id desc \<noteq> pl_descriptorID p then
                 (Inl (errorf [] ErrDescriptorMismatch ('': expected descriptor id '' @ format_q (pl_descriptorID p)
                    @ '', the harness reports '' @ format_q (desc_id desc))), h1)
               else if \<not> CanPlace (desc_capabilities desc) (pl_capabilities p) then
                 (Inl (errorf [] ErrUnplaceable ('': harness '' @ format_q (desc_id desc) @ '' needs ''
                    @ resumability_text (cap_resumability (desc_capabilities desc))
                    @ '' but the runtime provides MemorySnapshot=''
                    @ format_bool (rc_memorySnapshot (pl_capabilities p)))), h1)
               else (Inr desc, h1)))"

definition admit :: "'s placer \<Rightarrow> 's host \<Rightarrow> (goerr + descriptor) \<times> 's host" where
  "admit p = gate p (pl_describe p) RtDescribe"

definition recheck :: "'s placer \<Rightarrow> harness \<Rightarrow> 's host \<Rightarrow> goerr option \<times> 's host" where
  "recheck p har h =
     (if \<not> pl_describesLive p then (None, h)
      else case gate p (har_describe har) RtConnDescribe h of
             (Inr _, h1) \<Rightarrow> (None, h1)
           | (Inl err, h1) \<Rightarrow>
               (case ask h1 of
                  (t, h2) \<Rightarrow>
                    (case pl_cause p t of
                       Some cause \<Rightarrow>
                         if errors_is cause errSuperseded
                         then (Some (errorf [] errSuperseded ('' (harness check ended with: '' @ error_text err @ '')'')), h2)
                         else (Some err, h2)
                     | None \<Rightarrow> (Some err, h2))))"

section \<open>Connections\<close>

definition openHarness :: "'s placer \<Rightarrow> string \<Rightarrow> incarnation \<Rightarrow> 's host \<Rightarrow> (goerr + nat \<times> harness) \<times> 's host" where
  "openHarness p uid inc h =
     (case rt_call (RtDial (inc_address inc)) h of
        (t, h1) \<Rightarrow>
          (case pl_dial p t inc of
             Inl e \<Rightarrow> (Inl e, h1)
           | Inr har \<Rightarrow>
               (case register_conn uid (pl_close p t) (h_set h1) of
                  (Inl e, s) \<Rightarrow> (Inl e, h1\<lparr>h_set := s, h_runtime := h_runtime h1 @ [RtClose (sess_next (h_set h1))]\<rparr>)
                | (Inr k, s) \<Rightarrow> (Inr (k, har), h1\<lparr>h_set := s\<rparr>))))"

definition releaseHarness :: "'s placer \<Rightarrow> string \<Rightarrow> nat \<Rightarrow> 's host \<Rightarrow> goerr option \<times> 's host" where
  "releaseHarness p uid k h =
     (case lh_ended (sess_conns (h_set h) k) of
        Some _ \<Rightarrow> (case release_conn uid k None (h_set h) of (err, s) \<Rightarrow> (err, h\<lparr>h_set := s\<rparr>))
      | None \<Rightarrow>
          (case rt_call (RtClose k) h of
             (t, h1) \<Rightarrow> (case release_conn uid k (pl_close p t) (h_set h1) of (err, s) \<Rightarrow> (err, h1\<lparr>h_set := s\<rparr>))))"

definition checkSuperseded :: "'s placer \<Rightarrow> nat \<Rightarrow> 's host \<Rightarrow> goerr option \<times> 's host" where
  "checkSuperseded p k h =
     (case ask h of
        (t, h1) \<Rightarrow>
          if lh_superseded (sess_conns (h_set h) k) \<or> pl_claimed p t then (Some errSuperseded, h1)
          else (case c_ctxErr (pl_controller p) t of
                  Some e \<Rightarrow> (Some (turnError p t e), h1)
                | None \<Rightarrow> (None, h1)))"

definition closeInvocation :: "'s placer \<Rightarrow> string \<Rightarrow> nat \<Rightarrow> 's host \<Rightarrow> goerr option \<times> 's host" where
  "closeInvocation p uid k h =
     (case checkSuperseded p k h of
        (Some e, h1) \<Rightarrow> (Some e, h1)
      | (None, h1) \<Rightarrow> releaseHarness p uid k h1)"

section \<open>Suspend\<close>

definition lifecycle_event :: "lifecycle \<Rightarrow> event" where
  "lifecycle_event lc = zero_event\<lparr>ev_kind := EventLifecycle, ev_lifecycle := Some lc\<rparr>"

definition suspend_lifecycle :: "snapshot_ref \<Rightarrow> lifecycle" where
  "suspend_lifecycle ref = \<lparr>lc_kind = LifecycleSuspend, lc_detail = [], lc_snapshot = Some ref\<rparr>"

definition appendLifecycleAt ::
  "'s store_ops \<Rightarrow> int64 \<Rightarrow> int64 \<Rightarrow> lifecycle \<Rightarrow> 's \<Rightarrow> (goerr + log_record) \<times> 's" where
  "appendLifecycleAt ops expectedLastSeq fence lc log = Store_Append ops expectedLastSeq fence (lifecycle_event lc) log"

definition appendLifecycle :: "'s store_ops \<Rightarrow> lifecycle \<Rightarrow> 's \<Rightarrow> (goerr + log_record) \<times> 's" where
  "appendLifecycle ops lc log =
     (case Store_NewFence ops log of
        (Inl e, log1) \<Rightarrow> (Inl e, log1)
      | (Inr fence, log1) \<Rightarrow>
          (case Store_Head ops log1 of
             Inl e \<Rightarrow> (Inl e, log1)
           | Inr head \<Rightarrow> appendLifecycleAt ops head fence lc log1))"

record suspendCursor =
  su_head :: int64
  su_fence :: int64
  su_onRecord :: bool

definition observe_if :: "bool \<Rightarrow> log_record \<Rightarrow> 's host \<Rightarrow> 's host" where
  "observe_if b r h = (if b then h\<lparr>h_world := (h_world h)\<lparr>w_observed := w_observed (h_world h) @ [OnRecord r]\<rparr>\<rparr> else h)"

definition suspend ::
  "'s placer \<Rightarrow> string \<Rightarrow> suspendCursor option \<Rightarrow> 's host \<Rightarrow> (goerr + snapshot_ref) \<times> 's host" where
  "suspend p uid cursor h =
     (case CheckWritable (pl_ops p) (h_log h) of
        Some e \<Rightarrow> (Inl e, h)
      | None \<Rightarrow>
     (case rt_call (RtSnapshot uid) h of
        (t, h1) \<Rightarrow>
     (case pl_snapshot p t uid of
        Inl e \<Rightarrow> (Inl e, h1)
      | Inr ref \<Rightarrow>
          (case cursor of
             None \<Rightarrow>
               (case appendLifecycle (pl_ops p) (suspend_lifecycle ref) (h_log h1) of
                  (Inl e, l) \<Rightarrow> (Inl e, set_log l h1)
                | (Inr _, l) \<Rightarrow> (Inr ref, set_log l h1))
           | Some cur \<Rightarrow>
               (case Store_Append (pl_ops p) (su_head cur) (su_fence cur) (lifecycle_event (suspend_lifecycle ref)) (h_log h1) of
                  (Inl e, l) \<Rightarrow> (Inl e, set_log l h1)
                | (Inr record, l) \<Rightarrow> (Inr ref, observe_if (su_onRecord cur) record (set_log l h1)))))))"

text \<open>Running under the session guard, and under the checkpoint mark; both are given back on every path.\<close>

definition guarded ::
  "guardKind \<Rightarrow> string \<Rightarrow> (goerr \<Rightarrow> 'a) \<Rightarrow> ('s host \<Rightarrow> 'a \<times> 's host) \<Rightarrow> 's host \<Rightarrow> 'a \<times> 's host" where
  "guarded kind uid refused body h =
     (case acquire uid kind (h_guard h) of
        (Some e, g) \<Rightarrow> (refused e, h\<lparr>h_guard := g\<rparr>)
      | (None, g) \<Rightarrow>
          (case body (h\<lparr>h_guard := g\<rparr>) of
             (res, h1) \<Rightarrow> (res, h1\<lparr>h_guard := release_guard uid kind (h_guard h1)\<rparr>)))"

definition marked ::
  "string \<Rightarrow> (goerr \<Rightarrow> 'a) \<Rightarrow> ('s host \<Rightarrow> 'a \<times> 's host) \<Rightarrow> 's host \<Rightarrow> 'a \<times> 's host" where
  "marked uid refused body h =
     (case markCheckpoint uid (h_set h) of
        (Some e, s) \<Rightarrow> (refused e, h\<lparr>h_set := s\<rparr>)
      | (None, s) \<Rightarrow>
          (case body (h\<lparr>h_set := s\<rparr>) of
             (res, h1) \<Rightarrow> (res, h1\<lparr>h_set := endCheckpoint uid (h_set h1)\<rparr>)))"

definition Placer_Suspend :: "'s placer \<Rightarrow> string \<Rightarrow> 's host \<Rightarrow> (goerr + snapshot_ref) \<times> 's host" where
  "Placer_Suspend p uid = guarded guardOperation uid Inl (marked uid Inl (suspend p uid None))"

section \<open>Parking\<close>

definition state_ref :: "approval_state \<Rightarrow> log_record \<Rightarrow> approval_ref" where
  "state_ref st request = \<lparr>ref_executionID = as_executionID st, ref_toolCallID = tc_id (as_call st),
     ref_requestSeq = r_seq request\<rparr>"

definition handoff ::
  "'s placer \<Rightarrow> string \<Rightarrow> int64 \<Rightarrow> approval_ref \<Rightarrow> nat \<Rightarrow> bool \<Rightarrow> 's host \<Rightarrow> goerr option \<times> 's host" where
  "handoff p uid fence ref k onRecord h =
     (case InspectApproval (pl_ops p) 0 (h_log h) of
        Inl e \<Rightarrow> (Some e, h)
      | Inr state \<Rightarrow>
     (case state of
        Some st \<Rightarrow>
          (case as_request st of
             Some request \<Rightarrow>
               if as_inherited st \<or> as_receipt st \<noteq> None \<or> as_decision st \<noteq> None \<or> ref \<noteq> state_ref st request
               then (Some (errorf [] ErrReplayDiverged '': park does not match the recorded owned request''), h)
               else
                 (case closeInvocation p uid k h of
                    (Some e, h1) \<Rightarrow> (Some e, h1)
                  | (None, h1) \<Rightarrow>
                      (case suspend p uid (Some \<lparr>su_head = as_head st, su_fence = fence, su_onRecord = onRecord\<rparr>) h1 of
                         (Inl e, h2) \<Rightarrow> (Some e, h2)
                       | (Inr _, h2) \<Rightarrow> (Some (ApprovalParkedError ref), h2)))
           | None \<Rightarrow> (Some (errorf [] ErrReplayDiverged '': park does not match the recorded owned request''), h))
      | None \<Rightarrow> (Some (errorf [] ErrReplayDiverged '': park does not match the recorded owned request''), h)))"

definition handoffPark ::
  "'s placer \<Rightarrow> string \<Rightarrow> int64 \<Rightarrow> approval_ref \<Rightarrow> nat \<Rightarrow> bool \<Rightarrow> 's host \<Rightarrow> goerr option \<times> 's host" where
  "handoffPark p uid fence ref k onRecord = marked uid Some (handoff p uid fence ref k onRecord)"

definition park_of :: "goerr \<Rightarrow> approval_ref option" where
  "park_of err =
     (case errors_as_parked err of
        Some ref \<Rightarrow> if IsParkUnwind err ref then Some ref else None
      | None \<Rightarrow> None)"

section \<open>Exec\<close>

record exec_config =
  ec_harness :: string
  ec_onRecord :: bool
  ec_onDelta :: bool
  ec_config :: bytes
  ec_resumeFromSeq :: int64

definition controllerOpts :: "'s placer \<Rightarrow> int64 \<Rightarrow> string \<Rightarrow> bool \<Rightarrow> bool \<Rightarrow> 's controller" where
  "controllerOpts p fence uid onRecord onDelta = (pl_controller p)\<lparr>c_fence := fence, c_sessionUID := uid,
     c_onRecord := onRecord, c_onDelta := onDelta\<rparr>"

definition exec_controller :: "'s placer \<Rightarrow> exec_config \<Rightarrow> int64 \<Rightarrow> string \<Rightarrow> 's controller" where
  "exec_controller p cfg fence uid = (controllerOpts p fence uid (ec_onRecord cfg) (ec_onDelta cfg))\<lparr>
     c_startConfig := ec_config cfg, c_startResumeFromSeq := ec_resumeFromSeq cfg, c_harnessName := ec_harness cfg\<rparr>"

text \<open>How both kinds of turn end: a park is handed off, any other error is reported by \<^verbatim>\<open>turnError\<close>.\<close>

definition finish_turn ::
  "'s placer \<Rightarrow> string \<Rightarrow> int64 \<Rightarrow> nat \<Rightarrow> bool \<Rightarrow> goerr \<Rightarrow> 's host \<Rightarrow> goerr option \<times> 's host" where
  "finish_turn p uid fence k onRecord err h =
     (case park_of err of
        Some ref \<Rightarrow> handoffPark p uid fence ref k onRecord h
      | None \<Rightarrow> (case ask h of (t, h1) \<Rightarrow> (Some (turnError p t err), h1)))"

definition exec_connected ::
  "'s placer \<Rightarrow> exec_config \<Rightarrow> string \<Rightarrow> message list \<Rightarrow> int64 \<Rightarrow> incarnation \<Rightarrow> nat \<Rightarrow> harness \<Rightarrow> 's host \<Rightarrow>
     (incarnation \<times> goerr option) \<times> 's host" where
  "exec_connected p cfg uid inputs expectedLastSeq inc k har h =
     (case recheck p har h of
        (Some e, h1) \<Rightarrow> ((inc, Some e), h1)
      | (None, h1) \<Rightarrow>
     (case Store_NewFence (pl_ops p) (h_log h1) of
        (minted, l) \<Rightarrow>
          let h2 = (set_log l h1)\<lparr>h_set := fenceMinted k (h_set h1)\<rparr> in
     (case minted of
        Inl e \<Rightarrow> ((inc, Some e), h2)
      | Inr fence \<Rightarrow>
          let inc = inc\<lparr>inc_fenceToken := fence\<rparr> in
     (case checkSuperseded p k h2 of
        (Some e, h3) \<Rightarrow> ((inc, Some e), h3)
      | (None, h3) \<Rightarrow>
     (case NewController (exec_controller p cfg fence uid) (h_log h3) of
        (Inl e, l) \<Rightarrow> ((inc, Some e), set_log l h3)
      | (Inr c, l) \<Rightarrow>
     (case Exec c har inputs expectedLastSeq ((h_world h3)\<lparr>w_log := l\<rparr>) of
        (None, w) \<Rightarrow> ((inc, None), h3\<lparr>h_world := w\<rparr>)
      | (Some err, w) \<Rightarrow>
          (case finish_turn p uid fence k (ec_onRecord cfg) err (h3\<lparr>h_world := w\<rparr>) of
             (res, h4) \<Rightarrow> ((inc, res), h4))))))))"

text \<open>The deferred \<^verbatim>\<open>releaseHarness\<close> of both kinds of turn.\<close>

definition with_harness ::
  "'s placer \<Rightarrow> string \<Rightarrow> incarnation \<Rightarrow> (goerr \<Rightarrow> 'a) \<Rightarrow> (nat \<Rightarrow> harness \<Rightarrow> 's host \<Rightarrow> 'a \<times> 's host) \<Rightarrow> 's host \<Rightarrow> 'a \<times> 's host" where
  "with_harness p uid inc refused body h =
     (case openHarness p uid inc h of
        (Inl e, h1) \<Rightarrow> (refused e, h1)
      | (Inr (k, har), h1) \<Rightarrow>
          (case body k har h1 of (res, h2) \<Rightarrow> (res, snd (releaseHarness p uid k h2))))"

definition exec_locked ::
  "'s placer \<Rightarrow> exec_config \<Rightarrow> string \<Rightarrow> message list \<Rightarrow> int64 \<Rightarrow> 's host \<Rightarrow> (incarnation \<times> goerr option) \<times> 's host" where
  "exec_locked p cfg uid inputs expectedLastSeq h =
     (let fail = (\<lambda>e h. ((zero_incarnation, Some e), h)) in
     (case CheckWritable (pl_ops p) (h_log h) of
        Some e \<Rightarrow> fail e h
      | None \<Rightarrow>
     (case InspectApproval (pl_ops p) 0 (h_log h) of
        Inl e \<Rightarrow> fail e h
      | Inr state \<Rightarrow>
     if (case state of None \<Rightarrow> False | Some st \<Rightarrow> \<not> as_inherited st \<and> as_receipt st = None)
     then fail ErrApprovalBlocked h
     else
     (case admit p h of
        (Inl e, h1) \<Rightarrow> fail e h1
      | (Inr _, h1) \<Rightarrow>
     (case refuseDuringCheckpoint uid (h_set h1) of
        Some e \<Rightarrow> fail e h1
      | None \<Rightarrow>
     (case rt_call (RtCreate uid) h1 of
        (t, h2) \<Rightarrow>
     (case pl_create p t uid of
        (inc, Some e) \<Rightarrow> ((inc, Some e), h2)
      | (inc, None) \<Rightarrow>
          with_harness p uid inc (\<lambda>e. (inc, Some e))
            (exec_connected p cfg uid inputs expectedLastSeq inc) h2)))))))"

definition Placer_Exec ::
  "'s placer \<Rightarrow> exec_config \<Rightarrow> string \<Rightarrow> message list \<Rightarrow> int64 \<Rightarrow> 's host \<Rightarrow> (incarnation \<times> goerr option) \<times> 's host" where
  "Placer_Exec p cfg uid inputs expectedLastSeq =
     guarded guardOperation uid (\<lambda>e. (zero_incarnation, Some e)) (exec_locked p cfg uid inputs expectedLastSeq)"

section \<open>Resume\<close>

definition checkResumeHead :: "'s store_ops \<Rightarrow> int64 option \<Rightarrow> 's \<Rightarrow> goerr option" where
  "checkResumeHead ops expected log =
     (case expected of
        None \<Rightarrow> None
      | Some ex \<Rightarrow>
          (case Store_Head ops log of
             Inl e \<Rightarrow> Some e
           | Inr head \<Rightarrow>
               if head \<noteq> ex
               then Some (errorf [] ErrConflict ('': expected_last_seq '' @ format_int ex @ '', head '' @ format_int head))
               else None))"

definition is_suspend :: "event \<Rightarrow> snapshot_ref option" where
  "is_suspend ev =
     (if ev_kind ev = EventLifecycle then
        (case ev_lifecycle ev of
           None \<Rightarrow> None
         | Some l \<Rightarrow> if lc_kind l = LifecycleSuspend then lc_snapshot l else None)
      else None)"

fun own_suspend :: "string \<Rightarrow> log_record list \<Rightarrow> snapshot_ref option" where
  "own_suspend uid [] = None"
| "own_suspend uid (r # rs) =
     (case is_suspend (r_event r) of
        None \<Rightarrow> own_suspend uid rs
      | Some ref \<Rightarrow> if sr_local ref \<noteq> uid then own_suspend uid rs else Some ref)"

definition handle_ref :: "string \<Rightarrow> snapshot_ref" where
  "handle_ref uid = \<lparr>sr_local = uid, sr_externalURI = [], sr_memory = False, sr_sealed = False\<rparr>"

definition lastSuspendRef :: "'s store_ops \<Rightarrow> string \<Rightarrow> 's \<Rightarrow> goerr + snapshot_ref" where
  "lastSuspendRef ops uid log =
     (case Store_Read ops 1 log of
        Inl e \<Rightarrow> Inl e
      | Inr recs \<Rightarrow> Inr (case own_suspend uid (rev recs) of Some ref \<Rightarrow> ref | None \<Rightarrow> handle_ref uid))"

record resume_config =
  rf_harness :: string
  rf_onRecord :: bool
  rf_onDelta :: bool
  rf_expectedLastSeq :: "int64 option"

definition mint_checked :: "'s placer \<Rightarrow> int64 option \<Rightarrow> 's host \<Rightarrow> (goerr + int64) \<times> 's host" where
  "mint_checked p expected h =
     (case Store_NewFence (pl_ops p) (h_log h) of
        (Inl e, l) \<Rightarrow> (Inl e, set_log l h)
      | (Inr fence, l) \<Rightarrow>
          (case checkResumeHead (pl_ops p) expected l of
             Some e \<Rightarrow> (Inl e, set_log l h)
           | None \<Rightarrow> (Inr fence, set_log l h)))"

definition resumeFence :: "'s placer \<Rightarrow> string \<Rightarrow> int64 option \<Rightarrow> 's host \<Rightarrow> (goerr + int64) \<times> 's host" where
  "resumeFence p uid expected =
     (if expected \<noteq> None then marked uid Inl (mint_checked p expected) else mint_checked p expected)"

definition repair_request :: "approval_state \<Rightarrow> event" where
  "repair_request st = zero_event\<lparr>ev_executionID := as_executionID st, ev_kind := EventApprovalRequest,
     ev_approval := Some \<lparr>aq_toolCallID = tc_id (as_call st), aq_reason = []\<rparr>\<rparr>"

text \<open>\<open>None\<close> is \<^verbatim>\<open>handled = false\<close>; \<open>Some e\<close> is \<^verbatim>\<open>handled\<close> with the error.\<close>

definition resumeApproval ::
  "'s placer \<Rightarrow> string \<Rightarrow> approval_state option \<Rightarrow> resume_config \<Rightarrow> 's host \<Rightarrow> goerr option \<times> 's host" where
  "resumeApproval p uid state cfg h =
     (case state of
        None \<Rightarrow> (None, h)
      | Some st \<Rightarrow>
          if as_receipt st \<noteq> None then (None, h)
          else if as_inherited st then (Some ErrInheritedToolIntent, h)
          else if as_decision st \<noteq> None then (None, h)
          else
     (case as_request st of
        Some request \<Rightarrow> (Some (ApprovalParkedError (state_ref st request)), h)
      | None \<Rightarrow>
     (case resumeFence p uid (rf_expectedLastSeq cfg) h of
        (Inl e, h1) \<Rightarrow> (Some e, h1)
      | (Inr fence, h1) \<Rightarrow>
     (case Store_Append (pl_ops p) (as_head st) fence (repair_request st) (h_log h1) of
        (Inl e, l) \<Rightarrow> (Some e, set_log l h1)
      | (Inr record, l) \<Rightarrow>
          (Some (ApprovalParkedError (state_ref st record)), observe_if (rf_onRecord cfg) record (set_log l h1))))))"

definition resume_controller :: "'s placer \<Rightarrow> resume_config \<Rightarrow> int64 \<Rightarrow> string \<Rightarrow> 's controller" where
  "resume_controller p cfg fence uid = (controllerOpts p fence uid (rf_onRecord cfg) (rf_onDelta cfg))\<lparr>
     c_startConfig := [], c_startResumeFromSeq := 0, c_harnessName := rf_harness cfg\<rparr>"

definition resume_marker :: event where
  "resume_marker = lifecycle_event \<lparr>lc_kind = LifecycleResume, lc_detail = [], lc_snapshot = None\<rparr>"

definition mark_resumed :: "'s placer \<Rightarrow> int64 \<Rightarrow> bool \<Rightarrow> 's host \<Rightarrow> goerr option \<times> 's host" where
  "mark_resumed p fence onRecord h =
     (case Store_Head (pl_ops p) (h_log h) of
        Inl e \<Rightarrow> (Some e, h)
      | Inr head \<Rightarrow>
          (case Store_Append (pl_ops p) head fence resume_marker (h_log h) of
             (Inl e, l) \<Rightarrow> (Some e, set_log l h)
           | (Inr record, l) \<Rightarrow> (None, observe_if onRecord record (set_log l h))))"

definition resume_connected ::
  "'s placer \<Rightarrow> string \<Rightarrow> resume_config \<Rightarrow> nat \<Rightarrow> harness \<Rightarrow> 's host \<Rightarrow> goerr option \<times> 's host" where
  "resume_connected p uid cfg k har h =
     (case recheck p har h of
        (Some e, h1) \<Rightarrow> (Some e, h1)
      | (None, h1) \<Rightarrow>
     (case resumeFence p uid (rf_expectedLastSeq cfg) h1 of
        (minted, h2') \<Rightarrow>
          let h2 = h2'\<lparr>h_set := fenceMinted k (h_set h2')\<rparr> in
     (case minted of
        Inl e \<Rightarrow> (Some e, h2)
      | Inr fence \<Rightarrow>
     (case checkSuperseded p k h2 of
        (Some e, h3) \<Rightarrow> (Some e, h3)
      | (None, h3) \<Rightarrow>
     (case NewController (resume_controller p cfg fence uid) (h_log h3) of
        (Inl e, l) \<Rightarrow> (Some e, set_log l h3)
      | (Inr c, l) \<Rightarrow>
     (case Resume c har ((h_world h3)\<lparr>w_log := l\<rparr>) of
        ((_, Some err), w) \<Rightarrow> finish_turn p uid fence k (rf_onRecord cfg) err (h3\<lparr>h_world := w\<rparr>)
      | ((_, None), w) \<Rightarrow> mark_resumed p fence (rf_onRecord cfg) (h3\<lparr>h_world := w\<rparr>)))))))"

definition resume_placed :: "'s placer \<Rightarrow> string \<Rightarrow> resume_config \<Rightarrow> 's host \<Rightarrow> goerr option \<times> 's host" where
  "resume_placed p uid cfg h =
     (case CheckWritable (pl_ops p) (h_log h) of
        Some e \<Rightarrow> (Some e, h)
      | None \<Rightarrow>
     (case InspectApproval (pl_ops p) 0 (h_log h) of
        Inl e \<Rightarrow> (Some e, h)
      | Inr state \<Rightarrow>
     (case resumeApproval p uid state cfg h of
        (Some e, h1) \<Rightarrow> (Some e, h1)
      | (None, h1) \<Rightarrow>
     (case admit p h1 of
        (Inl e, h2) \<Rightarrow> (Some e, h2)
      | (Inr _, h2) \<Rightarrow>
     (case lastSuspendRef (pl_ops p) uid (h_log h2) of
        Inl e \<Rightarrow> (Some e, h2)
      | Inr ref \<Rightarrow>
     (case refuseDuringCheckpoint uid (h_set h2) of
        Some e \<Rightarrow> (Some e, h2)
      | None \<Rightarrow>
     (case (if rf_expectedLastSeq cfg = None then (Inr 0, h2) else resumeFence p uid (rf_expectedLastSeq cfg) h2) of
        (Inl e, h3) \<Rightarrow> (Some e, h3)
      | (Inr _, h3) \<Rightarrow>
     (case rt_call (RtRestore ref) h3 of
        (t, h4) \<Rightarrow>
     (case pl_restore p t ref of
        Inl e \<Rightarrow> (Some e, h4)
      | Inr inc \<Rightarrow> with_harness p uid inc Some (resume_connected p uid cfg) h4)))))))))"

definition Placer_Resume :: "'s placer \<Rightarrow> string \<Rightarrow> resume_config \<Rightarrow> 's host \<Rightarrow> goerr option \<times> 's host" where
  "Placer_Resume p uid cfg = guarded guardOperation uid Some (resume_placed p uid cfg)"

section \<open>Fork\<close>

text \<open>
  \<^verbatim>\<open>endHarnesses\<close>: every connection is ended (closing each that was still open), then each is waited for.
\<close>

fun end_all :: "'s placer \<Rightarrow> nat list \<Rightarrow> 's host \<Rightarrow> 's host" where
  "end_all p [] h = h"
| "end_all p (k # ks) h =
     (case lh_ended (sess_conns (h_set h) k) of
        Some _ \<Rightarrow> end_all p ks h
      | None \<Rightarrow>
          (case rt_call (RtClose k) h of
             (t, h1) \<Rightarrow> end_all p ks (h1\<lparr>h_set := snd (end_conn k errSuperseded (pl_close p t) (h_set h1))\<rparr>)))"

fun wait_minted :: "'s placer \<Rightarrow> string \<Rightarrow> nat list \<Rightarrow> 's host \<Rightarrow> goerr option \<times> 's host" where
  "wait_minted p uid [] h = (None, h)"
| "wait_minted p uid (k # ks) h =
     (case ask h of
        (t, h1) \<Rightarrow>
          (case pl_waits p t of
             Some cause \<Rightarrow>
               (Some (errorf (''placement: waiting for the superseded turn on session '' @ format_q uid
                        @ '' to finish minting its fence: '') cause []), h1)
           | None \<Rightarrow> wait_minted p uid ks h1))"

definition endHarnesses :: "'s placer \<Rightarrow> string \<Rightarrow> nat list \<Rightarrow> 's host \<Rightarrow> goerr option \<times> 's host" where
  "endHarnesses p uid conns h = (if conns = [] then (None, h) else wait_minted p uid conns (end_all p conns h))"

definition fork_advanced :: "int64 \<Rightarrow> int64 \<Rightarrow> goerr" where
  "fork_advanced atSeq head = errorf [] ErrConflict ('': parent advanced from seq '' @ format_int atSeq @ '' to ''
     @ format_int head @ '' while the fork was being prepared'')"

text \<open>A fence, then the head again: \<^verbatim>\<open>forkSource\<close> does this twice.\<close>

definition fence_at :: "'s placer \<Rightarrow> int64 \<Rightarrow> 's host \<Rightarrow> (goerr + int64) \<times> 's host" where
  "fence_at p atSeq h =
     (case Store_NewFence (pl_ops p) (h_log h) of
        (Inl e, l) \<Rightarrow> (Inl e, set_log l h)
      | (Inr fence, l) \<Rightarrow>
          (case Store_Head (pl_ops p) l of
             Inl e \<Rightarrow> (Inl e, set_log l h)
           | Inr head \<Rightarrow> if atSeq \<noteq> head then (Inl (fork_advanced atSeq head), set_log l h) else (Inr fence, set_log l h)))"

definition fork_checkpoint ::
  "'s placer \<Rightarrow> string \<Rightarrow> int64 \<Rightarrow> descriptor \<Rightarrow> nat list \<Rightarrow> 's host \<Rightarrow> (goerr + snapshot_ref) \<times> 's host" where
  "fork_checkpoint p uid atSeq desc conns h =
     (case fence_at p atSeq h of
        (Inl e, h1) \<Rightarrow> (Inl e, h1)
      | (Inr _, h1) \<Rightarrow>
     (case endHarnesses p uid conns h1 of
        (Some e, h2) \<Rightarrow> (Inl e, h2)
      | (None, h2) \<Rightarrow>
     (case fence_at p atSeq h2 of
        (Inl e, h3) \<Rightarrow> (Inl e, h3)
      | (Inr fence, h3) \<Rightarrow>
     (case rt_call (RtSnapshot uid) h3 of
        (t, h4) \<Rightarrow>
     (case pl_snapshot p t uid of
        Inl e \<Rightarrow> (Inl e, h4)
      | Inr ref \<Rightarrow>
     (case appendLifecycleAt (pl_ops p) atSeq fence (suspend_lifecycle ref) (h_log h4) of
        (Inl e, l) \<Rightarrow> (Inl e, set_log l h4)
      | (Inr _, l) \<Rightarrow>
          if sr_externalURI ref = [] then
            (Inl (errorf [] ErrUnplaceable ('': runtime '' @ format_q (desc_id desc)
                    @ '' produced no external snapshot handle to clone from'')), set_log l h4)
          else (Inr ref, set_log l h4)))))))"

text \<open>The flag says whether the checkpoint mark is still held: the caller lifts it.\<close>

definition forkSource ::
  "'s placer \<Rightarrow> string \<Rightarrow> int64 \<Rightarrow> 's host \<Rightarrow> (goerr + snapshot_ref \<times> bool) \<times> 's host" where
  "forkSource p uid atSeq h =
     (case admit p h of
        (Inl e, h1) \<Rightarrow> (Inl e, h1)
      | (Inr desc, h1) \<Rightarrow>
     if cap_resumability (desc_capabilities desc) \<noteq> ResumabilityRequiresMemorySnapshot
     then (Inr (handle_ref uid, False), h1)
     else
     (case Store_Head (pl_ops p) (h_log h1) of
        Inl e \<Rightarrow> (Inl e, h1)
      | Inr head \<Rightarrow>
     if atSeq \<noteq> head then
       (Inl (errorf [] ErrUnplaceable ('': harness '' @ format_q (desc_id desc) @ '' requires ''
               @ resumability_text (cap_resumability (desc_capabilities desc))
               @ '', which can only fork at the log head ('' @ format_int head @ ''), not seq '' @ format_int atSeq)), h1)
     else
     (case beginCheckpoint uid (h_set h1) of
        (Inl e, s) \<Rightarrow> (Inl e, h1\<lparr>h_set := s\<rparr>)
      | (Inr conns, s) \<Rightarrow>
     (case fork_checkpoint p uid atSeq desc conns (h1\<lparr>h_set := s\<rparr>) of
        (Inl e, h2) \<Rightarrow> (Inl e, h2\<lparr>h_set := endCheckpoint uid (h_set h2)\<rparr>)
      | (Inr ref, h2) \<Rightarrow> (Inr (ref, True), h2)))))"

text \<open>
  A child: its session UID and the operations of its log.  The logs of parent and children are journals
  of one store, whose state the operations of each share.
\<close>

record 's fork_child =
  fc_uid :: string
  fc_ops :: "'s store_ops"

fun stop_all :: "'s placer \<Rightarrow> string list \<Rightarrow> 's host \<Rightarrow> 's host" where
  "stop_all p [] h = h"
| "stop_all p (uid # uids) h = stop_all p uids (snd (rt_call (RtStop uid) h))"

text \<open>The loop over the children; it returns the UIDs created so far.\<close>

fun fork_children ::
  "'s placer \<Rightarrow> snapshot_ref \<Rightarrow> int64 \<Rightarrow> 's fork_child list \<Rightarrow> string list \<Rightarrow> 's host \<Rightarrow>
     (goerr option \<times> string list) \<times> 's host" where
  "fork_children p ref atSeq [] created h = ((None, created), h)"
| "fork_children p ref atSeq (child # rest) created h =
     (case rt_call (RtFork ref (fc_uid child)) h of
        (t, h1) \<Rightarrow>
          (case pl_fork p t ref (fc_uid child) of
             Some e \<Rightarrow> ((Some e, created), h1)
           | None \<Rightarrow>
               let created = created @ [fc_uid child] in
               (case Fork (pl_ops p) (fc_ops child) atSeq (h_log h1) (h_log h1) of
                  (Some e, l) \<Rightarrow> ((Some e, created), set_log l h1)
                | (None, l) \<Rightarrow> fork_children p ref atSeq rest created (set_log l h1))))"

fun children_writable :: "'s fork_child list \<Rightarrow> 's \<Rightarrow> goerr option" where
  "children_writable [] log = None"
| "children_writable (child # rest) log =
     (case CheckWritable (fc_ops child) log of
        Some e \<Rightarrow> Some (errorf (''placement: fork child '' @ format_q (fc_uid child) @ '': '') e [])
      | None \<Rightarrow> children_writable rest log)"

definition lift_mark :: "bool \<Rightarrow> string \<Rightarrow> 's host \<Rightarrow> 's host" where
  "lift_mark held uid h = (if held then h\<lparr>h_set := endCheckpoint uid (h_set h)\<rparr> else h)"

definition fork_read ::
  "'s placer \<Rightarrow> string \<Rightarrow> 's fork_child list \<Rightarrow> int64 \<Rightarrow> 's host \<Rightarrow> goerr option \<times> 's host" where
  "fork_read p uid children atSeq h =
     (case CheckWritable (pl_ops p) (h_log h) of
        Some e \<Rightarrow> (Some e, h)
      | None \<Rightarrow>
     (case children_writable children (h_log h) of
        Some e \<Rightarrow> (Some e, h)
      | None \<Rightarrow>
     (case forkSource p uid atSeq h of
        (Inl e, h1) \<Rightarrow> (Some e, h1)
      | (Inr (ref, held), h1) \<Rightarrow>
     (case fork_children p ref atSeq children [] h1 of
        ((None, _), h2) \<Rightarrow> (None, lift_mark held uid h2)
      | ((Some e, created), h2) \<Rightarrow> (Some e, stop_all p created (lift_mark held uid h2))))))"

definition Placer_Fork ::
  "'s placer \<Rightarrow> string \<Rightarrow> 's fork_child list \<Rightarrow> int64 \<Rightarrow> 's host \<Rightarrow> goerr option \<times> 's host" where
  "Placer_Fork p uid children atSeq = guarded guardRead uid Some (fork_read p uid children atSeq)"

definition placementErrorKind :: "goerr option \<Rightarrow> string" where
  "placementErrorKind err =
     (case err of
        None \<Rightarrow> []
      | Some e \<Rightarrow>
          if errors_is e ErrUnplaceable then ''unplaceable''
          else if errors_is e ErrDescriptorMismatch then ''descriptor_mismatch''
          else if errors_is e ErrHarnessUnavailable then ''harness_unavailable''
          else if errors_is e ErrCheckpointing then ''checkpointing''
          else if errors_is e ErrSessionBusy \<or> errors_is e ErrConflict then ''conflict''
          else if errors_is e ErrFenced then ''fenced''
          else if errors_is e ContextCanceled then ''canceled''
          else if errors_is e ContextDeadlineExceeded then ''deadline_exceeded''
          else ''operation_failed'')"

end
