(* ===== verification/Registry.thy ===== *)
theory Registry
  imports Placement "HOL-Library.List_Lexorder" "HOL-Library.Char_ord"
begin

text \<open>
  The harness registry of one host (\<^verbatim>\<open>placement/registry.go\<close>): which Placer a name resolves to, and the
  operations that resolve a name under the session guard.  Placers, guards and session sets are
  objects with an address, because sharing them is what the registry is for.
\<close>

section \<open>Names\<close>

definition ErrUnknownHarness :: goerr where
  "ErrUnknownHarness = ErrNew ''placement: unknown harness''"

definition ErrHarnessUnservable :: goerr where
  "ErrHarnessUnservable = ErrNew ''placement: registered harness is unservable on this host''"

definition ErrRecordedHarnessNotServed :: goerr where
  "ErrRecordedHarnessNotServed = ErrNew ''placement: recorded harness is not served''"

definition ErrHarnessExists :: goerr where
  "ErrHarnessExists = ErrNew ''placement: harness name already in use''"

record registry =
  rg_byName :: "(string \<times> nat) list"
  rg_unavailable :: "(string \<times> goerr) list"
  rg_static :: "string list"
  rg_reserved :: "string list"
  rg_default :: string
  rg_guard :: nat
  rg_sessions :: nat

text \<open>The objects: for every Placer the addresses of its guard and its session set, and these by address.\<close>

record placer_heap =
  ph_guard :: "nat \<Rightarrow> nat"
  ph_sessions :: "nat \<Rightarrow> nat"
  ph_guards :: "nat \<Rightarrow> sessionGuard"
  ph_sets :: "nat \<Rightarrow> session_set"
  ph_next :: nat
  ph_placers :: nat

text \<open>\<^verbatim>\<open>New\<close>: a Placer at a fresh address with a guard and a set of its own.\<close>

definition new_placer :: "placer_heap \<Rightarrow> nat \<times> placer_heap" where
  "new_placer h = (let k = ph_next h; p = ph_placers h in
     (p, h\<lparr>ph_guard := (ph_guard h)(p := k), ph_sessions := (ph_sessions h)(p := k), ph_guards := (ph_guards h)(k := []),
           ph_sets := (ph_sets h)(k := empty_set False), ph_next := Suc k, ph_placers := Suc p\<rparr>))"

definition in_progress :: "placer_heap \<Rightarrow> nat \<Rightarrow> bool" where
  "in_progress h p \<longleftrightarrow> sessionSet_busy (ph_sets h (ph_sessions h p)) \<or> guard_busy (ph_guards h (ph_guard h p))"

fun check_joinable :: "placer_heap \<Rightarrow> (string \<times> nat) list \<Rightarrow> goerr option" where
  "check_joinable h [] = None"
| "check_joinable h ((name, p) # rest) =
     (if sess_shared (ph_sets h (ph_sessions h p)) then
        Some (ErrNew (''placement: harness '' @ format_q name @ '': placer already belongs to another registry''))
      else if in_progress h p then
        Some (ErrNew (''placement: harness '' @ format_q name @ '': placer has an operation in progress''))
      else check_joinable h rest)"

fun check_named :: "(string \<times> nat option) list \<Rightarrow> goerr option" where
  "check_named [] = None"
| "check_named ((name, p) # rest) =
     (if name = [] then Some (ErrNew ''placement: harness name cannot be empty'')
      else if p = None then Some (ErrNew (''placement: harness '' @ format_q name @ '' has no placer''))
      else check_named rest)"

definition join_registry :: "nat \<Rightarrow> nat \<Rightarrow> nat \<Rightarrow> placer_heap \<Rightarrow> placer_heap" where
  "join_registry guard sessions p h =
     h\<lparr>ph_guard := (ph_guard h)(p := guard), ph_sessions := (ph_sessions h)(p := sessions)\<rparr>"

definition NewRegistry ::
  "string \<Rightarrow> (string \<times> nat option) list \<Rightarrow> string list \<Rightarrow> placer_heap \<Rightarrow> (goerr + registry) \<times> placer_heap" where
  "NewRegistry defaultHarness placers reservedNames h =
     (if placers = [] then (Inl (ErrNew ''placement: registry needs at least one harness''), h)
      else case check_named placers of
        Some e \<Rightarrow> (Inl e, h)
      | None \<Rightarrow>
     if defaultHarness = [] then (Inl (ErrNew ''placement: registry needs a default harness''), h)
     else if map_of placers defaultHarness = None then
       (Inl (ErrNew (''placement: default harness '' @ format_q defaultHarness @ '' is not registered'')), h)
     else
       let named = map (\<lambda>(n, p). (n, the p)) placers; k = ph_next h in
     (case check_joinable h named of
        Some e \<Rightarrow> (Inl e, h)
      | None \<Rightarrow>
          (Inr \<lparr>rg_byName = named, rg_unavailable = [], rg_static = map fst named, rg_reserved = reservedNames,
                rg_default = defaultHarness, rg_guard = k, rg_sessions = k\<rparr>,
           fold (join_registry k k) (map snd named)
             (h\<lparr>ph_guards := (ph_guards h)(k := []), ph_sets := (ph_sets h)(k := empty_set True), ph_next := Suc k\<rparr>))))"

definition Static :: "registry \<Rightarrow> string \<Rightarrow> bool" where
  "Static r name \<longleftrightarrow> name \<in> set (rg_static r)"

definition Reserved :: "registry \<Rightarrow> string \<Rightarrow> bool" where
  "Reserved r name \<longleftrightarrow> name \<in> set (rg_static r) \<or> name \<in> set (rg_reserved r)"

definition StaticNames :: "registry \<Rightarrow> string list" where
  "StaticNames r = sort (remdups (rg_static r))"

definition ReservedNames :: "registry \<Rightarrow> string list" where
  "ReservedNames r = sort (StaticNames r @ filter (\<lambda>n. n \<notin> set (rg_static r)) (remdups (rg_reserved r)))"

definition Has :: "registry \<Rightarrow> string \<Rightarrow> bool" where
  "Has r name \<longleftrightarrow> map_of (rg_byName r) name \<noteq> None \<or> map_of (rg_unavailable r) name \<noteq> None"

definition Names :: "registry \<Rightarrow> string list" where
  "Names r = sort (map fst (rg_byName r) @ map fst (rg_unavailable r))"

text \<open>Go's \<^verbatim>\<open>%v\<close> of a slice of strings.\<close>

fun join_words :: "string list \<Rightarrow> string" where
  "join_words [] = []"
| "join_words [s] = s"
| "join_words (s # ss) = s @ '' '' @ join_words ss"

definition For :: "registry \<Rightarrow> string \<Rightarrow> goerr + nat" where
  "For r harness0 =
     (let harness = (if harness0 = [] then rg_default r else harness0) in
      case map_of (rg_unavailable r) harness of
        Some cause \<Rightarrow> Inl (ErrMulti (error_text ErrHarnessUnservable @ '': harness '' @ format_q harness @ '': ''
                             @ error_text cause) [ErrHarnessUnservable, cause])
      | None \<Rightarrow>
          (case map_of (rg_byName r) harness of
             Some p \<Rightarrow> Inr p
           | None \<Rightarrow> Inl (errorf [] ErrUnknownHarness ('' '' @ format_q harness @ '' (registered: [''
                            @ join_words (Names r) @ ''])''))))"

definition name_free :: "registry \<Rightarrow> string \<Rightarrow> goerr option" where
  "name_free r name =
     (if Reserved r name then Some (errorf [] ErrHarnessExists ('': '' @ format_q name @ '' is reserved for a static harness''))
      else if Has r name then Some (errorf [] ErrHarnessExists ('': '' @ format_q name)) else None)"

definition Add :: "string \<Rightarrow> nat option \<Rightarrow> registry \<Rightarrow> placer_heap \<Rightarrow> goerr option \<times> registry \<times> placer_heap" where
  "Add name placer r h =
     (case placer of
        None \<Rightarrow> (Some (ErrNew ''placement: Add needs a name and a placer''), r, h)
      | Some p \<Rightarrow>
     if name = [] then (Some (ErrNew ''placement: Add needs a name and a placer''), r, h)
     else
     (case name_free r name of
        Some e \<Rightarrow> (Some e, r, h)
      | None \<Rightarrow>
          let added = r\<lparr>rg_byName := (name, p) # rg_byName r\<rparr> in
          if ph_sessions h p = rg_sessions r then (None, added, h)
          else (case check_joinable h [(name, p)] of
                  Some e \<Rightarrow> (Some e, r, h)
                | None \<Rightarrow> (None, added, join_registry (rg_guard r) (rg_sessions r) p h))))"

definition MarkUnavailable :: "string \<Rightarrow> goerr option \<Rightarrow> registry \<Rightarrow> goerr option \<times> registry" where
  "MarkUnavailable name cause r =
     (case cause of
        None \<Rightarrow> (Some (ErrNew ''placement: MarkUnavailable needs a name and a cause''), r)
      | Some c \<Rightarrow>
     if name = [] then (Some (ErrNew ''placement: MarkUnavailable needs a name and a cause''), r)
     else
     (case name_free r name of
        Some e \<Rightarrow> (Some e, r)
      | None \<Rightarrow> (None, r\<lparr>rg_unavailable := (name, c) # rg_unavailable r\<rparr>)))"

section \<open>Operations that resolve a name\<close>

text \<open>\<open>spec\<close> gives the Placer at an address; the journal of the call is the one the Placer's controller uses.\<close>

definition on_log :: "'s store_ops \<Rightarrow> 's placer \<Rightarrow> 's placer" where
  "on_log ops p = p\<lparr>pl_controller := (pl_controller p)\<lparr>c_ops := ops\<rparr>\<rparr>"

record 's registry_resume_config =
  rr_check :: "(string \<Rightarrow> 's host \<Rightarrow> goerr option \<times> 's host) option"
  rr_onRecord :: bool
  rr_onDelta :: bool
  rr_expectedLastSeq :: "int64 option"

text \<open>The host's own check of the resolved name; it may ask and read what it likes.\<close>

definition run_check :: "'s registry_resume_config \<Rightarrow> string \<Rightarrow> 's host \<Rightarrow> goerr option \<times> 's host" where
  "run_check cfg name h = (case rr_check cfg of None \<Rightarrow> (None, h) | Some check \<Rightarrow> check name h)"

text \<open>The route: the recorded name wins over the session's default, and that over the registry's.\<close>

definition resolve ::
  "registry \<Rightarrow> 's registry_resume_config \<Rightarrow> string option \<Rightarrow> string \<Rightarrow> 's host \<Rightarrow> (goerr + string \<times> nat) \<times> 's host" where
  "resolve r cfg recorded sessionDefaultName h =
     (let name0 = (case recorded of Some n \<Rightarrow> n | None \<Rightarrow> sessionDefaultName);
          name = (if name0 = [] then rg_default r else name0)
      in case For r name of
           Inl e \<Rightarrow> (Inl (if recorded \<noteq> None \<and> errors_is e ErrUnknownHarness
                         then errorf2 ErrRecordedHarnessNotServed '': '' e else e), h)
         | Inr p \<Rightarrow> (case run_check cfg name h of (Some e, h1) \<Rightarrow> (Inl e, h1) | (None, h1) \<Rightarrow> (Inr (name, p), h1)))"

definition recorded_name :: "execution_start option \<Rightarrow> string option" where
  "recorded_name found = (case found of Some st \<Rightarrow> if es_harness st \<noteq> [] then Some (es_harness st) else None | None \<Rightarrow> None)"

definition registry_resume ::
  "registry \<Rightarrow> (nat \<Rightarrow> 's placer) \<Rightarrow> 's store_ops \<Rightarrow> string \<Rightarrow> string \<Rightarrow> 's registry_resume_config \<Rightarrow> 's host \<Rightarrow>
     goerr option \<times> 's host" where
  "registry_resume r spec ops uid sessionDefaultName cfg h =
     (case CheckWritable ops (h_log h) of
        Some e \<Rightarrow> (Some e, h)
      | None \<Rightarrow>
     (case checkResumeHead ops (rr_expectedLastSeq cfg) (h_log h) of
        Some e \<Rightarrow> (Some e, h)
      | None \<Rightarrow>
     (case InspectApproval ops 0 (h_log h) of
        Inl e \<Rightarrow> (Some e, h)
      | Inr state \<Rightarrow>
     if (case state of None \<Rightarrow> False | Some st \<Rightarrow> as_inherited st \<and> as_receipt st = None)
     then (Some ErrInheritedToolIntent, h)
     else
     (case ResumeInvocation ops (h_log h) of
        Inl e \<Rightarrow> (Some e, h)
      | Inr found \<Rightarrow>
     (case resolve r cfg (recorded_name found) sessionDefaultName h of
        (Inl e, h0) \<Rightarrow> (Some e, h0)
      | (Inr (name, k), h0) \<Rightarrow>
          let p = on_log ops (spec k);
              resume = \<lparr>rf_harness = name, rf_onRecord = rr_onRecord cfg, rf_onDelta = rr_onDelta cfg,
                        rf_expectedLastSeq = rr_expectedLastSeq cfg\<rparr> in
     (case resumeApproval p uid state resume h0 of
        (Some e, h1) \<Rightarrow> (Some e, h1)
      | (None, h1) \<Rightarrow> resume_placed p uid resume h1))))))"

definition Registry_Resume ::
  "registry \<Rightarrow> (nat \<Rightarrow> 's placer) \<Rightarrow> 's store_ops \<Rightarrow> string \<Rightarrow> string \<Rightarrow> 's registry_resume_config \<Rightarrow> 's host \<Rightarrow>
     goerr option \<times> 's host" where
  "Registry_Resume r spec ops uid sessionDefaultName cfg =
     guarded guardOperation uid Some (registry_resume r spec ops uid sessionDefaultName cfg)"

definition Registry_Approve ::
  "'s store_ops \<Rightarrow> string \<Rightarrow> int64 \<Rightarrow> approval_decision \<Rightarrow> 's host \<Rightarrow> (goerr + log_record) \<times> 's host" where
  "Registry_Approve ops uid now decision =
     guarded guardOperation uid Inl (marked uid Inl (\<lambda>h.
       (case Approve ops now decision (h_log h) of (res, l) \<Rightarrow> (res, set_log l h))))"

definition registry_suspend ::
  "registry \<Rightarrow> (nat \<Rightarrow> 's placer) \<Rightarrow> 's store_ops \<Rightarrow> string \<Rightarrow> string \<Rightarrow> 's registry_resume_config \<Rightarrow> 's host \<Rightarrow>
     (goerr + snapshot_ref) \<times> 's host" where
  "registry_suspend r spec ops uid sessionDefaultName cfg h =
     (case CheckWritable ops (h_log h) of
        Some e \<Rightarrow> (Inl e, h)
      | None \<Rightarrow>
     (case InspectApproval ops 0 (h_log h) of
        Inl e \<Rightarrow> (Inl e, h)
      | Inr state \<Rightarrow>
          let recorded = (case state of
                            Some st \<Rightarrow> if \<not> as_inherited st \<and> as_receipt st = None then recorded_name (as_invocation st) else None
                          | None \<Rightarrow> None) in
     (case resolve r cfg recorded sessionDefaultName h of
        (Inl e, h0) \<Rightarrow> (Inl e, h0)
      | (Inr (_, k), h0) \<Rightarrow> marked uid Inl (suspend (on_log ops (spec k)) uid None) h0)))"

definition Registry_Suspend ::
  "registry \<Rightarrow> (nat \<Rightarrow> 's placer) \<Rightarrow> 's store_ops \<Rightarrow> string \<Rightarrow> string \<Rightarrow> 's registry_resume_config \<Rightarrow> 's host \<Rightarrow>
     (goerr + snapshot_ref) \<times> 's host" where
  "Registry_Suspend r spec ops uid sessionDefaultName cfg =
     guarded guardOperation uid Inl (registry_suspend r spec ops uid sessionDefaultName cfg)"

text \<open>A callback under the deletion guard, and one under shared admission.\<close>

definition WithSessionGuard :: "string \<Rightarrow> ('s host \<Rightarrow> goerr option \<times> 's host) \<Rightarrow> 's host \<Rightarrow> goerr option \<times> 's host" where
  "WithSessionGuard uid operation = guarded guardDelete uid Some operation"

definition WithSessionRead :: "string \<Rightarrow> ('s host \<Rightarrow> goerr option \<times> 's host) \<Rightarrow> 's host \<Rightarrow> goerr option \<times> 's host" where
  "WithSessionRead uid operation = guarded guardRead uid Some operation"

section \<open>Two stores side by side\<close>

text \<open>A journal as one half of a larger state: its operations leave the other half alone.\<close>

definition fst_ops :: "'a store_ops \<Rightarrow> ('a \<times> 'c) store_ops" where
  "fst_ops ops = \<lparr>
     Store_Append = (\<lambda>ex f ev (a, c). case Store_Append ops ex f ev a of (r, a') \<Rightarrow> (r, (a', c))),
     Store_Head = (\<lambda>(a, c). Store_Head ops a),
     Store_NewFence = (\<lambda>(a, c). case Store_NewFence ops a of (r, a') \<Rightarrow> (r, (a', c))),
     Store_Read = (\<lambda>n (a, c). Store_Read ops n a),
     Store_Verify = (\<lambda>(a, c). Store_Verify ops a),
     Store_CheckWritable = map_option (\<lambda>f (a, c). f a) (Store_CheckWritable ops)\<rparr>"

definition snd_ops :: "'c store_ops \<Rightarrow> ('a \<times> 'c) store_ops" where
  "snd_ops ops = \<lparr>
     Store_Append = (\<lambda>ex f ev (a, c). case Store_Append ops ex f ev c of (r, c') \<Rightarrow> (r, (a, c'))),
     Store_Head = (\<lambda>(a, c). Store_Head ops c),
     Store_NewFence = (\<lambda>(a, c). case Store_NewFence ops c of (r, c') \<Rightarrow> (r, (a, c'))),
     Store_Read = (\<lambda>n (a, c). Store_Read ops n c),
     Store_Verify = (\<lambda>(a, c). Store_Verify ops c),
     Store_CheckWritable = map_option (\<lambda>f (a, c). f c) (Store_CheckWritable ops)\<rparr>"

end
