(* ===== verification/Placement_Frame.thy ===== *)
theory Placement_Frame
  imports Registry
begin

text \<open>
  What the operations of \<open>Placement\<close> and \<open>Registry\<close> leave as they found it.  A relation between host states
  that is closed under changes of the journal and the clock and under further runtime calls is kept by
  every operation that touches nothing else; one that is also closed under what a turn does with its
  own connection and the checkpoint mark is kept by whole turns.
\<close>

section \<open>Frames\<close>

lemma case_prod_snd: "(case p of (a, b) \<Rightarrow> f a b) = f (fst p) (snd p)"
  by (simp add: case_prod_beta)

locale host_frame =
  fixes keeps :: "'s host \<Rightarrow> 's host \<Rightarrow> bool"
  assumes keeps_refl [simp]: "keeps h h"
    and keeps_trans [trans]: "keeps a b \<Longrightarrow> keeps b c \<Longrightarrow> keeps a c"
    and keeps_world: "keeps h (h\<lparr>h_world := w\<rparr>)"
    and keeps_calls: "keeps h (h\<lparr>h_runtime := h_runtime h @ [call]\<rparr>)"
begin

lemma keeps_set_log: "keeps h (set_log l h)"
  by (simp add: set_log_def keeps_world)

lemma keeps_observe: "keeps h (observe_if b r h)"
  by (simp add: observe_if_def keeps_world)

lemma keeps_ask: "ask h = (t, h') \<Longrightarrow> keeps h h'"
  by (auto simp: ask_def keeps_world)

lemma keeps_rt_call: "rt_call c h = (t, h') \<Longrightarrow> keeps h h'"
  unfolding rt_call_def using keeps_ask keeps_calls keeps_trans by blast

lemma keeps_after:
  assumes "keeps h0 h"
  shows "keeps h0 (set_log l h)" and "keeps h0 (observe_if b r h)" and "keeps h0 (h\<lparr>h_world := w\<rparr>)"
  using assms keeps_trans keeps_set_log keeps_observe keeps_world by blast+

lemma keeps_gate: "gate p d c h = (res, h') \<Longrightarrow> keeps h h'"
  by (auto simp: gate_def split: prod.splits sum.splits if_splits intro: keeps_rt_call keeps_ask keeps_trans)

lemma keeps_admit: "admit p h = (res, h') \<Longrightarrow> keeps h h'"
  unfolding admit_def by (rule keeps_gate)

lemma keeps_recheck: "recheck p har h = (res, h') \<Longrightarrow> keeps h h'"
  by (auto simp: recheck_def split: prod.splits sum.splits if_splits option.splits intro: keeps_gate keeps_ask keeps_trans)

lemma keeps_checkSuperseded: "checkSuperseded p k h = (res, h') \<Longrightarrow> keeps h h'"
  by (auto simp: checkSuperseded_def split: prod.splits if_splits option.splits intro: keeps_ask)

lemma keeps_suspend: "suspend p uid cursor h = (res, h') \<Longrightarrow> keeps h h'"
  by (auto simp: suspend_def split: prod.splits sum.splits option.splits
      intro: keeps_after keeps_rt_call)

lemma keeps_mint_checked: "mint_checked p expected h = (res, h') \<Longrightarrow> keeps h h'"
  by (auto simp: mint_checked_def split: prod.splits sum.splits option.splits intro: keeps_set_log)

lemma keeps_fence_at: "fence_at p atSeq h = (res, h') \<Longrightarrow> keeps h h'"
  by (auto simp: fence_at_def split: prod.splits sum.splits if_splits intro: keeps_set_log)

lemma keeps_wait_minted: "wait_minted p uid ks h = (res, h') \<Longrightarrow> keeps h h'"
  by (induction ks arbitrary: h)
    (auto split: prod.splits option.splits intro: keeps_ask keeps_trans)

lemma keeps_stop_all: "keeps h (stop_all p uids h)"
proof (induction uids arbitrary: h)
  case (Cons u us)
  have "keeps h (snd (rt_call (RtStop u) h))" by (rule keeps_rt_call [OF surjective_pairing])
  then show ?case using Cons keeps_trans by fastforce
qed simp

lemma keeps_fork_children: "fork_children p ref atSeq children created h = (res, h') \<Longrightarrow> keeps h h'"
proof (induction children arbitrary: created h res h')
  case (Cons c cs)
  obtain t h1 where c: "rt_call (RtFork ref (fc_uid c)) h = (t, h1)" by fastforce
  have k: "keeps h h1" by (rule keeps_rt_call [OF c])
  have k': "keeps h (set_log l h1)" for l by (rule keeps_after [OF k])
  from Cons.prems c consider "h' = h1" | l where "h' = set_log l h1"
    | l created' where "fork_children p ref atSeq cs created' (set_log l h1) = (res, h')"
    by (auto simp: Let_def split: option.splits prod.splits)
  then show ?case by cases (use Cons.IH k k' keeps_trans in blast)+
qed auto

lemma keeps_mark_resumed: "mark_resumed p fence b h = (res, h') \<Longrightarrow> keeps h h'"
  by (auto simp: mark_resumed_def split: prod.splits sum.splits intro: keeps_set_log keeps_observe keeps_trans)

end

text \<open>A turn on session \<open>uid\<close> with connection \<open>k\<close>.\<close>

locale turn_frame = host_frame keeps for keeps :: "'s host \<Rightarrow> 's host \<Rightarrow> bool" +
  fixes uid :: string and k :: nat
  assumes keeps_minted: "keeps h (h\<lparr>h_set := fenceMinted k (h_set h)\<rparr>)"
    and keeps_release: "keeps h (h\<lparr>h_set := snd (release_conn uid k closed (h_set h))\<rparr>)"
    and keeps_marked: "markCheckpoint uid (h_set h) = (None, s) \<Longrightarrow> keeps (h\<lparr>h_set := s\<rparr>) h' \<Longrightarrow>
       keeps h (h'\<lparr>h_set := endCheckpoint uid (h_set h')\<rparr>)"
begin

lemma keeps_under_mark:
  assumes "marked uid refused body h = (res, h')" and "\<And>h res h'. body h = (res, h') \<Longrightarrow> keeps h h'"
  shows "keeps h h'"
proof (cases "markCheckpoint uid (h_set h)")
  case (Pair e s)
  show ?thesis
  proof (cases e)
    case None
    obtain r h1 where b: "body (h\<lparr>h_set := s\<rparr>) = (r, h1)" by fastforce
    have "keeps h (h1\<lparr>h_set := endCheckpoint uid (h_set h1)\<rparr>)"
      using keeps_marked [of h s h1] assms(2) [OF b] Pair None by blast
    then show ?thesis using assms(1) b Pair None by (auto simp: marked_def)
  next
    case (Some a)
    then have "s = h_set h" using Pair by (auto simp: markCheckpoint_def setCheckpointLocked_def split: if_splits)
    then show ?thesis using assms(1) Pair Some by (auto simp: marked_def)
  qed
qed

lemma keeps_resumeFence: "resumeFence p uid expected h = (res, h') \<Longrightarrow> keeps h h'"
  using keeps_under_mark [of Inl "mint_checked p expected" h res h'] keeps_mint_checked
  unfolding resumeFence_def by (cases expected) auto

lemma keeps_releaseHarness: "releaseHarness p uid k h = (res, h') \<Longrightarrow> keeps h h'"
  using keeps_release keeps_trans [OF keeps_rt_call [OF surjective_pairing] keeps_release] unfolding releaseHarness_def
  by (auto simp: case_prod_snd split: option.splits)

lemma keeps_closeInvocation: "closeInvocation p uid k h = (res, h') \<Longrightarrow> keeps h h'"
  by (auto simp: closeInvocation_def split: prod.splits option.splits
      intro: keeps_checkSuperseded keeps_releaseHarness keeps_trans)

lemma keeps_handoff: "handoff p uid fence ref k b h = (res, h') \<Longrightarrow> keeps h h'"
  by (auto simp: handoff_def split: prod.splits sum.splits option.splits if_splits
      intro: keeps_closeInvocation keeps_suspend keeps_trans)

lemma keeps_finish_turn: "finish_turn p uid fence k b err h = (res, h') \<Longrightarrow> keeps h h'"
  unfolding finish_turn_def handoffPark_def using keeps_handoff
  by (auto split: option.splits prod.splits intro: keeps_ask keeps_under_mark)

lemma keeps_exec_connected:
  assumes "exec_connected p cfg uid inputs ex inc k har h = (res, h')"
  shows "keeps h h'"
proof -
  obtain r h1 where c: "recheck p har h = (r, h1)" by fastforce
  obtain minted l where m: "Store_NewFence (pl_ops p) (h_log h1) = (minted, l)" by fastforce
  define h2 where "h2 = (set_log l h1)\<lparr>h_set := fenceMinted k (h_set h1)\<rparr>"
  have "h2 = (set_log l h1)\<lparr>h_set := fenceMinted k (h_set (set_log l h1))\<rparr>" by (simp add: h2_def set_log_def)
  then have k2: "keeps h h2" using keeps_recheck [OF c] keeps_set_log keeps_minted keeps_trans by metis
  obtain s h3 where s: "checkSuperseded p k h2 = (s, h3)" by fastforce
  have k3: "keeps h h3" using k2 keeps_checkSuperseded [OF s] keeps_trans by blast
  have fin: "keeps h h4" if "finish_turn p uid f k b err (h3\<lparr>h_world := w\<rparr>) = (q, h4)" for f b err w q h4
    using keeps_finish_turn [OF that] keeps_world k3 keeps_trans by blast
  have log: "keeps h (set_log l' h3)" "keeps h (h3\<lparr>h_world := w\<rparr>)" for l' w using k3 keeps_set_log keeps_world keeps_trans by blast+
  show ?thesis using assms c m s keeps_recheck [OF c] k2 k3 fin log
    unfolding exec_connected_def by (auto simp: Let_def h2_def [symmetric] split: option.splits sum.splits prod.splits)
qed

lemma keeps_resume_connected:
  assumes "resume_connected p uid cfg k har h = (res, h')"
  shows "keeps h h'"
proof -
  obtain r h1 where c: "recheck p har h = (r, h1)" by fastforce
  obtain minted h2' where m: "resumeFence p uid (rf_expectedLastSeq cfg) h1 = (minted, h2')" by fastforce
  define h2 where "h2 = h2'\<lparr>h_set := fenceMinted k (h_set h2')\<rparr>"
  have k2: "keeps h h2" unfolding h2_def
    using keeps_recheck [OF c] keeps_resumeFence [OF m] keeps_minted keeps_trans by meson
  obtain s h3 where s: "checkSuperseded p k h2 = (s, h3)" by fastforce
  have k3: "keeps h h3" using k2 keeps_checkSuperseded [OF s] keeps_trans by blast
  have fin: "keeps h h4" if "finish_turn p uid f k b err (h3\<lparr>h_world := w\<rparr>) = (q, h4)" for f b err w q h4
    using keeps_finish_turn [OF that] keeps_world k3 keeps_trans by blast
  have res: "keeps h h4" if "mark_resumed p f b (h3\<lparr>h_world := w\<rparr>) = (q, h4)" for f b w q h4
    using keeps_mark_resumed [OF that] keeps_world k3 keeps_trans by blast
  have log: "keeps h (set_log l' h3)" for l' using k3 keeps_set_log keeps_trans by blast
  show ?thesis using assms c m s keeps_recheck [OF c] k2 k3 fin res log
    unfolding resume_connected_def by (auto simp: Let_def h2_def [symmetric] split: option.splits sum.splits prod.splits)
qed

end

section \<open>The frame of a turn\<close>

text \<open>
  Equal up to the journal, the runtime calls, connection \<open>k\<close> of the session and the flags of connections.
\<close>

definition same_but :: "string \<Rightarrow> nat \<Rightarrow> 's host \<Rightarrow> 's host \<Rightarrow> bool" where
  "same_but uid k h h' \<longleftrightarrow> h_guard h' = h_guard h \<and> sess_checkpoints (h_set h') = sess_checkpoints (h_set h)
     \<and> sess_next (h_set h') = sess_next (h_set h)
     \<and> (\<forall>u. filter (\<lambda>i. i \<noteq> k) (live_of u (h_set h')) = filter (\<lambda>i. i \<noteq> k) (live_of u (h_set h)))
     \<and> (\<forall>u. u \<noteq> uid \<longrightarrow> live_of u (h_set h') = live_of u (h_set h))"

lemma set_conn_frame [simp]:
  "sess_checkpoints (set_conn k f s) = sess_checkpoints s" "sess_next (set_conn k f s) = sess_next s"
  "live_of u (set_conn k f s) = live_of u s"
  by (simp_all add: set_conn_def live_of_def)

lemma fenceMinted_frame [simp]:
  "sess_checkpoints (fenceMinted k s) = sess_checkpoints s" "sess_next (fenceMinted k s) = sess_next s"
  "live_of u (fenceMinted k s) = live_of u s"
  by (simp_all add: fenceMinted_def)

lemma end_conn_frame [simp]:
  "sess_checkpoints (snd (end_conn k c cl s)) = sess_checkpoints s" "sess_next (snd (end_conn k c cl s)) = sess_next s"
  "live_of u (snd (end_conn k c cl s)) = live_of u s"
  by (simp_all add: end_conn_def split: option.split)

lemma release_conn_frame [simp]:
  "sess_checkpoints (snd (release_conn uid k cl s)) = sess_checkpoints s" "sess_next (snd (release_conn uid k cl s)) = sess_next s"
  "live_of u (snd (release_conn uid k cl s)) = (if u = uid then filter (\<lambda>i. i \<noteq> k) (live_of uid s) else live_of u s)"
  unfolding release_conn_def Let_def end_conn_frame fenceMinted_frame
  by (auto simp: live_of_def delete_conv' update_conv')

lemma checkpoint_frame [simp]:
  "sess_next (endCheckpoint uid s) = sess_next s" "live_of u (endCheckpoint uid s) = live_of u s"
  "sess_checkpoints (endCheckpoint uid s) = removeAll uid (sess_checkpoints s)"
  by (simp_all add: endCheckpoint_def live_of_def)

lemma markCheckpoint_frame:
  "markCheckpoint uid s = (None, s') \<Longrightarrow> uid \<notin> set (sess_checkpoints s) \<and> sess_checkpoints s' = uid # sess_checkpoints s
     \<and> sess_next s' = sess_next s \<and> live_of u s' = live_of u s"
  by (auto simp: markCheckpoint_def setCheckpointLocked_def live_of_def split: if_splits)

interpretation turn: turn_frame "same_but uid k" uid k for uid k
proof
  fix h :: "'a host" and s h'
  assume "markCheckpoint uid (h_set h) = (None, s)" and "same_but uid k (h\<lparr>h_set := s\<rparr>) h'"
  then show "same_but uid k h (h'\<lparr>h_set := endCheckpoint uid (h_set h')\<rparr>)"
    using markCheckpoint_frame [of uid "h_set h" s] by (simp add: same_but_def)
qed (auto simp: same_but_def)

section \<open>Every operation gives back what it took\<close>

text \<open>The connections that are open are older than the next one.\<close>

definition set_ok :: "session_set \<Rightarrow> bool" where
  "set_ok s \<longleftrightarrow> (\<forall>u. \<forall>k \<in> set (live_of u s). k < sess_next s)"

definition gives_back :: "'s host \<Rightarrow> 's host \<Rightarrow> bool" where
  "gives_back h h' \<longleftrightarrow> (\<forall>u. guard_entry u (h_guard h') = guard_entry u (h_guard h))
     \<and> sess_checkpoints (h_set h') = sess_checkpoints (h_set h)
     \<and> (\<forall>u. live_of u (h_set h') = live_of u (h_set h)) \<and> sess_next (h_set h) \<le> sess_next (h_set h')"

interpretation kept: host_frame gives_back
  by unfold_locales (auto simp: gives_back_def)

lemma gives_back_set_ok: "gives_back h h' \<Longrightarrow> set_ok (h_set h) \<Longrightarrow> set_ok (h_set h')"
  unfolding gives_back_def set_ok_def by force

text \<open>A turn: registering a fresh connection, keeping the frame, and releasing it.\<close>

lemma openHarness_back:
  assumes "openHarness p uid inc h = (res, h')" and "set_ok (h_set h)"
  shows "(case res of Inl _ \<Rightarrow> gives_back h h'
     | Inr (k, _) \<Rightarrow> h_guard h' = h_guard h \<and> sess_checkpoints (h_set h') = sess_checkpoints (h_set h)
         \<and> live_of uid (h_set h') = k # live_of uid (h_set h) \<and> k \<notin> set (live_of uid (h_set h))
         \<and> (\<forall>u. u \<noteq> uid \<longrightarrow> live_of u (h_set h') = live_of u (h_set h) \<and> k \<notin> set (live_of u (h_set h)))
         \<and> sess_next (h_set h) \<le> sess_next (h_set h'))"
proof -
  obtain t h1 where c: "rt_call (RtDial (inc_address inc)) h = (t, h1)" by fastforce
  then have h1: "h_set h1 = h_set h" "h_guard h1 = h_guard h" by (auto simp: rt_call_def ask_def)
  have f: "sess_next (h_set h) \<notin> set (live_of u (h_set h))" for u using assms(2) unfolding set_ok_def by blast
  have l: "live_of u (s\<lparr>sess_next := n, sess_conns := c\<rparr>) = live_of u s" for u s n c by (simp add: live_of_def)
  show ?thesis using assms(1) c h1 f unfolding openHarness_def register_conn_def Let_def
    by (auto simp: gives_back_def l split: sum.splits if_splits) (simp_all add: live_of_def update_conv')
qed

lemma with_harness_back:
  assumes "with_harness p uid inc refused body h = (res, h')" and ok: "set_ok (h_set h)"
    and body: "\<And>k har h res h'. body k har h = (res, h') \<Longrightarrow> same_but uid k h h'"
  shows "gives_back h h'"
proof -
  obtain o_res h1 where o1: "openHarness p uid inc h = (o_res, h1)" by fastforce
  show ?thesis
  proof (cases o_res)
    case (Inl e)
    then show ?thesis using openHarness_back [OF o1 ok] assms(1) o1 by (auto simp: with_harness_def)
  next
    case (Inr kh)
    obtain k har where k: "kh = (k, har)" by fastforce
    obtain r h2 where b: "body k har h1 = (r, h2)" by fastforce
    obtain q h3 where rel: "releaseHarness p uid k h2 = (q, h3)" by fastforce
    have h3: "h' = h3" using assms(1) o1 Inr k b rel by (simp add: with_harness_def)
    have "same_but uid k h1 h3"
      using body [OF b] turn.keeps_releaseHarness [OF rel] turn.keeps_trans by blast
    moreover have "k \<notin> set (live_of uid (h_set h3))"
      using rel unfolding releaseHarness_def by (auto simp: case_prod_snd split: option.splits)
    ultimately have f: "same_but uid k h1 h3" "k \<notin> set (live_of uid (h_set h3))" by blast+
    note o2 = openHarness_back [OF o1 ok, unfolded Inr k sum.case prod.case]
    have "filter (\<lambda>i. i \<noteq> k) (live_of uid (h_set h3)) = filter (\<lambda>i. i \<noteq> k) (k # live_of uid (h_set h))"
      using f(1) o2 unfolding same_but_def by metis
    moreover have "filter (\<lambda>i. i \<noteq> k) (live_of uid (h_set h3)) = live_of uid (h_set h3)"
      by (rule filter_True) (use f(2) in auto)
    moreover have "filter (\<lambda>i. i \<noteq> k) (k # live_of uid (h_set h)) = live_of uid (h_set h)"
      using o2 by (simp add: filter_id_conv) blast
    ultimately have "live_of uid (h_set h3) = live_of uid (h_set h)" by simp
    then have "live_of u (h_set h3) = live_of u (h_set h)" for u
      using f(1) o2 unfolding same_but_def by (cases "u = uid") metis+
    then show ?thesis using f(1) o2 h3 unfolding same_but_def gives_back_def by simp
  qed
qed

text \<open>Running under the guard gives it back when the body does.\<close>

lemma guarded_back:
  assumes "guarded kind uid refused body h = (res, h')"
    and "\<And>h1 h2 r. h_set h1 = h_set h \<Longrightarrow> body h1 = (r, h2) \<Longrightarrow> gives_back h1 h2"
  shows "gives_back h h'"
proof -
  obtain e g where a: "acquire uid kind (h_guard h) = (e, g)" by fastforce
  show ?thesis
  proof (cases e)
    case None
    obtain r h1 where b: "body (h\<lparr>h_guard := g\<rparr>) = (r, h1)" by fastforce
    have "gives_back (h\<lparr>h_guard := g\<rparr>) h1" using assms(2) [OF _ b] by simp
    moreover have "h' = h1\<lparr>h_guard := release_guard uid kind (h_guard h1)\<rparr>" using assms(1) a None b by (simp add: guarded_def)
    ultimately show ?thesis using acquire_entry [of uid kind "h_guard h" g] a None by (auto simp: gives_back_def)
  next
    case (Some x)
    then have "g = AList.update uid (guard_entry uid (h_guard h)) (h_guard h)" using a
      by (auto simp: acquire_def Let_def split: if_splits)
    then show ?thesis using assms(1) a Some by (auto simp: guarded_def gives_back_def)
  qed
qed

lemma marked_back:
  assumes "marked uid refused body h = (res, h')"
    and "\<And>h1 h2 r. body h1 = (r, h2) \<Longrightarrow> gives_back h1 h2"
  shows "gives_back h h'"
proof -
  obtain e s where m: "markCheckpoint uid (h_set h) = (e, s)" by fastforce
  show ?thesis
  proof (cases e)
    case None
    obtain r h1 where b: "body (h\<lparr>h_set := s\<rparr>) = (r, h1)" by fastforce
    have "h' = h1\<lparr>h_set := endCheckpoint uid (h_set h1)\<rparr>" using assms(1) m None b by (simp add: marked_def)
    then show ?thesis using assms(2) [OF b] markCheckpoint_frame [of uid "h_set h" s] m None by (auto simp: gives_back_def)
  next
    case (Some x)
    then have "s = h_set h" using m by (auto simp: markCheckpoint_def setCheckpointLocked_def split: if_splits)
    then show ?thesis using assms(1) m Some by (auto simp: marked_def)
  qed
qed

lemma resumeFence_back: "resumeFence p uid expected h = (res, h') \<Longrightarrow> gives_back h h'"
  unfolding resumeFence_def
  by (cases expected) (simp_all add: kept.keeps_mint_checked, erule marked_back, rule kept.keeps_mint_checked)

lemma resumeApproval_back: "resumeApproval p uid st cfg h = (res, h') \<Longrightarrow> gives_back h h'"
  by (auto simp: resumeApproval_def split: option.splits if_splits prod.splits sum.splits
      intro: resumeFence_back kept.keeps_after)

lemma exec_locked_back:
  assumes "exec_locked p cfg uid inputs ex h = (res, h')" and "set_ok (h_set h)"
  shows "gives_back h h'"
proof -
  obtain a h1 where a: "admit p h = (a, h1)" by fastforce
  obtain t h2 where c: "rt_call (RtCreate uid) h1 = (t, h2)" by fastforce
  have k1: "gives_back h h1" and k2: "gives_back h h2"
    using kept.keeps_admit [OF a] kept.keeps_rt_call [OF c] kept.keeps_trans by blast+
  have "gives_back h h'" if "with_harness p uid inc ref (exec_connected p cfg uid inputs ex inc) h2 = (res, h')" for inc ref
    using with_harness_back [OF that gives_back_set_ok [OF k2 assms(2)]] turn.keeps_exec_connected k2 kept.keeps_trans by blast
  then show ?thesis using assms(1) a c k1 k2 unfolding exec_locked_def
    by (auto simp: Let_def split: option.splits sum.splits if_splits prod.splits)
qed

lemma resume_placed_back:
  assumes "resume_placed p uid cfg h = (res, h')" and "set_ok (h_set h)"
  shows "gives_back h h'"
proof -
  obtain st where "InspectApproval (pl_ops p) 0 (h_log h) = st" by blast
  define fence where "fence h2 = (if rf_expectedLastSeq cfg = None then (Inr 0, h2)
      else resumeFence p uid (rf_expectedLastSeq cfg) h2)" for h2
  have early: "gives_back h h3"
    if "resumeApproval p uid s cfg h = (q, h1)" "admit p h1 = (a, h2)" "fence h2 = (f, h3)" for s q h1 a h2 f h3
    using resumeApproval_back [OF that(1)] kept.keeps_admit [OF that(2)] that(3) resumeFence_back [of p uid _ h2] kept.keeps_trans
    unfolding fence_def by (metis kept.keeps_refl prod.inject)
  have placed: "gives_back h h'"
    if "gives_back h h3" "rt_call c h3 = (t, h4)"
      "with_harness p uid inc Some (resume_connected p uid cfg) h4 = (res, h')" for h3 c t h4 inc
  proof -
    have "gives_back h h4" using that(1) kept.keeps_rt_call [OF that(2)] kept.keeps_trans by blast
    then show ?thesis using with_harness_back [OF that(3) gives_back_set_ok [OF _ assms(2)]]
      turn.keeps_resume_connected kept.keeps_trans by blast
  qed
  have step: "gives_back h h1" if "resumeApproval p uid s cfg h = (q, h1)" for s q h1 by (rule resumeApproval_back [OF that])
  have adm: "gives_back h h2" if "resumeApproval p uid s cfg h = (q, h1)" "admit p h1 = (a, h2)" for s q h1 a h2
    using step [OF that(1)] kept.keeps_admit [OF that(2)] kept.keeps_trans by blast
  have call: "gives_back h h4" if "gives_back h h3" "rt_call c h3 = (t, h4)" for h3 c t h4
    using that kept.keeps_rt_call kept.keeps_trans by blast
  show ?thesis using assms(1) unfolding resume_placed_def fence_def [symmetric]
    by (auto split: option.splits sum.splits prod.splits intro: step adm early placed call)
qed

end
