(* ===== verification/Placement_Props.thy ===== *)
theory Placement_Props
  imports Placement_Frame Recovery
begin

text \<open>
  Whole operations of the Placer and the registry: each gives back what it took; compute is provisioned
  only for a turn that may run; a park that is reported is a cold session.  A sample host at the end
  serves the witnesses.
\<close>

section \<open>Fork\<close>

text \<open>\<open>h'\<close> gives everything back except the checkpoint mark of \<open>uid\<close>.\<close>

definition holds_only_mark :: "string \<Rightarrow> 's host \<Rightarrow> 's host \<Rightarrow> bool" where
  "holds_only_mark uid h h' \<longleftrightarrow> uid \<notin> set (sess_checkpoints (h_set h)) \<and> h_guard h' = h_guard h
     \<and> sess_checkpoints (h_set h') = uid # sess_checkpoints (h_set h)
     \<and> (\<forall>u. live_of u (h_set h') = live_of u (h_set h)) \<and> sess_next (h_set h') = sess_next (h_set h)"

text \<open>Equal up to the journal, the runtime calls and the flags of connections.\<close>

definition same_holds :: "'s host \<Rightarrow> 's host \<Rightarrow> bool" where
  "same_holds h h' \<longleftrightarrow> h_guard h' = h_guard h \<and> sess_checkpoints (h_set h') = sess_checkpoints (h_set h)
     \<and> (\<forall>u. live_of u (h_set h') = live_of u (h_set h)) \<and> sess_next (h_set h') = sess_next (h_set h)"

interpretation holds: host_frame same_holds
  by unfold_locales (auto simp: same_holds_def)

lemma same_holds_back: "same_holds h h' \<Longrightarrow> gives_back h h'"
  by (simp add: same_holds_def gives_back_def)

lemma end_all_holds: "same_holds h (end_all p ks h)"
proof (induction p ks h rule: end_all.induct)
  case (2 p k ks h)
  show ?case
  proof (cases "lh_ended (sess_conns (h_set h) k)")
    case None
    obtain t h1 where c: "rt_call (RtClose k) h = (t, h1)" by fastforce
    let ?h2 = "h1\<lparr>h_set := snd (end_conn k errSuperseded (pl_close p t) (h_set h1))\<rparr>"
    have "same_holds h1 ?h2" by (simp add: same_holds_def)
    then have "same_holds h ?h2" using holds.keeps_rt_call [OF c] holds.keeps_trans by blast
    moreover have "same_holds ?h2 (end_all p ks ?h2)" using 2(1) [OF None c [symmetric]] by simp
    ultimately show ?thesis using None c holds.keeps_trans by auto
  qed (use 2(2) in auto)
qed simp

lemma endHarnesses_holds: "endHarnesses p uid ks h = (res, h') \<Longrightarrow> same_holds h h'"
  unfolding endHarnesses_def using end_all_holds holds.keeps_wait_minted holds.keeps_trans
  by (auto split: if_splits) blast

lemma fork_checkpoint_holds:
  assumes "fork_checkpoint p uid atSeq desc ks h = (res, h')"
  shows "same_holds h h'"
proof -
  obtain a h1 where a: "fence_at p atSeq h = (a, h1)" by fastforce
  obtain b h2 where b: "endHarnesses p uid ks h1 = (b, h2)" by fastforce
  obtain c h3 where c: "fence_at p atSeq h2 = (c, h3)" by fastforce
  obtain t h4 where d: "rt_call (RtSnapshot uid) h3 = (t, h4)" by fastforce
  have k: "same_holds h h1" "same_holds h h2" "same_holds h h3" "same_holds h h4"
    using holds.keeps_fence_at [OF a] endHarnesses_holds [OF b] holds.keeps_fence_at [OF c] holds.keeps_rt_call [OF d]
      holds.keeps_trans by blast+
  show ?thesis using assms a b c d k holds.keeps_after(1) [OF k(4)] unfolding fork_checkpoint_def
    by (auto split: sum.splits option.splits prod.splits if_splits)
qed

lemma claim_frame:
  defines "claim ks \<equiv> fold (\<lambda>k. set_conn k (\<lambda>l. l\<lparr>lh_superseded := True\<rparr>)) ks"
  shows "sess_checkpoints (claim ks s) = sess_checkpoints s" "sess_next (claim ks s) = sess_next s"
    "live_of u (claim ks s) = live_of u s"
  unfolding claim_def by (induction ks arbitrary: s) auto

lemma beginCheckpoint_frame:
  "beginCheckpoint uid s = (Inr ks, s') \<Longrightarrow> uid \<notin> set (sess_checkpoints s) \<and> sess_checkpoints s' = uid # sess_checkpoints s
     \<and> sess_next s' = sess_next s \<and> (\<forall>u. live_of u s' = live_of u s)"
  "beginCheckpoint uid s = (Inl e, s') \<Longrightarrow> s' = s"
  by (auto simp: beginCheckpoint_def setCheckpointLocked_def claim_frame split: if_splits)
    (simp_all add: live_of_def)

lemma mark_lifted:
  assumes "holds_only_mark uid h h1" and "same_holds h1 h'"
  shows "same_holds h (h'\<lparr>h_set := endCheckpoint uid (h_set h')\<rparr>)"
  using assms by (auto simp: holds_only_mark_def same_holds_def)

lemma holds_only_mark_trans:
  "same_holds h0 h \<Longrightarrow> holds_only_mark uid h h1 \<Longrightarrow> same_holds h1 h2 \<Longrightarrow> holds_only_mark uid h0 h2"
  by (simp add: holds_only_mark_def same_holds_def)

lemma forkSource_holds:
  assumes "forkSource p uid atSeq h = (res, h')"
  shows "(case res of Inr (_, True) \<Rightarrow> holds_only_mark uid h h' | _ \<Rightarrow> same_holds h h')"
proof -
  obtain a h1 where a: "admit p h = (a, h1)" by fastforce
  have k1: "same_holds h h1" by (rule holds.keeps_admit [OF a])
  obtain b s where b: "beginCheckpoint uid (h_set h1) = (b, s)" by fastforce
  have fail: "same_holds h (h1\<lparr>h_set := s\<rparr>)" if "b = Inl e" for e
    using beginCheckpoint_frame(2) [of uid "h_set h1" e s] b k1 that by simp
  have run: "holds_only_mark uid h h2 \<and> same_holds h (h2\<lparr>h_set := endCheckpoint uid (h_set h2)\<rparr>)"
    if "b = Inr ks" "fork_checkpoint p uid atSeq desc ks (h1\<lparr>h_set := s\<rparr>) = (c, h2)" for ks desc c h2
  proof -
    have "holds_only_mark uid h1 (h1\<lparr>h_set := s\<rparr>)"
      using beginCheckpoint_frame(1) [of uid "h_set h1" ks s] b that(1) by (simp add: holds_only_mark_def)
    then have "holds_only_mark uid h (h1\<lparr>h_set := s\<rparr>)"
      using holds_only_mark_trans [OF k1] holds.keeps_refl by blast
    then show ?thesis using fork_checkpoint_holds [OF that(2)] mark_lifted holds_only_mark_trans [OF holds.keeps_refl] by blast
  qed
  show ?thesis using assms a b k1 fail run unfolding forkSource_def
    by (auto split: sum.splits prod.splits if_splits)
qed

lemma fork_read_holds:
  assumes "fork_read p uid children atSeq h = (res, h')"
  shows "same_holds h h'"
proof -
  obtain src h1 where s: "forkSource p uid atSeq h = (src, h1)" by fastforce
  have run: "same_holds h (lift_mark held uid h2)"
    if "src = Inr (ref, held)" "fork_children p ref atSeq children [] h1 = (q, h2)" for ref held q h2
    using forkSource_holds [OF s] that mark_lifted holds.keeps_fork_children [OF that(2)] holds.keeps_trans
    by (cases held) (auto simp: lift_mark_def, blast+)
  have "same_holds h (stop_all p us (lift_mark held uid h2))"
    if "src = Inr (ref, held)" "fork_children p ref atSeq children [] h1 = (q, h2)" for us ref held q h2
    using run [OF that] holds.keeps_stop_all holds.keeps_trans by blast
  then show ?thesis using assms s run forkSource_holds [OF s] unfolding fork_read_def
    by (auto split: sum.splits prod.splits option.splits)
qed

section \<open>The registry's operations\<close>

text \<open>The host's check of the resolved name leaves guard, marks and connections alone.\<close>

definition check_gives_back :: "'s registry_resume_config \<Rightarrow> bool" where
  "check_gives_back cfg \<longleftrightarrow> (\<forall>name h. gives_back h (snd (run_check cfg name h)))"

lemma resolve_back: "resolve r cfg nm d h = (res, h') \<Longrightarrow> check_gives_back cfg \<Longrightarrow> gives_back h h'"
  unfolding resolve_def check_gives_back_def
  by (auto simp: Let_def split: sum.splits prod.splits option.splits if_splits) (metis snd_conv)+

lemma registry_resume_back:
  assumes "registry_resume r spec ops uid d cfg h = (res, h')" and "set_ok (h_set h)" and check: "check_gives_back cfg"
  shows "gives_back h h'"
proof -
  have res: "gives_back h h0" if "resolve r cfg n d h = (q, h0)" for n q h0 by (rule resolve_back [OF that check])
  have rep: "gives_back h h1" if "resolve r cfg n d h = (q, h0)" "resumeApproval p uid st c h0 = (x, h1)" for n q h0 p st c x h1
    using res [OF that(1)] resumeApproval_back [OF that(2)] kept.keeps_trans by blast
  have "gives_back h h2" if "resolve r cfg n d h = (q, h0)" "resumeApproval p uid st c h0 = (None, h1)" "resume_placed p uid c h1 = (y, h2)"
    for n q h0 p st c h1 y h2
    using rep [OF that(1,2)] resume_placed_back [OF that(3)] gives_back_set_ok assms(2) kept.keeps_trans by blast
  then show ?thesis using assms(1) res rep unfolding registry_resume_def
    by (auto simp: Let_def split: sum.splits prod.splits option.splits if_splits)
qed

lemma registry_suspend_back:
  assumes "registry_suspend r spec ops uid d cfg h = (res, h')" and check: "check_gives_back cfg"
  shows "gives_back h h'"
proof -
  have res: "gives_back h h0" if "resolve r cfg n d h = (q, h0)" for n q h0 by (rule resolve_back [OF that check])
  have "gives_back h h1" if "resolve r cfg n d h = (q, h0)" "marked uid Inl (suspend p uid None) h0 = (x, h1)" for n q h0 p x h1
  proof -
    have "gives_back h0 h1" by (rule marked_back [OF that(2)]) (erule kept.keeps_suspend)
    then show ?thesis using res [OF that(1)] kept.keeps_trans by blast
  qed
  then show ?thesis using assms(1) res unfolding registry_suspend_def
    by (auto simp: Let_def split: sum.splits prod.splits option.splits)
qed

lemma guarded_snd_back:
  "(\<And>h1 h2 r. h_set h1 = h_set h \<Longrightarrow> body h1 = (r, h2) \<Longrightarrow> gives_back h1 h2) \<Longrightarrow> gives_back h (snd (guarded kind uid refused body h))"
  using guarded_back [OF surjective_pairing] by metis

text \<open>
  (C17) Every operation of the host gives back what it took.  Whatever the journal, the runtime, the harness
  and the caller's context do, when \<^verbatim>\<open>Exec\<close>, \<^verbatim>\<open>Resume\<close>, \<^verbatim>\<open>Suspend\<close> or \<^verbatim>\<open>Fork\<close> of a Placer or \<^verbatim>\<open>Resume\<close>, \<^verbatim>\<open>Approve\<close> or
  \<^verbatim>\<open>Suspend\<close> of a registry returns, with or without an error, the session guard holds what it held
  before, the same sessions are marked as being checkpointed, and the harness connections registered
  as open are those that were open: no path leaks a lock, a mark or a connection.  The check of the
  resolved name that the caller may pass is only supposed to do the same.
\<close>

theorem operations_give_back:
  assumes "set_ok (h_set h)" and "check_gives_back gcfg"
  shows "gives_back h (snd (Placer_Exec p cfg uid inputs ex h)) \<and> gives_back h (snd (Placer_Resume p uid rcfg h))
     \<and> gives_back h (snd (Placer_Suspend p uid h)) \<and> gives_back h (snd (Placer_Fork p uid children atSeq h))
     \<and> gives_back h (snd (Registry_Resume r spec ops uid dflt gcfg h))
     \<and> gives_back h (snd (Registry_Approve ops uid now decision h))
     \<and> gives_back h (snd (Registry_Suspend r spec ops uid dflt gcfg h))"
proof (intro conjI)
  show "gives_back h (snd (Placer_Exec p cfg uid inputs ex h))"
    unfolding Placer_Exec_def by (rule guarded_snd_back) (metis exec_locked_back assms(1))
  show "gives_back h (snd (Placer_Resume p uid rcfg h))"
    unfolding Placer_Resume_def by (rule guarded_snd_back) (metis resume_placed_back assms(1))
  show "gives_back h (snd (Placer_Suspend p uid h))"
    unfolding Placer_Suspend_def by (rule guarded_snd_back) (erule marked_back, rule kept.keeps_suspend)
  show "gives_back h (snd (Placer_Fork p uid children atSeq h))"
    unfolding Placer_Fork_def by (rule guarded_snd_back) (metis fork_read_holds same_holds_back)
  show "gives_back h (snd (Registry_Resume r spec ops uid dflt gcfg h))"
    unfolding Registry_Resume_def by (rule guarded_snd_back) (metis registry_resume_back assms)
  show "gives_back h (snd (Registry_Approve ops uid now decision h))"
    unfolding Registry_Approve_def
    by (rule guarded_snd_back, erule marked_back) (auto split: prod.splits intro: kept.keeps_set_log)
  show "gives_back h (snd (Registry_Suspend r spec ops uid dflt gcfg h))"
    unfolding Registry_Suspend_def by (rule guarded_snd_back) (erule registry_suspend_back, rule assms(2))
qed

section \<open>Admission\<close>

text \<open>The calls that were made go first.\<close>

definition extends :: "'s host \<Rightarrow> 's host \<Rightarrow> bool" where
  "extends h h' \<longleftrightarrow> (\<exists>calls. h_runtime h' = h_runtime h @ calls)"

interpretation trace: turn_frame extends uid k for uid k
  by unfold_locales (auto simp: extends_def)

lemma rt_call_runtime: "rt_call c h = (t, h') \<Longrightarrow> h_runtime h' = h_runtime h @ [c] \<and> h_log h' = h_log h \<and> h_set h' = h_set h
     \<and> h_guard h' = h_guard h \<and> t = w_tick (h_world h)"
  by (auto simp: rt_call_def ask_def h_log_def tick_def)

lemma ask_runtime: "ask h = (t, h') \<Longrightarrow> h_runtime h' = h_runtime h \<and> h_log h' = h_log h \<and> h_set h' = h_set h
     \<and> h_guard h' = h_guard h \<and> t = w_tick (h_world h)"
  by (auto simp: ask_def h_log_def tick_def)

lemma gate_runtime:
  "gate p d c h = (res, h') \<Longrightarrow> h_runtime h' = h_runtime h @ [c] \<and> h_log h' = h_log h \<and> h_set h' = h_set h \<and> h_guard h' = h_guard h"
  unfolding gate_def by (auto dest!: rt_call_runtime ask_runtime split: prod.splits sum.splits if_splits)

lemma admit_runtime:
  "admit p h = (res, h') \<Longrightarrow> h_runtime h' = h_runtime h @ [RtDescribe] \<and> h_log h' = h_log h \<and> h_set h' = h_set h \<and> h_guard h' = h_guard h"
  unfolding admit_def by (rule gate_runtime)

lemma admit_ok:
  "admit p h = (Inr desc, h') \<Longrightarrow> pl_describe p (w_tick (h_world h)) = Inr desc
     \<and> (pl_descriptorID p = [] \<or> desc_id desc = pl_descriptorID p) \<and> CanPlace (desc_capabilities desc) (pl_capabilities p)"
  unfolding admit_def gate_def by (auto dest!: rt_call_runtime split: prod.splits sum.splits if_splits)

lemma openHarness_extends: "openHarness p uid inc h = (res, h') \<Longrightarrow> extends h h'"
  unfolding openHarness_def
  by (auto simp: extends_def split: prod.splits sum.splits dest!: rt_call_runtime)

lemma with_harness_extends:
  assumes "with_harness p uid inc refused body h = (res, h')"
    and body: "\<And>k har h res h'. body k har h = (res, h') \<Longrightarrow> extends h h'"
  shows "extends h h'"
proof -
  have rel: "extends a (snd (releaseHarness p uid k a))" for a k by (rule trace.keeps_releaseHarness [OF surjective_pairing])
  obtain r h1 where o1: "openHarness p uid inc h = (r, h1)" by fastforce
  show ?thesis
  proof (cases r)
    case (Inr kh)
    obtain q h2 where b: "body (fst kh) (snd kh) h1 = (q, h2)" by fastforce
    have "extends h (snd (releaseHarness p uid (fst kh) h2))"
      using openHarness_extends [OF o1] body [OF b] rel trace.keeps_trans by blast
    then show ?thesis using assms(1) o1 Inr b by (auto simp: with_harness_def case_prod_snd)
  qed (use assms(1) o1 openHarness_extends [OF o1] in \<open>auto simp: with_harness_def\<close>)
qed

text \<open>Nothing of the session waits for the caller's decision: the gate, if there is one, is inherited or executed.\<close>

definition no_open_gate :: "approval_state option \<Rightarrow> bool" where
  "no_open_gate st \<longleftrightarrow> (case st of None \<Rightarrow> True | Some s \<Rightarrow> as_inherited s \<or> as_receipt s \<noteq> None)"

lemma blocked_gate:
  "(case st of None \<Rightarrow> False | Some s \<Rightarrow> \<not> as_inherited s \<and> as_receipt s = None) = (\<not> no_open_gate st)"
  by (simp add: no_open_gate_def split: option.split)

text \<open>
  What a turn needs before compute is provisioned for it: the session is not being checkpointed, its
  journal is writable and has no gate of its own open, and the backend describes the pinned harness
  with capabilities the runtime provides.
\<close>

definition may_run :: "'s placer \<Rightarrow> string \<Rightarrow> 's host \<Rightarrow> bool" where
  "may_run p uid h \<longleftrightarrow> uid \<notin> set (sess_checkpoints (h_set h)) \<and> CheckWritable (pl_ops p) (h_log h) = None
     \<and> (case InspectApproval (pl_ops p) 0 (h_log h) of Inl _ \<Rightarrow> False | Inr st \<Rightarrow> no_open_gate st)
     \<and> (case pl_describe p (w_tick (h_world h)) of
          Inl _ \<Rightarrow> False
        | Inr desc \<Rightarrow> (pl_descriptorID p = [] \<or> desc_id desc = pl_descriptorID p)
            \<and> CanPlace (desc_capabilities desc) (pl_capabilities p))"

lemma exec_locked_admission:
  assumes "exec_locked p cfg uid inputs ex h = ((inc, res), h')"
  shows "res \<noteq> None \<and> (h_runtime h' = h_runtime h \<or> h_runtime h' = h_runtime h @ [RtDescribe]) \<and> h_log h' = h_log h
     \<or> may_run p uid h \<and> (\<exists>calls. h_runtime h' = h_runtime h @ RtDescribe # RtCreate uid # calls)"
proof -
  obtain a h1 where a: "admit p h = (a, h1)" by fastforce
  obtain t h2 where c: "rt_call (RtCreate uid) h1 = (t, h2)" by fastforce
  note h1 = admit_runtime [OF a] and h2 = rt_call_runtime [OF c]
  have w: "\<exists>calls. h_runtime h' = h_runtime h @ RtDescribe # RtCreate uid # calls"
    if "with_harness p uid i ref (exec_connected p cfg uid inputs ex i) h2 = (r, h')" for i ref r
    using with_harness_extends [OF that] trace.keeps_exec_connected h1 h2 by (fastforce simp: extends_def)
  have m: "may_run p uid h" if "CheckWritable (pl_ops p) (h_log h) = None" "InspectApproval (pl_ops p) 0 (h_log h) = Inr st"
    "no_open_gate st" "a = Inr desc" "uid \<notin> set (sess_checkpoints (h_set h1))" for st desc
    using that admit_ok [of p h desc h1] a h1 by (simp add: may_run_def)
  show ?thesis
  proof (cases "may_run p uid h")
    case True
    then show ?thesis using assms a c h1 h2 w unfolding exec_locked_def may_run_def blocked_gate refuseDuringCheckpoint_def
      by (auto simp: Let_def split: option.splits sum.splits if_splits prod.splits)
  next
    case False
    then show ?thesis using assms a h1 m unfolding exec_locked_def blocked_gate refuseDuringCheckpoint_def
      by (auto simp: Let_def split: option.splits sum.splits if_splits) metis
  qed
qed

text \<open>
  (C20) Compute is provisioned only for a turn that may run.  \<^verbatim>\<open>Placer.Exec\<close> either refuses, with nothing but at
  most the backend's own description asked of the runtime and the journal as it was, or it got the
  session guard, the session was not being checkpointed, the journal was writable with no gate of
  its own open, and the backend described the pinned harness with capabilities the runtime provides.
\<close>

theorem exec_provisions_only_admitted:
  "case Placer_Exec p cfg uid inputs ex h of ((inc, res), h') \<Rightarrow>
     res \<noteq> None \<and> (h_runtime h' = h_runtime h \<or> h_runtime h' = h_runtime h @ [RtDescribe]) \<and> h_log h' = h_log h
     \<or> may_run p uid h \<and> \<not> guard_refuses guardOperation (guard_entry uid (h_guard h))
          \<and> (\<exists>calls. h_runtime h' = h_runtime h @ RtDescribe # RtCreate uid # calls)"
proof -
  obtain e g where g: "acquire uid guardOperation (h_guard h) = (e, g)" by fastforce
  obtain inc res h1 where x: "exec_locked p cfg uid inputs ex (h\<lparr>h_guard := g\<rparr>) = ((inc, res), h1)" by (metis surj_pair)
  have l: "h_log (h\<lparr>h_guard := g'\<rparr>) = h_log h" "may_run p uid (h\<lparr>h_guard := g'\<rparr>) = may_run p uid h" for g' and h :: "'a host"
    by (simp_all add: h_log_def may_run_def)
  show ?thesis
  proof (cases e)
    case None
    then have "\<not> guard_refuses guardOperation (guard_entry uid (h_guard h))" using g acquire_entry by blast
    then show ?thesis using exec_locked_admission [OF x] g None x by (simp add: Placer_Exec_def guarded_def l)
  qed (simp add: Placer_Exec_def guarded_def g l)
qed

section \<open>Parks\<close>

definition is_park :: "goerr \<Rightarrow> bool" where
  "is_park e \<longleftrightarrow> (\<exists>ref. e = ApprovalParkedError ref)"

lemma is_park_simps [simp]:
  "\<not> is_park (ErrNew x)" "\<not> is_park (ErrWrap x e)" "\<not> is_park (ErrMulti x es)" "is_park (ApprovalParkedError ref)"
  "\<not> is_park (errorf a e b)" "\<not> is_park (errorf2 e x e')"
  by (simp_all add: is_park_def errorf_def errorf2_def)

text \<open>Nobody but the controller reports a park: not the runtime, the dialer, the harness's description, the
  context or the canonical form.\<close>

definition honest :: "log placer \<Rightarrow> canon_env \<Rightarrow> bool" where
  "honest p cn \<longleftrightarrow> (\<forall>t e. pl_describe p t = Inl e \<longrightarrow> \<not> is_park e)
     \<and> (\<forall>t u inc e. pl_create p t u = (inc, Some e) \<longrightarrow> \<not> is_park e)
     \<and> (\<forall>t u e. pl_snapshot p t u = Inl e \<longrightarrow> \<not> is_park e)
     \<and> (\<forall>t inc e. pl_dial p t inc = Inl e \<longrightarrow> \<not> is_park e)
     \<and> (\<forall>t inc har t' e. pl_dial p t inc = Inr har \<longrightarrow> har_describe har t' = Inl e \<longrightarrow> \<not> is_park e)
     \<and> (\<forall>t e. pl_close p t = Some e \<longrightarrow> \<not> is_park e)
     \<and> (\<forall>t e. c_ctxErr (pl_controller p) t = Some e \<longrightarrow> \<not> is_park e)
     \<and> (\<forall>prev seq ev e. HashRecord cn prev seq ev = Inl e \<longrightarrow> \<not> is_park e)"

text \<open>Inspecting the journal reports no park either.\<close>

lemma inspect_record_no_park: "inspect_record exid head forkSeq i r s = Inl e \<Longrightarrow> \<not> is_park e"
  by (auto simp: inspect_record_def inspect_start_def inspect_tool_call_def inspect_request_def inspect_decision_def
      inspect_result_def validateApprovalReceipt_def invalid_log_def diverged_log_def approvalContinuationError_def Let_def
      split: event_kind.splits option.splits if_splits prod.splits)

lemma inspect_records_no_park: "inspect_records exid head forkSeq i rs s = Inl e \<Longrightarrow> \<not> is_park e"
  by (induction rs arbitrary: i s) (auto split: sum.splits dest: inspect_record_no_park)

lemma inspect_execution_no_park: "inspectApprovalExecution x head forkSeq = Inl e \<Longrightarrow> \<not> is_park e"
  by (auto simp: inspectApprovalExecution_def validateInputs_def invalid_log_def split: sum.splits if_splits option.splits
      dest: inspect_records_no_park)

lemma scan_executions_no_park: "scan_executions head forkSeq xs states sel = Inl e \<Longrightarrow> \<not> is_park e"
  by (induction xs arbitrary: states sel) (auto split: sum.splits if_splits dest: inspect_execution_no_park)

lemma InspectApproval_no_park: "InspectApproval (AsStore cn) n l = Inl e \<Longrightarrow> \<not> is_park e"
  by (auto simp: InspectApproval_def scanApprovals_def scanApprovalRecords_def invalid_log_def AsStore_def Let_def
      split: sum.splits if_splits dest: scan_executions_no_park)

lemma turnError_park: "is_park (turnError p t e) \<Longrightarrow> is_park e"
  by (auto simp: turnError_def controllerError_def describeError_def split: option.splits if_splits)

lemma gate_no_park:
  "gate p d c h = (Inl e, h') \<Longrightarrow> (\<And>t e. d t = Inl e \<Longrightarrow> \<not> is_park e) \<Longrightarrow> \<not> is_park e"
  by (auto simp: gate_def describeError_def split: prod.splits sum.splits if_splits option.splits)

lemma recheck_no_park:
  "recheck p har h = (Some e, h') \<Longrightarrow> (\<And>t e. har_describe har t = Inl e \<Longrightarrow> \<not> is_park e) \<Longrightarrow> \<not> is_park e"
  by (auto simp: recheck_def split: prod.splits sum.splits if_splits option.splits dest: gate_no_park)

lemma checkSuperseded_result:
  assumes "checkSuperseded p k h = (res, h')" and "honest p cn"
  shows "(\<forall>e. res = Some e \<longrightarrow> \<not> is_park e) \<and> h_runtime h' = h_runtime h \<and> h_log h' = h_log h \<and> h_set h' = h_set h"
proof -
  obtain t h1 where a: "ask h = (t, h1)" by fastforce
  have "\<not> is_park (turnError p t' e)" if "c_ctxErr (pl_controller p) t' = Some e" for t' e
    using that assms(2) turnError_park [of p t' e] unfolding honest_def by blast
  then show ?thesis using assms(1) a ask_runtime [OF a] unfolding checkSuperseded_def
    by (auto simp: errSuperseded_def split: if_splits option.splits)
qed

lemma closeInvocation_result:
  assumes "closeInvocation p uid k h = (res, h')" and "honest p cn" and open_conn: "lh_ended (sess_conns (h_set h) k) = None"
  shows "(\<forall>e. res = Some e \<longrightarrow> \<not> is_park e) \<and> h_log h' = h_log h
     \<and> (res = None \<longrightarrow> lh_ended (sess_conns (h_set h') k) \<noteq> None \<and> k \<notin> set (live_of uid (h_set h'))
          \<and> h_runtime h' = h_runtime h @ [RtClose k])"
proof -
  obtain c h1 where c: "checkSuperseded p k h = (c, h1)" by fastforce
  note h1 = checkSuperseded_result [OF c assms(2)]
  obtain t h2 where r: "rt_call (RtClose k) h1 = (t, h2)" by fastforce
  note h2 = rt_call_runtime [OF r]
  have rel: "fst (release_conn uid k cl s) = cl" "lh_ended (sess_conns (snd (release_conn uid k cl s)) k) \<noteq> None"
    if "lh_ended (sess_conns s k) = None" for cl s
    using that by (auto simp: release_conn_def Let_def end_conn_def fenceMinted_def set_conn_def split: option.split)
  have "\<not> is_park e" if "pl_close p t = Some e" for e using that assms(2) unfolding honest_def by blast
  then show ?thesis using assms(1) c r h1 h2 open_conn rel [of "h_set h"] unfolding closeInvocation_def releaseHarness_def
    by (auto simp: case_prod_snd h_log_def split: option.splits)
qed

text \<open>A suspend under a captured head and fence: one record, or nothing.\<close>

lemma suspend_cursor:
  assumes "pl_ops p = AsStore cn" and "suspend p uid (Some cur) h = (res, h')"
  shows "h_runtime h' = h_runtime h @ [RtSnapshot uid] \<and> h_set h' = h_set h
     \<and> (case res of
          Inr snap \<Rightarrow> \<exists>r. pl_snapshot p (w_tick (h_world h)) uid = Inr snap
             \<and> Append cn (su_head cur) (su_fence cur) (lifecycle_event (suspend_lifecycle snap)) (h_log h) = (Inr r, h_log h')
        | Inl e \<Rightarrow> h_log h' = h_log h \<and> (honest p cn \<longrightarrow> \<not> is_park e))"
proof -
  obtain t h1 where c: "rt_call (RtSnapshot uid) h = (t, h1)" by fastforce
  note h1 = rt_call_runtime [OF c]
  have ok: "CheckWritable (AsStore cn) l = None" for l by (simp add: CheckWritable_def AsStore_def)
  have app: "l' = l \<and> (honest p cn \<longrightarrow> \<not> is_park e)" if "Append cn ex f ev l = (Inl e, l')" for ex f ev l e l'
    using that by (auto simp: Append_def Let_def honest_def ErrConflict_def ErrFenced_def split: if_splits sum.splits)
  have hon: "honest p cn \<Longrightarrow> pl_snapshot p t uid = Inl e \<Longrightarrow> \<not> is_park e" for t e unfolding honest_def by blast
  have op: "Store_Append (AsStore cn) = Append cn" by (simp add: AsStore_def)
  show ?thesis using assms(2) c h1 unfolding suspend_def assms(1) ok op
    by (auto simp: set_log_def observe_if_def h_log_def split: sum.splits prod.splits dest!: app hon)
qed

text \<open>The park of \<open>ref\<close> is what the journal says is open, and it belongs to this session.\<close>

definition parks_at :: "canon_env \<Rightarrow> approval_ref \<Rightarrow> int64 \<Rightarrow> log \<Rightarrow> bool" where
  "parks_at cn ref head l \<longleftrightarrow> (\<exists>st request. InspectApproval (AsStore cn) 0 l = Inr (Some st) \<and> as_request st = Some request
     \<and> \<not> as_inherited st \<and> as_receipt st = None \<and> as_decision st = None \<and> ref = state_ref st request \<and> head = as_head st)"

text \<open>
  Compute is cold and the chain says so: connection \<open>k\<close> was closed, then the one snapshot taken, then
  SUSPEND recorded after the request, under \<open>fence\<close>.
\<close>

definition parked_cold ::
  "log placer \<Rightarrow> canon_env \<Rightarrow> string \<Rightarrow> int64 \<Rightarrow> approval_ref \<Rightarrow> nat \<Rightarrow> log host \<Rightarrow> log host \<Rightarrow> bool" where
  "parked_cold p cn uid fence ref k h h' \<longleftrightarrow> (\<exists>head t snap r. parks_at cn ref head (h_log h)
     \<and> pl_snapshot p t uid = Inr snap
     \<and> Append cn head fence (lifecycle_event (suspend_lifecycle snap)) (h_log h) = (Inr r, h_log h')
     \<and> lh_ended (sess_conns (h_set h') k) \<noteq> None \<and> k \<notin> set (live_of uid (h_set h'))
     \<and> h_runtime h' = h_runtime h @ [RtClose k, RtSnapshot uid])"

lemma handoff_result:
  assumes ops: "pl_ops p = AsStore cn" and hon: "honest p cn" and "lh_ended (sess_conns (h_set h) k) = None"
    and run: "handoff p uid fence ref k b h = (res, h')"
  shows "res = Some (ApprovalParkedError ref) \<and> parked_cold p cn uid fence ref k h h'
     \<or> h_log h' = h_log h \<and> (\<exists>e. res = Some e \<and> \<not> is_park e)"
proof (cases "\<exists>head. parks_at cn ref head (h_log h)")
  case False
  then show ?thesis using run unfolding handoff_def ops parks_at_def
    by (auto split: sum.splits option.splits if_splits dest: InspectApproval_no_park)
next
  case True
  then obtain st request where st: "InspectApproval (AsStore cn) 0 (h_log h) = Inr (Some st)" "as_request st = Some request"
      "\<not> as_inherited st" "as_receipt st = None" "as_decision st = None" "ref = state_ref st request"
    by (auto simp: parks_at_def)
  then have at: "parks_at cn ref (as_head st) (h_log h)" by (auto simp: parks_at_def)
  obtain c h1 where c: "closeInvocation p uid k h = (c, h1)" by fastforce
  note close = closeInvocation_result [OF c hon assms(3)]
  obtain q h2 where s: "suspend p uid (Some \<lparr>su_head = as_head st, su_fence = fence, su_onRecord = b\<rparr>) h1 = (q, h2)" by fastforce
  note susp = suspend_cursor [OF ops s]
  show ?thesis
  proof (cases c)
    case (Some e)
    then show ?thesis using run st c close unfolding handoff_def ops by auto
  next
    case None
    show ?thesis
    proof (cases q)
      case (Inl e)
      then show ?thesis using run st c None s susp close hon unfolding handoff_def ops by auto
    next
      case (Inr snap)
      then have "parked_cold p cn uid fence ref k h h2"
        using at susp close None unfolding parked_cold_def by auto
      then show ?thesis using run st c None s Inr unfolding handoff_def ops by simp
    qed
  qed
qed

lemma handoffPark_result:
  assumes "pl_ops p = AsStore cn" and "honest p cn" and "lh_ended (sess_conns (h_set h) k) = None"
    and "handoffPark p uid fence ref k b h = (res, h')"
  shows "res = Some (ApprovalParkedError ref) \<and> parked_cold p cn uid fence ref k h h'
     \<or> h_log h' = h_log h \<and> (\<exists>e. res = Some e \<and> \<not> is_park e)"
proof -
  obtain e s where m: "markCheckpoint uid (h_set h) = (e, s)" by fastforce
  show ?thesis
  proof (cases e)
    case None
    have view: "sess_conns s = sess_conns (h_set h)"
      using m None by (auto simp: markCheckpoint_def setCheckpointLocked_def split: if_splits)
    obtain q h1 where b: "handoff p uid fence ref k b (h\<lparr>h_set := s\<rparr>) = (q, h1)" by fastforce
    have h': "res = q" "h' = h1\<lparr>h_set := endCheckpoint uid (h_set h1)\<rparr>"
      using assms(4) m None b by (simp_all add: handoffPark_def marked_def)
    have l: "h_log (a\<lparr>h_set := x\<rparr>) = h_log a" for a :: "log host" and x by (simp add: h_log_def)
    have "sess_conns (endCheckpoint uid x) = sess_conns x" for x by (simp add: endCheckpoint_def)
    then have "parked_cold p cn uid fence ref k (h\<lparr>h_set := s\<rparr>) h1 \<Longrightarrow> parked_cold p cn uid fence ref k h h'"
      unfolding parked_cold_def h' by (simp add: l)
    then show ?thesis using handoff_result [OF assms(1,2) _ b] assms(3) view by (auto simp: l h')
  next
    case (Some x)
    then have "\<not> is_park x" "s = h_set h"
      using m by (auto simp: markCheckpoint_def setCheckpointLocked_def split: if_splits)
    then show ?thesis using assms(4) m Some by (auto simp: handoffPark_def marked_def)
  qed
qed

text \<open>The turn itself, once it is connected.\<close>

lemma exec_connected_park:
  assumes ops: "pl_ops p = AsStore cn" and hon: "honest p cn" and har: "\<And>t e. har_describe har t = Inl e \<Longrightarrow> \<not> is_park e"
    and live: "lh_ended (sess_conns (h_set h) k) = None"
    and run: "exec_connected p cfg uid inputs ex inc0 k har h = ((inc, Some (ApprovalParkedError ref)), h')"
  shows "\<exists>h4. parked_cold p cn uid (inc_fenceToken inc) ref k h4 h'
     \<and> h_runtime h4 = h_runtime h @ (if pl_describesLive p then [RtConnDescribe] else [])"
proof -
  obtain r h1 where c: "recheck p har h = (r, h1)" by fastforce
  have h1: "h_runtime h1 = h_runtime h @ (if pl_describesLive p then [RtConnDescribe] else []) \<and> h_set h1 = h_set h"
    using c unfolding recheck_def by (auto split: if_splits prod.splits sum.splits option.splits dest!: gate_runtime ask_runtime)
  obtain fence l where f: "Store_NewFence (pl_ops p) (h_log h1) = (Inr fence, l)"
    by (cases "NewFence (h_log h1)") (simp add: ops AsStore_def)
  define h2 where "h2 = (set_log l h1)\<lparr>h_set := fenceMinted k (h_set h1)\<rparr>"
  have h2: "h_runtime h2 = h_runtime h1" "lh_ended (sess_conns (h_set h2) k) = None"
    using h1 live by (simp_all add: h2_def set_log_def fenceMinted_def set_conn_def)
  obtain s h3 where s: "checkSuperseded p k h2 = (s, h3)" by fastforce
  note h3 = checkSuperseded_result [OF s hon]
  have new: "\<not> is_park e" if "NewController (exec_controller p cfg fence uid) x = (Inl e, y)" for e x y
    using that ops by (auto simp: NewController_def exec_controller_def controllerOpts_def pl_ops_def AsStore_def ErrMissingSessionUID_def
        split: if_splits prod.splits)
  have park: "park_of (ApprovalParkedError q) = Some q" for q by (simp add: park_of_def IsParkUnwind_def)
  have fin: "parked_cold p cn uid fence ref k g h'" if
    "finish_turn p uid fence k b err g = (Some (ApprovalParkedError ref), h')" "lh_ended (sess_conns (h_set g) k) = None" for b err g
  proof (cases "park_of err")
    case None
    then have "\<not> is_park err" using park unfolding is_park_def by auto
    then show ?thesis using that(1) None turnError_park [of p _ err] unfolding finish_turn_def
      by (auto split: prod.splits) (metis is_park_simps(4))
  next
    case (Some q)
    then have h: "handoffPark p uid fence q k b g = (Some (ApprovalParkedError ref), h')" using that(1) by (simp add: finish_turn_def)
    then show ?thesis using handoffPark_result [OF ops hon that(2) h] by auto
  qed
  have r: "r = None" using run c recheck_no_park [of p har h _ h1] har by (cases r) (auto simp: exec_connected_def)
  have sn: "s = None" using run c r f s h3 by (cases s) (auto simp: exec_connected_def Let_def h2_def [symmetric])
  obtain cc l' where cc: "NewController (exec_controller p cfg fence uid) (h_log h3) = (Inr cc, l')"
  proof (cases "NewController (exec_controller p cfg fence uid) (h_log h3)")
    case (Pair q l')
    then show ?thesis using run c r f s sn that by (cases q) (auto simp: exec_connected_def Let_def h2_def [symmetric] dest!: new)
  qed
  obtain res w where ex: "Exec cc har inputs ex ((h_world h3)\<lparr>w_log := l'\<rparr>) = (res, w)" by fastforce
  let ?g = "h3\<lparr>h_world := w\<rparr>"
  obtain err where err: "finish_turn p uid fence k (ec_onRecord cfg) err ?g = (Some (ApprovalParkedError ref), h')"
      and inc: "inc_fenceToken inc = fence"
    using run c r f s sn cc ex by (cases res) (auto simp: exec_connected_def Let_def h2_def [symmetric] split: prod.splits)
  have "parked_cold p cn uid fence ref k ?g h'" by (rule fin [OF err]) (use h2 h3 in simp)
  then show ?thesis using inc h1 h2 h3 by (intro exI [of _ ?g]) simp
qed

lemma openHarness_result:
  "openHarness p uid inc h = (Inr (k, har), h') \<Longrightarrow> h_runtime h' = h_runtime h @ [RtDial (inc_address inc)]
     \<and> lh_ended (sess_conns (h_set h') k) = None \<and> (\<exists>t. pl_dial p t inc = Inr har)"
  by (auto simp: openHarness_def register_conn_def new_conn_def Let_def split: prod.splits sum.splits if_splits dest!: rt_call_runtime)

text \<open>A park comes from the turn itself: nothing before it reports one.\<close>

lemma exec_locked_park_open:
  assumes ops: "pl_ops p = AsStore cn" and hon: "honest p cn"
    and x: "exec_locked p cfg uid inputs ex h = ((inc, Some (ApprovalParkedError ref)), h')"
    and a: "admit p h = (a, h1)" and c: "rt_call (RtCreate uid) h1 = (t, h2)" and i: "pl_create p t uid = (i, ce)"
  shows "\<exists>k har h3 h4. openHarness p uid i h2 = (Inr (k, har), h3)
     \<and> exec_connected p cfg uid inputs ex i k har h3 = ((inc, Some (ApprovalParkedError ref)), h4)
     \<and> h' = snd (releaseHarness p uid k h4)"
proof -
  have ok: "CheckWritable (AsStore cn) l = None" for l by (simp add: CheckWritable_def AsStore_def)
  have insp: "InspectApproval (AsStore cn) 0 l \<noteq> Inl (ApprovalParkedError ref)" for l using InspectApproval_no_park by fastforce
  have adm: "a \<noteq> Inl (ApprovalParkedError ref)"
    using a gate_no_park [of p "pl_describe p"] hon unfolding admit_def honest_def by (metis is_park_simps(4))
  have cre: "ce \<noteq> Some (ApprovalParkedError ref)" using i hon unfolding honest_def by (metis is_park_simps(4))
  have blk: "ErrApprovalBlocked \<noteq> ApprovalParkedError ref" by (simp add: ErrApprovalBlocked_def)
  have dial: "fst (openHarness p uid i h2) \<noteq> Inl (ApprovalParkedError ref)"
  proof -
    have "pl_dial p t' i \<noteq> Inl (ApprovalParkedError ref)" for t' using hon unfolding honest_def by (metis is_park_simps(4))
    then show ?thesis unfolding openHarness_def register_conn_def
      by (auto simp: Let_def checkpointing_def errorf_def split: prod.splits sum.splits if_splits)
  qed
  have "with_harness p uid i (\<lambda>e. (i, Some e)) (exec_connected p cfg uid inputs ex i) h2
      = ((inc, Some (ApprovalParkedError ref)), h')"
    using x a c i insp adm cre blk unfolding exec_locked_def ops ok
    by (auto simp: Let_def refuseDuringCheckpoint_def checkpointing_def errorf_def split: sum.splits option.splits if_splits)
  then show ?thesis using dial unfolding with_harness_def by (auto split: prod.splits sum.splits)
qed

text \<open>
  (C16) A park that \<^verbatim>\<open>Placer.Exec\<close> reports is a cold session.  When the call returns \<^verbatim>\<open>ApprovalParkedError\<close>, the gate it
  names is what the journal had open, undecided and owned by this session; the turn's connection was
  closed before the one snapshot of its compute; and the SUSPEND record with that snapshot is the next
  record of the chain, under the very fence the turn ran with.  Every failure on the way is reported as
  itself, never as a park.
\<close>

theorem exec_park_is_cold:
  assumes "pl_ops p = AsStore cn" and "honest p cn"
    and "Placer_Exec p cfg uid inputs ex h = ((inc, Some (ApprovalParkedError ref)), h')"
  shows "\<exists>l head t snap r k calls. parks_at cn ref head l \<and> pl_snapshot p t uid = Inr snap
     \<and> Append cn head (inc_fenceToken inc) (lifecycle_event (suspend_lifecycle snap)) l = (Inr r, h_log h')
     \<and> h_runtime h' = h_runtime h @ calls @ [RtClose k, RtSnapshot uid] \<and> RtSnapshot uid \<notin> set calls"
proof -
  define inner where "inner x = (\<exists>k calls h4 h5. parked_cold p cn uid (inc_fenceToken inc) ref k h4 h5
     \<and> h_runtime h4 = h_runtime h @ calls \<and> RtSnapshot uid \<notin> set calls
     \<and> h_log x = h_log h5 \<and> h_runtime x = h_runtime h5)" for x :: "log host"
  obtain e g where g: "acquire uid guardOperation (h_guard h) = (e, g)" by fastforce
  have e: "e = None" using assms(3) g by (cases e) (auto simp: Placer_Exec_def guarded_def acquire_def Let_def ErrSessionBusy_def split: if_splits)
  obtain h0 where x: "exec_locked p cfg uid inputs ex (h\<lparr>h_guard := g\<rparr>) = ((inc, Some (ApprovalParkedError ref)), h0)"
      and h': "h' = h0\<lparr>h_guard := release_guard uid guardOperation (h_guard h0)\<rparr>"
    using assms(3) g e by (auto simp: Placer_Exec_def guarded_def split: prod.splits)
  obtain a h1 where a: "admit p (h\<lparr>h_guard := g\<rparr>) = (a, h1)" by fastforce
  obtain t h2 where c: "rt_call (RtCreate uid) h1 = (t, h2)" by fastforce
  obtain i ce where i: "pl_create p t uid = (i, ce)" by fastforce
  obtain k har h3 h4 where o1: "openHarness p uid i h2 = (Inr (k, har), h3)"
    and b: "exec_connected p cfg uid inputs ex i k har h3 = ((inc, Some (ApprovalParkedError ref)), h4)"
    and h0: "h0 = snd (releaseHarness p uid k h4)"
    using exec_locked_park_open [OF assms(1,2) x a c i] by blast
  note calls = admit_runtime [OF a] rt_call_runtime [OF c]
  obtain h5 where cold: "parked_cold p cn uid (inc_fenceToken inc) ref k h5 h4"
    and h5: "h_runtime h5 = h_runtime h3 @ (if pl_describesLive p then [RtConnDescribe] else [])"
    using exec_connected_park [OF assms(1,2) _ _ b] openHarness_result [OF o1] assms(2) unfolding honest_def by metis
  have "h_log h0 = h_log h4" "h_runtime h0 = h_runtime h4"
    using cold unfolding h0 parked_cold_def releaseHarness_def by (auto simp: h_log_def split: prod.splits)
  then have "inner h0" using cold h5 calls openHarness_result [OF o1] unfolding inner_def
    by (intro exI [of _ k] exI [of _ "[RtDescribe, RtCreate uid, RtDial (inc_address i)]
          @ (if pl_describesLive p then [RtConnDescribe] else [])"] exI [of _ h5] exI [of _ h4]) auto
  then show ?thesis unfolding inner_def parked_cold_def h' by (auto simp: h_log_def) metis
qed

section \<open>A sample host\<close>

definition sample_snapshot :: snapshot_ref where
  "sample_snapshot = \<lparr>sr_local = ''s1'', sr_externalURI = ''gs://x'', sr_memory = True, sr_sealed = True\<rparr>"

definition sample_incarnation :: incarnation where
  "sample_incarnation = zero_incarnation\<lparr>inc_id := ''i1'', inc_address := ''a1''\<rparr>"

definition sample_placer :: "harness \<Rightarrow> descriptor \<Rightarrow> log placer" where
  "sample_placer har desc = \<lparr>pl_describe = (\<lambda>t. Inr desc),
     pl_capabilities = \<lparr>rc_memorySnapshot = True, rc_coWFork = True, rc_attest = False, rc_gpuState = False\<rparr>,
     pl_create = (\<lambda>t uid. (sample_incarnation, None)), pl_snapshot = (\<lambda>t uid. Inr sample_snapshot),
     pl_restore = (\<lambda>t ref. Inr sample_incarnation), pl_fork = (\<lambda>t ref uid. None), pl_describesLive = True,
     pl_dial = (\<lambda>t inc. Inr har), pl_close = (\<lambda>t. None), pl_controller = sample_controller, pl_descriptorID = [],
     pl_ctxErr = (\<lambda>t. None), pl_dctxErr = (\<lambda>t. False), pl_cause = (\<lambda>t. None),
     pl_claimed = (\<lambda>t. False), pl_waits = (\<lambda>t. None)\<rparr>"

definition sample_host :: "log world \<Rightarrow> log host" where
  "sample_host w = \<lparr>h_world = w, h_guard = [], h_set = empty_set True, h_runtime = []\<rparr>"

definition sample_exec :: exec_config where
  "sample_exec = \<lparr>ec_harness = ''h'', ec_onRecord = True, ec_onDelta = False, ec_config = [], ec_resumeFromSeq = 0\<rparr>"

lemma sample_honest:
  assumes "\<And>t e. har_describe har t \<noteq> Inl e"
  shows "pl_ops (sample_placer har desc) = AsStore short_canon" "honest (sample_placer har desc) short_canon"
  using assms
  by (simp_all add: sample_placer_def pl_ops_def honest_def sample_controller_def HashRecord_def canon_Record_def short_canon_def plain_canon_def)

lemma sample_set_ok: "set_ok (h_set (sample_host w))"
  by (simp add: set_ok_def sample_host_def empty_set_def live_of_def)

theorem exec_park_is_cold_witness:
  "\<exists>inc ref h' l head t snap r k calls.
     Placer_Exec (sample_placer gated_harness sample_descriptor) sample_exec ''s1'' [] 0 (sample_host sample_world)
       = ((inc, Some (ApprovalParkedError ref)), h')
     \<and> parks_at short_canon ref head l \<and> pl_snapshot (sample_placer gated_harness sample_descriptor) t ''s1'' = Inr snap
     \<and> Append short_canon head (inc_fenceToken inc) (lifecycle_event (suspend_lifecycle snap)) l = (Inr r, h_log h')
     \<and> h_runtime h' = h_runtime (sample_host sample_world) @ calls @ [RtClose k, RtSnapshot ''s1''] \<and> RtSnapshot ''s1'' \<notin> set calls"
proof -
  let ?run = "Placer_Exec (sample_placer gated_harness sample_descriptor) sample_exec ''s1'' [] 0 (sample_host sample_world)"
  have "case snd (fst ?run) of Some (ApprovalParkedError ref) \<Rightarrow> True | _ \<Rightarrow> False" by code_simp
  then obtain inc ref h' where run: "?run = ((inc, Some (ApprovalParkedError ref)), h')"
    by (cases ?run) (auto split: option.splits goerr.splits)
  have har: "har_describe gated_harness t \<noteq> Inl e" for t e by (simp add: gated_harness_def sample_harness_def)
  from exec_park_is_cold [OF sample_honest [OF har] run] run show ?thesis by blast
qed

theorem operations_give_back_witness:
  "gives_back (sample_host sample_world)
     (snd (Placer_Exec (sample_placer gated_harness sample_descriptor) sample_exec ''s1'' [] 0 (sample_host sample_world)))"
proof -
  have "check_gives_back \<lparr>rr_check = None, rr_onRecord = True, rr_onDelta = True, rr_expectedLastSeq = None\<rparr>"
    by (simp add: check_gives_back_def run_check_def)
  from operations_give_back [OF sample_set_ok this] show ?thesis by blast
qed

end
