(* ===== verification/Placement_Forks.thy ===== *)
theory Placement_Forks
  imports Placement_Props
begin

text \<open>
  Forks and recovery of a Placer, on the in-memory journal: which calls the runtime receives, in which
  order, and which snapshot they name.
\<close>

section \<open>Forks\<close>

fun clones_or_stops :: "runtime_call \<Rightarrow> bool" where
  "clones_or_stops (RtFork _ _) = True"
| "clones_or_stops (RtStop _) = True"
| "clones_or_stops _ = False"

text \<open>The calls since \<open>h\<close> create no child and stop none.\<close>

definition quiet_calls :: "'s host \<Rightarrow> 's host \<Rightarrow> bool" where
  "quiet_calls h h' \<longleftrightarrow> (\<exists>pre. h_runtime h' = h_runtime h @ pre \<and> \<not> list_ex clones_or_stops pre)"

lemma quiet_calls_refl [simp]: "h_runtime h' = h_runtime h \<Longrightarrow> quiet_calls h h'"
  by (simp add: quiet_calls_def)

lemma quiet_calls_trans: "quiet_calls a b \<Longrightarrow> quiet_calls b c \<Longrightarrow> quiet_calls a c"
  by (force simp: quiet_calls_def)

lemma quiet_calls_one: "h_runtime h' = h_runtime h @ [c] \<Longrightarrow> \<not> clones_or_stops c \<Longrightarrow> quiet_calls h h'"
  by (simp add: quiet_calls_def)

lemma set_log_runtime [simp]: "h_runtime (set_log l h) = h_runtime h"
  by (simp add: set_log_def)

lemma fence_at_runtime: "fence_at p atSeq h = (res, h') \<Longrightarrow> h_runtime h' = h_runtime h \<and> h_set h' = h_set h"
  by (auto simp: fence_at_def set_log_def split: prod.splits sum.splits if_splits)

lemma wait_minted_runtime: "wait_minted p uid ks h = (res, h') \<Longrightarrow> h_runtime h' = h_runtime h \<and> h_log h' = h_log h"
  by (induction ks arbitrary: h) (auto split: prod.splits option.splits dest!: ask_runtime)

lemma end_all_calls: "quiet_calls h (end_all p ks h) \<and> RtSnapshot uid \<notin> set (drop (length (h_runtime h)) (h_runtime (end_all p ks h)))
     \<and> h_log (end_all p ks h) = h_log h"
proof (induction p ks h rule: end_all.induct)
  case (2 p k ks h)
  show ?case
  proof (cases "lh_ended (sess_conns (h_set h) k)")
    case None
    obtain t h1 where c: "rt_call (RtClose k) h = (t, h1)" by fastforce
    let ?h2 = "h1\<lparr>h_set := snd (end_conn k errSuperseded (pl_close p t) (h_set h1))\<rparr>"
    have h2: "h_runtime ?h2 = h_runtime h @ [RtClose k]" "h_log ?h2 = h_log h" using rt_call_runtime [OF c] by (simp_all add: h_log_def)
    then have "quiet_calls h ?h2" by (auto intro: quiet_calls_one)
    then show ?thesis using 2(1) [OF None c [symmetric]] None c h2 quiet_calls_trans by (fastforce simp: quiet_calls_def)
  qed (use 2(2) in auto)
qed simp

lemma endHarnesses_calls:
  assumes "endHarnesses p uid ks h = (res, h')"
  shows "quiet_calls h h' \<and> (\<exists>pre. h_runtime h' = h_runtime h @ pre \<and> RtSnapshot u \<notin> set pre) \<and> h_log h' = h_log h"
proof (cases "ks = []")
  case False
  then have w: "wait_minted p uid ks (end_all p ks h) = (res, h')" using assms by (simp add: endHarnesses_def)
  show ?thesis using wait_minted_runtime [OF w] end_all_calls [of h p ks u] by (auto simp: quiet_calls_def)
qed (use assms in \<open>auto simp: endHarnesses_def quiet_calls_def\<close>)

lemma fork_copy_beside: "fst (snd (fork_copy (snd_ops cops) fence atSeq rs lastSeq s)) = fst s"
  by (induction rs arbitrary: lastSeq s)
    (auto simp: snd_ops_def split: prod.splits sum.splits)

lemma snd_ops_beside:
  "Store_NewFence (snd_ops cops) s = (r, s') \<Longrightarrow> fst s' = fst s"
  "Store_Append (snd_ops cops) n f ev s = (q, s') \<Longrightarrow> fst s' = fst s"
  "fork_copy (snd_ops cops) f atSeq rs n s = (q', s') \<Longrightarrow> fst s' = fst s"
  using fork_copy_beside [of cops f atSeq rs n s] by (cases s; auto simp: snd_ops_def split: prod.splits)+

lemma Fork_beside:
  assumes "Fork pops (snd_ops cops) atSeq s s = (e, s')"
  shows "fst s' = fst s"
  using assms unfolding Fork_def
  by (auto simp del: split_paired_All split_paired_Ex split: option.splits sum.splits prod.splits dest!: snd_ops_beside)

text \<open>The loop: it clones for a prefix of the children, and every clone but perhaps the last was made.\<close>

lemma fork_children_calls:
  assumes "fork_children p ref atSeq children created h = ((res, created'), h')" and "\<forall>c \<in> set children. \<exists>cops. fc_ops c = snd_ops cops"
  shows "\<exists>us. h_runtime h' = h_runtime h @ map (RtFork ref) us \<and> (\<exists>rest. map fc_uid children = us @ rest)
     \<and> fst (h_log h') = fst (h_log h)
     \<and> (case res of
          None \<Rightarrow> us = map fc_uid children
        | Some _ \<Rightarrow> created' = created @ us \<or> us \<noteq> [] \<and> created' = created @ butlast us \<and> (\<exists>t. pl_fork p t ref (last us) \<noteq> None))"
  using assms
proof (induction children arbitrary: created h)
  case Nil
  then show ?case by auto
next
  case (Cons c cs)
  obtain t h1 where r: "rt_call (RtFork ref (fc_uid c)) h = (t, h1)" by fastforce
  note h1 = rt_call_runtime [OF r]
  show ?case
  proof (cases "pl_fork p t ref (fc_uid c)")
    case (Some e)
    then have "res = Some e" "created' = created" "h' = h1" using Cons.prems r by auto
    then show ?thesis using h1 Some by (intro exI [of _ "[fc_uid c]"]) auto
  next
    case None
    obtain fe l where f: "Fork (pl_ops p) (fc_ops c) atSeq (h_log h1) (h_log h1) = (fe, l)" by (metis surj_pair)
    obtain cops where "fc_ops c = snd_ops cops" using Cons.prems(2) by auto
    then have l: "fst l = fst (h_log h)" using Fork_beside [of "pl_ops p" cops atSeq "h_log h1"] f h1 by metis
    have sl: "fst (h_log (set_log l h1)) = fst (h_log h)" "h_runtime (set_log l h1) = h_runtime h @ [RtFork ref (fc_uid c)]"
      using l h1 by (simp_all add: set_log_def h_log_def)
    show ?thesis
    proof (cases fe)
      case (Some e)
      then have "res = Some e" "created' = created @ [fc_uid c]" "h' = set_log l h1" using Cons.prems r None f by (auto simp: Let_def)
      then show ?thesis using sl by (intro exI [of _ "[fc_uid c]"]) auto
    next
      case fn: None
      have "fork_children p ref atSeq cs (created @ [fc_uid c]) (set_log l h1) = ((res, created'), h')"
        using Cons.prems r None f fn by (auto simp: Let_def)
      from Cons.IH [OF this] Cons.prems(2) obtain us where us: "h_runtime h' = h_runtime (set_log l h1) @ map (RtFork ref) us"
        "\<exists>rest. map fc_uid cs = us @ rest" "fst (h_log h') = fst (h_log (set_log l h1))" and
        res: "case res of None \<Rightarrow> us = map fc_uid cs | Some _ \<Rightarrow> created' = (created @ [fc_uid c]) @ us
          \<or> us \<noteq> [] \<and> created' = (created @ [fc_uid c]) @ butlast us \<and> (\<exists>t. pl_fork p t ref (last us) \<noteq> None)" by auto
      have "\<exists>rest. map fc_uid (c # cs) = (fc_uid c # us) @ rest" using us(2) by simp
      moreover have "case res of None \<Rightarrow> fc_uid c # us = map fc_uid (c # cs) | Some _ \<Rightarrow> created' = created @ fc_uid c # us
          \<or> fc_uid c # us \<noteq> [] \<and> created' = created @ butlast (fc_uid c # us)
             \<and> (\<exists>t. pl_fork p t ref (last (fc_uid c # us)) \<noteq> None)"
        using res by (cases res) (simp, force)
      ultimately show ?thesis using us(1,3) sl by (intro exI [of _ "fc_uid c # us"]) simp
    qed
  qed
qed

lemma stop_all_runtime: "h_runtime (stop_all p us h) = h_runtime h @ map RtStop us \<and> h_log (stop_all p us h) = h_log h"
proof (induction us arbitrary: h)
  case (Cons u us)
  obtain t h1 where "rt_call (RtStop u) h = (t, h1)" by fastforce
  then show ?case using Cons [of h1] rt_call_runtime [of "RtStop u" h t h1] by simp
qed simp

lemma lift_mark_views [simp]: "h_runtime (lift_mark b uid h) = h_runtime h" "h_log (lift_mark b uid h) = h_log h"
  by (simp_all add: lift_mark_def h_log_def)

definition fst_log :: "(log \<times> 'c) host \<Rightarrow> log" where
  "fst_log h = fst (h_log h)"

text \<open>
  Where the children come from, by what the harness says of itself when the fork asks it.  For a harness that
  replays, the session's handle, with nothing done to the parent; for one whose memory is its state, the
  snapshot that the parent's chain records next.
\<close>

definition fork_origin :: "(log \<times> 'c) placer \<Rightarrow> canon_env \<Rightarrow> string \<Rightarrow> int64 \<Rightarrow> snapshot_ref \<Rightarrow> (log \<times> 'c) host \<Rightarrow> (log \<times> 'c) host \<Rightarrow> bool" where
  "fork_origin p cn uid atSeq ref h h' \<longleftrightarrow>
     (case pl_describe p (w_tick (h_world h)) of
        Inl _ \<Rightarrow> False
      | Inr desc \<Rightarrow>
          CanPlace (desc_capabilities desc) (pl_capabilities p) \<and>
          (if cap_resumability (desc_capabilities desc) \<noteq> ResumabilityRequiresMemorySnapshot
           then ref = handle_ref uid \<and> fst_log h' = fst_log h \<and> h_runtime h' = h_runtime h @ [RtDescribe]
           else atSeq = Head (fst_log h) \<and> sr_externalURI ref \<noteq> [] \<and> (\<exists>t. pl_snapshot p t uid = Inr ref)
             \<and> (\<exists>l r. log_records l = log_records (fst_log h) \<and> log_fence (fst_log h) < log_fence l
                  \<and> Append cn atSeq (log_fence l) (lifecycle_event (suspend_lifecycle ref)) l = (Inr r, fst_log h'))
             \<and> (\<exists>pre. h_runtime h' = h_runtime h @ pre @ [RtSnapshot uid] \<and> RtSnapshot uid \<notin> set pre)))"

lemma fence_at_mem:
  assumes "pl_ops p = fst_ops (AsStore cn)" and "fence_at p atSeq h = (Inr f, h')"
  shows "log_records (fst_log h') = log_records (fst_log h) \<and> log_fence (fst_log h') = log_fence (fst_log h) + 1
     \<and> f = log_fence (fst_log h') \<and> atSeq = Head (fst_log h)"
  using assms by (cases "h_log h") (auto simp: fence_at_def AsStore_def fst_ops_def NewFence_def set_log_def h_log_def fst_log_def Head_def split: prod.splits if_splits)

lemma fork_checkpoint_origin:
  assumes ops: "pl_ops p = fst_ops (AsStore cn)" and run: "fork_checkpoint p uid atSeq desc ks h = (res, h')"
  shows "quiet_calls h h' \<and> (\<forall>ref. res = Inr ref \<longrightarrow> atSeq = Head (fst_log h) \<and> sr_externalURI ref \<noteq> []
        \<and> (\<exists>t. pl_snapshot p t uid = Inr ref)
        \<and> (\<exists>l r. log_records l = log_records (fst_log h) \<and> log_fence (fst_log h) < log_fence l
             \<and> Append cn atSeq (log_fence l) (lifecycle_event (suspend_lifecycle ref)) l = (Inr r, fst_log h'))
        \<and> (\<exists>pre. h_runtime h' = h_runtime h @ pre @ [RtSnapshot uid] \<and> RtSnapshot uid \<notin> set pre))"
proof -
  obtain a h1 where a: "fence_at p atSeq h = (a, h1)" by fastforce
  obtain b h2 where b: "endHarnesses p uid ks h1 = (b, h2)" by fastforce
  obtain c h3 where c: "fence_at p atSeq h2 = (c, h3)" by fastforce
  obtain t h4 where d: "rt_call (RtSnapshot uid) h3 = (t, h4)" by fastforce
  have rb: "fst_log h2 = fst_log h1" using endHarnesses_calls [OF b] by (simp add: fst_log_def)
  note ra = fence_at_runtime [OF a] and re = endHarnesses_calls [OF b] and rc = fence_at_runtime [OF c] and rd = rt_call_runtime [OF d]
  have q2: "quiet_calls h h2" using ra re by (auto simp: quiet_calls_def)
  then have q4: "quiet_calls h h4" using rc rd by (auto simp: quiet_calls_def)
  have r4: "fst_log h4 = fst_log h3" using rd by (simp add: fst_log_def)
  have quiet: "quiet_calls h h'" using run a b c d q2 q4 ra rc unfolding fork_checkpoint_def
    by (auto simp: quiet_calls_def split: sum.splits option.splits prod.splits if_splits)
  obtain pre where pre: "h_runtime h4 = h_runtime h @ pre @ [RtSnapshot uid]" "RtSnapshot uid \<notin> set pre"
    using ra re [of uid] rc rd by auto
  show ?thesis
  proof (intro conjI quiet allI impI)
    fix ref assume "res = Inr ref"
    then obtain f g l r where v: "a = Inr f" "b = None" "c = Inr g" "pl_snapshot p t uid = Inr ref" "sr_externalURI ref \<noteq> []"
        "appendLifecycleAt (pl_ops p) atSeq g (suspend_lifecycle ref) (h_log h4) = (Inr r, l)" "h' = set_log l h4"
      using run a b c d unfolding fork_checkpoint_def by (auto split: sum.splits option.splits prod.splits if_splits)
    have ma: "log_records (fst_log h1) = log_records (fst_log h) \<and> log_fence (fst_log h1) = log_fence (fst_log h) + 1 \<and> atSeq = Head (fst_log h)"
      using fence_at_mem [OF ops] a v by blast
    have mc: "log_records (fst_log h3) = log_records (fst_log h2) \<and> log_fence (fst_log h3) = log_fence (fst_log h2) + 1 \<and> g = log_fence (fst_log h3)"
      using fence_at_mem [OF ops] c v by blast
    show "atSeq = Head (fst_log h)" "sr_externalURI ref \<noteq> []" "\<exists>t. pl_snapshot p t uid = Inr ref" using ma v by blast+
    show "\<exists>pre. h_runtime h' = h_runtime h @ pre @ [RtSnapshot uid] \<and> RtSnapshot uid \<notin> set pre" using pre v by auto
    show "\<exists>l r. log_records l = log_records (fst_log h) \<and> log_fence (fst_log h) < log_fence l
       \<and> Append cn atSeq (log_fence l) (lifecycle_event (suspend_lifecycle ref)) l = (Inr r, fst_log h')"
    proof (intro exI conjI)
      show "log_records (fst_log h4) = log_records (fst_log h)" "log_fence (fst_log h) < log_fence (fst_log h4)" using ma rb mc r4 by simp_all
      show "Append cn atSeq (log_fence (fst_log h4)) (lifecycle_event (suspend_lifecycle ref)) (fst_log h4) = (Inr r, fst_log h')"
        using v(6,7) mc r4 ops by (cases "h_log h4") (auto simp: appendLifecycleAt_def AsStore_def set_log_def fst_log_def fst_ops_def h_log_def split: prod.splits)
    qed
  qed
qed

lemma forkSource_origin:
  assumes ops: "pl_ops p = fst_ops (AsStore cn)" and run: "forkSource p uid atSeq h = (res, h')"
  shows "quiet_calls h h' \<and> (\<forall>ref held. res = Inr (ref, held) \<longrightarrow> fork_origin p cn uid atSeq ref h h')"
proof -
  obtain a h1 where a: "admit p h = (a, h1)" by fastforce
  note h1 = admit_runtime [OF a]
  have l1: "fst_log h1 = fst_log h" using h1 by (simp add: fst_log_def)
  obtain b s where b: "beginCheckpoint uid (h_set h1) = (b, s)" by fastforce
  have q1: "quiet_calls h h1" using h1 by (auto intro: quiet_calls_one)
  have l: "fst_log (x\<lparr>h_set := y\<rparr>) = fst_log x" for x :: "(log \<times> 'c) host" and y by (simp add: fst_log_def h_log_def)
  show ?thesis
  proof (cases a)
    case (Inl e)
    then show ?thesis using run a q1 by (auto simp: forkSource_def)
  next
    case (Inr desc)
    note ok = admit_ok [OF a [unfolded Inr]]
    show ?thesis
    proof (cases "cap_resumability (desc_capabilities desc) = ResumabilityRequiresMemorySnapshot")
      case False
      then have "res = Inr (handle_ref uid, False)" "h' = h1" using run a Inr by (simp_all add: forkSource_def)
      then show ?thesis using q1 ok False h1 l1 by (simp add: fork_origin_def)
    next
      case True
      have ck: "quiet_calls h h2 \<and> (\<forall>ref. c = Inr ref \<longrightarrow> fork_origin p cn uid atSeq ref h h2)"
        if f: "fork_checkpoint p uid atSeq desc ks (h1\<lparr>h_set := s\<rparr>) = (c, h2)" for ks c h2
        using fork_checkpoint_origin [OF ops f] quiet_calls_trans [OF q1, of h2] h1 l1 ok True
        unfolding fork_origin_def quiet_calls_def by (auto simp: l)
      show ?thesis using run a b Inr True q1 ck unfolding forkSource_def
        by (auto simp: quiet_calls_def split: sum.splits if_splits prod.splits)
    qed
  qed
qed

lemma fork_read_calls:
  assumes ops: "pl_ops p = fst_ops (AsStore cn)" and run: "fork_read p uid children atSeq h = (res, h')"
    and kids: "\<forall>c \<in> set children. \<exists>cops. fc_ops c = snd_ops cops"
  shows "\<exists>pre ref us stops h1. h_runtime h1 = h_runtime h @ pre \<and> \<not> list_ex clones_or_stops pre
     \<and> h_runtime h' = h_runtime h1 @ map (RtFork ref) us @ map RtStop stops \<and> fst_log h' = fst_log h1
     \<and> (us \<noteq> [] \<or> res = None \<longrightarrow> fork_origin p cn uid atSeq ref h h1) \<and> (\<exists>rest. map fc_uid children = us @ rest)
     \<and> (case res of
          None \<Rightarrow> us = map fc_uid children \<and> stops = []
        | Some _ \<Rightarrow> stops = us \<or> us \<noteq> [] \<and> stops = butlast us \<and> (\<exists>t. pl_fork p t ref (last us) \<noteq> None))"
proof -
  have refused: ?thesis if "h_runtime h1 = h_runtime h @ pre" "\<not> list_ex clones_or_stops pre" "h' = h1" "res = Some e" for h1 pre e
    using that by (intro exI [of _ pre] exI [of _ "handle_ref uid"] exI [of _ "[]"] exI [of _ h1]) auto
  obtain src h1 where s: "forkSource p uid atSeq h = (src, h1)" by fastforce
  note origin = forkSource_origin [OF ops s]
  obtain pre where pre: "h_runtime h1 = h_runtime h @ pre" "\<not> list_ex clones_or_stops pre" using origin by (auto simp: quiet_calls_def)
  show ?thesis
  proof (cases "CheckWritable (pl_ops p) (h_log h) = None \<and> children_writable children (h_log h) = None")
    case False
    then have "res \<noteq> None" "h' = h" using run by (auto simp: fork_read_def split: option.splits) metis+
    then obtain e where "res = Some e" "h' = h" by blast
    then show ?thesis using refused [of h "[]"] by simp
  next
    case w: True
    show ?thesis
    proof (cases src)
      case (Inl e)
      then have "h' = h1" "res = Some e" using run w s by (simp_all add: fork_read_def)
      then show ?thesis by (rule refused [OF pre])
    next
      case (Inr rh)
      obtain ref held where rh: "rh = (ref, held)" by fastforce
      obtain fe created h2 where f: "fork_children p ref atSeq children [] h1 = ((fe, created), h2)" by (metis surj_pair)
      from fork_children_calls [OF f kids] obtain us where us: "h_runtime h2 = h_runtime h1 @ map (RtFork ref) us"
        "\<exists>rest. map fc_uid children = us @ rest" "fst_log h2 = fst_log h1" and
        fe: "case fe of None \<Rightarrow> us = map fc_uid children | Some _ \<Rightarrow> created = [] @ us \<or> us \<noteq> [] \<and> created = [] @ butlast us
          \<and> (\<exists>t. pl_fork p t ref (last us) \<noteq> None)" unfolding fst_log_def by blast
      obtain rest where rest: "map fc_uid children = us @ rest" using us(2) by blast
      show ?thesis
      proof (intro exI conjI)
        show "map fc_uid children = us @ rest" by (rule rest)
        show "h_runtime h1 = h_runtime h @ pre" "\<not> list_ex clones_or_stops pre" by (rule pre)+
        show "us \<noteq> [] \<or> res = None \<longrightarrow> fork_origin p cn uid atSeq ref h h1" using origin Inr rh by simp
        show "h_runtime h' = h_runtime h1 @ map (RtFork ref) us @ map RtStop (if fe = None then [] else created)" "fst_log h' = fst_log h1"
          using run w s Inr rh f us by (auto simp: fork_read_def stop_all_runtime fst_log_def split: option.splits)
        have "res = fe" using run w s Inr rh f by (auto simp: fork_read_def split: option.splits)
        then show "case res of None \<Rightarrow> us = map fc_uid children \<and> (if fe = None then [] else created) = []
            | Some _ \<Rightarrow> (if fe = None then [] else created) = us \<or> us \<noteq> [] \<and> (if fe = None then [] else created) = butlast us
                \<and> (\<exists>t. pl_fork p t ref (last us) \<noteq> None)" using fe by (auto split: option.splits)
      qed
    qed
  qed
qed

text \<open>
  (C18) A fork is all or nothing, and its children come from what the parent's chain records.  \<^verbatim>\<open>Placer.Fork\<close>
  clones for the children in order from one source.  When it succeeds every child was cloned and none stopped;
  when it fails every clone that was made is stopped again, in order, and nothing else is.  Which source it is
  depends on what the harness describes itself as when the fork begins, and only a placeable harness has one: for a
  harness that does not require a memory snapshot the session's handle, with the parent untouched; for one that does,
  the fork is at the parent's head, exactly one snapshot is taken, and SUSPEND with that snapshot,
  under a new fence, is the next record of the parent's chain, whether or not the clones succeed.  (The parent's
  journal is the in-memory one; what stores the children's journals use is not restricted, except that
  writing a child's journal leaves the parent's alone.)
\<close>

theorem fork_all_or_nothing:
  assumes "pl_ops p = fst_ops (AsStore cn)" and "Placer_Fork p uid children atSeq h = (res, h')"
    and "\<forall>c \<in> set children. \<exists>cops. fc_ops c = snd_ops cops"
  shows "\<exists>pre ref us stops h1. h_runtime h1 = h_runtime h @ pre \<and> \<not> list_ex clones_or_stops pre
     \<and> h_runtime h' = h_runtime h1 @ map (RtFork ref) us @ map RtStop stops \<and> fst_log h' = fst_log h1
     \<and> (us \<noteq> [] \<or> res = None \<longrightarrow> fork_origin p cn uid atSeq ref h h1) \<and> (\<exists>rest. map fc_uid children = us @ rest)
     \<and> (case res of
          None \<Rightarrow> us = map fc_uid children \<and> stops = []
        | Some _ \<Rightarrow> stops = us \<or> us \<noteq> [] \<and> stops = butlast us \<and> (\<exists>t. pl_fork p t ref (last us) \<noteq> None))"
proof -
  obtain e g where g: "acquire uid guardRead (h_guard h) = (e, g)" by fastforce
  have l: "fst_log (x\<lparr>h_guard := y\<rparr>) = fst_log x" for x :: "(log \<times> 'c) host" and y by (simp add: fst_log_def h_log_def)
  have o1: "fork_origin p cn uid atSeq ref (h\<lparr>h_guard := g\<rparr>) h1 = fork_origin p cn uid atSeq ref h h1" for ref h1
    by (simp add: fork_origin_def l cong: sum.case_cong)
  show ?thesis
  proof (cases e)
    case (Some x)
    then have "res = Some x" "h_runtime h' = h_runtime h" using assms(2) g by (auto simp: Placer_Fork_def guarded_def)
    then show ?thesis by (intro exI [of _ "[]"] exI [of _ "handle_ref uid"] exI [of _ h']) auto
  next
    case None
    then obtain h2 where r: "fork_read p uid children atSeq (h\<lparr>h_guard := g\<rparr>) = (res, h2)"
        and h': "h_runtime h' = h_runtime h2" "fst_log h' = fst_log h2"
      using assms(2) g by (auto simp: Placer_Fork_def guarded_def l split: prod.splits)
    show ?thesis using fork_read_calls [OF assms(1) r assms(3)] by (simp add: h' o1)
  qed
qed

text \<open>
  A fork of a session whose memory is its state, where the second clone fails.  The parent's journal
  and the children's are in-memory journals side by side.
\<close>

definition memory_descriptor :: descriptor where
  "memory_descriptor = sample_descriptor\<lparr>desc_capabilities :=
     (desc_capabilities sample_descriptor)\<lparr>cap_resumability := ResumabilityRequiresMemorySnapshot\<rparr>\<rparr>"

definition pair_controller :: "(log \<times> log) controller" where
  "pair_controller = \<lparr>c_ops = fst_ops (AsStore short_canon), c_model = (\<lambda>t req. Inl (ErrNew ''down'')),
     c_stream = None, c_onRecord = True, c_onDelta = False, c_startConfig = [], c_startResumeFromSeq = 0,
     c_tool = None, c_fence = 1, c_sessionUID = ''s1'', c_harnessName = [], c_hashModelInput = mr_model,
     c_newID = (\<lambda>t. ''id'' @ format_nat t), c_ctxErr = (\<lambda>t. None), c_canon = short_canon,
     c_legacyPayload = (\<lambda>u s b. Inr b)\<rparr>"

definition failing_fork :: "(log \<times> log) placer" where
  "failing_fork = \<lparr>pl_describe = (\<lambda>t. Inr memory_descriptor),
     pl_capabilities = \<lparr>rc_memorySnapshot = True, rc_coWFork = True, rc_attest = False, rc_gpuState = False\<rparr>,
     pl_create = (\<lambda>t uid. (sample_incarnation, None)), pl_snapshot = (\<lambda>t uid. Inr sample_snapshot),
     pl_restore = (\<lambda>t ref. Inr sample_incarnation),
     pl_fork = (\<lambda>t ref uid. if uid = ''c2'' then Some (ErrNew ''full'') else None), pl_describesLive = True,
     pl_dial = (\<lambda>t inc. Inr sample_harness), pl_close = (\<lambda>t. None), pl_controller = pair_controller, pl_descriptorID = [],
     pl_ctxErr = (\<lambda>t. None), pl_dctxErr = (\<lambda>t. False), pl_cause = (\<lambda>t. None),
     pl_claimed = (\<lambda>t. False), pl_waits = (\<lambda>t. None)\<rparr>"

definition sample_child :: "string \<Rightarrow> (log \<times> log) fork_child" where
  "sample_child uid = \<lparr>fc_uid = uid, fc_ops = snd_ops (AsStore short_canon)\<rparr>"

definition pair_host :: "(log \<times> log) host" where
  "pair_host = \<lparr>h_world = \<lparr>w_log = (New, New), w_liveModelCalls = 0, w_liveToolCalls = 0, w_tick = 0, w_observed = [], w_external = []\<rparr>,
     h_guard = [], h_set = empty_set True, h_runtime = []\<rparr>"

theorem fork_all_or_nothing_witness:
  "\<exists>res h' pre ref us stops (h1 :: (log \<times> log) host).
     Placer_Fork failing_fork ''s1'' (map sample_child [''c1'', ''c2'', ''c3'']) 0 pair_host = (res, h')
     \<and> h_runtime h1 = h_runtime pair_host @ pre \<and> \<not> list_ex clones_or_stops pre
     \<and> h_runtime h' = h_runtime h1 @ map (RtFork ref) us @ map RtStop stops \<and> fst_log h' = fst_log h1
     \<and> map fc_uid (map sample_child [''c1'', ''c2'', ''c3'']) = us @ drop (length us) (map fc_uid (map sample_child [''c1'', ''c2'', ''c3'']))"
proof -
  let ?run = "Placer_Fork failing_fork ''s1'' (map sample_child [''c1'', ''c2'', ''c3'']) 0 pair_host"
  obtain res h' where run: "?run = (res, h')" by (metis surj_pair)
  have ops: "pl_ops failing_fork = fst_ops (AsStore short_canon)"
    by (simp add: failing_fork_def pl_ops_def pair_controller_def)
  have kids: "\<forall>c \<in> set (map sample_child [''c1'', ''c2'', ''c3'']). \<exists>cops. fc_ops c = snd_ops cops"
    by (auto simp: sample_child_def)
  from fork_all_or_nothing [OF ops run kids] obtain pre ref us stops rest and h1 :: "(log \<times> log) host" where
    f: "h_runtime h1 = h_runtime pair_host @ pre" "\<not> list_ex clones_or_stops pre"
       "h_runtime h' = h_runtime h1 @ map (RtFork ref) us @ map RtStop stops" "fst_log h' = fst_log h1"
       "map fc_uid (map sample_child [''c1'', ''c2'', ''c3'']) = us @ rest" by blast
  have "map fc_uid (map sample_child [''c1'', ''c2'', ''c3'']) = us @ drop (length us) (map fc_uid (map sample_child [''c1'', ''c2'', ''c3'']))"
    by (simp only: f(5) append_eq_conv_conj) simp
  then show ?thesis using run f(1-4)
    by (intro exI [of _ res] exI [of _ h'] exI [of _ pre] exI [of _ ref] exI [of _ us] exI [of _ stops] exI [of _ h1] conjI)
qed

section \<open>Resume\<close>

text \<open>The snapshot of the last SUSPEND record of the session itself, or its handle when it has none.\<close>

definition latest_own :: "string \<Rightarrow> log_record list \<Rightarrow> snapshot_ref \<Rightarrow> bool" where
  "latest_own uid recs ref \<longleftrightarrow>
     (let own = (\<lambda>r. case is_suspend (r_event r) of None \<Rightarrow> False | Some s \<Rightarrow> sr_local s = uid) in
      ref = handle_ref uid \<and> \<not> list_ex own recs
      \<or> sr_local ref = uid \<and> (\<exists>pre r post. recs = pre @ r # post \<and> is_suspend (r_event r) = Some ref \<and> \<not> list_ex own post))"

lemma own_suspend_latest:
  "latest_own uid recs (case own_suspend uid (rev recs) of Some ref \<Rightarrow> ref | None \<Rightarrow> handle_ref uid)"
proof -
  define own where "own = (\<lambda>r :: log_record. case is_suspend (r_event r) of None \<Rightarrow> False | Some s \<Rightarrow> sr_local s = uid)"
  have none: "own_suspend uid rs = None \<longleftrightarrow> \<not> list_ex own rs" for rs
    by (induction rs) (auto simp: own_def split: option.splits)
  have some: "\<exists>pre r post. rs = pre @ r # post \<and> is_suspend (r_event r) = Some ref \<and> sr_local ref = uid \<and> \<not> list_ex own pre"
    if "own_suspend uid rs = Some ref" for rs ref
    using that
  proof (induction rs)
    case (Cons r rs)
    show ?case
    proof (cases "own r")
      case True
      then show ?thesis using Cons.prems by (intro exI [of _ "[]"]) (auto simp: own_def split: option.splits)
    next
      case False
      then have "own_suspend uid rs = Some ref" using Cons.prems by (auto simp: own_def split: option.splits if_splits)
      then obtain pre r' post where "rs = pre @ r' # post" "is_suspend (r_event r') = Some ref" "sr_local ref = uid" "\<not> list_ex own pre"
        using Cons.IH by blast
      then show ?thesis using False by (intro exI [of _ "r # pre"] exI [of _ r'] exI [of _ post]) simp
    qed
  qed simp
  show ?thesis
  proof (cases "own_suspend uid (rev recs)")
    case None
    then have "\<not> list_ex own recs" using none [of "rev recs"] by (simp add: list_ex_iff)
    then show ?thesis using None by (simp add: latest_own_def own_def [symmetric] Let_def)
  next
    case (Some ref)
    then obtain pre r post where p: "rev recs = pre @ r # post" "is_suspend (r_event r) = Some ref" "sr_local ref = uid" "\<not> list_ex own pre"
      using some by blast
    then have "recs = rev post @ r # rev pre" by (metis append_Cons append_assoc append_Nil rev.simps(2) rev_append rev_rev_ident)
    moreover have "\<not> list_ex own (rev pre)" using p(4) by (simp add: list_ex_iff)
    ultimately have "\<exists>pre r post. recs = pre @ r # post \<and> is_suspend (r_event r) = Some ref \<and> \<not> list_ex own post" using p(2) by blast
    then show ?thesis using Some p(3) by (simp add: latest_own_def own_def [symmetric] Let_def)
  qed
qed

lemma resumeApproval_none: "resumeApproval p uid st cfg h = (None, h') \<Longrightarrow> h' = h
     \<and> (case st of None \<Rightarrow> True | Some s \<Rightarrow> as_receipt s \<noteq> None \<or> \<not> as_inherited s \<and> as_decision s \<noteq> None)"
  by (auto simp: resumeApproval_def split: option.splits if_splits prod.splits sum.splits)

lemma resumeFence_calls: "resumeFence p uid ex h = (res, h') \<Longrightarrow> h_runtime h' = h_runtime h"
  by (auto simp: resumeFence_def marked_def mint_checked_def set_log_def split: if_splits prod.splits option.splits sum.splits)

lemma resumeApproval_calls: "resumeApproval p uid st cfg h = (res, h') \<Longrightarrow> h_runtime h' = h_runtime h"
  by (auto simp: resumeApproval_def observe_if_def split: option.splits if_splits prod.splits sum.splits dest!: resumeFence_calls)

text \<open>No gate of the session is open: none, an executed one, or one of its own that has been decided.\<close>

definition no_pending_gate :: "approval_state option \<Rightarrow> bool" where
  "no_pending_gate st \<longleftrightarrow> (case st of None \<Rightarrow> True | Some s \<Rightarrow> as_receipt s \<noteq> None \<or> \<not> as_inherited s \<and> as_decision s \<noteq> None)"

lemma resume_placed_calls:
  assumes ops: "pl_ops p = AsStore cn" and run: "resume_placed p uid cfg h = (res, h')"
  shows "res \<noteq> None \<and> (h_runtime h' = h_runtime h \<or> h_runtime h' = h_runtime h @ [RtDescribe])
     \<or> (\<exists>st ref calls. h_runtime h' = h_runtime h @ RtDescribe # RtRestore ref # calls
          \<and> InspectApproval (AsStore cn) 0 (h_log h) = Inr st \<and> no_pending_gate st
          \<and> latest_own uid (Read 1 (h_log h)) ref \<and> uid \<notin> set (sess_checkpoints (h_set h)))"
proof (cases "InspectApproval (AsStore cn) 0 (h_log h)")
  case (Inl e)
  then show ?thesis using run ops by (auto simp: resume_placed_def CheckWritable_def AsStore_def)
next
  case (Inr st)
  have ok: "CheckWritable (AsStore cn) l = None" for l by (simp add: CheckWritable_def AsStore_def)
  obtain r h1 where r: "resumeApproval p uid st cfg h = (r, h1)" by fastforce
  show ?thesis
  proof (cases r)
    case (Some e)
    then show ?thesis using run Inr r resumeApproval_calls [OF r] unfolding resume_placed_def ops ok by auto
  next
    case None
    then have h1: "h1 = h" and gate: "no_pending_gate st" using resumeApproval_none r unfolding no_pending_gate_def by blast+
    obtain a h2 where a: "admit p h = (a, h2)" by fastforce
    note h2 = admit_runtime [OF a]
    define ref where "ref = (case own_suspend uid (rev (Read 1 (h_log h))) of Some ref \<Rightarrow> ref | None \<Rightarrow> handle_ref uid)"
    have last: "lastSuspendRef (AsStore cn) uid (h_log h2) = Inr ref" using h2
      by (simp add: lastSuspendRef_def ref_def AsStore_def)
    obtain f h3 where f: "(if rf_expectedLastSeq cfg = None then (Inr 0, h2) else resumeFence p uid (rf_expectedLastSeq cfg) h2) = (f, h3)"
      by fastforce
    have h3: "h_runtime h3 = h_runtime h2" using f resumeFence_calls by (auto split: if_splits)
    obtain t h4 where c: "rt_call (RtRestore ref) h3 = (t, h4)" by fastforce
    note h4 = rt_call_runtime [OF c]
    have w: "\<exists>calls. h_runtime h' = h_runtime h @ RtDescribe # RtRestore ref # calls"
      if "with_harness p uid i Some (resume_connected p uid cfg) h4 = (q, h')" for i q
      using with_harness_extends [OF that] trace.keeps_resume_connected h2 h3 h4 by (fastforce simp: extends_def)
    have own: "latest_own uid (Read 1 (h_log h)) ref" unfolding ref_def by (rule own_suspend_latest)
    show ?thesis
    proof (cases "uid \<in> set (sess_checkpoints (h_set h)) \<or> isl a \<or> isl f")
      case True
      then show ?thesis using run Inr r None h1 a h2 last f h3 unfolding resume_placed_def ops ok refuseDuringCheckpoint_def
        by (auto split: sum.splits if_splits)
    next
      case False
      then have "\<exists>calls. h_runtime h' = h_runtime h @ RtDescribe # RtRestore ref # calls"
        using run Inr r None h1 a h2 last f c h3 h4 w unfolding resume_placed_def ops ok refuseDuringCheckpoint_def
        by (auto split: sum.splits if_splits)
      then show ?thesis using gate own False Inr by blast
    qed
  qed
qed

text \<open>
  (C19) Recovery restores the session's own latest state, and only when nothing waits for a decision.
  \<^verbatim>\<open>Placer.Resume\<close> asks the runtime to restore the snapshot of the last SUSPEND record that belongs to this
  session, skipping those inherited from the parent of a fork, or the session's own handle if there is none;
  it does so only when no gate is pending and no fork is checkpointing the session.  Otherwise it
  returns an error with at most the backend's description asked of the runtime.
\<close>

theorem resume_restores_own_state:
  assumes "pl_ops p = AsStore cn" and "Placer_Resume p uid cfg h = (res, h')"
  shows "res \<noteq> None \<and> (h_runtime h' = h_runtime h \<or> h_runtime h' = h_runtime h @ [RtDescribe])
     \<or> (\<exists>st ref calls. h_runtime h' = h_runtime h @ RtDescribe # RtRestore ref # calls
          \<and> InspectApproval (AsStore cn) 0 (h_log h) = Inr st \<and> no_pending_gate st
          \<and> latest_own uid (Read 1 (h_log h)) ref \<and> uid \<notin> set (sess_checkpoints (h_set h)))"
proof -
  obtain e g where g: "acquire uid guardOperation (h_guard h) = (e, g)" by fastforce
  have l: "h_log (x\<lparr>h_guard := y\<rparr>) = h_log x" for x :: "log host" and y by (simp add: h_log_def)
  show ?thesis
  proof (cases e)
    case None
    then obtain h2 where r: "resume_placed p uid cfg (h\<lparr>h_guard := g\<rparr>) = (res, h2)" and h': "h_runtime h' = h_runtime h2"
      using assms(2) g by (auto simp: Placer_Resume_def guarded_def split: prod.splits)
    show ?thesis using resume_placed_calls [OF assms(1) r] by (simp add: h' l)
  qed (use assms(2) g in \<open>auto simp: Placer_Resume_def guarded_def\<close>)
qed

theorem resume_restores_own_state_witness:
  "\<exists>res h'. Placer_Resume (sample_placer sample_harness memory_descriptor) ''s1''
         \<lparr>rf_harness = ''h'', rf_onRecord = True, rf_onDelta = False, rf_expectedLastSeq = None\<rparr> (sample_host sample_world) = (res, h')
     \<and> (res \<noteq> None \<and> (h_runtime h' = h_runtime (sample_host sample_world) \<or> h_runtime h' = h_runtime (sample_host sample_world) @ [RtDescribe])
        \<or> (\<exists>st ref calls. h_runtime h' = h_runtime (sample_host sample_world) @ RtDescribe # RtRestore ref # calls
          \<and> InspectApproval (AsStore short_canon) 0 (h_log (sample_host sample_world)) = Inr st \<and> no_pending_gate st
          \<and> latest_own ''s1'' (Read 1 (h_log (sample_host sample_world))) ref
          \<and> ''s1'' \<notin> set (sess_checkpoints (h_set (sample_host sample_world)))))"
proof -
  let ?cfg = "\<lparr>rf_harness = ''h'', rf_onRecord = True, rf_onDelta = False, rf_expectedLastSeq = None\<rparr>"
  obtain res h' where run: "Placer_Resume (sample_placer sample_harness memory_descriptor) ''s1'' ?cfg (sample_host sample_world) = (res, h')"
    by fastforce
  have "pl_ops (sample_placer sample_harness memory_descriptor) = AsStore short_canon"
    by (simp add: sample_placer_def pl_ops_def sample_controller_def)
  from resume_restores_own_state [OF this run] run show ?thesis by blast
qed

end
