(* ===== verification/Registry_Props.thy ===== *)
theory Registry_Props
  imports Registry
begin

text \<open>
  The registries of one process, as they are built and extended while operations run: which Placers
  share a session guard and a session set, and what a name means over time.
\<close>

section \<open>Building registries\<close>

record catalog =
  cg_registries :: "registry list"
  cg_heap :: placer_heap

text \<open>The operations of Placers change what guards and sets hold, never which set is shared.\<close>

inductive catalog_step :: "catalog \<Rightarrow> catalog \<Rightarrow> bool" where
  new: "new_placer (cg_heap s) = (p, h) \<Longrightarrow> catalog_step s (s\<lparr>cg_heap := h\<rparr>)"
| create: "NewRegistry dflt placers names (cg_heap s) = (Inr r, h) \<Longrightarrow>
     \<forall>(n, p) \<in> set placers. case p of None \<Rightarrow> True | Some a \<Rightarrow> a < ph_placers (cg_heap s) \<Longrightarrow> distinct (map fst placers) \<Longrightarrow>
     catalog_step s \<lparr>cg_registries = cg_registries s @ [r], cg_heap = h\<rparr>"
| add: "i < length (cg_registries s) \<Longrightarrow> case p of None \<Rightarrow> True | Some a \<Rightarrow> a < ph_placers (cg_heap s) \<Longrightarrow>
     Add n p (cg_registries s ! i) (cg_heap s) = (res, r, h) \<Longrightarrow>
     catalog_step s \<lparr>cg_registries = (cg_registries s)[i := r], cg_heap = h\<rparr>"
| unavailable: "i < length (cg_registries s) \<Longrightarrow> MarkUnavailable n cause (cg_registries s ! i) = (res, r) \<Longrightarrow>
     catalog_step s (s\<lparr>cg_registries := (cg_registries s)[i := r]\<rparr>)"
| works: "\<forall>k. sess_shared (sets k) = sess_shared (ph_sets (cg_heap s) k) \<Longrightarrow>
     catalog_step s (s\<lparr>cg_heap := (cg_heap s)\<lparr>ph_guards := guards, ph_sets := sets\<rparr>\<rparr>)"

definition empty_catalog :: catalog where
  "empty_catalog = \<lparr>cg_registries = [], cg_heap = \<lparr>ph_guard = (\<lambda>_. 0), ph_sessions = (\<lambda>_. 0), ph_guards = (\<lambda>_. []),
     ph_sets = (\<lambda>_. empty_set False), ph_next = 0, ph_placers = 0\<rparr>\<rparr>"

section \<open>The invariant\<close>

text \<open>Every Placer uses objects that exist, and a shared set is that of one registry, with its guard.\<close>

definition registry_ok :: "placer_heap \<Rightarrow> registry \<Rightarrow> bool" where
  "registry_ok h r \<longleftrightarrow> rg_guard r = rg_sessions r \<and> rg_sessions r < ph_next h \<and> sess_shared (ph_sets h (rg_sessions r))
     \<and> (\<forall>(n, p) \<in> set (rg_byName r). p < ph_placers h \<and> ph_guard h p = rg_guard r \<and> ph_sessions h p = rg_sessions r)
     \<and> distinct (map fst (rg_byName r)) \<and> distinct (map fst (rg_unavailable r))
     \<and> set (map fst (rg_byName r)) \<inter> set (map fst (rg_unavailable r)) = {}
     \<and> rg_default r \<in> set (map fst (rg_byName r)) \<and> [] \<notin> set (map fst (rg_byName r))"

definition heap_ok :: "placer_heap \<Rightarrow> bool" where
  "heap_ok h \<longleftrightarrow> (\<forall>p < ph_placers h. ph_sessions h p < ph_next h \<and> ph_guard h p = ph_sessions h p)"

definition catalog_ok :: "catalog \<Rightarrow> bool" where
  "catalog_ok s \<longleftrightarrow> heap_ok (cg_heap s) \<and> (\<forall>r \<in> set (cg_registries s). registry_ok (cg_heap s) r)
     \<and> distinct (map rg_sessions (cg_registries s))"

lemma check_joinable_none:
  "check_joinable h ps = None \<longleftrightarrow> (\<forall>(n, p) \<in> set ps. \<not> sess_shared (ph_sets h (ph_sessions h p)) \<and> \<not> in_progress h p)"
  by (induction h ps rule: check_joinable.induct) auto

lemma check_named_none: "check_named ps = None \<longleftrightarrow> (\<forall>(n, p) \<in> set ps. n \<noteq> [] \<and> p \<noteq> None)"
  by (induction ps rule: check_named.induct) auto

lemma fold_join:
  "fold (join_registry g k) ps h = h\<lparr>ph_guard := (\<lambda>p. if p \<in> set ps then g else ph_guard h p),
     ph_sessions := (\<lambda>p. if p \<in> set ps then k else ph_sessions h p)\<rparr>"
  by (induction ps arbitrary: h) (auto simp: join_registry_def fun_eq_iff)

text \<open>A registry does not notice that Placers which do not share its set join another one.\<close>

lemma registry_ok_join:
  assumes "registry_ok h r" and "\<forall>p \<in> set ps. \<not> sess_shared (ph_sets h (ph_sessions h p))"
    and "k = ph_next h"
  shows "registry_ok (fold (join_registry k k) ps
     (h\<lparr>ph_guards := G, ph_sets := (ph_sets h)(k := empty_set True), ph_next := Suc k\<rparr>)) r"
  using assms unfolding registry_ok_def fold_join by fastforce

lemma registry_ok_join1:
  assumes "registry_ok h r" and "\<not> sess_shared (ph_sets h (ph_sessions h p))"
  shows "registry_ok (join_registry g k p h) r"
  using assms unfolding registry_ok_def join_registry_def by fastforce

lemma NewRegistry_ok:
  assumes "NewRegistry d placers names h = (Inr r, h')" and "distinct (map fst placers)"
    and "\<forall>(n, p) \<in> set placers. case p of None \<Rightarrow> True | Some a \<Rightarrow> a < ph_placers h" and "heap_ok h"
  shows "registry_ok h' r \<and> heap_ok h' \<and> rg_sessions r = ph_next h
     \<and> (\<exists>ps. (\<forall>p \<in> set ps. \<not> sess_shared (ph_sets h (ph_sessions h p)))
          \<and> h' = fold (join_registry (ph_next h) (ph_next h)) ps (h\<lparr>ph_guards := (ph_guards h)(ph_next h := []),
               ph_sets := (ph_sets h)(ph_next h := empty_set True), ph_next := Suc (ph_next h)\<rparr>))"
proof -
  let ?named = "map (\<lambda>(n, p). (n, the p)) placers"
  have c: "check_named placers = None" "map_of placers d \<noteq> None" "check_joinable h ?named = None"
      "h' = fold (join_registry (ph_next h) (ph_next h)) (map snd ?named) (h\<lparr>ph_guards := (ph_guards h)(ph_next h := []),
               ph_sets := (ph_sets h)(ph_next h := empty_set True), ph_next := Suc (ph_next h)\<rparr>)"
      "r = \<lparr>rg_byName = ?named, rg_unavailable = [], rg_static = map fst ?named, rg_reserved = names,
                rg_default = d, rg_guard = ph_next h, rg_sessions = ph_next h\<rparr>"
    using assms(1) by (auto simp: NewRegistry_def Let_def split: if_splits option.splits)
  have fst: "map fst ?named = map fst placers" by (simp add: case_prod_unfold comp_def)
  have some: "\<forall>(n, p) \<in> set placers. n \<noteq> [] \<and> p \<noteq> None" using c(1) by (simp add: check_named_none)
  have lt: "p < ph_placers h" if "(n, p) \<in> set ?named" for n p using that assms(3) some by (fastforce split: option.splits)
  have d: "d \<in> set (map fst placers)" using c(2) by (metis domIff dom_map_of_conv_image_fst set_map)
  have join: "\<forall>(n, p) \<in> set ?named. p < ph_placers h \<and> p \<in> set (map snd ?named)" using lt by force
  have "registry_ok h' r" unfolding registry_ok_def c(4,5) fold_join registry.simps fst
  proof (intro conjI)
    show "[] \<notin> set (map fst placers)" using some by fastforce
  qed (use join d assms(2) in \<open>auto simp: empty_set_def\<close>)
  moreover have "heap_ok h'" using assms(4) unfolding heap_ok_def c(4) fold_join by (auto intro: less_SucI)
  moreover have "\<forall>p \<in> set (map snd ?named). \<not> sess_shared (ph_sets h (ph_sessions h p))"
    using c(3) by (auto simp: check_joinable_none)
  moreover have "rg_sessions r = ph_next h" using c(5) by simp
  ultimately show ?thesis using c(4) by blast
qed

lemma For_Inr:
  "For r m = Inr q \<longleftrightarrow> map_of (rg_unavailable r) (if m = [] then rg_default r else m) = None
     \<and> map_of (rg_byName r) (if m = [] then rg_default r else m) = Some q"
  by (simp add: For_def Let_def split: option.split)

lemma name_free_none:
  "name_free r n = None \<Longrightarrow> n \<notin> set (map fst (rg_byName r)) \<and> n \<notin> set (map fst (rg_unavailable r))"
  by (auto simp: name_free_def Has_def map_of_eq_None_iff split: if_splits)

lemma map_of_named: "map_of xs m = Some q \<Longrightarrow> m \<in> set (map fst xs)"
  by (force dest: map_of_SomeD)

lemma Add_ok:
  assumes "Add n p r h = (res, r', h')" and "registry_ok h r" and "heap_ok h" and "case p of None \<Rightarrow> True | Some a \<Rightarrow> a < ph_placers h"
  shows "registry_ok h' r' \<and> heap_ok h' \<and> rg_sessions r' = rg_sessions r \<and> (\<forall>r2. registry_ok h r2 \<longrightarrow> registry_ok h' r2)
     \<and> (res \<noteq> None \<longrightarrow> r' = r \<and> h' = h) \<and> (\<forall>m q. For r m = Inr q \<longrightarrow> For r' m = Inr q)"
proof (cases "r' = r \<and> h' = h")
  case True
  then show ?thesis using assms(2,3) by simp
next
  case False
  then obtain a where a: "p = Some a" "n \<noteq> []" "name_free r n = None" "res = None" "r' = r\<lparr>rg_byName := (n, a) # rg_byName r\<rparr>"
      and h': "ph_sessions h a = rg_sessions r \<and> h' = h
        \<or> \<not> sess_shared (ph_sets h (ph_sessions h a)) \<and> h' = join_registry (rg_guard r) (rg_sessions r) a h"
    using assms(1) by (auto simp: Add_def Let_def split: option.splits if_splits)
  have lt: "a < ph_placers h" using assms(4) a by simp
  have fresh: "n \<notin> set (map fst (rg_byName r))" "n \<notin> set (map fst (rg_unavailable r))"
    using name_free_none [OF a(3)] by blast+
  have keep: "registry_ok h' r2" if "registry_ok h r2" for r2 using that h' registry_ok_join1 by blast
  have "ph_guard h' a = rg_guard r \<and> ph_sessions h' a = rg_sessions r \<and> ph_placers h' = ph_placers h"
    using h' assms(2,3) lt unfolding registry_ok_def heap_ok_def join_registry_def by auto
  then have ok: "registry_ok h' r'" using keep [OF assms(2)] a fresh lt unfolding registry_ok_def by auto
  have "heap_ok h'" using assms(2,3) h' unfolding heap_ok_def registry_ok_def join_registry_def by auto
  moreover have "For r' m = Inr q" if "For r m = Inr q" for m q
    using that fresh map_of_named [of "rg_byName r"] unfolding For_Inr a(5) by (auto split: if_splits)
  ultimately show ?thesis using ok keep a by simp
qed

lemma MarkUnavailable_ok:
  assumes "MarkUnavailable n c r = (res, r')" and "registry_ok h r"
  shows "registry_ok h r' \<and> rg_sessions r' = rg_sessions r \<and> (res \<noteq> None \<longrightarrow> r' = r) \<and> (\<forall>m q. For r m = Inr q \<longrightarrow> For r' m = Inr q)"
proof (cases "r' = r")
  case True
  then show ?thesis using assms(2) by simp
next
  case False
  then obtain e where e: "name_free r n = None" "res = None" "r' = r\<lparr>rg_unavailable := (n, e) # rg_unavailable r\<rparr>" "n \<noteq> []"
    using assms(1) by (auto simp: MarkUnavailable_def split: option.splits if_splits)
  have fresh: "n \<notin> set (map fst (rg_byName r))" "n \<notin> set (map fst (rg_unavailable r))"
    using name_free_none [OF e(1)] by blast+
  have "registry_ok h r'" using assms(2) e fresh unfolding registry_ok_def by auto
  moreover have "For r' m = Inr q" if "For r m = Inr q" for m q
    using that fresh map_of_named [of "rg_byName r"] unfolding For_Inr e(3) by (auto split: if_splits)
  ultimately show ?thesis using e by simp
qed

lemma catalog_ok_step:
  assumes "catalog_step s s'" and "catalog_ok s"
  shows "catalog_ok s'"
  using assms(1)
proof (cases rule: catalog_step.cases)
  case (new p h)
  have "registry_ok h r" if "registry_ok (cg_heap s) r" for r
    using that new unfolding registry_ok_def new_placer_def Let_def by fastforce
  moreover have "heap_ok h" using assms(2) new unfolding catalog_ok_def heap_ok_def new_placer_def Let_def by (auto simp: less_Suc_eq)
  ultimately show ?thesis using assms(2) new by (simp add: catalog_ok_def)
next
  case (create d placers names r h)
  from NewRegistry_ok [OF create(2,4,3)] assms(2) have ok: "registry_ok h r" "heap_ok h" "rg_sessions r = ph_next (cg_heap s)"
    and old: "\<And>r2. registry_ok (cg_heap s) r2 \<Longrightarrow> registry_ok h r2"
    unfolding catalog_ok_def using registry_ok_join by blast+
  have "rg_sessions r \<notin> rg_sessions ` set (cg_registries s)"
    using assms(2) ok(3) unfolding catalog_ok_def registry_ok_def by fastforce
  then show ?thesis using assms(2) create ok old by (auto simp: catalog_ok_def)
next
  case (add i p n res r h)
  let ?rs = "cg_registries s"
  have i: "?rs ! i \<in> set ?rs" using add by simp
  have a: "registry_ok h r" "heap_ok h" "rg_sessions r = rg_sessions (?rs ! i)"
    "\<And>r2. registry_ok (cg_heap s) r2 \<Longrightarrow> registry_ok h r2"
    using Add_ok [OF add(4)] add assms(2) i unfolding catalog_ok_def by blast+
  have "map rg_sessions (?rs[i := r]) = map rg_sessions ?rs" using a(3) add by (simp add: map_update list_update_same_conv)
  moreover have "\<forall>x \<in> set (?rs[i := r]). registry_ok h x"
    using a assms(2) set_update_subset_insert [of ?rs i r] unfolding catalog_ok_def by blast
  ultimately show ?thesis using assms(2) add a by (simp add: catalog_ok_def)
next
  case (unavailable i n c res r)
  let ?rs = "cg_registries s"
  have i: "?rs ! i \<in> set ?rs" using unavailable by simp
  have a: "registry_ok (cg_heap s) r" "rg_sessions r = rg_sessions (?rs ! i)"
    using MarkUnavailable_ok [OF unavailable(3)] assms(2) i unfolding catalog_ok_def by blast+
  have "map rg_sessions (?rs[i := r]) = map rg_sessions ?rs" using a(2) unavailable by (simp add: map_update list_update_same_conv)
  moreover have "\<forall>x \<in> set (?rs[i := r]). registry_ok (cg_heap s) x"
    using a assms(2) set_update_subset_insert [of ?rs i r] unfolding catalog_ok_def by blast
  ultimately show ?thesis using assms(2) unavailable by (simp add: catalog_ok_def)
next
  case (works sets guards)
  have "registry_ok ((cg_heap s)\<lparr>ph_guards := guards, ph_sets := sets\<rparr>) r = registry_ok (cg_heap s) r" for r
    using works(2) by (simp add: registry_ok_def)
  then show ?thesis using assms(2) works(1) by (simp add: catalog_ok_def heap_ok_def)
qed

lemma catalog_ok_empty: "catalog_ok empty_catalog"
  by (simp add: empty_catalog_def catalog_ok_def heap_ok_def)

lemma catalog_ok_reach: "catalog_step\<^sup>*\<^sup>* empty_catalog s \<Longrightarrow> catalog_ok s"
  by (induction rule: rtranclp_induct) (blast intro: catalog_ok_empty catalog_ok_step)+

text \<open>
  Sharing.  However registries are created and extended while operations run, all Placers of one
  registry use that registry's session guard and session set, and no Placer belongs to two registries:
  two operations on a session through any two harnesses of a registry meet at the same guard.
\<close>

theorem registry_placers_share:
  assumes "catalog_step\<^sup>*\<^sup>* empty_catalog s" and "i < length (cg_registries s)" and "j < length (cg_registries s)"
    and "(n, p) \<in> set (rg_byName (cg_registries s ! i))" and "(m, q) \<in> set (rg_byName (cg_registries s ! j))"
  shows "if i = j then ph_guard (cg_heap s) p = ph_guard (cg_heap s) q \<and> ph_sessions (cg_heap s) p = ph_sessions (cg_heap s) q
     else p \<noteq> q \<and> ph_guard (cg_heap s) p \<noteq> ph_guard (cg_heap s) q \<and> ph_sessions (cg_heap s) p \<noteq> ph_sessions (cg_heap s) q"
proof -
  have ok: "catalog_ok s" by (rule catalog_ok_reach [OF assms(1)])
  have r: "rg_guard r = rg_sessions r" "(x, a) \<in> set (rg_byName r) \<longrightarrow> ph_guard (cg_heap s) a = rg_guard r \<and> ph_sessions (cg_heap s) a = rg_sessions r"
    if "r \<in> set (cg_registries s)" for r x a using ok that unfolding catalog_ok_def registry_ok_def by blast+
  have d: "rg_sessions (cg_registries s ! i) \<noteq> rg_sessions (cg_registries s ! j)" if "i \<noteq> j"
    using ok that assms(2,3) unfolding catalog_ok_def by (metis distinct_conv_nth length_map nth_map)
  show ?thesis using r [of "cg_registries s ! i"] r [of "cg_registries s ! j"] d assms(2-5) by auto metis+
qed

text \<open>
  A name that resolves keeps its meaning.  Once \<^verbatim>\<open>Registry.For\<close> answers a Placer for a name (or for the default),
  no later \<^verbatim>\<open>Add\<close> or \<^verbatim>\<open>MarkUnavailable\<close> on any registry changes the answer, and a call that is refused
  leaves the registry and the Placer untouched.
\<close>

theorem registered_names_are_stable:
  assumes "catalog_step\<^sup>*\<^sup>* empty_catalog s" and "catalog_step\<^sup>*\<^sup>* s s'" and "i < length (cg_registries s)"
    and "For (cg_registries s ! i) n = Inr p"
  shows "i < length (cg_registries s') \<and> For (cg_registries s' ! i) n = Inr p"
  using assms(2)
proof (induction rule: rtranclp_induct)
  case (step y z)
  have ok: "catalog_ok y" using catalog_ok_reach assms(1) step(1) by (meson rtranclp_trans)
  have reg: "registry_ok (cg_heap y) (cg_registries y ! j)" if "j < length (cg_registries y)" for j
    using ok that by (simp add: catalog_ok_def)
  from step(2) show ?case
  proof (cases rule: catalog_step.cases)
    case (add j q m res r h)
    then show ?thesis using step.IH Add_ok [OF add(4) reg _ add(3)] ok by (auto simp: nth_list_update catalog_ok_def)
  next
    case (unavailable j m c res r)
    then show ?thesis using step.IH MarkUnavailable_ok [OF unavailable(3) reg] by (auto simp: nth_list_update)
  qed (use step.IH in \<open>auto simp: nth_append\<close>)
qed (use assms in auto)

text \<open>Two Placers, one given to a registry and one added to it later.\<close>

definition two_placers :: catalog where
  "two_placers = empty_catalog\<lparr>cg_heap := snd (new_placer (snd (new_placer (cg_heap empty_catalog))))\<rparr>"

definition one_registry :: catalog where
  "one_registry = (case NewRegistry ''a'' [(''a'', Some 0)] [] (cg_heap two_placers) of
     (Inr r, h) \<Rightarrow> \<lparr>cg_registries = [r], cg_heap = h\<rparr> | (Inl _, _) \<Rightarrow> two_placers)"

definition two_names :: catalog where
  "two_names = (case Add ''b'' (Some 1) (cg_registries one_registry ! 0) (cg_heap one_registry) of
     (_, r, h) \<Rightarrow> \<lparr>cg_registries = [r], cg_heap = h\<rparr>)"

lemma sample_catalog:
  "map (map fst \<circ> rg_byName) (cg_registries one_registry) = [[''a'']]" "map rg_byName (cg_registries two_names) = [[(''b'', 1), (''a'', 0)]]"
  "isl (fst (NewRegistry ''a'' [(''a'', Some 0)] [] (cg_heap two_placers))) = False"
  "For (cg_registries one_registry ! 0) ''a'' = Inr 0" "ph_placers (cg_heap one_registry) = 2" "ph_placers (cg_heap two_placers) = 2"
  by code_simp+

lemma one_registry_reached: "catalog_step\<^sup>*\<^sup>* empty_catalog one_registry"
proof -
  let ?h = "cg_heap empty_catalog"
  have 1: "catalog_step empty_catalog (empty_catalog\<lparr>cg_heap := snd (new_placer ?h)\<rparr>)"
    by (rule catalog_step.new [of _ "fst (new_placer ?h)"]) simp
  have 2: "catalog_step (empty_catalog\<lparr>cg_heap := snd (new_placer ?h)\<rparr>) two_placers"
    using catalog_step.new [of "empty_catalog\<lparr>cg_heap := snd (new_placer ?h)\<rparr>" "fst (new_placer (snd (new_placer ?h)))"
        "snd (new_placer (snd (new_placer ?h)))"] by (simp add: two_placers_def)
  obtain r h where n: "NewRegistry ''a'' [(''a'', Some 0)] [] (cg_heap two_placers) = (Inr r, h)"
    using sample_catalog(3) by (cases "NewRegistry ''a'' [(''a'', Some 0)] [] (cg_heap two_placers)") (metis fst_conv isl_def sumE)
  have "cg_registries two_placers = []" by (simp add: two_placers_def empty_catalog_def)
  then have 3: "catalog_step two_placers one_registry"
    using catalog_step.create [OF n] n sample_catalog(6) by (simp add: one_registry_def)
  show ?thesis using 1 2 3 by (meson converse_rtranclp_into_rtranclp rtranclp.rtrancl_refl)
qed

lemma two_names_step: "catalog_step one_registry two_names"
proof -
  obtain res r h where a: "Add ''b'' (Some 1) (cg_registries one_registry ! 0) (cg_heap one_registry) = (res, r, h)"
    by (metis surj_pair)
  have l: "length (cg_registries one_registry) = 1" using sample_catalog(1) by (metis length_map length_Cons list.size(3) One_nat_def)
  then have "(cg_registries one_registry)[0 := r] = [r]" by (cases "cg_registries one_registry") auto
  then show ?thesis using catalog_step.add [OF _ _ a] l a sample_catalog(5) by (simp add: two_names_def)
qed

lemma two_names_reached: "catalog_step\<^sup>*\<^sup>* empty_catalog two_names"
  using one_registry_reached two_names_step by simp

theorem registry_placers_share_witness:
  "ph_guard (cg_heap two_names) 1 = ph_guard (cg_heap two_names) 0 \<and> ph_sessions (cg_heap two_names) 1 = ph_sessions (cg_heap two_names) 0"
proof -
  have l: "length (cg_registries two_names) = 1" using sample_catalog(2) by (metis length_map length_Cons list.size(3) One_nat_def)
  then have r: "rg_byName (cg_registries two_names ! 0) = [(''b'', 1), (''a'', 0)]"
    using sample_catalog(2) by (metis length_map less_one nth_Cons_0 nth_map)
  show ?thesis using registry_placers_share [OF two_names_reached, of 0 0 "''b''" 1 "''a''" 0] l r by simp
qed

theorem registered_names_are_stable_witness:
  "0 < length (cg_registries two_names) \<and> For (cg_registries two_names ! 0) ''a'' = Inr 0"
proof -
  have "0 < length (cg_registries one_registry)" using sample_catalog(1) by auto
  then show ?thesis
    using registered_names_are_stable [OF one_registry_reached, of two_names 0 "''a''" 0] two_names_step sample_catalog(4) by blast
qed

end
