(* ===== verification/Placement_Race.thy ===== *)
theory Placement_Race
  imports Session_Guard
begin

text \<open>
  The operations of one host on one session, interleaved.  A thread is a running \<^verbatim>\<open>Exec\<close>, \<^verbatim>\<open>Resume\<close>,
  \<^verbatim>\<open>Suspend\<close>, \<^verbatim>\<open>Approve\<close>, stateful \<^verbatim>\<open>Fork\<close> or deletion, at one of the points of its code where it touches
  what the threads share: the guard, the session set and the journal.  Each step is one of the atomic
  operations of \<open>Session_Guard\<close> or of the log, in the order \<^verbatim>\<open>placement/placement.go\<close> and \<^verbatim>\<open>registry.go\<close> make
  them.  A turn may do with its connection what it likes between those points, fail at any of them,
  and append any event at any expected head under its fence.
\<close>

section \<open>Program counters\<close>

datatype pc =
    Idle
  | Locked                      \<comment> \<open>the operation guard is held, nothing else\<close>
  | EarlyMarked                 \<comment> \<open>\<open>resumeFence\<close> with a cursor, before the connection\<close>
  | RepairMarked int64          \<comment> \<open>\<open>resumeApproval\<close>: the head it captured\<close>
  | RepairFenced int64 int64    \<comment> \<open>fence and head; the mark is still held\<close>
  | RepairMinted int64 int64    \<comment> \<open>about to append under the fence\<close>
  | Opened nat                  \<comment> \<open>a registered connection, no fence\<close>
  | OpenedMarked nat            \<comment> \<open>\<open>resumeFence\<close> with a cursor, after the connection\<close>
  | OpenedFenced nat int64
  | Minting nat int64           \<comment> \<open>\<open>NewFence\<close> has returned\<close>
  | Minted nat int64            \<comment> \<open>\<open>fenceMinted\<close> has been called\<close>
  | Running nat int64           \<comment> \<open>\<open>checkSuperseded\<close> has passed: the controller runs\<close>
  | Closing nat                 \<comment> \<open>the turn is over, its connection still registered\<close>
  | ParkMarking nat int64       \<comment> \<open>\<open>handoffPark\<close>: connection and fence\<close>
  | ParkMarked nat int64 int64  \<comment> \<open>and the head the inspection found\<close>
  | ParkClosed int64 int64
  | ParkSnap int64 int64        \<comment> \<open>the compute is cold\<close>
  | SuspMarked
  | SuspSnap
  | SuspMinted int64
  | SuspAt int64 int64
  | ApproveAt int64
  | ApproveMinted int64 int64
  | Unmarking                   \<comment> \<open>done, the mark still held\<close>
  | Reading                     \<comment> \<open>\<open>Fork\<close>: shared admission\<close>
  | ForkAt int64                \<comment> \<open>the head was \<open>atSeq\<close>\<close>
  | ForkMarked int64 "nat list"
  | ForkFenced int64 "nat list"
  | ForkEnding int64 "nat list"
  | ForkSettled int64           \<comment> \<open>\<open>endHarnesses\<close> has returned\<close>
  | ForkMinted int64 int64
  | ForkChecked int64 int64
  | ForkSnap int64 int64        \<comment> \<open>the parent's compute is cold\<close>
  | ForkHeld                    \<comment> \<open>SUSPEND is recorded; cloning the children\<close>
  | Deleting

fun holds_read :: "pc \<Rightarrow> bool" where
  "holds_read Reading = True"
| "holds_read (ForkAt _) = True"
| "holds_read (ForkMarked _ _) = True"
| "holds_read (ForkFenced _ _) = True"
| "holds_read (ForkEnding _ _) = True"
| "holds_read (ForkSettled _) = True"
| "holds_read (ForkMinted _ _) = True"
| "holds_read (ForkChecked _ _) = True"
| "holds_read (ForkSnap _ _) = True"
| "holds_read ForkHeld = True"
| "holds_read _ = False"

definition holds_op :: "pc \<Rightarrow> bool" where
  "holds_op p \<longleftrightarrow> p \<noteq> Idle \<and> p \<noteq> Deleting \<and> \<not> holds_read p"

fun holds_mark :: "pc \<Rightarrow> bool" where
  "holds_mark Idle = False"
| "holds_mark Locked = False"
| "holds_mark (RepairMinted _ _) = False"
| "holds_mark (Opened _) = False"
| "holds_mark (Minting _ _) = False"
| "holds_mark (Minted _ _) = False"
| "holds_mark (Running _ _) = False"
| "holds_mark (Closing _) = False"
| "holds_mark Reading = False"
| "holds_mark (ForkAt _) = False"
| "holds_mark Deleting = False"
| "holds_mark _ = True"

fun conn_of :: "pc \<Rightarrow> nat option" where
  "conn_of (Opened k) = Some k"
| "conn_of (OpenedMarked k) = Some k"
| "conn_of (OpenedFenced k _) = Some k"
| "conn_of (Minting k _) = Some k"
| "conn_of (Minted k _) = Some k"
| "conn_of (Running k _) = Some k"
| "conn_of (Closing k) = Some k"
| "conn_of (ParkMarking k _) = Some k"
| "conn_of (ParkMarked k _ _) = Some k"
| "conn_of _ = None"

text \<open>A turn that has not called \<^verbatim>\<open>fenceMinted\<close> yet.\<close>

fun unminted :: "pc \<Rightarrow> bool" where
  "unminted (Opened _) = True"
| "unminted (OpenedMarked _) = True"
| "unminted (OpenedFenced _ _) = True"
| "unminted (Minting _ _) = True"
| "unminted _ = False"

text \<open>The fence a thread will append under without looking at its connection again, and any it holds.\<close>

fun writes :: "pc \<Rightarrow> int64 option" where
  "writes (RepairFenced f _) = Some f"
| "writes (RepairMinted f _) = Some f"
| "writes (Running _ f) = Some f"
| "writes (ParkMarking _ f) = Some f"
| "writes (ParkMarked _ f _) = Some f"
| "writes (ParkClosed f _) = Some f"
| "writes (ParkSnap f _) = Some f"
| "writes (SuspMinted f) = Some f"
| "writes (SuspAt f _) = Some f"
| "writes (ApproveMinted f _) = Some f"
| "writes _ = None"

fun turn_fence :: "pc \<Rightarrow> int64 option" where
  "turn_fence (OpenedFenced _ f) = Some f"
| "turn_fence (Minting _ f) = Some f"
| "turn_fence (Minted _ f) = Some f"
| "turn_fence (Running _ f) = Some f"
| "turn_fence (ParkMarking _ f) = Some f"
| "turn_fence (ParkMarked _ f _) = Some f"
| "turn_fence _ = None"

section \<open>Steps\<close>

record race =
  rc_guard :: sessionGuard
  rc_set :: session_set
  rc_log :: log
  rc_pc :: "nat \<Rightarrow> pc"

definition move :: "nat \<Rightarrow> pc \<Rightarrow> race \<Rightarrow> race" where
  "move i p s = s\<lparr>rc_pc := (rc_pc s)(i := p)\<rparr>"

definition with_guard :: "sessionGuard \<Rightarrow> race \<Rightarrow> race" where
  "with_guard g s = s\<lparr>rc_guard := g\<rparr>"

definition with_set :: "session_set \<Rightarrow> race \<Rightarrow> race" where
  "with_set t s = s\<lparr>rc_set := t\<rparr>"

definition with_log :: "log \<Rightarrow> race \<Rightarrow> race" where
  "with_log l s = s\<lparr>rc_log := l\<rparr>"

text \<open>
  \<open>uncursored\<close> admits the repair of a missing request by a \<^verbatim>\<open>Resume\<close> without a cursor, which mints its
  fence without the checkpoint mark.
\<close>

text \<open>
  What \<^verbatim>\<open>resumeApproval\<close> repairs: the inspection of the journal, as it was at some moment of the operation, found
  the session's own gated call without a request, a decision or a receipt, and captured the head \<open>h\<close>.
\<close>

definition repairable :: "log \<Rightarrow> int64 \<Rightarrow> bool" where
  "repairable l h \<longleftrightarrow> (\<exists>n scan st. scanApprovalRecords (take n (log_records l)) 0 = Inr scan \<and> selected_state scan = Some st
     \<and> as_receipt st = None \<and> \<not> as_inherited st \<and> as_decision st = None \<and> as_request st = None \<and> as_head st = h)"

text \<open>
  The steps, by the functions of \<^verbatim>\<open>placement.go\<close> and \<^verbatim>\<open>registry.go\<close> that make them: \<open>lock\<close>, \<open>unlock\<close> are
  \<^verbatim>\<open>trySessionLock\<close> and its release; \<open>mark\<close>, \<open>mint\<close> and \<open>unmark\<close> the fences of \<^verbatim>\<open>resumeFence\<close>, \<^verbatim>\<open>Suspend\<close>,
  \<^verbatim>\<open>handoffPark\<close>, \<^verbatim>\<open>Approve\<close> and \<^verbatim>\<open>forkSource\<close>; \<open>uncursored_repair\<close> is \<^verbatim>\<open>resumeApproval\<close> with a fence that is not
  minted under the checkpoint mark; \<open>opens\<close>, \<open>flag\<close>, \<open>check\<close>, \<open>close\<close> and \<open>park_close\<close> the life of a turn's connection;
  \<open>snapshot\<close> and \<open>read_head\<close> what an operation does between; the steps named \<open>read_\<close> and \<open>fork_\<close> are \<^verbatim>\<open>Fork\<close> and
  \<^verbatim>\<open>forkSource\<close>, statement by statement; those named \<open>delete\<close> the deletion.
\<close>

inductive step :: "bool \<Rightarrow> canon_env \<Rightarrow> string \<Rightarrow> race \<Rightarrow> race \<Rightarrow> bool"
  for uncursored :: bool and cn :: canon_env and uid :: string where
  lock: "rc_pc s i = Idle \<Longrightarrow> acquire uid guardOperation (rc_guard s) = (None, g) \<Longrightarrow>
     step uncursored cn uid s (move i Locked (with_guard g s))"
| unlock: "rc_pc s i = Locked \<Longrightarrow>
     step uncursored cn uid s (move i Idle (with_guard (release_guard uid guardOperation (rc_guard s)) s))"
| mark: "rc_pc s i = p \<Longrightarrow> (p, q) \<in> {(Locked, EarlyMarked), (Locked, SuspMarked)} \<or>
       (\<exists>h. p = Locked \<and> q = RepairMarked h \<and> repairable (rc_log s) h) \<or> (\<exists>h. p = Locked \<and> q = ApproveAt h) \<or>
       (\<exists>k. p = Opened k \<and> q = OpenedMarked k) \<or> (\<exists>k f. p = Running k f \<and> q = ParkMarking k f) \<Longrightarrow>
     markCheckpoint uid (rc_set s) = (None, t) \<Longrightarrow> step uncursored cn uid s (move i q (with_set t s))"
| unmark: "(rc_pc s i, q) \<in> {(EarlyMarked, Locked), (SuspMarked, Locked), (SuspSnap, Locked), (Unmarking, Locked)} \<or>
       (\<exists>h. rc_pc s i = RepairMarked h \<and> q = Locked) \<or> (\<exists>f h. rc_pc s i = RepairFenced f h \<and> q = RepairMinted f h) \<or>
       (\<exists>h. rc_pc s i = ApproveAt h \<and> q = Locked) \<or>
       (\<exists>k. rc_pc s i = OpenedMarked k \<and> q = Closing k) \<or> (\<exists>k f. rc_pc s i = OpenedFenced k f \<and> q = Minting k f) \<or>
       (\<exists>k f. rc_pc s i = ParkMarking k f \<and> q = Closing k) \<or>
       (\<exists>k f h. rc_pc s i = ParkMarked k f h \<and> q = Closing k) \<or> (\<exists>f h. rc_pc s i = ParkClosed f h \<and> q = Locked) \<Longrightarrow>
     step uncursored cn uid s (move i q (with_set (endCheckpoint uid (rc_set s)) s))"
| mint: "NewFence (rc_log s) = (f, l) \<Longrightarrow>
       (rc_pc s i = EarlyMarked \<and> q = Unmarking) \<or> (\<exists>h. rc_pc s i = RepairMarked h \<and> q = RepairFenced f h) \<or>
       (\<exists>k. rc_pc s i = OpenedMarked k \<and> q = OpenedFenced k f) \<or> (\<exists>k. rc_pc s i = Opened k \<and> q = Minting k f) \<or>
       (rc_pc s i = SuspSnap \<and> q = SuspMinted f) \<or> (\<exists>h. rc_pc s i = ApproveAt h \<and> q = ApproveMinted f h) \<or>
       (\<exists>a ks. rc_pc s i = ForkMarked a ks \<and> q = ForkFenced a ks) \<or> (\<exists>a. rc_pc s i = ForkSettled a \<and> q = ForkMinted a f) \<Longrightarrow>
     step uncursored cn uid s (move i q (with_log l s))"
| uncursored_repair: "uncursored \<Longrightarrow> rc_pc s i = Locked \<Longrightarrow> repairable (rc_log s) h \<Longrightarrow> NewFence (rc_log s) = (f, l) \<Longrightarrow>
     step uncursored cn uid s (move i (RepairMinted f h) (with_log l s))"
| opens: "rc_pc s i = Locked \<Longrightarrow> register_conn uid closed (rc_set s) = (Inr k, t) \<Longrightarrow>
     step uncursored cn uid s (move i (Opened k) (with_set t s))"
| flag: "rc_pc s i = Minting k f \<Longrightarrow>
     step uncursored cn uid s (move i (Minted k f) (with_set (fenceMinted k (rc_set s)) s))"
| check: "rc_pc s i = Minted k f \<Longrightarrow> \<not> lh_superseded (sess_conns (rc_set s) k) \<Longrightarrow>
     step uncursored cn uid s (move i (Running k f) s)"
| appends: "rc_pc s i = p \<Longrightarrow> Append cn ex f ev (rc_log s) = (res, l) \<Longrightarrow>
       (\<exists>k. p = Running k f \<and> q = p) \<or> (\<exists>h. p = RepairMinted f h \<and> ex = h \<and> q = Locked) \<or>
       (\<exists>h. p = ParkSnap f h \<and> ex = h \<and> q = Unmarking) \<or> (\<exists>h. p = SuspAt f h \<and> ex = h \<and> q = Unmarking) \<or>
       (\<exists>h. p = ApproveMinted f h \<and> ex = h \<and> q = Unmarking) \<or>
       (\<exists>a. p = ForkSnap a f \<and> ex = a \<and> q = ForkHeld) \<Longrightarrow>
     step uncursored cn uid s (move i q (with_log l s))"
| quit: "conn_of (rc_pc s i) = Some k \<Longrightarrow> \<not> holds_mark (rc_pc s i) \<Longrightarrow>
     step uncursored cn uid s (move i (Closing k) s)"
| close: "rc_pc s i = Closing k \<Longrightarrow>
     step uncursored cn uid s (move i Locked (with_set (snd (release_conn uid k closed (rc_set s))) s))"
| park_close: "rc_pc s i = ParkMarked k f h \<Longrightarrow> \<not> lh_superseded (sess_conns (rc_set s) k) \<Longrightarrow>
     step uncursored cn uid s (move i (ParkClosed f h) (with_set (snd (release_conn uid k closed (rc_set s))) s))"
| snapshot: "(\<exists>f h. rc_pc s i = ParkClosed f h \<and> q = ParkSnap f h) \<or> (rc_pc s i = SuspMarked \<and> q = SuspSnap) \<or>
       (\<exists>a f. rc_pc s i = ForkChecked a f \<and> q = ForkSnap a f) \<Longrightarrow> step uncursored cn uid s (move i q s)"
| read_head: "(rc_pc s i = Reading \<and> q = ForkAt (Head (rc_log s))) \<or>
       (\<exists>f. rc_pc s i = SuspMinted f \<and> q = SuspAt f (Head (rc_log s))) \<or>
       (\<exists>k f. rc_pc s i = ParkMarking k f \<and> q = ParkMarked k f (Head (rc_log s))) \<or>
       (\<exists>a ks. rc_pc s i = ForkFenced a ks \<and> a = Head (rc_log s) \<and> q = ForkEnding a ks) \<or>
       (\<exists>a f. rc_pc s i = ForkMinted a f \<and> a = Head (rc_log s) \<and> q = ForkChecked a f) \<Longrightarrow>
     step uncursored cn uid s (move i q s)"
| read_lock: "rc_pc s i = Idle \<Longrightarrow> acquire uid guardRead (rc_guard s) = (None, g) \<Longrightarrow>
     step uncursored cn uid s (move i Reading (with_guard g s))"
| read_unlock: "rc_pc s i = Reading \<or> rc_pc s i = ForkAt a \<Longrightarrow>
     step uncursored cn uid s (move i Idle (with_guard (release_guard uid guardRead (rc_guard s)) s))"
| fork_begin: "rc_pc s i = ForkAt a \<Longrightarrow> beginCheckpoint uid (rc_set s) = (Inr ks, t) \<Longrightarrow>
     step uncursored cn uid s (move i (ForkMarked a ks) (with_set t s))"
| fork_ends: "rc_pc s i = ForkEnding a ks \<Longrightarrow> k \<in> set ks \<Longrightarrow>
     step uncursored cn uid s (with_set (snd (end_conn k errSuperseded closed (rc_set s))) s)"
| fork_settles: "rc_pc s i = ForkEnding a ks \<Longrightarrow> list_all (\<lambda>k. lh_minted (sess_conns (rc_set s) k)) ks \<Longrightarrow>
     step uncursored cn uid s (move i (ForkSettled a) s)"
| fork_aborts: "holds_read (rc_pc s i) \<Longrightarrow> holds_mark (rc_pc s i) \<Longrightarrow>
     step uncursored cn uid s (move i Reading (with_set (endCheckpoint uid (rc_set s)) s))"
| delete_lock: "rc_pc s i = Idle \<Longrightarrow> acquire uid guardDelete (rc_guard s) = (None, g) \<Longrightarrow>
     step uncursored cn uid s (move i Deleting (with_guard g s))"
| deletes: "rc_pc s i = Deleting \<Longrightarrow> NewFence (rc_log s) = (f, l) \<Longrightarrow> Append cn (Head l) f ev l = (res, l') \<Longrightarrow>
     step uncursored cn uid s (with_log l' s)"
| delete_unlock: "rc_pc s i = Deleting \<Longrightarrow>
     step uncursored cn uid s (move i Idle (with_guard (release_guard uid guardDelete (rc_guard s)) s))"

inductive reach :: "bool \<Rightarrow> canon_env \<Rightarrow> string \<Rightarrow> race \<Rightarrow> race \<Rightarrow> bool"
  for uncursored :: bool and cn :: canon_env and uid :: string and s0 :: race where
  start: "reach uncursored cn uid s0 s0"
| steps: "reach uncursored cn uid s0 s \<Longrightarrow> step uncursored cn uid s s' \<Longrightarrow> reach uncursored cn uid s0 s'"

text \<open>Nobody works on the session yet.\<close>

definition quiet :: "string \<Rightarrow> race \<Rightarrow> bool" where
  "quiet uid s \<longleftrightarrow> guard_entry uid (rc_guard s) = zero_entry \<and> uid \<notin> set (sess_checkpoints (rc_set s))
     \<and> (\<forall>i. rc_pc s i = Idle)"

section \<open>The invariant\<close>

text \<open>The guard counts its holders: one operation, the readers, or one deletion alone.\<close>

definition guard_inv :: "string \<Rightarrow> race \<Rightarrow> bool" where
  "guard_inv uid s \<longleftrightarrow>
     (let e = guard_entry uid (rc_guard s) in
      ge_operation e = (\<exists>i. holds_op (rc_pc s i)) \<and> ge_deleting e = (\<exists>i. rc_pc s i = Deleting)
      \<and> finite {i. holds_read (rc_pc s i)} \<and> ge_readers e = int (card {i. holds_read (rc_pc s i)})
      \<and> (\<forall>i j. holds_op (rc_pc s i) \<longrightarrow> holds_op (rc_pc s j) \<longrightarrow> i = j)
      \<and> (\<forall>i j. rc_pc s i = Deleting \<longrightarrow> rc_pc s j \<noteq> Idle \<longrightarrow> i = j))"

lemma holds_op_none [simp]: "\<not> holds_op Idle" "\<not> holds_op Deleting"
  by (simp_all add: holds_op_def)

lemma pc_views [simp]:
  "rc_pc (move i p s) = (rc_pc s)(i := p)" "rc_guard (move i p s) = rc_guard s" "rc_set (move i p s) = rc_set s"
  "rc_log (move i p s) = rc_log s"
  "rc_pc (with_guard g s) = rc_pc s" "rc_guard (with_guard g s) = g" "rc_set (with_guard g s) = rc_set s" "rc_log (with_guard g s) = rc_log s"
  "rc_pc (with_set t s) = rc_pc s" "rc_guard (with_set t s) = rc_guard s" "rc_set (with_set t s) = t" "rc_log (with_set t s) = rc_log s"
  "rc_pc (with_log l s) = rc_pc s" "rc_guard (with_log l s) = rc_guard s" "rc_set (with_log l s) = rc_set s" "rc_log (with_log l s) = l"
  by (simp_all add: move_def with_guard_def with_set_def with_log_def)

text \<open>A step that changes neither the guard nor who holds it.\<close>

lemma guard_inv_same:
  assumes "guard_inv uid s" and "rc_guard s' = rc_guard s" and "rc_pc s' = (rc_pc s)(i := q)"
    and "holds_op q = holds_op (rc_pc s i)" and "holds_read q = holds_read (rc_pc s i)"
    and "rc_pc s i \<noteq> Deleting" and "q \<noteq> Deleting"
  shows "guard_inv uid s'"
proof -
  have op: "holds_op (rc_pc s' j) = holds_op (rc_pc s j)" and rd: "holds_read (rc_pc s' j) = holds_read (rc_pc s j)"
    and del: "(rc_pc s' j = Deleting) = (rc_pc s j = Deleting)" for j using assms by auto
  have idle: "(rc_pc s' j = Idle) = (rc_pc s j = Idle)" for j
    using op [of j] rd [of j] del [of j] by (auto simp: holds_op_def)
  show ?thesis using assms(1) unfolding guard_inv_def Let_def op rd del idle assms(2) .
qed

lemma guard_take_fields [simp]:
  "guard_take guardOperation e = e\<lparr>ge_operation := True\<rparr>" "guard_take guardRead e = e\<lparr>ge_readers := ge_readers e + 1\<rparr>"
  "guard_take guardDelete e = e\<lparr>ge_deleting := True\<rparr>"
  "guard_drop guardOperation e = e\<lparr>ge_operation := False\<rparr>" "guard_drop guardRead e = e\<lparr>ge_readers := ge_readers e - 1\<rparr>"
  "guard_drop guardDelete e = e\<lparr>ge_deleting := False\<rparr>"
  by (simp_all add: guard_take_def guard_drop_def)

lemma readers_insert:
  "finite {i. holds_read (pcs i)} \<Longrightarrow> \<not> holds_read (pcs i) \<Longrightarrow> holds_read q \<Longrightarrow>
     finite {j. holds_read ((pcs(i := q)) j)} \<and> int (card {j. holds_read ((pcs(i := q)) j)}) = int (card {j. holds_read (pcs j)}) + 1"
proof -
  assume a: "finite {i. holds_read (pcs i)}" "\<not> holds_read (pcs i)" "holds_read q"
  have "{j. holds_read ((pcs(i := q)) j)} = insert i {j. holds_read (pcs j)}" using a(3) by auto
  with a show ?thesis by simp
qed

lemma readers_remove:
  "finite {i. holds_read (pcs i)} \<Longrightarrow> holds_read (pcs i) \<Longrightarrow> \<not> holds_read q \<Longrightarrow>
     finite {j. holds_read ((pcs(i := q)) j)} \<and> int (card {j. holds_read ((pcs(i := q)) j)}) = int (card {j. holds_read (pcs j)}) - 1"
proof -
  assume a: "finite {i. holds_read (pcs i)}" "holds_read (pcs i)" "\<not> holds_read q"
  have "{j. holds_read ((pcs(i := q)) j)} = {j. holds_read (pcs j)} - {i}" using a(3) by auto
  moreover have "card {j. holds_read (pcs j)} > 0" using a by (auto simp: card_gt_0_iff)
  ultimately show ?thesis using a by simp
qed

lemma readers_same:
  "holds_read q = holds_read (pcs i) \<Longrightarrow> {j. holds_read ((pcs(i := q)) j)} = {j. holds_read (pcs j)}"
  by auto

lemma guard_inv_acquire:
  assumes inv: "guard_inv uid s" and "rc_pc s i = Idle" and a: "acquire uid kind (rc_guard s) = (None, g)"
    and q: "(kind, q) \<in> {(guardOperation, Locked), (guardRead, Reading), (guardDelete, Deleting)}"
  shows "guard_inv uid (move i q (with_guard g s))"
proof -
  note e = acquire_entry [OF a]
  have fin: "finite {i. holds_read (rc_pc s i)}" using inv by (simp add: guard_inv_def Let_def)
  have pos: "holds_read (rc_pc s j) \<Longrightarrow> card {i. holds_read (rc_pc s i)} > 0" for j using fin by (auto simp: card_gt_0_iff)
  from q consider (op) "kind = guardOperation" "q = Locked" | (rd) "kind = guardRead" "q = Reading" | (del) "kind = guardDelete" "q = Deleting"
    by auto
  then show ?thesis
  proof cases
    case op
    then show ?thesis using inv e assms(2) readers_same [of q "rc_pc s" i]
      by (auto simp: guard_inv_def Let_def guard_refuses_def holds_op_def split: if_splits)
  next
    case rd
    then show ?thesis using inv e assms(2) readers_insert [OF fin, of i q]
      by (auto simp: guard_inv_def Let_def guard_refuses_def holds_op_def split: if_splits)
  next
    case del
    have "rc_pc s j = Idle" for j
    proof (rule ccontr)
      assume "rc_pc s j \<noteq> Idle"
      then have "holds_op (rc_pc s j) \<or> rc_pc s j = Deleting \<or> holds_read (rc_pc s j)" by (auto simp: holds_op_def)
      with inv e del pos [of j] show False by (auto simp: guard_inv_def Let_def guard_refuses_def)
    qed
    then show ?thesis using inv e del by (auto simp: guard_inv_def Let_def guard_refuses_def holds_op_def)
  qed
qed

lemma guard_inv_release:
  assumes inv: "guard_inv uid s"
    and q: "kind = guardOperation \<and> rc_pc s i = Locked \<or> kind = guardRead \<and> holds_read (rc_pc s i) \<or> kind = guardDelete \<and> rc_pc s i = Deleting"
  shows "guard_inv uid (move i Idle (with_guard (release_guard uid kind (rc_guard s)) s))"
proof -
  have fin: "finite {i. holds_read (rc_pc s i)}" using inv by (simp add: guard_inv_def Let_def)
  from q consider (op) "kind = guardOperation" "rc_pc s i = Locked" | (rd) "kind = guardRead" "holds_read (rc_pc s i)"
    | (del) "kind = guardDelete" "rc_pc s i = Deleting" by blast
  then show ?thesis
  proof cases
    case op
    then have "holds_op (rc_pc s i)" by (simp add: holds_op_def)
    moreover have "rc_pc s j \<noteq> Deleting" for j using inv op unfolding guard_inv_def Let_def by (metis pc.simps)
    ultimately show ?thesis using op inv readers_same [of Idle "rc_pc s" i]
      by (auto simp: guard_inv_def Let_def)
  next
    case rd
    then have "\<not> holds_op (rc_pc s i)" "rc_pc s i \<noteq> Deleting" by (auto simp: holds_op_def)
    with rd inv readers_remove [OF fin, of i Idle] show ?thesis
      by (auto simp: guard_inv_def Let_def holds_op_def split: if_splits)
  next
    case del
    with inv readers_same [of Idle "rc_pc s" i] show ?thesis
      by (auto simp: guard_inv_def Let_def holds_op_def split: if_splits)
  qed
qed

lemma guard_inv_step:
  assumes "step b cn uid s s'" and "guard_inv uid s"
  shows "guard_inv uid s'"
  using assms
proof (cases rule: step.cases)
  case (lock i g)
  then show ?thesis using guard_inv_acquire [OF assms(2)] by auto
next
  case (read_lock i g)
  then show ?thesis using guard_inv_acquire [OF assms(2)] by auto
next
  case (delete_lock i g)
  then show ?thesis using guard_inv_acquire [OF assms(2)] by auto
next
  case (unlock i)
  then show ?thesis using guard_inv_release [OF assms(2)] by auto
next
  case (read_unlock i a)
  then show ?thesis using guard_inv_release [OF assms(2)] by auto
next
  case (delete_unlock i)
  then show ?thesis using guard_inv_release [OF assms(2)] by auto
next
  case (fork_ends i a ks k closed)
  then show ?thesis using assms(2) by (simp add: guard_inv_def)
next
  case (deletes i f l ev res l')
  then show ?thesis using assms(2) by (simp add: guard_inv_def)
next
  case (quit i k)
  then show ?thesis by (cases "rc_pc s i"; auto intro!: guard_inv_same [OF assms(2), of _ i] simp: holds_op_def)
next
  case (fork_aborts i)
  then show ?thesis by (cases "rc_pc s i"; auto intro!: guard_inv_same [OF assms(2), of _ i] simp: holds_op_def)
qed (auto intro!: guard_inv_same [OF assms(2)] simp: holds_op_def)

section \<open>What the operations do to the session set\<close>

definition superseded :: "session_set \<Rightarrow> nat \<Rightarrow> bool" where
  "superseded t k = lh_superseded (sess_conns t k)"

definition minted :: "session_set \<Rightarrow> nat \<Rightarrow> bool" where
  "minted t k = lh_minted (sess_conns t k)"

definition under_mark :: "string \<Rightarrow> session_set \<Rightarrow> bool" where
  "under_mark uid t \<longleftrightarrow> uid \<in> set (sess_checkpoints t)"

lemma set_conn_views [simp]:
  "sess_checkpoints (set_conn k f t) = sess_checkpoints t" "sess_live (set_conn k f t) = sess_live t"
  "sess_conns (set_conn k f t) j = (if j = k then f (sess_conns t k) else sess_conns t j)" "sess_next (set_conn k f t) = sess_next t"
  by (simp_all add: set_conn_def)

lemma fenceMinted_views:
  "superseded (fenceMinted k t) j = superseded t j" "minted (fenceMinted k t) j = (j = k \<or> minted t j)"
  "under_mark uid (fenceMinted k t) = under_mark uid t" "live_of uid (fenceMinted k t) = live_of uid t"
  by (auto simp: fenceMinted_def superseded_def minted_def under_mark_def live_of_def)

lemma end_conn_views:
  "superseded (snd (end_conn k c cl t)) j = superseded t j" "minted (snd (end_conn k c cl t)) j = minted t j"
  "under_mark uid (snd (end_conn k c cl t)) = under_mark uid t" "live_of uid (snd (end_conn k c cl t)) = live_of uid t"
  by (auto simp: end_conn_def superseded_def minted_def under_mark_def live_of_def split: option.split)

lemma release_conn_views:
  "superseded (snd (release_conn uid k cl t)) j = superseded t j"
  "minted (snd (release_conn uid k cl t)) j = (j = k \<or> minted t j)"
  "under_mark u (snd (release_conn uid k cl t)) = under_mark u t"
  "set (live_of uid (snd (release_conn uid k cl t))) = set (live_of uid t) - {k}"
  unfolding release_conn_def Let_def end_conn_views fenceMinted_views
  by (auto simp: superseded_def minted_def under_mark_def live_of_def delete_conv' update_conv' filter_empty_conv
      split: option.splits)

lemma register_conn_views:
  assumes "register_conn uid cl t = (Inr k, t')"
  shows "superseded t' j = (j \<noteq> k \<and> superseded t j)" "minted t' j = (j \<noteq> k \<and> minted t j)"
    "under_mark uid t' = under_mark uid t" "\<not> under_mark uid t" "set (live_of uid t') = insert k (set (live_of uid t))"
  using assms
  by (auto simp: register_conn_def Let_def superseded_def minted_def under_mark_def live_of_def update_conv' new_conn_def
      split: if_splits)

lemma markCheckpoint_views:
  assumes "markCheckpoint uid t = (None, t')"
  shows "superseded t' j = superseded t j" "minted t' j = minted t j" "under_mark uid t'" "\<not> under_mark uid t"
    "live_of uid t' = live_of uid t"
  using assms
  by (auto simp: markCheckpoint_def setCheckpointLocked_def superseded_def minted_def under_mark_def live_of_def split: if_splits)

lemma endCheckpoint_views:
  "superseded (endCheckpoint uid t) j = superseded t j" "minted (endCheckpoint uid t) j = minted t j"
  "\<not> under_mark uid (endCheckpoint uid t)" "live_of uid (endCheckpoint uid t) = live_of uid t"
  by (auto simp: endCheckpoint_def superseded_def minted_def under_mark_def live_of_def)

lemma claim_views:
  defines "claim ks \<equiv> fold (\<lambda>k. set_conn k (\<lambda>l. l\<lparr>lh_superseded := True\<rparr>)) ks"
  shows "superseded (claim ks t) j = (j \<in> set ks \<or> superseded t j)" "minted (claim ks t) j = minted t j"
    "sess_checkpoints (claim ks t) = sess_checkpoints t" "sess_live (claim ks t) = sess_live t"
  unfolding claim_def by (induction ks arbitrary: t) (auto simp: superseded_def minted_def)

lemma beginCheckpoint_views:
  assumes "beginCheckpoint uid t = (Inr ks, t')"
  shows "superseded t' j = (j \<in> set (live_of uid t) \<or> superseded t j)" "minted t' j = minted t j" "under_mark uid t'" "\<not> under_mark uid t"
    "live_of uid t' = live_of uid t" "ks = live_of uid t"
proof -
  obtain u where u: "markCheckpoint uid t = (None, u)" and ks: "ks = live_of uid u"
    and t': "t' = fold (\<lambda>k. set_conn k (\<lambda>l. l\<lparr>lh_superseded := True\<rparr>)) ks u"
    using assms by (auto simp: beginCheckpoint_def markCheckpoint_def split: prod.splits option.splits)
  note m = markCheckpoint_views [OF u]
  show "ks = live_of uid t" using ks m by simp
  then show "superseded t' j = (j \<in> set (live_of uid t) \<or> superseded t j)" "minted t' j = minted t j"
    "live_of uid t' = live_of uid t" "under_mark uid t'" "\<not> under_mark uid t"
    unfolding t' using m by (simp_all add: claim_views under_mark_def live_of_def)
qed

lemmas set_views = fenceMinted_views end_conn_views release_conn_views endCheckpoint_views

section \<open>Marks, connections and fences\<close>

definition mark_inv :: "string \<Rightarrow> race \<Rightarrow> bool" where
  "mark_inv uid s \<longleftrightarrow> under_mark uid (rc_set s) = (\<exists>i. holds_mark (rc_pc s i))
     \<and> (\<forall>i j. holds_mark (rc_pc s i) \<longrightarrow> holds_mark (rc_pc s j) \<longrightarrow> i = j)"

lemma mark_inv_same:
  assumes "mark_inv uid s" and "under_mark uid (rc_set s') = under_mark uid (rc_set s)" and "rc_pc s' = (rc_pc s)(i := q)"
    and "holds_mark q = holds_mark (rc_pc s i)"
  shows "mark_inv uid s'"
proof -
  have "holds_mark (rc_pc s' j) = holds_mark (rc_pc s j)" for j using assms by auto
  then show ?thesis using assms(1,2) by (simp add: mark_inv_def)
qed

lemma mark_inv_set:
  assumes "mark_inv uid s" and "\<not> under_mark uid (rc_set s)" and "under_mark uid (rc_set s')" and "rc_pc s' = (rc_pc s)(i := q)"
    and "holds_mark q"
  shows "mark_inv uid s'"
  using assms by (auto simp: mark_inv_def)

lemma mark_inv_lift:
  assumes "mark_inv uid s" and "holds_mark (rc_pc s i)" and "\<not> under_mark uid (rc_set s')" and "rc_pc s' = (rc_pc s)(i := q)"
    and "\<not> holds_mark q"
  shows "mark_inv uid s'"
  using assms by (auto simp: mark_inv_def)

lemma mark_inv_step:
  assumes "step b cn uid s s'" and "mark_inv uid s"
  shows "mark_inv uid s'"
  using assms
proof (cases rule: step.cases)
  case (mark i p q t)
  then have "holds_mark q" by auto
  with mark show ?thesis using mark_inv_set [OF assms(2), of s' i q] markCheckpoint_views [of uid "rc_set s" t] by auto
next
  case (unmark i q)
  then have "holds_mark (rc_pc s i)" "\<not> holds_mark q" by auto
  with unmark show ?thesis using mark_inv_lift [OF assms(2), of i s' q] by (simp add: set_views)
next
  case (fork_begin i a ks t)
  then show ?thesis using mark_inv_set [OF assms(2), of s' i] beginCheckpoint_views [of uid "rc_set s" ks t] by auto
next
  case (fork_aborts i)
  then show ?thesis using mark_inv_lift [OF assms(2), of i s' Reading] by (simp add: set_views)
next
  case (opens i closed k t)
  then show ?thesis using mark_inv_same [OF assms(2), of s' i] register_conn_views [of uid closed "rc_set s" k t] by auto
next
  case (fork_ends i a ks k closed)
  then show ?thesis using assms(2) by (simp add: mark_inv_def set_views)
next
  case (deletes i f l ev res l')
  then show ?thesis using assms(2) by (simp add: mark_inv_def)
qed (auto intro!: mark_inv_same [OF assms(2)] simp: set_views)

definition conn_inv :: "string \<Rightarrow> race \<Rightarrow> bool" where
  "conn_inv uid s \<longleftrightarrow> (\<forall>i k. conn_of (rc_pc s i) = Some k \<longrightarrow> k \<in> set (live_of uid (rc_set s))
     \<and> (unminted (rc_pc s i) \<longrightarrow> \<not> minted (rc_set s) k))"

text \<open>Only the holder of the operation guard has a connection.\<close>

lemma conn_holds_op: "conn_of p = Some k \<Longrightarrow> holds_op p"
  by (cases p) (simp_all add: holds_op_def)

lemma one_op: "guard_inv uid s \<Longrightarrow> holds_op (rc_pc s i) \<Longrightarrow> holds_op (rc_pc s j) \<Longrightarrow> i = j"
  unfolding guard_inv_def Let_def by blast

lemma one_conn:
  "guard_inv uid s \<Longrightarrow> holds_op (rc_pc s i) \<Longrightarrow> conn_of (rc_pc s j) = Some k \<Longrightarrow> j = i"
  using one_op conn_holds_op by blast

lemma one_mark: "mark_inv uid s \<Longrightarrow> holds_mark (rc_pc s i) \<Longrightarrow> holds_mark (rc_pc s j) \<Longrightarrow> j = i"
  unfolding mark_inv_def by blast

lemma conn_inv_same:
  assumes "conn_inv uid s" and "rc_pc s' = (rc_pc s)(i := q)" and "live_of uid (rc_set s') = live_of uid (rc_set s)"
    and "\<And>k. minted (rc_set s') k = minted (rc_set s) k"
    and "\<And>k. conn_of q = Some k \<Longrightarrow> conn_of (rc_pc s i) = Some k \<and> (unminted q \<longrightarrow> unminted (rc_pc s i))"
  shows "conn_inv uid s'"
  using assms unfolding conn_inv_def by (auto split: if_splits)

lemma conn_inv_release:
  assumes "conn_inv uid s" and "guard_inv uid s" and "conn_of (rc_pc s i) = Some k" and "conn_of q = None"
    and "rc_pc s' = (rc_pc s)(i := q)" and "rc_set s' = snd (release_conn uid k cl (rc_set s))"
  shows "conn_inv uid s'"
proof -
  have "conn_of (rc_pc s j) = None" if "j \<noteq> i" for j
    using one_conn [OF assms(2) conn_holds_op [OF assms(3)], of j] that by (cases "conn_of (rc_pc s j)") auto
  then have "conn_of (rc_pc s' j) = None" for j using assms(4,5) by simp
  then show ?thesis by (simp add: conn_inv_def)
qed

lemma conn_inv_step:
  assumes "step b cn uid s s'" and "conn_inv uid s" and "guard_inv uid s"
  shows "conn_inv uid s'"
  using assms(1)
proof (cases rule: step.cases)
  case (mark i p q t)
  then show ?thesis
    using markCheckpoint_views [of uid "rc_set s" t] by (intro conn_inv_same [OF assms(2), of s' i q]) auto
next
  case (unmark i q)
  then show ?thesis by (intro conn_inv_same [OF assms(2), of s' i q]) (auto simp: set_views)
next
  case (mint f l i q)
  then show ?thesis by (intro conn_inv_same [OF assms(2), of s' i q]) auto
next
  case (appends i p ex f ev res l q)
  then show ?thesis by (intro conn_inv_same [OF assms(2), of s' i q]) auto
next
  case (opens i closed k t)
  then have "conn_of (rc_pc s j) = None" for j
    using one_conn [OF assms(3), of i j] by (cases "conn_of (rc_pc s j)") (auto simp: holds_op_def)
  then show ?thesis using opens register_conn_views [of uid closed "rc_set s" k t] by (auto simp: conn_inv_def)
next
  case (flag i k f)
  then have "conn_of (rc_pc s j) = None" if "j \<noteq> i" for j
    using one_conn [OF assms(3), of i j] that by (cases "conn_of (rc_pc s j)") (auto simp: holds_op_def)
  moreover have "k \<in> set (live_of uid (rc_set s))" using assms(2) flag unfolding conn_inv_def by (metis conn_of.simps(4))
  ultimately show ?thesis using flag by (auto simp: conn_inv_def set_views split: if_splits)
next
  case (close i k closed)
  then show ?thesis by (intro conn_inv_release [OF assms(2,3), of i k Locked]) auto
next
  case (park_close i k f h closed)
  then show ?thesis by (intro conn_inv_release [OF assms(2,3), of i k "ParkClosed f h"]) auto
next
  case (quit i k)
  then show ?thesis by (intro conn_inv_same [OF assms(2), of s' i "Closing k"]) auto
next
  case (fork_begin i a ks t)
  then show ?thesis using beginCheckpoint_views [of uid "rc_set s" ks t] by (intro conn_inv_same [OF assms(2), of s' i]) auto
next
  case (fork_ends i a ks k closed)
  then show ?thesis using assms(2) by (simp add: conn_inv_def set_views)
next
  case (deletes i f l ev res l')
  then show ?thesis using assms(2) by (simp add: conn_inv_def)
next
  case (snapshot i q)
  then show ?thesis by (intro conn_inv_same [OF assms(2), of s' i q]) auto
next
  case (read_head i q)
  then show ?thesis by (intro conn_inv_same [OF assms(2), of s' i q]) auto
qed (auto intro!: conn_inv_same [OF assms(2)] simp: set_views)

section \<open>Fences\<close>

text \<open>Nobody holds a fence the log has not minted.\<close>

definition fence_inv :: "race \<Rightarrow> bool" where
  "fence_inv s \<longleftrightarrow> (\<forall>i f. writes (rc_pc s i) = Some f \<or> turn_fence (rc_pc s i) = Some f \<longrightarrow> f \<le> log_fence (rc_log s))"

lemma fence_inv_same:
  assumes "fence_inv s" and "rc_pc s' = (rc_pc s)(i := q)" and "log_fence (rc_log s) \<le> log_fence (rc_log s')"
    and "\<And>f. writes q = Some f \<or> turn_fence q = Some f \<Longrightarrow>
       (writes (rc_pc s i) = Some f \<or> turn_fence (rc_pc s i) = Some f) \<or> f \<le> log_fence (rc_log s')"
  shows "fence_inv s'"
  using assms unfolding fence_inv_def by (auto split: if_splits; meson order_trans)

lemma NewFence_views: "NewFence l = (f, l') \<Longrightarrow> f = log_fence l + 1 \<and> log_fence l' = f \<and> Head l' = Head l"
  by (auto simp: NewFence_def Head_def)

lemma Append_fence: "Append cn ex f ev l = (res, l') \<Longrightarrow> log_fence l' = log_fence l"
  by (auto simp: Append_def Let_def split: if_splits sum.splits)

lemma Append_fenced: "Append cn ex f ev l = (res, l') \<Longrightarrow> f < log_fence l \<Longrightarrow> l' = l"
  by (auto simp: Append_def Let_def split: if_splits sum.splits)

lemma fence_inv_step:
  assumes "step b cn uid s s'" and "fence_inv s"
  shows "fence_inv s'"
  using assms(1)
proof (cases rule: step.cases)
  case (mint f l i q)
  then show ?thesis using NewFence_views [of "rc_log s" f l] by (intro fence_inv_same [OF assms(2), of s' i q]) auto
next
  case (uncursored_repair i h f l)
  then show ?thesis using NewFence_views [of "rc_log s" f l] by (intro fence_inv_same [OF assms(2), of s' i]) auto
next
  case (appends i p ex f ev res l q)
  then show ?thesis using Append_fence [of cn ex f ev "rc_log s" res l] by (intro fence_inv_same [OF assms(2), of s' i q]) auto
next
  case (deletes i f l ev res l')
  then show ?thesis using NewFence_views [of "rc_log s" f l] Append_fence [of cn "Head l" f ev l res l'] assms(2)
    by (fastforce simp: fence_inv_def)
next
  case (fork_ends i a ks k closed)
  then show ?thesis using assms(2) by (simp add: fence_inv_def)
next
  case (mark i p q t)
  then show ?thesis by (intro fence_inv_same [OF assms(2), of s' i q]) auto
next
  case (unmark i q)
  then show ?thesis by (intro fence_inv_same [OF assms(2), of s' i q]) auto
next
  case (snapshot i q)
  then show ?thesis by (intro fence_inv_same [OF assms(2), of s' i q]) auto
next
  case (read_head i q)
  then show ?thesis by (intro fence_inv_same [OF assms(2), of s' i q]) auto
qed (auto intro!: fence_inv_same [OF assms(2)])

end
