(* ===== verification/Race_Checkpoint.thy ===== *)
theory Race_Checkpoint
  imports Placement_Race
begin

text \<open>
  What holds in every interleaving of \<open>Placement_Race\<close>: a stateful fork that holds the checkpoint mark has
  claimed every open connection, nobody else can write once it has fenced and settled, and whoever has
  made the session's compute cold knows the journal's head and fence.  Two runs at the end, of a \<^verbatim>\<open>Suspend\<close>
  and of a stateful \<^verbatim>\<open>Fork\<close> that have taken their snapshots, show that the claims are not vacuous.
\<close>

section \<open>Checkpoints\<close>

text \<open>How far a fork that holds the mark has come.\<close>

fun fork_conns :: "pc \<Rightarrow> nat list option" where
  "fork_conns (ForkMarked _ ks) = Some ks"
| "fork_conns (ForkFenced _ ks) = Some ks"
| "fork_conns (ForkEnding _ ks) = Some ks"
| "fork_conns _ = None"

fun fork_settled :: "pc \<Rightarrow> bool" where
  "fork_settled (ForkSettled _) = True"
| "fork_settled (ForkMinted _ _) = True"
| "fork_settled (ForkChecked _ _) = True"
| "fork_settled (ForkSnap _ _) = True"
| "fork_settled ForkHeld = True"
| "fork_settled _ = False"

definition fork_fenced :: "pc \<Rightarrow> bool" where
  "fork_fenced p \<longleftrightarrow> fork_settled p \<or> (\<exists>a ks. p = ForkFenced a ks \<or> p = ForkEnding a ks)"

definition forking :: "pc \<Rightarrow> bool" where
  "forking p \<longleftrightarrow> holds_read p \<and> holds_mark p"

text \<open>
  Every open connection is superseded, and known to the fork until it has settled; from its first
  fence on no writer holds a current fence; once settled, no turn can mint any more.
\<close>

definition fork_sees :: "race \<Rightarrow> pc \<Rightarrow> bool" where
  "fork_sees s p \<longleftrightarrow>
     (\<forall>j k. conn_of (rc_pc s j) = Some k \<longrightarrow> superseded (rc_set s) k \<and> (\<forall>ks. fork_conns p = Some ks \<longrightarrow> k \<in> set ks))
     \<and> (fork_fenced p \<longrightarrow> (\<forall>j f. writes (rc_pc s j) = Some f \<longrightarrow> f < log_fence (rc_log s)))
     \<and> (fork_settled p \<longrightarrow> (\<forall>j. \<not> unminted (rc_pc s j)))"

definition fork_inv :: "race \<Rightarrow> bool" where
  "fork_inv s \<longleftrightarrow> (\<forall>i. forking (rc_pc s i) \<longrightarrow> fork_sees s (rc_pc s i))"

text \<open>The fence of a turn that no checkpoint has claimed is the current one.\<close>

definition current_inv :: "race \<Rightarrow> bool" where
  "current_inv s \<longleftrightarrow> (\<forall>i k f. conn_of (rc_pc s i) = Some k \<longrightarrow> turn_fence (rc_pc s i) = Some f \<longrightarrow>
     \<not> superseded (rc_set s) k \<longrightarrow> f = log_fence (rc_log s))"

text \<open>What a thread that is about to make, or has made, its compute cold knows of the log.\<close>

fun knows :: "pc \<Rightarrow> log \<Rightarrow> bool" where
  "knows (ParkMarked _ _ h) l = (h = Head l)"
| "knows (ParkClosed f h) l = (h = Head l \<and> f = log_fence l)"
| "knows (ParkSnap f h) l = (h = Head l \<and> f = log_fence l)"
| "knows (SuspMinted f) l = (f = log_fence l)"
| "knows (SuspAt f h) l = (h = Head l \<and> f = log_fence l)"
| "knows (ForkMinted _ f) l = (f = log_fence l)"
| "knows (ForkChecked a f) l = (a = Head l \<and> f = log_fence l)"
| "knows (ForkSnap a f) l = (a = Head l \<and> f = log_fence l)"
| "knows _ l = True"

definition knows_inv :: "race \<Rightarrow> bool" where
  "knows_inv s \<longleftrightarrow> (\<forall>i. knows (rc_pc s i) (rc_log s))"

definition race_inv :: "string \<Rightarrow> race \<Rightarrow> bool" where
  "race_inv uid s \<longleftrightarrow> guard_inv uid s \<and> mark_inv uid s \<and> conn_inv uid s \<and> fence_inv s \<and> fork_inv s
     \<and> current_inv s \<and> knows_inv s"

lemma knows_marked: "knows p l \<or> holds_mark p"
  by (cases p) auto

lemma forking_mark: "forking p \<Longrightarrow> holds_mark p"
  by (simp add: forking_def)

lemma unclaimed: "race_inv uid s \<Longrightarrow> forking (rc_pc s i) \<Longrightarrow> conn_of (rc_pc s j) = Some k \<Longrightarrow> superseded (rc_set s) k"
  unfolding race_inv_def fork_inv_def fork_sees_def by blast

text \<open>While a fork holds the mark, the other threads take only these steps.\<close>

lemma fork_sees_mono:
  assumes "fork_sees s p" and "\<And>j k. conn_of (rc_pc s' j) = Some k \<Longrightarrow> conn_of (rc_pc s j) = Some k"
    and "\<And>k. superseded (rc_set s) k \<Longrightarrow> superseded (rc_set s') k"
    and "\<And>j f. writes (rc_pc s' j) = Some f \<Longrightarrow> writes (rc_pc s j) = Some f"
    and "log_fence (rc_log s) \<le> log_fence (rc_log s')"
    and "\<And>j. unminted (rc_pc s' j) \<Longrightarrow> unminted (rc_pc s j)"
  shows "fork_sees s' p"
proof -
  have "f < log_fence (rc_log s')" if "fork_fenced p" "writes (rc_pc s' j) = Some f" for j f
    using assms(1) that assms(4) [OF that(2)] assms(5) unfolding fork_sees_def by (meson less_le_trans)
  then show ?thesis using assms unfolding fork_sees_def by blast
qed

text \<open>A step of thread \<open>i\<close> that is not a step of the fork itself.\<close>

lemma fork_inv_other:
  assumes inv: "fork_inv s" and pcs: "rc_pc s' = (rc_pc s)(i := q)" and nf: "\<not> forking q"
    and mono: "\<And>j. forking (rc_pc s j) \<Longrightarrow> j \<noteq> i \<Longrightarrow>
       (\<forall>k. conn_of q = Some k \<longrightarrow> conn_of (rc_pc s i) = Some k) \<and> (\<forall>k. superseded (rc_set s) k \<longrightarrow> superseded (rc_set s') k)
       \<and> (\<forall>f. writes q = Some f \<longrightarrow> writes (rc_pc s i) = Some f) \<and> log_fence (rc_log s) \<le> log_fence (rc_log s')
       \<and> (unminted q \<longrightarrow> unminted (rc_pc s i))"
  shows "fork_inv s'"
  unfolding fork_inv_def
proof (intro allI impI)
  fix j assume f: "forking (rc_pc s' j)"
  then have j: "j \<noteq> i" "forking (rc_pc s j)" "rc_pc s' j = rc_pc s j" using pcs nf by (auto split: if_splits)
  from inv j have "fork_sees s (rc_pc s j)" by (simp add: fork_inv_def)
  then show "fork_sees s' (rc_pc s' j)" unfolding j(3)
    by (rule fork_sees_mono) (use mono [OF j(2,1)] pcs in \<open>auto split: if_splits\<close>)
qed

text \<open>A step of the fork: nobody else moves.\<close>

lemma fork_inv_own:
  assumes inv: "race_inv uid s" and pcs: "rc_pc s' = (rc_pc s)(i := q)" and m: "holds_mark (rc_pc s i) \<or> \<not> under_mark uid (rc_set s)"
    and own: "fork_sees s' q"
  shows "fork_inv s'"
  unfolding fork_inv_def
proof (intro allI impI)
  fix j assume f: "forking (rc_pc s' j)"
  have "j = i"
  proof (rule ccontr)
    assume "j \<noteq> i"
    then have "holds_mark (rc_pc s j)" using f pcs by (simp add: forking_def)
    with m \<open>j \<noteq> i\<close> inv show False using one_mark [of uid s i j] unfolding race_inv_def mark_inv_def by blast
  qed
  then show "fork_sees s' (rc_pc s' j)" using own pcs by simp
qed

lemma forking_views: "forking q \<Longrightarrow> conn_of q = None \<and> writes q = None \<and> \<not> unminted q"
  by (cases q) (auto simp: forking_def)

lemma fork_sees_own:
  assumes "fork_sees s p" and "rc_pc s' = (rc_pc s)(i := q)" and "rc_set s' = rc_set s" and "forking q"
    and "\<And>ks. fork_conns q = Some ks \<Longrightarrow> fork_conns p = Some ks"
    and "\<And>j f. fork_fenced q \<Longrightarrow> writes (rc_pc s j) = Some f \<Longrightarrow> f < log_fence (rc_log s')"
    and "fork_settled q \<Longrightarrow> \<forall>j. \<not> unminted (rc_pc s j)"
  shows "fork_sees s' q"
proof -
  note q = forking_views [OF assms(4)]
  have "conn_of (rc_pc s' j) = Some k \<Longrightarrow> conn_of (rc_pc s j) = Some k" "writes (rc_pc s' j) = Some f \<Longrightarrow> writes (rc_pc s j) = Some f"
    "unminted (rc_pc s' j) \<Longrightarrow> unminted (rc_pc s j)" for j k f
    using q assms(2) by (auto split: if_splits)
  then show ?thesis using assms(1,5,6,7) unfolding fork_sees_def assms(3) by blast
qed

lemma fork_move:
  assumes inv: "race_inv uid s" and f: "forking (rc_pc s i)" and pcs: "rc_pc s' = (rc_pc s)(i := q)" and "rc_set s' = rc_set s"
    and "forking q" and "\<And>ks. fork_conns q = Some ks \<Longrightarrow> fork_conns (rc_pc s i) = Some ks"
    and "\<And>j f. fork_fenced q \<Longrightarrow> writes (rc_pc s j) = Some f \<Longrightarrow> f < log_fence (rc_log s')"
    and "fork_settled q \<Longrightarrow> \<forall>j. \<not> unminted (rc_pc s j)"
  shows "fork_inv s'"
proof (rule fork_inv_own [OF inv pcs])
  show "holds_mark (rc_pc s i) \<or> \<not> under_mark uid (rc_set s)" using f by (simp add: forking_def)
  have "fork_sees s (rc_pc s i)" using inv f by (simp add: race_inv_def fork_inv_def)
  then show "fork_sees s' q" using assms(3-) by (rule fork_sees_own)
qed

text \<open>What the fork already knows carries over when its phase does.\<close>

lemma fork_known:
  assumes "race_inv uid s" and "forking (rc_pc s i)"
  shows "fork_fenced (rc_pc s i) \<Longrightarrow> writes (rc_pc s j) = Some f \<Longrightarrow> f < log_fence (rc_log s)"
    and "fork_settled (rc_pc s i) \<Longrightarrow> \<not> unminted (rc_pc s j)"
  using assms unfolding race_inv_def fork_inv_def fork_sees_def by blast+

lemma fork_inv_step:
  assumes st: "step False cn uid s s'" and inv: "race_inv uid s"
  shows "fork_inv s'"
proof -
  have fi: "fork_inv s" and gi: "guard_inv uid s" and mi: "mark_inv uid s" and ci: "conn_inv uid s" and fe: "fence_inv s"
    using inv by (simp_all add: race_inv_def)
  have sees: "fork_sees s (rc_pc s i)" if "forking (rc_pc s i)" for i using fi that by (simp add: fork_inv_def)
  have free: "\<not> forking (rc_pc s j)" if "\<not> under_mark uid (rc_set s)" for j
    using mi that by (auto simp: mark_inv_def forking_def)
  have alone: "\<not> forking (rc_pc s j)" if "holds_mark (rc_pc s i)" "j \<noteq> i" for i j
    using one_mark [OF mi that(1)] that(2) by (auto simp: forking_def)
  from st show ?thesis
  proof (cases rule: step.cases)
    case (mark i p q t)
    then have "\<not> forking q" by (auto simp: forking_def)
    with mark show ?thesis using markCheckpoint_views [of uid "rc_set s" t] free
      by (intro fork_inv_other [OF fi, of s' i q]) auto
  next
    case (unmark i q)
    then have "\<not> forking q" "holds_mark (rc_pc s i)" by (auto simp: forking_def)
    with unmark show ?thesis using alone by (intro fork_inv_other [OF fi, of s' i q]) auto
  next
    case (mint f l i q)
    note l = NewFence_views [OF mint(2)]
    show ?thesis
    proof (cases "forking (rc_pc s i)")
      case True
      then have q: "forking q" and c: "fork_conns q = Some ks \<Longrightarrow> fork_conns (rc_pc s i) = Some ks"
        and d: "fork_settled q \<Longrightarrow> fork_settled (rc_pc s i)" for ks using mint by (auto simp: forking_def)
      have "g < log_fence l" if "writes (rc_pc s j) = Some g" for j g
        using fe that l unfolding fence_inv_def by fastforce
      then show ?thesis using mint q c fork_known(2) [OF inv True d] by (intro fork_move [OF inv True, of s' q]) auto
    next
      case False
      with mint have "\<not> forking q" by (auto simp: forking_def)
      with mint False show ?thesis using alone [of i] l by (intro fork_inv_other [OF fi, of s' i q]) auto
    qed
  next
    case (opens i closed k t)
    then show ?thesis using register_conn_views [of uid closed "rc_set s" k t] free
      by (intro fork_inv_other [OF fi, of s' i "Opened k"]) (auto simp: forking_def)
  next
    case (check i k f)
    have "\<not> forking (rc_pc s j)" for j
      using unclaimed [OF inv, of j i k] check by (auto simp: superseded_def)
    with check show ?thesis by (intro fork_inv_other [OF fi, of s' i "Running k f"]) (auto simp: forking_def)
  next
    case (appends i p ex f ev res l q)
    note l = Append_fence [OF appends(3)]
    show ?thesis
    proof (cases "forking p")
      case True
      with appends have q: "q = ForkHeld" and p: "rc_pc s i = ForkSnap ex f" by (auto simp: forking_def)
      have f: "forking (rc_pc s i)" by (simp add: p forking_def)
      show ?thesis using appends q p l fork_known [OF inv f]
        by (intro fork_move [OF inv f, of s' q]) (auto simp: forking_def fork_fenced_def)
    next
      case False
      with appends have "\<not> forking q" by (auto simp: forking_def)
      with appends False show ?thesis using l by (intro fork_inv_other [OF fi, of s' i q]) auto
    qed
  next
    case (snapshot i q)
    show ?thesis
    proof (cases "forking (rc_pc s i)")
      case True
      then have q: "forking q" and c: "fork_conns q = Some ks \<Longrightarrow> fork_conns (rc_pc s i) = Some ks"
        and d: "fork_settled q \<Longrightarrow> fork_settled (rc_pc s i)" and e: "fork_fenced (rc_pc s i)" for ks
        using snapshot by (auto simp: forking_def fork_fenced_def)
      show ?thesis using snapshot q c fork_known(1) [OF inv True e] fork_known(2) [OF inv True d]
        by (intro fork_move [OF inv True, of s' q]) auto
    next
      case False
      with snapshot have "\<not> forking q" by (auto simp: forking_def)
      with snapshot False show ?thesis by (intro fork_inv_other [OF fi, of s' i q]) auto
    qed
  next
    case (read_head i q)
    show ?thesis
    proof (cases "forking (rc_pc s i)")
      case True
      then have q: "forking q" and c: "fork_conns q = Some ks \<Longrightarrow> fork_conns (rc_pc s i) = Some ks"
        and d: "fork_settled q \<Longrightarrow> fork_settled (rc_pc s i)" and e: "fork_fenced (rc_pc s i)" for ks
        using read_head by (auto simp: forking_def fork_fenced_def)
      show ?thesis using read_head q c fork_known(1) [OF inv True e] fork_known(2) [OF inv True d]
        by (intro fork_move [OF inv True, of s' q]) auto
    next
      case False
      with read_head have "\<not> forking q" by (auto simp: forking_def)
      with read_head False show ?thesis by (intro fork_inv_other [OF fi, of s' i q]) auto
    qed
  next
    case (fork_begin i a ks t)
    note b = beginCheckpoint_views [OF fork_begin(3)]
    have "fork_sees s' (ForkMarked a ks)" using fork_begin b ci
      by (auto simp: fork_sees_def fork_fenced_def conn_inv_def split: if_splits)
    then show ?thesis using fork_begin b(4) by (intro fork_inv_own [OF inv, of s' i]) auto
  next
    case (fork_settles i a ks)
    then have f: "forking (rc_pc s i)" by (simp add: forking_def)
    have "\<not> unminted (rc_pc s j)" for j
    proof
      assume u: "unminted (rc_pc s j)"
      then obtain k where k: "conn_of (rc_pc s j) = Some k" by (cases "rc_pc s j") auto
      then have "k \<in> set ks" using sees [OF f] fork_settles by (simp add: fork_sees_def)
      then have "minted (rc_set s) k" using fork_settles by (simp add: list_all_iff minted_def)
      with ci k u show False by (simp add: conn_inv_def)
    qed
    then show ?thesis using fork_settles fork_known(1) [OF inv f]
      by (intro fork_move [OF inv f, of s' "ForkSettled a"]) (auto simp: forking_def fork_fenced_def)
  next
    case (fork_aborts i)
    then show ?thesis using alone by (intro fork_inv_other [OF fi, of s' i Reading]) (auto simp: forking_def)
  next
    case (fork_ends i a ks k closed)
    then show ?thesis using fi by (simp add: fork_inv_def fork_sees_def set_views)
  next
    case (deletes i f l ev res l')
    have "\<not> forking (rc_pc s j)" for j
    proof
      assume f: "forking (rc_pc s j)"
      then have "rc_pc s j \<noteq> Idle" by (auto simp: forking_def)
      then have "j = i" using gi deletes unfolding guard_inv_def Let_def by metis
      with f deletes show False by (simp add: forking_def)
    qed
    then show ?thesis using deletes by (simp add: fork_inv_def)
  qed (auto intro!: fork_inv_other [OF fi] simp: forking_def set_views)
qed

lemma current_inv_same:
  assumes cu: "current_inv s" and "rc_pc s' = (rc_pc s)(i := q)" and "log_fence (rc_log s') = log_fence (rc_log s)"
    and "\<And>k. superseded (rc_set s) k \<Longrightarrow> superseded (rc_set s') k"
    and "\<And>k f. conn_of q = Some k \<Longrightarrow> turn_fence q = Some f \<Longrightarrow> conn_of (rc_pc s i) = Some k \<and> turn_fence (rc_pc s i) = Some f"
  shows "current_inv s'"
  unfolding current_inv_def
proof (intro allI impI)
  fix j k f assume a: "conn_of (rc_pc s' j) = Some k" "turn_fence (rc_pc s' j) = Some f" "\<not> superseded (rc_set s') k"
  have "conn_of (rc_pc s j) = Some k \<and> turn_fence (rc_pc s j) = Some f"
    using a(1,2) assms(2) assms(5) [of k f] by (cases "j = i") auto
  then show "f = log_fence (rc_log s')" using cu a(3) assms(3) assms(4) [of k] unfolding current_inv_def by metis
qed

lemma current_inv_step:
  assumes st: "step b cn uid s s'" and inv: "race_inv uid s"
  shows "current_inv s'"
proof -
  have cu: "current_inv s" and gi: "guard_inv uid s" and mi: "mark_inv uid s" and fi: "fork_inv s"
    using inv by (simp_all add: race_inv_def)
  have nobody: "conn_of (rc_pc s j) = None" if "holds_op (rc_pc s i)" "j \<noteq> i" for i j
    using one_conn [OF gi that(1), of j] that(2) by (cases "conn_of (rc_pc s j)") auto
  from st show ?thesis
  proof (cases rule: step.cases)
    case (mint f l i q)
    note l = NewFence_views [OF mint(2)]
    show ?thesis
    proof (cases "forking (rc_pc s i)")
      case True
      with mint have q: "forking q" by (auto simp: forking_def)
      have "superseded (rc_set s) k" if "conn_of (rc_pc s j) = Some k" for j k using unclaimed [OF inv True that] .
      moreover have "conn_of q = None" using q by (cases q) (auto simp: forking_def)
      ultimately show ?thesis using mint by (auto simp: current_inv_def split: if_splits)
    next
      case False
      with mint have "holds_op (rc_pc s i)" by (auto simp: holds_op_def forking_def)
      from nobody [OF this] mint l show ?thesis by (auto simp: current_inv_def split: if_splits)
    qed
  next
    case (uncursored_repair i h f l)
    then have "holds_op (rc_pc s i)" by (simp add: holds_op_def)
    from nobody [OF this] uncursored_repair show ?thesis by (auto simp: current_inv_def split: if_splits)
  next
    case (opens i closed k t)
    then have "holds_op (rc_pc s i)" by (simp add: holds_op_def)
    from nobody [OF this] opens show ?thesis by (auto simp: current_inv_def split: if_splits)
  next
    case (appends i p ex f ev res l q)
    then show ?thesis using Append_fence [of cn ex f ev "rc_log s" res l] by (intro current_inv_same [OF cu, of s' i q]) auto
  next
    case (mark i p q t)
    then show ?thesis using markCheckpoint_views [of uid "rc_set s" t] by (intro current_inv_same [OF cu, of s' i q]) auto
  next
    case (unmark i q)
    then show ?thesis by (intro current_inv_same [OF cu, of s' i q]) (auto simp: set_views)
  next
    case (snapshot i q)
    then show ?thesis by (intro current_inv_same [OF cu, of s' i q]) auto
  next
    case (read_head i q)
    then show ?thesis by (intro current_inv_same [OF cu, of s' i q]) auto
  next
    case (fork_begin i a ks t)
    then show ?thesis using beginCheckpoint_views [of uid "rc_set s" ks t] by (intro current_inv_same [OF cu, of s' i]) auto
  next
    case (fork_ends i a ks k closed)
    then show ?thesis using cu by (simp add: current_inv_def set_views)
  next
    case (deletes i f l ev res l')
    have "conn_of (rc_pc s j) = None" for j
    proof (rule ccontr)
      assume "conn_of (rc_pc s j) \<noteq> None"
      then have "rc_pc s j \<noteq> Idle" "rc_pc s j \<noteq> Deleting" by auto
      with gi deletes show False unfolding guard_inv_def Let_def by metis
    qed
    then show ?thesis using deletes by (simp add: current_inv_def)
  qed (auto intro!: current_inv_same [OF cu] simp: set_views)
qed

lemma op_or_fork: "holds_mark p \<Longrightarrow> holds_op p \<or> forking p"
  by (cases p) (auto simp: holds_op_def forking_def)

lemma knows_fork: "forking p \<Longrightarrow> fork_settled p \<or> knows p l"
  by (cases p) (auto simp: forking_def)

lemma knows_same:
  assumes "knows_inv s" and "rc_pc s' = (rc_pc s)(i := q)" and "rc_log s' = rc_log s" and "knows q (rc_log s)"
  shows "knows_inv s'"
  using assms by (simp add: knows_inv_def)

text \<open>Nobody who knows the log sees it change under another's step.\<close>

lemma knows_others:
  assumes "race_inv uid s" and pcs: "rc_pc s' = (rc_pc s)(i := q)" and "knows q (rc_log s')"
    and op: "\<And>j. j \<noteq> i \<Longrightarrow> holds_op (rc_pc s j) \<Longrightarrow> holds_mark (rc_pc s j) \<Longrightarrow> False"
    and fork: "\<And>j. j \<noteq> i \<Longrightarrow> forking (rc_pc s j) \<Longrightarrow> fork_settled (rc_pc s j) \<Longrightarrow> rc_log s' = rc_log s"
  shows "knows_inv s'"
  unfolding knows_inv_def
proof
  fix j
  show "knows (rc_pc s' j) (rc_log s')"
  proof (cases "j = i \<or> knows (rc_pc s j) (rc_log s')")
    case False
    then have "holds_mark (rc_pc s j)" "j \<noteq> i" using knows_marked by blast+
    then have "forking (rc_pc s j)" using op_or_fork op by blast
    then have "rc_log s' = rc_log s" using knows_fork fork False by blast
    then show ?thesis using assms(1) False pcs by (simp add: race_inv_def knows_inv_def)
  qed (use assms(3) pcs in auto)
qed

lemma knows_inv_step:
  assumes st: "step False cn uid s s'" and inv: "race_inv uid s"
  shows "knows_inv s'"
proof -
  have ki: "knows_inv s" and gi: "guard_inv uid s" and mi: "mark_inv uid s" and cu: "current_inv s"
    using inv by (simp_all add: race_inv_def)
  have kn: "knows (rc_pc s i) (rc_log s)" for i using ki by (simp add: knows_inv_def)
  from st show ?thesis
  proof (cases rule: step.cases)
    case (mint f l i q)
    note l = NewFence_views [OF mint(2)]
    have q: "knows q l" using mint l by auto
    show ?thesis
    proof (rule knows_others [OF inv, of s' i q])
      fix j assume j: "j \<noteq> i" "holds_op (rc_pc s j)" "holds_mark (rc_pc s j)"
      then have "\<not> holds_mark (rc_pc s i)" using one_mark [OF mi j(3)] by metis
      then have "holds_op (rc_pc s i)" using mint by (auto simp: holds_op_def)
      then show False using one_op [OF gi j(2)] j(1) by blast
    next
      fix j assume j: "j \<noteq> i" "forking (rc_pc s j)" "fork_settled (rc_pc s j)"
      then have "\<not> holds_mark (rc_pc s i)" using one_mark [OF mi forking_mark [OF j(2)], of i] by blast
      then have "unminted (rc_pc s i)" using mint by auto
      then show "rc_log s' = rc_log s" using fork_known(2) [OF inv j(2,3)] by blast
    qed (use mint q in auto)
  next
    case (appends i p ex f ev res l q)
    have q: "knows q l" using appends by auto
    show ?thesis
    proof (rule knows_others [OF inv, of s' i q])
      fix j assume j: "j \<noteq> i" "holds_op (rc_pc s j)" "holds_mark (rc_pc s j)"
      then have "\<not> holds_mark (rc_pc s i)" using one_mark [OF mi j(3)] by metis
      then have "holds_op (rc_pc s i)" using appends by (auto simp: holds_op_def)
      then show False using one_op [OF gi j(2)] j(1) by blast
    next
      fix j assume j: "j \<noteq> i" "forking (rc_pc s j)" "fork_settled (rc_pc s j)"
      then have "\<not> holds_mark (rc_pc s i)" using one_mark [OF mi forking_mark [OF j(2)], of i] by blast
      then have "writes (rc_pc s i) = Some f" using appends by auto
      then have "f < log_fence (rc_log s)" using fork_known(1) [OF inv j(2)] j(3) by (simp add: fork_fenced_def)
      then show "rc_log s' = rc_log s" using Append_fenced [OF appends(3)] appends by simp
    qed (use appends q in auto)
  next
    case (park_close i k f h closed)
    have "f = log_fence (rc_log s)"
    proof -
      have "conn_of (rc_pc s i) = Some k" "turn_fence (rc_pc s i) = Some f" using park_close by simp_all
      then show ?thesis using cu park_close unfolding current_inv_def superseded_def by metis
    qed
    then show ?thesis using park_close kn [of i] by (intro knows_same [OF ki, of s' i "ParkClosed f h"]) auto
  next
    case (deletes i f l ev res l')
    have "rc_pc s j = Idle \<or> rc_pc s j = Deleting" for j
      using gi deletes unfolding guard_inv_def Let_def by metis
    then have "knows (rc_pc s j) l'" for j by (metis knows.simps knows_marked holds_mark.simps(1) holds_mark.simps(11))
    then show ?thesis using deletes by (simp add: knows_inv_def)
  next
    case (snapshot i q)
    then show ?thesis using kn [of i] by (intro knows_same [OF ki, of s' i q]) auto
  next
    case (read_head i q)
    then show ?thesis using kn [of i] by (intro knows_same [OF ki, of s' i q]) auto
  next
    case (mark i p q t)
    then show ?thesis by (intro knows_same [OF ki, of s' i q]) auto
  next
    case (unmark i q)
    then show ?thesis by (intro knows_same [OF ki, of s' i q]) auto
  next
    case (fork_ends i a ks k closed)
    then show ?thesis using ki by (simp add: knows_inv_def)
  qed (auto intro!: knows_same [OF ki])
qed

lemma race_inv_step: "step False cn uid s s' \<Longrightarrow> race_inv uid s \<Longrightarrow> race_inv uid s'"
  using guard_inv_step mark_inv_step conn_inv_step fence_inv_step fork_inv_step current_inv_step knows_inv_step
  by (simp add: race_inv_def)

lemma race_inv_quiet: "quiet uid s \<Longrightarrow> race_inv uid s"
  by (simp add: quiet_def race_inv_def guard_inv_def mark_inv_def conn_inv_def fence_inv_def fork_inv_def current_inv_def
      knows_inv_def under_mark_def forking_def zero_entry_def)

lemma race_inv_reach: "reach False cn uid s0 s \<Longrightarrow> quiet uid s0 \<Longrightarrow> race_inv uid s"
  by (induction rule: reach.induct) (auto intro: race_inv_quiet race_inv_step)

section \<open>Properties\<close>

text \<open>A thread that has made the session's compute cold and is about to record it: its expected head and fence.\<close>

fun cold_at :: "pc \<Rightarrow> (int64 \<times> int64) option" where
  "cold_at (ParkSnap f h) = Some (h, f)"
| "cold_at (SuspAt f h) = Some (h, f)"
| "cold_at (ForkSnap a f) = Some (a, f)"
| "cold_at _ = None"

text \<open>
  (C15) Compute that an operation of this host has made cold is always on the chain.  However \<^verbatim>\<open>Exec\<close>,
  \<^verbatim>\<open>Resume\<close>, \<^verbatim>\<open>Suspend\<close>, \<^verbatim>\<open>Approve\<close>, stateful \<^verbatim>\<open>Fork\<close> and deletion of one session interleave on the shared guard,
  session set and journal, the SUSPEND record of a park, a suspend or a fork's checkpoint that has taken
  its snapshot is appended at the journal's current head under the current fence, so it is neither a
  conflict nor fenced: no other operation has moved the head or minted a fence since it was checked.
  The exception is a \<^verbatim>\<open>Resume\<close> without a cursor that repairs a missing approval request.
\<close>

theorem cold_compute_is_recorded:
  assumes "quiet uid s0" and "reach False cn uid s0 s" and "cold_at (rc_pc s i) = Some (h, f)"
    and "HashRecord cn (last_hash (log_records (rc_log s))) (Head (rc_log s) + 1) ev = Inr hash"
  shows "\<exists>r l. Append cn h f ev (rc_log s) = (Inr r, l) \<and> r_fence r = f \<and> r_seq r = h + 1"
proof -
  have "knows (rc_pc s i) (rc_log s)"
    using race_inv_reach [OF assms(2,1)] by (simp add: race_inv_def knows_inv_def)
  then have "h = Head (rc_log s) \<and> f = log_fence (rc_log s)" using assms(3) by (cases "rc_pc s i") auto
  then show ?thesis using assms(4) by (simp add: Append_def Let_def)
qed

text \<open>
  (C21) Mutual exclusion.  At most one operation of the host holds a session at a time; a deletion runs
  alone, with no operation and no fork beside it; at most one operation holds the checkpoint mark; and
  while a fork holds it every harness connection open on the session has been told that it is superseded.
\<close>

theorem operations_exclude_each_other:
  assumes "quiet uid s0" and "reach False cn uid s0 s"
  shows "(holds_op (rc_pc s i) \<and> holds_op (rc_pc s j) \<longrightarrow> i = j)
     \<and> (rc_pc s i = Deleting \<and> rc_pc s j \<noteq> Idle \<longrightarrow> i = j)
     \<and> (holds_mark (rc_pc s i) \<and> holds_mark (rc_pc s j) \<longrightarrow> i = j)
     \<and> (forking (rc_pc s i) \<and> conn_of (rc_pc s j) = Some k \<longrightarrow> superseded (rc_set s) k)"
  using race_inv_reach [OF assms(2,1)] unclaimed [of uid s i j k]
  unfolding race_inv_def guard_inv_def Let_def mark_inv_def by blast

section \<open>Two runs\<close>

definition idle_race :: race where
  "idle_race = \<lparr>rc_guard = [], rc_set = empty_set True, rc_log = New, rc_pc = (\<lambda>_. Idle)\<rparr>"

lemma idle_race_quiet: "quiet ''s'' idle_race"
  by (simp add: quiet_def idle_race_def guard_entry_def empty_set_def)

definition marked_set :: session_set where
  "marked_set = (empty_set True)\<lparr>sess_checkpoints := [''s'']\<rparr>"

definition held_guard :: "sessionGuardEntry \<Rightarrow> sessionGuard" where
  "held_guard e = [(''s'', e)]"

text \<open>A \<^verbatim>\<open>Suspend\<close> that has taken its snapshot.\<close>

definition suspending :: race where
  "suspending = \<lparr>rc_guard = held_guard (zero_entry\<lparr>ge_operation := True\<rparr>), rc_set = marked_set,
     rc_log = New\<lparr>log_fence := 1\<rparr>, rc_pc = (\<lambda>_. Idle)(0 := SuspAt 1 0)\<rparr>"

text \<open>A stateful \<^verbatim>\<open>Fork\<close> of an empty journal that has taken its snapshot.\<close>

definition forking_cold :: race where
  "forking_cold = \<lparr>rc_guard = held_guard (zero_entry\<lparr>ge_readers := 1\<rparr>), rc_set = marked_set,
     rc_log = New\<lparr>log_fence := 2\<rparr>, rc_pc = (\<lambda>_. Idle)(0 := ForkSnap 0 2)\<rparr>"

lemmas run_defs = idle_race_def held_guard_def marked_set_def guard_entry_def acquire_def guard_refuses_def zero_entry_def
  markCheckpoint_def setCheckpointLocked_def beginCheckpoint_def live_of_def empty_set_def NewFence_def Head_def head_of_def New_def
  move_def with_guard_def with_set_def with_log_def Let_def

lemma suspending_reached: "reach b plain_canon ''s'' idle_race suspending"
proof -
  let ?s = "\<lambda>g t l p. \<lparr>rc_guard = g, rc_set = t, rc_log = l, rc_pc = (\<lambda>_. Idle)(0 := p)\<rparr>"
  let ?g = "held_guard (zero_entry\<lparr>ge_operation := True\<rparr>)"
  have s1: "step b plain_canon ''s'' idle_race (?s ?g (empty_set True) New Locked)"
    using step.lock [of idle_race 0 "''s''" ?g b plain_canon] by (simp add: run_defs)
  have s2: "step b plain_canon ''s'' (?s ?g (empty_set True) New Locked) (?s ?g marked_set New SuspMarked)"
    using step.mark [of "?s ?g (empty_set True) New Locked" 0 Locked SuspMarked "''s''" marked_set b plain_canon]
    by (simp add: run_defs)
  have s3: "step b plain_canon ''s'' (?s ?g marked_set New SuspMarked) (?s ?g marked_set New SuspSnap)"
    using step.snapshot [of "?s ?g marked_set New SuspMarked" 0 SuspSnap b plain_canon "''s''"] by (simp add: run_defs)
  have s4: "step b plain_canon ''s'' (?s ?g marked_set New SuspSnap) (?s ?g marked_set (New\<lparr>log_fence := 1\<rparr>) (SuspMinted 1))"
    using step.mint [of "?s ?g marked_set New SuspSnap" 1 "New\<lparr>log_fence := 1\<rparr>" 0 "SuspMinted 1" b plain_canon "''s''"]
    by (simp add: run_defs)
  have s5: "step b plain_canon ''s'' (?s ?g marked_set (New\<lparr>log_fence := 1\<rparr>) (SuspMinted 1)) suspending"
    using step.read_head [of "?s ?g marked_set (New\<lparr>log_fence := 1\<rparr>) (SuspMinted 1)" 0 "SuspAt 1 0" b plain_canon "''s''"]
    by (simp add: run_defs suspending_def)
  show ?thesis by (rule reach.steps [OF reach.steps [OF reach.steps [OF reach.steps [OF reach.steps [OF reach.start s1] s2] s3] s4] s5])
qed

lemma forking_cold_reached: "reach b plain_canon ''s'' idle_race forking_cold"
proof -
  let ?s = "\<lambda>g t l p. \<lparr>rc_guard = g, rc_set = t, rc_log = l, rc_pc = (\<lambda>_. Idle)(0 := p)\<rparr>"
  let ?g = "held_guard (zero_entry\<lparr>ge_readers := 1\<rparr>)"
  let ?f = "\<lambda>n p. ?s ?g marked_set (New\<lparr>log_fence := n\<rparr>) p"
  have s1: "step b plain_canon ''s'' idle_race (?s ?g (empty_set True) New Reading)"
    using step.read_lock [of idle_race 0 "''s''" ?g b plain_canon] by (simp add: run_defs)
  have s2: "step b plain_canon ''s'' (?s ?g (empty_set True) New Reading) (?s ?g (empty_set True) New (ForkAt 0))"
    using step.read_head [of "?s ?g (empty_set True) New Reading" 0 "ForkAt 0" b plain_canon "''s''"] by (simp add: run_defs)
  have s3: "step b plain_canon ''s'' (?s ?g (empty_set True) New (ForkAt 0)) (?f 0 (ForkMarked 0 []))"
    using step.fork_begin [of "?s ?g (empty_set True) New (ForkAt 0)" 0 0 "''s''" "[]" marked_set b plain_canon]
    by (simp add: run_defs)
  have s4: "step b plain_canon ''s'' (?f 0 (ForkMarked 0 [])) (?f 1 (ForkFenced 0 []))"
    using step.mint [of "?f 0 (ForkMarked 0 [])" 1 "New\<lparr>log_fence := 1\<rparr>" 0 "ForkFenced 0 []" b plain_canon "''s''"]
    by (simp add: run_defs)
  have s5: "step b plain_canon ''s'' (?f 1 (ForkFenced 0 [])) (?f 1 (ForkEnding 0 []))"
    using step.read_head [of "?f 1 (ForkFenced 0 [])" 0 "ForkEnding 0 []" b plain_canon "''s''"] by (simp add: run_defs)
  have s6: "step b plain_canon ''s'' (?f 1 (ForkEnding 0 [])) (?f 1 (ForkSettled 0))"
    using step.fork_settles [of "?f 1 (ForkEnding 0 [])" 0 0 "[]" b plain_canon "''s''"] by (simp add: run_defs)
  have s7: "step b plain_canon ''s'' (?f 1 (ForkSettled 0)) (?f 2 (ForkMinted 0 2))"
    using step.mint [of "?f 1 (ForkSettled 0)" 2 "New\<lparr>log_fence := 2\<rparr>" 0 "ForkMinted 0 2" b plain_canon "''s''"]
    by (simp add: run_defs)
  have s8: "step b plain_canon ''s'' (?f 2 (ForkMinted 0 2)) (?f 2 (ForkChecked 0 2))"
    using step.read_head [of "?f 2 (ForkMinted 0 2)" 0 "ForkChecked 0 2" b plain_canon "''s''"] by (simp add: run_defs)
  have s9: "step b plain_canon ''s'' (?f 2 (ForkChecked 0 2)) forking_cold"
    using step.snapshot [of "?f 2 (ForkChecked 0 2)" 0 "ForkSnap 0 2" b plain_canon "''s''"] by (simp add: run_defs forking_cold_def)
  show ?thesis by (rule reach.steps [OF reach.steps [OF reach.steps [OF reach.steps [OF reach.steps [OF reach.steps [OF reach.steps [OF reach.steps [OF reach.steps [OF reach.start s1] s2] s3] s4] s5] s6] s7] s8] s9])
qed

theorem cold_compute_is_recorded_witness:
  "\<exists>r l. Append plain_canon 0 1 zero_event (rc_log suspending) = (Inr r, l) \<and> r_fence r = 1 \<and> r_seq r = 0 + 1"
proof -
  obtain hash where "HashRecord plain_canon (last_hash (log_records (rc_log suspending))) (Head (rc_log suspending) + 1)
      zero_event = Inr hash" using plain_canon_total by blast
  from cold_compute_is_recorded [OF idle_race_quiet suspending_reached _ this, of 0 0 1]
  show ?thesis by (simp add: suspending_def)
qed

theorem operations_exclude_each_other_witness:
  "\<forall>j. holds_op (rc_pc suspending j) = (j = 0) \<and> holds_mark (rc_pc suspending j) = (j = 0)"
proof
  fix j
  have "holds_op (rc_pc suspending 0)" "holds_mark (rc_pc suspending 0)" by (simp_all add: suspending_def holds_op_def)
  then show "holds_op (rc_pc suspending j) = (j = 0) \<and> holds_mark (rc_pc suspending j) = (j = 0)"
    using operations_exclude_each_other [OF idle_race_quiet suspending_reached, of 0 j] by blast
qed

section \<open>What the guard's map holds\<close>

text \<open>The map has no entry that nobody holds.\<close>

definition entries_held :: "string \<Rightarrow> race \<Rightarrow> bool" where
  "entries_held uid s \<longleftrightarrow> (\<forall>e. map_of (rc_guard s) uid = Some e \<longrightarrow> \<not> guard_idle e)"

lemma guard_inv_readers: "guard_inv uid s \<Longrightarrow> ge_readers (guard_entry uid (rc_guard s)) \<ge> 0"
  by (simp add: guard_inv_def Let_def)

lemma acquire_map:
  "acquire uid kind g = (None, g') \<Longrightarrow> map_of g' uid = Some (guard_take kind (guard_entry uid g))"
  by (auto simp: acquire_def Let_def update_conv' split: if_splits)

lemma release_map:
  "map_of (release_guard uid kind g) uid = Some e \<Longrightarrow> \<not> guard_idle e"
  by (auto simp: release_guard_def Let_def update_conv' delete_conv' split: if_splits)

lemma entries_held_step:
  assumes "step b cn uid s s'" and "entries_held uid s" and "guard_inv uid s"
  shows "entries_held uid s'"
  using assms(1)
proof (cases rule: step.cases)
  case (lock i g)
  then show ?thesis by (simp add: entries_held_def acquire_map guard_idle_def)
next
  case (read_lock i g)
  then show ?thesis using guard_inv_readers [OF assms(3)] by (simp add: entries_held_def acquire_map guard_idle_def)
next
  case (delete_lock i g)
  then show ?thesis by (simp add: entries_held_def acquire_map guard_idle_def)
next
  case (unlock i)
  then show ?thesis by (auto simp: entries_held_def dest: release_map)
next
  case (read_unlock i a)
  then show ?thesis by (auto simp: entries_held_def dest: release_map)
next
  case (delete_unlock i)
  then show ?thesis by (auto simp: entries_held_def dest: release_map)
qed (use assms(2) in \<open>simp_all add: entries_held_def\<close>)

lemma guard_reach:
  "reach b cn uid s0 s \<Longrightarrow> quiet uid s0 \<Longrightarrow> map_of (rc_guard s0) uid = None \<Longrightarrow> guard_inv uid s \<and> entries_held uid s"
proof (induction rule: reach.induct)
  case start
  then show ?case using race_inv_quiet [OF start(1)] by (simp add: race_inv_def entries_held_def)
next
  case (steps s s')
  then show ?case using guard_inv_step entries_held_step by blast
qed

text \<open>
  (C38) The guard neither leaks nor miscounts.  In every interleaving, with or without cursors, its reader count is the
  number of forks in progress, hence never negative, and its map has an entry for the session exactly
  while some operation, fork or deletion is in progress: idle sessions take no memory.
\<close>

theorem guard_counts_holders:
  assumes "quiet uid s0" and "map_of (rc_guard s0) uid = None" and "reach uncursored cn uid s0 s"
  shows "ge_readers (guard_entry uid (rc_guard s)) = int (card {i. holds_read (rc_pc s i)})
     \<and> (map_of (rc_guard s) uid = None \<longleftrightarrow> (\<forall>i. rc_pc s i = Idle))"
proof -
  have inv: "guard_inv uid s" "entries_held uid s" using guard_reach [OF assms(3,1,2)] by blast+
  let ?e = "guard_entry uid (rc_guard s)"
  have fin: "finite {i. holds_read (rc_pc s i)}" and readers: "ge_readers ?e = int (card {i. holds_read (rc_pc s i)})"
    and op: "ge_operation ?e \<longleftrightarrow> (\<exists>i. holds_op (rc_pc s i))" and del: "ge_deleting ?e \<longleftrightarrow> (\<exists>i. rc_pc s i = Deleting)"
    using inv(1) unfolding guard_inv_def Let_def by blast+
  have pc: "p = Idle \<longleftrightarrow> \<not> holds_op p \<and> \<not> holds_read p \<and> p \<noteq> Deleting" for p by (cases p) (simp_all add: holds_op_def)
  have "guard_idle ?e \<longleftrightarrow> (\<forall>i. rc_pc s i = Idle)"
    using fin unfolding guard_idle_def readers op del pc by auto
  moreover have "guard_idle ?e \<longleftrightarrow> map_of (rc_guard s) uid = None"
    using inv(2) unfolding entries_held_def guard_entry_def by (auto simp: guard_idle_def zero_entry_def split: option.splits)
  ultimately show ?thesis using readers by blast
qed

theorem guard_counts_holders_witness:
  "ge_readers (guard_entry ''s'' (rc_guard forking_cold)) = int (card {i. holds_read (rc_pc forking_cold i)})
     \<and> (map_of (rc_guard forking_cold) ''s'' = None \<longleftrightarrow> (\<forall>i. rc_pc forking_cold i = Idle))"
  by (rule guard_counts_holders [OF idle_race_quiet _ forking_cold_reached]) (simp add: idle_race_def)

end
