(* ===== verification/Store_Frame.thy ===== *)
theory Store_Frame
  imports Controller
begin

text \<open>
  What the controller does to its store it does through the operations of the store.  A reflexive and
  transitive relation between store states that appends and fence mints respect is respected by
  whole turns and recoveries, whatever the harness, the model and the tools do.
\<close>

locale store_frame =
  fixes ops :: "'s store_ops" and R :: "'s \<Rightarrow> 's \<Rightarrow> bool"
  assumes R_refl: "R s s"
    and R_trans: "R s t \<Longrightarrow> R t u \<Longrightarrow> R s u"
    and R_append: "Store_Append ops ex f ev s = (r, s') \<Longrightarrow> R s s'"
    and R_fence: "Store_NewFence ops s = (q, s') \<Longrightarrow> R s s'"
begin

lemma after_append: "Store_Append ops ex f ev s = (r, s') \<Longrightarrow> R l s \<Longrightarrow> R l s'"
  using R_append R_trans by blast

lemma after_fence: "Store_NewFence ops s = (r, s') \<Longrightarrow> R l s \<Longrightarrow> R l s'"
  using R_fence R_trans by blast

section \<open>The world\<close>

lemma log_views [simp]: "w_log (tick w) = w_log w" "w_log (observe c r w) = w_log w" "w_log (emitDelta c x i ch d w) = w_log w"
  "w_log (fold (\<lambda>chunk. emitDelta c x i chunk d) chunks w) = w_log w"
proof -
  show "w_log (tick w) = w_log w" "w_log (observe c r w) = w_log w" for w by (simp_all add: tick_def observe_def)
  have e: "w_log (emitDelta c x i ch d w) = w_log w" for ch d w by (simp add: emitDelta_def)
  then show "w_log (emitDelta c x i ch d w) = w_log w" by simp
  show "w_log (fold (\<lambda>chunk. emitDelta c x i chunk d) chunks w) = w_log w"
    by (induction chunks arbitrary: w) (simp_all add: e)
qed

lemma after_commit: "commit c ex ev w = (r, w') \<Longrightarrow> c_ops c = ops \<Longrightarrow> R l (w_log w) \<Longrightarrow> R l (w_log w')"
  using after_append [of ex "c_fence c" ev "w_log w" _ _ l] by (auto simp: commit_def split: prod.splits sum.splits)

lemma after_appendSeq: "appendSeq c x ev w = (r, w') \<Longrightarrow> c_ops c = ops \<Longrightarrow> R l (w_log w) \<Longrightarrow> R l (w_log w')"
  by (auto simp: appendSeq_def split: if_splits sum.splits dest: after_commit)

lemma invokeModel_log: "invokeModel c x req w = (r, w') \<Longrightarrow> w_log w' = w_log w"
  by (auto simp: invokeModel_def Let_def split: option.splits prod.splits sum.splits)

lemma describeHarness_log: "describeHarness har w = (r, w') \<Longrightarrow> w_log w' = w_log w"
  by (auto simp: describeHarness_def split: sum.splits)

section \<open>The live sink\<close>

lemma after_live_append:
  "live_append L ev s = (r, s') \<Longrightarrow> c_ops (le_c L) = ops \<Longrightarrow> R l (w_log (lv_w s)) \<Longrightarrow> R l (w_log (lv_w s'))"
  by (auto simp: live_append_def set_w_def Let_def split: prod.splits if_splits sum.splits dest: after_commit after_appendSeq)

lemma set_w_w [simp]: "lv_w (set_w w s) = w"
  by (simp add: set_w_def)

lemma after_completeModel:
  "live_completeModel L req s = (r, s') \<Longrightarrow> c_ops (le_c L) = ops \<Longrightarrow> R l (w_log (lv_w s)) \<Longrightarrow> R l (w_log (lv_w s'))"
  by (auto simp: live_completeModel_def split: prod.splits sum.splits dest!: invokeModel_log dest: after_live_append)

lemma after_live_model:
  "live_model L req s = (r, s') \<Longrightarrow> c_ops (le_c L) = ops \<Longrightarrow> R l (w_log (lv_w s)) \<Longrightarrow> R l (w_log (lv_w s'))"
  by (auto simp: live_model_def newID_def split: prod.splits sum.splits dest: after_live_append after_completeModel)

lemma after_live_output:
  "live_output L d s = (r, s') \<Longrightarrow> c_ops (le_c L) = ops \<Longrightarrow> R l (w_log (lv_w s)) \<Longrightarrow> R l (w_log (lv_w s'))"
  by (auto simp: live_output_def split: prod.splits sum.splits dest: after_live_append)

lemma after_execTool:
  "live_execTool L tc s = (r, s') \<Longrightarrow> c_ops (le_c L) = ops \<Longrightarrow> R l (w_log (lv_w s)) \<Longrightarrow> R l (w_log (lv_w s'))"
  by (auto simp: live_execTool_def Let_def split: prod.splits sum.splits option.splits dest!: after_live_append)

lemma approvalDescriptor_log: "live_approvalDescriptor L s = (r, s') \<Longrightarrow> w_log (lv_w s') = w_log (lv_w s)"
  by (auto simp: live_approvalDescriptor_def Let_def split: prod.splits sum.splits option.splits dest: describeHarness_log)

lemma after_parkTool:
  "live_parkTool L tc s = (r, s') \<Longrightarrow> c_ops (le_c L) = ops \<Longrightarrow> R l (w_log (lv_w s)) \<Longrightarrow> R l (w_log (lv_w s'))"
  by (auto simp: live_parkTool_def Let_def split: prod.splits sum.splits option.splits if_splits
      dest!: approvalDescriptor_log after_live_append)

lemma after_live_toolCall:
  "live_toolCall L tc s = (r, s') \<Longrightarrow> c_ops (le_c L) = ops \<Longrightarrow> R l (w_log (lv_w s)) \<Longrightarrow> R l (w_log (lv_w s'))"
  by (auto simp: live_toolCall_def Let_def split: prod.splits sum.splits option.splits if_splits
      dest!: after_parkTool after_live_append after_execTool)

lemma after_live_report:
  "live_report L tr s = (r, s') \<Longrightarrow> c_ops (le_c L) = ops \<Longrightarrow> R l (w_log (lv_w s)) \<Longrightarrow> R l (w_log (lv_w s'))"
  by (auto simp: live_report_def split: prod.splits sum.splits option.splits if_splits dest: after_live_append)

lemma after_live_usage:
  "live_usage L u s = (r, s') \<Longrightarrow> c_ops (le_c L) = ops \<Longrightarrow> R l (w_log (lv_w s)) \<Longrightarrow> R l (w_log (lv_w s'))"
  by (auto simp: live_usage_def split: prod.splits sum.splits dest: after_live_append)

lemma after_completeApproval:
  "live_completeApproval L st rq dc s = (r, s') \<Longrightarrow> c_ops (le_c L) = ops \<Longrightarrow> R l (w_log (lv_w s)) \<Longrightarrow> R l (w_log (lv_w s'))"
  by (auto simp: live_completeApproval_def live_stop_def Let_def split: prod.splits sum.splits option.splits if_splits
      dest!: approvalDescriptor_log after_live_append)

lemma after_live_enter:
  assumes "live_enter L fail body s = (r, s')" "R l (w_log (lv_w s))"
    and "\<And>s r s'. body s = (r, s') \<Longrightarrow> R l (w_log (lv_w s)) \<Longrightarrow> R l (w_log (lv_w s'))"
  shows "R l (w_log (lv_w s'))"
  using assms(1,2) assms(3) [of "set_w (tick (lv_w s)) s" r s'] by (auto simp: live_enter_def Let_def split: option.splits)

lemma live_sink_relation:
  assumes "c_ops (le_c L) = ops"
  shows "sink_relation (liveSink L) (\<lambda>s s'. R (w_log (lv_w s)) (w_log (lv_w s')))"
proof -
  have e: "R (w_log (lv_w s)) (w_log (lv_w (snd (live_enter L fail body s))))"
    if "\<And>l s r s'. body s = (r, s') \<Longrightarrow> R l (w_log (lv_w s)) \<Longrightarrow> R l (w_log (lv_w s'))" for fail body s
    using after_live_enter [of L fail body s _ _ "w_log (lv_w s)", OF surjective_pairing R_refl] that by blast
  show ?thesis
  proof (unfold_locales, goal_cases)
    case 1 show ?case by (rule R_refl)
  next
    case 2 then show ?case by (rule R_trans)
  next
    case 3 show ?case unfolding liveSink_def live_Model_def using assms by (auto intro!: e dest: after_live_model)
  next
    case 4 show ?case unfolding liveSink_def live_Output_def using assms by (auto intro!: e dest: after_live_output)
  next
    case 5 show ?case unfolding liveSink_def live_ToolCall_def using assms by (auto intro!: e dest: after_live_toolCall)
  next
    case 6 show ?case unfolding liveSink_def live_Report_def using assms by (auto intro!: e dest: after_live_report)
  next
    case 7 show ?case unfolding liveSink_def live_Usage_def using assms by (auto intro!: e dest: after_live_usage)
  qed
qed

section \<open>The resume sink\<close>

lemma after_go_live:
  assumes "go_live f s = (r, s')" "R l (w_log (lv_w (rs_live s)))"
    and "\<And>s r s'. f s = (r, s') \<Longrightarrow> R l (w_log (lv_w s)) \<Longrightarrow> R l (w_log (lv_w s'))"
  shows "R l (w_log (lv_w (rs_live s')))"
  using assms by (auto simp: go_live_def split: prod.splits)

lemmas resume_fails = resume_fail_def resume_fail_err_def

lemma after_resume_model:
  assumes "resume_model V req s = (r, s')" "c_ops (le_c (rv_live V)) = ops" "R l (w_log (lv_w (rs_live s)))"
  shows "R l (w_log (lv_w (rs_live s')))"
proof -
  have g: "R l (w_log (lv_w (rs_live s')))" if "go_live (live_completeModel (rv_live V) req) s1 = (r, s')" "rs_live s1 = rs_live s" for s1
    using after_go_live [OF that(1)] that(2) after_completeModel assms by metis
  have m: "R l (w_log (lv_w (rs_live s')))" if "go_live (live_model (rv_live V) req) s = (r, s')"
    using after_go_live [OF that] after_live_model assms by metis
  show ?thesis using assms(1,3) g m
    by (auto simp: resume_model_def resume_fails Let_def split: if_splits option.splits)
qed

lemma after_resume_output:
  assumes "resume_output V d s = (r, s')" "c_ops (le_c (rv_live V)) = ops" "R l (w_log (lv_w (rs_live s)))"
  shows "R l (w_log (lv_w (rs_live s')))"
proof -
  have m: "R l (w_log (lv_w (rs_live s')))" if "go_live (live_output (rv_live V) d) s = (r, s')"
    using after_go_live [OF that] after_live_output assms by metis
  show ?thesis using assms(1,3) m
    by (auto simp: resume_output_def resume_fails Let_def split: if_splits option.splits)
qed

lemma after_resume_approval:
  assumes "resume_approval V tc s = (r, s')" "c_ops (le_c (rv_live V)) = ops" "R l (w_log (lv_w (rs_live s)))"
  shows "R l (w_log (lv_w (rs_live s')))"
proof -
  have g: "R l (w_log (lv_w (rs_live s')))"
    if "go_live (live_completeApproval (rv_live V) st rq dc) s1 = (r, s')" "rs_live s1 = rs_live s" for st rq dc s1
    using after_go_live [OF that(1)] that(2) after_completeApproval assms by metis
  show ?thesis using assms(1,3) g
    by (auto simp: resume_approval_def resume_fails Let_def split: prod.splits sum.splits option.splits)
qed

lemma after_resume_ordinary:
  assumes "resume_ordinary V tc s = (r, s')" "c_ops (le_c (rv_live V)) = ops" "R l (w_log (lv_w (rs_live s)))"
  shows "R l (w_log (lv_w (rs_live s')))"
proof -
  have m: "R l (w_log (lv_w (rs_live s')))" if "go_live (live_execTool (rv_live V) tc) s = (r, s')"
    using after_go_live [OF that] after_execTool assms by metis
  show ?thesis using assms(1,3) m
    by (auto simp: resume_ordinary_def resume_fails Let_def split: if_splits sum.splits option.splits)
qed

lemma after_resume_toolCall:
  assumes "resume_toolCall V tc s = (r, s')" "c_ops (le_c (rv_live V)) = ops" "R l (w_log (lv_w (rs_live s)))"
  shows "R l (w_log (lv_w (rs_live s')))"
proof -
  have m: "R l (w_log (lv_w (rs_live s')))" if "go_live (live_toolCall (rv_live V) tc) s = (r, s')"
    using after_go_live [OF that] after_live_toolCall assms by metis
  have a: "R l (w_log (lv_w (rs_live s')))" if "resume_approval V call s1 = (r, s')" "lv_w (rs_live s1) = lv_w (rs_live s)" for call s1
    using after_resume_approval [OF that(1)] that(2) assms by simp
  have b: "R l (w_log (lv_w (rs_live s')))" if "resume_ordinary V call s1 = (r, s')" "lv_w (rs_live s1) = lv_w (rs_live s)" for call s1
    using after_resume_ordinary [OF that(1)] that(2) assms by simp
  show ?thesis using assms(1,3) m a b
    by (auto simp: resume_toolCall_def resume_fails Let_def split: if_splits option.splits)
qed

lemma after_resume_report:
  assumes "resume_report V tr s = (r, s')" "c_ops (le_c (rv_live V)) = ops" "R l (w_log (lv_w (rs_live s)))"
  shows "R l (w_log (lv_w (rs_live s')))"
proof -
  have m: "R l (w_log (lv_w (rs_live s')))" if "go_live (live_report (rv_live V) tr) s = (r, s')"
    using after_go_live [OF that] after_live_report assms by metis
  show ?thesis using assms(1,3) m
    by (auto simp: resume_report_def resume_fails split: if_splits option.splits)
qed

lemma after_resume_usage:
  assumes "resume_usage V u s = (r, s')" "c_ops (le_c (rv_live V)) = ops" "R l (w_log (lv_w (rs_live s)))"
  shows "R l (w_log (lv_w (rs_live s')))"
proof -
  have m: "R l (w_log (lv_w (rs_live s')))" if "go_live (live_usage (rv_live V) u) s = (r, s')"
    using after_go_live [OF that] after_live_usage assms by metis
  show ?thesis using assms(1,3) m
    by (auto simp: resume_usage_def resume_fails Let_def split: if_splits option.splits)
qed

lemma after_resume_enter:
  assumes "resume_enter V fail body s = (r, s')" "R l (w_log (lv_w (rs_live s)))"
    and "\<And>s r s'. body s = (r, s') \<Longrightarrow> R l (w_log (lv_w (rs_live s))) \<Longrightarrow> R l (w_log (lv_w (rs_live s')))"
  shows "R l (w_log (lv_w (rs_live s')))"
  using assms(1,2) assms(3) [of "s\<lparr>rs_live := set_w (tick (lv_w (rs_live s))) (rs_live s)\<rparr>" r s']
  by (auto simp: resume_enter_def Let_def split: option.splits)

lemma resume_sink_relation:
  assumes "c_ops (le_c (rv_live V)) = ops"
  shows "sink_relation (resumeSink V) (\<lambda>s s'. R (w_log (lv_w (rs_live s))) (w_log (lv_w (rs_live s'))))"
proof -
  have e: "R (w_log (lv_w (rs_live s))) (w_log (lv_w (rs_live (snd (resume_enter V fail body s)))))"
    if "\<And>l s r s'. body s = (r, s') \<Longrightarrow> R l (w_log (lv_w (rs_live s))) \<Longrightarrow> R l (w_log (lv_w (rs_live s')))" for fail body s
    using after_resume_enter [of V fail body s _ _ "w_log (lv_w (rs_live s))", OF surjective_pairing R_refl] that by blast
  show ?thesis
  proof (unfold_locales, goal_cases)
    case 1 show ?case by (rule R_refl)
  next
    case 2 then show ?case by (rule R_trans)
  next
    case 3 show ?case unfolding resumeSink_def resume_Model_def using assms by (auto intro!: e dest: after_resume_model)
  next
    case 4 show ?case unfolding resumeSink_def resume_Output_def using assms by (auto intro!: e dest: after_resume_output)
  next
    case 5 show ?case unfolding resumeSink_def resume_ToolCall_def using assms by (auto intro!: e dest: after_resume_toolCall)
  next
    case 6 show ?case unfolding resumeSink_def resume_Report_def using assms by (auto intro!: e dest: after_resume_report)
  next
    case 7 show ?case unfolding resumeSink_def resume_Usage_def using assms by (auto intro!: e dest: after_resume_usage)
  qed
qed

section \<open>Turns and recoveries\<close>

lemma after_drive_live:
  assumes "drive (liveSink L) p s = (r, s')" "c_ops (le_c L) = ops" "R l (w_log (lv_w s))"
  shows "R l (w_log (lv_w s'))"
  using sink_relation.rel_drive [OF live_sink_relation [OF assms(2)], of s p] assms(1,3) R_trans by auto

lemma after_drive_resume:
  assumes "drive (resumeSink V) p s = (r, s')" "c_ops (le_c (rv_live V)) = ops" "R l (w_log (lv_w (rs_live s)))"
  shows "R l (w_log (lv_w (rs_live s')))"
  using sink_relation.rel_drive [OF resume_sink_relation [OF assms(2)], of s p] assms(1,3) R_trans by auto

lemma after_append_inputs:
  "append_inputs c x n ms w = (r, w') \<Longrightarrow> c_ops c = ops \<Longrightarrow> R l (w_log w) \<Longrightarrow> R l (w_log w')"
  by (induction ms arbitrary: n w) (auto split: prod.splits sum.splits dest: after_commit)

lemma after_finish_exec:
  "finish_exec c x e s = (r, w') \<Longrightarrow> c_ops c = ops \<Longrightarrow> R l (w_log (lv_w s)) \<Longrightarrow> R l (w_log w')"
  using after_appendSeq [OF surjective_pairing]
  by (auto simp: finish_exec_def split: option.splits prod.splits sum.splits dest: after_appendSeq)

lemma after_exec_turn:
  assumes "exec_turn c har x hist ms ex w = (r, w')" "c_ops c = ops" "R l (w_log w)"
  shows "R l (w_log w')"
  using assms
  by (auto simp: exec_turn_def live_env_of_def live_init_def split: option.splits prod.splits sum.splits
      dest!: describeHarness_log after_commit after_append_inputs after_drive_live after_finish_exec)

lemma after_Exec:
  assumes "Exec c har ms ex w = (r, w')" "c_ops c = ops" "R l (w_log w)"
  shows "R l (w_log w')"
  using assms by (auto simp: Exec_def newID_def Let_def split: option.splits prod.splits sum.splits if_splits dest!: after_exec_turn)

lemma after_pendingApproval:
  "pendingApproval c scan x w = (r, scan', w') \<Longrightarrow> c_ops c = ops \<Longrightarrow> R l (w_log w) \<Longrightarrow> R l (w_log w')"
  by (auto simp: pendingApproval_def Let_def split: option.splits prod.splits sum.splits if_splits dest: after_commit)

lemma checkHarness_log: "checkHarness c har xs w = (r, w') \<Longrightarrow> w_log w' = w_log w"
  by (auto simp: checkHarness_def split: if_splits prod.splits sum.splits option.splits dest: describeHarness_log)

lemma after_finish_resume:
  "finish_resume V e s = (r, w') \<Longrightarrow> c_ops (le_c (rv_live V)) = ops \<Longrightarrow> R l (w_log (lv_w (rs_live s))) \<Longrightarrow> R l (w_log w')"
  using after_live_append [OF surjective_pairing]
  by (auto simp: finish_resume_def Let_def split: option.splits prod.splits sum.splits if_splits dest: after_live_append)

lemma after_resume_execution:
  assumes "resume_execution c har recs scan x w = (r, w')" "c_ops c = ops" "R l (w_log w)"
  shows "R l (w_log w')"
  using assms
  by (auto simp: resume_execution_def resume_env_of_def live_init_def Let_def split: option.splits prod.splits sum.splits
      dest!: checkHarness_log after_drive_resume after_finish_resume)

lemma after_Resume:
  assumes "Resume c har w = (r, w')" "c_ops c = ops" "R l (w_log w)"
  shows "R l (w_log w')"
  using assms
  by (auto simp: Resume_def Let_def split: option.splits prod.splits sum.splits if_splits
      dest: after_pendingApproval after_resume_execution)

end

end
