(* ===== verification/Host_Frame.thy ===== *)
theory Host_Frame
  imports Store_Frame Registry
begin

text \<open>
  The frame of \<open>Store_Frame\<close> at the level of a host: what the operations of a Placer and of the registry do
  to the store of a session they do through the operations of its log.
\<close>

text \<open>The host check that a recovery or a suspension runs respects a relation between store states.\<close>

definition check_respects :: "('s \<Rightarrow> 's \<Rightarrow> bool) \<Rightarrow> 's registry_resume_config \<Rightarrow> bool" where
  "check_respects S cfg \<longleftrightarrow> (\<forall>check name h. rr_check cfg = Some check \<longrightarrow> S (h_log h) (h_log (snd (check name h))))"

context store_frame
begin

section \<open>Host state\<close>

lemma h_log_views [simp]:
  "h_log (h\<lparr>h_set := x\<rparr>) = h_log h" "h_log (h\<lparr>h_guard := g\<rparr>) = h_log h" "h_log (h\<lparr>h_runtime := c\<rparr>) = h_log h"
  "h_log (h\<lparr>h_world := w\<rparr>) = w_log w" "h_log (set_log l h) = l" "h_log (observe_if b r h) = h_log h"
  by (simp_all add: h_log_def set_log_def observe_if_def)

lemma ask_log: "ask h = (t, h') \<Longrightarrow> h_log h' = h_log h"
  by (auto simp: ask_def h_log_def tick_def)

lemma rt_call_log: "rt_call c h = (t, h') \<Longrightarrow> h_log h' = h_log h"
  by (auto simp: rt_call_def dest!: ask_log)

lemma gate_log: "gate p d c h = (r, h') \<Longrightarrow> h_log h' = h_log h"
  by (auto simp: gate_def split: prod.splits sum.splits if_splits dest!: rt_call_log ask_log)

lemma admit_log: "admit p h = (r, h') \<Longrightarrow> h_log h' = h_log h"
  by (auto simp: admit_def dest: gate_log)

lemma recheck_log: "recheck p har h = (r, h') \<Longrightarrow> h_log h' = h_log h"
  by (auto simp: recheck_def split: prod.splits sum.splits if_splits option.splits dest!: gate_log ask_log)

lemma openHarness_log: "openHarness p uid inc h = (r, h') \<Longrightarrow> h_log h' = h_log h"
  by (auto simp: openHarness_def split: prod.splits sum.splits dest!: rt_call_log)

lemma releaseHarness_log: "releaseHarness p uid k h = (r, h') \<Longrightarrow> h_log h' = h_log h"
  by (auto simp: releaseHarness_def split: prod.splits option.splits dest!: rt_call_log)

lemma checkSuperseded_log: "checkSuperseded p k h = (r, h') \<Longrightarrow> h_log h' = h_log h"
  by (auto simp: checkSuperseded_def split: prod.splits option.splits if_splits dest!: ask_log)

lemma closeInvocation_log: "closeInvocation p uid k h = (r, h') \<Longrightarrow> h_log h' = h_log h"
  by (auto simp: closeInvocation_def split: prod.splits option.splits dest!: checkSuperseded_log releaseHarness_log)

lemmas host_logs = ask_log rt_call_log gate_log admit_log recheck_log openHarness_log releaseHarness_log
  checkSuperseded_log closeInvocation_log

lemma guarded_log:
  assumes "guarded kind uid refused body h = (r, h')" "Q (h_log h)"
    and "\<And>h r h'. body h = (r, h') \<Longrightarrow> Q (h_log h) \<Longrightarrow> Q (h_log h')"
  shows "Q (h_log h')"
  using assms(1,2) assms(3) [OF surjective_pairing, of "h\<lparr>h_guard := snd (acquire uid kind (h_guard h))\<rparr>"]
  by (auto simp: guarded_def split: prod.splits option.splits)

lemma marked_log:
  assumes "marked uid refused body h = (r, h')" "Q (h_log h)"
    and "\<And>h r h'. body h = (r, h') \<Longrightarrow> Q (h_log h) \<Longrightarrow> Q (h_log h')"
  shows "Q (h_log h')"
  using assms(1,2) assms(3) [OF surjective_pairing, of "h\<lparr>h_set := snd (markCheckpoint uid (h_set h))\<rparr>"]
  by (auto simp: marked_def split: prod.splits option.splits)

section \<open>Parts of a turn\<close>

lemma after_append_on: "Store_Append o1 ex f ev s = (r, s') \<Longrightarrow> o1 = ops \<Longrightarrow> R l s \<Longrightarrow> R l s'"
  using after_append by blast

lemma after_fence_on: "Store_NewFence o1 s = (r, s') \<Longrightarrow> o1 = ops \<Longrightarrow> R l s \<Longrightarrow> R l s'"
  using after_fence by blast

lemma after_appendLifecycle: "appendLifecycle o1 lc s = (r, s') \<Longrightarrow> o1 = ops \<Longrightarrow> R l s \<Longrightarrow> R l s'"
  by (auto simp: appendLifecycle_def appendLifecycleAt_def split: prod.splits sum.splits dest!: after_fence_on after_append_on)

lemma after_suspend: "suspend p uid cur h = (r, h') \<Longrightarrow> pl_ops p = ops \<Longrightarrow> R l (h_log h) \<Longrightarrow> R l (h_log h')"
  by (auto simp: suspend_def split: prod.splits sum.splits option.splits dest!: host_logs after_appendLifecycle after_append_on)

lemma after_handoff: "handoff p uid f ref k b h = (r, h') \<Longrightarrow> pl_ops p = ops \<Longrightarrow> R l (h_log h) \<Longrightarrow> R l (h_log h')"
  by (auto simp: handoff_def split: prod.splits sum.splits option.splits if_splits dest!: host_logs after_suspend)

lemma after_finish_turn:
  "finish_turn p uid f k b err h = (r, h') \<Longrightarrow> pl_ops p = ops \<Longrightarrow> R l (h_log h) \<Longrightarrow> R l (h_log h')"
  using marked_log [of uid Some "handoff p uid f ref k b" h r h' "R l" for ref] after_handoff
  by (auto simp: finish_turn_def handoffPark_def split: option.splits prod.splits dest!: host_logs)

lemma after_mint_checked: "mint_checked p ex h = (r, h') \<Longrightarrow> pl_ops p = ops \<Longrightarrow> R l (h_log h) \<Longrightarrow> R l (h_log h')"
  by (auto simp: mint_checked_def split: prod.splits sum.splits option.splits dest!: after_fence_on)

lemma after_resumeFence: "resumeFence p uid ex h = (r, h') \<Longrightarrow> pl_ops p = ops \<Longrightarrow> R l (h_log h) \<Longrightarrow> R l (h_log h')"
  using marked_log [of uid Inl "mint_checked p ex" h r h' "R l"] after_mint_checked
  by (auto simp: resumeFence_def split: if_splits)

lemma after_resumeApproval:
  "resumeApproval p uid st cfg h = (r, h') \<Longrightarrow> pl_ops p = ops \<Longrightarrow> R l (h_log h) \<Longrightarrow> R l (h_log h')"
  by (auto simp: resumeApproval_def split: prod.splits sum.splits option.splits if_splits
      dest!: after_resumeFence after_append_on)

lemma after_NewController:
  "NewController c s = (r, s') \<Longrightarrow> c_ops c = ops \<Longrightarrow> R l s \<Longrightarrow> R l s' \<and> (\<forall>c'. r = Inr c' \<longrightarrow> c_ops c' = ops)"
  by (auto simp: NewController_def split: if_splits prod.splits sum.splits dest!: after_fence_on)

lemma turn_ops: "c_ops (exec_controller p cfg f uid) = pl_ops p" "c_ops (resume_controller p rcfg f uid) = pl_ops p"
  by (simp_all add: exec_controller_def resume_controller_def controllerOpts_def pl_ops_def)

lemma after_mark_resumed: "mark_resumed p f b h = (r, h') \<Longrightarrow> pl_ops p = ops \<Longrightarrow> R l (h_log h) \<Longrightarrow> R l (h_log h')"
  by (auto simp: mark_resumed_def split: prod.splits sum.splits dest!: after_append_on)

lemma after_exec_connected:
  assumes "exec_connected p cfg uid inputs ex inc k har h = (r, h')" "pl_ops p = ops" "R l (h_log h)"
  shows "R l (h_log h')"
  using assms
  by (auto simp: exec_connected_def Let_def turn_ops split: prod.splits sum.splits option.splits
      dest!: host_logs after_fence_on after_NewController after_Exec after_finish_turn)

lemma after_resume_connected:
  assumes "resume_connected p uid cfg k har h = (r, h')" "pl_ops p = ops" "R l (h_log h)"
  shows "R l (h_log h')"
  using assms
  by (auto simp: resume_connected_def Let_def turn_ops split: prod.splits sum.splits option.splits
      dest!: host_logs after_resumeFence after_NewController after_Resume after_finish_turn after_mark_resumed)

lemma after_with_harness:
  assumes "with_harness p uid inc refused body h = (r, h')" "R l (h_log h)"
    and "\<And>k har h r h'. body k har h = (r, h') \<Longrightarrow> R l (h_log h) \<Longrightarrow> R l (h_log h')"
  shows "R l (h_log h')"
proof -
  have rel: "h_log (snd (releaseHarness p uid k h2)) = h_log h2" for k h2 by (rule releaseHarness_log [OF surjective_pairing])
  show ?thesis using assms(1,2) assms(3)
    by (auto simp: with_harness_def rel split: prod.splits sum.splits dest!: openHarness_log)
qed

section \<open>Operations\<close>

lemma after_exec_locked:
  assumes "exec_locked p cfg uid inputs ex h = (r, h')" "pl_ops p = ops" "R l (h_log h)"
  shows "R l (h_log h')"
proof -
  have w: "R l (h_log h')" if "with_harness p uid inc ref (exec_connected p cfg uid inputs ex inc) h1 = (r, h')" "R l (h_log h1)"
    for inc ref h1 using after_with_harness [OF that] after_exec_connected assms(2) by blast
  show ?thesis using assms w
    by (auto simp: exec_locked_def Let_def split: prod.splits sum.splits option.splits if_splits dest!: host_logs)
qed

lemma after_Placer_Exec:
  "Placer_Exec p cfg uid inputs ex h = (r, h') \<Longrightarrow> pl_ops p = ops \<Longrightarrow> R l (h_log h) \<Longrightarrow> R l (h_log h')"
  unfolding Placer_Exec_def by (erule guarded_log) (auto intro: after_exec_locked)

lemma after_resume_placed:
  assumes "resume_placed p uid cfg h = (r, h')" "pl_ops p = ops" "R l (h_log h)"
  shows "R l (h_log h')"
proof -
  have w: "R l (h_log h')" if "with_harness p uid inc Some (resume_connected p uid cfg) h1 = (r, h')" "R l (h_log h1)" for inc h1
    using after_with_harness [OF that] after_resume_connected assms(2) by blast
  show ?thesis using assms w
    by (auto simp: resume_placed_def split: prod.splits sum.splits option.splits if_splits
        dest!: host_logs after_resumeApproval after_resumeFence)
qed

lemma on_log_ops [simp]: "pl_ops (on_log o1 p) = o1"
  by (simp add: on_log_def pl_ops_def)

text \<open>Recovery and suspension through the registry.\<close>

lemma after_resolve:
  assumes "resolve r cfg rec def h = (res, h')" "check_respects R cfg" "R l (h_log h)"
  shows "R l (h_log h')"
proof -
  have "R l (h_log (snd (check name h)))" if "rr_check cfg = Some check" for check name
    using assms(2,3) that R_trans unfolding check_respects_def by blast
  then show ?thesis using assms(1,3)
    by (auto simp: resolve_def run_check_def Let_def split: sum.splits option.splits prod.splits) (metis snd_conv)+
qed

lemma after_registry_resume:
  assumes "registry_resume r spec ops uid def cfg h = (res, h')" "check_respects R cfg" "R l (h_log h)"
  shows "R l (h_log h')"
  using assms
  by (auto simp: registry_resume_def Let_def split: prod.splits sum.splits option.splits if_splits
      dest!: after_resolve after_resumeApproval after_resume_placed)

lemma after_Registry_Resume:
  "Registry_Resume r spec ops uid def cfg h = (res, h') \<Longrightarrow> check_respects R cfg \<Longrightarrow> R l (h_log h) \<Longrightarrow> R l (h_log h')"
  unfolding Registry_Resume_def by (erule guarded_log) (auto intro: after_registry_resume)

lemma after_registry_suspend:
  assumes "registry_suspend r spec ops uid def cfg h = (res, h')" "check_respects R cfg" "R l (h_log h)"
  shows "R l (h_log h')"
proof -
  have m: "R l (h_log h')" if "marked uid Inl (suspend (on_log ops (spec k)) uid None) h1 = (res, h')" "R l (h_log h1)" for k h1
    using marked_log [OF that(1), of "R l"] that(2) after_suspend by simp
  show ?thesis using assms m
    by (auto simp: registry_suspend_def Let_def split: prod.splits sum.splits option.splits if_splits dest!: after_resolve)
qed

lemma after_Registry_Suspend:
  "Registry_Suspend r spec ops uid def cfg h = (res, h') \<Longrightarrow> check_respects R cfg \<Longrightarrow> R l (h_log h) \<Longrightarrow> R l (h_log h')"
  unfolding Registry_Suspend_def by (erule guarded_log) (auto intro: after_registry_suspend)

lemma after_Approve: "Approve ops now d s = (r, s') \<Longrightarrow> R l s \<Longrightarrow> R l s'"
  by (auto simp: Approve_def Let_def split: prod.splits sum.splits option.splits if_splits dest!: after_fence_on after_append_on)

lemma after_Registry_Approve:
  assumes "Registry_Approve ops uid now d h = (r, h')" "R l (h_log h)"
  shows "R l (h_log h')"
proof -
  have b: "R l (h_log h')" if "(case Approve ops now d (h_log h) of (res, l) \<Rightarrow> (res, set_log l h)) = (r, h')" "R l (h_log h)"
    for h r h' using that by (auto split: prod.splits dest!: after_Approve)
  have m: "R l (h_log h')" if "marked uid Inl (\<lambda>h. case Approve ops now d (h_log h) of (res, l) \<Rightarrow> (res, set_log l h)) h = (r, h')"
    "R l (h_log h)" for h r h' using marked_log [OF that(1), of "R l"] that(2) b by blast
  show ?thesis using guarded_log [OF assms(1) [unfolded Registry_Approve_def], of "R l"] assms(2) m by blast
qed

section \<open>Forks\<close>

lemma after_fork_copy: "fork_copy ops f n recs s c = (r, c') \<Longrightarrow> R l c \<Longrightarrow> R l c'"
  by (induction recs arbitrary: s c) (auto split: if_splits prod.splits sum.splits dest!: after_append_on)

lemma after_Fork: "Fork pops ops n parent c = (r, c') \<Longrightarrow> R l c \<Longrightarrow> R l c'"
  by (auto simp: Fork_def split: prod.splits sum.splits option.splits dest!: after_fence_on after_fork_copy after_append_on)

lemma end_all_log [simp]: "h_log (end_all p ks h) = h_log h"
proof (induction ks arbitrary: h)
  case (Cons k ks)
  have "h_log (snd (rt_call (RtClose k) h)) = h_log h" by (rule rt_call_log [OF surjective_pairing])
  with Cons show ?case by (simp split: option.split prod.split) (metis snd_conv)
qed simp

lemma wait_minted_log: "wait_minted p uid ks h = (r, h') \<Longrightarrow> h_log h' = h_log h"
  by (induction ks arbitrary: h) (auto split: prod.splits option.splits dest!: ask_log)

lemma endHarnesses_log: "endHarnesses p uid ks h = (r, h') \<Longrightarrow> h_log h' = h_log h"
  by (auto simp: endHarnesses_def split: if_splits dest!: wait_minted_log)

lemma stop_all_log [simp]: "h_log (stop_all p uids h) = h_log h"
  by (induction uids arbitrary: h) (simp_all add: rt_call_log [OF surjective_pairing])

lemma lift_mark_log [simp]: "h_log (lift_mark b uid h) = h_log h"
  by (simp add: lift_mark_def)

lemma after_fence_at: "fence_at p n h = (r, h') \<Longrightarrow> pl_ops p = ops \<Longrightarrow> R l (h_log h) \<Longrightarrow> R l (h_log h')"
  by (auto simp: fence_at_def split: prod.splits sum.splits if_splits dest!: after_fence_on)

lemma after_fork_checkpoint:
  "fork_checkpoint p uid n desc conns h = (r, h') \<Longrightarrow> pl_ops p = ops \<Longrightarrow> R l (h_log h) \<Longrightarrow> R l (h_log h')"
  by (auto simp: fork_checkpoint_def appendLifecycleAt_def split: prod.splits sum.splits option.splits if_splits
      dest!: host_logs endHarnesses_log after_fence_at after_append_on)

lemma after_forkSource: "forkSource p uid n h = (r, h') \<Longrightarrow> pl_ops p = ops \<Longrightarrow> R l (h_log h) \<Longrightarrow> R l (h_log h')"
  by (auto simp: forkSource_def split: prod.splits sum.splits option.splits if_splits dest!: host_logs after_fork_checkpoint)

lemma after_fork_children:
  assumes "fork_children p ref n children created h = (r, h')" "\<forall>c \<in> set children. store_frame (fc_ops c) R" "R l (h_log h)"
  shows "R l (h_log h')"
  using assms
proof (induction children arbitrary: created h)
  case (Cons c cs)
  have f: "R l l2" if "Fork (pl_ops p) (fc_ops c) n (h_log h1) (h_log h1) = (q, l2)" "R l (h_log h1)" for h1 q l2
    using store_frame.after_Fork [of "fc_ops c" R, OF _ that(1), of l] that(2) Cons.prems(2) by simp
  show ?case using Cons.prems Cons.IH
    by (auto simp: Let_def split: prod.splits option.splits dest!: rt_call_log f)
qed simp

lemma after_Placer_Fork:
  assumes "Placer_Fork p uid children n h = (r, h')" "pl_ops p = ops" "\<forall>c \<in> set children. store_frame (fc_ops c) R"
    "R l (h_log h)"
  shows "R l (h_log h')"
proof -
  have "R l (h_log h')" if "fork_read p uid children n h = (r, h')" "R l (h_log h)" for h r h'
    using that assms(2,3)
    by (auto simp: fork_read_def split: prod.splits sum.splits option.splits dest!: after_forkSource after_fork_children)
  then show ?thesis using guarded_log [OF assms(1) [unfolded Placer_Fork_def], of "R l"] assms(4) by blast
qed

end

end
