(* ===== verification/Service_Errors.thy ===== *)
theory Service_Errors
  imports Registry Sqlitelog
begin

text \<open>
  The status codes of the Sessions service: which gRPC code each internal error becomes at the boundary
  (\<^verbatim>\<open>session/service.go\<close>, \<^verbatim>\<open>approval.go\<close>, \<^verbatim>\<open>delete.go\<close>).  The functions of one operation each test the same
  sentinels in their own order.
\<close>

section \<open>Statuses\<close>

definition ErrSnapshotSuperseded :: goerr where
  "ErrSnapshotSuperseded = ErrNew ''runtime: fork source snapshot was superseded''"

text \<open>\<^verbatim>\<open>status.Errorf(code, "pre%vsuf", err)\<close>.\<close>

definition statusf :: "grpc_code \<Rightarrow> string \<Rightarrow> goerr \<Rightarrow> string \<Rightarrow> goerr" where
  "statusf c pre e suf = ErrStatus c (pre @ error_text e @ suf)"

definition withStatusCause :: "grpc_code \<Rightarrow> goerr \<Rightarrow> goerr" where
  "withStatusCause c e = ErrStatusCause c e"

text \<open>\<^verbatim>\<open>status.FromContextError(err).Err()\<close>.\<close>

definition FromContextError :: "goerr \<Rightarrow> goerr" where
  "FromContextError e =
     (if errors_is e ContextDeadlineExceeded then ErrStatus CodeDeadlineExceeded (error_text e)
      else if errors_is e ContextCanceled then ErrStatus CodeCanceled (error_text e)
      else ErrStatus CodeUnknown (error_text e))"

definition harnessError :: "goerr \<Rightarrow> goerr" where
  "harnessError e =
     (if errors_is e ErrHarnessUnservable then ErrStatus CodeFailedPrecondition (error_text e)
      else if errors_is e ErrUnknownHarness then ErrStatus CodeInvalidArgument (error_text e)
      else statusf CodeInternal ''resolve harness: '' e [])"

definition sessionStoreError :: "goerr \<Rightarrow> string \<Rightarrow> goerr" where
  "sessionStoreError e uid =
     (if errors_is e ErrSessionNotFound then ErrStatus CodeNotFound (''session '' @ format_q uid @ '' not found'')
      else statusf CodeInternal (''session '' @ format_q uid @ '': '') e [])"

definition deletedSessionError :: "session_info \<Rightarrow> goerr option" where
  "deletedSessionError info =
     (if si_deletionState info = DeletionActive then None
      else Some (withStatusCause CodeFailedPrecondition
             (errorf (''session '' @ format_q (sm_uid info) @ '': '') ErrDeleted [])))"

definition admissionInterruptedCode :: "goerr \<Rightarrow> grpc_code" where
  "admissionInterruptedCode e = (if errors_is e ContextDeadlineExceeded then CodeDeadlineExceeded else CodeCanceled)"

section \<open>One function per operation\<close>

definition forkError :: "goerr \<Rightarrow> goerr" where
  "forkError e =
     (if errors_is e ErrDeleted then withStatusCause CodeFailedPrecondition e
      else if errors_is e ErrSessionBusy then ErrStatus CodeAborted (error_text e)
      else if errors_is e ErrUnplaceable \<or> errors_is e ErrDescriptorMismatch
        then ErrStatus CodeFailedPrecondition (error_text e)
      else if errors_is e ErrHarnessUnavailable then ErrStatus CodeUnavailable (error_text e)
      else if errors_is e ErrAdmissionInterrupted then ErrStatus (admissionInterruptedCode e) (error_text e)
      else if errors_is e ErrConflict \<or> errors_is e ErrFenced \<or> errors_is e ErrCheckpointing
              \<or> errors_is e ErrSnapshotSuperseded
        then ErrStatus CodeAborted (error_text e)
      else statusf CodeInternal ''fork: '' e [])"

definition suspendError :: "goerr \<Rightarrow> goerr" where
  "suspendError e =
     (if errors_is e ErrDeleted then withStatusCause CodeFailedPrecondition e
      else if errors_is e ErrSessionBusy \<or> errors_is e ErrCheckpointing \<or> errors_is e ErrConflict \<or> errors_is e ErrFenced
        then ErrStatus CodeAborted (error_text e)
      else if errors_is e ErrRecordedHarnessNotServed \<or> errors_is e ErrHarnessUnservable
              \<or> errors_is e ErrInvalidExecutionLog \<or> errors_is e ErrReplayDiverged
        then statusf CodeFailedPrecondition ''suspend: '' e []
      else if errors_is e ErrUnknownHarness then harnessError e
      else statusf CodeInternal ''suspend: '' e [])"

definition resumeError :: "goerr \<Rightarrow> goerr" where
  "resumeError e =
     (if errors_is e ErrDeleted then withStatusCause CodeFailedPrecondition e
      else if errors_is e ErrSessionBusy \<or> errors_is e ErrConflict \<or> errors_is e ErrFenced
        then ErrStatus CodeAborted (error_text e)
      else if errors_is e ErrApprovalBlocked \<or> errors_is e ErrApprovalUnavailable \<or> errors_is e ErrMissingToolExecutor
              \<or> errors_is e ErrInvalidApprovalCall \<or> errors_is e ErrApprovalReceiptReport
        then statusf CodeFailedPrecondition ''resume: '' e []
      else if errors_is e ErrInheritedToolIntent
        then statusf CodeFailedPrecondition ''resume: '' e ''; fork at or after the TOOL_RESULT, or Exec a new turn''
      else if errors_is e ErrIncompleteInvocation
        then statusf CodeFailedPrecondition ''resume: '' e
          ''; the incomplete turn never reached the harness and you should call Exec again with all inputs''
      else if errors_is e ErrInvalidExecutionLog then statusf CodeFailedPrecondition ''resume: '' e []
      else if errors_is e ErrUnplaceable \<or> errors_is e ErrDescriptorMismatch \<or> errors_is e ErrRecordedHarnessNotServed
              \<or> errors_is e ErrHarnessUnservable \<or> errors_is e ErrHarnessMismatch \<or> errors_is e ErrHarnessVersionMismatch
        then statusf CodeFailedPrecondition ''resume: '' e []
      else if errors_is e ErrUnknownHarness then harnessError e
      else if errors_is e ErrHarnessUnavailable then statusf CodeUnavailable ''resume: '' e []
      else if errors_is e ErrAdmissionInterrupted then statusf (admissionInterruptedCode e) ''resume: '' e []
      else if errors_is e ErrCheckpointing then statusf CodeAborted ''resume: '' e []
      else statusf CodeInternal ''resume: '' e [])"

definition execError :: "goerr \<Rightarrow> goerr" where
  "execError e =
     (if errors_is e ErrDeleted then withStatusCause CodeFailedPrecondition e
      else if errors_is e ErrSessionBusy then ErrStatus CodeAborted (error_text e)
      else if errors_is e ErrApprovalBlocked \<or> errors_is e ErrApprovalUnavailable \<or> errors_is e ErrMissingToolExecutor
              \<or> errors_is e ErrInvalidApprovalCall \<or> errors_is e ErrApprovalReceiptReport \<or> errors_is e ErrUnplaceable
              \<or> errors_is e ErrInvalidExecutionLog \<or> errors_is e ErrDescriptorMismatch \<or> errors_is e ErrHarnessMismatch
              \<or> errors_is e ErrHarnessVersionMismatch
        then ErrStatus CodeFailedPrecondition (error_text e)
      else if errors_is e ErrHarnessUnavailable then ErrStatus CodeUnavailable (error_text e)
      else if errors_is e ErrAdmissionInterrupted then ErrStatus (admissionInterruptedCode e) (error_text e)
      else if errors_is e ErrConflict \<or> errors_is e ErrFenced \<or> errors_is e ErrCheckpointing
        then ErrStatus CodeAborted (error_text e)
      else ErrStatus CodeInternal (error_text e))"

definition approvalError :: "goerr \<Rightarrow> goerr" where
  "approvalError e =
     (if errors_is e ErrDeleted then withStatusCause CodeFailedPrecondition e
      else if errors_is e ErrInvalidApprovalDecision \<or> errors_is e ErrInvalidExecutionLog \<or> errors_is e ErrReplayDiverged
              \<or> errors_is e ErrApprovalUnavailable
        then ErrStatus CodeFailedPrecondition (error_text e)
      else if errors_is e ErrSessionBusy \<or> errors_is e ErrCheckpointing \<or> errors_is e ErrConflict \<or> errors_is e ErrFenced
        then ErrStatus CodeAborted (error_text e)
      else statusf CodeInternal ''approve: '' e [])"

definition deleteError :: "goerr \<Rightarrow> string \<Rightarrow> goerr" where
  "deleteError e uid =
     (let code = (if errors_is e ErrSessionBusy then CodeAborted
                  else if errors_is e ErrSessionNotFound then CodeNotFound
                  else if errors_is e ErrDeleted then CodeFailedPrecondition
                  else if errors_is e ContextCanceled then CodeCanceled
                  else if errors_is e ContextDeadlineExceeded then CodeDeadlineExceeded
                  else CodeInternal)
      in withStatusCause code (errorf (''delete session '' @ format_q uid @ '': '') e []))"

definition serviceErrorKind :: "goerr option \<Rightarrow> string" where
  "serviceErrorKind err =
     (case err of
        None \<Rightarrow> []
      | Some e \<Rightarrow>
          if errors_is e ContextCanceled then ''canceled''
          else if errors_is e ContextDeadlineExceeded then ''deadline_exceeded''
          else (case status_code e of
                  CodeAborted \<Rightarrow> ''conflict''
                | CodeFailedPrecondition \<Rightarrow> ''failed_precondition''
                | CodeInvalidArgument \<Rightarrow> ''invalid_argument''
                | CodeCanceled \<Rightarrow> ''canceled''
                | CodeDeadlineExceeded \<Rightarrow> ''deadline_exceeded''
                | CodeUnavailable \<Rightarrow> ''unavailable''
                | CodeNotFound \<Rightarrow> ''not_found''
                | CodeAlreadyExists \<Rightarrow> ''already_exists''
                | _ \<Rightarrow> ''internal''))"

end
