(* ===== verification/Json_Map.thy ===== *)
theory Json_Map
  imports Wire "HOL-Library.AList" "HOL-Library.List_Lexorder" "HOL-Library.Char_ord"
begin

text \<open>
  Labels and annotations are stored as the JSON text of a \<^verbatim>\<open>map[string]string\<close>
  (\<^verbatim>\<open>session/metadata.go\<close>).  This theory models what \<^verbatim>\<open>encoding/json\<close> writes for such a map and which texts
  it reads as one, and shows that a stored map of valid UTF-8 comes back.
\<close>

section \<open>Runes\<close>

text \<open>The length of the valid UTF-8 sequence at the front, 0 when there is none (\<^verbatim>\<open>utf8.DecodeRune\<close>).\<close>

definition rune_size :: "string \<Rightarrow> nat" where
  "rune_size s =
     (case s of
        [] \<Rightarrow> 0
      | a # cs \<Rightarrow>
          let n = (of_char a :: nat) in
          if n < 128 then 1
          else if 194 \<le> n \<and> n < 224 then
            (case cs of b # _ \<Rightarrow> if cont_byte b then 2 else 0 | _ \<Rightarrow> 0)
          else if 224 \<le> n \<and> n < 240 then
            (case cs of b # b' # _ \<Rightarrow>
               if cont_byte b \<and> cont_byte b' \<and> (n = 224 \<longrightarrow> 160 \<le> (of_char b :: nat)) \<and> (n = 237 \<longrightarrow> (of_char b :: nat) < 160)
               then 3 else 0
             | _ \<Rightarrow> 0)
          else if 240 \<le> n \<and> n < 245 then
            (case cs of b # b' # b'' # _ \<Rightarrow>
               if cont_byte b \<and> cont_byte b' \<and> cont_byte b''
                  \<and> (n = 240 \<longrightarrow> 144 \<le> (of_char b :: nat)) \<and> (n = 244 \<longrightarrow> (of_char b :: nat) < 144)
               then 4 else 0
             | _ \<Rightarrow> 0)
          else 0)"

text \<open>\<^verbatim>\<open>utf8.EncodeRune\<close>; a surrogate or a value beyond the last code point becomes the replacement character.\<close>

definition replacement :: string where
  "replacement = [CHR 0xEF, CHR 0xBF, CHR 0xBD]"

definition EncodeRune :: "nat \<Rightarrow> string" where
  "EncodeRune r =
     (if r < 128 then [char_of r]
      else if r < 2048 then [char_of (192 + r div 64), char_of (128 + r mod 64)]
      else if 55296 \<le> r \<and> r < 57344 \<or> 1114111 < r then replacement
      else if r < 65536 then [char_of (224 + r div 4096), char_of (128 + r div 64 mod 64), char_of (128 + r mod 64)]
      else [char_of (240 + r div 262144), char_of (128 + r div 4096 mod 64), char_of (128 + r div 64 mod 64),
            char_of (128 + r mod 64)])"

section \<open>Writing\<close>

definition backslash :: char where
  "backslash = CHR 0x5C"

text \<open>One rune of a string literal, with the HTML escapes that \<^verbatim>\<open>json.Marshal\<close> applies.\<close>

definition json_rune :: "string \<Rightarrow> string" where
  "json_rune rune =
     (case rune of
        [c] \<Rightarrow>
          (let n = (of_char c :: nat) in
           if n = 92 \<or> n = 34 then [backslash, c]
           else if n = 8 then [backslash, CHR ''b''] else if n = 12 then [backslash, CHR ''f'']
           else if n = 10 then [backslash, CHR ''n''] else if n = 13 then [backslash, CHR ''r'']
           else if n = 9 then [backslash, CHR ''t'']
           else if n < 32 \<or> n = 60 \<or> n = 62 \<or> n = 38 then backslash # ''u00'' @ hex_byte c
           else [c])
      | _ \<Rightarrow>
          if rune = [CHR 0xE2, CHR 0x80, CHR 0xA8] then backslash # ''u2028''
          else if rune = [CHR 0xE2, CHR 0x80, CHR 0xA9] then backslash # ''u2029''
          else rune)"

fun json_escape :: "string \<Rightarrow> string" where
  "json_escape [] = []"
| "json_escape (c # cs) =
     (let k = rune_size (c # cs) in
      if k = 0 then backslash # ''ufffd'' @ json_escape cs
      else json_rune (take k (c # cs)) @ json_escape (drop (k - 1) cs))"

definition json_quote :: "string \<Rightarrow> string" where
  "json_quote s = CHR 0x22 # json_escape s @ [CHR 0x22]"

fun json_fields :: "(string \<times> string) list \<Rightarrow> string" where
  "json_fields [] = []"
| "json_fields [(k, v)] = json_quote k @ CHR '':'' # json_quote v"
| "json_fields ((k, v) # kvs) = json_quote k @ CHR '':'' # json_quote v @ CHR '','' # json_fields kvs"

text \<open>\<^verbatim>\<open>encodeMap\<close>: keys in increasing order.  \<^verbatim>\<open>json.Marshal\<close> has no error for such a map.\<close>

definition encodeMap :: "(string \<times> string) list \<Rightarrow> goerr + string" where
  "encodeMap m = (if m = [] then Inr [] else Inr (CHR ''{'' # json_fields (sort_key fst m) @ [CHR ''}'']))"

section \<open>Reading\<close>

definition hex_val :: "char \<Rightarrow> nat option" where
  "hex_val c =
     (let n = (of_char c :: nat) in
      if 48 \<le> n \<and> n < 58 then Some (n - 48)
      else if 97 \<le> n \<and> n < 103 then Some (n - 87)
      else if 65 \<le> n \<and> n < 71 then Some (n - 55) else None)"

text \<open>The four hexadecimal digits of an escape.\<close>

definition hex4 :: "string \<Rightarrow> nat option" where
  "hex4 s =
     (case s of
        a # b # c # d # _ \<Rightarrow>
          (case (hex_val a, hex_val b, hex_val c, hex_val d) of
             (Some w, Some x, Some y, Some z) \<Rightarrow> Some (4096 * w + 256 * x + 16 * y + z)
           | _ \<Rightarrow> None)
      | _ \<Rightarrow> None)"

text \<open>The rune of an escape and how many bytes follow its four digits: a surrogate takes its partner along.\<close>

definition escaped_rune :: "nat \<Rightarrow> string \<Rightarrow> nat \<times> nat" where
  "escaped_rune r rest =
     (if r < 55296 \<or> 57344 \<le> r then (r, 0)
      else case rest of
        bs # u # s \<Rightarrow>
          (if bs = backslash \<and> u = CHR ''u'' then
             (case hex4 s of
                Some r' \<Rightarrow> if r < 56320 \<and> 56320 \<le> r' \<and> r' < 57344
                           then (65536 + 1024 * (r - 55296) + (r' - 56320), 6) else (65533, 0)
              | None \<Rightarrow> (65533, 0))
           else (65533, 0))
      | _ \<Rightarrow> (65533, 0))"

text \<open>A string literal after its opening quote: the value and what follows the closing quote.\<close>

fun json_unquote :: "string \<Rightarrow> (string \<times> string) option" where
  "json_unquote [] = None"
| "json_unquote (c # cs) =
     (let n = (of_char c :: nat); add = (\<lambda>pre. map_option (\<lambda>(s, r). (pre @ s, r))) in
      if n = 34 then Some ([], cs)
      else if n = 92 then
        (case cs of
           [] \<Rightarrow> None
         | e # r \<Rightarrow>
             if e = CHR 0x22 \<or> e = CHR ''/'' \<or> e = backslash then add [e] (json_unquote (drop 1 cs))
             else if e = CHR ''b'' then add [CHR 0x08] (json_unquote (drop 1 cs))
             else if e = CHR ''f'' then add [CHR 0x0C] (json_unquote (drop 1 cs))
             else if e = CHR ''n'' then add [CHR 0x0A] (json_unquote (drop 1 cs))
             else if e = CHR ''r'' then add [CHR 0x0D] (json_unquote (drop 1 cs))
             else if e = CHR ''t'' then add [CHR 0x09] (json_unquote (drop 1 cs))
             else if e = CHR ''u'' then
               (case hex4 r of
                  None \<Rightarrow> None
                | Some h \<Rightarrow> (case escaped_rune h (drop 4 r) of
                              (rune, extra) \<Rightarrow> add (EncodeRune rune) (json_unquote (drop (5 + extra) cs))))
             else None)
      else if n < 32 then None
      else let k = rune_size (c # cs) in
           if k = 0 then add replacement (json_unquote cs)
           else add (take k (c # cs)) (json_unquote (drop (k - 1) cs)))"

definition json_space :: "char \<Rightarrow> bool" where
  "json_space c \<longleftrightarrow> c = CHR '' '' \<or> c = CHR 0x09 \<or> c = CHR 0x0A \<or> c = CHR 0x0D"

definition skip :: "string \<Rightarrow> string" where
  "skip s = dropWhile json_space s"

text \<open>A value: a string, or \<^verbatim>\<open>null\<close>, which leaves the element empty.\<close>

definition json_value :: "string \<Rightarrow> (string \<times> string) option" where
  "json_value s =
     (case s of
        q # r \<Rightarrow> if q = CHR 0x22 then json_unquote r
                 else if take 4 s = ''null'' then Some ([], drop 4 s) else None
      | [] \<Rightarrow> None)"

definition json_member :: "string \<Rightarrow> ((string \<times> string) \<times> string) option" where
  "json_member s =
     (case s of
        [] \<Rightarrow> None
      | q # r \<Rightarrow>
     if q \<noteq> CHR 0x22 then None
     else case json_unquote r of
        None \<Rightarrow> None
      | Some (k, r1) \<Rightarrow>
     (case skip r1 of
        [] \<Rightarrow> None
      | colon # r2 \<Rightarrow>
     if colon \<noteq> CHR '':'' then None
     else case json_value (skip r2) of
        None \<Rightarrow> None
      | Some (v, r3) \<Rightarrow> Some ((k, v), r3)))"

lemma skip_length: "length (skip s) \<le> length s"
  by (simp add: skip_def length_dropWhile_le)

lemma json_unquote_length: "json_unquote s = Some (v, r) \<Longrightarrow> length r < length s"
proof (induction s arbitrary: v r rule: json_unquote.induct)
  case (2 c cs)
  have step: "length r < length (c # cs)" if "json_unquote (drop m cs) = Some (w, r)" "length r < length (drop m cs)" for m w
    using that by simp
  show ?case using 2 by (auto simp: Let_def split: if_splits list.splits option.splits prod.splits) fastforce+
qed simp

lemma json_value_length: "json_value s = Some (v, r) \<Longrightarrow> length r < length s"
  by (auto simp: json_value_def split: list.splits if_splits dest: json_unquote_length)

lemma json_member_length: "json_member s = Some (kv, r) \<Longrightarrow> length r < length s"
proof -
  assume m: "json_member s = Some (kv, r)"
  then obtain q r0 k r1 c r2 v where s: "s = q # r0" "json_unquote r0 = Some (k, r1)" "skip r1 = c # r2"
      "json_value (skip r2) = Some (v, r)"
    by (auto simp: json_member_def split: list.splits if_splits option.splits)
  have "length r < length (skip r2)" "length (c # r2) \<le> length r1" "length r1 < length r0"
    using s json_value_length json_unquote_length skip_length [of r1] by auto
  then show ?thesis using s(1) skip_length [of r2] by simp
qed

text \<open>The members up to the closing brace; a repeated key overwrites.\<close>

function json_members :: "(string \<times> string) list \<Rightarrow> string \<Rightarrow> ((string \<times> string) list \<times> string) option" where
  "json_members acc s =
     (case json_member s of
        None \<Rightarrow> None
      | Some ((k, v), r) \<Rightarrow>
          let acc = AList.update k v acc in
          (case skip r of
             [] \<Rightarrow> None
           | c # r' \<Rightarrow> if c = CHR '','' then json_members acc (skip r')
                       else if c = CHR ''}'' then Some (acc, r') else None))"
  by auto
termination
proof (relation "measure (length \<circ> snd)")
  fix acc s x kv r k v acc' c r'
  assume "json_member s = Some x" "(kv, r) = x" "skip r = c # r'"
  then have "length r < length s" "Suc (length r') \<le> length r" using json_member_length [of s kv r] skip_length [of r] by auto
  then show "((acc', skip r'), acc, s) \<in> measure (length \<circ> snd)" using skip_length [of r'] by simp
qed simp

declare json_members.simps [simp del]

definition json_object :: "string \<Rightarrow> (string \<times> string) list option" where
  "json_object s =
     (let finish = (\<lambda>m r. if skip r = [] then Some m else None) in
      case skip s of
        [] \<Rightarrow> None
      | c # r \<Rightarrow>
          if c = CHR ''{'' then
            (case skip r of
               [] \<Rightarrow> None
             | d # r' \<Rightarrow> if d = CHR ''}'' then finish [] r'
                         else (case json_members [] (d # r') of None \<Rightarrow> None | Some (m, r'') \<Rightarrow> finish m r''))
          else if take 4 (c # r) = ''null'' then finish [] (drop 3 r) else None)"

text \<open>\<^verbatim>\<open>decodeMap\<close>; \<open>bad\<close> is the error \<^verbatim>\<open>encoding/json\<close> reports for a text that is no such map.\<close>

definition decodeMap :: "(string \<Rightarrow> goerr) \<Rightarrow> string \<Rightarrow> goerr + (string \<times> string) list" where
  "decodeMap bad stored =
     (if stored = [] then Inr []
      else case json_object stored of
        None \<Rightarrow> Inl (errorf ''decode map: '' (bad stored) [])
      | Some m \<Rightarrow> Inr m)"

section \<open>A stored map comes back\<close>

text \<open>A rune at the front of a valid string.\<close>

lemma valid_rune:
  assumes "utf8_ok (c # cs)"
  obtains rest rune where "c # cs = rune @ rest" "utf8_ok rest" "\<And>t. rune_size (rune @ t) = length rune" "rune = [c] \<or> 128 \<le> (of_char c :: nat) \<and> 1 < length rune"
proof -
  let ?n = "of_char c :: nat"
  consider "?n < 128" | "194 \<le> ?n" "?n < 224" | "224 \<le> ?n" "?n < 240" | "240 \<le> ?n" "?n < 245"
    using assms by (auto simp: Let_def split: if_splits)
  then show thesis
  proof cases
    case 1
    then show thesis using assms by (intro that [of "[c]" cs]) (auto simp: rune_size_def)
  next
    case 2
    then obtain b r where "cs = b # r" "cont_byte b" "utf8_ok r" using assms by (auto split: list.splits)
    then show thesis using 2 by (intro that [of "[c, b]" r]) (auto simp: rune_size_def)
  next
    case 3
    then obtain b b' r where "cs = b # b' # r" "utf8_ok r" "cont_byte b \<and> cont_byte b'"
        "?n = 224 \<longrightarrow> 160 \<le> (of_char b :: nat)" "?n = 237 \<longrightarrow> (of_char b :: nat) < 160"
      using assms by (cases cs; cases "tl cs") (auto simp: Let_def)
    then show thesis using 3 by (intro that [of "[c, b, b']" r]) (auto simp: rune_size_def)
  next
    case 4
    then obtain b b' b'' r where "cs = b # b' # b'' # r" "utf8_ok r" "cont_byte b \<and> cont_byte b' \<and> cont_byte b''"
        "?n = 240 \<longrightarrow> 144 \<le> (of_char b :: nat)" "?n = 244 \<longrightarrow> (of_char b :: nat) < 144"
      using assms by (cases cs; cases "tl cs"; cases "tl (tl cs)") (auto simp: Let_def)
    then show thesis using 4 by (intro that [of "[c, b, b', b'']" r]) (auto simp: rune_size_def)
  qed
qed

lemma hex_val_digit: "n < 16 \<Longrightarrow> hex_val (hex_digit n) = Some n"
  by (auto simp: hex_val_def hex_digit_def of_char_of)

lemma zero_digit: "hex_val CHR ''0'' = Some 0"
  by (simp add: hex_val_def)

lemma hex_byte_val: "hex4 (''00'' @ hex_byte c @ t) = Some (of_char c)"
proof -
  have "of_char c < (256 :: nat)" by simp
  then have "of_char c div 16 < (16 :: nat)" by linarith
  then show ?thesis by (simp add: hex4_def hex_byte_def hex_val_digit zero_digit)
qed

lemma char_values [simp]:
  "char_of (92 :: nat) = CHR 0x5C" "char_of (34 :: nat) = CHR 0x22" "char_of (8 :: nat) = CHR 0x08"
  "char_of (12 :: nat) = CHR 0x0C" "char_of (10 :: nat) = CHR 0x0A" "char_of (13 :: nat) = CHR 0x0D"
  "char_of (9 :: nat) = CHR 0x09" "char_of (226 :: nat) = CHR 0xE2" "char_of (128 :: nat) = CHR 0x80"
  "char_of (168 :: nat) = CHR 0xA8" "char_of (169 :: nat) = CHR 0xA9"
  by code_simp+

text \<open>What follows the escaped form of an ASCII character is read as that character and the rest.\<close>

lemma unquote_ascii:
  assumes "(of_char c :: nat) < 128"
  shows "json_unquote (json_rune [c] @ t) = map_option (\<lambda>(s, r). (c # s, r)) (json_unquote t)"
proof -
  have char: "of_char c = n \<Longrightarrow> c = char_of n" for n :: nat by auto
  have enc: "EncodeRune (of_char c) = [c]" using assms by (simp add: EncodeRune_def)
  have esc: "escaped_rune (of_char c) r = (of_char c, 0)" for r using assms by (simp add: escaped_rune_def)
  show ?thesis
  proof (cases "of_char c \<in> {92, 34, 8, 12, 10, 13, 9 :: nat}")
    case True
    then have "c \<in> {CHR 0x5C, CHR 0x22, CHR 0x08, CHR 0x0C, CHR 0x0A, CHR 0x0D, CHR 0x09}"
      by (auto dest!: char)
    then show ?thesis by (elim insertE emptyE) (simp_all add: json_rune_def backslash_def Let_def)
  next
    case False
    show ?thesis
    proof (cases "of_char c < (32 :: nat) \<or> of_char c = (60 :: nat) \<or> of_char c = (62 :: nat) \<or> of_char c = (38 :: nat)")
      case True
      then have u: "json_rune [c] = backslash # ''u00'' @ hex_byte c" using False by (simp add: json_rune_def Let_def)
      have "length (hex_byte c) = 2" by (simp add: hex_byte_def)
      then have "drop 5 (CHR ''u'' # ''00'' @ hex_byte c @ t) = t" by simp
      then show ?thesis unfolding u using hex_byte_val [of c t] enc esc
        by (simp add: backslash_def Let_def)
    next
      case plain: False
      then have r: "json_rune [c] = [c]" using False by (simp add: json_rune_def Let_def)
      have "rune_size (c # t) = 1" using assms by (simp add: rune_size_def)
      then show ?thesis using plain False r by (simp add: Let_def)
    qed
  qed
qed

text \<open>The two separators that are escaped, and every other rune of several bytes.\<close>

lemma unquote_high:
  assumes "rune = c # r" "128 \<le> (of_char c :: nat)" "1 < length rune" "\<And>t. rune_size (rune @ t) = length rune"
  shows "json_unquote (json_rune rune @ t) = map_option (\<lambda>(s, r). (rune @ s, r)) (json_unquote t)"
proof (cases "rune = [CHR 0xE2, CHR 0x80, CHR 0xA8] \<or> rune = [CHR 0xE2, CHR 0x80, CHR 0xA9]")
  case True
  then show ?thesis
    by (auto simp: json_rune_def backslash_def Let_def hex4_def hex_val_def escaped_rune_def EncodeRune_def)
next
  case False
  then have r: "json_rune rune = rune" using assms by (auto simp: json_rune_def split: list.splits)
  have "take (length rune) (c # r @ t) = rune" "drop (length rune - 1) (r @ t) = t" using assms(1) by simp_all
  then show ?thesis unfolding r using assms(2,3) assms(4) [of t] by (simp add: assms(1) Let_def)
qed

lemma unquote_escape:
  assumes "utf8_ok s"
  shows "json_unquote (json_escape s @ CHR 0x22 # t) = Some (s, t)"
  using assms
proof (induction s rule: json_escape.induct)
  case (2 c cs)
  from 2(3) obtain rest rune where split: "c # cs = rune @ rest" "utf8_ok rest"
    and size: "\<And>t. rune_size (rune @ t) = length rune"
    and kind: "rune = [c] \<or> 128 \<le> (of_char c :: nat) \<and> 1 < length rune" by (rule valid_rune) blast
  have k: "rune_size (c # cs) = length rune" using size [of rest] split by simp
  have ne: "rune \<noteq> []" using kind by auto
  have rest: "drop (length rune - 1) cs = rest" using split(1) ne by (cases rune) auto
  have front: "take (length rune) (c # cs) = rune" unfolding split(1) by simp
  have esc: "json_escape (c # cs) = json_rune rune @ json_escape rest"
    by (subst json_escape.simps) (simp only: k rest Let_def front length_0_conv ne if_False)
  have ih: "json_unquote (json_escape rest @ CHR 0x22 # t) = Some (rest, t)"
    using 2(2) [OF refl] k ne rest split(2) by simp
  have first: "json_unquote (json_rune rune @ u) = map_option (\<lambda>(s, r). (rune @ s, r)) (json_unquote u)" for u
  proof (cases "128 \<le> (of_char c :: nat)")
    case True
    have "1 < length rune" using kind True size [of "[]"] by (auto simp: rune_size_def Let_def split: if_splits)
    moreover obtain r where "rune = c # r" using split(1) ne by (cases rune) auto
    ultimately show ?thesis using unquote_high [of rune c r u] True size by blast
  next
    case False
    then show ?thesis using kind unquote_ascii [of c u] by auto
  qed
  show ?case unfolding esc using first ih split(1) by simp
qed simp

lemma skip_quote [simp]: "skip (json_quote s @ t) = json_quote s @ t" "skip [] = []" "skip (CHR ''}'' # t) = CHR ''}'' # t"
  "skip (CHR '':'' # t) = CHR '':'' # t" "skip (CHR '','' # t) = CHR '','' # t"
  by (simp_all add: skip_def json_quote_def json_space_def)

lemma member_quote:
  assumes "utf8_ok k" "utf8_ok v"
  shows "json_member (json_quote k @ CHR '':'' # json_quote v @ t) = Some ((k, v), t)"
  using unquote_escape [OF assms(1)] unquote_escape [OF assms(2)] skip_quote(1) [of v t]
  by (simp add: json_member_def json_value_def json_quote_def)

lemma update_fresh: "k \<notin> fst ` set acc \<Longrightarrow> AList.update k v acc = acc @ [(k, v)]"
  by (induction acc) auto

lemma members_fields:
  assumes "kvs \<noteq> []" "distinct (map fst (acc @ kvs))" "\<forall>(k, v) \<in> set kvs. utf8_ok k \<and> utf8_ok v"
  shows "json_members acc (json_fields kvs @ CHR ''}'' # t) = Some (acc @ kvs, t)"
  using assms
proof (induction kvs arbitrary: acc rule: json_fields.induct)
  case (2 k v)
  then show ?case using member_quote [of k v "CHR ''}'' # t"] update_fresh [of k acc v]
    by (subst json_members.simps) (simp add: Let_def)
next
  case (3 k v x xs)
  let ?rest = "json_fields (x # xs) @ CHR ''}'' # t"
  obtain q where q: "json_fields (x # xs) = CHR 0x22 # q" by (cases x; cases xs) (auto simp: json_quote_def)
  then have s: "skip ?rest = ?rest" by (simp add: skip_def json_space_def)
  have "json_members (acc @ [(k, v)]) ?rest = Some ((acc @ [(k, v)]) @ x # xs, t)" using 3 by (intro "3.IH") auto
  then show ?case using 3 member_quote [of k v "CHR '','' # ?rest"] update_fresh [of k acc v] s
    by (subst json_members.simps) (simp add: Let_def)
qed simp

text \<open>
  Stored labels come back.  For every map whose keys and values are valid UTF-8, which is what a protobuf
  string holds, \<^verbatim>\<open>decodeMap\<close> of the text that \<^verbatim>\<open>encodeMap\<close> stored is that map: the keys in order, each once,
  with every control character, quote, backslash, HTML character, line separator and multi-byte rune as
  it was; and the stored text is empty exactly when the map is.
\<close>

definition map_ok :: "(string \<times> string) list \<Rightarrow> bool" where
  "map_ok m \<longleftrightarrow> distinct (map fst m) \<and> (\<forall>(k, v) \<in> set m. utf8_ok k \<and> utf8_ok v)"

lemma stored_map_round_trip:
  assumes "map_ok m"
  shows "\<exists>text. encodeMap m = Inr text \<and> decodeMap bad text = Inr (sort_key fst m) \<and> (text = [] \<longleftrightarrow> m = [])"
proof (cases "m = []")
  case False
  let ?kvs = "sort_key fst m"
  have "set ?kvs = set m" by simp
  then obtain x xs where kvs: "?kvs = x # xs" using False by (cases ?kvs) auto
  have d: "distinct (map fst ([] @ ?kvs))" using assms by (simp add: map_ok_def distinct_map)
  have u: "\<forall>(k, v) \<in> set ?kvs. utf8_ok k \<and> utf8_ok v" using assms by (simp add: map_ok_def)
  have "json_members [] (json_fields ?kvs @ [CHR ''}'']) = Some (?kvs, [])"
    using members_fields [OF _ d u, of "[]"] kvs by simp
  moreover obtain q where "json_fields (x # xs) = CHR 0x22 # q" by (cases x; cases xs) (auto simp: json_quote_def)
  ultimately have "json_object (CHR ''{'' # json_fields ?kvs @ [CHR ''}'']) = Some ?kvs"
    using kvs by (simp add: json_object_def skip_def json_space_def)
  then show ?thesis using False by (simp add: encodeMap_def decodeMap_def)
qed (simp add: encodeMap_def decodeMap_def)


end
