(* ===== verification/Session_Service.thy ===== *)
theory Session_Service
  imports Service_Errors Json_Map
begin

text \<open>
  The Sessions service (\<^verbatim>\<open>session/service.go\<close>, \<^verbatim>\<open>approval.go\<close>, \<^verbatim>\<open>delete.go\<close>, \<^verbatim>\<open>metadata.go\<close>): every RPC over the SQLite
  store, the registry and its Placers.  The state is the host of \<open>Placement\<close> whose store is the database
  beside the handler's variable \<^verbatim>\<open>refused\<close>, which its harness check assigns.  The registry may change
  between any two looks at it, because registrations arrive meanwhile, so it is a function of the tick;
  the database changes only through the handler itself.  Logging and request ids are left out.
\<close>

section \<open>Messages\<close>

record pb_origin =
  po_source :: string
  po_subject :: string
  po_uri :: string
  po_attributes :: "(string \<times> string) list"

record pb_session =
  ps_project :: string
  ps_name :: string
  ps_uid :: string
  ps_createTime :: "int64 option"
  ps_updateTime :: "int64 option"
  ps_harness :: string
  ps_model :: string
  ps_execState :: pb_exec_state
  ps_computeState :: pb_compute_state
  ps_lastSeq :: int64
  ps_parentUid :: string
  ps_forkSeq :: int64
  ps_deletionState :: pb_deletion_state
  ps_deletionRequestedTime :: "int64 option"
  ps_pendingApproval :: "approval_ref option"
  ps_labels :: "(string \<times> string) list"
  ps_annotations :: "(string \<times> string) list"
  ps_origin :: "pb_origin option"
  ps_identity :: "pb_identity option"

type_synonym service_state = "sqlite_db \<times> goerr option"

text \<open>
  The service and its environment: the store's, the registry at each moment, the Placer at each address,
  random bytes, the clock, the contexts of the call (\<open>sv_deadlineErr\<close> with a deadline set), and the JSON
  forms of the two messages that metadata rows keep.
\<close>

record service =
  sv_env :: sql_env
  sv_registry :: "nat \<Rightarrow> registry"
  sv_placer :: "nat \<Rightarrow> service_state placer"
  sv_defaultProject :: string
  sv_random :: "nat \<Rightarrow> bytes"
  sv_now :: "nat \<Rightarrow> int64"
  sv_ctxErr :: "nat \<Rightarrow> goerr option"
  sv_deadlineErr :: "int64 \<Rightarrow> nat \<Rightarrow> goerr option"
  sv_dbCtxErr :: "nat \<Rightarrow> goerr option"
  sv_jsonError :: "string \<Rightarrow> goerr"
  sv_marshalOrigin :: "pb_origin \<Rightarrow> goerr + string"
  sv_unmarshalOrigin :: "string \<Rightarrow> goerr + pb_origin"
  sv_marshalIdentity :: "pb_identity \<Rightarrow> goerr + string"
  sv_unmarshalIdentity :: "string \<Rightarrow> goerr + pb_identity"

definition svc_db :: "service_state host \<Rightarrow> sqlite_db" where
  "svc_db h = fst (h_log h)"

definition set_db :: "sqlite_db \<Rightarrow> service_state host \<Rightarrow> service_state host" where
  "set_db db h = set_log (db, snd (h_log h)) h"

definition svc_refused :: "service_state host \<Rightarrow> goerr option" where
  "svc_refused h = snd (h_log h)"

definition set_refused :: "goerr option \<Rightarrow> service_state host \<Rightarrow> service_state host" where
  "set_refused e h = set_log (svc_db h, e) h"

definition session_log :: "service \<Rightarrow> string \<Rightarrow> service_state store_ops" where
  "session_log sv uid = fst_ops (Store_Session (sv_env sv) uid)"

definition registry_now :: "service \<Rightarrow> service_state host \<Rightarrow> registry \<times> service_state host" where
  "registry_now sv h = (case ask h of (t, h1) \<Rightarrow> (sv_registry sv t, h1))"

definition newUID :: "service \<Rightarrow> service_state host \<Rightarrow> string \<times> service_state host" where
  "newUID sv h = (case ask h of (t, h1) \<Rightarrow> (''sess-'' @ hex_encode (sv_random sv t), h1))"

section \<open>Stored metadata\<close>

text \<open>\<^verbatim>\<open>encodeMessage\<close>; \<open>size0\<close> says that the message is valid and has no bytes on the wire.\<close>

definition encodeMessage :: "('m \<Rightarrow> goerr + string) \<Rightarrow> string \<Rightarrow> ('m \<Rightarrow> bool) \<Rightarrow> 'm option \<Rightarrow> goerr + string" where
  "encodeMessage marshal typ size0 m =
     (case m of
        None \<Rightarrow> Inr []
      | Some msg \<Rightarrow>
          if size0 msg then Inr []
          else (case marshal msg of
                  Inl e \<Rightarrow> Inl (errorf (''encode '' @ typ @ '': '') e [])
                | Inr b \<Rightarrow> Inr b))"

definition decodeMessage :: "(string \<Rightarrow> goerr + 'm) \<Rightarrow> string \<Rightarrow> string \<Rightarrow> goerr + 'm option" where
  "decodeMessage unmarshal typ stored =
     (if stored = [] then Inr None
      else case unmarshal stored of
        Inl e \<Rightarrow> Inl (errorf (''decode '' @ typ @ '': '') e [])
      | Inr m \<Rightarrow> Inr (Some m))"

definition origin_size0 :: "pb_origin \<Rightarrow> bool" where
  "origin_size0 o1 \<longleftrightarrow> po_source o1 = [] \<and> po_subject o1 = [] \<and> po_uri o1 = [] \<and> po_attributes o1 = []"

definition identity_size0 :: "pb_identity \<Rightarrow> bool" where
  "identity_size0 i \<longleftrightarrow> pi_principal i = [] \<and> pi_issuer i = [] \<and> pi_subject i = []"

definition metadataFromSpec :: "service \<Rightarrow> pb_session \<Rightarrow> goerr + string \<times> string \<times> string \<times> string" where
  "metadataFromSpec sv spec =
     (case encodeMap (ps_labels spec) of
        Inl e \<Rightarrow> Inl e
      | Inr labels \<Rightarrow>
     (case encodeMap (ps_annotations spec) of
        Inl e \<Rightarrow> Inl e
      | Inr annotations \<Rightarrow>
     (case encodeMessage (sv_marshalOrigin sv) ''*agentsessionsv1.Origin'' origin_size0 (ps_origin spec) of
        Inl e \<Rightarrow> Inl e
      | Inr orig \<Rightarrow>
     (case encodeMessage (sv_marshalIdentity sv) ''*agentsessionsv1.IdentityRef'' identity_size0 (ps_identity spec) of
        Inl e \<Rightarrow> Inl e
      | Inr identity \<Rightarrow> Inr (labels, annotations, orig, identity)))))"

definition applyMetadata :: "service \<Rightarrow> session_info \<Rightarrow> pb_session \<Rightarrow> goerr + pb_session" where
  "applyMetadata sv info out =
     (case decodeMap (sv_jsonError sv) (sm_labels info) of
        Inl e \<Rightarrow> Inl e
      | Inr labels \<Rightarrow>
     (case decodeMap (sv_jsonError sv) (sm_annotations info) of
        Inl e \<Rightarrow> Inl e
      | Inr annotations \<Rightarrow>
     (case decodeMessage (sv_unmarshalOrigin sv) ''*agentsessionsv1.Origin'' (sm_origin info) of
        Inl e \<Rightarrow> Inl e
      | Inr orig \<Rightarrow>
     (case decodeMessage (sv_unmarshalIdentity sv) ''*agentsessionsv1.IdentityRef'' (sm_identity info) of
        Inl e \<Rightarrow> Inl e
      | Inr identity \<Rightarrow> Inr (out\<lparr>ps_labels := labels, ps_annotations := annotations, ps_origin := orig,
                                ps_identity := identity\<rparr>)))))"

section \<open>The wire form of a session\<close>

definition execStateOf :: "session_info \<Rightarrow> pb_exec_state" where
  "execStateOf info =
     (if ref_requestSeq (si_pendingApproval info) > 0 then EXEC_AWAITING
      else let head = (if si_deletionSeq info > 0 then si_deletionSeq info - 1 else si_lastSeq info)
           in if head = 0 then EXEC_PENDING else EXEC_COMPLETED)"

definition sessionProto :: "service \<Rightarrow> session_info \<Rightarrow> goerr + pb_session" where
  "sessionProto sv info =
     (let out = \<lparr>ps_project = sm_project info, ps_name = sm_name info, ps_uid = sm_uid info,
                 ps_createTime = sm_createdAt info, ps_updateTime = sm_updatedAt info, ps_harness = sm_harness info,
                 ps_model = sm_model info, ps_execState = execStateOf info,
                 ps_computeState = ComputeStateToProto (si_computeState info), ps_lastSeq = si_lastSeq info,
                 ps_parentUid = sm_parentUID info, ps_forkSeq = sm_forkSeq info,
                 ps_deletionState = DeletionStateToProto (si_deletionState info),
                 ps_deletionRequestedTime = si_deletionRequestedAt info,
                 ps_pendingApproval = (if ref_requestSeq (si_pendingApproval info) > 0 \<and> si_deletionState info = DeletionActive
                                       then Some (si_pendingApproval info) else None),
                 ps_labels = [], ps_annotations = [], ps_origin = None, ps_identity = None\<rparr>
      in case applyMetadata sv info out of
           Inl e \<Rightarrow> Inl (statusf CodeInternal (''session '' @ format_q (sm_uid info) @ '': '') e [])
         | Inr s \<Rightarrow> Inr s)"

text \<open>The read that answers most calls.\<close>

definition session_view :: "service \<Rightarrow> string \<Rightarrow> service_state host \<Rightarrow> goerr + pb_session" where
  "session_view sv uid h =
     (case SessionInfo uid (svc_db h) of
        Inl e \<Rightarrow> Inl (sessionStoreError e uid)
      | Inr info \<Rightarrow> sessionProto sv info)"

section \<open>Creating, getting, listing\<close>

definition createSession ::
  "service \<Rightarrow> string \<Rightarrow> session_meta \<Rightarrow> service_state host \<Rightarrow> (goerr + pb_session) \<times> service_state host" where
  "createSession sv uid meta0 h =
     (let meta = (if sm_project meta0 = [] then meta0\<lparr>sm_project := sv_defaultProject sv\<rparr> else meta0) in
     (case registry_now sv h of
        (r, h1) \<Rightarrow>
     (case (if sm_harness meta = [] then Inr (meta\<lparr>sm_harness := rg_default r\<rparr>)
            else case For r (sm_harness meta) of Inl e \<Rightarrow> Inl (harnessError e) | Inr _ \<Rightarrow> Inr meta) of
        Inl e \<Rightarrow> (Inl e, h1)
      | Inr meta \<Rightarrow>
     (case registry_now sv h1 of
        (r, h2) \<Rightarrow>
     (case PutSessionOnActiveHarness (sv_env sv) meta (\<not> Static r (sm_harness meta)) (svc_db h2) of
        (Inl e, db) \<Rightarrow>
          (Inl (if errors_is e ErrHarnessRetired
                then statusf CodeFailedPrecondition ''create session: '' e
                       ''; it takes no new sessions, while existing sessions on it keep running''
                else if errors_is e ErrHarnessNameCollision
                then statusf CodeFailedPrecondition ''create session: '' e '' in this journal; sessions on it are refused''
                else statusf CodeInternal ''create session: '' e []), set_db db h2)
      | (Inr _, db) \<Rightarrow>
          let h3 = set_db db h2 in
          (case SessionInfo uid db of
             Inl e \<Rightarrow> (Inl (statusf CodeInternal ''create session: '' e []), h3)
           | Inr info \<Rightarrow> (sessionProto sv info, h3)))))))"

definition spec_meta :: "string \<Rightarrow> pb_session \<Rightarrow> string \<times> string \<times> string \<times> string \<Rightarrow> session_meta" where
  "spec_meta uid spec md =
     (case md of
        (labels, annotations, orig, identity) \<Rightarrow>
          \<lparr>sm_uid = uid, sm_project = ps_project spec, sm_name = ps_name spec, sm_harness = ps_harness spec,
           sm_model = ps_model spec, sm_parentUID = [], sm_forkSeq = 0, sm_createdAt = None, sm_updatedAt = None,
           sm_labels = labels, sm_annotations = annotations, sm_origin = orig, sm_identity = identity\<rparr>)"

definition Service_CreateSession ::
  "service \<Rightarrow> pb_session \<Rightarrow> service_state host \<Rightarrow> (goerr + pb_session) \<times> service_state host" where
  "Service_CreateSession sv spec h =
     (case newUID sv h of
        (uid, h1) \<Rightarrow>
     (case metadataFromSpec sv spec of
        Inl e \<Rightarrow> (Inl (statusf CodeInvalidArgument ''session metadata: '' e []), h1)
      | Inr md \<Rightarrow> createSession sv uid (spec_meta uid spec md) h1))"

definition Service_GetSession :: "service \<Rightarrow> string \<Rightarrow> service_state host \<Rightarrow> goerr + pb_session" where
  "Service_GetSession sv uid h =
     (if uid = [] then Inl (ErrStatus CodeInvalidArgument ''uid is required'') else session_view sv uid h)"

fun session_protos :: "service \<Rightarrow> session_info list \<Rightarrow> goerr + pb_session list" where
  "session_protos sv [] = Inr []"
| "session_protos sv (info # infos) =
     (case sessionProto sv info of
        Inl e \<Rightarrow> Inl e
      | Inr s \<Rightarrow> map_sum id (Cons s) (session_protos sv infos))"

definition Service_ListSessions ::
  "service \<Rightarrow> list_options \<Rightarrow> service_state host \<Rightarrow> goerr + pb_session list \<times> string" where
  "Service_ListSessions sv req h =
     (let project = (if lo_project req = [] then sv_defaultProject sv else lo_project req) in
      case ListSessions (sv_env sv) (req\<lparr>lo_project := project\<rparr>) (svc_db h) of
        Inl e \<Rightarrow> Inl (if errors_is e ErrInvalidPageToken then statusf CodeInvalidArgument ''page_token: '' e []
                     else statusf CodeInternal ''list sessions: '' e [])
      | Inr page \<Rightarrow> map_sum id (\<lambda>out. (out, pg_nextPageToken page)) (session_protos sv (pg_sessions page)))"

section \<open>Routing\<close>

definition checkStatic :: "service \<Rightarrow> string \<Rightarrow> service_state host \<Rightarrow> goerr option \<times> service_state host" where
  "checkStatic sv name h =
     (case registry_now sv h of
        (r, h1) \<Rightarrow>
          if \<not> Static r name then (None, h1)
          else (case Harness name (svc_db h1) of
                  Inr _ \<Rightarrow> (Some (ErrStatus CodeFailedPrecondition (''harness '' @ format_q name
                     @ '' is a static harness on this host and a registered harness in the journal; sessions on it are refused'')), h1)
                | Inl e \<Rightarrow> if errors_is e ErrHarnessNotFound then (None, h1)
                           else (Some (statusf CodeInternal ''resolve harness: '' e []), h1)))"

definition isRegistered :: "service \<Rightarrow> string \<Rightarrow> service_state host \<Rightarrow> (goerr + bool) \<times> service_state host" where
  "isRegistered sv name h =
     (case registry_now sv h of
        (r, h1) \<Rightarrow>
          if Static r name then (Inr False, h1)
          else
     (case registry_now sv h1 of
        (r, h2) \<Rightarrow>
          if Has r name then (Inr True, h2)
          else (case Harness name (svc_db h2) of
                  Inr _ \<Rightarrow> (Inr True, h2)
                | Inl e \<Rightarrow> if errors_is e ErrHarnessNotFound then (Inr False, h2)
                           else (Inl (statusf CodeInternal ''resolve harness: '' e []), h2))))"

text \<open>Either name is registered: the second is asked only when the first is not.\<close>

definition pinned_to :: "service \<Rightarrow> string \<Rightarrow> string \<Rightarrow> service_state host \<Rightarrow> (goerr + bool) \<times> service_state host" where
  "pinned_to sv stored name h =
     (case isRegistered sv stored h of
        (Inl e, h1) \<Rightarrow> (Inl e, h1)
      | (Inr True, h1) \<Rightarrow> (Inr True, h1)
      | (Inr False, h1) \<Rightarrow> isRegistered sv name h1)"

text \<open>The closure \<^verbatim>\<open>describe\<close> of \<^verbatim>\<open>checkMemoryOverride\<close>; \<open>ctx\<close> is the call's context.\<close>

definition describe_override ::
  "service \<Rightarrow> (nat \<Rightarrow> goerr option) \<Rightarrow> string \<Rightarrow> service_state host \<Rightarrow> (goerr + descriptor) \<times> service_state host" where
  "describe_override sv ctx name h =
     (case registry_now sv h of
        (r, h1) \<Rightarrow>
     (case For r name of
        Inl e \<Rightarrow> (Inl (harnessError e), h1)
      | Inr k \<Rightarrow>
     (case rt_call RtDescribe h1 of
        (t, h2) \<Rightarrow>
     (case pl_describe (sv_placer sv k) t of
        Inr desc \<Rightarrow> (Inr desc, h2)
      | Inl e \<Rightarrow>
     (case ask h2 of
        (t', h3) \<Rightarrow>
          (Inl (case ctx t' of
                  Some c \<Rightarrow> FromContextError c
                | None \<Rightarrow> statusf CodeUnavailable (''describe harness '' @ format_q name @ '' before override: '') e []), h3))))))"

definition checkMemoryOverride ::
  "service \<Rightarrow> (nat \<Rightarrow> goerr option) \<Rightarrow> string \<Rightarrow> string \<Rightarrow> string \<Rightarrow> service_state host \<Rightarrow> goerr option \<times> service_state host" where
  "checkMemoryOverride sv ctx uid stored override h =
     (case registry_now sv h of
        (r, h1) \<Rightarrow>
     if \<not> Has r stored then (None, h1)
     else
     (case registry_now sv h1 of
        (r, h2) \<Rightarrow>
     (case For r stored of
        Inl e \<Rightarrow> (Some (harnessError e), h2)
      | Inr k \<Rightarrow>
     if \<not> rc_memorySnapshot (pl_capabilities (sv_placer sv k)) then (None, h2)
     else
     (case describe_override sv ctx stored h2 of
        (Inl e, h3) \<Rightarrow> (Some e, h3)
      | (Inr desc, h3) \<Rightarrow>
     if cap_resumability (desc_capabilities desc) \<noteq> ResumabilityRequiresMemorySnapshot then (None, h3)
     else
     (case describe_override sv ctx override h3 of
        (Inl e, h4) \<Rightarrow> (Some e, h4)
      | (Inr desc, h4) \<Rightarrow>
          if cap_resumability (desc_capabilities desc) = ResumabilityStatelessReplay
          then (Some (ErrStatus CodeFailedPrecondition (''session '' @ format_q uid @ '' requires memory snapshots on harness ''
                  @ format_q stored @ ''; a stateless turn cannot override it with '' @ format_q override)), h4)
          else (None, h4))))))"

definition pinned_status :: "string \<Rightarrow> string \<Rightarrow> string \<Rightarrow> goerr" where
  "pinned_status uid harness override =
     ErrStatus CodeFailedPrecondition (''session '' @ format_q uid @ '' is pinned to harness '' @ format_q harness
       @ ''; a turn cannot run on '' @ format_q override)"

text \<open>\<^verbatim>\<open>resolvePlacer\<close>: the part for an override that is not the session's own harness, then the whole.\<close>

definition resolve_override ::
  "service \<Rightarrow> string \<Rightarrow> string \<Rightarrow> string \<Rightarrow> service_state host \<Rightarrow> goerr option \<times> service_state host" where
  "resolve_override sv uid harness override h =
     (case pinned_to sv harness override h of
        (Inl e, h1) \<Rightarrow> (Some e, h1)
      | (Inr True, h1) \<Rightarrow> (Some (pinned_status uid harness override), h1)
      | (Inr False, h1) \<Rightarrow>
     (case registry_now sv h1 of
        (r, h2) \<Rightarrow>
     (case For r override of
        Inl e \<Rightarrow> (Some (harnessError e), h2)
      | Inr _ \<Rightarrow>
     (case registry_now sv h2 of
        (r, h3) \<Rightarrow>
     if \<not> Static r override then (Some (pinned_status uid harness override), h3)
     else
     (case checkStatic sv override h3 of
        (Some e, h4) \<Rightarrow> (Some e, h4)
      | (None, h4) \<Rightarrow> checkMemoryOverride sv (sv_ctxErr sv) uid harness override h4)))))"

definition stored_harness :: "registry \<Rightarrow> session_info \<Rightarrow> string" where
  "stored_harness r info = (if sm_harness info = [] then rg_default r else sm_harness info)"

definition resolvePlacer ::
  "service \<Rightarrow> string \<Rightarrow> string \<Rightarrow> service_state host \<Rightarrow> (goerr + nat \<times> string) \<times> service_state host" where
  "resolvePlacer sv uid override h =
     (case SessionInfo uid (svc_db h) of
        Inl e \<Rightarrow>
          if override \<noteq> [] \<and> errors_is e ErrSessionNotFound then
            (case registry_now sv h of
               (r, h1) \<Rightarrow> (case For r override of
                  Inl rerr \<Rightarrow> (Inl (harnessError rerr), h1)
                | Inr _ \<Rightarrow> (Inl (sessionStoreError e uid), h1)))
          else (Inl (sessionStoreError e uid), h)
      | Inr info \<Rightarrow>
     (case deletedSessionError info of
        Some e \<Rightarrow> (Inl e, h)
      | None \<Rightarrow>
     (case registry_now sv h of
        (r, h1) \<Rightarrow>
          let harness = stored_harness r info in
     (case checkStatic sv harness h1 of
        (Some e, h2) \<Rightarrow> (Inl e, h2)
      | (None, h2) \<Rightarrow>
     (case (if override \<noteq> [] \<and> override \<noteq> harness then resolve_override sv uid harness override h2 else (None, h2)) of
        (Some e, h3) \<Rightarrow> (Inl e, h3)
      | (None, h3) \<Rightarrow>
          let name = (if override \<noteq> [] then override else harness) in
     (case registry_now sv h3 of
        (r, h4) \<Rightarrow> (case For r name of Inl e \<Rightarrow> (Inl (harnessError e), h4) | Inr k \<Rightarrow> (Inr (k, name), h4))))))))"

definition busy_status :: "goerr \<Rightarrow> goerr" where
  "busy_status e = (if errors_is e ErrSessionBusy then withStatusCause CodeAborted e else e)"

definition placerFor ::
  "service \<Rightarrow> string \<Rightarrow> string \<Rightarrow> (service_state host \<Rightarrow> (goerr + 'a) \<times> service_state host) \<Rightarrow> service_state host \<Rightarrow>
     (goerr + (nat \<times> string) \<times> 'a) \<times> service_state host" where
  "placerFor sv uid override read h =
     (if uid = [] then (Inl (ErrStatus CodeInvalidArgument ''session is required''), h)
      else
     (case guarded guardRead uid Inl (\<lambda>h. case resolvePlacer sv uid override h of
                (Inl e, h1) \<Rightarrow> (Inl e, h1)
              | (Inr route, h1) \<Rightarrow> (case read h1 of (Inl e, h2) \<Rightarrow> (Inl e, h2) | (Inr x, h2) \<Rightarrow> (Inr (route, x), h2))) h of
        (Inl e, h1) \<Rightarrow> (Inl (busy_status e), h1)
      | (Inr x, h1) \<Rightarrow> (Inr x, h1)))"

definition checkResumedHarness ::
  "service \<Rightarrow> string \<Rightarrow> string \<Rightarrow> string \<Rightarrow> service_state host \<Rightarrow> goerr option \<times> service_state host" where
  "checkResumedHarness sv uid stored name h =
     (case checkStatic sv name h of
        (Some e, h1) \<Rightarrow> (Some e, h1)
      | (None, h1) \<Rightarrow>
     if name = stored then (None, h1)
     else (case pinned_to sv stored name h1 of
        (Inl e, h2) \<Rightarrow> (Some e, h2)
      | (Inr True, h2) \<Rightarrow> (Some (ErrStatus CodeFailedPrecondition (''session '' @ format_q uid @ '' is pinned to harness ''
            @ format_q stored @ ''; its pending turn was recorded on '' @ format_q name @ '' and cannot resume there'')), h2)
      | (Inr False, h2) \<Rightarrow> (None, h2)))"

definition mutationSessionInfo ::
  "service \<Rightarrow> string \<Rightarrow> service_state host \<Rightarrow> (goerr + session_info) \<times> service_state host" where
  "mutationSessionInfo sv uid h =
     (case guarded guardRead uid Inl (\<lambda>h. (SessionInfo uid (svc_db h), h)) h of
        (Inl e, h1) \<Rightarrow> (Inl (busy_status e), h1)
      | (Inr info, h1) \<Rightarrow> (Inr info, h1))"

text \<open>A harness check of a handler: what it returns it also keeps in \<^verbatim>\<open>refused\<close>.\<close>

definition keep_refused ::
  "(string \<Rightarrow> service_state host \<Rightarrow> goerr option \<times> service_state host) \<Rightarrow> string \<Rightarrow> service_state host \<Rightarrow>
     goerr option \<times> service_state host" where
  "keep_refused check name h = (case check name h of (e, h1) \<Rightarrow> (e, set_refused e h1))"

definition resume_check ::
  "service \<Rightarrow> (nat \<Rightarrow> goerr option) \<Rightarrow> string \<Rightarrow> string \<Rightarrow> string \<Rightarrow> service_state host \<Rightarrow> goerr option \<times> service_state host" where
  "resume_check sv ctx uid stored name h =
     (case checkResumedHarness sv uid stored name h of
        (Some e, h1) \<Rightarrow> (Some e, h1)
      | (None, h1) \<Rightarrow> if name \<noteq> stored then checkMemoryOverride sv ctx uid stored name h1 else (None, h1))"

section \<open>Streams\<close>

record pb_delta =
  pd_executionId :: string
  pd_partIndex :: int32
  pd_chunk :: string
  pd_done :: bool

definition DeltaToProto :: "delta \<Rightarrow> pb_delta" where
  "DeltaToProto d = \<lparr>pd_executionId = dl_executionID d, pd_partIndex = dl_partIndex d, pd_chunk = dl_chunk d,
     pd_done = dl_done d\<rparr>"

datatype exec_update = UpdateSession pb_session | UpdateRecord pb_log_record | UpdateDelta pb_delta

text \<open>A server stream: \<open>send n\<close> is the outcome of the \<open>n\<close>-th send, and the state the sends so far and what they delivered.\<close>

type_synonym 'u stream = "nat \<times> 'u list"

definition stream_send :: "(nat \<Rightarrow> goerr option) \<Rightarrow> 'u \<Rightarrow> 'u stream \<Rightarrow> goerr option \<times> 'u stream" where
  "stream_send send u st = (send (fst st), (Suc (fst st), if send (fst st) = None then snd st @ [u] else snd st))"

text \<open>What the observer does with one observation, and with those of a whole turn: it stops at the first failed send.\<close>

definition observed_update :: "struct_codec \<Rightarrow> observation \<Rightarrow> exec_update" where
  "observed_update c ob = (case ob of OnRecord r \<Rightarrow> UpdateRecord (RecordToProto c r) | OnDelta d \<Rightarrow> UpdateDelta (DeltaToProto d))"

fun relay ::
  "struct_codec \<Rightarrow> (nat \<Rightarrow> goerr option) \<Rightarrow> observation list \<Rightarrow> nat \<Rightarrow> exec_update stream \<Rightarrow>
     (goerr option \<times> nat) \<times> exec_update stream" where
  "relay c send [] recordsSent st = ((None, recordsSent), st)"
| "relay c send (ob # obs) recordsSent st =
     (case stream_send send (observed_update c ob) st of
        (Some e, st1) \<Rightarrow> ((Some e, recordsSent), st1)
      | (None, st1) \<Rightarrow> relay c send obs (case ob of OnRecord _ \<Rightarrow> Suc recordsSent | OnDelta _ \<Rightarrow> recordsSent) st1)"

fun send_records ::
  "(nat \<Rightarrow> goerr option) \<Rightarrow> (log_record \<Rightarrow> 'u) \<Rightarrow> log_record list \<Rightarrow> 'u stream \<Rightarrow> goerr option \<times> 'u stream" where
  "send_records send f [] st = (None, st)"
| "send_records send f (r # rs) st =
     (case stream_send send (f r) st of (Some e, st1) \<Rightarrow> (Some e, st1) | (None, st1) \<Rightarrow> send_records send f rs st1)"

section \<open>Exec\<close>

record exec_request =
  xr_session :: string
  xr_harness :: string
  xr_inputs :: "pb_message option list"
  xr_expectedLastSeq :: "int64 option"
  xr_config :: bytes
  xr_resumeFromSeq :: int64
  xr_deadlineUnix :: int64

record exec_admission =
  xa_recovery :: "session_info option"
  xa_route :: "(nat \<times> string) option"
  xa_headBefore :: int64
  xa_session :: pb_session

text \<open>Whether the call recovers an approval execution, from the row and the journal of a session it did not create.\<close>

definition exec_recovery :: "service \<Rightarrow> exec_request \<Rightarrow> string \<Rightarrow> service_state host \<Rightarrow> goerr + session_info option" where
  "exec_recovery sv req uid h =
     (case SessionInfo uid (svc_db h) of
        Inl e \<Rightarrow> if errors_is e ErrSessionNotFound then Inr None else Inl (sessionStoreError e uid)
      | Inr info \<Rightarrow>
     (case deletedSessionError info of
        Some e \<Rightarrow> Inl e
      | None \<Rightarrow>
     (case InspectApproval (session_log sv uid) 0 (h_log h) of
        Inl e \<Rightarrow> Inl (execError e)
      | Inr None \<Rightarrow> Inr None
      | Inr (Some st) \<Rightarrow>
          if as_completed st then Inr None
          else if xr_inputs req = [] then Inr (Some info)
          else if \<not> as_inherited st \<and> as_receipt st = None then Inl (execError ErrApprovalBlocked)
          else Inr None)))"

text \<open>The read phase: \<open>created\<close> is the session that this call made, if it did.\<close>

definition exec_admit ::
  "service \<Rightarrow> exec_request \<Rightarrow> string \<Rightarrow> pb_session option \<Rightarrow> service_state host \<Rightarrow>
     (goerr + exec_admission) \<times> service_state host" where
  "exec_admit sv req uid created h =
     (case (if created = None then exec_recovery sv req uid h else Inr None) of
        Inl e \<Rightarrow> (Inl e, h)
      | Inr recovery \<Rightarrow>
     (case (if recovery = None then (case resolvePlacer sv uid (xr_harness req) h of
                (Inl e, h1) \<Rightarrow> (Inl e, h1) | (Inr route, h1) \<Rightarrow> (Inr (Some route), h1))
            else (Inr None, h)) of
        (Inl e, h1) \<Rightarrow> (Inl e, h1)
      | (Inr route, h1) \<Rightarrow>
     (case Store_Head (session_log sv uid) (h_log h1) of
        Inl e \<Rightarrow> (Inl (statusf CodeInternal ''head: '' e []), h1)
      | Inr head \<Rightarrow>
     (case (case created of Some s \<Rightarrow> Inr s | None \<Rightarrow> session_view sv uid h1) of
        Inl e \<Rightarrow> (Inl e, h1)
      | Inr sess \<Rightarrow> (Inr \<lparr>xa_recovery = recovery, xa_route = route, xa_headBefore = head, xa_session = sess\<rparr>, h1)))))"

definition exec_ctx :: "service \<Rightarrow> exec_request \<Rightarrow> nat \<Rightarrow> goerr option" where
  "exec_ctx sv req = (if xr_deadlineUnix req > 0 then sv_deadlineErr sv (xr_deadlineUnix req) else sv_ctxErr sv)"

definition exec_check ::
  "service \<Rightarrow> exec_request \<Rightarrow> string \<Rightarrow> string \<Rightarrow> string \<Rightarrow> service_state host \<Rightarrow> goerr option \<times> service_state host" where
  "exec_check sv req uid stored name h =
     (case ask h of
        (t, h1) \<Rightarrow>
     (case (case exec_ctx sv req t of
              Some c \<Rightarrow> Some (FromContextError c)
            | None \<Rightarrow>
                (case xr_expectedLastSeq req of
                   None \<Rightarrow> None
                 | Some ex \<Rightarrow>
                     (case Store_Head (session_log sv uid) (h_log h1) of
                        Inl e \<Rightarrow> Some (statusf CodeInternal ''head: '' e [])
                      | Inr head \<Rightarrow> if head \<noteq> ex then Some (ErrStatus CodeAborted (error_text ErrConflict)) else None))) of
        Some e \<Rightarrow> (Some e, h1)
      | None \<Rightarrow> resume_check sv (exec_ctx sv req) uid stored name h1))"

definition exec_inputs :: "struct_codec \<Rightarrow> pb_message option list \<Rightarrow> message list" where
  "exec_inputs c ms = map (msgFromProto c) (List.map_filter id ms)"

text \<open>The operation itself: recovery through the registry, or a turn on the resolved Placer.\<close>

definition exec_operation ::
  "service \<Rightarrow> exec_request \<Rightarrow> string \<Rightarrow> exec_admission \<Rightarrow> service_state host \<Rightarrow> goerr option \<times> service_state host" where
  "exec_operation sv req uid adm h =
     (case xa_recovery adm of
        Some info \<Rightarrow>
          (case registry_now sv h of
             (r0, h1) \<Rightarrow>
          (case registry_now sv h1 of
             (r, h2) \<Rightarrow>
               Registry_Resume r (sv_placer sv) (session_log sv uid) uid (sm_harness info)
                 \<lparr>rr_check = Some (keep_refused (exec_check sv req uid (stored_harness r0 info))), rr_onRecord = True,
                  rr_onDelta = True, rr_expectedLastSeq = None\<rparr> h2))
      | None \<Rightarrow>
          let (k, harness) = the (xa_route adm);
              expected = (case xr_expectedLastSeq req of Some ex \<Rightarrow> ex | None \<Rightarrow> xa_headBefore adm)
          in (case Placer_Exec (on_log (session_log sv uid) (sv_placer sv k))
                     \<lparr>ec_harness = harness, ec_onRecord = True, ec_onDelta = True, ec_config = xr_config req,
                      ec_resumeFromSeq = xr_resumeFromSeq req\<rparr> uid
                     (exec_inputs (cn_codec (sq_canon (sv_env sv))) (xr_inputs req)) expected h of
                ((_, e), h1) \<Rightarrow> (e, h1)))"

definition parked_unwind :: "goerr option \<Rightarrow> bool" where
  "parked_unwind err = (case err of None \<Rightarrow> False | Some e \<Rightarrow>
     (case errors_as_parked e of None \<Rightarrow> False | Some ref \<Rightarrow> IsParkUnwind e ref))"

text \<open>What is still owed to the caller after an operation that succeeded or parked.\<close>

definition exec_finish ::
  "service \<Rightarrow> (nat \<Rightarrow> goerr option) \<Rightarrow> string \<Rightarrow> exec_admission \<Rightarrow> bool \<Rightarrow> nat \<Rightarrow> exec_update stream \<Rightarrow> service_state host \<Rightarrow>
     goerr option \<times> exec_update stream" where
  "exec_finish sv send uid adm parked recordsSent st h =
     (let c = cn_codec (sq_canon (sv_env sv)) in
      case (if recordsSent = 0 then
              (case Store_Read (session_log sv uid) (xa_headBefore adm + 1) (h_log h) of
                 Inl e \<Rightarrow> (Some (statusf CodeInternal ''read: '' e []), st)
               | Inr recs \<Rightarrow> send_records send (\<lambda>r. UpdateRecord (RecordToProto c r)) recs st)
            else (None, st)) of
        (Some e, st1) \<Rightarrow> (Some e, st1)
      | (None, st1) \<Rightarrow>
          if xa_recovery adm \<noteq> None \<or> parked then
            (case session_view sv uid h of
               Inl e \<Rightarrow> (Some e, st1)
             | Inr s \<Rightarrow> stream_send send (UpdateSession s) st1)
          else (None, st1))"

definition exec_run ::
  "service \<Rightarrow> (nat \<Rightarrow> goerr option) \<Rightarrow> exec_request \<Rightarrow> string \<Rightarrow> exec_admission \<Rightarrow> service_state host \<Rightarrow>
     (goerr option \<times> exec_update stream) \<times> service_state host" where
  "exec_run sv send req uid adm h =
     (case stream_send send (UpdateSession (xa_session adm)) (0, []) of
        (Some e, st) \<Rightarrow> ((Some e, st), h)
      | (None, st) \<Rightarrow>
     (case exec_operation sv req uid adm (set_refused None h) of
        (err, h1) \<Rightarrow>
     (case relay (cn_codec (sq_canon (sv_env sv))) send
             (drop (length (w_observed (h_world h))) (w_observed (h_world h1))) 0 st of
        ((Some e, _), st1) \<Rightarrow> ((Some e, st1), h1)
      | ((None, recordsSent), st1) \<Rightarrow>
          if err \<noteq> None \<and> \<not> parked_unwind err then
            ((Some (if svc_refused h1 \<noteq> None \<and> err = svc_refused h1 then the err
                    else if xa_recovery adm \<noteq> None then resumeError (the err)
                    else execError (the err)), st1), h1)
          else (exec_finish sv send uid adm (parked_unwind err) recordsSent st1 h1, h1))))"

definition Service_Exec ::
  "service \<Rightarrow> (nat \<Rightarrow> goerr option) \<Rightarrow> exec_request \<Rightarrow> service_state host \<Rightarrow>
     (goerr option \<times> exec_update stream) \<times> service_state host" where
  "Service_Exec sv send req h =
     (case (if xr_session req = [] then
              (case newUID sv h of
                 (uid, h1) \<Rightarrow>
                   (case createSession sv uid (spec_meta uid
                           \<lparr>ps_project = [], ps_name = [], ps_uid = [], ps_createTime = None, ps_updateTime = None,
                            ps_harness = xr_harness req, ps_model = [], ps_execState = EXEC_STATE_UNSPECIFIED,
                            ps_computeState = COMPUTE_STATE_UNSPECIFIED, ps_lastSeq = 0, ps_parentUid = [], ps_forkSeq = 0,
                            ps_deletionState = DELETION_STATE_UNSPECIFIED, ps_deletionRequestedTime = None,
                            ps_pendingApproval = None, ps_labels = [], ps_annotations = [], ps_origin = None,
                            ps_identity = None\<rparr> ([], [], [], [])) h1 of
                      (Inl e, h2) \<Rightarrow> (Inl e, h2)
                    | (Inr sess, h2) \<Rightarrow> (Inr (uid, Some sess), h2)))
            else (Inr (xr_session req, None), h)) of
        (Inl e, h1) \<Rightarrow> ((Some e, (0, [])), h1)
      | (Inr (uid, created), h1) \<Rightarrow>
     (case guarded guardRead uid Inl (exec_admit sv req uid created) h1 of
        (Inl e, h2) \<Rightarrow> ((Some (busy_status e), (0, [])), h2)
      | (Inr adm, h2) \<Rightarrow> exec_run sv send req uid adm h2))"

section \<open>Replay\<close>

fun replay_window :: "int64 \<Rightarrow> log_record list \<Rightarrow> log_record list" where
  "replay_window to [] = []"
| "replay_window to (r # rs) = (if to \<noteq> 0 \<and> r_seq r > to then [] else r # replay_window to rs)"

definition Service_Replay ::
  "service \<Rightarrow> (nat \<Rightarrow> goerr option) \<Rightarrow> string \<Rightarrow> int64 \<Rightarrow> int64 \<Rightarrow> service_state host \<Rightarrow>
     goerr option \<times> pb_log_record stream" where
  "Service_Replay sv send uid fromSeq toSeq h =
     (let from = (if fromSeq \<le> 0 then 1 else fromSeq) in
      case Store_Read (session_log sv uid) from (h_log h) of
        Inl e \<Rightarrow> (Some (statusf CodeInternal ''read: '' e []), (0, []))
      | Inr recs \<Rightarrow> send_records send (RecordToProto (cn_codec (sq_canon (sv_env sv)))) (replay_window toSeq recs) (0, []))"

section \<open>Fork\<close>

definition MaxForkChildren :: int where
  "MaxForkChildren = 128"

record fork_request =
  fr_session :: string
  fr_atSeq :: int64
  fr_count :: int32
  fr_identity :: "pb_identity option"
  fr_labels :: "(string \<times> string) list"
  fr_childNames :: "string list"

fun new_children :: "service \<Rightarrow> nat \<Rightarrow> service_state host \<Rightarrow> service_state fork_child list \<times> service_state host" where
  "new_children sv 0 h = ([], h)"
| "new_children sv (Suc n) h =
     (case newUID sv h of
        (uid, h1) \<Rightarrow>
          (case new_children sv n h1 of
             (children, h2) \<Rightarrow> (\<lparr>fc_uid = uid, fc_ops = session_log sv uid\<rparr> # children, h2)))"

definition child_meta :: "session_info \<Rightarrow> string \<Rightarrow> int64 \<Rightarrow> string \<Rightarrow> string \<Rightarrow> string \<Rightarrow> session_meta" where
  "child_meta parent parentUID atSeq childLabels uid name =
     \<lparr>sm_uid = uid, sm_project = sm_project parent, sm_name = name, sm_harness = sm_harness parent,
      sm_model = sm_model parent, sm_parentUID = parentUID, sm_forkSeq = atSeq, sm_createdAt = None, sm_updatedAt = None,
      sm_labels = childLabels, sm_annotations = sm_annotations parent, sm_origin = sm_origin parent, sm_identity = []\<rparr>"

text \<open>The loop that records the children; \<open>named\<close> pairs each with its name.\<close>

fun record_children ::
  "service \<Rightarrow> session_info \<Rightarrow> string \<Rightarrow> int64 \<Rightarrow> string \<Rightarrow> (string \<times> string) list \<Rightarrow> service_state host \<Rightarrow>
     (goerr + pb_session list) \<times> service_state host" where
  "record_children sv parent parentUID atSeq childLabels [] h = (Inr [], h)"
| "record_children sv parent parentUID atSeq childLabels ((uid, name) # named) h =
     (case PutSession (sv_env sv) (child_meta parent parentUID atSeq childLabels uid name) (svc_db h) of
        (Some e, db) \<Rightarrow> (Inl (statusf CodeInternal (''fork: record child '' @ format_q uid @ '': '') e []), set_db db h)
      | (None, db) \<Rightarrow>
          let h1 = set_db db h in
          (case session_view sv uid h1 of
             Inl e \<Rightarrow> (Inl e, h1)
           | Inr s \<Rightarrow> (case record_children sv parent parentUID atSeq childLabels named h1 of
                        (res, h2) \<Rightarrow> (map_sum id (Cons s) res, h2))))"

definition fork_at :: "service \<Rightarrow> fork_request \<Rightarrow> service_state host \<Rightarrow> (goerr + int64) \<times> service_state host" where
  "fork_at sv req h =
     (if fr_atSeq req \<le> 0 then
        (case Store_Head (session_log sv (fr_session req)) (h_log h) of
           Inl e \<Rightarrow> (Inl (statusf CodeInternal ''head: '' e []), h)
         | Inr head \<Rightarrow> (Inr head, h))
      else (Inr (fr_atSeq req), h))"

definition fork_count :: "fork_request \<Rightarrow> int" where
  "fork_count req = (if fr_count req \<le> 0 then 1 else fr_count req)"

text \<open>After the route is known: the children are made, forked and recorded.\<close>

definition fork_out ::
  "service \<Rightarrow> fork_request \<Rightarrow> nat \<Rightarrow> int64 \<Rightarrow> service_state host \<Rightarrow> (goerr + pb_session list) \<times> service_state host" where
  "fork_out sv req k atSeq h =
     (let uid = fr_session req; count = fork_count req; names = fr_childNames req in
      if count > MaxForkChildren then
        (Inl (ErrStatus CodeInvalidArgument (''count '' @ format_int count @ '' exceeds the maximum of ''
                @ format_int MaxForkChildren @ '' children per fork'')), h)
      else if names \<noteq> [] \<and> int (length names) \<noteq> count then
        (Inl (ErrStatus CodeInvalidArgument (''child_names has '' @ format_nat (length names)
                @ '' entries, want 0 or exactly count ('' @ format_int count @ '')'')), h)
      else
     (case new_children sv (nat count) h of
        (children, h1) \<Rightarrow>
     (case Placer_Fork (on_log (session_log sv uid) (sv_placer sv k)) uid children atSeq h1 of
        (Some e, h2) \<Rightarrow> (Inl (forkError e), h2)
      | (None, h2) \<Rightarrow>
     (case SessionInfo uid (svc_db h2) of
        Inl e \<Rightarrow> (Inl (sessionStoreError e uid), h2)
      | Inr parent \<Rightarrow>
     (case encodeMap (fr_labels req) of
        Inl e \<Rightarrow> (Inl (statusf CodeInvalidArgument ''fork labels: '' e []), h2)
      | Inr childLabels \<Rightarrow>
          record_children sv parent uid atSeq childLabels
            (zip (map fc_uid children) (if names = [] then replicate (nat count) [] else names)) h2)))))"

definition Service_Fork ::
  "service \<Rightarrow> fork_request \<Rightarrow> service_state host \<Rightarrow> (goerr + pb_session list) \<times> service_state host" where
  "Service_Fork sv req h =
     (if fr_identity req \<noteq> None then
        (Inl (ErrStatus CodeInvalidArgument ''ForkRequest.identity is unsupported: per-child principals are not enforced''), h)
      else
     (case placerFor sv (fr_session req) [] (fork_at sv req) h of
        (Inl e, h1) \<Rightarrow> (Inl e, h1)
      | (Inr ((k, _), atSeq), h1) \<Rightarrow> fork_out sv req k atSeq h1))"

section \<open>Suspend and Resume\<close>

text \<open>The lookup both start with.\<close>

definition mutation_info ::
  "service \<Rightarrow> string \<Rightarrow> service_state host \<Rightarrow> (goerr + session_info) \<times> service_state host" where
  "mutation_info sv uid h =
     (if uid = [] then (Inl (ErrStatus CodeInvalidArgument ''session is required''), h)
      else
     (case mutationSessionInfo sv uid h of
        (Inl e, h1) \<Rightarrow> (Inl (if errors_is e ErrSessionBusy then withStatusCause CodeAborted e else sessionStoreError e uid), h1)
      | (Inr info, h1) \<Rightarrow>
          (case deletedSessionError info of Some e \<Rightarrow> (Inl e, h1) | None \<Rightarrow> (Inr info, h1))))"

definition Service_Suspend ::
  "service \<Rightarrow> string \<Rightarrow> service_state host \<Rightarrow> (goerr + pb_session) \<times> service_state host" where
  "Service_Suspend sv uid h =
     (case mutation_info sv uid h of
        (Inl e, h1) \<Rightarrow> (Inl e, h1)
      | (Inr info, h1) \<Rightarrow>
     (case registry_now sv (set_refused None h1) of
        (r0, h2) \<Rightarrow>
     (case registry_now sv h2 of
        (r, h3) \<Rightarrow>
     (case Registry_Suspend r (sv_placer sv) (session_log sv uid) uid (sm_harness info)
             \<lparr>rr_check = Some (keep_refused (checkResumedHarness sv uid (stored_harness r0 info))), rr_onRecord = False,
              rr_onDelta = False, rr_expectedLastSeq = None\<rparr> h3 of
        (Inl e, h4) \<Rightarrow> (Inl (if svc_refused h4 = Some e then e else suspendError e), h4)
      | (Inr _, h4) \<Rightarrow> (session_view sv uid h4, h4)))))"

definition Service_Resume ::
  "service \<Rightarrow> string \<Rightarrow> int64 option \<Rightarrow> service_state host \<Rightarrow> (goerr + pb_session) \<times> service_state host" where
  "Service_Resume sv uid expectedLastSeq h =
     (case mutation_info sv uid h of
        (Inl e, h1) \<Rightarrow> (Inl e, h1)
      | (Inr info, h1) \<Rightarrow>
     (case registry_now sv (set_refused None h1) of
        (r0, h2) \<Rightarrow>
     (case registry_now sv h2 of
        (r, h3) \<Rightarrow>
     (case Registry_Resume r (sv_placer sv) (session_log sv uid) uid (sm_harness info)
             \<lparr>rr_check = Some (keep_refused (resume_check sv (sv_ctxErr sv) uid (stored_harness r0 info))), rr_onRecord = False,
              rr_onDelta = False, rr_expectedLastSeq = expectedLastSeq\<rparr> h3 of
        (err, h4) \<Rightarrow>
          if err \<noteq> None \<and> \<not> parked_unwind err
          then (Inl (if svc_refused h4 \<noteq> None \<and> err = svc_refused h4 then the err else resumeError (the err)), h4)
          else (session_view sv uid h4, h4)))))"

section \<open>Approve and Delete\<close>

record approve_request =
  ar_session :: string
  ar_executionId :: string
  ar_toolCallId :: string
  ar_requestSeq :: int64
  ar_approved :: "bool option"
  ar_reason :: string
  ar_identity :: "pb_identity option"

definition Service_Approve ::
  "service \<Rightarrow> approve_request \<Rightarrow> service_state host \<Rightarrow> (goerr + pb_session \<times> pb_log_record) \<times> service_state host" where
  "Service_Approve sv req h =
     (let uid = ar_session req in
      case ar_approved req of
        None \<Rightarrow> (Inl (ErrStatus CodeInvalidArgument
                  ''session, execution_id, tool_call_id, positive request_seq and approved presence are required''), h)
      | Some approved \<Rightarrow>
     if uid = [] \<or> ar_executionId req = [] \<or> ar_toolCallId req = [] \<or> ar_requestSeq req \<le> 0 then
       (Inl (ErrStatus CodeInvalidArgument
          ''session, execution_id, tool_call_id, positive request_seq and approved presence are required''), h)
     else
     (case guarded guardRead uid Some (\<lambda>h. (case SessionInfo uid (svc_db h) of
                Inl e \<Rightarrow> Some (sessionStoreError e uid)
              | Inr info \<Rightarrow> deletedSessionError info, h)) h of
        (Some e, h1) \<Rightarrow> (Inl (if errors_is e ErrSessionBusy then approvalError e else e), h1)
      | (None, h1) \<Rightarrow>
     (case ask h1 of
        (t, h2) \<Rightarrow>
     (case Registry_Approve (session_log sv uid) uid (sv_now sv t)
             \<lparr>ad_executionID = ar_executionId req, ad_toolCallID = ar_toolCallId req, ad_requestSeq = ar_requestSeq req,
              ad_approved = approved, ad_reason = ar_reason req, ad_identity = identityFromProto (ar_identity req)\<rparr> h2 of
        (Inl e, h3) \<Rightarrow> (Inl (approvalError e), h3)
      | (Inr decision, h3) \<Rightarrow>
          (case session_view sv uid h3 of
             Inl e \<Rightarrow> (Inl e, h3)
           | Inr s \<Rightarrow> (Inr (s, RecordToProto (cn_codec (sq_canon (sv_env sv))) decision), h3))))))"

definition Service_DeleteSession ::
  "service \<Rightarrow> string \<Rightarrow> service_state host \<Rightarrow> (goerr + pb_session) \<times> service_state host" where
  "Service_DeleteSession sv uid h =
     (if uid = [] then (Inl (ErrStatus CodeInvalidArgument ''uid is required''), h)
      else
     (case guarded guardDelete uid Inl (\<lambda>h. case DeleteSession (sv_env sv) (sv_dbCtxErr sv) uid (svc_db h) of
                (res, db) \<Rightarrow> (res, set_db db h)) h of
        (Inl e, h1) \<Rightarrow> (Inl (deleteError e uid), h1)
      | (Inr info, h1) \<Rightarrow> (sessionProto sv info, h1)))"

end
