(* ===== verification/Service_Frame.thy ===== *)
theory Service_Frame
  imports Host_Frame Session_Service Sqlite_Ops
begin

text \<open>
  What the RPCs do to the durable store: each is a sequence of store calls, and which calls they are is read
  off the request.  The frame of \<open>Store_Frame\<close> is interpreted on the log of a session in the database, with
  the handler's \<^verbatim>\<open>refused\<close> beside it, which only ever holds a gRPC status.
\<close>

section \<open>Sequences of store calls\<close>

definition store_calls :: "sql_env \<Rightarrow> (db_call \<Rightarrow> bool) \<Rightarrow> sqlite_db \<Rightarrow> sqlite_db \<Rightarrow> bool" where
  "store_calls env P db db' \<longleftrightarrow> (\<exists>cs. list_all P cs \<and> db' = db_run env cs db)"

lemma store_calls_refl [simp]: "store_calls env P db db"
  unfolding store_calls_def by (rule exI [of _ "[]"]) (simp add: db_run_def)

lemma store_calls_trans: "store_calls env P a b \<Longrightarrow> store_calls env P b c \<Longrightarrow> store_calls env P a c"
proof -
  assume "store_calls env P a b" "store_calls env P b c"
  then obtain cs ds where "list_all P cs" "b = db_run env cs a" "list_all P ds" "c = db_run env ds b"
    unfolding store_calls_def by blast
  then show ?thesis unfolding store_calls_def by (intro exI [of _ "cs @ ds"]) (simp add: db_run_def)
qed

lemma store_calls_step: "P c \<Longrightarrow> store_calls env P db (db_step env c db)"
  unfolding store_calls_def by (rule exI [of _ "[c]"]) (simp add: db_run_def)

lemma store_calls_mono: "store_calls env P a b \<Longrightarrow> (\<And>c. P c \<Longrightarrow> Q c) \<Longrightarrow> store_calls env Q a b"
  unfolding store_calls_def by (metis list.pred_mono_strong)

text \<open>Appends to and fences of the journals of \<open>U\<close>.\<close>

fun journal_call :: "string set \<Rightarrow> db_call \<Rightarrow> bool" where
  "journal_call U (DbAppend uid _ _ _) = (uid \<in> U)"
| "journal_call U (DbNewFence uid) = (uid \<in> U)"
| "journal_call U _ = False"

definition is_status :: "goerr \<Rightarrow> bool" where
  "is_status e \<longleftrightarrow> errors_as_status e \<noteq> None"

definition refusal_ok :: "goerr option \<Rightarrow> bool" where
  "refusal_ok x \<longleftrightarrow> (\<forall>e. x = Some e \<longrightarrow> is_status e)"

definition svc_rel :: "service \<Rightarrow> string set \<Rightarrow> service_state \<Rightarrow> service_state \<Rightarrow> bool" where
  "svc_rel sv U s s' \<longleftrightarrow>
     store_calls (sv_env sv) (journal_call U) (fst s) (fst s') \<and> (refusal_ok (snd s) \<longrightarrow> refusal_ok (snd s'))"

lemma journal_steps:
  "store_calls env (journal_call (insert uid U)) db (snd (Log_Append env uid ex f ev db))"
  "store_calls env (journal_call (insert uid U)) db (snd (Log_NewFence env uid db))"
  using store_calls_step [of "journal_call (insert uid U)" "DbAppend uid ex f ev" env db]
    store_calls_step [of "journal_call (insert uid U)" "DbNewFence uid" env db] by simp_all

interpretation journal: store_frame "session_log sv uid" "svc_rel sv (insert uid U)" for sv uid U
proof
  fix s t u :: service_state
  show "svc_rel sv (insert uid U) s s" by (simp add: svc_rel_def)
  show "svc_rel sv (insert uid U) s t \<Longrightarrow> svc_rel sv (insert uid U) t u \<Longrightarrow> svc_rel sv (insert uid U) s u"
    unfolding svc_rel_def using store_calls_trans by blast
next
  fix ex f ev and s s' :: service_state and r
  assume "Store_Append (session_log sv uid) ex f ev s = (r, s')"
  then have "fst s' = snd (Log_Append (sv_env sv) uid ex f ev (fst s))" "snd s' = snd s"
    by (cases s; auto simp: session_log_def fst_ops_def Store_Session_def split: prod.splits)+
  then show "svc_rel sv (insert uid U) s s'" by (simp add: svc_rel_def journal_steps)
next
  fix s s' :: service_state and q
  assume "Store_NewFence (session_log sv uid) s = (q, s')"
  then have "fst s' = snd (Log_NewFence (sv_env sv) uid (fst s))" "snd s' = snd s"
    by (cases s; auto simp: session_log_def fst_ops_def Store_Session_def split: prod.splits)+
  then show "svc_rel sv (insert uid U) s s'" by (simp add: svc_rel_def journal_steps)
qed

section \<open>Statuses\<close>

lemma status_simps [simp]: "is_status (ErrStatus c m)" "is_status (ErrStatusCause c e)" "is_status (statusf c a e b)"
  "is_status (withStatusCause c e)"
  by (simp_all add: is_status_def statusf_def withStatusCause_def)

lemma status_maps [simp]: "is_status (FromContextError e)" "is_status (harnessError e)" "is_status (sessionStoreError e uid)"
  "is_status (forkError e)" "is_status (suspendError e)" "is_status (resumeError e)" "is_status (execError e)"
  "is_status (approvalError e)" "is_status (deleteError e uid)" "is_status (pinned_status a b c)"
  by (simp_all add: FromContextError_def harnessError_def sessionStoreError_def forkError_def suspendError_def
      resumeError_def execError_def approvalError_def deleteError_def pinned_status_def Let_def)

lemma deletedSessionError_status: "deletedSessionError info = Some e \<Longrightarrow> is_status e"
  by (auto simp: deletedSessionError_def split: if_splits)

lemma busy_status_ok: "is_status e \<Longrightarrow> is_status (busy_status e)"
  by (simp add: busy_status_def)

lemma sessionProto_status: "sessionProto sv info = Inl e \<Longrightarrow> is_status e"
  by (auto simp: sessionProto_def Let_def split: sum.splits)

lemma session_view_status: "session_view sv uid h = Inl e \<Longrightarrow> is_status e"
  by (auto simp: session_view_def split: sum.splits dest: sessionProto_status)

section \<open>Routing reads\<close>

text \<open>A computation that asks and calls but writes nothing, and whose error is a status.\<close>

abbreviation tick_of :: "service_state host \<Rightarrow> nat" where
  "tick_of h \<equiv> w_tick (h_world h)"

definition quiet :: "service_state host \<Rightarrow> goerr option \<Rightarrow> service_state host \<Rightarrow> bool" where
  "quiet h e h' \<longleftrightarrow> h_log h' = h_log h \<and> tick_of h \<le> tick_of h' \<and> refusal_ok e"

lemma refusal_None [simp]: "refusal_ok None"
  by (simp add: refusal_ok_def)

lemma refusal_Some [simp]: "refusal_ok (Some e) \<longleftrightarrow> is_status e"
  by (simp add: refusal_ok_def)

lemma ask_quiet: "ask h = (t, h') \<Longrightarrow> h_log h' = h_log h \<and> tick_of h' = Suc (tick_of h) \<and> t = tick_of h"
  by (auto simp: ask_def h_log_def tick_def)

lemma rt_call_quiet: "rt_call c h = (t, h') \<Longrightarrow> h_log h' = h_log h \<and> tick_of h' = Suc (tick_of h)"
  by (auto simp: rt_call_def ask_def h_log_def tick_def)

lemma registry_now_quiet: "registry_now sv h = (r, h') \<Longrightarrow> h_log h' = h_log h \<and> tick_of h' = Suc (tick_of h)"
  by (auto simp: registry_now_def split: prod.splits dest: ask_quiet)

definition drawn_uid :: "service \<Rightarrow> nat \<Rightarrow> string" where
  "drawn_uid sv t = ''sess-'' @ hex_encode (sv_random sv t)"

lemma newUID_quiet:
  "newUID sv h = (uid, h') \<Longrightarrow> h_log h' = h_log h \<and> tick_of h' = Suc (tick_of h) \<and> uid = drawn_uid sv (tick_of h)"
  by (auto simp: newUID_def drawn_uid_def split: prod.splits dest: ask_quiet)

lemmas asks = registry_now_quiet newUID_quiet ask_quiet rt_call_quiet

lemma checkStatic_quiet: "checkStatic sv name h = (e, h') \<Longrightarrow> quiet h e h'"
  by (auto simp: checkStatic_def quiet_def split: prod.splits if_splits sum.splits dest!: asks)

lemma isRegistered_quiet:
  "isRegistered sv name h = (res, h') \<Longrightarrow> quiet h (case res of Inl e \<Rightarrow> Some e | Inr _ \<Rightarrow> None) h'"
  by (auto simp: isRegistered_def quiet_def split: prod.splits if_splits sum.splits dest!: asks)

lemma pinned_to_quiet:
  "pinned_to sv a b h = (res, h') \<Longrightarrow> quiet h (case res of Inl e \<Rightarrow> Some e | Inr _ \<Rightarrow> None) h'"
  by (auto simp: pinned_to_def quiet_def split: prod.splits sum.splits bool.splits dest!: isRegistered_quiet)

lemma describe_override_quiet:
  "describe_override sv ctx name h = (res, h') \<Longrightarrow> quiet h (case res of Inl e \<Rightarrow> Some e | Inr _ \<Rightarrow> None) h'"
  by (auto simp: describe_override_def quiet_def split: prod.splits sum.splits option.splits dest!: asks)

lemma checkMemoryOverride_quiet: "checkMemoryOverride sv ctx uid a b h = (e, h') \<Longrightarrow> quiet h e h'"
  by (auto simp: checkMemoryOverride_def quiet_def split: prod.splits sum.splits if_splits
      dest!: asks describe_override_quiet [unfolded quiet_def])

lemma resolve_override_quiet: "resolve_override sv uid a b h = (e, h') \<Longrightarrow> quiet h e h'"
  by (auto simp: resolve_override_def quiet_def split: prod.splits sum.splits if_splits option.splits bool.splits
      dest!: asks pinned_to_quiet [unfolded quiet_def] checkStatic_quiet [unfolded quiet_def]
        checkMemoryOverride_quiet [unfolded quiet_def])

lemma resolvePlacer_quiet:
  "resolvePlacer sv uid ov h = (res, h') \<Longrightarrow> quiet h (case res of Inl e \<Rightarrow> Some e | Inr _ \<Rightarrow> None) h'"
  by (auto simp: resolvePlacer_def quiet_def Let_def split: prod.splits sum.splits if_splits option.splits
      dest!: asks checkStatic_quiet [unfolded quiet_def] resolve_override_quiet [unfolded quiet_def]
        dest: deletedSessionError_status)

lemma checkResumedHarness_quiet: "checkResumedHarness sv uid a b h = (e, h') \<Longrightarrow> quiet h e h'"
  by (auto simp: checkResumedHarness_def quiet_def split: prod.splits sum.splits if_splits option.splits bool.splits
      dest!: checkStatic_quiet [unfolded quiet_def] pinned_to_quiet [unfolded quiet_def])

lemma resume_check_quiet: "resume_check sv ctx uid a b h = (e, h') \<Longrightarrow> quiet h e h'"
  by (auto simp: resume_check_def quiet_def split: prod.splits if_splits option.splits
      dest!: checkResumedHarness_quiet [unfolded quiet_def] checkMemoryOverride_quiet [unfolded quiet_def])

lemma exec_check_quiet: "exec_check sv req uid a b h = (e, h') \<Longrightarrow> quiet h e h'"
  by (auto simp: exec_check_def quiet_def split: prod.splits if_splits option.splits sum.splits
      dest!: asks resume_check_quiet [unfolded quiet_def])

lemma fork_at_quiet: "fork_at sv req h = (res, h') \<Longrightarrow> quiet h (case res of Inl e \<Rightarrow> Some e | Inr _ \<Rightarrow> None) h'"
  by (auto simp: fork_at_def quiet_def split: if_splits sum.splits)

end
