(* ===== verification/Service_Calls.thy ===== *)
theory Service_Calls
  imports Service_Frame
begin

text \<open>
  Every RPC, handler by handler: the store calls it makes and the errors it returns.
\<close>

section \<open>Guards and checks\<close>

lemma guarded_result:
  assumes "guarded kind uid refused body h = (res, h')"
  shows "res = refused ErrSessionBusy \<and> h_log h' = h_log h \<and> tick_of h' = tick_of h
       \<and> h_runtime h' = h_runtime h \<and> h_set h' = h_set h
    \<or> (\<exists>g h1 g'. body (h\<lparr>h_guard := g\<rparr>) = (res, h1) \<and> h' = h1\<lparr>h_guard := g'\<rparr>)"
  using assms by (auto simp: guarded_def acquire_def Let_def split: prod.splits if_splits)

text \<open>A guarded read: nothing is written, and the error is the guard's or a status.\<close>

lemma guarded_quiet:
  assumes "guarded kind uid Inl body h = (res, h')"
    and "\<And>h res h'. body h = (res, h') \<Longrightarrow> quiet h (case res of Inl e \<Rightarrow> Some e | Inr _ \<Rightarrow> None) h'"
  shows "quiet h (case res of Inl e \<Rightarrow> Some (busy_status e) | Inr _ \<Rightarrow> None) h'"
  using guarded_result [OF assms(1)]
proof (elim disjE exE conjE)
  fix g h1 g'
  assume b: "body (h\<lparr>h_guard := g\<rparr>) = (res, h1)" and "h' = h1\<lparr>h_guard := g'\<rparr>"
  with assms(2) [OF b] show ?thesis by (auto simp: quiet_def busy_status_ok split: sum.splits)
next
  assume "res = Inl ErrSessionBusy" "h_log h' = h_log h" "tick_of h' = tick_of h"
  then show ?thesis by (simp add: quiet_def busy_status_def)
qed

lemma svc_rel_refl [simp]: "svc_rel sv U s s"
  by (simp add: svc_rel_def)

lemma svc_rel_db: "svc_rel sv U s s' \<Longrightarrow> store_calls (sv_env sv) (journal_call U) (fst s) (fst s')"
  by (simp add: svc_rel_def)

lemma set_refused_log [simp]: "h_log (set_refused e h) = (svc_db h, e)" "svc_db (set_refused e h) = svc_db h"
  by (simp_all add: set_refused_def svc_db_def)

lemma h_log_pair: "h_log h = (svc_db h, svc_refused h)"
  by (simp add: svc_db_def svc_refused_def)

lemma set_db_log [simp]: "h_log (set_db db h) = (db, svc_refused h)" "svc_db (set_db db h) = db"
  by (simp_all add: set_db_def svc_db_def svc_refused_def)

lemma svc_db_guard [simp]: "svc_db (h\<lparr>h_guard := g\<rparr>) = svc_db h"
  by (simp add: svc_db_def)

lemma svc_db_same: "h_log h' = h_log h \<Longrightarrow> svc_db h' = svc_db h"
  by (simp add: svc_db_def)

lemma keep_refused_respects:
  assumes "\<And>name h e h'. check name h = (e, h') \<Longrightarrow> quiet h e h'"
  shows "check_respects (svc_rel sv U) \<lparr>rr_check = Some (keep_refused check), rr_onRecord = a, rr_onDelta = b, rr_expectedLastSeq = c\<rparr>"
proof -
  have "svc_rel sv U (h_log h) (h_log (snd (keep_refused check name h)))" for name h
    using assms [of name h, OF surjective_pairing]
    by (auto simp: keep_refused_def svc_rel_def quiet_def case_prod_unfold svc_db_def)
  then show ?thesis by (simp add: check_respects_def)
qed

lemma suspend_check_respects: "check_respects (svc_rel sv U) \<lparr>rr_check = Some (keep_refused (checkResumedHarness sv uid n)),
    rr_onRecord = a, rr_onDelta = b, rr_expectedLastSeq = c\<rparr>"
  by (rule keep_refused_respects) (rule checkResumedHarness_quiet)

lemma resume_check_respects: "check_respects (svc_rel sv U) \<lparr>rr_check = Some (keep_refused (resume_check sv ctx uid n)),
    rr_onRecord = a, rr_onDelta = b, rr_expectedLastSeq = c\<rparr>"
  by (rule keep_refused_respects) (rule resume_check_quiet)

lemma exec_check_respects: "check_respects (svc_rel sv U) \<lparr>rr_check = Some (keep_refused (exec_check sv req uid n)),
    rr_onRecord = a, rr_onDelta = b, rr_expectedLastSeq = c\<rparr>"
  by (rule keep_refused_respects) (rule exec_check_quiet)

section \<open>Suspend, Resume and Approve\<close>

lemma mutation_info_quiet:
  "mutation_info sv uid h = (res, h') \<Longrightarrow> quiet h (case res of Inl e \<Rightarrow> Some e | Inr _ \<Rightarrow> None) h'"
proof -
  have g: "h_log h' = h_log h \<and> tick_of h \<le> tick_of h'" if "mutationSessionInfo sv uid h = (r, h')" for r h'
  proof -
    have "h_log h2 = h_log h \<and> tick_of h2 = tick_of h"
      if "guarded guardRead uid Inl (\<lambda>h. (SessionInfo uid (svc_db h), h)) h = (q, h2)" for q h2
      using guarded_result [OF that] by auto
    then show ?thesis using that by (auto simp: mutationSessionInfo_def split: prod.splits sum.splits)
  qed
  show "mutation_info sv uid h = (res, h') \<Longrightarrow> ?thesis"
    by (auto simp: mutation_info_def quiet_def split: if_splits prod.splits sum.splits option.splits
        dest!: g dest: deletedSessionError_status)
qed

lemma svc_rel_start: "h_log h1 = h_log h \<Longrightarrow> svc_rel sv U (h_log h) (svc_db h1, None)"
  by (simp add: svc_rel_def svc_db_def)

lemma svc_rel_refused:
  "svc_rel sv U (db, None) (h_log h) \<Longrightarrow> svc_refused h = Some e \<Longrightarrow> is_status e"
  by (simp add: svc_rel_def h_log_pair)

text \<open>What an operation that starts with \<^verbatim>\<open>refused\<close> unset has done when it returns.\<close>

definition ran :: "service \<Rightarrow> string \<Rightarrow> service_state host \<Rightarrow> service_state host \<Rightarrow> bool" where
  "ran sv uid h h' \<longleftrightarrow> store_calls (sv_env sv) (journal_call {uid}) (svc_db h) (svc_db h') \<and> refusal_ok (svc_refused h')"

lemma ranI: "svc_rel sv {uid} (db, None) (h_log h') \<Longrightarrow> db = svc_db h \<Longrightarrow> ran sv uid h h'"
  by (simp add: svc_rel_def ran_def h_log_pair)

lemma ran_refused: "ran sv uid h h' \<Longrightarrow> svc_refused h' = Some e \<Longrightarrow> is_status e"
  by (simp add: ran_def)

lemma ran_calls: "ran sv uid h h' \<Longrightarrow> store_calls (sv_env sv) (journal_call {uid}) (svc_db h) (svc_db h')"
  by (simp add: ran_def)

lemma suspend_ran:
  assumes "Registry_Suspend r (sv_placer sv) (session_log sv uid) uid d
      \<lparr>rr_check = Some (keep_refused (checkResumedHarness sv uid n)), rr_onRecord = False, rr_onDelta = False,
       rr_expectedLastSeq = None\<rparr> h3 = (q, h4)" "h_log h3 = (svc_db h, None)"
  shows "ran sv uid h h4"
  using journal.after_Registry_Suspend [OF assms(1) suspend_check_respects, of "{}" "h_log h3"] assms(2) by (simp add: ranI)

lemma resume_ran:
  assumes "Registry_Resume r (sv_placer sv) (session_log sv uid) uid d
      \<lparr>rr_check = Some (keep_refused (resume_check sv ctx uid n)), rr_onRecord = False, rr_onDelta = False,
       rr_expectedLastSeq = ex\<rparr> h3 = (q, h4)" "h_log h3 = (svc_db h, None)"
  shows "ran sv uid h h4"
  using journal.after_Registry_Resume [OF assms(1) resume_check_respects, of "{}" "h_log h3"] assms(2) by (simp add: ranI)

lemma Service_Suspend_rel:
  assumes "Service_Suspend sv uid h = (res, h')"
  shows "store_calls (sv_env sv) (journal_call {uid}) (svc_db h) (svc_db h') \<and> (\<forall>e. res = Inl e \<longrightarrow> is_status e)"
  using assms
  by (auto simp: Service_Suspend_def quiet_def svc_db_def split: prod.splits sum.splits if_splits
        dest!: mutation_info_quiet registry_now_quiet suspend_ran [where h = h]
        dest: ran_calls ran_refused session_view_status)

lemma Service_Resume_rel:
  assumes "Service_Resume sv uid ex h = (res, h')"
  shows "store_calls (sv_env sv) (journal_call {uid}) (svc_db h) (svc_db h') \<and> (\<forall>e. res = Inl e \<longrightarrow> is_status e)"
  using assms
  by (auto simp: Service_Resume_def quiet_def svc_db_def split: prod.splits sum.splits if_splits
        dest!: mutation_info_quiet registry_now_quiet resume_ran [where h = h]
        dest: ran_calls ran_refused session_view_status)

lemma approve_rel:
  assumes "Registry_Approve (session_log sv uid) uid now d h2 = (q, h3)" "h_log h2 = h_log h"
  shows "store_calls (sv_env sv) (journal_call {uid}) (svc_db h) (svc_db h3)"
  using journal.after_Registry_Approve [OF assms(1), of "{}" "h_log h2"] assms(2) by (simp add: svc_rel_def svc_db_def)

lemma approve_read:
  assumes "guarded guardRead uid Some (\<lambda>h. (case SessionInfo uid (svc_db h) of Inl e \<Rightarrow> Some (sessionStoreError e uid)
      | Inr info \<Rightarrow> deletedSessionError info, h)) h = (res, h1)"
  shows "h_log h1 = h_log h \<and> (\<forall>e. res = Some e \<longrightarrow> e = ErrSessionBusy \<or> is_status e)"
  using guarded_result [OF assms] by (cases "SessionInfo uid (svc_db h)") (auto dest: deletedSessionError_status)

lemma Service_Approve_rel:
  assumes a: "Service_Approve sv req h = (res, h')"
  shows "store_calls (sv_env sv) (journal_call {ar_session req}) (svc_db h) (svc_db h') \<and> (\<forall>e. res = Inl e \<longrightarrow> is_status e)"
proof -
  let ?uid = "ar_session req"
  let ?read = "\<lambda>h. (case SessionInfo ?uid (svc_db h) of Inl e \<Rightarrow> Some (sessionStoreError e ?uid)
      | Inr info \<Rightarrow> deletedSessionError info, h)"
  obtain q h1 where g: "guarded guardRead ?uid Some ?read h = (q, h1)" by fastforce
  obtain t h2 where k: "ask h1 = (t, h2)" by fastforce
  have l: "h_log h1 = h_log h" "h_log h2 = h_log h" using approve_read [OF g] ask_quiet [OF k] by auto
  have refuse: "is_status (if errors_is e ErrSessionBusy then approvalError e else e)" if "q = Some e" for e
    using approve_read [OF g] that by (auto simp: ErrSessionBusy_def)
  have calls: "store_calls (sv_env sv) (journal_call {?uid}) (svc_db h) (svc_db h3)"
    if "Registry_Approve (session_log sv ?uid) ?uid now d h2 = (r, h3)" for now d r h3
    by (rule approve_rel [OF that l(2)])
  show ?thesis using a g k svc_db_same [OF l(1)] refuse
    by (auto simp: Service_Approve_def Let_def split: option.splits if_splits prod.splits sum.splits
        dest: calls session_view_status)
qed

section \<open>Delete and Create\<close>

lemma Service_DeleteSession_rel:
  assumes "Service_DeleteSession sv uid h = (res, h')"
  shows "store_calls (sv_env sv) (\<lambda>c. \<exists>ctx. c = DbDeleteSession ctx uid) (svc_db h) (svc_db h') \<and> (\<forall>e. res = Inl e \<longrightarrow> is_status e)"
proof -
  have d: "store_calls (sv_env sv) (\<lambda>c. \<exists>ctx. c = DbDeleteSession ctx uid) (svc_db h) (svc_db h1)"
    if "guarded guardDelete uid Inl (\<lambda>h. case DeleteSession (sv_env sv) (sv_dbCtxErr sv) uid (svc_db h) of
                (res, db) \<Rightarrow> (res, set_db db h)) h = (q, h1)" for q h1
    using guarded_result [OF that] store_calls_step [of "\<lambda>c. \<exists>ctx. c = DbDeleteSession ctx uid" "DbDeleteSession (sv_dbCtxErr sv) uid" "sv_env sv" "svc_db h"]
    by (cases "DeleteSession (sv_env sv) (sv_dbCtxErr sv) uid (svc_db h)") (auto simp: svc_db_def set_db_def)
  show ?thesis using assms
    by (auto simp: Service_DeleteSession_def split: if_splits prod.splits sum.splits dest: d sessionProto_status)
qed

definition creates :: "string \<Rightarrow> db_call \<Rightarrow> bool" where
  "creates uid c \<longleftrightarrow> (\<exists>m registered. c = DbPutSessionOnActiveHarness m registered \<and> sm_uid m = uid)"

lemma createSession_rel:
  assumes "createSession sv uid m h = (res, h')" "sm_uid m = uid"
  shows "store_calls (sv_env sv) (creates uid) (svc_db h) (svc_db h') \<and> tick_of h \<le> tick_of h' \<and> (\<forall>e. res = Inl e \<longrightarrow> is_status e)"
proof -
  have p: "store_calls (sv_env sv) (creates uid) (svc_db h) db"
    if "PutSessionOnActiveHarness (sv_env sv) m' b (svc_db h2) = (q, db)" "h_log h2 = h_log h" "sm_uid m' = uid" for m' b q db h2
    using store_calls_step [of "creates uid" "DbPutSessionOnActiveHarness m' b" "sv_env sv" "svc_db h"] that
    by (auto simp: svc_db_def creates_def)
  have t: "tick_of (set_db db h2) = tick_of h2" for db h2 by (simp add: set_db_def set_log_def)
  show ?thesis using assms
    by (auto simp: createSession_def Let_def t split: prod.splits sum.splits if_splits
        dest!: registry_now_quiet dest: sessionProto_status p) (auto simp: svc_db_def)
qed

lemma Service_CreateSession_rel:
  assumes "Service_CreateSession sv spec h = (res, h')"
  shows "store_calls (sv_env sv) (creates (drawn_uid sv (tick_of h))) (svc_db h) (svc_db h') \<and> (\<forall>e. res = Inl e \<longrightarrow> is_status e)"
proof -
  have m: "sm_uid (spec_meta uid spec md) = uid" for uid md by (simp add: spec_meta_def split: prod.split)
  have e: "svc_db h1 = svc_db h" if "h_log h1 = h_log h" for h1 using that by (simp add: svc_db_def)
  show ?thesis using assms
    by (auto simp: Service_CreateSession_def split: prod.splits sum.splits dest!: newUID_quiet createSession_rel [OF _ m] e)
qed

section \<open>Exec\<close>

lemma exec_recovery_status: "exec_recovery sv req uid h = Inl e \<Longrightarrow> is_status e"
  by (auto simp: exec_recovery_def split: sum.splits option.splits if_splits dest: deletedSessionError_status)

lemma exec_admit_quiet:
  assumes "exec_admit sv req uid created h = (res, h')"
  shows "quiet h (case res of Inl e \<Rightarrow> Some e | Inr _ \<Rightarrow> None) h'"
  using assms
  by (auto simp: exec_admit_def quiet_def split: sum.splits option.splits if_splits prod.splits
      dest!: resolvePlacer_quiet [unfolded quiet_def] dest: exec_recovery_status session_view_status)

lemma exec_operation_ran:
  assumes "exec_operation sv req uid adm h1 = (err, h2)" "h_log h1 = (svc_db h, None)"
  shows "ran sv uid h h2"
proof (cases "xa_recovery adm")
  case None
  obtain k har where r: "the (xa_route adm) = (k, har)" by fastforce
  have "svc_rel sv {uid} (h_log h1) (h_log h2)"
    if "Placer_Exec (on_log (session_log sv uid) (sv_placer sv k)) cfg uid inputs ex h1 = ((inc, err), h2)" for cfg inputs ex inc
    using journal.after_Placer_Exec [OF that, of sv uid "{}" "h_log h1"] by simp
  then show ?thesis using assms None r by (auto simp: exec_operation_def Let_def split: prod.splits intro!: ranI)
next
  case (Some info)
  have "ran sv uid h h2"
    if "Registry_Resume r (sv_placer sv) (session_log sv uid) uid d
      \<lparr>rr_check = Some (keep_refused (exec_check sv req uid n)), rr_onRecord = True, rr_onDelta = True,
       rr_expectedLastSeq = None\<rparr> h4 = (err, h2)" "h_log h4 = (svc_db h, None)" for r d n h4
    using journal.after_Registry_Resume [OF that(1) exec_check_respects, of "{}" "h_log h4"] that(2) by (simp add: ranI)
  then show ?thesis using assms Some by (auto simp: exec_operation_def split: prod.splits dest!: registry_now_quiet)
qed

text \<open>An error of a stream call is a status or what a send returned.\<close>

definition stream_error :: "(nat \<Rightarrow> goerr option) \<Rightarrow> goerr \<Rightarrow> bool" where
  "stream_error send e \<longleftrightarrow> is_status e \<or> (\<exists>n. send n = Some e)"

lemma stream_send_error: "stream_send send u st = (Some e, st') \<Longrightarrow> stream_error send e"
  by (auto simp: stream_send_def stream_error_def)

lemma relay_error: "relay c send obs n st = ((Some e, m), st') \<Longrightarrow> stream_error send e"
  by (induction obs arbitrary: n st) (auto split: prod.splits option.splits dest: stream_send_error)

lemma send_records_error: "send_records send f rs st = (Some e, st') \<Longrightarrow> stream_error send e"
  by (induction rs arbitrary: st) (auto split: prod.splits option.splits dest: stream_send_error)

lemma status_stream [simp]: "is_status e \<Longrightarrow> stream_error send e"
  by (simp add: stream_error_def)

lemma exec_finish_error: "exec_finish sv send uid adm p n st h = (Some e, st') \<Longrightarrow> stream_error send e"
  by (auto simp: exec_finish_def Let_def split: prod.splits option.splits if_splits sum.splits
      dest: stream_send_error send_records_error session_view_status)

lemma exec_run_rel:
  assumes "exec_run sv send req uid adm h = ((res, st'), h')"
  shows "store_calls (sv_env sv) (journal_call {uid}) (svc_db h) (svc_db h') \<and> (\<forall>e. res = Some e \<longrightarrow> stream_error send e)"
proof -
  obtain err h1 where o: "exec_operation sv req uid adm (set_refused None h) = (err, h1)" by fastforce
  have r: "ran sv uid h h1" by (rule exec_operation_ran [OF o]) simp
  have f: "stream_error send (if svc_refused h1 \<noteq> None \<and> err = svc_refused h1 then the err
      else if xa_recovery adm \<noteq> None then resumeError (the err) else execError (the err))"
    using ran_refused [OF r] by auto
  show ?thesis using assms o ran_calls [OF r] f
    by (auto simp: exec_run_def split: prod.splits option.splits if_splits
        dest: stream_send_error relay_error exec_finish_error)
qed

lemma exec_route_rel:
  assumes "(case guarded guardRead uid Inl (exec_admit sv req uid created) h1 of
        (Inl e, h2) \<Rightarrow> ((Some (busy_status e), (0, [])), h2)
      | (Inr adm, h2) \<Rightarrow> exec_run sv send req uid adm h2) = ((res, st'), h')"
  shows "store_calls (sv_env sv) (journal_call {uid}) (svc_db h1) (svc_db h') \<and> (\<forall>e. res = Some e \<longrightarrow> stream_error send e)"
proof -
  obtain q h2 where g: "guarded guardRead uid Inl (exec_admit sv req uid created) h1 = (q, h2)" by fastforce
  have k: "quiet h1 (case q of Inl e \<Rightarrow> Some (busy_status e) | Inr _ \<Rightarrow> None) h2"
    by (rule guarded_quiet [OF g]) (rule exec_admit_quiet)
  then have "svc_db h2 = svc_db h1" by (simp add: quiet_def svc_db_def)
  then show ?thesis using assms g k exec_run_rel [of sv send req uid _ h2 res st' h']
    by (cases q) (auto simp: quiet_def)
qed

lemma Service_Exec_rel:
  assumes "Service_Exec sv send req h = ((res, st'), h')"
  shows "store_calls (sv_env sv)
      (if xr_session req = [] then (\<lambda>c. creates (drawn_uid sv (tick_of h)) c \<or> journal_call {drawn_uid sv (tick_of h)} c)
       else journal_call {xr_session req}) (svc_db h) (svc_db h')
    \<and> (\<forall>e. res = Some e \<longrightarrow> stream_error send e)"
proof (cases "xr_session req = []")
  case False
  then show ?thesis using assms exec_route_rel by (simp add: Service_Exec_def)
next
  case True
  let ?uid = "drawn_uid sv (tick_of h)"
  let ?P = "\<lambda>c. creates ?uid c \<or> journal_call {?uid} c"
  obtain uid h1 where n: "newUID sv h = (uid, h1)" by fastforce
  have u: "uid = ?uid" "svc_db h1 = svc_db h" using newUID_quiet [OF n] by (auto simp: svc_db_def)
  let ?m = "spec_meta uid
                           \<lparr>ps_project = [], ps_name = [], ps_uid = [], ps_createTime = None, ps_updateTime = None,
                            ps_harness = xr_harness req, ps_model = [], ps_execState = EXEC_STATE_UNSPECIFIED,
                            ps_computeState = COMPUTE_STATE_UNSPECIFIED, ps_lastSeq = 0, ps_parentUid = [], ps_forkSeq = 0,
                            ps_deletionState = DELETION_STATE_UNSPECIFIED, ps_deletionRequestedTime = None,
                            ps_pendingApproval = None, ps_labels = [], ps_annotations = [], ps_origin = None,
                            ps_identity = None\<rparr> ([], [], [], [])"
  obtain q h2 where c: "createSession sv uid ?m h1 = (q, h2)" by fastforce
  have cr: "store_calls (sv_env sv) (creates ?uid) (svc_db h) (svc_db h2)" "\<forall>e. q = Inl e \<longrightarrow> is_status e"
    using createSession_rel [OF c] u by (simp_all add: spec_meta_def)
  have step: "store_calls (sv_env sv) ?P (svc_db h) (svc_db h')" if "store_calls (sv_env sv) (journal_call {?uid}) (svc_db h2) (svc_db h')"
    using store_calls_trans [of "sv_env sv" ?P] store_calls_mono [OF cr(1), of ?P] store_calls_mono [OF that, of ?P] by blast
  show ?thesis
  proof (cases q)
    case (Inl e)
    then have "res = Some e" "h' = h2" using assms True n c by (simp_all add: Service_Exec_def)
    then show ?thesis using True cr Inl store_calls_mono [OF cr(1), of ?P] by simp
  next
    case (Inr sess)
    then have "(case guarded guardRead uid Inl (exec_admit sv req uid (Some sess)) h2 of
        (Inl e, h3) \<Rightarrow> ((Some (busy_status e), (0, [])), h3)
      | (Inr adm, h3) \<Rightarrow> exec_run sv send req uid adm h3) = ((res, st'), h')"
      using assms True n c by (simp add: Service_Exec_def)
    from exec_route_rel [OF this] show ?thesis using True step u by simp
  qed
qed

section \<open>Fork\<close>

text \<open>The UIDs drawn from tick \<open>n\<close> on, and the calls a fork of \<open>uid\<close> may make whose children's UIDs are among them.\<close>

definition fresh :: "service \<Rightarrow> nat \<Rightarrow> string set" where
  "fresh sv n = {drawn_uid sv t |t. n \<le> t}"

lemma fresh_mono: "n \<le> m \<Longrightarrow> fresh sv m \<subseteq> fresh sv n"
  unfolding fresh_def by (auto intro: le_trans)

lemma drawn_fresh [simp]: "drawn_uid sv n \<in> fresh sv n"
  unfolding fresh_def by blast

definition forks :: "service \<Rightarrow> nat \<Rightarrow> string \<Rightarrow> db_call \<Rightarrow> bool" where
  "forks sv n uid c \<longleftrightarrow> journal_call (insert uid (fresh sv n)) c
     \<or> (\<exists>m. c = DbPutSession m \<and> sm_uid m \<in> fresh sv n \<and> sm_parentUID m = uid)"

lemma journal_call_mono: "journal_call U c \<Longrightarrow> U \<subseteq> V \<Longrightarrow> journal_call V c"
  by (cases c) auto

lemma forks_mono: "forks sv m uid c \<Longrightarrow> n \<le> m \<Longrightarrow> forks sv n uid c"
  unfolding forks_def using fresh_mono [of n m sv] journal_call_mono by blast

lemma new_children_quiet:
  "new_children sv n h = (cs, h') \<Longrightarrow> h_log h' = h_log h \<and> tick_of h \<le> tick_of h' \<and> length cs = n
    \<and> (\<forall>c \<in> set cs. fc_ops c = session_log sv (fc_uid c) \<and> fc_uid c \<in> fresh sv (tick_of h))"
proof (induction n arbitrary: h cs h')
  case (Suc n)
  obtain uid h1 where n: "newUID sv h = (uid, h1)" by fastforce
  obtain ds h2 where m: "new_children sv n h1 = (ds, h2)" by fastforce
  have "fresh sv (tick_of h1) \<subseteq> fresh sv (tick_of h)" using newUID_quiet [OF n] by (simp add: fresh_mono)
  then show ?case using Suc.IH [OF m] Suc.prems n m newUID_quiet [OF n] by auto
qed simp

lemma fork_children_frames:
  assumes "\<forall>c \<in> set children. fc_ops c = session_log sv (fc_uid c) \<and> fc_uid c \<in> fresh sv n"
  shows "\<forall>c \<in> set children. store_frame (fc_ops c) (svc_rel sv (insert uid (fresh sv n)))"
proof
  fix c
  assume "c \<in> set children"
  with assms have "fc_ops c = session_log sv (fc_uid c)" "fc_uid c \<in> insert uid (fresh sv n)" by auto
  then show "store_frame (fc_ops c) (svc_rel sv (insert uid (fresh sv n)))"
    using journal.store_frame_axioms [of sv "fc_uid c" "insert uid (fresh sv n)"] by (simp add: insert_absorb)
qed

lemma map_sum_Inl: "map_sum id f x = Inl e \<longleftrightarrow> x = Inl e"
  by (cases x) auto

lemma record_children_rel:
  assumes "record_children sv parent puid n labels named h = (res, h')" "\<forall>x \<in> set named. fst x \<in> fresh sv k"
  shows "store_calls (sv_env sv) (forks sv k puid) (svc_db h) (svc_db h') \<and> (\<forall>e. res = Inl e \<longrightarrow> is_status e)"
  using assms
proof (induction named arbitrary: h res h')
  case (Cons x named)
  obtain uid name where x: "x = (uid, name)" by fastforce
  let ?m = "child_meta parent puid n labels uid name"
  obtain q db where p: "PutSession (sv_env sv) ?m (svc_db h) = (q, db)" by fastforce
  have f: "forks sv k puid (DbPutSession ?m)" using Cons.prems(2) x by (simp add: forks_def child_meta_def)
  have step: "store_calls (sv_env sv) (forks sv k puid) (svc_db h) db"
    using store_calls_step [where P = "forks sv k puid" and c = "DbPutSession ?m", OF f, of "sv_env sv" "svc_db h"] p by simp
  have ih: "store_calls (sv_env sv) (forks sv k puid) db (svc_db h2) \<and> (\<forall>e. r = Inl e \<longrightarrow> is_status e)"
    if "record_children sv parent puid n labels named (set_db db h) = (r, h2)" for r h2
    using Cons.IH [OF that] Cons.prems(2) by simp
  show ?case using Cons.prems(1) x p step
    by (auto simp: Let_def map_sum_Inl split: option.splits sum.splits prod.splits dest!: ih
        dest: session_view_status store_calls_trans)
qed simp

lemma placerFor_quiet:
  assumes "placerFor sv uid ov rd h = (res, h')"
    and "\<And>h r h'. rd h = (r, h') \<Longrightarrow> quiet h (case r of Inl e \<Rightarrow> Some e | Inr _ \<Rightarrow> None) h'"
  shows "quiet h (case res of Inl e \<Rightarrow> Some e | Inr _ \<Rightarrow> None) h'"
proof -
  let ?body = "\<lambda>h. case resolvePlacer sv uid ov h of (Inl e, h1) \<Rightarrow> (Inl e, h1)
      | (Inr route, h1) \<Rightarrow> (case rd h1 of (Inl e, h2) \<Rightarrow> (Inl e, h2) | (Inr x, h2) \<Rightarrow> (Inr (route, x), h2))"
  have "quiet h (case r of Inl e \<Rightarrow> Some e | Inr _ \<Rightarrow> None) h'" if "?body h = (r, h')" for h r h'
    using that by (auto simp: quiet_def split: prod.splits sum.splits
        dest!: resolvePlacer_quiet [unfolded quiet_def] assms(2) [unfolded quiet_def])
  then have "quiet h (case r of Inl e \<Rightarrow> Some (busy_status e) | Inr _ \<Rightarrow> None) h2" if "guarded guardRead uid Inl ?body h = (r, h2)" for r h2
    using guarded_quiet [OF that] by blast
  then show ?thesis using assms(1)
    by (auto simp: placerFor_def quiet_def split: if_splits prod.splits sum.splits)
qed

lemma fork_out_rel:
  assumes "fork_out sv req k n h = (res, h')"
  shows "store_calls (sv_env sv) (forks sv (tick_of h) (fr_session req)) (svc_db h) (svc_db h') \<and> (\<forall>e. res = Inl e \<longrightarrow> is_status e)"
proof -
  let ?uid = "fr_session req" and ?P = "forks sv (tick_of h) (fr_session req)"
  obtain cs h1 where c: "new_children sv (nat (fork_count req)) h = (cs, h1)" by fastforce
  note nc = new_children_quiet [OF c]
  have frames: "\<forall>c \<in> set cs. store_frame (fc_ops c) (svc_rel sv (insert ?uid (fresh sv (tick_of h))))"
    by (rule fork_children_frames) (use nc in auto)
  have fk: "store_calls (sv_env sv) ?P (svc_db h) (svc_db h2)"
    if "Placer_Fork (on_log (session_log sv ?uid) (sv_placer sv k)) ?uid cs n h1 = (r, h2)" for r h2
  proof -
    have "svc_rel sv (insert ?uid (fresh sv (tick_of h))) (h_log h) (h_log h2)"
      using journal.after_Placer_Fork [OF that, of sv ?uid "fresh sv (tick_of h)" "h_log h"] frames nc by simp
    then show ?thesis by (auto simp: svc_rel_def svc_db_def forks_def elim!: store_calls_mono)
  qed
  have named: "\<forall>x \<in> set (zip (map fc_uid cs) names). fst x \<in> fresh sv (tick_of h)" for names :: "string list"
    using nc by (auto dest!: in_set_zipE set_zip_leftD)
  have rc: "store_calls (sv_env sv) ?P (svc_db h2) (svc_db h') \<and> (\<forall>e. res = Inl e \<longrightarrow> is_status e)"
    if "record_children sv parent ?uid n labels (zip (map fc_uid cs) names) h2 = (res, h')" for parent labels names h2
    by (rule record_children_rel [OF that named])
  show ?thesis using assms c
    by (auto simp: fork_out_def Let_def split: if_splits prod.splits option.splits sum.splits dest: fk dest!: rc intro: store_calls_trans)
qed

lemma Service_Fork_rel:
  assumes "Service_Fork sv req h = (res, h')"
  shows "store_calls (sv_env sv) (forks sv (tick_of h) (fr_session req)) (svc_db h) (svc_db h') \<and> (\<forall>e. res = Inl e \<longrightarrow> is_status e)"
proof (cases "fr_identity req = None")
  case True
  obtain q h1 where p: "placerFor sv (fr_session req) [] (fork_at sv req) h = (q, h1)" by fastforce
  have k: "quiet h (case q of Inl e \<Rightarrow> Some e | Inr _ \<Rightarrow> None) h1"
    by (rule placerFor_quiet [OF p]) (rule fork_at_quiet)
  then have l: "svc_db h1 = svc_db h" "tick_of h \<le> tick_of h1" by (simp_all add: quiet_def svc_db_def)
  show ?thesis
  proof (cases q)
    case (Inl e)
    then show ?thesis using assms True p k l by (auto simp: Service_Fork_def quiet_def)
  next
    case (Inr x)
    then obtain k name n where x: "q = Inr ((k, name), n)" by (metis surj_pair)
    then have "fork_out sv req k n h1 = (res, h')" using assms True p by (simp add: Service_Fork_def)
    from fork_out_rel [OF this] l show ?thesis by (auto elim!: store_calls_mono intro: forks_mono)
  qed
qed (use assms in \<open>auto simp: Service_Fork_def\<close>)

section \<open>Reads\<close>

lemma session_protos_status: "session_protos sv infos = Inl e \<Longrightarrow> is_status e"
  by (induction infos) (auto simp: map_sum_Inl split: sum.splits dest: sessionProto_status)

lemma reads_status:
  "Service_GetSession sv uid h = Inl e \<Longrightarrow> is_status e"
  "Service_ListSessions sv req h = Inl e \<Longrightarrow> is_status e"
  "Service_Replay sv send uid a b h = (Some e, st) \<Longrightarrow> stream_error send e"
proof -
  show "Service_GetSession sv uid h = Inl e \<Longrightarrow> is_status e"
    by (auto simp: Service_GetSession_def split: if_splits dest: session_view_status)
  show "Service_ListSessions sv req h = Inl e \<Longrightarrow> is_status e"
    by (auto simp: Service_ListSessions_def Let_def map_sum_Inl split: if_splits sum.splits dest: session_protos_status)
  show "Service_Replay sv send uid a b h = (Some e, st) \<Longrightarrow> stream_error send e"
    by (auto simp: Service_Replay_def Let_def split: sum.splits dest: send_records_error)
qed

end
