(* ===== verification/Service_Props.thy ===== *)
theory Service_Props
  imports Service_Calls Sqlite_Props
begin

text \<open>
  The Sessions service as a whole: any RPC, and any sequence of them.
\<close>

section \<open>Any RPC\<close>

datatype rpc =
    RpcCreateSession pb_session
  | RpcGetSession string
  | RpcListSessions list_options
  | RpcExec "nat \<Rightarrow> goerr option" exec_request
  | RpcReplay "nat \<Rightarrow> goerr option" string int64 int64
  | RpcFork fork_request
  | RpcSuspend string
  | RpcResume string "int64 option"
  | RpcApprove approve_request
  | RpcDeleteSession string

definition answer :: "(goerr + 'a) \<times> 's host \<Rightarrow> goerr option \<times> 's host" where
  "answer x = (case x of (Inl e, h) \<Rightarrow> (Some e, h) | (Inr _, h) \<Rightarrow> (None, h))"

text \<open>The error a call returns, if any, and the host after it.\<close>

fun serve :: "service \<Rightarrow> rpc \<Rightarrow> service_state host \<Rightarrow> goerr option \<times> service_state host" where
  "serve sv (RpcCreateSession spec) h = answer (Service_CreateSession sv spec h)"
| "serve sv (RpcGetSession uid) h = answer (Service_GetSession sv uid h, h)"
| "serve sv (RpcListSessions req) h = answer (Service_ListSessions sv req h, h)"
| "serve sv (RpcExec send req) h = (case Service_Exec sv send req h of ((e, _), h') \<Rightarrow> (e, h'))"
| "serve sv (RpcReplay send uid a b) h = (fst (Service_Replay sv send uid a b h), h)"
| "serve sv (RpcFork req) h = answer (Service_Fork sv req h)"
| "serve sv (RpcSuspend uid) h = answer (Service_Suspend sv uid h)"
| "serve sv (RpcResume uid ex) h = answer (Service_Resume sv uid ex h)"
| "serve sv (RpcApprove req) h = answer (Service_Approve sv req h)"
| "serve sv (RpcDeleteSession uid) h = answer (Service_DeleteSession sv uid h)"

text \<open>
  The store calls of an RPC that starts at tick \<open>n\<close>: which operations, on which sessions.  A new session's
  UID is the one drawn at that tick, those of a fork's children are drawn later.
\<close>

definition exec_uid :: "service \<Rightarrow> nat \<Rightarrow> exec_request \<Rightarrow> string" where
  "exec_uid sv n req = (if xr_session req = [] then drawn_uid sv n else xr_session req)"

fun rpc_call :: "service \<Rightarrow> nat \<Rightarrow> rpc \<Rightarrow> db_call \<Rightarrow> bool" where
  "rpc_call sv n (RpcCreateSession spec) = creates (drawn_uid sv n)"
| "rpc_call sv n (RpcExec send req) =
     (\<lambda>c. journal_call {exec_uid sv n req} c \<or> xr_session req = [] \<and> creates (drawn_uid sv n) c)"
| "rpc_call sv n (RpcFork req) = forks sv n (fr_session req)"
| "rpc_call sv n (RpcSuspend uid) = journal_call {uid}"
| "rpc_call sv n (RpcResume uid ex) = journal_call {uid}"
| "rpc_call sv n (RpcApprove req) = journal_call {ar_session req}"
| "rpc_call sv n (RpcDeleteSession uid) = (\<lambda>c. \<exists>ctx. c = DbDeleteSession ctx uid)"
| "rpc_call sv n _ = (\<lambda>_. False)"

lemma answer_of:
  assumes "answer x = (e, h')"
  shows "\<exists>res. x = (res, h') \<and> (\<forall>y. e = Some y \<longrightarrow> res = Inl y)"
  using assms by (cases x; cases "fst x") (auto simp: answer_def)

text \<open>What a call may send is a status, or for a stream what a send returned.\<close>

fun rpc_sends :: "rpc \<Rightarrow> nat \<Rightarrow> goerr option" where
  "rpc_sends (RpcExec send _) = send"
| "rpc_sends (RpcReplay send _ _ _) = send"
| "rpc_sends _ = (\<lambda>_. None)"

lemma stream_None [simp]: "stream_error (\<lambda>_. None) e \<longleftrightarrow> is_status e"
  by (simp add: stream_error_def)

lemma serve_rel:
  assumes "serve sv rpc h = (e, h')"
  shows "store_calls (sv_env sv) (rpc_call sv (tick_of h) rpc) (svc_db h) (svc_db h')
    \<and> (\<forall>x. e = Some x \<longrightarrow> stream_error (rpc_sends rpc) x)"
proof (cases rpc)
  case (RpcExec send req)
  then obtain st where x: "Service_Exec sv send req h = ((e, st), h')" using assms by (auto split: prod.splits)
  from Service_Exec_rel [OF x] RpcExec show ?thesis
    by (auto simp: exec_uid_def split: if_splits elim!: store_calls_mono)
next
  case (RpcReplay send uid a b)
  then show ?thesis using assms reads_status(3) [of sv send uid a b h] by (auto simp: prod_eq_iff)
qed (use assms in \<open>auto dest!: answer_of Service_CreateSession_rel Service_Fork_rel Service_Suspend_rel Service_Resume_rel
    Service_Approve_rel Service_DeleteSession_rel dest: reads_status\<close>)

text \<open>The sessions an RPC may write to.\<close>

fun rpc_sessions :: "service \<Rightarrow> nat \<Rightarrow> rpc \<Rightarrow> string set" where
  "rpc_sessions sv n (RpcCreateSession spec) = {drawn_uid sv n}"
| "rpc_sessions sv n (RpcExec send req) = {exec_uid sv n req}"
| "rpc_sessions sv n (RpcFork req) = insert (fr_session req) (fresh sv n)"
| "rpc_sessions sv n (RpcSuspend uid) = {uid}"
| "rpc_sessions sv n (RpcResume uid ex) = {uid}"
| "rpc_sessions sv n (RpcApprove req) = {ar_session req}"
| "rpc_sessions sv n (RpcDeleteSession uid) = {uid}"
| "rpc_sessions sv n _ = {}"

lemma journal_call_session: "journal_call U c \<Longrightarrow> \<exists>u \<in> U. call_session c = Some u"
  by (cases c) auto

lemma rpc_call_session: "rpc_call sv n rpc c \<Longrightarrow> \<exists>u \<in> rpc_sessions sv n rpc. call_session c = Some u"
  by (cases rpc) (auto simp: creates_def forks_def exec_uid_def split: if_splits dest!: journal_call_session)

lemma other_sessions:
  assumes "db_ok db" "\<And>c. P c \<Longrightarrow> \<exists>u \<in> U. call_session c = Some u" "store_calls env P db db'" "k \<notin> U"
  shows "db_ok db' \<and> same_session_data k db db' \<and> db_harnesses db' = db_harnesses db \<and> db_reserved db' = db_reserved db"
proof -
  obtain cs where "list_all P cs" "db' = db_run env cs db" using assms(3) by (auto simp: store_calls_def)
  then show ?thesis using assms(1)
  proof (induction cs arbitrary: db)
    case (Cons c cs)
    obtain u where u: "call_session c = Some u" "u \<noteq> k" using Cons.prems(1) assms(2,4) by auto
    let ?db = "db_step env c db"
    have "db_ok ?db" "elsewhere u db ?db" using db_step_effect(1,2) [OF Cons.prems(3)] u by auto
    moreover from this(2) u(2) have "same_session_data k db ?db" "db_harnesses ?db = db_harnesses db" "db_reserved ?db = db_reserved db"
      by (auto simp: elsewhere_def same_session_data_def)
    ultimately show ?case using Cons.IH [of ?db] Cons.prems(1,2) same_session_data_trans by (auto simp: db_run_def)
  qed (simp add: db_run_def)
qed

definition serve_all :: "service \<Rightarrow> rpc list \<Rightarrow> service_state host \<Rightarrow> service_state host" where
  "serve_all sv rpcs h = fold (\<lambda>rpc h. snd (serve sv rpc h)) rpcs h"

lemma serve_all_calls: "store_calls (sv_env sv) (\<lambda>_. True) (svc_db h) (svc_db (serve_all sv rpcs h))"
proof (induction rpcs arbitrary: h)
  case (Cons rpc rpcs)
  have "store_calls (sv_env sv) (\<lambda>_. True) (svc_db h) (svc_db (snd (serve sv rpc h)))"
    using serve_rel [of sv rpc h "fst (serve sv rpc h)" "snd (serve sv rpc h)"] store_calls_mono by auto
  then show ?case using Cons store_calls_trans by (fastforce simp: serve_all_def)
qed (simp add: serve_all_def)

section \<open>Deleted sessions\<close>

text \<open>The requests that would write to session \<open>uid\<close>, past the checks of their own fields.\<close>

fun writes_to :: "string \<Rightarrow> rpc \<Rightarrow> bool" where
  "writes_to uid (RpcExec send req) = (xr_session req = uid)"
| "writes_to uid (RpcFork req) = (fr_session req = uid \<and> fr_identity req = None)"
| "writes_to uid (RpcSuspend u) = (u = uid)"
| "writes_to uid (RpcResume u ex) = (u = uid)"
| "writes_to uid (RpcApprove req) = (ar_session req = uid \<and> ar_approved req \<noteq> None \<and> ar_executionId req \<noteq> []
     \<and> ar_toolCallId req \<noteq> [] \<and> ar_requestSeq req > 0)"
| "writes_to uid _ = False"

text \<open>How a deleted session refuses: with its deletion, or because a deletion in progress holds the session.\<close>

definition refused_deleted :: "string \<Rightarrow> service_state host \<Rightarrow> goerr option \<times> service_state host \<Rightarrow> bool" where
  "refused_deleted uid h x \<longleftrightarrow> (\<exists>e. fst x = Some e \<and> h_log (snd x) = h_log h \<and> h_runtime (snd x) = h_runtime h \<and> h_set (snd x) = h_set h
     \<and> (if guard_refuses guardRead (guard_entry uid (h_guard h)) then errors_as_status e = Some CodeAborted
        else errors_as_status e = Some CodeFailedPrecondition \<and> errors_is e ErrDeleted))"

lemma guarded_refusal:
  assumes "\<And>g. body (h\<lparr>h_guard := g\<rparr>) = (r, h\<lparr>h_guard := g\<rparr>)"
  shows "\<exists>g. guarded kind uid refused body h =
    (if guard_refuses kind (guard_entry uid (h_guard h)) then refused ErrSessionBusy else r, h\<lparr>h_guard := g\<rparr>)"
  using assms by (auto simp: guarded_def acquire_def Let_def)

lemma refused_deletedI:
  assumes "e = (if guard_refuses guardRead (guard_entry uid (h_guard h)) then busy else del)"
    "errors_as_status busy = Some CodeAborted" "errors_as_status del = Some CodeFailedPrecondition" "errors_is del ErrDeleted"
  shows "refused_deleted uid h (Some e, h\<lparr>h_guard := g\<rparr>)"
  using assms by (simp add: refused_deleted_def)

lemma deleted_status:
  assumes "si_deletionState info \<noteq> DeletionActive"
  shows "\<exists>del. deletedSessionError info = Some del \<and> errors_as_status del = Some CodeFailedPrecondition \<and> errors_is del ErrDeleted
    \<and> busy_status del = del \<and> \<not> errors_is del ErrSessionBusy"
  using assms by (simp add: deletedSessionError_def withStatusCause_def busy_status_def errorf_def ErrDeleted_def ErrSessionBusy_def)

lemma busy_status_busy: "errors_as_status (busy_status ErrSessionBusy) = Some CodeAborted" "is_status (busy_status ErrSessionBusy)"
  "errors_as_status (approvalError ErrSessionBusy) = Some CodeAborted"
  "errors_is (busy_status ErrSessionBusy) ErrSessionBusy" "errors_is ErrSessionBusy ErrSessionBusy"
  by (simp_all add: busy_status_def withStatusCause_def approvalError_def ErrSessionBusy_def ErrDeleted_def
      ErrInvalidApprovalDecision_def ErrInvalidExecutionLog_def ErrReplayDiverged_def ErrApprovalUnavailable_def is_status_def)

lemma mutation_info_deleted:
  assumes "SessionInfo uid (svc_db h) = Inr info" "si_deletionState info \<noteq> DeletionActive" "deletedSessionError info = Some del"
    "errors_as_status del = Some CodeFailedPrecondition" "errors_is del ErrDeleted" "uid \<noteq> []"
  shows "\<exists>e g. mutation_info sv uid h = (Inl e, h\<lparr>h_guard := g\<rparr>) \<and> refused_deleted uid h (Some e, h\<lparr>h_guard := g\<rparr>)"
proof -
  let ?busy = "withStatusCause CodeAborted (busy_status ErrSessionBusy)"
  obtain g where "guarded guardRead uid Inl (\<lambda>h. (SessionInfo uid (svc_db h), h)) h =
      (if guard_refuses guardRead (guard_entry uid (h_guard h)) then Inl ErrSessionBusy else Inr info, h\<lparr>h_guard := g\<rparr>)"
    using guarded_refusal [of "\<lambda>h. (SessionInfo uid (svc_db h), h)" h "Inr info" guardRead uid Inl] assms(1) by auto
  then have "mutation_info sv uid h = (Inl (if guard_refuses guardRead (guard_entry uid (h_guard h)) then ?busy else del), h\<lparr>h_guard := g\<rparr>)"
    using assms by (simp add: mutation_info_def mutationSessionInfo_def busy_status_busy)
  then show ?thesis using refused_deletedI [OF refl _ assms(4,5), of ?busy uid h g] by (auto simp: withStatusCause_def)
qed

lemma deleted_refuses:
  assumes info: "SessionInfo uid (svc_db h) = Inr info" "si_deletionState info \<noteq> DeletionActive" and "uid \<noteq> []" "writes_to uid rpc"
  shows "refused_deleted uid h (serve sv rpc h)"
proof -
  obtain del where d: "deletedSessionError info = Some del" "errors_as_status del = Some CodeFailedPrecondition"
    "errors_is del ErrDeleted" "busy_status del = del" "\<not> errors_is del ErrSessionBusy" using deleted_status [OF info(2)] by blast
  obtain e g where mut: "mutation_info sv uid h = (Inl e, h\<lparr>h_guard := g\<rparr>)" "refused_deleted uid h (Some e, h\<lparr>h_guard := g\<rparr>)"
    using mutation_info_deleted [OF info d(1-3) assms(3)] by blast
  show ?thesis
  proof (cases rpc)
    case (RpcExec send req)
    obtain g where "guarded guardRead uid Inl (exec_admit sv req uid None) h =
      (if guard_refuses guardRead (guard_entry uid (h_guard h)) then Inl ErrSessionBusy else Inl del, h\<lparr>h_guard := g\<rparr>)"
      using guarded_refusal [of "exec_admit sv req uid None" h "Inl del" guardRead uid Inl] info d
      by (auto simp: exec_admit_def exec_recovery_def)
    with RpcExec assms(3,4) show ?thesis
      by (auto simp: Service_Exec_def d busy_status_busy intro!: refused_deletedI [where busy = "busy_status ErrSessionBusy" and del = del])
  next
    case (RpcFork req)
    let ?body = "\<lambda>h. case resolvePlacer sv uid [] h of (Inl e, h1) \<Rightarrow> (Inl e, h1)
      | (Inr route, h1) \<Rightarrow> (case fork_at sv req h1 of (Inl e, h2) \<Rightarrow> (Inl e, h2) | (Inr x, h2) \<Rightarrow> (Inr (route, x), h2))"
    obtain g where "guarded guardRead uid Inl ?body h =
      (if guard_refuses guardRead (guard_entry uid (h_guard h)) then Inl ErrSessionBusy else Inl del, h\<lparr>h_guard := g\<rparr>)"
      using guarded_refusal [of ?body h "Inl del" guardRead uid Inl] info d by (auto simp: resolvePlacer_def)
    with RpcFork assms(3,4) show ?thesis
      by (auto simp: Service_Fork_def placerFor_def answer_def d busy_status_busy
          intro!: refused_deletedI [where busy = "busy_status ErrSessionBusy" and del = del])
  next
    case (RpcApprove req)
    let ?body = "\<lambda>h. (case SessionInfo uid (svc_db h) of Inl e \<Rightarrow> Some (sessionStoreError e uid)
      | Inr info \<Rightarrow> deletedSessionError info, h)"
    obtain g where "guarded guardRead uid Some ?body h =
      (if guard_refuses guardRead (guard_entry uid (h_guard h)) then Some ErrSessionBusy else Some del, h\<lparr>h_guard := g\<rparr>)"
      using guarded_refusal [of ?body h "Some del" guardRead uid Some] info d by auto
    with RpcApprove assms(3,4) show ?thesis
      by (auto simp: Service_Approve_def Let_def answer_def d busy_status_busy
          intro!: refused_deletedI [where busy = "approvalError ErrSessionBusy" and del = del])
  next
    case (RpcSuspend u)
    with assms(4) mut show ?thesis by (auto simp: Service_Suspend_def answer_def)
  next
    case (RpcResume u ex)
    with assms(4) mut show ?thesis by (auto simp: Service_Resume_def answer_def)
  qed (use assms in auto)
qed

lemma Service_DeleteSession_gone:
  assumes ok: "db_ok (svc_db h)" and "Service_DeleteSession sv uid h = (Inr s, h1)"
  obtains row where "session_row_of uid (svc_db h1) = Some row" "sn_deletionState row = DeletionPending" "uid \<noteq> []" "db_ok (svc_db h1)"
proof -
  let ?body = "\<lambda>h. case DeleteSession (sv_env sv) (sv_dbCtxErr sv) uid (svc_db h) of (res, db) \<Rightarrow> (res, set_db db h)"
  obtain info where g: "guarded guardDelete uid Inl ?body h = (Inr info, h1)"
    using assms(2) by (auto simp: Service_DeleteSession_def split: if_splits prod.splits sum.splits)
  from guarded_result [OF g] obtain db where d: "DeleteSession (sv_env sv) (sv_dbCtxErr sv) uid (svc_db h) = (Inr info, db)" "svc_db h1 = db"
    by (cases "DeleteSession (sv_env sv) (sv_dbCtxErr sv) uid (svc_db h)") auto
  then show thesis using DeleteSession_gone [OF ok d(1)] DeleteSession_effect [OF ok d(1)] that by blast
qed

section \<open>Properties\<close>

text \<open>
  (C5) The service refines the store.  Whatever an RPC is, whatever the registry, the runtimes, the harness, the
  model, the contexts and the client's stream do meanwhile, the database after it is the database before it
  after a sequence of calls of the store, and the request says which: appends and fence mints on the session it
  names for \<^verbatim>\<open>Suspend\<close>, \<^verbatim>\<open>Resume\<close>, \<^verbatim>\<open>Approve\<close> and \<^verbatim>\<open>Exec\<close> (which first creates the session if it names
  none), the insert of the session just drawn for \<^verbatim>\<open>CreateSession\<close>, the deletion of the named session for
  \<^verbatim>\<open>DeleteSession\<close>, appends and fences on parent and children and the children's rows for \<^verbatim>\<open>Fork\<close>, and
  nothing at all for \<^verbatim>\<open>GetSession\<close>, \<^verbatim>\<open>ListSessions\<close> and \<^verbatim>\<open>Replay\<close>.  So what holds of every run of the store
  holds of every run of the service.
\<close>

theorem rpcs_are_store_calls:
  "\<exists>calls. list_all (rpc_call sv (w_tick (h_world h)) rpc) calls \<and> svc_db (snd (serve sv rpc h)) = db_run (sv_env sv) calls (svc_db h)"
  using serve_rel [of sv rpc h "fst (serve sv rpc h)" "snd (serve sv rpc h)"] by (auto simp: store_calls_def)

text \<open>
  (C9) Sessions do not touch each other.  An RPC keeps the store's invariant and leaves everything the database
  holds about a session it neither names nor creates (row, journal, approval projection) as it was, as well as
  the harness registry; also when it fails half way.
\<close>

theorem rpcs_isolate_sessions:
  assumes "db_ok (svc_db h)" and "k \<notin> rpc_sessions sv (w_tick (h_world h)) rpc"
  defines "db' \<equiv> svc_db (snd (serve sv rpc h))"
  shows "db_ok db' \<and> same_session_data k (svc_db h) db' \<and> db_harnesses db' = db_harnesses (svc_db h)
    \<and> db_reserved db' = db_reserved (svc_db h)"
  unfolding db'_def
  by (rule other_sessions [OF assms(1) rpc_call_session _ assms(2), where env = "sv_env sv"])
    (use serve_rel [of sv rpc h "fst (serve sv rpc h)" "snd (serve sv rpc h)"] in auto)

text \<open>
  (C6) A deletion that a client saw is final for every client.  Once \<^verbatim>\<open>DeleteSession\<close> has answered, no sequence of RPCs
  changes anything the database holds about the session, and every later \<^verbatim>\<open>Exec\<close>, \<^verbatim>\<open>Fork\<close>, \<^verbatim>\<open>Suspend\<close>,
  \<^verbatim>\<open>Resume\<close> or \<^verbatim>\<open>Approve\<close> of it fails: with \<^verbatim>\<open>FAILED_PRECONDITION\<close> and the cause \<^verbatim>\<open>ErrDeleted\<close> for a caller
  inside the process, or with \<^verbatim>\<open>ABORTED\<close> while another deletion of it is being retried.  The refused call writes
  nothing, reaches no runtime and opens no connection.
\<close>

theorem deletion_is_final_for_callers:
  fixes rpcs :: "rpc list"
  assumes "db_ok (svc_db h)" and "Service_DeleteSession sv uid h = (Inr s, h1)" and "writes_to uid rpc"
  defines "h2 \<equiv> serve_all sv rpcs h1"
  shows "same_session_data uid (svc_db h1) (svc_db h2) \<and> refused_deleted uid h2 (serve sv rpc h2)"
proof -
  obtain row where row: "session_row_of uid (svc_db h1) = Some row" "sn_deletionState row = DeletionPending" "uid \<noteq> []"
    and ok: "db_ok (svc_db h1)" using Service_DeleteSession_gone [OF assms(1,2)] by blast
  have gone: "sql_checkWritable uid (svc_db h1) \<noteq> None" using row by (simp add: sql_checkWritable_def)
  obtain cs where "svc_db h2 = db_run (sv_env sv) cs (svc_db h1)"
    using serve_all_calls [of sv h1 rpcs] by (auto simp: store_calls_def h2_def)
  then have same: "same_session_data uid (svc_db h1) (svc_db h2)" using deleted_run [OF ok gone] by simp
  then have "SessionInfo uid (svc_db h2) = Inr (scanSession (svc_db h2) row)"
    using row(1) by (simp add: SessionInfo_def same_session_data_def)
  then show ?thesis using same deleted_refuses [OF _ _ row(3) assms(3)] row(2) by (simp add: scanSession_def)
qed

text \<open>
  (C8) Every error that leaves the service is a gRPC status.  Whatever goes wrong inside, an RPC that fails
  returns an error in which \<^verbatim>\<open>status.FromError\<close> finds a code that the service chose; the one exception is the
  error that the client's own stream returned from a send.
\<close>

theorem rpc_errors_are_statuses:
  "case fst (serve sv rpc h) of None \<Rightarrow> True | Some e \<Rightarrow> is_status e \<or> Some e \<in> range (rpc_sends rpc)"
  using serve_rel [of sv rpc h "fst (serve sv rpc h)" "snd (serve sv rpc h)"]
  by (auto simp: stream_error_def split: option.split) (metis rangeI)

section \<open>A host that serves\<close>

definition service_controller :: "service_state controller" where
  "service_controller = \<lparr>c_ops = fst_ops (Store_Session sample_sql ''s''), c_model = (\<lambda>_ _. Inl (ErrNew ''no model'')), c_stream = None,
     c_onRecord = False, c_onDelta = False, c_startConfig = [], c_startResumeFromSeq = 0, c_tool = None, c_fence = 0,
     c_sessionUID = [], c_harnessName = [], c_hashModelInput = (\<lambda>_. []), c_newID = format_nat, c_ctxErr = (\<lambda>_. None),
     c_canon = plain_canon, c_legacyPayload = (\<lambda>_ _ _. Inr [])\<rparr>"

definition service_placer :: "service_state placer" where
  "service_placer = \<lparr>pl_describe = (\<lambda>t. Inl (ErrNew ''down'')),
     pl_capabilities = \<lparr>rc_memorySnapshot = False, rc_coWFork = False, rc_attest = False, rc_gpuState = False\<rparr>,
     pl_create = (\<lambda>t uid. (zero_incarnation, None)), pl_snapshot = (\<lambda>t uid. Inl (ErrNew ''no snapshots'')),
     pl_restore = (\<lambda>t ref. Inr zero_incarnation), pl_fork = (\<lambda>t ref uid. None), pl_describesLive = False,
     pl_dial = (\<lambda>t inc. Inl (ErrNew ''refused'')), pl_close = (\<lambda>t. None), pl_controller = service_controller, pl_descriptorID = [],
     pl_ctxErr = (\<lambda>t. None), pl_dctxErr = (\<lambda>t. False), pl_cause = (\<lambda>t. None),
     pl_claimed = (\<lambda>t. False), pl_waits = (\<lambda>t. None)\<rparr>"

definition sample_registry :: registry where
  "sample_registry = \<lparr>rg_byName = [(''h'', 0), (''fixed'', 1), (''other'', 2)], rg_unavailable = [], rg_static = [''fixed'', ''other''],
     rg_reserved = [''fixed'', ''other''], rg_default = ''fixed'', rg_guard = 0, rg_sessions = 0\<rparr>"

definition sample_service :: service where
  "sample_service = \<lparr>sv_env = sample_sql, sv_registry = (\<lambda>_. sample_registry), sv_placer = (\<lambda>_. service_placer),
     sv_defaultProject = DefaultProject, sv_random = (\<lambda>t. [char_of t]), sv_now = int, sv_ctxErr = (\<lambda>_. None),
     sv_deadlineErr = (\<lambda>_ _. None), sv_dbCtxErr = (\<lambda>_. None), sv_jsonError = ErrNew,
     sv_marshalOrigin = (\<lambda>o1. if po_subject o1 = [] \<and> po_uri o1 = [] \<and> po_attributes o1 = [] then Inr (CHR ''{'' # po_source o1)
       else Inl (ErrNew ''unsupported'')),
     sv_unmarshalOrigin = (\<lambda>j. Inr \<lparr>po_source = tl j, po_subject = [], po_uri = [], po_attributes = []\<rparr>),
     sv_marshalIdentity = (\<lambda>i. if pi_issuer i = [] \<and> pi_subject i = [] then Inr (CHR ''{'' # pi_principal i) else Inl (ErrNew ''unsupported'')),
     sv_unmarshalIdentity = (\<lambda>j. Inr \<lparr>pi_principal = tl j, pi_issuer = [], pi_subject = []\<rparr>)\<rparr>"

definition service_host :: "service_state host" where
  "service_host = \<lparr>h_world = \<lparr>w_log = (sample_db, None), w_liveModelCalls = 0, w_liveToolCalls = 0, w_tick = 0, w_observed = [],
     w_external = []\<rparr>, h_guard = [], h_set = empty_set True, h_runtime = []\<rparr>"

lemma service_host_db [simp]: "svc_db service_host = sample_db"
  by (simp add: service_host_def svc_db_def h_log_def)

definition sample_spec :: pb_session where
  "sample_spec = \<lparr>ps_project = [], ps_name = ''triage'', ps_uid = [], ps_createTime = None, ps_updateTime = None,
     ps_harness = ''h'', ps_model = ''m'', ps_execState = EXEC_STATE_UNSPECIFIED, ps_computeState = COMPUTE_STATE_UNSPECIFIED,
     ps_lastSeq = 0, ps_parentUid = [], ps_forkSeq = 0, ps_deletionState = DELETION_STATE_UNSPECIFIED,
     ps_deletionRequestedTime = None, ps_pendingApproval = None, ps_labels = [(''team'', ''a<b''), (''note'', [CHR 0x22, CHR 0x0A, CHR 0xC3, CHR 0xA9])],
     ps_annotations = [], ps_origin = Some \<lparr>po_source = ''github'', po_subject = [], po_uri = [], po_attributes = []\<rparr>,
     ps_identity = None\<rparr>"

theorem rpcs_isolate_sessions_witness:
  "same_session_data ''s'' sample_db (svc_db (snd (serve sample_service (RpcCreateSession sample_spec) service_host)))
   \<and> ''s'' \<notin> rpc_sessions sample_service 0 (RpcCreateSession sample_spec)"
proof -
  have "w_tick (h_world service_host) = 0" "''s'' \<notin> rpc_sessions sample_service 0 (RpcCreateSession sample_spec)"
    by (simp_all add: service_host_def drawn_uid_def)
  with rpcs_isolate_sessions [of service_host "''s''" sample_service "RpcCreateSession sample_spec"] sample_db_ok show ?thesis by simp
qed

theorem deletion_is_final_for_callers_witness:
  "\<exists>s h1. Service_DeleteSession sample_service ''s'' service_host = (Inr s, h1)
     \<and> refused_deleted ''s'' (serve_all sample_service [RpcResume ''s'' None] h1)
         (serve sample_service (RpcSuspend ''s'') (serve_all sample_service [RpcResume ''s'' None] h1))"
proof -
  have "\<not> isl (fst (Service_DeleteSession sample_service ''s'' service_host))" by code_simp
  then obtain s h1 where d: "Service_DeleteSession sample_service ''s'' service_host = (Inr s, h1)"
    by (cases "Service_DeleteSession sample_service ''s'' service_host"; cases "fst (Service_DeleteSession sample_service ''s'' service_host)") auto
  from deletion_is_final_for_callers [OF _ d, of "RpcSuspend ''s''" "[RpcResume ''s'' None]"] d sample_db_ok
  show ?thesis by (intro exI [of _ s] exI [of _ h1]) simp
qed

end
