(* ===== verification/Service_Data.thy ===== *)
theory Service_Data
  imports Service_Props
begin

text \<open>
  What the service tells of a session and where it sends it: the metadata a session was created with comes
  back, and routing keeps registered harnesses and their sessions together.
\<close>

section \<open>Metadata round trip\<close>

text \<open>What is asked of \<^verbatim>\<open>protojson\<close>: a marshalled message is not empty and unmarshals to itself.\<close>

definition protojson_ok :: "service \<Rightarrow> bool" where
  "protojson_ok sv \<longleftrightarrow> (\<forall>m j. sv_marshalOrigin sv m = Inr j \<longrightarrow> j \<noteq> [] \<and> sv_unmarshalOrigin sv j = Inr m)
     \<and> (\<forall>m j. sv_marshalIdentity sv m = Inr j \<longrightarrow> j \<noteq> [] \<and> sv_unmarshalIdentity sv j = Inr m)"

text \<open>A message that has nothing on the wire is stored as nothing.\<close>

definition kept :: "('m \<Rightarrow> bool) \<Rightarrow> 'm option \<Rightarrow> 'm option" where
  "kept size0 m = (case m of None \<Rightarrow> None | Some x \<Rightarrow> if size0 x then None else Some x)"

lemma message_round_trip:
  assumes "encodeMessage marshal typ size0 m = Inr stored" "\<And>m j. marshal m = Inr j \<Longrightarrow> j \<noteq> [] \<and> unmarshal j = Inr m"
  shows "decodeMessage unmarshal typ stored = Inr (kept size0 m)"
  using assms by (auto simp: encodeMessage_def decodeMessage_def kept_def split: option.splits if_splits sum.splits)

lemma metadata_round_trip:
  assumes "metadataFromSpec sv spec = Inr (labels, annotations, orig, identity)" "map_ok (ps_labels spec)" "map_ok (ps_annotations spec)"
    "protojson_ok sv" "sm_labels info = labels" "sm_annotations info = annotations" "sm_origin info = orig" "sm_identity info = identity"
  shows "applyMetadata sv info out = Inr (out\<lparr>ps_labels := sort_key fst (ps_labels spec), ps_annotations := sort_key fst (ps_annotations spec),
     ps_origin := kept origin_size0 (ps_origin spec), ps_identity := kept identity_size0 (ps_identity spec)\<rparr>)"
proof -
  obtain l a where e: "encodeMap (ps_labels spec) = Inr l" "decodeMap (sv_jsonError sv) l = Inr (sort_key fst (ps_labels spec))"
    "encodeMap (ps_annotations spec) = Inr a" "decodeMap (sv_jsonError sv) a = Inr (sort_key fst (ps_annotations spec))"
    using stored_map_round_trip [OF assms(2)] stored_map_round_trip [OF assms(3)] by metis
  have o: "encodeMessage (sv_marshalOrigin sv) ''*agentsessionsv1.Origin'' origin_size0 (ps_origin spec) = Inr orig"
    "encodeMessage (sv_marshalIdentity sv) ''*agentsessionsv1.IdentityRef'' identity_size0 (ps_identity spec) = Inr identity"
    "labels = l" "annotations = a"
    using assms(1) e by (auto simp: metadataFromSpec_def split: sum.splits)
  have "decodeMessage (sv_unmarshalOrigin sv) ''*agentsessionsv1.Origin'' orig = Inr (kept origin_size0 (ps_origin spec))"
    "decodeMessage (sv_unmarshalIdentity sv) ''*agentsessionsv1.IdentityRef'' identity = Inr (kept identity_size0 (ps_identity spec))"
    using message_round_trip [OF o(1)] message_round_trip [OF o(2)] assms(4) by (auto simp: protojson_ok_def)
  then show ?thesis using assms(5-8) e o by (simp add: applyMetadata_def)
qed

text \<open>The row a new session gets.\<close>

lemma new_session_info:
  assumes "PutSessionOnActiveHarness env m registered db = (Inr (), db')" "session_row_of (sm_uid m) db = None"
    "events_of (sm_uid m) db = []" "sm_createdAt m = None"
  obtains info where "SessionInfo (sm_uid m) db' = Inr info" "sm_uid info = sm_uid m" "sm_project info = project_of env (sm_project m)"
    "sm_name info = sm_name m" "sm_harness info = sm_harness m" "sm_model info = sm_model m" "sm_parentUID info = sm_parentUID m"
    "sm_labels info = sm_labels m" "sm_annotations info = sm_annotations m" "sm_origin info = sm_origin m" "sm_identity info = sm_identity m"
    "si_lastSeq info = 0" "si_deletionState info = DeletionActive" "si_deletionSeq info = 0" "si_pendingApproval info = empty_ref"
    "si_computeState info = ComputeNone"
proof -
  from assms(1) obtain db2 t where p: "putSession env m (db\<lparr>db_clock := Suc (db_clock db)\<rparr>) = (None, db2)" "db' = db2\<lparr>db_clock := t\<rparr>"
    by (cases rule: PutSessionOnActiveHarness_cases) auto
  from p(1) obtain now where row: "session_row_of (sm_uid m) db2 = Some (meta_row (m\<lparr>sm_project := project_of env (sm_project m)\<rparr>) now now
      ((default_row (sm_uid m))\<lparr>sn_computeState := ComputeNone\<rparr>))" and so: "sessions_only (sm_uid m) db db2"
    using assms(2,4) by (cases rule: putSession_cases) (auto simp: Let_def sessions_only_def)
  have "events_of (sm_uid m) db2 = []" using so assms(3) by (simp add: sessions_only_def events_of_def)
  then have h: "sql_head (sm_uid m) db2 = 0" by (simp add: sql_head_def max_seq_def)
  show thesis
    by (rule that [of "scanSession db' (meta_row (m\<lparr>sm_project := project_of env (sm_project m)\<rparr>) now now
          ((default_row (sm_uid m))\<lparr>sn_computeState := ComputeNone\<rparr>))"])
      (use row p(2) h in \<open>simp_all add: SessionInfo_def scanSession_def meta_row_def default_row_def pending_ref_def reportable_def
         empty_ref_def Let_def sql_head_def split: option.split\<close>)
qed

text \<open>A creation that succeeds, with the metadata it stored.\<close>

definition settled_meta :: "service \<Rightarrow> session_meta \<Rightarrow> session_meta \<Rightarrow> bool" where
  "settled_meta sv m0 m \<longleftrightarrow> (\<exists>harness. m = m0\<lparr>sm_project := (if sm_project m0 = [] then sv_defaultProject sv else sm_project m0),
       sm_harness := harness\<rparr> \<and> (if sm_harness m0 = [] then \<exists>t. harness = rg_default (sv_registry sv t) else harness = sm_harness m0))"

lemma createSession_stored:
  assumes c: "createSession sv uid m0 h = (Inr s, h1)"
  obtains m db reg where "settled_meta sv m0 m" "PutSessionOnActiveHarness (sv_env sv) m reg (svc_db h) = (Inr (), db)" "svc_db h1 = db"
    "session_view sv uid h1 = Inr s"
proof -
  let ?m = "if sm_project m0 = [] then m0\<lparr>sm_project := sv_defaultProject sv\<rparr> else m0"
  obtain r h2 where r: "registry_now sv h = (r, h2)" by fastforce
  obtain r' h3 where r': "registry_now sv h2 = (r', h3)" by fastforce
  have db: "svc_db h2 = svc_db h" "svc_db h3 = svc_db h" using registry_now_quiet [OF r] registry_now_quiet [OF r'] by (auto simp: svc_db_def)
  have d: "\<exists>t. r = sv_registry sv t" using r by (auto simp: registry_now_def split: prod.splits)
  let ?h = "if sm_harness m0 = [] then rg_default r else sm_harness m0"
  obtain db' where p: "PutSessionOnActiveHarness (sv_env sv) (?m\<lparr>sm_harness := ?h\<rparr>) (\<not> Static r' ?h) (svc_db h3) = (Inr (), db')"
      "h1 = set_db db' h3" "(case SessionInfo uid db' of Inl e \<Rightarrow> (Inl (statusf CodeInternal ''create session: '' e []), set_db db' h3)
         | Inr info \<Rightarrow> (sessionProto sv info, set_db db' h3)) = (Inr s, h1)"
    using c r r' by (auto simp: createSession_def Let_def split: if_splits prod.splits sum.splits)
  have "session_view sv uid h1 = Inr s" using p(2,3) by (auto simp: session_view_def split: sum.splits)
  moreover have "settled_meta sv m0 (?m\<lparr>sm_harness := ?h\<rparr>)"
    unfolding settled_meta_def using d by (intro exI [of _ ?h]) auto
  ultimately show thesis using that p(1,2) db by simp
qed

text \<open>
  (C37) A created session reads back.  For every request whose label and annotation maps are proper maps of UTF-8
  strings, the session that \<^verbatim>\<open>CreateSession\<close> returns is the session that \<^verbatim>\<open>GetSession\<close> returns for its UID: with
  the name, the model, the labels and the annotations of the request, its origin and identity unless they
  carry nothing, the requested harness or the registry's default, the requested project or the service's;
  pending, active, with an empty journal and no parent.
\<close>

theorem created_session_reads_back:
  fixes sv h
  defines "uid \<equiv> drawn_uid sv (w_tick (h_world h))"
  assumes create: "Service_CreateSession sv spec h = (Inr s, h1)"
    and fresh: "session_row_of uid (svc_db h) = None" "events_of uid (svc_db h) = []"
    and maps: "map_ok (ps_labels spec)" "map_ok (ps_annotations spec)" and pj: "protojson_ok sv" and "sv_defaultProject sv \<noteq> []"
  shows "Service_GetSession sv uid h1 = Inr s \<and> ps_uid s = uid \<and> ps_name s = ps_name spec \<and> ps_model s = ps_model spec
    \<and> ps_project s = (if ps_project spec = [] then sv_defaultProject sv else ps_project spec)
    \<and> (if ps_harness spec = [] then \<exists>t. ps_harness s = rg_default (sv_registry sv t) else ps_harness s = ps_harness spec)
    \<and> ps_labels s = sort_key fst (ps_labels spec) \<and> ps_annotations s = sort_key fst (ps_annotations spec)
    \<and> ps_origin s = kept origin_size0 (ps_origin spec) \<and> ps_identity s = kept identity_size0 (ps_identity spec)
    \<and> ps_execState s = EXEC_PENDING \<and> ps_deletionState s = DELETION_ACTIVE \<and> ps_lastSeq s = 0 \<and> ps_parentUid s = []
    \<and> ps_pendingApproval s = None"
proof -
  obtain h0 where n: "newUID sv h = (uid, h0)" "svc_db h0 = svc_db h"
    using newUID_quiet [of sv h "fst (newUID sv h)" "snd (newUID sv h)"] by (metis svc_db_same uid_def prod.collapse)
  obtain labels annotations orig identity where md: "metadataFromSpec sv spec = Inr (labels, annotations, orig, identity)"
    using create n by (cases "metadataFromSpec sv spec") (auto simp: Service_CreateSession_def)
  let ?m = "spec_meta uid spec (labels, annotations, orig, identity)"
  have "createSession sv uid ?m h0 = (Inr s, h1)" using create n md by (simp add: Service_CreateSession_def)
  then obtain m db reg where m: "settled_meta sv ?m m" "PutSessionOnActiveHarness (sv_env sv) m reg (svc_db h0) = (Inr (), db)"
    "svc_db h1 = db" "session_view sv uid h1 = Inr s" by (rule createSession_stored)
  have mf: "sm_uid m = uid" "sm_createdAt m = None" "sm_name m = ps_name spec" "sm_model m = ps_model spec" "sm_parentUID m = []"
    "sm_labels m = labels" "sm_annotations m = annotations" "sm_origin m = orig" "sm_identity m = identity"
    "sm_project m = (if ps_project spec = [] then sv_defaultProject sv else ps_project spec)"
    "if ps_harness spec = [] then \<exists>t. sm_harness m = rg_default (sv_registry sv t) else sm_harness m = ps_harness spec"
    using m(1) by (auto simp: settled_meta_def spec_meta_def)
  obtain info where i: "SessionInfo uid db = Inr info" "sm_uid info = uid" "sm_project info = project_of (sv_env sv) (sm_project m)"
    "sm_name info = sm_name m" "sm_harness info = sm_harness m" "sm_model info = sm_model m" "sm_parentUID info = []"
    "sm_labels info = labels" "sm_annotations info = annotations" "sm_origin info = orig" "sm_identity info = identity"
    "si_lastSeq info = 0" "si_deletionState info = DeletionActive" "si_deletionSeq info = 0" "si_pendingApproval info = empty_ref"
    using new_session_info [OF m(2)] mf fresh n(2) by metis
  have prj: "project_of (sv_env sv) (sm_project m) = sm_project m"
    using mf(10) \<open>sv_defaultProject sv \<noteq> []\<close> by (simp add: project_of_def fill_def)
  have s: "sessionProto sv info = Inr s" using m(3,4) i(1) by (simp add: session_view_def)
  have "uid \<noteq> []" by (simp add: uid_def drawn_uid_def)
  then have "Service_GetSession sv uid h1 = Inr s" using m(4) by (simp add: Service_GetSession_def)
  then show ?thesis using s i prj mf metadata_round_trip [OF md maps pj i(8-11)]
    by (auto simp: sessionProto_def Let_def execStateOf_def empty_ref_def)
qed

section \<open>Routing\<close>

text \<open>A name is settled as not registered: it is static, or at some moment the registry lacked it and the journal has no row.\<close>

definition no_row :: "string \<Rightarrow> sqlite_db \<Rightarrow> bool" where
  "no_row name db \<longleftrightarrow> (case Harness name db of Inr _ \<Rightarrow> False | Inl e \<Rightarrow> errors_is e ErrHarnessNotFound)"

definition unregistered :: "service \<Rightarrow> string set \<Rightarrow> sqlite_db \<Rightarrow> string \<Rightarrow> bool" where
  "unregistered sv S db name \<longleftrightarrow> name \<in> S \<or> no_row name db \<and> (\<exists>t. \<not> Has (sv_registry sv t) name)"

text \<open>Static names and the default are settled when a registry is built.\<close>

definition fixed_names :: "service \<Rightarrow> string set \<Rightarrow> string \<Rightarrow> bool" where
  "fixed_names sv S d \<longleftrightarrow> (\<forall>t. set (rg_static (sv_registry sv t)) = S \<and> rg_default (sv_registry sv t) = d)"

lemma registry_now_some: "registry_now sv h = (r, h') \<Longrightarrow> \<exists>t. r = sv_registry sv t"
  by (auto simp: registry_now_def split: prod.splits)

lemma registry_now_fixed:
  assumes "registry_now sv h = (r, h')" "fixed_names sv S d"
  shows "svc_db h' = svc_db h \<and> rg_default r = d \<and> (Static r name \<longleftrightarrow> name \<in> S) \<and> (\<exists>t. r = sv_registry sv t)"
  using assms registry_now_some [OF assms(1)] registry_now_quiet [OF assms(1)]
  by (auto simp: fixed_names_def Static_def svc_db_def)

lemma checkStatic_ok:
  assumes "checkStatic sv name h = (None, h')" "fixed_names sv S d"
  shows "svc_db h' = svc_db h \<and> (if name \<in> S then no_row name (svc_db h) else True)"
  using assms by (auto simp: checkStatic_def no_row_def split: prod.splits if_splits sum.splits dest!: registry_now_fixed [where name = name])

lemma isRegistered_no:
  assumes "isRegistered sv name h = (Inr False, h')" "fixed_names sv S d"
  shows "svc_db h' = svc_db h \<and> unregistered sv S (svc_db h) name"
  using assms by (auto simp: isRegistered_def no_row_def unregistered_def split: prod.splits if_splits sum.splits
      dest!: registry_now_fixed [where name = name])

lemma pinned_to_no:
  assumes "pinned_to sv stored name h = (Inr False, h')" "fixed_names sv S d"
  shows "svc_db h' = svc_db h \<and> unregistered sv S (svc_db h) stored \<and> unregistered sv S (svc_db h) name"
  using assms by (auto simp: pinned_to_def split: prod.splits sum.splits bool.splits dest!: isRegistered_no)

lemma resolve_override_ok:
  assumes "resolve_override sv uid stored override h = (None, h')" "fixed_names sv S d"
  shows "svc_db h' = svc_db h \<and> unregistered sv S (svc_db h) stored \<and> override \<in> S \<and> no_row override (svc_db h)"
proof -
  have db: "svc_db h' = svc_db h" using resolve_override_quiet [OF assms(1)] by (simp add: quiet_def svc_db_def)
  show ?thesis using assms db
    by (auto simp: resolve_override_def split: prod.splits sum.splits bool.splits if_splits option.splits
        dest!: pinned_to_no registry_now_fixed [where name = override] checkStatic_ok)
qed

text \<open>
  (C7) Turns run where the session belongs.  When \<^verbatim>\<open>resolvePlacer\<close> gives a turn a Placer, the session exists and is not
  deleted, the Placer is the one its registry has for the name, and the name is the session's own harness
  (the registry's default for a row without one) unless the request overrides it; an override that differs
  is granted only onto a static harness, and only to a session whose own harness is not a registered one: a
  registered harness is never borrowed for a turn and keeps the turns of its sessions.  A static name that
  another host's registration has put into the journal is refused either way.  All of it holds however
  registrations arrive between the checks, because static names are settled when a registry is built.
\<close>

theorem turns_run_where_the_session_belongs:
  assumes "fixed_names sv S d" and "resolvePlacer sv uid override h = (Inr (k, name), h')"
  shows "\<exists>info stored. SessionInfo uid (svc_db h) = Inr info \<and> si_deletionState info = DeletionActive
    \<and> stored = (if sm_harness info = [] then d else sm_harness info) \<and> (\<exists>t. For (sv_registry sv t) name = Inr k)
    \<and> (if override = [] \<or> override = stored then name = stored
       else name = override \<and> override \<in> S \<and> unregistered sv S (svc_db h) stored)
    \<and> (if name \<in> S then no_row name (svc_db h) else True)"
proof -
  obtain info where i: "SessionInfo uid (svc_db h) = Inr info" using assms(2)
    by (cases "SessionInfo uid (svc_db h)") (auto simp: resolvePlacer_def split: if_splits prod.splits sum.splits)
  then have a: "si_deletionState info = DeletionActive" using assms(2)
    by (auto simp: resolvePlacer_def deletedSessionError_def split: if_splits)
  obtain r h1 where r: "registry_now sv h = (r, h1)" by fastforce
  define stored where "stored = stored_harness r info"
  have st: "stored = (if sm_harness info = [] then d else sm_harness info)"
    using registry_now_fixed [OF r assms(1)] by (simp add: stored_harness_def stored_def)
  obtain e h2 where c: "checkStatic sv stored h1 = (e, h2)" by fastforce
  obtain e' h3 where o: "(if override \<noteq> [] \<and> override \<noteq> stored then resolve_override sv uid stored override h2 else (None, h2)) = (e', h3)"
    by fastforce
  obtain r' h4 where r': "registry_now sv h3 = (r', h4)" by fastforce
  let ?name = "if override \<noteq> [] then override else stored"
  have n: "e = None" "e' = None" "For r' ?name = Inr k" "name = ?name"
    using assms(2) i a r c o r'
    by (auto simp: resolvePlacer_def deletedSessionError_def Let_def stored_def [symmetric] split: option.splits sum.splits if_splits)
  have db: "svc_db h1 = svc_db h" "svc_db h2 = svc_db h"
    using registry_now_fixed [OF r assms(1)] checkStatic_ok [OF c [unfolded n(1)] assms(1)] by auto
  have cs: "if stored \<in> S then no_row stored (svc_db h) else True"
    using checkStatic_ok [OF c [unfolded n(1)] assms(1)] db(1) by auto
  obtain t where t: "r' = sv_registry sv t" using registry_now_some [OF r'] by blast
  show ?thesis
  proof (cases "override = [] \<or> override = stored")
    case True
    then have "name = stored" using n(4) by auto
    then show ?thesis using i a n(3,4) t cs True st by (intro exI [of _ info] exI [of _ stored]) auto
  next
    case False
    then have "resolve_override sv uid stored override h2 = (None, h3)" using o n(2) by simp
    from resolve_override_ok [OF this assms(1)] db False n(3,4) i a t st
    show ?thesis by (intro exI [of _ info] exI [of _ stored]) auto
  qed
qed

section \<open>Witnesses\<close>

lemma sample_service_parts: "protojson_ok sample_service" "fixed_names sample_service {''fixed'', ''other''} ''fixed''"
  by (auto simp: protojson_ok_def fixed_names_def sample_service_def sample_registry_def split: if_splits
      intro!: pb_origin.equality pb_identity.equality)

theorem created_session_reads_back_witness:
  "\<exists>s h1. Service_CreateSession sample_service sample_spec service_host = (Inr s, h1)
     \<and> Service_GetSession sample_service (ps_uid s) h1 = Inr s \<and> ps_labels s = sort_key fst (ps_labels sample_spec)
     \<and> ps_origin s = ps_origin sample_spec"
proof -
  have "\<not> isl (fst (Service_CreateSession sample_service sample_spec service_host))" by code_simp
  then obtain s h1 where c: "Service_CreateSession sample_service sample_spec service_host = (Inr s, h1)"
    by (cases "Service_CreateSession sample_service sample_spec service_host"; cases "fst (Service_CreateSession sample_service sample_spec service_host)") auto
  have f: "session_row_of (drawn_uid sample_service (w_tick (h_world service_host))) (svc_db service_host) = None"
    "events_of (drawn_uid sample_service (w_tick (h_world service_host))) (svc_db service_host) = []" by code_simp+
  have m: "map_ok (ps_labels sample_spec)" "map_ok (ps_annotations sample_spec)" "sv_defaultProject sample_service \<noteq> []"
    by (simp_all add: map_ok_def sample_spec_def cont_byte_def sample_service_def DefaultProject_def)
  from created_session_reads_back [OF c f m(1,2) sample_service_parts(1) m(3)] c
  show ?thesis by (intro exI [of _ s] exI [of _ h1]) (simp add: kept_def sample_spec_def origin_size0_def)
qed

text \<open>A session on a static harness takes a turn on the other one.\<close>

definition static_host :: "service_state host" where
  "static_host = set_db (db_run sample_sql [DbPutSessionOnActiveHarness (sample_meta\<lparr>sm_uid := ''f'', sm_harness := ''fixed''\<rparr>) False] sample_db)
     service_host"

theorem turns_run_where_the_session_belongs_witness:
  "\<exists>k h'. resolvePlacer sample_service ''f'' ''other'' static_host = (Inr (k, ''other''), h')
     \<and> no_row ''other'' (svc_db static_host) \<and> (\<exists>info. SessionInfo ''f'' (svc_db static_host) = Inr info)"
proof -
  have "map_sum (\<lambda>_. ()) snd (fst (resolvePlacer sample_service ''f'' ''other'' static_host)) = Inr ''other''" by code_simp
  then obtain k h' where r: "resolvePlacer sample_service ''f'' ''other'' static_host = (Inr (k, ''other''), h')"
    by (cases "resolvePlacer sample_service ''f'' ''other'' static_host"; cases "fst (resolvePlacer sample_service ''f'' ''other'' static_host)") auto
  from turns_run_where_the_session_belongs [OF sample_service_parts(2) r] r show ?thesis by auto
qed

end
