(* ===== verification/Harness_Wire.thy ===== *)
theory Harness_Wire
  imports Wire
begin

text \<open>
  Package \<^verbatim>\<open>harnesswire\<close>: the bridge between the in-process \<^verbatim>\<open>api.Harness\<close> and the gRPC stream
  \<^verbatim>\<open>Harness.Connect\<close>, in both directions.  \<open>Server_Connect\<close> serves a harness: a tree (\<open>conn\<close>) of what the
  handler asks of the stream, its context and the random source, with a branch for every answer.
  \<open>ClientHarness\<close> makes a remote peer look like a harness: a peer (\<open>peer\<close>) is a tree of what \<^verbatim>\<open>Recv\<close> yields
  and whether \<^verbatim>\<open>Send\<close> fails, for every sequence of frames sent to it, and the client turns it into a tree
  of sink calls.  \<open>over_stream\<close> connects the two by a stream that loses nothing.
\<close>

section \<open>Descriptors\<close>

record pb_capabilities =
  pc_resumability :: int
  pc_forkSafe :: bool
  pc_requiresGpu :: bool
  pc_streaming :: bool
  pc_reasoningReplay :: bool

record pb_descriptor =
  pd_id :: string
  pd_version :: string
  pd_models :: "string list"
  pd_tools :: "pb_tool_spec list"
  pd_capabilities :: pb_capabilities

text \<open>\<^verbatim>\<open>RESUMABILITY_REQUIRES_MEMORY_SNAPSHOT\<close> is 2 and \<^verbatim>\<open>RESUMABILITY_STATELESS_REPLAY\<close> is 1.\<close>

definition capabilitiesToProto :: "capabilities \<Rightarrow> pb_capabilities" where
  "capabilitiesToProto c = \<lparr>pc_resumability = (if cap_resumability c = ResumabilityRequiresMemorySnapshot then 2 else 1),
     pc_forkSafe = cap_forkSafe c, pc_requiresGpu = cap_requiresGPU c, pc_streaming = cap_streaming c,
     pc_reasoningReplay = cap_reasoningReplay c\<rparr>"

definition capabilitiesFromProto :: "pb_capabilities \<Rightarrow> capabilities" where
  "capabilitiesFromProto p = \<lparr>cap_resumability =
       (if pc_resumability p = 2 then ResumabilityRequiresMemorySnapshot else ResumabilityStatelessReplay),
     cap_forkSafe = pc_forkSafe p, cap_requiresGPU = pc_requiresGpu p, cap_streaming = pc_streaming p,
     cap_reasoningReplay = pc_reasoningReplay p\<rparr>"

definition DescriptorToProto :: "descriptor \<Rightarrow> pb_descriptor" where
  "DescriptorToProto d = \<lparr>pd_id = desc_id d, pd_version = desc_version d, pd_models = desc_models d,
     pd_tools = map ToolSpecToProto (desc_tools d), pd_capabilities = capabilitiesToProto (desc_capabilities d)\<rparr>"

definition descriptorFromProto :: "pb_descriptor \<Rightarrow> descriptor" where
  "descriptorFromProto p = \<lparr>desc_id = pd_id p, desc_version = pd_version p, desc_models = pd_models p,
     desc_tools = map (\<lambda>t. ToolSpecFromProto (Some t)) (pd_tools p),
     desc_capabilities = capabilitiesFromProto (pd_capabilities p)\<rparr>"

section \<open>Events and frames on the stream\<close>

text \<open>
  The \<^verbatim>\<open>ModelCall\<close> on the stream carries the request; the recorded one (\<open>Event_Model\<close>) only its hash.
  \<open>Hw_Other\<close> is any body that the client never reads.
\<close>

record pb_model_call =
  pmc_model :: string
  pmc_params :: "(string \<times> string) list"
  pmc_id :: string
  pmc_messages :: "pb_message list"
  pmc_tools :: "pb_tool_definition list"
  pmc_toolChoice :: "pb_tool_choice option"

datatype hw_body =
    Hw_Message pb_message
  | Hw_Model pb_model_call
  | Hw_Tool pb_tool_call
  | Hw_Result pb_tool_result
  | Hw_Usage usage
  | Hw_End harness_end
  | Hw_Parked approval_ref
  | Hw_Other pb_body

record hw_event =
  he_executionId :: string
  he_kind :: pb_event_kind
  he_body :: "hw_body option"

record pb_model_result =
  pmr_message :: "pb_message option"
  pmr_usage :: "usage option"
  pmr_modelCallId :: string

record pb_start =
  psr_config :: bytes
  psr_history :: "pb_event list"
  psr_inputs :: "pb_message list"
  psr_resumeFromSeq :: int64

datatype frame_body =
    Frame_Start pb_start
  | Frame_Cancel string
  | Frame_Approval approval_result
  | Frame_Tool pb_tool_result
  | Frame_Model pb_model_result
  | Frame_Park approval_ref

record ctl_frame =
  fr_session :: string
  fr_executionId :: string
  fr_frame :: "frame_body option"

text \<open>The generated getter of a oneof returns \<^verbatim>\<open>nil\<close> when the oneof holds another field.\<close>

definition GetModelCall :: "hw_event \<Rightarrow> pb_model_call option" where
  "GetModelCall e = (case he_body e of Some (Hw_Model m) \<Rightarrow> Some m | _ \<Rightarrow> None)"

definition GetMessage :: "hw_event \<Rightarrow> pb_message option" where
  "GetMessage e = (case he_body e of Some (Hw_Message m) \<Rightarrow> Some m | _ \<Rightarrow> None)"

definition GetToolCall :: "hw_event \<Rightarrow> pb_tool_call option" where
  "GetToolCall e = (case he_body e of Some (Hw_Tool m) \<Rightarrow> Some m | _ \<Rightarrow> None)"

definition GetResult :: "hw_event \<Rightarrow> pb_tool_result option" where
  "GetResult e = (case he_body e of Some (Hw_Result m) \<Rightarrow> Some m | _ \<Rightarrow> None)"

definition GetUsage :: "hw_event \<Rightarrow> usage option" where
  "GetUsage e = (case he_body e of Some (Hw_Usage m) \<Rightarrow> Some m | _ \<Rightarrow> None)"

definition GetEnd :: "hw_event \<Rightarrow> harness_end option" where
  "GetEnd e = (case he_body e of Some (Hw_End m) \<Rightarrow> Some m | _ \<Rightarrow> None)"

definition GetParked :: "hw_event \<Rightarrow> approval_ref option" where
  "GetParked e = (case he_body e of Some (Hw_Parked m) \<Rightarrow> Some m | _ \<Rightarrow> None)"

lemmas getter_defs = GetModelCall_def GetMessage_def GetToolCall_def GetResult_def GetUsage_def GetEnd_def GetParked_def

definition empty_model_call :: pb_model_call where
  "empty_model_call = \<lparr>pmc_model = [], pmc_params = [], pmc_id = [], pmc_messages = [], pmc_tools = [], pmc_toolChoice = None\<rparr>"

text \<open>\<^verbatim>\<open>EventKind.String()\<close> of the generated code.\<close>

fun pb_kind_text :: "pb_event_kind \<Rightarrow> string" where
  "pb_kind_text EVENT_KIND_UNSPECIFIED = ''EVENT_KIND_UNSPECIFIED''"
| "pb_kind_text EVENT_INPUT = ''EVENT_INPUT''"
| "pb_kind_text EVENT_MODEL_CALL = ''EVENT_MODEL_CALL''"
| "pb_kind_text EVENT_OUTPUT = ''EVENT_OUTPUT''"
| "pb_kind_text EVENT_TOOL_CALL = ''EVENT_TOOL_CALL''"
| "pb_kind_text EVENT_TOOL_RESULT = ''EVENT_TOOL_RESULT''"
| "pb_kind_text EVENT_APPROVAL_REQUEST = ''EVENT_APPROVAL_REQUEST''"
| "pb_kind_text EVENT_APPROVAL_RESULT = ''EVENT_APPROVAL_RESULT''"
| "pb_kind_text EVENT_USAGE = ''EVENT_USAGE''"
| "pb_kind_text EVENT_LIFECYCLE = ''EVENT_LIFECYCLE''"
| "pb_kind_text EVENT_END = ''EVENT_END''"
| "pb_kind_text EVENT_ERROR = ''EVENT_ERROR''"
| "pb_kind_text EVENT_EXECUTION_START = ''EVENT_EXECUTION_START''"
| "pb_kind_text EVENT_PARKED = ''EVENT_PARKED''"
| "pb_kind_text (EVENT_KIND_UNKNOWN n) = format_int n"

section \<open>Conversions\<close>

text \<open>A protobuf list that was decoded holds no \<^verbatim>\<open>nil\<close>.\<close>

definition messagesToProto :: "struct_codec \<Rightarrow> message list \<Rightarrow> pb_message list" where
  "messagesToProto c ms = map (msgToProto c) ms"

definition messagesFromProto :: "struct_codec \<Rightarrow> pb_message list \<Rightarrow> message list" where
  "messagesFromProto c ps = map (msgFromProto c) ps"

definition startToProto :: "struct_codec \<Rightarrow> start \<Rightarrow> pb_start" where
  "startToProto c s = \<lparr>psr_config = st_config s, psr_history = map (EventToProto c) (st_history s),
     psr_inputs = messagesToProto c (st_inputs s), psr_resumeFromSeq = st_resumeFromSeq s\<rparr>"

text \<open>The execution and the session are set by \<^verbatim>\<open>Connect\<close> from the frame's envelope.\<close>

definition startFromProto :: "struct_codec \<Rightarrow> pb_start \<Rightarrow> start" where
  "startFromProto c p = \<lparr>st_executionID = [], st_sessionUID = [], st_config = psr_config p,
     st_history = map (EventFromProto c) (psr_history p), st_inputs = messagesFromProto c (psr_inputs p),
     st_resumeFromSeq = psr_resumeFromSeq p\<rparr>"

definition usageResultToProto :: "usage \<Rightarrow> usage option" where
  "usageResultToProto u = (if u = empty_usage then None else Some u)"

definition endError :: "harness_end option \<Rightarrow> goerr option" where
  "endError e =
     (let state = (case e of None \<Rightarrow> [] | Some h \<Rightarrow> he_state h) in
      if state = ''COMPLETED'' then None
      else case e of
        Some h \<Rightarrow>
          (case he_error h of
             Some err \<Rightarrow> if err_description err \<noteq> []
                then Some (ErrNew (''harnesswire: remote harness ended '' @ state @ '': '' @ err_description err))
                else Some (ErrNew (''harnesswire: remote harness ended '' @ state))
           | None \<Rightarrow> Some (ErrNew (''harnesswire: remote harness ended '' @ state)))
      | None \<Rightarrow> Some (ErrNew (''harnesswire: remote harness ended '' @ state)))"

section \<open>Receipts\<close>

definition wire_validateApprovalReceipt :: "string \<Rightarrow> approval_result option \<Rightarrow> tool_result \<Rightarrow> goerr option" where
  "wire_validateApprovalReceipt callID decision receipt =
     (case decision of
        None \<Rightarrow> Some (ErrNew ''harnesswire: invalid approval correlation'')
      | Some d \<Rightarrow>
          if callID = [] \<or> ar_toolCallID d \<noteq> callID \<or> ar_requestSeq d \<le> 0
          then Some (ErrNew ''harnesswire: invalid approval correlation'')
          else if tr_id receipt \<noteq> callID then Some (ErrNew ''harnesswire: tool result correlation mismatch'')
          else if tr_approvalRequestSeq receipt \<noteq> ar_requestSeq d \<or> tr_approvalDecisionSeq receipt \<le> 0
          then Some (ErrNew ''harnesswire: invalid approval receipt sequences'')
          else if \<not> ar_approved d \<and> tr_code receipt = ToolResultCodeApprovalDenied \<and> tr_isError receipt then None
          else if ar_approved d \<and> (tr_code receipt = ToolResultCodeUnspecified \<and> \<not> tr_isError receipt
                   \<or> tr_code receipt = ToolResultCodeExecutorError \<and> tr_isError receipt) then None
          else Some (ErrNew ''harnesswire: approval receipt status conflicts with decision''))"

definition rejectApprovalReport :: "tool_result \<Rightarrow> goerr option" where
  "rejectApprovalReport r =
     (if tr_approval r \<noteq> None \<or> tr_approvalRequestSeq r \<noteq> 0 \<or> tr_approvalDecisionSeq r \<noteq> 0
         \<or> (tr_code r \<noteq> ToolResultCodeUnspecified \<and> tr_code r \<noteq> ToolResultCodeExecutorError)
      then Some (ErrNew ''harnesswire: harness report or ordinary reply contains host-owned approval receipt'')
      else None)"

section \<open>The server\<close>

text \<open>
  What the handler of \<^verbatim>\<open>Connect\<close> does, as a tree of its interactions: \<^verbatim>\<open>stream.Send\<close>, \<^verbatim>\<open>stream.Recv\<close> (the
  first frame), the \<^verbatim>\<open>select\<close> of \<^verbatim>\<open>awaitResult\<close> over the frames that \<^verbatim>\<open>receiveFrames\<close> passes on, a look at
  the context and at \<^verbatim>\<open>done\<close>, and a read of random bytes.
\<close>

datatype await =
    AwaitFrame ctl_frame      \<comment> \<open>a frame from \<^verbatim>\<open>results\<close>\<close>
  | AwaitClosed               \<comment> \<open>\<^verbatim>\<open>results\<close> is closed: \<^verbatim>\<open>receiveFrames\<close> has returned\<close>
  | AwaitCtx goerr            \<comment> \<open>\<^verbatim>\<open>ctx.Done()\<close>, with \<^verbatim>\<open>ctx.Err()\<close>\<close>
  | AwaitDone                 \<comment> \<open>\<^verbatim>\<open>done\<close>: the run has returned\<close>

datatype conn =
    ConnReturn "goerr option"
  | ConnSend hw_event "goerr option \<Rightarrow> conn"
  | ConnRecv "goerr + ctl_frame \<Rightarrow> conn"
  | ConnAwait "await \<Rightarrow> conn"
  | ConnCheck "goerr option \<times> bool \<Rightarrow> conn"    \<comment> \<open>\<^verbatim>\<open>ctx.Err()\<close>, and whether \<^verbatim>\<open>done\<close> is closed\<close>
  | ConnRandom "bytes \<Rightarrow> conn"

text \<open>
  \<^verbatim>\<open>streamSink\<close>.  Its lock is free whenever the run itself calls, because a run calls one method after the
  other; \<^verbatim>\<open>Lock\<close> then succeeds without looking at the context.
\<close>

record stream_sink =
  ss_executionID :: string
  ss_session :: string
  ss_closed :: bool
  ss_parked :: "approval_ref option"
  ss_failure :: "goerr option"

definition errSinkClosed :: goerr where
  "errSinkClosed = ErrNew ''harnesswire: sink closed''"

definition io_EOF :: goerr where
  "io_EOF = ErrNew ''EOF''"

definition streamSink_check :: "stream_sink \<Rightarrow> (goerr option \<Rightarrow> conn) \<Rightarrow> conn" where
  "streamSink_check s k =
     (case ss_parked s of
        Some ref \<Rightarrow> k (Some (ApprovalParkedError ref))
      | None \<Rightarrow>
          (case ss_failure s of
             Some e \<Rightarrow> k (Some e)
           | None \<Rightarrow> ConnCheck (\<lambda>(ctxErr, closing). k
               (case ctxErr of
                  Some e \<Rightarrow> Some e
                | None \<Rightarrow> if ss_closed s \<or> closing then Some errSinkClosed else None))))"

definition streamSink_fail :: "goerr \<Rightarrow> stream_sink \<Rightarrow> goerr \<times> stream_sink" where
  "streamSink_fail e s =
     (if e = errSinkClosed then (e, s)
      else case ss_failure s of
        None \<Rightarrow> (e, s\<lparr>ss_failure := Some e\<rparr>)
      | Some f \<Rightarrow> (f, s))"

definition streamSink_awaitResult :: "stream_sink \<Rightarrow> (goerr + ctl_frame \<Rightarrow> conn) \<Rightarrow> conn" where
  "streamSink_awaitResult s k =
     streamSink_check s (\<lambda>err. case err of Some e \<Rightarrow> k (Inl e) | None \<Rightarrow>
       ConnAwait (\<lambda>a. case a of
          AwaitFrame frame \<Rightarrow> streamSink_check s (\<lambda>err. case err of Some e \<Rightarrow> k (Inl e) | None \<Rightarrow>
            if fr_executionId frame \<noteq> ss_executionID s
            then k (Inl (ErrNew (''harnesswire: result execution_id mismatch: got '' @ format_q (fr_executionId frame)
                      @ '', want '' @ format_q (ss_executionID s))))
            else k (Inr frame))
        | AwaitClosed \<Rightarrow> streamSink_check s (\<lambda>err. case err of Some e \<Rightarrow> k (Inl e) | None \<Rightarrow>
            ConnCheck (\<lambda>(ctxErr, _). case ctxErr of Some e \<Rightarrow> k (Inl e) | None \<Rightarrow> k (Inl io_EOF)))
        | AwaitCtx e \<Rightarrow> k (Inl e)
        | AwaitDone \<Rightarrow> ConnCheck (\<lambda>(ctxErr, _). case ctxErr of Some e \<Rightarrow> k (Inl e) | None \<Rightarrow> k (Inl errSinkClosed))))"

definition wire_model_call_event :: "struct_codec \<Rightarrow> stream_sink \<Rightarrow> model_request \<Rightarrow> pb_tool_choice option \<Rightarrow> string \<Rightarrow> hw_event" where
  "wire_model_call_event c s req choice i = \<lparr>he_executionId = ss_executionID s, he_kind = EVENT_MODEL_CALL,
     he_body = Some (Hw_Model \<lparr>pmc_model = mr_model req, pmc_params = mr_params req, pmc_id = i,
       pmc_messages = messagesToProto c (mr_messages req), pmc_tools = ToolDefinitionsToProto c (mr_tools req),
       pmc_toolChoice = choice\<rparr>)\<rparr>"

text \<open>The host's answer to a model call.\<close>

definition streamSink_completion :: "struct_codec \<Rightarrow> string \<Rightarrow> ctl_frame \<Rightarrow> goerr + model_response" where
  "streamSink_completion c i frame =
     (case fr_frame frame of
        Some (Frame_Model mr) \<Rightarrow>
          if pmr_modelCallId mr \<noteq> i
          then Inl (ErrNew (''harnesswire: model result correlation mismatch: got '' @ format_q (pmr_modelCallId mr)
                  @ '', want '' @ format_q i))
          else Inr \<lparr>mresp_message = (case pmr_message mr of None \<Rightarrow> empty_message | Some m \<Rightarrow> msgFromProto c m),
                    mresp_usage = (case pmr_usage mr of None \<Rightarrow> empty_usage | Some u \<Rightarrow> u)\<rparr>
      | _ \<Rightarrow> Inl (ErrNew ''harnesswire: expected a ModelResult frame''))"

definition streamSink_Model ::
  "struct_codec \<Rightarrow> model_request \<Rightarrow> stream_sink \<Rightarrow> (goerr + model_response \<Rightarrow> stream_sink \<Rightarrow> conn) \<Rightarrow> conn" where
  "streamSink_Model c req s k =
     streamSink_check s (\<lambda>err. case err of Some e \<Rightarrow> k (Inl e) s | None \<Rightarrow>
     (case ToolChoiceToProto (mr_toolChoice req) of
        Inl e \<Rightarrow> k (Inl (errorf ''harnesswire: model call: '' e [])) s
      | Inr choice \<Rightarrow>
     ConnRandom (\<lambda>b. let i = hex_encode b in
     ConnSend (wire_model_call_event c s req choice i) (\<lambda>err. case err of Some e \<Rightarrow> k (Inl e) s | None \<Rightarrow>
     streamSink_awaitResult s (\<lambda>r. case r of Inl e \<Rightarrow> k (Inl e) s | Inr frame \<Rightarrow> k (streamSink_completion c i frame) s)))))"

definition streamSink_Output ::
  "struct_codec \<Rightarrow> string \<Rightarrow> stream_sink \<Rightarrow> (goerr option \<Rightarrow> stream_sink \<Rightarrow> conn) \<Rightarrow> conn" where
  "streamSink_Output c d s k =
     streamSink_check s (\<lambda>err. case err of Some e \<Rightarrow> k (Some e) s | None \<Rightarrow>
       ConnSend \<lparr>he_executionId = ss_executionID s, he_kind = EVENT_OUTPUT,
                 he_body = Some (Hw_Message (msgToProto c (TextMessage ''assistant'' d)))\<rparr> (\<lambda>err. k err s))"

text \<open>\<open>fail_with\<close> is \<^verbatim>\<open>return api.ToolResult{}, s.fail(err)\<close>.\<close>

definition fail_with :: "(goerr + 'a \<Rightarrow> stream_sink \<Rightarrow> conn) \<Rightarrow> stream_sink \<Rightarrow> goerr \<Rightarrow> conn" where
  "fail_with k s e = (let (e', s') = streamSink_fail e s in k (Inl e') s')"

definition result_mismatch :: "string \<Rightarrow> string \<Rightarrow> goerr" where
  "result_mismatch got want = ErrNew (''harnesswire: tool result correlation mismatch: got '' @ format_q got
     @ '', want '' @ format_q want)"

definition streamSink_receipt ::
  "struct_codec \<Rightarrow> tool_call \<Rightarrow> approval_result option \<Rightarrow> ctl_frame \<Rightarrow> stream_sink \<Rightarrow>
    (goerr + tool_result \<Rightarrow> stream_sink \<Rightarrow> conn) \<Rightarrow> conn" where
  "streamSink_receipt c call approval frame s k =
     (case fr_frame frame of
        Some (Frame_Tool tr) \<Rightarrow>
          (let res = toolResultFromProto c tr in
           if tr_id res \<noteq> tc_id call
           then fail_with k s (result_mismatch (tr_id res) (tc_id call))
           else case approval of
             Some a \<Rightarrow>
               (case wire_validateApprovalReceipt (tc_id call) approval res of
                  Some e \<Rightarrow> fail_with k s e
                | None \<Rightarrow> k (Inr (set_tr_binding (tr_approvalRequestSeq res) (tr_approvalDecisionSeq res) approval res)) s)
           | None \<Rightarrow>
               (case rejectApprovalReport res of
                  Some e \<Rightarrow> fail_with k s e
                | None \<Rightarrow> k (Inr res) s))
      | _ \<Rightarrow> fail_with k s (ErrNew ''harnesswire: expected a ToolResult frame''))"

text \<open>The host's answer to a call: a park, a decision with its receipt, or a receipt.\<close>

definition streamSink_reply ::
  "struct_codec \<Rightarrow> tool_call \<Rightarrow> ctl_frame \<Rightarrow> stream_sink \<Rightarrow> (goerr + tool_result \<Rightarrow> stream_sink \<Rightarrow> conn) \<Rightarrow> conn" where
  "streamSink_reply c call frame s k =
     (if fr_session frame \<noteq> ss_session s then fail_with k s (ErrNew ''harnesswire: tool result session mismatch'')
      else if tc_mediation call = MediationRequiresApproval then
        (case fr_frame frame of
           Some (Frame_Park park) \<Rightarrow>
             if ref_executionID park \<noteq> ss_executionID s \<or> ref_toolCallID park \<noteq> tc_id call \<or> ref_requestSeq park \<le> 0
             then fail_with k s (ErrNew ''harnesswire: park correlation mismatch'')
             else (let ref = \<lparr>ref_executionID = ss_executionID s, ref_toolCallID = tc_id call, ref_requestSeq = ref_requestSeq park\<rparr>
                   in k (Inl (ApprovalParkedError ref)) (s\<lparr>ss_parked := Some ref\<rparr>))
         | Some (Frame_Approval decision) \<Rightarrow>
             if ar_toolCallID decision \<noteq> tc_id call \<or> ar_requestSeq decision \<le> 0
             then fail_with k s (ErrNew ''harnesswire: expected correlated approval before ToolResult'')
             else streamSink_awaitResult s (\<lambda>r. case r of Inl e \<Rightarrow> fail_with k s e | Inr frame' \<Rightarrow>
               if fr_session frame' \<noteq> ss_session s then fail_with k s (ErrNew ''harnesswire: tool result session mismatch'')
               else streamSink_receipt c call (Some decision) frame' s k)
         | _ \<Rightarrow> fail_with k s (ErrNew ''harnesswire: expected correlated approval before ToolResult''))
      else streamSink_receipt c call None frame s k)"

definition streamSink_ToolCall ::
  "struct_codec \<Rightarrow> tool_call \<Rightarrow> stream_sink \<Rightarrow> (goerr + tool_result \<Rightarrow> stream_sink \<Rightarrow> conn) \<Rightarrow> conn" where
  "streamSink_ToolCall c call s k =
     streamSink_check s (\<lambda>err. case err of Some e \<Rightarrow> k (Inl e) s | None \<Rightarrow>
     if tc_mediation call = MediationRequiresApproval \<and> (ss_session s = [] \<or> tc_id call = [])
     then fail_with k s (ErrNew ''harnesswire: approval requires session and call id'')
     else
     ConnSend \<lparr>he_executionId = ss_executionID s, he_kind = EVENT_TOOL_CALL,
               he_body = Some (Hw_Tool (toolCallToProto c call))\<rparr> (\<lambda>err. case err of Some e \<Rightarrow> k (Inl e) s | None \<Rightarrow>
     streamSink_awaitResult s (\<lambda>r. case r of Inl e \<Rightarrow> fail_with k s e | Inr frame \<Rightarrow> streamSink_reply c call frame s k)))"

definition streamSink_Report ::
  "struct_codec \<Rightarrow> tool_result \<Rightarrow> stream_sink \<Rightarrow> (goerr option \<Rightarrow> stream_sink \<Rightarrow> conn) \<Rightarrow> conn" where
  "streamSink_Report c tr s k =
     streamSink_check s (\<lambda>err. case err of Some e \<Rightarrow> k (Some e) s | None \<Rightarrow>
       (case rejectApprovalReport tr of
          Some e \<Rightarrow> (let (e', s') = streamSink_fail e s in k (Some e') s')
        | None \<Rightarrow> ConnSend \<lparr>he_executionId = ss_executionID s, he_kind = EVENT_TOOL_RESULT,
                    he_body = Some (Hw_Result (toolResultToProto c tr))\<rparr> (\<lambda>err. k err s)))"

definition streamSink_Usage :: "usage \<Rightarrow> stream_sink \<Rightarrow> (goerr option \<Rightarrow> stream_sink \<Rightarrow> conn) \<Rightarrow> conn" where
  "streamSink_Usage u s k =
     streamSink_check s (\<lambda>err. case err of Some e \<Rightarrow> k (Some e) s | None \<Rightarrow>
       ConnSend \<lparr>he_executionId = ss_executionID s, he_kind = EVENT_USAGE, he_body = Some (Hw_Usage u)\<rparr> (\<lambda>err. k err s))"

text \<open>The end of \<^verbatim>\<open>Connect\<close>, once the run has returned.\<close>

definition wire_end_event :: "string \<Rightarrow> harness_end \<Rightarrow> hw_event" where
  "wire_end_event executionID e = \<lparr>he_executionId = executionID, he_kind = EVENT_END, he_body = Some (Hw_End e)\<rparr>"

definition Connect_finish :: "stream_sink \<Rightarrow> goerr option \<Rightarrow> conn" where
  "Connect_finish s runErr =
     (case ss_parked s of
        Some ref \<Rightarrow>
          (case runErr of
             Some e \<Rightarrow> if \<not> IsParkUnwind e ref then ConnReturn (Some e)
                else ConnSend \<lparr>he_executionId = ss_executionID s, he_kind = EVENT_PARKED, he_body = Some (Hw_Parked ref)\<rparr> ConnReturn
           | None \<Rightarrow> ConnSend \<lparr>he_executionId = ss_executionID s, he_kind = EVENT_PARKED, he_body = Some (Hw_Parked ref)\<rparr> ConnReturn)
      | None \<Rightarrow>
          (case (case ss_failure s of Some f \<Rightarrow> Some f | None \<Rightarrow> runErr) of
             Some e \<Rightarrow> ConnSend (wire_end_event (ss_executionID s)
                 \<lparr>he_state = ''FAILED'', he_error = Some \<lparr>err_code = 0, err_description = error_text e\<rparr>\<rparr>)
                 (\<lambda>_. ConnReturn (Some e))
           | None \<Rightarrow> ConnSend (wire_end_event (ss_executionID s) \<lparr>he_state = ''COMPLETED'', he_error = None\<rparr>) ConnReturn))"

text \<open>The harness runs against the stream.\<close>

primrec run_on_stream :: "struct_codec \<Rightarrow> run \<Rightarrow> stream_sink \<Rightarrow> conn" where
  "run_on_stream c (Return e) = (\<lambda>s. Connect_finish (s\<lparr>ss_closed := True\<rparr>) e)"
| "run_on_stream c (CallModel req f) = (\<lambda>s. streamSink_Model c req s (\<lambda>r. run_on_stream c (f r)))"
| "run_on_stream c (CallOutput d f) = (\<lambda>s. streamSink_Output c d s (\<lambda>r. run_on_stream c (f r)))"
| "run_on_stream c (CallToolCall tc f) = (\<lambda>s. streamSink_ToolCall c tc s (\<lambda>r. run_on_stream c (f r)))"
| "run_on_stream c (CallReport tr f) = (\<lambda>s. streamSink_Report c tr s (\<lambda>r. run_on_stream c (f r)))"
| "run_on_stream c (CallUsage u f) = (\<lambda>s. streamSink_Usage u s (\<lambda>r. run_on_stream c (f r)))"

definition Server_Connect :: "struct_codec \<Rightarrow> (start \<Rightarrow> run) \<Rightarrow> conn" where
  "Server_Connect c harness_Run =
     ConnRecv (\<lambda>r. case r of Inl e \<Rightarrow> ConnReturn (Some e) | Inr first \<Rightarrow>
       (case fr_frame first of
          Some (Frame_Start start) \<Rightarrow>
            if fr_executionId first = [] then ConnReturn (Some (ErrNew ''harnesswire: Start frame requires execution_id''))
            else run_on_stream c
              (harness_Run ((startFromProto c start)\<lparr>st_executionID := fr_executionId first, st_sessionUID := fr_session first\<rparr>))
              \<lparr>ss_executionID = fr_executionId first, ss_session = fr_session first, ss_closed = False, ss_parked = None, ss_failure = None\<rparr>
        | _ \<Rightarrow> ConnReturn (Some (ErrNew ''harnesswire: first ControllerFrame must be Start''))))"

definition Server_Describe :: "harness \<Rightarrow> nat \<Rightarrow> goerr + pb_descriptor" where
  "Server_Describe h n = (case har_describe h n of Inl e \<Rightarrow> Inl e | Inr d \<Rightarrow> Inr (DescriptorToProto d))"

section \<open>The client\<close>

text \<open>
  A remote peer as the client meets it: after the frames sent since the last event, whether the next
  \<^verbatim>\<open>Send\<close> fails, and what \<^verbatim>\<open>Recv\<close> yields.  The tree is well-founded: every stream ends.
\<close>

datatype peer = Peer "ctl_frame list \<Rightarrow> goerr option" "ctl_frame list \<Rightarrow> received"
and received = RecvErr goerr | RecvEvent hw_event peer

primrec peer_sendErr :: "peer \<Rightarrow> ctl_frame list \<Rightarrow> goerr option" where
  "peer_sendErr (Peer err _) = err"

text \<open>
  The client between two events: in the loop of \<^verbatim>\<open>Run\<close>, or in \<^verbatim>\<open>exchangePark\<close> waiting for the
  acknowledgement and then for the end of the stream.  \<open>wc_ctxErr\<close> is what \<^verbatim>\<open>ctx.Err()\<close> says at the end of
  \<^verbatim>\<open>exchangePark\<close>.
\<close>

datatype client_mode = InLoop | AwaitAck approval_ref goerr | AwaitClose goerr

record wire_client =
  wc_codec :: struct_codec
  wc_describe :: "nat \<Rightarrow> goerr + pb_descriptor"
  wc_connect :: "start \<Rightarrow> goerr + peer"
  wc_ctxErr :: "goerr option"

definition host_frame_to :: "start \<Rightarrow> frame_body \<Rightarrow> ctl_frame" where
  "host_frame_to st b = \<lparr>fr_session = st_sessionUID st, fr_executionId = st_executionID st, fr_frame = Some b\<rparr>"

text \<open>Sending frames one after the other until one fails.\<close>

fun send_all :: "(ctl_frame list \<Rightarrow> goerr option) \<Rightarrow> ctl_frame list \<Rightarrow> ctl_frame list \<Rightarrow> goerr option" where
  "send_all err sent [] = None"
| "send_all err sent (f # fs) = (case err (sent @ [f]) of Some e \<Rightarrow> Some e | None \<Rightarrow> send_all err (sent @ [f]) fs)"

definition client_send ::
  "peer \<Rightarrow> ctl_frame list \<Rightarrow> (ctl_frame list \<Rightarrow> client_mode \<Rightarrow> run) \<Rightarrow> client_mode \<Rightarrow> run" where
  "client_send p fs k m = (case send_all (peer_sendErr p) [] fs of Some e \<Rightarrow> Return (Some e) | None \<Rightarrow> k fs m)"

text \<open>\<^verbatim>\<open>ToolCall\<close> failed on the host.\<close>

definition client_tool_error ::
  "start \<Rightarrow> tool_call \<Rightarrow> goerr \<Rightarrow> peer \<Rightarrow> (ctl_frame list \<Rightarrow> client_mode \<Rightarrow> run) \<Rightarrow> run" where
  "client_tool_error st tc e p k =
     (case errors_as_parked e of
        Some ref \<Rightarrow>
          if tc_mediation tc \<noteq> MediationRequiresApproval \<or> st_sessionUID st = [] \<or> tc_id tc = []
             \<or> ref_executionID ref \<noteq> st_executionID st \<or> ref_toolCallID ref \<noteq> tc_id tc \<or> ref_requestSeq ref \<le> 0
          then Return (Some (ErrNew ''harnesswire: invalid host park correlation''))
          else client_send p [host_frame_to st (Frame_Park ref)] k (AwaitAck ref e)
      | None \<Rightarrow>
          if errors_is e ErrApprovalParked then Return (Some (ErrNew ''harnesswire: host park missing correlation''))
          else Return (Some e))"

definition client_tool_result ::
  "struct_codec \<Rightarrow> start \<Rightarrow> tool_call \<Rightarrow> tool_result \<Rightarrow> peer \<Rightarrow> (ctl_frame list \<Rightarrow> client_mode \<Rightarrow> run) \<Rightarrow> run" where
  "client_tool_result c st tc res p k =
     (let reply = host_frame_to st (Frame_Tool (toolResultToProto c res)) in
      if tc_mediation tc = MediationRequiresApproval then
        (case wire_validateApprovalReceipt (tc_id tc) (tr_approval res) res of
           Some e \<Rightarrow> Return (Some e)
         | None \<Rightarrow> client_send p [host_frame_to st (Frame_Approval (the (tr_approval res))), reply] k InLoop)
      else
        (case rejectApprovalReport res of
           Some e \<Rightarrow> Return (Some e)
         | None \<Rightarrow> client_send p [reply] k InLoop))"

text \<open>
  One event in the loop.  \<open>p\<close> is the stream after the event and \<open>k\<close> the rest of the loop, given the frames
  sent.
\<close>

definition client_event ::
  "struct_codec \<Rightarrow> start \<Rightarrow> hw_event \<Rightarrow> peer \<Rightarrow> (ctl_frame list \<Rightarrow> client_mode \<Rightarrow> run) \<Rightarrow> run" where
  "client_event c st ev p k =
     (if he_executionId ev \<noteq> st_executionID st
      then Return (Some (ErrNew (''harnesswire: event execution_id mismatch: got '' @ format_q (he_executionId ev)
             @ '', want '' @ format_q (st_executionID st))))
      else case he_kind ev of
        EVENT_MODEL_CALL \<Rightarrow>
          (let mc = (case GetModelCall ev of Some m \<Rightarrow> m | None \<Rightarrow> empty_model_call) in
           case ToolChoiceFromProto (pmc_toolChoice mc) of
             Inl e \<Rightarrow> Return (Some (errorf (''harnesswire: model call '' @ format_q (pmc_id mc) @ '': '') e []))
           | Inr choice \<Rightarrow>
               CallModel \<lparr>mr_model = pmc_model mc, mr_messages = messagesFromProto c (pmc_messages mc),
                          mr_params = pmc_params mc, mr_tools = ToolDefinitionsFromProto c (pmc_tools mc),
                          mr_toolChoice = choice\<rparr>
                 (\<lambda>r. case r of
                    Inl e \<Rightarrow> Return (Some e)
                  | Inr resp \<Rightarrow> client_send p [host_frame_to st (Frame_Model
                        \<lparr>pmr_message = Some (msgToProto c (mresp_message resp)),
                         pmr_usage = usageResultToProto (mresp_usage resp), pmr_modelCallId = pmc_id mc\<rparr>)] k InLoop))
      | EVENT_OUTPUT \<Rightarrow>
          (case GetMessage ev of
             None \<Rightarrow> k [] InLoop
           | Some m \<Rightarrow> CallOutput (Message_Text (msgFromProto c m))
               (\<lambda>r. case r of Some e \<Rightarrow> Return (Some e) | None \<Rightarrow> k [] InLoop))
      | EVENT_TOOL_CALL \<Rightarrow>
          (case GetToolCall ev of
             None \<Rightarrow> Return (Some (ErrNew ''harnesswire: EVENT_TOOL_CALL missing its payload''))
           | Some t \<Rightarrow>
               (let tc = toolCallFromProto c t in
                if tc_mediation tc = MediationRequiresApproval \<and> (st_sessionUID st = [] \<or> tc_id tc = [])
                then Return (Some (ErrNew ''harnesswire: approval requires session and call id''))
                else CallToolCall tc (\<lambda>r. case r of
                    Inl e \<Rightarrow> client_tool_error st tc e p k
                  | Inr res \<Rightarrow> client_tool_result c st tc res p k)))
      | EVENT_TOOL_RESULT \<Rightarrow>
          (case GetResult ev of
             None \<Rightarrow> k [] InLoop
           | Some t \<Rightarrow>
               (let tr = toolResultFromProto c t in
                case rejectApprovalReport tr of
                  Some e \<Rightarrow> Return (Some e)
                | None \<Rightarrow> CallReport tr (\<lambda>r. case r of Some e \<Rightarrow> Return (Some e) | None \<Rightarrow> k [] InLoop)))
      | EVENT_USAGE \<Rightarrow>
          (case GetUsage ev of
             None \<Rightarrow> k [] InLoop
           | Some u \<Rightarrow> CallUsage u (\<lambda>r. case r of Some e \<Rightarrow> Return (Some e) | None \<Rightarrow> k [] InLoop))
      | EVENT_APPROVAL_REQUEST \<Rightarrow> Return (Some (ErrNew (''harnesswire: harness emitted host-owned control event '' @ pb_kind_text (he_kind ev))))
      | EVENT_APPROVAL_RESULT \<Rightarrow> Return (Some (ErrNew (''harnesswire: harness emitted host-owned control event '' @ pb_kind_text (he_kind ev))))
      | EVENT_EXECUTION_START \<Rightarrow> Return (Some (ErrNew (''harnesswire: harness emitted host-owned control event '' @ pb_kind_text (he_kind ev))))
      | EVENT_PARKED \<Rightarrow> Return (Some (ErrNew (''harnesswire: harness emitted host-owned control event '' @ pb_kind_text (he_kind ev))))
      | EVENT_END \<Rightarrow> Return (endError (GetEnd ev))
      | _ \<Rightarrow> k [] InLoop)"

text \<open>\<^verbatim>\<open>exchangePark\<close> after its \<^verbatim>\<open>Send\<close>: the acknowledgement, then the end of the stream.\<close>

definition client_ack ::
  "start \<Rightarrow> approval_ref \<Rightarrow> goerr \<Rightarrow> hw_event \<Rightarrow> (ctl_frame list \<Rightarrow> client_mode \<Rightarrow> run) \<Rightarrow> run" where
  "client_ack st ref e ack k =
     (if he_kind ack \<noteq> EVENT_PARKED \<or> he_executionId ack \<noteq> st_executionID st \<or> GetParked ack \<noteq> Some ref
      then Return (Some (ErrNew ''harnesswire: park acknowledgement correlation mismatch''))
      else k [] (AwaitClose e))"

primrec client_loop :: "wire_client \<Rightarrow> start \<Rightarrow> peer \<Rightarrow> ctl_frame list \<Rightarrow> client_mode \<Rightarrow> run"
  and client_recv :: "wire_client \<Rightarrow> start \<Rightarrow> received \<Rightarrow> client_mode \<Rightarrow> run" where
  "client_loop wc st (Peer err answer) = (\<lambda>sent m. client_recv wc st (answer sent) m)"
| "client_recv wc st (RecvErr e) = (\<lambda>m. case m of
     InLoop \<Rightarrow> Return (if e = io_EOF then None else Some e)
   | AwaitAck ref _ \<Rightarrow> Return (Some (errorf ''harnesswire: park acknowledgement: '' e []))
   | AwaitClose parkErr \<Rightarrow>
       if e \<noteq> io_EOF then Return (Some e)
       else Return (Some (case wc_ctxErr wc of Some ce \<Rightarrow> ce | None \<Rightarrow> parkErr)))"
| "client_recv wc st (RecvEvent ev p) = (\<lambda>m. case m of
     InLoop \<Rightarrow> client_event (wc_codec wc) st ev p (client_loop wc st p)
   | AwaitAck ref parkErr \<Rightarrow> client_ack st ref parkErr ev (client_loop wc st p)
   | AwaitClose _ \<Rightarrow> Return (Some (ErrNew (''harnesswire: expected stream closure after park acknowledgement, got ''
        @ pb_kind_text (he_kind ev)))))"

definition ClientHarness_Run :: "wire_client \<Rightarrow> start \<Rightarrow> run" where
  "ClientHarness_Run wc st =
     (if st_executionID st = [] then Return (Some (ErrNew ''harnesswire: Start requires execution_id''))
      else case wc_connect wc st of
        Inl e \<Rightarrow> Return (Some e)
      | Inr p \<Rightarrow> client_send p [host_frame_to st (Frame_Start (startToProto (wc_codec wc) st))] (client_loop wc st p) InLoop)"

definition ClientHarness_Describe :: "wire_client \<Rightarrow> nat \<Rightarrow> goerr + descriptor" where
  "ClientHarness_Describe wc n = (case wc_describe wc n of Inl e \<Rightarrow> Inl e | Inr d \<Rightarrow> Inr (descriptorFromProto d))"

definition ClientHarness :: "wire_client \<Rightarrow> harness" where
  "ClientHarness wc = \<lparr>har_describe = ClientHarness_Describe wc, har_run = ClientHarness_Run wc\<rparr>"

section \<open>The two ends joined\<close>

text \<open>
  A stream that delivers everything in order.  The handler runs when the client waits for it; what it
  returns reaches the client as \<^verbatim>\<open>io.EOF\<close> or as the status error \<open>lk_status\<close> makes of it.  When neither side
  would ever move again, \<^verbatim>\<open>Recv\<close> returns \<open>lk_stall\<close>, the error of a context that ends.
\<close>

record stream_link =
  lk_status :: "goerr \<Rightarrow> goerr"
  lk_stall :: goerr
  lk_random :: "nat \<Rightarrow> bytes"

primrec serve_conn :: "stream_link \<Rightarrow> conn \<Rightarrow> nat \<Rightarrow> ctl_frame list \<Rightarrow> received" where
  "serve_conn lk (ConnReturn e) = (\<lambda>n inbox. RecvErr (case e of None \<Rightarrow> io_EOF | Some x \<Rightarrow> lk_status lk x))"
| "serve_conn lk (ConnSend ev k) = (\<lambda>n inbox.
     RecvEvent ev (Peer (\<lambda>_. None) (\<lambda>sent. serve_conn lk (k None) n (inbox @ sent))))"
| "serve_conn lk (ConnRecv k) = (\<lambda>n inbox.
     case inbox of [] \<Rightarrow> RecvErr (lk_stall lk) | f # fs \<Rightarrow> serve_conn lk (k (Inr f)) n fs)"
| "serve_conn lk (ConnAwait k) = (\<lambda>n inbox.
     case inbox of [] \<Rightarrow> RecvErr (lk_stall lk) | f # fs \<Rightarrow> serve_conn lk (k (AwaitFrame f)) n fs)"
| "serve_conn lk (ConnCheck k) = (\<lambda>n inbox. serve_conn lk (k (None, False)) n inbox)"
| "serve_conn lk (ConnRandom k) = (\<lambda>n inbox. serve_conn lk (k (lk_random lk n)) (Suc n) inbox)"

definition over_stream :: "stream_link \<Rightarrow> struct_codec \<Rightarrow> goerr option \<Rightarrow> harness \<Rightarrow> wire_client" where
  "over_stream lk c ctxErr h = \<lparr>wc_codec = c, wc_describe = Server_Describe h,
     wc_connect = (\<lambda>st. Inr (Peer (\<lambda>_. None) (\<lambda>sent. serve_conn lk (Server_Connect c (har_run h)) 0 sent))),
     wc_ctxErr = ctxErr\<rparr>"

end
