(* ===== verification/Harness_Registry.thy ===== *)
theory Harness_Registry
  imports Service_Errors Harness_Wire
begin

text \<open>
  The HarnessRegistry service (\<^verbatim>\<open>session/harness_registry.go\<close>): registrations in the store and the Placers that
  serve them in the registry of this host.  The Placer factory, the JSON form of a spec and the
  reflective view of a message are parameters.  \<^verbatim>\<open>RegisterHarness\<close> runs under the service's lock, so its
  steps are one step here; the other calls read.
\<close>

section \<open>Specs\<close>

datatype spec_placement = RemotePlacement string | SubstratePlacement string string

record pb_harness_spec =
  hsp_placement :: "spec_placement option"
  hsp_capabilities :: "pb_capabilities option"
  hsp_descriptorId :: string

text \<open>
  A message as \<^verbatim>\<open>protoreflect\<close> shows it: its name, its unknown bytes, and its populated fields in the order of
  \<^verbatim>\<open>Range\<close>.  An enum value carries whether this build defines its number.
\<close>

datatype pb_reflect = PbReflect string bytes "pb_field list"
  and pb_field = PbMapField string | PbListField string "pb_value list" | PbSingleField string pb_value
  and pb_value = PbMessageValue pb_reflect | PbEnumValue int bool | PbScalarValue

fun checkKnown :: "pb_reflect \<Rightarrow> goerr option"
  and check_fields :: "pb_field list \<Rightarrow> goerr option"
  and check_values :: "string \<Rightarrow> pb_value list \<Rightarrow> goerr option"
  and checkValue :: "string \<Rightarrow> pb_value \<Rightarrow> goerr option" where
  "checkKnown (PbReflect name unknown fds) =
     (if unknown \<noteq> [] then Some (ErrNew (name @ '' has fields this host does not understand'')) else check_fields fds)"
| "check_fields [] = None"
| "check_fields (PbMapField name # fds) = Some (ErrNew (name @ '': map fields are not supported''))"
| "check_fields (PbListField name vs # fds) =
     (case check_values name vs of Some e \<Rightarrow> Some e | None \<Rightarrow> check_fields fds)"
| "check_fields (PbSingleField name v # fds) =
     (case checkValue name v of Some e \<Rightarrow> Some e | None \<Rightarrow> check_fields fds)"
| "check_values name [] = None"
| "check_values name (v # vs) = (case checkValue name v of Some e \<Rightarrow> Some e | None \<Rightarrow> check_values name vs)"
| "checkValue name (PbMessageValue m) = checkKnown m"
| "checkValue name (PbEnumValue n known) =
     (if known then None else Some (ErrNew (name @ '': '' @ format_int n @ '' is not a value this host understands'')))"
| "checkValue name PbScalarValue = None"

record factory_result =
  fa_placer :: "nat option"
  fa_release :: "nat option"
  fa_err :: "goerr option"

text \<open>
  The environment.  A release function is a number; \<open>hs_factory\<close> may put new Placers on the heap.
\<close>

record harness_service =
  hs_env :: sql_env
  hs_factory :: "nat \<Rightarrow> string \<Rightarrow> pb_harness_spec \<Rightarrow> placer_heap \<Rightarrow> factory_result \<times> placer_heap"
  hs_descriptorID :: "nat \<Rightarrow> string"
  hs_describe :: "nat \<Rightarrow> nat \<Rightarrow> goerr + descriptor"
  hs_reflect :: "pb_harness_spec \<Rightarrow> pb_reflect"
  hs_protojson :: "pb_harness_spec \<Rightarrow> goerr + bytes"
  hs_unmarshalSpec :: "string \<Rightarrow> goerr + pb_harness_spec"
  hs_random :: "nat \<Rightarrow> bytes"

text \<open>
  The state of a host: its database, its registry and Placers, and the release functions it keeps for
  \<^verbatim>\<open>Close\<close>.  \<open>hh_released\<close> and \<open>hh_built\<close> only observe: the release functions that have run, and those
  the factory has handed out, in order.
\<close>

record harness_state =
  hh_db :: sqlite_db
  hh_registry :: registry
  hh_heap :: placer_heap
  hh_releases :: "nat list"
  hh_released :: "nat list"
  hh_built :: "nat list"
  hh_tick :: nat

text \<open>\<^verbatim>\<open>canon.Proto\<close>, then SHA-256.\<close>

definition specDigest :: "harness_service \<Rightarrow> pb_harness_spec \<Rightarrow> goerr + bytes \<times> string" where
  "specDigest hs spec =
     (case hs_protojson hs spec of
        Inl e \<Rightarrow> Inl e
      | Inr j \<Rightarrow>
          (case cn_jcs (sq_canon (hs_env hs)) j of
             Inl e \<Rightarrow> Inl e
           | Inr c \<Rightarrow> Inr (c, ''sha256:'' @ hex_encode (cn_sha256 (sq_canon (hs_env hs)) c))))"

definition validateSpec :: "harness_service \<Rightarrow> pb_harness_spec option \<Rightarrow> goerr option" where
  "validateSpec hs spec =
     (case spec of
        None \<Rightarrow> Some (ErrNew ''spec is required'')
      | Some s \<Rightarrow>
     (case checkKnown (hs_reflect hs s) of
        Some e \<Rightarrow> Some e
      | None \<Rightarrow>
     (case (case hsp_placement s of
              Some (RemotePlacement address) \<Rightarrow>
                if address = [] then Some (ErrNew ''remote.address is required'') else None
            | Some (SubstratePlacement atespace tmpl) \<Rightarrow>
                if atespace = [] \<or> tmpl = [] then Some (ErrNew ''substrate.atespace and substrate.template are required'') else None
            | None \<Rightarrow> Some (ErrNew ''placement is required'')) of
        Some e \<Rightarrow> Some e
      | None \<Rightarrow>
          if (case hsp_capabilities s of None \<Rightarrow> 0 | Some c \<Rightarrow> pc_resumability c) = 0
          then Some (ErrNew ''capabilities.resumability is required'') else None)))"

definition storedSpec :: "harness_service \<Rightarrow> string \<Rightarrow> goerr + pb_harness_spec" where
  "storedSpec hs s =
     (case (case hs_unmarshalSpec hs s of
              Inl e \<Rightarrow> Inl e
            | Inr spec \<Rightarrow> (case validateSpec hs (Some spec) of Some e \<Rightarrow> Inl e | None \<Rightarrow> Inr spec)) of
        Inl e \<Rightarrow> Inl (errorf (''stored spec cannot be decoded or validated (possible host/schema version skew; ''
                    @ ''upgrade this host or restart with a compatible version): '') e [])
      | Inr spec \<Rightarrow> Inr spec)"

text \<open>The regular expression \<^verbatim>\<open>^[a-z0-9]([a-z0-9-]{0,61}[a-z0-9])?$\<close>.\<close>

definition label_char :: "char \<Rightarrow> bool" where
  "label_char c \<longleftrightarrow> CHR ''a'' \<le> c \<and> c \<le> CHR ''z'' \<or> CHR ''0'' \<le> c \<and> c \<le> CHR ''9''"

definition harnessName :: "string \<Rightarrow> bool" where
  "harnessName s \<longleftrightarrow> s \<noteq> [] \<and> length s \<le> 63 \<and> label_char (hd s) \<and> label_char (last s)
     \<and> list_all (\<lambda>c. label_char c \<or> c = CHR ''-'') s"

definition validName :: "string \<Rightarrow> goerr option" where
  "validName name =
     (if harnessName name then None
      else Some (ErrStatus CodeInvalidArgument (''name '' @ format_q name
             @ '' is not a DNS label (lowercase alphanumerics and '' @ [CHR 0x27] @ ''-'' @ [CHR 0x27] @ '', at most 63)'')))"

section \<open>Loading\<close>

definition checkPlacer :: "harness_service \<Rightarrow> nat option \<Rightarrow> pb_harness_spec \<Rightarrow> goerr option" where
  "checkPlacer hs p spec =
     (case p of
        None \<Rightarrow> Some (ErrNew ''the placer factory returned no placer'')
      | Some k \<Rightarrow>
          if hs_descriptorID hs k \<noteq> hsp_descriptorId spec
          then Some (ErrNew (''the placer factory returned a placer that expects descriptor id '' @ format_q (hs_descriptorID hs k)
                 @ '', the spec expects '' @ format_q (hsp_descriptorId spec)
                 @ ''; build it with placement.WithDescriptorID(spec.GetDescriptorId())''))
          else None)"

definition run_release :: "nat option \<Rightarrow> harness_state \<Rightarrow> harness_state" where
  "run_release release h = (case release of None \<Rightarrow> h | Some f \<Rightarrow> h\<lparr>hh_released := hh_released h @ [f]\<rparr>)"

definition keep_release :: "nat option \<Rightarrow> harness_state \<Rightarrow> harness_state" where
  "keep_release release h = (case release of None \<Rightarrow> h | Some f \<Rightarrow> h\<lparr>hh_releases := hh_releases h @ [f]\<rparr>)"

definition call_factory ::
  "harness_service \<Rightarrow> string \<Rightarrow> pb_harness_spec \<Rightarrow> harness_state \<Rightarrow> factory_result \<times> harness_state" where
  "call_factory hs name spec h =
     (case hs_factory hs (hh_tick h) name spec (hh_heap h) of
        (res, heap) \<Rightarrow> (res, h\<lparr>hh_heap := heap, hh_tick := Suc (hh_tick h),
            hh_built := hh_built h @ (case fa_release res of None \<Rightarrow> [] | Some f \<Rightarrow> [f])\<rparr>))"

definition mark_unavailable :: "string \<Rightarrow> goerr \<Rightarrow> harness_state \<Rightarrow> goerr option \<times> harness_state" where
  "mark_unavailable name cause h =
     (case MarkUnavailable name (Some cause) (hh_registry h) of (e, r) \<Rightarrow> (e, h\<lparr>hh_registry := r\<rparr>))"

definition add_placer :: "string \<Rightarrow> nat option \<Rightarrow> harness_state \<Rightarrow> goerr option \<times> harness_state" where
  "add_placer name p h =
     (case Add name p (hh_registry h) (hh_heap h) of (e, r, heap) \<Rightarrow> (e, h\<lparr>hh_registry := r, hh_heap := heap\<rparr>))"

definition load_registration :: "harness_service \<Rightarrow> harness_row \<Rightarrow> harness_state \<Rightarrow> goerr option \<times> harness_state" where
  "load_registration hs rec h =
     (case storedSpec hs (hr_spec rec) of
        Inl e \<Rightarrow> mark_unavailable (hr_name rec) e h
      | Inr spec \<Rightarrow>
     (case call_factory hs (hr_name rec) spec h of
        (res, h1) \<Rightarrow>
     (case (case fa_err res of Some e \<Rightarrow> Some e | None \<Rightarrow> checkPlacer hs (fa_placer res) spec) of
        Some e \<Rightarrow> mark_unavailable (hr_name rec) e (run_release (fa_release res) h1)
      | None \<Rightarrow>
     (case add_placer (hr_name rec) (fa_placer res) h1 of
        (Some e, h2) \<Rightarrow>
          if errors_is e ErrHarnessExists then (Some e, run_release (fa_release res) h2)
          else mark_unavailable (hr_name rec) e (run_release (fa_release res) h2)
      | (None, h2) \<Rightarrow> (None, keep_release (fa_release res) h2)))))"

fun load_all :: "harness_service \<Rightarrow> harness_row list \<Rightarrow> harness_state \<Rightarrow> goerr option \<times> harness_state" where
  "load_all hs [] h = (None, h)"
| "load_all hs (rec # recs) h =
     (case load_registration hs rec h of (Some e, h1) \<Rightarrow> (Some e, h1) | (None, h1) \<Rightarrow> load_all hs recs h1)"

lemma length_filter_less2:
  "x \<in> set xs \<Longrightarrow> Q x \<Longrightarrow> \<not> P x \<Longrightarrow> (\<And>y. P y \<Longrightarrow> Q y) \<Longrightarrow> length (filter P xs) < length (filter Q xs)"
proof (induction xs)
  case (Cons a xs)
  have le: "length (filter P xs) \<le> length (filter Q xs)" using Cons.prems(4) by (induction xs) auto
  show ?case
  proof (cases "x \<in> set xs")
    case True
    then show ?thesis using Cons.IH Cons.prems by auto
  next
    case False
    then show ?thesis using Cons.prems le by auto
  qed
qed simp

lemma load_registration_db: "load_registration hs rec h = (e, h') \<Longrightarrow> hh_db h' = hh_db h"
  by (auto simp: load_registration_def mark_unavailable_def add_placer_def call_factory_def run_release_def keep_release_def
      split: sum.splits option.splits prod.splits if_splits)

lemma load_all_db: "load_all hs recs h = (e, h') \<Longrightarrow> hh_db h' = hh_db h"
proof (induction recs arbitrary: h)
  case (Cons r recs)
  then show ?case by (auto split: prod.splits option.splits dest!: load_registration_db)
qed simp

lemma ListHarnesses_rows:
  assumes "ListHarnesses opts db = Inr recs" "r \<in> set recs"
  shows "r \<in> set (db_harnesses db)" "hl_after opts < hr_name r"
  using assms by (auto simp: ListHarnesses_def split: if_splits dest!: in_set_takeD)

definition rows_after :: "string \<Rightarrow> sqlite_db \<Rightarrow> nat" where
  "rows_after after db = length (filter (\<lambda>r. after < hr_name r) (db_harnesses db))"

lemma pages_shrink:
  assumes l: "ListHarnesses \<lparr>hl_after = after, hl_limit = MaxPageSize, hl_includeRetired = True\<rparr> (hh_db h) = Inr recs"
    and a: "load_all hs recs h = (e, h1)" and full: "\<not> int (length recs) < MaxPageSize"
  shows "rows_after (hr_name (last recs)) (hh_db h1) < rows_after after (hh_db h)"
proof -
  have "recs \<noteq> []" using full by (auto simp: MaxPageSize_def)
  then have "last recs \<in> set (db_harnesses (hh_db h))" "after < hr_name (last recs)"
    using ListHarnesses_rows [OF l last_in_set] by simp_all
  then show ?thesis unfolding rows_after_def load_all_db [OF a] by (intro length_filter_less2 [of "last recs"]) auto
qed

text \<open>\<^verbatim>\<open>forEachRegistration\<close> with \<^verbatim>\<open>load\<close>: pages of the store's maximal size, each after the last name of the one before.\<close>

function load_pages :: "harness_service \<Rightarrow> string \<Rightarrow> harness_state \<Rightarrow> goerr option \<times> harness_state" where
  "load_pages hs after h =
     (case ListHarnesses \<lparr>hl_after = after, hl_limit = MaxPageSize, hl_includeRetired = True\<rparr> (hh_db h) of
        Inl e \<Rightarrow> (Some e, h)
      | Inr recs \<Rightarrow>
     (case load_all hs recs h of
        (Some e, h1) \<Rightarrow> (Some e, h1)
      | (None, h1) \<Rightarrow>
          if int (length recs) < MaxPageSize then (None, h1)
          else load_pages hs (hr_name (last recs)) h1))"
  by auto
termination
  by (relation "measure (\<lambda>(hs, after, h). rows_after after (hh_db h))") (auto, metis pages_shrink)

declare load_pages.simps [simp del]

definition ReserveStaticHarnessNames :: "harness_service \<Rightarrow> harness_state \<Rightarrow> goerr option \<times> harness_state" where
  "ReserveStaticHarnessNames hs h =
     (case ReserveHarnessNames (hs_env hs) (ReservedNames (hh_registry h)) (hh_db h) of
        (Inl e, db) \<Rightarrow> (Some (errorf ''session: '' e []), h\<lparr>hh_db := db\<rparr>)
      | (Inr _, db) \<Rightarrow> (None, h\<lparr>hh_db := db\<rparr>))"

definition Close_releases :: "harness_state \<Rightarrow> harness_state" where
  "Close_releases h = h\<lparr>hh_released := hh_released h @ hh_releases h, hh_releases := []\<rparr>"

definition NewHarnessRegistry :: "harness_service \<Rightarrow> harness_state \<Rightarrow> goerr option \<times> harness_state" where
  "NewHarnessRegistry hs h =
     (case ReserveStaticHarnessNames hs h of
        (Some e, h1) \<Rightarrow> (Some e, h1)
      | (None, h1) \<Rightarrow>
     (case load_pages hs [] h1 of
        (Some e, h2) \<Rightarrow> (Some e, Close_releases h2)
      | (None, h2) \<Rightarrow> (None, h2)))"

section \<open>Registrations on the wire\<close>

datatype pb_harness_state = HARNESS_STATE_ACTIVE | HARNESS_STATE_RETIRED

datatype pb_harness_source = HARNESS_SOURCE_STATIC | HARNESS_SOURCE_REGISTERED

datatype pb_register_outcome = REGISTER_OUTCOME_CREATED | REGISTER_OUTCOME_UNCHANGED | REGISTER_OUTCOME_REACTIVATED

record pb_registration =
  pr_name :: string
  pr_uid :: string
  pr_createTime :: "int64 option"
  pr_updateTime :: "int64 option"
  pr_spec :: "pb_harness_spec option"
  pr_specDigest :: string
  pr_state :: pb_harness_state
  pr_source :: pb_harness_source
  pr_retireTime :: "int64 option"
  pr_retireReason :: string
  pr_unservableReason :: string
  pr_observed :: "pb_descriptor option"
  pr_observeError :: string

definition staticProto :: "string \<Rightarrow> pb_registration" where
  "staticProto name = \<lparr>pr_name = name, pr_uid = [], pr_createTime = None, pr_updateTime = None, pr_spec = None,
     pr_specDigest = [], pr_state = HARNESS_STATE_ACTIVE, pr_source = HARNESS_SOURCE_STATIC, pr_retireTime = None,
     pr_retireReason = [], pr_unservableReason = [], pr_observed = None, pr_observeError = []\<rparr>"

definition unservable_reason :: "harness_service \<Rightarrow> harness_row \<Rightarrow> registry \<Rightarrow> string" where
  "unservable_reason hs rec r =
     (case storedSpec hs (hr_spec rec) of
        Inl e \<Rightarrow> error_text e
      | Inr _ \<Rightarrow>
     (case For r (hr_name rec) of
        Inr _ \<Rightarrow> []
      | Inl e \<Rightarrow>
          if errors_is e ErrHarnessUnservable then error_text e
          else if hr_state rec = HarnessRetired
          then ''registration is not loaded on this host; restart this host to serve its existing sessions''
          else ''registration is not loaded on this host; restart this host or register the identical compatible spec locally to serve it''))"

definition registrationProto :: "harness_service \<Rightarrow> harness_row \<Rightarrow> registry \<Rightarrow> pb_registration" where
  "registrationProto hs rec r =
     (let retired = (hr_state rec = HarnessRetired) in
      \<lparr>pr_name = hr_name rec, pr_uid = hr_uid rec, pr_createTime = Some (hr_createdAt rec),
       pr_updateTime = Some (hr_updatedAt rec),
       pr_spec = (case storedSpec hs (hr_spec rec) of Inl _ \<Rightarrow> None | Inr spec \<Rightarrow> Some spec),
       pr_specDigest = hr_specDigest rec, pr_state = (if retired then HARNESS_STATE_RETIRED else HARNESS_STATE_ACTIVE),
       pr_source = HARNESS_SOURCE_REGISTERED, pr_retireTime = (if retired then Some (hr_retiredAt rec) else None),
       pr_retireReason = (if retired then hr_retireReason rec else []),
       pr_unservableReason = unservable_reason hs rec r, pr_observed = None, pr_observeError = []\<rparr>)"

section \<open>The calls\<close>

definition maxSpecBytes :: nat where "maxSpecBytes = 4096"
definition maxRetireReason :: nat where "maxRetireReason = 1024"

definition newHarnessUID :: "harness_service \<Rightarrow> harness_state \<Rightarrow> string \<times> harness_state" where
  "newHarnessUID hs h = (''harness-'' @ hex_encode (hs_random hs (hh_tick h)), h\<lparr>hh_tick := Suc (hh_tick h)\<rparr>)"

fun registerOutcome :: "RegisterResult \<Rightarrow> pb_register_outcome" where
  "registerOutcome HarnessCreated = REGISTER_OUTCOME_CREATED"
| "registerOutcome HarnessUnchanged = REGISTER_OUTCOME_UNCHANGED"
| "registerOutcome HarnessReactivated = REGISTER_OUTCOME_REACTIVATED"

text \<open>The request's checks, up to the lock.\<close>

definition register_admit ::
  "harness_service \<Rightarrow> string \<Rightarrow> pb_harness_spec option \<Rightarrow> registry \<Rightarrow> goerr + pb_harness_spec \<times> bytes \<times> string" where
  "register_admit hs name spec r =
     (case validName name of
        Some e \<Rightarrow> Inl e
      | None \<Rightarrow>
     if Reserved r name
     then Inl (ErrStatus CodeAlreadyExists (''harness '' @ format_q name @ '' is a static harness name on this host and cannot be registered''))
     else case validateSpec hs spec of
        Some e \<Rightarrow> Inl (statusf CodeInvalidArgument ''spec: '' e [])
      | None \<Rightarrow>
     (case specDigest hs (the spec) of
        Inl e \<Rightarrow> Inl (statusf CodeInvalidArgument ''spec: '' e [])
      | Inr (canonical, digest) \<Rightarrow>
          if length canonical > maxSpecBytes
          then Inl (ErrStatus CodeInvalidArgument (''spec is '' @ format_nat (length canonical)
                 @ '' bytes in canonical form; the limit is '' @ format_nat maxSpecBytes))
          else Inr (the spec, canonical, digest)))"

text \<open>Building the Placer, unless the registry has the name: the result is what the factory returned, if it was called.\<close>

definition build_placer ::
  "harness_service \<Rightarrow> string \<Rightarrow> pb_harness_spec \<Rightarrow> harness_state \<Rightarrow> (goerr + factory_result option) \<times> harness_state" where
  "build_placer hs name spec h =
     (if Has (hh_registry h) name then (Inr None, h)
      else
     (case call_factory hs name spec h of
        (res, h1) \<Rightarrow>
     (case fa_err res of
        Some e \<Rightarrow> (Inl (statusf CodeFailedPrecondition (''harness '' @ format_q name @ '': '') e []), run_release (fa_release res) h1)
      | None \<Rightarrow>
     (case checkPlacer hs (fa_placer res) spec of
        Some e \<Rightarrow> (Inl (statusf CodeInternal (''harness '' @ format_q name @ '': '') e []), run_release (fa_release res) h1)
      | None \<Rightarrow> (Inr (Some res), h1)))))"

text \<open>\<^verbatim>\<open>if release != nil\<close> of a factory result, if there was one.\<close>

definition drop_built :: "factory_result option \<Rightarrow> harness_state \<Rightarrow> harness_state" where
  "drop_built built h = run_release (case built of None \<Rightarrow> None | Some res \<Rightarrow> fa_release res) h"

definition store_registration ::
  "harness_service \<Rightarrow> string \<Rightarrow> bytes \<Rightarrow> string \<Rightarrow> factory_result option \<Rightarrow> harness_state \<Rightarrow>
     (goerr + pb_registration \<times> pb_register_outcome) \<times> harness_state" where
  "store_registration hs name canonical digest built h =
     (case newHarnessUID hs h of
        (uid, h1) \<Rightarrow>
     (case RegisterHarness (hs_env hs) \<lparr>hr_name = name, hr_uid = uid, hr_spec = canonical, hr_specDigest = digest,
             hr_state = HarnessStateOther [], hr_retireReason = [], hr_retiredAt = 0, hr_createdAt = 0, hr_updatedAt = 0\<rparr>
             (hh_db h1) of
        (Inl e, db) \<Rightarrow>
          (Inl (if errors_is e ErrHarnessSpecConflict
                then statusf CodeAlreadyExists [] e ''; registrations are immutable, use a new name''
                else if errors_is e ErrHarnessNameReserved
                then statusf CodeAlreadyExists [] e '' by a host sharing this journal and cannot be registered''
                else statusf CodeInternal ''register: '' e []), drop_built built (h1\<lparr>hh_db := db\<rparr>))
      | (Inr (rec, result), db) \<Rightarrow>
          let h2 = h1\<lparr>hh_db := db\<rparr> in
     (case built of
        None \<Rightarrow> (Inr (registrationProto hs rec (hh_registry h2), registerOutcome result), h2)
      | Some res \<Rightarrow>
     (case add_placer name (fa_placer res) h2 of
        (Some e, h3) \<Rightarrow> (Inl (statusf CodeInternal ''register: '' e []), drop_built built h3)
      | (None, h3) \<Rightarrow>
          let h4 = keep_release (fa_release res) h3
          in (Inr (registrationProto hs rec (hh_registry h4), registerOutcome result), h4)))))"

definition HarnessRegistry_RegisterHarness ::
  "harness_service \<Rightarrow> string \<Rightarrow> pb_harness_spec option \<Rightarrow> harness_state \<Rightarrow>
     (goerr + pb_registration \<times> pb_register_outcome) \<times> harness_state" where
  "HarnessRegistry_RegisterHarness hs name spec h =
     (case register_admit hs name spec (hh_registry h) of
        Inl e \<Rightarrow> (Inl e, h)
      | Inr (spec, canonical, digest) \<Rightarrow>
     (case (case Harness name (hh_db h) of
              Inr rec \<Rightarrow> if hr_specDigest rec \<noteq> digest
                then Some (ErrStatus CodeAlreadyExists (''harness '' @ format_q name @ '' holds spec '' @ hr_specDigest rec
                       @ '', request is '' @ digest @ ''; registrations are immutable, use a new name'')) else None
            | Inl e \<Rightarrow> if errors_is e ErrHarnessNotFound then None else Some (statusf CodeInternal ''register: '' e [])) of
        Some e \<Rightarrow> (Inl e, h)
      | None \<Rightarrow>
     (case build_placer hs name spec h of
        (Inl e, h1) \<Rightarrow> (Inl e, h1)
      | (Inr built, h1) \<Rightarrow> store_registration hs name canonical digest built h1)))"

text \<open>\<^verbatim>\<open>observe\<close>: the name is looked up and described at tick \<open>t\<close>.\<close>

definition observe_harness :: "harness_service \<Rightarrow> registry \<Rightarrow> nat \<Rightarrow> pb_registration \<Rightarrow> pb_registration" where
  "observe_harness hs r t out =
     (case For r (pr_name out) of
        Inl e \<Rightarrow> out\<lparr>pr_observeError := (if errors_is e ErrUnknownHarness then ''harness is not loaded on this host'' else error_text e)\<rparr>
      | Inr k \<Rightarrow>
          (case hs_describe hs k t of
             Inl e \<Rightarrow> out\<lparr>pr_observeError := ''describe: '' @ error_text e\<rparr>
           | Inr desc \<Rightarrow> out\<lparr>pr_observed := Some (DescriptorToProto desc)\<rparr>))"

definition HarnessRegistry_GetHarness ::
  "harness_service \<Rightarrow> string \<Rightarrow> bool \<Rightarrow> harness_state \<Rightarrow> (goerr + pb_registration) \<times> harness_state" where
  "HarnessRegistry_GetHarness hs name live h =
     (if name = [] then (Inl (ErrStatus CodeInvalidArgument ''name is required''), h)
      else
     (case (if Static (hh_registry h) name then Inr (staticProto name)
            else case Harness name (hh_db h) of
               Inl e \<Rightarrow> if errors_is e ErrHarnessNotFound
                        then Inl (ErrStatus CodeNotFound (''harness '' @ format_q name @ '' not found''))
                        else Inl (statusf CodeInternal ''get: '' e [])
             | Inr rec \<Rightarrow> Inr (registrationProto hs rec (hh_registry h))) of
        Inl e \<Rightarrow> (Inl e, h)
      | Inr out \<Rightarrow>
          if live then (Inr (observe_harness hs (hh_registry h) (hh_tick h) out), h\<lparr>hh_tick := Suc (hh_tick h)\<rparr>)
          else (Inr out, h)))"

definition HarnessRegistry_RetireHarness ::
  "harness_service \<Rightarrow> string \<Rightarrow> string \<Rightarrow> harness_state \<Rightarrow> (goerr + pb_registration) \<times> harness_state" where
  "HarnessRegistry_RetireHarness hs name reason h =
     (if name = [] then (Inl (ErrStatus CodeInvalidArgument ''name is required''), h)
      else if Static (hh_registry h) name then
        (Inl (ErrStatus CodeFailedPrecondition (''harness '' @ format_q name
           @ '' is a static harness; it is retired by changing the host'' @ [CHR 0x27] @ ''s configuration'')), h)
      else if length reason > maxRetireReason then
        (Inl (ErrStatus CodeInvalidArgument (''reason is '' @ format_nat (length reason) @ '' bytes; the limit is ''
           @ format_nat maxRetireReason)), h)
      else
     (case RetireHarness (hs_env hs) name reason (hh_db h) of
        (Inl e, db) \<Rightarrow>
          (Inl (if errors_is e ErrHarnessNotFound then ErrStatus CodeNotFound (''harness '' @ format_q name @ '' not found'')
                else statusf CodeInternal ''retire: '' e []), h\<lparr>hh_db := db\<rparr>)
      | (Inr rec, db) \<Rightarrow> (Inr (registrationProto hs rec (hh_registry h)), h\<lparr>hh_db := db\<rparr>)))"

definition encodeHarnessPageToken :: "string \<Rightarrow> string" where
  "encodeHarnessPageToken after = b64_encode after"

definition decodeHarnessPageToken :: "string \<Rightarrow> goerr + string" where
  "decodeHarnessPageToken token =
     (if token = [] then Inr []
      else case b64_decode token of
        None \<Rightarrow> Inl (ErrNew ''not a token this server issued'')
      | Some b \<Rightarrow> if b = [] then Inl (ErrNew ''not a token this server issued'') else Inr b)"

text \<open>The merge loop: at most \<open>n\<close> entries, static names before stored ones on the smaller name.\<close>

fun merge_listing ::
  "harness_service \<Rightarrow> registry \<Rightarrow> nat \<Rightarrow> string list \<Rightarrow> harness_row list \<Rightarrow> pb_registration list" where
  "merge_listing hs r 0 static recs = []"
| "merge_listing hs r (Suc n) [] [] = []"
| "merge_listing hs r (Suc n) (s # static) [] = staticProto s # merge_listing hs r n static []"
| "merge_listing hs r (Suc n) [] (rec # recs) = registrationProto hs rec r # merge_listing hs r n [] recs"
| "merge_listing hs r (Suc n) (s # static) (rec # recs) =
     (if s < hr_name rec then staticProto s # merge_listing hs r n static (rec # recs)
      else registrationProto hs rec r # merge_listing hs r n (s # static) recs)"

definition listing_size :: "int \<Rightarrow> int" where
  "listing_size pageSize = (if pageSize = 0 then DefaultPageSize else if pageSize > MaxPageSize then MaxPageSize else pageSize)"

definition HarnessRegistry_ListHarnesses ::
  "harness_service \<Rightarrow> int \<Rightarrow> string \<Rightarrow> bool \<Rightarrow> harness_state \<Rightarrow> goerr + pb_registration list \<times> string" where
  "HarnessRegistry_ListHarnesses hs pageSize token includeRetired h =
     (if pageSize < 0 then Inl (ErrStatus CodeInvalidArgument ''page_size must not be negative'')
      else
        let size = listing_size pageSize in
     (case decodeHarnessPageToken token of
        Inl e \<Rightarrow> Inl (statusf CodeInvalidArgument ''page_token: '' e [])
      | Inr after \<Rightarrow>
     (case ListHarnesses \<lparr>hl_after = after, hl_limit = size + 1, hl_includeRetired = includeRetired\<rparr> (hh_db h) of
        Inl e \<Rightarrow> Inl (statusf CodeInternal ''list: '' e [])
      | Inr recs \<Rightarrow>
          let static = filter (\<lambda>name. after < name) (StaticNames (hh_registry h));
              out = merge_listing hs (hh_registry h) (nat size + 1) static recs
          in if length out > nat size
             then Inr (take (nat size) out, encodeHarnessPageToken (pr_name (out ! (nat size - 1))))
             else Inr (out, []))))"

end
