(* ===== verification/Harness_Props.thy ===== *)
theory Harness_Props
  imports Harness_Registry Sqlite_Props "HOL-Library.Multiset"
begin

text \<open>
  The HarnessRegistry service over time: what a start-up knows, that a name never means two harnesses, and
  that a call gives back what it built.
\<close>

section \<open>The registry of the host\<close>

lemma Add_effect:
  assumes "Add name p r heap = (e, r', heap')"
  shows "(case e of Some _ \<Rightarrow> r' = r \<and> heap' = heap
    | None \<Rightarrow> name \<noteq> [] \<and> \<not> Reserved r name \<and> \<not> Has r name \<and> (\<exists>k. p = Some k \<and> r' = r\<lparr>rg_byName := (name, k) # rg_byName r\<rparr>))"
  using assms by (auto simp: Add_def Let_def name_free_def split: option.splits if_splits)

lemma MarkUnavailable_effect:
  assumes "MarkUnavailable name cause r = (e, r')"
  shows "(case e of Some _ \<Rightarrow> r' = r
    | None \<Rightarrow> name \<noteq> [] \<and> \<not> Reserved r name \<and> \<not> Has r name \<and> (\<exists>c. r' = r\<lparr>rg_unavailable := (name, c) # rg_unavailable r\<rparr>))"
  using assms by (auto simp: MarkUnavailable_def name_free_def split: option.splits if_splits)

text \<open>A registry that has learnt at most the names of \<open>N\<close>, none of them reserved.\<close>

definition learns :: "string set \<Rightarrow> registry \<Rightarrow> registry \<Rightarrow> bool" where
  "learns N r r' \<longleftrightarrow> rg_static r' = rg_static r \<and> rg_reserved r' = rg_reserved r \<and> rg_default r' = rg_default r
     \<and> (\<forall>n. Has r n \<longrightarrow> Has r' n) \<and> (\<forall>n. Has r' n \<longrightarrow> Has r n \<or> n \<in> N \<and> \<not> Reserved r n)
     \<and> (\<forall>n k. For r n = Inr k \<longrightarrow> For r' n = Inr k)"

lemma learns_refl [simp]: "learns N r r"
  by (simp add: learns_def)

lemma learns_reserved: "learns N r r' \<Longrightarrow> Reserved r' n \<longleftrightarrow> Reserved r n"
  by (simp add: learns_def Reserved_def)

lemma learns_trans: "learns N a b \<Longrightarrow> learns M b c \<Longrightarrow> learns (N \<union> M) a c"
  unfolding learns_def using learns_reserved [of N a b] by (auto simp: learns_def)

lemma learns_trans_same: "learns N a b \<Longrightarrow> learns N b c \<Longrightarrow> learns N a c"
  using learns_trans [of N a b N c] by simp

lemma learns_mono: "learns N a b \<Longrightarrow> N \<subseteq> M \<Longrightarrow> learns M a b"
  unfolding learns_def by blast

lemma Has_fresh [simp]:
  "Has (r\<lparr>rg_byName := (name, k) # rg_byName r\<rparr>) n \<longleftrightarrow> n = name \<or> Has r n"
  "Has (r\<lparr>rg_unavailable := (name, c) # rg_unavailable r\<rparr>) n \<longleftrightarrow> n = name \<or> Has r n"
  by (auto simp: Has_def)

definition route_name :: "registry \<Rightarrow> string \<Rightarrow> string" where
  "route_name r n = (if n = [] then rg_default r else n)"

lemma For_route_Inr: "For r n = Inr k \<longleftrightarrow> map_of (rg_unavailable r) (route_name r n) = None \<and> map_of (rg_byName r) (route_name r n) = Some k"
  unfolding For_def route_name_def [symmetric] Let_def by (auto split: option.splits)

lemma learns_one:
  assumes "\<not> Reserved r name" "\<not> Has r name"
  shows "learns {name} r (r\<lparr>rg_byName := (name, k) # rg_byName r\<rparr>)" "learns {name} r (r\<lparr>rg_unavailable := (name, c) # rg_unavailable r\<rparr>)"
proof -
  have n: "route_name r n \<noteq> name" if "For r n = Inr j" for n j
    using that assms(2) by (auto simp: For_route_Inr Has_def)
  have "For (r\<lparr>rg_byName := (name, k) # rg_byName r\<rparr>) n = Inr j" "For (r\<lparr>rg_unavailable := (name, c) # rg_unavailable r\<rparr>) n = Inr j"
    if "For r n = Inr j" for n j
    using that n [OF that] by (cases "n = []"; simp add: For_route_Inr route_name_def)+
  then show "learns {name} r (r\<lparr>rg_byName := (name, k) # rg_byName r\<rparr>)" "learns {name} r (r\<lparr>rg_unavailable := (name, c) # rg_unavailable r\<rparr>)"
    unfolding learns_def using assms(1) by auto
qed

lemma add_placer_effect:
  assumes "add_placer name p h = (e, h')"
  shows "hh_db h' = hh_db h \<and> hh_releases h' = hh_releases h \<and> hh_released h' = hh_released h \<and>
    (case e of Some _ \<Rightarrow> hh_registry h' = hh_registry h
     | None \<Rightarrow> learns {name} (hh_registry h) (hh_registry h') \<and> Has (hh_registry h') name)"
  using assms Add_effect [of name p "hh_registry h" "hh_heap h"]
  by (auto simp: add_placer_def split: prod.splits option.splits dest!: learns_one(1))

lemma mark_unavailable_effect:
  assumes "mark_unavailable name cause h = (e, h')"
  shows "hh_db h' = hh_db h \<and> hh_releases h' = hh_releases h \<and> hh_released h' = hh_released h \<and>
    (case e of Some _ \<Rightarrow> hh_registry h' = hh_registry h
     | None \<Rightarrow> learns {name} (hh_registry h) (hh_registry h') \<and> Has (hh_registry h') name)"
  using assms MarkUnavailable_effect [of name "Some cause" "hh_registry h"]
  by (auto simp: mark_unavailable_def split: prod.splits option.splits intro: learns_one(2))

lemma release_views [simp]:
  "hh_db (run_release f h) = hh_db h" "hh_registry (run_release f h) = hh_registry h" "hh_releases (run_release f h) = hh_releases h"
  "hh_db (keep_release f h) = hh_db h" "hh_registry (keep_release f h) = hh_registry h" "hh_released (keep_release f h) = hh_released h"
  "hh_db (drop_built b h) = hh_db h" "hh_registry (drop_built b h) = hh_registry h" "hh_releases (drop_built b h) = hh_releases h"
  by (simp_all add: run_release_def keep_release_def drop_built_def split: option.splits)

lemma call_factory_views:
  "call_factory hs name spec h = (res, h') \<Longrightarrow> hh_db h' = hh_db h \<and> hh_registry h' = hh_registry h
    \<and> hh_releases h' = hh_releases h \<and> hh_released h' = hh_released h"
  by (auto simp: call_factory_def split: prod.splits)

section \<open>Start-up\<close>

lemma load_registration_effect:
  assumes "load_registration hs rec h = (e, h')"
  shows "learns {hr_name rec} (hh_registry h) (hh_registry h') \<and> (case e of None \<Rightarrow> Has (hh_registry h') (hr_name rec) | Some _ \<Rightarrow> True)"
  using assms
  by (auto simp: load_registration_def split: sum.splits prod.splits option.splits if_splits
      dest!: call_factory_views mark_unavailable_effect add_placer_effect)

lemma load_all_effect:
  assumes "load_all hs recs h = (e, h')"
  shows "learns (hr_name ` set recs) (hh_registry h) (hh_registry h')
    \<and> (case e of None \<Rightarrow> \<forall>r \<in> set recs. Has (hh_registry h') (hr_name r) | Some _ \<Rightarrow> True)"
  using assms
proof (induction recs arbitrary: h)
  case (Cons r recs)
  obtain x h1 where l: "load_registration hs r h = (x, h1)" by fastforce
  note one = load_registration_effect [OF l]
  show ?case
  proof (cases x)
    case None
    then have "load_all hs recs h1 = (e, h')" using Cons.prems l by simp
    note rest = Cons.IH [OF this]
    have "learns (hr_name ` set (r # recs)) (hh_registry h) (hh_registry h')" using learns_trans one rest by fastforce
    then show ?thesis using one rest None by (auto simp: learns_def split: option.splits)
  next
    case (Some y)
    then show ?thesis using Cons.prems l one by (auto intro: learns_mono)
  qed
qed simp

lemma page_splits:
  fixes key :: "'a \<Rightarrow> 'k::linorder"
  assumes "sorted (map key xs)" "distinct (map key xs)" "take n xs \<noteq> []" "y \<in> set xs" "y \<notin> set (take n xs)"
  shows "key (last (take n xs)) < key y"
proof -
  have y: "y \<in> set (drop n xs)" using assms(4,5) by (metis Un_iff append_take_drop_id set_append)
  have l: "last (take n xs) \<in> set (take n xs)" by (rule last_in_set [OF assms(3)])
  have s: "sorted (map key (take n xs) @ map key (drop n xs))" using assms(1) by (metis append_take_drop_id map_append)
  have d: "distinct (map key (take n xs) @ map key (drop n xs))" using assms(2) by (metis append_take_drop_id map_append)
  have "key (last (take n xs)) \<le> key y" using s l y by (auto simp: sorted_append)
  moreover have "key (last (take n xs)) \<noteq> key y" using d l y by (auto simp: image_def)
  ultimately show ?thesis by simp
qed

lemma load_pages_effect:
  assumes "db_ok (hh_db h)" "load_pages hs after h = (e, h')"
  shows "hh_db h' = hh_db h \<and> learns (hr_name ` set (db_harnesses (hh_db h))) (hh_registry h) (hh_registry h')
    \<and> (case e of None \<Rightarrow> \<forall>r \<in> set (db_harnesses (hh_db h)). after < hr_name r \<longrightarrow> Has (hh_registry h') (hr_name r) | Some _ \<Rightarrow> True)"
  using assms
proof (induction hs after h arbitrary: h' rule: load_pages.induct)
  case (1 hs after h)
  let ?rows = "sort_key hr_name (filter (\<lambda>r. hr_name r > after \<and> True) (db_harnesses (hh_db h)))"
  let ?recs = "take (nat MaxPageSize) ?rows"
  have l: "ListHarnesses \<lparr>hl_after = after, hl_limit = MaxPageSize, hl_includeRetired = True\<rparr> (hh_db h) = Inr ?recs"
    by (simp add: ListHarnesses_def MaxPageSize_def)
  obtain x h1 where a: "load_all hs ?recs h = (x, h1)" by fastforce
  have db: "hh_db h1 = hh_db h" by (rule load_all_db [OF a])
  have sub: "hr_name ` set ?recs \<subseteq> hr_name ` set (db_harnesses (hh_db h))" by (auto dest: in_set_takeD)
  have le: "learns (hr_name ` set (db_harnesses (hh_db h))) (hh_registry h) (hh_registry h1)"
    using load_all_effect [OF a] sub learns_mono by blast
  show ?case
  proof (cases x)
    case (Some y)
    then have "e = Some y" "h' = h1" using "1.prems"(2) l a by (subst (asm) load_pages.simps, simp)+
    then show ?thesis using db le by simp
  next
    case None
    note seen = load_all_effect [OF a, unfolded None, simplified]
    show ?thesis
    proof (cases "int (length ?recs) < MaxPageSize")
      case True
      then have r: "e = None" "h' = h1" using "1.prems"(2) l a None by (subst (asm) load_pages.simps, simp)+
      have "?recs = ?rows" using True by (simp add: MaxPageSize_def)
      then have "set ?recs = {r \<in> set (db_harnesses (hh_db h)). after < hr_name r}" by auto
      then show ?thesis using r db le seen by auto
    next
      case False
      let ?last = "hr_name (last ?recs)"
      have c: "load_pages hs ?last h1 = (e, h')" using "1.prems"(2) l a None False by (subst (asm) load_pages.simps, simp)
      have ih: "hh_db h' = hh_db h1 \<and> learns (hr_name ` set (db_harnesses (hh_db h1))) (hh_registry h1) (hh_registry h')
        \<and> (case e of None \<Rightarrow> \<forall>r \<in> set (db_harnesses (hh_db h1)). ?last < hr_name r \<longrightarrow> Has (hh_registry h') (hr_name r) | Some _ \<Rightarrow> True)"
        using "1.IH" [OF l a [symmetric, unfolded None] refl False _ c] db "1.prems"(1) a None by auto
      have d: "distinct (map hr_name ?rows)" using "1.prems"(1)
        by (auto simp: db_ok_def distinct_map intro: inj_on_subset)
      have "Has (hh_registry h') (hr_name r)" if "e = None" "r \<in> set (db_harnesses (hh_db h))" "after < hr_name r" for r
      proof (cases "r \<in> set ?recs")
        case True
        then show ?thesis using seen ih by (auto simp: learns_def)
      next
        case out: False
        have "0 < int (length ?recs)" using False unfolding MaxPageSize_def by linarith
        then have ne: "?recs \<noteq> []" by (simp only: of_nat_0_less_iff length_greater_0_conv not_False_eq_True)
        have "?last < hr_name r"
          by (rule page_splits [OF _ d ne _ out]) (use that in auto)
        then show ?thesis using ih that db by auto
      qed
      moreover have "learns (hr_name ` set (db_harnesses (hh_db h))) (hh_registry h) (hh_registry h')"
        using learns_trans_same [OF le] ih db by simp
      ultimately show ?thesis using ih db by (auto split: option.splits)
    qed
  qed
qed

text \<open>
  The release functions that the factory hands out are accounted for: each has run or is kept for \<^verbatim>\<open>Close\<close>, once.
\<close>

definition accounted :: "harness_state \<Rightarrow> harness_state \<Rightarrow> bool" where
  "accounted h h' \<longleftrightarrow> (\<exists>new. hh_built h' = hh_built h @ new
     \<and> mset (hh_released h') + mset (hh_releases h') = mset (hh_released h) + mset (hh_releases h) + mset new)"

lemma accounted_refl [simp]: "accounted h h"
  by (simp add: accounted_def)

lemma accounted_trans: "accounted h h1 \<Longrightarrow> accounted h1 h2 \<Longrightarrow> accounted h h2"
  unfolding accounted_def by (elim exE conjE, rename_tac a b, rule_tac x = "a @ b" in exI) simp

lemma load_registration_accounted: "load_registration hs rec h = (e, h') \<Longrightarrow> accounted h h'"
  by (auto simp: accounted_def load_registration_def mark_unavailable_def add_placer_def call_factory_def run_release_def
      keep_release_def split: sum.splits option.splits prod.splits if_splits)

lemma load_all_accounted: "load_all hs recs h = (e, h') \<Longrightarrow> accounted h h'"
proof (induction recs arbitrary: h)
  case (Cons r recs)
  then show ?case
    by (auto split: prod.splits option.splits dest: load_registration_accounted intro: accounted_trans [OF load_registration_accounted])
qed simp

lemma load_pages_accounted: "load_pages hs after h = (e, h') \<Longrightarrow> accounted h h'"
proof (induction hs after h arbitrary: h' rule: load_pages.induct)
  case (1 hs after h)
  show ?case
    using "1.prems" unfolding load_pages.simps [of hs after h]
    by (auto split: sum.splits prod.splits option.splits if_splits dest: load_all_accounted "1.IH"
        intro: accounted_trans [OF load_all_accounted])
qed

section \<open>Calls\<close>

text \<open>
  The host's static and reserved names are reserved in the store, and what it has learnt besides has a row.
\<close>

definition host_ok :: "harness_state \<Rightarrow> bool" where
  "host_ok h \<longleftrightarrow> db_ok (hh_db h) \<and> (\<forall>n. Reserved (hh_registry h) n \<longrightarrow> db_reserved (hh_db h) n \<noteq> None)
     \<and> (\<forall>n. Has (hh_registry h) n \<longrightarrow> Static (hh_registry h) n \<or> harness_of n (hh_db h) \<noteq> None)"

lemma Static_learns: "learns N r r' \<Longrightarrow> Static r' n \<longleftrightarrow> Static r n"
  by (simp add: learns_def Static_def)

lemma row_known: "r \<in> set (db_harnesses db) \<Longrightarrow> harness_of (hr_name r) db \<noteq> None"
  by (auto simp: harness_of_def row_where_def find_None_iff)

lemma host_ok_step:
  assumes "host_ok h" "db_ok (hh_db h')" "registry_grows (hh_db h) (hh_db h')" "learns N (hh_registry h) (hh_registry h')"
    "\<And>n. n \<in> N \<Longrightarrow> harness_of n (hh_db h') \<noteq> None"
  shows "host_ok h'"
proof -
  have "db_reserved (hh_db h') n \<noteq> None" if "Reserved (hh_registry h') n" for n
    using that assms(1,3) learns_reserved [OF assms(4)] by (auto simp: host_ok_def registry_grows_def)
  moreover have "Static (hh_registry h') n \<or> harness_of n (hh_db h') \<noteq> None" if "Has (hh_registry h') n" for n
    using that assms(1,3,4,5) Static_learns [OF assms(4)] unfolding host_ok_def learns_def registry_grows_def
    by (metis option.exhaust option.distinct(1))
  ultimately show ?thesis using assms(2) by (simp add: host_ok_def)
qed

text \<open>What registering does, branch by branch.\<close>

lemma build_placer_effect:
  assumes "build_placer hs name spec h = (res, h')"
  shows "hh_db h' = hh_db h \<and> hh_registry h' = hh_registry h \<and> hh_releases h' = hh_releases h"
  using assms by (auto simp: build_placer_def split: if_splits prod.splits option.splits dest!: call_factory_views)

lemma RegisterHarness_row:
  assumes "RegisterHarness env rec db = (Inr (r, result), db')"
  shows "hr_name r = hr_name rec \<and> hr_specDigest r = hr_specDigest rec \<and> hr_state r = HarnessActive \<and> harness_of (hr_name rec) db' = Some r"
  using assms
proof (cases rule: RegisterHarness_cases)
  case (created now t)
  then show ?thesis by (auto simp: active_row_def harness_of_def row_where_append row_where_Cons)
next
  case (unchanged r t)
  then show ?thesis by (auto simp: harness_of_name, simp add: harness_of_def)
next
  case (reactivated r now t)
  have n: "\<And>r. hr_name (reactivated_row now r) = hr_name r" by (simp add: reactivated_row_def)
  from reactivated show ?thesis
    by (auto simp: harness_of_name reactivated_row_def) (simp add: harness_of_def update_harness_def row_where_update_where n reactivated_row_def)
qed auto

text \<open>The release function of the Placer that a registration builds, if it builds one.\<close>

definition built_release :: "harness_service \<Rightarrow> string \<Rightarrow> pb_harness_spec \<Rightarrow> harness_state \<Rightarrow> nat list" where
  "built_release hs name spec h =
     (if Has (hh_registry h) name then []
      else case fa_release (fst (hs_factory hs (hh_tick h) name spec (hh_heap h))) of None \<Rightarrow> [] | Some f \<Rightarrow> [f])"

lemma build_placer_release:
  assumes "build_placer hs name spec h = (res, h')"
  shows "case res of Inl _ \<Rightarrow> hh_released h' = hh_released h @ built_release hs name spec h
    | Inr None \<Rightarrow> Has (hh_registry h) name \<and> hh_released h' = hh_released h \<and> built_release hs name spec h = []
    | Inr (Some x) \<Rightarrow> hh_released h' = hh_released h
        \<and> built_release hs name spec h = (case fa_release x of None \<Rightarrow> [] | Some f \<Rightarrow> [f])"
  using assms
  by (auto simp: build_placer_def built_release_def call_factory_def run_release_def split: if_splits prod.splits option.splits)

lemma drop_built_released: "hh_released (drop_built b h) = hh_released h @ (case b of None \<Rightarrow> []
    | Some x \<Rightarrow> (case fa_release x of None \<Rightarrow> [] | Some f \<Rightarrow> [f]))"
  by (simp add: drop_built_def run_release_def split: option.split)

lemma keep_release_releases: "hh_releases (keep_release f h) = hh_releases h @ (case f of None \<Rightarrow> [] | Some x \<Rightarrow> [x])"
  by (simp add: keep_release_def split: option.split)

lemma store_registration_effect:
  assumes "store_registration hs name canonical digest built h = (res, h')" "db_ok (hh_db h)"
    "built = None \<longrightarrow> Has (hh_registry h) name"
  shows "db_ok (hh_db h') \<and> registry_grows (hh_db h) (hh_db h') \<and>
    (let f = (case built of None \<Rightarrow> [] | Some x \<Rightarrow> (case fa_release x of None \<Rightarrow> [] | Some f \<Rightarrow> [f])) in
     case res of
       Inl e \<Rightarrow> hh_registry h' = hh_registry h \<and> hh_releases h' = hh_releases h \<and> hh_released h' = hh_released h @ f
     | Inr (reg, outcome) \<Rightarrow> learns {name} (hh_registry h) (hh_registry h') \<and> Has (hh_registry h') name
         \<and> hh_releases h' = hh_releases h @ f \<and> hh_released h' = hh_released h
         \<and> (\<exists>r. harness_of name (hh_db h') = Some r \<and> hr_specDigest r = digest \<and> hr_state r = HarnessActive
            \<and> reg = registrationProto hs r (hh_registry h')))"
proof -
  let ?rec = "\<lparr>hr_name = name, hr_uid = fst (newHarnessUID hs h), hr_spec = canonical, hr_specDigest = digest,
             hr_state = HarnessStateOther [], hr_retireReason = [], hr_retiredAt = 0, hr_createdAt = 0, hr_updatedAt = 0\<rparr>"
  let ?h1 = "snd (newHarnessUID hs h)"
  have n: "hh_db ?h1 = hh_db h" "hh_registry ?h1 = hh_registry h" "hh_releases ?h1 = hh_releases h" "hh_released ?h1 = hh_released h"
    by (simp_all add: newHarnessUID_def)
  obtain q db where r: "RegisterHarness (hs_env hs) ?rec (hh_db h) = (q, db)" by fastforce
  note eff = RegisterHarness_effect [OF assms(2) r]
  show ?thesis
  proof (cases q)
    case (Inl e)
    then show ?thesis using assms(1) r n eff
      by (auto simp: store_registration_def case_prod_unfold Let_def drop_built_released split: prod.splits)
  next
    case (Inr x)
    obtain rec result where x: "x = (rec, result)" by fastforce
    note row = RegisterHarness_row [OF r [unfolded Inr x], simplified]
    show ?thesis
    proof (cases built)
      case None
      then show ?thesis using assms(1,3) r n eff row Inr x
        by (auto simp: store_registration_def case_prod_unfold Let_def)
    next
      case (Some b)
      obtain e h3 where a: "add_placer name (fa_placer b) (?h1\<lparr>hh_db := db\<rparr>) = (e, h3)" by fastforce
      from add_placer_effect [OF a] show ?thesis using assms(1) r n eff row Inr x Some a
        by (auto simp: store_registration_def case_prod_unfold Let_def drop_built_released keep_release_releases split: option.splits)
    qed
  qed
qed

lemma ReserveHarnessNames_done:
  assumes ok: "db_ok db" and "ReserveHarnessNames env names db = (Inr u, db')"
  shows "\<forall>n \<in> set names. db_reserved db' n \<noteq> None"
proof -
  let ?w = "wrap_error ''sqlitelog: reserve harness names''"
  from assms(2) have "with_tx env ?w ?w (\<lambda>db. let (now, db) = sql_now env db in reserve_names now names db) db = (Inr u, db')"
    by (simp add: ReserveHarnessNames_def Let_def)
  then show ?thesis
  proof (cases rule: with_tx_cases)
    case (committed x db2)
    let ?db1 = "db\<lparr>db_clock := Suc (Suc (db_clock db))\<rparr>"
    from committed(2) have "reserve_names (sq_now env (Suc (db_clock db))) names ?db1 = (Inr x, db2)"
      by (simp add: sql_now_def)
    from reserve_names_effect [OF _ this] ok committed(3) show ?thesis by auto
  qed auto
qed

lemma reserved_names: "Reserved r n \<longleftrightarrow> n \<in> set (ReservedNames r)"
  by (auto simp: Reserved_def ReservedNames_def StaticNames_def)

lemma Static_Reserved: "Static r n \<Longrightarrow> Reserved r n"
  by (simp add: Static_def Reserved_def)

lemma reserved_no_row: "db_ok db \<Longrightarrow> db_reserved db n \<noteq> None \<Longrightarrow> harness_of n db = None"
  unfolding db_ok_def harness_of_def row_where_def by (auto simp: find_None_iff)

lemma Close_views [simp]:
  "hh_db (Close_releases h) = hh_db h" "hh_registry (Close_releases h) = hh_registry h" "hh_releases (Close_releases h) = []"
  by (simp_all add: Close_releases_def)

lemma NewHarnessRegistry_effect:
  assumes ok: "db_ok (hh_db h)" and "NewHarnessRegistry hs h = (e, h')"
  shows "db_ok (hh_db h') \<and> db_harnesses (hh_db h') = db_harnesses (hh_db h)
    \<and> learns (hr_name ` set (db_harnesses (hh_db h'))) (hh_registry h) (hh_registry h')
    \<and> (case e of None \<Rightarrow> (\<forall>n. Reserved (hh_registry h') n \<longrightarrow> db_reserved (hh_db h') n \<noteq> None)
           \<and> (\<forall>r \<in> set (db_harnesses (hh_db h')). hr_name r \<noteq> [] \<longrightarrow> Has (hh_registry h') (hr_name r))
       | Some _ \<Rightarrow> hh_releases h' = [] \<or> hh_releases h' = hh_releases h \<and> hh_registry h' = hh_registry h)"
proof -
  obtain q db where r: "ReserveHarnessNames (hs_env hs) (ReservedNames (hh_registry h)) (hh_db h) = (q, db)" by fastforce
  note eff = ReserveHarnessNames_effect [OF ok r]
  show ?thesis
  proof (cases q)
    case (Inl x)
    then show ?thesis using assms(2) r eff by (auto simp: NewHarnessRegistry_def ReserveStaticHarnessNames_def)
  next
    case (Inr u)
    let ?h1 = "h\<lparr>hh_db := db\<rparr>"
    obtain y h2 where l: "load_pages hs [] ?h1 = (y, h2)" by fastforce
    have "db_ok (hh_db ?h1)" using eff by simp
    note pages = load_pages_effect [OF this l]
    have pos: "[] < hr_name r" if "hr_name r \<noteq> []" for r using that by (cases "hr_name r") auto
    have rsv: "db_reserved db n \<noteq> None" if "Reserved (hh_registry h) n" for n
      using ReserveHarnessNames_done [OF ok r [unfolded Inr]] that by (simp add: reserved_names)
    show ?thesis
    proof (cases y)
      case (Some x)
      then show ?thesis using assms(2) r Inr l pages eff
        by (auto simp: NewHarnessRegistry_def ReserveStaticHarnessNames_def)
    next
      case None
      then have h': "e = None" "h' = h2" using assms(2) r Inr l by (auto simp: NewHarnessRegistry_def ReserveStaticHarnessNames_def)
      have res: "\<forall>n. Reserved (hh_registry h') n \<longrightarrow> db_reserved (hh_db h') n \<noteq> None"
        using rsv pages h' learns_reserved [of _ "hh_registry h" "hh_registry h2"] by auto
      show ?thesis using pages eff h' None res pos by auto
    qed
  qed
qed

text \<open>What start-up does with the release functions it was given, by how it ends.\<close>

definition started_or_undone :: "harness_state \<Rightarrow> goerr option \<Rightarrow> harness_state \<Rightarrow> bool" where
  "started_or_undone h e h' \<longleftrightarrow> (\<exists>new. hh_built h' = hh_built h @ new \<and>
     (case e of
        None \<Rightarrow> mset (hh_released h') + mset (hh_releases h') = mset (hh_released h) + mset (hh_releases h) + mset new
      | Some _ \<Rightarrow>
          hh_releases h' = [] \<and> mset (hh_released h') = mset (hh_released h) + mset (hh_releases h) + mset new
          \<or> new = [] \<and> hh_releases h' = hh_releases h \<and> hh_released h' = hh_released h \<and> hh_registry h' = hh_registry h))"

lemma NewHarnessRegistry_releases:
  assumes "NewHarnessRegistry hs h = (e, h')"
  shows "started_or_undone h e h'"
proof -
  obtain a h1 where a: "ReserveStaticHarnessNames hs h = (a, h1)" by fastforce
  have h1: "hh_built h1 = hh_built h" "hh_releases h1 = hh_releases h" "hh_released h1 = hh_released h" "hh_registry h1 = hh_registry h"
    using a by (auto simp: ReserveStaticHarnessNames_def split: sum.splits prod.splits)
  obtain b h2 where b: "load_pages hs [] h1 = (b, h2)" by fastforce
  from load_pages_accounted [OF b] obtain new where new: "hh_built h2 = hh_built h @ new"
    "mset (hh_released h2) + mset (hh_releases h2) = mset (hh_released h) + mset (hh_releases h) + mset new"
    by (auto simp: accounted_def h1)
  show ?thesis
  proof (cases "a = None")
    case True
    then have "e = b" "h' = (if b = None then h2 else Close_releases h2)"
      using assms a b by (auto simp: NewHarnessRegistry_def split: option.splits)
    then show ?thesis using new by (auto simp: started_or_undone_def Close_releases_def split: option.split)
  next
    case False
    then have "e = a" "h' = h1" using assms a by (auto simp: NewHarnessRegistry_def)
    then show ?thesis using h1 False by (auto simp: started_or_undone_def)
  qed
qed

lemma registry_sub: "db_harnesses db' = db_harnesses db \<Longrightarrow> harness_of n db' = harness_of n db"
  by (simp add: harness_of_def)

section \<open>Admin calls in sequence\<close>

text \<open>Calls of the service, and calls of the store by the Sessions service or by other hosts that share the database.\<close>

datatype admin_call =
    AdminRegister string "pb_harness_spec option"
  | AdminRetire string string
  | AdminGet string bool
  | AdminStore sql_env db_call

fun admin_step :: "harness_service \<Rightarrow> admin_call \<Rightarrow> harness_state \<Rightarrow> harness_state" where
  "admin_step hs (AdminRegister name spec) h = snd (HarnessRegistry_RegisterHarness hs name spec h)"
| "admin_step hs (AdminRetire name reason) h = snd (HarnessRegistry_RetireHarness hs name reason h)"
| "admin_step hs (AdminGet name live) h = snd (HarnessRegistry_GetHarness hs name live h)"
| "admin_step hs (AdminStore env c) h = h\<lparr>hh_db := db_step env c (hh_db h)\<rparr>"

definition admin_run :: "harness_service \<Rightarrow> admin_call list \<Rightarrow> harness_state \<Rightarrow> harness_state" where
  "admin_run hs calls h = fold (admin_step hs) calls h"

lemma register_effect:
  assumes "HarnessRegistry_RegisterHarness hs name spec h = (res, h')" and ok: "db_ok (hh_db h)"
  shows "db_ok (hh_db h') \<and> registry_grows (hh_db h) (hh_db h') \<and>
    (case res of
       Inl e \<Rightarrow> hh_registry h' = hh_registry h \<and> hh_releases h' = hh_releases h
         \<and> (h' = h \<or> hh_released h' = hh_released h @ built_release hs name (the spec) h)
     | Inr (reg, outcome) \<Rightarrow> learns {name} (hh_registry h) (hh_registry h') \<and> Has (hh_registry h') name
         \<and> hh_releases h' = hh_releases h @ built_release hs name (the spec) h \<and> hh_released h' = hh_released h
         \<and> \<not> Reserved (hh_registry h) name
         \<and> (\<exists>c r. specDigest hs (the spec) = Inr (c, hr_specDigest r) \<and> harness_of name (hh_db h') = Some r
             \<and> hr_state r = HarnessActive \<and> reg = registrationProto hs r (hh_registry h')))"
proof (cases "register_admit hs name spec (hh_registry h)")
  case (Inl e)
  then show ?thesis using assms by (auto simp: HarnessRegistry_RegisterHarness_def registry_grows_refl)
next
  case (Inr x)
  obtain sp canonical digest where x: "x = (sp, canonical, digest)" by (metis surj_pair)
  have sp: "sp = the spec" "specDigest hs sp = Inr (canonical, digest)" "\<not> Reserved (hh_registry h) name"
    using Inr x by (auto simp: register_admit_def split: option.splits if_splits sum.splits prod.splits)
  let ?pre = "case Harness name (hh_db h) of
              Inr rec \<Rightarrow> if hr_specDigest rec \<noteq> digest
                then Some (ErrStatus CodeAlreadyExists (''harness '' @ format_q name @ '' holds spec '' @ hr_specDigest rec
                       @ '', request is '' @ digest @ ''; registrations are immutable, use a new name'')) else None
            | Inl e \<Rightarrow> if errors_is e ErrHarnessNotFound then None else Some (statusf CodeInternal ''register: '' e [])"
  show ?thesis
  proof (cases ?pre)
    case (Some e)
    then have "res = Inl e" "h' = h" using assms(1) Inr x by (simp_all add: HarnessRegistry_RegisterHarness_def)
    then show ?thesis using ok by (simp add: registry_grows_refl)
  next
    case None
    obtain b h1 where b: "build_placer hs name sp h = (b, h1)" by fastforce
    note be = build_placer_effect [OF b] build_placer_release [OF b]
    have st: "(case b of Inl e \<Rightarrow> (Inl e, h1) | Inr built \<Rightarrow> store_registration hs name canonical digest built h1) = (res, h')"
      using assms(1) Inr x None b by (simp add: HarnessRegistry_RegisterHarness_def)
    show ?thesis
    proof (cases b)
      case (Inl e)
      then show ?thesis using st be sp(1) ok by (auto simp: registry_grows_refl)
    next
      case (Inr built)
      then have s: "store_registration hs name canonical digest built h1 = (res, h')" using st by simp
      have f: "(case built of None \<Rightarrow> [] | Some x \<Rightarrow> (case fa_release x of None \<Rightarrow> [] | Some f \<Rightarrow> [f])) = built_release hs name (the spec) h"
        "hh_released h1 = hh_released h" "built = None \<longrightarrow> Has (hh_registry h1) name"
        using be(2) Inr sp(1) be(1) by (auto split: option.splits)
      from store_registration_effect [OF s _ f(3)] ok be(1) f(1,2) sp show ?thesis
        by (auto simp: Let_def split: sum.splits)
    qed
  qed
qed

lemma admin_step_ok:
  assumes "host_ok h"
  shows "host_ok (admin_step hs c h) \<and> (\<exists>N. learns N (hh_registry h) (hh_registry (admin_step hs c h)))"
proof -
  have ok: "db_ok (hh_db h)" using assms by (simp add: host_ok_def)
  show ?thesis
  proof (cases c)
    case (AdminRegister name spec)
    obtain res h' where r: "HarnessRegistry_RegisterHarness hs name spec h = (res, h')" by fastforce
    note e = register_effect [OF r ok]
    show ?thesis
    proof (cases res)
      case (Inl x)
      then show ?thesis using host_ok_step [OF assms, of h' "{}"] e r AdminRegister by auto
    next
      case (Inr x)
      then show ?thesis using host_ok_step [OF assms, of h' "{name}"] e r AdminRegister by (cases x) auto
    qed
  next
    case (AdminRetire name reason)
    obtain q db where r: "RetireHarness (hs_env hs) name reason (hh_db h) = (q, db)" by fastforce
    have "db_ok db \<and> registry_grows (hh_db h) db"
      using db_step_effect(1,4) [OF ok, of "hs_env hs" "DbRetireHarness name reason"] r by simp
    then have "host_ok (h\<lparr>hh_db := db\<rparr>)" using host_ok_step [OF assms, of "h\<lparr>hh_db := db\<rparr>" "{}"] by simp
    then have "host_ok (snd (HarnessRegistry_RetireHarness hs name reason h)) \<and>
        hh_registry (snd (HarnessRegistry_RetireHarness hs name reason h)) = hh_registry h"
      using assms r by (auto simp: HarnessRegistry_RetireHarness_def split: sum.splits)
    then show ?thesis using AdminRetire by (metis admin_step.simps(2) learns_refl)
  next
    case (AdminGet name live)
    have "host_ok (snd (HarnessRegistry_GetHarness hs name live h)) \<and>
        hh_registry (snd (HarnessRegistry_GetHarness hs name live h)) = hh_registry h"
      using assms by (auto simp: HarnessRegistry_GetHarness_def host_ok_def split: sum.splits if_splits)
    then show ?thesis using AdminGet by (metis admin_step.simps(3) learns_refl)
  next
    case (AdminStore env d)
    have "host_ok (h\<lparr>hh_db := db_step env d (hh_db h)\<rparr>)"
      using host_ok_step [OF assms, of "h\<lparr>hh_db := db_step env d (hh_db h)\<rparr>" "{}"] db_step_effect(1,4) [OF ok, of env d] by simp
    then show ?thesis using AdminStore learns_refl by auto
  qed
qed

lemma admin_run_ok:
  assumes "host_ok h"
  shows "host_ok (admin_run hs calls h) \<and> (\<exists>N. learns N (hh_registry h) (hh_registry (admin_run hs calls h)))"
  using assms
proof (induction calls arbitrary: h)
  case Nil
  then show ?case using learns_refl by (auto simp: admin_run_def)
next
  case (Cons c calls)
  from Cons.IH [of "admin_step hs c h"] admin_step_ok [OF Cons.prems, of hs c] show ?case
    by (auto simp: admin_run_def dest: learns_trans)
qed

section \<open>Properties\<close>

text \<open>
  (C30) Start-up is complete or undone.  When \<^verbatim>\<open>NewHarnessRegistry\<close> succeeds, the host knows every registration in
  the journal, retired ones included, on however many pages the store lists them: each name resolves or
  is known as unservable; and every name the host holds for a static harness is reserved in the store.
  No row has changed.  As to the release functions that the factory returned during the call, whether it returned
  them with a Placer or with an error: when start-up succeeds, each has run or is kept for \<^verbatim>\<open>Close\<close>, once; when it
  fails while loading, each of them has run once, with those the service kept before, and none is kept; when
  it fails before, because the names could not be reserved, the factory was not asked.
\<close>

theorem startup_knows_every_registration:
  assumes "db_ok (hh_db h)" and "NewHarnessRegistry hs h = (e, h')"
  shows "db_harnesses (hh_db h') = db_harnesses (hh_db h) \<and>
    (case e of
       None \<Rightarrow> (\<forall>r \<in> set (db_harnesses (hh_db h')). hr_name r \<noteq> [] \<longrightarrow> Has (hh_registry h') (hr_name r))
         \<and> (\<forall>n. Reserved (hh_registry h') n \<longrightarrow> db_reserved (hh_db h') n \<noteq> None)
     | Some _ \<Rightarrow> hh_releases h' = [] \<or> hh_releases h' = hh_releases h \<and> hh_registry h' = hh_registry h)
    \<and> started_or_undone h e h'"
  using NewHarnessRegistry_effect [OF assms] NewHarnessRegistry_releases [OF assms(2)] by (simp split: option.splits)

text \<open>
  (C29) One name, one harness.  A host starts with the static harnesses of its configuration and loads the journal's
  registrations; then registrations, retirements and lookups arrive, and the Sessions service and other
  hosts use the database.  At every moment a name the host holds for a static harness has no registration
  row, by whichever host, and every other name it resolves or knows has one; and a name that resolved to
  a Placer after start-up still resolves to it.
\<close>

theorem one_name_one_harness:
  fixes calls :: "admin_call list"
  assumes "db_ok (hh_db h)" and "\<forall>n. Has (hh_registry h) n \<longrightarrow> Static (hh_registry h) n"
    and "NewHarnessRegistry hs h = (None, h1)"
  defines "h2 \<equiv> admin_run hs calls h1"
  shows "(if Reserved (hh_registry h2) n then harness_of n (hh_db h2) = None
      else if Has (hh_registry h2) n then harness_of n (hh_db h2) \<noteq> None else True)
    \<and> (case For (hh_registry h1) n of Inr k \<Rightarrow> For (hh_registry h2) n = Inr k | Inl _ \<Rightarrow> True)"
proof -
  note e = NewHarnessRegistry_effect [OF assms(1,3), simplified]
  have "Static (hh_registry h1) m \<or> harness_of m (hh_db h1) \<noteq> None" if "Has (hh_registry h1) m" for m
  proof -
    from e have l: "learns (hr_name ` set (db_harnesses (hh_db h1))) (hh_registry h) (hh_registry h1)" by blast
    from that l consider "Has (hh_registry h) m" | "m \<in> hr_name ` set (db_harnesses (hh_db h1))" unfolding learns_def by blast
    then show ?thesis
      by cases (use assms(2) Static_learns [OF l] row_known in blast)+
  qed
  then have "host_ok h1" using e by (simp add: host_ok_def)
  from admin_run_ok [OF this, of hs calls] obtain N where ok: "host_ok h2" and l: "learns N (hh_registry h1) (hh_registry h2)"
    unfolding h2_def by blast
  have "harness_of n (hh_db h2) = None" if "Reserved (hh_registry h2) n"
    using that ok reserved_no_row by (simp add: host_ok_def)
  moreover have "harness_of n (hh_db h2) \<noteq> None" if "Has (hh_registry h2) n" "\<not> Reserved (hh_registry h2) n"
    using that ok Static_Reserved unfolding host_ok_def by blast
  ultimately show ?thesis using l by (simp add: learns_def split: sum.split)
qed

text \<open>
  (C31) A registration takes effect on the host or gives back what it built.  When \<^verbatim>\<open>RegisterHarness\<close> succeeds, the row
  is active under the digest of the requested spec, the name resolves or is known, no other name has
  changed, and the Placer built for it, if the name was new here, is kept for \<^verbatim>\<open>Close\<close>.  When it fails, the
  registry and the kept Placers are as they were, and a Placer that was built has been released, also when
  the store or another host refused the row after it was built.
\<close>

theorem registration_takes_effect_or_gives_back:
  assumes "db_ok (hh_db h)" and "HarnessRegistry_RegisterHarness hs name spec h = (res, h')"
  shows "case res of
      Inl e \<Rightarrow> hh_registry h' = hh_registry h \<and> hh_releases h' = hh_releases h
        \<and> (h' = h \<or> hh_released h' = hh_released h @ built_release hs name (the spec) h)
    | Inr (reg, outcome) \<Rightarrow> learns {name} (hh_registry h) (hh_registry h') \<and> Has (hh_registry h') name
        \<and> hh_releases h' = hh_releases h @ built_release hs name (the spec) h \<and> hh_released h' = hh_released h
        \<and> (\<exists>c r. specDigest hs (the spec) = Inr (c, hr_specDigest r) \<and> harness_of name (hh_db h') = Some r
            \<and> hr_state r = HarnessActive \<and> reg = registrationProto hs r (hh_registry h'))"
proof (cases res)
  case (Inl e)
  show ?thesis using register_effect [OF assms(2,1)] unfolding Inl sum.case by blast
next
  case (Inr x)
  obtain reg outcome where x: "x = (reg, outcome)" by fastforce
  show ?thesis using register_effect [OF assms(2,1)] unfolding Inr x sum.case prod.case by blast
qed

section \<open>A host\<close>

definition sample_harness_spec :: pb_harness_spec where
  "sample_harness_spec = \<lparr>hsp_placement = Some (RemotePlacement ''127.0.0.1:9''),
     hsp_capabilities = Some \<lparr>pc_resumability = 1, pc_forkSafe = True, pc_requiresGpu = False, pc_streaming = False,
       pc_reasoningReplay = False\<rparr>, hsp_descriptorId = []\<rparr>"

definition sample_factory :: harness_service where
  "sample_factory = \<lparr>hs_env = sample_sql,
     hs_factory = (\<lambda>t name spec heap. case new_placer heap of (p, heap') \<Rightarrow> (\<lparr>fa_placer = Some p, fa_release = Some p, fa_err = None\<rparr>, heap')),
     hs_descriptorID = (\<lambda>_. []), hs_describe = (\<lambda>_ _. Inl (ErrNew ''down'')), hs_reflect = (\<lambda>_. PbReflect ''HarnessSpec'' [] []),
     hs_protojson = (\<lambda>_. Inr ''{}''), hs_unmarshalSpec = (\<lambda>_. Inr sample_harness_spec), hs_random = (\<lambda>t. [char_of t])\<rparr>"

definition sample_admin :: harness_state where
  "sample_admin = (let heap = snd (new_placer \<lparr>ph_guard = (\<lambda>_. 0), ph_sessions = (\<lambda>_. 0), ph_guards = (\<lambda>_. []),
       ph_sets = (\<lambda>_. empty_set False), ph_next = 0, ph_placers = 0\<rparr>) in
     case NewRegistry ''fixed'' [(''fixed'', Some 0)] [] heap of
       (Inr r, heap') \<Rightarrow> \<lparr>hh_db = sample_db, hh_registry = r, hh_heap = heap', hh_releases = [], hh_released = [], hh_built = [], hh_tick = 0\<rparr>)"

lemma sample_admin_parts: "hh_db sample_admin = sample_db" "\<forall>n. Has (hh_registry sample_admin) n \<longrightarrow> Static (hh_registry sample_admin) n"
  by (simp_all add: sample_admin_def NewRegistry_def new_placer_def Let_def in_progress_def empty_set_def sessionSet_busy_def
      guard_busy_def Has_def Static_def)

lemma sample_startup: "\<exists>h1. NewHarnessRegistry sample_factory sample_admin = (None, h1)"
proof -
  have "fst (NewHarnessRegistry sample_factory sample_admin) = None" by code_simp
  then show ?thesis by (metis prod.collapse)
qed

theorem startup_knows_every_registration_witness:
  "\<exists>h1. NewHarnessRegistry sample_factory sample_admin = (None, h1) \<and> db_harnesses (hh_db h1) = db_harnesses sample_db
     \<and> Has (hh_registry h1) ''h''"
proof -
  obtain h1 where s: "NewHarnessRegistry sample_factory sample_admin = (None, h1)" using sample_startup by blast
  have "''h'' \<in> set (map hr_name (db_harnesses sample_db))" by code_simp
  with startup_knows_every_registration [OF _ s] s sample_admin_parts(1) sample_db_ok show ?thesis by fastforce
qed

text \<open>Retiring a harness, and an attempt of another host to register the static name.\<close>

definition sample_calls :: "admin_call list" where
  "sample_calls = [AdminRetire ''h'' ''old'',
     AdminStore sample_sql (DbRegisterHarness (sample_registration\<lparr>hr_name := ''fixed''\<rparr>))]"

theorem one_name_one_harness_witness:
  "\<exists>h1. NewHarnessRegistry sample_factory sample_admin = (None, h1)
     \<and> harness_of ''fixed'' (hh_db (admin_run sample_factory sample_calls h1)) = None"
proof -
  obtain h1 where s: "NewHarnessRegistry sample_factory sample_admin = (None, h1)" using sample_startup by blast
  have "Reserved (hh_registry (admin_run sample_factory sample_calls (snd (NewHarnessRegistry sample_factory sample_admin)))) ''fixed''"
    by code_simp
  with one_name_one_harness [OF _ sample_admin_parts(2) s, of sample_calls "''fixed''"] s sample_admin_parts(1) sample_db_ok
  show ?thesis by (intro exI [of _ h1]) simp
qed

theorem registration_takes_effect_or_gives_back_witness:
  "\<exists>reg outcome h'. HarnessRegistry_RegisterHarness sample_factory ''k'' (Some sample_harness_spec) sample_admin = (Inr (reg, outcome), h')
     \<and> Has (hh_registry h') ''k'' \<and> hh_releases h' = [1]"
proof -
  let ?b = "build_placer sample_factory ''k'' sample_harness_spec sample_admin"
  let ?built = "\<lparr>fa_placer = Some 1, fa_release = Some 1, fa_err = None\<rparr>"
  let ?d = "''sha256:'' @ hex_encode (CHR ''#'' # ''{}'')"
  let ?s = "store_registration sample_factory ''k'' ''{}'' ?d (Some ?built) (snd ?b)"
  have ev: "register_admit sample_factory ''k'' (Some sample_harness_spec) (hh_registry sample_admin) = Inr (sample_harness_spec, ''{}'', ?d)"
    "map_sum (\<lambda>e. errors_is e ErrHarnessNotFound) (\<lambda>_. ()) (Harness ''k'' (hh_db sample_admin)) = Inl True"
    "fst ?b = Inr (Some ?built)" "\<not> isl (fst ?s)"
    "built_release sample_factory ''k'' sample_harness_spec sample_admin = [1]" "hh_releases sample_admin = []"
    by code_simp+
  obtain e where h: "Harness ''k'' (hh_db sample_admin) = Inl e" "errors_is e ErrHarnessNotFound"
    using ev(2) by (cases "Harness ''k'' (hh_db sample_admin)") auto
  obtain reg outcome h' where s: "?s = (Inr (reg, outcome), h')" using ev(4) by (cases ?s; cases "fst ?s") auto
  have b: "?b = (Inr (Some ?built), snd ?b)" using ev(3) by (metis prod.collapse)
  have r: "HarnessRegistry_RegisterHarness sample_factory ''k'' (Some sample_harness_spec) sample_admin = (Inr (reg, outcome), h')"
    unfolding HarnessRegistry_RegisterHarness_def ev(1) sum.case prod.case h(1)
    using h(2) s by (subst b) simp
  from registration_takes_effect_or_gives_back [OF _ r] ev(5,6) sample_admin_parts(1) sample_db_ok r
  show ?thesis by (intro exI [of _ reg] exI [of _ outcome] exI [of _ h']) simp
qed

end
