(* ===== verification/Harness_Remote.thy ===== *)
theory Harness_Remote
  imports Harness_Wire
begin

text \<open>
  What a harness behind \<^verbatim>\<open>Harness.Connect\<close> amounts to.  \<open>remote\<close> is its specification: the harness's own run
  with every value in its wire form, ended by the first sink error.  The server, the stream and the client
  together implement exactly that.
\<close>

section \<open>The specification\<close>

text \<open>What a run returns once every call is answered with the same error.\<close>

primrec unwound :: "goerr \<Rightarrow> run \<Rightarrow> goerr option" where
  "unwound e (Return r) = r"
| "unwound e (CallModel req f) = unwound e (f (Inl e))"
| "unwound e (CallOutput d f) = unwound e (f (Some e))"
| "unwound e (CallToolCall tc f) = unwound e (f (Inl e))"
| "unwound e (CallReport tr f) = unwound e (f (Some e))"
| "unwound e (CallUsage u f) = unwound e (f (Some e))"

text \<open>What the host makes of a run that failed with \<open>e\<close>.\<close>

definition ended :: "goerr \<Rightarrow> goerr" where
  "ended e = ErrNew (''harnesswire: remote harness ended FAILED''
     @ (if error_text e = [] then [] else '': '' @ error_text e))"

definition over_call :: "struct_codec \<Rightarrow> tool_call \<Rightarrow> tool_call" where
  "over_call c tc = toolCallFromProto c (toolCallToProto c tc)"

definition over_result :: "struct_codec \<Rightarrow> tool_result \<Rightarrow> tool_result" where
  "over_result c r = toolResultFromProto c (toolResultToProto c r)"

definition over_message :: "struct_codec \<Rightarrow> message \<Rightarrow> message" where
  "over_message c m = msgFromProto c (msgToProto c m)"

definition over_request :: "struct_codec \<Rightarrow> model_request \<Rightarrow> model_request" where
  "over_request c req = req\<lparr>mr_messages := map (over_message c) (mr_messages req),
     mr_tools := ToolDefinitionsFromProto c (ToolDefinitionsToProto c (mr_tools req))\<rparr>"

definition over_response :: "struct_codec \<Rightarrow> model_response \<Rightarrow> model_response" where
  "over_response c r = \<lparr>mresp_message = over_message c (mresp_message r), mresp_usage = mresp_usage r\<rparr>"

definition over_start :: "struct_codec \<Rightarrow> start \<Rightarrow> start" where
  "over_start c st = st\<lparr>st_history := map (wire_norm c) (st_history st), st_inputs := map (over_message c) (st_inputs st)\<rparr>"

definition gated :: "tool_call \<Rightarrow> bool" where
  "gated tc \<longleftrightarrow> tc_mediation tc = MediationRequiresApproval"

text \<open>A host park for this very call.\<close>

definition park_for :: "start \<Rightarrow> tool_call \<Rightarrow> approval_ref \<Rightarrow> bool" where
  "park_for st tc ref \<longleftrightarrow> gated tc \<and> st_sessionUID st \<noteq> [] \<and> tc_id tc \<noteq> []
     \<and> ref_executionID ref = st_executionID st \<and> ref_toolCallID ref = tc_id tc \<and> ref_requestSeq ref > 0"

text \<open>
  The end of a park: the harness has returned \<open>res\<close> after every later call was answered with the park.
\<close>

definition park_outcome :: "stream_link \<Rightarrow> goerr option \<Rightarrow> goerr \<Rightarrow> approval_ref \<Rightarrow> goerr option \<Rightarrow> run" where
  "park_outcome lk ctxErr parkErr ref res =
     Return (Some (case res of
        Some e \<Rightarrow> if IsParkUnwind e ref then (case ctxErr of Some ce \<Rightarrow> ce | None \<Rightarrow> parkErr)
                  else errorf ''harnesswire: park acknowledgement: '' (lk_status lk e) []
      | None \<Rightarrow> (case ctxErr of Some ce \<Rightarrow> ce | None \<Rightarrow> parkErr)))"

definition tool_error :: "stream_link \<Rightarrow> goerr option \<Rightarrow> start \<Rightarrow> tool_call \<Rightarrow> (goerr + tool_result \<Rightarrow> run) \<Rightarrow> goerr \<Rightarrow> run" where
  "tool_error lk ctxErr st tc f e =
     (case errors_as_parked e of
        Some ref \<Rightarrow>
          if park_for st tc ref
          then park_outcome lk ctxErr e ref (unwound (ApprovalParkedError ref) (f (Inl (ApprovalParkedError ref))))
          else Return (Some (ErrNew ''harnesswire: invalid host park correlation''))
      | None \<Rightarrow> Return (Some (if errors_is e ErrApprovalParked
                              then ErrNew ''harnesswire: host park missing correlation'' else e)))"

definition checked_receipt :: "tool_call \<Rightarrow> tool_result \<Rightarrow> goerr option" where
  "checked_receipt tc res =
     (if gated tc then wire_validateApprovalReceipt (tc_id tc) (tr_approval res) res else rejectApprovalReport res)"

definition served_receipt :: "struct_codec \<Rightarrow> tool_call \<Rightarrow> tool_result \<Rightarrow> tool_result" where
  "served_receipt c tc res = (let r = over_result c res in
     if gated tc then set_tr_binding (tr_approvalRequestSeq r) (tr_approvalDecisionSeq r) (tr_approval res) r else r)"

primrec remote :: "stream_link \<Rightarrow> struct_codec \<Rightarrow> goerr option \<Rightarrow> start \<Rightarrow> run \<Rightarrow> run" where
  "remote lk c ctxErr st (Return e) = Return (map_option ended e)"
| "remote lk c ctxErr st (CallModel req f) =
     (case ToolChoiceToProto (mr_toolChoice req) of
        Inl e \<Rightarrow> remote lk c ctxErr st (f (Inl (errorf ''harnesswire: model call: '' e [])))
      | Inr _ \<Rightarrow> CallModel (over_request c req) (\<lambda>r. case r of
            Inl e \<Rightarrow> Return (Some e)
          | Inr resp \<Rightarrow> remote lk c ctxErr st (f (Inr (over_response c resp)))))"
| "remote lk c ctxErr st (CallOutput d f) =
     CallOutput d (\<lambda>r. case r of Some e \<Rightarrow> Return (Some e) | None \<Rightarrow> remote lk c ctxErr st (f None))"
| "remote lk c ctxErr st (CallToolCall tc f) =
     (if gated tc \<and> (st_sessionUID st = [] \<or> tc_id tc = [])
      then Return (Some (ended (ErrNew ''harnesswire: approval requires session and call id'')))
      else CallToolCall (over_call c tc) (\<lambda>r. case r of
          Inl e \<Rightarrow> tool_error lk ctxErr st tc f e
        | Inr res \<Rightarrow>
            (case checked_receipt tc res of
               Some e \<Rightarrow> Return (Some e)
             | None \<Rightarrow>
                 if tr_id res \<noteq> tc_id tc
                 then Return (Some (ended (result_mismatch (tr_id res) (tc_id tc))))
                 else remote lk c ctxErr st (f (Inr (served_receipt c tc res))))))"
| "remote lk c ctxErr st (CallReport tr f) =
     (case rejectApprovalReport tr of
        Some e \<Rightarrow> Return (Some (ended e))
      | None \<Rightarrow> CallReport (over_result c tr) (\<lambda>r. case r of Some e \<Rightarrow> Return (Some e) | None \<Rightarrow> remote lk c ctxErr st (f None)))"
| "remote lk c ctxErr st (CallUsage u f) =
     CallUsage u (\<lambda>r. case r of Some e \<Rightarrow> Return (Some e) | None \<Rightarrow> remote lk c ctxErr st (f None))"

section \<open>What the conversions keep\<close>

lemma toolCallFromProto_to [simp]:
  "tc_id (toolCallFromProto c (toolCallToProto c tc)) = tc_id tc"
  "tc_mediation (toolCallFromProto c (toolCallToProto c tc)) = MediationRequiresApproval \<longleftrightarrow>
     tc_mediation tc = MediationRequiresApproval"
  by (simp_all add: toolCallFromProto_def toolCallToProto_def) (cases "tc_mediation tc"; simp)

lemma toolResultFromProto_to [simp]:
  "tr_id (toolResultFromProto c (toolResultToProto c r)) = tr_id r"
  "tr_isError (toolResultFromProto c (toolResultToProto c r)) = tr_isError r"
  "tr_code (toolResultFromProto c (toolResultToProto c r)) = tr_code r"
  "tr_approvalRequestSeq (toolResultFromProto c (toolResultToProto c r)) = tr_approvalRequestSeq r"
  "tr_approvalDecisionSeq (toolResultFromProto c (toolResultToProto c r)) = tr_approvalDecisionSeq r"
  "tr_approval (toolResultFromProto c (toolResultToProto c r)) = None"
  by (cases r; simp)+

lemma wire_validateApprovalReceipt_over:
  "wire_validateApprovalReceipt i d (toolResultFromProto c (toolResultToProto c r)) = wire_validateApprovalReceipt i d r"
  unfolding wire_validateApprovalReceipt_def toolResultFromProto_to by (rule refl)

lemma rejectApprovalReport_over:
  "rejectApprovalReport r = None \<Longrightarrow> rejectApprovalReport (toolResultFromProto c (toolResultToProto c r)) = None"
  by (simp add: rejectApprovalReport_def split: if_splits)

lemma rejectApprovalReport_approval: "rejectApprovalReport r = None \<Longrightarrow> tr_approval r = None"
  by (simp add: rejectApprovalReport_def split: if_splits)

lemma wire_validateApprovalReceipt_NoneD:
  "wire_validateApprovalReceipt i d r = None \<Longrightarrow> \<exists>a. d = Some a \<and> i \<noteq> [] \<and> ar_toolCallID a = i \<and> 0 < ar_requestSeq a \<and> tr_id r = i
     \<and> tr_approvalRequestSeq r = ar_requestSeq a \<and> 0 < tr_approvalDecisionSeq r"
  by (auto simp: wire_validateApprovalReceipt_def split: option.splits if_splits)

lemma ToolChoice_over: "ToolChoiceToProto t = Inr p \<Longrightarrow> ToolChoiceFromProto p = Inr t"
  by (auto simp: ToolChoiceToProto_def ToolChoiceFromProto_def split: option.splits tool_choice_mode.splits if_splits)

lemma messages_over: "messagesFromProto c (messagesToProto c ms) = map (over_message c) ms"
  by (simp add: messagesFromProto_def messagesToProto_def over_message_def)

lemma Output_over [simp]: "Message_Text (msgFromProto c (msgToProto c (TextMessage role d))) = d"
  by (simp add: msgFromProto_def msgToProto_def TextMessage_def text_part_def Message_Text_def)

lemma over_start_eq:
  "(startFromProto c (startToProto c st))\<lparr>st_executionID := st_executionID st, st_sessionUID := st_sessionUID st\<rparr> = over_start c st"
  by (simp add: startFromProto_def startToProto_def over_start_def messages_over wire_norm_def o_def)

lemma endError_failed:
  "endError (Some \<lparr>he_state = ''FAILED'', he_error = Some \<lparr>err_code = n, err_description = error_text e\<rparr>\<rparr>) = Some (ended e)"
  by (simp add: endError_def ended_def Let_def)

lemma endError_completed: "endError (Some \<lparr>he_state = ''COMPLETED'', he_error = x\<rparr>) = None"
  by (simp add: endError_def)

section \<open>Server, stream and client together\<close>

definition fresh_sink :: "start \<Rightarrow> stream_sink" where
  "fresh_sink st = \<lparr>ss_executionID = st_executionID st, ss_session = st_sessionUID st, ss_closed = False,
     ss_parked = None, ss_failure = None\<rparr>"

lemma fresh_sink_simps [simp]:
  "ss_executionID (fresh_sink st) = st_executionID st" "ss_session (fresh_sink st) = st_sessionUID st"
  "ss_closed (fresh_sink st) = False" "ss_parked (fresh_sink st) = None" "ss_failure (fresh_sink st) = None"
  by (simp_all add: fresh_sink_def)

lemmas sink_op_defs = streamSink_Model_def streamSink_Output_def streamSink_ToolCall_def streamSink_Report_def
  streamSink_Usage_def streamSink_check_def

text \<open>A harness that goes on after a park, or after its sink has failed, reaches nobody.\<close>

lemma joined_parked:
  assumes "ss_parked s = Some ref" "ss_executionID s = st_executionID st"
  shows "client_recv wc st (serve_conn lk (run_on_stream c p s) n []) (AwaitAck ref e) =
     park_outcome lk (wc_ctxErr wc) e ref (unwound (ApprovalParkedError ref) p)"
  using assms
  by (induction p arbitrary: n)
    (auto simp: sink_op_defs Connect_finish_def park_outcome_def client_ack_def GetParked_def io_EOF_def split: option.splits)

lemma joined_failed:
  assumes "ss_parked s = None" "ss_failure s = Some f" "ss_executionID s = st_executionID st"
  shows "client_recv wc st (serve_conn lk (run_on_stream c p s) n []) InLoop = Return (Some (ended f))"
  using assms
  by (induction p arbitrary: n)
    (auto simp: sink_op_defs Connect_finish_def client_event_def wire_end_event_def GetEnd_def endError_failed)

lemma await_fresh:
  "serve_conn lk (streamSink_awaitResult (fresh_sink st) k) n (host_frame_to st b # fs) =
     serve_conn lk (k (Inr (host_frame_to st b))) n fs"
  by (simp add: streamSink_awaitResult_def streamSink_check_def host_frame_to_def)

lemma host_frame_to_simps [simp]:
  "fr_session (host_frame_to st b) = st_sessionUID st" "fr_executionId (host_frame_to st b) = st_executionID st"
  "fr_frame (host_frame_to st b) = Some b"
  by (simp_all add: host_frame_to_def)

lemma send_all_ok [simp]: "send_all (\<lambda>_. None) sent fs = None"
  by (induction fs arbitrary: sent) auto

lemma client_send_ok [simp]: "client_send (Peer (\<lambda>_. None) a) fs k m = k fs m"
  by (simp add: client_send_def)

lemma fail_with_fresh:
  "e \<noteq> errSinkClosed \<Longrightarrow> fail_with k (fresh_sink st) e = k (Inl e) ((fresh_sink st)\<lparr>ss_failure := Some e\<rparr>)"
  by (simp add: fail_with_def streamSink_fail_def)


text \<open>The run, the stream and the client: exactly \<open>remote\<close>.\<close>

lemma joined_model:
  assumes IH: "\<And>r n. client_recv wc st (serve_conn lk (run_on_stream c (f r) (fresh_sink st)) n []) InLoop = remote lk c ce st (f r)"
    and "wc_codec wc = c" "wc_ctxErr wc = ce"
  shows "client_recv wc st (serve_conn lk (run_on_stream c (CallModel req f) (fresh_sink st)) n []) InLoop = remote lk c ce st (CallModel req f)"
proof (cases "ToolChoiceToProto (mr_toolChoice req)")
  case (Inl e)
  then show ?thesis using IH by (simp add: streamSink_Model_def streamSink_check_def)
next
  case (Inr choice)
  have u: "(case usageResultToProto u of None \<Rightarrow> empty_usage | Some u' \<Rightarrow> u') = u" for u
    by (simp add: usageResultToProto_def)
  show ?thesis
    using Inr assms(2,3)
    by (auto simp: streamSink_Model_def streamSink_completion_def streamSink_check_def client_event_def wire_model_call_event_def GetModelCall_def
        ToolChoice_over [OF Inr] Let_def await_fresh u IH messages_over over_request_def over_response_def over_message_def
        fun_eq_iff split: sum.splits)
qed

lemma joined_notice:
  assumes "\<And>r n. client_recv wc st (serve_conn lk (run_on_stream c (f r) (fresh_sink st)) n []) InLoop = remote lk c ce st (f r)"
    and "wc_codec wc = c"
  shows "client_recv wc st (serve_conn lk (run_on_stream c (CallOutput d f) (fresh_sink st)) n []) InLoop = remote lk c ce st (CallOutput d f)"
    "client_recv wc st (serve_conn lk (run_on_stream c (CallUsage u f) (fresh_sink st)) n []) InLoop = remote lk c ce st (CallUsage u f)"
    "client_recv wc st (serve_conn lk (run_on_stream c (CallReport tr f) (fresh_sink st)) n []) InLoop = remote lk c ce st (CallReport tr f)"
proof -
  show "client_recv wc st (serve_conn lk (run_on_stream c (CallOutput d f) (fresh_sink st)) n []) InLoop = remote lk c ce st (CallOutput d f)"
    using assms by (auto simp: streamSink_Output_def streamSink_check_def client_event_def GetMessage_def fun_eq_iff split: option.splits)
  show "client_recv wc st (serve_conn lk (run_on_stream c (CallUsage u f) (fresh_sink st)) n []) InLoop = remote lk c ce st (CallUsage u f)"
    using assms by (auto simp: streamSink_Usage_def streamSink_check_def client_event_def GetUsage_def fun_eq_iff split: option.splits)
  show "client_recv wc st (serve_conn lk (run_on_stream c (CallReport tr f) (fresh_sink st)) n []) InLoop = remote lk c ce st (CallReport tr f)"
  proof (cases "rejectApprovalReport tr")
    case None
    then show ?thesis
      using assms rejectApprovalReport_over [OF None, of c]
      by (auto simp: streamSink_Report_def streamSink_check_def client_event_def GetResult_def over_result_def fun_eq_iff
          split: option.splits)
  next
    case (Some e)
    then have "e \<noteq> errSinkClosed"
      by (auto simp: rejectApprovalReport_def errSinkClosed_def split: if_splits)
    then show ?thesis
      using Some joined_failed [of "(fresh_sink st)\<lparr>ss_failure := Some e\<rparr>" e st wc lk c "f (Some e)" n]
      by (simp add: streamSink_Report_def streamSink_check_def streamSink_fail_def)
  qed
qed


lemma result_mismatch_open [simp]: "result_mismatch got want \<noteq> errSinkClosed"
  by (simp add: result_mismatch_def errSinkClosed_def)

lemma served_receipt_eq:
  "streamSink_receipt c tc None (host_frame_to st (Frame_Tool (toolResultToProto c res))) (fresh_sink st) k =
     (if tr_id res \<noteq> tc_id tc
      then k (Inl (result_mismatch (tr_id res) (tc_id tc)))
             ((fresh_sink st)\<lparr>ss_failure := Some (result_mismatch (tr_id res) (tc_id tc))\<rparr>)
      else k (Inr (over_result c res)) (fresh_sink st))"
  if "rejectApprovalReport res = None"
  using rejectApprovalReport_over [OF that, of c]
  by (simp add: streamSink_receipt_def Let_def fail_with_fresh result_mismatch_open over_result_def)

lemma served_gated_receipt_eq:
  assumes "wire_validateApprovalReceipt (tc_id tc) (tr_approval res) res = None"
  shows "streamSink_receipt c tc (Some (the (tr_approval res))) (host_frame_to st (Frame_Tool (toolResultToProto c res))) (fresh_sink st) k =
     k (Inr (set_tr_binding (tr_approvalRequestSeq res) (tr_approvalDecisionSeq res) (tr_approval res) (over_result c res))) (fresh_sink st)"
proof -
  obtain a where a: "tr_approval res = Some a" "tr_id res = tc_id tc"
    using wire_validateApprovalReceipt_NoneD [OF assms] by blast
  show ?thesis
    using assms a by (simp add: streamSink_receipt_def Let_def wire_validateApprovalReceipt_over over_result_def)
qed


definition reply_peer :: "stream_link \<Rightarrow> struct_codec \<Rightarrow> start \<Rightarrow> tool_call \<Rightarrow> (goerr + tool_result \<Rightarrow> run) \<Rightarrow> nat \<Rightarrow> peer" where
  "reply_peer lk c st tc f n = Peer (\<lambda>_. None) (\<lambda>sent. serve_conn lk (streamSink_awaitResult (fresh_sink st)
     (\<lambda>r. case r of Inl e \<Rightarrow> fail_with (\<lambda>r. run_on_stream c (f r)) (fresh_sink st) e
      | Inr frame \<Rightarrow> streamSink_reply c tc frame (fresh_sink st) (\<lambda>r. run_on_stream c (f r)))) n sent)"

lemma reply_peer_send [simp]: "client_send (reply_peer lk c st tc f n) fs k m = k fs m"
  by (simp add: reply_peer_def)

lemma reply_peer_frame:
  "client_loop wc st (reply_peer lk c st tc f n) (host_frame_to st b # fs) m =
     client_recv wc st (serve_conn lk (streamSink_reply c tc (host_frame_to st b) (fresh_sink st) (\<lambda>r. run_on_stream c (f r))) n fs) m"
  by (simp add: reply_peer_def await_fresh)

lemma joined_tool_error:
  assumes "\<not> (gated tc \<and> (st_sessionUID st = [] \<or> tc_id tc = []))"
  shows "client_tool_error st (over_call c tc) e (reply_peer lk c st tc f n) (client_loop wc st (reply_peer lk c st tc f n)) =
     tool_error lk (wc_ctxErr wc) st tc f e"
proof (cases "errors_as_parked e")
  case None
  then show ?thesis by (simp add: client_tool_error_def tool_error_def)
next
  case (Some ref)
  show ?thesis
  proof (cases "park_for st tc ref")
    case True
    have reply: "streamSink_reply c tc (host_frame_to st (Frame_Park ref)) (fresh_sink st) k =
        k (Inl (ApprovalParkedError ref)) ((fresh_sink st)\<lparr>ss_parked := Some ref\<rparr>)" for k
      using True by (cases ref) (auto simp: park_for_def gated_def streamSink_reply_def Let_def)
    have "client_tool_error st (over_call c tc) e (reply_peer lk c st tc f n) (client_loop wc st (reply_peer lk c st tc f n)) =
        client_loop wc st (reply_peer lk c st tc f n) [host_frame_to st (Frame_Park ref)] (AwaitAck ref e)"
      using True Some by (simp add: client_tool_error_def over_call_def park_for_def gated_def)
    also have "\<dots> = tool_error lk (wc_ctxErr wc) st tc f e"
      using True Some joined_parked [of "(fresh_sink st)\<lparr>ss_parked := Some ref\<rparr>" ref st wc lk c "f (Inl (ApprovalParkedError ref))" n e]
      by (simp add: reply_peer_frame reply tool_error_def)
    finally show ?thesis .
  next
    case False
    then show ?thesis
      using Some by (auto simp: client_tool_error_def tool_error_def over_call_def park_for_def gated_def)
  qed
qed

lemma joined_tool_result:
  assumes IH: "\<And>r n. client_recv wc st (serve_conn lk (run_on_stream c (f r) (fresh_sink st)) n []) InLoop = remote lk c ce st (f r)"
  shows "client_tool_result c st (over_call c tc) res (reply_peer lk c st tc f n) (client_loop wc st (reply_peer lk c st tc f n)) =
     (case checked_receipt tc res of
        Some e \<Rightarrow> Return (Some e)
      | None \<Rightarrow>
          if tr_id res \<noteq> tc_id tc
          then Return (Some (ended (result_mismatch (tr_id res) (tc_id tc))))
          else remote lk c ce st (f (Inr (served_receipt c tc res))))"
proof (cases "checked_receipt tc res")
  case (Some e)
  then show ?thesis by (auto simp: client_tool_result_def checked_receipt_def gated_def over_call_def Let_def split: if_splits)
next
  case None
  show ?thesis
  proof (cases "gated tc")
    case True
    with None have v: "wire_validateApprovalReceipt (tc_id tc) (tr_approval res) res = None"
      by (simp add: checked_receipt_def)
    obtain a where a: "tr_approval res = Some a" "tr_id res = tc_id tc" "ar_toolCallID a = tc_id tc" "0 < ar_requestSeq a"
      using wire_validateApprovalReceipt_NoneD [OF v] by blast
    have "client_tool_result c st (over_call c tc) res (reply_peer lk c st tc f n) (client_loop wc st (reply_peer lk c st tc f n)) =
        client_recv wc st (serve_conn lk (streamSink_receipt c tc (Some a) (host_frame_to st (Frame_Tool (toolResultToProto c res)))
          (fresh_sink st) (\<lambda>r. run_on_stream c (f r))) n []) InLoop"
      using True v a
      by (simp add: client_tool_result_def over_call_def gated_def reply_peer_frame streamSink_reply_def await_fresh)
    also have "\<dots> = remote lk c ce st (f (Inr (served_receipt c tc res)))"
      using served_gated_receipt_eq [OF v, of c st] a(1) True by (simp add: IH served_receipt_def Let_def over_result_def)
    finally show ?thesis using None a(2) by simp
  next
    case False
    with None have v: "rejectApprovalReport res = None" by (simp add: checked_receipt_def)
      define e where "e = result_mismatch (tr_id res) (tc_id tc)"
    have "client_tool_result c st (over_call c tc) res (reply_peer lk c st tc f n) (client_loop wc st (reply_peer lk c st tc f n)) =
        client_recv wc st (serve_conn lk (streamSink_receipt c tc None (host_frame_to st (Frame_Tool (toolResultToProto c res)))
          (fresh_sink st) (\<lambda>r. run_on_stream c (f r))) n []) InLoop"
      using False v by (simp add: client_tool_result_def over_call_def gated_def reply_peer_frame streamSink_reply_def Let_def)
    also have "\<dots> = (if tr_id res \<noteq> tc_id tc then Return (Some (ended e)) else remote lk c ce st (f (Inr (over_result c res))))"
      using joined_failed [of "(fresh_sink st)\<lparr>ss_failure := Some e\<rparr>" e st wc lk c "f (Inl e)" n]
      by (simp add: served_receipt_eq [OF v] IH e_def [symmetric])
    finally show ?thesis using None False by (simp add: served_receipt_def Let_def e_def)
  qed
qed

lemma joined_tool:
  assumes IH: "\<And>r n. client_recv wc st (serve_conn lk (run_on_stream c (f r) (fresh_sink st)) n []) InLoop = remote lk c ce st (f r)"
    and wc: "wc_codec wc = c" "wc_ctxErr wc = ce"
  shows "client_recv wc st (serve_conn lk (run_on_stream c (CallToolCall tc f) (fresh_sink st)) n []) InLoop = remote lk c ce st (CallToolCall tc f)"
proof (cases "gated tc \<and> (st_sessionUID st = [] \<or> tc_id tc = [])")
  case True
  let ?e = "ErrNew ''harnesswire: approval requires session and call id''"
  have "?e \<noteq> errSinkClosed" by (simp add: errSinkClosed_def)
  then show ?thesis
    using True joined_failed [of "(fresh_sink st)\<lparr>ss_failure := Some ?e\<rparr>" ?e st wc lk c "f (Inl ?e)" n]
    by (auto simp: streamSink_ToolCall_def streamSink_check_def gated_def fail_with_fresh)
next
  case ok: False
  have "client_recv wc st (serve_conn lk (run_on_stream c (CallToolCall tc f) (fresh_sink st)) n []) InLoop =
      CallToolCall (over_call c tc) (\<lambda>r. case r of
          Inl e \<Rightarrow> client_tool_error st (over_call c tc) e (reply_peer lk c st tc f n) (client_loop wc st (reply_peer lk c st tc f n))
        | Inr res \<Rightarrow> client_tool_result c st (over_call c tc) res (reply_peer lk c st tc f n) (client_loop wc st (reply_peer lk c st tc f n)))"
    using ok wc
    by (auto simp add: streamSink_ToolCall_def streamSink_check_def gated_def client_event_def GetToolCall_def
        over_call_def Let_def reply_peer_def)
  also have "\<dots> = remote lk c ce st (CallToolCall tc f)"
    unfolding joined_tool_error [OF ok] joined_tool_result [OF IH] wc(2) using ok by auto
  finally show ?thesis .
qed

lemma joined_run:
  assumes "wc_codec wc = c" "wc_ctxErr wc = ce"
  shows "client_recv wc st (serve_conn lk (run_on_stream c p (fresh_sink st)) n []) InLoop = remote lk c ce st p"
proof (induction p arbitrary: n)
  case (Return e)
  show ?case
    by (cases e) (simp_all add: Connect_finish_def client_event_def wire_end_event_def GetEnd_def endError_failed endError_completed)
next
  case (CallModel req f)
  show ?case by (rule joined_model [OF CallModel.IH [OF rangeI] assms])
next
  case (CallOutput d f)
  show ?case by (rule joined_notice(1) [OF CallOutput.IH [OF rangeI] assms(1)])
next
  case (CallToolCall tc f)
  show ?case by (rule joined_tool [OF CallToolCall.IH [OF rangeI] assms])
next
  case (CallReport tr f)
  show ?case by (rule joined_notice(3) [OF CallReport.IH [OF rangeI] assms(1)])
next
  case (CallUsage u f)
  show ?case by (rule joined_notice(2) [OF CallUsage.IH [OF rangeI] assms(1)])
qed

text \<open>
  (C11) Server, stream and client implement \<open>remote\<close>.  For every harness, every invocation and every sink, the run
  that \<^verbatim>\<open>ClientHarness\<close> makes of a harness served by \<^verbatim>\<open>Server\<close> over a stream that loses nothing is the
  harness's own run on the invocation as it survives the wire, with every request and answer in wire form, ended
  by the first sink error; a park is acknowledged and handed back as the host's own error when the harness
  unwinds with it, a protocol failure ends the run as FAILED whatever the harness does after it, and neither
  side ever waits for the other forever (\<open>lk_stall\<close> does not occur).
\<close>

theorem remote_run_refines:
  "har_run (ClientHarness (over_stream lk c ctxErr h)) st =
     (if st_executionID st = [] then Return (Some (ErrNew ''harnesswire: Start requires execution_id''))
      else remote lk c ctxErr st (har_run h (over_start c st)))"
proof (cases "st_executionID st = []")
  case False
  have sink: "\<lparr>ss_executionID = st_executionID st, ss_session = st_sessionUID st, ss_closed = False, ss_parked = None, ss_failure = None\<rparr> = fresh_sink st"
    by (simp add: fresh_sink_def)
  show ?thesis
    using False joined_run [of "over_stream lk c ctxErr h" c ctxErr st lk "har_run h (over_start c st)" 0]
    by (simp add: ClientHarness_def ClientHarness_Run_def over_stream_def Server_Connect_def sink over_start_eq)
qed (simp add: ClientHarness_def ClientHarness_Run_def)

end
