(* ===== verification/Remote_Turns.thy ===== *)
theory Remote_Turns
  imports Harness_Remote Recording
begin

text \<open>
  A turn of a harness behind the wire leaves the journal that a turn of the same harness in process leaves.
  The harness has to stop at the first sink error with that error, because no error reply crosses the wire,
  and what it and the host say has to survive the conversion.  The host's side is the locale \<open>wire_host\<close>,
  interpreted on the live sink.
\<close>

section \<open>Harnesses that do not notice the wire\<close>

primrec portable :: "struct_codec \<Rightarrow> run \<Rightarrow> bool" where
  "portable c (Return e) \<longleftrightarrow> e = None"
| "portable c (CallModel req f) \<longleftrightarrow> over_request c req = req \<and> \<not> isl (ToolChoiceToProto (mr_toolChoice req))
     \<and> (\<forall>e. f (Inl e) = Return (Some e)) \<and> (\<forall>r. portable c (f (Inr r)))"
| "portable c (CallOutput d f) \<longleftrightarrow> (\<forall>e. f (Some e) = Return (Some e)) \<and> portable c (f None)"
| "portable c (CallToolCall tc f) \<longleftrightarrow> over_call c tc = tc \<and> tc_id tc \<noteq> []
     \<and> (\<forall>e. f (Inl e) = Return (Some e)) \<and> (\<forall>r. portable c (f (Inr r)))"
| "portable c (CallReport tr f) \<longleftrightarrow> over_result c tr = tr \<and> rejectApprovalReport tr = None
     \<and> (\<forall>e. f (Some e) = Return (Some e)) \<and> portable c (f None)"
| "portable c (CallUsage u f) \<longleftrightarrow> (\<forall>e. f (Some e) = Return (Some e)) \<and> portable c (f None)"

definition not_park :: "goerr \<Rightarrow> bool" where
  "not_park e \<longleftrightarrow> errors_as_parked e = None \<and> \<not> errors_is e ErrApprovalParked"

text \<open>
  A host whose answers survive the wire, as long as \<open>I\<close> holds of its state: what it answers to a model or tool
  call, and which parks it reports.
\<close>

locale wire_host =
  fixes sink :: "'st event_sink" and c :: struct_codec and st :: start and I :: "'st \<Rightarrow> bool"
  assumes host_model: "I s \<Longrightarrow> sink_Model sink req s = (Inr r, s') \<Longrightarrow> over_response c r = r \<and> I s'"
    and host_tool: "I s \<Longrightarrow> sink_ToolCall sink tc s = (Inr q, s') \<Longrightarrow>
          checked_receipt tc q = None \<and> tr_id q = tc_id tc \<and> served_receipt c tc q = q \<and> I s'"
    and host_tool_error: "I s \<Longrightarrow> sink_ToolCall sink tc s = (Inl e, s') \<Longrightarrow> not_park e \<or>
          (\<exists>ref. e = ApprovalParkedError ref \<and> park_for st tc ref)"
    and host_output: "I s \<Longrightarrow> sink_Output sink d s = (None, s') \<Longrightarrow> I s'"
    and host_report: "I s \<Longrightarrow> sink_Report sink tr s = (None, s') \<Longrightarrow> I s'"
    and host_usage: "I s \<Longrightarrow> sink_Usage sink u s = (None, s') \<Longrightarrow> I s'"
begin

lemma remote_tool_error:
  assumes "I s" "sink_ToolCall sink tc s = (Inl e, s')" "\<forall>e. f (Inl e) = Return (Some e)"
  shows "tool_error lk None st tc f e = Return (Some e)"
  using host_tool_error [OF assms(1,2)] assms(3)
  by (auto simp: tool_error_def not_park_def park_outcome_def IsParkUnwind_def)

text \<open>Driving what the wire makes of the run is driving the run.\<close>

lemma drive_remote:
  assumes "portable c p" "I s" "st_sessionUID st \<noteq> []"
  shows "drive sink (remote lk c None st p) s = drive sink p s"
  using assms(1,2)
proof (induction p arbitrary: s)
  case (Return e)
  then show ?case by simp
next
  case (CallModel req f)
  obtain r s' where m: "sink_Model sink req s = (r, s')" by fastforce
  obtain t where "ToolChoiceToProto (mr_toolChoice req) = Inr t"
    using CallModel.prems(1) by (cases "ToolChoiceToProto (mr_toolChoice req)") auto
  then show ?case
    using CallModel.prems m host_model [OF CallModel.prems(2), of req _ s'] CallModel.IH [OF rangeI]
    by (cases r) auto
next
  case (CallOutput d f)
  obtain r s' where m: "sink_Output sink d s = (r, s')" by fastforce
  then show ?case
    using CallOutput.prems host_output [OF CallOutput.prems(2), of d s'] CallOutput.IH [OF rangeI] by (cases r) auto
next
  case (CallToolCall tc f)
  obtain r s' where m: "sink_ToolCall sink tc s = (r, s')" by fastforce
  then show ?case
    using CallToolCall.prems assms(3) host_tool [OF CallToolCall.prems(2), of tc _ s'] CallToolCall.IH [OF rangeI]
      remote_tool_error [OF CallToolCall.prems(2), of tc _ s' f]
    by (cases r) auto
next
  case (CallReport tr f)
  obtain r s' where m: "sink_Report sink tr s = (r, s')" by fastforce
  then show ?case
    using CallReport.prems host_report [OF CallReport.prems(2), of tr s'] CallReport.IH [OF rangeI] by (cases r) auto
next
  case (CallUsage u f)
  obtain r s' where m: "sink_Usage sink u s = (r, s')" by fastforce
  then show ?case
    using CallUsage.prems host_usage [OF CallUsage.prems(2), of u s'] CallUsage.IH [OF rangeI] by (cases r) auto
qed

end

section \<open>The live sink is such a host\<close>

text \<open>
  A controller whose model and tools answer in wire-normal form, and whose parts do not fabricate approval
  parks.
\<close>

definition plain_host :: "struct_codec \<Rightarrow> 's controller \<Rightarrow> bool" where
  "plain_host cd c \<longleftrightarrow> (\<forall>t req r. c_model c t req = Inr r \<longrightarrow> over_response cd r = r)
     \<and> (\<forall>stream t req chunks r. c_stream c = Some stream \<longrightarrow> stream t req = (chunks, Inr r) \<longrightarrow> over_response cd r = r)
     \<and> (\<forall>tool t uid tc r. c_tool c = Some tool \<longrightarrow> tool t uid tc = (r, None) \<longrightarrow> tr_approval r = None \<longrightarrow> over_result cd r = r)
     \<and> (\<forall>tool t uid tc r e. c_tool c = Some tool \<longrightarrow> tool t uid tc = (r, Some e) \<longrightarrow> not_park e)
     \<and> (\<forall>t e. c_ctxErr c t = Some e \<longrightarrow> not_park e)
     \<and> (\<forall>ex f ev l e l'. Store_Append (c_ops c) ex f ev l = (Inl e, l') \<longrightarrow> not_park e)
     \<and> (\<forall>l e. Store_Head (c_ops c) l = Inl e \<longrightarrow> not_park e)"

lemma not_park_New [simp]: "not_park (ErrNew t) \<longleftrightarrow> t \<noteq> ''approval parked''"
  by (auto simp: not_park_def ErrApprovalParked_def)

lemma not_park_errorf [simp]: "not_park (errorf a e b) \<longleftrightarrow> not_park e"
  by (auto simp: not_park_def ErrApprovalParked_def errorf_def)

lemmas host_error_defs = ErrInvalidApprovalCall_def ErrMissingSessionUID_def ErrMissingIdempotencyKey_def
  ErrApprovalUnavailable_def ErrApprovalReceiptReport_def ErrUnmediatedToolCall_def ErrInvalidExecutionLog_def
  ErrSinkClosed_def invalid_log_def

lemma plain_host_errors:
  assumes "plain_host cd c"
  shows "Store_Append (c_ops c) ex f ev l = (Inl e, l') \<Longrightarrow> not_park e" "Store_Head (c_ops c) l = Inl e \<Longrightarrow> not_park e"
    "c_ctxErr c t = Some e \<Longrightarrow> not_park e" "c_tool c = Some tool \<Longrightarrow> tool t uid tc = (r, Some e) \<Longrightarrow> not_park e"
  using assms unfolding plain_host_def by blast+

lemma appendSeq_no_park:
  assumes "plain_host cd c" "appendSeq c x ev w = (Inl e, w')"
  shows "not_park e"
  using assms(2)
  by (auto simp: appendSeq_def commit_def host_error_defs dest: plain_host_errors [OF assms(1)] split: if_splits sum.splits prod.splits)

definition same_stop :: "'s live \<Rightarrow> 's live \<Rightarrow> bool" where
  "same_stop s s' \<longleftrightarrow> lv_stop s' = lv_stop s \<and> lv_desc s' = lv_desc s"

lemma live_append_frame:
  "live_append L ev s = (r, s') \<Longrightarrow> same_stop s s' \<and> lv_calls s' = lv_calls s"
  by (auto simp: live_append_def set_w_def same_stop_def Let_def split: prod.splits)

lemma live_append_Inl:
  assumes "plain_host cd c" "live_append (live_env_of c x har) ev s = (Inl e, s')"
  shows "not_park e"
  using assms(2) by (auto simp: live_append_def live_env_of_def Let_def dest: appendSeq_no_park [OF assms(1)] split: prod.splits)

lemma live_enter_Inr:
  "live_enter L Inl body s = (Inr r, s') \<Longrightarrow> \<exists>s1. same_stop s s1 \<and> body s1 = (Inr r, s')"
  by (rule exI [of _ "set_w (tick (lv_w s)) s"]) (auto simp: live_enter_def set_w_def same_stop_def Let_def split: option.splits)

lemma live_enter_None:
  "live_enter L Some body s = (None, s') \<Longrightarrow> \<exists>s1. same_stop s s1 \<and> body s1 = (None, s')"
  by (rule exI [of _ "set_w (tick (lv_w s)) s"]) (auto simp: live_enter_def set_w_def same_stop_def Let_def split: option.splits)

lemma same_stop_trans: "same_stop s t \<Longrightarrow> same_stop t u \<Longrightarrow> same_stop s u"
  by (simp add: same_stop_def)

lemma same_stop_set_w [simp]: "same_stop s (set_w w s')  \<longleftrightarrow> same_stop s s'"
  by (simp add: same_stop_def set_w_def)

lemma same_stop_refl [simp]: "same_stop s s"
  by (simp add: same_stop_def)

text \<open>A call that succeeds leaves the guard as it was, and answers what the host's parts answered.\<close>

lemma invokeModel_Inr:
  "invokeModel c x req w = (Inr r, w') \<Longrightarrow> plain_host cd c \<Longrightarrow> over_response cd r = r"
  by (auto simp: invokeModel_def plain_host_def Let_def split: option.splits prod.splits sum.splits)

lemma live_Model_Inr:
  assumes "plain_host cd c" "live_Model (live_env_of c x har) req s = (Inr r, s')"
  shows "over_response cd r = r \<and> same_stop s s'"
proof -
  let ?L = "live_env_of c x har"
  obtain s1 where s1: "same_stop s s1" "live_model ?L req s1 = (Inr r, s')"
    using live_enter_Inr [OF assms(2) [unfolded live_Model_def]] by blast
  obtain i w where i: "newID c (lv_w s1) = (i, w)" by fastforce
  obtain q s2 where q: "live_append ?L (model_call_event c req i) (set_w w s1) = (Inr q, s2)" "live_completeModel ?L req s2 = (Inr r, s')"
    using s1(2) i by (auto simp: live_model_def live_env_of_def split: sum.splits prod.splits)
  obtain w2 where m: "invokeModel c x req (lv_w s2) = (Inr r, w2)"
    and a: "\<exists>q'. live_append ?L (output_event (mresp_message r)) (set_w (w2\<lparr>w_liveModelCalls := Suc (w_liveModelCalls w2)\<rparr>) s2) = (Inr q', s')"
    using q(2) by (auto simp: live_completeModel_def live_env_of_def split: sum.splits prod.splits)
  have "same_stop s1 s2" using live_append_frame [OF q(1)] by (simp add: same_stop_def set_w_def)
  moreover have "same_stop s2 s'" using a live_append_frame by (fastforce simp: same_stop_def set_w_def)
  ultimately show ?thesis
    using s1(1) invokeModel_Inr [OF m assms(1)] same_stop_trans by blast
qed

lemma live_notice_None:
  "live_Output L d s = (None, s') \<Longrightarrow> same_stop s s'"
  "live_Usage L u s = (None, s') \<Longrightarrow> same_stop s s'"
  "live_Report L tr s = (None, s') \<Longrightarrow> same_stop s s'"
  by (auto simp: live_Output_def live_output_def live_Usage_def live_usage_def live_Report_def live_report_def
      dest!: live_enter_None live_append_frame intro: same_stop_trans split: prod.splits sum.splits if_splits option.splits)


text \<open>A tool call that succeeds was ordinary; a park is for the call that was made.\<close>

lemma served_ordinary:
  assumes "rejectApprovalReport q = None" "over_result cd q = q" "\<not> gated tc"
  shows "checked_receipt tc (set_tr_id (tc_id tc) q) = None \<and> tr_id (set_tr_id (tc_id tc) q) = tc_id tc
     \<and> served_receipt cd tc (set_tr_id (tc_id tc) q) = set_tr_id (tc_id tc) q"
  using assms by (cases q) (auto simp: checked_receipt_def rejectApprovalReport_def set_tr_id_def served_receipt_def over_result_def Let_def)

lemma approvalReportError_wire: "approvalReportError q = None \<longleftrightarrow> rejectApprovalReport q = None"
  by (simp add: approvalReportError_def rejectApprovalReport_def)

lemma live_execTool_Inr:
  assumes "plain_host cd c" "live_execTool (live_env_of c x har) call s = (Inr r, s')" "\<not> gated call"
  shows "checked_receipt call r = None \<and> tr_id r = tc_id call \<and> served_receipt cd call r = r \<and> same_stop s s'"
proof -
  let ?L = "live_env_of c x har"
  obtain tool where t: "c_tool c = Some tool"
    using assms(2) by (auto simp: live_execTool_def live_env_of_def split: option.splits)
  obtain q oe where q: "tool (w_tick (lv_w s)) (c_sessionUID c) call = (q, oe)" by fastforce
  have n: "oe = None" using assms(2) t q by (auto simp: live_execTool_def live_env_of_def Let_def split: option.splits)
  have rep: "approvalReportError q = None"
    using assms(2) t q n by (auto simp: live_execTool_def live_env_of_def Let_def split: option.splits)
  define s1 where "s1 = (let w' = tick ((lv_w s)\<lparr>w_external := w_external (lv_w s) @ [ExtTool (c_sessionUID c) call]\<rparr>)
     in set_w (w'\<lparr>w_liveToolCalls := Suc (w_liveToolCalls w')\<rparr>) s)"
  obtain ra s2 where app: "live_append ?L (tool_result_event (set_tr_id (tc_id call) q)) s1 = (ra, s2)" by fastforce
  have e: "live_execTool ?L call s = (case ra of Inl e \<Rightarrow> (Inl e, s2) | Inr _ \<Rightarrow> (Inr (set_tr_id (tc_id call) q), s2))"
    using t q n rep app by (simp add: live_execTool_def live_env_of_def Let_def s1_def split: sum.split)
  have a: "\<exists>z. live_append ?L (tool_result_event r) s1 = (Inr z, s')" "same_stop s s1" "r = set_tr_id (tc_id call) q"
    using e assms(2) app by (auto simp: s1_def Let_def split: sum.splits)
  have "over_result cd q = q"
    using assms(1) t q n rep unfolding plain_host_def
    by (auto simp: approvalReportError_def split: if_splits)
  then show ?thesis
    using served_ordinary [of q cd call] rep assms(3) a(3) same_stop_trans [OF a(2)] a(1) live_append_frame
    by (metis approvalReportError_wire)
qed

lemma live_parkTool_Inl: "live_parkTool L call s \<noteq> (Inr r, s')"
  by (auto simp: live_parkTool_def Let_def split: prod.splits option.splits sum.splits)

lemma live_ToolCall_Inr:
  assumes "plain_host cd c" "live_ToolCall (live_env_of c x har) call s = (Inr r, s')"
  shows "checked_receipt call r = None \<and> tr_id r = tc_id call \<and> served_receipt cd call r = r \<and> same_stop s s'"
proof -
  let ?L = "live_env_of c x har"
  obtain s1 where s1: "same_stop s s1" "live_toolCall ?L call s1 = (Inr r, s')"
    using live_enter_Inr [OF assms(2) [unfolded live_ToolCall_def]] by blast
  have ng: "\<not> gated call"
    using s1(2) live_parkTool_Inl [of ?L call s1 r s'] by (auto simp: gated_def live_toolCall_def)
  obtain z s2 where a: "live_append ?L (tool_call_event call) s1 = (Inr z, s2)"
    "live_execTool ?L call (s2\<lparr>lv_calls := (lv_calls s2)(tc_id call \<mapsto> False)\<rparr>) = (Inr r, s')"
    using s1(2) ng by (auto simp: live_toolCall_def gated_def split: if_splits option.splits prod.splits sum.splits)
  show ?thesis
    using live_execTool_Inr [OF assms(1) a(2) ng] live_append_frame [OF a(1)] s1(1) by (auto simp: same_stop_def)
qed

lemma live_execTool_Inl:
  assumes "plain_host cd c" "live_execTool (live_env_of c x har) call s = (Inl e, s')"
  shows "not_park e"
  using assms(2)
  by (auto simp: live_execTool_def Let_def live_env_of_def approvalReportError_def host_error_defs
      dest: plain_host_errors [OF assms(1)] live_append_Inl [OF assms(1), unfolded live_env_of_def]
      split: option.splits prod.splits sum.splits if_splits)


context controller_store
begin

lemma append_seq_pos:
  assumes "invar (w_log (lv_w s))" "live_append (live_env_of c x har) ev s = (Inr r, s')"
  shows "0 < r_seq r \<and> invar (w_log (lv_w s'))"
  using live_append_grows [OF assms(1) _ assms(2)] seqs_ok_head [OF recs_seqs [OF assms(1)]]
  by (auto simp: live_env_of_def dest: grows_invar)

lemma live_parkTool_error:
  assumes "invar (w_log (lv_w s))" "plain_host cd c" "lv_desc s \<noteq> None" "gated call"
    and "live_parkTool (live_env_of c x har) call s = (Inl e, s')" "st_sessionUID st = c_sessionUID c" "st_executionID st = x"
  shows "not_park e \<or> (\<exists>ref. e = ApprovalParkedError ref \<and> park_for st call ref)"
proof -
  let ?L = "live_env_of c x har"
  obtain d where d: "live_approvalDescriptor ?L s = (d, s)" "d = None \<or> d = Some ErrApprovalUnavailable"
    using assms(3) by (auto simp: live_approvalDescriptor_def Let_def)
  obtain r1 s1 where a1: "live_append ?L (tool_call_event call) s = (r1, s1)" by fastforce
  define s2 where "s2 = s1\<lparr>lv_calls := (lv_calls s1)(tc_id call \<mapsto> True)\<rparr>"
  obtain r2 s3 where a2: "live_append ?L (approval_request_event (tc_id call)) s2 = (r2, s3)" by fastforce
  have m: "live_parkTool ?L call s = (case d of Some e \<Rightarrow> (Inl e, s) | None \<Rightarrow>
      if c_sessionUID c = [] then (Inl ErrMissingSessionUID, s)
      else if tc_id call = [] then (Inl ErrInvalidApprovalCall, s)
      else if tc_idempotencyKey call = [] then (Inl ErrMissingIdempotencyKey, s)
      else if lv_calls s (tc_id call) \<noteq> None then (Inl ErrInvalidApprovalCall, s)
      else case r1 of Inl e \<Rightarrow> (Inl e, s1)
       | Inr _ \<Rightarrow> (case r2 of Inl e \<Rightarrow> (Inl e, s3\<lparr>lv_stop := Some e\<rparr>)
          | Inr req \<Rightarrow> (Inl (ApprovalParkedError \<lparr>ref_executionID = x, ref_toolCallID = tc_id call, ref_requestSeq = r_seq req\<rparr>),
              s3\<lparr>lv_stop := Some (ApprovalParkedError \<lparr>ref_executionID = x, ref_toolCallID = tc_id call, ref_requestSeq = r_seq req\<rparr>)\<rparr>)))"
    using d(1) a1 a2 by (auto simp: live_parkTool_def live_env_of_def s2_def Let_def split: option.split sum.split)
  have "0 < r_seq req" if "r1 = Inr z" "r2 = Inr req" for z req
  proof -
    have "invar (w_log (lv_w s2))" using append_seq_pos [OF assms(1)] a1 that by (auto simp: s2_def)
    then show ?thesis using append_seq_pos a2 that by blast
  qed
  then show ?thesis
    using assms(4-7) m d(2) live_append_Inl [OF assms(2)] a1 a2
    by (auto simp: host_error_defs park_for_def split: option.splits if_splits sum.splits)
qed

lemma live_ToolCall_Inl:
  assumes "invar (w_log (lv_w s))" "plain_host cd c" "lv_desc s \<noteq> None" "lv_stop s = None"
    and "live_ToolCall (live_env_of c x har) call s = (Inl e, s')" "st_sessionUID st = c_sessionUID c" "st_executionID st = x"
  shows "not_park e \<or> (\<exists>ref. e = ApprovalParkedError ref \<and> park_for st call ref)"
proof -
  let ?L = "live_env_of c x har"
  define s1 where "s1 = set_w (tick (lv_w s)) s"
  have i: "invar (w_log (lv_w s1))" "lv_desc s1 \<noteq> None" using assms(1,3) by (simp_all add: s1_def tick_def)
  consider "not_park e" | "live_toolCall ?L call s1 = (Inl e, s')"
    using assms(4,5)
    by (auto simp: live_ToolCall_def live_enter_def live_env_of_def guard_err_def ErrSinkClosed_def s1_def Let_def
        dest: plain_host_errors [OF assms(2)] split: if_splits option.splits)
  then show ?thesis
  proof cases
    case 2
    show ?thesis
    proof (cases "gated call")
      case True
      then show ?thesis
        using 2 live_parkTool_error [OF i(1) assms(2) i(2) True _ assms(6,7)] by (simp add: live_toolCall_def gated_def)
    next
      case False
      obtain r1 s2 where a1: "live_append ?L (tool_call_event call) s1 = (r1, s2)" by fastforce
      have "not_park e' " if "toolMediationError (tc_mediation call) = Some e'" for e'
        using that by (cases "tc_mediation call") (auto simp: host_error_defs)
      then show ?thesis
        using 2 False a1 live_append_Inl [OF assms(2)] live_execTool_Inl [OF assms(2)]
        by (auto simp: live_toolCall_def gated_def host_error_defs split: option.splits if_splits sum.splits)
    qed
  qed simp
qed

text \<open>The states of a turn in which the sink has not been stopped.\<close>

definition remote_inv :: "struct_codec \<Rightarrow> string \<Rightarrow> harness \<Rightarrow> start \<Rightarrow> 's live \<Rightarrow> 's live \<Rightarrow> bool" where
  "remote_inv cd x har st s0 s \<longleftrightarrow> plain_host cd c \<and> st_sessionUID st = c_sessionUID c \<and> st_executionID st = x
     \<and> live_inv (live_env_of c x har) s0 s \<and> lv_stop s = None \<and> lv_desc s \<noteq> None"

lemma remote_inv_step:
  "remote_inv cd x har st s0 s \<Longrightarrow> live_inv (live_env_of c x har) s0 s' \<Longrightarrow> same_stop s s' \<Longrightarrow> remote_inv cd x har st s0 s'"
  by (simp add: remote_inv_def same_stop_def)

end

sublocale controller_store \<subseteq> remote: wire_host "liveSink (live_env_of c x har)" cd st "remote_inv cd x har st s0"
  for x har cd st s0
proof (unfold_locales, goal_cases)
  case (1 s req r s')
  let ?L = "live_env_of c x har"
  have "live_inv ?L s0 s'" using live.inv_Model [of x har s0 s req] 1 by (simp add: remote_inv_def)
  moreover have "live_Model ?L req s = (Inr r, s')" using 1(2) by (simp add: liveSink_def)
  ultimately show ?case
    using live_Model_Inr remote_inv_step [OF 1(1)] 1(1) by (metis remote_inv_def)
next
  case (2 s tc q s')
  let ?L = "live_env_of c x har"
  have "live_inv ?L s0 s'" using live.inv_ToolCall [of x har s0 s tc] 2 by (simp add: remote_inv_def)
  moreover have "live_ToolCall ?L tc s = (Inr q, s')" using 2(2) by (simp add: liveSink_def)
  ultimately show ?case
    using live_ToolCall_Inr remote_inv_step [OF 2(1)] 2(1) by (metis remote_inv_def)
next
  case (3 s tc e s')
  have "live_ToolCall (live_env_of c x har) tc s = (Inl e, s')" using 3(2) by (simp add: liveSink_def)
  then show ?case
    using 3(1) live_ToolCall_Inl [of s cd x har tc e s' st] live_inv_invar unfolding remote_inv_def by blast
next
  case (4 s d s')
  have "live_inv (live_env_of c x har) s0 s'" using live.inv_Output [of x har s0 s d] 4 by (simp add: remote_inv_def)
  then show ?case using remote_inv_step [OF 4(1)] live_notice_None(1) 4(2) by (simp add: liveSink_def) blast
next
  case (5 s tr s')
  have "live_inv (live_env_of c x har) s0 s'" using live.inv_Report [of x har s0 s tr] 5 by (simp add: remote_inv_def)
  then show ?case using remote_inv_step [OF 5(1)] live_notice_None(3) 5(2) by (simp add: liveSink_def) blast
next
  case (6 s u s')
  have "live_inv (live_env_of c x har) s0 s'" using live.inv_Usage [of x har s0 s u] 6 by (simp add: remote_inv_def)
  then show ?case using remote_inv_step [OF 6(1)] live_notice_None(2) 6(2) by (simp add: liveSink_def) blast
qed


section \<open>Whole turns\<close>

text \<open>
  A harness that does not notice the wire: every run it can make is portable, and its description survives.
\<close>

definition portable_harness :: "struct_codec \<Rightarrow> harness \<Rightarrow> bool" where
  "portable_harness cd h \<longleftrightarrow> (\<forall>st. portable cd (har_run h st))
     \<and> (\<forall>t d. har_describe h t = Inr d \<longrightarrow> descriptorFromProto (DescriptorToProto d) = d)"

lemma describe_over_stream:
  assumes "portable_harness cd h"
  shows "har_describe (ClientHarness (over_stream lk cd ce h)) = har_describe h"
proof
  show "har_describe (ClientHarness (over_stream lk cd ce h)) t = har_describe h t" for t
    using assms by (auto simp: ClientHarness_def ClientHarness_Describe_def over_stream_def Server_Describe_def
        portable_harness_def split: sum.splits)
qed

lemma liveSink_describe:
  assumes "har_describe h' = har_describe h"
  shows "liveSink (live_env_of c x h') = liveSink (live_env_of c x h)"
proof -
  have d: "describeHarness h' = describeHarness h" by (simp add: describeHarness_def assms fun_eq_iff)
  have a: "live_append (live_env_of c x h') = live_append (live_env_of c x h)"
    by (simp add: live_append_def live_env_of_def fun_eq_iff)
  have f: "le_c (live_env_of c x h') = le_c (live_env_of c x h)"
    "le_executionID (live_env_of c x h') = le_executionID (live_env_of c x h)"
    "le_legacyRecovery (live_env_of c x h') = le_legacyRecovery (live_env_of c x h)"
    "describeHarness (le_har (live_env_of c x h')) = describeHarness (le_har (live_env_of c x h))"
    by (simp_all add: live_env_of_def d)
  have e: "live_enter (live_env_of c x h') = live_enter (live_env_of c x h)"
    by (intro ext) (unfold live_enter_def f, rule refl)
  show ?thesis
    unfolding liveSink_def live_Model_def live_model_def live_completeModel_def live_Output_def live_output_def
      live_ToolCall_def live_toolCall_def live_parkTool_def live_approvalDescriptor_def live_execTool_def
      live_Report_def live_report_def live_Usage_def live_usage_def a e f ..
qed

context controller_store
begin

lemma append_inputs_invar:
  "invar (w_log w) \<Longrightarrow> append_inputs c x n ms w = (r, w') \<Longrightarrow> invar (w_log w')"
proof (induction ms arbitrary: n w)
  case (Cons m ms)
  obtain q w1 where q: "commit c n (input_event x m) w = (q, w1)" by fastforce
  then have "invar (w_log w1)" using commit_journaled [OF Cons.prems(1) q] journaled_invar by blast
  then show ?case using Cons q by (auto split: sum.splits)
qed simp

lemma remote_turn:
  assumes "invar (w_log w)" "plain_host cd c" "portable_harness cd h" "c_sessionUID c \<noteq> []" "x \<noteq> []"
    and "\<forall>e \<in> set history. wire_norm cd e = e" "\<forall>m \<in> set inputs. over_message cd m = m"
  shows "exec_turn c (ClientHarness (over_stream lk cd None h)) x history inputs n w = exec_turn c h x history inputs n w"
proof -
  let ?r = "ClientHarness (over_stream lk cd None h)" and ?st = "exec_start c x history inputs"
  have d: "har_describe ?r = har_describe h" by (rule describe_over_stream [OF assms(3)])
  then have dh: "describeHarness ?r = describeHarness h" by (simp add: describeHarness_def fun_eq_iff)
  have "over_start cd ?st = ?st"
    using assms(6,7) by (simp add: over_start_def exec_start_def map_idI)
  then have run: "har_run ?r ?st = remote lk cd None ?st (har_run h ?st)"
    using assms(5) remote_run_refines [of lk cd None h ?st] by (simp add: exec_start_def)
  have p: "portable cd (har_run h ?st)" using assms(3) by (simp add: portable_harness_def)
  have "drive (liveSink (live_env_of c x h)) (har_run ?r ?st) (live_init (Some desc) w3)
      = drive (liveSink (live_env_of c x h)) (har_run h ?st) (live_init (Some desc) w3)"
    if "invar (w_log w3)" for desc w3
  proof -
    have "live_inv (live_env_of c x h) (live_init (Some desc) w3) (live_init (Some desc) w3)"
      by (rule live_inv_init) (use that in auto)
    then have "remote_inv cd x h ?st (live_init (Some desc) w3) (live_init (Some desc) w3)"
      using assms(2) by (simp add: remote_inv_def live_init_def exec_start_def)
    then show ?thesis
      unfolding run using remote.drive_remote [OF p] assms(4) by (simp add: exec_start_def)
  qed
  note same = this
  obtain rd w1 where w1: "describeHarness h w = (rd, w1)" by fastforce
  then have i1: "invar (w_log w1)"
    using assms(1) by (auto simp: describeHarness_def tick_def split: sum.splits)
  show ?thesis
  proof (cases rd)
    case (Inl e)
    then show ?thesis unfolding exec_turn_def dh w1 by simp
  next
    case (Inr desc)
    obtain q w2 where w2: "commit c n (start_event c x (length inputs) desc) w1 = (q, w2)" by fastforce
    then have i2: "invar (w_log w2)" using commit_journaled [OF i1 w2] journaled_invar by blast
    have i3: "invar (w_log w3)" if "append_inputs c x m inputs w2 = (z, w3)" for m z w3
      using append_inputs_invar [OF i2 that] .
    show ?thesis
      unfolding exec_turn_def dh w1 Inr prod.case sum.case w2 liveSink_describe [OF d]
      using same i3 by (auto split: sum.splits prod.splits option.splits)
  qed
qed

text \<open>The rest of \<^verbatim>\<open>Exec\<close> does not look at the harness.\<close>

lemma remote_Exec:
  assumes "invar (w_log w)" "plain_host cd c" "portable_harness cd h" "c_sessionUID c \<noteq> []" "c_newID c (w_tick w) \<noteq> []"
    and "\<forall>r \<in> set (recs (w_log w)). wire_norm cd (r_event r) = r_event r" "\<forall>m \<in> set inputs. over_message cd m = m"
  shows "Exec c (ClientHarness (over_stream lk cd None h)) inputs n w = Exec c h inputs n w"
proof -
  have "exec_turn c (ClientHarness (over_stream lk cd None h)) (c_newID c (w_tick w)) (map r_event prior) inputs n (tick w)
      = exec_turn c h (c_newID c (w_tick w)) (map r_event prior) inputs n (tick w)"
    if "Store_Read (c_ops c) 1 (w_log w) = Inr prior" for prior
    using assms read_ok [OF assms(1) that] by (intro remote_turn) (auto simp: tick_def)
  then show ?thesis
    unfolding Exec_def newID_def prod.case by (auto simp: tick_def Let_def split: option.splits sum.splits)
qed

end

text \<open>
  (C10) A turn is the same turn across a process boundary.  Take a harness that stops at the first sink error
  with that error and otherwise returns nil: a harness that ends with an error of its own is excluded, because behind
  the wire that error reads \<^verbatim>\<open>harnesswire: remote harness ended FAILED\<close> and is journaled so.  Its calls and descriptor
  survive the wire, its tool calls have ids, and its reports carry no approval receipt of the host's.  Take a host whose model and tools answer in wire-normal form and
  which does not fabricate approval parks, with a session UID and a new execution id that are not empty, and a journal
  and inputs in wire-normal form.  Then \<^verbatim>\<open>Exec\<close> with the harness behind \<^verbatim>\<open>Harness.Connect\<close> (server, stream and client) and \<^verbatim>\<open>Exec\<close> with
  the harness in process return the same result and leave the same world: the same journal, byte for byte,
  the same calls to the provider and to the tools, the same notifications, and a gated call parks in both.
\<close>

theorem remote_turn_is_local_turn:
  assumes "c_ops c = AsStore cn" "log_ok cn (w_log w)" "plain_host cd c" "portable_harness cd h"
    and "c_sessionUID c \<noteq> []" "c_newID c (w_tick w) \<noteq> []"
    and "\<forall>r \<in> set (log_records (w_log w)). wire_norm cd (r_event r) = r_event r" "\<forall>m \<in> set inputs. over_message cd m = m"
  shows "Exec c (ClientHarness (over_stream lk cd None h)) inputs n w = Exec c h inputs n w"
  using memctl.remote_Exec [where c = c and cn = cn, of w cd h inputs lk n] assms by (simp add: mem_controller)

text \<open>A harness that asks the model, reports its usage, calls a gated tool and speaks.\<close>

definition approval_call :: tool_call where
  "approval_call = sample_call\<lparr>tc_mediation := MediationRequiresApproval\<rparr>"

definition careful_harness :: harness where
  "careful_harness = \<lparr>har_describe = (\<lambda>t. Inr sample_descriptor),
     har_run = (\<lambda>st. CallModel sample_request (\<lambda>r. case r of
        Inl e \<Rightarrow> Return (Some e)
      | Inr resp \<Rightarrow> CallUsage (mresp_usage resp) (\<lambda>u. case u of Some e \<Rightarrow> Return (Some e) | None \<Rightarrow>
          CallOutput ''working'' (\<lambda>d. case d of Some e \<Rightarrow> Return (Some e) | None \<Rightarrow>
          CallToolCall approval_call (\<lambda>t. case t of
             Inl e \<Rightarrow> Return (Some e)
           | Inr res \<Rightarrow> CallOutput ''done'' Return)))))\<rparr>"

lemma careful_portable: "portable_harness plain_codec careful_harness"
  by (auto simp: portable_harness_def careful_harness_def sample_request_def over_request_def ToolDefinitionsFromProto_def
      ToolDefinitionsToProto_def ToolChoiceToProto_def over_call_def approval_call_def sample_call_def toolCallFromProto_def
      toolCallToProto_def fromStruct_def toStruct_def sample_descriptor_def descriptorFromProto_def DescriptorToProto_def
      capabilitiesFromProto_def capabilitiesToProto_def)

lemma sample_plain_host: "plain_host plain_codec sample_controller"
proof -
  have "HashRecord short_canon p q e \<noteq> Inl x" for p q e x
    by (simp add: HashRecord_def canon_Record_def short_canon_def plain_canon_def)
  then have app: "not_park x" if "Append short_canon ex f ev l = (Inl x, l')" for ex f ev l x l'
    using that by (auto simp: Append_def ErrConflict_def ErrFenced_def Let_def split: if_splits sum.splits)
  show ?thesis
    by (auto simp: plain_host_def sample_controller_def over_response_def over_message_def TextMessage_def text_part_def
        msgFromProto_def msgToProto_def over_result_def fromStruct_def toStruct_def AsStore_def dest: app)
qed

theorem remote_turn_is_local_turn_witness:
  "Exec sample_controller (ClientHarness (over_stream \<lparr>lk_status = (\<lambda>e. e), lk_stall = io_EOF, lk_random = (\<lambda>n. ''x'')\<rparr>
       plain_codec None careful_harness)) [TextMessage ''user'' ''hello''] 0 sample_world
     = Exec sample_controller careful_harness [TextMessage ''user'' ''hello''] 0 sample_world
   \<and> fst (Exec sample_controller careful_harness [TextMessage ''user'' ''hello''] 0 sample_world) =
       Some (ApprovalParkedError \<lparr>ref_executionID = ''id0'', ref_toolCallID = ''t1'', ref_requestSeq = 8\<rparr>)"
proof -
  have h: "c_ops sample_controller = AsStore short_canon" "log_ok short_canon (w_log sample_world)"
    "c_sessionUID sample_controller \<noteq> []" "c_newID sample_controller (w_tick sample_world) \<noteq> []"
    by (simp_all add: sample_controller_def sample_world_def)
  have r: "\<forall>r \<in> set (log_records (w_log sample_world)). wire_norm plain_codec (r_event r) = r_event r"
    by (simp add: sample_world_def New_def)
  have m: "\<forall>m \<in> set [TextMessage ''user'' ''hello'']. over_message plain_codec m = m"
    by (simp add: over_message_def TextMessage_def text_part_def msgFromProto_def msgToProto_def)
  have "fst (Exec sample_controller careful_harness [TextMessage ''user'' ''hello''] 0 sample_world) =
       Some (ApprovalParkedError \<lparr>ref_executionID = ''id0'', ref_toolCallID = ''t1'', ref_requestSeq = 8\<rparr>)"
    by code_simp
  then show ?thesis
    using remote_turn_is_local_turn [OF h(1,2) sample_plain_host careful_portable h(3,4) r m] by blast
qed

end
