(* ===== verification/Remote_Peers.thy ===== *)
theory Remote_Peers
  imports Harness_Remote
begin

text \<open>
  What each end of \<^verbatim>\<open>Harness.Connect\<close> keeps to, whatever the other end does.
\<close>

section \<open>The client, against any peer\<close>

text \<open>
  A run whose every sink call is one that a peer may cause, and which makes no further call once one has failed.
\<close>

definition stopped :: "run \<Rightarrow> bool" where
  "stopped p \<longleftrightarrow> (\<exists>e. p = Return (Some e))"

primrec confined :: "start \<Rightarrow> run \<Rightarrow> bool" where
  "confined st (Return e) \<longleftrightarrow> True"
| "confined st (CallModel req f) \<longleftrightarrow> (\<forall>e. f (Inl e) = Return (Some e)) \<and> (\<forall>r. confined st (f r))"
| "confined st (CallOutput d f) \<longleftrightarrow> (\<forall>e. f (Some e) = Return (Some e)) \<and> (\<forall>r. confined st (f r))"
| "confined st (CallToolCall tc f) \<longleftrightarrow> (gated tc \<longrightarrow> st_sessionUID st \<noteq> [] \<and> tc_id tc \<noteq> [])
     \<and> (\<forall>e. stopped (f (Inl e))) \<and> (\<forall>res. checked_receipt tc res \<noteq> None \<longrightarrow> stopped (f (Inr res))) \<and> (\<forall>r. confined st (f r))"
| "confined st (CallReport tr f) \<longleftrightarrow> rejectApprovalReport tr = None \<and> (\<forall>e. f (Some e) = Return (Some e)) \<and> (\<forall>r. confined st (f r))"
| "confined st (CallUsage u f) \<longleftrightarrow> (\<forall>e. f (Some e) = Return (Some e)) \<and> (\<forall>r. confined st (f r))"

lemma stopped_simps [simp]: "stopped (Return (Some e))" "\<not> stopped (Return None)"
  by (simp_all add: stopped_def)

lemma stopped_confined: "stopped p \<Longrightarrow> confined st p"
  by (auto simp: stopped_def)

text \<open>While a park is being handed over nothing reaches the sink.\<close>

lemma handoff_stops:
  "m \<noteq> InLoop \<Longrightarrow> stopped (client_loop wc st p sent m)"
  "m \<noteq> InLoop \<Longrightarrow> stopped (client_recv wc st r m)"
  by (induction p and r arbitrary: sent m and m)
    (auto simp: client_ack_def split: client_mode.split)

lemma client_send_stops:
  assumes "\<And>sent. stopped (k sent m)"
  shows "stopped (client_send p fs k m)"
  using assms by (simp add: client_send_def split: option.split)

lemma client_send_confined:
  assumes "\<And>sent m. confined st (k sent m)"
  shows "confined st (client_send p fs k m)"
  using assms by (simp add: client_send_def split: option.split)

lemma client_tool_error_stops:
  "stopped (client_tool_error st tc e p (client_loop wc st p))"
  by (auto simp: client_tool_error_def handoff_stops split: option.split intro!: client_send_stops)

lemma client_tool_result_stops:
  "checked_receipt tc res \<noteq> None \<Longrightarrow> stopped (client_tool_result c st tc res p k)"
  by (auto simp: client_tool_result_def checked_receipt_def gated_def Let_def)

lemma client_tool_result_confined:
  "(\<And>sent m. confined st (k sent m)) \<Longrightarrow> confined st (client_tool_result c st tc res p k)"
  by (auto simp: client_tool_result_def Let_def client_send_confined split: option.split)

lemma client_event_confined:
  assumes "\<And>sent m. confined st (client_loop wc st p sent m)"
  shows "confined st (client_event c st ev p (client_loop wc st p))"
proof (cases "he_executionId ev = st_executionID st")
  case True
  show ?thesis
  proof (cases "he_kind ev")
    case EVENT_MODEL_CALL
    then show ?thesis
      using True assms by (simp add: client_event_def Let_def client_send_confined split: sum.split option.split)
  next
    case EVENT_TOOL_CALL
    have "confined st (client_tool_error st tc e p (client_loop wc st p))" for tc e
      by (rule stopped_confined [OF client_tool_error_stops])
    then show ?thesis
      using EVENT_TOOL_CALL True assms client_tool_error_stops client_tool_result_stops
        client_tool_result_confined [of st "client_loop wc st p", OF assms]
      by (auto simp: client_event_def gated_def Let_def split: sum.split option.split)
  qed (use True assms in \<open>simp_all add: client_event_def Let_def split: option.split\<close>)
qed (simp add: client_event_def)

lemma client_confined:
  "confined st (client_loop wc st p sent m)" "confined st (client_recv wc st r m)"
proof (induction p and r arbitrary: sent m and m)
  case (RecvEvent ev p)
  then show ?case
    using client_event_confined [of st wc p "wc_codec wc" ev]
    by (cases m) (auto simp: client_ack_def)
qed (auto split: client_mode.split)

text \<open>
  (C12) A remote harness is confined.  Whatever the process behind \<^verbatim>\<open>Harness.Connect\<close> sends, in whatever order, and
  however it reacts to what it is sent, the run it makes of the host's sink keeps to this: no call follows one
  that failed, with the failure as the run's own error for all but tool calls; a call that needs approval is
  made only with a session and a call ID; a result the host answers that does not fit the call and its
  decision ends the run; and nothing that only the host may say, a decision or a receipt, is ever reported.
\<close>

theorem remote_peer_is_confined: "confined st (ClientHarness_Run wc st)"
  by (auto simp: ClientHarness_Run_def client_send_confined client_confined split: sum.split)

section \<open>The server, against any host\<close>

text \<open>
  What a handler receives and delivers, in order, and what it returns, for some answers of the stream, the host
  and the context.  A \<^verbatim>\<open>Send\<close> that fails delivers nothing; a \<^verbatim>\<open>Recv\<close> or \<^verbatim>\<open>select\<close> that yields no
  frame leaves no item.
\<close>

datatype item = Got ctl_frame | Sent hw_event

inductive talks :: "conn \<Rightarrow> item list \<Rightarrow> goerr option \<Rightarrow> bool" where
  talks_return: "talks (ConnReturn e) [] e"
| talks_send: "talks (k None) tr r \<Longrightarrow> talks (ConnSend ev k) (Sent ev # tr) r"
| talks_lost: "talks (k (Some x)) tr r \<Longrightarrow> talks (ConnSend ev k) tr r"
| talks_recv: "talks (k (Inr f)) tr r \<Longrightarrow> talks (ConnRecv k) (Got f # tr) r"
| talks_norecv: "talks (k (Inl e)) tr r \<Longrightarrow> talks (ConnRecv k) tr r"
| talks_await: "talks (k (AwaitFrame f)) tr r \<Longrightarrow> talks (ConnAwait k) (Got f # tr) r"
| talks_wake: "talks (k a) tr r \<Longrightarrow> \<forall>f. a \<noteq> AwaitFrame f \<Longrightarrow> talks (ConnAwait k) tr r"
| talks_check: "talks (k a) tr r \<Longrightarrow> talks (ConnCheck k) tr r"
| talks_random: "talks (k b) tr r \<Longrightarrow> talks (ConnRandom k) tr r"

inductive_simps talks_simps:
  "talks (ConnReturn e) tr r" "talks (ConnSend ev k) tr r" "talks (ConnRecv k) tr r" "talks (ConnAwait k) tr r"
  "talks (ConnCheck k) tr r" "talks (ConnRandom k) tr r"

lemmas talks_open [simp] = talks_simps(1,2,5,6)

subsection \<open>What the stream of one execution may look like\<close>

definition effect_event :: "string \<Rightarrow> hw_event \<Rightarrow> bool" where
  "effect_event x ev \<longleftrightarrow> he_executionId ev = x
     \<and> he_kind ev \<in> {EVENT_MODEL_CALL, EVENT_OUTPUT, EVENT_TOOL_CALL, EVENT_TOOL_RESULT, EVENT_USAGE}"

text \<open>The call an event puts to the host for approval.\<close>

definition gated_id :: "hw_event \<Rightarrow> string option" where
  "gated_id ev =
     (case he_body ev of
        Some (Hw_Tool t) \<Rightarrow>
          if he_kind ev = EVENT_TOOL_CALL \<and> pt_mediation t = MEDIATION_REQUIRES_APPROVAL \<and> pt_id t \<noteq> []
          then Some (pt_id t) else None
      | _ \<Rightarrow> None)"

text \<open>The park a frame asks for, of session \<open>u\<close> and execution \<open>x\<close>, in answer to the gated call \<open>op\<close>.\<close>

definition asked :: "string \<Rightarrow> string \<Rightarrow> string option \<Rightarrow> ctl_frame \<Rightarrow> approval_ref option" where
  "asked x u op f =
     (case fr_frame f of
        Some (Frame_Park ref) \<Rightarrow>
          if fr_executionId f = x \<and> fr_session f = u \<and> ref_executionID ref = x \<and> op = Some (ref_toolCallID ref)
             \<and> 0 < ref_requestSeq ref
          then Some ref else None
      | _ \<Rightarrow> None)"

text \<open>The events that end a stream, with what the handler then returns; \<open>ak\<close> is the park just asked for.\<close>

definition last_event :: "string \<Rightarrow> approval_ref option \<Rightarrow> goerr option \<Rightarrow> hw_event \<Rightarrow> bool" where
  "last_event x ak r ev \<longleftrightarrow>
     ev = wire_end_event x \<lparr>he_state = ''COMPLETED'', he_error = None\<rparr> \<and> r = None
     \<or> (\<exists>e. ev = wire_end_event x \<lparr>he_state = ''FAILED'', he_error = Some \<lparr>err_code = 0, err_description = error_text e\<rparr>\<rparr>
            \<and> r = Some e)
     \<or> (\<exists>ref. ev = \<lparr>he_executionId = x, he_kind = EVENT_PARKED, he_body = Some (Hw_Parked ref)\<rparr>
            \<and> ak = Some ref \<and> r = None)"

text \<open>
  The protocol as an automaton over the items.  It remembers \<open>op\<close>, the gated call the last item put to the
  host, and \<open>ak\<close>, the park the last item asked for.
\<close>

fun stream_ok :: "string \<Rightarrow> string \<Rightarrow> string option \<Rightarrow> approval_ref option \<Rightarrow> item list \<Rightarrow> goerr option \<Rightarrow> bool" where
  "stream_ok x u op ak [] r \<longleftrightarrow> r \<noteq> None"
| "stream_ok x u op ak (Got f # tr) r \<longleftrightarrow> stream_ok x u None (asked x u op f) tr r"
| "stream_ok x u op ak (Sent ev # tr) r \<longleftrightarrow>
     effect_event x ev \<and> stream_ok x u (gated_id ev) None tr r \<or> tr = [] \<and> last_event x ak r ev"

subsection \<open>The sink keeps to it\<close>

text \<open>The sink of execution \<open>x\<close> of session \<open>u\<close>; a park it holds is the one just asked for.\<close>

definition sink_of :: "string \<Rightarrow> string \<Rightarrow> approval_ref option \<Rightarrow> stream_sink \<Rightarrow> bool" where
  "sink_of x u ak s \<longleftrightarrow> ss_executionID s = x \<and> ss_session s = u
     \<and> (\<forall>ref. ss_parked s = Some ref \<longrightarrow> ak = Some ref)"

lemma sink_of_open: "sink_of x u ak s \<Longrightarrow> ss_parked s = None \<Longrightarrow> sink_of x u ak' s"
  by (simp add: sink_of_def)

lemma sink_of_failed: "sink_of x u ak s \<Longrightarrow> streamSink_fail e s = (e', s') \<Longrightarrow> sink_of x u ak s'"
  by (auto simp: streamSink_fail_def sink_of_def split: if_splits option.splits)

lemma talks_checked:
  assumes "talks (streamSink_check s k) tr r"
  shows "\<exists>a. talks (k a) tr r \<and> (a = None \<longrightarrow> ss_parked s = None)"
  using assms by (auto simp: streamSink_check_def split: option.splits)

lemma talks_looked:
  assumes "talks (ConnCheck (\<lambda>(ctxErr, x). case ctxErr of Some e \<Rightarrow> k (Inl e) | None \<Rightarrow> k (Inl b))) tr r"
  shows "\<exists>e. talks (k (Inl e)) tr r"
  using assms by (auto split: option.splits)

text \<open>Waiting ends with an error, or with a frame that is dropped for one, or with a frame of this execution.\<close>

lemma talks_awaited:
  assumes t: "talks (streamSink_awaitResult s k) tr r"
  obtains (woken) e where "talks (k (Inl e)) tr r"
    | (dropped) f tr' e where "tr = Got f # tr'" "ss_parked s = None" "talks (k (Inl e)) tr' r"
    | (taken) f tr' where "tr = Got f # tr'" "ss_parked s = None" "fr_executionId f = ss_executionID s" "talks (k (Inr f)) tr' r"
proof -
  obtain a where a: "a = None \<longrightarrow> ss_parked s = None"
    "talks (case a of Some e \<Rightarrow> k (Inl e) | None \<Rightarrow> ConnAwait (\<lambda>a. case a of
          AwaitFrame frame \<Rightarrow> streamSink_check s (\<lambda>err. case err of Some e \<Rightarrow> k (Inl e) | None \<Rightarrow>
            if fr_executionId frame \<noteq> ss_executionID s
            then k (Inl (ErrNew (''harnesswire: result execution_id mismatch: got '' @ format_q (fr_executionId frame)
                      @ '', want '' @ format_q (ss_executionID s))))
            else k (Inr frame))
        | AwaitClosed \<Rightarrow> streamSink_check s (\<lambda>err. case err of Some e \<Rightarrow> k (Inl e) | None \<Rightarrow>
            ConnCheck (\<lambda>(ctxErr, _). case ctxErr of Some e \<Rightarrow> k (Inl e) | None \<Rightarrow> k (Inl io_EOF)))
        | AwaitCtx e \<Rightarrow> k (Inl e)
        | AwaitDone \<Rightarrow> ConnCheck (\<lambda>(ctxErr, _). case ctxErr of Some e \<Rightarrow> k (Inl e) | None \<Rightarrow> k (Inl errSinkClosed)))) tr r"
    using talks_checked [OF t [unfolded streamSink_awaitResult_def]] by blast
  show ?thesis
  proof (cases a)
    case (Some e)
    then show ?thesis using a woken by simp
  next
    case None
    note w = a(2) [unfolded None option.case talks_simps(4)]
    from w consider (frame) f tr' where "tr = Got f # tr'"
        "talks (streamSink_check s (\<lambda>err. case err of Some e \<Rightarrow> k (Inl e) | None \<Rightarrow>
            if fr_executionId f \<noteq> ss_executionID s
            then k (Inl (ErrNew (''harnesswire: result execution_id mismatch: got '' @ format_q (fr_executionId f)
                      @ '', want '' @ format_q (ss_executionID s))))
            else k (Inr f))) tr' r"
      | (closed) "talks (streamSink_check s (\<lambda>err. case err of Some e \<Rightarrow> k (Inl e) | None \<Rightarrow>
            ConnCheck (\<lambda>(ctxErr, _). case ctxErr of Some e \<Rightarrow> k (Inl e) | None \<Rightarrow> k (Inl io_EOF)))) tr r"
      | (ctx) e where "talks (k (Inl e)) tr r"
      | (finished) "talks (ConnCheck (\<lambda>(ctxErr, _). case ctxErr of Some e \<Rightarrow> k (Inl e) | None \<Rightarrow> k (Inl errSinkClosed))) tr r"
      by (elim disjE exE conjE; (simp split: await.splits)?)
    then show ?thesis
    proof cases
      case frame
      from talks_checked [OF frame(2)] show ?thesis
        using frame(1) a(1) None dropped taken by (auto split: option.splits if_splits)
    next
      case closed
      from talks_checked [OF this] show ?thesis
        using woken talks_looked by (auto split: option.splits)
    next
      case ctx
      then show ?thesis by (rule woken)
    next
      case finished
      then show ?thesis using talks_looked woken by blast
    qed
  qed
qed

text \<open>
  The run goes on from a later point of the trace, in a state of the automaton from which the rest is
  accepted only if the whole is.
\<close>

definition goes_on ::
  "string \<Rightarrow> string \<Rightarrow> string option \<Rightarrow> approval_ref option \<Rightarrow> ('a \<Rightarrow> stream_sink \<Rightarrow> conn) \<Rightarrow> item list \<Rightarrow> goerr option \<Rightarrow> bool" where
  "goes_on x u op ak k tr r \<longleftrightarrow>
     (\<exists>a s' op' ak' tr'. sink_of x u ak' s' \<and> talks (k a s') tr' r
        \<and> (stream_ok x u op' ak' tr' r \<longrightarrow> stream_ok x u op ak tr r))"

lemma goes_on_now: "sink_of x u ak s \<Longrightarrow> talks (k a s) tr r \<Longrightarrow> goes_on x u op ak k tr r"
  unfolding goes_on_def by blast

lemma goes_on_got:
  "goes_on x u None (asked x u op f) k tr r \<Longrightarrow> goes_on x u op ak k (Got f # tr) r"
  unfolding goes_on_def stream_ok.simps by blast

lemma goes_on_sent:
  "effect_event x ev \<Longrightarrow> goes_on x u (gated_id ev) None k tr r \<Longrightarrow> goes_on x u op ak k (Sent ev # tr) r"
  unfolding goes_on_def stream_ok.simps by blast

lemma fail_with_on: "sink_of x u ak s \<Longrightarrow> talks (fail_with k s e) tr r \<Longrightarrow> goes_on x u op ak k tr r"
  by (cases "streamSink_fail e s") (auto simp: fail_with_def dest: sink_of_failed intro: goes_on_now)

text \<open>A \<^verbatim>\<open>Send\<close> of an effect: it is lost, or it is an item and the run goes on behind it.\<close>

lemma send_on:
  assumes "sink_of x u ak s" "ss_parked s = None" "effect_event x ev" "talks (ConnSend ev K) tr r"
    "\<And>e. talks (K (Some e)) tr r \<Longrightarrow> goes_on x u op ak k tr r"
    "\<And>tr'. talks (K None) tr' r \<Longrightarrow> sink_of x u None s \<Longrightarrow> goes_on x u (gated_id ev) None k tr' r"
  shows "goes_on x u op ak k tr r"
proof -
  from assms(4) consider e where "talks (K (Some e)) tr r" | tr' where "tr = Sent ev # tr'" "talks (K None) tr' r"
    by auto
  then show ?thesis
  proof cases
    case 1
    then show ?thesis by (rule assms(5))
  next
    case 2
    show ?thesis
      unfolding 2(1) using assms(3) assms(6) [OF 2(2) sink_of_open [OF assms(1,2)]] by (rule goes_on_sent)
  qed
qed

lemma notice_on:
  assumes "sink_of x u ak s" "ss_parked s = None"
    "kd \<in> {EVENT_MODEL_CALL, EVENT_OUTPUT, EVENT_TOOL_CALL, EVENT_TOOL_RESULT, EVENT_USAGE}"
    "talks (ConnSend \<lparr>he_executionId = ss_executionID s, he_kind = kd, he_body = bd\<rparr> (\<lambda>err. k err s)) tr r"
  shows "goes_on x u op ak k tr r"
proof (rule send_on [OF assms(1,2) _ assms(4)])
  show "effect_event x \<lparr>he_executionId = ss_executionID s, he_kind = kd, he_body = bd\<rparr>"
    using assms(1,3) by (simp add: effect_event_def sink_of_def)
qed (auto intro: goes_on_now [OF assms(1)] goes_on_now)

lemma Output_on:
  assumes "sink_of x u ak s" "talks (streamSink_Output c d s k) tr r"
  shows "goes_on x u op ak k tr r"
proof -
  from talks_checked [OF assms(2) [unfolded streamSink_Output_def]] obtain a where a: "a = None \<longrightarrow> ss_parked s = None"
    "talks (case a of Some e \<Rightarrow> k (Some e) s | None \<Rightarrow>
       ConnSend \<lparr>he_executionId = ss_executionID s, he_kind = EVENT_OUTPUT,
                 he_body = Some (Hw_Message (msgToProto c (TextMessage ''assistant'' d)))\<rparr> (\<lambda>err. k err s)) tr r"
    by blast
  then show ?thesis
    by (cases a) (auto intro: goes_on_now [OF assms(1)] notice_on [OF assms(1)] simp del: talks_open)
qed

lemma Usage_on:
  assumes "sink_of x u ak s" "talks (streamSink_Usage n s k) tr r"
  shows "goes_on x u op ak k tr r"
proof -
  from talks_checked [OF assms(2) [unfolded streamSink_Usage_def]] obtain a where a: "a = None \<longrightarrow> ss_parked s = None"
    "talks (case a of Some e \<Rightarrow> k (Some e) s | None \<Rightarrow>
       ConnSend \<lparr>he_executionId = ss_executionID s, he_kind = EVENT_USAGE, he_body = Some (Hw_Usage n)\<rparr> (\<lambda>err. k err s)) tr r"
    by blast
  then show ?thesis
    by (cases a) (auto intro: goes_on_now [OF assms(1)] notice_on [OF assms(1)] simp del: talks_open)
qed

lemma Report_on:
  assumes "sink_of x u ak s" "talks (streamSink_Report c res s k) tr r"
  shows "goes_on x u op ak k tr r"
proof -
  from talks_checked [OF assms(2) [unfolded streamSink_Report_def]] obtain a where a: "a = None \<longrightarrow> ss_parked s = None"
    "talks (case a of Some e \<Rightarrow> k (Some e) s | None \<Rightarrow> (case rejectApprovalReport res of
          Some e \<Rightarrow> (let (e', s') = streamSink_fail e s in k (Some e') s')
        | None \<Rightarrow> ConnSend \<lparr>he_executionId = ss_executionID s, he_kind = EVENT_TOOL_RESULT,
                    he_body = Some (Hw_Result (toolResultToProto c res))\<rparr> (\<lambda>err. k err s))) tr r"
    by blast
  show ?thesis
  proof (cases "a = None \<and> rejectApprovalReport res \<noteq> None")
    case True
    obtain e' s' where f: "streamSink_fail (the (rejectApprovalReport res)) s = (e', s')" by fastforce
    then show ?thesis
      using a True by (auto intro: goes_on_now [OF sink_of_failed [OF assms(1) f]])
  next
    case False
    then show ?thesis
      using a by (cases a) (auto intro: goes_on_now [OF assms(1)] notice_on [OF assms(1)] simp del: talks_open)
  qed
qed

lemma Model_on:
  assumes "sink_of x u ak s" "talks (streamSink_Model c req s k) tr r"
  shows "goes_on x u op ak k tr r"
proof -
  note S = assms(1)
  from talks_checked [OF assms(2) [unfolded streamSink_Model_def]] obtain a where a: "a = None \<longrightarrow> ss_parked s = None"
    "talks (case a of Some e \<Rightarrow> k (Inl e) s | None \<Rightarrow>
     (case ToolChoiceToProto (mr_toolChoice req) of
        Inl e \<Rightarrow> k (Inl (errorf ''harnesswire: model call: '' e [])) s
      | Inr choice \<Rightarrow>
     ConnRandom (\<lambda>b. let i = hex_encode b in
     ConnSend (wire_model_call_event c s req choice i) (\<lambda>err. case err of Some e \<Rightarrow> k (Inl e) s | None \<Rightarrow>
     streamSink_awaitResult s (\<lambda>r. case r of Inl e \<Rightarrow> k (Inl e) s | Inr frame \<Rightarrow> k (streamSink_completion c i frame) s))))) tr r"
    by blast
  show ?thesis
  proof (cases "a = None \<and> (\<exists>ch. ToolChoiceToProto (mr_toolChoice req) = Inr ch)")
    case False
    then show ?thesis using a by (auto intro: goes_on_now [OF S] split: option.splits sum.splits)
  next
    case True
    then obtain ch where ch: "a = None" "ToolChoiceToProto (mr_toolChoice req) = Inr ch" by blast
    obtain b where b: "talks (ConnSend (wire_model_call_event c s req ch (hex_encode b)) (\<lambda>err. case err of Some e \<Rightarrow> k (Inl e) s | None \<Rightarrow>
     streamSink_awaitResult s (\<lambda>r. case r of Inl e \<Rightarrow> k (Inl e) s | Inr frame \<Rightarrow> k (streamSink_completion c (hex_encode b) frame) s))) tr r"
      using a(2) [unfolded ch option.case sum.case Let_def talks_simps(6)] by blast
    have p: "ss_parked s = None" using a(1) ch by simp
    have ev: "effect_event x (wire_model_call_event c s req ch (hex_encode b))"
      using S by (simp add: effect_event_def wire_model_call_event_def sink_of_def)
    show ?thesis
    proof (rule send_on [OF S p ev b])
      show "goes_on x u op ak k tr r" if "talks (case Some e of Some e \<Rightarrow> k (Inl e) s | None \<Rightarrow>
          streamSink_awaitResult s (\<lambda>r. case r of Inl e \<Rightarrow> k (Inl e) s | Inr frame \<Rightarrow> k (streamSink_completion c (hex_encode b) frame) s)) tr r" for e
        using that goes_on_now [OF S] by simp
    next
      fix tr' assume t: "talks (case None of Some e \<Rightarrow> k (Inl e) s | None \<Rightarrow>
          streamSink_awaitResult s (\<lambda>r. case r of Inl e \<Rightarrow> k (Inl e) s | Inr frame \<Rightarrow> k (streamSink_completion c (hex_encode b) frame) s)) tr' r"
        and "sink_of x u None s"
      have N: "sink_of x u ak' s" for ak' using S p by (rule sink_of_open)
      from t [unfolded option.case] show "goes_on x u (gated_id (wire_model_call_event c s req ch (hex_encode b))) None k tr' r"
        by (cases rule: talks_awaited) (auto intro: goes_on_now [OF N] goes_on_got)
    qed
  qed
qed

text \<open>A tool call may park; the park is the one the host has just asked for.\<close>

lemma receipt_on:
  assumes "sink_of x u ak s" "talks (streamSink_receipt c call ap frame s k) tr r"
  shows "goes_on x u op ak k tr r"
  using assms(2) fail_with_on [OF assms(1)] goes_on_now [OF assms(1)]
  by (auto simp: streamSink_receipt_def Let_def split: option.splits frame_body.splits if_splits)

lemma second_on:
  assumes "sink_of x u ak s" "talks (streamSink_awaitResult s (\<lambda>r. case r of Inl e \<Rightarrow> fail_with k s e | Inr frame' \<Rightarrow>
          if fr_session frame' \<noteq> ss_session s then fail_with k s e'
          else streamSink_receipt c call d frame' s k)) tr r"
  shows "goes_on x u op ak k tr r"
  using assms(2)
proof (cases rule: talks_awaited)
  case (woken e)
  then show ?thesis using fail_with_on [OF assms(1)] by simp
next
  case (dropped f tr' e)
  then show ?thesis by (auto intro!: goes_on_got fail_with_on [OF sink_of_open [OF assms(1)]])
next
  case (taken f tr')
  note N = sink_of_open [OF assms(1) taken(2)]
  show ?thesis
    unfolding taken(1) using taken(4) fail_with_on [OF N] receipt_on [OF N]
    by (intro goes_on_got) (auto split: if_splits)
qed

text \<open>The answer to a call that is the open one of the automaton.\<close>

lemma reply_on:
  assumes "sink_of x u None s" "fr_executionId frame = x" "talks (streamSink_reply c call frame s k) tr r"
    "gated call \<longrightarrow> op = Some (tc_id call)"
  shows "goes_on x u None (asked x u op frame) k tr r"
proof -
  have p: "ss_parked s = None" and xu: "ss_executionID s = x" "ss_session s = u" using assms(1) by (auto simp: sink_of_def)
  note N = sink_of_open [OF assms(1) p]
  note f = fail_with_on [OF N] and rc = receipt_on [OF N] and w = second_on [OF N]
  show ?thesis
  proof (cases "fr_session frame = ss_session s \<and> gated call")
    case True
    then have d: "talks (case fr_frame frame of
           Some (Frame_Park park) \<Rightarrow>
             if ref_executionID park \<noteq> ss_executionID s \<or> ref_toolCallID park \<noteq> tc_id call \<or> ref_requestSeq park \<le> 0
             then fail_with k s (ErrNew ''harnesswire: park correlation mismatch'')
             else (let ref = \<lparr>ref_executionID = ss_executionID s, ref_toolCallID = tc_id call, ref_requestSeq = ref_requestSeq park\<rparr>
                   in k (Inl (ApprovalParkedError ref)) (s\<lparr>ss_parked := Some ref\<rparr>))
         | Some (Frame_Approval decision) \<Rightarrow>
             if ar_toolCallID decision \<noteq> tc_id call \<or> ar_requestSeq decision \<le> 0
             then fail_with k s (ErrNew ''harnesswire: expected correlated approval before ToolResult'')
             else streamSink_awaitResult s (\<lambda>r. case r of Inl e \<Rightarrow> fail_with k s e | Inr frame' \<Rightarrow>
               if fr_session frame' \<noteq> ss_session s then fail_with k s (ErrNew ''harnesswire: tool result session mismatch'')
               else streamSink_receipt c call (Some decision) frame' s k)
         | _ \<Rightarrow> fail_with k s (ErrNew ''harnesswire: expected correlated approval before ToolResult'')) tr r"
      using assms(3) by (simp add: streamSink_reply_def gated_def)
    show ?thesis
    proof (cases "\<exists>park. fr_frame frame = Some (Frame_Park park) \<and>
        \<not> (ref_executionID park \<noteq> ss_executionID s \<or> ref_toolCallID park \<noteq> tc_id call \<or> ref_requestSeq park \<le> 0)")
      case True
      then obtain park where pk: "fr_frame frame = Some (Frame_Park park)" "0 < ref_requestSeq park"
        "ref_executionID park = ss_executionID s" "ref_toolCallID park = tc_id call" by auto
      then have park: "park = \<lparr>ref_executionID = ss_executionID s, ref_toolCallID = tc_id call, ref_requestSeq = ref_requestSeq park\<rparr>"
        (is "_ = ?ref") by (cases park) simp
      have "asked x u op frame = Some park"
        using pk xu assms(2,4) \<open>fr_session frame = ss_session s \<and> gated call\<close> by (simp add: asked_def)
      then have "sink_of x u (asked x u op frame) (s\<lparr>ss_parked := Some ?ref\<rparr>)"
        using xu park by (simp add: sink_of_def)
      moreover have "talks (k (Inl (ApprovalParkedError ?ref)) (s\<lparr>ss_parked := Some ?ref\<rparr>)) tr r"
        using d pk by (simp add: Let_def)
      ultimately show ?thesis by (rule goes_on_now)
    next
      case False
      then show ?thesis
        using d by (auto dest: f w split: option.splits frame_body.splits if_splits)
    qed
  next
    case False
    then show ?thesis
      using assms(3) by (auto simp: streamSink_reply_def gated_def dest: f rc split: if_splits)
  qed
qed

lemma ToolCall_on:
  assumes S: "sink_of x u ak s" and t: "talks (streamSink_ToolCall c call s k) tr r"
  shows "goes_on x u op ak k tr r"
proof -
  define ev where "ev = \<lparr>he_executionId = ss_executionID s, he_kind = EVENT_TOOL_CALL, he_body = Some (Hw_Tool (toolCallToProto c call))\<rparr>"
  define ans where "ans = streamSink_awaitResult s (\<lambda>r. case r of Inl e \<Rightarrow> fail_with k s e | Inr frame \<Rightarrow> streamSink_reply c call frame s k)"
  obtain a where a: "a = None \<longrightarrow> ss_parked s = None" "talks (case a of Some e \<Rightarrow> k (Inl e) s | None \<Rightarrow>
     if tc_mediation call = MediationRequiresApproval \<and> (ss_session s = [] \<or> tc_id call = [])
     then fail_with k s (ErrNew ''harnesswire: approval requires session and call id'')
     else ConnSend ev (\<lambda>err. case err of Some e \<Rightarrow> k (Inl e) s | None \<Rightarrow> ans)) tr r"
    using talks_checked [OF t [unfolded streamSink_ToolCall_def]] unfolding ev_def ans_def by blast
  show ?thesis
  proof (cases "a = None \<and> \<not> (gated call \<and> (ss_session s = [] \<or> tc_id call = []))")
    case False
    then show ?thesis
      using a(2) goes_on_now [OF S] fail_with_on [OF S] by (cases a) (auto simp: gated_def)
  next
    case True
    then have p: "ss_parked s = None" and id: "gated call \<longrightarrow> tc_id call \<noteq> []" using a(1) by auto
    note N = sink_of_open [OF S p]
    have ev: "effect_event x ev" using S by (simp add: effect_event_def sink_of_def ev_def)
    have g: "gated call \<longrightarrow> gated_id ev = Some (tc_id call)"
      using id by (simp add: gated_id_def ev_def toolCallToProto_def gated_def)
    have snd: "talks (ConnSend ev (\<lambda>err. case err of Some e \<Rightarrow> k (Inl e) s | None \<Rightarrow> ans)) tr r"
      using a(2) True by (auto simp: gated_def)
    show ?thesis
    proof (rule send_on [OF S p ev snd])
      show "goes_on x u op ak k tr r" if "talks (case Some e of Some e \<Rightarrow> k (Inl e) s | None \<Rightarrow> ans) tr r" for e
        using that goes_on_now [OF S] by simp
    next
      fix tr' assume "talks (case None of Some e \<Rightarrow> k (Inl e) s | None \<Rightarrow> ans) tr' r"
      then have "talks ans tr' r" by simp
      then show "goes_on x u (gated_id ev) None k tr' r"
        unfolding ans_def
      proof (cases rule: talks_awaited)
        case (woken e)
        then show ?thesis using fail_with_on [OF N] by simp
      next
        case (dropped f tr'' e)
        then show ?thesis by (simp del: stream_ok.simps) (intro goes_on_got fail_with_on [OF N])
      next
        case (taken f tr'')
        have "fr_executionId f = x" using taken(3) S by (simp add: sink_of_def)
        then show ?thesis
          unfolding taken(1) by (intro goes_on_got reply_on [OF N _ _ g]) (use taken(4) in simp_all)
      qed
    qed
  qed
qed

lemma goes_on_ok:
  assumes "goes_on x u op ak k tr r" "\<And>a s op ak tr r. sink_of x u ak s \<Longrightarrow> talks (k a s) tr r \<Longrightarrow> stream_ok x u op ak tr r"
  shows "stream_ok x u op ak tr r"
  using assms unfolding goes_on_def by blast

text \<open>Any error ends a stream that sends nothing more; a stream that returns nil has its last event.\<close>

lemma Connect_finish_ok:
  assumes "sink_of x u ak s" "talks (Connect_finish s e) tr r"
  shows "stream_ok x u op ak tr r"
  using assms by (auto simp: Connect_finish_def sink_of_def last_event_def split: option.splits if_splits)

lemma run_ok: "sink_of x u ak s \<Longrightarrow> talks (run_on_stream c p s) tr r \<Longrightarrow> stream_ok x u op ak tr r"
proof (induction p arbitrary: s op ak tr r)
  case (Return e)
  then show ?case using Connect_finish_ok [of x u ak "s\<lparr>ss_closed := True\<rparr>"] by (simp add: sink_of_def)
next
  case (CallModel req f)
  show ?case
    by (rule goes_on_ok [OF Model_on [OF CallModel.prems(1)]], use CallModel.prems(2) in simp, rule CallModel.IH [OF rangeI])
next
  case (CallOutput d f)
  show ?case
    by (rule goes_on_ok [OF Output_on [OF CallOutput.prems(1)]], use CallOutput.prems(2) in simp, rule CallOutput.IH [OF rangeI])
next
  case (CallToolCall tc f)
  show ?case
    by (rule goes_on_ok [OF ToolCall_on [OF CallToolCall.prems(1)]], use CallToolCall.prems(2) in simp, rule CallToolCall.IH [OF rangeI])
next
  case (CallReport res f)
  show ?case
    by (rule goes_on_ok [OF Report_on [OF CallReport.prems(1)]], use CallReport.prems(2) in simp, rule CallReport.IH [OF rangeI])
next
  case (CallUsage n f)
  show ?case
    by (rule goes_on_ok [OF Usage_on [OF CallUsage.prems(1)]], use CallUsage.prems(2) in simp, rule CallUsage.IH [OF rangeI])
qed

subsection \<open>The handler\<close>

definition opens_stream :: "ctl_frame \<Rightarrow> bool" where
  "opens_stream f \<longleftrightarrow> (\<exists>st. fr_frame f = Some (Frame_Start st)) \<and> fr_executionId f \<noteq> []"

text \<open>
  (C13) A stream ends once, and says how.  Whatever the harness does, whatever frames the host sends, whether sends
  fail, contexts end or the client goes away: the handler of \<^verbatim>\<open>Connect\<close> either returns an error having sent
  nothing, because the first frame did not arrive or is not a Start frame with an execution id, or every event it
  sends carries the execution id of the Start frame.  All but the last of these are the five kinds of effects.  END or
  PARKED is the last item of the stream or is not sent at all, and the handler returns nil only after it delivered
  one of them; it returns the error that its END with FAILED names.  A PARKED event is sent only as the item that
  follows, first, the TOOL_CALL of a call that requires approval and, next, a Park frame of the host with the session
  and the execution of the Start frame, for that call, with a positive request sequence; it repeats that frame's
  reference.
\<close>

theorem stream_ends_once:
  assumes "talks (Server_Connect c har) tr r"
  shows "tr = [] \<and> r \<noteq> None
       \<or> (\<exists>first. tr = [Got first] \<and> \<not> opens_stream first \<and> r \<noteq> None)
       \<or> (\<exists>first rest. tr = Got first # rest \<and> opens_stream first
            \<and> stream_ok (fr_executionId first) (fr_session first) None None rest r)"
proof -
  have run: "stream_ok x u None None tr r" if "talks (run_on_stream c p \<lparr>ss_executionID = x, ss_session = u, ss_closed = False, ss_parked = None, ss_failure = None\<rparr>) tr r" for x u p tr
    by (rule run_ok [OF _ that]) (simp add: sink_of_def)
  from assms [unfolded Server_Connect_def talks_simps(3)] consider (none) e where "talks (ConnReturn (Some e)) tr r"
    | (frame) first rest where "tr = Got first # rest" "talks (case fr_frame first of
          Some (Frame_Start start) \<Rightarrow>
            if fr_executionId first = [] then ConnReturn (Some (ErrNew ''harnesswire: Start frame requires execution_id''))
            else run_on_stream c
              (har ((startFromProto c start)\<lparr>st_executionID := fr_executionId first, st_sessionUID := fr_session first\<rparr>))
              \<lparr>ss_executionID = fr_executionId first, ss_session = fr_session first, ss_closed = False, ss_parked = None, ss_failure = None\<rparr>
        | _ \<Rightarrow> ConnReturn (Some (ErrNew ''harnesswire: first ControllerFrame must be Start''))) rest r"
    by auto
  then show ?thesis
  proof cases
    case none
    then show ?thesis by simp
  next
    case frame
    show ?thesis
    proof (cases "opens_stream first")
      case True
      then obtain st where st: "fr_frame first = Some (Frame_Start st)" "fr_executionId first \<noteq> []"
        by (auto simp: opens_stream_def)
      have "stream_ok (fr_executionId first) (fr_session first) None None rest r"
        using frame(2) by (intro run) (simp add: st)
      then show ?thesis using True frame(1) by blast
    next
      case False
      then have "rest = [] \<and> r \<noteq> None"
        using frame(2) by (auto simp: opens_stream_def split: option.splits frame_body.splits if_splits)
      then show ?thesis using False frame(1) by blast
    qed
  qed
qed

text \<open>A turn that asks for approval, and a host that parks it.\<close>

definition gated_call_example :: tool_call where
  "gated_call_example = \<lparr>tc_id = ''t1'', tc_tool = ''rm'', tc_args = None,
     tc_mediation = MediationRequiresApproval, tc_idempotencyKey = []\<rparr>"

definition park_ref_example :: approval_ref where
  "park_ref_example = \<lparr>ref_executionID = ''a1'', ref_toolCallID = ''t1'', ref_requestSeq = 7\<rparr>"

definition start_frame_example :: ctl_frame where
  "start_frame_example = \<lparr>fr_session = ''s1'', fr_executionId = ''a1'', fr_frame =
     Some (Frame_Start \<lparr>psr_config = [], psr_history = [], psr_inputs = [], psr_resumeFromSeq = 0\<rparr>)\<rparr>"

definition park_frame_example :: ctl_frame where
  "park_frame_example = \<lparr>fr_session = ''s1'', fr_executionId = ''a1'', fr_frame = Some (Frame_Park park_ref_example)\<rparr>"

definition parked_stream_example :: "item list" where
  "parked_stream_example =
     [Got start_frame_example,
      Sent \<lparr>he_executionId = ''a1'', he_kind = EVENT_TOOL_CALL, he_body = Some (Hw_Tool (toolCallToProto plain_codec gated_call_example))\<rparr>,
      Got park_frame_example,
      Sent \<lparr>he_executionId = ''a1'', he_kind = EVENT_PARKED, he_body = Some (Hw_Parked park_ref_example)\<rparr>]"

lemma talks_check_pass:
  assumes "ss_parked s = None" "ss_failure s = None" "\<not> ss_closed s" "talks (k None) tr r"
  shows "talks (streamSink_check s k) tr r"
  using assms by (auto simp: streamSink_check_def intro!: exI [of _ None] exI [of _ False])

lemma talks_await_pass:
  assumes "ss_parked s = None" "ss_failure s = None" "\<not> ss_closed s" "fr_executionId f = ss_executionID s"
    "talks (k (Inr f)) tr r"
  shows "talks (streamSink_awaitResult s k) (Got f # tr) r"
  unfolding streamSink_awaitResult_def
proof (rule talks_check_pass [OF assms(1-3)], unfold option.case, rule talks_await, unfold await.case,
    rule talks_check_pass [OF assms(1-3)], unfold option.case)
  show "talks (if fr_executionId f \<noteq> ss_executionID s
      then k (Inl (ErrNew (''harnesswire: result execution_id mismatch: got '' @ format_q (fr_executionId f)
                @ '', want '' @ format_q (ss_executionID s)))) else k (Inr f)) tr r"
    unfolding assms(4) using assms(5) by simp
qed

definition asking_harness :: "start \<Rightarrow> run" where
  "asking_harness st = CallToolCall gated_call_example (\<lambda>r. Return (case r of Inl e \<Rightarrow> Some e | Inr _ \<Rightarrow> None))"

lemma parked_stream_talks: "talks (Server_Connect plain_codec asking_harness) parked_stream_example None"
proof -
  define s where "s = \<lparr>ss_executionID = ''a1'', ss_session = ''s1'', ss_closed = False, ss_parked = None, ss_failure = None\<rparr>"
  define K where "K = (\<lambda>r. run_on_stream plain_codec (Return (case r :: goerr + tool_result of Inl e \<Rightarrow> Some e | Inr _ \<Rightarrow> None)))"
  have fin: "talks (K (Inl (ApprovalParkedError park_ref_example)) (s\<lparr>ss_parked := Some park_ref_example\<rparr>))
      [Sent \<lparr>he_executionId = ''a1'', he_kind = EVENT_PARKED, he_body = Some (Hw_Parked park_ref_example)\<rparr>] None"
    by (simp add: K_def s_def Connect_finish_def IsParkUnwind_def)
  have rep: "talks (streamSink_reply plain_codec gated_call_example park_frame_example s K)
      [Sent \<lparr>he_executionId = ''a1'', he_kind = EVENT_PARKED, he_body = Some (Hw_Parked park_ref_example)\<rparr>] None"
    using fin by (simp add: streamSink_reply_def park_frame_example_def gated_call_example_def s_def park_ref_example_def Let_def)
  have "talks (streamSink_ToolCall plain_codec gated_call_example s K) (tl parked_stream_example) None"
    unfolding streamSink_ToolCall_def
  proof (rule talks_check_pass, unfold option.case)
    let ?ev = "\<lparr>he_executionId = ss_executionID s, he_kind = EVENT_TOOL_CALL, he_body = Some (Hw_Tool (toolCallToProto plain_codec gated_call_example))\<rparr>"
    have id: "\<not> (tc_mediation gated_call_example = MediationRequiresApproval \<and> (ss_session s = [] \<or> tc_id gated_call_example = []))"
      and tl: "tl parked_stream_example = Sent ?ev # Got park_frame_example #
        [Sent \<lparr>he_executionId = ''a1'', he_kind = EVENT_PARKED, he_body = Some (Hw_Parked park_ref_example)\<rparr>]"
      by (simp_all add: gated_call_example_def s_def parked_stream_example_def)
    have "talks (streamSink_awaitResult s (\<lambda>r. case r of Inl e \<Rightarrow> fail_with K s e
          | Inr frame \<Rightarrow> streamSink_reply plain_codec gated_call_example frame s K)) (tl (tl parked_stream_example)) None"
      unfolding tl list.sel by (rule talks_await_pass) (simp_all add: s_def park_frame_example_def rep [unfolded s_def park_frame_example_def])
    then show "talks (if tc_mediation gated_call_example = MediationRequiresApproval \<and> (ss_session s = [] \<or> tc_id gated_call_example = [])
        then fail_with K s (ErrNew ''harnesswire: approval requires session and call id'')
        else ConnSend ?ev (\<lambda>err. case err of Some e \<Rightarrow> K (Inl e) s | None \<Rightarrow>
          streamSink_awaitResult s (\<lambda>r. case r of Inl e \<Rightarrow> fail_with K s e
          | Inr frame \<Rightarrow> streamSink_reply plain_codec gated_call_example frame s K))) (tl parked_stream_example) None"
      unfolding if_not_P [OF id] tl list.sel by (intro talks_send) simp
  qed (simp_all add: s_def)
  then show ?thesis
    unfolding Server_Connect_def talks_simps(3)
    by (simp add: parked_stream_example_def start_frame_example_def asking_harness_def s_def K_def)
qed

theorem stream_ends_once_witness:
  "talks (Server_Connect plain_codec asking_harness)
     parked_stream_example None
   \<and> opens_stream start_frame_example \<and> stream_ok ''a1'' ''s1'' None None (tl parked_stream_example) None"
proof -
  have "fr_executionId start_frame_example = ''a1''" "fr_session start_frame_example = ''s1''"
    by (simp_all add: start_frame_example_def)
  then show ?thesis
    using stream_ends_once [OF parked_stream_talks] parked_stream_talks by (auto simp: parked_stream_example_def simp del: stream_ok.simps)
qed

end
