(* ===== verification/Substrate.thy ===== *)
theory Substrate
  imports Placement Service_Errors
begin

text \<open>
  The runtimes: \<^verbatim>\<open>runtime/substrate/substrate.go\<close>, which drives actors through a control plane and can clone
  memory snapshots, \<^verbatim>\<open>runtime/local\<close> and \<^verbatim>\<open>runtime/remote\<close>, which hand out the address of a harness that
  is already there, and the translation of the actor states in \<^verbatim>\<open>integrations/substrate/adapter.go\<close>.

  The control plane (\<^verbatim>\<open>ControlClient\<close>, \<^verbatim>\<open>SnapshotCloner\<close>) is a service: its methods are parameters, functions
  of the context they are called under and of the plane's state \<open>'w\<close>, which they return updated.  That
  state is whatever it is: between two calls other clients and the router may have changed it, and those
  changes are part of the later call's function.  A context is either the caller's, which may be cancelled
  or have expired, or the detached one of a clean-up.
\<close>

section \<open>The control plane's interface\<close>

datatype actor_status = StatusUnknown | StatusRunning | StatusSuspended | StatusTerminated

text \<open>\<^verbatim>\<open>%v\<close> of a status: an \<^verbatim>\<open>int\<close> with no \<^verbatim>\<open>String\<close> method.\<close>

fun status_number :: "actor_status \<Rightarrow> int" where
  "status_number StatusUnknown = 0"
| "status_number StatusRunning = 1"
| "status_number StatusSuspended = 2"
| "status_number StatusTerminated = 3"

record actor_ref =
  ar_atespace :: string
  ar_name :: string

record object_ref =
  or_atespace :: string
  or_name :: string

record actor_info =
  ai_status :: actor_status
  ai_worker :: string
  ai_snapshot :: string

record snapshot_id =
  si_atespace :: string
  si_name :: string

datatype call_ctx = CallerCtx | CleanupCtx

record 'w snapshot_cloner =
  cl_TagActor :: "call_ctx \<Rightarrow> actor_ref \<Rightarrow> snapshot_id \<Rightarrow> 'w \<Rightarrow> goerr option \<times> 'w"
  cl_CreateActorFromTag :: "call_ctx \<Rightarrow> actor_ref \<Rightarrow> object_ref \<Rightarrow> snapshot_id \<Rightarrow> 'w \<Rightarrow> goerr option \<times> 'w"
  cl_DeleteTag :: "call_ctx \<Rightarrow> snapshot_id \<Rightarrow> 'w \<Rightarrow> goerr option \<times> 'w"

text \<open>\<open>cc_cloner\<close> is the type assertion \<^verbatim>\<open>b.ctl.(SnapshotCloner)\<close>.\<close>

record 'w control_client =
  cc_CreateActor :: "call_ctx \<Rightarrow> actor_ref \<Rightarrow> object_ref \<Rightarrow> 'w \<Rightarrow> goerr option \<times> 'w"
  cc_ResumeActor :: "call_ctx \<Rightarrow> actor_ref \<Rightarrow> 'w \<Rightarrow> (goerr + actor_info) \<times> 'w"
  cc_SuspendActor :: "call_ctx \<Rightarrow> actor_ref \<Rightarrow> 'w \<Rightarrow> (goerr + string) \<times> 'w"
  cc_DeleteActor :: "call_ctx \<Rightarrow> actor_ref \<Rightarrow> 'w \<Rightarrow> goerr option \<times> 'w"
  cc_GetActor :: "call_ctx \<Rightarrow> actor_ref \<Rightarrow> 'w \<Rightarrow> (goerr + actor_info) \<times> 'w"
  cc_cloner :: "'w snapshot_cloner option"

definition ErrActorNotFound :: goerr where
  "ErrActorNotFound = ErrNew ''substrate: actor not found''"

definition ErrTagExists :: goerr where
  "ErrTagExists = ErrNew ''substrate: tag already exists''"

section \<open>The backend\<close>

record 'w substrate_backend =
  sb_ctl :: "'w control_client"
  sb_atespace :: string
  sb_template :: object_ref
  sb_descriptor :: descriptor
  sb_router :: string

definition DefaultRouterAddress :: string where
  "DefaultRouterAddress = ''atenet-router.ate-system.svc:80''"

definition TargetActorHeader :: string where
  "TargetActorHeader = ''ate-target-actor''"

text \<open>\<^verbatim>\<open>New\<close>, with the option \<^verbatim>\<open>WithRouter\<close> (\<open>None\<close>: not given).\<close>

definition NewSubstrate ::
  "'w control_client \<Rightarrow> string \<Rightarrow> object_ref \<Rightarrow> descriptor \<Rightarrow> string option \<Rightarrow> 'w substrate_backend" where
  "NewSubstrate ctl space template desc router =
     (let r = (case router of None \<Rightarrow> DefaultRouterAddress | Some a \<Rightarrow> a) in
      \<lparr>sb_ctl = ctl, sb_atespace = space, sb_template = template, sb_descriptor = desc,
       sb_router = (if r = [] then DefaultRouterAddress else r)\<rparr>)"

definition sub_Describe :: "'w substrate_backend \<Rightarrow> goerr + descriptor" where
  "sub_Describe b = Inr (sb_descriptor b)"

definition actor_of :: "'w substrate_backend \<Rightarrow> string \<Rightarrow> actor_ref" where
  "actor_of b name = \<lparr>ar_atespace = sb_atespace b, ar_name = name\<rparr>"

definition forkTag :: "string \<Rightarrow> string" where
  "forkTag childUID = ''fork-'' @ childUID"

definition fork_tag_of :: "'w substrate_backend \<Rightarrow> string \<Rightarrow> snapshot_id" where
  "fork_tag_of b child = \<lparr>si_atespace = sb_atespace b, si_name = forkTag child\<rparr>"

definition err_inc :: "goerr \<Rightarrow> incarnation \<times> goerr option" where
  "err_inc e = (zero_incarnation, Some e)"

definition sub_incarnation :: "'w substrate_backend \<Rightarrow> string \<Rightarrow> actor_info \<Rightarrow> incarnation \<times> goerr option" where
  "sub_incarnation b uid info =
     (if ai_status info \<noteq> StatusRunning then
        err_inc (ErrNew (''substrate: actor '' @ format_q uid @ '' is '' @ format_int (status_number (ai_status info))
          @ '' after resume, want running''))
      else (zero_incarnation\<lparr>inc_id := uid, inc_worker := ai_worker info, inc_address := sb_router b,
              inc_callMetadata := [(TargetActorHeader, sb_atespace b @ ''/'' @ uid)],
              inc_runtime := ''substrate''\<rparr>, None))"

definition sub_errCreateRequiresSessionSpec :: goerr where
  "sub_errCreateRequiresSessionSpec = ErrNew ''substrate: create requires a session spec''"

definition sub_errCreateRequiresSessionUID :: goerr where
  "sub_errCreateRequiresSessionUID = ErrNew ''substrate: create requires a session uid''"

text \<open>A resume whose outcome becomes an incarnation: the tail that three operations share.\<close>

definition resume_into ::
  "'w substrate_backend \<Rightarrow> call_ctx \<Rightarrow> string \<Rightarrow> string \<Rightarrow> 'w \<Rightarrow> (incarnation \<times> goerr option) \<times> 'w" where
  "resume_into b ctx uid what w =
     (case cc_ResumeActor (sb_ctl b) ctx (actor_of b uid) w of
        (Inl err, w1) \<Rightarrow> (err_inc (errorf what err []), w1)
      | (Inr info, w1) \<Rightarrow> (sub_incarnation b uid info, w1))"

text \<open>The spec is \<^verbatim>\<open>*api.SessionSpec\<close>, of which only the uid is read; \<open>None\<close> is \<^verbatim>\<open>nil\<close>.\<close>

definition sub_Create ::
  "'w substrate_backend \<Rightarrow> call_ctx \<Rightarrow> string option \<Rightarrow> 'w \<Rightarrow> (incarnation \<times> goerr option) \<times> 'w" where
  "sub_Create b ctx spec w =
     (case spec of
        None \<Rightarrow> (err_inc sub_errCreateRequiresSessionSpec, w)
      | Some uid \<Rightarrow>
          if uid = [] then (err_inc sub_errCreateRequiresSessionUID, w)
          else
            (case cc_GetActor (sb_ctl b) ctx (actor_of b uid) w of
               (Inr info, w1) \<Rightarrow>
                 if ai_status info = StatusRunning then (sub_incarnation b uid info, w1)
                 else if ai_status info = StatusSuspended
                 then resume_into b ctx uid ''substrate: resume suspended actor: '' w1
                 else (err_inc (ErrNew (''substrate: actor '' @ format_q uid @ '' is in state ''
                        @ format_int (status_number (ai_status info)) @ '', not placeable'')), w1)
             | (Inl err, w1) \<Rightarrow>
                 if \<not> errors_is err ErrActorNotFound
                 then (err_inc (errorf ''substrate: get actor: '' err []), w1)
                 else
                   (case cc_CreateActor (sb_ctl b) ctx (actor_of b uid) (sb_template b) w1 of
                      (Some e, w2) \<Rightarrow> (err_inc (errorf ''substrate: create actor: '' e []), w2)
                    | (None, w2) \<Rightarrow> resume_into b ctx uid ''substrate: resume actor: '' w2)))"

datatype snapshot_kind = SnapshotLocal | SnapshotExternal | SnapshotKindOther string

definition sub_Snapshot ::
  "'w substrate_backend \<Rightarrow> call_ctx \<Rightarrow> string \<Rightarrow> snapshot_kind \<Rightarrow> 'w \<Rightarrow> (goerr + snapshot_ref) \<times> 'w" where
  "sub_Snapshot b ctx uid kind w =
     (if kind = SnapshotLocal
      then (Inl (ErrNew ''substrate: local (warm) snapshot not supported; use EXTERNAL''), w)
      else
        (case cc_SuspendActor (sb_ctl b) ctx (actor_of b uid) w of
           (Inl err, w1) \<Rightarrow> (Inl (errorf ''substrate: suspend actor: '' err []), w1)
         | (Inr uri, w1) \<Rightarrow>
             (Inr \<lparr>sr_local = uid, sr_externalURI = uri, sr_memory = True, sr_sealed = False\<rparr>, w1)))"

definition sub_Restore ::
  "'w substrate_backend \<Rightarrow> call_ctx \<Rightarrow> snapshot_ref \<Rightarrow> 'w \<Rightarrow> (incarnation \<times> goerr option) \<times> 'w" where
  "sub_Restore b ctx ref w =
     (if sr_local ref = [] then (err_inc (ErrNew ''substrate: snapshot ref missing actor name''), w)
      else resume_into b ctx (sr_local ref) ''substrate: resume (restore) actor: '' w)"

definition sub_Stop :: "'w substrate_backend \<Rightarrow> call_ctx \<Rightarrow> string \<Rightarrow> 'w \<Rightarrow> goerr option \<times> 'w" where
  "sub_Stop b ctx uid w =
     (case cc_SuspendActor (sb_ctl b) ctx (actor_of b uid) w of
        (Inl err, w1) \<Rightarrow> (Some (errorf ''substrate: suspend before delete: '' err []), w1)
      | (Inr _, w1) \<Rightarrow>
          (case cc_DeleteActor (sb_ctl b) ctx (actor_of b uid) w1 of
             (Some err, w2) \<Rightarrow> (Some (errorf ''substrate: delete actor: '' err []), w2)
           | (None, w2) \<Rightarrow>
               (case cc_cloner (sb_ctl b) of
                  None \<Rightarrow> (None, w2)
                | Some cl \<Rightarrow> (None, snd (cl_DeleteTag cl ctx (fork_tag_of b uid) w2)))))"

definition sub_Status :: "'w substrate_backend \<Rightarrow> call_ctx \<Rightarrow> string \<Rightarrow> 'w \<Rightarrow> (goerr + compute_state) \<times> 'w" where
  "sub_Status b ctx uid w =
     (case cc_GetActor (sb_ctl b) ctx (actor_of b uid) w of
        (Inl err, w1) \<Rightarrow> (Inl (errorf ''substrate: get actor: '' err []), w1)
      | (Inr info, w1) \<Rightarrow>
          (Inr (case ai_status info of
                  StatusRunning \<Rightarrow> ComputeLive
                | StatusSuspended \<Rightarrow> ComputeCold
                | StatusTerminated \<Rightarrow> ComputeTerminated
                | StatusUnknown \<Rightarrow> ComputeNone), w1))"

definition sub_Capabilities :: runtime_capabilities where
  "sub_Capabilities = \<lparr>rc_memorySnapshot = True, rc_coWFork = False, rc_attest = False, rc_gpuState = False\<rparr>"

section \<open>Forking\<close>

definition ErrNoSnapshotToClone :: goerr where
  "ErrNoSnapshotToClone = ErrNew ''substrate: fork of a memory-snapshot harness needs a parent snapshot''"

definition sub_ErrSnapshotSuperseded :: goerr where
  "sub_ErrSnapshotSuperseded =
     errorf ''substrate: parent snapshot was superseded before the fork could tag it: '' ErrSnapshotSuperseded []"

definition requireSnapshot ::
  "'w substrate_backend \<Rightarrow> call_ctx \<Rightarrow> string \<Rightarrow> string \<Rightarrow> 'w \<Rightarrow> goerr option \<times> 'w" where
  "requireSnapshot b ctx parent snapshot w =
     (case cc_GetActor (sb_ctl b) ctx (actor_of b parent) w of
        (Inl err, w1) \<Rightarrow> (Some (errorf (''substrate: get fork parent '' @ format_q parent @ '': '') err []), w1)
      | (Inr info, w1) \<Rightarrow>
          if ai_status info \<noteq> StatusSuspended \<or> ai_snapshot info \<noteq> snapshot then
            (Some (errorf [] sub_ErrSnapshotSuperseded ('': parent '' @ format_q parent @ '' is ''
               @ format_int (status_number (ai_status info)) @ '' holding '' @ format_q (ai_snapshot info)
               @ '', want suspended holding '' @ format_q snapshot)), w1)
          else (None, w1))"

definition destroyChild :: "'w substrate_backend \<Rightarrow> string \<Rightarrow> 'w \<Rightarrow> 'w" where
  "destroyChild b child w = snd (sub_Stop b CleanupCtx child w)"

definition releaseForkTag :: "'w substrate_backend \<Rightarrow> 'w snapshot_cloner \<Rightarrow> string \<Rightarrow> 'w \<Rightarrow> 'w" where
  "releaseForkTag b cl child w = snd (cl_DeleteTag cl CleanupCtx (fork_tag_of b child) w)"

text \<open>The child exists and borrows the tag: resume it, or tear it down.\<close>

definition start_clone :: "'w substrate_backend \<Rightarrow> call_ctx \<Rightarrow> string \<Rightarrow> 'w \<Rightarrow> (incarnation \<times> goerr option) \<times> 'w" where
  "start_clone b ctx child w =
     (case cc_ResumeActor (sb_ctl b) ctx (actor_of b child) w of
        (Inl err, w1) \<Rightarrow> (err_inc (errorf ''substrate: resume cloned actor: '' err []), destroyChild b child w1)
      | (Inr info, w1) \<Rightarrow>
          (case sub_incarnation b child info of
             (_, Some err) \<Rightarrow> (err_inc err, destroyChild b child w1)
           | (inc, None) \<Rightarrow> ((inc, None), w1)))"

definition clone_fork ::
  "'w substrate_backend \<Rightarrow> call_ctx \<Rightarrow> 'w snapshot_cloner \<Rightarrow> snapshot_ref \<Rightarrow> string \<Rightarrow> 'w \<Rightarrow>
     (incarnation \<times> goerr option) \<times> 'w" where
  "clone_fork b ctx cl ref child w =
     (let parent = sr_local ref; tag = fork_tag_of b child in
      case requireSnapshot b ctx parent (sr_externalURI ref) w of
        (Some err, w1) \<Rightarrow> (err_inc err, w1)
      | (None, w1) \<Rightarrow>
          (case cl_TagActor cl ctx (actor_of b parent) tag w1 of
             (Some err, w2) \<Rightarrow>
               (err_inc (errorf (''substrate: tag parent '' @ format_q parent @ '': '') err []),
                if \<not> errors_is err ErrTagExists then releaseForkTag b cl child w2 else w2)
           | (None, w2) \<Rightarrow>
               (case requireSnapshot b ctx parent (sr_externalURI ref) w2 of
                  (Some err, w3) \<Rightarrow> (err_inc err, releaseForkTag b cl child w3)
                | (None, w3) \<Rightarrow>
                    (case cl_CreateActorFromTag cl ctx (actor_of b child) (sb_template b) tag w3 of
                       (Some err, w4) \<Rightarrow>
                         (err_inc (errorf (''substrate: create actor from tag '' @ format_q (si_name tag) @ '': '') err []),
                          releaseForkTag b cl child w4)
                     | (None, w4) \<Rightarrow> start_clone b ctx child w4))))"

definition sub_Fork ::
  "'w substrate_backend \<Rightarrow> call_ctx \<Rightarrow> snapshot_ref \<Rightarrow> string \<Rightarrow> 'w \<Rightarrow> (incarnation \<times> goerr option) \<times> 'w" where
  "sub_Fork b ctx ref child w =
     (if child = [] then (err_inc (ErrNew ''substrate: fork requires a child session uid''), w)
      else if cap_resumability (desc_capabilities (sb_descriptor b)) \<noteq> ResumabilityRequiresMemorySnapshot then
        (case sub_Create b ctx (Some child) w of
           ((inc, Some err), w1) \<Rightarrow> ((inc, Some err), destroyChild b child w1)
         | ((inc, None), w1) \<Rightarrow> ((inc, None), w1))
      else
        (case cc_cloner (sb_ctl b) of
           None \<Rightarrow> (err_inc (errorf [] ErrNoSnapshotToClone '': control client does not implement SnapshotCloner''), w)
         | Some cl \<Rightarrow>
             if sr_externalURI ref = []
             then (err_inc (errorf [] ErrNoSnapshotToClone '': snapshot the parent before forking''), w)
             else clone_fork b ctx cl ref child w))"

text \<open>\<^verbatim>\<open>substrateErrorKind\<close>, what the logs say of an error.\<close>

definition substrateErrorKind :: "goerr option \<Rightarrow> string" where
  "substrateErrorKind err =
     (case err of
        None \<Rightarrow> []
      | Some e \<Rightarrow>
          if errors_is e ContextCanceled then ''canceled''
          else if errors_is e ContextDeadlineExceeded then ''deadline_exceeded''
          else if errors_is e sub_errCreateRequiresSessionSpec \<or> errors_is e sub_errCreateRequiresSessionUID
          then ''invalid_spec''
          else if errors_is e sub_ErrSnapshotSuperseded then ''snapshot_superseded''
          else ''runtime_operation_failed'')"

end
