(* ===== verification/Runtimes.thy ===== *)
theory Runtimes
  imports Substrate
begin

text \<open>
  The other two runtimes, how a turn reaches the harness an incarnation names, and the adapter that gives
  \<open>Substrate\<close> its control plane.  \<^verbatim>\<open>runtime/local\<close> serves one harness on a unix socket it opens on first
  use; \<^verbatim>\<open>runtime/remote\<close> hands out a configured address and keeps one client connection for \<^verbatim>\<open>Describe\<close>.
  Listening, opening and closing gRPC connections, the directory of the sockets and the generated client
  of the control plane are parameters.
\<close>

section \<open>Addresses\<close>

definition unix_scheme :: string where
  "unix_scheme = ''unix://''"

text \<open>\<^verbatim>\<open>strings.CutPrefix(address, "unix://")\<close>.\<close>

definition cut_unix :: "string \<Rightarrow> string option" where
  "cut_unix a = (if take (length unix_scheme) a = unix_scheme then Some (drop (length unix_scheme) a) else None)"

lemma cut_unix_app [simp]: "cut_unix (unix_scheme @ s) = Some s"
  by (simp add: cut_unix_def)

text \<open>What a gRPC client connects to: a socket through a dialer of its own, or a target for gRPC's resolver.\<close>

datatype endpoint = UnixSocket string | GrpcTarget string

definition endpoint_of :: "string \<Rightarrow> endpoint" where
  "endpoint_of a = (case cut_unix a of Some sock \<Rightarrow> UnixSocket sock | None \<Rightarrow> GrpcTarget a)"

definition addressTransport :: "string \<Rightarrow> string" where
  "addressTransport a = (if cut_unix a \<noteq> None then ''unix'' else ''tcp'')"

section \<open>Call metadata\<close>

text \<open>
  \<^verbatim>\<open>metadata.MD\<close>: a map from keys to their values, with no key twice.  \<^verbatim>\<open>metadata.New\<close> is gRPC's own and a
  parameter, \<open>mdNew\<close>.
\<close>

definition withCallMetadata ::
  "(string \<times> string list) list \<Rightarrow> (string \<times> string list) list \<Rightarrow> (string \<times> string list) list" where
  "withCallMetadata out md = fold (\<lambda>(k, v). AList.update k v) md out"

section \<open>Dialing an incarnation\<close>

text \<open>
  An open client: where it connects to, and what it adds to the outgoing metadata of a call.
  \<open>newClient\<close> is \<^verbatim>\<open>grpc.NewClient\<close>, which may refuse the target.
\<close>

record client_conn =
  cn_endpoint :: endpoint
  cn_metadata :: "(string \<times> string) list"

definition call_out ::
  "((string \<times> string) list \<Rightarrow> (string \<times> string list) list) \<Rightarrow> client_conn \<Rightarrow> (string \<times> string list) list \<Rightarrow>
     (string \<times> string list) list" where
  "call_out mdNew c out =
     (if cn_metadata c = [] then out else withCallMetadata out (mdNew (cn_metadata c)))"

definition unixDial ::
  "(endpoint \<Rightarrow> goerr option) \<Rightarrow> string \<Rightarrow> (string \<times> string) list \<Rightarrow> goerr + client_conn" where
  "unixDial newClient sock md =
     (case newClient (UnixSocket sock) of
        Some err \<Rightarrow> Inl (errorf (''placement: dial unix '' @ sock @ '': '') err [])
      | None \<Rightarrow> Inr \<lparr>cn_endpoint = UnixSocket sock, cn_metadata = md\<rparr>)"

definition tcpDial ::
  "(endpoint \<Rightarrow> goerr option) \<Rightarrow> string \<Rightarrow> (string \<times> string) list \<Rightarrow> goerr + client_conn" where
  "tcpDial newClient address md =
     (case newClient (GrpcTarget address) of
        Some err \<Rightarrow> Inl (errorf (''placement: dial '' @ address @ '': '') err [])
      | None \<Rightarrow> Inr \<lparr>cn_endpoint = GrpcTarget address, cn_metadata = md\<rparr>)"

definition DefaultDial :: "(endpoint \<Rightarrow> goerr option) \<Rightarrow> incarnation \<Rightarrow> goerr + client_conn" where
  "DefaultDial newClient inc =
     (case cut_unix (inc_address inc) of
        Some sock \<Rightarrow> unixDial newClient sock (inc_callMetadata inc)
      | None \<Rightarrow> tcpDial newClient (inc_address inc) (inc_callMetadata inc))"

section \<open>The in-process runtime\<close>

text \<open>
  \<open>lb_srv\<close> is the socket the running server listens on; \<open>lb_seq\<close> the process-wide \<^verbatim>\<open>socketSeq\<close>.  The
  environment: where the n-th socket lies (\<open>sockPath\<close>) and whether listening there works (\<open>listen\<close>).
\<close>

record local_backend =
  lb_worker :: string
  lb_srv :: "string option"
  lb_sock :: string
  lb_addr :: string
  lb_seq :: nat

text \<open>\<^verbatim>\<open>New\<close>: a host name that cannot be read is \<^verbatim>\<open>local\<close>.\<close>

definition NewLocal :: "string \<Rightarrow> int \<Rightarrow> nat \<Rightarrow> local_backend" where
  "NewLocal hostname pid seq =
     \<lparr>lb_worker = (if hostname = [] then ''local'' else hostname) @ ''/'' @ format_int pid,
      lb_srv = None, lb_sock = [], lb_addr = [], lb_seq = seq\<rparr>"

definition local_start ::
  "(nat \<Rightarrow> string) \<Rightarrow> (string \<Rightarrow> goerr option) \<Rightarrow> local_backend \<Rightarrow> (goerr + string) \<times> local_backend" where
  "local_start sockPath listen b =
     (if lb_srv b \<noteq> None then (Inr (lb_addr b), b)
      else
        (let b1 = b\<lparr>lb_seq := lb_seq b + 1\<rparr>; sock = sockPath (lb_seq b1) in
         case listen sock of
           Some err \<Rightarrow> (Inl (errorf ''local: listen: '' err []), b1)
         | None \<Rightarrow>
             (let b2 = b1\<lparr>lb_srv := Some sock, lb_sock := sock, lb_addr := unix_scheme @ sock\<rparr> in
              (Inr (lb_addr b2), b2))))"

definition local_Close :: "local_backend \<Rightarrow> goerr option \<times> local_backend" where
  "local_Close b =
     (let b1 = (if lb_srv b \<noteq> None then b\<lparr>lb_srv := None\<rparr> else b) in
      (None, if lb_sock b1 \<noteq> [] then b1\<lparr>lb_sock := []\<rparr> else b1))"

definition local_errCreateRequiresSessionSpec :: goerr where
  "local_errCreateRequiresSessionSpec = ErrNew ''local: create requires a session spec''"

definition local_errCreateRequiresSessionUID :: goerr where
  "local_errCreateRequiresSessionUID = ErrNew ''local: create requires a session uid''"

definition local_Create ::
  "(nat \<Rightarrow> string) \<Rightarrow> (string \<Rightarrow> goerr option) \<Rightarrow> string option \<Rightarrow> local_backend \<Rightarrow>
     (incarnation \<times> goerr option) \<times> local_backend" where
  "local_Create sockPath listen spec b =
     (case spec of
        None \<Rightarrow> (err_inc local_errCreateRequiresSessionSpec, b)
      | Some uid \<Rightarrow>
          if uid = [] then (err_inc local_errCreateRequiresSessionUID, b)
          else
            (case local_start sockPath listen b of
               (Inl err, b1) \<Rightarrow> (err_inc err, b1)
             | (Inr addr, b1) \<Rightarrow>
                 ((zero_incarnation\<lparr>inc_id := uid, inc_worker := lb_worker b1, inc_address := addr,
                    inc_runtime := ''local''\<rparr>, None), b1)))"

definition local_Snapshot :: "string \<Rightarrow> snapshot_kind \<Rightarrow> goerr + snapshot_ref" where
  "local_Snapshot uid kind =
     (if kind = SnapshotLocal
      then Inl (ErrNew (''local: warm (LOCAL) snapshot not supported; the journal is the durable state ''
             @ em_dash @ '' use EXTERNAL''))
      else Inr \<lparr>sr_local = uid, sr_externalURI = [], sr_memory = False, sr_sealed = False\<rparr>)"

definition local_Restore ::
  "(nat \<Rightarrow> string) \<Rightarrow> (string \<Rightarrow> goerr option) \<Rightarrow> snapshot_ref \<Rightarrow> local_backend \<Rightarrow>
     (incarnation \<times> goerr option) \<times> local_backend" where
  "local_Restore sockPath listen ref b =
     (if sr_local ref = [] then (err_inc (ErrNew ''local: snapshot ref missing session handle''), b)
      else local_Create sockPath listen (Some (sr_local ref)) b)"

definition local_Fork ::
  "(nat \<Rightarrow> string) \<Rightarrow> (string \<Rightarrow> goerr option) \<Rightarrow> snapshot_ref \<Rightarrow> string \<Rightarrow> local_backend \<Rightarrow>
     (incarnation \<times> goerr option) \<times> local_backend" where
  "local_Fork sockPath listen ref child b =
     (if child = [] then (err_inc (ErrNew ''local: fork requires a child session uid''), b)
      else local_Create sockPath listen (Some child) b)"

definition local_Stop :: "string \<Rightarrow> goerr option" where
  "local_Stop uid = None"

definition local_Status :: "string \<Rightarrow> goerr + compute_state" where
  "local_Status uid = Inr ComputeLive"

definition local_Capabilities :: runtime_capabilities where
  "local_Capabilities = \<lparr>rc_memorySnapshot = False, rc_coWFork = False, rc_attest = False, rc_gpuState = False\<rparr>"

definition localErrorKind :: "goerr option \<Rightarrow> string" where
  "localErrorKind err =
     (case err of
        None \<Rightarrow> []
      | Some e \<Rightarrow>
          if errors_is e ContextCanceled then ''canceled''
          else if errors_is e ContextDeadlineExceeded then ''deadline_exceeded''
          else if errors_is e local_errCreateRequiresSessionSpec \<or> errors_is e local_errCreateRequiresSessionUID
          then ''invalid_spec''
          else ''runtime_operation_failed'')"

section \<open>The runtime of a harness somebody else runs\<close>

record remote_backend =
  rb_addr :: string
  rb_conn :: "endpoint option"
  rb_closed :: bool

definition NewRemote :: "string \<Rightarrow> remote_backend" where
  "NewRemote addr = \<lparr>rb_addr = addr, rb_conn = None, rb_closed = False\<rparr>"

definition remote_errCreateRequiresSessionSpec :: goerr where
  "remote_errCreateRequiresSessionSpec = ErrNew ''remote: Create requires a SessionSpec''"

definition remote_errCreateRequiresSessionUID :: goerr where
  "remote_errCreateRequiresSessionUID = ErrNew ''remote: Create requires a session uid''"

definition errNoAddress :: goerr where
  "errNoAddress = ErrNew ''remote: no harness address configured''"

definition remote_errClosed :: goerr where
  "remote_errClosed = ErrNew ''remote: backend is closed''"

text \<open>\<^verbatim>\<open>connect\<close>: the cached client, or a new one.\<close>

definition remote_connect ::
  "(endpoint \<Rightarrow> goerr option) \<Rightarrow> remote_backend \<Rightarrow> (goerr + endpoint) \<times> remote_backend" where
  "remote_connect newClient b =
     (if rb_closed b then (Inl remote_errClosed, b)
      else
        (case rb_conn b of
           Some e \<Rightarrow> (Inr e, b)
         | None \<Rightarrow>
             if rb_addr b = [] then (Inl errNoAddress, b)
             else
               (let target = (case cut_unix (rb_addr b) of Some sock \<Rightarrow> UnixSocket sock | None \<Rightarrow> GrpcTarget (rb_addr b)) in
                case newClient target of
                  Some err \<Rightarrow> (Inl (errorf (''remote: dial harness at '' @ rb_addr b @ '': '') err []), b)
                | None \<Rightarrow> (Inr target, b\<lparr>rb_conn := Some target\<rparr>))))"

definition remote_Close :: "(endpoint \<Rightarrow> goerr option) \<Rightarrow> remote_backend \<Rightarrow> goerr option \<times> remote_backend" where
  "remote_Close closeConn b =
     (let b1 = b\<lparr>rb_closed := True\<rparr> in
      case rb_conn b1 of
        None \<Rightarrow> (None, b1)
      | Some e \<Rightarrow> (closeConn e, b1\<lparr>rb_conn := None\<rparr>))"

text \<open>\<open>ask_harness\<close> is the harness's own \<^verbatim>\<open>Describe\<close> over the connection.\<close>

definition remote_Describe ::
  "(endpoint \<Rightarrow> goerr option) \<Rightarrow> (endpoint \<Rightarrow> goerr + descriptor) \<Rightarrow> remote_backend \<Rightarrow>
     (goerr + descriptor) \<times> remote_backend" where
  "remote_Describe newClient ask_harness b =
     (case remote_connect newClient b of
        (Inl err, b1) \<Rightarrow> (Inl err, b1)
      | (Inr e, b1) \<Rightarrow>
          (case ask_harness e of
             Inl err \<Rightarrow> (Inl (errorf (''remote: describe harness at '' @ rb_addr b1 @ '': '') err []), b1)
           | Inr desc \<Rightarrow> (Inr desc, b1)))"

definition remote_DescribesLiveHarness :: bool where
  "remote_DescribesLiveHarness = True"

definition remote_Create :: "remote_backend \<Rightarrow> string option \<Rightarrow> incarnation \<times> goerr option" where
  "remote_Create b spec =
     (case spec of
        None \<Rightarrow> err_inc remote_errCreateRequiresSessionSpec
      | Some uid \<Rightarrow>
          if uid = [] then err_inc remote_errCreateRequiresSessionUID
          else if rb_addr b = [] then err_inc errNoAddress
          else (zero_incarnation\<lparr>inc_id := uid, inc_address := rb_addr b, inc_runtime := ''remote''\<rparr>, None))"

definition remote_Snapshot :: "string \<Rightarrow> snapshot_kind \<Rightarrow> goerr + snapshot_ref" where
  "remote_Snapshot uid kind =
     (if kind = SnapshotLocal
      then Inl (ErrNew (''remote: warm (LOCAL) snapshot not supported; the journal is the durable state ''
             @ em_dash @ '' use EXTERNAL''))
      else Inr \<lparr>sr_local = uid, sr_externalURI = [], sr_memory = False, sr_sealed = False\<rparr>)"

definition remote_Restore :: "remote_backend \<Rightarrow> snapshot_ref \<Rightarrow> incarnation \<times> goerr option" where
  "remote_Restore b ref =
     (if sr_local ref = [] then err_inc (ErrNew ''remote: snapshot ref missing session handle'')
      else remote_Create b (Some (sr_local ref)))"

definition remote_Fork :: "remote_backend \<Rightarrow> snapshot_ref \<Rightarrow> string \<Rightarrow> incarnation \<times> goerr option" where
  "remote_Fork b ref child =
     (if child = [] then err_inc (ErrNew ''remote: fork requires a child session uid'')
      else remote_Create b (Some child))"

definition remote_Stop :: "string \<Rightarrow> goerr option" where
  "remote_Stop uid = None"

definition remote_Status :: "string \<Rightarrow> goerr + compute_state" where
  "remote_Status uid = Inr ComputeLive"

definition remote_Capabilities :: runtime_capabilities where
  "remote_Capabilities = \<lparr>rc_memorySnapshot = False, rc_coWFork = False, rc_attest = False, rc_gpuState = False\<rparr>"

definition remoteErrorKind :: "goerr option \<Rightarrow> string" where
  "remoteErrorKind err =
     (case err of
        None \<Rightarrow> []
      | Some e \<Rightarrow>
          if errors_is e errNoAddress then ''no_address''
          else if errors_is e remote_errClosed then ''closed''
          else if errors_is e remote_errCreateRequiresSessionSpec \<or> errors_is e remote_errCreateRequiresSessionUID
          then ''invalid_request''
          else ''remote_error'')"

section \<open>The adapter of the control plane\<close>

text \<open>
  The parts of \<^verbatim>\<open>ateapipb\<close> messages the adapter reads.  A nil message is \<open>None\<close>; the generated getters read
  a nil message as its zero value.
\<close>

datatype actor_state =
    ACTOR_STATE_RUNNING | ACTOR_STATE_SUSPENDED | ACTOR_STATE_PAUSED | ACTOR_STATE_CRASHED | ACTOR_STATE_Other int32

datatype storage_status = STORAGE_COMPLETED | STORAGE_Other int32

record pb_durable =
  pd_status :: storage_status
  pd_uri :: "string option"

record pb_snapshot =
  ps_generation :: int64
  ps_durable :: "pb_durable option"

record pb_actor_status =
  pa_state :: actor_state
  pa_worker :: "string option"
  pa_snapshots :: "pb_snapshot list"

definition actorStatus :: "actor_state \<Rightarrow> actor_status" where
  "actorStatus s =
     (case s of
        ACTOR_STATE_RUNNING \<Rightarrow> StatusRunning
      | ACTOR_STATE_SUSPENDED \<Rightarrow> StatusSuspended
      | ACTOR_STATE_PAUSED \<Rightarrow> StatusSuspended
      | ACTOR_STATE_CRASHED \<Rightarrow> StatusTerminated
      | ACTOR_STATE_Other _ \<Rightarrow> StatusUnknown)"

definition completed :: "pb_snapshot \<Rightarrow> bool" where
  "completed s = (case ps_durable s of None \<Rightarrow> False | Some d \<Rightarrow> pd_status d = STORAGE_COMPLETED)"

fun pick_held :: "pb_snapshot option \<Rightarrow> pb_snapshot list \<Rightarrow> pb_snapshot option" where
  "pick_held held [] = held"
| "pick_held held (s # ss) =
     (if \<not> completed s then pick_held held ss
      else pick_held
             (case held of
                None \<Rightarrow> Some s
              | Some h \<Rightarrow> if ps_generation s \<ge> ps_generation h then Some s else Some h) ss)"

definition snapshot_uri :: "pb_snapshot option \<Rightarrow> string" where
  "snapshot_uri held =
     (case held of
        None \<Rightarrow> []
      | Some s \<Rightarrow>
          (case ps_durable s of
             None \<Rightarrow> []
           | Some d \<Rightarrow> (case pd_uri d of None \<Rightarrow> [] | Some u \<Rightarrow> u)))"

definition heldSnapshot :: "pb_actor_status \<Rightarrow> string" where
  "heldSnapshot st = snapshot_uri (pick_held None (pa_snapshots st))"

definition actorInfo :: "pb_actor_status \<Rightarrow> actor_info" where
  "actorInfo st = \<lparr>ai_status = actorStatus (pa_state st),
     ai_worker = (case pa_worker st of None \<Rightarrow> [] | Some w \<Rightarrow> w), ai_snapshot = heldSnapshot st\<rparr>"

text \<open>
  The adapter over the generated client.  Create takes the source tag, \<open>None\<close> for none; \<^verbatim>\<open>CreateTag\<close> is always
  asked for the atespace scope.
\<close>

record 'w ate_control =
  at_CreateActor :: "call_ctx \<Rightarrow> actor_ref \<Rightarrow> object_ref \<Rightarrow> snapshot_id option \<Rightarrow> 'w \<Rightarrow> goerr option \<times> 'w"
  at_ResumeActor :: "call_ctx \<Rightarrow> actor_ref \<Rightarrow> 'w \<Rightarrow> (goerr + pb_actor_status) \<times> 'w"
  at_SuspendActor :: "call_ctx \<Rightarrow> actor_ref \<Rightarrow> 'w \<Rightarrow> (goerr + pb_actor_status) \<times> 'w"
  at_DeleteActor :: "call_ctx \<Rightarrow> actor_ref \<Rightarrow> 'w \<Rightarrow> goerr option \<times> 'w"
  at_GetActor :: "call_ctx \<Rightarrow> actor_ref \<Rightarrow> 'w \<Rightarrow> (goerr + pb_actor_status) \<times> 'w"
  at_CreateTag :: "call_ctx \<Rightarrow> snapshot_id \<Rightarrow> actor_ref \<Rightarrow> 'w \<Rightarrow> goerr option \<times> 'w"
  at_DeleteTag :: "call_ctx \<Rightarrow> snapshot_id \<Rightarrow> 'w \<Rightarrow> goerr option \<times> 'w"

definition on_result :: "('a \<Rightarrow> 'b) \<Rightarrow> (goerr \<Rightarrow> goerr) \<Rightarrow> (goerr + 'a) \<times> 'w \<Rightarrow> (goerr + 'b) \<times> 'w" where
  "on_result f g r = (case r of (Inl e, w) \<Rightarrow> (Inl (g e), w) | (Inr a, w) \<Rightarrow> (Inr (f a), w))"

definition ad_CreateActor where
  "ad_CreateActor at ctx actor template w = at_CreateActor at ctx actor template None w"

definition ad_ResumeActor where
  "ad_ResumeActor at ctx actor w = on_result actorInfo (\<lambda>e. e) (at_ResumeActor at ctx actor w)"

definition ad_SuspendActor where
  "ad_SuspendActor at ctx actor w = on_result heldSnapshot (\<lambda>e. e) (at_SuspendActor at ctx actor w)"

definition ad_DeleteActor where
  "ad_DeleteActor at ctx actor w = at_DeleteActor at ctx actor w"

definition ad_GetActor where
  "ad_GetActor at ctx actor w =
     on_result actorInfo
       (\<lambda>e. if status_code e = CodeNotFound
            then errorf [] ErrActorNotFound ('': '' @ ar_atespace actor @ ''/'' @ ar_name actor) else e)
       (at_GetActor at ctx actor w)"

definition ad_TagActor where
  "ad_TagActor at ctx source tag w =
     (case at_CreateTag at ctx tag source w of
        (None, w1) \<Rightarrow> (None, w1)
      | (Some e, w1) \<Rightarrow>
          (Some (if status_code e = CodeAlreadyExists
                 then ErrMulti (error_text ErrTagExists @ '': '' @ si_atespace tag @ ''/'' @ si_name tag @ '': ''
                        @ error_text e) [ErrTagExists, e]
                 else e), w1))"

definition ad_CreateActorFromTag where
  "ad_CreateActorFromTag at ctx actor template tag w = at_CreateActor at ctx actor template (Some tag) w"

definition ad_DeleteTag where
  "ad_DeleteTag at ctx tag w = at_DeleteTag at ctx tag w"

definition ateadapter :: "'w ate_control \<Rightarrow> 'w control_client" where
  "ateadapter at =
     \<lparr>cc_CreateActor = ad_CreateActor at, cc_ResumeActor = ad_ResumeActor at, cc_SuspendActor = ad_SuspendActor at,
      cc_DeleteActor = ad_DeleteActor at, cc_GetActor = ad_GetActor at,
      cc_cloner = Some \<lparr>cl_TagActor = ad_TagActor at, cl_CreateActorFromTag = ad_CreateActorFromTag at,
        cl_DeleteTag = ad_DeleteTag at\<rparr>\<rparr>"

end
