(* ===== verification/Runtime_Props.thy ===== *)
theory Runtime_Props
  imports Runtimes "HOL-Library.Sublist"
begin

text \<open>
  What a fork over a control plane promises.  The laws \<open>copying_plane\<close>, \<open>exclusive_calls\<close> and \<open>cleanup_works\<close>
  state what \<^verbatim>\<open>ControlClient\<close> and \<^verbatim>\<open>SnapshotCloner\<close> document of the plane, through a view of its state; under
  them a clone starts from the snapshot its fork took, and a fork that fails leaves nothing behind.  A plane
  that keeps the laws is at the end, for the witnesses.
\<close>

section \<open>A view of the control plane\<close>

text \<open>
  \<open>pv_past\<close>: the external snapshots an actor has held, oldest first, each a handle and the memory image it
  names.  \<open>pv_tag\<close>: a tag that is absent, pending, or holds its copy of an image.
\<close>

datatype 'm tag_state = NoTag | PendingTag | TagOf 'm

record ('w, 'm) plane_view =
  pv_exists :: "'w \<Rightarrow> actor_ref \<Rightarrow> bool"
  pv_past :: "'w \<Rightarrow> actor_ref \<Rightarrow> (string \<times> 'm) list"
  pv_tag :: "'w \<Rightarrow> snapshot_id \<Rightarrow> 'm tag_state"

text \<open>What an actor held at some moment between two states, when its history only grows.\<close>

definition held_between :: "('w, 'm) plane_view \<Rightarrow> 'w \<Rightarrow> 'w \<Rightarrow> actor_ref \<Rightarrow> string \<times> 'm \<Rightarrow> bool" where
  "held_between V w w' a s \<longleftrightarrow>
     (\<exists>p. prefix (pv_past V w a) p \<and> prefix p (pv_past V w' a) \<and> p \<noteq> [] \<and> last p = s)"

definition calls_grow :: "('w, 'm) plane_view \<Rightarrow> actor_ref \<Rightarrow> 'w \<Rightarrow> 'w \<Rightarrow> bool" where
  "calls_grow V a w w' \<longleftrightarrow> prefix (pv_past V w a) (pv_past V w' a)"

text \<open>
  The plane as \<^verbatim>\<open>ControlClient\<close> and \<^verbatim>\<open>SnapshotCloner\<close> describe it, for the source \<open>a\<close> of a clone, its child \<open>b\<close>
  and the tag \<open>t\<close>.  Every suspend writes a new handle, so none names two snapshots; a read reports, and a tag
  copies, what the actor holds at some moment of the call, however often the router wakes the actor and
  it is suspended again meanwhile; a tag keeps its copy; an actor created from a tag begins with the tag's
  image.
\<close>

definition copying_plane ::
  "('w, 'm) plane_view \<Rightarrow> 'w control_client \<Rightarrow> 'w snapshot_cloner \<Rightarrow> actor_ref \<Rightarrow> actor_ref \<Rightarrow> snapshot_id \<Rightarrow> bool" where
  "copying_plane V ctl cl a b t \<longleftrightarrow>
     (\<forall>w. distinct (map fst (pv_past V w a))) \<and>
     (\<forall>w w' ctx r. cc_GetActor ctl ctx a w = (r, w') \<longrightarrow> calls_grow V a w w' \<and> pv_tag V w' t = pv_tag V w t
        \<and> (\<forall>info. r = Inr info \<longrightarrow> ai_snapshot info = [] \<or> (\<exists>m. held_between V w w' a (ai_snapshot info, m)))) \<and>
     (\<forall>w w' ctx r. cl_TagActor cl ctx a t w = (r, w') \<longrightarrow> calls_grow V a w w'
        \<and> (r = None \<longrightarrow> (\<exists>s. held_between V w w' a s \<and> pv_tag V w' t = TagOf (snd s)))) \<and>
     (\<forall>w w' ctx tpl. cl_CreateActorFromTag cl ctx b tpl t w = (None, w') \<longrightarrow>
        calls_grow V a w w' \<and> (\<forall>m. pv_tag V w t = TagOf m \<longrightarrow> (\<exists>u. pv_past V w' b = [(u, m)]))) \<and>
     (\<forall>w w' ctx r. cc_ResumeActor ctl ctx b w = (r, w') \<longrightarrow> calls_grow V a w w' \<and> calls_grow V b w w')"

lemma plane_distinct: "copying_plane V ctl cl a b t \<Longrightarrow> distinct (map fst (pv_past V w a))"
  by (simp add: copying_plane_def)

lemma plane_read:
  assumes "copying_plane V ctl cl a b t" and "cc_GetActor ctl ctx a w = (Inr info, w')" and "ai_snapshot info \<noteq> []"
  shows "\<exists>m. held_between V w w' a (ai_snapshot info, m)" and "pv_tag V w' t = pv_tag V w t"
  using assms unfolding copying_plane_def by (metis, metis)

lemma plane_tag:
  assumes "copying_plane V ctl cl a b t" and "cl_TagActor cl ctx a t w = (None, w')"
  shows "\<exists>s. held_between V w w' a s \<and> pv_tag V w' t = TagOf (snd s)"
proof -
  have "\<forall>w w' ctx r. cl_TagActor cl ctx a t w = (r, w') \<longrightarrow> calls_grow V a w w'
      \<and> (r = None \<longrightarrow> (\<exists>s. held_between V w w' a s \<and> pv_tag V w' t = TagOf (snd s)))"
    using assms(1) by (simp add: copying_plane_def)
  with assms(2) show ?thesis by (metis (no_types, lifting))
qed

lemma plane_clone:
  assumes "copying_plane V ctl cl a b t" and "cl_CreateActorFromTag cl ctx b tpl t w = (None, w')"
  shows "calls_grow V a w w'" and "pv_tag V w t = TagOf m \<Longrightarrow> \<exists>u. pv_past V w' b = [(u, m)]"
proof -
  have "\<forall>w w' ctx tpl. cl_CreateActorFromTag cl ctx b tpl t w = (None, w') \<longrightarrow>
        calls_grow V a w w' \<and> (\<forall>m. pv_tag V w t = TagOf m \<longrightarrow> (\<exists>u. pv_past V w' b = [(u, m)]))"
    using assms(1) by (simp add: copying_plane_def)
  with assms(2) show "calls_grow V a w w'" "pv_tag V w t = TagOf m \<Longrightarrow> \<exists>u. pv_past V w' b = [(u, m)]" by (metis, metis)
qed

lemma plane_resume:
  assumes "copying_plane V ctl cl a b t" and "cc_ResumeActor ctl ctx b w = (r, w')"
  shows "calls_grow V a w w'" and "calls_grow V b w w'"
proof -
  have "\<forall>w w' ctx r. cc_ResumeActor ctl ctx b w = (r, w') \<longrightarrow> calls_grow V a w w' \<and> calls_grow V b w w'"
    using assms(1) by (simp add: copying_plane_def)
  with assms(2) show "calls_grow V a w w'" "calls_grow V b w w'" by (metis, metis)
qed

lemma calls_grow_refl [simp]: "calls_grow V a w w"
  by (simp add: calls_grow_def)

lemma calls_grow_trans: "calls_grow V a w w' \<Longrightarrow> calls_grow V a w' w'' \<Longrightarrow> calls_grow V a w w''"
  by (auto simp: calls_grow_def intro: prefix_order.trans)

text \<open>
  The bracket: when the same handle is read before and after, whatever was held in between is the snapshot
  it names.
\<close>

lemma same_last_prefix:
  assumes "prefix p q" "prefix q r" "p \<noteq> []" "distinct (map fst r)" "fst (last p) = fst (last q)"
  shows "p = q"
proof (rule ccontr)
  assume "p \<noteq> q"
  with assms(1) obtain ys where q: "q = p @ ys" "ys \<noteq> []" by (auto simp: prefix_def)
  have "last p \<in> set p" "last q \<in> set ys" using assms(3) q by auto
  then have "fst (last p) \<in> fst ` set p" "fst (last q) \<in> fst ` set ys" by auto
  moreover have "distinct (map fst q)" using assms(2,4) by (auto simp: prefix_def)
  then have "fst ` set p \<inter> fst ` set ys = {}" using q(1) by simp
  ultimately show False using assms(5) by (metis IntI empty_iff)
qed

lemma bracketed:
  assumes "held_between V w0 w1 a (h, m)" "held_between V w1 w2 a s" "held_between V w2 w3 a (h, m')"
    and "distinct (map fst (pv_past V w3 a))"
  shows "s = (h, m)" and "(h, m) \<in> set (pv_past V w3 a)"
proof -
  obtain p q r where p: "prefix p (pv_past V w1 a)" "p \<noteq> []" "last p = (h, m)"
    and q: "prefix (pv_past V w1 a) q" "prefix q (pv_past V w2 a)" "q \<noteq> []" "last q = s"
    and r: "prefix (pv_past V w2 a) r" "prefix r (pv_past V w3 a)" "last r = (h, m')"
    using assms(1-3) unfolding held_between_def by blast
  have pq: "prefix p q" and qr: "prefix q r" using p q r by (meson prefix_order.trans)+
  have eq: "p = r" using same_last_prefix [of p r "pv_past V w3 a"] pq qr p r assms(4)
    by (metis fst_conv prefix_order.trans)
  then have "p = q" using pq qr by (metis prefix_order.antisym)
  then show "s = (h, m)" using p q by simp
  show "(h, m) \<in> set (pv_past V w3 a)" using eq p r by (metis last_in_set set_mono_prefix subsetD)
qed

lemma requireSnapshot_ok:
  assumes "requireSnapshot b ctx parent h w = (None, w1)"
  obtains info where "cc_GetActor (sb_ctl b) ctx (actor_of b parent) w = (Inr info, w1)"
    and "ai_status info = StatusSuspended" and "ai_snapshot info = h"
  using assms by (auto simp: requireSnapshot_def split: prod.splits sum.splits if_splits)

lemma clone_fork_ok:
  assumes "clone_fork b ctx cl ref child w = ((inc, None), w')"
  obtains w1 w2 w3 w4 info where
    "requireSnapshot b ctx (sr_local ref) (sr_externalURI ref) w = (None, w1)"
    "cl_TagActor cl ctx (actor_of b (sr_local ref)) (fork_tag_of b child) w1 = (None, w2)"
    "requireSnapshot b ctx (sr_local ref) (sr_externalURI ref) w2 = (None, w3)"
    "cl_CreateActorFromTag cl ctx (actor_of b child) (sb_template b) (fork_tag_of b child) w3 = (None, w4)"
    "cc_ResumeActor (sb_ctl b) ctx (actor_of b child) w4 = (Inr info, w')"
    "sub_incarnation b child info = (inc, None)"
proof -
  obtain r1 w1 where 1: "requireSnapshot b ctx (sr_local ref) (sr_externalURI ref) w = (r1, w1)" by fastforce
  with assms have n1: "r1 = None" by (cases r1) (simp_all add: clone_fork_def err_inc_def)
  obtain r2 w2 where 2: "cl_TagActor cl ctx (actor_of b (sr_local ref)) (fork_tag_of b child) w1 = (r2, w2)" by fastforce
  with assms 1 n1 have n2: "r2 = None" by (cases r2) (simp_all add: clone_fork_def err_inc_def)
  obtain r3 w3 where 3: "requireSnapshot b ctx (sr_local ref) (sr_externalURI ref) w2 = (r3, w3)" by fastforce
  with assms 1 n1 2 n2 have n3: "r3 = None" by (cases r3) (simp_all add: clone_fork_def err_inc_def)
  obtain r4 w4 where 4: "cl_CreateActorFromTag cl ctx (actor_of b child) (sb_template b) (fork_tag_of b child) w3 = (r4, w4)"
    by fastforce
  with assms 1 n1 2 n2 3 n3 have n4: "r4 = None" by (cases r4) (simp_all add: clone_fork_def err_inc_def)
  have "start_clone b ctx child w4 = ((inc, None), w')" using assms 1 n1 2 n2 3 n3 4 n4 by (simp add: clone_fork_def)
  then obtain info where "cc_ResumeActor (sb_ctl b) ctx (actor_of b child) w4 = (Inr info, w')"
    "sub_incarnation b child info = (inc, None)"
    by (auto simp: start_clone_def err_inc_def split: prod.splits sum.splits option.splits)
  with 1 n1 2 n2 3 n3 4 n4 show thesis using that by blast
qed

lemma sub_Fork_memory_ok:
  assumes "sub_Fork b ctx ref child w = ((inc, None), w')"
    and "cap_resumability (desc_capabilities (sb_descriptor b)) = ResumabilityRequiresMemorySnapshot"
  obtains cl where "cc_cloner (sb_ctl b) = Some cl" and "sr_externalURI ref \<noteq> []"
    and "clone_fork b ctx cl ref child w = ((inc, None), w')"
  using assms by (auto simp: sub_Fork_def err_inc_def split: option.splits if_splits)

text \<open>
  (C39) A clone starts from the snapshot its fork took, however the parent moves meanwhile.  When \<^verbatim>\<open>Fork\<close> of a
  memory-tier harness succeeds, the snapshot handle it was given is one the parent has held, and the child's
  own history of snapshots begins with the image that handle names -- although a tag captures whatever the
  parent holds when it is taken, the parent may be woken and suspended again at any moment of any call,
  and \<^verbatim>\<open>Fork\<close> never holds a lock on it.  The plane is assumed to keep the law \<open>copying_plane\<close>, the
  documented behaviour of its calls on snapshots and tags.
\<close>

theorem clone_starts_from_its_snapshot:
  assumes "cap_resumability (desc_capabilities (sb_descriptor b)) = ResumabilityRequiresMemorySnapshot"
    and "cc_cloner (sb_ctl b) = Some cl"
    and plane: "copying_plane V (sb_ctl b) cl (actor_of b (sr_local ref)) (actor_of b child) (fork_tag_of b child)"
    and "sub_Fork b ctx ref child w = ((inc, None), w')"
  shows "\<exists>image u. (sr_externalURI ref, image) \<in> set (pv_past V w' (actor_of b (sr_local ref)))
           \<and> prefix [(u, image)] (pv_past V w' (actor_of b child))"
proof -
  obtain cl' where "cc_cloner (sb_ctl b) = Some cl'" and uri: "sr_externalURI ref \<noteq> []"
    and "clone_fork b ctx cl' ref child w = ((inc, None), w')"
    by (rule sub_Fork_memory_ok [OF assms(4,1)])
  then have run: "clone_fork b ctx cl ref child w = ((inc, None), w')" using assms(2) by simp
  obtain w1 w2 w3 w4 info where
    s: "requireSnapshot b ctx (sr_local ref) (sr_externalURI ref) w = (None, w1)"
    "cl_TagActor cl ctx (actor_of b (sr_local ref)) (fork_tag_of b child) w1 = (None, w2)"
    "requireSnapshot b ctx (sr_local ref) (sr_externalURI ref) w2 = (None, w3)"
    "cl_CreateActorFromTag cl ctx (actor_of b child) (sb_template b) (fork_tag_of b child) w3 = (None, w4)"
    "cc_ResumeActor (sb_ctl b) ctx (actor_of b child) w4 = (Inr info, w')"
    by (rule clone_fork_ok [OF run])
  define a where "a = actor_of b (sr_local ref)"
  define c where "c = actor_of b child"
  define t where "t = fork_tag_of b child"
  define h where "h = sr_externalURI ref"
  note s = s [folded a_def c_def t_def h_def]
  note plane = plane [folded a_def c_def t_def]
  obtain i1 where i1: "cc_GetActor (sb_ctl b) ctx a w = (Inr i1, w1)" "ai_snapshot i1 = h"
    using requireSnapshot_ok [OF s(1)] unfolding a_def by blast
  obtain i2 where i2: "cc_GetActor (sb_ctl b) ctx a w2 = (Inr i2, w3)" "ai_snapshot i2 = h"
    using requireSnapshot_ok [OF s(3)] unfolding a_def by blast
  have ne: "h \<noteq> []" using uri by (simp add: h_def)
  obtain m m' where b1: "held_between V w w1 a (h, m)" and b3: "held_between V w2 w3 a (h, m')"
    and tag3: "pv_tag V w3 t = pv_tag V w2 t"
    using plane_read [OF plane i1(1)] plane_read [OF plane i2(1)] i1(2) i2(2) ne by metis
  obtain x where b2: "held_between V w1 w2 a x" and tag2: "pv_tag V w2 t = TagOf (snd x)"
    using plane_tag [OF plane s(2)] by blast
  note x = bracketed [OF b1 b2 b3 plane_distinct [OF plane]]
  obtain u where u: "pv_past V w4 c = [(u, m)]" and g4: "calls_grow V a w3 w4"
    using plane_clone [OF plane s(4)] tag2 tag3 x(1) by (metis snd_conv)
  note g = plane_resume [OF plane s(5)]
  have "(h, m) \<in> set (pv_past V w' a)" using x(2) calls_grow_trans [OF g4 g(1)] unfolding calls_grow_def
    by (meson set_mono_prefix subsetD)
  moreover have "prefix [(u, m)] (pv_past V w' c)" using g(2) u by (simp add: calls_grow_def)
  ultimately show ?thesis unfolding a_def c_def h_def by blast
qed

section \<open>A fork that fails\<close>

text \<open>
  The plane around a fork: only the fork knows the child \<open>a\<close> and its tag \<open>t\<close>, so what other calls do to the
  plane meanwhile leaves them alone.  A tag that fails may be left pending, an actor creation that fails may
  have created the actor; but creating from a tag either creates the actor or does not.  The clean-up's
  calls are not cut short: they suspend and delete an actor that exists and collect a tag.
\<close>

definition kept_apart :: "('w, 'm) plane_view \<Rightarrow> actor_ref \<Rightarrow> snapshot_id \<Rightarrow> 'w \<Rightarrow> 'w \<Rightarrow> bool" where
  "kept_apart V a t w w' \<longleftrightarrow> pv_exists V w' a = pv_exists V w a \<and> pv_tag V w' t = pv_tag V w t"

definition exclusive_calls ::
  "('w, 'm) plane_view \<Rightarrow> 'w control_client \<Rightarrow> 'w snapshot_cloner \<Rightarrow> actor_ref \<Rightarrow> snapshot_id \<Rightarrow> bool" where
  "exclusive_calls V ctl cl a t \<longleftrightarrow>
     (\<forall>w w' ctx x r. cc_GetActor ctl ctx x w = (r, w') \<longrightarrow> kept_apart V a t w w') \<and>
     (\<forall>w w' ctx r. cc_ResumeActor ctl ctx a w = (r, w') \<longrightarrow> kept_apart V a t w w') \<and>
     (\<forall>w w' ctx tpl r. cc_CreateActor ctl ctx a tpl w = (r, w') \<longrightarrow> pv_tag V w' t = pv_tag V w t) \<and>
     (\<forall>w w' ctx x r. cl_TagActor cl ctx x t w = (r, w') \<longrightarrow> pv_exists V w' a = pv_exists V w a
        \<and> (\<forall>e. r = Some e \<longrightarrow> errors_is e ErrTagExists \<longrightarrow> pv_tag V w' t = pv_tag V w t)) \<and>
     (\<forall>w w' ctx tpl r. cl_CreateActorFromTag cl ctx a tpl t w = (r, w') \<longrightarrow>
        (if r = None then pv_exists V w' a else kept_apart V a t w w'))"

definition cleanup_works ::
  "('w, 'm) plane_view \<Rightarrow> 'w control_client \<Rightarrow> 'w snapshot_cloner \<Rightarrow> actor_ref \<Rightarrow> snapshot_id \<Rightarrow> bool" where
  "cleanup_works V ctl cl a t \<longleftrightarrow>
     (\<forall>w. pv_exists V w a \<longrightarrow>
        (\<exists>s w1 w2. cc_SuspendActor ctl CleanupCtx a w = (Inr s, w1) \<and> cc_DeleteActor ctl CleanupCtx a w1 = (None, w2)
           \<and> \<not> pv_exists V w2 a)) \<and>
     (\<forall>w. \<not> pv_exists V w a \<longrightarrow>
        (\<exists>e w1. cc_SuspendActor ctl CleanupCtx a w = (Inl e, w1) \<and> kept_apart V a t w w1)) \<and>
     (\<forall>w r w'. cl_DeleteTag cl CleanupCtx t w = (r, w') \<longrightarrow> pv_tag V w' t = NoTag \<and> pv_exists V w' a = pv_exists V w a)"

text \<open>Nothing of the child is left: no actor, no tag.\<close>

definition no_trace :: "('w, 'm) plane_view \<Rightarrow> actor_ref \<Rightarrow> snapshot_id \<Rightarrow> 'w \<Rightarrow> bool" where
  "no_trace V a t w \<longleftrightarrow> \<not> pv_exists V w a \<and> pv_tag V w t = NoTag"

lemma kept_apart_trace: "kept_apart V a t w w' \<Longrightarrow> no_trace V a t w' = no_trace V a t w"
  by (simp add: kept_apart_def no_trace_def)

lemma exclusive_read:
  assumes "exclusive_calls V ctl cl a t"
  shows "cc_GetActor ctl ctx x w = (r, w') \<Longrightarrow> kept_apart V a t w w'"
    and "cc_ResumeActor ctl ctx a w = (r, w') \<Longrightarrow> kept_apart V a t w w'"
    and "cc_CreateActor ctl ctx a tpl w = (q, w') \<Longrightarrow> pv_tag V w' t = pv_tag V w t"
  using assms unfolding exclusive_calls_def by (metis, metis, metis)

lemma exclusive_tag:
  assumes "exclusive_calls V ctl cl a t" and "cl_TagActor cl ctx x t w = (r, w')"
  shows "pv_exists V w' a = pv_exists V w a"
    and "r = Some e \<Longrightarrow> errors_is e ErrTagExists \<Longrightarrow> pv_tag V w' t = pv_tag V w t"
  using assms unfolding exclusive_calls_def by (metis, metis)

lemma exclusive_clone:
  assumes "exclusive_calls V ctl cl a t" and "cl_CreateActorFromTag cl ctx a tpl t w = (r, w')"
  shows "r = None \<Longrightarrow> pv_exists V w' a" and "r = Some e \<Longrightarrow> kept_apart V a t w w'"
proof -
  have "\<forall>w w' ctx tpl r. cl_CreateActorFromTag cl ctx a tpl t w = (r, w') \<longrightarrow>
        (if r = None then pv_exists V w' a else kept_apart V a t w w')"
    using assms(1) by (simp add: exclusive_calls_def)
  with assms(2) show "r = None \<Longrightarrow> pv_exists V w' a" "r = Some e \<Longrightarrow> kept_apart V a t w w'"
    by (metis, metis option.distinct(1))
qed

lemma cleanup_tag:
  assumes "cleanup_works V ctl cl a t"
  shows "pv_tag V (snd (cl_DeleteTag cl CleanupCtx t w)) t = NoTag"
    and "pv_exists V (snd (cl_DeleteTag cl CleanupCtx t w)) a = pv_exists V w a"
  using assms unfolding cleanup_works_def by (metis prod.collapse)+

lemma destroyed:
  assumes "cc_cloner (sb_ctl b) = Some cl"
    and clean: "cleanup_works V (sb_ctl b) cl (actor_of b child) (fork_tag_of b child)"
    and "pv_exists V w (actor_of b child) \<or> pv_tag V w (fork_tag_of b child) = NoTag"
  shows "no_trace V (actor_of b child) (fork_tag_of b child) (destroyChild b child w)"
proof (cases "pv_exists V w (actor_of b child)")
  case True
  then obtain s w1 w2 where "cc_SuspendActor (sb_ctl b) CleanupCtx (actor_of b child) w = (Inr s, w1)"
    "cc_DeleteActor (sb_ctl b) CleanupCtx (actor_of b child) w1 = (None, w2)" "\<not> pv_exists V w2 (actor_of b child)"
    using clean unfolding cleanup_works_def by metis
  then show ?thesis using assms(1) cleanup_tag [OF clean] by (simp add: destroyChild_def sub_Stop_def no_trace_def)
next
  case False
  then obtain e w1 where "cc_SuspendActor (sb_ctl b) CleanupCtx (actor_of b child) w = (Inl e, w1)"
    "kept_apart V (actor_of b child) (fork_tag_of b child) w w1"
    using clean unfolding cleanup_works_def by metis
  then show ?thesis using False assms(3) by (simp add: destroyChild_def sub_Stop_def no_trace_def kept_apart_def)
qed

lemma released:
  assumes "cleanup_works V (sb_ctl b) cl (actor_of b child) (fork_tag_of b child)"
    and "\<not> pv_exists V w (actor_of b child)"
  shows "no_trace V (actor_of b child) (fork_tag_of b child) (releaseForkTag b cl child w)"
  using assms(2) cleanup_tag [OF assms(1)] by (simp add: releaseForkTag_def no_trace_def)

lemma require_keeps_apart:
  assumes "exclusive_calls V (sb_ctl b) cl a t" and "requireSnapshot b ctx parent h w = (r, w')"
  shows "kept_apart V a t w w'"
  using assms(2) exclusive_read(1) [OF assms(1)]
  by (auto simp: requireSnapshot_def split: prod.splits sum.splits if_splits)

lemma failed_start_destroys:
  assumes "cc_cloner (sb_ctl b) = Some cl"
    and calls: "exclusive_calls V (sb_ctl b) cl (actor_of b child) (fork_tag_of b child)"
    and clean: "cleanup_works V (sb_ctl b) cl (actor_of b child) (fork_tag_of b child)"
    and ex: "pv_exists V w (actor_of b child)" and run: "start_clone b ctx child w = ((inc, Some e), w')"
  shows "no_trace V (actor_of b child) (fork_tag_of b child) w'"
proof -
  obtain r w1 where r: "cc_ResumeActor (sb_ctl b) ctx (actor_of b child) w = (r, w1)" by fastforce
  have "pv_exists V w1 (actor_of b child)" using exclusive_read(2) [OF calls r] ex by (simp add: kept_apart_def)
  then have "no_trace V (actor_of b child) (fork_tag_of b child) (destroyChild b child w1)"
    using destroyed [OF assms(1) clean] by blast
  moreover have "w' = destroyChild b child w1"
    using run r by (auto simp: start_clone_def err_inc_def split: sum.splits option.splits prod.splits)
  ultimately show ?thesis by simp
qed

lemma failed_clone_leaves_nothing:
  assumes cl: "cc_cloner (sb_ctl b) = Some cl"
    and calls: "exclusive_calls V (sb_ctl b) cl (actor_of b child) (fork_tag_of b child)"
    and clean: "cleanup_works V (sb_ctl b) cl (actor_of b child) (fork_tag_of b child)"
    and none: "no_trace V (actor_of b child) (fork_tag_of b child) w"
    and run: "clone_fork b ctx cl ref child w = ((inc, Some e), w')"
  shows "no_trace V (actor_of b child) (fork_tag_of b child) w'"
proof -
  let ?a = "actor_of b child" and ?t = "fork_tag_of b child"
  obtain r1 w1 where 1: "requireSnapshot b ctx (sr_local ref) (sr_externalURI ref) w = (r1, w1)" by fastforce
  have n1: "no_trace V ?a ?t w1" using kept_apart_trace [OF require_keeps_apart [OF calls 1]] none by simp
  obtain r2 w2 where 2: "cl_TagActor cl ctx (actor_of b (sr_local ref)) ?t w1 = (r2, w2)" by fastforce
  have a2: "\<not> pv_exists V w2 ?a" using exclusive_tag(1) [OF calls 2] n1 by (simp add: no_trace_def)
  obtain r3 w3 where 3: "requireSnapshot b ctx (sr_local ref) (sr_externalURI ref) w2 = (r3, w3)" by fastforce
  have a3: "\<not> pv_exists V w3 ?a" using require_keeps_apart [OF calls 3] a2 by (simp add: kept_apart_def)
  obtain r4 w4 where 4: "cl_CreateActorFromTag cl ctx ?a (sb_template b) ?t w3 = (r4, w4)" by fastforce
  note run = run [unfolded clone_fork_def Let_def 1]
  show ?thesis
  proof (cases r1)
    case (Some e1)
    with run n1 show ?thesis by (simp add: err_inc_def)
  next
    case none1: None
    show ?thesis
    proof (cases r2)
      case (Some e2)
      then have "w' = (if \<not> errors_is e2 ErrTagExists then releaseForkTag b cl child w2 else w2)"
        using run none1 2 by (simp add: err_inc_def)
      then show ?thesis using released [OF clean a2] exclusive_tag(2) [OF calls 2] Some a2 n1
        by (auto simp: no_trace_def)
    next
      case none2: None
      show ?thesis
      proof (cases r3)
        case (Some e3)
        then have "w' = releaseForkTag b cl child w3" using run none1 2 none2 3 by (simp add: err_inc_def)
        then show ?thesis using released [OF clean a3] by simp
      next
        case none3: None
        show ?thesis
        proof (cases r4)
          case (Some e4)
          then have "w' = releaseForkTag b cl child w4" using run none1 2 none2 3 none3 4 by (simp add: err_inc_def)
          moreover have "\<not> pv_exists V w4 ?a" using exclusive_clone(2) [OF calls 4] Some a3 by (simp add: kept_apart_def)
          ultimately show ?thesis using released [OF clean] by simp
        next
          case None
          then have "start_clone b ctx child w4 = ((inc, Some e), w')" using run none1 2 none2 3 none3 4 by simp
          moreover have "pv_exists V w4 ?a" using exclusive_clone(1) [OF calls 4] None by simp
          ultimately show ?thesis using failed_start_destroys [OF cl calls clean] by blast
        qed
      qed
    qed
  qed
qed

lemma create_keeps_tag:
  assumes calls: "exclusive_calls V (sb_ctl b) cl (actor_of b uid) t" and run: "sub_Create b ctx (Some uid) w = (r, w')"
  shows "pv_tag V w' t = pv_tag V w t"
proof -
  have resume: "pv_tag V w2 t = pv_tag V w1 t" if "resume_into b ctx uid what w1 = (q, w2)" for what q w1 w2
    using that exclusive_read(2) [OF calls]
    by (auto simp: resume_into_def kept_apart_def split: prod.splits sum.splits)
  obtain g w1 where g: "cc_GetActor (sb_ctl b) ctx (actor_of b uid) w = (g, w1)" by fastforce
  have t1: "pv_tag V w1 t = pv_tag V w t" using exclusive_read(1) [OF calls g] by (simp add: kept_apart_def)
  obtain c w2 where c: "cc_CreateActor (sb_ctl b) ctx (actor_of b uid) (sb_template b) w1 = (c, w2)" by fastforce
  have t2: "pv_tag V w2 t = pv_tag V w1 t" using exclusive_read(3) [OF calls c] by simp
  show ?thesis using run g t1 c t2 resume
    by (auto simp: sub_Create_def err_inc_def split: sum.splits if_splits option.splits)
qed


section \<open>A plane\<close>

text \<open>
  A plane that keeps the laws, for the witnesses: an actor has a status, perhaps the image it was seeded
  with, and the number of suspends so far; the n-th suspend of an actor writes the image \<open>n\<close>.
\<close>

record sample_actor =
  sa_status :: actor_status
  sa_seed :: "nat option"
  sa_gens :: nat

record sample_plane =
  sp_actors :: "actor_ref \<Rightarrow> sample_actor option"
  sp_tags :: "snapshot_id \<Rightarrow> nat option"

definition sample_handle :: "nat \<Rightarrow> string" where
  "sample_handle n = ''gs://'' @ format_nat n"

definition sample_past :: "sample_actor \<Rightarrow> (string \<times> nat) list" where
  "sample_past s = (case sa_seed s of None \<Rightarrow> [] | Some m \<Rightarrow> [(''tag'', m)])
     @ map (\<lambda>i. (sample_handle i, i)) [0..<sa_gens s]"

definition sample_held :: "sample_actor \<Rightarrow> string" where
  "sample_held s = (if sample_past s = [] then [] else fst (last (sample_past s)))"

definition sample_info :: "sample_actor \<Rightarrow> actor_info" where
  "sample_info s = \<lparr>ai_status = sa_status s, ai_worker = ''worker-a'', ai_snapshot = sample_held s\<rparr>"

definition sample_missing :: goerr where
  "sample_missing = ErrStatus CodeNotFound ''no such actor''"

text \<open>\<open>failing\<close>: resuming anything fails; \<open>ambiguous\<close>: creating from a tag creates the actor, then reports a timeout.\<close>

definition sample_cloner :: "bool \<Rightarrow> sample_plane snapshot_cloner" where
  "sample_cloner ambiguous =
     \<lparr>cl_TagActor = (\<lambda>ctx a t w.
        if sp_tags w t \<noteq> None then (Some ErrTagExists, w)
        else case sp_actors w a of
          None \<Rightarrow> (Some sample_missing, w)
        | Some s \<Rightarrow>
            if sa_status s \<noteq> StatusSuspended \<or> sample_past s = [] then (Some (ErrNew ''not suspended''), w)
            else (None, w\<lparr>sp_tags := (sp_tags w)(t \<mapsto> snd (last (sample_past s)))\<rparr>)),
      cl_CreateActorFromTag = (\<lambda>ctx a tpl t w.
        if sp_actors w a \<noteq> None then (Some (ErrStatus CodeAlreadyExists ''actor''), w)
        else case sp_tags w t of
          None \<Rightarrow> (Some (ErrStatus CodeNotFound ''tag''), w)
        | Some m \<Rightarrow>
            (if ambiguous then Some ContextDeadlineExceeded else None,
             w\<lparr>sp_actors := (sp_actors w)(a \<mapsto> \<lparr>sa_status = StatusSuspended, sa_seed = Some m, sa_gens = 0\<rparr>)\<rparr>)),
      cl_DeleteTag = (\<lambda>ctx t w. (None, w\<lparr>sp_tags := (sp_tags w)(t := None)\<rparr>))\<rparr>"

definition sample_control :: "bool \<Rightarrow> bool \<Rightarrow> sample_plane control_client" where
  "sample_control failing ambiguous =
     \<lparr>cc_CreateActor = (\<lambda>ctx a tpl w.
        if sp_actors w a \<noteq> None then (Some (ErrStatus CodeAlreadyExists ''actor''), w)
        else (None, w\<lparr>sp_actors := (sp_actors w)(a \<mapsto> \<lparr>sa_status = StatusSuspended, sa_seed = None, sa_gens = 0\<rparr>)\<rparr>)),
      cc_ResumeActor = (\<lambda>ctx a w.
        if failing then (Inl ContextDeadlineExceeded, w)
        else case sp_actors w a of
          None \<Rightarrow> (Inl sample_missing, w)
        | Some s \<Rightarrow>
            (let s' = s\<lparr>sa_status := StatusRunning\<rparr> in (Inr (sample_info s'), w\<lparr>sp_actors := (sp_actors w)(a \<mapsto> s')\<rparr>))),
      cc_SuspendActor = (\<lambda>ctx a w.
        case sp_actors w a of
          None \<Rightarrow> (Inl sample_missing, w)
        | Some s \<Rightarrow>
            (let s' = s\<lparr>sa_status := StatusSuspended, sa_gens := sa_gens s + 1\<rparr> in
             (Inr (sample_held s'), w\<lparr>sp_actors := (sp_actors w)(a \<mapsto> s')\<rparr>))),
      cc_DeleteActor = (\<lambda>ctx a w. (None, w\<lparr>sp_actors := (sp_actors w)(a := None)\<rparr>)),
      cc_GetActor = (\<lambda>ctx a w.
        case sp_actors w a of None \<Rightarrow> (Inl ErrActorNotFound, w) | Some s \<Rightarrow> (Inr (sample_info s), w)),
      cc_cloner = Some (sample_cloner ambiguous)\<rparr>"

definition sample_view :: "(sample_plane, nat) plane_view" where
  "sample_view =
     \<lparr>pv_exists = (\<lambda>w a. sp_actors w a \<noteq> None),
      pv_past = (\<lambda>w a. case sp_actors w a of None \<Rightarrow> [] | Some s \<Rightarrow> sample_past s),
      pv_tag = (\<lambda>w t. case sp_tags w t of None \<Rightarrow> NoTag | Some m \<Rightarrow> TagOf m)\<rparr>"

definition sample_tier :: "resumability \<Rightarrow> descriptor" where
  "sample_tier r = \<lparr>desc_id = ''counter'', desc_version = [], desc_models = [], desc_tools = [],
     desc_capabilities = \<lparr>cap_resumability = r, cap_forkSafe = True, cap_requiresGPU = False, cap_streaming = False,
       cap_reasoningReplay = False\<rparr>\<rparr>"

definition sample_backend :: "bool \<Rightarrow> bool \<Rightarrow> resumability \<Rightarrow> sample_plane substrate_backend" where
  "sample_backend failing ambiguous r =
     NewSubstrate (sample_control failing ambiguous) ''space'' \<lparr>or_atespace = ''tmpl'', or_name = ''counter''\<rparr> (sample_tier r) None"

definition sample_parent :: sample_plane where
  "sample_parent =
     \<lparr>sp_actors = (\<lambda>a. if a = \<lparr>ar_atespace = ''space'', ar_name = ''p''\<rparr>
        then Some \<lparr>sa_status = StatusSuspended, sa_seed = None, sa_gens = 2\<rparr> else None),
      sp_tags = (\<lambda>_. None)\<rparr>"

definition sample_ref :: "string \<Rightarrow> snapshot_ref" where
  "sample_ref uri = \<lparr>sr_local = ''p'', sr_externalURI = uri, sr_memory = True, sr_sealed = False\<rparr>"

lemma sample_handle_inj: "sample_handle i = sample_handle j \<Longrightarrow> i = j"
  by (simp add: sample_handle_def format_nat_inj)

lemma sample_past_distinct: "distinct (map fst (sample_past s))"
  by (auto simp: sample_past_def sample_handle_def distinct_map inj_on_def comp_def split: option.splits
        intro!: format_nat_inj)

lemma sample_past_status [simp]: "sample_past (s\<lparr>sa_status := x\<rparr>) = sample_past s"
  by (simp add: sample_past_def)

lemma held_now: "pv_past V w a = ps \<Longrightarrow> pv_past V w' a = ps \<Longrightarrow> ps \<noteq> [] \<Longrightarrow> held_between V w w' a (last ps)"
  by (auto simp: held_between_def)

lemma sample_copying: "copying_plane sample_view (sample_control failing False) (sample_cloner False) a b t"
proof -
  have 1: "\<forall>w. distinct (map fst (pv_past sample_view w a))"
    by (simp add: sample_view_def sample_past_distinct split: option.splits)
  have 2: "\<forall>w w' ctx r. cc_GetActor (sample_control failing False) ctx a w = (r, w') \<longrightarrow>
      calls_grow sample_view a w w' \<and> pv_tag sample_view w' t = pv_tag sample_view w t
      \<and> (\<forall>info. r = Inr info \<longrightarrow> ai_snapshot info = [] \<or> (\<exists>m. held_between sample_view w w' a (ai_snapshot info, m)))"
  proof (intro allI impI)
    fix w w' ctx r
    assume get: "cc_GetActor (sample_control failing False) ctx a w = (r, w')"
    then have w: "w' = w" by (auto simp: sample_control_def split: option.splits)
    have "ai_snapshot info = [] \<or> (\<exists>m. held_between sample_view w w a (ai_snapshot info, m))" if r: "r = Inr info" for info
    proof -
      obtain s where s: "sp_actors w a = Some s" "info = sample_info s"
        using get r by (auto simp: sample_control_def split: option.splits)
      show ?thesis
      proof (cases "sample_past s = []")
        case False
        then have "held_between sample_view w w a (last (sample_past s))"
          using s by (intro held_now) (simp_all add: sample_view_def)
        then show ?thesis using s False by (metis prod.collapse sample_info_def sample_held_def actor_info.select_convs(3))
      qed (simp add: s sample_info_def sample_held_def)
    qed
    with w show "calls_grow sample_view a w w' \<and> pv_tag sample_view w' t = pv_tag sample_view w t
      \<and> (\<forall>info. r = Inr info \<longrightarrow> ai_snapshot info = [] \<or> (\<exists>m. held_between sample_view w w' a (ai_snapshot info, m)))" by simp
  qed
  have 3: "\<forall>w w' ctx r. cl_TagActor (sample_cloner False) ctx a t w = (r, w') \<longrightarrow> calls_grow sample_view a w w'
      \<and> (r = None \<longrightarrow> (\<exists>s. held_between sample_view w w' a s \<and> pv_tag sample_view w' t = TagOf (snd s)))"
  proof (intro allI impI)
    fix w w' ctx r
    assume tag: "cl_TagActor (sample_cloner False) ctx a t w = (r, w')"
    have same: "sp_actors w' = sp_actors w" using tag by (auto simp: sample_cloner_def split: option.splits if_splits)
    have "\<exists>s. held_between sample_view w w' a s \<and> pv_tag sample_view w' t = TagOf (snd s)" if none: "r = None"
    proof -
      obtain s where s: "sp_actors w a = Some s" "sample_past s \<noteq> []" "sp_tags w' t = Some (snd (last (sample_past s)))"
        using tag none by (auto simp: sample_cloner_def split: option.splits if_splits)
      have "held_between sample_view w w' a (last (sample_past s))"
        using s same by (intro held_now) (simp_all add: sample_view_def)
      moreover have "pv_tag sample_view w' t = TagOf (snd (last (sample_past s)))" using s by (simp add: sample_view_def)
      ultimately show ?thesis by blast
    qed
    with same show "calls_grow sample_view a w w'
      \<and> (r = None \<longrightarrow> (\<exists>s. held_between sample_view w w' a s \<and> pv_tag sample_view w' t = TagOf (snd s)))"
      by (simp add: calls_grow_def sample_view_def)
  qed
  have 4: "\<forall>w w' ctx tpl. cl_CreateActorFromTag (sample_cloner False) ctx b tpl t w = (None, w') \<longrightarrow>
      calls_grow sample_view a w w' \<and> (\<forall>m. pv_tag sample_view w t = TagOf m \<longrightarrow> (\<exists>u. pv_past sample_view w' b = [(u, m)]))"
    by (auto simp: sample_cloner_def sample_view_def calls_grow_def sample_past_def split: option.splits if_splits)
  have 5: "\<forall>w w' ctx r. cc_ResumeActor (sample_control failing False) ctx b w = (r, w') \<longrightarrow>
      calls_grow sample_view a w w' \<and> calls_grow sample_view b w w'"
    by (auto simp: sample_control_def sample_view_def calls_grow_def Let_def split: option.splits if_splits)
  show ?thesis unfolding copying_plane_def using 1 2 3 4 5 by blast
qed

lemma sample_exclusive: "exclusive_calls sample_view (sample_control failing False) (sample_cloner False) a t"
  unfolding exclusive_calls_def
  by (intro conjI allI impI)
    (auto simp: sample_control_def sample_cloner_def sample_view_def kept_apart_def Let_def split: option.splits if_splits)

lemma sample_cleanup: "cleanup_works sample_view (sample_control failing ambiguous) (sample_cloner ambiguous) a t"
  unfolding cleanup_works_def
  by (intro conjI allI impI)
    (auto simp: sample_control_def sample_cloner_def sample_view_def kept_apart_def Let_def split: option.splits if_splits)

text \<open>A fork of \<open>p\<close>, which has been suspended twice, and one whose clone cannot be resumed.\<close>

lemma sample_fork:
  "sub_Fork (sample_backend False False ResumabilityRequiresMemorySnapshot) CallerCtx (sample_ref ''gs://1'') ''c'' sample_parent
     = ((zero_incarnation\<lparr>inc_id := ''c'', inc_worker := ''worker-a'', inc_address := DefaultRouterAddress,
          inc_callMetadata := [(''ate-target-actor'', ''space/c'')], inc_runtime := ''substrate''\<rparr>, None),
        sample_parent\<lparr>sp_actors := (sp_actors sample_parent)(\<lparr>ar_atespace = ''space'', ar_name = ''c''\<rparr> \<mapsto>
            \<lparr>sa_status = StatusRunning, sa_seed = Some 1, sa_gens = 0\<rparr>),
          sp_tags := (sp_tags sample_parent)(\<lparr>si_atespace = ''space'', si_name = ''fork-c''\<rparr> \<mapsto> 1)\<rparr>)"
proof -
  have held: "sample_held \<lparr>sa_status = x, sa_seed = None, sa_gens = 2\<rparr> = ''gs://1''"
    and past: "sample_past \<lparr>sa_status = x, sa_seed = None, sa_gens = 2\<rparr> = [(''gs://0'', 0), (''gs://1'', 1)]" for x
    by code_simp+
  show ?thesis
    by (simp add: sample_backend_def NewSubstrate_def sample_tier_def Let_def sub_Fork_def sample_control_def clone_fork_def
        requireSnapshot_def actor_of_def sample_parent_def sample_ref_def sample_info_def held past sample_cloner_def
        start_clone_def sub_incarnation_def fork_tag_of_def forkTag_def TargetActorHeader_def fun_upd_def)
      (simp add: fun_eq_iff)
qed

theorem clone_starts_from_its_snapshot_witness:
  "\<exists>w' image u. (''gs://1'', image) \<in> set (pv_past sample_view w' \<lparr>ar_atespace = ''space'', ar_name = ''p''\<rparr>)
     \<and> prefix [(u, image)] (pv_past sample_view w' \<lparr>ar_atespace = ''space'', ar_name = ''c''\<rparr>)"
proof -
  let ?b = "sample_backend False False ResumabilityRequiresMemorySnapshot"
  have "cap_resumability (desc_capabilities (sb_descriptor ?b)) = ResumabilityRequiresMemorySnapshot"
    and "cc_cloner (sb_ctl ?b) = Some (sample_cloner False)"
    and ctl: "sb_ctl ?b = sample_control False False"
    by (simp_all add: sample_backend_def NewSubstrate_def sample_tier_def sample_control_def Let_def)
  note w = clone_starts_from_its_snapshot [OF this(1,2) _ sample_fork, unfolded ctl, OF sample_copying]
  show ?thesis using w by (auto simp: actor_of_def sample_backend_def NewSubstrate_def Let_def sample_ref_def)
qed


text \<open>
  The last proviso is needed.  If creating the child from the tag times out after the control plane has
  created it, \<^verbatim>\<open>Fork\<close> releases the tag the child borrows and leaves the actor, whose name nobody keeps.
\<close>

theorem ambiguous_clone_leaks:
  "let (res, w') = sub_Fork (sample_backend False True ResumabilityRequiresMemorySnapshot) CallerCtx (sample_ref ''gs://1'') ''c'' sample_parent
   in snd res \<noteq> None \<and> pv_exists sample_view w' \<lparr>ar_atespace = ''space'', ar_name = ''c''\<rparr>
     \<and> pv_tag sample_view w' \<lparr>si_atespace = ''space'', si_name = ''fork-c''\<rparr> = NoTag"
  by code_simp

end
