(* ===== verification/Runtime_Contract.thy ===== *)
theory Runtime_Contract
  imports Runtime_Props Eventlog
begin

text \<open>
  The contract of \<^verbatim>\<open>api.Runtime\<close> that the host relies on, as a locale: an incarnation and a snapshot are named
  by the session's uid, an incarnation that is handed out has an address, an error comes with the zero
  incarnation, and a local snapshot is refused.  All three backends keep it; a Placer over a runtime that
  keeps it resumes from the snapshot its suspend took.
\<close>

section \<open>The contract\<close>

locale api_runtime =
  fixes create :: "string option \<Rightarrow> 'b \<Rightarrow> (incarnation \<times> goerr option) \<times> 'b"
    and capture :: "string \<Rightarrow> snapshot_kind \<Rightarrow> 'b \<Rightarrow> (goerr + snapshot_ref) \<times> 'b"
    and restore :: "snapshot_ref \<Rightarrow> 'b \<Rightarrow> (incarnation \<times> goerr option) \<times> 'b"
    and branch :: "snapshot_ref \<Rightarrow> string \<Rightarrow> 'b \<Rightarrow> (incarnation \<times> goerr option) \<times> 'b"
    and good :: "'b \<Rightarrow> bool"
  assumes create_names: "good b \<Longrightarrow> create s b = ((inc, None), b') \<Longrightarrow> s = Some (inc_id inc) \<and> inc_id inc \<noteq> [] \<and> inc_address inc \<noteq> []"
    and create_fails: "create s b = ((inc, Some e), b') \<Longrightarrow> inc = zero_incarnation"
    and create_good: "good b \<Longrightarrow> create s b = (q, b') \<Longrightarrow> good b'"
    and capture_names: "capture uid k b = (Inr ref, b') \<Longrightarrow> sr_local ref = uid \<and> k \<noteq> SnapshotLocal"
    and capture_good: "good b \<Longrightarrow> capture uid k b = (r, b') \<Longrightarrow> good b'"
    and restore_names: "good b \<Longrightarrow> restore ref b = ((inc, None), b') \<Longrightarrow> inc_id inc = sr_local ref \<and> sr_local ref \<noteq> [] \<and> inc_address inc \<noteq> []"
    and restore_fails: "restore ref b = ((inc, Some e), b') \<Longrightarrow> inc = zero_incarnation"
    and restore_good: "good b \<Longrightarrow> restore ref b = (q, b') \<Longrightarrow> good b'"
    and branch_names: "good b \<Longrightarrow> branch ref c b = ((inc, None), b') \<Longrightarrow> inc_id inc = c \<and> c \<noteq> [] \<and> inc_address inc \<noteq> []"
    and branch_fails: "branch ref c b = ((inc, Some e), b') \<Longrightarrow> inc = zero_incarnation"
    and branch_good: "good b \<Longrightarrow> branch ref c b = (q, b') \<Longrightarrow> good b'"
begin

text \<open>What a capture returned brings the same session back.\<close>

lemma restored_session:
  assumes "capture uid k b = (Inr ref, b1)" and "good b2" and "restore ref b2 = ((inc, None), b3)"
  shows "inc_id inc = uid \<and> uid \<noteq> []"
  using capture_names [OF assms(1)] restore_names [OF assms(2,3)] by auto

text \<open>A Placer whose runtime, in the state \<open>bs t\<close> at tick \<open>t\<close>, answers \<^verbatim>\<open>Snapshot(EXTERNAL)\<close> as \<open>capture\<close> does.\<close>

definition serves :: "(nat \<Rightarrow> 'b) \<Rightarrow> 's placer \<Rightarrow> bool" where
  "serves bs p \<longleftrightarrow> (\<forall>t uid. pl_snapshot p t uid = fst (capture uid SnapshotExternal (bs t)))"

lemma served_ref: "serves bs p \<Longrightarrow> pl_snapshot p t uid = Inr ref \<Longrightarrow> sr_local ref = uid"
  unfolding serves_def using capture_names by (metis prod.collapse)

end

section \<open>Suspend and resume over a runtime\<close>

text \<open>A successful suspend appends the snapshot it took as the journal's last record.\<close>

lemma suspend_appends:
  assumes ops: "pl_ops p = AsStore cn" and run: "Placer_Suspend p uid h = (Inr ref, h')"
  shows "\<exists>t r. pl_snapshot p t uid = Inr ref \<and> r_event r = lifecycle_event (suspend_lifecycle ref) \<and> r_seq r = Head (h_log h) + 1
           \<and> log_records (h_log h') = log_records (h_log h) @ [r]"
proof -
  obtain g where g: "acquire uid guardOperation (h_guard h) = (None, g)"
    using run by (cases "acquire uid guardOperation (h_guard h)") (auto simp: Placer_Suspend_def guarded_def split: option.splits)
  define h0 where "h0 = h\<lparr>h_guard := g\<rparr>"
  obtain s where s: "markCheckpoint uid (h_set h0) = (None, s)"
    using run g by (cases "markCheckpoint uid (h_set h0)")
      (auto simp: Placer_Suspend_def guarded_def marked_def h0_def split: option.splits prod.splits)
  define h1 where "h1 = h0\<lparr>h_set := s\<rparr>"
  obtain q h2 where q: "suspend p uid None h1 = (q, h2)" by fastforce
  have res: "q = Inr ref" "h_log h' = h_log h2"
    using run g s q by (auto simp: Placer_Suspend_def guarded_def marked_def h0_def h1_def h_log_def split: prod.splits)
  have l1: "h_log h1 = h_log h" by (simp add: h1_def h0_def h_log_def)
  obtain t h3 where t: "rt_call (RtSnapshot uid) h1 = (t, h3)" by fastforce
  have l3: "h_log h3 = h_log h" using t l1 by (auto simp: rt_call_def ask_def h_log_def tick_def)
  have snap: "pl_snapshot p t uid = Inr ref"
    using q res(1) t ops by (auto simp: suspend_def CheckWritable_def AsStore_def split: sum.splits prod.splits)
  obtain a l where a: "appendLifecycle (AsStore cn) (suspend_lifecycle ref) (h_log h) = (a, l)" by fastforce
  have "isl a = False" "h_log h2 = l"
    using q res(1) t snap ops a l3 by (auto simp: suspend_def CheckWritable_def AsStore_def set_log_def h_log_def split: sum.splits)
  then obtain r where r: "a = Inr r" by (cases a) auto
  obtain f l0 where f: "NewFence (h_log h) = (f, l0)" by fastforce
  then have same: "log_records l0 = log_records (h_log h)" "Head l0 = Head (h_log h)"
    by (auto simp: NewFence_def Head_def)
  have "Append cn (Head l0) f (lifecycle_event (suspend_lifecycle ref)) l0 = (Inr r, l)"
    using a r f by (simp add: appendLifecycle_def appendLifecycleAt_def AsStore_def)
  then have "log_records l = log_records l0 @ [r]" "r_event r = lifecycle_event (suspend_lifecycle ref)" "r_seq r = Head l0 + 1"
    by (auto simp: Append_def Let_def split: if_splits sum.splits)
  then show ?thesis using snap res(2) \<open>h_log h2 = l\<close> same by auto
qed

lemma suspend_is_suspend: "is_suspend (lifecycle_event (suspend_lifecycle ref)) = Some ref"
  by (simp add: is_suspend_def lifecycle_event_def suspend_lifecycle_def zero_event_def)

context api_runtime
begin

lemma resume_finds_suspend:
  assumes ops: "pl_ops p = AsStore cn" and "serves bs p" and run: "Placer_Suspend p uid h = (Inr ref, h')" and "0 \<le> Head (h_log h)"
  shows "lastSuspendRef (pl_ops p) uid (h_log h') = Inr ref" and "sr_local ref = uid"
proof -
  obtain t r where t: "pl_snapshot p t uid = Inr ref" and r: "r_event r = lifecycle_event (suspend_lifecycle ref)"
    "r_seq r = Head (h_log h) + 1" "log_records (h_log h') = log_records (h_log h) @ [r]"
    using suspend_appends [OF ops run] by blast
  show uid: "sr_local ref = uid" by (rule served_ref [OF assms(2) t])
  have "rev (Read 1 (h_log h')) = r # rev (Read 1 (h_log h))" using r assms(4) by (simp add: Read_def)
  then show "lastSuspendRef (pl_ops p) uid (h_log h') = Inr ref"
    using uid r(1) by (simp add: ops lastSuspendRef_def AsStore_def suspend_is_suspend)
qed

end

section \<open>The three backends keep the contract\<close>

text \<open>An incarnation of this backend for a session, whoever returned it.\<close>

definition incarnates :: "'w substrate_backend \<Rightarrow> string \<Rightarrow> incarnation \<Rightarrow> bool" where
  "incarnates b uid inc \<longleftrightarrow> uid \<noteq> [] \<and> inc_id inc = uid \<and> inc_address inc = sb_router b
     \<and> inc_callMetadata inc = [(TargetActorHeader, sb_atespace b @ ''/'' @ uid)]"

lemma sub_incarnation_ok:
  "sub_incarnation b uid info = (inc, None) \<Longrightarrow> uid \<noteq> [] \<Longrightarrow> incarnates b uid inc"
  "sub_incarnation b uid info = (inc, Some e) \<Longrightarrow> inc = zero_incarnation"
  by (auto simp: sub_incarnation_def incarnates_def err_inc_def zero_incarnation_def split: if_splits)

lemma resume_into_ok:
  "resume_into b ctx uid what w = ((inc, None), w') \<Longrightarrow> uid \<noteq> [] \<Longrightarrow> incarnates b uid inc"
  "resume_into b ctx uid what w = ((inc, Some e), w') \<Longrightarrow> inc = zero_incarnation"
  by (auto simp: resume_into_def err_inc_def split: prod.splits sum.splits dest: sub_incarnation_ok)

text \<open>\<^verbatim>\<open>Create\<close> ends in a refusal, in the actor's incarnation or in a resume.\<close>

lemma sub_Create_ends:
  assumes "sub_Create b ctx s w = (q, w')"
  shows "(\<exists>e. q = err_inc e) \<or> (\<exists>uid. s = Some uid \<and> uid \<noteq> [] \<and>
     ((\<exists>info. sub_incarnation b uid info = q) \<or> (\<exists>what v. resume_into b ctx uid what v = (q, w'))))"
proof (cases s)
  case None
  with assms show ?thesis by (auto simp: sub_Create_def)
next
  case (Some uid)
  obtain g w1 where g: "cc_GetActor (sb_ctl b) ctx (actor_of b uid) w = (g, w1)" by fastforce
  obtain c w2 where c: "cc_CreateActor (sb_ctl b) ctx (actor_of b uid) (sb_template b) w1 = (c, w2)" by fastforce
  note run = assms [unfolded sub_Create_def Some option.case g prod.case]
  show ?thesis
  proof (cases g)
    case (Inl e)
    with run c Some show ?thesis by (cases c) (auto split: if_splits)
  next
    case (Inr info)
    with run Some show ?thesis by (auto split: if_splits)
  qed
qed

lemma sub_Create_ok:
  assumes "sub_Create b ctx s w = ((inc, None), w')"
  shows "\<exists>uid. s = Some uid \<and> incarnates b uid inc"
proof -
  have "\<exists>uid. s = Some uid \<and> uid \<noteq> [] \<and>
     ((\<exists>info. sub_incarnation b uid info = (inc, None)) \<or> (\<exists>what v. resume_into b ctx uid what v = ((inc, None), w')))"
    using sub_Create_ends [OF assms] by (simp add: err_inc_def)
  then obtain uid where uid: "s = Some uid" "uid \<noteq> []"
    and ends: "(\<exists>info. sub_incarnation b uid info = (inc, None)) \<or> (\<exists>what v. resume_into b ctx uid what v = ((inc, None), w'))"
    by (elim exE conjE)
  from ends have "incarnates b uid inc"
  proof (elim disjE exE)
    fix info
    assume "sub_incarnation b uid info = (inc, None)"
    then show ?thesis using uid(2) by (rule sub_incarnation_ok(1))
  next
    fix what v
    assume "resume_into b ctx uid what v = ((inc, None), w')"
    then show ?thesis using uid(2) by (rule resume_into_ok(1))
  qed
  then show ?thesis using uid(1) by blast
qed

lemma sub_Create_fails:
  assumes "sub_Create b ctx s w = ((inc, Some e), w')"
  shows "inc = zero_incarnation"
  using sub_Create_ends [OF assms] by (auto simp: err_inc_def dest: sub_incarnation_ok(2) resume_into_ok(2))

lemma sub_Restore_ok: "sub_Restore b ctx ref w = ((inc, None), w') \<Longrightarrow> incarnates b (sr_local ref) inc"
  "sub_Restore b ctx ref w = ((inc, Some e), w') \<Longrightarrow> inc = zero_incarnation"
  by (auto simp: sub_Restore_def err_inc_def split: if_splits dest: resume_into_ok)

lemma start_clone_fails:
  assumes "start_clone b ctx child w = ((inc, Some e), w')"
  shows "inc = zero_incarnation"
proof -
  obtain r w1 where r: "cc_ResumeActor (sb_ctl b) ctx (actor_of b child) w = (r, w1)" by fastforce
  show ?thesis
  proof (cases r)
    case (Inl x)
    with assms r show ?thesis by (simp add: start_clone_def err_inc_def)
  next
    case (Inr info)
    then show ?thesis using assms r by (cases "sub_incarnation b child info")
      (auto simp: start_clone_def err_inc_def split: option.splits)
  qed
qed

lemma clone_fork_result:
  assumes "clone_fork b ctx cl ref child w = ((inc, Some e), w')"
  shows "inc = zero_incarnation"
proof -
  obtain r1 w1 where 1: "requireSnapshot b ctx (sr_local ref) (sr_externalURI ref) w = (r1, w1)" by fastforce
  obtain r2 w2 where 2: "cl_TagActor cl ctx (actor_of b (sr_local ref)) (fork_tag_of b child) w1 = (r2, w2)" by fastforce
  obtain r3 w3 where 3: "requireSnapshot b ctx (sr_local ref) (sr_externalURI ref) w2 = (r3, w3)" by fastforce
  obtain r4 w4 where 4: "cl_CreateActorFromTag cl ctx (actor_of b child) (sb_template b) (fork_tag_of b child) w3 = (r4, w4)"
    by fastforce
  note run = assms [unfolded clone_fork_def Let_def 1 prod.case]
  consider "r1 \<noteq> None" | "r1 = None" "r2 \<noteq> None" | "r1 = None" "r2 = None" "r3 \<noteq> None"
    | "r1 = None" "r2 = None" "r3 = None" "r4 \<noteq> None" | "r1 = None" "r2 = None" "r3 = None" "r4 = None" by blast
  then show ?thesis
  proof cases
    case 5
    then have "start_clone b ctx child w4 = ((inc, Some e), w')" using run 2 3 4 by simp
    then show ?thesis by (rule start_clone_fails)
  qed (use run 2 3 4 in \<open>auto simp: err_inc_def\<close>)
qed

lemma sub_Fork_ok:
  assumes "sub_Fork b ctx ref c w = ((inc, None), w')"
  shows "incarnates b c inc"
proof (cases "cap_resumability (desc_capabilities (sb_descriptor b)) = ResumabilityRequiresMemorySnapshot")
  case True
  obtain cl where run: "clone_fork b ctx cl ref c w = ((inc, None), w')" by (rule sub_Fork_memory_ok [OF assms True])
  have c: "c \<noteq> []" using assms by (auto simp: sub_Fork_def err_inc_def)
  obtain info where "sub_incarnation b c info = (inc, None)" by (rule clone_fork_ok [OF run])
  then show ?thesis using c by (rule sub_incarnation_ok(1))
next
  case False
  obtain i r w1 where c: "sub_Create b ctx (Some c) w = ((i, r), w1)" by (metis prod.exhaust)
  have "r = None \<and> i = inc" using assms False c by (cases r) (auto simp: sub_Fork_def err_inc_def split: if_splits)
  with c have "sub_Create b ctx (Some c) w = ((inc, None), w1)" by simp
  from sub_Create_ok [OF this] show ?thesis by blast
qed

lemma sub_Fork_fails:
  assumes "sub_Fork b ctx ref c w = ((inc, Some e), w')"
  shows "inc = zero_incarnation"
  using assms by (auto simp: sub_Fork_def err_inc_def split: if_splits prod.splits option.splits
      dest: sub_Create_fails clone_fork_result)

lemma sub_Snapshot_ok: "sub_Snapshot b ctx uid k w = (Inr ref, w') \<Longrightarrow> sr_local ref = uid \<and> k \<noteq> SnapshotLocal"
  by (auto simp: sub_Snapshot_def split: if_splits prod.splits sum.splits)

interpretation on_plane: api_runtime "sub_Create b ctx" "sub_Snapshot b ctx" "sub_Restore b ctx" "sub_Fork b ctx"
  "\<lambda>_. sb_router b \<noteq> []" for b ctx
  by unfold_locales
    (auto simp: incarnates_def dest: sub_Create_ok sub_Create_fails sub_Snapshot_ok sub_Restore_ok sub_Fork_ok sub_Fork_fails)

text \<open>The socket a running server listens on is the one whose address is handed out.\<close>

definition listening :: "local_backend \<Rightarrow> bool" where
  "listening b \<longleftrightarrow> (\<forall>s. lb_srv b = Some s \<longrightarrow> lb_addr b = unix_scheme @ s)"

lemma local_start_ok:
  assumes "listening b" and "local_start sockPath listen b = (r, b')"
  shows "listening b'" and "r = Inr addr \<Longrightarrow> \<exists>s. lb_srv b' = Some s \<and> addr = unix_scheme @ s"
  using assms by (auto simp: local_start_def listening_def Let_def split: if_splits option.splits)

lemma local_Create_ok:
  assumes "listening b" and "local_Create sockPath listen s b = (q, b')"
  shows "listening b'"
    and "q = (inc, None) \<Longrightarrow> s = Some (inc_id inc) \<and> inc_id inc \<noteq> [] \<and> inc_callMetadata inc = []
           \<and> (\<exists>sock. lb_srv b' = Some sock \<and> inc_address inc = unix_scheme @ sock)"
    and "q = (inc, Some e) \<Longrightarrow> inc = zero_incarnation"
  using assms
  by (auto simp: local_Create_def err_inc_def zero_incarnation_def split: option.splits if_splits prod.splits sum.splits
      dest: local_start_ok)

lemma local_Create_fails: "local_Create sockPath listen s b = ((inc, Some e), b') \<Longrightarrow> inc = zero_incarnation"
  by (auto simp: local_Create_def err_inc_def split: option.splits if_splits prod.splits sum.splits)

lemma local_created:
  assumes "listening b" and "local_Create sockPath listen s b = ((inc, None), b')"
  shows "s = Some (inc_id inc) \<and> inc_id inc \<noteq> [] \<and> inc_address inc \<noteq> []"
  using local_Create_ok(2) [OF assms refl] by (auto simp: unix_scheme_def)

lemma local_Restore_ok:
  "listening b \<Longrightarrow> local_Restore sockPath listen ref b = ((inc, None), b') \<Longrightarrow>
     inc_id inc = sr_local ref \<and> sr_local ref \<noteq> [] \<and> inc_address inc \<noteq> []"
  "local_Restore sockPath listen ref b = ((inc, Some e), b') \<Longrightarrow> inc = zero_incarnation"
  "listening b \<Longrightarrow> local_Restore sockPath listen ref b = (q, b') \<Longrightarrow> listening b'"
  using local_created [of b sockPath listen "Some (sr_local ref)" inc b'] local_Create_ok(1)
    local_Create_fails [of sockPath listen "Some (sr_local ref)" b inc e b']
  by (auto simp: local_Restore_def err_inc_def split: if_splits)

lemma local_Fork_ok:
  "listening b \<Longrightarrow> local_Fork sockPath listen ref c b = ((inc, None), b') \<Longrightarrow>
     inc_id inc = c \<and> c \<noteq> [] \<and> inc_address inc \<noteq> []"
  "local_Fork sockPath listen ref c b = ((inc, Some e), b') \<Longrightarrow> inc = zero_incarnation"
  "listening b \<Longrightarrow> local_Fork sockPath listen ref c b = (q, b') \<Longrightarrow> listening b'"
  using local_created [of b sockPath listen "Some c" inc b'] local_Create_ok(1)
    local_Create_fails [of sockPath listen "Some c" b inc e b']
  by (auto simp: local_Fork_def err_inc_def split: if_splits)

interpretation in_process: api_runtime "local_Create sockPath listen" "\<lambda>uid k b. (local_Snapshot uid k, b)"
  "local_Restore sockPath listen" "local_Fork sockPath listen" listening for sockPath listen
proof
  show "listening b'" if "listening b" "local_Create sockPath listen s b = (q, b')" for b s q b'
    by (rule local_Create_ok(1) [OF that])
qed (auto simp: local_Snapshot_def split: if_splits
      intro: local_Restore_ok local_Fork_ok local_Create_fails dest: local_created local_Restore_ok(1) local_Fork_ok(1))

lemma remote_Create_ok:
  "remote_Create b s = (inc, None) \<Longrightarrow> s = Some (inc_id inc) \<and> inc_id inc \<noteq> [] \<and> inc_address inc = rb_addr b
     \<and> inc_callMetadata inc = [] \<and> rb_addr b \<noteq> []"
  "remote_Create b s = (inc, Some e) \<Longrightarrow> inc = zero_incarnation"
  by (auto simp: remote_Create_def err_inc_def zero_incarnation_def split: option.splits if_splits)

interpretation elsewhere: api_runtime "\<lambda>s b. (remote_Create b s, b)" "\<lambda>uid k b. (remote_Snapshot uid k, b)"
  "\<lambda>ref b. (remote_Restore b ref, b)" "\<lambda>ref c b. (remote_Fork b ref c, b)" "\<lambda>_. True"
  by unfold_locales
    (auto simp: remote_Restore_def remote_Fork_def remote_Snapshot_def err_inc_def split: if_splits dest: remote_Create_ok)

text \<open>A Placer over one of the repository's runtimes.\<close>

definition repository_runtime :: "'w substrate_backend \<Rightarrow> call_ctx \<Rightarrow> (nat \<Rightarrow> 'w) \<Rightarrow> 's placer \<Rightarrow> bool" where
  "repository_runtime b ctx ws p \<longleftrightarrow>
     (\<forall>t uid. pl_snapshot p t uid = fst (sub_Snapshot b ctx uid SnapshotExternal (ws t)))
     \<or> (\<forall>t uid. pl_snapshot p t uid = local_Snapshot uid SnapshotExternal)
     \<or> (\<forall>t uid. pl_snapshot p t uid = remote_Snapshot uid SnapshotExternal)"

text \<open>
  What a suspend captured is what the next resume asks for.  Over any of the repository's runtimes, when
  \<^verbatim>\<open>Placer.Suspend\<close> returns a snapshot, the snapshot is named by the session, and \<^verbatim>\<open>lastSuspendRef\<close> of the
  journal it leaves -- the reference the next \<^verbatim>\<open>Resume\<close> gives to the runtime -- is that very snapshot.
\<close>

theorem resume_asks_for_what_suspend_captured:
  assumes "pl_ops p = AsStore cn" and "repository_runtime b ctx ws p"
    and "Placer_Suspend p uid h = (Inr ref, h')" and "0 \<le> Head (h_log h)"
  shows "lastSuspendRef (pl_ops p) uid (h_log h') = Inr ref" and "sr_local ref = uid"
proof -
  have "lastSuspendRef (pl_ops p) uid (h_log h') = Inr ref \<and> sr_local ref = uid"
    using assms(2) unfolding repository_runtime_def
  proof (elim disjE)
    assume "\<forall>t uid. pl_snapshot p t uid = fst (sub_Snapshot b ctx uid SnapshotExternal (ws t))"
    then have "on_plane.serves b ctx ws p" by (simp add: on_plane.serves_def)
    then show ?thesis using on_plane.resume_finds_suspend [OF assms(1) _ assms(3,4)] by blast
  next
    assume "\<forall>t uid. pl_snapshot p t uid = local_Snapshot uid SnapshotExternal"
    then have "in_process.serves bs p" for bs by (simp add: in_process.serves_def)
    then show ?thesis using in_process.resume_finds_suspend [OF assms(1) _ assms(3,4)] by blast
  next
    assume "\<forall>t uid. pl_snapshot p t uid = remote_Snapshot uid SnapshotExternal"
    then have "elsewhere.serves bs p" for bs by (simp add: elsewhere.serves_def)
    then show ?thesis using elsewhere.resume_finds_suspend [OF assms(1) _ assms(3,4)] by blast
  qed
  then show "lastSuspendRef (pl_ops p) uid (h_log h') = Inr ref" and "sr_local ref = uid" by blast+
qed

end
