(* ===== verification/Spec2Isabelle.thy ===== *)
theory Spec2Isabelle
  imports Crash Sqlite_Migrate Sqlite_Paging Placement_Forks Registry_Props Race_Checkpoint Service_Data Harness_Props Remote_Turns Remote_Peers
    Runtime_Contract
begin

text \<open>
  A verification development for the core of \<^emph>\<open>agentsessions\<close>: durable, replayable sessions of agent
  harnesses over a hash-chained journal.

  \<^bold>\<open>The program.\<close>  A session is a journal (package \<^verbatim>\<open>eventlog\<close>) of typed events (package \<^verbatim>\<open>api\<close>), each
  stored in a canonical wire form (packages \<^verbatim>\<open>wire\<close> and \<^verbatim>\<open>canon\<close>) and chained by SHA-256.  A controller
  (package \<^verbatim>\<open>controller\<close>) runs turns of a harness against it: \<^verbatim>\<open>Exec\<close> runs a turn live and records every
  effect, \<^verbatim>\<open>Replay\<close> re-runs the recorded turns with every effect served from the journal, \<^verbatim>\<open>Resume\<close>
  completes a turn that a crash or an approval gate interrupted, \<^verbatim>\<open>Approve\<close> decides a gate and \<^verbatim>\<open>Fork\<close>
  branches a journal.  The harness reaches the world only through the event sink it is handed, and
  the three ways of running differ only in that sink.  A Placer (package \<^verbatim>\<open>placement\<close>) puts a turn on
  compute: it admits the harness, provisions or restores an incarnation, dials it, mints the fence,
  runs the controller and suspends a parked session; a registry routes sessions to Placers that share
  one session guard.  The services (package \<^verbatim>\<open>session\<close>) answer the RPCs: they look a session up in the durable
  store, route it to the Placer of its harness and turn errors into gRPC statuses.

  \<^bold>\<open>The theories.\<close>
  \<^item> \<open>Prelude\<close>: Go's formatting of numbers and quoted strings, list and option lemmas.
  \<^item> \<open>Go_Errors\<close>: error trees, \<^verbatim>\<open>errors.Is\<close>, \<^verbatim>\<open>errors.As\<close>, \<^verbatim>\<open>IsParkUnwind\<close> (\<^verbatim>\<open>api/approval.go\<close>).
  \<^item> \<open>Api_Types\<close>: the domain types (\<^verbatim>\<open>api/*.go\<close>), a harness run as a tree of sink calls, \<open>drive\<close>, and
    the locales \<open>sink_relation\<close> and \<open>sink_invariant\<close> that lift facts about the five sink methods to
    whole runs.
  \<^item> \<open>Wire\<close>: \<^verbatim>\<open>wire/convert.go\<close> and \<^verbatim>\<open>wire/state.go\<close>; round trip and normal form.
  \<^item> \<open>Canon\<close>, \<open>Eventlog\<close>: canonical bytes and hashes; the in-memory log (\<^verbatim>\<open>Append\<close>, \<^verbatim>\<open>NewFence\<close>, \<^verbatim>\<open>Read\<close>,
    \<^verbatim>\<open>Verify\<close>); the \<^verbatim>\<open>Store\<close> interface as the record \<open>store_ops\<close> and the locale \<open>event_store\<close>,
    interpreted on the in-memory log.  Compare-and-swap exclusion, fencing, chain validity, tamper
    evidence.
  \<^item> \<open>Executions\<close>: journals grouped into executions, and the v0.1.2 compatibility prefix
    (\<^verbatim>\<open>controller/executions.go\<close>, \<^verbatim>\<open>legacy.go\<close>).
  \<^item> \<open>Approval\<close>: the scan of approval evidence and \<^verbatim>\<open>Approve\<close> (\<^verbatim>\<open>controller/approval.go\<close>).
  \<^item> \<open>Sinks\<close>: the live, replay and resume sinks (\<^verbatim>\<open>effects.go\<close>, \<^verbatim>\<open>resume.go\<close>, \<^verbatim>\<open>approval_effects.go\<close>,
    \<^verbatim>\<open>sink_guard.go\<close>, \<^verbatim>\<open>tool_identity.go\<close>).
  \<^item> \<open>Controller\<close>: \<^verbatim>\<open>New\<close>, \<^verbatim>\<open>Exec\<close>, \<^verbatim>\<open>Replay\<close>, \<^verbatim>\<open>Resume\<close>, \<^verbatim>\<open>ResumeInvocation\<close>, \<^verbatim>\<open>Outputs\<close>, \<^verbatim>\<open>Fork\<close>,
    \<^verbatim>\<open>CanPlace\<close>.
  \<^item> \<open>Recording\<close>: what \<^verbatim>\<open>Exec\<close> writes, for every harness and every failure; the locale
    \<open>controller_store\<close>.
  \<^item> \<open>Turns\<close>: how the journal's readers see a journal extended by one turn.
  \<^item> \<open>Replaying\<close>, \<open>Replay_Props\<close>: the effects a live run records are served back by the replay sink,
    and \<^verbatim>\<open>Replay\<close> after \<^verbatim>\<open>Exec\<close> reproduces the turn; replay is read-only.
  \<^item> \<open>Gates\<close>: approval gates: a parked turn is open, blocks new turns, is decided once.
  \<^item> \<open>Recovery\<close>: \<^verbatim>\<open>Resume\<close> serves before it acts and leaves finished journals alone; \<^verbatim>\<open>Fork\<close>.
  \<^item> \<open>Crash\<close>: a turn cut off anywhere by a crash and resumed by another controller completes.
  \<^item> \<open>Sqlitelog\<close>: the durable store (\<^verbatim>\<open>sqlitelog/*.go\<close>): the tables as lists and maps, one function per
    statement, transactions that roll back; journals, session metadata, the incremental projection of
    approvals, deletion, the harness registry, listing, migrations.
  \<^item> \<open>Sqlite_Store\<close>, \<open>Sqlite_Ops\<close>: the invariant \<open>db_ok\<close>, the interpretation of \<open>event_store\<close> on the durable
    log, every operation branch by branch, and \<open>db_run\<close>: any sequence of calls by any processes.
  \<^item> \<open>Sqlite_Props\<close>: the durable log refines the in-memory log, its journals verify, deletion is final,
    harness names are settled.  \<open>Sqlite_Approval\<close>: the reported approval is the one the strict scan finds
    open.  \<open>Sqlite_Paging\<close>: following page tokens visits every session once.  \<open>Sqlite_Migrate\<close>: the
    migration ladder.
  \<^item> \<open>Session_Guard\<close>: the admission guard (\<^verbatim>\<open>placement/session_guard.go\<close>) and the set of harness connections
    and checkpoint marks (\<^verbatim>\<open>sessionSet\<close>, \<^verbatim>\<open>liveHarness\<close>), one function per critical section.
  \<^item> \<open>Placement\<close>, \<open>Registry\<close>: \<^verbatim>\<open>placement.go\<close> and \<^verbatim>\<open>registry.go\<close>, each operation from call to return on a host
    state with the journal, the guard, the set and the list of runtime calls.
  \<^item> \<open>Placement_Frame\<close>: the locales \<open>host_frame\<close> and \<open>turn_frame\<close> (what a relation must be closed under to
    be kept by every operation), interpreted for connections, holds and the call trace.
  \<^item> \<open>Placement_Props\<close>, \<open>Placement_Forks\<close>: operations give back guard, mark and connections; admission; parks
    are cold; forks are all or nothing; recovery restores the session's own state.
    \<open>Registry_Props\<close>: Placers of a registry share guard and set, names keep their meaning.
  \<^item> \<open>Placement_Race\<close>, \<open>Race_Checkpoint\<close>: the operations of one session interleaved at every access to shared
    state, as a step relation; mutual exclusion, and that compute made cold is always recorded.
  \<^item> \<open>Harness_Wire\<close>: \<^verbatim>\<open>harnesswire/harnesswire.go\<close>, both ends of the stream a remote harness runs over: the
    server's handler as a tree of what it asks of its stream, the client as the run it makes of any peer.
    \<open>Harness_Remote\<close>: joined, they implement the specification \<open>remote\<close>.  \<open>Remote_Turns\<close>: the locale
    \<open>wire_host\<close>, interpreted on the live sink; a remote turn leaves the journal of a local one.
    \<open>Remote_Peers\<close>: what each end keeps to whatever the other does.
  \<^item> \<open>Service_Errors\<close>: the gRPC status that each internal error becomes (\<^verbatim>\<open>session/service.go\<close>, \<^verbatim>\<open>approval.go\<close>,
    \<^verbatim>\<open>delete.go\<close>).  \<open>Json_Map\<close>: label and annotation maps as the JSON text the store keeps
    (\<^verbatim>\<open>session/metadata.go\<close>).
  \<^item> \<open>Session_Service\<close>: every RPC of the Sessions service, over the durable store, the registry and its Placers.
    \<open>Harness_Registry\<close>: \<^verbatim>\<open>session/harness_registry.go\<close>, registrations in the store and the Placers that serve them.
  \<^item> \<open>Store_Frame\<close>, \<open>Host_Frame\<close>: the locale \<open>store_frame\<close> (a relation on stores closed under the calls a
    controller makes), lifted to turns, recoveries, Placer operations and the registry.
  \<^item> \<open>Service_Frame\<close>, \<open>Service_Calls\<close>, \<open>Service_Props\<close>: every RPC is a sequence of store calls by one caller, so
    deletion stays final, sessions are isolated from the RPCs of others, and every error a caller sees is a
    status.  \<open>Service_Data\<close>: a created session reads back as it was asked for; turns run on the Placer its
    harness names.
  \<^item> \<open>Harness_Props\<close>: after start-up every stored registration is served; one name means one harness;
    a registration either takes effect in store and registry or gives its Placer back.

  \<^item> \<open>Substrate\<close>: \<^verbatim>\<open>runtime/substrate/substrate.go\<close>, compute as actors of a control plane, and forks that clone
    memory.  \<open>Runtimes\<close>: \<^verbatim>\<open>runtime/local\<close>, \<^verbatim>\<open>runtime/remote\<close>, the default dialer of \<^verbatim>\<open>placement.go\<close> and the adapter
    \<^verbatim>\<open>integrations/substrate/adapter.go\<close>.  \<open>Runtime_Props\<close>: a clone starts from the snapshot its fork took, a
    fork that fails leaves nothing.  \<open>Runtime_Contract\<close>: the locale \<open>api_runtime\<close>, what the Placer relies on of a
    runtime, interpreted on all three.

  \<^bold>\<open>How code corresponds to definitions.\<close>  A struct is a record, an enumeration a datatype with a
  constructor for undeclared values, a Go map a partial function, a pointer that may be nil an option.
  A fallible function returns \<open>goerr + 'a\<close>, or \<open>goerr option\<close> when it returns only an error; the error
  texts are the code's, because they are journaled.  State is passed explicitly: the journal as a value of the
  store type, the controller's counters, the observer's notifications and the calls made to the
  provider and the tool executor in the record \<open>world\<close>.  Everything the environment decides (model and
  tool answers, fresh IDs, cancellation, \<^verbatim>\<open>Describe\<close>) is a function of a counter that advances with every
  question, so it may change at any time.  Sequence numbers, fences and token counts are \<open>int\<close>: the
  code never does arithmetic on them that could leave 64 bits but for the increment of a sequence
  number.  Every definition is total and none needs fuel: a harness run is a well-founded tree, so the
  model speaks of harnesses that return.

  \<^bold>\<open>Parameters.\<close>  \<^verbatim>\<open>structpb\<close>, \<^verbatim>\<open>encoding/json\<close>, \<^verbatim>\<open>protojson\<close> and SHA-256 are fields of \<open>struct_codec\<close> and
  \<open>canon_env\<close>; the hypotheses on them are \<open>codec_ok\<close>, \<open>digest_nonempty\<close>, \<open>canonical_injective\<close> and the
  absence of hash collisions, each with a concrete instance in the witnesses.  \<^verbatim>\<open>proto.Marshal\<close> and
  \<^verbatim>\<open>proto.Unmarshal\<close>, the clock and the faults of the database driver are fields of \<open>sql_env\<close>; \<open>env_ok\<close> says
  that a marshalled event unmarshals.  The runtime, the dialer, gRPC status codes and the cancellation of
  contexts are fields of \<open>placer\<close>; \<open>honest\<close> says that none of them fabricates an approval park.
  Random bytes, the clock, the contexts of a call, the registry at each moment and the JSON text of the messages
  that metadata rows keep are fields of \<open>service\<close>; the factory that attaches a harness, what its Placer
  describes itself as and \<^verbatim>\<open>protojson\<close> are fields of \<open>harness_service\<close>.  \<open>protojson_ok\<close> says that a
  marshalled message is not empty and unmarshals to itself, \<open>map_ok\<close> that the strings of a map are UTF-8, and
  \<open>fixed_names\<close> that the harnesses named by the daemon's configuration do not change while it runs.
  The calls of the control plane are fields of \<open>control_client\<close> and \<open>snapshot_cloner\<close>, functions on a state of
  the plane of any type; the laws \<open>copying_plane\<close>, \<open>exclusive_calls\<close> and \<open>cleanup_works\<close> state what the comments on
  those interfaces say of it.  Opening a client, listening on a socket and the generated client of the control
  plane are arguments of the runtimes' operations.
  How gRPC renders a handler's error, random bytes and the context of a client are fields of \<open>stream_link\<close> and
  \<open>wire_client\<close>.

  \<^bold>\<open>Not modelled.\<close>  Debug logging; the goroutines of one invocation beyond the sequence their lock
  makes of their calls; connection set-up of the database driver; writers in other
  processes during a placement operation or between two statements of an RPC handler (the journal's own
  fencing covers them); request ids; calls from goroutines of a remote
  harness that overlap its run; the goroutine that serves the local runtime's socket; the provider client, the command line tools and generated code.
\<close>

end
